(* ===== verification/Go_Prelude.thy ===== *)
theory Go_Prelude
  imports Main "HOL-Library.Char_ord" "HOL-Library.List_Lexorder" "HOL-Library.Sublist"
begin

text \<open>
  The part of Go's standard library the modelled packages use, over byte strings: a Go
  \<^verbatim>\<open>string\<close> is a \<^typ>\<open>string\<close> (a list of bytes), and the character classes are those of ASCII text.
  The functions keep Go's names from package \<^verbatim>\<open>strings\<close> and \<^verbatim>\<open>strconv\<close>; an index that Go reports as
  \<open>-1\<close> is \<^const>\<open>None\<close>.
\<close>

named_theorems go_string_simps \<open>definitions that evaluate the string functions on literals\<close>

section \<open>Package strings\<close>

definition is_space :: "char \<Rightarrow> bool" where
  "is_space c = (c = CHR '' '' \<or> c = CHR 0x09 \<or> c = CHR 0x0A \<or> c = CHR 0x0B \<or> c = CHR 0x0C \<or> c = CHR 0x0D)"

definition TrimRightP :: "(char \<Rightarrow> bool) \<Rightarrow> string \<Rightarrow> string" where
  "TrimRightP p s = rev (dropWhile p (rev s))"

definition TrimP :: "(char \<Rightarrow> bool) \<Rightarrow> string \<Rightarrow> string" where
  "TrimP p s = TrimRightP p (dropWhile p s)"

definition TrimSpace :: "string \<Rightarrow> string" where
  "TrimSpace s = TrimP is_space s"

definition HasPrefix :: "string \<Rightarrow> string \<Rightarrow> bool" where
  "HasPrefix s p = (take (length p) s = p)"

definition HasSuffix :: "string \<Rightarrow> string \<Rightarrow> bool" where
  "HasSuffix s p = HasPrefix (rev s) (rev p)"

definition TrimPrefix :: "string \<Rightarrow> string \<Rightarrow> string" where
  "TrimPrefix s p = (if HasPrefix s p then drop (length p) s else s)"

fun Contains :: "string \<Rightarrow> string \<Rightarrow> bool" where
  "Contains [] t = (t = [])"
| "Contains (c # s) t = (HasPrefix (c # s) t \<or> Contains s t)"

fun IndexByte :: "string \<Rightarrow> char \<Rightarrow> nat option" where
  "IndexByte [] d = None"
| "IndexByte (c # s) d = (if c = d then Some 0 else map_option Suc (IndexByte s d))"

definition LastIndexByte :: "string \<Rightarrow> char \<Rightarrow> nat option" where
  "LastIndexByte s d = map_option (\<lambda>i. length s - 1 - i) (IndexByte (rev s) d)"

fun ReplaceFirst :: "string \<Rightarrow> string \<Rightarrow> string \<Rightarrow> string" where
  "ReplaceFirst [] old new = []"
| "ReplaceFirst (c # s) old new =
     (if HasPrefix (c # s) old then new @ drop (length old) (c # s) else c # ReplaceFirst s old new)"

definition ReplaceByte :: "string \<Rightarrow> char \<Rightarrow> char \<Rightarrow> string" where
  "ReplaceByte s d e = map (\<lambda>c. if c = d then e else c) s"

definition to_lower_char :: "char \<Rightarrow> char" where
  "to_lower_char c =
     (if of_char c \<ge> (65::nat) \<and> of_char c \<le> (90::nat) then char_of (of_char c + (32::nat)) else c)"

definition ToLower :: "string \<Rightarrow> string" where
  "ToLower s = map to_lower_char s"

definition EqualFold :: "string \<Rightarrow> string \<Rightarrow> bool" where
  "EqualFold s t = (ToLower s = ToLower t)"

fun SplitByte :: "string \<Rightarrow> char \<Rightarrow> string list" where
  "SplitByte [] d = [[]]"
| "SplitByte (c # s) d =
     (if c = d then [] # SplitByte s d
      else (case SplitByte s d of [] \<Rightarrow> [[c]] | w # ws \<Rightarrow> (c # w) # ws))"

fun Join :: "string list \<Rightarrow> string \<Rightarrow> string" where
  "Join [] sep = []"
| "Join [s] sep = s"
| "Join (s # t # ss) sep = s @ sep @ Join (t # ss) sep"

text \<open>\<^verbatim>\<open>strings.Cut(s, sep)\<close> for a one-byte separator: before, after, found.\<close>

definition CutByte :: "string \<Rightarrow> char \<Rightarrow> string \<times> string \<times> bool" where
  "CutByte s d = (case IndexByte s d of None \<Rightarrow> (s, [], False)
     | Some i \<Rightarrow> (take i s, drop (Suc i) s, True))"

text \<open>\<^verbatim>\<open>strings.ReplaceAll\<close> and \<^verbatim>\<open>strings.Split\<close>, for non-empty patterns.\<close>

function ReplaceAll :: "string \<Rightarrow> string \<Rightarrow> string \<Rightarrow> string" where
  "ReplaceAll [] old new = []"
| "ReplaceAll (c # s) old new =
     (if old \<noteq> [] \<and> HasPrefix (c # s) old then new @ ReplaceAll (drop (length old) (c # s)) old new else c # ReplaceAll s old new)"
  by pat_completeness auto
termination by (relation "measure (\<lambda>(s, _, _). length s)") (auto simp: neq_Nil_conv)

function Split :: "string \<Rightarrow> string \<Rightarrow> string list" where
  "Split [] sep = [[]]"
| "Split (c # s) sep =
     (if sep \<noteq> [] \<and> HasPrefix (c # s) sep then [] # Split (drop (length sep) (c # s)) sep
      else (case Split s sep of [] \<Rightarrow> [[c]] | w # ws \<Rightarrow> (c # w) # ws))"
  by pat_completeness auto
termination by (relation "measure (\<lambda>(s, _). length s)") (auto simp: neq_Nil_conv)

section \<open>Package strconv, base 10 and 64 bits\<close>

definition is_digit :: "char \<Rightarrow> bool" where
  "is_digit c = (of_char c \<ge> (48::nat) \<and> of_char c \<le> (57::nat))"

definition digit_val :: "char \<Rightarrow> nat" where
  "digit_val c = of_char c - 48"

definition digits_val :: "string \<Rightarrow> nat" where
  "digits_val s = foldl (\<lambda>n c. 10 * n + digit_val c) 0 s"

definition in_int64 :: "int \<Rightarrow> bool" where
  "in_int64 n = (- (2 ^ 63) \<le> n \<and> n < 2 ^ 63)"

text \<open>
  \<^verbatim>\<open>strconv.ParseInt(s, 10, 64)\<close>, and \<^verbatim>\<open>strconv.Atoi\<close> on a 64-bit platform: an optional sign, at
  least one digit, nothing else, and a value of 64 bits.
\<close>

definition ParseInt :: "string \<Rightarrow> int option" where
  "ParseInt s =
     (let (neg, ds) = (case s of [] \<Rightarrow> (False, [])
          | c # r \<Rightarrow> if c = CHR ''-'' then (True, r) else if c = CHR ''+'' then (False, r) else (False, s));
          n = (if neg then - int (digits_val ds) else int (digits_val ds))
      in if ds = [] \<or> \<not> list_all is_digit ds \<or> \<not> in_int64 n then None else Some n)"

fun show_nat :: "nat \<Rightarrow> string" where
  "show_nat n = (if n < 10 then [char_of (48 + n)] else show_nat (n div 10) @ [char_of (48 + n mod 10)])"

declare show_nat.simps [simp del]

definition FormatInt :: "int \<Rightarrow> string" where
  "FormatInt n = (if n < 0 then CHR ''-'' # show_nat (nat (- n)) else show_nat (nat n))"

lemmas [go_string_simps] =
  is_space_def TrimRightP_def TrimP_def TrimSpace_def HasPrefix_def HasSuffix_def TrimPrefix_def
  LastIndexByte_def ReplaceByte_def to_lower_char_def ToLower_def EqualFold_def CutByte_def

section \<open>Facts the components share\<close>

lemma HasPrefix_prefix: "HasPrefix s p = prefix p s"
  by (metis HasPrefix_def append_eq_conv_conj prefix_def)

lemma HasSuffix_suffix: "HasSuffix s p = suffix p s"
  by (simp add: HasSuffix_def HasPrefix_prefix suffix_to_prefix)

lemma Contains_sublist: "Contains s t = sublist t s"
  by (induction s) (auto simp: HasPrefix_prefix sublist_Cons_right)

lemma Contains_byte: "Contains s [c] = (c \<in> set s)"
  by (induction s) (auto simp: HasPrefix_prefix)

lemma IndexByte_None: "IndexByte s d = None \<longleftrightarrow> d \<notin> set s"
  by (induction s) auto

lemma IndexByte_Some: "IndexByte s d = Some i \<Longrightarrow> i < length s \<and> s ! i = d \<and> d \<notin> set (take i s)"
  by (induction s arbitrary: i) (auto split: if_splits)

lemma IndexByte_append: "d \<notin> set a \<Longrightarrow> IndexByte (a @ d # b) d = Some (length a)"
  by (induction a) auto

lemma LastIndexByte_None: "LastIndexByte s d = None \<longleftrightarrow> d \<notin> set s"
  by (simp add: LastIndexByte_def IndexByte_None)

lemma LastIndexByte_append: "d \<notin> set b \<Longrightarrow> LastIndexByte (a @ d # b) d = Some (length a)"
  by (simp add: LastIndexByte_def IndexByte_append)

lemma LastIndexByte_SomeE:
  assumes "LastIndexByte s d = Some i"
  obtains b where "s = take i s @ d # b" "d \<notin> set b" "i < length s" "b = drop (Suc i) s"
proof -
  have "d \<in> set s" using assms LastIndexByte_None [of s d] by auto
  then obtain a b where s: "s = a @ d # b" "d \<notin> set b" using split_list_last by fastforce
  then have "i = length a" using assms LastIndexByte_append by fastforce
  with s show thesis by (intro that [of b]) auto
qed

definition trimmed :: "string \<Rightarrow> bool" where
  "trimmed s = (s = [] \<or> \<not> is_space (hd s) \<and> \<not> is_space (last s))"

lemma TrimSpace_id: "trimmed s \<Longrightarrow> TrimSpace s = s"
proof -
  assume "trimmed s"
  then have "dropWhile is_space s = s" "dropWhile is_space (rev s) = rev s"
    by (auto simp: dropWhile_eq_self_iff trimmed_def hd_rev)
  then show ?thesis by (simp add: TrimSpace_def TrimP_def TrimRightP_def)
qed

lemma dropWhile_hd: "dropWhile p s \<noteq> [] \<Longrightarrow> \<not> p (hd (dropWhile p s))"
  by (induction s) auto

lemma TrimRightP_last: "TrimRightP p s \<noteq> [] \<Longrightarrow> \<not> p (last (TrimRightP p s))"
  using dropWhile_hd [of p "rev s"] by (auto simp: TrimRightP_def last_rev)

lemma TrimRightP_prefix: "prefix (TrimRightP p s) s"
  unfolding TrimRightP_def by (metis rev_rev_ident suffix_dropWhile suffix_to_prefix)

lemma TrimRightP_hd: "TrimRightP p s \<noteq> [] \<Longrightarrow> hd (TrimRightP p s) = hd s"
  by (metis TrimRightP_prefix hd_append2 prefix_def)

lemma TrimRightP_Nil [simp]: "TrimRightP p [] = []"
  by (simp add: TrimRightP_def)

lemma trimmed_TrimSpace [simp]: "trimmed (TrimSpace s)"
proof (cases "TrimSpace s = []")
  case False
  let ?t = "dropWhile is_space s"
  have "?t \<noteq> []" using False by (metis TrimRightP_Nil TrimSpace_def TrimP_def)
  then show ?thesis
    using False dropWhile_hd [of is_space s] TrimRightP_last [of is_space ?t] TrimRightP_hd [of is_space ?t]
    by (simp add: trimmed_def TrimSpace_def TrimP_def)
qed (simp add: trimmed_def)

lemma TrimSpace_Nil [simp]: "TrimSpace [] = []"
  by (simp add: TrimSpace_def TrimP_def)

lemma TrimSpace_idem [simp]: "TrimSpace (TrimSpace s) = TrimSpace s"
  by (simp add: TrimSpace_id)

lemma TrimRightP_append: "\<not> p x \<Longrightarrow> TrimRightP p (u @ x # v) = u @ x # TrimRightP p v"
  by (simp add: TrimRightP_def dropWhile_append)

lemma TrimSpace_indent:
  "list_all is_space ind \<Longrightarrow> \<not> is_space x \<Longrightarrow> TrimSpace (ind @ x # r) = x # TrimRightP is_space r"
  using TrimRightP_append [of is_space x "[]" r]
  by (simp add: TrimSpace_def TrimP_def dropWhile_append list_all_iff)

lemma SplitByte_not_Nil [simp]: "SplitByte s d \<noteq> []"
  by (induction s) (auto split: list.splits)

lemma SplitByte_no_sep: "w \<in> set (SplitByte s d) \<Longrightarrow> d \<notin> set w"
  by (induction s arbitrary: w) (auto split: list.splits if_splits)

lemma SplitByte_fresh: "d \<notin> set w \<Longrightarrow> SplitByte w d = [w]"
  by (induction w) auto

lemma SplitByte_cons: "d \<notin> set w \<Longrightarrow> SplitByte (w @ d # s) d = w # SplitByte s d"
  by (induction w) (auto split: list.splits)

lemma SplitByte_Join:
  "ws \<noteq> [] \<Longrightarrow> \<forall>w \<in> set ws. d \<notin> set w \<Longrightarrow> SplitByte (Join ws [d]) d = ws"
  by (induction ws "[d]" rule: Join.induct) (auto simp: SplitByte_fresh SplitByte_cons)

lemma Join_SplitByte: "Join (SplitByte s d) [d] = s"
proof (induction s)
  case (Cons c s)
  then show ?case by (cases "SplitByte s d"; cases "tl (SplitByte s d)") auto
qed simp

lemma suffix_last: "suffix a b \<Longrightarrow> a \<noteq> [] \<Longrightarrow> last a = last b"
  by (auto simp: suffix_def)

lemma suffix_TrimPrefix: "suffix (TrimPrefix s p) s"
  by (simp add: TrimPrefix_def suffix_drop)

lemma Contains_two_byte: "Contains s [a, b] \<Longrightarrow> a \<in> set s"
  by (auto simp: Contains_sublist sublist_def)

section \<open>Numbers written and read back\<close>

lemma of_char_digit [simp]: "n < 10 \<Longrightarrow> of_char (char_of (48 + n) :: char) = (48 + n :: nat)"
  by (simp add: of_char_of)

lemma digits_val_snoc: "digits_val (s @ [c]) = 10 * digits_val s + digit_val c"
  by (simp add: digits_val_def)

lemma show_nat_not_Nil [simp]: "show_nat n \<noteq> []"
  by (subst show_nat.simps) simp

lemma show_nat_digits: "c \<in> set (show_nat n) \<Longrightarrow> is_digit c"
proof (induction n rule: show_nat.induct)
  case (1 n)
  then show ?case by (subst (asm) (2) show_nat.simps) (auto simp: is_digit_def split: if_splits)
qed

lemma digits_val_show_nat [simp]: "digits_val (show_nat n) = n"
proof (induction n rule: show_nat.induct)
  case (1 n)
  show ?case
  proof (cases "n < 10")
    case True
    then show ?thesis by (subst show_nat.simps) (simp add: digits_val_def digit_val_def)
  next
    case False
    then show ?thesis by (subst show_nat.simps) (simp add: 1 digits_val_snoc digit_val_def)
  qed
qed

lemma FormatInt_digits: "0 \<le> n \<Longrightarrow> c \<in> set (FormatInt n) \<Longrightarrow> is_digit c"
  by (auto simp: FormatInt_def intro: show_nat_digits)

lemma is_digit_sign [simp]: "\<not> is_digit CHR ''-''" "\<not> is_digit CHR ''+''" "\<not> is_digit CHR ''.''"
  by (simp_all add: is_digit_def)

lemma ParseInt_FormatInt:
  assumes "0 \<le> n" "in_int64 n"
  shows "ParseInt (FormatInt n) = Some n"
proof (cases "show_nat (nat n)")
  case (Cons c r)
  then have "is_digit c" "list_all is_digit (c # r)" "digits_val (c # r) = nat n"
    using show_nat_digits [of _ "nat n"] digits_val_show_nat [of "nat n"] by (auto simp: list_all_iff)
  then show ?thesis using assms Cons by (auto simp: ParseInt_def FormatInt_def)
qed simp

end
