(* ===== verification/Image_Ref.thy ===== *)
theory Image_Ref
  imports Go_Prelude "HOL-Library.Monad_Syntax"
begin

text \<open>
  \<^verbatim>\<open>graphql/server/pkg/imageref\<close>: where a container image is pulled from. A reference is resolved
  against the configured registry (\<^verbatim>\<open>IMAGE_REGISTRY\<close>), the namespace of the frozen copies
  (\<^verbatim>\<open>IMAGE_MIRROR_NAMESPACE\<close>) and the release tag (\<^verbatim>\<open>ACE_IMAGE_TAG\<close>), and the image-pull Secret is
  inserted in rendered manifests. A Go slice expression that would be out of range is
  \<^const>\<open>None\<close>, so the theorem that resolving always returns is a theorem that it never panics.
  The process environment is a function from names to values (empty when unset).
\<close>

section \<open>The resolver and its configuration\<close>

record resolver =
  r_Registry :: string
  r_MirrorNamespace :: string
  r_AceTag :: string

definition DefaultMirrorNamespace :: string where
  "DefaultMirrorNamespace = ''agentcert''"

definition NormalizeRegistry :: "string \<Rightarrow> string" where
  "NormalizeRegistry value =
     (let v = TrimSpace value;
          v = TrimPrefix v ''https://'';
          v = TrimPrefix v ''http://'';
          v = ReplaceFirst v ''/ui/native/'' ''/''
      in TrimRightP (\<lambda>c. c = CHR ''/'') v)"

definition New :: "string \<Rightarrow> string \<Rightarrow> resolver" where
  "New reg mirrorNamespace =
     (let ns = TrimSpace mirrorNamespace;
          ns = (if ns = [] then DefaultMirrorNamespace else ns)
      in \<lparr>r_Registry = NormalizeRegistry reg, r_MirrorNamespace = ns, r_AceTag = []\<rparr>)"

definition WithAceTag :: "resolver \<Rightarrow> string \<Rightarrow> resolver" where
  "WithAceTag r tag = r\<lparr>r_AceTag := TrimSpace tag\<rparr>"

definition FromEnv :: "(string \<Rightarrow> string) \<Rightarrow> resolver" where
  "FromEnv getenv =
     WithAceTag (New (getenv ''IMAGE_REGISTRY'') (getenv ''IMAGE_MIRROR_NAMESPACE''))
       (getenv ''ACE_IMAGE_TAG'')"

definition Active :: "resolver \<Rightarrow> bool" where
  "Active r = (r_Registry r \<noteq> [] \<or> r_MirrorNamespace r \<noteq> ''none'' \<or> r_AceTag r \<noteq> [])"

section \<open>Names\<close>

fun drop_docker_host :: "string list \<Rightarrow> string \<Rightarrow> string" where
  "drop_docker_host [] ref = ref"
| "drop_docker_host (p # ps) ref =
     (if HasPrefix ref p then TrimPrefix ref p else drop_docker_host ps ref)"

definition last_segment :: "string \<Rightarrow> string" where
  "last_segment ref = (case LastIndexByte ref (CHR ''/'') of None \<Rightarrow> ref | Some i \<Rightarrow> drop (Suc i) ref)"

definition Canonical :: "string \<Rightarrow> string" where
  "Canonical ref =
     (let ref = TrimSpace ref;
          ref = drop_docker_host [''docker.io/'', ''index.docker.io/'', ''registry-1.docker.io/''] ref;
          ref = TrimPrefix ref ''library/''
      in if \<not> Contains (last_segment ref) '':'' \<and> \<not> Contains ref ''@'' then ref @ '':latest'' else ref)"

definition hasRegistryHost :: "string \<Rightarrow> bool" where
  "hasRegistryHost name =
     (case IndexByte name (CHR ''/'') of None \<Rightarrow> False
      | Some i \<Rightarrow> let first = take i name in
          CHR ''.'' \<in> set first \<or> CHR '':'' \<in> set first \<or> first = ''localhost'')"

definition FlatRef :: "string \<Rightarrow> string \<Rightarrow> string option" where
  "FlatRef ref ns =
     (if HasPrefix ref (ns @ ''/'') then Some ref
      else case LastIndexByte ref (CHR '':'') of None \<Rightarrow> None
      | Some i \<Rightarrow>
          let name = take i ref; tag = drop (Suc i) ref;
              name = (if hasRegistryHost name
                      then (case IndexByte name (CHR ''/'') of None \<Rightarrow> name | Some j \<Rightarrow> drop (Suc j) name)
                      else name)
          in Some (ns @ ''/'' @ ReplaceByte name (CHR ''/'') (CHR ''-'') @ '':'' @ tag))"

definition Base :: "resolver \<Rightarrow> string" where
  "Base r =
     (if r_Registry r = [] \<or> r_MirrorNamespace r = ''none''
         \<or> HasSuffix (''/'' @ r_Registry r) (''/'' @ r_MirrorNamespace r)
      then r_Registry r else r_Registry r @ ''/'' @ r_MirrorNamespace r)"

definition JoinRegistry :: "string \<Rightarrow> string \<Rightarrow> string" where
  "JoinRegistry reg canonicalRef =
     (case LastIndexByte reg (CHR ''/'') of None \<Rightarrow> reg @ ''/'' @ canonicalRef
      | Some i \<Rightarrow> let seg = drop (Suc i) reg in
          if HasPrefix canonicalRef (seg @ ''/'')
          then reg @ ''/'' @ drop (length seg + 1) canonicalRef
          else reg @ ''/'' @ canonicalRef)"

definition splitTag :: "string \<Rightarrow> (string \<times> string) option" where
  "splitTag ref =
     (if Contains ref ''@'' then Some (ref, [])
      else case (LastIndexByte ref (CHR '':''), LastIndexByte ref (CHR ''/'')) of
        (None, None) \<Rightarrow> None
      | (None, Some j) \<Rightarrow> Some (ref, [])
      | (Some i, None) \<Rightarrow> Some (take i ref, drop (Suc i) ref)
      | (Some i, Some j) \<Rightarrow> if i < j then Some (ref, []) else Some (take i ref, drop (Suc i) ref))"

section \<open>The generated tables\<close>

definition mirroredImages :: "string list" where
  "mirroredImages = [
    ''alexeiled/stress-ng:latest-ubuntu'', ''alpine/k8s:1.18.2'', ''alpine/k8s:1.29.2'',
    ''alpine:3.19'', ''alpine:3.20'', ''busybox:1.36'', ''busybox:latest'',
    ''cgr.dev/chainguard/minio:latest'', ''clickhouse/clickhouse-server:26.8'',
    ''curlimages/curl:8.10.1'', ''devth/alpine-bench:latest'', ''gaiadocker/iproute2:latest'',
    ''gcr.io/distroless/static-debian12:nonroot'', ''ghcr.io/open-feature/flagd:v0.12.9'',
    ''ghcr.io/open-telemetry/demo:2.2.0-accounting'', ''ghcr.io/open-telemetry/demo:2.2.0-ad'',
    ''ghcr.io/open-telemetry/demo:2.2.0-cart'', ''ghcr.io/open-telemetry/demo:2.2.0-checkout'',
    ''ghcr.io/open-telemetry/demo:2.2.0-currency'', ''ghcr.io/open-telemetry/demo:2.2.0-email'',
    ''ghcr.io/open-telemetry/demo:2.2.0-flagd-ui'',
    ''ghcr.io/open-telemetry/demo:2.2.0-fraud-detection'',
    ''ghcr.io/open-telemetry/demo:2.2.0-frontend'',
    ''ghcr.io/open-telemetry/demo:2.2.0-frontend-proxy'',
    ''ghcr.io/open-telemetry/demo:2.2.0-image-provider'',
    ''ghcr.io/open-telemetry/demo:2.2.0-kafka'', ''ghcr.io/open-telemetry/demo:2.2.0-llm'',
    ''ghcr.io/open-telemetry/demo:2.2.0-load-generator'',
    ''ghcr.io/open-telemetry/demo:2.2.0-payment'',
    ''ghcr.io/open-telemetry/demo:2.2.0-product-catalog'',
    ''ghcr.io/open-telemetry/demo:2.2.0-product-reviews'',
    ''ghcr.io/open-telemetry/demo:2.2.0-quote'',
    ''ghcr.io/open-telemetry/demo:2.2.0-recommendation'',
    ''ghcr.io/open-telemetry/demo:2.2.0-shipping'',
    ''ghcr.io/pab1it0/prometheus-mcp-server:latest'', ''golang:1.21-alpine'',
    ''golang:1.21-alpine3.19'', ''golang:1.22'', ''golang:1.24'', ''grafana/grafana:latest'',
    ''kindest/node:v1.35.0'', ''langfuse/langfuse-worker:3'', ''langfuse/langfuse:3'',
    ''litellm/litellm:v1.82.0-stable'',
    ''litmuschaos.docker.scarf.sh/litmuschaos/go-runner:latest'', ''litmuschaos/argoexec:v3.3.1'',
    ''litmuschaos/chaos-exporter:1.13.3'', ''litmuschaos/chaos-exporter:3.0.0'',
    ''litmuschaos/chaos-operator:3.0.0'', ''litmuschaos/chaos-runner:3.0.0'',
    ''litmuschaos/go-runner:latest'', ''litmuschaos/k8s:latest'',
    ''litmuschaos/litmus-app-deployer:latest'', ''litmuschaos/litmus-checker:2.11.0'',
    ''litmuschaos/litmus-checker:latest'', ''litmuschaos/litmusportal-event-tracker:3.0.0'',
    ''litmuschaos/workflow-controller:v3.3.1'', ''mongo:5'', ''mongo:latest'', ''node:20'',
    ''ollama/ollama:latest'', ''otel/opentelemetry-collector-contrib:0.151.0'', ''postgres:17'',
    ''postgres:17.6'', ''prom/prometheus:v2.25.0'', ''python:3.11-slim'', ''python:3.12-slim'',
    ''quay.io/containers/kubernetes_mcp_server:v0.0.67'', ''rabbitmq:3.6.8'', ''redis:7'',
    ''registry.access.redhat.com/ubi10-minimal:10.2-1782798957'',
    ''registry.access.redhat.com/ubi8/ubi-minimal:8.10'',
    ''registry.access.redhat.com/ubi9/ubi-minimal:9.6'',
    ''registry.access.redhat.com/ubi9/ubi-minimal:latest'',
    ''registry.istio.io/release/examples-bookinfo-details-v1:1.20.3'',
    ''registry.istio.io/release/examples-bookinfo-productpage-v1:1.20.3'',
    ''registry.istio.io/release/examples-bookinfo-ratings-v1:1.20.3'',
    ''registry.istio.io/release/examples-bookinfo-reviews-v1:1.20.3'',
    ''registry.istio.io/release/examples-bookinfo-reviews-v2:1.20.3'',
    ''registry.istio.io/release/examples-bookinfo-reviews-v3:1.20.3'',
    ''registry.k8s.io/kube-state-metrics/kube-state-metrics:v2.13.0'',
    ''registry.k8s.io/metrics-server/metrics-server:v0.7.2'', ''registry.k8s.io/pause:3.9'',
    ''ubuntu:16.04'', ''valkey/valkey:9.0.1-alpine3.23'', ''weaveworksdemos/carts:0.4.8'',
    ''weaveworksdemos/catalogue-db:0.3.0'', ''weaveworksdemos/catalogue:0.3.5'',
    ''weaveworksdemos/front-end:0.3.12'', ''weaveworksdemos/orders:0.4.7'',
    ''weaveworksdemos/payment:0.4.3'', ''weaveworksdemos/queue-master:0.3.1'',
    ''weaveworksdemos/shipping:0.4.8'', ''weaveworksdemos/user-db:0.4.0'',
    ''weaveworksdemos/user:0.4.7'']"

definition aceImages :: "string list" where
  "aceImages = [
    ''agentcert/ace-hub-bundle'', ''agentcert/agent-sidecar'', ''agentcert/agentcert-auth'',
    ''agentcert/agentcert-flash-agent'', ''agentcert/agentcert-graphql'',
    ''agentcert/agentcert-install-agent'', ''agentcert/agentcert-install-app'',
    ''agentcert/agentcert-web'', ''agentcert/certifier'', ''agentcert/cluster-init'',
    ''agentcert/itbench-experiment'', ''agentcert/litmusportal-subscriber'',
    ''agentcert/sre-agent-comprehensive'', ''agentcert/sre-agent-crewai'']"

definition IsMirrored :: "string \<Rightarrow> bool" where
  "IsMirrored canonicalRef = (canonicalRef \<in> set mirroredImages)"

definition IsAceImage :: "string \<Rightarrow> bool option" where
  "IsAceImage canonicalRef = map_option (\<lambda>(name, tag). name \<in> set aceImages) (splitTag canonicalRef)"

section \<open>Resolving\<close>

definition retag :: "resolver \<Rightarrow> string \<Rightarrow> string option" where
  "retag r c =
     (if r_AceTag r = [] then Some c
      else do {
        ace \<leftarrow> IsAceImage c;
        if \<not> ace then Some c
        else do {
          (name, tag) \<leftarrow> splitTag c;
          Some (if tag = [] then c else name @ '':'' @ r_AceTag r)
        }
      })"

definition templated :: "string \<Rightarrow> bool" where
  "templated ref = (Contains ref ''{{'' \<or> Contains ref ''$('')"

definition Resolve :: "resolver \<Rightarrow> string \<Rightarrow> string option" where
  "Resolve r ref0 =
     (let ref = TrimSpace ref0 in
      if ref = [] \<or> templated ref then Some ref
      else if r_Registry r \<noteq> [] then
        (if HasPrefix ref (r_Registry r @ ''/'') then Some ref
         else do { c \<leftarrow> retag r (Canonical ref); Some (JoinRegistry (Base r) c) })
      else do {
        c \<leftarrow> retag r (Canonical ref);
        if r_MirrorNamespace r \<noteq> ''none'' \<and> IsMirrored c then FlatRef c (r_MirrorNamespace r) else Some c
      })"

section \<open>Sources and pull secrets\<close>

definition NormalizeSource :: "string \<Rightarrow> string \<Rightarrow> string" where
  "NormalizeSource value def =
     (let v = ToLower (TrimSpace value) in
      if v = [] then def
      else if v \<in> {''registry'', ''jfrog'', ''dockerhub''} then ''registry''
      else v)"

definition SourceIsRegistry :: "(string \<Rightarrow> string) \<Rightarrow> string \<Rightarrow> string \<Rightarrow> bool" where
  "SourceIsRegistry getenv sourceKey def = (NormalizeSource (getenv sourceKey) def = ''registry'')"

definition PullSecretName :: "(string \<Rightarrow> string) \<Rightarrow> string" where
  "PullSecretName getenv =
     (if NormalizeRegistry (getenv ''IMAGE_REGISTRY'') = [] then []
      else let s = TrimSpace (getenv ''IMAGE_PULL_SECRET_NAME'') in
        if s \<noteq> [] then s else ''registry-pull'')"

text \<open>
  \<^verbatim>\<open>containersRe\<close> on one line: \<open>re_space\<close> is RE2's \<^verbatim>\<open>\s\<close>; the result is the first group, the
  indentation.
\<close>

definition re_space :: "char \<Rightarrow> bool" where
  "re_space c = (c = CHR '' '' \<or> c = CHR 0x09 \<or> c = CHR 0x0A \<or> c = CHR 0x0C \<or> c = CHR 0x0D)"

definition containers_indent :: "string \<Rightarrow> string option" where
  "containers_indent line =
     (let ind = takeWhile re_space line; rest = dropWhile re_space line in
      if HasPrefix rest ''containers:'' \<and> list_all re_space (drop 11 rest) then Some ind else None)"

definition inMapping :: "string \<Rightarrow> string \<Rightarrow> bool" where
  "inMapping indent l =
     (let t = TrimSpace l in
      t = [] \<or> HasPrefix t ''#'' \<or> HasPrefix l indent \<and> length l > length indent)"

fun scan_siblings :: "string \<Rightarrow> string \<Rightarrow> string list \<Rightarrow> bool" where
  "scan_siblings indent key [] = False"
| "scan_siblings indent key (l # ls) =
     (if \<not> inMapping indent l then False
      else if HasPrefix l (indent @ key) then True
      else if TrimSpace l = ''---'' then False
      else scan_siblings indent key ls)"

definition siblingKeyExists :: "string list \<Rightarrow> nat \<Rightarrow> string \<Rightarrow> string \<Rightarrow> bool" where
  "siblingKeyExists lines at indent key =
     (scan_siblings indent key (rev (take at lines)) \<or> scan_siblings indent key (drop (Suc at) lines))"

definition pull_secret_lines :: "string \<Rightarrow> string list \<Rightarrow> nat \<Rightarrow> string list" where
  "pull_secret_lines secret lines i =
     (case containers_indent (lines ! i) of
        None \<Rightarrow> []
      | Some ind \<Rightarrow>
          if siblingKeyExists lines i ind ''imagePullSecrets:'' then []
          else [ind @ ''imagePullSecrets:'', ind @ ''- name: '' @ secret]) @ [lines ! i]"

definition AddPullSecretText :: "string \<Rightarrow> string \<Rightarrow> string" where
  "AddPullSecretText txt secret =
     (if secret = [] then txt
      else let lines = SplitByte txt (CHR 0x0A) in
        Join (concat (map (pull_secret_lines secret lines) [0..<length lines])) [CHR 0x0A])"

definition PostRenderEnvVars :: "resolver \<Rightarrow> string \<Rightarrow> string list option" where
  "PostRenderEnvVars r pullSecret =
     (if \<not> Active r \<and> pullSecret = [] then None
      else Some [''ACE_HELM_POST_RENDER=1'',
                 ''ACE_IMAGE_REGISTRY='' @ r_Registry r,
                 ''ACE_IMAGE_MIRROR_NAMESPACE='' @ r_MirrorNamespace r,
                 ''ACE_IMAGE_TAG='' @ r_AceTag r,
                 ''ACE_IMAGE_PULL_SECRET='' @ pullSecret])"

text \<open>\<open>executable\<close> is what \<^verbatim>\<open>os.Executable\<close> reports, \<^const>\<open>None\<close> for its error.\<close>

definition HelmPostRenderer ::
  "(string \<Rightarrow> string) \<Rightarrow> string option \<Rightarrow> string \<Rightarrow> string \<Rightarrow> (string list \<times> string list) option" where
  "HelmPostRenderer getenv executable sourceKey def =
     (if sourceKey \<noteq> [] \<and> \<not> SourceIsRegistry getenv sourceKey def then None
      else do {
        env \<leftarrow> PostRenderEnvVars (FromEnv getenv) (PullSecretName getenv);
        self \<leftarrow> executable;
        Some ([''--post-renderer'', self], env)
      })"

section \<open>References with a tag or a digest\<close>

lemma last_segment_not_slash: "CHR ''/'' \<notin> set (last_segment s)"
  by (auto simp: last_segment_def LastIndexByte_None split: option.splits elim: LastIndexByte_SomeE)

lemma last_segment_suffix: "\<exists>a. s = a @ last_segment s"
  by (auto simp: last_segment_def split: option.splits intro: exI [of _ "take _ s"] 
     intro: append_take_drop_id [symmetric])

lemma set_last_segment: "set (last_segment s) \<subseteq> set s"
  using last_segment_suffix [of s] by (metis Un_upper2 set_append)

definition tagged :: "string \<Rightarrow> bool" where
  "tagged ref = (CHR ''@'' \<in> set ref \<or> CHR '':'' \<in> set (last_segment ref))"

lemma last_segment_append: "CHR ''/'' \<notin> set b \<Longrightarrow> last_segment (a @ b) = last_segment a @ b"
proof (cases "CHR ''/'' \<in> set a")
  case True
  assume b: "CHR ''/'' \<notin> set b"
  from True obtain x y where a: "a = x @ CHR ''/'' # y" "CHR ''/'' \<notin> set y"
    using split_list_last by fastforce
  then have "LastIndexByte (a @ b) (CHR ''/'') = Some (length x)" "LastIndexByte a (CHR ''/'') = Some (length x)"
    using b LastIndexByte_append [of "CHR ''/''" "y @ b" x] LastIndexByte_append [of "CHR ''/''" y x] by auto
  then show ?thesis using a by (simp add: last_segment_def)
next
  case False
  assume b: "CHR ''/'' \<notin> set b"
  with False have "LastIndexByte (a @ b) (CHR ''/'') = None" "LastIndexByte a (CHR ''/'') = None"
    by (simp_all add: LastIndexByte_None)
  then show ?thesis by (simp add: last_segment_def)
qed

lemma tagged_Canonical: "tagged (Canonical ref)"
  by (auto simp: Canonical_def Let_def Contains_byte tagged_def last_segment_append)

lemma tagged_splitTag: "tagged ref \<Longrightarrow> splitTag ref \<noteq> None"
  using set_last_segment [of ref]
  by (auto simp: tagged_def splitTag_def Contains_byte LastIndexByte_None split: option.splits)

lemma retag_total: "tagged c \<Longrightarrow> retag r c \<noteq> None"
  using tagged_splitTag [of c] by (auto simp: retag_def IsAceImage_def split: option.splits bind_splits)


lemma mirrored_chars:
  "\<forall>c \<in> set mirroredImages. CHR '':'' \<in> set c \<and> CHR ''{'' \<notin> set c \<and> CHR ''$'' \<notin> set c \<and> CHR ''@'' \<notin> set c"
  by (simp add: mirroredImages_def)

lemma mirrored_not_agentcert: "\<forall>c \<in> set mirroredImages. \<not> HasPrefix c ''agentcert/''"
  by (simp add: mirroredImages_def HasPrefix_def)

lemma mirrored_has_colon: "IsMirrored c \<Longrightarrow> CHR '':'' \<in> set c"
  using mirrored_chars by (auto simp: IsMirrored_def)

lemma FlatRef_total: "CHR '':'' \<in> set c \<Longrightarrow> \<exists>f. FlatRef c ns = Some f"
  by (auto simp: FlatRef_def LastIndexByte_None Let_def split: option.splits)

lemma Resolve_total: "Resolve r ref \<noteq> None"
  using retag_total [OF tagged_Canonical [of "TrimSpace ref"], of r]
  by (auto simp: Resolve_def Let_def FlatRef_total mirrored_has_colon)

lemma JoinRegistry_shape: "\<exists>x. JoinRegistry reg c = reg @ ''/'' @ x \<and> suffix x c"
  by (auto simp: JoinRegistry_def Let_def suffix_drop split: option.splits)

lemma Base_prefix: "prefix (r_Registry r @ ''/'') (Base r @ ''/'')"
  by (auto simp: Base_def)

lemma suffix_drop_docker_host: "suffix (drop_docker_host ps s) s"
  by (induction ps) (simp_all add: suffix_TrimPrefix)

lemma Canonical_last: "Canonical ref \<noteq> [] \<Longrightarrow> \<not> is_space (last (Canonical ref))"
proof -
  assume ne: "Canonical ref \<noteq> []"
  let ?t = "TrimSpace ref"
  let ?u = "TrimPrefix (drop_docker_host [''docker.io/'', ''index.docker.io/'', ''registry-1.docker.io/''] ?t) ''library/''"
  have suf: "suffix ?u ?t" by (meson suffix_TrimPrefix suffix_drop_docker_host suffix_order.trans)
  have "\<not> is_space (last ?u)" if "?u \<noteq> []"
    using trimmed_TrimSpace [of ref] suffix_last [OF suf that] suf that by (auto simp: trimmed_def)
  then show ?thesis using ne by (auto simp: Canonical_def Let_def is_space_def)
qed

lemma retag_last:
  assumes "retag r c = Some d" "trimmed (r_AceTag r)" "c \<noteq> [] \<Longrightarrow> \<not> is_space (last c)" "d \<noteq> []"
  shows "\<not> is_space (last d)"
  using assms
  by (auto simp: retag_def trimmed_def split: if_splits prod.splits bind_splits)

lemma Resolve_in_registry:
  assumes "r_Registry r \<noteq> []" "TrimSpace ref \<noteq> []" "\<not> templated (TrimSpace ref)"
  shows "\<exists>s. Resolve r ref = Some s \<and> HasPrefix s (r_Registry r @ ''/'')"
proof -
  obtain c where c: "retag r (Canonical (TrimSpace ref)) = Some c"
    using retag_total [OF tagged_Canonical] by blast
  obtain x where x: "JoinRegistry (Base r) c = Base r @ ''/'' @ x" using JoinRegistry_shape by blast
  have "prefix (r_Registry r @ ''/'') ((Base r @ ''/'') @ x)"
    using Base_prefix prefix_prefix by blast
  then show ?thesis using assms c x by (auto simp: Resolve_def Let_def HasPrefix_prefix)
qed

lemma FlatRef_shape:
  assumes "tagged c" "CHR ''@'' \<notin> set c" "\<not> HasPrefix c (ns @ ''/'')" "FlatRef c ns = Some f"
  shows "\<exists>x t. f = ns @ ''/'' @ x @ '':'' @ t \<and> CHR ''/'' \<notin> set x \<and> CHR ''/'' \<notin> set t
    \<and> suffix t c \<and> set x \<subseteq> set c \<union> {CHR ''-''}"
proof -
  have "CHR '':'' \<in> set (last_segment c)" using assms(1,2) by (auto simp: tagged_def)
  then obtain a b where ab: "last_segment c = a @ CHR '':'' # b" "CHR '':'' \<notin> set b"
    using split_list_last by fastforce
  obtain p where p: "c = p @ last_segment c" using last_segment_suffix by blast
  then have c: "c = (p @ a) @ CHR '':'' # b" using ab by simp
  have "CHR ''/'' \<notin> set b" using last_segment_not_slash [of c] ab by auto
  moreover have "suffix b c" by (subst c) (simp add: suffix_def)
  moreover have "LastIndexByte c (CHR '':'') = Some (length (p @ a))"
    by (subst c) (rule LastIndexByte_append [OF ab(2)])
  moreover have "take (length (p @ a)) c = p @ a" "drop (Suc (length (p @ a))) c = b"
    by (subst c, simp)+
  ultimately obtain n where n: "f = ns @ ''/'' @ ReplaceByte n (CHR ''/'') (CHR ''-'') @ '':'' @ b" "set n \<subseteq> set (p @ a)"
    using assms(3,4) set_drop_subset
    by (fastforce simp: FlatRef_def Let_def split: option.splits if_splits)
  have "set (p @ a) \<subseteq> set c" by (subst c) auto
  then have "set (ReplaceByte n (CHR ''/'') (CHR ''-'')) \<subseteq> set c \<union> {CHR ''-''} - {CHR ''/''}"
    using n(2) by (auto simp: ReplaceByte_def)
  then show ?thesis using n(1) \<open>suffix b c\<close> \<open>CHR ''/'' \<notin> set b\<close> by blast
qed

text \<open>
  A reference whose canonical form starts with one more Docker Hub host or \<^verbatim>\<open>library/\<close> would lose it
  on the second resolution; no image of a chart is written like this.
\<close>

definition names_one_host :: "string \<Rightarrow> bool" where
  "names_one_host ref =
     (let c = Canonical ref in trimmed c \<and>
        list_all (\<lambda>p. \<not> HasPrefix c p) [''docker.io/'', ''index.docker.io/'', ''registry-1.docker.io/'', ''library/''])"

lemma Canonical_stable:
  assumes "trimmed c" "tagged c"
    "list_all (\<lambda>p. \<not> HasPrefix c p) [''docker.io/'', ''index.docker.io/'', ''registry-1.docker.io/'', ''library/'']"
  shows "Canonical c = c"
  using assms by (auto simp: Canonical_def TrimSpace_id TrimPrefix_def Contains_byte tagged_def)

section \<open>The inserted pull secrets\<close>

abbreviation "psKey \<equiv> ''imagePullSecrets:''"

definition ps_insert :: "string \<Rightarrow> string list \<Rightarrow> string \<Rightarrow> string list \<Rightarrow> string list" where
  "ps_insert secret bef l ls = (case containers_indent l of None \<Rightarrow> []
     | Some ind \<Rightarrow> if scan_siblings ind psKey bef \<or> scan_siblings ind psKey ls then []
         else [ind @ psKey, ind @ ''- name: '' @ secret])"

fun ps_add :: "string \<Rightarrow> string list \<Rightarrow> string list \<Rightarrow> string list" where
  "ps_add secret bef [] = []"
| "ps_add secret bef (l # ls) = ps_insert secret bef l ls @ l # ps_add secret (l # bef) ls"

lemma ps_add_index:
  "concat (map (pull_secret_lines secret (rev bef @ ls)) [length bef..<length bef + length ls])
   = ps_add secret bef ls"
proof (induction ls arbitrary: bef)
  case (Cons l ls)
  have "pull_secret_lines secret (rev bef @ l # ls) (length bef) = ps_insert secret bef l ls @ [l]"
    by (simp add: pull_secret_lines_def ps_insert_def siblingKeyExists_def nth_append split: option.splits)
  then show ?case using Cons.IH [of "l # bef"] by (simp add: upt_conv_Cons del: upt_Suc)
qed simp

lemma AddPullSecretText_lines:
  "secret \<noteq> [] \<Longrightarrow> AddPullSecretText t secret = Join (ps_add secret [] (SplitByte t (CHR 0x0A))) [CHR 0x0A]"
  using ps_add_index [of secret "[]" "SplitByte t (CHR 0x0A)"] by (simp add: AddPullSecretText_def Let_def)

lemma re_space_is_space: "list_all re_space w \<Longrightarrow> list_all is_space w"
  by (auto simp: list_all_iff re_space_def is_space_def)

lemma containers_indent_Some:
  assumes "containers_indent l = Some ind"
  shows "list_all re_space ind" "\<exists>r. l = ind @ CHR ''c'' # r"
proof -
  have i: "ind = takeWhile re_space l" and h: "prefix ''containers:'' (dropWhile re_space l)"
    using assms by (auto simp: containers_indent_def Let_def HasPrefix_prefix split: if_splits)
  then show "list_all re_space ind" by (auto simp: list_all_iff dest: set_takeWhileD)
  obtain z where "dropWhile re_space l = ''containers:'' @ z" using h by (auto simp: prefix_def)
  then have "l = ind @ ''containers:'' @ z" using i takeWhile_dropWhile_id [of re_space l] by simp
  then show "\<exists>r. l = ind @ CHR ''c'' # r" by auto
qed

text \<open>The inserted lines stand in every mapping that the \<^verbatim>\<open>containers:\<close> line stands in.\<close>

lemma inMapping_containers:
  assumes "containers_indent l = Some k" "list_all re_space ind"
  shows "inMapping ind l \<longleftrightarrow> prefix ind k"
proof -
  obtain r where l: "l = k @ CHR ''c'' # r" and k: "list_all re_space k"
    using containers_indent_Some [OF assms(1)] by blast
  have "TrimSpace l = CHR ''c'' # TrimRightP is_space r"
    unfolding l by (rule TrimSpace_indent) (auto simp: is_space_def re_space_is_space [OF k])
  then have "inMapping ind l \<longleftrightarrow> prefix ind l \<and> length l > length ind"
    by (simp add: inMapping_def HasPrefix_prefix)
  also have "\<dots> \<longleftrightarrow> prefix ind k"
  proof
    assume "prefix ind l \<and> length l > length ind"
    then have "prefix ind (k @ CHR ''c'' # r)" by (simp add: l)
    then consider "prefix ind k" | us where "ind = k @ us" "prefix us (CHR ''c'' # r)"
      unfolding prefix_append by blast
    then show "prefix ind k"
      using assms(2) by cases (auto simp: prefix_Cons re_space_def)
  qed (auto simp: l intro: prefix_prefix dest: prefix_length_le)
  finally show ?thesis .
qed

lemma inserted_line:
  assumes "list_all re_space k" "prefix ind k" "x \<in> {psKey, ''- name: '' @ secret}"
  shows "inMapping ind (k @ x)" "TrimSpace (k @ x) \<noteq> ''---''" "containers_indent (k @ x) = None"
proof -
  show "inMapping ind (k @ x)" using assms by (auto simp: inMapping_def HasPrefix_prefix Let_def dest: prefix_length_le)
  have sp: "list_all is_space k" using re_space_is_space assms(1) .
  have a: "TrimSpace (k @ psKey) \<noteq> ''---''"
    using TrimSpace_indent [OF sp, of "CHR ''i''" "''magePullSecrets:''"] by (simp add: is_space_def)
  have b: "TrimSpace (k @ ''- name: '' @ secret) \<noteq> ''---''"
    using TrimSpace_indent [OF sp, of "CHR ''-''" "'' name: '' @ secret"]
      TrimRightP_append [of is_space "CHR ''n''" "'' ''" "''ame: '' @ secret"] by (simp add: is_space_def)
  show "TrimSpace (k @ x) \<noteq> ''---''" using a b assms(3) by auto
  have "dropWhile re_space x = x" using assms(3) by (auto simp: re_space_def)
  moreover have "dropWhile re_space (k @ x) = dropWhile re_space x"
    using assms(1) by (intro dropWhile_append2) (simp add: list_all_iff)
  moreover have "\<not> prefix ''containers:'' x" using assms(3) by auto
  ultimately show "containers_indent (k @ x) = None"
    by (simp add: containers_indent_def HasPrefix_prefix)
qed

lemma ps_insert_cases:
  "ps_insert secret bef l ls = [] \<or> (\<exists>k. containers_indent l = Some k \<and> list_all re_space k \<and>
     ps_insert secret bef l ls = [k @ psKey, k @ ''- name: '' @ secret])"
  using containers_indent_Some by (auto simp: ps_insert_def split: option.splits)

lemma scan_up_insert:
  assumes "list_all re_space ind" "inMapping ind l" "scan_siblings ind psKey bef'"
  shows "scan_siblings ind psKey (rev (ps_insert secret bef l ls) @ bef')"
  using ps_insert_cases [of secret bef l ls]
proof
  assume "\<exists>k. containers_indent l = Some k \<and> list_all re_space k \<and>
     ps_insert secret bef l ls = [k @ psKey, k @ ''- name: '' @ secret]"
  then obtain k where k: "containers_indent l = Some k" "list_all re_space k"
    "ps_insert secret bef l ls = [k @ psKey, k @ ''- name: '' @ secret]" by blast
  then have "prefix ind k" using inMapping_containers assms by blast
  then show ?thesis using k assms inserted_line [OF k(2), of ind _ secret] by simp
qed (use assms in simp)

lemma scan_down_insert:
  assumes "list_all re_space ind" "inMapping ind l" "scan_siblings ind psKey (l # r)"
  shows "scan_siblings ind psKey (ps_insert secret bef l ls @ l # r)"
  using ps_insert_cases [of secret bef l ls]
proof
  assume "\<exists>k. containers_indent l = Some k \<and> list_all re_space k \<and>
     ps_insert secret bef l ls = [k @ psKey, k @ ''- name: '' @ secret]"
  then obtain k where k: "containers_indent l = Some k" "list_all re_space k"
    "ps_insert secret bef l ls = [k @ psKey, k @ ''- name: '' @ secret]" by blast
  then have "prefix ind k" using inMapping_containers assms by blast
  then show ?thesis using k assms(3) inserted_line [OF k(2), of ind _ secret]
    by (simp del: scan_siblings.simps) (simp add: scan_siblings.simps(2) [of _ _ "k @ _"] del: scan_siblings.simps)
qed (use assms in simp)

lemma scan_ps_add:
  "list_all re_space ind \<Longrightarrow> scan_siblings ind psKey ls \<Longrightarrow> scan_siblings ind psKey (ps_add secret bef ls)"
proof (induction ls arbitrary: bef)
  case (Cons l ls)
  then have m: "inMapping ind l" by (auto split: if_splits)
  have "scan_siblings ind psKey (l # ps_add secret (l # bef) ls)"
    using Cons by (auto split: if_splits)
  then show ?case using scan_down_insert [OF Cons.prems(1) m] by simp
qed simp

definition up_rel :: "string list \<Rightarrow> string list \<Rightarrow> bool" where
  "up_rel bef bef' \<longleftrightarrow> (\<forall>ind. list_all re_space ind \<longrightarrow> scan_siblings ind psKey bef \<longrightarrow> scan_siblings ind psKey bef')"

lemma ps_add_skip:
  "ps_add secret bef' (ps_insert secret bef l ls @ r)
   = ps_insert secret bef l ls @ ps_add secret (rev (ps_insert secret bef l ls) @ bef') r"
  using ps_insert_cases [of secret bef l ls]
proof
  assume "\<exists>k. containers_indent l = Some k \<and> list_all re_space k \<and>
     ps_insert secret bef l ls = [k @ psKey, k @ ''- name: '' @ secret]"
  then obtain k where k: "list_all re_space k"
    "ps_insert secret bef l ls = [k @ psKey, k @ ''- name: '' @ secret]" by blast
  have "containers_indent (k @ psKey) = None" "containers_indent (k @ ''- name: '' @ secret) = None"
    using inserted_line(3) [OF k(1), of "[]" _ secret] by simp_all
  then have "ps_insert secret b (k @ psKey) q = []" "ps_insert secret b (k @ ''- name: '' @ secret) q = []" for b q
    unfolding ps_insert_def by simp_all
  then show ?thesis unfolding k(2) by simp
qed simp

lemma ps_add_idem:
  "up_rel bef bef' \<Longrightarrow> ps_add secret bef' (ps_add secret bef ls) = ps_add secret bef ls"
proof (induction ls arbitrary: bef bef')
  case (Cons l ls)
  let ?ins = "ps_insert secret bef l ls" and ?rest = "ps_add secret (l # bef) ls"
  have rel: "up_rel (l # bef) (l # rev ?ins @ bef')"
    unfolding up_rel_def
  proof (intro allI impI)
    fix ind assume i: "list_all re_space ind" and sc: "scan_siblings ind psKey (l # bef)"
    then have "inMapping ind l" by (auto split: if_splits)
    then show "scan_siblings ind psKey (l # rev ?ins @ bef')"
      using sc i Cons.prems scan_up_insert [OF i] by (auto simp: up_rel_def split: if_splits)
  qed
  have skip: "ps_add secret bef' (?ins @ l # ?rest) = ?ins @ ps_add secret (rev ?ins @ bef') (l # ?rest)"
    by (rule ps_add_skip)
  have "ps_insert secret (rev ?ins @ bef') l ?rest = []"
  proof (cases "containers_indent l")
    case (Some k)
    have k: "list_all re_space k" using containers_indent_Some Some by blast
    show ?thesis
    proof (cases "?ins = []")
      case True
      then have "scan_siblings k psKey bef \<or> scan_siblings k psKey ls"
        using Some by (simp add: ps_insert_def split: if_splits)
      then have "scan_siblings k psKey bef' \<or> scan_siblings k psKey ?rest"
        using Cons.prems k scan_ps_add by (auto simp: up_rel_def)
      then show ?thesis using True Some by (simp add: ps_insert_def)
    next
      case False
      then have "?ins = [k @ psKey, k @ ''- name: '' @ secret]"
        using Some by (simp add: ps_insert_def split: if_splits)
      then have "scan_siblings k psKey (rev ?ins @ bef')"
        using inserted_line [OF k, of k _ secret] by (simp add: HasPrefix_prefix)
      then show ?thesis using Some by (simp add: ps_insert_def)
    qed
  qed (simp add: ps_insert_def)
  then show ?case using skip Cons.IH [OF rel] by simp
qed simp

section \<open>What the workflow rewriting relies on\<close>

text \<open>
  The clients of the package (\<^verbatim>\<open>chaos_experiment/ops/registry_images.go\<close>) see a resolver as one
  function: it answers for every reference, ignores surrounding blanks and leaves a templated
  reference alone.
\<close>

locale image_resolver =
  fixes resolve :: "string \<Rightarrow> string option"
  assumes resolve_total: "resolve ref \<noteq> None"
    and resolve_trim: "resolve (TrimSpace ref) = resolve ref"
    and resolve_templated: "templated (TrimSpace ref) \<Longrightarrow> resolve ref = Some (TrimSpace ref)"
begin

lemma resolve_the: "resolve ref = Some (the (resolve ref))"
  using resolve_total by auto

lemma resolve_list_total: "those (map resolve refs) = Some (map (\<lambda>r. the (resolve r)) refs)"
proof (induction refs)
  case (Cons ref refs)
  then show ?case using resolve_total [of ref] by auto
qed simp

end

interpretation img: image_resolver "Resolve r" for r
  by unfold_locales (use Resolve_total in blast, simp_all add: Resolve_def)

section \<open>Properties\<close>

text \<open>Resolving a reference always returns: whatever the configuration and the reference, none of
  the slice expressions of \<^verbatim>\<open>Canonical\<close>, \<^verbatim>\<open>splitTag\<close> and \<^verbatim>\<open>FlatRef\<close> is out of range.\<close>

theorem image_resolve_total: "\<exists>s. Resolve r ref = Some s"
  using img.resolve_the by blast

text \<open>With a registry configured, every image that is not empty and not a template is pulled from
  below that registry, whatever its public name, namespace and tag.\<close>

theorem image_pulled_from_registry:
  assumes "r_Registry r \<noteq> []" "TrimSpace ref \<noteq> []" "\<not> templated (TrimSpace ref)"
  shows "\<exists>s. Resolve r ref = Some s \<and> HasPrefix s (r_Registry r @ ''/'')"
  using Resolve_in_registry [OF assms] .

theorem image_pulled_from_registry_witness:
  "\<exists>s. Resolve \<lparr>r_Registry = ''reg.io'', r_MirrorNamespace = ''agentcert'', r_AceTag = []\<rparr> ''busybox'' = Some s
     \<and> HasPrefix s ''reg.io/''"
  using image_pulled_from_registry [of "\<lparr>r_Registry = ''reg.io'', r_MirrorNamespace = ''agentcert'', r_AceTag = []\<rparr>" "''busybox''"]
  by (simp add: templated_def go_string_simps)

lemma Resolve_idem_private:
  assumes reg: "r_Registry r \<noteq> []" "trimmed (r_Registry r)" and tag: "trimmed (r_AceTag r)"
    and s: "Resolve r ref = Some s"
  shows "Resolve r s = Some s"
proof (cases "TrimSpace ref = [] \<or> templated (TrimSpace ref)")
  case True
  then show ?thesis using s by (auto simp: Resolve_def Let_def)
next
  case False
  then have pre: "HasPrefix s (r_Registry r @ ''/'')" using Resolve_in_registry [of r ref] reg s by auto
  have "trimmed s"
  proof (cases "HasPrefix (TrimSpace ref) (r_Registry r @ ''/'')")
    case True
    then have "s = TrimSpace ref" using s False reg by (auto simp: Resolve_def Let_def)
    then show ?thesis by simp
  next
    case 2: False
    then obtain c where c: "retag r (Canonical (TrimSpace ref)) = Some c" "s = JoinRegistry (Base r) c"
      using s False reg by (auto simp: Resolve_def Let_def split: bind_splits)
    then obtain x where x: "s = Base r @ ''/'' @ x" "suffix x c" using JoinRegistry_shape by blast
    have "\<not> is_space (last s)"
    proof (cases "x = []")
      case True
      then show ?thesis using x by (simp add: is_space_def)
    next
      case False
      then have "c \<noteq> []" "last x = last c" using x suffix_last by (auto simp: suffix_def)
      then show ?thesis using retag_last [OF c(1) tag Canonical_last] False x by auto
    qed
    moreover have "\<not> is_space (hd s)"
      using pre reg by (auto simp: HasPrefix_prefix trimmed_def prefix_def)
    ultimately show ?thesis by (simp add: trimmed_def)
  qed
  then show ?thesis using pre reg by (auto simp: Resolve_def Let_def TrimSpace_id)
qed

text \<open>With a registry configured, resolving is idempotent: a resolved reference resolves to
  itself, for every reference and every namespace and release tag.\<close>

theorem image_resolve_idempotent_private:
  assumes "r_Registry r \<noteq> []" "trimmed (r_Registry r)" "trimmed (r_AceTag r)" "Resolve r ref = Some s"
  shows "Resolve r s = Some s"
  using assms by (rule Resolve_idem_private)

theorem image_resolve_idempotent_private_witness:
  "Resolve \<lparr>r_Registry = ''reg.io/x'', r_MirrorNamespace = ''agentcert'', r_AceTag = ''R3''\<rparr>
     ''reg.io/x/agentcert/certifier:R3'' = Some ''reg.io/x/agentcert/certifier:R3''"
  by (rule image_resolve_idempotent_private [where ref = "''reg.io/x/agentcert/certifier:R3''"])
    (simp_all add: trimmed_def Resolve_def templated_def go_string_simps)

text \<open>Without a registry, in the default namespace, resolving is idempotent too: a mirrored image
  goes to its frozen copy and stays there, any other keeps its canonical name.\<close>

theorem image_resolve_idempotent_public:
  assumes "r_Registry r = []" "r_AceTag r = []" "r_MirrorNamespace r = DefaultMirrorNamespace"
    and one: "names_one_host ref" and s: "Resolve r ref = Some s"
  shows "Resolve r s = Some s"
proof (cases "TrimSpace ref = [] \<or> templated (TrimSpace ref)")
  case True
  then show ?thesis using s by (auto simp: Resolve_def Let_def)
next
  case False
  define c where "c = Canonical ref"
  have cc: "Canonical (TrimSpace ref) = c" by (simp add: c_def Canonical_def)
  have tg: "tagged c" by (simp add: c_def tagged_Canonical)
  have stable: "Canonical c = c" using one tg Canonical_stable by (auto simp: names_one_host_def c_def Let_def)
  show ?thesis
  proof (cases "IsMirrored c")
    case True
    note ch = True [unfolded IsMirrored_def]
    have f: "FlatRef c ''agentcert'' = Some s"
      using s False True assms cc by (simp add: Resolve_def retag_def DefaultMirrorNamespace_def)
    have no: "CHR ''@'' \<notin> set c" "CHR ''{'' \<notin> set c" "CHR ''$'' \<notin> set c" "\<not> HasPrefix c (''agentcert'' @ ''/'')"
      using ch mirrored_chars mirrored_not_agentcert by auto
    obtain x t where x: "s = ''agentcert/'' @ x @ '':'' @ t" "CHR ''/'' \<notin> set x" "CHR ''/'' \<notin> set t"
      "suffix t c" "set x \<subseteq> set c \<union> {CHR ''-''}"
      using FlatRef_shape [OF tg no(1,4) f] by auto
    have "set t \<subseteq> set c" using x(4) by (auto simp: suffix_def)
    then have "CHR ''{'' \<notin> set s" "CHR ''$'' \<notin> set s" using x no by auto
    then have nt: "\<not> templated s" by (auto simp: templated_def dest: Contains_two_byte)
    have "\<not> is_space (last s)"
      using x(1,4) suffix_last [OF x(4)] Canonical_last [of ref] c_def
      by (cases "t = []") (auto simp: is_space_def suffix_def)
    then have tr: "trimmed s" using x(1) by (auto simp: trimmed_def is_space_def)
    have "last_segment s = x @ '':'' @ t"
      using last_segment_append [of "x @ '':'' @ t" "''agentcert/''"] x
      by (simp add: last_segment_def LastIndexByte_def)
    then have "tagged s" by (simp add: tagged_def)
    then have "Canonical s = s" using tr x(1) by (intro Canonical_stable) (auto simp: HasPrefix_prefix)
    moreover have "\<not> IsMirrored s" using mirrored_not_agentcert x(1) by (auto simp: IsMirrored_def HasPrefix_prefix)
    ultimately show ?thesis using nt tr assms x(1) by (simp add: Resolve_def retag_def TrimSpace_id)
  next
    case nm: False
    then have "s = c" using s False assms cc by (simp add: Resolve_def retag_def)
    then show ?thesis
      using stable assms nm one by (auto simp: Resolve_def retag_def TrimSpace_id names_one_host_def c_def Let_def)
  qed
qed

theorem image_resolve_idempotent_public_witness:
  "Resolve (New [] []) ''agentcert/busybox:latest'' = Some ''agentcert/busybox:latest''"
  by (rule image_resolve_idempotent_public [where ref = "''agentcert/busybox:latest''"])
    (simp_all add: New_def NormalizeRegistry_def DefaultMirrorNamespace_def trimmed_def Resolve_def templated_def
      names_one_host_def Canonical_def last_segment_def retag_def IsMirrored_def mirroredImages_def go_string_simps)

text \<open>
  The package comment promises this for every configuration. It fails for a namespace that names
  Docker Hub itself: the frozen copy's host is dropped by the second resolution.
\<close>

lemma image_resolve_not_idempotent:
  "\<exists>s. Resolve (New [] ''docker.io/agentcert'') ''busybox'' = Some s
     \<and> Resolve (New [] ''docker.io/agentcert'') s \<noteq> Some s"
  by (simp add: New_def NormalizeRegistry_def Resolve_def templated_def Canonical_def last_segment_def retag_def
      IsMirrored_def mirroredImages_def FlatRef_def hasRegistryHost_def go_string_simps)

text \<open>Adding the image-pull Secret to rendered manifests is idempotent: a second pass finds the
  key beside every \<^verbatim>\<open>containers:\<close> line and inserts nothing.\<close>

theorem pull_secret_idempotent:
  assumes "CHR 0x0A \<notin> set secret"
  shows "AddPullSecretText (AddPullSecretText t secret) secret = AddPullSecretText t secret"
proof (cases "secret = []")
  case False
  let ?nl = "CHR 0x0A"
  have nonl: "\<forall>w \<in> set (ps_add secret bef ls). ?nl \<notin> set w" if "\<forall>w \<in> set ls. ?nl \<notin> set w" for bef ls
    using that
  proof (induction ls arbitrary: bef)
    case (Cons l ls)
    have "?nl \<notin> set k" if "containers_indent l = Some k" for k
      using containers_indent_Some(2) [OF that] Cons.prems by auto
    then have "\<forall>w \<in> set (ps_insert secret bef l ls). ?nl \<notin> set w"
      using ps_insert_cases [of secret bef l ls] assms by auto
    then show ?case using Cons by auto
  qed simp
  have ne: "ps_add secret [] (SplitByte t ?nl) \<noteq> []"
    by (cases "SplitByte t ?nl") auto
  then have "SplitByte (AddPullSecretText t secret) ?nl = ps_add secret [] (SplitByte t ?nl)"
    using nonl [of "SplitByte t ?nl"] SplitByte_no_sep False
    by (simp add: AddPullSecretText_lines SplitByte_Join)
  then show ?thesis using ps_add_idem [of "[]" "[]"] False by (simp add: AddPullSecretText_lines up_rel_def)
qed (simp add: AddPullSecretText_def)

theorem pull_secret_idempotent_witness:
  "AddPullSecretText (AddPullSecretText (''spec:'' @ [CHR 0x0A] @ ''  containers:'') ''pull'') ''pull''
   = AddPullSecretText (''spec:'' @ [CHR 0x0A] @ ''  containers:'') ''pull''"
  by (rule pull_secret_idempotent) simp

end
