(* ===== verification/Registry_Images.thy ===== *)
theory Registry_Images
  imports Image_Ref
begin

text \<open>
  Images in workflow texts and workflows (\<^verbatim>\<open>imageref.RewriteText\<close>, \<^verbatim>\<open>PostRender\<close> and
  \<^verbatim>\<open>chaos_experiment/ops/registry_images.go\<close>), a client of the resolver.

  The two regular expressions are anchored at line starts and their white space may cross lines, but a
  text before the last line start of their heads is only white space with at most one dash, and the part
  from that line start matches as well. So the first one replaces one reference in each line of its form,
  and the second one in each value line that follows a name line with only blank lines between.
\<close>

section \<open>Lines of a manifest\<close>

definition ref_char :: "char \<Rightarrow> bool" where
  "ref_char c = (\<not> re_space c \<and> \<not> List.member [CHR 0x22, CHR 0x27, CHR ''#'', CHR ''{'', CHR ''}''] c)"

definition quote_char :: "char \<Rightarrow> bool" where "quote_char c = (c = CHR 0x22 \<or> c = CHR 0x27)"

definition blank_char :: "char \<Rightarrow> bool" where "blank_char c = (c = CHR '' '' \<or> c = CHR 0x09)"

text \<open>\<^verbatim>\<open>[ \t]*["']?\<close> and what follows.\<close>

definition value_start :: "string \<Rightarrow> string \<times> string" where
  "value_start s = (let b = takeWhile blank_char s; r = dropWhile blank_char s in
     case r of [] \<Rightarrow> (b, []) | c # r' \<Rightarrow> if quote_char c then (b @ [c], r') else (b, r))"

text \<open>\<^verbatim>\<open>(?m)^(\s*(?:-\s+)?image:[ \t]*)(["']?)([^"'\s#{}]+)\<close>: the text up to the reference, and from it on.\<close>

definition image_line :: "string \<Rightarrow> (string \<times> string) option" where
  "image_line l =
     (let w = takeWhile re_space l; r = dropWhile re_space l;
          d = (case r of c # r' \<Rightarrow> if c = CHR ''-'' \<and> takeWhile re_space r' \<noteq> [] then c # takeWhile re_space r' else [] | [] \<Rightarrow> []);
          r = drop (length d) r in
      if \<not> HasPrefix r ''image:'' then None
      else (let v = value_start (drop 6 r) in
        case snd v of [] \<Rightarrow> None | c # _ \<Rightarrow> if ref_char c then Some (w @ d @ ''image:'' @ fst v, snd v) else None))"

text \<open>\<^verbatim>\<open>^\s*value:[ \t]*["']?\<close> before a reference.\<close>

definition value_line :: "string \<Rightarrow> (string \<times> string) option" where
  "value_line l =
     (let w = takeWhile re_space l; r = dropWhile re_space l in
      if \<not> HasPrefix r ''value:'' then None
      else (let v = value_start (drop 6 r) in
        case snd v of [] \<Rightarrow> None | c # _ \<Rightarrow> if ref_char c then Some (w @ ''value:'' @ fst v, snd v) else None))"

definition env_char :: "char \<Rightarrow> bool" where
  "env_char c = ((of_char c \<ge> (65::nat) \<and> of_char c \<le> (90::nat)) \<or> is_digit c \<or> c = CHR ''_'')"

text \<open>\<^verbatim>\<open>^\s*-?\s*name:[ \t]*["']?([A-Z0-9_]*_IMAGE)["']?[ \t]*\r?$\<close>: the name.\<close>

definition name_line :: "string \<Rightarrow> string option" where
  "name_line l =
     (let r = dropWhile re_space l;
          r = (case r of c # r' \<Rightarrow> if c = CHR ''-'' then dropWhile re_space r' else r | [] \<Rightarrow> []) in
      if \<not> HasPrefix r ''name:'' then None
      else (let r = snd (value_start (drop 5 r)); name = takeWhile env_char r; r = dropWhile env_char r;
                r = (case r of c # r' \<Rightarrow> if quote_char c then r' else r | [] \<Rightarrow> []);
                r = dropWhile blank_char r in
        if HasSuffix name ''_IMAGE'' \<and> (r = [] \<or> r = [CHR 0x0D]) then Some name else None))"

definition intentionallyBrokenImageVars :: "string list" where
  "intentionallyBrokenImageVars = [''INVALID_IMAGE'', ''INVALID_ARCH_IMAGE'']"

definition replace_ref :: "(string \<Rightarrow> string) \<Rightarrow> (string \<times> string) option \<Rightarrow> string \<Rightarrow> string" where
  "replace_ref g m l = (case m of None \<Rightarrow> l | Some (h, r) \<Rightarrow> h @ g (takeWhile ref_char r) @ dropWhile ref_char r)"

definition rewrite_image_line :: "(string \<Rightarrow> string) \<Rightarrow> string \<Rightarrow> string" where
  "rewrite_image_line g l = replace_ref g (image_line l) l"

text \<open>The first argument is the name whose value may come next.\<close>

fun rewrite_values :: "(string \<Rightarrow> string) \<Rightarrow> string option \<Rightarrow> string list \<Rightarrow> string list" where
  "rewrite_values g pending [] = []"
| "rewrite_values g pending (l # ls) =
     (case name_line l of
        Some name \<Rightarrow> l # rewrite_values g (Some name) ls
      | None \<Rightarrow>
         if list_all re_space l then l # rewrite_values g pending ls
         else (case pending of
             Some name \<Rightarrow> (if List.member intentionallyBrokenImageVars name then l else replace_ref g (value_line l) l)
           | None \<Rightarrow> l) # rewrite_values g None ls)"

section \<open>Texts\<close>

text \<open>\<open>Resolve\<close> never panics (\<open>Resolve_total\<close>), so its value is taken.\<close>

definition resolved :: "resolver \<Rightarrow> string \<Rightarrow> string" where "resolved r ref = the (Resolve r ref)"

definition resolve_unless :: "resolver \<Rightarrow> (string \<Rightarrow> bool) \<Rightarrow> string \<Rightarrow> string" where
  "resolve_unless r skip ref = (if skip ref then ref else resolved r ref)"

definition RewriteText :: "resolver \<Rightarrow> (string \<Rightarrow> bool) \<Rightarrow> string \<Rightarrow> string" where
  "RewriteText r skip txt =
     (if \<not> Active r then txt
      else Join (rewrite_values (resolve_unless r skip) None
             (map (rewrite_image_line (resolve_unless r skip)) (SplitByte txt (CHR 0x0A)))) [CHR 0x0A])"

definition PostRender :: "(string \<Rightarrow> string) \<Rightarrow> string \<Rightarrow> string" where
  "PostRender getenv manifests =
     (let r = WithAceTag (New (getenv ''ACE_IMAGE_REGISTRY'') (getenv ''ACE_IMAGE_MIRROR_NAMESPACE'')) (getenv ''ACE_IMAGE_TAG'') in
      AddPullSecretText (RewriteText r (\<lambda>_. False) manifests) (TrimSpace (getenv ''ACE_IMAGE_PULL_SECRET'')))"

section \<open>Workflows\<close>

definition itbenchExperimentRepo :: string where "itbenchExperimentRepo = ''agentcert/itbench-experiment''"

definition itbenchPullPolicy :: "(string \<Rightarrow> string) \<Rightarrow> string" where
  "itbenchPullPolicy getenv =
     (let override = TrimSpace (getenv ''ITBENCH_EXPERIMENT_IMAGE_PULL_POLICY'') in
      if override \<noteq> [] then override
      else if SourceIsRegistry getenv ''ITBENCH_EXPERIMENT_IMAGE_SOURCE'' ''local'' then ''Always'' else ''Never'')"

definition indent_of :: "string \<Rightarrow> string" where "indent_of l = takeWhile blank_char l"

text \<open>The line of the policy beside an image with this indentation, if any.\<close>

fun policy_index :: "string \<Rightarrow> string list \<Rightarrow> nat option" where
  "policy_index indent [] = None"
| "policy_index indent (l # ls) =
     (let t = TrimSpace l in
      if t = [] \<or> HasPrefix t ''#'' then map_option Suc (policy_index indent ls)
      else if indent_of l \<noteq> indent then None
      else if HasPrefix t ''imagePullPolicy:'' then Some 0
      else map_option Suc (policy_index indent ls))"

definition runs_itbench :: "string \<Rightarrow> bool" where
  "runs_itbench l = (Contains l ''image:'' \<and> Contains l (itbenchExperimentRepo @ '':''))"

definition set_policy_at :: "string \<Rightarrow> string list \<times> nat \<Rightarrow> nat \<Rightarrow> string list \<times> nat" where
  "set_policy_at policy acc i = (case acc of (lines, changed) \<Rightarrow>
     if \<not> runs_itbench (lines ! i) then (lines, changed)
     else (let indent = indent_of (lines ! i) in
       case policy_index indent (drop (Suc i) lines) of
         None \<Rightarrow> (lines, changed)
       | Some k \<Rightarrow>
          (let replacement = indent @ ''imagePullPolicy: '' @ policy; j = Suc i + k in
           if lines ! j \<noteq> replacement then (lines[j := replacement], Suc changed) else (lines, changed))))"

definition rewriteItbenchPullPolicy :: "string \<Rightarrow> string \<Rightarrow> string \<times> nat" where
  "rewriteItbenchPullPolicy txt policy =
     (let lines0 = SplitByte txt (CHR 0x0A);
          (lines, changed) = foldl (set_policy_at policy) (lines0, 0) [0..<length lines0] in
      if changed = 0 then (txt, 0) else (Join lines [CHR 0x0A], changed))"

definition isACEImage :: "string \<Rightarrow> bool" where
  "isACEImage ref = HasPrefix (Canonical ref) (DefaultMirrorNamespace @ ''/'')"

definition workflowImageSkip :: "(string \<Rightarrow> string) \<Rightarrow> string \<Rightarrow> bool" where
  "workflowImageSkip getenv ref =
     (let runtime = SourceIsRegistry getenv ''LITMUS_IMAGES_SOURCE'' ''registry'';
          itbench = SourceIsRegistry getenv ''ITBENCH_EXPERIMENT_IMAGE_SOURCE'' ''local'' in
      if isACEImage ref then \<not> (itbench \<and> HasPrefix (Canonical ref) (itbenchExperimentRepo @ '':'')) else \<not> runtime)"

definition WorkflowImage :: "(string \<Rightarrow> string) \<Rightarrow> string \<Rightarrow> string" where
  "WorkflowImage getenv ref =
     (let r = FromEnv getenv in if \<not> Active r \<or> workflowImageSkip getenv ref then ref else resolved r ref)"

text \<open>The images of a workflow: those of the containers, and the raw texts of the artifacts.\<close>

record image_template =
  it_Container :: "string option"
  it_Script :: "string option"
  it_InitContainers :: "string list"
  it_Sidecars :: "string list"
  it_Raw :: "string option list"

record image_spec =
  is_ImagePullSecrets :: "string list"
  is_Templates :: "image_template list"

definition add_pull_secret :: "(string \<Rightarrow> string) \<Rightarrow> string list \<Rightarrow> string list" where
  "add_pull_secret getenv secrets =
     (let secret = PullSecretName getenv in
      if secret \<noteq> [] \<and> \<not> List.member secrets secret then secrets @ [secret] else secrets)"

definition resolve_image :: "(string \<Rightarrow> string) \<Rightarrow> string \<Rightarrow> string" where
  "resolve_image getenv img = (if img = [] \<or> workflowImageSkip getenv img then img else resolved (FromEnv getenv) img)"

definition on_raw :: "(string \<Rightarrow> string) \<Rightarrow> string option \<Rightarrow> string option" where
  "on_raw f raw = (case raw of None \<Rightarrow> None | Some d \<Rightarrow> if d = [] then Some d else Some (f d))"

definition resolve_template :: "(string \<Rightarrow> string) \<Rightarrow> image_template \<Rightarrow> image_template" where
  "resolve_template getenv t = \<lparr>it_Container = map_option (resolve_image getenv) (it_Container t),
     it_Script = map_option (resolve_image getenv) (it_Script t),
     it_InitContainers = map (resolve_image getenv) (it_InitContainers t),
     it_Sidecars = map (resolve_image getenv) (it_Sidecars t),
     it_Raw = map (on_raw (RewriteText (FromEnv getenv) (workflowImageSkip getenv))) (it_Raw t)\<rparr>"

definition policy_template :: "(string \<Rightarrow> string) \<Rightarrow> image_template \<Rightarrow> image_template" where
  "policy_template getenv t =
     t\<lparr>it_Raw := map (on_raw (\<lambda>d. fst (rewriteItbenchPullPolicy d (itbenchPullPolicy getenv)))) (it_Raw t)\<rparr>"

definition ApplyRegistryImageOverrides :: "(string \<Rightarrow> string) \<Rightarrow> image_spec \<Rightarrow> image_spec" where
  "ApplyRegistryImageOverrides getenv spec =
     \<lparr>is_ImagePullSecrets = add_pull_secret getenv (is_ImagePullSecrets spec),
      is_Templates = map (policy_template getenv \<circ> (if Active (FromEnv getenv) then resolve_template getenv else id)) (is_Templates spec)\<rparr>"

section \<open>Settings of install steps\<close>

definition installerImageEnv :: "(string \<Rightarrow> string) \<Rightarrow> string \<Rightarrow> string \<Rightarrow> (string \<times> string) list" where
  "installerImageEnv getenv sourceKey def =
     (let r = FromEnv getenv in
      if \<not> SourceIsRegistry getenv sourceKey def \<or> \<not> Active r then []
      else [(''ACE_IMAGE_REGISTRY'', r_Registry r), (''ACE_IMAGE_MIRROR_NAMESPACE'', r_MirrorNamespace r),
            (''ACE_IMAGE_TAG'', r_AceTag r), (''ACE_IMAGE_PULL_SECRET'', PullSecretName getenv)])"

text \<open>The first variable of the name takes the value; without one the variable is added.\<close>

fun set_env :: "(string \<times> string) \<Rightarrow> (string \<times> string) list \<Rightarrow> (string \<times> string) list \<times> bool" where
  "set_env v [] = ([v], True)"
| "set_env v (e # es) = (if fst e = fst v then ((fst e, snd v) # es, snd e \<noteq> snd v)
     else (case set_env v es of (es', changed) \<Rightarrow> (e # es', changed)))"

definition setContainerEnv :: "(string \<times> string) list \<Rightarrow> (string \<times> string) list \<Rightarrow> (string \<times> string) list \<times> bool" where
  "setContainerEnv env vars =
     foldl (\<lambda>(env, changed) v. case set_env v env of (env', c) \<Rightarrow> (env', changed \<or> c)) (env, False) vars"

definition splitChartImage :: "string \<Rightarrow> string \<times> string \<times> string" where
  "splitChartImage ref0 =
     (let ref = TrimSpace ref0;
          last = LastIndexByte ref (CHR ''/'');
          (ref, tag) = (case LastIndexByte ref (CHR '':'') of
              None \<Rightarrow> (ref, ''latest'')
            | Some i \<Rightarrow> if (case last of None \<Rightarrow> True | Some j \<Rightarrow> j < i) then (take i ref, drop (Suc i) ref) else (ref, ''latest'')) in
      case IndexByte ref (CHR ''/'') of
        None \<Rightarrow> (''docker.io'', ref, tag)
      | Some i \<Rightarrow>
          if 0 < i \<and> (list_ex (\<lambda>c. c = CHR ''.'' \<or> c = CHR '':'') (take i ref) \<or> take i ref = ''localhost'')
          then (take i ref, drop (Suc i) ref, tag) else (''docker.io'', ref, tag))"

section \<open>Rewriting lines\<close>

abbreviation word :: "string \<Rightarrow> bool" where "word x \<equiv> x \<noteq> [] \<and> list_all ref_char x"

text \<open>What rewriting relies on: a reference becomes a reference, and is then left alone.\<close>

definition stable :: "(string \<Rightarrow> string) \<Rightarrow> bool" where
  "stable g = (\<forall>x. word x \<longrightarrow> word (g x) \<and> g (g x) = g x)"

lemma ref_char_not [simp]:
  "ref_char c \<Longrightarrow> \<not> quote_char c" "ref_char c \<Longrightarrow> \<not> blank_char c" "ref_char c \<Longrightarrow> \<not> re_space c" "ref_char c \<Longrightarrow> c \<noteq> CHR 0x0A"
  by (auto simp: ref_char_def quote_char_def blank_char_def re_space_def)

lemma value_start_split: "value_start s = (h, r) \<Longrightarrow> s = h @ r"
proof -
  assume "value_start s = (h, r)"
  then have "h @ r = takeWhile blank_char s @ dropWhile blank_char s"
    by (auto simp: value_start_def Let_def simp del: takeWhile_dropWhile_id split: list.splits if_splits)
  then show ?thesis by simp
qed

lemma value_start_stable:
  assumes "value_start s = (h, c # r)" "ref_char c" "ref_char c'"
  shows "value_start (h @ c' # r') = (h, c' # r')"
  using assms
  by (auto simp: value_start_def Let_def dropWhile_append takeWhile_append split: list.splits if_splits
      dest: set_takeWhileD)

definition dash_of :: "string \<Rightarrow> string" where
  "dash_of r = (case r of c # r' \<Rightarrow> if c = CHR ''-'' \<and> takeWhile re_space r' \<noteq> [] then c # takeWhile re_space r' else [] | [] \<Rightarrow> [])"

lemma image_line_eq:
  "image_line l = (let w = takeWhile re_space l; r = dropWhile re_space l; d = dash_of r; r = drop (length d) r in
      if \<not> HasPrefix r ''image:'' then None
      else (let v = value_start (drop 6 r) in
        case snd v of [] \<Rightarrow> None | c # _ \<Rightarrow> if ref_char c then Some (w @ d @ ''image:'' @ fst v, snd v) else None))"
  by (simp add: image_line_def dash_of_def Let_def)

lemma HasPrefix_append: "HasPrefix s p \<Longrightarrow> s = p @ drop (length p) s"
  by (metis HasPrefix_def append_take_drop_id)

lemma dash_of_append: "dash_of r @ drop (length (dash_of r)) r = r"
  by (auto simp: dash_of_def split: list.splits)
    (metis append_eq_conv_conj takeWhile_dropWhile_id)

lemma image_line_split:
  assumes "image_line l = Some (h, r)"
  shows "l = h @ r" "\<exists>c r'. r = c # r' \<and> ref_char c"
proof -
  let ?r = "dropWhile re_space l" let ?s = "drop (length (dash_of ?r)) ?r"
  obtain c r' where f: "HasPrefix ?s ''image:''" "value_start (drop 6 ?s) = (fst (value_start (drop 6 ?s)), c # r')"
      "ref_char c" "h = takeWhile re_space l @ dash_of ?r @ ''image:'' @ fst (value_start (drop 6 ?s))" "r = c # r'"
    using assms by (auto simp: image_line_eq Let_def prod_eq_iff split: if_splits list.splits)
  have "?s = ''image:'' @ fst (value_start (drop 6 ?s)) @ r"
    using HasPrefix_append [OF f(1)] value_start_split [OF f(2)] f(5) by simp
  then show "l = h @ r" using dash_of_append [of ?r] f(4) by (metis append.assoc takeWhile_dropWhile_id)
  show "\<exists>c r'. r = c # r' \<and> ref_char c" using f by simp
qed

lemma takeWhile_spaces:
  assumes "list_all re_space w" "\<not> re_space c"
  shows "takeWhile re_space (w @ c # s) = w" "dropWhile re_space (w @ c # s) = c # s"
  using assms by (simp_all add: takeWhile_append dropWhile_append list_all_iff)

lemma dash_of_form: "dash_of r = [] \<or> (\<exists>w. dash_of r = CHR ''-'' # w \<and> w \<noteq> [] \<and> list_all re_space w)"
  by (auto simp: dash_of_def list_all_iff dest: set_takeWhileD split: list.splits)

lemma takeWhile_all: "list_all p (takeWhile p s)"
  by (auto simp: list_all_iff dest: set_takeWhileD)

lemma image_line_stable:
  assumes "image_line l = Some (h, r)" "ref_char c'"
  shows "image_line (h @ c' # r') = Some (h, c' # r')"
proof -
  let ?r = "dropWhile re_space l" let ?s = "drop (length (dash_of ?r)) ?r" let ?w = "takeWhile re_space l"
  obtain v c s where f: "value_start (drop 6 ?s) = (v, c # s)" "ref_char c" "h = ?w @ dash_of ?r @ ''image:'' @ v"
    using assms(1) by (auto simp: image_line_eq Let_def prod_eq_iff split: if_splits list.splits)
  let ?t = "dash_of ?r @ ''image:'' @ v @ c' # r'"
  have w: "list_all re_space ?w" by (rule takeWhile_all)
  have i: "\<not> re_space CHR ''i''" "\<not> re_space CHR ''-''" by (simp_all add: re_space_def)
  have d: "takeWhile re_space (?w @ ?t) = ?w \<and> dropWhile re_space (?w @ ?t) = ?t \<and> dash_of ?t = dash_of ?r"
    using dash_of_form [of ?r]
  proof
    assume "dash_of ?r = []"
    then show ?thesis using takeWhile_spaces [OF w i(1)] by (simp add: dash_of_def)
  next
    assume "\<exists>w. dash_of ?r = CHR ''-'' # w \<and> w \<noteq> [] \<and> list_all re_space w"
    then obtain u where u: "dash_of ?r = CHR ''-'' # u" "u \<noteq> []" "list_all re_space u" by blast
    then have "dash_of ?t = dash_of ?r" using takeWhile_spaces [OF u(3) i(1)] by (simp add: dash_of_def)
    then show ?thesis using takeWhile_spaces [OF w i(2)] u by simp
  qed
  have "image_line (?w @ ?t) = Some (?w @ dash_of ?r @ ''image:'' @ v, c' # r')"
    unfolding image_line_eq using d value_start_stable [OF f(1,2) assms(2)] assms(2) by (simp add: Let_def HasPrefix_def)
  then show ?thesis using f(3) by simp
qed

lemma value_line_split:
  assumes "value_line l = Some (h, r)"
  shows "l = h @ r" "\<exists>c r'. r = c # r' \<and> ref_char c" "\<exists>w z. h = w @ ''value:'' @ z \<and> list_all re_space w"
proof -
  let ?r = "dropWhile re_space l"
  obtain v c s where f: "HasPrefix ?r ''value:''" "value_start (drop 6 ?r) = (v, c # s)" "ref_char c"
      "h = takeWhile re_space l @ ''value:'' @ v" "r = c # s"
    using assms by (auto simp: value_line_def Let_def prod_eq_iff split: if_splits list.splits)
  have "length ''value:'' = 6" by simp
  with HasPrefix_append [OF f(1)] have "?r = ''value:'' @ drop 6 ?r" by metis
  then have "?r = ''value:'' @ v @ r" using value_start_split [OF f(2)] f(5) by metis
  then show "l = h @ r" using f(4) by (metis append.assoc takeWhile_dropWhile_id)
  show "\<exists>c r'. r = c # r' \<and> ref_char c" using f by simp
  show "\<exists>w z. h = w @ ''value:'' @ z \<and> list_all re_space w" using f(4) takeWhile_all by blast
qed

lemma value_line_stable:
  assumes "value_line l = Some (h, r)" "ref_char c'"
  shows "value_line (h @ c' # r') = Some (h, c' # r')"
proof -
  let ?r = "dropWhile re_space l" let ?w = "takeWhile re_space l"
  obtain v c s where f: "value_start (drop 6 ?r) = (v, c # s)" "ref_char c" "h = ?w @ ''value:'' @ v"
    using assms(1) by (auto simp: value_line_def Let_def prod_eq_iff split: if_splits list.splits)
  have "\<not> re_space CHR ''v''" by (simp add: re_space_def)
  then have "takeWhile re_space (?w @ ''value:'' @ v @ c' # r') = ?w"
      "dropWhile re_space (?w @ ''value:'' @ v @ c' # r') = ''value:'' @ v @ c' # r'"
    using takeWhile_spaces [OF takeWhile_all, of "CHR ''v''"] by simp_all
  then show ?thesis using value_start_stable [OF f(1,2) assms(2)] assms(2) f(3) by (simp add: value_line_def Let_def HasPrefix_def)
qed

text \<open>A line that starts like a value or a policy is of no other kind.\<close>

lemma other_kinds:
  assumes "list_all re_space w" "c \<in> {CHR ''v'', CHR ''i''}" "\<not> HasPrefix (c # z) ''image:''"
  shows "image_line (w @ c # z) = None" "name_line (w @ c # z) = None" "\<not> list_all re_space (w @ c # z)"
proof -
  have "\<not> re_space c" using assms(2) by (auto simp: re_space_def)
  note t = takeWhile_spaces [OF assms(1) this]
  have "dash_of (c # z) = []" using assms(2) by (auto simp: dash_of_def)
  then show "image_line (w @ c # z) = None" using assms(3) by (simp add: image_line_eq t)
  show "name_line (w @ c # z) = None" using assms(2) by (auto simp: name_line_def t HasPrefix_def)
  show "\<not> list_all re_space (w @ c # z)" using \<open>\<not> re_space c\<close> by simp
qed

lemma stable_word:
  assumes "stable g" "\<exists>c r'. r = c # r' \<and> ref_char c"
  shows "word (g (takeWhile ref_char r))" "g (g (takeWhile ref_char r)) = g (takeWhile ref_char r)"
    "CHR 0x0A \<notin> set (g (takeWhile ref_char r))"
proof -
  have "word (takeWhile ref_char r)" using assms(2) takeWhile_all by auto
  then show w: "word (g (takeWhile ref_char r))" and "g (g (takeWhile ref_char r)) = g (takeWhile ref_char r)"
    using assms(1) by (auto simp: stable_def)
  have "\<not> ref_char CHR 0x0A" by (simp add: ref_char_def re_space_def)
  then show "CHR 0x0A \<notin> set (g (takeWhile ref_char r))" using w by (auto simp: list_all_iff)
qed

lemma replaced:
  assumes "stable g" "m l = Some (h, r)" "\<exists>c r'. r = c # r' \<and> ref_char c"
    and st: "\<And>c r'. ref_char c \<Longrightarrow> m (h @ c # r') = Some (h, c # r')"
  shows "replace_ref g (m (replace_ref g (m l) l)) (replace_ref g (m l) l) = replace_ref g (m l) l"
    "\<exists>c r'. replace_ref g (m l) l = h @ c # r' \<and> ref_char c"
proof -
  let ?x = "takeWhile ref_char r" and ?z = "dropWhile ref_char r"
  note g = stable_word(1,2) [OF assms(1,3)]
  have out: "replace_ref g (m l) l = h @ g ?x @ ?z" by (simp add: replace_ref_def assms(2))
  obtain c y where c: "g ?x = c # y" "ref_char c" using g by (cases "g ?x") auto
  then have m: "m (h @ g ?x @ ?z) = Some (h, g ?x @ ?z)" using st by simp
  have "takeWhile ref_char ?z = []" by (induction r) simp_all
  then have "takeWhile ref_char (g ?x @ ?z) = g ?x" "dropWhile ref_char (g ?x @ ?z) = ?z"
    using g(1) by (simp_all add: takeWhile_append dropWhile_append list_all_iff dropWhile_idem)
  then show "replace_ref g (m (replace_ref g (m l) l)) (replace_ref g (m l) l) = replace_ref g (m l) l"
    unfolding out by (simp add: replace_ref_def m g(2))
  show "\<exists>c r'. replace_ref g (m l) l = h @ c # r' \<and> ref_char c" using c by (simp add: out)
qed

lemma rewrite_image_line_idem:
  assumes "stable g"
  shows "rewrite_image_line g (rewrite_image_line g l) = rewrite_image_line g l"
proof (cases "image_line l")
  case None
  then show ?thesis by (simp add: rewrite_image_line_def replace_ref_def)
next
  case (Some hr)
  then obtain h r where s: "image_line l = Some (h, r)" by (cases hr) simp
  show ?thesis unfolding rewrite_image_line_def
    by (rule replaced(1) [OF assms, OF s image_line_split(2) [OF s] image_line_stable [OF s]])
qed

section \<open>Rewriting texts\<close>

definition rewrite_value :: "(string \<Rightarrow> string) \<Rightarrow> string option \<Rightarrow> string \<Rightarrow> string" where
  "rewrite_value g pending l = (case pending of
     Some name \<Rightarrow> (if List.member intentionallyBrokenImageVars name then l else replace_ref g (value_line l) l) | None \<Rightarrow> l)"

lemma rewrite_values_Cons:
  "rewrite_values g pending (l # ls) =
     (if name_line l \<noteq> None then l # rewrite_values g (name_line l) ls
      else if list_all re_space l then l # rewrite_values g pending ls
      else rewrite_value g pending l # rewrite_values g None ls)"
  by (auto simp: rewrite_value_def split: option.splits)

declare rewrite_values.simps(2) [simp del]

lemma rewrite_value_facts:
  assumes "stable g"
  shows "rewrite_value g pending (rewrite_value g pending l) = rewrite_value g pending l"
    and "name_line l = None \<Longrightarrow> name_line (rewrite_value g pending l) = None"
    and "\<not> list_all re_space l \<Longrightarrow> \<not> list_all re_space (rewrite_value g pending l)"
    and "rewrite_image_line g l = l \<Longrightarrow> rewrite_image_line g (rewrite_value g pending l) = rewrite_value g pending l"
    and "CHR 0x0A \<notin> set l \<Longrightarrow> CHR 0x0A \<notin> set (rewrite_value g pending l)"
proof -
  consider "rewrite_value g pending l = l"
    | h r where "value_line l = Some (h, r)" "rewrite_value g pending = (\<lambda>l. replace_ref g (value_line l) l)"
  proof (cases "\<exists>name. pending = Some name \<and> \<not> List.member intentionallyBrokenImageVars name")
    case True
    then have e: "rewrite_value g pending = (\<lambda>l. replace_ref g (value_line l) l)" by (auto simp: rewrite_value_def fun_eq_iff)
    show ?thesis
    proof (cases "value_line l")
      case None
      then show ?thesis using that(1) e by (simp add: replace_ref_def)
    next
      case (Some hr)
      then show ?thesis using that(2) [of "fst hr" "snd hr"] e by simp
    qed
  next
    case False
    then have "rewrite_value g pending = (\<lambda>l. l)" by (auto simp: rewrite_value_def fun_eq_iff split: option.split)
    then show ?thesis using that(1) by simp
  qed
  note cs = this
  have all: "rewrite_value g pending (rewrite_value g pending l) = rewrite_value g pending l \<and>
      (name_line l = None \<longrightarrow> name_line (rewrite_value g pending l) = None) \<and>
      (\<not> list_all re_space l \<longrightarrow> \<not> list_all re_space (rewrite_value g pending l)) \<and>
      (rewrite_image_line g l = l \<longrightarrow> rewrite_image_line g (rewrite_value g pending l) = rewrite_value g pending l) \<and>
      (CHR 0x0A \<notin> set l \<longrightarrow> CHR 0x0A \<notin> set (rewrite_value g pending l))"
    using cs
  proof cases
    case (2 h r)
    note f = value_line_split [OF 2(1)]
    obtain w z where h: "h = w @ ''value:'' @ z" "list_all re_space w" using f(3) by blast
    obtain c r' where out: "replace_ref g (value_line l) l = h @ c # r'" "ref_char c"
      using replaced(2) [OF assms 2(1) f(2) value_line_stable [OF 2(1)]] by blast
    note k = other_kinds [OF h(2), of "CHR ''v''" "''alue:'' @ z @ c # r'"]
    have nl: "CHR 0x0A \<notin> set l \<Longrightarrow> CHR 0x0A \<notin> set (replace_ref g (value_line l) l)"
    proof -
      assume "CHR 0x0A \<notin> set l"
      then have "CHR 0x0A \<notin> set h" "CHR 0x0A \<notin> set (dropWhile ref_char r)"
        using f(1) set_dropWhileD [of _ ref_char r] by auto
      then show ?thesis using 2(1) stable_word(3) [OF assms f(2)] by (simp add: replace_ref_def)
    qed
    define l' where "l' = replace_ref g (value_line l) l"
    have r: "rewrite_value g pending l = l'" "rewrite_value g pending l' = replace_ref g (value_line l') l'"
      by (simp_all add: 2(2) l'_def)
    have e: "l' = w @ CHR ''v'' # ''alue:'' @ z @ c # r'" using out(1) h(1) by (simp add: l'_def)
    have f2: "replace_ref g (value_line l') l' = l'"
      unfolding l'_def by (rule replaced(1) [OF assms 2(1) f(2) value_line_stable [OF 2(1)]])
    have k': "image_line l' = None" "name_line l' = None" "\<not> list_all re_space l'"
      using k unfolding e by (simp_all add: HasPrefix_def)
    show ?thesis
      unfolding r using f2 k' nl by (simp add: l'_def [symmetric] rewrite_image_line_def replace_ref_def [of g None])
  qed auto
  show "rewrite_value g pending (rewrite_value g pending l) = rewrite_value g pending l"
    "name_line l = None \<Longrightarrow> name_line (rewrite_value g pending l) = None"
    "\<not> list_all re_space l \<Longrightarrow> \<not> list_all re_space (rewrite_value g pending l)"
    "rewrite_image_line g l = l \<Longrightarrow> rewrite_image_line g (rewrite_value g pending l) = rewrite_value g pending l"
    "CHR 0x0A \<notin> set l \<Longrightarrow> CHR 0x0A \<notin> set (rewrite_value g pending l)"
    using all by blast+
qed

lemma rewrite_values_idem:
  "stable g \<Longrightarrow> rewrite_values g pending (rewrite_values g pending ls) = rewrite_values g pending ls"
  by (induction ls arbitrary: pending) (auto simp: rewrite_values_Cons rewrite_value_facts)

lemma rewrite_values_images:
  "stable g \<Longrightarrow> \<forall>l \<in> set ls. rewrite_image_line g l = l \<Longrightarrow>
   \<forall>l \<in> set (rewrite_values g pending ls). rewrite_image_line g l = l"
  by (induction ls arbitrary: pending) (auto simp: rewrite_values_Cons rewrite_value_facts)

lemma rewrite_values_newline:
  "stable g \<Longrightarrow> \<forall>l \<in> set ls. CHR 0x0A \<notin> set l \<Longrightarrow> \<forall>l \<in> set (rewrite_values g pending ls). CHR 0x0A \<notin> set l"
  by (induction ls arbitrary: pending) (auto simp: rewrite_values_Cons rewrite_value_facts)

lemma rewrite_values_not_Nil: "ls \<noteq> [] \<Longrightarrow> rewrite_values g pending ls \<noteq> []"
  by (cases ls) (simp_all add: rewrite_values_Cons)

lemma rewrite_image_line_newline:
  assumes "stable g" "CHR 0x0A \<notin> set l"
  shows "CHR 0x0A \<notin> set (rewrite_image_line g l)"
proof (cases "image_line l")
  case (Some hr)
  then obtain h r where s: "image_line l = Some (h, r)" by (cases hr) simp
  note f = image_line_split [OF s]
  show ?thesis using assms(2) f(1) s set_dropWhileD [of _ ref_char r] stable_word(3) [OF assms(1) f(2)]
    by (auto simp: rewrite_image_line_def replace_ref_def)
qed (use assms in \<open>simp add: rewrite_image_line_def replace_ref_def\<close>)

text \<open>The lines of a rewritten text, and when rewriting leaves lines alone.\<close>

definition rewritten :: "(string \<Rightarrow> string) \<Rightarrow> string list \<Rightarrow> bool" where
  "rewritten g ls = ((\<forall>l \<in> set ls. rewrite_image_line g l = l) \<and> rewrite_values g None ls = ls)"

definition rewrite_lines :: "(string \<Rightarrow> string) \<Rightarrow> string list \<Rightarrow> string list" where
  "rewrite_lines g ls = rewrite_values g None (map (rewrite_image_line g) ls)"

lemma rewritten_lines: "stable g \<Longrightarrow> rewritten g (rewrite_lines g ls)"
  unfolding rewritten_def rewrite_lines_def
  by (intro conjI rewrite_values_images rewrite_values_idem) (simp_all add: rewrite_image_line_idem)

lemma rewritten_fixed: "rewritten g ls \<Longrightarrow> rewrite_lines g ls = ls"
proof -
  assume r: "rewritten g ls"
  then have "map (rewrite_image_line g) ls = ls" by (simp add: rewritten_def map_idI)
  with r show ?thesis by (simp add: rewrite_lines_def rewritten_def)
qed

lemma split_rewrite_lines:
  assumes "stable g"
  shows "SplitByte (Join (rewrite_lines g (SplitByte t (CHR 0x0A))) [CHR 0x0A]) (CHR 0x0A) = rewrite_lines g (SplitByte t (CHR 0x0A))"
proof (rule SplitByte_Join)
  show "rewrite_lines g (SplitByte t (CHR 0x0A)) \<noteq> []" by (simp add: rewrite_lines_def rewrite_values_not_Nil)
  show "\<forall>w \<in> set (rewrite_lines g (SplitByte t (CHR 0x0A))). CHR 0x0A \<notin> set w"
    unfolding rewrite_lines_def
    by (rule rewrite_values_newline [OF assms]) (use assms SplitByte_no_sep rewrite_image_line_newline in auto)
qed

section \<open>The pull policy\<close>

definition policy_line :: "string \<Rightarrow> string \<Rightarrow> string" where
  "policy_line policy l = indent_of l @ ''imagePullPolicy: '' @ policy"

abbreviation is_policy :: "string \<Rightarrow> bool" where "is_policy l \<equiv> HasPrefix (TrimSpace l) ''imagePullPolicy:''"

definition patched :: "string \<Rightarrow> string \<Rightarrow> string \<Rightarrow> bool" where
  "patched policy a b = (b = a \<or> is_policy a \<and> b = policy_line policy a)"

lemma blank_space: "blank_char c \<Longrightarrow> is_space c" "blank_char c \<Longrightarrow> re_space c"
  by (auto simp: blank_char_def is_space_def re_space_def)

lemma indent_blank: "list_all blank_char (indent_of l)"
  by (auto simp: indent_of_def list_all_iff dest: set_takeWhileD)

lemma policy_line_facts [simp]:
  "indent_of (policy_line policy l) = indent_of l" "policy_line policy (policy_line policy l) = policy_line policy l"
  "is_policy (policy_line policy l)"
proof -
  show i: "indent_of (policy_line policy l) = indent_of l"
    using indent_blank [of l] by (simp add: policy_line_def indent_of_def takeWhile_append blank_char_def list_all_iff)
  then show "policy_line policy (policy_line policy l) = policy_line policy l" by (simp add: policy_line_def)
  have "list_all is_space (indent_of l)" using indent_blank [of l] blank_space by (auto simp: list_all_iff)
  then have "TrimSpace (policy_line policy l) = CHR ''i'' # TrimRightP is_space (''magePullPolicy'' @ CHR '':'' # '' '' @ policy)"
    using TrimSpace_indent [of "indent_of l" "CHR ''i''"] by (simp add: policy_line_def is_space_def)
  also have "\<dots> = CHR ''i'' # ''magePullPolicy'' @ CHR '':'' # TrimRightP is_space ('' '' @ policy)"
    by (subst TrimRightP_append) (simp_all add: is_space_def)
  finally show "is_policy (policy_line policy l)" by (simp add: HasPrefix_def)
qed

lemma is_policy_not:
  "is_policy l \<Longrightarrow> TrimSpace l \<noteq> [] \<and> \<not> HasPrefix (TrimSpace l) ''#''"
  by (cases "TrimSpace l") (simp_all add: HasPrefix_def)

lemma policy_index_patched:
  "list_all2 (patched policy) ls ls' \<Longrightarrow> policy_index ind ls' = policy_index ind ls"
proof (induction rule: list_all2_induct)
  case (Cons a as b bs)
  from \<open>patched policy a b\<close> consider "b = a" | "is_policy a" "b = policy_line policy a" by (auto simp: patched_def)
  then show ?case
  proof cases
    case 2
    show ?thesis unfolding 2(2) using is_policy_not [OF 2(1)] is_policy_not [OF policy_line_facts(3) [of policy a]] 2(1) Cons.IH
      by (simp add: Let_def)
  qed (simp add: Cons.IH Let_def)
qed simp

lemma policy_index_Some:
  "policy_index ind ls = Some k \<Longrightarrow> k < length ls \<and> indent_of (ls ! k) = ind \<and> is_policy (ls ! k)"
  by (induction ind ls arbitrary: k rule: policy_index.induct) (fastforce simp: Let_def split: if_splits)+

definition settled :: "string \<Rightarrow> string list \<Rightarrow> nat \<Rightarrow> bool" where
  "settled policy ls i = (runs_itbench (ls ! i) \<longrightarrow> (\<forall>k. policy_index (indent_of (ls ! i)) (drop (Suc i) ls) = Some k \<longrightarrow>
     ls ! (Suc i + k) = policy_line policy (ls ! (Suc i + k))))"

lemma settled_step:
  assumes "i < length ls" "settled policy ls i"
  shows "set_policy_at policy (ls, n) i = (ls, n)"
proof (cases "runs_itbench (ls ! i)")
  case True
  show ?thesis
  proof (cases "policy_index (indent_of (ls ! i)) (drop (Suc i) ls)")
    case (Some k)
    then have "indent_of (ls ! (Suc i + k)) = indent_of (ls ! i)" "ls ! (Suc i + k) = policy_line policy (ls ! (Suc i + k))"
      using policy_index_Some [OF Some] assms True by (auto simp: settled_def)
    then have "ls ! (Suc i + k) = indent_of (ls ! i) @ ''imagePullPolicy: '' @ policy" by (simp only: policy_line_def)
    then show ?thesis by (simp add: set_policy_at_def True Some Let_def)
  qed (simp add: set_policy_at_def)
qed (simp add: set_policy_at_def)

lemma not_runs_itbench:
  assumes "CHR '':'' \<notin> set policy"
  shows "\<not> runs_itbench (policy_line policy l)"
proof
  assume "runs_itbench (policy_line policy l)"
  then have "Contains (policy_line policy l) (itbenchExperimentRepo @ '':'')" by (simp add: runs_itbench_def)
  then obtain u v where c: "policy_line policy l = u @ (itbenchExperimentRepo @ '':'') @ v" unfolding Contains_sublist sublist_def by blast
  have "(indent_of l @ ''imagePullPolicy'') @ CHR '':'' # '' '' @ policy = policy_line policy l" by (simp add: policy_line_def)
  also note c
  also have "u @ (itbenchExperimentRepo @ '':'') @ v = (u @ itbenchExperimentRepo) @ CHR '':'' # v" by simp
  finally have e: "(indent_of l @ ''imagePullPolicy'') @ CHR '':'' # '' '' @ policy = (u @ itbenchExperimentRepo) @ CHR '':'' # v" .
  have "\<not> blank_char CHR '':''" by (simp add: blank_char_def)
  then have "CHR '':'' \<notin> set (indent_of l)" using indent_blank [of l] unfolding list_all_iff by blast
  with assms have n: "CHR '':'' \<notin> set (indent_of l @ ''imagePullPolicy'')" "CHR '':'' \<notin> set ('' '' @ policy)" by (simp_all del: policy_line_facts)
  have "indent_of l @ ''imagePullPolicy'' = u @ itbenchExperimentRepo"
    by (rule append_Cons_eq_iff [OF n, THEN iffD1, OF e, THEN conjunct1])
  then have "last (indent_of l @ ''imagePullPolicy'') = last (u @ itbenchExperimentRepo)" by simp
  then show False by (simp add: itbenchExperimentRepo_def)
qed

lemma patched_trans: "patched policy a b \<Longrightarrow> b' = b \<or> is_policy b \<and> b' = policy_line policy b \<Longrightarrow> patched policy a b'"
  by (auto simp: patched_def)

lemma patched_update:
  assumes "is_policy (ls ! j)"
  shows "list_all2 (patched policy) ls (ls[j := policy_line policy (ls ! j)])"
  unfolding list_all2_conv_all_nth
proof (intro conjI allI impI)
  fix i assume "i < length ls"
  then show "patched policy (ls ! i) (ls[j := policy_line policy (ls ! j)] ! i)"
    using assms by (cases "i = j") (simp_all add: patched_def)
qed simp

lemma set_policy_at_cases:
  assumes "i < length ls"
  shows "set_policy_at policy (ls, n) i = (ls, n) \<and> settled policy ls i \<or>
    (\<exists>j < length ls. i < j \<and> is_policy (ls ! j) \<and> policy_index (indent_of (ls ! i)) (drop (Suc i) ls) = Some (j - Suc i) \<and>
       set_policy_at policy (ls, n) i = (ls[j := policy_line policy (ls ! j)], Suc n))"
proof (cases "runs_itbench (ls ! i)")
  case True
  show ?thesis
  proof (cases "policy_index (indent_of (ls ! i)) (drop (Suc i) ls)")
    case None
    then show ?thesis by (simp add: set_policy_at_def settled_def)
  next
    case (Some k)
    note f = policy_index_Some [OF Some]
    have l: "Suc i + k < length ls" "indent_of (ls ! (Suc i + k)) = indent_of (ls ! i)" "is_policy (ls ! (Suc i + k))"
      using f assms by auto
    have e: "set_policy_at policy (ls, n) i = (if ls ! (Suc i + k) \<noteq> policy_line policy (ls ! (Suc i + k))
        then (ls[Suc i + k := policy_line policy (ls ! (Suc i + k))], Suc n) else (ls, n))"
      using l(2) by (simp add: set_policy_at_def True Some Let_def policy_line_def del: policy_line_facts)
    show ?thesis
    proof (cases "ls ! (Suc i + k) = policy_line policy (ls ! (Suc i + k))")
      case True
      then have "settled policy ls i" using Some by (simp add: settled_def)
      then show ?thesis using e True by simp
    next
      case False
      have "set_policy_at policy (ls, n) i = (ls[Suc i + k := policy_line policy (ls ! (Suc i + k))], Suc n)" using e False by simp
      moreover have "policy_index (indent_of (ls ! i)) (drop (Suc i) ls) = Some (Suc i + k - Suc i)" using Some by simp
      ultimately show ?thesis using l by (intro disjI2 exI [of _ "Suc i + k"]) simp
    qed
  qed
qed (simp add: set_policy_at_def settled_def)

lemma settled_update:
  assumes "CHR '':'' \<notin> set policy" "settled policy ls i" "i < length ls" "j < length ls" "is_policy (ls ! j)"
  shows "settled policy (ls[j := policy_line policy (ls ! j)]) i"
proof (cases "i = j")
  case True
  then show ?thesis using assms not_runs_itbench [OF assms(1)] by (simp add: settled_def)
next
  case False
  let ?ls = "ls[j := policy_line policy (ls ! j)]"
  have "list_all2 (patched policy) (drop (Suc i) ls) (drop (Suc i) ?ls)"
    by (rule list_all2_dropI [OF patched_update [OF assms(5)]])
  from policy_index_patched [OF this] False
  have "policy_index (indent_of (?ls ! i)) (drop (Suc i) ?ls) = policy_index (indent_of (ls ! i)) (drop (Suc i) ls)" by simp
  then show ?thesis using assms False by (auto simp: settled_def nth_list_update)
qed

lemma policy_fold:
  assumes "CHR '':'' \<notin> set policy"
  shows "m \<le> length ls0 \<Longrightarrow> foldl (set_policy_at policy) (ls0, 0) [0..<m] = (ls, n) \<Longrightarrow>
    list_all2 (patched policy) ls0 ls \<and> (n = 0 \<longrightarrow> ls = ls0) \<and> (\<forall>i < m. settled policy ls i)"
proof (induction m arbitrary: ls n)
  case 0
  then show ?case by (auto simp: list_all2_conv_all_nth patched_def)
next
  case (Suc m)
  obtain ls1 n1 where one: "foldl (set_policy_at policy) (ls0, 0) [0..<m] = (ls1, n1)" by fastforce
  then have IH: "list_all2 (patched policy) ls0 ls1" "n1 = 0 \<longrightarrow> ls1 = ls0" "\<forall>i < m. settled policy ls1 i"
    using Suc.IH [OF _ one] Suc.prems(1) by auto
  have len: "length ls1 = length ls0" using IH(1) by (simp add: list_all2_lengthD)
  have step: "set_policy_at policy (ls1, n1) m = (ls, n)" using Suc.prems(2) one by simp
  consider "ls = ls1" "n = n1" "settled policy ls1 m"
    | j where "j < length ls1" "m < j" "is_policy (ls1 ! j)" "ls = ls1[j := policy_line policy (ls1 ! j)]" "n = Suc n1"
        "policy_index (indent_of (ls1 ! m)) (drop (Suc m) ls1) = Some (j - Suc m)"
    using set_policy_at_cases [of m ls1 policy n1] step Suc.prems(1) len by auto
  then show ?case
  proof cases
    case 1
    then show ?thesis using IH by (auto simp: less_Suc_eq)
  next
    case (2 j)
    have "list_all2 (patched policy) ls0 ls"
      using IH(1) 2(1,3,4) by (auto simp: list_all2_conv_all_nth nth_list_update intro: patched_trans)
    moreover have "settled policy ls i" if "i < m" for i
      unfolding 2(4) using settled_update [OF assms] IH(3) that 2 by simp
    moreover have "list_all2 (patched policy) (drop (Suc m) ls1) (drop (Suc m) ls)"
      unfolding 2(4) by (rule list_all2_dropI [OF patched_update [OF 2(3)]])
    from policy_index_patched [OF this] have "policy_index (indent_of (ls ! m)) (drop (Suc m) ls) = Some (j - Suc m)"
      using 2(2,4,6) by simp
    then have "settled policy ls m" using 2(1,2) by (auto simp: settled_def 2(4))
    ultimately show ?thesis using 2(5) by (auto simp: less_Suc_eq)
  qed
qed

lemma policy_fold_fixed:
  "m \<le> length ls \<Longrightarrow> \<forall>i < m. settled policy ls i \<Longrightarrow> foldl (set_policy_at policy) (ls, n) [0..<m] = (ls, n)"
  by (induction m) (simp_all add: settled_step)

lemma Let_prod: "(let (a, b) = x in f a b) = f (fst x) (snd x)"
  by (simp add: case_prod_beta)

lemma policy_lines:
  assumes "CHR '':'' \<notin> set policy" "CHR 0x0A \<notin> set policy" "rewriteItbenchPullPolicy t policy = (t', n)"
  shows "list_all2 (patched policy) (SplitByte t (CHR 0x0A)) (SplitByte t' (CHR 0x0A))"
    and "\<forall>i < length (SplitByte t' (CHR 0x0A)). settled policy (SplitByte t' (CHR 0x0A)) i"
proof -
  let ?ls0 = "SplitByte t (CHR 0x0A)"
  obtain ls k where f: "foldl (set_policy_at policy) (?ls0, 0) [0..<length ?ls0] = (ls, k)" by fastforce
  note F = policy_fold [OF assms(1) order.refl f]
  have "SplitByte t' (CHR 0x0A) = ls"
  proof (cases "k = 0")
    case True
    then show ?thesis using assms(3) f F by (simp add: rewriteItbenchPullPolicy_def Let_prod)
  next
    case False
    then have t': "t' = Join ls [CHR 0x0A]" using assms(3) f by (simp add: rewriteItbenchPullPolicy_def)
    have "\<not> blank_char CHR 0x0A" by (simp add: blank_char_def)
    then have nl: "CHR 0x0A \<notin> set (policy_line policy l)" for l
      using assms(2) indent_blank [of l] unfolding policy_line_def list_all_iff by auto
    have "\<forall>w \<in> set ls. CHR 0x0A \<notin> set w"
      using F nl SplitByte_no_sep [of _ t "CHR 0x0A"]
      by (metis in_set_conv_nth list_all2_conv_all_nth patched_def)
    moreover have "length ls = length ?ls0" using list_all2_lengthD [OF conjunct1 [OF F]] by simp
    then have "ls \<noteq> []" using SplitByte_not_Nil [of t "CHR 0x0A"] by auto
    ultimately show ?thesis unfolding t' by (rule SplitByte_Join [rotated])
  qed
  then show "list_all2 (patched policy) (SplitByte t (CHR 0x0A)) (SplitByte t' (CHR 0x0A))"
    and "\<forall>i < length (SplitByte t' (CHR 0x0A)). settled policy (SplitByte t' (CHR 0x0A)) i"
    using F list_all2_lengthD [of "patched policy" ?ls0 ls] by auto
qed

lemma policy_settled: "\<forall>i < length (SplitByte t (CHR 0x0A)). settled policy (SplitByte t (CHR 0x0A)) i \<Longrightarrow>
    rewriteItbenchPullPolicy t policy = (t, 0)"
  using policy_fold_fixed [OF order.refl] by (simp add: rewriteItbenchPullPolicy_def)

section \<open>Policies and references do not meet\<close>

lemma is_policy_kinds:
  assumes "is_policy l"
  shows "name_line l = None" "\<not> list_all re_space l"
proof -
  have "dropWhile is_space l \<noteq> []" using is_policy_not [OF assms] by (metis TrimRightP_Nil TrimSpace_def TrimP_def)
  moreover have "hd (dropWhile is_space l) = CHR ''i''"
  proof -
    have "hd (TrimSpace l) = CHR ''i''" using assms by (cases "TrimSpace l") (auto simp: HasPrefix_def)
    then show ?thesis using is_policy_not [OF assms] TrimRightP_hd [of is_space "dropWhile is_space l"]
      by (simp add: TrimSpace_def TrimP_def)
  qed
  ultimately obtain v where v: "dropWhile is_space l = CHR ''i'' # v" by (cases "dropWhile is_space l") auto
  let ?u = "takeWhile is_space l"
  have l: "l = ?u @ CHR ''i'' # v" using v by (metis takeWhile_dropWhile_id)
  have i: "\<not> re_space CHR ''i''" by (simp add: re_space_def)
  then show "\<not> list_all re_space l" by (subst l) simp
  have "dropWhile re_space l = dropWhile re_space ?u @ CHR ''i'' # v" by (subst l) (simp add: dropWhile_append i)
  moreover have "\<forall>c \<in> set (dropWhile re_space ?u). is_space c" by (auto dest: set_dropWhileD set_takeWhileD)
  ultimately obtain c z where c: "dropWhile re_space l = c # z" "is_space c \<or> c = CHR ''i''"
    by (cases "dropWhile re_space ?u") auto
  have "c \<noteq> CHR ''-''" "c \<noteq> CHR ''n''" using c(2) by (auto simp: is_space_def)
  then show "name_line l = None" using c(1) by (simp add: name_line_def HasPrefix_def)
qed

lemma policy_line_kinds:
  "image_line (policy_line policy l) = None" "value_line (policy_line policy l) = None"
  "name_line (policy_line policy l) = None" "\<not> list_all re_space (policy_line policy l)"
proof -
  have b: "list_all re_space (indent_of l)" using indent_blank [of l] blank_space(2) unfolding list_all_iff by blast
  have e: "policy_line policy l = indent_of l @ CHR ''i'' # ''magePullPolicy: '' @ policy" by (simp add: policy_line_def)
  note k = other_kinds [OF b, of "CHR ''i''" "''magePullPolicy: '' @ policy"]
  show "image_line (policy_line policy l) = None" "name_line (policy_line policy l) = None" "\<not> list_all re_space (policy_line policy l)"
    unfolding e by (rule k; simp add: HasPrefix_def)+
  have "\<not> re_space CHR ''i''" by (simp add: re_space_def)
  from takeWhile_spaces(2) [OF b this] show "value_line (policy_line policy l) = None"
    unfolding e by (simp add: value_line_def HasPrefix_def)
qed

lemma rewrite_values_patched:
  assumes "list_all2 (patched policy) ls ls'"
  shows "rewrite_values g pending ls = ls \<Longrightarrow> rewrite_values g pending ls' = ls'"
  using assms
proof (induction arbitrary: pending rule: list_all2_induct)
  case (Cons a as b bs)
  from \<open>patched policy a b\<close> consider "b = a" | "is_policy a" "b = policy_line policy a" by (auto simp: patched_def)
  then show ?case
  proof cases
    case 1
    then show ?thesis using Cons.IH Cons.prems by (auto simp: rewrite_values_Cons split: if_splits)
  next
    case 2
    have "rewrite_values g None as = as" using Cons.prems is_policy_kinds [OF 2(1)] by (simp add: rewrite_values_Cons)
    moreover have "rewrite_value g pending b = b"
      unfolding 2(2) by (simp add: rewrite_value_def replace_ref_def policy_line_kinds split: option.split)
    ultimately show ?thesis using Cons.IH policy_line_kinds [of policy a] by (simp add: rewrite_values_Cons 2(2))
  qed
qed simp

lemma rewritten_patched:
  assumes "rewritten g ls" "list_all2 (patched policy) ls ls'"
  shows "rewritten g ls'"
proof -
  have "rewrite_image_line g l' = l'" if "l' \<in> set ls'" for l'
  proof -
    obtain i where i: "i < length ls'" "ls' ! i = l'" using \<open>l' \<in> set ls'\<close> by (auto simp: in_set_conv_nth)
    define l where "l = ls ! i"
    have "patched policy l l'" using list_all2_nthD2 [OF assms(2) i(1)] i(2) by (simp add: l_def)
    moreover have "l \<in> set ls" using i(1) list_all2_lengthD [OF assms(2)] by (simp add: l_def)
    ultimately consider "l' = l" | "l' = policy_line policy l" by (auto simp: patched_def)
    then show ?thesis
    proof cases
      case 1
      then show ?thesis using assms(1) \<open>l \<in> set ls\<close> by (simp add: rewritten_def)
    next
      case 2
      show ?thesis unfolding 2 by (simp add: rewrite_image_line_def replace_ref_def policy_line_kinds)
    qed
  qed
  then show ?thesis using rewrite_values_patched [OF assms(2)] assms(1) by (simp add: rewritten_def)
qed

section \<open>A private registry\<close>

text \<open>A vertical tab is a blank to \<^verbatim>\<open>strings.TrimSpace\<close> and not to a regular expression. YAML has none.\<close>

definition plain :: "string \<Rightarrow> bool" where "plain s = (CHR 0x0B \<notin> set s)"

definition on_plain :: "(string \<Rightarrow> string) \<Rightarrow> string \<Rightarrow> string" where "on_plain g x = (if plain x then g x else x)"

lemma replace_ref_plain:
  assumes "plain l" "\<And>h r. m = Some (h, r) \<Longrightarrow> l = h @ r"
  shows "replace_ref (on_plain g) m l = replace_ref g m l"
    and "(\<And>x. plain x \<Longrightarrow> plain (g x)) \<Longrightarrow> plain (replace_ref g m l)"
proof -
  have "plain (takeWhile ref_char r) \<and> plain h \<and> plain (dropWhile ref_char r)" if "m = Some (h, r)" for h r
    using assms(1) assms(2) [OF that] by (auto simp: plain_def dest: set_takeWhileD set_dropWhileD)
  then show "replace_ref (on_plain g) m l = replace_ref g m l"
    and "(\<And>x. plain x \<Longrightarrow> plain (g x)) \<Longrightarrow> plain (replace_ref g m l)"
    using assms(1) by (auto simp: replace_ref_def on_plain_def plain_def split: option.split)
qed

lemma rewrite_lines_plain:
  assumes "\<forall>l \<in> set ls. plain l" and g: "\<And>x. plain x \<Longrightarrow> plain (g x)"
  shows "rewrite_lines (on_plain g) ls = rewrite_lines g ls"
    and "\<forall>l \<in> set (rewrite_lines g ls). plain l"
proof -
  have i: "rewrite_image_line (on_plain g) l = rewrite_image_line g l \<and> plain (rewrite_image_line g l)" if "plain l" for l
    using replace_ref_plain [OF that, of "image_line l"] image_line_split(1) g
    by (simp add: rewrite_image_line_def)
  have v: "rewrite_value (on_plain g) pending l = rewrite_value g pending l \<and> plain (rewrite_value g pending l)" if "plain l" for l pending
    using replace_ref_plain [OF that, of "value_line l"] value_line_split(1) that g
    by (simp add: rewrite_value_def split: option.split)
  have vs: "\<forall>l \<in> set ls. plain l \<Longrightarrow> rewrite_values (on_plain g) pending ls = rewrite_values g pending ls \<and>
      (\<forall>l \<in> set (rewrite_values g pending ls). plain l)" for pending ls
    by (induction ls arbitrary: pending) (auto simp: rewrite_values_Cons v)
  have m: "map (rewrite_image_line (on_plain g)) ls = map (rewrite_image_line g) ls" using i assms(1) by (intro map_cong) auto
  have "\<forall>l \<in> set (map (rewrite_image_line g) ls). plain l" using i assms(1) by auto
  from vs [OF this, of None]
  show "rewrite_lines (on_plain g) ls = rewrite_lines g ls" "\<forall>l \<in> set (rewrite_lines g ls). plain l"
    unfolding rewrite_lines_def m by blast+
qed

text \<open>The registry, namespace and tag are made of characters of references, none of them a blank.\<close>

definition private_registry :: "resolver \<Rightarrow> bool" where
  "private_registry r = (r_Registry r \<noteq> [] \<and>
     list_all (\<lambda>c. ref_char c \<and> \<not> is_space c) (r_Registry r @ r_MirrorNamespace r @ r_AceTag r))"

lemma set_TrimSpace: "set (TrimSpace s) \<subseteq> set s"
  using TrimRightP_prefix [of is_space "dropWhile is_space s"] set_mono_prefix
  by (fastforce simp: TrimSpace_def TrimP_def dest: set_dropWhileD)

lemma set_Canonical: "set (Canonical s) \<subseteq> set s \<union> set '':latest''"
proof -
  define u where "u = TrimPrefix (drop_docker_host [''docker.io/'', ''index.docker.io/'', ''registry-1.docker.io/''] (TrimSpace s)) ''library/''"
  have "set u \<subseteq> set s"
    unfolding u_def using suffix_drop_docker_host suffix_TrimPrefix set_TrimSpace [of s] set_mono_suffix
    by (meson subset_trans)
  moreover have "Canonical s = u \<or> Canonical s = u @ '':latest''" by (simp add: Canonical_def Let_def u_def)
  ultimately show ?thesis by fastforce
qed

lemma set_splitTag: "splitTag c = Some (name, tag) \<Longrightarrow> x \<in> set name \<Longrightarrow> x \<in> set c"
  by (auto simp: splitTag_def split: option.splits if_splits dest: in_set_takeD)

lemma set_retag: "retag r c = Some d \<Longrightarrow> set d \<subseteq> set c \<union> set (r_AceTag r) \<union> {CHR '':''}"
  by (auto simp: retag_def split: if_splits bind_splits prod.splits dest: set_splitTag)

lemma set_JoinRegistry: "set (JoinRegistry reg c) \<subseteq> set reg \<union> set c \<union> {CHR ''/''}"
  by (auto simp: JoinRegistry_def Let_def split: option.splits dest: in_set_dropD)

lemma set_Base: "set (Base r) \<subseteq> set (r_Registry r) \<union> set (r_MirrorNamespace r) \<union> {CHR ''/''}"
  by (auto simp: Base_def)

lemma set_Resolve:
  assumes "private_registry r" "Resolve r ref = Some s"
  shows "set s \<subseteq> set ref \<union> {c. ref_char c \<and> \<not> is_space c}"
proof (cases "TrimSpace ref = [] \<or> templated (TrimSpace ref) \<or> HasPrefix (TrimSpace ref) (r_Registry r @ ''/'')")
  case True
  then have "s = TrimSpace ref" using assms by (auto simp: Resolve_def Let_def private_registry_def split: if_splits)
  then show ?thesis using set_TrimSpace by blast
next
  case False
  then obtain c where c: "retag r (Canonical (TrimSpace ref)) = Some c" "s = JoinRegistry (Base r) c"
    using assms by (auto simp: Resolve_def Let_def private_registry_def split: bind_splits)
  define K where "K = set '':latest/''"
  have k: "set '':latest'' \<subseteq> K" "CHR '':'' \<in> K" "CHR ''/'' \<in> K" by (simp_all add: K_def)
  have "set s \<subseteq> set ref \<union> set (r_Registry r @ r_MirrorNamespace r @ r_AceTag r) \<union> K"
    using set_JoinRegistry [of "Base r" c] set_Base [of r] set_retag [OF c(1)] set_Canonical [of "TrimSpace ref"] set_TrimSpace [of ref] k
    unfolding c(2) set_append by blast
  moreover have "set (r_Registry r @ r_MirrorNamespace r @ r_AceTag r) \<subseteq> {c. ref_char c \<and> \<not> is_space c}"
    using assms(1) by (auto simp: private_registry_def list_all_iff)
  moreover have "K \<subseteq> {c. ref_char c \<and> \<not> is_space c}"
    by (simp add: K_def ref_char_def re_space_def is_space_def)
  ultimately show ?thesis by blast
qed

lemma plain_word_trimmed: "word x \<Longrightarrow> plain x \<Longrightarrow> trimmed x"
proof -
  assume w: "word x" "plain x"
  have "\<not> is_space c" if "c \<in> set x" for c
  proof -
    have "\<not> re_space c" "c \<noteq> CHR 0x0B" using w that ref_char_not(3) by (auto simp: list_all_iff plain_def)
    then show ?thesis by (auto simp: is_space_def re_space_def)
  qed
  then show ?thesis using w by (simp add: trimmed_def)
qed

lemma resolved_some: "Resolve r ref = Some (resolved r ref)"
  using Resolve_total by (simp add: resolved_def)

lemma private_trimmed: "private_registry r \<Longrightarrow> trimmed (r_Registry r) \<and> trimmed (r_AceTag r)"
  by (cases "r_AceTag r") (auto simp: private_registry_def trimmed_def list_all_iff)

lemma resolved_idem: "private_registry r \<Longrightarrow> resolved r (resolved r ref) = resolved r ref"
proof -
  assume p: "private_registry r"
  have "Resolve r (resolved r ref) = Some (resolved r ref)"
    by (rule Resolve_idem_private [OF _ _ _ resolved_some]) (use p private_trimmed [OF p] in \<open>simp_all add: private_registry_def\<close>)
  then show ?thesis by (subst resolved_def) simp
qed

lemma resolved_plain: "private_registry r \<Longrightarrow> plain x \<Longrightarrow> plain (resolved r x)"
  using set_Resolve [OF _ resolved_some [of r x]] by (auto simp: plain_def is_space_def)

lemma resolved_word:
  assumes "private_registry r" "word x" "plain x"
  shows "word (resolved r x)"
proof -
  have t: "TrimSpace x = x" using plain_word_trimmed assms(2,3) by (simp add: TrimSpace_id)
  have "resolved r x \<noteq> []"
  proof (cases "templated x")
    case True
    then show ?thesis using assms(2) t by (simp add: resolved_def Resolve_def)
  next
    case False
    then obtain s where "Resolve r x = Some s" "HasPrefix s (r_Registry r @ ''/'')"
      using Resolve_in_registry [of r x] assms t by (auto simp: private_registry_def)
    then show ?thesis by (auto simp: resolved_def HasPrefix_prefix)
  qed
  moreover have "list_all ref_char (resolved r x)"
    using set_Resolve [OF assms(1) resolved_some] assms(2) by (auto simp: list_all_iff)
  ultimately show ?thesis by simp
qed

lemma resolve_unless_facts:
  assumes "private_registry r"
  shows "stable (on_plain (resolve_unless r skip))" "plain x \<Longrightarrow> plain (resolve_unless r skip x)"
    "resolve_unless r skip (resolve_unless r skip x) = resolve_unless r skip x"
  using assms by (auto simp: stable_def on_plain_def resolve_unless_def resolved_word resolved_plain resolved_idem)

lemma private_active: "private_registry r \<Longrightarrow> Active r"
  by (simp add: private_registry_def Active_def)

lemma plain_lines: "plain d \<Longrightarrow> \<forall>l \<in> set (SplitByte d (CHR 0x0A)). plain l"
  and plain_Join: "\<forall>l \<in> set ls. plain l \<Longrightarrow> plain (Join ls [CHR 0x0A])"
proof -
  have "l \<in> set (SplitByte d (CHR 0x0A)) \<Longrightarrow> c \<in> set l \<Longrightarrow> c \<in> set d" for l c
  proof (induction d arbitrary: l)
    case (Cons a d)
    obtain w ws where "SplitByte d (CHR 0x0A) = w # ws" by (cases "SplitByte d (CHR 0x0A)") auto
    then show ?case using Cons.prems Cons.IH [of w] Cons.IH [of l] by (auto split: if_splits)
  qed simp
  then show "plain d \<Longrightarrow> \<forall>l \<in> set (SplitByte d (CHR 0x0A)). plain l" by (auto simp: plain_def)
  show "\<forall>l \<in> set ls. plain l \<Longrightarrow> plain (Join ls [CHR 0x0A])"
    by (induction ls "[CHR 0x0A]" rule: Join.induct) (simp_all add: plain_def)
qed

lemma plain_policy_line: "plain policy \<Longrightarrow> plain l \<Longrightarrow> plain (policy_line policy l)"
  by (auto simp: plain_def policy_line_def indent_of_def dest: set_takeWhileD)

lemma text_settles:
  assumes r: "private_registry r" and d: "plain d"
    and policy: "CHR '':'' \<notin> set policy" "CHR 0x0A \<notin> set policy" "plain policy"
    and d'_def: "d' = fst (rewriteItbenchPullPolicy (RewriteText r skip d) policy)"
  shows "RewriteText r skip d' = d'" "fst (rewriteItbenchPullPolicy d' policy) = d'" "plain d'"
proof -
  let ?g = "resolve_unless r skip" let ?nl = "CHR 0x0A"
  note g = resolve_unless_facts [OF r, where skip = skip]
  have T: "RewriteText r skip t = Join (rewrite_lines ?g (SplitByte t ?nl)) [?nl]" for t
    by (simp add: RewriteText_def rewrite_lines_def private_active [OF r])
  note P = rewrite_lines_plain [OF plain_lines [OF d] g(2)]
  let ?L = "rewrite_lines ?g (SplitByte d ?nl)"
  have L: "?L = rewrite_lines (on_plain ?g) (SplitByte d ?nl)" using P(1) by simp
  have split: "SplitByte (RewriteText r skip d) ?nl = ?L" unfolding T L by (rule split_rewrite_lines [OF g(1)])
  obtain n where n: "rewriteItbenchPullPolicy (RewriteText r skip d) policy = (d', n)" unfolding d'_def by (metis prod.collapse)
  note Q = policy_lines [OF policy(1,2) n, unfolded split]
  have "rewritten (on_plain ?g) (SplitByte d' ?nl)"
    by (rule rewritten_patched [OF _ Q(1)]) (simp add: L rewritten_lines g(1))
  then have f: "rewrite_lines (on_plain ?g) (SplitByte d' ?nl) = SplitByte d' ?nl" by (rule rewritten_fixed)
  have pl: "\<forall>l \<in> set (SplitByte d' ?nl). plain l"
  proof
    fix l assume "l \<in> set (SplitByte d' ?nl)"
    then obtain i where i: "i < length (SplitByte d' ?nl)" "SplitByte d' ?nl ! i = l" by (auto simp: in_set_conv_nth)
    then have "patched policy (?L ! i) l" "?L ! i \<in> set ?L"
      using list_all2_nthD2 [OF Q(1)] list_all2_lengthD [OF Q(1)] by auto
    then show "plain l" using P(2) plain_policy_line [OF policy(3)] by (auto simp: patched_def)
  qed
  show "RewriteText r skip d' = d'"
    unfolding T using rewrite_lines_plain(1) [OF pl g(2)] f by (simp add: Join_SplitByte)
  show "fst (rewriteItbenchPullPolicy d' policy) = d'" using policy_settled [OF Q(2)] by simp
  show "plain d'" using plain_Join [OF pl] by (simp add: Join_SplitByte)
qed

lemma on_raw_settles:
  assumes "\<And>d. raw = Some d \<Longrightarrow> f (h (f d)) = h (f d) \<and> h (h (f d)) = h (f d)" "f [] = [] " "h [] = []"
  shows "on_raw h (on_raw f (on_raw h (on_raw f raw))) = on_raw h (on_raw f raw)"
  using assms by (cases raw) (auto simp: on_raw_def)

text \<open>Resolving the images of a workflow is idempotent, as its comment promises: against a private registry
  (with the registry, namespace and tag written in characters of image references, and a pull policy
  without colon or line break), a second pass over the resolved workflow changes nothing: no pull secret,
  no container image, no line of an artifact's text, whichever images were side-loaded.\<close>

theorem overrides_idempotent:
  assumes "private_registry (FromEnv getenv)"
    and "CHR '':'' \<notin> set (itbenchPullPolicy getenv)" "CHR 0x0A \<notin> set (itbenchPullPolicy getenv)" "plain (itbenchPullPolicy getenv)"
    and "\<And>t d. t \<in> set (is_Templates spec) \<Longrightarrow> Some d \<in> set (it_Raw t) \<Longrightarrow> plain d"
  shows "ApplyRegistryImageOverrides getenv (ApplyRegistryImageOverrides getenv spec) = ApplyRegistryImageOverrides getenv spec"
proof -
  let ?r = "FromEnv getenv" let ?skip = "workflowImageSkip getenv"
  let ?f = "RewriteText ?r ?skip" let ?h = "\<lambda>d. fst (rewriteItbenchPullPolicy d (itbenchPullPolicy getenv))"
  have active: "Active ?r" by (rule private_active [OF assms(1)])
  have image: "resolve_image getenv (resolve_image getenv img) = resolve_image getenv img" for img
    using resolved_idem [OF assms(1)] by (simp add: resolve_image_def)
  have nil: "?f [] = []" "?h [] = []"
  proof -
    have none: "image_line [] = None" "name_line [] = None" by (simp_all add: image_line_def name_line_def HasPrefix_def)
    show "?f [] = []" by (simp add: RewriteText_def rewrite_values_Cons rewrite_image_line_def replace_ref_def none)
    show "?h [] = []" by (simp add: rewriteItbenchPullPolicy_def set_policy_at_def runs_itbench_def)
  qed
  have raw: "on_raw ?h (on_raw ?f (on_raw ?h (on_raw ?f x))) = on_raw ?h (on_raw ?f x)"
    if "t \<in> set (is_Templates spec)" "x \<in> set (it_Raw t)" for t x
    by (rule on_raw_settles) (use nil text_settles [OF assms(1) assms(5) assms(2-4) refl] that in auto)
  have "policy_template getenv (resolve_template getenv (policy_template getenv (resolve_template getenv t)))
      = policy_template getenv (resolve_template getenv t)" if "t \<in> set (is_Templates spec)" for t
    using raw [OF that] by (simp add: policy_template_def resolve_template_def image option.map_comp comp_def)
  moreover have "add_pull_secret getenv (add_pull_secret getenv ss) = add_pull_secret getenv ss" for ss
    by (simp add: add_pull_secret_def Let_def)
  ultimately show ?thesis using active by (simp add: ApplyRegistryImageOverrides_def)
qed

definition sample_env :: "string \<Rightarrow> string" where
  "sample_env = (\<lambda>_. [])(''IMAGE_REGISTRY'' := ''reg.io/ace'', ''ITBENCH_EXPERIMENT_IMAGE_SOURCE'' := ''registry'')"

definition sample_spec :: image_spec where
  "sample_spec = \<lparr>is_ImagePullSecrets = [], is_Templates = [\<lparr>it_Container = Some ''busybox'', it_Script = None,
     it_InitContainers = [], it_Sidecars = [''agentcert/certifier:R1''],
     it_Raw = [Some (Join [''spec:'', ''  image: agentcert/itbench-experiment:dev'', ''  imagePullPolicy: Never'', ''  env:'',
       ''  - name: LIB_IMAGE'', ''    value: alpine:3.19''] [CHR 0x0A])]\<rparr>]\<rparr>"

theorem overrides_idempotent_witness:
  "ApplyRegistryImageOverrides sample_env (ApplyRegistryImageOverrides sample_env sample_spec)
   = ApplyRegistryImageOverrides sample_env sample_spec"
proof (rule overrides_idempotent)
  show "private_registry (FromEnv sample_env)" by code_simp
  have p: "itbenchPullPolicy sample_env = ''Always''" by code_simp
  show "CHR '':'' \<notin> set (itbenchPullPolicy sample_env)" "CHR 0x0A \<notin> set (itbenchPullPolicy sample_env)" "plain (itbenchPullPolicy sample_env)"
    unfolding p by (simp_all add: plain_def)
  show "plain d" if "t \<in> set (is_Templates sample_spec)" "Some d \<in> set (it_Raw t)" for t d
    using that by (auto simp: sample_spec_def plain_def)
qed

text \<open>What that pass did: the public image and the shared test image come from the registry, the release's own
  image keeps its name, and the test image is pulled always.\<close>

lemma sample_overrides:
  "ApplyRegistryImageOverrides sample_env sample_spec = \<lparr>is_ImagePullSecrets = [''registry-pull''],
     is_Templates = [\<lparr>it_Container = Some ''reg.io/ace/agentcert/busybox:latest'', it_Script = None,
     it_InitContainers = [], it_Sidecars = [''agentcert/certifier:R1''],
     it_Raw = [Some (Join [''spec:'', ''  image: reg.io/ace/agentcert/itbench-experiment:dev'', ''  imagePullPolicy: Always'', ''  env:'',
       ''  - name: LIB_IMAGE'', ''    value: reg.io/ace/agentcert/alpine:3.19''] [CHR 0x0A])]\<rparr>]\<rparr>"
  by code_simp

section \<open>Where images come from, and the settings of installers\<close>

text \<open>Against a private registry, an image that is not side-loaded is pulled from it.\<close>

lemma workflow_image_in_registry:
  assumes "r_Registry (FromEnv getenv) \<noteq> []" "TrimSpace img \<noteq> []" "\<not> templated (TrimSpace img)"
    "\<not> workflowImageSkip getenv img"
  shows "HasPrefix (resolve_image getenv img) (r_Registry (FromEnv getenv) @ ''/'')"
    and "WorkflowImage getenv img = resolve_image getenv img"
proof -
  have "img \<noteq> []" using assms(2) by auto
  moreover have "Active (FromEnv getenv)" using assms(1) by (simp add: Active_def)
  ultimately show "HasPrefix (resolve_image getenv img) (r_Registry (FromEnv getenv) @ ''/'')"
    and "WorkflowImage getenv img = resolve_image getenv img"
    using Resolve_in_registry [OF assms(1-3)] assms(4) by (auto simp: resolve_image_def resolved_def WorkflowImage_def)
qed

lemma set_env_lookup:
  "map_of (fst (set_env v es)) = (map_of es)(fst v \<mapsto> snd v)" "snd (set_env v es) = (map_of es (fst v) \<noteq> Some (snd v))"
  "(fst (set_env v es) = es) = (\<not> snd (set_env v es))"
  by (induction es) (auto split: prod.splits simp: fun_eq_iff prod_eq_iff)

lemma setContainerEnv_step:
  "setContainerEnv env (vars @ [v]) = (case setContainerEnv env vars of (e, c) \<Rightarrow> (fst (set_env v e), c \<or> snd (set_env v e)))"
  by (simp add: setContainerEnv_def case_prod_beta)

text \<open>Setting variables of distinct names: each has its value, the others keep theirs, and the report of a change
  is exact.\<close>

lemma settings_exact:
  assumes "distinct (map fst vars)"
  shows "map_of (fst (setContainerEnv env vars)) = map_of env ++ map_of vars \<and>
     snd (setContainerEnv env vars) = (\<exists>v \<in> set vars. map_of env (fst v) \<noteq> Some (snd v)) \<and>
     (\<not> snd (setContainerEnv env vars) \<longrightarrow> fst (setContainerEnv env vars) = env)"
  using assms
proof (induction vars rule: rev_induct)
  case Nil
  show ?case by (simp add: setContainerEnv_def)
next
  case (snoc v vars)
  then have d: "distinct (map fst vars)" "map_of vars (fst v) = None" by (auto simp: map_of_eq_None_iff)
  obtain e c where ec: "setContainerEnv env vars = (e, c)" by fastforce
  have IH: "map_of e = map_of env ++ map_of vars" "c = (\<exists>v \<in> set vars. map_of env (fst v) \<noteq> Some (snd v))" "\<not> c \<longrightarrow> e = env"
    using snoc.IH [OF d(1)] ec by simp_all
  have o: "map_of (vars @ [v]) = (map_of vars)(fst v \<mapsto> snd v)"
    using d(2) by (cases v) (auto simp: fun_eq_iff map_add_def split: option.split)
  have l: "map_of e (fst v) = map_of env (fst v)" using IH(1) d(2) by (simp add: map_add_def)
  have "map_of (fst (setContainerEnv env (vars @ [v]))) = map_of env ++ map_of (vars @ [v])"
    by (simp only: setContainerEnv_step ec case_prod_conv fst_conv set_env_lookup IH(1) o map_add_upd)
  moreover have "snd (setContainerEnv env (vars @ [v])) = (\<exists>v \<in> set (vars @ [v]). map_of env (fst v) \<noteq> Some (snd v))"
    using IH(2) l by (auto simp: setContainerEnv_step ec set_env_lookup(2))
  moreover have "\<not> snd (setContainerEnv env (vars @ [v])) \<longrightarrow> fst (setContainerEnv env (vars @ [v])) = env"
    using IH(3) set_env_lookup(3) [of v e] by (auto simp: setContainerEnv_step ec)
  ultimately show ?case by blast
qed

end
