(* ===== verification/Event_Tracker.thy ===== *)
theory Event_Tracker
  imports Go_Prelude
begin

text \<open>
  The event tracker of an infrastructure (\<^verbatim>\<open>event-tracker/\<close>): informers report changes of workloads, a policy
  decides whether a change matters (\<^verbatim>\<open>utils.go\<close>), and the controller of the policies asks the server to run
  the experiment (\<^verbatim>\<open>eventtrackerpolicy_controller.go\<close>), which answers through
  \<^verbatim>\<open>GitOpsNotificationHandler\<close>. A panic is \<^const>\<open>None\<close>. JMESPath, JSON decoding, HTTP and the Kubernetes API are
  arguments; a call of the API can fail.
\<close>

section \<open>Values of a workload\<close>

text \<open>A decoded JSON document; a number is the text \<^verbatim>\<open>%v\<close> prints for it.\<close>

datatype json = JNull | JBool bool | JNum string | JStr string | JArr "json list" | JObj "(string \<times> json) list"

fun render :: "json \<Rightarrow> string" where
  "render JNull = ''<nil>''"
| "render (JBool b) = (if b then ''true'' else ''false'')"
| "render (JNum n) = n"
| "render (JStr s) = s"
| "render (JArr vs) = ''['' @ Join (map render vs) '' '' @ '']''"
| "render (JObj kvs) = ''map['' @ Join (map snd (sort_key fst (map (\<lambda>(k, v). (k, k @ '':'' @ render v)) kvs))) '' '' @ '']''"

text \<open>\<^verbatim>\<open>!=\<close> on interfaces: it panics on two slices or two maps.\<close>

definition differs :: "json \<Rightarrow> json \<Rightarrow> bool option" where
  "differs a b = (case (a, b) of (JArr _, JArr _) \<Rightarrow> None | (JObj _, JObj _) \<Rightarrow> None | _ \<Rightarrow> Some (a \<noteq> b))"

section \<open>Policies\<close>

record condition =
  cn_Key :: string
  cn_Value :: "string option"
  cn_Operator :: string

record policy_status =
  ps_TimeStamp :: string
  ps_Resource :: string
  ps_ResourceName :: string
  ps_Result :: string
  ps_ExperimentID :: string
  ps_IsTriggered :: string

record policy =
  po_ConditionType :: string
  po_Conditions :: "condition list"
  po_Statuses :: "policy_status list"

definition ConditionPassed :: string where "ConditionPassed = ''ConditionPassed''"

definition cases :: "string \<Rightarrow> string \<Rightarrow> string \<Rightarrow> bool" where
  "cases key val operator =
     (if operator = ''EqualTo'' then key = val
      else if operator = ''NotEqualTo'' then key \<noteq> val
      else if operator = ''LessThan'' then key < val
      else if operator = ''GreaterThan'' then key > val
      else if operator = ''GreaterThanEqualTo'' then key \<ge> val
      else if operator = ''LessThanEqualTo'' then key \<le> val
      else False)"

text \<open>What a changed value does: it satisfies the condition, or not, or its missing text panics.\<close>

definition satisfied :: "condition \<Rightarrow> json \<Rightarrow> bool option" where
  "satisfied c new =
     (if cn_Operator c = ''Change'' then Some True
      else map_option (\<lambda>v. cases (render new) v (cn_Operator c)) (cn_Value c))"

fun check_and :: "(string \<Rightarrow> json \<Rightarrow> json option) \<Rightarrow> json \<Rightarrow> json \<Rightarrow> bool \<Rightarrow> condition list \<Rightarrow> bool option" where
  "check_and search new old final [] = Some final"
| "check_and search new old final (c # cs) =
     (case search (cn_Key c) new of None \<Rightarrow> Some False | Some n \<Rightarrow>
      (case search (cn_Key c) old of None \<Rightarrow> Some False | Some m \<Rightarrow>
       (case differs n m of None \<Rightarrow> None
        | Some False \<Rightarrow> check_and search new old final cs
        | Some True \<Rightarrow> (case satisfied c n of None \<Rightarrow> None
            | Some False \<Rightarrow> Some False
            | Some True \<Rightarrow> check_and search new old True cs))))"

text \<open>Here an error on the new document is only logged, and its value is nil.\<close>

fun check_or :: "(string \<Rightarrow> json \<Rightarrow> json option) \<Rightarrow> json \<Rightarrow> json \<Rightarrow> bool \<Rightarrow> condition list \<Rightarrow> bool option" where
  "check_or search new old final [] = Some final"
| "check_or search new old final (c # cs) =
     (let n = (case search (cn_Key c) new of None \<Rightarrow> JNull | Some n \<Rightarrow> n) in
      (case search (cn_Key c) old of None \<Rightarrow> Some False | Some m \<Rightarrow>
       (case differs n m of None \<Rightarrow> None
        | Some False \<Rightarrow> check_or search new old final cs
        | Some True \<Rightarrow> (case satisfied c n of None \<Rightarrow> None
            | Some b \<Rightarrow> check_or search new old (final \<or> b) cs))))"

definition conditionChecker :: "(string \<Rightarrow> json \<Rightarrow> json option) \<Rightarrow> policy \<Rightarrow> json \<Rightarrow> json \<Rightarrow> bool option" where
  "conditionChecker search p new old =
     (if po_ConditionType p = ''and'' then check_and search new old False (po_Conditions p)
      else if po_ConditionType p = ''or'' then check_or search new old False (po_Conditions p)
      else Some False)"

section \<open>Changes of workloads\<close>

datatype kind = Deployment | StatefulSet | DaemonSet

record workload =
  wl_Kind :: kind
  wl_Name :: string
  wl_ResourceVersion :: string
  wl_Annotations :: "(string \<times> string) list"
  wl_Json :: json

definition annotation :: "workload \<Rightarrow> string \<Rightarrow> string" where
  "annotation w key = (case map_of (wl_Annotations w) key of Some v \<Rightarrow> v | None \<Rightarrow> [])"

datatype finish = Done | Failed | Panicked

text \<open>The calls of the API that can fail, by the name of the policy.\<close>

datatype call = ListPolicies | GetPolicy string | DecodePolicy string | UpdatePolicy string

text \<open>\<^verbatim>\<open>newObj.(*v1.Deployment)\<close> and its siblings: the resource type names the kind both objects must have.\<close>

definition kind_of :: "string \<Rightarrow> kind option" where
  "kind_of resourceType =
     (let e = ToLower resourceType in
      if e = ''deployment'' then Some Deployment
      else if e = ''statefulset'' then Some StatefulSet
      else if e = ''daemonset'' then Some DaemonSet
      else None)"

definition new_status :: "string \<Rightarrow> string \<Rightarrow> string \<Rightarrow> string \<Rightarrow> policy_status" where
  "new_status now resourceType resourceName experimentId = \<lparr>ps_TimeStamp = now, ps_Resource = resourceType,
     ps_ResourceName = resourceName, ps_Result = ConditionPassed, ps_ExperimentID = experimentId, ps_IsTriggered = ''false''\<rparr>"

fun audit_policies ::
  "(call \<Rightarrow> bool) \<Rightarrow> (string \<Rightarrow> json \<Rightarrow> json option) \<Rightarrow> string \<Rightarrow> string \<Rightarrow> workload \<Rightarrow> workload \<Rightarrow> string \<Rightarrow>
   string list \<Rightarrow> (string \<rightharpoonup> policy) \<Rightarrow> finish \<times> (string \<rightharpoonup> policy)" where
  "audit_policies works search now resourceType new old experimentId [] store = (Done, store)"
| "audit_policies works search now resourceType new old experimentId (name # names) store =
     (case (if works (GetPolicy name) \<and> works (DecodePolicy name) then store name else None) of
        None \<Rightarrow> (Failed, store)
      | Some p \<Rightarrow>
         (case kind_of resourceType of
            None \<Rightarrow> (Failed, store)
          | Some k \<Rightarrow>
             if wl_Kind new \<noteq> k \<or> wl_Kind old \<noteq> k then (Panicked, store)
             else (case conditionChecker search p (wl_Json new) (wl_Json old) of
                 None \<Rightarrow> (Panicked, store)
               | Some False \<Rightarrow> audit_policies works search now resourceType new old experimentId names store
               | Some True \<Rightarrow>
                   if \<not> works (UpdatePolicy name) then (Failed, store)
                   else audit_policies works search now resourceType new old experimentId names
                     (store(name \<mapsto> p\<lparr>po_Statuses := po_Statuses p @ [new_status now resourceType (wl_Name new) experimentId]\<rparr>)))))"

text \<open>The names are those the list call returned.\<close>

definition PolicyAuditor ::
  "(call \<Rightarrow> bool) \<Rightarrow> (string \<Rightarrow> json \<Rightarrow> json option) \<Rightarrow> string \<Rightarrow> string list \<Rightarrow> string \<Rightarrow> workload \<Rightarrow> workload \<Rightarrow> string \<Rightarrow>
   (string \<rightharpoonup> policy) \<Rightarrow> finish \<times> (string \<rightharpoonup> policy)" where
  "PolicyAuditor works search now names resourceType new old experimentId store =
     (if \<not> works ListPolicies then (Failed, store)
      else audit_policies works search now resourceType new old experimentId names store)"

definition reportable :: "workload \<Rightarrow> workload \<Rightarrow> bool" where
  "reportable new old = (wl_ResourceVersion new \<noteq> wl_ResourceVersion old \<and> new \<noteq> old \<and>
     annotation new ''litmuschaos.io/gitops'' = ''true'' \<and> annotation new ''litmuschaos.io/experimentId'' \<noteq> [])"

text \<open>The update handlers of the three informers, with the objects each of them compares and the resource type it
  passes on.\<close>

definition deployment_updated ::
  "(call \<Rightarrow> bool) \<Rightarrow> (string \<Rightarrow> json \<Rightarrow> json option) \<Rightarrow> string \<Rightarrow> string list \<Rightarrow> workload \<Rightarrow> workload \<Rightarrow>
   (string \<rightharpoonup> policy) \<Rightarrow> finish \<times> (string \<rightharpoonup> policy)" where
  "deployment_updated works search now names oldObj newObj store =
     (if reportable newObj oldObj
      then PolicyAuditor works search now names ''Deployment'' newObj oldObj (annotation newObj ''litmuschaos.io/experimentId'') store
      else (Done, store))"

definition statefulset_updated ::
  "(call \<Rightarrow> bool) \<Rightarrow> (string \<Rightarrow> json \<Rightarrow> json option) \<Rightarrow> string \<Rightarrow> string list \<Rightarrow> workload \<Rightarrow> workload \<Rightarrow>
   (string \<rightharpoonup> policy) \<Rightarrow> finish \<times> (string \<rightharpoonup> policy)" where
  "statefulset_updated works search now names oldObj newObj store =
     (if reportable newObj oldObj
      then PolicyAuditor works search now names ''Deployment'' newObj oldObj (annotation newObj ''litmuschaos.io/experimentId'') store
      else (Done, store))"

definition daemonset_updated ::
  "(call \<Rightarrow> bool) \<Rightarrow> (string \<Rightarrow> json \<Rightarrow> json option) \<Rightarrow> string \<Rightarrow> string list \<Rightarrow> workload \<Rightarrow> workload \<Rightarrow>
   (string \<rightharpoonup> policy) \<Rightarrow> finish \<times> (string \<rightharpoonup> policy)" where
  "daemonset_updated works search now names oldObj newObj store =
     (let dsNewObj = newObj; dsOldObj = newObj in
      if reportable dsNewObj dsOldObj
      then PolicyAuditor works search now names ''Deployment'' dsNewObj dsOldObj (annotation dsNewObj ''litmuschaos.io/experimentId'') store
      else (Done, store))"

section \<open>Asking the server\<close>

text \<open>The ConfigMap and the Secret of the infrastructure, absent when they cannot be read.\<close>

definition data_at :: "(string \<times> string) list \<Rightarrow> string \<Rightarrow> string" where
  "data_at m k = (case map_of m k of Some v \<Rightarrow> v | None \<Rightarrow> [])"

definition getInfraData ::
  "(string \<times> string) list option \<Rightarrow> (string \<times> string) list option \<Rightarrow> (string \<times> string \<times> string) option" where
  "getInfraData configMap secret = (case configMap of None \<Rightarrow> None | Some cm \<Rightarrow>
     if data_at cm ''IS_INFRA_CONFIRMED'' \<noteq> ''true'' then None
     else (case secret of None \<Rightarrow> None | Some sec \<Rightarrow> Some (data_at sec ''ACCESS_KEY'', data_at sec ''INFRA_ID'', data_at cm ''SERVER_ADDR'')))"

definition request_payload :: "string \<Rightarrow> string \<Rightarrow> string \<Rightarrow> string \<Rightarrow> string" where
  "request_payload version accessKey clusterID experimentId =
     ''{'' @ [CHR 0x22] @ ''query'' @ [CHR 0x22] @ '': '' @ [CHR 0x22] @ ''mutation { gitopsNotifier(clusterInfo: { infraID: '' @ [CHR 0x5C, CHR 0x22] @
     clusterID @ [CHR 0x5C, CHR 0x22] @ '', version: '' @ [CHR 0x5C, CHR 0x22] @ version @ [CHR 0x5C, CHR 0x22] @
     '', accessKey: '' @ [CHR 0x5C, CHR 0x22] @ accessKey @ [CHR 0x5C, CHR 0x22] @ ''}, experimentID: '' @ [CHR 0x5C, CHR 0x22] @
     experimentId @ [CHR 0x5C, CHR 0x22] @ '')'' @ [CHR 0x5C] @ ''n}'' @ [CHR 0x22] @ ''}''"

text \<open>What a POST brings: a status and a body, or nothing.\<close>

definition SendRequest ::
  "(string \<Rightarrow> string \<Rightarrow> (nat \<times> string option) option) \<Rightarrow> (string \<times> string \<times> string) option \<Rightarrow> string \<Rightarrow> string \<Rightarrow> string option" where
  "SendRequest post infraData version experimentId = (case infraData of None \<Rightarrow> None | Some (accessKey, clusterID, serverAddr) \<Rightarrow>
     (case post serverAddr (request_payload version accessKey clusterID experimentId) of
        None \<Rightarrow> None
      | Some (status, body) \<Rightarrow> if status \<noteq> 200 then Some ''URL is not reachable or Bad request'' else body))"

definition pending :: "policy_status \<Rightarrow> bool" where
  "pending s = (ps_Result s = ConditionPassed \<and> ToLower (ps_IsTriggered s) = ''false'')"

text \<open>The loop over the statuses: whether it ended without an error, the statuses, and the experiments asked for.
  \<open>decode\<close> reads the field \<^verbatim>\<open>data.gitopsNotifer\<close> of a response.\<close>

fun notify :: "(string \<Rightarrow> string option) \<Rightarrow> (string \<Rightarrow> string option) \<Rightarrow> policy_status list \<Rightarrow> bool \<times> policy_status list \<times> string list" where
  "notify send decode [] = (True, [], [])"
| "notify send decode (s # ss) =
     (if pending s
      then (case (case send (ps_ExperimentID s) of None \<Rightarrow> None | Some response \<Rightarrow> decode response) of
          None \<Rightarrow> (False, s # ss, [ps_ExperimentID s])
        | Some answer \<Rightarrow>
           (case notify send decode ss of (ok, ss', sent) \<Rightarrow>
             (ok, s\<lparr>ps_IsTriggered := (if answer = ''Gitops Disabled'' then ''false'' else ''true'')\<rparr> # ss', ps_ExperimentID s # sent)))
      else (case notify send decode ss of (ok, ss', sent) \<Rightarrow> (ok, s # ss', sent)))"

definition Reconcile ::
  "(call \<Rightarrow> bool) \<Rightarrow> (string \<Rightarrow> string option) \<Rightarrow> (string \<Rightarrow> string option) \<Rightarrow> string \<Rightarrow> (string \<rightharpoonup> policy) \<Rightarrow>
   finish \<times> (string \<rightharpoonup> policy) \<times> string list" where
  "Reconcile works send decode name store =
     (if \<not> works (GetPolicy name) then (Failed, store, [])
      else (case store name of None \<Rightarrow> (Done, store, [])
        | Some p \<Rightarrow> (case notify send decode (po_Statuses p) of (ok, ss, sent) \<Rightarrow>
            if \<not> ok \<or> \<not> works (UpdatePolicy name) then (Failed, store, sent)
            else (Done, store(name \<mapsto> p\<lparr>po_Statuses := ss\<rparr>), sent))))"

text \<open>The server: the Git configuration of the project, absent when GitOps is off; the manifest kinds of the
  experiments with this id (each has a revision); whether the manifest takes its new name. An answer or an
  error, and whether a run is sent to the subscriber.\<close>

definition GitOpsNotificationHandler ::
  "'config option option \<Rightarrow> string list option \<Rightarrow> bool \<Rightarrow> string \<Rightarrow> (string + string) \<times> bool" where
  "GitOpsNotificationHandler config experiments renames experimentID =
     (case config of
        None \<Rightarrow> (Inl ''Cannot get Git Config from DB'', False)
      | Some None \<Rightarrow> (Inr ''GitOps Disabled'', False)
      | Some (Some _) \<Rightarrow>
         (case experiments of
            None \<Rightarrow> (Inl ''could not get experiment'', False)
          | Some [] \<Rightarrow> (Inl ''no such experiment found'', False)
          | Some (resKind # _) \<Rightarrow>
              if ToLower resKind = ''cronexperiment'' then (Inr (''Request Acknowledged for experimentID: '' @ experimentID), False)
              else if \<not> renames then (Inl ''Failed to updated experiment name'', False)
              else (Inr (''Request Acknowledged for experimentID: '' @ experimentID), True)))"

section \<open>What a policy means\<close>

definition value_changed :: "(string \<Rightarrow> json \<Rightarrow> json option) \<Rightarrow> json \<Rightarrow> json \<Rightarrow> condition \<Rightarrow> bool" where
  "value_changed search new old c = (search (cn_Key c) new \<noteq> search (cn_Key c) old)"

definition passes :: "(string \<Rightarrow> json \<Rightarrow> json option) \<Rightarrow> json \<Rightarrow> condition \<Rightarrow> bool" where
  "passes search new c = (\<exists>n. search (cn_Key c) new = Some n \<and> satisfied c n = Some True)"

text \<open>A condition that is evaluated without error or panic.\<close>

definition evaluable :: "(string \<Rightarrow> json \<Rightarrow> json option) \<Rightarrow> json \<Rightarrow> json \<Rightarrow> condition \<Rightarrow> bool" where
  "evaluable search new old c = (\<exists>n m. search (cn_Key c) new = Some n \<and> search (cn_Key c) old = Some m \<and>
     differs n m \<noteq> None \<and> (cn_Operator c = ''Change'' \<or> cn_Value c \<noteq> None))"

lemma differs_Some: "differs n m = Some b \<Longrightarrow> b = (n \<noteq> m)"
  by (auto simp: differs_def split: json.splits prod.splits)

lemma evaluableE:
  assumes "evaluable search new old c"
  obtains n m b where "search (cn_Key c) new = Some n" "search (cn_Key c) old = Some m"
    "differs n m = Some (value_changed search new old c)" "satisfied c n = Some b" "b = passes search new c"
proof -
  obtain n m where s: "search (cn_Key c) new = Some n" "search (cn_Key c) old = Some m" "differs n m \<noteq> None"
      "cn_Operator c = ''Change'' \<or> cn_Value c \<noteq> None"
    using assms by (auto simp: evaluable_def)
  then have "differs n m = Some (value_changed search new old c)" using differs_Some [of n m] by (auto simp: value_changed_def)
  moreover have "satisfied c n \<noteq> None" using s(4) by (auto simp: satisfied_def)
  then obtain b where "satisfied c n = Some b" by blast
  ultimately show thesis using s that by (auto simp: passes_def)
qed

lemma check_and_exact:
  "\<forall>c \<in> set cs. evaluable search new old c \<Longrightarrow> check_and search new old final cs =
   Some ((\<forall>c \<in> set cs. value_changed search new old c \<longrightarrow> passes search new c) \<and>
     (final \<or> (\<exists>c \<in> set cs. value_changed search new old c)))"
proof (induction cs arbitrary: final)
  case (Cons c cs)
  then have "evaluable search new old c" by simp
  then obtain n m b where "search (cn_Key c) new = Some n" "search (cn_Key c) old = Some m"
    "differs n m = Some (value_changed search new old c)" "satisfied c n = Some b" "b = passes search new c" by (rule evaluableE)
  then show ?case using Cons by (auto split: bool.split)
qed simp

lemma check_or_exact:
  "\<forall>c \<in> set cs. evaluable search new old c \<Longrightarrow> check_or search new old final cs =
   Some (final \<or> (\<exists>c \<in> set cs. value_changed search new old c \<and> passes search new c))"
proof (induction cs arbitrary: final)
  case (Cons c cs)
  then have "evaluable search new old c" by simp
  then obtain n m b where "search (cn_Key c) new = Some n" "search (cn_Key c) old = Some m"
    "differs n m = Some (value_changed search new old c)" "satisfied c n = Some b" "b = passes search new c" by (rule evaluableE)
  then show ?case using Cons by (auto split: bool.split)
qed simp

text \<open>The meaning of a policy: where every condition can be evaluated, an \<^verbatim>\<open>and\<close> policy matches when some watched
  value changed and every changed one satisfies its condition (an unchanged value is not asked), an \<^verbatim>\<open>or\<close>
  policy when some changed value satisfies its condition, and a policy of any other type never.\<close>

theorem conditions_exact:
  assumes "\<forall>c \<in> set (po_Conditions p). evaluable search new old c"
  shows "conditionChecker search p new old = Some
     (if po_ConditionType p = ''and'' then
        (\<exists>c \<in> set (po_Conditions p). value_changed search new old c) \<and>
        (\<forall>c \<in> set (po_Conditions p). value_changed search new old c \<longrightarrow> passes search new c)
      else po_ConditionType p = ''or'' \<and>
        (\<exists>c \<in> set (po_Conditions p). value_changed search new old c \<and> passes search new c))"
  using check_and_exact [OF assms, of False] check_or_exact [OF assms, of False] by (auto simp: conditionChecker_def)

section \<open>Audits only add records\<close>

definition extended :: "policy_status \<Rightarrow> (policy \<Rightarrow> bool option) \<Rightarrow> policy option \<Rightarrow> policy option \<Rightarrow> bool" where
  "extended s check before after = (after = before \<or>
     (\<exists>p. before = Some p \<and> check p = Some True \<and> after = Some (p\<lparr>po_Statuses := po_Statuses p @ [s]\<rparr>)))"

lemma audit_extends:
  assumes "audit_policies works search now resourceType new old experimentId names store = (f, store')" "distinct names"
  shows "extended (new_status now resourceType (wl_Name new) experimentId) (\<lambda>p. conditionChecker search p (wl_Json new) (wl_Json old))
     (store n) (store' n) \<and> (n \<notin> set names \<longrightarrow> store' n = store n)"
  using assms
proof (induction names arbitrary: store)
  case (Cons name names)
  let ?s = "new_status now resourceType (wl_Name new) experimentId"
  show ?case
  proof (cases "store' = store")
    case False
    then obtain p k b where step: "store name = Some p" "kind_of resourceType = Some k" "wl_Kind new = k" "wl_Kind old = k"
        "conditionChecker search p (wl_Json new) (wl_Json old) = Some b" "b \<longrightarrow> works (UpdatePolicy name)"
        "audit_policies works search now resourceType new old experimentId names
           (if b then store(name \<mapsto> p\<lparr>po_Statuses := po_Statuses p @ [?s]\<rparr>) else store) = (f, store')"
      using Cons.prems(1) by (auto split: option.splits if_splits bool.splits)
    note IH = Cons.IH [OF step(7)]
    show ?thesis
    proof (cases "n = name")
      case True
      then have "store' n = (if b then store(name \<mapsto> p\<lparr>po_Statuses := po_Statuses p @ [?s]\<rparr>) else store) n"
        using IH Cons.prems(2) by simp
      then show ?thesis using step True by (auto simp: extended_def)
    next
      case False
      then show ?thesis using IH Cons.prems(2) by (simp split: if_splits)
    qed
  qed (simp add: extended_def)
qed (simp add: extended_def)

lemma audit_completes:
  assumes "\<And>c. works c" "kind_of resourceType = Some k" "wl_Kind new = k" "wl_Kind old = k" "distinct names"
    and "\<forall>n \<in> set names. \<exists>p. store n = Some p \<and> conditionChecker search p (wl_Json new) (wl_Json old) \<noteq> None"
  shows "\<exists>store'. audit_policies works search now resourceType new old experimentId names store = (Done, store') \<and>
     (\<forall>n \<in> set names. \<forall>p. store n = Some p \<longrightarrow> store' n = Some (if conditionChecker search p (wl_Json new) (wl_Json old) = Some True
        then p\<lparr>po_Statuses := po_Statuses p @ [new_status now resourceType (wl_Name new) experimentId]\<rparr> else p))"
  using assms(5,6)
proof (induction names arbitrary: store)
  case (Cons name names)
  let ?s = "new_status now resourceType (wl_Name new) experimentId"
  obtain p b where p: "store name = Some p" "conditionChecker search p (wl_Json new) (wl_Json old) = Some b" using Cons.prems by auto
  let ?store = "if b then store(name \<mapsto> p\<lparr>po_Statuses := po_Statuses p @ [?s]\<rparr>) else store"
  have "\<forall>n \<in> set names. \<exists>p. ?store n = Some p \<and> conditionChecker search p (wl_Json new) (wl_Json old) \<noteq> None"
    using Cons.prems by auto
  then obtain store' where s: "audit_policies works search now resourceType new old experimentId names ?store = (Done, store')"
      "\<forall>n \<in> set names. \<forall>p. ?store n = Some p \<longrightarrow> store' n = Some (if conditionChecker search p (wl_Json new) (wl_Json old) = Some True
        then p\<lparr>po_Statuses := po_Statuses p @ [?s]\<rparr> else p)"
    using Cons.IH [of ?store] Cons.prems(1) by auto
  have "store' name = ?store name" using audit_extends [OF s(1), of name] Cons.prems(1) by simp
  then have own: "store' name = Some (if b then p\<lparr>po_Statuses := po_Statuses p @ [?s]\<rparr> else p)" using p by simp
  have "audit_policies works search now resourceType new old experimentId (name # names) store = (Done, store')"
    using s(1) p assms(1-4) by (auto split: bool.split)
  moreover have "\<forall>n \<in> set names. n \<noteq> name" using Cons.prems(1) by auto
  ultimately show ?case using s(2) own p by (intro exI [of _ store']) (auto split: if_splits)
qed simp

section \<open>From a change to a run\<close>

definition notified :: "(string \<Rightarrow> string option) \<Rightarrow> (string \<Rightarrow> string option) \<Rightarrow> policy_status \<Rightarrow> policy_status \<Rightarrow> bool" where
  "notified send decode s s' = (if pending s
     then s' = s\<lparr>ps_IsTriggered := ''true''\<rparr> \<or>
       s' = s\<lparr>ps_IsTriggered := ''false''\<rparr> \<and> (\<exists>r. send (ps_ExperimentID s) = Some r \<and> decode r = Some ''Gitops Disabled'')
     else s' = s)"

lemma notify_exact:
  "notify send decode ss = (True, ss', sent) \<Longrightarrow>
   sent = map ps_ExperimentID (filter pending ss) \<and> list_all2 (notified send decode) ss ss'"
proof (induction ss arbitrary: ss' sent)
  case (Cons s ss)
  obtain ok rest more where n: "notify send decode ss = (ok, rest, more)" by (metis prod_cases3)
  show ?case
  proof (cases "pending s")
    case True
    obtain r a where ra: "send (ps_ExperimentID s) = Some r" "decode r = Some a"
      using Cons.prems True by (auto split: option.splits)
    have "ok" "ss' = s\<lparr>ps_IsTriggered := (if a = ''Gitops Disabled'' then ''false'' else ''true'')\<rparr> # rest" "sent = ps_ExperimentID s # more"
      using Cons.prems True n ra by auto
    moreover have "notified send decode s (s\<lparr>ps_IsTriggered := (if a = ''Gitops Disabled'' then ''false'' else ''true'')\<rparr>)"
      using True ra by (simp add: notified_def)
    ultimately show ?thesis using Cons.IH [of rest more] n True by simp
  next
    case False
    then have "notified send decode s s" by (simp add: notified_def)
    then show ?thesis using Cons.IH [of rest more] Cons.prems n False by auto
  qed
qed simp

lemma notify_succeeds:
  "\<forall>s \<in> set ss. pending s \<longrightarrow> (\<exists>r a. send (ps_ExperimentID s) = Some r \<and> decode r = Some a) \<Longrightarrow> fst (notify send decode ss)"
  by (induction ss) (fastforce split: prod.splits)+

lemma pending_true [simp]: "\<not> pending (s\<lparr>ps_IsTriggered := ''true''\<rparr>)"
  by (simp add: pending_def ToLower_def to_lower_char_def)

lemma notified_not_pending:
  assumes "notify send decode ss = (True, ss', sent)" "s' \<in> set ss'" "pending s'"
  shows "\<exists>e \<in> set sent. \<exists>r. send e = Some r \<and> decode r = Some ''Gitops Disabled''"
proof -
  note N = notify_exact [OF assms(1)]
  obtain i where i: "i < length ss'" "ss' ! i = s'" using assms(2) by (auto simp: in_set_conv_nth)
  then have len: "i < length ss" using N list_all2_lengthD by fastforce
  have r: "notified send decode (ss ! i) s'" using list_all2_nthD [OF conjunct2 [OF N] len] i(2) by simp
  have p: "pending (ss ! i)" using r assms(3) by (auto simp: notified_def split: if_splits)
  then have "ps_ExperimentID (ss ! i) \<in> set sent" using N len by auto
  then show ?thesis using r p assms(3) by (auto simp: notified_def)
qed

text \<open>A change reaches the server, once. When a watched deployment is updated, every policy of the namespace can
  be evaluated and the calls work, each policy that matches gains exactly one record and no other policy
  changes; reconciling a policy that matched then asks the server for the experiment of the annotation; and
  unless an answer reads \<^verbatim>\<open>Gitops Disabled\<close>, reconciling it again asks for nothing.\<close>

theorem change_reaches_server:
  assumes "\<And>c. works c" "reportable new old" "wl_Kind new = Deployment" "wl_Kind old = Deployment" "distinct names"
    and "\<forall>n \<in> set names. \<exists>p. store n = Some p \<and> conditionChecker search p (wl_Json new) (wl_Json old) \<noteq> None"
    and "name \<in> set names" "store name = Some p" "conditionChecker search p (wl_Json new) (wl_Json old) = Some True"
    and "\<forall>e. \<exists>r a. send e = Some r \<and> decode r = Some a"
  shows "\<exists>store1 store2 sent. deployment_updated works search now names old new store = (Done, store1) \<and>
     (\<forall>n. store1 n = (case store n of None \<Rightarrow> None | Some q \<Rightarrow>
        Some (if n \<in> set names \<and> conditionChecker search q (wl_Json new) (wl_Json old) = Some True
          then q\<lparr>po_Statuses := po_Statuses q @ [new_status now ''Deployment'' (wl_Name new) (annotation new ''litmuschaos.io/experimentId'')]\<rparr>
          else q))) \<and>
     Reconcile works send decode name store1 = (Done, store2, sent) \<and>
     annotation new ''litmuschaos.io/experimentId'' \<in> set sent \<and>
     ((\<forall>e \<in> set sent. \<forall>r. send e = Some r \<longrightarrow> decode r \<noteq> Some ''Gitops Disabled'') \<longrightarrow>
        Reconcile works send decode name store2 = (Done, store2, []))"
proof -
  let ?e = "annotation new ''litmuschaos.io/experimentId''"
  let ?s = "new_status now ''Deployment'' (wl_Name new) ?e"
  have k: "kind_of ''Deployment'' = Some Deployment" by code_simp
  obtain store1 where one: "audit_policies works search now ''Deployment'' new old ?e names store = (Done, store1)"
      "\<forall>n \<in> set names. \<forall>p. store n = Some p \<longrightarrow> store1 n = Some (if conditionChecker search p (wl_Json new) (wl_Json old) = Some True
        then p\<lparr>po_Statuses := po_Statuses p @ [?s]\<rparr> else p)"
    using audit_completes [where works = works and now = now and experimentId = ?e, OF assms(1) k assms(3-6)]
    by (elim exE conjE) (rule that)
  have dep: "deployment_updated works search now names old new store = (Done, store1)"
    using one(1) assms(1,2) by (simp add: deployment_updated_def PolicyAuditor_def)
  have other: "n \<notin> set names \<Longrightarrow> store1 n = store n" for n using audit_extends [OF one(1) assms(5)] by blast
  have all: "store1 n = (case store n of None \<Rightarrow> None | Some q \<Rightarrow>
        Some (if n \<in> set names \<and> conditionChecker search q (wl_Json new) (wl_Json old) = Some True
          then q\<lparr>po_Statuses := po_Statuses q @ [?s]\<rparr> else q))" for n
    using one(2) other [of n] assms(6) by (cases "n \<in> set names") (auto split: option.split)
  let ?ss = "po_Statuses p @ [?s]"
  have p1: "store1 name = Some (p\<lparr>po_Statuses := ?ss\<rparr>)" using all [of name] assms(7-9) by simp
  obtain ok ss' sent where n0: "notify send decode ?ss = (ok, ss', sent)" by (metis prod_cases3)
  moreover have "fst (notify send decode ?ss)" by (rule notify_succeeds) (use assms(10) in blast)
  ultimately have n: "notify send decode ?ss = (True, ss', sent)" by simp
  let ?store2 = "store1(name \<mapsto> p\<lparr>po_Statuses := ss'\<rparr>)"
  have rec: "Reconcile works send decode name store1 = (Done, ?store2, sent)"
    using p1 n assms(1) by (simp add: Reconcile_def)
  have "pending ?s" by (simp add: pending_def new_status_def ToLower_def to_lower_char_def)
  then have sent: "?e \<in> set sent" using notify_exact [OF n] by (auto simp: new_status_def)
  have again: "Reconcile works send decode name ?store2 = (Done, ?store2, [])"
    if ans: "\<forall>e \<in> set sent. \<forall>r. send e = Some r \<longrightarrow> decode r \<noteq> Some ''Gitops Disabled''"
  proof -
    have "\<not> pending s" if "s \<in> set ss'" for s using notified_not_pending [OF n that] ans by blast
    then have "notify send decode ss' = (True, ss', [])" by (induction ss') auto
    then show ?thesis using assms(1) by (simp add: Reconcile_def)
  qed
  show ?thesis
    by (intro exI [of _ store1] exI [of _ ?store2] exI [of _ sent] conjI allI impI)
      (use dep all rec sent again in blast)+
qed

section \<open>Concrete policies and changes\<close>

text \<open>A search that reads top-level keys, and the field the controller reads from a response whose body is its
  answer. The sample policy watches the replicas of a deployment.\<close>

definition top_key :: "string \<Rightarrow> json \<Rightarrow> json option" where
  "top_key k j = (case j of JObj kvs \<Rightarrow> Some (case map_of kvs k of Some v \<Rightarrow> v | None \<Rightarrow> JNull) | _ \<Rightarrow> Some JNull)"

definition replicas_policy :: policy where
  "replicas_policy = \<lparr>po_ConditionType = ''and'', po_Conditions =
     [\<lparr>cn_Key = ''replicas'', cn_Value = Some ''3'', cn_Operator = ''LessThan''\<rparr>,
      \<lparr>cn_Key = ''image'', cn_Value = None, cn_Operator = ''Change''\<rparr>], po_Statuses = []\<rparr>"

definition shop :: "kind \<Rightarrow> string \<Rightarrow> string \<Rightarrow> workload" where
  "shop k version replicas = \<lparr>wl_Kind = k, wl_Name = ''shop'', wl_ResourceVersion = version,
     wl_Annotations = [(''litmuschaos.io/gitops'', ''true''), (''litmuschaos.io/experimentId'', ''e1'')],
     wl_Json = JObj [(''image'', JStr ''shop:1''), (''replicas'', JNum replicas)]\<rparr>"

theorem conditions_exact_witness:
  "conditionChecker top_key replicas_policy (wl_Json (shop Deployment ''2'' ''1'')) (wl_Json (shop Deployment ''1'' ''4'')) = Some True"
proof -
  let ?new = "wl_Json (shop Deployment ''2'' ''1'')" and ?old = "wl_Json (shop Deployment ''1'' ''4'')"
  have e: "\<forall>c \<in> set (po_Conditions replicas_policy). evaluable top_key ?new ?old c"
    by (auto simp: replicas_policy_def evaluable_def top_key_def shop_def differs_def)
  have "cases ''1'' ''3'' ''LessThan''" by code_simp
  then show ?thesis
    using conditions_exact [OF e]
    by (simp add: replicas_policy_def value_changed_def passes_def top_key_def shop_def satisfied_def)
qed

theorem change_reaches_server_witness:
  "\<exists>store1 store2 sent.
     deployment_updated (\<lambda>_. True) top_key ''now'' [''p''] (shop Deployment ''1'' ''4'') (shop Deployment ''2'' ''1'') [''p'' \<mapsto> replicas_policy]
       = (Done, store1) \<and>
     Reconcile (\<lambda>_. True) Some Some ''p'' store1 = (Done, store2, sent) \<and> ''e1'' \<in> set sent"
proof -
  let ?new = "shop Deployment ''2'' ''1''" and ?old = "shop Deployment ''1'' ''4''"
  have r: "reportable ?new ?old" by code_simp
  have k: "wl_Kind ?new = Deployment" "wl_Kind ?old = Deployment" by (simp_all add: shop_def)
  have c: "conditionChecker top_key replicas_policy (wl_Json ?new) (wl_Json ?old) = Some True" by code_simp
  have a: "annotation ?new ''litmuschaos.io/experimentId'' = ''e1''" by code_simp
  show ?thesis
    using change_reaches_server [of "\<lambda>_. True" ?new ?old "[''p'']" "[''p'' \<mapsto> replicas_policy]" top_key "''p''" replicas_policy Some Some "''now''"]
      r k c a by auto
qed

text \<open>The daemon set informer compares the new object with itself: it never reports a change.\<close>

lemma daemonset_never_reported: "daemonset_updated works search now names old new store = (Done, store)"
  by (simp add: daemonset_updated_def reportable_def)

text \<open>The stateful set informer says \<^verbatim>\<open>Deployment\<close>, so the first policy of the namespace panics.\<close>

lemma statefulset_panics:
  assumes "reportable new old" "wl_Kind new = StatefulSet" "works ListPolicies" "works (GetPolicy n)" "works (DecodePolicy n)" "store n \<noteq> None"
  shows "statefulset_updated works search now (n # names) old new store = (Panicked, store)"
proof -
  have "kind_of ''Deployment'' = Some Deployment" by code_simp
  then show ?thesis using assms by (auto simp: statefulset_updated_def PolicyAuditor_def)
qed

text \<open>With GitOps off the server answers \<^verbatim>\<open>GitOps Disabled\<close>, which is not the text the controller looks for (and the
  answer comes under \<^verbatim>\<open>gitopsNotifier\<close>, not the name it reads): the event is marked as triggered, and it is
  not sent again once GitOps is on.\<close>

lemma disabled_marked_triggered:
  assumes "fst (GitOpsNotificationHandler (Some None) experiments renames e) = Inr answer" "decode answer \<in> {Some answer, Some []}"
    and "pending s" "send (ps_ExperimentID s) = Some answer"
  shows "notify send decode [s] = (True, [s\<lparr>ps_IsTriggered := ''true''\<rparr>], [ps_ExperimentID s])"
  using assms by (auto simp: GitOpsNotificationHandler_def)

text \<open>An error in the middle loses the marks of the requests already sent: they are sent again.\<close>

lemma sent_twice:
  "let s = new_status ''now'' ''Deployment'' ''shop''; store = [''p'' \<mapsto> replicas_policy\<lparr>po_Statuses := [s ''e1'', s ''e2'']\<rparr>];
       send = (\<lambda>e. if e = ''e2'' then None else Some ''ok'');
       (f, store', sent) = Reconcile (\<lambda>_. True) send Some ''p'' store;
       (f', store'', sent') = Reconcile (\<lambda>_. True) Some Some ''p'' store' in
     f = Failed \<and> sent = [''e1'', ''e2''] \<and> f' = Done \<and> sent' = [''e1'', ''e2'']"
  by code_simp

text \<open>Values are compared as texts, and watching a list or a map panics.\<close>

lemma ten_less_than_three: "cases ''10'' ''3'' ''LessThan''" by code_simp

lemma watched_list_panics:
  "conditionChecker (\<lambda>_ j. Some j) \<lparr>po_ConditionType = ''or'', po_Conditions = [\<lparr>cn_Key = ''x'', cn_Value = None, cn_Operator = ''Change''\<rparr>],
     po_Statuses = []\<rparr> (JArr []) (JArr []) = None"
  by code_simp

text \<open>An \<^verbatim>\<open>and\<close> policy matches although one of its conditions is false, as long as that one's value did not change.\<close>

lemma and_ignores_unchanged:
  "conditionChecker top_key \<lparr>po_ConditionType = ''and'', po_Conditions =
     [\<lparr>cn_Key = ''replicas'', cn_Value = Some ''1'', cn_Operator = ''EqualTo''\<rparr>,
      \<lparr>cn_Key = ''image'', cn_Value = Some ''other'', cn_Operator = ''EqualTo''\<rparr>], po_Statuses = []\<rparr>
     (wl_Json (shop Deployment ''2'' ''1'')) (wl_Json (shop Deployment ''1'' ''4'')) = Some True"
  by code_simp

end
