(* ===== verification/Auth_Entities.thy ===== *)
theory Auth_Entities
  imports Go_Prelude
begin

text \<open>
  The entities of the authentication service (\<^verbatim>\<open>chaoscenter/authentication/pkg/entities\<close>), its error
  table (\<^verbatim>\<open>pkg/utils/errors.go\<close>), its role table (\<^verbatim>\<open>pkg/validations/roles.go\<close>) and its input
  validators (\<^verbatim>\<open>pkg/utils/sanitizers.go\<close>). Roles and invitations are strings, as in the code: a
  request can carry any string in them.
\<close>

section \<open>Entities\<close>

record user_detail = ud_UserID :: string  ud_Username :: string  ud_Email :: string

record audit =
  a_UpdatedAt :: int
  a_CreatedAt :: int
  a_CreatedBy :: user_detail
  a_UpdatedBy :: user_detail
  a_IsRemoved :: bool

record member =
  m_UserID :: string
  m_Username :: string
  m_Email :: string
  m_Name :: string
  m_Role :: string
  m_Invitation :: string
  m_JoinedAt :: int
  m_DeactivatedAt :: "int option"

record project =
  p_Audit :: audit
  p_ID :: string
  p_Name :: string
  p_Members :: "member list"
  p_State :: "string option"
  p_Tags :: "string option list"
  p_Description :: "string option"

record user =
  u_Audit :: audit
  u_ID :: string
  u_Username :: string
  u_Password :: string
  u_Salt :: string
  u_Email :: string
  u_Name :: string
  u_Role :: string
  u_DeactivatedAt :: "int option"
  u_IsInitialLogin :: bool

definition RoleOwner :: string where "RoleOwner = ''Owner''"
definition RoleExecutor :: string where "RoleExecutor = ''Executor''"
definition RoleViewer :: string where "RoleViewer = ''Viewer''"

definition PendingInvitation :: string where "PendingInvitation = ''Pending''"
definition AcceptedInvitation :: string where "AcceptedInvitation = ''Accepted''"
definition DeclinedInvitation :: string where "DeclinedInvitation = ''Declined''"
definition ExitedProject :: string where "ExitedProject = ''Exited''"

definition RoleAdmin :: string where "RoleAdmin = ''admin''"
definition RoleUser :: string where "RoleUser = ''user''"

definition member_roles :: "string list" where
  "member_roles = [RoleOwner, RoleExecutor, RoleViewer]"

definition invitations :: "string list" where
  "invitations = [PendingInvitation, AcceptedInvitation, DeclinedInvitation, ExitedProject]"

lemmas auth_consts = RoleOwner_def RoleExecutor_def RoleViewer_def PendingInvitation_def
  AcceptedInvitation_def DeclinedInvitation_def ExitedProject_def RoleAdmin_def RoleUser_def
  member_roles_def invitations_def

definition SanitizedUser :: "user \<Rightarrow> user" where
  "SanitizedUser u = u\<lparr>u_Password := []\<rparr>"

definition zero_detail :: user_detail where
  "zero_detail = \<lparr>ud_UserID = [], ud_Username = [], ud_Email = []\<rparr>"

definition MemberOutput :: "member \<Rightarrow> member" where
  "MemberOutput m = \<lparr>m_UserID = m_UserID m, m_Username = [], m_Email = [], m_Name = [], m_Role = m_Role m,
     m_Invitation = m_Invitation m, m_JoinedAt = m_JoinedAt m, m_DeactivatedAt = None\<rparr>"

definition GetMemberOutput :: "project \<Rightarrow> member list" where
  "GetMemberOutput p = map MemberOutput (p_Members p)"

definition GetProjectOutput :: "project \<Rightarrow> project" where
  "GetProjectOutput p = \<lparr>
     p_Audit = \<lparr>a_UpdatedAt = a_UpdatedAt (p_Audit p), a_CreatedAt = a_CreatedAt (p_Audit p),
                a_CreatedBy = a_UpdatedBy (p_Audit p), a_UpdatedBy = a_UpdatedBy (p_Audit p),
                a_IsRemoved = a_IsRemoved (p_Audit p)\<rparr>,
     p_ID = p_ID p, p_Name = p_Name p, p_Members = GetMemberOutput p, p_State = p_State p,
     p_Tags = [], p_Description = None\<rparr>"

section \<open>Errors\<close>

datatype app_error =
    ErrInvalidCredentials | ErrServerError | ErrInvalidRequest | ErrStrictPasswordPolicyViolation
  | ErrStrictUsernamePolicyViolation | ErrUnauthorized | ErrUserExists | ErrUserNotFound
  | ErrProjectNotFound | ErrWrongPassword | ErrUpdatingAdmin | ErrUserDeactivated
  | ErrUserAlreadyDeactivated | ErrEmptyProjectName | ErrInvalidRole | ErrInvalidEmail
  | ErrPasswordNotUpdated | ErrOldPassword

text \<open>
  An error value: one of the table's, one of the database driver's (\<open>NoDocuments\<close> is
  \<^verbatim>\<open>mongo.ErrNoDocuments\<close>), or one built from a text by \<^verbatim>\<open>errors.New\<close> or \<^verbatim>\<open>fmt.Errorf\<close>.
\<close>

datatype go_error = App app_error | NoDocuments | DuplicateKey | DriverError string | Plain string

fun app_error_text :: "app_error \<Rightarrow> string" where
  "app_error_text ErrInvalidCredentials = ''invalid_credentials''"
| "app_error_text ErrServerError = ''server_error''"
| "app_error_text ErrInvalidRequest = ''invalid_request''"
| "app_error_text ErrStrictPasswordPolicyViolation = ''password_policy_violation''"
| "app_error_text ErrStrictUsernamePolicyViolation = ''username_policy_violation''"
| "app_error_text ErrUnauthorized = ''unauthorized''"
| "app_error_text ErrUserExists = ''user_exists''"
| "app_error_text ErrUserNotFound = ''user does not exist''"
| "app_error_text ErrProjectNotFound = ''project does not exist''"
| "app_error_text ErrWrongPassword = ''password doesn't match''"
| "app_error_text ErrUpdatingAdmin = ''cannot remove admin''"
| "app_error_text ErrUserDeactivated = ''your account has been deactivated''"
| "app_error_text ErrUserAlreadyDeactivated = ''user already deactivated''"
| "app_error_text ErrEmptyProjectName = ''invalid project name''"
| "app_error_text ErrInvalidRole = ''invalid role''"
| "app_error_text ErrInvalidEmail = ''invalid email''"
| "app_error_text ErrPasswordNotUpdated = ''default password not updated''"
| "app_error_text ErrOldPassword = ''old and new passwords can't be same''"

fun error_text :: "go_error \<Rightarrow> string" where
  "error_text (App e) = app_error_text e"
| "error_text NoDocuments = ''mongo: no documents in result''"
| "error_text DuplicateKey = ''E11000 duplicate key error''"
| "error_text (DriverError t) = t"
| "error_text (Plain t) = t"

text \<open>A status missing from the table reads as the zero value of Go's map.\<close>

fun ErrorStatusCodes :: "go_error \<Rightarrow> int" where
  "ErrorStatusCodes (App e) = (case e of
     ErrInvalidRequest \<Rightarrow> 400 | ErrInvalidCredentials \<Rightarrow> 401 | ErrServerError \<Rightarrow> 500
   | ErrUnauthorized \<Rightarrow> 401 | ErrUserExists \<Rightarrow> 401 | ErrStrictPasswordPolicyViolation \<Rightarrow> 401
   | ErrStrictUsernamePolicyViolation \<Rightarrow> 401 | ErrUserNotFound \<Rightarrow> 400 | ErrProjectNotFound \<Rightarrow> 400
   | ErrUpdatingAdmin \<Rightarrow> 400 | ErrUserDeactivated \<Rightarrow> 400 | ErrUserAlreadyDeactivated \<Rightarrow> 400
   | ErrEmptyProjectName \<Rightarrow> 400 | ErrInvalidRole \<Rightarrow> 400 | ErrInvalidEmail \<Rightarrow> 400
   | ErrPasswordNotUpdated \<Rightarrow> 401 | ErrOldPassword \<Rightarrow> 400 | ErrWrongPassword \<Rightarrow> 0)"
| "ErrorStatusCodes _ = 0"

section \<open>Role table\<close>

definition MutationRbacRules :: "string \<Rightarrow> string list" where
  "MutationRbacRules op =
     (if op \<in> {''sendInvitation'', ''removeInvitation'', ''updateProjectName'', ''updateMemberRole'',
               ''deleteProject''} then [RoleOwner]
      else if op \<in> {''acceptInvitation'', ''declineInvitation'', ''leaveProject'', ''getProject''}
      then [RoleOwner, RoleViewer, RoleExecutor]
      else [])"

section \<open>Input validators\<close>

definition SanitizeString :: "string \<Rightarrow> string" where
  "SanitizeString s = TrimSpace s"

definition is_lower :: "char \<Rightarrow> bool" where
  "is_lower c = (of_char c \<ge> (97::nat) \<and> of_char c \<le> (122::nat))"

definition is_upper :: "char \<Rightarrow> bool" where
  "is_upper c = (of_char c \<ge> (65::nat) \<and> of_char c \<le> (90::nat))"

definition special_chars :: string where
  "special_chars = ''@$!%*?_&#''"

text \<open>\<^verbatim>\<open>regexp.MatchString\<close> of a single unanchored character class: some byte is in the class.\<close>

definition ValidateStrictPassword :: "string \<Rightarrow> go_error option" where
  "ValidateStrictPassword s =
     (if length s < 8 then Some (Plain ''password length is less than 8 characters'')
      else if length s > 16 then Some (Plain ''password length is more than 16 characters'')
      else if \<not> list_ex is_digit s then Some (Plain ''password does not contain digits'')
      else if \<not> list_ex is_lower s then Some (Plain ''password does not contain lowercase alphabets'')
      else if \<not> list_ex is_upper s then Some (Plain ''password does not contain uppercase alphabets'')
      else if \<not> list_ex (\<lambda>c. c \<in> set special_chars) s
      then Some (Plain ''password does not contain special characters'')
      else None)"

definition username_char :: "char \<Rightarrow> bool" where
  "username_char c = (is_lower c \<or> is_upper c \<or> is_digit c \<or> c = CHR ''_'' \<or> c = CHR ''-'')"

text \<open>The anchored pattern: one letter, then two to fifteen username characters.\<close>

definition ValidateStrictUsername :: "string \<Rightarrow> go_error option" where
  "ValidateStrictUsername s = (case s of
       [] \<Rightarrow> Some (Plain ''username can only contain letters, numbers, and underscores'')
     | c # r \<Rightarrow> if (is_lower c \<or> is_upper c) \<and> list_all username_char r \<and> 2 \<le> length r \<and> length r \<le> 15
                then None
                else Some (Plain ''username can only contain letters, numbers, and underscores''))"

section \<open>Membership\<close>

definition accepted_owner :: "member \<Rightarrow> bool" where
  "accepted_owner m = (m_Role m = RoleOwner \<and> m_Invitation m = AcceptedInvitation)"

text \<open>Well-formed members: distinct users, and only the roles and invitations the service writes.\<close>

definition members_ok :: "member list \<Rightarrow> bool" where
  "members_ok ms = (distinct (map m_UserID ms) \<and>
     (\<forall>m \<in> set ms. m_Role m \<in> set member_roles \<and> m_Invitation m \<in> set invitations))"

definition owned :: "member list \<Rightarrow> bool" where
  "owned ms = (\<exists>m \<in> set ms. accepted_owner m)"

definition project_ok :: "project \<Rightarrow> bool" where
  "project_ok p = (members_ok (p_Members p) \<and> owned (p_Members p))"

definition projects_ok :: "project list \<Rightarrow> bool" where
  "projects_ok ps = (distinct (map p_ID ps) \<and> (\<forall>p \<in> set ps. project_ok p))"

text \<open>The member update the repository writes with an array filter on \<^verbatim>\<open>elem.user_id\<close>.\<close>

definition on_member :: "string \<Rightarrow> (member \<Rightarrow> member) \<Rightarrow> project \<Rightarrow> project" where
  "on_member uid g p = p\<lparr>p_Members := map (\<lambda>m. if m_UserID m = uid then g m else m) (p_Members p)\<rparr>"

lemma on_member_ID [simp]: "p_ID (on_member uid g p) = p_ID p"
  by (simp add: on_member_def)

lemma on_member_users:
  "(\<And>m. m_UserID (g m) = m_UserID m) \<Longrightarrow> map m_UserID (p_Members (on_member uid g p)) = map m_UserID (p_Members p)"
  by (auto simp: on_member_def)

lemma members_ok_on_member:
  assumes "members_ok (p_Members p)" "\<And>m. m_UserID (g m) = m_UserID m"
    "\<And>m. m_Role m \<in> set member_roles \<Longrightarrow> m_Role (g m) \<in> set member_roles"
    "\<And>m. m_Invitation m \<in> set invitations \<Longrightarrow> m_Invitation (g m) \<in> set invitations"
  shows "members_ok (p_Members (on_member uid g p))"
proof -
  have "distinct (map m_UserID (p_Members (on_member uid g p)))"
    using assms(1) unfolding on_member_users [of g, OF assms(2)] by (simp add: members_ok_def)
  then show ?thesis using assms by (auto simp: members_ok_def on_member_def)
qed

lemma owned_on_member:
  assumes "m \<in> set (p_Members p)" "accepted_owner m" "m_UserID m = uid \<Longrightarrow> accepted_owner (g m)"
  shows "owned (p_Members (on_member uid g p))"
proof -
  have "(if m_UserID m = uid then g m else m) \<in> set (p_Members (on_member uid g p))"
    using assms(1) by (simp add: on_member_def)
  then show ?thesis using assms unfolding owned_def by (metis (no_types))
qed

lemma password_class_lengths:
  "ValidateStrictPassword s = None \<Longrightarrow> 8 \<le> length s \<and> length s \<le> 16"
  by (auto simp: ValidateStrictPassword_def split: if_splits)

end
