(* ===== verification/Auth_Mongo.thy ===== *)
theory Auth_Mongo
  imports Auth_Entities "HOL-Library.Multiset"
begin

text \<open>
  The document collections of the authentication service. The Mongo driver is not part of the
  repository: a collection is a record of the driver's operations, a parameter of every repository
  function, and \<open>coll_ok\<close> states what the driver documents of them. A filter document is the set of
  documents it matches, an update document the function it applies to one document. An operation
  that fails may or may not have taken effect. \<open>clash\<close> is the collection's unique indexes.
\<close>

record 'd coll =
  Find :: "('d \<Rightarrow> bool) \<Rightarrow> 'd list \<Rightarrow> go_error + 'd list"
  FindOne :: "('d \<Rightarrow> bool) \<Rightarrow> 'd list \<Rightarrow> go_error + 'd"
  InsertOne :: "'d \<Rightarrow> 'd list \<Rightarrow> go_error option \<times> 'd list"
  UpdateOne :: "('d \<Rightarrow> bool) \<Rightarrow> ('d \<Rightarrow> 'd) \<Rightarrow> 'd list \<Rightarrow> (go_error + nat) \<times> 'd list"
  UpdateMany :: "('d \<Rightarrow> bool) \<Rightarrow> ('d \<Rightarrow> 'd) \<Rightarrow> 'd list \<Rightarrow> (go_error + nat) \<times> 'd list"
  DeleteOne :: "('d \<Rightarrow> bool) \<Rightarrow> 'd list \<Rightarrow> (go_error + nat) \<times> 'd list"
  EmptyDocErr :: go_error

definition replaced_one :: "('d \<Rightarrow> bool) \<Rightarrow> ('d \<Rightarrow> 'd) \<Rightarrow> 'd list \<Rightarrow> 'd list \<Rightarrow> bool" where
  "replaced_one q f s s' = (\<exists>xs d ys. s = xs @ d # ys \<and> q d \<and> s' = xs @ f d # ys)"

definition removed_one :: "('d \<Rightarrow> bool) \<Rightarrow> 'd list \<Rightarrow> 'd list \<Rightarrow> bool" where
  "removed_one q s s' = (\<exists>xs d ys. s = xs @ d # ys \<and> q d \<and> s' = xs @ ys)"

definition reads_ok :: "'d coll \<Rightarrow> bool" where
  "reads_ok c = (\<forall>q s.
     (\<forall>ds. Find c q s = Inr ds \<longrightarrow> mset ds = mset (filter q s)) \<and>
     (\<forall>d. FindOne c q s = Inr d \<longrightarrow> d \<in> set s \<and> q d) \<and>
     (FindOne c q s = Inl NoDocuments \<longrightarrow> (\<forall>d \<in> set s. \<not> q d)))"

definition insert_ok :: "('d \<Rightarrow> 'd \<Rightarrow> bool) \<Rightarrow> 'd coll \<Rightarrow> bool" where
  "insert_ok clash c = (\<forall>d s r s'. InsertOne c d s = (r, s') \<longrightarrow>
     (s' = s \<or> s' = s @ [d] \<and> (\<forall>d' \<in> set s. \<not> clash d d')) \<and> (r = None \<longrightarrow> s' = s @ [d]))"

definition updates_ok :: "'d coll \<Rightarrow> bool" where
  "updates_ok c = (\<forall>q f s r s'.
     (UpdateOne c q f s = (r, s') \<longrightarrow>
        (s' = s \<or> replaced_one q f s s') \<and>
        (r = Inr 0 \<longrightarrow> s' = s \<and> (\<forall>d \<in> set s. \<not> q d)) \<and>
        (\<forall>n. r = Inr (Suc n) \<longrightarrow> replaced_one q f s s')) \<and>
     (UpdateMany c q f s = (r, s') \<longrightarrow>
        list_all2 (\<lambda>d d'. d' = d \<or> q d \<and> d' = f d) s s' \<and>
        (\<forall>n. r = Inr n \<longrightarrow> s' = map (\<lambda>d. if q d then f d else d) s)))"

definition delete_ok :: "'d coll \<Rightarrow> bool" where
  "delete_ok c = (\<forall>q s r s'. DeleteOne c q s = (r, s') \<longrightarrow>
     (s' = s \<or> removed_one q s s') \<and> (\<forall>n. r = Inr (Suc n) \<longrightarrow> removed_one q s s'))"

definition coll_ok :: "('d \<Rightarrow> 'd \<Rightarrow> bool) \<Rightarrow> 'd coll \<Rightarrow> bool" where
  "coll_ok clash c = (reads_ok c \<and> insert_ok clash c \<and> updates_ok c \<and> delete_ok c)"

section \<open>What a conforming driver does\<close>

lemma Find_ok: "coll_ok clash c \<Longrightarrow> Find c q s = Inr ds \<Longrightarrow> mset ds = mset (filter q s)"
  by (simp add: coll_ok_def reads_ok_def)

lemma Find_set: "coll_ok clash c \<Longrightarrow> Find c q s = Inr ds \<Longrightarrow> set ds = {d \<in> set s. q d}"
  using Find_ok [of clash c q s ds] by (metis mset_eq_setD set_filter)

lemma FindOne_ok: "coll_ok clash c \<Longrightarrow> FindOne c q s = Inr d \<Longrightarrow> d \<in> set s \<and> q d"
  unfolding coll_ok_def reads_ok_def by blast

lemma FindOne_none: "coll_ok clash c \<Longrightarrow> FindOne c q s = Inl NoDocuments \<Longrightarrow> d \<in> set s \<Longrightarrow> \<not> q d"
  unfolding coll_ok_def reads_ok_def by blast

lemma InsertOne_cases:
  assumes "coll_ok clash c" "InsertOne c d s = (r, s')"
  obtains "s' = s" "r \<noteq> None" | "s' = s @ [d]" "\<And>d'. d' \<in> set s \<Longrightarrow> \<not> clash d d'"
  using assms unfolding coll_ok_def insert_ok_def by (metis append_self_conv list.distinct(1))

lemma InsertOne_None: "coll_ok clash c \<Longrightarrow> InsertOne c d s = (None, s') \<Longrightarrow> s' = s @ [d]"
  unfolding coll_ok_def insert_ok_def by blast

lemma UpdateOne_cases:
  assumes "coll_ok clash c" "UpdateOne c q f s = (r, s')"
  obtains "s' = s" | "replaced_one q f s s'"
  using assms unfolding coll_ok_def updates_ok_def by blast

lemma UpdateOne_or: "coll_ok clash c \<Longrightarrow> UpdateOne c q f s = (r, s') \<Longrightarrow> s' = s \<or> replaced_one q f s s'"
  by (elim UpdateOne_cases) auto

lemma UpdateOne_none:
  assumes "coll_ok clash c" "UpdateOne c q f s = (Inr 0, s')"
  shows "s' = s" "d \<in> set s \<Longrightarrow> \<not> q d"
  using assms unfolding coll_ok_def updates_ok_def by blast+

lemma UpdateOne_match:
  "coll_ok clash c \<Longrightarrow> UpdateOne c q f s = (Inr n, s') \<Longrightarrow> d \<in> set s \<Longrightarrow> q d \<Longrightarrow> n \<noteq> 0"
  using UpdateOne_none(2) by metis

lemma UpdateOne_done:
  "coll_ok clash c \<Longrightarrow> UpdateOne c q f s = (Inr n, s') \<Longrightarrow> n \<noteq> 0 \<Longrightarrow> replaced_one q f s s'"
  unfolding coll_ok_def updates_ok_def by (cases n) blast+

lemma UpdateMany_rel:
  "coll_ok clash c \<Longrightarrow> UpdateMany c q f s = (r, s') \<Longrightarrow>
   list_all2 (\<lambda>d d'. d' = d \<or> q d \<and> d' = f d) s s'"
  unfolding coll_ok_def updates_ok_def by blast

lemma UpdateMany_done:
  "coll_ok clash c \<Longrightarrow> UpdateMany c q f s = (Inr n, s') \<Longrightarrow> s' = map (\<lambda>d. if q d then f d else d) s"
  unfolding coll_ok_def updates_ok_def by blast

lemma DeleteOne_cases:
  assumes "coll_ok clash c" "DeleteOne c q s = (r, s')"
  obtains "s' = s" | "removed_one q s s'"
  using assms unfolding coll_ok_def delete_ok_def by blast

lemma replaced_one_map_key:
  "replaced_one q f s s' \<Longrightarrow> (\<And>d. k (f d) = k d) \<Longrightarrow> map k s' = map k s"
  by (auto simp: replaced_one_def)

lemma replaced_one_set:
  "replaced_one q f s s' \<Longrightarrow> d' \<in> set s' \<Longrightarrow> d' \<in> set s \<or> (\<exists>d \<in> set s. q d \<and> d' = f d)"
  by (auto simp: replaced_one_def)

lemma replaced_one_unique:
  assumes "replaced_one (\<lambda>d. k d = v) f s s'" "distinct (map k s)"
  shows "s' = map (\<lambda>d. if k d = v then f d else d) s"
proof -
  obtain xs d ys where s: "s = xs @ d # ys" "k d = v" "s' = xs @ f d # ys"
    using assms(1) by (auto simp: replaced_one_def)
  have "k e \<noteq> v" if "e \<in> set xs \<union> set ys" for e
  proof -
    have "k e \<in> k ` set xs \<union> k ` set ys" using that by blast
    moreover have "k d \<notin> k ` set xs \<union> k ` set ys" using assms(2) s(1) by auto
    ultimately show ?thesis using s(2) by metis
  qed
  then have "map (\<lambda>d. if k d = v then f d else d) xs = xs" "map (\<lambda>d. if k d = v then f d else d) ys = ys"
    by (auto intro: map_idI)
  then show ?thesis using s by simp
qed

section \<open>An in-memory collection\<close>

text \<open>A list searched from the front: it conforms, so the contract can be met.\<close>

fun replace_first :: "('d \<Rightarrow> bool) \<Rightarrow> ('d \<Rightarrow> 'd) \<Rightarrow> 'd list \<Rightarrow> 'd list" where
  "replace_first q f [] = []"
| "replace_first q f (d # s) = (if q d then f d # s else d # replace_first q f s)"

fun remove_first :: "('d \<Rightarrow> bool) \<Rightarrow> 'd list \<Rightarrow> 'd list" where
  "remove_first q [] = []"
| "remove_first q (d # s) = (if q d then s else d # remove_first q s)"

definition list_coll :: "('d \<Rightarrow> 'd \<Rightarrow> bool) \<Rightarrow> 'd coll" where
  "list_coll clash = \<lparr>
     Find = (\<lambda>q s. Inr (filter q s)),
     FindOne = (\<lambda>q s. case filter q s of [] \<Rightarrow> Inl NoDocuments | d # _ \<Rightarrow> Inr d),
     InsertOne = (\<lambda>d s. if list_ex (clash d) s then (Some DuplicateKey, s) else (None, s @ [d])),
     UpdateOne = (\<lambda>q f s. (Inr (if list_ex q s then 1 else 0), replace_first q f s)),
     UpdateMany = (\<lambda>q f s. (Inr (length (filter q s)), map (\<lambda>d. if q d then f d else d) s)),
     DeleteOne = (\<lambda>q s. (Inr (if list_ex q s then 1 else 0), remove_first q s)),
     EmptyDocErr = DriverError ''update document must have at least one element''\<rparr>"

lemma replace_first_none: "\<not> list_ex q s \<Longrightarrow> replace_first q f s = s"
  by (induction s) auto

lemma replace_first_some: "list_ex q s \<Longrightarrow> replaced_one q f s (replace_first q f s)"
proof (induction s)
  case (Cons d s)
  show ?case
  proof (cases "q d")
    case True
    then show ?thesis unfolding replaced_one_def by (intro exI [of _ "[]"] exI [of _ d] exI [of _ s]) simp
  next
    case False
    then obtain xs e ys where "s = xs @ e # ys" "q e" "replace_first q f s = xs @ f e # ys"
      using Cons by (auto simp: replaced_one_def)
    then show ?thesis using False unfolding replaced_one_def
      by (intro exI [of _ "d # xs"] exI [of _ e] exI [of _ ys]) simp
  qed
qed simp

lemma remove_first_none: "\<not> list_ex q s \<Longrightarrow> remove_first q s = s"
  by (induction s) auto

lemma remove_first_some: "list_ex q s \<Longrightarrow> removed_one q s (remove_first q s)"
proof (induction s)
  case (Cons d s)
  show ?case
  proof (cases "q d")
    case True
    then show ?thesis unfolding removed_one_def by (intro exI [of _ "[]"] exI [of _ d] exI [of _ s]) simp
  next
    case False
    then obtain xs e ys where "s = xs @ e # ys" "q e" "remove_first q s = xs @ ys"
      using Cons by (auto simp: removed_one_def)
    then show ?thesis using False unfolding removed_one_def
      by (intro exI [of _ "d # xs"] exI [of _ e] exI [of _ ys]) simp
  qed
qed simp

lemma list_coll_ok: "coll_ok clash (list_coll clash)"
proof -
  have reads: "reads_ok (list_coll clash)"
    by (auto simp: reads_ok_def list_coll_def filter_empty_conv dest: filter_eq_ConsD split: list.splits)
  have ins: "insert_ok clash (list_coll clash)"
    by (auto simp: insert_ok_def list_coll_def list_ex_iff)
  have all2: "list_all2 (\<lambda>d d'. d' = d \<or> q d \<and> d' = f d) s (map (\<lambda>d. if q d then f d else d) s)"
    for q and f :: "'a \<Rightarrow> 'a" and s by (induction s) auto
  have "\<forall>d \<in> set s. \<not> q d" if "\<not> list_ex q s" for q and s :: "'a list"
    using that by (simp add: list_ex_iff)
  then have upd: "updates_ok (list_coll clash)"
    using all2 by (auto simp: updates_ok_def list_coll_def replace_first_none replace_first_some)
  have del: "delete_ok (list_coll clash)"
    by (auto simp: delete_ok_def list_coll_def remove_first_none remove_first_some)
  show ?thesis using reads ins upd del by (simp add: coll_ok_def)
qed

end
