(* ===== verification/Auth_Repo.thy ===== *)
theory Auth_Repo
  imports Auth_Mongo
begin

text \<open>
  The repositories of the authentication service (\<^verbatim>\<open>pkg/project\<close>, \<^verbatim>\<open>pkg/user\<close>, \<^verbatim>\<open>pkg/session\<close>,
  \<^verbatim>\<open>pkg/authConfig\<close>): one function per method, over the collections of \<open>auth_db\<close>. What is outside the
  repository (the driver, the clock, random identifiers, bcrypt, JWT signing and parsing, base64) is
  the record \<open>env\<close>, a parameter of every function; a request reads the clock once.
  A method returns its error first, \<^const>\<open>None\<close> for Go's \<^verbatim>\<open>nil\<close>, or a sum whose left side is the error.
\<close>

section \<open>State and environment\<close>

record revoked_token = rt_Token :: string  rt_ExpiresAt :: int  rt_CreatedAt :: int

record api_token =
  at_UserID :: string  at_Name :: string  at_Token :: string  at_ExpiresAt :: int  at_CreatedAt :: int

record auth_config = ac_Key :: string  ac_Value :: string

record auth_db =
  db_users :: "user list"
  db_projects :: "project list"
  db_revoked :: "revoked_token list"
  db_tokens :: "api_token list"
  db_config :: "auth_config list"

record claims =
  c_uid :: "string option"
  c_username :: string
  c_role :: string
  c_exp :: "int option"

text \<open>The stages of an aggregation pipeline the service builds.\<close>

datatype stage =
    MatchStage "project \<Rightarrow> bool"
  | SortStage string int
  | SkipStage int
  | LimitStage int

record env =
  usersC :: "user coll"
  projectsC :: "project coll"
  revokedC :: "revoked_token coll"
  tokensC :: "api_token coll"
  configC :: "auth_config coll"
  aggregatePage :: "stage list \<Rightarrow> stage list \<Rightarrow> project list \<Rightarrow> go_error + (int option \<times> project list)"
  regexMatch :: "string \<Rightarrow> string \<Rightarrow> bool"
  clock :: int
  newUUID :: string
  hashPassword :: "string \<Rightarrow> go_error + string"
  compareHash :: "string \<Rightarrow> string \<Rightarrow> bool"
  b64decode :: "string \<Rightarrow> go_error + string"
  jwtSign :: "claims \<Rightarrow> string \<Rightarrow> go_error + string"
  jwtParse :: "go_error + string \<Rightarrow> string \<Rightarrow> go_error + claims"
  mailOk :: "string \<Rightarrow> bool"
  oauthStateOk :: "string \<Rightarrow> bool"
  dexConfig :: "go_error option"
  dexExchange :: "string \<Rightarrow> go_error + string option"
  dexVerify :: "string \<Rightarrow> go_error + (string \<times> string)"
  addDays :: "int \<Rightarrow> int"
  expiry :: int
  startSession :: "go_error option"
  startTransaction :: "go_error option"
  commitTx :: "auth_db \<Rightarrow> auth_db \<Rightarrow> go_error option \<times> auth_db"

definition project_clash :: "project \<Rightarrow> project \<Rightarrow> bool" where
  "project_clash p q = (p_ID p = p_ID q)"

definition user_clash :: "user \<Rightarrow> user \<Rightarrow> bool" where
  "user_clash u v = (u_ID u = u_ID v \<or> u_Username u = u_Username v)"

text \<open>A conforming environment: the collections conform, and a commit is all or nothing.\<close>

definition env_ok :: "env \<Rightarrow> bool" where
  "env_ok e = (coll_ok user_clash (usersC e) \<and> coll_ok project_clash (projectsC e) \<and>
     coll_ok (\<lambda>_ _. False) (revokedC e) \<and> coll_ok (\<lambda>_ _. False) (tokensC e) \<and>
     coll_ok (\<lambda>_ _. False) (configC e) \<and>
     (\<forall>s t. snd (commitTx e s t) = s \<or> snd (commitTx e s t) = t) \<and>
     (\<forall>s t. fst (commitTx e s t) = None \<longrightarrow> snd (commitTx e s t) = t))"

lemma env_ok_users [simp]: "env_ok e \<Longrightarrow> coll_ok user_clash (usersC e)"
  and env_ok_projects [simp]: "env_ok e \<Longrightarrow> coll_ok project_clash (projectsC e)"
  and env_ok_revoked [simp]: "env_ok e \<Longrightarrow> coll_ok (\<lambda>_ _. False) (revokedC e)"
  and env_ok_tokens [simp]: "env_ok e \<Longrightarrow> coll_ok (\<lambda>_ _. False) (tokensC e)"
  and env_ok_config [simp]: "env_ok e \<Longrightarrow> coll_ok (\<lambda>_ _. False) (configC e)"
  by (simp_all add: env_ok_def)

section \<open>Project repository\<close>

definition GetProjectByProjectID :: "env \<Rightarrow> string \<Rightarrow> project list \<Rightarrow> go_error + project" where
  "GetProjectByProjectID e projectID s = FindOne (projectsC e) (\<lambda>p. p_ID p = projectID) s"

definition GetProjects :: "env \<Rightarrow> (project \<Rightarrow> bool) \<Rightarrow> project list \<Rightarrow> go_error + project list" where
  "GetProjects e query s = Find (projectsC e) query s"

text \<open>Owners by role and accepted members by count, for every project.\<close>

record project_stats =
  ps_Name :: string
  ps_ProjectID :: string
  ps_Owners :: "(string \<times> string) list"
  ps_Total :: nat

definition project_stats_of :: "project \<Rightarrow> project_stats" where
  "project_stats_of p = \<lparr>ps_Name = p_Name p, ps_ProjectID = p_ID p,
     ps_Owners = map (\<lambda>m. (m_UserID m, m_Username m)) (filter (\<lambda>m. m_Role m = RoleOwner) (p_Members p)),
     ps_Total = length (filter (\<lambda>m. m_Invitation m = AcceptedInvitation) (p_Members p))\<rparr>"

definition GetProjectStats_repo :: "env \<Rightarrow> project list \<Rightarrow> go_error + project_stats list" where
  "GetProjectStats_repo e s = (case Find (projectsC e) (\<lambda>_. True) s of
     Inl err \<Rightarrow> Inl err | Inr ps \<Rightarrow> Inr (map project_stats_of ps))"

definition CreateProject_repo :: "env \<Rightarrow> project \<Rightarrow> project list \<Rightarrow> go_error option \<times> project list" where
  "CreateProject_repo e p s = (case InsertOne (projectsC e) p s of
     (None, s') \<Rightarrow> (None, s')
   | (Some err, s') \<Rightarrow> (Some (if err = DuplicateKey then App ErrUserExists else err), s'))"

definition no_match_error :: go_error where
  "no_match_error = Plain ''could not find matching projectID in database''"

text \<open>\<^verbatim>\<open>UpdateOne\<close> followed by the check of \<^verbatim>\<open>MatchedCount\<close>.\<close>

definition update_matched ::
  "env \<Rightarrow> string \<Rightarrow> (project \<Rightarrow> project) \<Rightarrow> project list \<Rightarrow> go_error option \<times> project list" where
  "update_matched e projectID f s = (case UpdateOne (projectsC e) (\<lambda>p. p_ID p = projectID) f s of
     (Inl err, s') \<Rightarrow> (Some err, s')
   | (Inr n, s') \<Rightarrow> (if n = 0 then Some no_match_error else None, s'))"

definition AddMember :: "env \<Rightarrow> string \<Rightarrow> member \<Rightarrow> project list \<Rightarrow> go_error option \<times> project list" where
  "AddMember e projectID m s =
     update_matched e projectID (\<lambda>p. p\<lparr>p_Members := p_Members p @ [m]\<rparr>) s"

definition RemoveInvitation_repo ::
  "env \<Rightarrow> string \<Rightarrow> string \<Rightarrow> string \<Rightarrow> project list \<Rightarrow> go_error option \<times> project list" where
  "RemoveInvitation_repo e projectID userID invitation s =
     update_matched e projectID (\<lambda>p. p\<lparr>p_Members := filter (\<lambda>m. m_UserID m \<noteq> userID) (p_Members p)\<rparr>) s"

text \<open>The fields one invitation sets on the member; no case of the switch sets none.\<close>

definition invite_change :: "int \<Rightarrow> string \<Rightarrow> string option \<Rightarrow> (member \<Rightarrow> member) option" where
  "invite_change now invitation role =
     (if invitation = PendingInvitation
      then Some (\<lambda>m. m\<lparr>m_Invitation := invitation, m_Role := (case role of None \<Rightarrow> [] | Some r \<Rightarrow> r)\<rparr>)
      else if invitation = DeclinedInvitation then Some (\<lambda>m. m\<lparr>m_Invitation := invitation\<rparr>)
      else if invitation = AcceptedInvitation
      then Some (\<lambda>m. m\<lparr>m_Invitation := invitation, m_JoinedAt := now\<rparr>)
      else if invitation = ExitedProject then Some (\<lambda>m. m\<lparr>m_Invitation := invitation\<rparr>)
      else None)"

definition UpdateInvite ::
  "env \<Rightarrow> string \<Rightarrow> string \<Rightarrow> string \<Rightarrow> string option \<Rightarrow> project list \<Rightarrow> go_error option \<times> project list" where
  "UpdateInvite e projectID userID invitation role s =
     (case invite_change (clock e) invitation role of
        None \<Rightarrow> (Some (EmptyDocErr (projectsC e)), s)
      | Some g \<Rightarrow> update_matched e projectID (on_member userID g) s)"

definition UpdateProjectName_repo ::
  "env \<Rightarrow> string \<Rightarrow> string \<Rightarrow> project list \<Rightarrow> go_error option \<times> project list" where
  "UpdateProjectName_repo e projectID projectName s =
     (case UpdateOne (projectsC e) (\<lambda>p. p_ID p = projectID) (\<lambda>p. p\<lparr>p_Name := projectName\<rparr>) s of
        (Inl err, s') \<Rightarrow> (Some err, s') | (Inr _, s') \<Rightarrow> (None, s'))"

definition UpdateMemberRole_repo ::
  "env \<Rightarrow> string \<Rightarrow> string \<Rightarrow> string \<Rightarrow> project list \<Rightarrow> go_error option \<times> project list" where
  "UpdateMemberRole_repo e projectID userID role s =
     (case UpdateOne (projectsC e) (\<lambda>p. p_ID p = projectID) (on_member userID (\<lambda>m. m\<lparr>m_Role := role\<rparr>)) s of
        (Inl err, s') \<Rightarrow> (Some err, s') | (Inr _, s') \<Rightarrow> (None, s'))"

definition owner_in :: "string \<Rightarrow> project \<Rightarrow> bool" where
  "owner_in userID p = (\<exists>m \<in> set (p_Members p). m_UserID m = userID \<and> m_Role m = RoleOwner)"

definition set_removed :: "bool \<Rightarrow> project \<Rightarrow> project" where
  "set_removed b p = p\<lparr>p_Audit := (p_Audit p)\<lparr>a_IsRemoved := b\<rparr>\<rparr>"

definition UpdateProjectState ::
  "env \<Rightarrow> string \<Rightarrow> int \<Rightarrow> bool \<Rightarrow> project list \<Rightarrow> go_error option \<times> project list" where
  "UpdateProjectState e userID deactivateTime isDeactivate s =
     (case UpdateMany (projectsC e) (\<lambda>_. True)
             (on_member userID (\<lambda>m. m\<lparr>m_DeactivatedAt := Some deactivateTime\<rparr>)) s of
        (Inl err, s') \<Rightarrow> (Some err, s')
      | (Inr _, s') \<Rightarrow>
          (case UpdateMany (projectsC e) (owner_in userID) (set_removed isDeactivate) s' of
             (Inl err, s'') \<Rightarrow> (Some err, s'') | (Inr _, s'') \<Rightarrow> (None, s'')))"

definition accepted_members :: "project \<Rightarrow> member list" where
  "accepted_members p = filter (\<lambda>m. m_Invitation m = AcceptedInvitation) (p_Members p)"

definition owner_view :: "project \<Rightarrow> project" where
  "owner_view p = p\<lparr>p_Members := accepted_members p, p_Tags := [], p_Description := None\<rparr>"

definition GetOwnerProjects_repo :: "env \<Rightarrow> string \<Rightarrow> project list \<Rightarrow> go_error + project list" where
  "GetOwnerProjects_repo e userID s = (case Find (projectsC e) (owner_in userID) s of
     Inl err \<Rightarrow> Inl err | Inr ps \<Rightarrow> Inr (map owner_view ps))"

definition GetProjectOwners :: "env \<Rightarrow> string \<Rightarrow> project list \<Rightarrow> go_error + member list" where
  "GetProjectOwners e projectID s = (case FindOne (projectsC e) (\<lambda>p. p_ID p = projectID) s of
     Inl err \<Rightarrow> Inl err | Inr p \<Rightarrow> Inr (filter accepted_owner (p_Members p)))"

text \<open>The projection keeps the first member that matches.\<close>

definition GetProjectRole_repo :: "env \<Rightarrow> string \<Rightarrow> string \<Rightarrow> project list \<Rightarrow> go_error + string option" where
  "GetProjectRole_repo e projectID userID s = (case FindOne (projectsC e) (\<lambda>p. p_ID p = projectID) s of
     Inl err \<Rightarrow> Inl err
   | Inr p \<Rightarrow> Inr (map_option m_Role
       (find (\<lambda>m. m_UserID m = userID \<and> m_Invitation m = AcceptedInvitation) (p_Members p))))"

definition state_members :: "string \<Rightarrow> project \<Rightarrow> member list" where
  "state_members state p =
     (if state = ''accepted'' then accepted_members p
      else if state = ''not_accepted'' then filter (\<lambda>m. m_Invitation m \<noteq> AcceptedInvitation) (p_Members p)
      else p_Members p)"

definition GetProjectMembers :: "env \<Rightarrow> string \<Rightarrow> string \<Rightarrow> project list \<Rightarrow> go_error + member list" where
  "GetProjectMembers e projectID state s = (case Find (projectsC e) (\<lambda>p. p_ID p = projectID) s of
     Inl err \<Rightarrow> Inl err
   | Inr [] \<Rightarrow> Inr []
   | Inr (p # _) \<Rightarrow> Inr (state_members state p))"

definition invited :: "string \<Rightarrow> string \<Rightarrow> project \<Rightarrow> bool" where
  "invited userID invitation p =
     (\<exists>m \<in> set (p_Members p). m_UserID m = userID \<and> m_Invitation m = invitation \<and>
        (invitation = AcceptedInvitation \<longrightarrow> m_Role m \<noteq> RoleOwner))"

definition invitation_view :: "string \<Rightarrow> string \<Rightarrow> project \<Rightarrow> project" where
  "invitation_view userID invitation p = p\<lparr>p_Members :=
     filter (\<lambda>m. m_Invitation m = invitation \<and> m_UserID m = userID \<or> m_Role m = RoleOwner) (p_Members p)\<rparr>"

definition ListInvitations_repo :: "env \<Rightarrow> string \<Rightarrow> string \<Rightarrow> project list \<Rightarrow> go_error + project list" where
  "ListInvitations_repo e userID invitation s =
     (if invitation = PendingInvitation \<or> invitation = AcceptedInvitation
      then (case Find (projectsC e) (invited userID invitation) s of
              Inl err \<Rightarrow> Inl err | Inr ps \<Rightarrow> Inr (map (invitation_view userID invitation) ps))
      else Inl (EmptyDocErr (projectsC e)))"

definition DeleteProject_repo :: "env \<Rightarrow> string \<Rightarrow> project list \<Rightarrow> go_error option \<times> project list" where
  "DeleteProject_repo e projectID s = (case DeleteOne (projectsC e) (\<lambda>p. p_ID p = projectID) s of
     (Inl err, s') \<Rightarrow> (Some err, s')
   | (Inr n, s') \<Rightarrow> (if n = 0 then Some (Plain ''no project found with the given projectID'') else None, s'))"

section \<open>Listing with filters\<close>

record list_request =
  lr_UserID :: string
  lr_ProjectName :: "string option"
  lr_CreatedByMe :: "bool option"
  lr_SortField :: string
  lr_Ascending :: "bool option"
  lr_Page :: int
  lr_Limit :: int

definition CreateMatchStage :: "string \<Rightarrow> stage" where
  "CreateMatchStage userID = MatchStage (\<lambda>p. \<not> a_IsRemoved (p_Audit p) \<and>
     (\<exists>m \<in> set (p_Members p). m_UserID m = userID \<and>
        m_Invitation m \<notin> {PendingInvitation, DeclinedInvitation, ExitedProject}))"

definition CreateFilterStages :: "env \<Rightarrow> list_request \<Rightarrow> string \<Rightarrow> stage list" where
  "CreateFilterStages e r userID =
     (case lr_CreatedByMe r of None \<Rightarrow> []
      | Some b \<Rightarrow> [MatchStage (\<lambda>p. (ud_UserID (a_CreatedBy (p_Audit p)) = userID) = b)]) @
     (case lr_ProjectName r of None \<Rightarrow> []
      | Some n \<Rightarrow> [MatchStage (\<lambda>p. regexMatch e n (p_Name p))])"

definition CreateSortStage :: "list_request \<Rightarrow> stage" where
  "CreateSortStage r = SortStage (if lr_SortField r = ''NAME'' then ''name'' else ''updated_at'')
     (if lr_Ascending r = Some True then 1 else - 1)"

definition CreatePaginationStage :: "list_request \<Rightarrow> stage list" where
  "CreatePaginationStage r =
     (let limit = (if lr_Limit r > 50 then 50 else lr_Limit r) in [SkipStage (lr_Page r * limit), LimitStage limit])"

definition GetProjectsByUserID_repo :: "env \<Rightarrow> list_request \<Rightarrow> project list \<Rightarrow> go_error + (project list \<times> int)" where
  "GetProjectsByUserID_repo e r s =
     (case aggregatePage e (CreateMatchStage (lr_UserID r) # CreateFilterStages e r (lr_UserID r) @ [CreateSortStage r])
             (CreatePaginationStage r) s of
        Inl err \<Rightarrow> Inl err
      | Inr (None, _) \<Rightarrow> Inr ([], 0)
      | Inr (Some n, ps) \<Rightarrow> Inr (ps, n))"

section \<open>User repository\<close>

definition LoginUser_repo :: "env \<Rightarrow> user \<Rightarrow> user list \<Rightarrow> (go_error + user) \<times> user list" where
  "LoginUser_repo e u s = (case hashPassword e (u_Password u) of
     Inl err \<Rightarrow> (Inl err, s)
   | Inr h \<Rightarrow>
       (let u' = u\<lparr>u_ID := newUUID e, u_Password := h\<rparr> in
        case InsertOne (usersC e) u' s of
          (None, s') \<Rightarrow> (Inr (SanitizedUser u'), s')
        | (Some err, s') \<Rightarrow>
            (if err = DuplicateKey then (FindOne (usersC e) (\<lambda>v. u_Username v = u_Username u) s', s')
             else (Inl err, s'))))"

definition GetUser_repo :: "env \<Rightarrow> string \<Rightarrow> user list \<Rightarrow> go_error + user" where
  "GetUser_repo e uid s = (case FindOne (usersC e) (\<lambda>u. u_ID u = uid) s of
     Inl err \<Rightarrow> Inl err | Inr u \<Rightarrow> Inr (SanitizedUser u))"

definition GetUsers :: "env \<Rightarrow> user list \<Rightarrow> go_error + user list" where
  "GetUsers e s = (case Find (usersC e) (\<lambda>_. True) s of
     Inl err \<Rightarrow> Inl err | Inr us \<Rightarrow> Inr (map SanitizedUser us))"

definition InviteUsers_repo :: "env \<Rightarrow> string list \<Rightarrow> user list \<Rightarrow> go_error + user list" where
  "InviteUsers_repo e invitedUsers s =
     (case Find (usersC e) (\<lambda>u. u_ID u \<notin> set invitedUsers \<and> u_DeactivatedAt u = None) s of
        Inl err \<Rightarrow> Inl err | Inr us \<Rightarrow> Inr (map SanitizedUser us))"

definition FindUsersByUID :: "env \<Rightarrow> string list \<Rightarrow> user list \<Rightarrow> go_error + user list" where
  "FindUsersByUID e uids s = (case Find (usersC e) (\<lambda>u. u_ID u \<in> set uids) s of
     Inl err \<Rightarrow> Inl err | Inr us \<Rightarrow> Inr (map SanitizedUser us))"

definition FindUserByUsername :: "env \<Rightarrow> string \<Rightarrow> user list \<Rightarrow> go_error + user" where
  "FindUserByUsername e username s = FindOne (usersC e) (\<lambda>u. u_Username u = username) s"

definition CheckPasswordHash :: "env \<Rightarrow> string \<Rightarrow> string \<Rightarrow> go_error option" where
  "CheckPasswordHash e hash password = (if compareHash e hash password then None else Some (App ErrWrongPassword))"

record user_password = up_Username :: string  up_OldPassword :: string  up_NewPassword :: string

text \<open>A failing \<^verbatim>\<open>bcrypt.GenerateFromPassword\<close> is not checked: the password written is then empty.\<close>

definition UpdatePassword_repo :: "env \<Rightarrow> user_password \<Rightarrow> bool \<Rightarrow> user list \<Rightarrow> go_error option \<times> user list" where
  "UpdatePassword_repo e r isAdminBeingReset s =
     (case FindOne (usersC e) (\<lambda>u. u_Username u = up_Username r) s of
        Inl err \<Rightarrow> (Some err, s)
      | Inr u \<Rightarrow>
          (let h = (case hashPassword e (up_NewPassword r) of Inl _ \<Rightarrow> [] | Inr h \<Rightarrow> h);
               write = (\<lambda>f. case UpdateOne (usersC e) (\<lambda>v. u_Username v = u_Username u) f s of
                    (Inl err, s') \<Rightarrow> (Some err, s')
                  | (Inr n, s') \<Rightarrow>
                      (if n = 0 then Some (Plain ''could not find matching username in database'') else None, s'))
           in if isAdminBeingReset then
                if \<not> compareHash e (u_Password u) (up_OldPassword r) then (Some (Plain ''invalid credentials''), s)
                else if compareHash e (u_Password u) (up_NewPassword r)
                then (Some (Plain ''old and new passwords can't be same''), s)
                else write (\<lambda>v. v\<lparr>u_Password := h, u_IsInitialLogin := False\<rparr>)
              else write (\<lambda>v. v\<lparr>u_Password := h\<rparr>)))"

definition CreateUser_repo :: "env \<Rightarrow> user \<Rightarrow> user list \<Rightarrow> (go_error + user) \<times> user list" where
  "CreateUser_repo e u s = (case InsertOne (usersC e) u s of
     (None, s') \<Rightarrow> (Inr (SanitizedUser u), s')
   | (Some err, s') \<Rightarrow> (Inl (if err = DuplicateKey then App ErrUserExists else err), s'))"

record user_details = us_ID :: string  us_Email :: string  us_Name :: string

text \<open>\<^verbatim>\<open>toDoc\<close> keeps the fields that are not empty.\<close>

definition UpdateUser_repo :: "env \<Rightarrow> user_details \<Rightarrow> user list \<Rightarrow> go_error option \<times> user list" where
  "UpdateUser_repo e d s =
     (case UpdateMany (usersC e) (\<lambda>u. u_ID u = us_ID d)
             (\<lambda>u. u\<lparr>u_Email := (if us_Email d = [] then u_Email u else us_Email d),
                    u_Name := (if us_Name d = [] then u_Name u else us_Name d)\<rparr>) s of
        (Inl err, s') \<Rightarrow> (Some err, s') | (Inr _, s') \<Rightarrow> (None, s'))"

definition IsAdministrator :: "env \<Rightarrow> string \<Rightarrow> string \<Rightarrow> user list \<Rightarrow> go_error option" where
  "IsAdministrator e uid username s =
     (case FindOne (usersC e) (\<lambda>u. u_ID u = uid \<and> u_Username u = username) s of
        Inl err \<Rightarrow> Some err
      | Inr u \<Rightarrow> if u_Role u \<noteq> RoleAdmin then Some (App ErrInvalidCredentials) else None)"

definition UpdateUserByQuery ::
  "env \<Rightarrow> (user \<Rightarrow> bool) \<Rightarrow> (user \<Rightarrow> user) \<Rightarrow> user list \<Rightarrow> go_error option \<times> user list" where
  "UpdateUserByQuery e query updateQuery s = (case UpdateOne (usersC e) query updateQuery s of
     (Inl err, s') \<Rightarrow> (Some err, s') | (Inr _, s') \<Rightarrow> (None, s'))"

definition set_user_state :: "bool \<Rightarrow> int \<Rightarrow> user \<Rightarrow> user" where
  "set_user_state isDeactivate deactivateTime u =
     u\<lparr>u_DeactivatedAt := (if isDeactivate then Some deactivateTime else None),
       u_Audit := (u_Audit u)\<lparr>a_IsRemoved := isDeactivate\<rparr>\<rparr>"

definition UpdateUserState_repo :: "env \<Rightarrow> string \<Rightarrow> bool \<Rightarrow> int \<Rightarrow> user list \<Rightarrow> go_error option \<times> user list" where
  "UpdateUserState_repo e username isDeactivate deactivateTime s =
     (case UpdateOne (usersC e) (\<lambda>u. u_Username u = username) (set_user_state isDeactivate deactivateTime) s of
        (Inl err, s') \<Rightarrow> (Some err, s') | (Inr _, s') \<Rightarrow> (None, s'))"

section \<open>Sessions and configuration\<close>

definition IsTokenRevoked :: "env \<Rightarrow> string \<Rightarrow> revoked_token list \<Rightarrow> bool" where
  "IsTokenRevoked e tok s = (case FindOne (revokedC e) (\<lambda>t. rt_Token t = tok) s of Inl _ \<Rightarrow> False | Inr _ \<Rightarrow> True)"

definition GetConfig :: "env \<Rightarrow> string \<Rightarrow> auth_config list \<Rightarrow> go_error + auth_config" where
  "GetConfig e key s = (case FindOne (configC e) (\<lambda>c. ac_Key c = key) s of
     Inl err \<Rightarrow> Inl err
   | Inr c \<Rightarrow> (case b64decode e (ac_Value c) of Inl err \<Rightarrow> Inl err | Inr v \<Rightarrow> Inr (c\<lparr>ac_Value := v\<rparr>)))"

definition CreateConfig :: "env \<Rightarrow> auth_config \<Rightarrow> auth_config list \<Rightarrow> go_error option \<times> auth_config list" where
  "CreateConfig e c s = InsertOne (configC e) c s"

definition UpdateConfig :: "env \<Rightarrow> string \<Rightarrow> string \<Rightarrow> auth_config list \<Rightarrow> go_error option \<times> auth_config list" where
  "UpdateConfig e key v s = (case UpdateOne (configC e) (\<lambda>c. ac_Key c = key) (\<lambda>c. c\<lparr>ac_Value := v\<rparr>) s of
     (Inl err, s') \<Rightarrow> (Some err, s') | (Inr _, s') \<Rightarrow> (None, s'))"

definition RevokeToken_repo :: "env \<Rightarrow> revoked_token \<Rightarrow> revoked_token list \<Rightarrow> go_error option \<times> revoked_token list" where
  "RevokeToken_repo e t s = InsertOne (revokedC e) t s"

definition CreateApiToken_repo :: "env \<Rightarrow> api_token \<Rightarrow> api_token list \<Rightarrow> go_error option \<times> api_token list" where
  "CreateApiToken_repo e t s = InsertOne (tokensC e) t s"

definition GetApiTokensByUserID :: "env \<Rightarrow> string \<Rightarrow> api_token list \<Rightarrow> go_error + api_token list" where
  "GetApiTokensByUserID e userID s = Find (tokensC e) (\<lambda>t. at_UserID t = userID) s"

definition DeleteApiToken_repo :: "env \<Rightarrow> string \<Rightarrow> api_token list \<Rightarrow> go_error option \<times> api_token list" where
  "DeleteApiToken_repo e tok s = (case DeleteOne (tokensC e) (\<lambda>t. at_Token t = tok) s of
     (Inl err, s') \<Rightarrow> (Some err, s') | (Inr _, s') \<Rightarrow> (None, s'))"

text \<open>
  The session service. \<^verbatim>\<open>jwt.Parse\<close> calls back for the secret, so its key is the outcome of reading
  the configuration. Revoking a token without a numeric expiry panics: the outer \<^const>\<open>None\<close>.
\<close>

definition parseToken :: "env \<Rightarrow> string \<Rightarrow> auth_db \<Rightarrow> go_error + claims" where
  "parseToken e tok db = jwtParse e
     (case GetConfig e ''salt'' (db_config db) of
        Inl _ \<Rightarrow> Inl (Plain ''couldn't fetch jwt secret'') | Inr c \<Rightarrow> Inr (ac_Value c)) tok"

definition RevokeToken :: "env \<Rightarrow> string \<Rightarrow> auth_db \<Rightarrow> go_error option option \<times> auth_db" where
  "RevokeToken e tok db = (case parseToken e tok db of
     Inl err \<Rightarrow> (Some (Some err), db)
   | Inr c \<Rightarrow> (case c_exp c of
        None \<Rightarrow> (None, db)
      | Some x \<Rightarrow> (case RevokeToken_repo e \<lparr>rt_Token = tok, rt_ExpiresAt = x, rt_CreatedAt = clock e\<rparr> (db_revoked db) of
            (err, s') \<Rightarrow> (Some err, db\<lparr>db_revoked := s'\<rparr>))))"

definition ValidateToken :: "env \<Rightarrow> string \<Rightarrow> auth_db \<Rightarrow> go_error + claims" where
  "ValidateToken e tok db = (case parseToken e tok db of
     Inl err \<Rightarrow> Inl err
   | Inr c \<Rightarrow> if IsTokenRevoked e tok (db_revoked db) then Inl (Plain ''token revoked'') else Inr c)"

definition GetSignedJWT :: "env \<Rightarrow> user \<Rightarrow> string \<Rightarrow> go_error + string" where
  "GetSignedJWT e u secret = jwtSign e
     \<lparr>c_uid = Some (u_ID u), c_username = u_Username u, c_role = u_Role u, c_exp = Some (expiry e)\<rparr> secret"

record api_token_input = ati_UserID :: string  ati_Name :: string  ati_Days :: int

definition CreateApiToken_service ::
  "env \<Rightarrow> user \<Rightarrow> api_token_input \<Rightarrow> auth_db \<Rightarrow> (go_error + string) \<times> auth_db" where
  "CreateApiToken_service e u r db =
     (case GetConfig e ''salt'' (db_config db) of
        Inl _ \<Rightarrow> (Inl (Plain ''couldn't fetch jwt secret''), db)
      | Inr salt \<Rightarrow>
        (case jwtSign e \<lparr>c_uid = Some (u_ID u), c_username = u_Username u, c_role = u_Role u,
                 c_exp = Some (addDays e (ati_Days r))\<rparr> (ac_Value salt) of
           Inl err \<Rightarrow> (Inl err, db)
         | Inr tok \<Rightarrow>
             (case CreateApiToken_repo e \<lparr>at_UserID = u_ID u, at_Name = ati_Name r, at_Token = tok,
                      at_ExpiresAt = addDays e (ati_Days r), at_CreatedAt = clock e\<rparr> (db_tokens db) of
                (Some err, s') \<Rightarrow> (Inl err, db\<lparr>db_tokens := s'\<rparr>)
              | (None, s') \<Rightarrow> (Inr tok, db\<lparr>db_tokens := s'\<rparr>))))"

section \<open>The state transaction\<close>

definition UpdateStateTransaction :: "env \<Rightarrow> string \<Rightarrow> bool \<Rightarrow> auth_db \<Rightarrow> go_error option \<times> auth_db" where
  "UpdateStateTransaction e username isDeactivate db =
     (case startSession e of Some err \<Rightarrow> (Some err, db) | None \<Rightarrow>
     (case startTransaction e of Some err \<Rightarrow> (Some err, db) | None \<Rightarrow>
     (case FindUserByUsername e username (db_users db) of
        Inl _ \<Rightarrow> (Some (App ErrUserNotFound), db)
      | Inr u \<Rightarrow>
        if u_Role u = RoleAdmin then (Some (App ErrUpdatingAdmin), db)
        else if isDeactivate \<and> u_DeactivatedAt u \<noteq> None then (Some (App ErrUserAlreadyDeactivated), db)
        else
          (let t = (if isDeactivate then clock e else 0) in
           case UpdateUserState_repo e username isDeactivate t (db_users db) of
             (Some _, _) \<Rightarrow> (Some (App ErrServerError), db)
           | (None, us) \<Rightarrow>
               (case UpdateProjectState e (u_ID u) t isDeactivate (db_projects db) of
                  (Some _, _) \<Rightarrow> (Some (App ErrServerError), db)
                | (None, ps) \<Rightarrow> commitTx e db (db\<lparr>db_users := us, db_projects := ps\<rparr>))))))"

end
