(* ===== verification/Auth_Rbac.thy ===== *)
theory Auth_Rbac
  imports Auth_Repo
begin

text \<open>
  Authorisation in the authentication service: \<^verbatim>\<open>RbacValidator\<close> (\<^verbatim>\<open>pkg/validations\<close>), the initial-login
  test, the JWT middleware and the gRPC \<^verbatim>\<open>ValidateRequest\<close>. \<open>project_write\<close> is the contract of a
  repository method that updates one project, with what it implies for the project list, and every
  such method of the project repository is an instance of it.
\<close>

section \<open>Writes to one project\<close>

locale project_write =
  fixes upd :: "env \<Rightarrow> string \<Rightarrow> project list \<Rightarrow> go_error option \<times> project list"
    and f :: "env \<Rightarrow> project \<Rightarrow> project"
  assumes write_shape: "env_ok e \<Longrightarrow> upd e pid s = (r, s') \<Longrightarrow>
      s' = s \<or> replaced_one (\<lambda>p. p_ID p = pid) (f e) s s'"
    and write_done: "env_ok e \<Longrightarrow> upd e pid s = (None, s') \<Longrightarrow> p \<in> set s \<Longrightarrow> p_ID p = pid \<Longrightarrow>
      replaced_one (\<lambda>p. p_ID p = pid) (f e) s s'"
    and write_ID: "p_ID (f e p) = p_ID p"
begin

lemma write_ids: "env_ok e \<Longrightarrow> upd e pid s = (r, s') \<Longrightarrow> map p_ID s' = map p_ID s"
  using write_shape [of e pid s r s'] replaced_one_map_key [of _ "f e" s s' p_ID] write_ID by blast

lemma write_members:
  "env_ok e \<Longrightarrow> upd e pid s = (r, s') \<Longrightarrow> p' \<in> set s' \<Longrightarrow>
   p' \<in> set s \<or> (\<exists>p \<in> set s. p_ID p = pid \<and> p' = f e p)"
  using write_shape [of e pid s r s'] replaced_one_set [of _ "f e" s s' p'] by blast

lemma write_frame:
  assumes "env_ok e" "upd e pid s = (r, s')" "p \<in> set s" "p_ID p \<noteq> pid"
  shows "p \<in> set s'"
  using write_shape [OF assms(1,2)] assms(3,4) by (auto simp: replaced_one_def)

lemma write_frame_back:
  assumes "env_ok e" "upd e pid s = (r, s')" "p \<in> set s'" "p_ID p \<noteq> pid"
  shows "p \<in> set s"
  using write_members [OF assms(1,2,3)] assms(4) write_ID by auto

lemma write_exact:
  assumes "env_ok e" "upd e pid s = (r, s')" "distinct (map p_ID s)"
  shows "s' = s \<or> s' = map (\<lambda>p. if p_ID p = pid then f e p else p) s"
  using write_shape [OF assms(1,2)] replaced_one_unique [of p_ID pid "f e" s s'] assms(3) by blast

lemma write_success:
  assumes "env_ok e" "upd e pid s = (None, s')" "distinct (map p_ID s)" "p \<in> set s" "p_ID p = pid"
  shows "s' = map (\<lambda>p. if p_ID p = pid then f e p else p) s"
  by (rule replaced_one_unique [OF write_done [OF assms(1,2,4,5)] assms(3)])

lemma write_ok:
  assumes "env_ok e" "upd e pid s = (r, s')" "projects_ok s"
    "\<And>p. p \<in> set s \<Longrightarrow> p_ID p = pid \<Longrightarrow> project_ok p \<Longrightarrow> project_ok (f e p)"
  shows "projects_ok s'"
  unfolding projects_ok_def
proof (intro conjI ballI)
  show "distinct (map p_ID s')" using write_ids [OF assms(1,2)] assms(3) by (simp add: projects_ok_def)
  show "project_ok p'" if "p' \<in> set s'" for p'
    using write_members [OF assms(1,2) that] assms(3,4) by (auto simp: projects_ok_def)
qed

end

lemma update_matched_shape:
  assumes "env_ok e" "update_matched e pid g s = (r, s')"
  shows "s' = s \<or> replaced_one (\<lambda>p. p_ID p = pid) g s s'"
  using assms(2) UpdateOne_or [OF env_ok_projects [OF assms(1)]]
  by (auto simp: update_matched_def split: prod.splits sum.splits if_splits)

lemma update_matched_done:
  assumes "env_ok e" "update_matched e pid g s = (None, s')"
  shows "replaced_one (\<lambda>p. p_ID p = pid) g s s'"
  using assms(2) UpdateOne_done [OF env_ok_projects [OF assms(1)]]
  by (auto simp: update_matched_def split: prod.splits sum.splits if_splits)

lemma update_any_shape:
  assumes "env_ok e"
    "(case UpdateOne (projectsC e) (\<lambda>p. p_ID p = pid) g s of (Inl err, s') \<Rightarrow> (Some err, s') | (Inr n, s') \<Rightarrow> (None, s')) = (r, s')"
  shows "s' = s \<or> replaced_one (\<lambda>p. p_ID p = pid) g s s'"
  using assms(2) UpdateOne_or [OF env_ok_projects [OF assms(1)]]
  by (auto split: prod.splits sum.splits)

lemma update_any_done:
  assumes "env_ok e"
    "(case UpdateOne (projectsC e) (\<lambda>p. p_ID p = pid) g s of (Inl err, s') \<Rightarrow> (Some err, s') | (Inr n, s') \<Rightarrow> (None, s')) = (None, s')"
    "p \<in> set s" "p_ID p = pid"
  shows "replaced_one (\<lambda>p. p_ID p = pid) g s s'"
proof -
  obtain n where n: "UpdateOne (projectsC e) (\<lambda>p. p_ID p = pid) g s = (Inr n, s')"
    using assms(2) by (auto split: prod.splits sum.splits)
  then have "n \<noteq> 0" by (rule UpdateOne_match [OF env_ok_projects [OF assms(1)] _ assms(3)]) (rule assms(4))
  then show ?thesis using UpdateOne_done [OF env_ok_projects [OF assms(1)] n] by simp
qed

definition invite_write :: "env \<Rightarrow> string \<Rightarrow> string \<Rightarrow> string option \<Rightarrow> project \<Rightarrow> project" where
  "invite_write e userID invitation role p =
     (case invite_change (clock e) invitation role of None \<Rightarrow> p | Some g \<Rightarrow> on_member userID g p)"

lemma invite_write_ID [simp]: "p_ID (invite_write e u i r p) = p_ID p"
  by (simp add: invite_write_def split: option.splits)

interpretation adding: project_write "\<lambda>e pid. AddMember e pid m" "\<lambda>e p. p\<lparr>p_Members := p_Members p @ [m]\<rparr>" for m
  by unfold_locales (auto simp: AddMember_def dest: update_matched_shape update_matched_done)

interpretation removing: project_write "\<lambda>e pid. RemoveInvitation_repo e pid u i"
    "\<lambda>e p. p\<lparr>p_Members := filter (\<lambda>m. m_UserID m \<noteq> u) (p_Members p)\<rparr>" for u i
  by unfold_locales (auto simp: RemoveInvitation_repo_def dest: update_matched_shape update_matched_done)

interpretation inviting: project_write "\<lambda>e pid. UpdateInvite e pid u i r" "\<lambda>e. invite_write e u i r" for u i r
proof unfold_locales
  fix e pid s res s'
  assume e: "env_ok e" and u: "UpdateInvite e pid u i r s = (res, s')"
  show "s' = s \<or> replaced_one (\<lambda>p. p_ID p = pid) (invite_write e u i r) s s'"
    using e u update_matched_shape [OF e]
    by (cases "invite_change (clock e) i r") (auto simp: UpdateInvite_def invite_write_def [abs_def])
next
  fix e pid s s' p
  assume e: "env_ok e" and u: "UpdateInvite e pid u i r s = (None, s')"
  show "replaced_one (\<lambda>p. p_ID p = pid) (invite_write e u i r) s s'"
    using e u update_matched_done [OF e]
    by (cases "invite_change (clock e) i r") (auto simp: UpdateInvite_def invite_write_def [abs_def])
qed simp

interpretation renaming: project_write "\<lambda>e pid. UpdateProjectName_repo e pid n" "\<lambda>e p. p\<lparr>p_Name := n\<rparr>" for n
  by unfold_locales (auto simp: UpdateProjectName_repo_def dest: update_any_shape update_any_done)

interpretation changing_role: project_write "\<lambda>e pid. UpdateMemberRole_repo e pid u r"
    "\<lambda>e. on_member u (\<lambda>m. m\<lparr>m_Role := r\<rparr>)" for u r
  by unfold_locales (auto simp: UpdateMemberRole_repo_def dest: update_any_shape update_any_done)

section \<open>The validator\<close>

definition rbac_filter :: "string \<Rightarrow> string \<Rightarrow> string list \<Rightarrow> string \<Rightarrow> project \<Rightarrow> bool" where
  "rbac_filter uid projectID requiredRoles invitation p =
     (p_ID p = projectID \<and>
      (\<exists>m \<in> set (p_Members p). m_UserID m = uid \<and> m_Role m \<in> set requiredRoles \<and> m_Invitation m = invitation))"

definition RbacValidator :: "env \<Rightarrow> string \<Rightarrow> string \<Rightarrow> string list \<Rightarrow> string \<Rightarrow> auth_db \<Rightarrow> go_error option" where
  "RbacValidator e uid projectID requiredRoles invitation db =
     (case GetUser_repo e uid (db_users db) of
        Inl err \<Rightarrow> Some err
      | Inr u \<Rightarrow>
        if u_DeactivatedAt u \<noteq> None then Some (Plain ''auth gRPC - Deactivated User'')
        else (case GetProjects e (rbac_filter uid projectID requiredRoles invitation) (db_projects db) of
                Inl err \<Rightarrow> Some err
              | Inr ps \<Rightarrow> if ps = [] then Some (Plain ''auth gRPC - Unauthorized'') else None))"

definition CheckInitialLogin :: "env \<Rightarrow> string \<Rightarrow> auth_db \<Rightarrow> go_error + bool" where
  "CheckInitialLogin e uid db = (case GetUser_repo e uid (db_users db) of
     Inl err \<Rightarrow> Inl err | Inr u \<Rightarrow> Inr (u_IsInitialLogin u))"

text \<open>What the validator promises: an active user, and a membership of the wanted kind.\<close>

definition active_user :: "string \<Rightarrow> auth_db \<Rightarrow> bool" where
  "active_user uid db = (\<exists>u \<in> set (db_users db). u_ID u = uid \<and> u_DeactivatedAt u = None)"

definition has_membership :: "string \<Rightarrow> string \<Rightarrow> string list \<Rightarrow> string \<Rightarrow> auth_db \<Rightarrow> bool" where
  "has_membership uid pid roles invitation db = (\<exists>p \<in> set (db_projects db). rbac_filter uid pid roles invitation p)"

definition permitted :: "string \<Rightarrow> string \<Rightarrow> string list \<Rightarrow> string \<Rightarrow> auth_db \<Rightarrow> bool" where
  "permitted uid pid roles invitation db = (active_user uid db \<and> has_membership uid pid roles invitation db)"

text \<open>An environment whose reads do not fail.\<close>

definition reads_up :: "env \<Rightarrow> bool" where
  "reads_up e = ((\<forall>q s err. FindOne (usersC e) q s = Inl err \<longrightarrow> err = NoDocuments) \<and>
     (\<forall>q s. \<exists>us. Find (usersC e) q s = Inr us) \<and>
     (\<forall>q s err. FindOne (projectsC e) q s = Inl err \<longrightarrow> err = NoDocuments) \<and>
     (\<forall>q s. \<exists>ps. Find (projectsC e) q s = Inr ps))"

lemma GetUser_found:
  assumes "env_ok e" "GetUser_repo e uid s = Inr u"
  obtains v where "v \<in> set s" "u_ID v = uid" "u = SanitizedUser v"
  using assms FindOne_ok [OF env_ok_users [OF assms(1)]]
  by (auto simp: GetUser_repo_def split: sum.splits)

lemma GetUser_ID: "env_ok e \<Longrightarrow> GetUser_repo e uid s = Inr u \<Longrightarrow> u_ID u = uid"
  by (elim GetUser_found) (auto simp: SanitizedUser_def)

lemma RbacValidator_sound:
  assumes "env_ok e" "RbacValidator e uid pid roles iv db = None"
  shows "permitted uid pid roles iv db"
proof -
  obtain u ps where u: "GetUser_repo e uid (db_users db) = Inr u" "u_DeactivatedAt u = None"
    and ps: "GetProjects e (rbac_filter uid pid roles iv) (db_projects db) = Inr ps" "ps \<noteq> []"
    using assms(2) by (auto simp: RbacValidator_def split: sum.splits if_splits)
  obtain v where "v \<in> set (db_users db)" "u_ID v = uid" "u = SanitizedUser v"
    using GetUser_found [OF assms(1) u(1)] .
  then have "active_user uid db"
    using u(2) by (auto simp: active_user_def SanitizedUser_def)
  moreover have "has_membership uid pid roles iv db"
    using Find_set [OF env_ok_projects [OF assms(1)] ps(1) [unfolded GetProjects_def]] ps(2)
    by (cases ps) (auto simp: has_membership_def)
  ultimately show ?thesis by (simp add: permitted_def)
qed

lemma RbacValidator_complete:
  assumes "env_ok e" "reads_up e" "distinct (map u_ID (db_users db))" "permitted uid pid roles iv db"
  shows "RbacValidator e uid pid roles iv db = None"
proof -
  obtain u where u: "u \<in> set (db_users db)" "u_ID u = uid" "u_DeactivatedAt u = None"
    using assms(4) by (auto simp: permitted_def active_user_def)
  obtain v where v: "FindOne (usersC e) (\<lambda>u. u_ID u = uid) (db_users db) = Inr v"
    using assms(2) FindOne_none [OF env_ok_users [OF assms(1)] _ u(1)] u(2)
    by (cases "FindOne (usersC e) (\<lambda>u. u_ID u = uid) (db_users db)") (auto simp: reads_up_def)
  then have "v = u"
    using FindOne_ok [OF env_ok_users [OF assms(1)] v] u assms(3) by (auto simp: distinct_map inj_on_def)
  obtain ps where ps: "Find (projectsC e) (rbac_filter uid pid roles iv) (db_projects db) = Inr ps"
    using assms(2) unfolding reads_up_def by blast
  have "ps \<noteq> []"
    using Find_set [OF env_ok_projects [OF assms(1)] ps] assms(4)
    by (auto simp: permitted_def has_membership_def)
  then show ?thesis using v \<open>v = u\<close> u(3) ps
    by (simp add: RbacValidator_def GetUser_repo_def GetProjects_def SanitizedUser_def)
qed

section \<open>Sessions\<close>

record caller = ctx_uid :: string  ctx_username :: string  ctx_role :: string

datatype middleware = Refused go_error | Admitted claims | MiddlewarePanic

text \<open>
  The header is cut at the length of the scheme without being looked at: a shorter one panics.
\<close>

definition BearerSchema :: string where "BearerSchema = ''Bearer ''"

definition JwtMiddleware :: "env \<Rightarrow> string \<Rightarrow> auth_db \<Rightarrow> middleware" where
  "JwtMiddleware e authHeader db =
     (if authHeader = [] then Refused (App ErrUnauthorized)
      else if length authHeader < length BearerSchema then MiddlewarePanic
      else (case ValidateToken e (drop (length BearerSchema) authHeader) db of
              Inl _ \<Rightarrow> Refused (App ErrUnauthorized)
            | Inr c \<Rightarrow> Admitted c))"

record validation_request =
  vr_Jwt :: string  vr_ProjectId :: string  vr_RequiredRoles :: "string list"  vr_Invitation :: string

definition ValidateRequest :: "env \<Rightarrow> validation_request \<Rightarrow> auth_db \<Rightarrow> bool" where
  "ValidateRequest e r db = (case ValidateToken e (vr_Jwt r) db of
     Inl _ \<Rightarrow> False
   | Inr c \<Rightarrow> (case c_uid c of
        None \<Rightarrow> False
      | Some uid \<Rightarrow> (case RbacValidator e uid (vr_ProjectId r) (vr_RequiredRoles r) (vr_Invitation r) db of
            Some _ \<Rightarrow> False | None \<Rightarrow> True)))"

end
