(* ===== verification/Auth_Projects.thy ===== *)
theory Auth_Projects
  imports Auth_Rbac
begin

text \<open>
  The project handlers of the authentication service
  (\<^verbatim>\<open>api/handlers/rest/project_handler.go\<close>): a handler takes the environment, the caller the
  middleware admitted, the request (\<^const>\<open>None\<close> when \<^verbatim>\<open>BindJSON\<close> fails) and the database, and returns
  the bodies it writes, in order, with the database after it. A handler that returns without
  writing has no reply. The order of the guards is the order of the code.
\<close>

section \<open>Replies and guards\<close>

record invitation_response =
  ir_ProjectID :: string
  ir_ProjectName :: string
  ir_ProjectOwner :: "member option"
  ir_InvitationRole :: string

datatype body =
    ErrBody go_error
  | MsgBody string
  | ProjectBody project
  | ProjectsBody "project list"
  | ListBody "project list" int
  | StatsBody "project_stats list"
  | MembersBody "member list"
  | MemberBody member
  | RoleBody string
  | InvitationsBody "invitation_response list"
  | UserProjectsBody user "project list"
  | UserBody user
  | UsersBody "user list"
  | SessionBody string string string
  | ProjectIDBody string string
  | TokenBody string
  | TokensBody "api_token list"

datatype reply = JSON int body | Redirect string | PanicReply

definition fail :: "app_error \<Rightarrow> reply" where
  "fail err = JSON (ErrorStatusCodes (App err)) (ErrBody (App err))"

definition initial_login_gate ::
  "env \<Rightarrow> string \<Rightarrow> auth_db \<Rightarrow> reply list \<times> auth_db \<Rightarrow> reply list \<times> auth_db" where
  "initial_login_gate e uid db k = (case CheckInitialLogin e uid db of
     Inl _ \<Rightarrow> ([fail ErrServerError], db)
   | Inr b \<Rightarrow> if b then ([JSON (ErrorStatusCodes (App ErrServerError)) (ErrBody (App ErrPasswordNotUpdated))], db)
             else k)"

definition rbac_gate ::
  "env \<Rightarrow> string \<Rightarrow> string \<Rightarrow> string \<Rightarrow> string \<Rightarrow> auth_db \<Rightarrow> reply list \<times> auth_db \<Rightarrow> reply list \<times> auth_db" where
  "rbac_gate e uid projectID op invitation db k =
     (case RbacValidator e uid projectID (MutationRbacRules op) invitation db of
        Some _ \<Rightarrow> ([fail ErrUnauthorized], db) | None \<Rightarrow> k)"

definition save_projects :: "auth_db \<Rightarrow> go_error option \<times> project list \<Rightarrow> reply \<Rightarrow> reply list \<times> auth_db" where
  "save_projects db w ok = (case w of
     (Some _, ps) \<Rightarrow> ([fail ErrServerError], db\<lparr>db_projects := ps\<rparr>)
   | (None, ps) \<Rightarrow> ([ok], db\<lparr>db_projects := ps\<rparr>))"

record member_input = mi_ProjectID :: string  mi_UserID :: string  mi_Role :: "string option"

record project_input = pi_ProjectID :: string  pi_ProjectName :: string

record create_project_input =
  cp_ProjectName :: string  cp_Description :: "string option"  cp_Tags :: "string option list"

section \<open>Reading handlers\<close>

definition GetUserWithProject ::
  "env \<Rightarrow> caller \<Rightarrow> string \<Rightarrow> list_request \<Rightarrow> auth_db \<Rightarrow> reply list \<times> auth_db" where
  "GetUserWithProject e c username filters db =
     (if ctx_username c \<noteq> username \<and> ctx_role c \<noteq> RoleAdmin then ([fail ErrUnauthorized], db)
      else (case FindUserByUsername e username (db_users db) of
        Inl _ \<Rightarrow> ([fail ErrUserNotFound], db)
      | Inr u \<Rightarrow> (case GetProjectsByUserID_repo e (filters\<lparr>lr_UserID := u_ID u\<rparr>) (db_projects db) of
          Inl _ \<Rightarrow> ([fail ErrServerError], db)
        | Inr (ps, _) \<Rightarrow> ([JSON 200 (UserProjectsBody u ps)], db))))"

definition GetProject :: "env \<Rightarrow> caller \<Rightarrow> string \<Rightarrow> auth_db \<Rightarrow> reply list \<times> auth_db" where
  "GetProject e c projectID db =
     (let read = (case GetProjectByProjectID e projectID (db_projects db) of
            Inl _ \<Rightarrow> ([fail ErrServerError], db) | Inr p \<Rightarrow> ([JSON 200 (ProjectBody p)], db))
      in if ctx_role c \<noteq> RoleAdmin
         then rbac_gate e (ctx_uid c) projectID ''getProject'' AcceptedInvitation db read
         else read)"

definition GetProjectsByUserID :: "env \<Rightarrow> list_request \<Rightarrow> auth_db \<Rightarrow> reply list \<times> auth_db" where
  "GetProjectsByUserID e r db = (case GetProjectsByUserID_repo e r (db_projects db) of
     Inl _ \<Rightarrow> ([JSON 200 (MsgBody ''No projects found'')], db)
   | Inr (ps, n) \<Rightarrow> if n = 0 then ([JSON 200 (MsgBody ''No projects found'')], db)
                   else ([JSON 200 (ListBody ps n)], db))"

text \<open>The refusal of a caller who is not an administrator is written and the handler goes on.\<close>

definition GetProjectStats :: "env \<Rightarrow> caller \<Rightarrow> auth_db \<Rightarrow> reply list \<times> auth_db" where
  "GetProjectStats e c db =
     (let denied = (if ctx_role c \<noteq> RoleAdmin
                    then [JSON 400 (MsgBody ''Permission denied, user is not admin'')] else [])
      in case GetProjectStats_repo e (db_projects db) of
           Inl _ \<Rightarrow> (denied @ [JSON 200 (MsgBody ''No projects found''), fail ErrServerError], db)
         | Inr stats \<Rightarrow> (denied @ [JSON 200 (StatsBody stats)], db))"

definition GetActiveProjectMembers :: "env \<Rightarrow> caller \<Rightarrow> string \<Rightarrow> string \<Rightarrow> auth_db \<Rightarrow> reply list \<times> auth_db" where
  "GetActiveProjectMembers e c projectID state db =
     (let read = (case GetProjectMembers e projectID state (db_projects db) of
            Inl _ \<Rightarrow> ([fail ErrServerError], db) | Inr ms \<Rightarrow> ([JSON 200 (MembersBody ms)], db))
      in if ctx_role c \<noteq> RoleAdmin
         then rbac_gate e (ctx_uid c) projectID ''getProject'' AcceptedInvitation db read
         else read)"

definition GetActiveProjectOwners :: "env \<Rightarrow> string \<Rightarrow> auth_db \<Rightarrow> reply list \<times> auth_db" where
  "GetActiveProjectOwners e projectID db = (case GetProjectOwners e projectID (db_projects db) of
     Inl _ \<Rightarrow> ([fail ErrServerError], db) | Inr ms \<Rightarrow> ([JSON 200 (MembersBody ms)], db))"

text \<open>\<^verbatim>\<open>getInvitation\<close>: the empty string when the user is not in the project.\<close>

definition getInvitation :: "env \<Rightarrow> member_input \<Rightarrow> project list \<Rightarrow> go_error + string" where
  "getInvitation e r s = (case GetProjectByProjectID e (mi_ProjectID r) s of
     Inl err \<Rightarrow> Inl err
   | Inr p \<Rightarrow> Inr (case find (\<lambda>m. m_UserID m = mi_UserID r) (p_Members p) of
        None \<Rightarrow> [] | Some m \<Rightarrow> m_Invitation m))"

fun invitation_loop :: "member list \<Rightarrow> invitation_response \<Rightarrow> invitation_response" where
  "invitation_loop [] r = r"
| "invitation_loop (m # ms) r = invitation_loop ms
     (if m_Role m = RoleOwner then r\<lparr>ir_ProjectOwner := Some m\<rparr> else r\<lparr>ir_InvitationRole := m_Role m\<rparr>)"

definition invitation_response_of :: "project \<Rightarrow> invitation_response" where
  "invitation_response_of p = invitation_loop (p_Members p)
     \<lparr>ir_ProjectID = p_ID p, ir_ProjectName = p_Name p, ir_ProjectOwner = None, ir_InvitationRole = []\<rparr>"

definition ListInvitations :: "env \<Rightarrow> caller \<Rightarrow> string \<Rightarrow> auth_db \<Rightarrow> reply list \<times> auth_db" where
  "ListInvitations e c invitationState db =
     (case ListInvitations_repo e (ctx_uid c) invitationState (db_projects db) of
        Inl _ \<Rightarrow> ([fail ErrServerError], db)
      | Inr ps \<Rightarrow> ([JSON 200 (InvitationsBody (map invitation_response_of ps))], db))"

definition GetOwnerProjects :: "env \<Rightarrow> caller \<Rightarrow> auth_db \<Rightarrow> reply list \<times> auth_db" where
  "GetOwnerProjects e c db = (case GetOwnerProjects_repo e (ctx_uid c) (db_projects db) of
     Inl _ \<Rightarrow> ([fail ErrServerError], db) | Inr ps \<Rightarrow> ([JSON 200 (ProjectsBody ps)], db))"

definition GetProjectRole :: "env \<Rightarrow> caller \<Rightarrow> string \<Rightarrow> auth_db \<Rightarrow> reply list \<times> auth_db" where
  "GetProjectRole e c projectID db =
     (case GetProjectRole_repo e projectID (ctx_uid c) (db_projects db) of
        Inl err \<Rightarrow> ([if err = NoDocuments then fail ErrProjectNotFound else fail ErrServerError], db)
      | Inr None \<Rightarrow> ([JSON 200 (RoleBody ''N/A'')], db)
      | Inr (Some role) \<Rightarrow> ([JSON 200 (RoleBody role)], db))"

section \<open>Writing handlers\<close>

definition detail_of :: "user \<Rightarrow> user_detail" where
  "detail_of u = \<lparr>ud_UserID = u_ID u, ud_Username = u_Username u, ud_Email = u_Email u\<rparr>"

definition new_audit :: "env \<Rightarrow> user \<Rightarrow> audit" where
  "new_audit e u = \<lparr>a_UpdatedAt = clock e, a_CreatedAt = clock e, a_CreatedBy = detail_of u,
     a_UpdatedBy = detail_of u, a_IsRemoved = False\<rparr>"

definition created_project :: "env \<Rightarrow> user \<Rightarrow> create_project_input \<Rightarrow> project" where
  "created_project e u r = \<lparr>p_Audit = new_audit e u, p_ID = newUUID e, p_Name = cp_ProjectName r,
     p_Members = [\<lparr>m_UserID = u_ID u, m_Username = u_Name u, m_Email = u_Email u, m_Name = [],
       m_Role = RoleOwner, m_Invitation = AcceptedInvitation, m_JoinedAt = clock e, m_DeactivatedAt = None\<rparr>],
     p_State = Some ''active'', p_Tags = cp_Tags r,
     p_Description = Some (case cp_Description r of None \<Rightarrow> [] | Some d \<Rightarrow> d)\<rparr>"

definition CreateProject ::
  "env \<Rightarrow> caller \<Rightarrow> create_project_input option \<Rightarrow> auth_db \<Rightarrow> reply list \<times> auth_db" where
  "CreateProject e c req db = (case req of None \<Rightarrow> ([fail ErrInvalidRequest], db) | Some r \<Rightarrow>
     initial_login_gate e (ctx_uid c) db
     (if cp_ProjectName r = [] then ([fail ErrEmptyProjectName], db)
      else (case GetUser_repo e (ctx_uid c) (db_users db) of
        Inl _ \<Rightarrow> ([fail ErrServerError], db)
      | Inr u \<Rightarrow> (case GetProjects e (\<lambda>p. p_Name p = cp_ProjectName r) (db_projects db) of
          Inl _ \<Rightarrow> ([], db)
        | Inr ps \<Rightarrow>
          if ps \<noteq> [] then
            ([JSON 400 (MsgBody (''project with name:'' @ cp_ProjectName r @ '' already exists''))], db)
          else save_projects db (CreateProject_repo e (created_project e u r) (db_projects db))
                 (JSON 200 (ProjectBody (GetProjectOutput (created_project e u r))))))))"

definition valid_role :: "string option \<Rightarrow> bool" where
  "valid_role role = (case role of None \<Rightarrow> False
     | Some r \<Rightarrow> r = RoleExecutor \<or> r = RoleViewer \<or> r = RoleOwner)"

definition invited_member :: "env \<Rightarrow> user \<Rightarrow> string \<Rightarrow> member" where
  "invited_member e u role = \<lparr>m_UserID = u_ID u, m_Username = u_Username u, m_Email = u_Email u,
     m_Name = u_Name u, m_Role = role, m_Invitation = PendingInvitation, m_JoinedAt = clock e,
     m_DeactivatedAt = None\<rparr>"

definition SendInvitation :: "env \<Rightarrow> caller \<Rightarrow> member_input option \<Rightarrow> auth_db \<Rightarrow> reply list \<times> auth_db" where
  "SendInvitation e c req db = (case req of None \<Rightarrow> ([fail ErrInvalidRequest], db) | Some r \<Rightarrow>
     rbac_gate e (ctx_uid c) (mi_ProjectID r) ''sendInvitation'' AcceptedInvitation db
     (initial_login_gate e (ctx_uid c) db
     (if \<not> valid_role (mi_Role r) then ([fail ErrInvalidRole], db)
      else (case GetUser_repo e (mi_UserID r) (db_users db) of
        Inl err \<Rightarrow> ([if err = NoDocuments then fail ErrUserNotFound else fail ErrServerError], db)
      | Inr u \<Rightarrow> (case getInvitation e r (db_projects db) of
          Inl err \<Rightarrow> ([if err = NoDocuments then fail ErrProjectNotFound else fail ErrServerError], db)
        | Inr i \<Rightarrow>
          if i = AcceptedInvitation then
            ([JSON (ErrorStatusCodes (App ErrInvalidRequest)) (MsgBody ''user is already a member of this project'')], db)
          else if i = PendingInvitation \<or> i = DeclinedInvitation \<or> i = ExitedProject then
            save_projects db (UpdateInvite e (mi_ProjectID r) (mi_UserID r) PendingInvitation (mi_Role r) (db_projects db))
              (JSON 200 (MsgBody ''Invitation sent successfully''))
          else save_projects db (AddMember e (mi_ProjectID r) (invited_member e u (the (mi_Role r))) (db_projects db))
              (JSON 200 (MemberBody (invited_member e u (the (mi_Role r))))))))))"

definition AcceptInvitation :: "env \<Rightarrow> caller \<Rightarrow> member_input option \<Rightarrow> auth_db \<Rightarrow> reply list \<times> auth_db" where
  "AcceptInvitation e c req db = (case req of None \<Rightarrow> ([fail ErrInvalidRequest], db) | Some r \<Rightarrow>
     initial_login_gate e (ctx_uid c) db
     (rbac_gate e (ctx_uid c) (mi_ProjectID r) ''acceptInvitation'' PendingInvitation db
     (save_projects db (UpdateInvite e (mi_ProjectID r) (mi_UserID r) AcceptedInvitation None (db_projects db))
        (JSON 200 (MsgBody ''Successful'')))))"

definition DeclineInvitation :: "env \<Rightarrow> caller \<Rightarrow> member_input option \<Rightarrow> auth_db \<Rightarrow> reply list \<times> auth_db" where
  "DeclineInvitation e c req db = (case req of None \<Rightarrow> ([fail ErrInvalidRequest], db) | Some r \<Rightarrow>
     initial_login_gate e (ctx_uid c) db
     (rbac_gate e (ctx_uid c) (mi_ProjectID r) ''declineInvitation'' PendingInvitation db
     (save_projects db (UpdateInvite e (mi_ProjectID r) (mi_UserID r) DeclinedInvitation None (db_projects db))
        (JSON 200 (MsgBody ''successful'')))))"

definition LeaveProject :: "env \<Rightarrow> caller \<Rightarrow> member_input option \<Rightarrow> auth_db \<Rightarrow> reply list \<times> auth_db" where
  "LeaveProject e c req db = (case req of None \<Rightarrow> ([fail ErrInvalidRequest], db) | Some r \<Rightarrow>
     (let go_on =
        initial_login_gate e (ctx_uid c) db
        (rbac_gate e (ctx_uid c) (mi_ProjectID r) ''leaveProject'' AcceptedInvitation db
        (save_projects db (UpdateInvite e (mi_ProjectID r) (mi_UserID r) ExitedProject None (db_projects db))
           (JSON 200 (MsgBody ''successful''))))
      in if mi_Role r = Some RoleOwner
         then (case GetProjectOwners e (mi_ProjectID r) (db_projects db) of
                 Inl _ \<Rightarrow> ([fail ErrServerError], db)
               | Inr owners \<Rightarrow>
                   if length owners = 1 then
                     ([JSON (ErrorStatusCodes (App ErrInvalidRequest))
                        (MsgBody ''Cannot leave project. There must be at least one owner.'')], db)
                   else go_on)
         else go_on))"

definition RemoveInvitation :: "env \<Rightarrow> caller \<Rightarrow> member_input option \<Rightarrow> auth_db \<Rightarrow> reply list \<times> auth_db" where
  "RemoveInvitation e c req db = (case req of None \<Rightarrow> ([fail ErrInvalidRequest], db) | Some r \<Rightarrow>
     if mi_UserID r = [] then ([fail ErrInvalidRequest], db)
     else initial_login_gate e (ctx_uid c) db
     (rbac_gate e (ctx_uid c) (mi_ProjectID r) ''removeInvitation'' AcceptedInvitation db
     (if ctx_uid c = mi_UserID r then
        ([JSON 400 (MsgBody ''User cannot remove invitation of themselves use Leave Project.'')], db)
      else (case getInvitation e r (db_projects db) of
        Inl _ \<Rightarrow> ([fail ErrServerError], db)
      | Inr i \<Rightarrow>
        if i = AcceptedInvitation \<or> i = PendingInvitation then
          save_projects db (RemoveInvitation_repo e (mi_ProjectID r) (mi_UserID r) i (db_projects db))
            (JSON 200 (MsgBody ''successful''))
        else if i = DeclinedInvitation \<or> i = ExitedProject then
          ([JSON 400 (MsgBody ''User is not a part of your project'')], db)
        else ([JSON 200 (MsgBody ''successful'')], db)))))"

text \<open>The duplicate test matches a project of that name with the caller as some member and some owner.\<close>

definition same_name_filter :: "string \<Rightarrow> string \<Rightarrow> project \<Rightarrow> bool" where
  "same_name_filter name uid p = (p_Name p = name \<and>
     (\<exists>m \<in> set (p_Members p). m_UserID m = uid) \<and> (\<exists>m \<in> set (p_Members p). m_Role m = RoleOwner))"

definition UpdateProjectName :: "env \<Rightarrow> caller \<Rightarrow> project_input option \<Rightarrow> auth_db \<Rightarrow> reply list \<times> auth_db" where
  "UpdateProjectName e c req db = (case req of None \<Rightarrow> ([fail ErrInvalidRequest], db) | Some r \<Rightarrow>
     initial_login_gate e (ctx_uid c) db
     (rbac_gate e (ctx_uid c) (pi_ProjectID r) ''updateProjectName'' AcceptedInvitation db
     (case GetProjects e (same_name_filter (pi_ProjectName r) (ctx_uid c)) (db_projects db) of
        Inl _ \<Rightarrow> ([], db)
      | Inr ps \<Rightarrow>
        if ps \<noteq> [] then
          ([JSON 400 (MsgBody (''project with name: '' @ pi_ProjectName r @ '' already exists''))], db)
        else save_projects db (UpdateProjectName_repo e (pi_ProjectID r) (pi_ProjectName r) (db_projects db))
               (JSON 200 (MsgBody ''successful'')))))"

definition UpdateMemberRole :: "env \<Rightarrow> caller \<Rightarrow> member_input option \<Rightarrow> auth_db \<Rightarrow> reply list \<times> auth_db" where
  "UpdateMemberRole e c req db = (case req of None \<Rightarrow> ([fail ErrInvalidRequest], db) | Some r \<Rightarrow>
     if \<not> valid_role (mi_Role r) then ([fail ErrInvalidRole], db)
     else rbac_gate e (ctx_uid c) (mi_ProjectID r) ''updateMemberRole'' AcceptedInvitation db
     (if ctx_uid c = mi_UserID r then ([JSON 400 (MsgBody ''User cannot change their own role.'')], db)
      else save_projects db
             (UpdateMemberRole_repo e (mi_ProjectID r) (mi_UserID r) (the (mi_Role r)) (db_projects db))
             (JSON 200 (MsgBody ''successful''))))"

definition DeleteProject :: "env \<Rightarrow> caller \<Rightarrow> string \<Rightarrow> auth_db \<Rightarrow> reply list \<times> auth_db" where
  "DeleteProject e c projectID db =
     rbac_gate e (ctx_uid c) projectID ''deleteProject'' AcceptedInvitation db
     (save_projects db (DeleteProject_repo e projectID (db_projects db))
        (JSON 200 (MsgBody ''Successfully deleted project.'')))"

section \<open>What the guards give\<close>

lemma initial_login_gate_cases:
  assumes "initial_login_gate e uid db k = (rs, db')"
  obtains "db' = db" | "CheckInitialLogin e uid db = Inr False" "k = (rs, db')"
  using assms by (auto simp: initial_login_gate_def split: sum.splits if_splits)

lemma rbac_gate_cases:
  assumes "rbac_gate e uid pid op i db k = (rs, db')"
  obtains "db' = db" | "RbacValidator e uid pid (MutationRbacRules op) i db = None" "k = (rs, db')"
  using assms by (auto simp: rbac_gate_def split: option.splits)

lemma save_projects_cases:
  assumes "save_projects db w ok = (rs, db')"
  obtains err ps where "w = (err, ps)" "db' = db\<lparr>db_projects := ps\<rparr>" "rs = [ok] \<longleftrightarrow> err = None \<or> ok = fail ErrServerError"
  using assms by (auto simp: save_projects_def split: prod.splits option.splits)

lemma save_projects_users [simp]: "db_users (snd (save_projects db w ok)) = db_users db"
  by (simp add: save_projects_def split: prod.splits option.splits)

lemma owner_rules:
  "MutationRbacRules ''sendInvitation'' = [RoleOwner]" "MutationRbacRules ''removeInvitation'' = [RoleOwner]"
  "MutationRbacRules ''updateProjectName'' = [RoleOwner]" "MutationRbacRules ''updateMemberRole'' = [RoleOwner]"
  "MutationRbacRules ''deleteProject'' = [RoleOwner]"
  by (simp_all add: MutationRbacRules_def)

text \<open>What the owner's operations are guarded by.\<close>

definition accepted_owner_of :: "string \<Rightarrow> string \<Rightarrow> auth_db \<Rightarrow> bool" where
  "accepted_owner_of uid pid db = (active_user uid db \<and>
     (\<exists>p \<in> set (db_projects db). p_ID p = pid \<and> (\<exists>m \<in> set (p_Members p). m_UserID m = uid \<and> accepted_owner m)))"

lemma owner_permitted: "permitted uid pid [RoleOwner] AcceptedInvitation db = accepted_owner_of uid pid db"
  by (auto simp: permitted_def has_membership_def rbac_filter_def accepted_owner_of_def accepted_owner_def)

lemma owner_gate:
  assumes "env_ok e" "rbac_gate e uid pid op AcceptedInvitation db k = (rs, db')" "db' \<noteq> db"
    "MutationRbacRules op = [RoleOwner]"
  shows "accepted_owner_of uid pid db" "k = (rs, db')"
  using assms RbacValidator_sound [OF assms(1)] owner_permitted by (metis rbac_gate_cases)+

end
