(* ===== verification/Auth_Users.thy ===== *)
theory Auth_Users
  imports Auth_Projects
begin

text \<open>
  The user handlers of the authentication service (\<^verbatim>\<open>api/handlers/rest/user_handlers.go\<close>) and the
  callback of the OAuth login (\<^verbatim>\<open>dex_auth_handler.go\<close>), in the form of \<open>Auth_Projects\<close>. The exchange
  with the identity provider is a parameter of the environment.
\<close>

section \<open>Accounts\<close>

definition CreateUser :: "env \<Rightarrow> caller \<Rightarrow> user option \<Rightarrow> auth_db \<Rightarrow> reply list \<times> auth_db" where
  "CreateUser e c req db =
     (if ctx_role c \<noteq> RoleAdmin then ([fail ErrUnauthorized], db)
      else case req of None \<Rightarrow> ([fail ErrInvalidRequest], db) | Some r \<Rightarrow>
        if u_Role r \<noteq> RoleUser \<and> u_Role r \<noteq> RoleAdmin then ([fail ErrInvalidRequest], db)
        else (let name = SanitizeString (u_Username r) in
          if u_Role r = [] \<or> name = [] \<or> u_Password r = [] then ([fail ErrInvalidRequest], db)
          else if ValidateStrictUsername name \<noteq> None then ([fail ErrStrictUsernamePolicyViolation], db)
          else (let h = (case hashPassword e (u_Password r) of Inl _ \<Rightarrow> [] | Inr h \<Rightarrow> h) in
            if u_Email r \<noteq> [] \<and> \<not> mailOk e (u_Email r) then ([fail ErrInvalidEmail], db)
            else (let u = r\<lparr>u_Username := name, u_ID := newUUID e, u_IsInitialLogin := True, u_Password := h,
                            u_Audit := (u_Audit r)\<lparr>a_CreatedAt := clock e\<rparr>\<rparr> in
              case CreateUser_repo e u (db_users db) of
                (Inl err, us) \<Rightarrow> ([if err = App ErrUserExists then fail ErrUserExists else fail ErrServerError],
                                  db\<lparr>db_users := us\<rparr>)
              | (Inr v, us) \<Rightarrow> ([JSON 200 (UserBody v)], db\<lparr>db_users := us\<rparr>)))))"

definition UpdateUser :: "env \<Rightarrow> caller \<Rightarrow> user_details option \<Rightarrow> auth_db \<Rightarrow> reply list \<times> auth_db" where
  "UpdateUser e c req db = (case req of None \<Rightarrow> ([fail ErrInvalidRequest], db) | Some r \<Rightarrow>
     initial_login_gate e (ctx_uid c) db
     (case UpdateUser_repo e (r\<lparr>us_ID := ctx_uid c\<rparr>) (db_users db) of
        (Some _, us) \<Rightarrow> ([fail ErrServerError], db\<lparr>db_users := us\<rparr>)
      | (None, us) \<Rightarrow> ([JSON 200 (MsgBody ''User details updated successfully'')], db\<lparr>db_users := us\<rparr>)))"

definition GetUser :: "env \<Rightarrow> caller \<Rightarrow> string \<Rightarrow> auth_db \<Rightarrow> reply list \<times> auth_db" where
  "GetUser e c uid db =
     (if ctx_uid c \<noteq> uid \<and> ctx_role c \<noteq> RoleAdmin then ([fail ErrUnauthorized], db)
      else case GetUser_repo e uid (db_users db) of
        Inl _ \<Rightarrow> ([fail ErrUserNotFound], db) | Inr u \<Rightarrow> ([JSON 200 (UserBody u)], db))"

definition FetchUsers :: "env \<Rightarrow> caller \<Rightarrow> auth_db \<Rightarrow> reply list \<times> auth_db" where
  "FetchUsers e c db =
     (if ctx_role c \<noteq> RoleAdmin then ([fail ErrUnauthorized], db)
      else case GetUsers e (db_users db) of
        Inl _ \<Rightarrow> ([fail ErrServerError], db) | Inr us \<Rightarrow> ([JSON 200 (UsersBody us)], db))"

text \<open>The error of \<^verbatim>\<open>GetProjectMembers\<close> is overwritten, its nil result ranged over.\<close>

definition InviteUsers :: "env \<Rightarrow> caller \<Rightarrow> string \<Rightarrow> auth_db \<Rightarrow> reply list \<times> auth_db" where
  "InviteUsers e c projectID db =
     (if projectID = [] then ([fail ErrInvalidRequest], db)
      else rbac_gate e (ctx_uid c) projectID ''sendInvitation'' AcceptedInvitation db
      (let ms = (case GetProjectMembers e projectID ''all'' (db_projects db) of Inl _ \<Rightarrow> [] | Inr ms \<Rightarrow> ms) in
       case InviteUsers_repo e (map m_UserID ms) (db_users db) of
         Inl _ \<Rightarrow> ([fail ErrServerError], db) | Inr us \<Rightarrow> ([JSON 200 (UsersBody us)], db)))"

section \<open>Sessions\<close>

definition default_new_project :: "env \<Rightarrow> user \<Rightarrow> project" where
  "default_new_project e u = \<lparr>p_Audit = new_audit e u, p_ID = newUUID e, p_Name = u_Username u @ ''-project'',
     p_Members = [\<lparr>m_UserID = u_ID u, m_Username = u_Username u, m_Email = u_Email u, m_Name = u_Name u,
       m_Role = RoleOwner, m_Invitation = AcceptedInvitation, m_JoinedAt = clock e, m_DeactivatedAt = None\<rparr>],
     p_State = Some ''active'', p_Tags = [], p_Description = None\<rparr>"

text \<open>
  The default project of a user who logs in: the first project the user owns, else a new one. The
  error of the lookup is not read; \<^const>\<open>None\<close> is the early return when the creation fails.
\<close>

definition default_project :: "env \<Rightarrow> user \<Rightarrow> auth_db \<Rightarrow> string option \<times> auth_db" where
  "default_project e u db =
     (let own = (case GetOwnerProjects_repo e (u_ID u) (db_projects db) of Inl _ \<Rightarrow> [] | Inr ps \<Rightarrow> ps) in
      case own of
        p # _ \<Rightarrow> (Some (p_ID p), db)
      | [] \<Rightarrow> (case CreateProject_repo e (default_new_project e u) (db_projects db) of
          (Some _, ps) \<Rightarrow> (None, db\<lparr>db_projects := ps\<rparr>)
        | (None, ps) \<Rightarrow> (Some (newUUID e), db\<lparr>db_projects := ps\<rparr>)))"

record login_request = lg_Username :: string  lg_Password :: string

definition LoginUser :: "env \<Rightarrow> login_request option \<Rightarrow> auth_db \<Rightarrow> reply list \<times> auth_db" where
  "LoginUser e req db = (case req of None \<Rightarrow> ([fail ErrInvalidRequest], db) | Some r \<Rightarrow>
     (let name = SanitizeString (lg_Username r) in
      if name = [] \<or> lg_Password r = [] then ([fail ErrInvalidRequest], db)
      else case FindUserByUsername e name (db_users db) of
        Inl _ \<Rightarrow> ([fail ErrInvalidCredentials], db)
      | Inr u \<Rightarrow>
        if u_DeactivatedAt u \<noteq> None then ([fail ErrInvalidCredentials], db)
        else if CheckPasswordHash e (u_Password u) (lg_Password r) \<noteq> None then ([fail ErrInvalidCredentials], db)
        else (case GetConfig e ''salt'' (db_config db) of
          Inl _ \<Rightarrow> ([fail ErrServerError], db)
        | Inr salt \<Rightarrow> (case GetSignedJWT e u (ac_Value salt) of
            Inl _ \<Rightarrow> ([fail ErrServerError], db)
          | Inr token \<Rightarrow> (case default_project e u db of
              (None, db') \<Rightarrow> ([], db')
            | (Some pid, db') \<Rightarrow> ([JSON 200 (SessionBody token pid RoleOwner)], db'))))))"

definition LogoutUser :: "env \<Rightarrow> string \<Rightarrow> auth_db \<Rightarrow> reply list \<times> auth_db" where
  "LogoutUser e authHeader db =
     (if authHeader = [] then ([fail ErrUnauthorized], db)
      else if length authHeader < length BearerSchema then ([PanicReply], db)
      else (case RevokeToken e (drop (length BearerSchema) authHeader) db of
        (None, db') \<Rightarrow> ([PanicReply], db')
      | (Some (Some _), db') \<Rightarrow> ([fail ErrServerError], db')
      | (Some None, db') \<Rightarrow> ([JSON 200 (MsgBody ''successfully logged out'')], db')))"

text \<open>
  The OAuth callback. A state that does not validate is answered with a redirect, and the handler
  goes on as if it had validated.
\<close>

definition dex_user :: "env \<Rightarrow> string \<Rightarrow> string \<Rightarrow> user" where
  "dex_user e name email = \<lparr>u_Audit = \<lparr>a_UpdatedAt = clock e, a_CreatedAt = clock e, a_CreatedBy = zero_detail,
       a_UpdatedBy = zero_detail, a_IsRemoved = False\<rparr>,
     u_ID = [], u_Username = email, u_Password = [], u_Salt = [], u_Email = email, u_Name = name,
     u_Role = RoleUser, u_DeactivatedAt = None, u_IsInitialLogin = False\<rparr>"

definition dex_session :: "env \<Rightarrow> string \<Rightarrow> string \<Rightarrow> auth_db \<Rightarrow> reply list \<times> auth_db" where
  "dex_session e name email db =
     (case LoginUser_repo e (dex_user e name email) (db_users db) of
        (Inl _, us) \<Rightarrow> ([fail ErrServerError], db\<lparr>db_users := us\<rparr>)
      | (Inr u, us) \<Rightarrow>
        (let db1 = db\<lparr>db_users := us\<rparr> in case GetConfig e ''salt'' (db_config db1) of
           Inl _ \<Rightarrow> ([fail ErrServerError], db1)
         | Inr salt \<Rightarrow> (case GetSignedJWT e u (ac_Value salt) of
             Inl _ \<Rightarrow> ([fail ErrServerError], db1)
           | Inr token \<Rightarrow> (case default_project e u db1 of
               (None, db2) \<Rightarrow> ([], db2)
             | (Some pid, db2) \<Rightarrow> ([Redirect (''/login?jwtToken='' @ token @ ''&projectID='' @ pid @
                                     ''&projectRole='' @ RoleOwner)], db2)))))"

definition DexCallback :: "env \<Rightarrow> string \<Rightarrow> string \<Rightarrow> auth_db \<Rightarrow> reply list \<times> auth_db" where
  "DexCallback e incomingState code db =
     (let early = (if oauthStateOk e incomingState then [] else [Redirect ''/'']);
          (rs, db') = (case dexConfig e of
             Some _ \<Rightarrow> ([fail ErrServerError], db)
           | None \<Rightarrow> (case dexExchange e code of
               Inl _ \<Rightarrow> ([fail ErrServerError], db)
             | Inr None \<Rightarrow> ([fail ErrServerError], db)
             | Inr (Some raw) \<Rightarrow> (case dexVerify e raw of
                 Inl _ \<Rightarrow> ([fail ErrServerError], db)
               | Inr (name, email) \<Rightarrow> dex_session e name email db)))
      in (early @ rs, db'))"

section \<open>Passwords\<close>

definition UpdatePassword :: "env \<Rightarrow> caller \<Rightarrow> user_password option \<Rightarrow> auth_db \<Rightarrow> reply list \<times> auth_db" where
  "UpdatePassword e c req db = (case req of None \<Rightarrow> ([fail ErrInvalidRequest], db) | Some r \<Rightarrow>
     (case FindUserByUsername e (ctx_username c) (db_users db) of
        Inl _ \<Rightarrow> ([JSON (ErrorStatusCodes (App ErrUserNotFound)) (ErrBody (App ErrInvalidCredentials))], db)
      | Inr u \<Rightarrow>
        if up_NewPassword r = [] then ([fail ErrInvalidRequest], db)
        else if ValidateStrictPassword (up_NewPassword r) \<noteq> None
        then ([fail ErrStrictPasswordPolicyViolation], db)
        else (case UpdatePassword_repo e (r\<lparr>up_Username := ctx_username c\<rparr>) True (db_users db) of
          (Some err, us) \<Rightarrow>
            ([if Contains (error_text err) ''old and new passwords can't be same'' then fail ErrOldPassword
              else if Contains (error_text err) ''invalid credentials'' then fail ErrInvalidCredentials
              else fail ErrServerError], db\<lparr>db_users := us\<rparr>)
        | (None, us) \<Rightarrow> (case default_project e u (db\<lparr>db_users := us\<rparr>) of
              (None, db') \<Rightarrow> ([], db')
            | (Some pid, db') \<Rightarrow>
                ([JSON 200 (ProjectIDBody ''password has been updated successfully'' pid)], db')))))"

definition ResetPassword :: "env \<Rightarrow> caller \<Rightarrow> user_password option \<Rightarrow> auth_db \<Rightarrow> reply list \<times> auth_db" where
  "ResetPassword e c req db =
     (if ctx_role c \<noteq> RoleAdmin then ([fail ErrUnauthorized], db)
      else case req of None \<Rightarrow> ([fail ErrInvalidRequest], db) | Some r \<Rightarrow>
        initial_login_gate e (ctx_uid c) db
        (if up_NewPassword r \<noteq> [] \<and> ValidateStrictPassword (up_NewPassword r) \<noteq> None
         then ([fail ErrStrictPasswordPolicyViolation], db)
         else if up_Username r = [] \<or> up_NewPassword r = [] then ([fail ErrInvalidRequest], db)
         else if IsAdministrator e (ctx_uid c) (ctx_username c) (db_users db) \<noteq> None
         then ([fail ErrUnauthorized], db)
         else (case UpdatePassword_repo e r False (db_users db) of
             (Some _, us) \<Rightarrow> ([fail ErrServerError], db\<lparr>db_users := us\<rparr>)
           | (None, us) \<Rightarrow> ([JSON 200 (MsgBody ''password has been reset successfully'')], db\<lparr>db_users := us\<rparr>))))"

section \<open>Deactivation\<close>

record update_user_state = uus_Username :: string  uus_IsDeactivate :: "bool option"

definition UpdateUserState :: "env \<Rightarrow> caller \<Rightarrow> update_user_state option \<Rightarrow> auth_db \<Rightarrow> reply list \<times> auth_db" where
  "UpdateUserState e c req db =
     initial_login_gate e (ctx_uid c) db
     (if ctx_role c \<noteq> RoleAdmin then ([fail ErrUnauthorized], db)
      else case req of None \<Rightarrow> ([fail ErrInvalidRequest], db) | Some r \<Rightarrow>
        (case uus_IsDeactivate r of
           None \<Rightarrow> ([fail ErrInvalidRequest], db)
         | Some b \<Rightarrow>
           if IsAdministrator e (ctx_uid c) (ctx_username c) (db_users db) \<noteq> None
           then ([fail ErrUnauthorized], db)
           else (case UpdateStateTransaction e (uus_Username r) b db of
               (Some err, db') \<Rightarrow> ([JSON (ErrorStatusCodes err) (ErrBody err)], db')
             | (None, db') \<Rightarrow> ([JSON 200 (MsgBody ''user's state updated successfully'')], db'))))"

section \<open>API tokens\<close>

definition CreateApiToken :: "env \<Rightarrow> caller \<Rightarrow> api_token_input option \<Rightarrow> auth_db \<Rightarrow> reply list \<times> auth_db" where
  "CreateApiToken e c req db = (case req of None \<Rightarrow> ([fail ErrInvalidRequest], db) | Some r \<Rightarrow>
     if ctx_uid c \<noteq> ati_UserID r then ([fail ErrUnauthorized], db)
     else initial_login_gate e (ati_UserID r) db
     (case GetUser_repo e (ati_UserID r) (db_users db) of
        Inl _ \<Rightarrow> ([fail ErrUserNotFound], db)
      | Inr u \<Rightarrow> (case CreateApiToken_service e u r db of
          (Inl _, db') \<Rightarrow> ([fail ErrServerError], db')
        | (Inr tok, db') \<Rightarrow> ([JSON 200 (TokenBody tok)], db'))))"

definition GetApiTokens :: "env \<Rightarrow> caller \<Rightarrow> string \<Rightarrow> auth_db \<Rightarrow> reply list \<times> auth_db" where
  "GetApiTokens e c uid db =
     (if ctx_uid c \<noteq> uid then ([fail ErrUnauthorized], db)
      else case GetApiTokensByUserID e uid (db_tokens db) of
        Inl _ \<Rightarrow> ([fail ErrServerError], db) | Inr ts \<Rightarrow> ([JSON 200 (TokensBody ts)], db))"

record delete_token_input = dt_Token :: string  dt_UserID :: string

definition DeleteApiToken :: "env \<Rightarrow> caller \<Rightarrow> delete_token_input option \<Rightarrow> auth_db \<Rightarrow> reply list \<times> auth_db" where
  "DeleteApiToken e c req db = (case req of None \<Rightarrow> ([fail ErrInvalidRequest], db) | Some r \<Rightarrow>
     if ctx_uid c \<noteq> dt_UserID r then ([fail ErrUnauthorized], db)
     else initial_login_gate e (dt_UserID r) db
     (case DeleteApiToken_repo e (dt_Token r) (db_tokens db) of
        (Some _, ts) \<Rightarrow> ([fail ErrServerError], db\<lparr>db_tokens := ts\<rparr>)
      | (None, ts) \<Rightarrow> (case RevokeToken e (dt_Token r) (db\<lparr>db_tokens := ts\<rparr>) of
          (None, db') \<Rightarrow> ([PanicReply], db')
        | (Some (Some _), db') \<Rightarrow> ([fail ErrServerError], db')
        | (Some None, db') \<Rightarrow> ([JSON 200 (MsgBody ''api token deleted successfully'')], db'))))"

section \<open>What the operations leave unchanged\<close>

lemma RevokeToken_frame:
  assumes "RevokeToken e tok db = (r, db')"
  shows "db_users db' = db_users db" "db_projects db' = db_projects db"
  using assms by (auto simp: RevokeToken_def split: sum.splits option.splits prod.splits)

lemma CreateApiToken_service_frame:
  assumes "CreateApiToken_service e u r db = (x, db')"
  shows "db_users db' = db_users db" "db_projects db' = db_projects db"
  using assms by (auto simp: CreateApiToken_service_def split: sum.splits option.splits prod.splits)

end
