(* ===== verification/Auth_Machine.thy ===== *)
theory Auth_Machine
  imports Auth_Users
begin

text \<open>
  The authentication service as a state machine: its state is the database, its steps are the
  requests its handlers serve, each under an arbitrary conforming environment. The invariant is that
  projects keep distinct identifiers, distinct members, the roles and invitations of the code, and an
  accepted owner; the step relation says of which requests that is true, and the theorems about single
  handlers say who may change what.
\<close>

section \<open>Requests and steps\<close>

datatype request =
    RCreateProject "create_project_input option"
  | RSendInvitation "member_input option"
  | RAcceptInvitation "member_input option"
  | RDeclineInvitation "member_input option"
  | RLeaveProject "member_input option"
  | RRemoveInvitation "member_input option"
  | RUpdateProjectName "project_input option"
  | RUpdateMemberRole "member_input option"
  | RDeleteProject string
  | RCreateUser "user option"
  | RUpdateUser "user_details option"
  | RLogin "login_request option"
  | RLogout string
  | RDexCallback string string
  | RUpdatePassword "user_password option"
  | RResetPassword "user_password option"
  | RUpdateUserState "update_user_state option"
  | RCreateApiToken "api_token_input option"
  | RDeleteApiToken "delete_token_input option"

fun handle :: "env \<Rightarrow> caller \<Rightarrow> request \<Rightarrow> auth_db \<Rightarrow> reply list \<times> auth_db" where
  "handle e c (RCreateProject r) db = CreateProject e c r db"
| "handle e c (RSendInvitation r) db = SendInvitation e c r db"
| "handle e c (RAcceptInvitation r) db = AcceptInvitation e c r db"
| "handle e c (RDeclineInvitation r) db = DeclineInvitation e c r db"
| "handle e c (RLeaveProject r) db = LeaveProject e c r db"
| "handle e c (RRemoveInvitation r) db = RemoveInvitation e c r db"
| "handle e c (RUpdateProjectName r) db = UpdateProjectName e c r db"
| "handle e c (RUpdateMemberRole r) db = UpdateMemberRole e c r db"
| "handle e c (RDeleteProject r) db = DeleteProject e c r db"
| "handle e c (RCreateUser r) db = CreateUser e c r db"
| "handle e c (RUpdateUser r) db = UpdateUser e c r db"
| "handle e c (RLogin r) db = LoginUser e r db"
| "handle e c (RLogout h) db = LogoutUser e h db"
| "handle e c (RDexCallback s code) db = DexCallback e s code db"
| "handle e c (RUpdatePassword r) db = UpdatePassword e c r db"
| "handle e c (RResetPassword r) db = ResetPassword e c r db"
| "handle e c (RUpdateUserState r) db = UpdateUserState e c r db"
| "handle e c (RCreateApiToken r) db = CreateApiToken e c r db"
| "handle e c (RDeleteApiToken r) db = DeleteApiToken e c r db"

text \<open>
  A truthful request to decline or to leave names the caller, and a request to leave the caller's
  own role: what the handlers take from the request and do not check.
\<close>

definition role_stated :: "caller \<Rightarrow> member_input \<Rightarrow> auth_db \<Rightarrow> bool" where
  "role_stated c r db = (\<forall>p \<in> set (db_projects db). p_ID p = mi_ProjectID r \<longrightarrow>
     (\<forall>m \<in> set (p_Members p). m_UserID m = ctx_uid c \<longrightarrow> mi_Role r = Some (m_Role m)))"

fun truthful :: "caller \<Rightarrow> request \<Rightarrow> auth_db \<Rightarrow> bool" where
  "truthful c (RDeclineInvitation (Some r)) db = (mi_UserID r = ctx_uid c)"
| "truthful c (RLeaveProject (Some r)) db = (mi_UserID r = ctx_uid c \<and> role_stated c r db)"
| "truthful c _ db = True"

inductive auth_step :: "auth_db \<Rightarrow> auth_db \<Rightarrow> bool" where
  "env_ok e \<Longrightarrow> truthful c req db \<Longrightarrow> auth_step db (snd (handle e c req db))"

inductive_cases auth_stepE: "auth_step db db'"

inductive auth_steps :: "auth_db \<Rightarrow> auth_db \<Rightarrow> bool" where
  steps_refl: "auth_steps db db"
| steps_step: "auth_steps db db' \<Longrightarrow> auth_step db' db'' \<Longrightarrow> auth_steps db db''"

definition users_ok :: "user list \<Rightarrow> bool" where
  "users_ok us = (distinct (map u_ID us) \<and> distinct (map u_Username us))"

definition db_ok :: "auth_db \<Rightarrow> bool" where
  "db_ok db = (projects_ok (db_projects db) \<and> users_ok (db_users db))"

definition empty_db :: auth_db where
  "empty_db = \<lparr>db_users = [], db_projects = [], db_revoked = [], db_tokens = [], db_config = []\<rparr>"

section \<open>Preservation by the guards\<close>

lemma login_gate_ok: "P db \<Longrightarrow> P (snd k) \<Longrightarrow> P (snd (initial_login_gate e uid db k))"
  by (simp add: initial_login_gate_def split: sum.splits)

lemma rbac_gate_ok:
  "env_ok e \<Longrightarrow> P db \<Longrightarrow> (permitted uid pid (MutationRbacRules op) i db \<Longrightarrow> P (snd k)) \<Longrightarrow>
   P (snd (rbac_gate e uid pid op i db k))"
  using RbacValidator_sound [of e uid pid "MutationRbacRules op" i db]
  by (auto simp: rbac_gate_def split: option.splits)

lemma save_ok: "(\<And>r ps. w = (r, ps) \<Longrightarrow> P (db\<lparr>db_projects := ps\<rparr>)) \<Longrightarrow> P (snd (save_projects db w k))"
  by (auto simp: save_projects_def split: prod.splits option.splits)

lemma db_ok_projects [simp]: "db_ok (db\<lparr>db_projects := ps\<rparr>) \<longleftrightarrow> projects_ok ps \<and> users_ok (db_users db)"
  by (simp add: db_ok_def)

lemma projects_okD: "projects_ok s \<Longrightarrow> p \<in> set s \<Longrightarrow> project_ok p"
  by (simp add: projects_ok_def)

lemma same_project: "projects_ok s \<Longrightarrow> p \<in> set s \<Longrightarrow> q \<in> set s \<Longrightarrow> p_ID p = p_ID q \<Longrightarrow> p = q"
  by (auto simp: projects_ok_def distinct_map inj_on_def)

lemma same_member: "members_ok ms \<Longrightarrow> m \<in> set ms \<Longrightarrow> n \<in> set ms \<Longrightarrow> m_UserID m = m_UserID n \<Longrightarrow> m = n"
  by (auto simp: members_ok_def distinct_map inj_on_def)

text \<open>The guard of an owner's operation names an accepted owner of the project it then updates.\<close>

lemma permitted_owner:
  assumes "permitted uid pid [RoleOwner] AcceptedInvitation db" "projects_ok (db_projects db)"
    "p \<in> set (db_projects db)" "p_ID p = pid"
  obtains m where "m \<in> set (p_Members p)" "m_UserID m = uid" "accepted_owner m"
proof -
  obtain q m where q: "q \<in> set (db_projects db)" "p_ID q = pid" and m: "m \<in> set (p_Members q)"
    "m_UserID m = uid" "accepted_owner m"
    using assms(1) unfolding owner_permitted accepted_owner_of_def by blast
  have "q = p" using same_project [OF assms(2) q(1) assms(3)] q(2) assms(4) by simp
  then show thesis using m that by blast
qed

lemma permitted_member:
  assumes "permitted uid pid roles i db" "projects_ok (db_projects db)"
    "p \<in> set (db_projects db)" "p_ID p = pid"
  obtains m where "m \<in> set (p_Members p)" "m_UserID m = uid" "m_Invitation m = i"
proof -
  obtain q m where q: "q \<in> set (db_projects db)" "p_ID q = pid" and m: "m \<in> set (p_Members q)"
    "m_UserID m = uid" "m_Invitation m = i"
    using assms(1) unfolding permitted_def has_membership_def rbac_filter_def by blast
  have "q = p" using same_project [OF assms(2) q(1) assms(3)] q(2) assms(4) by simp
  then show thesis using m that by blast
qed

lemma invite_kinds:
  "PendingInvitation \<noteq> AcceptedInvitation" "DeclinedInvitation \<noteq> AcceptedInvitation"
  "ExitedProject \<noteq> AcceptedInvitation" "PendingInvitation \<noteq> DeclinedInvitation"
  "PendingInvitation \<noteq> ExitedProject" "DeclinedInvitation \<noteq> ExitedProject"
  "PendingInvitation \<in> set invitations" "AcceptedInvitation \<in> set invitations"
  "DeclinedInvitation \<in> set invitations" "ExitedProject \<in> set invitations" "[] \<notin> set invitations"
  by (simp_all add: auth_consts)

lemma invite_change_simps:
  "invite_change now PendingInvitation (Some r) = Some (\<lambda>m. m\<lparr>m_Invitation := PendingInvitation, m_Role := r\<rparr>)"
  "invite_change now AcceptedInvitation role = Some (\<lambda>m. m\<lparr>m_Invitation := AcceptedInvitation, m_JoinedAt := now\<rparr>)"
  "invite_change now DeclinedInvitation role = Some (\<lambda>m. m\<lparr>m_Invitation := DeclinedInvitation\<rparr>)"
  "invite_change now ExitedProject role = Some (\<lambda>m. m\<lparr>m_Invitation := ExitedProject\<rparr>)"
  using invite_kinds by (auto simp: invite_change_def)

lemma project_ok_on_member:
  assumes "project_ok p" "m \<in> set (p_Members p)" "accepted_owner m" "m_UserID m = uid \<Longrightarrow> accepted_owner (g m)"
    "\<And>m. m_UserID (g m) = m_UserID m"
    "\<And>m. m_Role m \<in> set member_roles \<Longrightarrow> m_Role (g m) \<in> set member_roles"
    "\<And>m. m_Invitation m \<in> set invitations \<Longrightarrow> m_Invitation (g m) \<in> set invitations"
  shows "project_ok (on_member uid g p)"
  unfolding project_ok_def
proof
  show "members_ok (p_Members (on_member uid g p))"
    by (rule members_ok_on_member) (use assms in \<open>auto simp: project_ok_def\<close>)
  show "owned (p_Members (on_member uid g p))"
    using owned_on_member [OF assms(2,3)] assms(4) by blast
qed

lemma owner_exists: "project_ok p \<Longrightarrow> \<exists>m \<in> set (p_Members p). accepted_owner m"
  by (simp add: project_ok_def owned_def)

lemma valid_role_set: "valid_role r \<Longrightarrow> the r \<in> set member_roles \<and> r = Some (the r)"
  by (auto simp: valid_role_def member_roles_def split: option.splits)

lemma getInvitation_cases:
  assumes "env_ok e" "getInvitation e r s = Inr i" "projects_ok s"
  obtains p where "p \<in> set s" "p_ID p = mi_ProjectID r"
    "\<And>m. m \<in> set (p_Members p) \<Longrightarrow> m_UserID m = mi_UserID r \<Longrightarrow> m_Invitation m = i"
    "(\<forall>m \<in> set (p_Members p). m_UserID m \<noteq> mi_UserID r) \<or> i \<in> set invitations"
proof -
  obtain p where p: "FindOne (projectsC e) (\<lambda>p. p_ID p = mi_ProjectID r) s = Inr p"
    and i: "i = (case find (\<lambda>m. m_UserID m = mi_UserID r) (p_Members p) of None \<Rightarrow> [] | Some m \<Rightarrow> m_Invitation m)"
    using assms(2) by (auto simp: getInvitation_def GetProjectByProjectID_def split: sum.splits)
  have ps: "p \<in> set s" "p_ID p = mi_ProjectID r" using FindOne_ok [OF env_ok_projects [OF assms(1)] p] by auto
  have mok: "members_ok (p_Members p)" using projects_okD [OF assms(3) ps(1)] by (simp add: project_ok_def)
  show thesis
  proof (cases "find (\<lambda>m. m_UserID m = mi_UserID r) (p_Members p)")
    case None
    then have "\<forall>m \<in> set (p_Members p). m_UserID m \<noteq> mi_UserID r" by (simp add: find_None_iff)
    then show thesis using that [OF ps] by blast
  next
    case (Some n)
    have "i = m_Invitation n" using Some i by simp
    moreover have "n \<in> set (p_Members p)" "m_UserID n = mi_UserID r"
      using Some by (auto simp: find_Some_iff)
    ultimately have n: "n \<in> set (p_Members p)" "m_UserID n = mi_UserID r" "i = m_Invitation n" by simp_all
    have "m_Invitation m = i" if "m \<in> set (p_Members p)" "m_UserID m = mi_UserID r" for m
      using same_member [OF mok that(1) n(1)] that(2) n(2,3) by simp
    then show thesis using that [OF ps] n(1,3) mok by (simp add: members_ok_def)
  qed
qed

lemma removed_one_projects_ok: "projects_ok s \<Longrightarrow> removed_one q s s' \<Longrightarrow> projects_ok s'"
  by (auto simp: projects_ok_def removed_one_def)

section \<open>Every handler keeps the invariant\<close>

lemma SendInvitation_ok:
  assumes e: "env_ok e" and ok: "db_ok db"
  shows "db_ok (snd (SendInvitation e c req db))"
proof (cases req)
  case None
  then show ?thesis using ok by (simp add: SendInvitation_def)
next
  case (Some r)
  have pok: "projects_ok (db_projects db)" and uok: "users_ok (db_users db)" using ok by (auto simp: db_ok_def)
  have invite: "projects_ok ps"
    if g: "getInvitation e r (db_projects db) = Inr i" "i \<noteq> AcceptedInvitation" "i \<in> set invitations"
      and v: "valid_role (mi_Role r)"
      and w: "UpdateInvite e (mi_ProjectID r) (mi_UserID r) PendingInvitation (mi_Role r) (db_projects db) = (x, ps)"
    for i x ps
  proof (rule inviting.write_ok [OF e w pok])
    fix p assume p: "p \<in> set (db_projects db)" "p_ID p = mi_ProjectID r" "project_ok p"
    obtain q where q: "q \<in> set (db_projects db)" "p_ID q = mi_ProjectID r"
      "\<And>m. m \<in> set (p_Members q) \<Longrightarrow> m_UserID m = mi_UserID r \<Longrightarrow> m_Invitation m = i"
      using getInvitation_cases [OF e g(1) pok] by metis
    have "q = p" using same_project [OF pok q(1) p(1)] q(2) p(2) by simp
    obtain m where m: "m \<in> set (p_Members p)" "accepted_owner m" using owner_exists [OF p(3)] by blast
    then have ne: "m_UserID m \<noteq> mi_UserID r" using q(3) g(2) \<open>q = p\<close> by (auto simp: accepted_owner_def)
    obtain role where role: "mi_Role r = Some role" "role \<in> set member_roles"
      using valid_role_set [OF v] by (cases "mi_Role r") auto
    show "project_ok (invite_write e (mi_UserID r) PendingInvitation (mi_Role r) p)"
      using ne role invite_kinds(7)
      by (auto simp: invite_write_def invite_change_simps intro!: project_ok_on_member [OF p(3) m])
  qed
  have add: "projects_ok ps"
    if g: "getInvitation e r (db_projects db) = Inr i" "i \<notin> set invitations"
      and u: "GetUser_repo e (mi_UserID r) (db_users db) = Inr u" and v: "valid_role (mi_Role r)"
      and w: "AddMember e (mi_ProjectID r) (invited_member e u (the (mi_Role r))) (db_projects db) = (x, ps)"
    for i u x ps
  proof (rule adding.write_ok [OF e w pok])
    fix p assume p: "p \<in> set (db_projects db)" "p_ID p = mi_ProjectID r" "project_ok p"
    obtain q where q: "q \<in> set (db_projects db)" "p_ID q = mi_ProjectID r"
      "\<forall>m \<in> set (p_Members q). m_UserID m \<noteq> mi_UserID r"
      using getInvitation_cases [OF e g(1) pok] g(2) by metis
    have "q = p" using same_project [OF pok q(1) p(1)] q(2) p(2) by simp
    then show "project_ok (p\<lparr>p_Members := p_Members p @ [invited_member e u (the (mi_Role r))]\<rparr>)"
      using p(3) q(3) GetUser_ID [OF e u] valid_role_set [OF v] invite_kinds(7)
      by (auto simp: project_ok_def members_ok_def owned_def invited_member_def)
  qed
  have inv4: "i \<in> set invitations \<longleftrightarrow> i = AcceptedInvitation \<or> i = PendingInvitation \<or> i = DeclinedInvitation \<or> i = ExitedProject" for i
    by (auto simp: invitations_def)
  show ?thesis
    unfolding SendInvitation_def Some option.case
    by (intro rbac_gate_ok [where P = db_ok, OF e ok] login_gate_ok [where P = db_ok] ok)
       (use ok uok invite add inv4 in \<open>auto split: sum.splits intro!: save_ok [where P = db_ok]\<close>)
qed

lemma AcceptInvitation_ok:
  assumes e: "env_ok e" and ok: "db_ok db"
  shows "db_ok (snd (AcceptInvitation e c req db))"
proof (cases req)
  case None
  then show ?thesis using ok by (simp add: AcceptInvitation_def)
next
  case (Some r)
  have pok: "projects_ok (db_projects db)" and uok: "users_ok (db_users db)" using ok by (auto simp: db_ok_def)
  have "projects_ok ps"
    if w: "UpdateInvite e (mi_ProjectID r) (mi_UserID r) AcceptedInvitation None (db_projects db) = (x, ps)" for x ps
  proof (rule inviting.write_ok [OF e w pok])
    fix p assume p: "p \<in> set (db_projects db)" "project_ok p"
    obtain m where m: "m \<in> set (p_Members p)" "accepted_owner m" using owner_exists [OF p(2)] by blast
    then show "project_ok (invite_write e (mi_UserID r) AcceptedInvitation None p)"
      using invite_kinds(8)
      by (auto simp: invite_write_def invite_change_simps accepted_owner_def intro!: project_ok_on_member [OF p(2) m])
  qed
  then show ?thesis
    unfolding AcceptInvitation_def Some option.case
    by (intro login_gate_ok [where P = db_ok] rbac_gate_ok [where P = db_ok, OF e ok] ok) (use uok in \<open>auto intro!: save_ok [where P = db_ok]\<close>)
qed

text \<open>A truthful leaver or decliner of a project is never its last accepted owner.\<close>

lemma withdraw_ok:
  assumes e: "env_ok e" and pok: "projects_ok (db_projects db)" and k: "k = DeclinedInvitation \<or> k = ExitedProject"
    and w: "UpdateInvite e pid uid k None (db_projects db) = (x, ps)"
    and other: "\<And>p. p \<in> set (db_projects db) \<Longrightarrow> p_ID p = pid \<Longrightarrow> project_ok p \<Longrightarrow>
      \<exists>m \<in> set (p_Members p). accepted_owner m \<and> m_UserID m \<noteq> uid"
  shows "projects_ok ps"
proof (rule inviting.write_ok [OF e w pok])
  fix p assume p: "p \<in> set (db_projects db)" "p_ID p = pid" "project_ok p"
  obtain m where m: "m \<in> set (p_Members p)" "accepted_owner m" "m_UserID m \<noteq> uid" using other [OF p] by blast
  then show "project_ok (invite_write e uid k None p)"
    using k invite_kinds(9,10)
    by (auto simp: invite_write_def invite_change_simps intro!: project_ok_on_member [OF p(3) m(1,2)])
qed

lemma DeclineInvitation_ok:
  assumes e: "env_ok e" and ok: "db_ok db" and t: "truthful c (RDeclineInvitation req) db"
  shows "db_ok (snd (DeclineInvitation e c req db))"
proof (cases req)
  case None
  then show ?thesis using ok by (simp add: DeclineInvitation_def)
next
  case (Some r)
  have pok: "projects_ok (db_projects db)" and uok: "users_ok (db_users db)" using ok by (auto simp: db_ok_def)
  have t: "mi_UserID r = ctx_uid c" using t Some by simp
  have "projects_ok ps"
    if perm: "permitted (ctx_uid c) (mi_ProjectID r) (MutationRbacRules ''declineInvitation'') PendingInvitation db"
      and w: "UpdateInvite e (mi_ProjectID r) (mi_UserID r) DeclinedInvitation None (db_projects db) = (x, ps)" for x ps
  proof (rule withdraw_ok [OF e pok disjI1 [OF refl] w])
    fix p assume p: "p \<in> set (db_projects db)" "p_ID p = mi_ProjectID r" "project_ok p"
    obtain m where m: "m \<in> set (p_Members p)" "accepted_owner m" using owner_exists [OF p(3)] by blast
    obtain n where n: "n \<in> set (p_Members p)" "m_UserID n = ctx_uid c" "m_Invitation n = PendingInvitation"
      using permitted_member [OF perm pok p(1,2)] by blast
    have "m_UserID m \<noteq> mi_UserID r"
      using same_member [OF _ m(1) n(1)] p(3) m(2) n(2,3) t invite_kinds(1)
      by (auto simp: project_ok_def accepted_owner_def)
    then show "\<exists>m \<in> set (p_Members p). accepted_owner m \<and> m_UserID m \<noteq> mi_UserID r" using m by blast
  qed
  then show ?thesis
    unfolding DeclineInvitation_def Some option.case
    by (intro login_gate_ok [where P = db_ok] rbac_gate_ok [where P = db_ok, OF e ok] ok) (use uok in \<open>auto intro!: save_ok [where P = db_ok]\<close>)
qed


lemma LeaveProject_ok:
  assumes e: "env_ok e" and ok: "db_ok db" and t: "truthful c (RLeaveProject req) db"
  shows "db_ok (snd (LeaveProject e c req db))"
proof (cases req)
  case None
  then show ?thesis using ok by (simp add: LeaveProject_def)
next
  case (Some r)
  have pok: "projects_ok (db_projects db)" and uok: "users_ok (db_users db)" using ok by (auto simp: db_ok_def)
  have t: "mi_UserID r = ctx_uid c" "role_stated c r db" using t Some by simp_all
  have leave: "projects_ok ps"
    if perm: "permitted (ctx_uid c) (mi_ProjectID r) (MutationRbacRules ''leaveProject'') AcceptedInvitation db"
      and own: "mi_Role r = Some RoleOwner \<Longrightarrow> \<exists>os. GetProjectOwners e (mi_ProjectID r) (db_projects db) = Inr os \<and> length os \<noteq> 1"
      and w: "UpdateInvite e (mi_ProjectID r) (mi_UserID r) ExitedProject None (db_projects db) = (x, ps)" for x ps
  proof (rule withdraw_ok [OF e pok disjI2 [OF refl] w])
    fix p assume p: "p \<in> set (db_projects db)" "p_ID p = mi_ProjectID r" "project_ok p"
    have mok: "members_ok (p_Members p)" using p(3) by (simp add: project_ok_def)
    obtain m where m: "m \<in> set (p_Members p)" "accepted_owner m" using owner_exists [OF p(3)] by blast
    obtain n where n: "n \<in> set (p_Members p)" "m_UserID n = ctx_uid c" "m_Invitation n = AcceptedInvitation"
      using permitted_member [OF perm pok p(1,2)] by blast
    have role: "mi_Role r = Some (m_Role n)" using t(2) p(1,2) n(1,2) by (auto simp: role_stated_def)
    show "\<exists>m \<in> set (p_Members p). accepted_owner m \<and> m_UserID m \<noteq> mi_UserID r"
    proof (cases "m_Role n = RoleOwner")
      case False
      then have "m_UserID m \<noteq> mi_UserID r"
        using same_member [OF mok m(1) n(1)] m(2) n(2) t(1) by (auto simp: accepted_owner_def)
      then show ?thesis using m by blast
    next
      case True
      then obtain os where os: "GetProjectOwners e (mi_ProjectID r) (db_projects db) = Inr os" "length os \<noteq> 1"
        using own role by auto
      then obtain q where q: "FindOne (projectsC e) (\<lambda>p. p_ID p = mi_ProjectID r) (db_projects db) = Inr q"
        "os = filter accepted_owner (p_Members q)"
        by (auto simp: GetProjectOwners_def split: sum.splits)
      have "q \<in> set (db_projects db)" "p_ID q = p_ID p"
        using FindOne_ok [OF env_ok_projects [OF e] q(1)] p(2) by simp_all
      then have "q = p" by (rule same_project [OF pok _ p(1)])
      show ?thesis
      proof (rule ccontr)
        assume no: "\<not> ?thesis"
        have os_eq: "os = filter accepted_owner (p_Members p)" using q(2) \<open>q = p\<close> by simp
        have "m = n" if "m \<in> set os" for m
        proof -
          have m: "m \<in> set (p_Members p)" "accepted_owner m" using that os_eq by simp_all
          then have "m_UserID m = m_UserID n" using no n(2) t(1) by auto
          then show ?thesis by (rule same_member [OF mok m(1) n(1)])
        qed
        moreover have "n \<in> set os" using os_eq n True by (simp add: accepted_owner_def)
        ultimately have "set os = {n}" by blast
        moreover have "distinct os" using mok os_eq by (simp add: members_ok_def distinct_map)
        ultimately show False using os(2) distinct_card [of os] by simp
      qed
    qed
  qed
  have gate: "db_ok (snd (initial_login_gate e (ctx_uid c) db
      (rbac_gate e (ctx_uid c) (mi_ProjectID r) ''leaveProject'' AcceptedInvitation db
      (save_projects db (UpdateInvite e (mi_ProjectID r) (mi_UserID r) ExitedProject None (db_projects db)) k))))"
    if own: "mi_Role r = Some RoleOwner \<Longrightarrow> \<exists>os. GetProjectOwners e (mi_ProjectID r) (db_projects db) = Inr os \<and> length os \<noteq> 1"
    for k
    by (intro login_gate_ok [where P = db_ok] rbac_gate_ok [where P = db_ok, OF e ok] ok)
       (use uok leave own in \<open>auto intro!: save_ok [where P = db_ok]\<close>)
  show ?thesis
    unfolding LeaveProject_def Some option.case Let_def
    using gate ok by (auto split: sum.splits)
qed

lemma RemoveInvitation_ok:
  assumes e: "env_ok e" and ok: "db_ok db"
  shows "db_ok (snd (RemoveInvitation e c req db))"
proof (cases req)
  case None
  then show ?thesis using ok by (simp add: RemoveInvitation_def)
next
  case (Some r)
  have pok: "projects_ok (db_projects db)" and uok: "users_ok (db_users db)" using ok by (auto simp: db_ok_def)
  have "projects_ok ps"
    if perm: "permitted (ctx_uid c) (mi_ProjectID r) [RoleOwner] AcceptedInvitation db" and ne: "ctx_uid c \<noteq> mi_UserID r"
      and w: "RemoveInvitation_repo e (mi_ProjectID r) (mi_UserID r) i (db_projects db) = (x, ps)" for i x ps
  proof (rule removing.write_ok [OF e w pok])
    fix p assume p: "p \<in> set (db_projects db)" "p_ID p = mi_ProjectID r" "project_ok p"
    obtain m where m: "m \<in> set (p_Members p)" "m_UserID m = ctx_uid c" "accepted_owner m"
      using permitted_owner [OF perm pok p(1,2)] by blast
    have "distinct (map m_UserID (filter (\<lambda>m. m_UserID m \<noteq> mi_UserID r) (p_Members p)))"
      using p(3) by (auto simp: project_ok_def members_ok_def distinct_map inj_on_def)
    then show "project_ok (p\<lparr>p_Members := filter (\<lambda>m. m_UserID m \<noteq> mi_UserID r) (p_Members p)\<rparr>)"
      using p(3) m ne by (auto simp: project_ok_def members_ok_def owned_def)
  qed
  then show ?thesis
    unfolding RemoveInvitation_def Some option.case
    using ok uok owner_rules
    by (auto split: sum.splits intro!: login_gate_ok [where P = db_ok] rbac_gate_ok [where P = db_ok, OF e ok] save_ok [where P = db_ok])
qed

lemma UpdateProjectName_ok:
  assumes e: "env_ok e" and ok: "db_ok db"
  shows "db_ok (snd (UpdateProjectName e c req db))"
proof (cases req)
  case None
  then show ?thesis using ok by (simp add: UpdateProjectName_def)
next
  case (Some r)
  have pok: "projects_ok (db_projects db)" and uok: "users_ok (db_users db)" using ok by (auto simp: db_ok_def)
  have "projects_ok ps"
    if w: "UpdateProjectName_repo e (pi_ProjectID r) (pi_ProjectName r) (db_projects db) = (x, ps)" for x ps
    by (rule renaming.write_ok [OF e w pok]) (simp add: project_ok_def)
  then show ?thesis
    unfolding UpdateProjectName_def Some option.case
    using ok uok
    by (auto split: sum.splits intro!: login_gate_ok [where P = db_ok] rbac_gate_ok [where P = db_ok, OF e ok] save_ok [where P = db_ok])
qed

lemma UpdateMemberRole_ok:
  assumes e: "env_ok e" and ok: "db_ok db"
  shows "db_ok (snd (UpdateMemberRole e c req db))"
proof (cases req)
  case None
  then show ?thesis using ok by (simp add: UpdateMemberRole_def)
next
  case (Some r)
  have pok: "projects_ok (db_projects db)" and uok: "users_ok (db_users db)" using ok by (auto simp: db_ok_def)
  have "projects_ok ps"
    if perm: "permitted (ctx_uid c) (mi_ProjectID r) [RoleOwner] AcceptedInvitation db" and ne: "ctx_uid c \<noteq> mi_UserID r"
      and v: "valid_role (mi_Role r)"
      and w: "UpdateMemberRole_repo e (mi_ProjectID r) (mi_UserID r) (the (mi_Role r)) (db_projects db) = (x, ps)" for x ps
  proof (rule changing_role.write_ok [OF e w pok])
    fix p assume p: "p \<in> set (db_projects db)" "p_ID p = mi_ProjectID r" "project_ok p"
    obtain m where m: "m \<in> set (p_Members p)" "m_UserID m = ctx_uid c" "accepted_owner m"
      using permitted_owner [OF perm pok p(1,2)] by blast
    show "project_ok (on_member (mi_UserID r) (\<lambda>m. m\<lparr>m_Role := the (mi_Role r)\<rparr>) p)"
      by (rule project_ok_on_member [OF p(3) m(1,3)]) (use m(2) ne valid_role_set [OF v] in auto)
  qed
  then show ?thesis
    unfolding UpdateMemberRole_def Some option.case
    using ok uok owner_rules
    by (auto intro!: rbac_gate_ok [where P = db_ok, OF e ok] save_ok [where P = db_ok])
qed

lemma DeleteProject_ok:
  assumes e: "env_ok e" and ok: "db_ok db"
  shows "db_ok (snd (DeleteProject e c pid db))"
proof -
  have pok: "projects_ok (db_projects db)" and uok: "users_ok (db_users db)" using ok by (auto simp: db_ok_def)
  have "projects_ok ps" if w: "DeleteProject_repo e pid (db_projects db) = (x, ps)" for x ps
  proof -
    obtain r where "DeleteOne (projectsC e) (\<lambda>p. p_ID p = pid) (db_projects db) = (r, ps)"
      using w by (auto simp: DeleteProject_repo_def split: prod.splits sum.splits)
    then show ?thesis using pok DeleteOne_cases [OF env_ok_projects [OF e]]
      by (metis (no_types, lifting) removed_one_projects_ok)
  qed
  then show ?thesis
    unfolding DeleteProject_def using ok uok
    by (auto intro!: rbac_gate_ok [where P = db_ok, OF e ok] save_ok [where P = db_ok])
qed


lemma insert_project_ok:
  assumes e: "env_ok e" and w: "CreateProject_repo e p s = (r, s')" and ok: "projects_ok s" "project_ok p"
  shows "projects_ok s'"
proof -
  obtain x where i: "InsertOne (projectsC e) p s = (x, s')"
    using w by (auto simp: CreateProject_repo_def split: prod.splits option.splits)
  show ?thesis
    by (rule InsertOne_cases [OF env_ok_projects [OF e] i])
      (use ok in \<open>auto simp: projects_ok_def project_clash_def\<close>)
qed

lemma new_project_ok:
  "project_ok (created_project e u r)" "project_ok (default_new_project e u)"
  by (simp_all add: project_ok_def members_ok_def owned_def accepted_owner_def created_project_def
      default_new_project_def auth_consts)

lemma CreateProject_ok:
  assumes e: "env_ok e" and ok: "db_ok db"
  shows "db_ok (snd (CreateProject e c req db))"
proof (cases req)
  case None
  then show ?thesis using ok by (simp add: CreateProject_def)
next
  case (Some r)
  have "projects_ok ps" if "CreateProject_repo e (created_project e u r) (db_projects db) = (x, ps)" for u x ps
    using insert_project_ok [OF e that _ new_project_ok(1)] ok by (simp add: db_ok_def)
  moreover have "users_ok (db_users db)" using ok by (simp add: db_ok_def)
  ultimately show ?thesis
    unfolding CreateProject_def Some option.case using ok
    by (auto split: sum.splits intro!: login_gate_ok [where P = db_ok] save_ok [where P = db_ok])
qed

lemma default_project_ok:
  assumes e: "env_ok e" and ok: "db_ok db" and w: "default_project e u db = (r, db')"
  shows "db_ok db'" "db_users db' = db_users db"
proof -
  have ins: "projects_ok ps" if "CreateProject_repo e (default_new_project e u) (db_projects db) = (x, ps)" for x ps
    using insert_project_ok [OF e that _ new_project_ok(2)] ok by (simp add: db_ok_def)
  show "db_ok db'" "db_users db' = db_users db"
    using w ok ins by (auto simp: default_project_def Let_def db_ok_def split: list.splits prod.splits option.splits)
qed

text \<open>Writes to the users keep identifiers and names.\<close>

lemma users_ok_cong: "map u_ID s' = map u_ID s \<Longrightarrow> map u_Username s' = map u_Username s \<Longrightarrow> users_ok s \<Longrightarrow> users_ok s'"
  by (simp add: users_ok_def)

lemma UpdateOne_users_ok:
  assumes "env_ok e" "UpdateOne (usersC e) q f s = (r, s')" "users_ok s"
    "\<And>u. u_ID (f u) = u_ID u" "\<And>u. u_Username (f u) = u_Username u"
  shows "users_ok s'"
  using UpdateOne_or [OF env_ok_users [OF assms(1)] assms(2)]
proof
  assume "replaced_one q f s s'"
  then show ?thesis
    using replaced_one_map_key [of q f s s' u_ID] replaced_one_map_key [of q f s s' u_Username] assms(3-5)
    by (metis users_ok_cong)
qed (use assms(3) in simp)

lemma UpdateMany_users_ok:
  assumes "env_ok e" "UpdateMany (usersC e) q f s = (r, s')" "users_ok s"
    "\<And>u. u_ID (f u) = u_ID u" "\<And>u. u_Username (f u) = u_Username u"
  shows "users_ok s'"
proof -
  have "list_all2 (\<lambda>d d'. d' = d \<or> q d \<and> d' = f d) s s'"
    by (rule UpdateMany_rel [OF env_ok_users [OF assms(1)] assms(2)])
  then have "map u_ID s' = map u_ID s \<and> map u_Username s' = map u_Username s"
    using assms(4,5) by (induction rule: list_all2_induct) auto
  then show ?thesis using assms(3) users_ok_cong by blast
qed

lemma insert_user_ok:
  assumes "env_ok e" "InsertOne (usersC e) u s = (r, s')" "users_ok s"
  shows "users_ok s'"
  by (rule InsertOne_cases [OF env_ok_users [OF assms(1)] assms(2)])
    (use assms(3) in \<open>auto simp: users_ok_def user_clash_def\<close>)

lemma UpdatePassword_repo_ok:
  assumes e: "env_ok e" and w: "UpdatePassword_repo e r b s = (x, s')" and ok: "users_ok s"
  shows "users_ok s'"
proof -
  have full: "users_ok s'" if "UpdateOne (usersC e) q (\<lambda>v. v\<lparr>u_Password := h, u_IsInitialLogin := False\<rparr>) s = (y, s')"
    for q h y s'
    by (rule UpdateOne_users_ok [OF e that ok]) simp_all
  have pw: "users_ok s'" if "UpdateOne (usersC e) q (\<lambda>v. v\<lparr>u_Password := h\<rparr>) s = (y, s')"
    for q h y s'
    by (rule UpdateOne_users_ok [OF e that ok]) simp_all
  show ?thesis
    using w ok
    by (auto simp: UpdatePassword_repo_def Let_def split: sum.splits prod.splits if_splits dest: full pw)
qed

lemma LoginUser_repo_ok:
  assumes e: "env_ok e" and w: "LoginUser_repo e u s = (x, s')" and ok: "users_ok s"
  shows "users_ok s'"
  using w ok by (auto simp: LoginUser_repo_def Let_def split: sum.splits prod.splits option.splits if_splits
      dest: insert_user_ok [OF e])

text \<open>The state transaction writes audit and deactivation fields only.\<close>

lemma project_ok_set_removed [simp]:
  "project_ok (set_removed b p) = project_ok p"
  "p_ID (set_removed b p) = p_ID p"
  by (simp_all add: project_ok_def set_removed_def)

lemma project_ok_deactivated: "project_ok p \<Longrightarrow> project_ok (on_member uid (\<lambda>m. m\<lparr>m_DeactivatedAt := d\<rparr>) p)"
  using owner_exists [of p] by (auto simp: accepted_owner_def intro: project_ok_on_member)

lemma UpdateMany_projects_ok:
  assumes "env_ok e" "UpdateMany (projectsC e) q f s = (r, s')" "projects_ok s"
    "\<And>p. p_ID (f p) = p_ID p" "\<And>p. project_ok p \<Longrightarrow> project_ok (f p)"
  shows "projects_ok s'"
proof -
  have rel: "list_all2 (\<lambda>d d'. d' = d \<or> q d \<and> d' = f d) s s'"
    by (rule UpdateMany_rel [OF env_ok_projects [OF assms(1)] assms(2)])
  then have "map p_ID s' = map p_ID s" using assms(4) by (induction rule: list_all2_induct) auto
  moreover have "(\<forall>p \<in> set s. project_ok p) \<longrightarrow> (\<forall>p \<in> set s'. project_ok p)"
    using rel assms(5) by (induction rule: list_all2_induct) auto
  ultimately show ?thesis using assms(3) by (simp add: projects_ok_def)
qed

lemma UpdateProjectState_ok:
  assumes e: "env_ok e" and w: "UpdateProjectState e uid t b s = (x, s')" and ok: "projects_ok s"
  shows "projects_ok s'"
proof -
  obtain r1 s1 where w1: "UpdateMany (projectsC e) (\<lambda>_. True)
      (on_member uid (\<lambda>m. m\<lparr>m_DeactivatedAt := Some t\<rparr>)) s = (r1, s1)" by fastforce
  have ok1: "projects_ok s1"
    by (rule UpdateMany_projects_ok [OF e w1 ok]) (simp_all add: project_ok_deactivated)
  obtain r2 s2 where w2: "UpdateMany (projectsC e) (owner_in uid) (set_removed b) s1 = (r2, s2)" by fastforce
  have ok2: "projects_ok s2" by (rule UpdateMany_projects_ok [OF e w2 ok1]) simp_all
  show ?thesis using w w1 w2 ok1 ok2
    by (auto simp: UpdateProjectState_def split: sum.splits)
qed

text \<open>All or nothing: the database is untouched, or both collections are written.\<close>

lemma UpdateStateTransaction_cases:
  assumes e: "env_ok e" and w: "UpdateStateTransaction e name b db = (x, db')"
  obtains "db' = db" "x \<noteq> None" | u us ps where "FindUserByUsername e name (db_users db) = Inr u" "u_Role u \<noteq> RoleAdmin"
    "b \<longrightarrow> u_DeactivatedAt u = None"
    "UpdateUserState_repo e name b (if b then clock e else 0) (db_users db) = (None, us)"
    "UpdateProjectState e (u_ID u) (if b then clock e else 0) b (db_projects db) = (None, ps)"
    "db' = db\<lparr>db_users := us, db_projects := ps\<rparr>"
proof -
  have commit: "snd (commitTx e s t) = s \<and> fst (commitTx e s t) \<noteq> None \<or> snd (commitTx e s t) = t" for s t
    using e unfolding env_ok_def by metis
  consider "db' = db" "x \<noteq> None" | u us ps where "FindUserByUsername e name (db_users db) = Inr u"
    "u_Role u \<noteq> RoleAdmin" "b \<longrightarrow> u_DeactivatedAt u = None"
    "UpdateUserState_repo e name b (if b then clock e else 0) (db_users db) = (None, us)"
    "UpdateProjectState e (u_ID u) (if b then clock e else 0) b (db_projects db) = (None, ps)"
    "commitTx e db (db\<lparr>db_users := us, db_projects := ps\<rparr>) = (x, db')"
    using w unfolding UpdateStateTransaction_def Let_def
    by (simp split: option.splits sum.splits prod.splits if_split_asm) (blast | metis)+
  then show thesis
  proof cases
    case 2
    then show thesis using commit [of db "db\<lparr>db_users := us, db_projects := ps\<rparr>"] that
      by (metis fst_conv snd_conv)
  qed (use that in blast)
qed

lemma UpdateStateTransaction_ok:
  assumes e: "env_ok e" and ok: "db_ok db" and w: "UpdateStateTransaction e name b db = (x, db')"
  shows "db_ok db'"
proof (rule UpdateStateTransaction_cases [OF e w])
  fix u us ps
  assume us: "UpdateUserState_repo e name b (if b then clock e else 0) (db_users db) = (None, us)"
    and ps: "UpdateProjectState e (u_ID u) (if b then clock e else 0) b (db_projects db) = (None, ps)"
    and db': "db' = db\<lparr>db_users := us, db_projects := ps\<rparr>"
  obtain n where n: "UpdateOne (usersC e) (\<lambda>u. u_Username u = name)
      (set_user_state b (if b then clock e else 0)) (db_users db) = (n, us)"
    using us by (auto simp: UpdateUserState_repo_def split: sum.splits prod.splits)
  have "users_ok us"
    by (rule UpdateOne_users_ok [OF e n]) (use ok in \<open>simp_all add: db_ok_def set_user_state_def\<close>)
  moreover have "projects_ok ps" using UpdateProjectState_ok [OF e ps] ok by (simp add: db_ok_def)
  ultimately show ?thesis using db' by (simp add: db_ok_def)
qed (use ok in simp)


lemma db_ok_users [simp]: "db_ok (db\<lparr>db_users := us\<rparr>) \<longleftrightarrow> projects_ok (db_projects db) \<and> users_ok us"
  by (simp add: db_ok_def)

lemma db_ok_cong: "db_users db' = db_users db \<Longrightarrow> db_projects db' = db_projects db \<Longrightarrow> db_ok db' = db_ok db"
  by (simp add: db_ok_def)

lemma CreateUser_ok:
  assumes e: "env_ok e" and ok: "db_ok db"
  shows "db_ok (snd (CreateUser e c req db))"
proof -
  have ins: "users_ok us" if "CreateUser_repo e u (db_users db) = (x, us)" for u x us
  proof -
    obtain y where "InsertOne (usersC e) u (db_users db) = (y, us)"
      using \<open>CreateUser_repo e u (db_users db) = (x, us)\<close>
      by (auto simp: CreateUser_repo_def split: prod.splits option.splits)
    then show ?thesis using insert_user_ok [OF e] ok by (simp add: db_ok_def)
  qed
  have pok: "projects_ok (db_projects db)" using ok by (simp add: db_ok_def)
  show ?thesis using ok pok
    by (auto simp: CreateUser_def Let_def split: option.splits prod.splits sum.splits dest: ins)
qed

lemma UpdateUser_ok:
  assumes e: "env_ok e" and ok: "db_ok db"
  shows "db_ok (snd (UpdateUser e c req db))"
proof -
  have upd: "users_ok us" if "UpdateUser_repo e d (db_users db) = (x, us)" for d x us
  proof -
    obtain y where y: "UpdateMany (usersC e) (\<lambda>u. u_ID u = us_ID d)
             (\<lambda>u. u\<lparr>u_Email := (if us_Email d = [] then u_Email u else us_Email d),
                    u_Name := (if us_Name d = [] then u_Name u else us_Name d)\<rparr>) (db_users db) = (y, us)"
      using \<open>UpdateUser_repo e d (db_users db) = (x, us)\<close>
      by (auto simp: UpdateUser_repo_def split: prod.splits sum.splits)
    show ?thesis by (rule UpdateMany_users_ok [OF e y]) (use ok in \<open>simp_all add: db_ok_def\<close>)
  qed
  have pok: "projects_ok (db_projects db)" using ok by (simp add: db_ok_def)
  show ?thesis using ok pok
    by (auto simp: UpdateUser_def split: option.splits prod.splits
        intro!: login_gate_ok [where P = db_ok] dest: upd)
qed

lemma LoginUser_ok:
  assumes e: "env_ok e" and ok: "db_ok db"
  shows "db_ok (snd (LoginUser e req db))"
  using ok default_project_ok(1) [OF e ok]
  by (auto simp: LoginUser_def Let_def split: option.splits sum.splits prod.splits)

lemma LogoutUser_ok:
  assumes ok: "db_ok db"
  shows "db_ok (snd (LogoutUser e h db))"
proof -
  have "db_ok db'" if "RevokeToken e tok db = (r, db')" for tok r db'
    using RevokeToken_frame [OF that] ok db_ok_cong by blast
  then show ?thesis using ok by (auto simp: LogoutUser_def split: option.splits prod.splits)
qed

lemma dex_session_ok:
  assumes e: "env_ok e" and ok: "db_ok db"
  shows "db_ok (snd (dex_session e name email db))"
proof -
  have login: "db_ok (db\<lparr>db_users := us\<rparr>)"
    if "LoginUser_repo e (dex_user e name email) (db_users db) = (x, us)" for x us
    using LoginUser_repo_ok [OF e that] ok by (simp add: db_ok_def)
  show ?thesis
    using login default_project_ok(1) [OF e]
    by (auto simp: dex_session_def Let_def split: option.splits sum.splits prod.splits)
       (metis db_ok_users)+
qed

lemma DexCallback_ok: "env_ok e \<Longrightarrow> db_ok db \<Longrightarrow> db_ok (snd (DexCallback e state code db))"
  using dex_session_ok [of e db]
  by (auto simp: DexCallback_def Let_def split: option.splits sum.splits prod.splits) (metis snd_conv)+

lemma UpdatePassword_ok:
  assumes e: "env_ok e" and ok: "db_ok db"
  shows "db_ok (snd (UpdatePassword e c req db))"
proof -
  have pw: "db_ok (db\<lparr>db_users := us\<rparr>)" if "UpdatePassword_repo e r b (db_users db) = (x, us)" for r b x us
    using UpdatePassword_repo_ok [OF e that] ok by (simp add: db_ok_def)
  have dflt: "db_ok db'"
    if "UpdatePassword_repo e r b (db_users db) = (x, us)" "default_project e u (db\<lparr>db_users := us\<rparr>) = (y, db')"
    for r b x us u y db'
    by (rule default_project_ok(1) [OF e pw [OF that(1)] that(2)])
  show ?thesis
    using ok pw dflt by (auto simp: UpdatePassword_def simp del: db_ok_users split: option.splits sum.splits prod.splits)
qed

lemma ResetPassword_ok:
  assumes e: "env_ok e" and ok: "db_ok db"
  shows "db_ok (snd (ResetPassword e c req db))"
proof -
  have pw: "db_ok (db\<lparr>db_users := us\<rparr>)" if "UpdatePassword_repo e r b (db_users db) = (x, us)" for r b x us
    using UpdatePassword_repo_ok [OF e that] ok by (simp add: db_ok_def)
  show ?thesis
    using ok pw by (auto simp: ResetPassword_def simp del: db_ok_users split: option.splits prod.splits
        intro!: login_gate_ok [where P = db_ok])
qed

lemma UpdateUserState_ok:
  assumes e: "env_ok e" and ok: "db_ok db"
  shows "db_ok (snd (UpdateUserState e c req db))"
  using ok UpdateStateTransaction_ok [OF e ok]
  by (auto simp: UpdateUserState_def split: option.splits prod.splits intro!: login_gate_ok [where P = db_ok])

lemma CreateApiToken_ok:
  assumes ok: "db_ok db"
  shows "db_ok (snd (CreateApiToken e c req db))"
proof -
  have "db_ok db'" if "CreateApiToken_service e u r db = (x, db')" for u r x db'
    using CreateApiToken_service_frame [OF that] ok db_ok_cong by blast
  then show ?thesis
    using ok by (auto simp: CreateApiToken_def split: option.splits sum.splits prod.splits
        intro!: login_gate_ok [where P = db_ok])
qed

lemma DeleteApiToken_ok:
  assumes ok: "db_ok db"
  shows "db_ok (snd (DeleteApiToken e c req db))"
proof -
  have tok: "db_ok (db\<lparr>db_tokens := ts\<rparr>)" for ts using ok by (simp add: db_ok_def)
  have "db_ok db'" if "RevokeToken e t (db\<lparr>db_tokens := ts\<rparr>) = (r, db')" for t ts r db'
    using RevokeToken_frame [OF that] tok [of ts] db_ok_cong by blast
  then show ?thesis
    using ok tok by (auto simp: DeleteApiToken_def split: option.splits prod.splits
        intro!: login_gate_ok [where P = db_ok])
qed

lemmas handler_ok =
  CreateProject_ok SendInvitation_ok AcceptInvitation_ok DeclineInvitation_ok LeaveProject_ok
  RemoveInvitation_ok UpdateProjectName_ok UpdateMemberRole_ok DeleteProject_ok CreateUser_ok UpdateUser_ok
  LoginUser_ok LogoutUser_ok DexCallback_ok UpdatePassword_ok ResetPassword_ok UpdateUserState_ok
  CreateApiToken_ok DeleteApiToken_ok

lemma handle_ok: "env_ok e \<Longrightarrow> db_ok db \<Longrightarrow> truthful c req db \<Longrightarrow> db_ok (snd (handle e c req db))"
  by (cases req) (simp_all add: handler_ok)

lemma step_ok: "auth_step db db' \<Longrightarrow> db_ok db \<Longrightarrow> db_ok db'"
  by (elim auth_stepE) (use handle_ok in blast)

lemma empty_db_ok: "db_ok empty_db"
  by (simp add: empty_db_def db_ok_def projects_ok_def users_ok_def)

lemma steps_ok: "auth_steps db db' \<Longrightarrow> db_ok db \<Longrightarrow> db_ok db'"
  by (induction rule: auth_steps.induct) (auto dest: step_ok)

end
