(* ===== verification/Auth_Properties.thy ===== *)
theory Auth_Properties
  imports Auth_Machine
begin

text \<open>
  What holds of the authentication service: the properties over its state machine and its
  handlers, each with an instance on an in-memory environment.
\<close>

section \<open>An in-memory instance\<close>

text \<open>
  Collections as lists that never fail, tokens that carry their user name, and a project \<open>p1\<close> owned
  by \<open>al\<close>, viewed by \<open>bo\<close>, with an invitation pending for \<open>cy\<close>.
\<close>

definition mem_env :: env where
  "mem_env = \<lparr>usersC = list_coll user_clash, projectsC = list_coll project_clash,
     revokedC = list_coll (\<lambda>_ _. False), tokensC = list_coll (\<lambda>_ _. False), configC = list_coll (\<lambda>_ _. False),
     aggregatePage = (\<lambda>_ _ _. Inr (None, [])), regexMatch = (\<lambda>_ _. True), clock = 7, newUUID = ''n'',
     hashPassword = Inr, compareHash = (=), b64decode = Inr,
     jwtSign = (\<lambda>c _. Inr (c_username c)),
     jwtParse = (\<lambda>k t. case k of Inl err \<Rightarrow> Inl err
        | Inr _ \<Rightarrow> Inr \<lparr>c_uid = Some t, c_username = t, c_role = RoleUser, c_exp = Some 9\<rparr>),
     mailOk = (\<lambda>_. True), oauthStateOk = (\<lambda>_. False), dexConfig = None,
     dexExchange = (\<lambda>code. Inr (Some code)), dexVerify = (\<lambda>raw. Inr (raw, raw)),
     addDays = (\<lambda>d. d), expiry = 9, startSession = None, startTransaction = None,
     commitTx = (\<lambda>_ t. (None, t))\<rparr>"

lemma mem_env_ok: "env_ok mem_env"
  by (simp add: env_ok_def mem_env_def list_coll_ok)

lemma mem_env_up: "reads_up mem_env"
  by (auto simp: reads_up_def mem_env_def list_coll_def split: list.splits)

definition mem_audit :: audit where
  "mem_audit = \<lparr>a_UpdatedAt = 0, a_CreatedAt = 0, a_CreatedBy = zero_detail, a_UpdatedBy = zero_detail, a_IsRemoved = False\<rparr>"

definition mem_user :: "string \<Rightarrow> string \<Rightarrow> user" where
  "mem_user n role = \<lparr>u_Audit = mem_audit, u_ID = n, u_Username = n, u_Password = n, u_Salt = [], u_Email = [],
     u_Name = n, u_Role = role, u_DeactivatedAt = None, u_IsInitialLogin = False\<rparr>"

definition mem_member :: "string \<Rightarrow> string \<Rightarrow> string \<Rightarrow> member" where
  "mem_member n role i = \<lparr>m_UserID = n, m_Username = n, m_Email = [], m_Name = n, m_Role = role,
     m_Invitation = i, m_JoinedAt = 0, m_DeactivatedAt = None\<rparr>"

definition mem_project :: project where
  "mem_project = \<lparr>p_Audit = mem_audit, p_ID = ''p1'', p_Name = ''p1'',
     p_Members = [mem_member ''al'' RoleOwner AcceptedInvitation, mem_member ''bo'' RoleViewer AcceptedInvitation,
                  mem_member ''cy'' RoleExecutor PendingInvitation],
     p_State = None, p_Tags = [], p_Description = None\<rparr>"

definition mem_db :: auth_db where
  "mem_db = \<lparr>db_users = [mem_user ''al'' RoleUser, mem_user ''bo'' RoleUser, mem_user ''cy'' RoleUser, mem_user ''ad'' RoleAdmin],
     db_projects = [mem_project], db_revoked = [], db_tokens = [],
     db_config = [\<lparr>ac_Key = ''salt'', ac_Value = ''s''\<rparr>]\<rparr>"

definition mem_caller :: "string \<Rightarrow> caller" where
  "mem_caller n = \<lparr>ctx_uid = n, ctx_username = n, ctx_role = RoleUser\<rparr>"

lemmas mem_defs = mem_env_def mem_audit_def mem_user_def mem_member_def mem_project_def mem_db_def mem_caller_def
  list_coll_def auth_consts

lemmas repo_defs = GetProjectByProjectID_def GetProjects_def update_matched_def UpdateInvite_def invite_change_def
  on_member_def GetUser_repo_def GetConfig_def FindUserByUsername_def SanitizedUser_def

lemmas guard_defs = initial_login_gate_def rbac_gate_def save_projects_def RbacValidator_def rbac_filter_def
  CheckInitialLogin_def MutationRbacRules_def

lemma mem_db_ok: "db_ok mem_db"
  by (simp add: db_ok_def users_ok_def projects_ok_def project_ok_def members_ok_def owned_def accepted_owner_def
      mem_defs)

section \<open>The projects\<close>


definition leave_request :: "string \<Rightarrow> string option \<Rightarrow> member_input" where
  "leave_request uid role = \<lparr>mi_ProjectID = ''p1'', mi_UserID = uid, mi_Role = role\<rparr>"

lemma leave_step: "auth_step mem_db (snd (handle mem_env (mem_caller ''bo'') (RLeaveProject (Some (leave_request ''bo'' (Some RoleViewer)))) mem_db))"
  by (rule auth_step.intros [OF mem_env_ok]) (simp add: role_stated_def leave_request_def mem_defs)

definition left_db :: auth_db where
  "left_db = snd (handle mem_env (mem_caller ''bo'') (RLeaveProject (Some (leave_request ''bo'' (Some RoleViewer)))) mem_db)"

lemma left_db_projects: "map (\<lambda>p. map m_Invitation (p_Members p)) (db_projects left_db) =
    [[AcceptedInvitation, ExitedProject, PendingInvitation]]"
  by (simp add: left_db_def LeaveProject_def leave_request_def guard_defs repo_defs mem_defs)



text \<open>The project an owner's request is about.\<close>

fun owner_request :: "request \<Rightarrow> string option" where
  "owner_request (RSendInvitation (Some r)) = Some (mi_ProjectID r)"
| "owner_request (RRemoveInvitation (Some r)) = Some (mi_ProjectID r)"
| "owner_request (RUpdateProjectName (Some r)) = Some (pi_ProjectID r)"
| "owner_request (RUpdateMemberRole (Some r)) = Some (mi_ProjectID r)"
| "owner_request (RDeleteProject pid) = Some pid"
| "owner_request _ = None"

definition touches_only :: "string \<Rightarrow> auth_db \<Rightarrow> auth_db \<Rightarrow> bool" where
  "touches_only pid db db' = (db_users db' = db_users db \<and>
     (\<forall>p. p_ID p \<noteq> pid \<longrightarrow> (p \<in> set (db_projects db') \<longleftrightarrow> p \<in> set (db_projects db))))"

lemma touches_refl [simp]: "touches_only pid db db"
  by (simp add: touches_only_def)

context project_write
begin

lemma write_touches:
  "env_ok e \<Longrightarrow> upd e pid (db_projects db) = (r, s') \<Longrightarrow> touches_only pid db (db\<lparr>db_projects := s'\<rparr>)"
  by (auto simp: touches_only_def dest: write_frame write_frame_back)

end

lemma delete_touches:
  assumes e: "env_ok e" and w: "DeleteProject_repo e pid (db_projects db) = (r, s')"
  shows "touches_only pid db (db\<lparr>db_projects := s'\<rparr>)"
proof -
  obtain x where d: "DeleteOne (projectsC e) (\<lambda>p. p_ID p = pid) (db_projects db) = (x, s')"
    using w by (auto simp: DeleteProject_repo_def split: prod.splits sum.splits)
  show ?thesis
    by (rule DeleteOne_cases [OF env_ok_projects [OF e] d]) (auto simp: touches_only_def removed_one_def)
qed

text \<open>A guarded change: none, or one made by an accepted owner that touches the project only.\<close>

definition owner_change :: "string \<Rightarrow> string \<Rightarrow> auth_db \<Rightarrow> auth_db \<Rightarrow> bool" where
  "owner_change uid pid db db' = (db' = db \<or> accepted_owner_of uid pid db \<and> touches_only pid db db')"

lemma owner_change_refl [simp]: "owner_change uid pid db db"
  by (simp add: owner_change_def)

lemma owner_change_gate:
  assumes "env_ok e" "MutationRbacRules op = [RoleOwner]"
    "accepted_owner_of uid pid db \<Longrightarrow> owner_change uid pid db (snd k)"
  shows "owner_change uid pid db (snd (rbac_gate e uid pid op AcceptedInvitation db k))"
  by (rule rbac_gate_ok [where P = "owner_change uid pid db", OF assms(1) owner_change_refl])
    (use assms(2,3) owner_permitted in simp)

lemma owner_change_save:
  "(\<And>r ps. w = (r, ps) \<Longrightarrow> touches_only pid db (db\<lparr>db_projects := ps\<rparr>)) \<Longrightarrow> accepted_owner_of uid pid db \<Longrightarrow>
   owner_change uid pid db (snd (save_projects db w k))"
  by (rule save_ok [where P = "owner_change uid pid db"]) (simp add: owner_change_def)

lemma owner_change_login:
  "owner_change uid pid db (snd k) \<Longrightarrow> owner_change uid pid db (snd (initial_login_gate e u db k))"
  by (rule login_gate_ok [where P = "owner_change uid pid db"]) simp

lemmas owner_change_intros = owner_change_gate owner_change_login owner_change_save
lemmas write_touches = adding.write_touches removing.write_touches inviting.write_touches renaming.write_touches
  changing_role.write_touches delete_touches

lemma SendInvitation_change:
  "env_ok e \<Longrightarrow> owner_change (ctx_uid c) (mi_ProjectID r) db (snd (SendInvitation e c (Some r) db))"
  by (auto simp: SendInvitation_def owner_rules split: sum.splits intro!: owner_change_intros dest: write_touches)

lemma RemoveInvitation_change:
  "env_ok e \<Longrightarrow> owner_change (ctx_uid c) (mi_ProjectID r) db (snd (RemoveInvitation e c (Some r) db))"
  by (auto simp: RemoveInvitation_def owner_rules split: sum.splits intro!: owner_change_intros dest: write_touches)

lemma UpdateProjectName_change:
  "env_ok e \<Longrightarrow> owner_change (ctx_uid c) (pi_ProjectID r) db (snd (UpdateProjectName e c (Some r) db))"
  by (auto simp: UpdateProjectName_def owner_rules split: sum.splits intro!: owner_change_intros dest: write_touches)

lemma UpdateMemberRole_change:
  "env_ok e \<Longrightarrow> owner_change (ctx_uid c) (mi_ProjectID r) db (snd (UpdateMemberRole e c (Some r) db))"
  by (auto simp: UpdateMemberRole_def owner_rules intro!: owner_change_intros dest: write_touches)

lemma DeleteProject_change:
  "env_ok e \<Longrightarrow> owner_change (ctx_uid c) pid db (snd (DeleteProject e c pid db))"
  by (auto simp: DeleteProject_def owner_rules intro!: owner_change_intros dest: write_touches)

text \<open>C3.
  Inviting, removing, renaming, changing roles and deleting are the owner's: when such a request
  changes anything, the caller is an active user and an accepted owner of the project it names, and
  no other project and no user is changed.\<close>

theorem owner_operations_guarded:
  assumes "env_ok e" "owner_request req = Some pid" "handle e c req db = (replies, db')" "db' \<noteq> db"
  shows "accepted_owner_of (ctx_uid c) pid db \<and> touches_only pid db db'"
proof -
  have "owner_change (ctx_uid c) pid db (snd (handle e c req db))"
    using assms(1,2) SendInvitation_change RemoveInvitation_change UpdateProjectName_change UpdateMemberRole_change
      DeleteProject_change
    by (cases req rule: owner_request.cases) auto
  then show ?thesis using assms(3,4) by (simp add: owner_change_def)
qed

lemma owner_operations_guarded_witness:
  "accepted_owner_of ''al'' ''p1'' mem_db"
proof -
  let ?r = "RDeleteProject ''p1''"
  obtain rs db' where h: "handle mem_env (mem_caller ''al'') ?r mem_db = (rs, db')" by fastforce
  have "db_projects (snd (handle mem_env (mem_caller ''al'') ?r mem_db)) = []"
    by (simp add: DeleteProject_def DeleteProject_repo_def guard_defs repo_defs mem_defs)
  then have "db' \<noteq> mem_db" using h by (auto simp: mem_db_def)
  then have "accepted_owner_of (ctx_uid (mem_caller ''al'')) ''p1'' mem_db"
    using owner_operations_guarded [OF mem_env_ok _ h] by simp
  then show ?thesis by (simp add: mem_caller_def)
qed


text \<open>C17.
  With reads that do not fail and distinct user identifiers, the validator accepts exactly the active
  users who are members of the project with one of the required roles and the required invitation.\<close>

theorem rbac_validator_exact:
  assumes "env_ok e" "reads_up e" "distinct (map u_ID (db_users db))"
  shows "RbacValidator e uid pid roles invitation db = None \<longleftrightarrow>
    (\<exists>u \<in> set (db_users db). u_ID u = uid \<and> u_DeactivatedAt u = None) \<and>
    (\<exists>p \<in> set (db_projects db). p_ID p = pid \<and>
       (\<exists>m \<in> set (p_Members p). m_UserID m = uid \<and> m_Role m \<in> set roles \<and> m_Invitation m = invitation))"
proof -
  have "RbacValidator e uid pid roles invitation db = None \<longleftrightarrow> permitted uid pid roles invitation db"
    using RbacValidator_sound [OF assms(1)] RbacValidator_complete [OF assms] by blast
  then show ?thesis
    by (simp add: permitted_def active_user_def has_membership_def rbac_filter_def)
qed

lemma rbac_validator_exact_witness:
  "RbacValidator mem_env ''cy'' ''p1'' [RoleExecutor] AcceptedInvitation mem_db \<noteq> None"
proof -
  have "distinct (map u_ID (db_users mem_db))" by (simp add: mem_defs)
  then show ?thesis
    using rbac_validator_exact [OF mem_env_ok mem_env_up, of mem_db "''cy''" "''p1''" "[RoleExecutor]" AcceptedInvitation]
    by (simp add: mem_defs)
qed

section \<open>Answers to invitations\<close>

text \<open>The invitation each of the three requests writes, and the invitation it asks of the caller.\<close>

fun answer_of :: "request \<Rightarrow> (member_input \<times> string \<times> string) option" where
  "answer_of (RAcceptInvitation (Some r)) = Some (r, PendingInvitation, AcceptedInvitation)"
| "answer_of (RDeclineInvitation (Some r)) = Some (r, PendingInvitation, DeclinedInvitation)"
| "answer_of (RLeaveProject (Some r)) = Some (r, AcceptedInvitation, ExitedProject)"
| "answer_of _ = None"

definition answered :: "env \<Rightarrow> string \<Rightarrow> string \<Rightarrow> project \<Rightarrow> project" where
  "answered e uid invitation p = on_member uid (\<lambda>m. if invitation = AcceptedInvitation
     then m\<lparr>m_Invitation := invitation, m_JoinedAt := clock e\<rparr> else m\<lparr>m_Invitation := invitation\<rparr>) p"

lemma answered_write:
  "i \<in> {AcceptedInvitation, DeclinedInvitation, ExitedProject} \<Longrightarrow> invite_write e uid i None = answered e uid i"
  by (auto simp: invite_write_def invite_change_simps answered_def invite_kinds)

definition answer_change :: "env \<Rightarrow> string \<Rightarrow> member_input \<Rightarrow> string \<Rightarrow> string \<Rightarrow> auth_db \<Rightarrow> auth_db \<Rightarrow> bool" where
  "answer_change e uid r needed given db db' = (db' = db \<or>
     active_user uid db \<and> has_membership uid (mi_ProjectID r) [RoleOwner, RoleViewer, RoleExecutor] needed db \<and>
     db' = db\<lparr>db_projects := map (\<lambda>p. if p_ID p = mi_ProjectID r then answered e (mi_UserID r) given p else p)
                             (db_projects db)\<rparr>)"

lemma answer_gate:
  assumes "env_ok e" "projects_ok (db_projects db)" "given \<in> {AcceptedInvitation, DeclinedInvitation, ExitedProject}"
    "op \<in> {''acceptInvitation'', ''declineInvitation'', ''leaveProject''}"
  shows "answer_change e uid r needed given db
    (snd (rbac_gate e uid (mi_ProjectID r) op needed db
      (save_projects db (UpdateInvite e (mi_ProjectID r) (mi_UserID r) given None (db_projects db)) k)))"
proof (rule rbac_gate_ok [where P = "answer_change e uid r needed given db", OF assms(1)])
  assume perm: "permitted uid (mi_ProjectID r) (MutationRbacRules op) needed db"
  show "answer_change e uid r needed given db
    (snd (save_projects db (UpdateInvite e (mi_ProjectID r) (mi_UserID r) given None (db_projects db)) k))"
  proof (rule save_ok [where P = "answer_change e uid r needed given db"])
    fix x ps assume w: "UpdateInvite e (mi_ProjectID r) (mi_UserID r) given None (db_projects db) = (x, ps)"
    have "distinct (map p_ID (db_projects db))" using assms(2) by (simp add: projects_ok_def)
    from inviting.write_exact [OF assms(1) w this] show "answer_change e uid r needed given db (db\<lparr>db_projects := ps\<rparr>)"
      using perm assms(4) answered_write [OF assms(3)]
      by (auto simp: answer_change_def permitted_def MutationRbacRules_def)
  qed
qed (simp add: answer_change_def)

lemma answer_login:
  "answer_change e uid r needed given db (snd k) \<Longrightarrow>
   answer_change e uid r needed given db (snd (initial_login_gate e u db k))"
  by (rule login_gate_ok [where P = "answer_change e uid r needed given db"]) (simp_all add: answer_change_def)

lemma answer_requests:
  assumes e: "env_ok e" and ok: "db_ok db" and a: "answer_of req = Some (r, needed, given)"
  shows "answer_change e (ctx_uid c) r needed given db (snd (handle e c req db))"
proof -
  have pok: "projects_ok (db_projects db)" using ok by (simp add: db_ok_def)
  have refl: "answer_change e (ctx_uid c) r needed given db db" by (simp add: answer_change_def)
  show ?thesis
    using a refl answer_login [OF answer_gate [OF e pok]]
    by (cases req rule: answer_of.cases)
       (auto simp: AcceptInvitation_def DeclineInvitation_def LeaveProject_def Let_def split: sum.splits)
qed

text \<open>C20.
  Accepting, declining and leaving: when such a request changes the database, the caller is an active
  member whose own invitation is the one the request starts from, and the change is that the member
  the request names (not the caller) gets the answer in that project, roles and all else untouched.\<close>

theorem answer_goes_to_named_member:
  assumes "env_ok e" "db_ok db" "answer_of req = Some (r, needed, given)"
    "handle e c req db = (replies, db')" "db' \<noteq> db"
  shows "active_user (ctx_uid c) db \<and>
    has_membership (ctx_uid c) (mi_ProjectID r) [RoleOwner, RoleViewer, RoleExecutor] needed db \<and>
    db' = db\<lparr>db_projects := map (\<lambda>p. if p_ID p = mi_ProjectID r then answered e (mi_UserID r) given p else p)
                            (db_projects db)\<rparr>"
  using answer_requests [OF assms(1-3), of c] assms(4,5) by (simp add: answer_change_def)

lemma answer_goes_to_named_member_witness:
  "map (map m_Invitation \<circ> p_Members) (db_projects (snd (handle mem_env (mem_caller ''cy'')
      (RAcceptInvitation (Some (leave_request ''cy'' None))) mem_db))) = [[AcceptedInvitation, AcceptedInvitation, AcceptedInvitation]]"
proof -
  let ?req = "RAcceptInvitation (Some (leave_request ''cy'' None))"
  obtain rs db' where h: "handle mem_env (mem_caller ''cy'') ?req mem_db = (rs, db')" by fastforce
  have r: "rs = [JSON 200 (MsgBody ''Successful'')]"
    using h by (simp add: AcceptInvitation_def leave_request_def guard_defs repo_defs mem_defs)
  have "db' \<noteq> mem_db"
    using h by (auto simp: AcceptInvitation_def leave_request_def guard_defs repo_defs mem_defs)
  then have "db' = mem_db\<lparr>db_projects := map (\<lambda>p. if p_ID p = ''p1'' then answered mem_env ''cy'' AcceptedInvitation p else p)
                            (db_projects mem_db)\<rparr>"
    using answer_goes_to_named_member [OF mem_env_ok mem_db_ok _ h] by (simp add: leave_request_def)
  then show ?thesis using h by (simp add: answered_def on_member_def mem_defs)
qed

text \<open>A user with a pending invitation can decline in the name of the project's only owner: the request
  succeeds and the project has no accepted owner left.\<close>

theorem decline_for_owner_orphans_project:
  "\<exists>c r. ctx_uid c = ''cy'' \<and>
     fst (DeclineInvitation mem_env c (Some r) mem_db) = [JSON 200 (MsgBody ''successful'')] \<and>
     db_projects mem_db \<noteq> [] \<and>
     filter (\<lambda>p. owned (p_Members p)) (db_projects (snd (DeclineInvitation mem_env c (Some r) mem_db))) = []"
  by (rule exI [of _ "mem_caller ''cy''"], rule exI [of _ "leave_request ''al'' None"])
     (simp add: DeclineInvitation_def leave_request_def guard_defs repo_defs owned_def accepted_owner_def mem_defs)

text \<open>A viewer can make the only owner leave, and the only owner who leaves without stating a role is not
  counted: the guard for the last owner reads the role from the request.\<close>

theorem leave_without_role_orphans_project:
  "map (\<lambda>n. fst (LeaveProject mem_env (mem_caller n) (Some (leave_request ''al'' None)) mem_db)) [''al'', ''bo''] =
     [[JSON 200 (MsgBody ''successful'')], [JSON 200 (MsgBody ''successful'')]] \<and>
   map (\<lambda>n. map (owned \<circ> p_Members) (db_projects
        (snd (LeaveProject mem_env (mem_caller n) (Some (leave_request ''al'' None)) mem_db)))) [''al'', ''bo''] =
     [[False], [False]]"
  by (simp add: LeaveProject_def leave_request_def guard_defs repo_defs owned_def accepted_owner_def mem_defs)


section \<open>Deactivation\<close>

definition state_projects :: "string \<Rightarrow> int \<Rightarrow> bool \<Rightarrow> project list \<Rightarrow> project list" where
  "state_projects uid t b ps = map (\<lambda>p. if owner_in uid p then set_removed b p else p)
     (map (on_member uid (\<lambda>m. m\<lparr>m_DeactivatedAt := Some t\<rparr>)) ps)"

lemma UpdateProjectState_done:
  assumes e: "env_ok e" and w: "UpdateProjectState e uid t b s = (None, s')"
  shows "s' = state_projects uid t b s"
proof -
  obtain n1 s1 where w1: "UpdateMany (projectsC e) (\<lambda>_. True)
      (on_member uid (\<lambda>m. m\<lparr>m_DeactivatedAt := Some t\<rparr>)) s = (Inr n1, s1)"
    and n2: "\<exists>n2. UpdateMany (projectsC e) (owner_in uid) (set_removed b) s1 = (Inr n2, s')"
    using w by (auto simp: UpdateProjectState_def split: prod.splits sum.splits)
  have "s1 = map (on_member uid (\<lambda>m. m\<lparr>m_DeactivatedAt := Some t\<rparr>)) s"
    using UpdateMany_done [OF env_ok_projects [OF e] w1] by simp
  moreover have "s' = map (\<lambda>p. if owner_in uid p then set_removed b p else p) s1"
    using n2 UpdateMany_done [OF env_ok_projects [OF e]] by blast
  ultimately show ?thesis by (simp add: state_projects_def)
qed

text \<open>C23.
  Deactivating and reactivating a user is all or nothing: either the database is untouched and the
  request fails, or the user is no administrator (and was active, to be deactivated), the user is
  updated, the deactivation time is set on the user's memberships in all projects, and every project
  in which the user has the role of owner is flagged.\<close>

theorem state_transaction_atomic:
  assumes "env_ok e" "db_ok db" "UpdateStateTransaction e name b db = (err, db')"
  shows "db' = db \<and> err \<noteq> None \<or>
    (\<exists>u \<in> set (db_users db). u_Username u = name \<and> u_Role u \<noteq> RoleAdmin \<and> (b \<longrightarrow> u_DeactivatedAt u = None) \<and>
      db' = db\<lparr>db_users := map (\<lambda>v. if u_Username v = name then set_user_state b (if b then clock e else 0) v else v) (db_users db),
               db_projects := state_projects (u_ID u) (if b then clock e else 0) b (db_projects db)\<rparr>)"
proof (rule UpdateStateTransaction_cases [OF assms(1,3)])
  fix u us ps
  assume u: "FindUserByUsername e name (db_users db) = Inr u" "u_Role u \<noteq> RoleAdmin" "b \<longrightarrow> u_DeactivatedAt u = None"
    and us: "UpdateUserState_repo e name b (if b then clock e else 0) (db_users db) = (None, us)"
    and ps: "UpdateProjectState e (u_ID u) (if b then clock e else 0) b (db_projects db) = (None, ps)"
    and db': "db' = db\<lparr>db_users := us, db_projects := ps\<rparr>"
  have f: "u \<in> set (db_users db)" "u_Username u = name"
    using FindOne_ok [OF env_ok_users [OF assms(1)] u(1) [unfolded FindUserByUsername_def]] by auto
  obtain n where n: "UpdateOne (usersC e) (\<lambda>u. u_Username u = name)
      (set_user_state b (if b then clock e else 0)) (db_users db) = (Inr n, us)"
    using us by (auto simp: UpdateUserState_repo_def split: sum.splits prod.splits)
  have "n \<noteq> 0" by (rule UpdateOne_match [OF env_ok_users [OF assms(1)] n f(1)]) (rule f(2))
  then have "replaced_one (\<lambda>u. u_Username u = name) (set_user_state b (if b then clock e else 0)) (db_users db) us"
    by (rule UpdateOne_done [OF env_ok_users [OF assms(1)] n])
  moreover have "distinct (map u_Username (db_users db))" using assms(2) by (simp add: db_ok_def users_ok_def)
  ultimately have "us = map (\<lambda>v. if u_Username v = name then set_user_state b (if b then clock e else 0) v else v) (db_users db)"
    by (rule replaced_one_unique)
  then show ?thesis using u f db' UpdateProjectState_done [OF assms(1) ps] by blast
qed simp

lemma state_transaction_atomic_witness:
  "\<exists>u \<in> set (db_users mem_db). u_Username u = ''al'' \<and>
     snd (UpdateStateTransaction mem_env ''al'' True mem_db) =
       mem_db\<lparr>db_users := map (\<lambda>v. if u_Username v = ''al'' then set_user_state True 7 v else v) (db_users mem_db),
              db_projects := state_projects (u_ID u) 7 True (db_projects mem_db)\<rparr>"
proof -
  obtain err db' where h: "UpdateStateTransaction mem_env ''al'' True mem_db = (err, db')" by fastforce
  then have "err = None"
    by (auto simp: UpdateStateTransaction_def UpdateUserState_repo_def UpdateProjectState_def Let_def repo_defs mem_defs)
  then show ?thesis using state_transaction_atomic [OF mem_env_ok mem_db_ok h] h by (auto simp: mem_env_def)
qed

text \<open>Deactivating a user removes projects the user only has an invitation for: whatever the state of a
  membership with the role of owner (pending, declined, exited), the project is flagged as removed.\<close>

theorem deactivation_removes_projects_of_invited_owners:
  assumes "env_ok e" "UpdateProjectState e uid t True s = (None, s')" "p \<in> set s"
    "m \<in> set (p_Members p)" "m_UserID m = uid" "m_Role m = RoleOwner" "m_Invitation m = PendingInvitation"
  shows "\<exists>p' \<in> set s'. p_ID p' = p_ID p \<and> a_IsRemoved (p_Audit p')"
proof -
  let ?q = "on_member uid (\<lambda>m. m\<lparr>m_DeactivatedAt := Some t\<rparr>) p"
  have "m\<lparr>m_DeactivatedAt := Some t\<rparr> \<in> set (p_Members ?q)"
    using assms(4,5) by (auto simp: on_member_def intro!: image_eqI [of _ _ m])
  moreover have "m_UserID (m\<lparr>m_DeactivatedAt := Some t\<rparr>) = uid \<and> m_Role (m\<lparr>m_DeactivatedAt := Some t\<rparr>) = RoleOwner"
    using assms(5,6) by simp
  ultimately have "owner_in uid ?q" unfolding owner_in_def by blast
  then have "set_removed True ?q \<in> set s'"
    using UpdateProjectState_done [OF assms(1,2)] assms(3) by (force simp: state_projects_def)
  then show ?thesis by (intro bexI [of _ "set_removed True ?q"]) (simp_all add: set_removed_def)
qed

definition invited_project :: project where
  "invited_project = mem_project\<lparr>p_Members := mem_member ''dd'' RoleOwner PendingInvitation # p_Members mem_project\<rparr>"

lemma deactivation_removes_projects_of_invited_owners_witness:
  "\<exists>p' \<in> set (snd (UpdateProjectState mem_env ''dd'' 7 True [invited_project])). p_ID p' = ''p1'' \<and> a_IsRemoved (p_Audit p')"
proof -
  obtain s' where h: "UpdateProjectState mem_env ''dd'' 7 True [invited_project] = (None, s')"
    by (simp add: UpdateProjectState_def mem_defs)
  have "\<exists>p' \<in> set s'. p_ID p' = p_ID invited_project \<and> a_IsRemoved (p_Audit p')"
    by (rule deactivation_removes_projects_of_invited_owners [OF mem_env_ok h,
          where m = "mem_member ''dd'' RoleOwner PendingInvitation"])
       (simp_all add: invited_project_def mem_member_def)
  then show ?thesis using h by (simp add: invited_project_def mem_project_def)
qed

section \<open>Sessions\<close>

lemma GetOwnerProjects_found:
  assumes "env_ok e" "GetOwnerProjects_repo e uid s = Inr ps" "p \<in> set ps"
  shows "\<exists>q \<in> set s. owner_in uid q \<and> p_ID p = p_ID q"
  using assms Find_set [OF env_ok_projects [OF assms(1)]]
  by (fastforce simp: GetOwnerProjects_repo_def owner_view_def split: sum.splits)

lemma default_project_owned:
  assumes e: "env_ok e" and w: "default_project e u db = (Some pid, db')"
  shows "\<exists>p \<in> set (db_projects db'). p_ID p = pid \<and> owner_in (u_ID u) p"
proof -
  have new: "owner_in (u_ID u) (default_new_project e u)" "p_ID (default_new_project e u) = newUUID e"
    by (simp_all add: owner_in_def default_new_project_def)
  have ins: "default_new_project e u \<in> set ps"
    if "CreateProject_repo e (default_new_project e u) (db_projects db) = (None, ps)" for ps
  proof -
    have "InsertOne (projectsC e) (default_new_project e u) (db_projects db) = (None, ps)"
      using that by (auto simp: CreateProject_repo_def split: prod.splits option.splits)
    from InsertOne_None [OF env_ok_projects [OF e] this] show ?thesis by simp
  qed
  have old: "\<exists>q \<in> set (db_projects db). p_ID q = p_ID p \<and> owner_in (u_ID u) q"
    if "GetOwnerProjects_repo e (u_ID u) (db_projects db) = Inr (p # ps)" for p ps
    using GetOwnerProjects_found [OF e that, of p] by fastforce
  show ?thesis
    using w new ins old
    by (auto simp: default_project_def Let_def split: list.splits sum.splits prod.splits option.splits)
qed

text \<open>C25.
  A password login that hands out a session is the login of an active user of that name whose password
  matches the stored hash, and the default project it names exists and has the user as an owner.\<close>

theorem session_for_active_user:
  assumes "env_ok e" "LoginUser e (Some r) db = ([JSON 200 (SessionBody token pid role)], db')"
  shows "(\<exists>u \<in> set (db_users db). u_Username u = TrimSpace (lg_Username r) \<and> u_DeactivatedAt u = None \<and>
      compareHash e (u_Password u) (lg_Password r) \<and>
      (\<exists>p \<in> set (db_projects db'). p_ID p = pid \<and> owner_in (u_ID u) p))"
proof -
  obtain u where u: "FindUserByUsername e (TrimSpace (lg_Username r)) (db_users db) = Inr u"
    "u_DeactivatedAt u = None" "CheckPasswordHash e (u_Password u) (lg_Password r) = None"
    "default_project e u db = (Some pid, db')"
    using assms(2)
    by (auto simp: LoginUser_def SanitizeString_def Let_def fail_def split: sum.splits option.splits prod.splits if_splits)
  have "u \<in> set (db_users db) \<and> u_Username u = TrimSpace (lg_Username r)"
    using FindOne_ok [OF env_ok_users [OF assms(1)] u(1) [unfolded FindUserByUsername_def]] by simp
  then show ?thesis
    using u(2,3) default_project_owned [OF assms(1) u(4)] by (auto simp: CheckPasswordHash_def split: if_splits)
qed

definition al_login :: login_request where
  "al_login = \<lparr>lg_Username = ''al'', lg_Password = ''al''\<rparr>"

lemma session_for_active_user_witness:
  "\<exists>u \<in> set (db_users mem_db). u_Username u = ''al'' \<and> u_Password u = ''al''"
proof -
  have t: "TrimSpace ''al'' = ''al''" by (simp add: go_string_simps)
  have "LoginUser mem_env (Some al_login) mem_db = ([JSON 200 (SessionBody ''al'' ''p1'' RoleOwner)], mem_db)"
    by (simp add: LoginUser_def al_login_def SanitizeString_def Let_def t repo_defs CheckPasswordHash_def GetSignedJWT_def
        default_project_def GetOwnerProjects_repo_def owner_in_def owner_view_def mem_defs)
  from session_for_active_user [OF mem_env_ok this] show ?thesis
    by (auto simp: al_login_def t mem_env_def)
qed


text \<open>C28.
  A successful logout revokes the token: while the revocation list can be read, the middleware
  refuses the same header afterwards.\<close>

theorem logout_revokes_session:
  assumes "env_ok e" "LogoutUser e header db = ([JSON 200 body], db')"
    "\<forall>q s err. FindOne (revokedC e) q s = Inl err \<longrightarrow> err = NoDocuments"
  shows "JwtMiddleware e header db' = Refused (App ErrUnauthorized)"
proof -
  let ?tok = "drop (length BearerSchema) header"
  have h: "header \<noteq> []" "\<not> length header < length BearerSchema" and r: "RevokeToken e ?tok db = (Some None, db')"
    using assms(2) by (auto simp: LogoutUser_def fail_def split: option.splits prod.splits if_splits)
  obtain c x where c: "parseToken e ?tok db = Inr c" "c_exp c = Some x"
    and i: "InsertOne (revokedC e) \<lparr>rt_Token = ?tok, rt_ExpiresAt = x, rt_CreatedAt = clock e\<rparr> (db_revoked db) = (None, db_revoked db')"
    and cfg: "db_config db' = db_config db"
    using r by (auto simp: RevokeToken_def RevokeToken_repo_def split: sum.splits option.splits prod.splits)
  have "\<lparr>rt_Token = ?tok, rt_ExpiresAt = x, rt_CreatedAt = clock e\<rparr> \<in> set (db_revoked db')"
    using InsertOne_None [OF env_ok_revoked [OF assms(1)] i] by simp
  then have "FindOne (revokedC e) (\<lambda>t. rt_Token t = ?tok) (db_revoked db') \<noteq> Inl NoDocuments"
    using FindOne_none [OF env_ok_revoked [OF assms(1)]] by fastforce
  then have "IsTokenRevoked e ?tok (db_revoked db')"
    using assms(3) by (auto simp: IsTokenRevoked_def split: sum.splits)
  moreover have "parseToken e ?tok db' = Inr c" using c(1) cfg by (simp add: parseToken_def)
  ultimately show ?thesis using h by (simp add: JwtMiddleware_def ValidateToken_def)
qed

lemma logout_revokes_session_witness:
  "JwtMiddleware mem_env ''Bearer al'' (snd (LogoutUser mem_env ''Bearer al'' mem_db)) = Refused (App ErrUnauthorized)"
proof -
  obtain db' where h: "LogoutUser mem_env ''Bearer al'' mem_db = ([JSON 200 (MsgBody ''successfully logged out'')], db')"
    by (simp add: LogoutUser_def RevokeToken_def RevokeToken_repo_def parseToken_def BearerSchema_def repo_defs mem_defs)
  have "\<forall>q s err. FindOne (revokedC mem_env) q s = Inl err \<longrightarrow> err = NoDocuments"
    by (auto simp: mem_env_def list_coll_def split: list.splits)
  from logout_revokes_session [OF mem_env_ok h this] show ?thesis by (simp add: h)
qed

lemma oauth_frame:
  "CreateProject_repo (e\<lparr>oauthStateOk := f\<rparr>) p s = CreateProject_repo e p s"
  "GetConfig (e\<lparr>oauthStateOk := f\<rparr>) k cs = GetConfig e k cs"
  "GetSignedJWT (e\<lparr>oauthStateOk := f\<rparr>) u sec = GetSignedJWT e u sec"
  "GetOwnerProjects_repo (e\<lparr>oauthStateOk := f\<rparr>) uid s = GetOwnerProjects_repo e uid s"
  "default_new_project (e\<lparr>oauthStateOk := f\<rparr>) u = default_new_project e u"
  "dex_user (e\<lparr>oauthStateOk := f\<rparr>) n em = dex_user e n em"
  by (simp_all add: CreateProject_repo_def GetConfig_def GetSignedJWT_def GetOwnerProjects_repo_def
      default_new_project_def new_audit_def dex_user_def split: sum.split)

lemma oauth_frame_login: "LoginUser_repo (e\<lparr>oauthStateOk := f\<rparr>) u us = LoginUser_repo e u us"
  by (simp add: LoginUser_repo_def Let_def split: sum.split prod.split option.split)

lemma oauth_frame_default: "default_project (e\<lparr>oauthStateOk := f\<rparr>) u db = default_project e u db"
  by (simp add: default_project_def oauth_frame Let_def split: list.split prod.split option.split)

lemma oauth_frame_session: "dex_session (e\<lparr>oauthStateOk := f\<rparr>) name email db = dex_session e name email db"
  unfolding dex_session_def oauth_frame oauth_frame_login oauth_frame_default ..

text \<open>The OAuth callback does not depend on its state parameter: with a state that does not validate, the
  redirect to the root is written and then everything a validated request does, the session included.\<close>

theorem oauth_state_not_enforced:
  assumes "\<not> oauthStateOk e state"
  shows "DexCallback e state code db =
    (let (replies, db') = DexCallback (e\<lparr>oauthStateOk := \<lambda>_. True\<rparr>) state code db in (Redirect ''/'' # replies, db'))"
  using assms
  by (simp add: DexCallback_def Let_def oauth_frame_session split: option.split sum.split prod.split)

lemma oauth_state_not_enforced_witness:
  "hd (fst (DexCallback mem_env ''forged'' ''ev'' mem_db)) = Redirect ''/''"
proof -
  have "\<not> oauthStateOk mem_env ''forged''" by (simp add: mem_env_def)
  from oauth_state_not_enforced [OF this, of "''ev''" mem_db] show ?thesis
    by (simp add: Let_def split: prod.splits)
qed

text \<open>The statistics handler refuses a caller who is not an administrator and then sends the statistics
  of every project all the same.\<close>

theorem project_stats_sent_after_refusal:
  assumes "ctx_role c \<noteq> RoleAdmin" "GetProjectStats_repo e (db_projects db) = Inr stats"
  shows "fst (GetProjectStats e c db) =
    [JSON 400 (MsgBody ''Permission denied, user is not admin''), JSON 200 (StatsBody stats)]"
  using assms by (simp add: GetProjectStats_def)

lemma project_stats_sent_after_refusal_witness:
  "\<exists>stats. fst (GetProjectStats mem_env (mem_caller ''bo'') mem_db) =
    [JSON 400 (MsgBody ''Permission denied, user is not admin''), JSON 200 (StatsBody stats)] \<and>
    map ps_Owners stats = [[(''al'', ''al'')]]"
proof -
  have c: "ctx_role (mem_caller ''bo'') \<noteq> RoleAdmin" by (simp add: mem_defs)
  have s: "GetProjectStats_repo mem_env (db_projects mem_db) = Inr [project_stats_of mem_project]"
    by (simp add: GetProjectStats_repo_def mem_env_def mem_db_def list_coll_def)
  have o: "map ps_Owners [project_stats_of mem_project] = [[(''al'', ''al'')]]"
    by (simp add: project_stats_of_def mem_defs)
  show ?thesis
    by (intro exI [of _ "[project_stats_of mem_project]"] conjI project_stats_sent_after_refusal [OF c s] o)
qed

text \<open>The requests that ask for a changed default password.\<close>

fun login_gated :: "request \<Rightarrow> bool" where
  "login_gated (RCreateProject _) = True"
| "login_gated (RSendInvitation _) = True"
| "login_gated (RAcceptInvitation _) = True"
| "login_gated (RDeclineInvitation _) = True"
| "login_gated (RLeaveProject _) = True"
| "login_gated (RRemoveInvitation _) = True"
| "login_gated (RUpdateProjectName _) = True"
| "login_gated (RUpdateUser _) = True"
| "login_gated (RResetPassword _) = True"
| "login_gated (RUpdateUserState _) = True"
| "login_gated (RCreateApiToken _) = True"
| "login_gated (RDeleteApiToken _) = True"
| "login_gated _ = False"

text \<open>A user who still has the initial password changes nothing through the requests that are guarded by
  the initial-login test; changing a member's role and deleting a project are not among them, and an
  owner in that state deletes the project.\<close>

theorem initial_password_blocks_requests:
  assumes "CheckInitialLogin e (ctx_uid c) db = Inr True"
  shows "(login_gated req \<longrightarrow> snd (handle e c req db) = db) \<and>
    (\<exists>al db0. CheckInitialLogin mem_env (ctx_uid al) db0 = Inr True \<and> db_projects db0 \<noteq> [] \<and>
       db_projects (snd (handle mem_env al (RDeleteProject ''p1'') db0)) = [])"
proof
  show "login_gated req \<longrightarrow> snd (handle e c req db) = db"
    using assms
    by (cases req)
       (auto simp: initial_login_gate_def CreateProject_def SendInvitation_def AcceptInvitation_def DeclineInvitation_def LeaveProject_def
          RemoveInvitation_def UpdateProjectName_def UpdateUser_def ResetPassword_def UpdateUserState_def
          CreateApiToken_def DeleteApiToken_def Let_def rbac_gate_def split: option.splits sum.splits)
  show "\<exists>al db0. CheckInitialLogin mem_env (ctx_uid al) db0 = Inr True \<and> db_projects db0 \<noteq> [] \<and>
       db_projects (snd (handle mem_env al (RDeleteProject ''p1'') db0)) = []"
    by (rule exI [of _ "mem_caller ''al''"],
        rule exI [of _ "mem_db\<lparr>db_users := [(mem_user ''al'' RoleUser)\<lparr>u_IsInitialLogin := True\<rparr>]\<rparr>"])
       (simp add: DeleteProject_def DeleteProject_repo_def guard_defs repo_defs mem_defs)
qed

lemma initial_password_blocks_requests_witness:
  "\<exists>db. CheckInitialLogin mem_env ''al'' db = Inr True \<and>
     snd (handle mem_env (mem_caller ''al'') (RCreateProject None) db) = db"
proof -
  let ?db = "mem_db\<lparr>db_users := [(mem_user ''al'' RoleUser)\<lparr>u_IsInitialLogin := True\<rparr>]\<rparr>"
  have i: "CheckInitialLogin mem_env ''al'' ?db = Inr True"
    by (simp add: CheckInitialLogin_def repo_defs mem_defs)
  have c: "ctx_uid (mem_caller ''al'') = ''al''" by (simp add: mem_caller_def)
  have "snd (handle mem_env (mem_caller ''al'') (RCreateProject None) ?db) = ?db"
    using initial_password_blocks_requests [of mem_env "mem_caller ''al''" ?db "RCreateProject None"] i
    unfolding c by simp
  then show ?thesis using i by blast
qed

lemma default_project_users: "default_project e u db = (r, db') \<Longrightarrow> db_users db' = db_users db"
  by (auto simp: default_project_def Let_def split: list.splits prod.splits option.splits)


definition new_password :: user_password where
  "new_password = \<lparr>up_Username = [], up_OldPassword = ''al'', up_NewPassword = ''Litmus#1a''\<rparr>"


end
