(* ===== verification/Auth_Api.thy ===== *)
theory Auth_Api
  imports Auth_Properties
begin

text \<open>
  The remaining entry points of the authentication service: the query parameters of the project list
  (\<^verbatim>\<open>api/utils/project_utils.go\<close>), the gRPC lookups the other services use
  (\<^verbatim>\<open>api/handlers/grpc/grpc_handler.go\<close>), the health handlers (\<^verbatim>\<open>misc_handlers.go\<close>) and the start-up
  steps (\<^verbatim>\<open>api/main.go\<close>, \<^verbatim>\<open>api/handlers/salt.go\<close>).
\<close>

section \<open>Query parameters\<close>

text \<open>\<^verbatim>\<open>strconv.ParseBool\<close>.\<close>

definition ParseBool :: "string \<Rightarrow> bool option" where
  "ParseBool s =
     (if s \<in> {''1'', ''t'', ''T'', ''true'', ''TRUE'', ''True''} then Some True
      else if s \<in> {''0'', ''f'', ''F'', ''false'', ''FALSE'', ''False''} then Some False
      else None)"

definition bool_param :: "string \<Rightarrow> bool option option" where
  "bool_param s = (if s = [] then Some None else map_option Some (ParseBool s))"

text \<open>
  \<^verbatim>\<open>GetProjectFilters\<close>: \<^const>\<open>None\<close> is \<^verbatim>\<open>log.Fatal\<close>, which ends the process. Page and limit that are
  not numbers default to 0 and 15.
\<close>

definition GetProjectFilters :: "string option \<Rightarrow> (string \<Rightarrow> string) \<Rightarrow> list_request option" where
  "GetProjectFilters uid query =
     (case bool_param (query ''createdByMe'') of None \<Rightarrow> None | Some createdByMe \<Rightarrow>
     (case bool_param (query ''sortAscending'') of None \<Rightarrow> None | Some ascending \<Rightarrow>
        Some \<lparr>lr_UserID = (case uid of None \<Rightarrow> [] | Some u \<Rightarrow> u),
              lr_ProjectName = (if query ''projectName'' = [] then None else Some (query ''projectName'')),
              lr_CreatedByMe = createdByMe,
              lr_SortField = (if query ''sortField'' = ''name'' then ''NAME'' else ''TIME''),
              lr_Ascending = ascending,
              lr_Page = (case ParseInt (query ''page'') of None \<Rightarrow> 0 | Some n \<Rightarrow> n),
              lr_Limit = (case ParseInt (query ''limit'') of None \<Rightarrow> 15 | Some n \<Rightarrow> n)\<rparr>))"

section \<open>Lookups over gRPC\<close>

record grpc_member =
  gm_Email :: string  gm_Username :: string  gm_Invitation :: string  gm_Uid :: string  gm_JoinedAt :: string

record grpc_project =
  gp_Id :: string  gp_Name :: string  gp_Members :: "grpc_member list"  gp_State :: string
  gp_CreatedAt :: string  gp_UpdatedAt :: string

datatype 'a rpc = RpcOk 'a | RpcError go_error | RpcPanic

definition grpc_member_of :: "user list \<Rightarrow> member \<Rightarrow> grpc_member" where
  "grpc_member_of us m =
     (let u = (case find (\<lambda>u. u_ID u = m_UserID m) (rev us) of None \<Rightarrow> ([], []) | Some u \<Rightarrow> (u_Email u, u_Username u))
      in \<lparr>gm_Email = fst u, gm_Username = snd u, gm_Invitation = m_Invitation m, gm_Uid = m_UserID m,
          gm_JoinedAt = FormatInt (m_JoinedAt m)\<rparr>)"

text \<open>
  The users are ranged over before the lookup's error is read, and the lookup returns no list with
  an error: the dereference panics.
\<close>

definition GetProjectById :: "env \<Rightarrow> string \<Rightarrow> auth_db \<Rightarrow> grpc_project rpc" where
  "GetProjectById e projectID db = (case GetProjectByProjectID e projectID (db_projects db) of
     Inl err \<Rightarrow> RpcError err
   | Inr p \<Rightarrow> (case FindUsersByUID e (map m_UserID (p_Members p)) (db_users db) of
        Inl _ \<Rightarrow> RpcPanic
      | Inr us \<Rightarrow> RpcOk \<lparr>gp_Id = p_ID p, gp_Name = p_Name p, gp_Members = map (grpc_member_of us) (p_Members p),
          gp_State = [], gp_CreatedAt = FormatInt (a_CreatedAt (p_Audit p)),
          gp_UpdatedAt = FormatInt (a_UpdatedAt (p_Audit p))\<rparr>))"

record grpc_user =
  gu_Id :: string  gu_Name :: string  gu_Username :: string  gu_CreatedAt :: string  gu_UpdatedAt :: string
  gu_DeactivatedAt :: string  gu_Role :: string  gu_Email :: string

definition GetUserById :: "env \<Rightarrow> string \<Rightarrow> auth_db \<Rightarrow> grpc_user rpc" where
  "GetUserById e uid db = (case GetUser_repo e uid (db_users db) of
     Inl err \<Rightarrow> RpcError err
   | Inr u \<Rightarrow> RpcOk \<lparr>gu_Id = u_ID u, gu_Name = u_Name u, gu_Username = u_Username u,
       gu_CreatedAt = FormatInt (a_CreatedAt (u_Audit u)), gu_UpdatedAt = FormatInt (a_UpdatedAt (u_Audit u)),
       gu_DeactivatedAt = (case u_DeactivatedAt u of None \<Rightarrow> [] | Some t \<Rightarrow> FormatInt t),
       gu_Role = u_Role u, gu_Email = u_Email u\<rparr>)"

section \<open>Health and start-up\<close>

definition Status :: "env \<Rightarrow> auth_db \<Rightarrow> int \<times> string" where
  "Status e db = (case GetUsers e (db_users db) of Inl _ \<Rightarrow> (500, ''down'') | Inr _ \<Rightarrow> (200, ''up''))"

text \<open>The two listings are parameters; the reply is the status with the two flags.\<close>

definition Readiness :: "go_error + string list \<Rightarrow> go_error + string list \<Rightarrow> int \<times> string \<times> string" where
  "Readiness dbs cols = (case dbs of
     Inl _ \<Rightarrow> (500, ''down'', ''unknown'')
   | Inr ds \<Rightarrow>
      (let dbFlag = (if ''auth'' \<in> set ds then ''up'' else ''down'') in
       case cols of
         Inl _ \<Rightarrow> (500, dbFlag, ''down'')
       | Inr cs \<Rightarrow> (200, dbFlag, if ''project'' \<in> set cs \<and> ''users'' \<in> set cs then ''up'' else ''down'')))"

text \<open>The salt is created once: \<^const>\<open>Some\<close> is the error \<^verbatim>\<open>main\<close> stops on.\<close>

definition AddSalt :: "env \<Rightarrow> go_error + string \<Rightarrow> (string \<Rightarrow> string) \<Rightarrow> auth_db \<Rightarrow> go_error option \<times> auth_db" where
  "AddSalt e random encode db = (case GetConfig e ''salt'' (db_config db) of
     Inr _ \<Rightarrow> (None, db)
   | Inl err \<Rightarrow>
      if err \<noteq> NoDocuments then (Some err, db)
      else (case random of
        Inl err' \<Rightarrow> (Some err', db)
      | Inr salt \<Rightarrow> (case CreateConfig e \<lparr>ac_Key = ''salt'', ac_Value = encode salt\<rparr> (db_config db) of
          (r, cs) \<Rightarrow> (r, db\<lparr>db_config := cs\<rparr>))))"

text \<open>\<^verbatim>\<open>validatedAdminSetup\<close>: the administrator from the environment; false is \<^verbatim>\<open>log.Fatalf\<close>.\<close>

definition admin_user :: "env \<Rightarrow> string \<Rightarrow> string \<Rightarrow> user" where
  "admin_user e name password = \<lparr>u_Audit = \<lparr>a_UpdatedAt = clock e, a_CreatedAt = clock e, a_CreatedBy = zero_detail,
       a_UpdatedBy = zero_detail, a_IsRemoved = False\<rparr>,
     u_ID = newUUID e, u_Username = name, u_Password = (case hashPassword e password of Inl _ \<Rightarrow> [] | Inr h \<Rightarrow> h),
     u_Salt = [], u_Email = [], u_Name = [], u_Role = RoleAdmin, u_DeactivatedAt = None, u_IsInitialLogin = True\<rparr>"

definition validatedAdminSetup :: "env \<Rightarrow> string \<Rightarrow> string \<Rightarrow> auth_db \<Rightarrow> bool \<times> auth_db" where
  "validatedAdminSetup e name password db =
     (case CreateUser_repo e (admin_user e name password) (db_users db) of
        (Inr _, us) \<Rightarrow> (True, db\<lparr>db_users := us\<rparr>)
      | (Inl err, us) \<Rightarrow> (err = App ErrUserExists, db\<lparr>db_users := us\<rparr>))"

section \<open>Properties\<close>

text \<open>A flag of the project list that is not a boolean ends the whole service; all other queries are
  answered, with the name, sort field and page defaults, and the page asked of the database is never
  longer than 50.\<close>

theorem list_query_fatal_or_bounded:
  "(case GetProjectFilters uid query of
      None \<Rightarrow> (\<exists>k \<in> {''createdByMe'', ''sortAscending''}. query k \<noteq> [] \<and> ParseBool (query k) = None)
    | Some r \<Rightarrow> (\<forall>k \<in> {''createdByMe'', ''sortAscending''}. query k = [] \<or> ParseBool (query k) \<noteq> None) \<and>
        lr_SortField r \<in> {''NAME'', ''TIME''} \<and>
        (\<exists>skip limit. CreatePaginationStage r = [SkipStage skip, LimitStage limit] \<and> limit \<le> 50 \<and> skip = lr_Page r * limit))"
  by (auto simp: GetProjectFilters_def bool_param_def CreatePaginationStage_def Let_def split: option.splits)

lemma list_query_fatal_or_bounded_witness:
  "GetProjectFilters (Some ''al'') (\<lambda>k. if k = ''createdByMe'' then ''x'' else []) = None \<and>
   (\<exists>k \<in> {''createdByMe'', ''sortAscending''}. (if k = ''createdByMe'' then ''x'' else []) \<noteq> [])"
proof -
  let ?q = "\<lambda>k. if k = ''createdByMe'' then ''x'' else []"
  have n: "GetProjectFilters (Some ''al'') ?q = None" by (simp add: GetProjectFilters_def bool_param_def ParseBool_def)
  then show ?thesis using list_query_fatal_or_bounded [where uid = "Some ''al''" and query = ?q] by auto
qed

lemma find_user_found:
  assumes "u \<in> set us" "u_ID u = uid"
  obtains v where "find (\<lambda>u. u_ID u = uid) (rev us) = Some v" "v \<in> set us" "u_ID v = uid"
proof (cases "find (\<lambda>u. u_ID u = uid) (rev us)")
  case None
  then show thesis using assms by (simp add: find_None_iff)
next
  case (Some v)
  then show thesis using that by (metis (mono_tags, lifting) find_Some_iff nth_mem set_rev)
qed

text \<open>A project looked up over gRPC lists its members in order, each with the e-mail and the user name of
  the account with the member's identifier; and when the accounts cannot be read the call panics
  instead of returning the error.\<close>

theorem grpc_project_members:
  assumes "env_ok e" "users_ok (db_users db)" "GetProjectByProjectID e pid (db_projects db) = Inr p"
  shows "case GetProjectById e pid db of
      RpcOk g \<Rightarrow> map gm_Uid (gp_Members g) = map m_UserID (p_Members p) \<and>
        (\<forall>u \<in> set (db_users db). \<forall>gm \<in> set (gp_Members g). gm_Uid gm = u_ID u \<longrightarrow>
           gm_Email gm = u_Email u \<and> gm_Username gm = u_Username u)
    | RpcError _ \<Rightarrow> False
    | RpcPanic \<Rightarrow> (\<exists>err. FindUsersByUID e (map m_UserID (p_Members p)) (db_users db) = Inl err)"
proof (cases "FindUsersByUID e (map m_UserID (p_Members p)) (db_users db)")
  case (Inl err)
  then show ?thesis using assms(3) by (simp add: GetProjectById_def)
next
  case (Inr us)
  then obtain vs where vs: "Find (usersC e) (\<lambda>u. u_ID u \<in> set (map m_UserID (p_Members p))) (db_users db) = Inr vs"
    "us = map SanitizedUser vs" by (auto simp: FindUsersByUID_def split: sum.splits)
  have set_vs: "set vs = {u \<in> set (db_users db). u_ID u \<in> set (map m_UserID (p_Members p))}"
    by (rule Find_set [OF env_ok_users [OF assms(1)] vs(1)])
  have member: "gm_Email (grpc_member_of us m) = u_Email u \<and> gm_Username (grpc_member_of us m) = u_Username u"
    if um: "u \<in> set (db_users db)" "m \<in> set (p_Members p)" "m_UserID m = u_ID u" for u m
  proof -
    have "SanitizedUser u \<in> set us" using um set_vs vs(2) by force
    then obtain v where v: "find (\<lambda>w. u_ID w = m_UserID m) (rev us) = Some v" "v \<in> set us" "u_ID v = m_UserID m"
      using find_user_found [of "SanitizedUser u" us "m_UserID m"] um(3) by (auto simp: SanitizedUser_def)
    then obtain w where w: "w \<in> set (db_users db)" "v = SanitizedUser w" using vs(2) set_vs by auto
    then have "w = u" using v(3) um(1,3) assms(2)
      by (auto simp: users_ok_def distinct_map inj_on_def SanitizedUser_def)
    then show ?thesis using v(1) w(2) by (simp add: grpc_member_of_def SanitizedUser_def)
  qed
  have uid: "gm_Uid (grpc_member_of us m) = m_UserID m" for m by (simp add: grpc_member_of_def Let_def)
  have "map gm_Uid (map (grpc_member_of us) (p_Members p)) = map m_UserID (p_Members p)" by (simp add: uid)
  then show ?thesis using assms(3) Inr member uid by (auto simp: GetProjectById_def)
qed

lemma grpc_project_members_witness:
  "\<exists>g. GetProjectById mem_env ''p1'' mem_db = RpcOk g \<and> map gm_Uid (gp_Members g) = [''al'', ''bo'', ''cy'']"
proof -
  have p: "GetProjectByProjectID mem_env ''p1'' (db_projects mem_db) = Inr mem_project"
    by (simp add: repo_defs mem_defs)
  have "users_ok (db_users mem_db)" using mem_db_ok by (simp add: db_ok_def)
  from grpc_project_members [OF mem_env_ok this p] show ?thesis
    by (cases "GetProjectById mem_env ''p1'' mem_db")
       (auto simp: FindUsersByUID_def mem_env_def list_coll_def mem_project_def mem_member_def)
qed

text \<open>Starting again is safe: when the administrator's name is taken, the setup succeeds without touching
  the accounts (the stored password survives a restart), and when a salt can be read none is written.\<close>

theorem restart_keeps_accounts:
  assumes "env_ok e"
  shows "(u \<in> set (db_users db) \<and> u_Username u = name \<longrightarrow> snd (validatedAdminSetup e name pw db) = db) \<and>
    (GetConfig e ''salt'' (db_config db) = Inr cfg \<longrightarrow> AddSalt e random encode db = (None, db))"
proof (intro conjI impI)
  assume u: "u \<in> set (db_users db) \<and> u_Username u = name"
  obtain r us where i: "InsertOne (usersC e) (admin_user e name pw) (db_users db) = (r, us)" by fastforce
  have "us = db_users db \<and> r \<noteq> None"
    by (rule InsertOne_cases [OF env_ok_users [OF assms] i]) (use u in \<open>auto simp: user_clash_def admin_user_def\<close>)
  then show "snd (validatedAdminSetup e name pw db) = db"
    using i by (auto simp: validatedAdminSetup_def CreateUser_repo_def)
qed (simp add: AddSalt_def)

lemma restart_keeps_accounts_witness:
  "snd (validatedAdminSetup mem_env ''ad'' ''pw'' mem_db) = mem_db"
  using restart_keeps_accounts [OF mem_env_ok, of "mem_user ''ad'' RoleAdmin" mem_db "''ad''" "''pw''"]
  by (simp add: mem_db_def mem_user_def)

end
