(* ===== verification/Fault_Catalog.thy ===== *)
theory Fault_Catalog
  imports Go_Prelude "HOL-Library.Multiset"
begin

text \<open>
  The fault catalog of the GraphQL server (\<^verbatim>\<open>graphql/server/pkg/faultcatalog\<close>): the applications of the
  AppsHub and the fault classifications of the ChaosHub resolved into one view, its queries, and the
  cache in front of it. A Go map is a partial function, one that is ranged over is given by its
  entries (a list with distinct keys); \<^verbatim>\<open>sort.Slice\<close> by key is \<^const>\<open>sort_key\<close>. The file system and
  the YAML decoder are parameters.
\<close>

section \<open>Data\<close>

record application =
  ap_Key :: string
  ap_Folders :: "string list"
  ap_Namespace :: string
  ap_LabelKey :: string
  ap_Services :: "string list"
  ap_ResourceKinds :: "string list"

record raw_fault =
  rf_Classification :: string
  rf_WorkloadKinds :: "string list"
  rf_RequiredApp :: string
  rf_RequiredServices :: "string list"
  rf_IncompatibleWith :: "string list list"
  rf_SingleNodeDanger :: bool

record fault =
  f_Name :: string
  f_Classification :: string
  f_CompatibleApps :: "string list"
  f_WorkloadKinds :: "string list"
  f_RequiredServices :: "string list"
  f_KnownFailingTargets :: "string list"
  f_SingleNodeDanger :: bool

record catalog =
  c_Applications :: "application list"
  c_Faults :: "fault list"
  byAppKey :: "string \<rightharpoonup> application"
  byFolder :: "string \<rightharpoonup> string"
  byAppNS :: "string \<rightharpoonup> string"
  faultIndex :: "string \<rightharpoonup> fault"

definition ClassificationAppSpecific :: string where
  "ClassificationAppSpecific = ''application-specific''"

definition zero_application :: application where
  "zero_application = \<lparr>ap_Key = [], ap_Folders = [], ap_Namespace = [], ap_LabelKey = [], ap_Services = [], ap_ResourceKinds = []\<rparr>"

definition empty_catalog :: catalog where
  "empty_catalog = \<lparr>c_Applications = [], c_Faults = [], byAppKey = (\<lambda>_. None), byFolder = (\<lambda>_. None),
     byAppNS = (\<lambda>_. None), faultIndex = (\<lambda>_. None)\<rparr>"

section \<open>Building\<close>

definition normalize :: "string \<Rightarrow> string" where
  "normalize s = ToLower (TrimSpace s)"

fun contains :: "string list \<Rightarrow> string \<Rightarrow> bool" where
  "contains [] value = False"
| "contains (candidate # values) value = (if normalize candidate = normalize value then True else contains values value)"

definition supportsKind :: "string list \<Rightarrow> string list \<Rightarrow> bool" where
  "supportsKind available required =
     (if required = [] \<or> available = [] then True else list_ex (contains available) required)"

definition hasUsableTarget :: "application \<Rightarrow> string \<Rightarrow> fault \<Rightarrow> bool" where
  "hasUsableTarget app appKey f =
     (if \<not> supportsKind (ap_ResourceKinds app) (f_WorkloadKinds f) then False
      else if ap_Services app = [] then True
      else (let services = (if f_RequiredServices f \<noteq> [] then filter (contains (ap_Services app)) (f_RequiredServices f)
                            else ap_Services app)
            in if services = [] then False
               else list_ex (\<lambda>service. \<not> contains (f_KnownFailingTargets f) (appKey @ ''/'' @ service)) services))"

definition deriveCompatibleApps :: "raw_fault \<Rightarrow> string list \<Rightarrow> (string \<rightharpoonup> application) \<Rightarrow> string list" where
  "deriveCompatibleApps raw appKeys known =
     (if rf_Classification raw = ClassificationAppSpecific \<or> rf_RequiredApp raw \<noteq> []
      then (case known (rf_RequiredApp raw) of None \<Rightarrow> [] | Some _ \<Rightarrow> [rf_RequiredApp raw])
      else appKeys)"

text \<open>One turn of the application loop; an application without a key is skipped.\<close>

definition register_folders :: "string \<Rightarrow> string list \<Rightarrow> (string \<rightharpoonup> string) \<Rightarrow> (string \<rightharpoonup> string)" where
  "register_folders key folders m = foldl (\<lambda>m folder. m(normalize folder \<mapsto> key)) m folders"

definition register :: "catalog \<Rightarrow> application \<Rightarrow> catalog" where
  "register c app =
     (if ap_Key app = [] then c
      else c\<lparr>c_Applications := c_Applications c @ [app],
             byAppKey := (byAppKey c)(ap_Key app \<mapsto> app),
             byFolder := register_folders (ap_Key app) (ap_Folders app) (byFolder c),
             byAppNS := (if ap_Namespace app \<noteq> [] \<and> byAppNS c (normalize (ap_Namespace app)) = None
                         then (byAppNS c)(normalize (ap_Namespace app) \<mapsto> ap_Key app) else byAppNS c)\<rparr>)"

definition appKeys :: "catalog \<Rightarrow> string list" where
  "appKeys c = map ap_Key (c_Applications c)"

definition resolve_fault :: "catalog \<Rightarrow> string \<Rightarrow> raw_fault \<Rightarrow> fault" where
  "resolve_fault c name raw =
     (let f = \<lparr>f_Name = name, f_Classification = rf_Classification raw,
                f_CompatibleApps = deriveCompatibleApps raw (appKeys c) (byAppKey c),
                f_WorkloadKinds = rf_WorkloadKinds raw, f_RequiredServices = rf_RequiredServices raw,
                f_KnownFailingTargets = concat (rf_IncompatibleWith raw), f_SingleNodeDanger = rf_SingleNodeDanger raw\<rparr>
      in f\<lparr>f_CompatibleApps := filter (\<lambda>appKey. hasUsableTarget
             (case byAppKey c appKey of None \<Rightarrow> zero_application | Some a \<Rightarrow> a) appKey f) (f_CompatibleApps f)\<rparr>)"

definition add_fault :: "(string \<times> raw_fault) list \<Rightarrow> catalog \<Rightarrow> string \<Rightarrow> catalog" where
  "add_fault faults c name = (case map_of faults name of
     None \<Rightarrow> c
   | Some raw \<Rightarrow> c\<lparr>c_Faults := c_Faults c @ [resolve_fault c name raw],
                   faultIndex := (faultIndex c)(name \<mapsto> resolve_fault c name raw)\<rparr>)"

definition Build :: "application list \<Rightarrow> (string \<times> raw_fault) list \<Rightarrow> catalog" where
  "Build apps faults =
     foldl (add_fault faults) (foldl register empty_catalog (sort_key ap_Key apps)) (sort (map fst faults))"

section \<open>Queries\<close>

definition ResolveApplication :: "catalog option \<Rightarrow> string \<Rightarrow> string \<Rightarrow> application option" where
  "ResolveApplication c folder namespace = (case c of None \<Rightarrow> None | Some c \<Rightarrow>
     (let app = (\<lambda>key. Some (case byAppKey c key of None \<Rightarrow> zero_application | Some a \<Rightarrow> a)) in
      case byFolder c (normalize folder) of
        Some key \<Rightarrow> app key
      | None \<Rightarrow> (case byAppNS c (normalize namespace) of Some key \<Rightarrow> app key | None \<Rightarrow> None)))"

definition Lookup :: "catalog option \<Rightarrow> string \<Rightarrow> fault option" where
  "Lookup c faultName = (case c of None \<Rightarrow> None | Some c \<Rightarrow> faultIndex c faultName)"

definition IsFaultCompatible :: "catalog option \<Rightarrow> string \<Rightarrow> string \<Rightarrow> bool" where
  "IsFaultCompatible c faultName appKey = (case Lookup c faultName of
     None \<Rightarrow> True | Some f \<Rightarrow> list_ex (\<lambda>app. app = appKey) (f_CompatibleApps f))"

text \<open>An agent's declaration: \<^const>\<open>None\<close> is Go's nil slice.\<close>

definition IsAgentCompatible :: "string list option \<Rightarrow> string \<Rightarrow> bool" where
  "IsAgentCompatible declared appKey = (case declared of None \<Rightarrow> True | Some ds \<Rightarrow> list_ex (\<lambda>app. app = appKey) ds)"

section \<open>Loading and caching\<close>

datatype file_read = FileMissing | FileUnreadable string | FileData string

text \<open>
  \<^verbatim>\<open>loadFaults\<close>: the path comes from the environment or the hub; \<open>decode\<close> is \<^verbatim>\<open>yaml.Unmarshal\<close>, whose
  result is \<^const>\<open>None\<close> inside the sum when the document has no faults.
\<close>

definition CatalogFileName :: string where "CatalogFileName = ''fault-capabilities.yaml''"

definition CatalogPath :: "(string \<Rightarrow> string \<Rightarrow> string) \<Rightarrow> (string \<Rightarrow> string) \<Rightarrow> string \<Rightarrow> string" where
  "CatalogPath joinPath getenv faultsDir =
     (let override = TrimSpace (getenv ''FAULT_CAPABILITIES_PATH'')
      in if override \<noteq> [] then override else joinPath faultsDir CatalogFileName)"

definition loadFaults ::
  "(string \<Rightarrow> string \<Rightarrow> string) \<Rightarrow> (string \<Rightarrow> string) \<Rightarrow> (string \<Rightarrow> file_read) \<Rightarrow>
   (string \<Rightarrow> string + (string \<times> raw_fault) list option) \<Rightarrow> string \<Rightarrow> string + (string \<times> raw_fault) list" where
  "loadFaults joinPath getenv readFile decode faultsDir =
     (let path = CatalogPath joinPath getenv faultsDir in
      case readFile path of
        FileMissing \<Rightarrow> if TrimSpace (getenv ''FAULT_CAPABILITIES_PATH'') = [] then Inr []
                       else Inl (''configured fault capability catalog does not exist: '' @ path)
      | FileUnreadable err \<Rightarrow> Inl (''read fault capability catalog '' @ path @ '': '' @ err)
      | FileData data \<Rightarrow> (case decode data of
          Inl err \<Rightarrow> Inl (''parse fault capability catalog '' @ path @ '': '' @ err)
        | Inr None \<Rightarrow> Inr []
        | Inr (Some faults) \<Rightarrow> Inr faults))"

record file_stamp = fs_path :: string  fs_modTime :: int  fs_size :: int  fs_missing :: bool

record cache_entry = ce_catalog :: catalog  ce_stamps :: "file_stamp list"

type_synonym cache = "string \<rightharpoonup> cache_entry"

definition stampFile :: "(string \<Rightarrow> (int \<times> int) option) \<Rightarrow> string \<Rightarrow> file_stamp" where
  "stampFile stat path = (case stat path of
     None \<Rightarrow> \<lparr>fs_path = path, fs_modTime = 0, fs_size = 0, fs_missing = True\<rparr>
   | Some (modTime, sz) \<Rightarrow> \<lparr>fs_path = path, fs_modTime = modTime, fs_size = sz, fs_missing = False\<rparr>)"

text \<open>The entries of a directory, \<^const>\<open>None\<close> for one whose information cannot be read.\<close>

definition stampDir ::
  "(string \<Rightarrow> (int \<times> int) option) \<Rightarrow> (string \<Rightarrow> (int \<times> int) option list option) \<Rightarrow> string \<Rightarrow> file_stamp" where
  "stampDir stat readDir dir = (case stat dir of
     None \<Rightarrow> \<lparr>fs_path = dir, fs_modTime = 0, fs_size = 0, fs_missing = True\<rparr>
   | Some (modTime, _) \<Rightarrow> (case readDir dir of
       None \<Rightarrow> \<lparr>fs_path = dir, fs_modTime = modTime, fs_size = 0, fs_missing = False\<rparr>
     | Some es \<Rightarrow>
        (let (newest, total) = foldl (\<lambda>(newest, total) e. case e of
               None \<Rightarrow> (newest, total)
             | Some (t, sz) \<Rightarrow> (if t > newest then t else newest, total + sz)) (modTime, 0) es
         in \<lparr>fs_path = dir, fs_modTime = newest, fs_size = total, fs_missing = False\<rparr>)))"

fun stampsEqual :: "file_stamp list \<Rightarrow> file_stamp list \<Rightarrow> bool" where
  "stampsEqual [] [] = True"
| "stampsEqual (a # as) (b # bs) = (a = b \<and> stampsEqual as bs)"
| "stampsEqual _ _ = False"

text \<open>
  \<^verbatim>\<open>Cache.Get\<close>: \<open>current\<close> are the stamps taken before anything is read, \<open>faults\<close> and \<open>apps\<close> what the
  two loads give, used on a miss only.
\<close>

definition cache_Get ::
  "string \<Rightarrow> string \<Rightarrow> file_stamp list \<Rightarrow> string + (string \<times> raw_fault) list \<Rightarrow> string + application list \<Rightarrow>
   cache \<Rightarrow> (string + catalog) \<times> cache" where
  "cache_Get faultsDir appChartsDir current faults apps c =
     (let key = faultsDir @ [CHR 0x00] @ appChartsDir;
          miss = (case faults of Inl err \<Rightarrow> (Inl err, c)
             | Inr fs \<Rightarrow> (case apps of Inl err \<Rightarrow> (Inl err, c)
                | Inr as \<Rightarrow> (Inr (Build as fs), c(key \<mapsto> \<lparr>ce_catalog = Build as fs, ce_stamps = current\<rparr>))))
      in case c key of
           None \<Rightarrow> miss
         | Some entry \<Rightarrow> if stampsEqual (ce_stamps entry) current then (Inr (ce_catalog entry), c) else miss)"

section \<open>The application registry\<close>

record microservice = ms_Name :: string

record app_entry =
  ae_Name :: string
  ae_Aliases :: "string list"
  ae_Namespace :: string
  ae_LabelKey :: string
  ae_Microservices :: "microservice list"
  ae_ResourceKinds :: "string list"

definition registered_application :: "string \<Rightarrow> app_entry \<Rightarrow> application" where
  "registered_application defaultLabelKey e = \<lparr>ap_Key = ae_Name e, ap_Folders = ae_Name e # ae_Aliases e,
     ap_Namespace = ae_Namespace e, ap_LabelKey = (if ae_LabelKey e = [] then defaultLabelKey else ae_LabelKey e),
     ap_Services = filter (\<lambda>n. n \<noteq> []) (map ms_Name (ae_Microservices e)), ap_ResourceKinds = ae_ResourceKinds e\<rparr>"

definition registeredApplications :: "string \<Rightarrow> string + app_entry list \<Rightarrow> string + application list" where
  "registeredApplications defaultLabelKey entries = (case entries of
     Inl err \<Rightarrow> Inl (''read application registry: '' @ err)
   | Inr es \<Rightarrow> Inr (map (registered_application defaultLabelKey) (filter (\<lambda>e. ae_Name e \<noteq> []) es)))"

section \<open>What building gives\<close>

definition app_keys_ok :: "application list \<Rightarrow> bool" where
  "app_keys_ok apps = distinct (map ap_Key apps)"

definition named :: "application list \<Rightarrow> application list" where
  "named apps = filter (\<lambda>a. ap_Key a \<noteq> []) apps"

abbreviation "registry apps \<equiv> foldl register empty_catalog apps"

lemma registry_snoc: "registry (apps @ [a]) = register (registry apps) a"
  by simp

lemma registry_Applications: "c_Applications (registry apps) = named apps"
  by (induction apps rule: rev_induct) (simp_all add: empty_catalog_def register_def named_def)

lemma registry_faults: "c_Faults (registry apps) = []" "faultIndex (registry apps) = (\<lambda>_. None)"
  by (induction apps rule: rev_induct) (simp_all add: empty_catalog_def register_def)

lemma registry_byAppKey:
  "distinct (map ap_Key apps) \<Longrightarrow>
   byAppKey (registry apps) k = (if k = [] then None else find (\<lambda>a. ap_Key a = k) apps)"
proof (induction apps rule: rev_induct)
  case (snoc a apps)
  have app: "find P (xs @ [a]) = (case find P xs of None \<Rightarrow> if P a then Some a else None | Some y \<Rightarrow> Some y)"
    for P :: "application \<Rightarrow> bool" and xs by (induction xs) auto
  have "ap_Key a \<notin> ap_Key ` set apps" using snoc.prems by simp
  then have "\<forall>b \<in> set apps. ap_Key b \<noteq> ap_Key a" by (metis image_eqI)
  then have none: "find (\<lambda>b. ap_Key b = ap_Key a) apps = None" by (auto simp: find_None_iff)
  show ?case
    using snoc none by (auto simp: register_def app split: option.splits)
qed (simp add: empty_catalog_def)

text \<open>The loops keep what they do not write.\<close>

lemma add_faults_frame:
  "c_Applications (foldl (add_fault fs) c ns) = c_Applications c"
  "byAppKey (foldl (add_fault fs) c ns) = byAppKey c"
  "byFolder (foldl (add_fault fs) c ns) = byFolder c"
  "byAppNS (foldl (add_fault fs) c ns) = byAppNS c"
  by (induction ns arbitrary: c) (auto simp: add_fault_def split: option.splits)

lemma resolve_fault_cong:
  "c_Applications c = c_Applications d \<Longrightarrow> byAppKey c = byAppKey d \<Longrightarrow> resolve_fault c = resolve_fault d"
  by (intro ext) (simp add: resolve_fault_def appKeys_def)

lemma add_fault_index:
  "faultIndex (add_fault fs c m) n =
     (if n = m \<and> map_of fs m \<noteq> None then Some (resolve_fault c m (the (map_of fs m))) else faultIndex c n)"
  by (auto simp: add_fault_def split: option.splits)

lemma add_faults_index:
  "faultIndex (foldl (add_fault fs) c ns) n =
     (if n \<in> set ns \<and> map_of fs n \<noteq> None then Some (resolve_fault c n (the (map_of fs n))) else faultIndex c n)"
proof (induction ns rule: rev_induct)
  case (snoc m ns)
  have "resolve_fault (foldl (add_fault fs) c ns) = resolve_fault c"
    by (rule resolve_fault_cong) (simp_all add: add_faults_frame)
  then show ?case using snoc by (cases "map_of fs m") (auto simp: add_fault_index)
qed simp

lemma Build_faultIndex:
  "faultIndex (Build apps faults) n = map_option (resolve_fault (registry (sort_key ap_Key apps)) n) (map_of faults n)"
proof (cases "map_of faults n")
  case None
  then show ?thesis by (simp add: Build_def add_faults_index registry_faults)
next
  case (Some raw)
  then have "n \<in> fst ` set faults" by (metis domI dom_map_of_conv_image_fst)
  then show ?thesis using Some by (simp add: Build_def add_faults_index)
qed

text \<open>What a fault asks of an application, read off the raw classification.\<close>

definition pins :: "raw_fault \<Rightarrow> bool" where
  "pins raw = (rf_Classification raw = ClassificationAppSpecific \<or> rf_RequiredApp raw \<noteq> [])"

definition same_text :: "string \<Rightarrow> string \<Rightarrow> bool" where
  "same_text a b = (normalize a = normalize b)"

definition usable :: "raw_fault \<Rightarrow> application \<Rightarrow> bool" where
  "usable raw a =
     ((rf_WorkloadKinds raw = [] \<or> ap_ResourceKinds a = [] \<or>
       (\<exists>k \<in> set (rf_WorkloadKinds raw). \<exists>k' \<in> set (ap_ResourceKinds a). same_text k' k)) \<and>
      (ap_Services a = [] \<or>
       (\<exists>s \<in> set (if rf_RequiredServices raw = [] then ap_Services a else rf_RequiredServices raw).
          (\<exists>s' \<in> set (ap_Services a). same_text s' s) \<and>
          (\<forall>t \<in> set (concat (rf_IncompatibleWith raw)). \<not> same_text t (ap_Key a @ ''/'' @ s)))))"

lemma contains_iff: "contains vs v = (\<exists>c \<in> set vs. same_text c v)"
  by (induction vs) (auto simp: same_text_def)

lemma same_text_refl [simp]: "same_text s s"
  by (simp add: same_text_def)

lemma hasUsableTarget_usable:
  assumes "f_WorkloadKinds f = rf_WorkloadKinds raw" "f_RequiredServices f = rf_RequiredServices raw"
    "f_KnownFailingTargets f = concat (rf_IncompatibleWith raw)" "k = ap_Key a"
  shows "hasUsableTarget a k f = usable raw a"
proof -
  have kind: "supportsKind (ap_ResourceKinds a) (f_WorkloadKinds f) =
    (rf_WorkloadKinds raw = [] \<or> ap_ResourceKinds a = [] \<or>
       (\<exists>k \<in> set (rf_WorkloadKinds raw). \<exists>k' \<in> set (ap_ResourceKinds a). same_text k' k))"
    using assms(1) by (auto simp: supportsKind_def list_ex_iff contains_iff)
  show ?thesis
    unfolding hasUsableTarget_def usable_def kind Let_def assms(2-4)
    by (auto simp: list_ex_iff contains_iff filter_empty_conv intro: same_text_refl)
qed

lemma find_app:
  assumes "distinct (map ap_Key apps)"
  shows "find (\<lambda>a. ap_Key a = k) apps = Some a \<longleftrightarrow> a \<in> set apps \<and> ap_Key a = k"
  using assms
proof (induction apps)
  case (Cons b apps)
  have "ap_Key b \<notin> ap_Key ` set apps" using Cons.prems by simp
  then have "c \<in> set apps \<Longrightarrow> ap_Key c \<noteq> ap_Key b" for c by (metis image_eqI)
  then show ?case using Cons by auto
qed simp

lemma sorted_apps: "distinct (map ap_Key (sort_key ap_Key apps)) = distinct (map ap_Key apps)"
  by (rule mset_eq_imp_distinct_iff) simp


lemma Build_byAppKey:
  assumes "distinct (map ap_Key apps)" "k \<noteq> []"
  shows "byAppKey (Build apps faults) k = Some a \<longleftrightarrow> a \<in> set apps \<and> ap_Key a = k"
  using assms sorted_apps [of apps] find_app [of "sort_key ap_Key apps" k a]
  by (simp add: Build_def add_faults_frame registry_byAppKey)

lemma registry_appKeys: "set (appKeys (registry (sort_key ap_Key apps))) = ap_Key ` set apps - {[]}"
  by (auto simp: appKeys_def registry_Applications named_def)

lemma resolve_fault_compatible:
  assumes d: "distinct (map ap_Key apps)"
  shows "k \<in> set (f_CompatibleApps (resolve_fault (registry (sort_key ap_Key apps)) n raw)) \<longleftrightarrow>
    k \<noteq> [] \<and> (pins raw \<longrightarrow> k = rf_RequiredApp raw) \<and> (\<exists>a \<in> set apps. ap_Key a = k \<and> usable raw a)"
proof -
  let ?r = "registry (sort_key ap_Key apps)"
  have d': "distinct (map ap_Key (sort_key ap_Key apps))" using d by (simp add: sorted_apps)
  have look: "byAppKey ?r k = Some a \<longleftrightarrow> k \<noteq> [] \<and> a \<in> set apps \<and> ap_Key a = k" for k a
    using find_app [OF d', of k a] registry_byAppKey [OF d', of k] by auto
  have none: "byAppKey ?r k = None \<longleftrightarrow> k = [] \<or> (\<forall>a \<in> set apps. ap_Key a \<noteq> k)" for k
    using look [of k] by (cases "byAppKey ?r k") auto
  have derived: "k \<in> set (deriveCompatibleApps raw (appKeys ?r) (byAppKey ?r)) \<longleftrightarrow>
      k \<noteq> [] \<and> (\<exists>a \<in> set apps. ap_Key a = k) \<and> (pins raw \<longrightarrow> k = rf_RequiredApp raw)"
    using none [of "rf_RequiredApp raw"] registry_appKeys [of apps]
    by (auto simp: deriveCompatibleApps_def pins_def split: option.splits)
  have use: "hasUsableTarget (case byAppKey ?r k of None \<Rightarrow> zero_application | Some a \<Rightarrow> a) k f = usable raw a"
    if "k \<noteq> []" "a \<in> set apps" "ap_Key a = k" "f_WorkloadKinds f = rf_WorkloadKinds raw"
      "f_RequiredServices f = rf_RequiredServices raw" "f_KnownFailingTargets f = concat (rf_IncompatibleWith raw)" for a f
    using look [of k a] that hasUsableTarget_usable [of f raw k a] by simp
  have same: "a = b" if "a \<in> set apps" "b \<in> set apps" "ap_Key a = ap_Key b" for a b
    using d that by (auto simp: distinct_map inj_on_def)
  show ?thesis
  proof (cases "k \<noteq> [] \<and> (\<exists>a \<in> set apps. ap_Key a = k)")
    case True
    then obtain a where a: "k \<noteq> []" "a \<in> set apps" "ap_Key a = k" by blast
    have "(\<exists>b \<in> set apps. ap_Key b = k \<and> usable raw b) = usable raw a" using same a by metis
    then show ?thesis
      unfolding resolve_fault_def Let_def using derived use [OF a] a by auto
  next
    case False
    then show ?thesis unfolding resolve_fault_def Let_def using derived by auto
  qed
qed

text \<open>The compatibility of a fault and an application, from the raw data alone.\<close>

definition compatible_spec :: "application list \<Rightarrow> (string \<times> raw_fault) list \<Rightarrow> string \<Rightarrow> string \<Rightarrow> bool" where
  "compatible_spec apps faults n k = (case map_of faults n of
     None \<Rightarrow> True
   | Some raw \<Rightarrow> k \<noteq> [] \<and> (pins raw \<longrightarrow> k = rf_RequiredApp raw) \<and> (\<exists>a \<in> set apps. ap_Key a = k \<and> usable raw a))"

lemma Build_compatible:
  "distinct (map ap_Key apps) \<Longrightarrow> IsFaultCompatible (Some (Build apps faults)) n k = compatible_spec apps faults n k"
  using resolve_fault_compatible [of apps k n]
  by (auto simp: IsFaultCompatible_def Lookup_def Build_faultIndex compatible_spec_def list_ex_iff split: option.splits)

lemma registry_Folder:
  "byFolder (registry apps) f =
     map_option ap_Key (find (\<lambda>a. ap_Key a \<noteq> [] \<and> f \<in> normalize ` set (ap_Folders a)) (rev apps))"
proof (induction apps rule: rev_induct)
  case (snoc a apps)
  have "register_folders k fs m f = (if f \<in> normalize ` set fs then Some k else m f)" for k fs m
    by (induction fs arbitrary: m) (auto simp: register_folders_def)
  then show ?case using snoc by (simp add: register_def)
qed (simp add: empty_catalog_def)

lemma find_append: "find P (xs @ ys) = (case find P xs of None \<Rightarrow> find P ys | Some x \<Rightarrow> Some x)"
  by (induction xs) auto

lemma registry_NS:
  "byAppNS (registry apps) n =
     map_option ap_Key (find (\<lambda>a. ap_Key a \<noteq> [] \<and> ap_Namespace a \<noteq> [] \<and> normalize (ap_Namespace a) = n) apps)"
proof (induction apps rule: rev_induct)
  case (snoc a apps)
  then show ?case by (auto simp: register_def find_append split: option.splits)
qed (simp add: empty_catalog_def)

lemma map_of_mset:
  assumes "distinct (map fst faults)" "mset faults' = mset faults"
  shows "map_of faults' = map_of faults"
proof -
  have "distinct (map fst faults')" using assms by (metis mset_eq_imp_distinct_iff mset_map)
  moreover have "set faults' = set faults" using assms(2) by (rule mset_eq_setD)
  ultimately show ?thesis using assms(1) by (metis map_of_inject_set)
qed

lemma find_ordered:
  assumes "sorted_wrt r xs" "find P xs = Some a" "b \<in> set xs" "P b"
  shows "b = a \<or> r a b"
  using assms by (induction xs) (auto split: if_splits)

lemma find_Some_in: "find P xs = Some a \<Longrightarrow> a \<in> set xs \<and> P a"
  by (induction xs) (auto split: if_splits)

text \<open>Of two applications under one folder the later key wins, under one namespace the earlier key.\<close>

lemma find_sorted_least:
  assumes "distinct (map ap_Key apps)"
  shows "find P (sort_key ap_Key apps) = Some a \<longleftrightarrow>
    a \<in> set apps \<and> P a \<and> (\<forall>b \<in> set apps. P b \<longrightarrow> ap_Key a \<le> ap_Key b)" (is "?f = Some a \<longleftrightarrow> ?least a")
proof -
  have s: "sorted_wrt (\<lambda>a b. ap_Key a \<le> ap_Key b) (sort_key ap_Key apps)"
    by (metis sorted_map sorted_sort_key)
  have least: "?least b" if "?f = Some b" for b
    using find_Some_in [OF that] find_ordered [OF s that] by auto
  have unique: "b = c" if "?least b" "?least c" for b c
  proof -
    have "ap_Key b = ap_Key c" using that by (meson order_antisym)
    then show ?thesis using that assms by (auto simp: distinct_map inj_on_def)
  qed
  show ?thesis
  proof
    assume m: "?least a"
    have "?f \<noteq> None" using m by (auto simp: find_None_iff)
    then obtain b where b: "?f = Some b" by blast
    then show "?f = Some a" using unique [OF least [OF b] m] by simp
  qed (rule least)
qed

lemma find_sorted_greatest:
  assumes "distinct (map ap_Key apps)"
  shows "find P (rev (sort_key ap_Key apps)) = Some a \<longleftrightarrow>
    a \<in> set apps \<and> P a \<and> (\<forall>b \<in> set apps. P b \<longrightarrow> ap_Key b \<le> ap_Key a)" (is "?f = Some a \<longleftrightarrow> ?most a")
proof -
  have "sorted_wrt (\<lambda>a b. ap_Key a \<le> ap_Key b) (sort_key ap_Key apps)"
    by (metis sorted_map sorted_sort_key)
  then have s: "sorted_wrt (\<lambda>a b. ap_Key b \<le> ap_Key a) (rev (sort_key ap_Key apps))"
    by (simp add: sorted_wrt_rev)
  have most: "?most b" if "?f = Some b" for b
    using find_Some_in [OF that] find_ordered [OF s that] by auto
  have unique: "b = c" if "?most b" "?most c" for b c
  proof -
    have "ap_Key b = ap_Key c" using that by (meson order_antisym)
    then show ?thesis using that assms by (auto simp: distinct_map inj_on_def)
  qed
  show ?thesis
  proof
    assume m: "?most a"
    have "?f \<noteq> None" using m by (auto simp: find_None_iff)
    then obtain b where b: "?f = Some b" by blast
    then show "?f = Some a" using unique [OF most [OF b] m] by simp
  qed (rule most)
qed

definition by_folder :: "string \<Rightarrow> application \<Rightarrow> bool" where
  "by_folder folder a = (ap_Key a \<noteq> [] \<and> normalize folder \<in> normalize ` set (ap_Folders a))"

definition by_namespace :: "string \<Rightarrow> application \<Rightarrow> bool" where
  "by_namespace namespace a =
     (ap_Key a \<noteq> [] \<and> ap_Namespace a \<noteq> [] \<and> normalize (ap_Namespace a) = normalize namespace)"

lemma Resolve_finds:
  assumes "distinct (map ap_Key apps)"
  shows "ResolveApplication (Some (Build apps faults)) folder namespace =
    (case find (by_folder folder) (rev (sort_key ap_Key apps)) of Some a \<Rightarrow> Some a
     | None \<Rightarrow> find (by_namespace namespace) (sort_key ap_Key apps))"
proof -
  have look: "byAppKey (Build apps faults) (ap_Key a) = Some a" if "a \<in> set apps" "ap_Key a \<noteq> []" for a
    using Build_byAppKey [OF assms, of "ap_Key a" faults a] that by simp
  have F: "byFolder (Build apps faults) (normalize folder) = map_option ap_Key (find (by_folder folder) (rev (sort_key ap_Key apps)))"
    by (simp add: Build_def add_faults_frame registry_Folder by_folder_def [abs_def])
  have N: "byAppNS (Build apps faults) (normalize namespace) = map_option ap_Key (find (by_namespace namespace) (sort_key ap_Key apps))"
    by (simp add: Build_def add_faults_frame registry_NS by_namespace_def [abs_def])
  show ?thesis
    unfolding ResolveApplication_def option.case Let_def F N
    using look find_Some_in [of "by_folder folder" "rev (sort_key ap_Key apps)"]
      find_Some_in [of "by_namespace namespace" "sort_key ap_Key apps"]
    by (auto simp: by_folder_def by_namespace_def split: option.splits)
qed

section \<open>The interface of the catalog\<close>

text \<open>
  What a consumer of the catalog (the builder and the Save/Run validator) relies on: a step's folder
  and namespace resolve to a registered application, and a fault that is not classified may target it.
\<close>

locale fault_catalog =
  fixes resolve :: "string \<Rightarrow> string \<Rightarrow> application option"
    and compatible :: "string \<Rightarrow> string \<Rightarrow> bool"
    and registered :: "application set"
    and classified :: "string set"
  assumes resolve_registered: "resolve folder namespace = Some a \<Longrightarrow> a \<in> registered"
    and unclassified_compatible: "n \<notin> classified \<Longrightarrow> compatible n k"
    and classified_registered: "n \<in> classified \<Longrightarrow> compatible n k \<Longrightarrow> \<exists>a \<in> registered. ap_Key a = k"
begin

text \<open>The faults of a list the catalog allows against an application.\<close>

lemma allowed_unclassified: "set ns \<inter> classified = {} \<Longrightarrow> filter (\<lambda>n. compatible n k) ns = ns"
  by (induction ns) (auto simp: unclassified_compatible)

lemma unregistered_allowed:
  assumes "\<forall>a \<in> registered. ap_Key a \<noteq> k"
  shows "set (filter (\<lambda>n. compatible n k) ns) \<inter> classified = {}"
  using assms classified_registered by fastforce

end

lemma resolve_in_registry:
  assumes "distinct (map ap_Key apps)" "ResolveApplication (Some (Build apps faults)) folder namespace = Some a"
  shows "a \<in> set apps"
  using assms(2) find_Some_in [of "by_folder folder" "rev (sort_key ap_Key apps)"]
    find_Some_in [of "by_namespace namespace" "sort_key ap_Key apps"]
  unfolding Resolve_finds [OF assms(1)] by (auto split: option.splits)

text \<open>The built catalog, over any registry made to have distinct keys, provides the interface.\<close>

interpretation built: fault_catalog
  "ResolveApplication (Some (Build (if distinct (map ap_Key apps) then apps else []) faults))"
  "IsFaultCompatible (Some (Build (if distinct (map ap_Key apps) then apps else []) faults))"
  "set apps" "fst ` set faults" for apps faults
proof unfold_locales
  let ?apps = "if distinct (map ap_Key apps) then apps else []"
  have d: "distinct (map ap_Key ?apps)" by simp
  show "a \<in> set apps" if "ResolveApplication (Some (Build ?apps faults)) folder namespace = Some a" for folder namespace a
    using resolve_in_registry [OF d that] by (simp split: if_splits)
  show "IsFaultCompatible (Some (Build ?apps faults)) n k" if "n \<notin> fst ` set faults" for n k
  proof -
    have "map_of faults n = None" using that by (simp add: map_of_eq_None_iff)
    then show ?thesis unfolding Build_compatible [OF d] by (simp add: compatible_spec_def)
  qed
  show "\<exists>a \<in> set apps. ap_Key a = k"
    if n: "n \<in> fst ` set faults" "IsFaultCompatible (Some (Build ?apps faults)) n k" for n k
  proof -
    have "map_of faults n \<noteq> None" using n(1) by (simp add: map_of_eq_None_iff)
    then have "\<exists>a \<in> set ?apps. ap_Key a = k"
      using n(2) unfolding Build_compatible [OF d] compatible_spec_def by auto
    then show ?thesis by (auto split: if_splits)
  qed
qed

section \<open>Properties\<close>

text \<open>C5.
  Over a registry with distinct keys, a fault may target an application exactly when it has no catalog
  entry, or the application is registered, is the pinned one if the fault pins one, and offers a
  usable target: a resource kind the fault addresses (unless either side declares none) and, unless
  the application lists no services, a service that is among the required ones and not known to fail,
  names compared without case and surrounding space.\<close>

theorem fault_compatible_exact:
  assumes "distinct (map ap_Key apps)"
  shows "IsFaultCompatible (Some (Build apps faults)) n k \<longleftrightarrow>
    (case map_of faults n of None \<Rightarrow> True
     | Some raw \<Rightarrow> k \<noteq> [] \<and>
         (rf_Classification raw = ''application-specific'' \<or> rf_RequiredApp raw \<noteq> [] \<longrightarrow> k = rf_RequiredApp raw) \<and>
         (\<exists>a \<in> set apps. ap_Key a = k \<and> usable raw a))"
  unfolding Build_compatible [OF assms] compatible_spec_def pins_def ClassificationAppSpecific_def ..

definition boutique :: application where
  "boutique = \<lparr>ap_Key = ''bo'', ap_Folders = [''bo'', ''Shop''], ap_Namespace = ''shop'', ap_LabelKey = ''app'',
     ap_Services = [''cart'', ''ad''], ap_ResourceKinds = [''Deployment'']\<rparr>"

definition cart_fault :: raw_fault where
  "cart_fault = \<lparr>rf_Classification = ''generic'', rf_WorkloadKinds = [''deployment''], rf_RequiredApp = [],
     rf_RequiredServices = [''cart''], rf_IncompatibleWith = [[''bo/ad''], [''BO/cart '']], rf_SingleNodeDanger = False\<rparr>"

lemma normalize_failing: "normalize ''BO/cart '' = normalize ''bo/cart''"
  by (simp add: normalize_def go_string_simps char_of_def bit_Suc_0_iff)

lemma fault_compatible_exact_witness:
  "\<not> IsFaultCompatible (Some (Build [boutique] [(''pod-delete'', cart_fault)])) ''pod-delete'' ''bo''"
proof -
  have "\<not> usable cart_fault boutique"
    by (auto simp: usable_def cart_fault_def boutique_def same_text_def normalize_failing [symmetric])
  then show ?thesis
    using fault_compatible_exact [of "[boutique]" "[(''pod-delete'', cart_fault)]" "''pod-delete''" "''bo''"] by simp
qed

text \<open>Onboarding an application never changes what any fault may do to another one, and the order in which
  the hubs list applications and faults does not matter.\<close>

theorem onboarding_is_local:
  assumes "distinct (map ap_Key apps)" "distinct (map ap_Key apps')" "set apps' = insert a (set apps)"
    "distinct (map fst faults)" "mset faults' = mset faults" "k \<noteq> ap_Key a"
  shows "IsFaultCompatible (Some (Build apps' faults')) n k = IsFaultCompatible (Some (Build apps faults)) n k"
proof -
  have "map_of faults' = map_of faults"
    by (rule map_of_mset [OF assms(4,5)])
  then show ?thesis
    using assms(3,6) unfolding Build_compatible [OF assms(1)] Build_compatible [OF assms(2)] compatible_spec_def
    by (auto split: option.splits)
qed


lemma onboarding_is_local_witness:
  "IsFaultCompatible (Some (Build [boutique, zero_application\<lparr>ap_Key := ''x''\<rparr>] [(''pod-delete'', cart_fault)])) ''pod-delete'' ''bo'' =
   IsFaultCompatible (Some (Build [boutique] [(''pod-delete'', cart_fault)])) ''pod-delete'' ''bo''"
  by (rule onboarding_is_local [where a = "zero_application\<lparr>ap_Key := ''x''\<rparr>"])
     (auto simp: boutique_def zero_application_def)

text \<open>The application an install step installs: one whose chart folder or alias the step names, whatever
  the namespace (of several, the one with the last key), otherwise one in the step's namespace (of
  several, the one with the first key), and none in all other cases.\<close>

theorem folder_wins_over_namespace:
  assumes "distinct (map ap_Key apps)"
  shows "ResolveApplication (Some (Build apps faults)) folder namespace = Some a \<longleftrightarrow>
    a \<in> set apps \<and>
    (if \<exists>b \<in> set apps. by_folder folder b
     then by_folder folder a \<and> (\<forall>b \<in> set apps. by_folder folder b \<longrightarrow> ap_Key b \<le> ap_Key a)
     else by_namespace namespace a \<and> (\<forall>b \<in> set apps. by_namespace namespace b \<longrightarrow> ap_Key a \<le> ap_Key b))"
proof (cases "find (by_folder folder) (rev (sort_key ap_Key apps))")
  case None
  then have "\<not> (\<exists>b \<in> set apps. by_folder folder b)" by (simp add: find_None_iff)
  then show ?thesis
    using None unfolding Resolve_finds [OF assms] by (simp add: find_sorted_least [OF assms])
next
  case (Some b)
  have "\<exists>b \<in> set apps. by_folder folder b" using find_Some_in [OF Some] by auto
  then show ?thesis
    using Some find_sorted_greatest [OF assms, of "by_folder folder" a]
    unfolding Resolve_finds [OF assms] by auto
qed

lemma shop_folder: "normalize '' SHOP'' = normalize ''Shop''"
  by (simp add: normalize_def go_string_simps char_of_def bit_Suc_0_iff)

lemma folder_wins_over_namespace_witness:
  "ResolveApplication (Some (Build [boutique] [])) '' SHOP'' ''elsewhere'' = Some boutique"
proof -
  have "by_folder '' SHOP'' boutique" by (simp add: by_folder_def boutique_def shop_folder)
  then show ?thesis
    using folder_wins_over_namespace [of "[boutique]" "[]" "'' SHOP''" "''elsewhere''" boutique] by simp
qed

text \<open>What a request finds on disk: the stamps, and what the two loads would give.\<close>

record snapshot =
  sn_stamps :: "file_stamp list"
  sn_faults :: "string + (string \<times> raw_fault) list"
  sn_apps :: "string + application list"

definition fresh :: "snapshot \<Rightarrow> string + catalog" where
  "fresh w = (case sn_faults w of Inl err \<Rightarrow> Inl err
     | Inr fs \<Rightarrow> (case sn_apps w of Inl err \<Rightarrow> Inl err | Inr as \<Rightarrow> Inr (Build as fs)))"

fun cache_run :: "(string \<times> string \<times> snapshot) list \<Rightarrow> cache \<Rightarrow> (string + catalog) list" where
  "cache_run [] c = []"
| "cache_run ((f, d, w) # ws) c =
     (let (r, c') = cache_Get f d (sn_stamps w) (sn_faults w) (sn_apps w) c in r # cache_run ws c')"

lemma stampsEqual_eq: "stampsEqual a b = (a = b)"
  by (induction a b rule: stampsEqual.induct) auto

definition cache_key :: "string \<Rightarrow> string \<Rightarrow> string" where
  "cache_key f d = f @ [CHR 0x00] @ d"

text \<open>Every cached catalog is the fresh one of all requests with its key and stamps.\<close>

definition cache_ok :: "(string \<times> string \<times> snapshot) set \<Rightarrow> cache \<Rightarrow> bool" where
  "cache_ok W c = (\<forall>f d w entry. (f, d, w) \<in> W \<longrightarrow> c (cache_key f d) = Some entry \<longrightarrow>
     ce_stamps entry = sn_stamps w \<longrightarrow> fresh w = Inr (ce_catalog entry))"

definition stamps_faithful :: "(string \<times> string \<times> snapshot) set \<Rightarrow> bool" where
  "stamps_faithful W = (\<forall>f d w f' d' w'. (f, d, w) \<in> W \<longrightarrow> (f', d', w') \<in> W \<longrightarrow>
     cache_key f d = cache_key f' d' \<longrightarrow> sn_stamps w = sn_stamps w' \<longrightarrow> fresh w = fresh w')"

lemma cache_Get_ok:
  assumes "stamps_faithful W" "(f, d, w) \<in> W" "cache_ok W c"
    "cache_Get f d (sn_stamps w) (sn_faults w) (sn_apps w) c = (r, c')"
  shows "r = fresh w" "cache_ok W c'"
proof -
  have store: "cache_ok W (c(cache_key f d \<mapsto> \<lparr>ce_catalog = cat, ce_stamps = sn_stamps w\<rparr>))"
    if "fresh w = Inr cat" for cat
    unfolding cache_ok_def
  proof (intro allI impI)
    fix f' d' w' entry
    assume w': "(f', d', w') \<in> W" and e: "(c(cache_key f d \<mapsto> \<lparr>ce_catalog = cat, ce_stamps = sn_stamps w\<rparr>)) (cache_key f' d') = Some entry"
      and s: "ce_stamps entry = sn_stamps w'"
    show "fresh w' = Inr (ce_catalog entry)"
    proof (cases "cache_key f' d' = cache_key f d")
      case True
      then have "entry = \<lparr>ce_catalog = cat, ce_stamps = sn_stamps w\<rparr>" using e by simp
      moreover then have "sn_stamps w = sn_stamps w'" using s by simp
      then have "fresh w' = fresh w"
        using assms(1) w' assms(2) True unfolding stamps_faithful_def by metis
      ultimately show ?thesis using \<open>fresh w = Inr cat\<close> by simp
    next
      case False
      then show ?thesis using assms(3) w' e s unfolding cache_ok_def by simp
    qed
  qed
  have hit: "fresh w = Inr (ce_catalog entry)" if "c (cache_key f d) = Some entry" "ce_stamps entry = sn_stamps w" for entry
    using assms(2,3) that unfolding cache_ok_def by blast
  have get: "(r, c') = (case c (cache_key f d) of
        Some entry \<Rightarrow> if ce_stamps entry = sn_stamps w then (Inr (ce_catalog entry), c)
          else (fresh w, case fresh w of Inl _ \<Rightarrow> c | Inr cat \<Rightarrow> c(cache_key f d \<mapsto> \<lparr>ce_catalog = cat, ce_stamps = sn_stamps w\<rparr>))
      | None \<Rightarrow> (fresh w, case fresh w of Inl _ \<Rightarrow> c | Inr cat \<Rightarrow> c(cache_key f d \<mapsto> \<lparr>ce_catalog = cat, ce_stamps = sn_stamps w\<rparr>)))"
    unfolding assms(4) [symmetric] cache_Get_def Let_def stampsEqual_eq
    by (simp add: cache_key_def fresh_def split: option.split sum.split)
  show "r = fresh w" using get hit by (auto split: option.splits if_splits)
  show "cache_ok W c'" using get store assms(3) by (auto split: option.splits if_splits sum.splits)
qed

text \<open>The cache is transparent: as long as equal stamps of the same directories mean equal content, every
  request of every sequence gets what building from the files at that moment would give, errors
  included; an error is never cached.\<close>

theorem cache_transparent:
  assumes "stamps_faithful (set ws)"
  shows "cache_run ws (\<lambda>_. None) = map (\<lambda>(f, d, w). fresh w) ws"
proof -
  have "cache_run vs c = map (\<lambda>(f, d, w). fresh w) vs" if "cache_ok (set ws) c" "set vs \<subseteq> set ws" for vs c
    using that
  proof (induction vs arbitrary: c)
    case (Cons v vs)
    obtain f d w where v: "v = (f, d, w)" by (cases v)
    obtain r c' where g: "cache_Get f d (sn_stamps w) (sn_faults w) (sn_apps w) c = (r, c')" by fastforce
    have "(f, d, w) \<in> set ws" using Cons.prems(2) v by simp
    then show ?case
      using cache_Get_ok [OF assms _ Cons.prems(1) g] Cons.IH [of c'] Cons.prems(2) v g by simp
  qed simp
  then show ?thesis by (simp add: cache_ok_def)
qed

definition one_snapshot :: snapshot where
  "one_snapshot = \<lparr>sn_stamps = [], sn_faults = Inr [(''pod-delete'', cart_fault)], sn_apps = Inr [boutique]\<rparr>"

lemma cache_transparent_witness:
  "cache_run [(''f'', ''a'', one_snapshot), (''f'', ''a'', one_snapshot)] (\<lambda>_. None) =
    [Inr (Build [boutique] [(''pod-delete'', cart_fault)]), Inr (Build [boutique] [(''pod-delete'', cart_fault)])]"
proof -
  have "stamps_faithful (set [(''f'', ''a'', one_snapshot), (''f'', ''a'', one_snapshot)])"
    by (simp add: stamps_faithful_def)
  from cache_transparent [OF this] show ?thesis by (simp add: fresh_def one_snapshot_def)
qed

end
