(* ===== verification/Chart_Config.thy ===== *)
theory Chart_Config
  imports Go_Prelude
begin

text \<open>
  The settings a chart offers to the experiment builder (\<^verbatim>\<open>graphql/server/pkg/chartconfig\<close>): the
  declarations of a chart's \<^verbatim>\<open>values.yaml\<close>, the settings document the builder sends back, and its
  validation. A decoded YAML or JSON value is a \<open>gval\<close> with the Go type it decodes to; a map is its
  list of entries. The decoders, the regular expressions a chart supplies and IEEE floating point
  (the record \<open>floats\<close> of the operations used) are parameters; the one regular expression written in
  the package, of secret names, is modelled.
\<close>

section \<open>Values\<close>

datatype 'f gval =
    GStr string
  | GBool bool
  | GInt int
  | GInt64 int
  | GUint64 int
  | GFloat 'f
  | GNumber string
  | GList "'f gval list"
  | GMap "(string \<times> 'f gval) list"
  | GNil

record 'f floats =
  fle :: "'f \<Rightarrow> 'f \<Rightarrow> bool"
  fnan :: "'f \<Rightarrow> bool"
  finf :: "'f \<Rightarrow> bool"
  fof_int :: "int \<Rightarrow> 'f"
  fparse :: "string \<Rightarrow> 'f option"
  fformat :: "'f \<Rightarrow> string"

record regexes =
  rx_compiles :: "string \<Rightarrow> bool"
  rx_match :: "string \<Rightarrow> string \<Rightarrow> bool"

datatype kind = KindString | KindInteger | KindNumber | KindBoolean

record 'f field =
  fd_Key :: string
  fd_Label :: string
  fd_Description :: string
  fd_Type :: string
  fd_Kind :: kind
  fd_Default :: "'f gval"
  fd_Required :: bool
  fd_Min :: "'f option"
  fd_Max :: "'f option"
  fd_Pattern :: string
  fd_Options :: "string list"
  fd_Group :: string
  fd_Advanced :: bool

record 'f declared =
  de_Key :: string
  de_Label :: string
  de_Description :: string
  de_Type :: string
  de_Required :: bool
  de_Min :: "'f option"
  de_Max :: "'f option"
  de_Pattern :: string
  de_Options :: "string list"
  de_Group :: string
  de_Advanced :: bool

text \<open>The YAML and JSON decoders: a document, the strictly decoded declarations, a settings document.\<close>

record 'f decoders =
  yaml_doc :: "string \<Rightarrow> (string \<times> 'f gval) list option"
  yaml_decls :: "'f gval \<Rightarrow> 'f declared list option"
  json_settings :: "string \<Rightarrow> (string \<times> 'f gval) list option"

definition TypeString :: string where "TypeString = ''string''"
definition TypeText :: string where "TypeText = ''text''"
definition TypeInteger :: string where "TypeInteger = ''integer''"
definition TypeNumber :: string where "TypeNumber = ''number''"
definition TypeBoolean :: string where "TypeBoolean = ''boolean''"
definition TypeSelect :: string where "TypeSelect = ''select''"
definition TypeModel :: string where "TypeModel = ''model''"

lemmas type_defs = TypeString_def TypeText_def TypeInteger_def TypeNumber_def TypeBoolean_def TypeSelect_def TypeModel_def

datatype setting_error =
    NotText | NotBoolean | NotNumber | NotWhole | HasTemplate | IsRequired | BadInteger | BadNumber
  | BelowMin | AboveMax | BadBoolean | BadOption | NoModel | BadPattern | NotOffered

datatype declaration_error =
    NotYAML | BadBlock | BadKey | PlatformOwned | SecretKey | NoSuchKey | NotScalar | NeedsString | NeedsOptions | NoType | UnknownType
  | OptionsNotAllowed | BoundsNotAllowed | BoundsCrossed | BoundsNotFinite | PatternNotAllowed | PatternBroken
  | BadDefault setting_error | Duplicate

section \<open>Platform-owned and secret keys\<close>

definition platformOwnedKeys :: "string list" where
  "platformOwnedKeys =
    [''config.openaiApiKey'', ''config.openaiBaseUrl'', ''agentId'', ''namespaces.bookInfo'', ''namespaces.otelDemo'',
     ''namespaces.sockShop'', ''agent.config.AGENT_ID'', ''agent.config.MCP_INCLUDE_CHAOS_TOOLS'',
     ''agent.config.NOTIFY_ID'', ''agent.config.EXPERIMENT_ID'', ''agent.config.EXPERIMENT_RUN_ID'',
     ''agent.config.WORKFLOW_NAME'', ''agent.config.WORKFLOW_UID'', ''agent.config.OPENAI_API_KEY'',
     ''agent.secret.LITELLM_MASTER_KEY'', ''agent.config.OPENAI_BASE_URL'', ''agent.config.LANGFUSE_HOST'',
     ''agent.secret.LANGFUSE_PUBLIC_KEY'', ''agent.secret.LANGFUSE_SECRET_KEY'', ''agent.config.MCP_URLS'',
     ''agent.config.K8S_MCP_URL'', ''agent.config.PROM_MCP_URL'', ''agent.config.CHAOS_NAMESPACE'',
     ''agent.config.K8S_NAMESPACE'', ''agent.config.TARGET_APP_NAME'', ''agent.config.TARGET_NAMESPACE'',
     ''agent.config.AGENT_MAX_RUNTIME_SECONDS'', ''agent.config.AGENT_IDLE_AFTER_MAX_RUNTIME'',
     ''agent.config.MODEL_ALIAS'', ''agent.config.AGENT_MODE'', ''agent.config.AGENT_SCOPE_NAMESPACE'',
     ''agent.config.MITIGATION_ALLOW_DISCOVERED_SCOPE'', ''agent.config.MITIGATION_REVIEW_ITERS'',
     ''agent.config.MITIGATION_AUDIT_PATH'', ''agent.config.AGENT_MEMORY_PATH'', ''agent.config.MEMORY_TTL_DAYS'',
     ''agent.config.REVIEWER_MODEL_ALIAS'', ''agent.config.GROUND_TRUTH_JSON'', ''sidecar.enabled'',
     ''sidecar.injectionMode'', ''sidecar.upstream'', ''sidecar.image.registry'', ''sidecar.image.repository'',
     ''sidecar.image.tag'', ''sidecar.image.pullPolicy'']"

definition ModelAliasKey :: string where "ModelAliasKey = ''agent.config.MODEL_ALIAS''"

definition IsPlatformOwned :: "string \<Rightarrow> bool" where
  "IsPlatformOwned key = List.member platformOwnedKeys key"

definition IsUserSettable :: "string \<Rightarrow> bool" where
  "IsUserSettable key = (key = ModelAliasKey)"

text \<open>\<^verbatim>\<open>DefaultAgentModelAlias\<close>: the first of three environment variables that is set.\<close>

definition DefaultAgentModelAlias :: "(string \<Rightarrow> string) \<Rightarrow> string" where
  "DefaultAgentModelAlias getenv =
     (case filter (\<lambda>v. v \<noteq> []) (map (\<lambda>k. TrimSpace (getenv k)) [''FLASH_AGENT_MODEL'', ''MODEL_ALIAS'', ''AZURE_OPENAI_DEPLOYMENT'']) of
        [] \<Rightarrow> [] | v # _ \<Rightarrow> v)"

text \<open>
  The pattern of secret names: one of its words, with the start of the segment or a separator before
  it and the end or a separator after it; the optional letters of the pattern are spelled out.
\<close>

definition secret_words :: "string list" where
  "secret_words = [''password'', ''passwd'', ''secret'', ''token'', ''apikey'', ''api_key'', ''credential'',
     ''credentials'', ''privatekey'', ''private_key'']"

definition separator :: "char \<Rightarrow> bool" where
  "separator c = (c = CHR ''_'' \<or> c = CHR ''-'')"

definition word_here :: "string \<Rightarrow> string \<Rightarrow> bool" where
  "word_here s w = (HasPrefix s w \<and> (case drop (length w) s of [] \<Rightarrow> True | c # _ \<Rightarrow> separator c))"

fun secret_from :: "bool \<Rightarrow> string \<Rightarrow> bool" where
  "secret_from boundary [] = False"
| "secret_from boundary (c # s) = (boundary \<and> list_ex (word_here (c # s)) secret_words \<or> secret_from (separator c) s)"

definition secretSegment :: "string \<Rightarrow> bool" where
  "secretSegment s = secret_from True s"

definition IsSecretKey :: "string \<Rightarrow> bool" where
  "IsSecretKey key = (if HasPrefix key ''agent.secret.'' then True
     else list_ex (\<lambda>segment. secretSegment (ToLower segment)) (SplitByte key CHR ''.''))"

section \<open>Reading values\<close>

definition isValidKey :: "string \<Rightarrow> bool" where
  "isValidKey key = (key \<noteq> [] \<and> list_all (\<lambda>segment. segment \<noteq> []) (SplitByte key CHR ''.''))"

fun lookup_path :: "'f gval \<Rightarrow> string list \<Rightarrow> 'f gval option" where
  "lookup_path v [] = Some v"
| "lookup_path v (segment # path) = (case v of
     GMap m \<Rightarrow> (case map_of m segment of None \<Rightarrow> None | Some w \<Rightarrow> lookup_path w path)
   | _ \<Rightarrow> None)"

definition lookup :: "(string \<times> 'f gval) list \<Rightarrow> string \<Rightarrow> 'f gval option" where
  "lookup doc key = lookup_path (GMap doc) (SplitByte key CHR ''.'')"

fun scalar :: "'f gval \<Rightarrow> ('f gval \<times> kind) option" where
  "scalar (GStr s) = Some (GStr s, KindString)"
| "scalar (GBool b) = Some (GBool b, KindBoolean)"
| "scalar (GInt n) = Some (GInt64 n, KindInteger)"
| "scalar (GInt64 n) = Some (GInt64 n, KindInteger)"
| "scalar (GUint64 n) = (if n > 2 ^ 63 - 1 then None else Some (GInt64 n, KindInteger))"
| "scalar (GFloat x) = Some (GFloat x, KindNumber)"
| "scalar _ = None"

fun textOf :: "'f floats \<Rightarrow> 'f gval \<Rightarrow> string option" where
  "textOf F (GNumber t) = Some t"
| "textOf F (GStr s) = Some s"
| "textOf F (GBool b) = Some (if b then ''true'' else ''false'')"
| "textOf F (GInt64 n) = Some (FormatInt n)"
| "textOf F (GFloat x) = Some (fformat F x)"
| "textOf F _ = None"

fun isNumber :: "'f gval \<Rightarrow> bool" where
  "isNumber (GNumber _) = True"
| "isNumber (GInt64 _) = True"
| "isNumber (GFloat _) = True"
| "isNumber _ = False"

definition text_or_empty :: "'f floats \<Rightarrow> 'f gval \<Rightarrow> string" where
  "text_or_empty F v = (case textOf F v of None \<Rightarrow> [] | Some t \<Rightarrow> t)"

section \<open>Checking one value\<close>

definition checkKind :: "'f floats \<Rightarrow> 'f field \<Rightarrow> 'f gval \<Rightarrow> setting_error option" where
  "checkKind F f v = (case fd_Kind f of
     KindString \<Rightarrow> (case v of GStr _ \<Rightarrow> None | _ \<Rightarrow> Some NotText)
   | KindBoolean \<Rightarrow> (case v of GBool _ \<Rightarrow> None | _ \<Rightarrow> Some NotBoolean)
   | KindNumber \<Rightarrow> (if isNumber v then None else Some NotNumber)
   | KindInteger \<Rightarrow> (if \<not> isNumber v then Some NotNumber
                    else if ParseInt (text_or_empty F v) = None then Some NotWhole else None))"

definition checkRange :: "'f floats \<Rightarrow> 'f field \<Rightarrow> 'f \<Rightarrow> setting_error option" where
  "checkRange F f n = (case fd_Min f of
     Some lo \<Rightarrow> if \<not> fnan F lo \<and> \<not> fnan F n \<and> \<not> fle F lo n then Some BelowMin
               else (case fd_Max f of Some hi \<Rightarrow> if \<not> fnan F hi \<and> \<not> fnan F n \<and> \<not> fle F n hi then Some AboveMax else None
                     | None \<Rightarrow> None)
   | None \<Rightarrow> (case fd_Max f of Some hi \<Rightarrow> if \<not> fnan F hi \<and> \<not> fnan F n \<and> \<not> fle F n hi then Some AboveMax else None
              | None \<Rightarrow> None))"

definition checkType :: "'f floats \<Rightarrow> regexes \<Rightarrow> 'f field \<Rightarrow> string \<Rightarrow> setting_error option" where
  "checkType F R f text =
     (if fd_Type f = TypeInteger then
        (case ParseInt (TrimSpace text) of None \<Rightarrow> Some BadInteger | Some n \<Rightarrow> checkRange F f (fof_int F n))
      else if fd_Type f = TypeNumber then
        (case fparse F (TrimSpace text) of None \<Rightarrow> Some BadNumber
         | Some n \<Rightarrow> if fnan F n \<or> finf F n then Some BadNumber else checkRange F f n)
      else if fd_Type f = TypeBoolean then (if text \<noteq> ''true'' \<and> text \<noteq> ''false'' then Some BadBoolean else None)
      else if fd_Type f = TypeSelect then (if list_ex (\<lambda>option. text = option) (fd_Options f) then None else Some BadOption)
      else if fd_Type f = TypeModel then (if TrimSpace text = [] then Some NoModel else None)
      else if fd_Type f = TypeString \<or> fd_Type f = TypeText then
        (if fd_Pattern f \<noteq> [] \<and> \<not> rx_match R (fd_Pattern f) text then Some BadPattern else None)
      else None)"

definition checkValue :: "'f floats \<Rightarrow> regexes \<Rightarrow> 'f field \<Rightarrow> 'f gval \<Rightarrow> setting_error option" where
  "checkValue F R f v = (case checkKind F f v of
     Some err \<Rightarrow> Some err
   | None \<Rightarrow>
      (let text = text_or_empty F v in
       if fd_Kind f = KindString \<and> Contains text ''{{'' then Some HasTemplate
       else if fd_Required f \<and> TrimSpace text = [] then Some IsRequired
       else if \<not> fd_Required f \<and> TrimSpace text = [] \<and> (fd_Type f = TypeInteger \<or> fd_Type f = TypeNumber) then None
       else checkType F R f text))"

section \<open>Declarations\<close>

definition finite_bounds :: "'f floats \<Rightarrow> 'f field \<Rightarrow> bool" where
  "finite_bounds F f =
     ((case fd_Min f of None \<Rightarrow> True | Some lo \<Rightarrow> \<not> fnan F lo \<and> \<not> finf F lo) \<and>
      (case fd_Max f of None \<Rightarrow> True | Some hi \<Rightarrow> \<not> fnan F hi \<and> \<not> finf F hi))"

definition crossed_bounds :: "'f floats \<Rightarrow> 'f field \<Rightarrow> bool" where
  "crossed_bounds F f = (case (fd_Min f, fd_Max f) of
     (Some lo, Some hi) \<Rightarrow> \<not> fnan F lo \<and> \<not> fnan F hi \<and> \<not> fle F lo hi | _ \<Rightarrow> False)"

definition checkDeclaration :: "'f floats \<Rightarrow> regexes \<Rightarrow> 'f field \<Rightarrow> declaration_error option" where
  "checkDeclaration F R f =
     (if (fd_Type f = TypeString \<or> fd_Type f = TypeText \<or> fd_Type f = TypeModel \<or> fd_Type f = TypeSelect) \<and>
         fd_Kind f \<noteq> KindString then Some NeedsString
      else if fd_Type f = TypeSelect \<and> fd_Options f = [] then Some NeedsOptions
      else if fd_Type f = [] then Some NoType
      else if \<not> List.member [TypeString, TypeText, TypeModel, TypeSelect, TypeInteger, TypeNumber, TypeBoolean] (fd_Type f)
      then Some UnknownType
      else if fd_Options f \<noteq> [] \<and> fd_Type f \<noteq> TypeSelect then Some OptionsNotAllowed
      else if (fd_Min f \<noteq> None \<or> fd_Max f \<noteq> None) \<and> fd_Type f \<noteq> TypeInteger \<and> fd_Type f \<noteq> TypeNumber
      then Some BoundsNotAllowed
      else if crossed_bounds F f then Some BoundsCrossed
      else if \<not> finite_bounds F f then Some BoundsNotFinite
      else if fd_Pattern f \<noteq> [] \<and> fd_Type f \<noteq> TypeString \<and> fd_Type f \<noteq> TypeText then Some PatternNotAllowed
      else if fd_Pattern f \<noteq> [] \<and> \<not> rx_compiles R (fd_Pattern f) then Some PatternBroken
      else if fd_Type f = TypeModel then None
      else (case checkValue F R f (fd_Default f) of Some err \<Rightarrow> Some (BadDefault err) | None \<Rightarrow> None))"

text \<open>The label defaults to the last segment of the key.\<close>

definition last_key_segment :: "string \<Rightarrow> string" where
  "last_key_segment key = (case LastIndexByte key CHR ''.'' of None \<Rightarrow> key | Some i \<Rightarrow> drop (i + 1) key)"

definition field_of :: "'f declared \<Rightarrow> string \<Rightarrow> 'f gval \<Rightarrow> kind \<Rightarrow> 'f field" where
  "field_of decl key def kind = \<lparr>fd_Key = key,
     fd_Label = (if TrimSpace (de_Label decl) = [] then last_key_segment key else TrimSpace (de_Label decl)),
     fd_Description = TrimSpace (de_Description decl), fd_Type = TrimSpace (de_Type decl), fd_Kind = kind,
     fd_Default = def, fd_Required = de_Required decl, fd_Min = de_Min decl, fd_Max = de_Max decl,
     fd_Pattern = de_Pattern decl, fd_Options = de_Options decl, fd_Group = TrimSpace (de_Group decl),
     fd_Advanced = de_Advanced decl\<rparr>"

definition newField ::
  "'f floats \<Rightarrow> regexes \<Rightarrow> 'f declared \<Rightarrow> (string \<times> 'f gval) list \<Rightarrow> declaration_error + 'f field" where
  "newField F R decl doc =
     (let key = TrimSpace (de_Key decl) in
      if \<not> isValidKey key then Inl BadKey
      else if IsPlatformOwned key \<and> \<not> IsUserSettable key then Inl PlatformOwned
      else if IsSecretKey key then Inl SecretKey
      else (case lookup doc key of
        None \<Rightarrow> Inl NoSuchKey
      | Some raw \<Rightarrow> (case scalar raw of
          None \<Rightarrow> Inl NotScalar
        | Some (def, kind) \<Rightarrow>
            (case checkDeclaration F R (field_of decl key def kind) of
               Some err \<Rightarrow> Inl err
             | None \<Rightarrow> Inr (field_of decl key def kind)))))"

text \<open>\<^verbatim>\<open>Parse\<close> after decoding: all errors are collected, and any of them fails the chart.\<close>

fun parse_loop ::
  "'f floats \<Rightarrow> regexes \<Rightarrow> (string \<times> 'f gval) list \<Rightarrow> 'f declared list \<Rightarrow> string list \<Rightarrow>
   'f field list \<times> declaration_error list" where
  "parse_loop F R doc [] seen = ([], [])"
| "parse_loop F R doc (decl # decls) seen = (case newField F R decl doc of
     Inl err \<Rightarrow> (let (fs, errs) = parse_loop F R doc decls seen in (fs, err # errs))
   | Inr f \<Rightarrow> if List.member seen (fd_Key f)
              then (let (fs, errs) = parse_loop F R doc decls seen in (fs, Duplicate # errs))
              else (let (fs, errs) = parse_loop F R doc decls (fd_Key f # seen) in (f # fs, errs)))"

definition parse_declarations ::
  "'f floats \<Rightarrow> regexes \<Rightarrow> (string \<times> 'f gval) list \<Rightarrow> 'f declared list \<Rightarrow> declaration_error list + 'f field list" where
  "parse_declarations F R doc decls = (case parse_loop F R doc decls [] of
     (fs, errs) \<Rightarrow> if errs \<noteq> [] then Inl errs else Inr fs)"

definition Parse ::
  "'f floats \<Rightarrow> regexes \<Rightarrow> 'f decoders \<Rightarrow> string \<Rightarrow> declaration_error list + 'f field list" where
  "Parse F R D valuesYAML = (case yaml_doc D valuesYAML of
     None \<Rightarrow> Inl [NotYAML]
   | Some doc \<Rightarrow> (case map_of doc ''configurations'' of
       None \<Rightarrow> Inr []
     | Some GNil \<Rightarrow> Inr []
     | Some block \<Rightarrow> (case yaml_decls D block of
         None \<Rightarrow> Inl [BadBlock]
       | Some decls \<Rightarrow> parse_declarations F R doc decls)))"

text \<open>
  \<^verbatim>\<open>Load\<close>: the chart directory and its \<^verbatim>\<open>values.yaml\<close>, each missing, unreadable or there.
\<close>

datatype 'a probed = Missing | Unreadable | Present 'a

datatype load_error = ErrChartNotFound | ReadFailed | BadChart "declaration_error list"

definition Load ::
  "'f floats \<Rightarrow> regexes \<Rightarrow> 'f decoders \<Rightarrow> unit probed \<Rightarrow> string probed \<Rightarrow> load_error + 'f field list" where
  "Load F R D chartDir values_file = (case chartDir of
     Missing \<Rightarrow> Inl ErrChartNotFound
   | Unreadable \<Rightarrow> Inl ReadFailed
   | Present _ \<Rightarrow> (case values_file of
       Missing \<Rightarrow> Inr []
     | Unreadable \<Rightarrow> Inl ReadFailed
     | Present data \<Rightarrow> (case Parse F R D data of Inl errs \<Rightarrow> Inl (BadChart errs) | Inr flds \<Rightarrow> Inr flds)))"

section \<open>Validating a settings document\<close>

datatype shape_error = BadSegment string | EmptyObject string | IsList string | NoValue string

definition join_key :: "string \<Rightarrow> string \<Rightarrow> string" where
  "join_key pre name = (if pre \<noteq> [] then pre @ ''.'' @ name else name)"

fun flatten :: "string \<Rightarrow> (string \<times> 'f gval) list \<Rightarrow> shape_error + (string \<times> 'f gval) list" where
  "flatten pre [] = Inr []"
| "flatten pre ((name, v) # node) =
     (if name = [] \<or> Contains name ''.'' then Inl (BadSegment name)
      else (case (case v of
               GMap child \<Rightarrow> if child = [] then Inl (EmptyObject (join_key pre name))
                             else flatten (join_key pre name) child
             | GList _ \<Rightarrow> Inl (IsList (join_key pre name))
             | GNil \<Rightarrow> Inl (NoValue (join_key pre name))
             | _ \<Rightarrow> Inr [(join_key pre name, v)]) of
         Inl err \<Rightarrow> Inl err
       | Inr here \<Rightarrow> (case flatten pre node of Inl err \<Rightarrow> Inl err | Inr rest \<Rightarrow> Inr (here @ rest))))"

definition Validate ::
  "'f floats \<Rightarrow> regexes \<Rightarrow> 'f field list \<Rightarrow> (string \<times> 'f gval) list \<Rightarrow> shape_error + (string \<times> setting_error) list" where
  "Validate F R flds values = (case flatten [] values of
     Inl err \<Rightarrow> Inl err
   | Inr leaves \<Rightarrow> Inr (concat (map (\<lambda>key.
        case map_of (rev (map (\<lambda>f. (fd_Key f, f)) flds)) key of
          None \<Rightarrow> [(key, NotOffered)]
        | Some f \<Rightarrow> (case checkValue F R f (the (map_of leaves key)) of None \<Rightarrow> [] | Some err \<Rightarrow> [(key, err)]))
        (sort (remdups (map fst leaves))))))"

text \<open>\<^verbatim>\<open>Value\<close>: the text of the setting at a key, if the document sets it.\<close>

definition Value :: "'f floats \<Rightarrow> (string \<times> 'f gval) list \<Rightarrow> string \<Rightarrow> string option" where
  "Value F values key = (case lookup values key of None \<Rightarrow> None | Some raw \<Rightarrow> textOf F raw)"

definition accepted :: "'f floats \<Rightarrow> regexes \<Rightarrow> 'f field list \<Rightarrow> (string \<times> 'f gval) list \<Rightarrow> bool" where
  "accepted F R flds values = (Validate F R flds values = Inr [])"


section \<open>Paths and leaves\<close>

text \<open>What the flattened document and the lookup have in common: a scalar found at a path is a leaf.\<close>

fun is_leaf :: "'f gval \<Rightarrow> bool" where
  "is_leaf (GMap _) = False"
| "is_leaf (GList _) = False"
| "is_leaf GNil = False"
| "is_leaf _ = True"

lemma textOf_leaf: "textOf F v = Some t \<Longrightarrow> is_leaf v"
  by (cases v) auto

lemma flatten_ConsE:
  assumes "flatten pre ((name, v) # node) = Inr ls"
  obtains here rest where "name \<noteq> []" "\<not> Contains name ''.''" "flatten pre node = Inr rest" "ls = here @ rest"
    "is_leaf v \<Longrightarrow> here = [(join_key pre name, v)]"
    "\<And>child. v = GMap child \<Longrightarrow> child \<noteq> [] \<and> flatten (join_key pre name) child = Inr here"
  using assms by (cases v) (auto split: if_splits sum.splits)

lemma flatten_mem:
  assumes "flatten pre node = Inr ls" "(name, v) \<in> set node"
  shows "name \<noteq> []" "CHR ''.'' \<notin> set name"
    "is_leaf v \<Longrightarrow> (join_key pre name, v) \<in> set ls"
    "v = GMap child \<Longrightarrow> \<exists>here. flatten (join_key pre name) child = Inr here \<and> set here \<subseteq> set ls"
proof -
  have "name \<noteq> [] \<and> CHR ''.'' \<notin> set name \<and> (is_leaf v \<longrightarrow> (join_key pre name, v) \<in> set ls) \<and>
    (\<forall>child. v = GMap child \<longrightarrow> (\<exists>here. flatten (join_key pre name) child = Inr here \<and> set here \<subseteq> set ls))"
    using assms
  proof (induction node arbitrary: ls)
    case (Cons p node)
    obtain n w where p: "p = (n, w)" by (cases p)
    show ?case
    proof (rule flatten_ConsE [OF Cons.prems(1) [unfolded p]])
      fix here rest
      assume h: "n \<noteq> []" "\<not> Contains n ''.''" "flatten pre node = Inr rest" "ls = here @ rest"
        "is_leaf w \<Longrightarrow> here = [(join_key pre n, w)]"
        "\<And>child. w = GMap child \<Longrightarrow> child \<noteq> [] \<and> flatten (join_key pre n) child = Inr here"
      show ?thesis
      proof (cases "(name, v) = (n, w)")
        case True
        then show ?thesis using h by (auto simp: Contains_byte)
      next
        case False
        then have "(name, v) \<in> set node" using Cons.prems(2) p by auto
        from Cons.IH [OF h(3) this] show ?thesis unfolding h(4) set_append by blast
      qed
    qed
  qed simp
  then show "name \<noteq> []" "CHR ''.'' \<notin> set name"
    "is_leaf v \<Longrightarrow> (join_key pre name, v) \<in> set ls"
    "v = GMap child \<Longrightarrow> \<exists>here. flatten (join_key pre name) child = Inr here \<and> set here \<subseteq> set ls"
    by auto
qed

definition join_path :: "string \<Rightarrow> string list \<Rightarrow> string" where
  "join_path pre path = foldl join_key pre path"

lemma join_path_Cons: "join_path pre (name # path) = join_path (join_key pre name) path"
  by (simp add: join_path_def)

lemma join_path_from: "pre \<noteq> [] \<Longrightarrow> join_path pre path = Join (pre # path) ''.''"
proof (induction path arbitrary: pre)
  case (Cons name path)
  have "join_path pre (name # path) = Join ((pre @ ''.'' @ name) # path) ''.''"
    using Cons.IH [of "join_key pre name"] Cons.prems by (simp add: join_path_Cons join_key_def)
  then show ?case by (cases path) simp_all
qed (simp add: join_path_def)

lemma join_path_Join: "name \<noteq> [] \<Longrightarrow> join_path [] (name # path) = Join (name # path) ''.''"
  by (simp add: join_path_Cons join_key_def join_path_from)

lemma lookup_path_leaf:
  assumes "flatten pre node = Inr ls" "lookup_path (GMap node) path = Some v" "path \<noteq> []" "is_leaf v"
  shows "(join_path pre path, v) \<in> set ls"
  using assms
proof (induction path arbitrary: pre node ls)
  case (Cons name path)
  obtain w where w: "map_of node name = Some w" "lookup_path w path = Some v"
    using Cons.prems(2) by (auto split: option.splits)
  have mem: "(name, w) \<in> set node" using w(1) by (rule map_of_SomeD)
  show ?case
  proof (cases "path = []")
    case True
    then show ?thesis
      using flatten_mem(3) [OF Cons.prems(1) mem] w(2) Cons.prems(4) by (simp add: join_path_def)
  next
    case False
    then obtain child where child: "w = GMap child" using w(2) by (cases path; cases w) auto
    then obtain here where here: "flatten (join_key pre name) child = Inr here" "set here \<subseteq> set ls"
      using flatten_mem(4) [OF Cons.prems(1) mem] by blast
    have "(join_path (join_key pre name) path, v) \<in> set here"
      by (rule Cons.IH [OF here(1) w(2) [unfolded child] False Cons.prems(4)])
    then show ?thesis using here(2) by (auto simp: join_path_Cons)
  qed
qed simp

lemma lookup_leaf:
  assumes "flatten [] values = Inr ls" "lookup values key = Some v" "is_leaf v"
  shows "(key, v) \<in> set ls"
proof -
  obtain name path where sp: "SplitByte key CHR ''.'' = name # path" by (cases "SplitByte key CHR ''.''") auto
  have l: "lookup_path (GMap values) (name # path) = Some v" using assms(2) sp by (simp add: lookup_def)
  then obtain w where "map_of values name = Some w" by (auto split: option.splits)
  then have "name \<noteq> []" using flatten_mem(1) [OF assms(1) map_of_SomeD] by blast
  then have "join_path [] (name # path) = key"
    using join_path_Join Join_SplitByte [of key "CHR ''.''"] sp by simp
  then show ?thesis using lookup_path_leaf [OF assms(1) l _ assms(3)] by simp
qed

text \<open>
  The documents a JSON decoder makes have no repeated name in an object (\<open>doc_ok\<close>); the ones that
  can be flattened are those of non-empty objects, scalars and names of one segment (\<open>well_shaped\<close>).
\<close>

fun doc_ok :: "(string \<times> 'f gval) list \<Rightarrow> bool" where
  "doc_ok [] = True"
| "doc_ok ((name, v) # node) =
     (name \<notin> fst ` set node \<and> (case v of GMap child \<Rightarrow> doc_ok child | _ \<Rightarrow> True) \<and> doc_ok node)"

fun well_shaped :: "(string \<times> 'f gval) list \<Rightarrow> bool" where
  "well_shaped [] = True"
| "well_shaped ((name, v) # node) =
     (name \<noteq> [] \<and> CHR ''.'' \<notin> set name \<and>
      (case v of GMap child \<Rightarrow> child \<noteq> [] \<and> well_shaped child | GList _ \<Rightarrow> False | GNil \<Rightarrow> False | _ \<Rightarrow> True) \<and>
      well_shaped node)"

lemma flatten_well_shaped: "(\<exists>ls. flatten pre node = Inr ls) \<longleftrightarrow> well_shaped node"
proof (induction node arbitrary: pre rule: well_shaped.induct)
  case (2 name v node)
  have node: "(\<exists>ls. flatten pre node = Inr ls) \<longleftrightarrow> well_shaped node" by (rule "2.IH"(2))
  have child: "(\<exists>ls. flatten (join_key pre name) child = Inr ls) \<longleftrightarrow> well_shaped child" if "v = GMap child" for child
    by (rule "2.IH"(1) [OF that])
  show ?case
  proof (cases v)
    case (GMap m)
    show ?thesis using node child [OF GMap] GMap
      by (cases "flatten (join_key pre name) m"; cases "flatten pre node") (auto simp: Contains_byte)
  qed (use node in \<open>auto simp: Contains_byte split: sum.splits\<close>)
qed simp

lemma leaf_lookup_path:
  assumes "flatten pre node = Inr ls" "doc_ok node" "(key, v) \<in> set ls"
  shows "\<exists>path. path \<noteq> [] \<and> key = join_path pre path \<and> list_all (\<lambda>w. w \<noteq> [] \<and> CHR ''.'' \<notin> set w) path \<and>
    hd path \<in> fst ` set node \<and> lookup_path (GMap node) path = Some v \<and> is_leaf v"
  using assms
proof (induction node arbitrary: pre ls rule: well_shaped.induct)
  case (2 name w node)
  show ?case
  proof (rule flatten_ConsE [OF "2.prems"(1)])
    fix here rest
    assume h: "name \<noteq> []" "\<not> Contains name ''.''" "flatten pre node = Inr rest" "ls = here @ rest"
      "is_leaf w \<Longrightarrow> here = [(join_key pre name, w)]"
      "\<And>child. w = GMap child \<Longrightarrow> child \<noteq> [] \<and> flatten (join_key pre name) child = Inr here"
    consider "(key, v) \<in> set rest" | "(key, v) \<in> set here" using "2.prems"(3) h(4) by auto
    then show ?thesis
    proof cases
      case 1
      have "doc_ok node" using "2.prems"(2) by simp
      from "2.IH"(2) [OF h(3) this 1] obtain path where path: "path \<noteq> []" "key = join_path pre path"
        "list_all (\<lambda>w. w \<noteq> [] \<and> CHR ''.'' \<notin> set w) path" "hd path \<in> fst ` set node"
        "lookup_path (GMap node) path = Some v" "is_leaf v" by blast
      have "hd path \<noteq> name" using path(4) "2.prems"(2) by auto
      then have "lookup_path (GMap ((name, w) # node)) path = Some v" using path(1,5) by (cases path) auto
      then show ?thesis using path by (intro exI [of _ path]) auto
    next
      case 2
      show ?thesis
      proof (cases "is_leaf w")
        case True
        then have "key = join_key pre name" "v = w" using h(5) 2 by auto
        then show ?thesis using True h(1,2) by (intro exI [of _ "[name]"]) (simp add: join_path_def Contains_byte)
      next
        case False
        have "flatten pre ((name, w) # node) = Inr ls" by (rule "2.prems"(1))
        then obtain child where child: "w = GMap child" using False by (cases w) (auto split: if_splits)
        have "flatten (join_key pre name) child = Inr here" using h(6) [OF child] by simp
        moreover have "doc_ok child" using "2.prems"(2) child by simp
        ultimately obtain path where "path \<noteq> []" "key = join_path (join_key pre name) path"
          "list_all (\<lambda>w. w \<noteq> [] \<and> CHR ''.'' \<notin> set w) path" "lookup_path (GMap child) path = Some v" "is_leaf v"
          using "2.IH"(1) [OF child] 2 by blast
        then show ?thesis using h(1,2) child
          by (intro exI [of _ "name # path"]) (simp add: join_path_Cons Contains_byte)
      qed
    qed
  qed
qed simp

lemma leaf_lookup:
  assumes "flatten [] values = Inr ls" "doc_ok values" "(key, v) \<in> set ls"
  shows "lookup values key = Some v" "is_leaf v"
proof -
  obtain path where path: "path \<noteq> []" "key = join_path [] path" "list_all (\<lambda>w. w \<noteq> [] \<and> CHR ''.'' \<notin> set w) path"
    "lookup_path (GMap values) path = Some v" "is_leaf v"
    using leaf_lookup_path [OF assms] by blast
  then have "key = Join path ''.''" using join_path_Join by (cases path) auto
  then have "SplitByte key CHR ''.'' = path" using path(1,3) SplitByte_Join [of path "CHR ''.''"] by (simp add: list_all_iff)
  then show "lookup values key = Some v" "is_leaf v" using path by (simp_all add: lookup_def)
qed

lemma leaves_exact:
  assumes "flatten [] values = Inr ls" "doc_ok values"
  shows "map_of ls key = Some v \<longleftrightarrow> lookup values key = Some v \<and> is_leaf v"
proof
  assume "map_of ls key = Some v"
  then show "lookup values key = Some v \<and> is_leaf v" using leaf_lookup [OF assms map_of_SomeD] by blast
next
  assume h: "lookup values key = Some v \<and> is_leaf v"
  then have "(key, v) \<in> set ls" using lookup_leaf [OF assms(1)] by blast
  then obtain w where w: "map_of ls key = Some w" by (metis map_of_eq_None_iff fst_conv image_eqI option.exhaust)
  then have "lookup values key = Some w" using leaf_lookup(1) [OF assms map_of_SomeD] by blast
  then show "map_of ls key = Some v" using w h by simp
qed

section \<open>What acceptance means\<close>

lemma map_of_fields:
  "distinct (map fd_Key flds) \<Longrightarrow>
   map_of (rev (map (\<lambda>f. (fd_Key f, f)) flds)) key = Some f \<longleftrightarrow> f \<in> set flds \<and> fd_Key f = key"
proof -
  assume d: "distinct (map fd_Key flds)"
  have "map fst (rev (map (\<lambda>f. (fd_Key f, f)) flds)) = rev (map fd_Key flds)" by (simp add: rev_map comp_def)
  then have "distinct (map fst (rev (map (\<lambda>f. (fd_Key f, f)) flds)))" using d by simp
  then show ?thesis by (auto simp: map_of_eq_Some_iff)
qed

lemma accepted_iff:
  assumes "distinct (map fd_Key flds)"
  shows "accepted F R flds values \<longleftrightarrow> (\<exists>ls. flatten [] values = Inr ls \<and>
    (\<forall>key \<in> fst ` set ls. \<exists>f \<in> set flds. fd_Key f = key \<and> checkValue F R f (the (map_of ls key)) = None))"
proof -
  have one: "(case map_of (rev (map (\<lambda>f. (fd_Key f, f)) flds)) key of
          None \<Rightarrow> [(key, NotOffered)]
        | Some f \<Rightarrow> (case checkValue F R f v of None \<Rightarrow> [] | Some err \<Rightarrow> [(key, err)])) = [] \<longleftrightarrow>
      (\<exists>f \<in> set flds. fd_Key f = key \<and> checkValue F R f v = None)" for key v
  proof (cases "map_of (rev (map (\<lambda>f. (fd_Key f, f)) flds)) key")
    case None
    then have "f \<in> set flds \<Longrightarrow> fd_Key f \<noteq> key" for f using map_of_fields [OF assms, of key f] by auto
    then show ?thesis unfolding None by auto
  next
    case (Some g)
    then have "f \<in> set flds \<and> fd_Key f = key \<longleftrightarrow> f = g" for f using map_of_fields [OF assms, of key f] by auto
    then have "(\<exists>f \<in> set flds. fd_Key f = key \<and> checkValue F R f v = None) \<longleftrightarrow> checkValue F R g v = None"
      unfolding Bex_def by (simp flip: conj_assoc)
    then show ?thesis unfolding Some by (simp split: option.splits)
  qed
  show ?thesis
    by (auto simp: accepted_def Validate_def one split: sum.splits)
qed

lemma parse_loop_fields:
  assumes "parse_loop F R doc decls seen = (fs, errs)"
  shows "distinct (map fd_Key fs) \<and> (\<forall>f \<in> set fs. fd_Key f \<notin> set seen) \<and> (\<forall>f \<in> set fs. \<exists>decl \<in> set decls. newField F R decl doc = Inr f)"
  using assms
proof (induction decls arbitrary: seen fs errs)
  case (Cons decl decls)
  show ?case
  proof (cases "newField F R decl doc")
    case (Inl err)
    then show ?thesis using Cons by (auto simp: Let_def split: prod.splits)
  next
    case (Inr f)
    obtain fs1 errs1 where p1: "parse_loop F R doc decls seen = (fs1, errs1)" by fastforce
    obtain fs2 errs2 where p2: "parse_loop F R doc decls (fd_Key f # seen) = (fs2, errs2)" by fastforce
    show ?thesis
      using Cons.prems Inr p1 p2 Cons.IH [OF p1] Cons.IH [OF p2]
      by (auto simp: Let_def split: if_splits) blast
  qed
qed simp

lemma newField_ok:
  assumes "newField F R decl doc = Inr f"
  shows "\<not> IsSecretKey (fd_Key f)" "IsPlatformOwned (fd_Key f) \<Longrightarrow> fd_Key f = ModelAliasKey"
    "\<exists>raw. lookup doc (fd_Key f) = Some raw \<and> scalar raw = Some (fd_Default f, fd_Kind f)"
    "fd_Type f \<noteq> TypeModel \<Longrightarrow> checkValue F R f (fd_Default f) = None"
proof -
  obtain raw def kind where h: "f = field_of decl (TrimSpace (de_Key decl)) def kind"
    "\<not> (IsPlatformOwned (TrimSpace (de_Key decl)) \<and> \<not> IsUserSettable (TrimSpace (de_Key decl)))"
    "\<not> IsSecretKey (TrimSpace (de_Key decl))" "lookup doc (TrimSpace (de_Key decl)) = Some raw"
    "scalar raw = Some (def, kind)" "checkDeclaration F R f = None"
    using assms by (auto simp: newField_def Let_def split: if_splits option.splits)
  show "\<not> IsSecretKey (fd_Key f)" "IsPlatformOwned (fd_Key f) \<Longrightarrow> fd_Key f = ModelAliasKey"
    using h(1-3) by (auto simp: field_of_def IsUserSettable_def)
  show "\<exists>raw. lookup doc (fd_Key f) = Some raw \<and> scalar raw = Some (fd_Default f, fd_Kind f)"
    using h(1,4,5) by (simp add: field_of_def)
  show "checkValue F R f (fd_Default f) = None" if "fd_Type f \<noteq> TypeModel"
    using h(6) that by (auto simp: checkDeclaration_def split: if_splits option.splits)
qed

lemma parse_declarations_ok:
  assumes "parse_declarations F R doc decls = Inr fs"
  shows "distinct (map fd_Key fs)" "f \<in> set fs \<Longrightarrow> \<exists>decl \<in> set decls. newField F R decl doc = Inr f"
proof -
  obtain errs where "parse_loop F R doc decls [] = (fs, errs)"
    using assms by (auto simp: parse_declarations_def split: prod.splits if_splits)
  from parse_loop_fields [OF this] show "distinct (map fd_Key fs)"
    "f \<in> set fs \<Longrightarrow> \<exists>decl \<in> set decls. newField F R decl doc = Inr f" by auto
qed

lemma Parse_ok:
  assumes "Parse F R D data = Inr fs"
  shows "distinct (map fd_Key fs)" "f \<in> set fs \<Longrightarrow> \<exists>doc decl. yaml_doc D data = Some doc \<and> newField F R decl doc = Inr f"
proof -
  have "fs = [] \<or> (\<exists>doc decls. yaml_doc D data = Some doc \<and> parse_declarations F R doc decls = Inr fs)"
    using assms by (auto simp: Parse_def split: option.splits gval.splits)
  then show "distinct (map fd_Key fs)" "f \<in> set fs \<Longrightarrow> \<exists>doc decl. yaml_doc D data = Some doc \<and> newField F R decl doc = Inr f"
    using parse_declarations_ok by fastforce+
qed

lemma accepted_value_offered:
  assumes "distinct (map fd_Key flds)" "accepted F R flds values" "Value F values key = Some text"
  shows "\<exists>f \<in> set flds. fd_Key f = key \<and> (\<exists>v. checkValue F R f v = None)"
proof -
  obtain ls where ls: "flatten [] values = Inr ls"
    and all: "\<forall>key \<in> fst ` set ls. \<exists>f \<in> set flds. fd_Key f = key \<and> checkValue F R f (the (map_of ls key)) = None"
    using assms(2) accepted_iff [OF assms(1)] by blast
  obtain raw where "lookup values key = Some raw" "textOf F raw = Some text"
    using assms(3) by (auto simp: Value_def split: option.splits)
  then have "(key, raw) \<in> set ls" using lookup_leaf [OF ls] textOf_leaf by blast
  then have "key \<in> fst ` set ls" by force
  then show ?thesis using all by blast
qed

lemma accepted_read:
  assumes "distinct (map fd_Key flds)" "doc_ok values"
  shows "accepted F R flds values \<longleftrightarrow> well_shaped values \<and>
    (\<forall>key v. lookup values key = Some v \<longrightarrow> is_leaf v \<longrightarrow> (\<exists>f \<in> set flds. fd_Key f = key \<and> checkValue F R f v = None))"
proof (cases "flatten [] values")
  case (Inl err)
  then have "\<not> well_shaped values" using flatten_well_shaped [of "[]" "values"] by auto
  then show ?thesis using Inl by (simp add: accepted_iff [OF assms(1)])
next
  case (Inr ls)
  have ws: "well_shaped values" using flatten_well_shaped [of "[]" "values"] Inr by blast
  have leaf: "map_of ls key = Some v \<longleftrightarrow> lookup values key = Some v \<and> is_leaf v" for key v
    by (rule leaves_exact [OF Inr assms(2)])
  have dom: "key \<in> fst ` set ls \<longleftrightarrow> (\<exists>v. map_of ls key = Some v)" for key
    by (metis map_of_eq_None_iff option.distinct(1) option.exhaust)
  have "(\<forall>key \<in> fst ` set ls. \<exists>f \<in> set flds. fd_Key f = key \<and> checkValue F R f (the (map_of ls key)) = None) \<longleftrightarrow>
      (\<forall>key v. map_of ls key = Some v \<longrightarrow> (\<exists>f \<in> set flds. fd_Key f = key \<and> checkValue F R f v = None))"
    unfolding Ball_def dom by (metis option.sel)
  then show ?thesis using ws Inr by (auto simp: accepted_iff [OF assms(1)] leaf)
qed

lemma integer_text_plain: "ParseInt s = Some n \<Longrightarrow> \<not> Contains s ''{{''"
proof
  assume h: "ParseInt s = Some n" "Contains s ''{{''"
  have "c \<in> set s \<Longrightarrow> c = CHR ''-'' \<or> c = CHR ''+'' \<or> is_digit c" for c
    using h(1) by (cases s) (auto simp: ParseInt_def Let_def list_all_iff split: if_splits)
  moreover have "CHR ''{'' \<in> set s" using Contains_two_byte h(2) by blast
  ultimately show False by (force simp: is_digit_def)
qed

lemma checkValue_plain:
  assumes "checkValue F R f v = None" "textOf F v = Some text" "fd_Kind f \<noteq> KindNumber"
  shows "\<not> Contains text ''{{''"
proof -
  have k: "checkKind F f v = None" and t: "text_or_empty F v = text"
    using assms(1,2) by (auto simp: checkValue_def text_or_empty_def split: option.splits)
  show ?thesis
  proof (cases "fd_Kind f")
    case KindString
    then show ?thesis using assms(1) k t by (auto simp: checkValue_def Let_def split: if_splits)
  next
    case KindInteger
    then obtain n where "ParseInt text = Some n" using k t by (auto simp: checkKind_def split: if_splits)
    then show ?thesis by (rule integer_text_plain)
  next
    case KindBoolean
    then obtain b where "v = GBool b" using k by (cases v) (auto simp: checkKind_def)
    then show ?thesis using assms(2) by (auto simp: HasPrefix_def split: if_splits)
  qed (use assms(3) in simp)
qed

lemma checkValue_required:
  "checkValue F R f v = None \<Longrightarrow> textOf F v = Some text \<Longrightarrow> fd_Required f \<Longrightarrow> TrimSpace text \<noteq> []"
  by (auto simp: checkValue_def text_or_empty_def Let_def split: option.splits if_splits)

text \<open>What an accepted document can set, for the readers of the document.\<close>

lemma accepted_reads_safe:
  assumes "Parse F R D data = Inr flds" "doc_ok values" "Validate F R flds values = Inr []" "Value F values key = Some text"
  shows "\<not> IsSecretKey key \<and> (IsPlatformOwned key \<longrightarrow> key = ModelAliasKey) \<and>
    (\<exists>f \<in> set flds. fd_Key f = key \<and> (fd_Required f \<longrightarrow> TrimSpace text \<noteq> []) \<and>
      (fd_Kind f \<noteq> KindNumber \<longrightarrow> \<not> Contains text ''{{''))"
proof -
  obtain v where v: "lookup values key = Some v" "textOf F v = Some text"
    using assms(4) by (auto simp: Value_def split: option.splits)
  have d: "distinct (map fd_Key flds)" using Parse_ok(1) [OF assms(1)] .
  have "accepted F R flds values" using assms(3) by (simp add: accepted_def)
  then obtain f where f: "f \<in> set flds" "fd_Key f = key" "checkValue F R f v = None"
    using accepted_read [OF d assms(2)] v(1) textOf_leaf [OF v(2)] by blast
  obtain doc decl where "newField F R decl doc = Inr f" using Parse_ok(2) [OF assms(1) f(1)] by blast
  then show ?thesis
    using newField_ok(1,2) f checkValue_plain [OF f(3) v(2)] checkValue_required [OF f(3) v(2)] by blast
qed

section \<open>Properties\<close>

text \<open>An instance for the examples: whole numbers as floating point, prefixes as patterns.\<close>

definition int_floats :: "int floats" where
  "int_floats = \<lparr>fle = (\<lambda>a b. a \<le> b), fnan = (\<lambda>x. False), finf = (\<lambda>x. False), fof_int = (\<lambda>n. n), fparse = ParseInt, fformat = FormatInt\<rparr>"

definition prefix_regexes :: regexes where
  "prefix_regexes = \<lparr>rx_compiles = (\<lambda>p. True), rx_match = (\<lambda>p s. HasPrefix s p)\<rparr>"

definition replicas_declared :: "int declared" where
  "replicas_declared = \<lparr>de_Key = ''replicas'', de_Label = [], de_Description = [], de_Type = ''integer'', de_Required = True,
     de_Min = Some 1, de_Max = Some 5, de_Pattern = [], de_Options = [], de_Group = [], de_Advanced = False\<rparr>"

definition replicas_doc :: "(string \<times> int gval) list" where
  "replicas_doc = [(''replicas'', GInt 1), (''configurations'', GList [])]"

definition one_chart :: "int decoders" where
  "one_chart = \<lparr>yaml_doc = (\<lambda>_. Some replicas_doc), yaml_decls = (\<lambda>_. Some [replicas_declared]),
     json_settings = (\<lambda>_. Some [(''replicas'', GNumber ''3'')])\<rparr>"

definition replicas_field :: "int field" where
  "replicas_field = field_of replicas_declared ''replicas'' (GInt64 1) KindInteger"

lemmas chart_example_defs = int_floats_def prefix_regexes_def replicas_declared_def replicas_doc_def one_chart_def
  replicas_field_def field_of_def last_key_segment_def LastIndexByte_def

lemma one_chart_Parse: "Parse int_floats prefix_regexes one_chart [] = Inr [replicas_field]"
  by (simp add: chart_example_defs Parse_def parse_declarations_def newField_def Let_def isValidKey_def IsPlatformOwned_def
      platformOwnedKeys_def IsSecretKey_def secretSegment_def secret_words_def word_here_def separator_def lookup_def
      checkDeclaration_def checkValue_def checkKind_def checkType_def checkRange_def type_defs crossed_bounds_def finite_bounds_def
      text_or_empty_def FormatInt_def show_nat.simps ParseInt_def digits_val_def digit_val_def is_digit_def in_int64_def
      go_string_simps char_of_def bit_Suc_0_iff)

text \<open>C38. A settings document is accepted exactly when it is made of nested non-empty objects with names
  of one path segment and every value that can be read from it, at whatever path, is one the chart
  offers at that path and is valid for the field offering it. The server, which flattens the document,
  and the readers of the document, which walk a path, therefore see the same settings.\<close>

theorem settings_accepted_exact:
  assumes "distinct (map fd_Key flds)" "doc_ok values"
  shows "Validate F R flds values = Inr [] \<longleftrightarrow> well_shaped values \<and>
    (\<forall>key v. lookup values key = Some v \<longrightarrow> is_leaf v \<longrightarrow> (\<exists>f \<in> set flds. fd_Key f = key \<and> checkValue F R f v = None))"
  using accepted_read [OF assms] by (simp add: accepted_def)

lemma settings_accepted_exact_witness:
  "Validate int_floats prefix_regexes [replicas_field] [(''replicas'', GNumber ''9'')] \<noteq> Inr []"
proof -
  have "lookup [(''replicas'', GNumber ''9'' :: int gval)] ''replicas'' = Some (GNumber ''9'')" by (simp add: lookup_def)
  moreover have "checkValue int_floats prefix_regexes replicas_field (GNumber ''9'') = Some AboveMax"
    by (simp add: chart_example_defs checkValue_def checkKind_def checkType_def checkRange_def type_defs text_or_empty_def
        ParseInt_def digits_val_def digit_val_def is_digit_def in_int64_def go_string_simps Let_def)
  ultimately show ?thesis
    using settings_accepted_exact [of "[replicas_field]" "[(''replicas'', GNumber ''9'')]" int_floats prefix_regexes]
    by force
qed

text \<open>C10. Whatever an accepted settings document sets for a chart is a setting the chart offers: it is
  never a secret, never a value the platform owns (the model alias apart, which users may choose), never
  blank when required, and, for every kind but numbers (whose text the JSON decoder restricts), free of
  the opening braces Argo would expand as a template.\<close>

theorem accepted_settings_safe:
  assumes "Parse F R D data = Inr flds" "doc_ok values" "Validate F R flds values = Inr []" "Value F values key = Some text"
  shows "\<not> IsSecretKey key \<and> (IsPlatformOwned key \<longrightarrow> key = ModelAliasKey) \<and>
    (\<exists>f \<in> set flds. fd_Key f = key \<and> (fd_Required f \<longrightarrow> TrimSpace text \<noteq> []) \<and>
      (fd_Kind f \<noteq> KindNumber \<longrightarrow> \<not> Contains text ''{{''))"
  by (rule accepted_reads_safe [OF assms])

lemma accepted_settings_safe_witness: "\<not> IsSecretKey ''replicas''"
proof -
  have "Validate int_floats prefix_regexes [replicas_field] [(''replicas'', GNumber ''3'')] = Inr []"
    by (simp add: Validate_def chart_example_defs checkValue_def checkKind_def checkType_def checkRange_def type_defs
        text_or_empty_def ParseInt_def digits_val_def digit_val_def is_digit_def in_int64_def go_string_simps Let_def join_key_def)
  then show ?thesis
    using accepted_settings_safe [OF one_chart_Parse, of "[(''replicas'', GNumber ''3'')]" "''replicas''" "''3''"]
    by (simp add: Value_def lookup_def)
qed

text \<open>The fields a chart offers once its declarations parse: no key twice, every key a value of the
  chart itself whose scalar is the field's default and gives its kind, and a default that passes the
  field's own validation, so that sending a chart's defaults back is accepted (model fields, which
  default to the platform's model, excepted).\<close>

theorem offered_fields_wellformed:
  assumes "Parse F R D data = Inr flds"
  shows "distinct (map fd_Key flds) \<and> (\<forall>f \<in> set flds.
    (\<exists>doc raw. yaml_doc D data = Some doc \<and> lookup doc (fd_Key f) = Some raw \<and> scalar raw = Some (fd_Default f, fd_Kind f)) \<and>
    (fd_Type f \<noteq> TypeModel \<longrightarrow> checkValue F R f (fd_Default f) = None))"
proof -
  have "(\<exists>doc raw. yaml_doc D data = Some doc \<and> lookup doc (fd_Key f) = Some raw \<and> scalar raw = Some (fd_Default f, fd_Kind f)) \<and>
    (fd_Type f \<noteq> TypeModel \<longrightarrow> checkValue F R f (fd_Default f) = None)" if f: "f \<in> set flds" for f
    using Parse_ok(2) [OF assms f] newField_ok(3,4) by blast
  then show ?thesis using Parse_ok(1) [OF assms] by blast
qed

lemma offered_fields_wellformed_witness: "checkValue int_floats prefix_regexes replicas_field (fd_Default replicas_field) = None"
proof -
  have "fd_Type replicas_field \<noteq> TypeModel" by (simp add: chart_example_defs type_defs go_string_simps)
  then show ?thesis using offered_fields_wellformed [OF one_chart_Parse] by simp
qed

end
