(* ===== verification/Workflow_Spec.thy ===== *)
theory Workflow_Spec
  imports Go_Prelude
begin

text \<open>
  The part of an Argo workflow spec the GraphQL server reads and patches, the install-step flags in it
  and whole-value parameter references (\<^verbatim>\<open>graphql/server/pkg/chaos_experiment/ops\<close>). An annotation map is a
  partial function; a nil pointer is \<^const>\<open>None\<close>. A parameter's value is its text
  (\<^verbatim>\<open>AnyString.String()\<close>).
\<close>

section \<open>Data\<close>

record container =
  ct_Image :: string
  ct_Args :: "string list"

record artifact =
  ar_Name :: string
  ar_Raw :: "string option"

record step_template =
  t_Name :: string
  t_Annotations :: "string \<rightharpoonup> string"
  t_Container :: "container option"
  t_Artifacts :: "artifact list"

record parameter =
  p_Name :: string
  p_Value :: "string option"

record workflow_spec =
  Templates :: "step_template list"
  Parameters :: "parameter list"

section \<open>Parameter references\<close>

text \<open>
  The regular expression \<^verbatim>\<open>^\{\{\s*workflow\.parameters\.([A-Za-z0-9_-]+)\s*\}\}$\<close>. The character classes of
  consecutive parts are disjoint, so the greedy match is the only one.
\<close>

definition re_space :: "char \<Rightarrow> bool" where
  "re_space c = (c = CHR '' '' \<or> c = CHR 0x09 \<or> c = CHR 0x0A \<or> c = CHR 0x0C \<or> c = CHR 0x0D)"

definition is_alnum :: "char \<Rightarrow> bool" where
  "is_alnum c = (is_digit c \<or> (of_char c \<ge> (65::nat) \<and> of_char c \<le> (90::nat)) \<or>
     (of_char c \<ge> (97::nat) \<and> of_char c \<le> (122::nat)))"

definition param_char :: "char \<Rightarrow> bool" where
  "param_char c = (is_alnum c \<or> c = CHR ''_'' \<or> c = CHR ''-'')"

definition param_ref :: "string \<Rightarrow> string option" where
  "param_ref s =
     (if \<not> HasPrefix s ''{{'' then None
      else (let r = dropWhile re_space (drop 2 s) in
        if \<not> HasPrefix r ''workflow.parameters.'' then None
        else (let n = drop 20 r; name = takeWhile param_char n in
          if name = [] \<or> dropWhile re_space (dropWhile param_char n) \<noteq> ''}}'' then None else Some name)))"

text \<open>The first parameter of the name that has a value.\<close>

definition parameter_value :: "parameter list \<Rightarrow> string \<Rightarrow> string option" where
  "parameter_value ps name = (case find (\<lambda>p. p_Name p = name \<and> p_Value p \<noteq> None) ps of None \<Rightarrow> None | Some p \<Rightarrow> p_Value p)"

definition resolveWorkflowParameter :: "string \<Rightarrow> parameter list \<Rightarrow> string" where
  "resolveWorkflowParameter v ps = (case param_ref (TrimSpace v) of
     None \<Rightarrow> v
   | Some name \<Rightarrow> (case parameter_value ps name of None \<Rightarrow> v | Some w \<Rightarrow> w))"

section \<open>Install steps\<close>

text \<open>
  \<^verbatim>\<open>installStepArg\<close>: the last value of a flag, in the forms \<open>-flag=v\<close>, \<open>--flag=v\<close> and \<open>-flag v\<close>; the
  value of a split flag is consumed, so it is not read as a flag itself.
\<close>

definition combined_value :: "string \<Rightarrow> string \<Rightarrow> string option" where
  "combined_value arg flag =
     (if HasPrefix arg (''--'' @ flag @ ''='') then Some (TrimPrefix arg (''--'' @ flag @ ''=''))
      else if HasPrefix arg (''-'' @ flag @ ''='') then Some (TrimPrefix arg (''-'' @ flag @ ''=''))
      else None)"

definition is_flag :: "string \<Rightarrow> string \<Rightarrow> bool" where
  "is_flag arg flag = (arg = ''-'' @ flag \<or> arg = ''--'' @ flag)"

fun install_arg_from :: "string \<Rightarrow> string list \<Rightarrow> string \<Rightarrow> string" where
  "install_arg_from value [] flag = value"
| "install_arg_from value [arg] flag = (case combined_value arg flag of None \<Rightarrow> value | Some v \<Rightarrow> v)"
| "install_arg_from value (arg # next # args) flag =
     (let value' = (case combined_value arg flag of None \<Rightarrow> value | Some v \<Rightarrow> v) in
      if is_flag arg flag then install_arg_from next args flag else install_arg_from value' (next # args) flag)"

definition installStepArg :: "string list \<Rightarrow> string \<Rightarrow> string" where
  "installStepArg args flag = install_arg_from [] args flag"

definition uninstallAllTemplateName :: string where "uninstallAllTemplateName = ''uninstall-all''"

definition isInstallStepTemplate :: "step_template \<Rightarrow> string \<Rightarrow> bool" where
  "isInstallStepTemplate t kind = (case t_Container t of
     None \<Rightarrow> False
   | Some c \<Rightarrow>
      if t_Name t = uninstallAllTemplateName then False
      else (case t_Annotations t ''agentcert.io/install-type'' of
        Some installType \<Rightarrow> installType = kind
      | None \<Rightarrow>
         (let op = installStepArg (ct_Args c) ''operation'' in
          if op \<noteq> [] \<and> \<not> EqualFold op ''apply'' then False
          else (let name = ToLower (TrimSpace (t_Name t)) in
            if HasPrefix name ''uninstall'' \<or> HasPrefix name ''delete'' \<or> HasPrefix name ''cleanup'' then False
            else if kind = ''agent''
                 then name = ''install-agent'' \<or> Contains (TrimSpace (ct_Image c)) ''agentcert-install-agent''
                 else name = ''install-application'' \<or> Contains (TrimSpace (ct_Image c)) ''agentcert-install-app''))))"

definition IsAgentInstallStep :: "step_template \<Rightarrow> bool" where
  "IsAgentInstallStep t = isInstallStepTemplate t ''agent''"

definition installStepKind :: "step_template \<Rightarrow> string" where
  "installStepKind t = (if isInstallStepTemplate t ''agent'' then ''agent''
     else if isInstallStepTemplate t ''application'' then ''application'' else [])"

text \<open>The arguments of a step, none without a container.\<close>

definition args_of :: "step_template \<Rightarrow> string list" where
  "args_of t = (case t_Container t of None \<Rightarrow> [] | Some c \<Rightarrow> ct_Args c)"

text \<open>\<^verbatim>\<open>ExtractInstallAgentFolder\<close>: the first folder flag of the first agent step that has one.\<close>

fun first_folder :: "string list \<Rightarrow> string option" where
  "first_folder [] = None"
| "first_folder (arg # args) =
     (if HasPrefix arg ''-folder='' then Some (TrimPrefix arg ''-folder='')
      else if HasPrefix arg ''--folder='' then Some (TrimPrefix arg ''--folder='')
      else (case args of
        next # _ \<Rightarrow> if arg = ''-folder'' \<or> arg = ''--folder'' then Some next else first_folder args
      | [] \<Rightarrow> None))"

fun ExtractInstallAgentFolder :: "step_template list \<Rightarrow> string" where
  "ExtractInstallAgentFolder [] = []"
| "ExtractInstallAgentFolder (t # ts) =
     (if t_Container t = None \<or> \<not> IsAgentInstallStep t then ExtractInstallAgentFolder ts
      else (case first_folder (args_of t) of Some folder \<Rightarrow> folder | None \<Rightarrow> ExtractInstallAgentFolder ts))"

section \<open>Loops that stop at the first error\<close>

fun each :: "('s \<Rightarrow> 'a \<Rightarrow> 'e + 's) \<Rightarrow> 's \<Rightarrow> 'a list \<Rightarrow> 'e + 's" where
  "each step s [] = Inr s"
| "each step s (x # xs) = (case step s x of Inl err \<Rightarrow> Inl err | Inr s' \<Rightarrow> each step s' xs)"

fun first_error :: "('a \<Rightarrow> 'e option) \<Rightarrow> 'a list \<Rightarrow> 'e option" where
  "first_error check [] = None"
| "first_error check (x # xs) = (case check x of Some err \<Rightarrow> Some err | None \<Rightarrow> first_error check xs)"

lemma first_error_None: "first_error check xs = None \<longleftrightarrow> (\<forall>x \<in> set xs. check x = None)"
  by (induction xs) (auto split: option.splits)

lemma first_error_append:
  "first_error check (xs @ ys) = (case first_error check xs of Some err \<Rightarrow> Some err | None \<Rightarrow> first_error check ys)"
  by (induction xs) (auto split: option.splits)

text \<open>A loop whose state only saves work is the search for the first error.\<close>

lemma each_first_error:
  assumes "\<And>s x. x \<in> set xs \<Longrightarrow> ok s \<Longrightarrow> case step s x of Inl err \<Rightarrow> check x = Some err | Inr s' \<Rightarrow> check x = None \<and> ok s'"
    and "ok s"
  shows "case each step s xs of Inl err \<Rightarrow> first_error check xs = Some err
    | Inr s' \<Rightarrow> first_error check xs = None \<and> ok s'"
  using assms
proof (induction xs arbitrary: s)
  case (Cons x xs)
  have here: "case step s x of Inl err \<Rightarrow> check x = Some err | Inr s' \<Rightarrow> check x = None \<and> ok s'"
    using Cons.prems by simp
  then show ?case
  proof (cases "step s x")
    case (Inr s')
    then have h: "check x = None" "ok s'" using here by simp_all
    show ?thesis using Cons.IH [OF _ h(2)] Cons.prems(1) Inr h(1) by (cases "each step s' xs") simp_all
  qed simp
qed simp

section \<open>Lemmas\<close>

lemma install_step_container: "isInstallStepTemplate t kind \<Longrightarrow> \<exists>c. t_Container t = Some c"
  by (auto simp: isInstallStepTemplate_def split: option.splits)

lemma installStepKind_cases:
  "installStepKind t = ''agent'' \<longleftrightarrow> IsAgentInstallStep t"
  "installStepKind t = ''application'' \<longleftrightarrow> isInstallStepTemplate t ''application'' \<and> \<not> IsAgentInstallStep t"
  by (auto simp: installStepKind_def IsAgentInstallStep_def)

text \<open>A flag the arguments never name is not read from them.\<close>

definition names_flag :: "string \<Rightarrow> string \<Rightarrow> bool" where
  "names_flag flag arg = (is_flag arg flag \<or> combined_value arg flag \<noteq> None)"

lemma install_arg_unnamed: "\<forall>arg \<in> set args. \<not> names_flag flag arg \<Longrightarrow> install_arg_from value args flag = value"
  by (induction "value" args flag rule: install_arg_from.induct) (auto simp: names_flag_def Let_def split: option.splits)

lemma installStepArg_unnamed: "\<forall>arg \<in> set args. \<not> names_flag flag arg \<Longrightarrow> installStepArg args flag = []"
  unfolding installStepArg_def by (rule install_arg_unnamed)

lemma param_ref_literal: "\<not> Contains s ''{{'' \<Longrightarrow> param_ref s = None"
  by (cases s) (auto simp: param_ref_def HasPrefix_def)

lemma param_ref_render:
  assumes "name \<noteq> []" "list_all param_char name"
  shows "param_ref (''{{workflow.parameters.'' @ name @ ''}}'') = Some name"
proof -
  have "takeWhile param_char (name @ ''}}'') = name" "dropWhile param_char (name @ ''}}'') = ''}}''"
    using assms(2) by (auto simp: list_all_iff param_char_def is_alnum_def is_digit_def)
  then show ?thesis using assms(1) by (simp add: param_ref_def HasPrefix_def re_space_def Let_def)
qed

end
