(* ===== verification/Fault_Config.thy ===== *)
theory Fault_Config
  imports Chart_Config Workflow_Spec "HOL-Library.AList"
begin

text \<open>
  Fault settings (\<^verbatim>\<open>graphql/server/pkg/faultconfig\<close>): a fault's definition read from the hub, the check
  of an engine's environment against it, the gate over a whole workflow, and the translation of
  resource targets. Decoders and the hub's provider are parameters; an environment reference
  (\<^verbatim>\<open>valueFrom\<close>) is its serialised text.
\<close>

section \<open>Data\<close>

record env_var =
  ev_Name :: string
  ev_Value :: string
  ev_From :: "string option"

record source =
  so_HubID :: string
  so_Category :: string
  so_Name :: string
  so_Revision :: string

definition no_source :: source where
  "no_source = \<lparr>so_HubID = [], so_Category = [], so_Name = [], so_Revision = []\<rparr>"

record 'f fault_definition =
  df_Source :: source
  df_CSV :: string
  df_Fault :: string
  df_Experiment :: string
  df_Fields :: "'f field list"
  df_Defaults :: "string \<rightharpoonup> env_var"
  df_HasSchema :: bool
  df_Revision :: string

text \<open>
  The decoders: the metadata's \<^verbatim>\<open>spec\<close> map, the kind, name and environment of \<^verbatim>\<open>fault.yaml\<close>, and the
  encoding of a values document.
\<close>

record 'f fault_decoders =
  fy_spec :: "string \<Rightarrow> (string \<times> 'f gval) list option"
  fy_experiment :: "string \<Rightarrow> (string \<times> string \<times> env_var list) option"
  fy_encode :: "(string \<times> 'f gval) list \<Rightarrow> string option"

datatype definition_error =
    BadMetadata | BadFaultYAML | NotAnExperiment | RepeatsEnv string | NullBlock | NotEncodable
  | BadConfigurations "declaration_error list" | NotConfigurable string

section \<open>Reading a definition\<close>

definition envName :: "string \<Rightarrow> bool" where
  "envName s = (case s of [] \<Rightarrow> False
     | c # r \<Rightarrow> (c = CHR ''_'' \<or> is_alnum c \<and> \<not> is_digit c) \<and> list_all (\<lambda>d. is_alnum d \<or> d = CHR ''_'') r)"

definition folderName :: "string \<Rightarrow> bool" where
  "folderName s = (case s of [] \<Rightarrow> False
     | c # r \<Rightarrow> is_alnum c \<and> list_all (\<lambda>d. is_alnum d \<or> d = CHR ''_'' \<or> d = CHR ''.'' \<or> d = CHR ''-'') r)"

definition platformEnv :: "string \<Rightarrow> bool" where
  "platformEnv name = List.member [''EXPERIMENT_NAME'', ''CHAOSENGINE'', ''CHAOS_NAMESPACE'', ''CHAOS_UID'', ''INSTANCE_ID'',
     ''POD_NAME'', ''CHAOS_SERVICE_ACCOUNT'', ''LIB_IMAGE'', ''LIB_IMAGE_PULL_POLICY'', ''TARGETS''] name"

text \<open>The loop over the environment: defaults, literal values and the first repeated name.\<close>

fun read_env ::
  "env_var list \<Rightarrow> (string \<rightharpoonup> env_var) \<Rightarrow> (string \<times> 'f gval) list \<Rightarrow> string \<Rightarrow>
   (string \<rightharpoonup> env_var) \<times> (string \<times> 'f gval) list \<times> string" where
  "read_env [] defaults vals repeated = (defaults, vals, repeated)"
| "read_env (env # envs) defaults vals repeated =
     (if defaults (ev_Name env) \<noteq> None
      then read_env envs defaults vals (if repeated = [] then ev_Name env else repeated)
      else read_env envs (defaults(ev_Name env \<mapsto> env))
        (if ev_From env = None then AList.update (ev_Name env) (GStr (ev_Value env)) vals else vals) repeated)"

definition fault_Parse ::
  "'f floats \<Rightarrow> regexes \<Rightarrow> 'f decoders \<Rightarrow> 'f fault_decoders \<Rightarrow> string \<Rightarrow> string \<Rightarrow> definition_error + 'f fault_definition" where
  "fault_Parse F R D Y csv fault = (case fy_spec Y csv of
     None \<Rightarrow> Inl BadMetadata
   | Some spec \<Rightarrow> (case fy_experiment Y fault of
      None \<Rightarrow> Inl BadFaultYAML
    | Some (kind, name, envs) \<Rightarrow>
       (let (defaults, vals, repeated) = read_env envs (\<lambda>_. None) [] [];
            d = \<lparr>df_Source = no_source, df_CSV = csv, df_Fault = fault, df_Experiment = name, df_Fields = [],
                 df_Defaults = defaults, df_HasSchema = map_of spec ''configurations'' \<noteq> None, df_Revision = []\<rparr>
        in case map_of spec ''configurations'' of
          None \<Rightarrow> Inr d
        | Some block \<Rightarrow>
           if kind \<noteq> ''ChaosExperiment'' then Inl NotAnExperiment
           else if repeated \<noteq> [] then Inl (RepeatsEnv repeated)
           else if (case block of GNil \<Rightarrow> True | _ \<Rightarrow> False) then Inl NullBlock
           else (case fy_encode Y (AList.update ''configurations'' block vals) of
             None \<Rightarrow> Inl NotEncodable
           | Some encoded \<Rightarrow> (case Parse F R D encoded of
               Inl errs \<Rightarrow> Inl (BadConfigurations errs)
             | Inr flds \<Rightarrow>
                (case find (\<lambda>f. \<not> envName (fd_Key f) \<or> fd_Type f = TypeModel \<or> platformEnv (fd_Key f)) flds of
                   Some f \<Rightarrow> Inl (NotConfigurable (fd_Key f))
                 | None \<Rightarrow> Inr (d\<lparr>df_Fields := flds\<rparr>)))))))"

section \<open>Checking an environment\<close>

datatype env_error =
    EnvRepeated string | NotLiteral string | EnvNotOffered string | BadShape shape_error
  | BadSettings "(string \<times> setting_error) list"

definition default_values :: "'f fault_definition \<Rightarrow> (string \<times> 'f gval) list" where
  "default_values d = foldl (\<lambda>vals f. AList.update (fd_Key f) (fd_Default f) vals) [] (df_Fields d)"

definition offers :: "'f fault_definition \<Rightarrow> string \<Rightarrow> bool" where
  "offers d name = list_ex (\<lambda>f. fd_Key f = name) (df_Fields d)"

definition settings_result :: "'f floats \<Rightarrow> regexes \<Rightarrow> 'f field list \<Rightarrow> (string \<times> 'f gval) list \<Rightarrow> env_error option" where
  "settings_result F R flds vals = (case Validate F R flds vals of
     Inl err \<Rightarrow> Some (BadShape err)
   | Inr errs \<Rightarrow> if errs = [] then None else Some (BadSettings errs))"

fun env_values ::
  "'f fault_definition \<Rightarrow> env_var list \<Rightarrow> string list \<Rightarrow> (string \<times> 'f gval) list \<Rightarrow> env_error + (string \<times> 'f gval) list" where
  "env_values d [] seen vals = Inr vals"
| "env_values d (env # envs) seen vals =
     (if List.member seen (ev_Name env) then Inl (EnvRepeated (ev_Name env))
      else if offers d (ev_Name env) then
        (if ev_From env \<noteq> None then Inl (NotLiteral (ev_Name env))
         else env_values d envs (ev_Name env # seen) (AList.update (ev_Name env) (GStr (ev_Value env)) vals))
      else if ev_Name env = ''LIB_IMAGE'' then env_values d envs (ev_Name env # seen) vals
      else if df_Defaults d (ev_Name env) \<noteq> Some env then Inl (EnvNotOffered (ev_Name env))
      else env_values d envs (ev_Name env # seen) vals)"

definition ValidateEnvironment :: "'f floats \<Rightarrow> regexes \<Rightarrow> 'f fault_definition \<Rightarrow> env_var list \<Rightarrow> env_error option" where
  "ValidateEnvironment F R d envs =
     (if \<not> df_HasSchema d then None
      else (case env_values d envs [] (default_values d) of
        Inl err \<Rightarrow> Some err
      | Inr vals \<Rightarrow> settings_result F R (df_Fields d) vals))"

fun declared_values ::
  "'f fault_definition \<Rightarrow> env_var list \<Rightarrow> string list \<Rightarrow> (string \<times> 'f gval) list \<Rightarrow> env_error + (string \<times> 'f gval) list" where
  "declared_values d [] seen vals = Inr vals"
| "declared_values d (env # envs) seen vals =
     (if \<not> offers d (ev_Name env) \<or> ev_From env \<noteq> None \<or> Contains (ev_Value env) ''{{'' then declared_values d envs seen vals
      else if List.member seen (ev_Name env) then Inl (EnvRepeated (ev_Name env))
      else declared_values d envs (ev_Name env # seen) (AList.update (ev_Name env) (GStr (ev_Value env)) vals))"

definition validateDeclaredSettings :: "'f floats \<Rightarrow> regexes \<Rightarrow> 'f fault_definition \<Rightarrow> env_var list \<Rightarrow> env_error option" where
  "validateDeclaredSettings F R d envs =
     (if \<not> df_HasSchema d then None
      else (case declared_values d envs [] (default_values d) of
        Inl err \<Rightarrow> Some err
      | Inr vals \<Rightarrow> settings_result F R (df_Fields d) vals))"

section \<open>The gate over a workflow\<close>

record engine_experiment =
  ex_Name :: string
  ex_ENV :: "env_var list"

record engine =
  en_Annotations :: "string \<rightharpoonup> string"
  en_Appns :: string
  en_AppKind :: string
  en_Applabel :: string
  en_Selectors :: bool
  en_Experiments :: "engine_experiment list"

definition annotation :: "engine \<Rightarrow> string \<Rightarrow> string" where
  "annotation en key = (case en_Annotations en key of None \<Rightarrow> [] | Some v \<Rightarrow> v)"

definition SourceAnnotation :: string where "SourceAnnotation = ''agentcert.io/fault-source''"

text \<open>
  The decoders of an artifact: its \<^verbatim>\<open>kind\<close> when it is a document with a text there, the engine, and a
  source annotation with whether data follows it.
\<close>

record artifact_decoders =
  ad_kind :: "string \<Rightarrow> string option"
  ad_engine :: "string \<Rightarrow> engine option"
  ad_source :: "string \<Rightarrow> (source \<times> bool) option"

datatype 'f resolved = Found "'f fault_definition option" | NotFound | ResolveFailed

datatype gate_error =
    BadArtifact string | BadSource string | NotOneExperiment string | CannotResolve string
  | WrongExperiment string | InvalidSettings string string env_error

definition decodeSource :: "artifact_decoders \<Rightarrow> string \<Rightarrow> source option" where
  "decodeSource A raw =
     (if length raw > 4096 then None
      else (case ad_source A raw of
        None \<Rightarrow> None
      | Some (s, trailing) \<Rightarrow>
         if trailing then None
         else if so_HubID s = [] \<or> \<not> folderName (so_Category s) \<or> \<not> folderName (so_Name s) \<or> length (so_Revision s) \<noteq> 64
         then None else Some s))"

type_synonym 'f memo = "source \<rightharpoonup> 'f fault_definition option"

text \<open>Looking a definition up once per source; a nil provider finds nothing.\<close>

definition call_provider :: "(source \<Rightarrow> 'f resolved) option \<Rightarrow> source \<Rightarrow> 'f resolved" where
  "call_provider provider ref = (case provider of None \<Rightarrow> NotFound | Some p \<Rightarrow> p ref)"

definition resolve_memo ::
  "(source \<Rightarrow> 'f resolved) option \<Rightarrow> string \<Rightarrow> string \<Rightarrow> 'f memo \<Rightarrow> source \<Rightarrow>
   gate_error + 'f fault_definition option \<times> 'f memo" where
  "resolve_memo provider tname rawSource memo ref = (case memo ref of
     Some d \<Rightarrow> Inr (d, memo)
   | None \<Rightarrow> (case call_provider provider ref of
       NotFound \<Rightarrow> if rawSource = [] then Inr (None, memo(ref \<mapsto> None)) else Inl (CannotResolve tname)
     | ResolveFailed \<Rightarrow> Inl (CannotResolve tname)
     | Found d \<Rightarrow> Inr (d, memo(ref \<mapsto> d))))"

definition substitute_env :: "parameter list \<Rightarrow> env_var \<Rightarrow> env_var" where
  "substitute_env ps env = (case param_ref (ev_Value env) of
     None \<Rightarrow> env
   | Some name \<Rightarrow> (case parameter_value ps name of None \<Rightarrow> env | Some v \<Rightarrow> env\<lparr>ev_Value := v\<rparr>))"

definition check_resolved ::
  "'f floats \<Rightarrow> regexes \<Rightarrow> parameter list \<Rightarrow> string \<Rightarrow> string \<Rightarrow> source \<Rightarrow> engine_experiment \<Rightarrow> 'f fault_definition \<Rightarrow> gate_error option" where
  "check_resolved F R ps tname rawSource ref ex d =
     (if rawSource \<noteq> [] \<and> ex_Name ex \<noteq> (if df_Experiment d = [] then so_Name ref else df_Experiment d)
      then Some (WrongExperiment tname)
      else (let envs = (if rawSource = [] then map (substitute_env ps) (ex_ENV ex) else ex_ENV ex);
                result = (if rawSource \<noteq> [] \<and> so_Revision ref = df_Revision d
                          then ValidateEnvironment F R d envs else validateDeclaredSettings F R d envs)
            in map_option (InvalidSettings tname (ex_Name ex)) result))"

definition experiment_ref :: "string \<Rightarrow> source \<Rightarrow> engine_experiment \<Rightarrow> source" where
  "experiment_ref rawSource source ex = (if rawSource = [] then source\<lparr>so_Name := ex_Name ex\<rparr> else source)"

definition check_experiment ::
  "'f floats \<Rightarrow> regexes \<Rightarrow> (source \<Rightarrow> 'f resolved) option \<Rightarrow> parameter list \<Rightarrow> string \<Rightarrow> string \<Rightarrow> source \<Rightarrow>
   'f memo \<Rightarrow> engine_experiment \<Rightarrow> gate_error + 'f memo" where
  "check_experiment F R provider ps tname rawSource source memo ex =
     (let ref = experiment_ref rawSource source ex in
      case resolve_memo provider tname rawSource memo ref of
        Inl err \<Rightarrow> Inl err
      | Inr (None, memo') \<Rightarrow> Inr memo'
      | Inr (Some d, memo') \<Rightarrow> (case check_resolved F R ps tname rawSource ref ex d of Some err \<Rightarrow> Inl err | None \<Rightarrow> Inr memo'))"

definition check_engine ::
  "'f floats \<Rightarrow> regexes \<Rightarrow> artifact_decoders \<Rightarrow> (source \<Rightarrow> 'f resolved) option \<Rightarrow> parameter list \<Rightarrow> string \<Rightarrow>
   'f memo \<Rightarrow> engine \<Rightarrow> gate_error + 'f memo" where
  "check_engine F R A provider ps tname memo en =
     (let rawSource = annotation en SourceAnnotation in
      if rawSource = [] then each (check_experiment F R provider ps tname [] no_source) memo (en_Experiments en)
      else (case decodeSource A rawSource of
        None \<Rightarrow> Inl (BadSource tname)
      | Some source \<Rightarrow>
         if length (en_Experiments en) \<noteq> 1 then Inl (NotOneExperiment tname)
         else each (check_experiment F R provider ps tname rawSource source) memo (en_Experiments en)))"

text \<open>An artifact with the name of its template.\<close>

definition check_artifact ::
  "'f floats \<Rightarrow> regexes \<Rightarrow> artifact_decoders \<Rightarrow> (source \<Rightarrow> 'f resolved) option \<Rightarrow> parameter list \<Rightarrow>
   'f memo \<Rightarrow> string \<times> artifact \<Rightarrow> gate_error + 'f memo" where
  "check_artifact F R A provider ps memo = (\<lambda>(tname, a). case ar_Raw a of
     None \<Rightarrow> Inr memo
   | Some data \<Rightarrow>
      if ad_kind A data \<noteq> Some ''ChaosEngine'' then Inr memo
      else (case ad_engine A data of
        None \<Rightarrow> Inl (BadArtifact tname)
      | Some en \<Rightarrow> check_engine F R A provider ps tname memo en))"

definition artifacts :: "workflow_spec \<Rightarrow> (string \<times> artifact) list" where
  "artifacts spec = concat (map (\<lambda>t. map (Pair (t_Name t)) (t_Artifacts t)) (Templates spec))"

definition ValidateWorkflow ::
  "'f floats \<Rightarrow> regexes \<Rightarrow> artifact_decoders \<Rightarrow> (source \<Rightarrow> 'f resolved) option \<Rightarrow> workflow_spec option \<Rightarrow> gate_error option" where
  "ValidateWorkflow F R A provider spec = (case spec of
     None \<Rightarrow> None
   | Some spec \<Rightarrow> (case each (check_artifact F R A provider (Parameters spec)) (\<lambda>_. None) (artifacts spec) of
       Inl err \<Rightarrow> Some err | Inr _ \<Rightarrow> None))"

section \<open>Targets and durations\<close>

definition workloadKinds :: "string list" where
  "workloadKinds = [[], ''pod'', ''deployment'', ''statefulset'', ''daemonset'', ''deploymentconfig'', ''rollout'']"

definition reserved :: "char \<Rightarrow> bool" where
  "reserved c = (c = CHR '':'' \<or> c = CHR '';'' \<or> c = CHR ''['' \<or> c = CHR '']'')"

datatype target_error = TargetIncomplete | TargetReserved | TargetSelectors

definition no_appinfo :: "engine \<Rightarrow> engine" where
  "no_appinfo en = en\<lparr>en_Appns := [], en_AppKind := [], en_Applabel := []\<rparr>"

definition targets_text :: "string \<Rightarrow> string \<Rightarrow> string \<Rightarrow> string" where
  "targets_text kind namespace selector = kind @ '':'' @ namespace @ '':['' @ selector @ '']''"

definition with_targets :: "string \<Rightarrow> engine_experiment \<Rightarrow> engine_experiment" where
  "with_targets text ex = ex\<lparr>ex_ENV := filter (\<lambda>env. ev_Name env \<noteq> ''TARGETS'') (ex_ENV ex) @
     [\<lparr>ev_Name = ''TARGETS'', ev_Value = text, ev_From = None\<rparr>]\<rparr>"

definition MaterializeTargets :: "engine \<Rightarrow> target_error + bool \<times> engine" where
  "MaterializeTargets en =
     (let kind = ToLower (TrimSpace (en_AppKind en));
          namespace = TrimSpace (en_Appns en); selector = TrimSpace (en_Applabel en)
      in if List.member workloadKinds kind then Inr (False, en)
         else if selector = [] then Inr (True, no_appinfo en)
         else if namespace = [] \<or> en_Experiments en = [] then Inl TargetIncomplete
         else if list_ex reserved (kind @ namespace @ selector) then Inl TargetReserved
         else if en_Selectors en then Inl TargetSelectors
         else Inr (True, no_appinfo (en\<lparr>en_Experiments := map (with_targets (targets_text kind namespace selector)) (en_Experiments en)\<rparr>)))"

definition legacy_duration :: "env_var \<Rightarrow> env_var" where
  "legacy_duration env = (if ev_Name env = ''TOTAL_CHAOS_DURATION'' then env\<lparr>ev_Value := ''30''\<rparr> else env)"

definition ApplyLegacyOnDemandDuration :: "engine \<Rightarrow> engine" where
  "ApplyLegacyOnDemandDuration en =
     (if annotation en ''litmuschaos.io/injectionType'' \<noteq> ''ON_DEMAND'' \<or> annotation en SourceAnnotation \<noteq> [] then en
      else en\<lparr>en_Experiments := map (\<lambda>ex. ex\<lparr>ex_ENV := map legacy_duration (ex_ENV ex)\<rparr>) (en_Experiments en)\<rparr>)"

section \<open>What a definition guarantees\<close>

definition fields_ok :: "'f floats \<Rightarrow> regexes \<Rightarrow> 'f fault_definition \<Rightarrow> bool" where
  "fields_ok F R d = (distinct (map fd_Key (df_Fields d)) \<and>
     list_all (\<lambda>f. fd_Key f \<noteq> [] \<and> CHR ''.'' \<notin> set (fd_Key f) \<and> \<not> platformEnv (fd_Key f) \<and>
       is_leaf (fd_Default f) \<and> checkValue F R f (fd_Default f) = None) (df_Fields d))"

lemma envName_plain: "envName s \<Longrightarrow> s \<noteq> [] \<and> CHR ''.'' \<notin> set s"
  by (cases s) (auto simp: envName_def is_alnum_def is_digit_def list_all_iff)

lemma scalar_leaf: "scalar raw = Some (v, k) \<Longrightarrow> is_leaf v"
  by (cases raw) (auto split: if_splits)

lemma fault_Parse_fields_ok:
  assumes "fault_Parse F R D Y csv fault = Inr d"
  shows "fields_ok F R d"
proof -
  obtain spec kind name envs where dec: "fy_spec Y csv = Some spec" "fy_experiment Y fault = Some (kind, name, envs)"
    using assms by (auto simp: fault_Parse_def split: option.splits)
  obtain defaults vals repeated where env: "read_env envs (\<lambda>_. None) ([] :: (string \<times> 'a gval) list) [] = (defaults, vals, repeated)"
    by (cases "read_env envs (\<lambda>_. None) ([] :: (string \<times> 'a gval) list) []") auto
  show ?thesis
  proof (cases "map_of spec ''configurations''")
    case None
    then show ?thesis using assms dec env by (auto simp: fault_Parse_def fields_ok_def)
  next
    case (Some block)
    then obtain encoded flds where p: "Parse F R D encoded = Inr flds" "df_Fields d = flds"
      "find (\<lambda>f. \<not> envName (fd_Key f) \<or> fd_Type f = TypeModel \<or> platformEnv (fd_Key f)) flds = None"
      using assms dec env by (auto simp: fault_Parse_def Let_def split: if_splits option.splits sum.splits)
    have "fd_Key f \<noteq> [] \<and> CHR ''.'' \<notin> set (fd_Key f) \<and> \<not> platformEnv (fd_Key f) \<and> is_leaf (fd_Default f) \<and>
      checkValue F R f (fd_Default f) = None" if f: "f \<in> set flds" for f
    proof -
      obtain doc decl where new: "newField F R decl doc = Inr f" using Parse_ok(2) [OF p(1) f] by blast
      have "envName (fd_Key f)" "fd_Type f \<noteq> TypeModel" "\<not> platformEnv (fd_Key f)"
        using p(3) f by (auto simp: find_None_iff)
      then show ?thesis using newField_ok(3,4) [OF new] envName_plain scalar_leaf by blast
    qed
    then show ?thesis using Parse_ok(1) [OF p(1)] p(2) by (simp add: fields_ok_def list_all_iff)
  qed
qed

section \<open>Flat documents\<close>

definition flat :: "(string \<times> 'f gval) list \<Rightarrow> bool" where
  "flat m = (distinct (map fst m) \<and> list_all (\<lambda>(k, v). k \<noteq> [] \<and> CHR ''.'' \<notin> set k \<and> is_leaf v) m)"

lemma flatten_flat: "flat m \<Longrightarrow> flatten [] m = Inr m"
proof (induction m)
  case (Cons p m)
  obtain k v where "p = (k, v)" by (cases p)
  then show ?case using Cons by (cases v) (auto simp: flat_def Contains_byte join_key_def)
qed simp

lemma flat_accepted:
  assumes "distinct (map fd_Key flds)" "flat m"
  shows "accepted F R flds m \<longleftrightarrow>
    (\<forall>k v. map_of m k = Some v \<longrightarrow> (\<exists>f \<in> set flds. fd_Key f = k \<and> checkValue F R f v = None))"
proof -
  have dom: "k \<in> fst ` set m \<longleftrightarrow> (\<exists>v. map_of m k = Some v)" for k
    by (metis map_of_eq_None_iff option.distinct(1) option.exhaust)
  have "(\<forall>k \<in> fst ` set m. \<exists>f \<in> set flds. fd_Key f = k \<and> checkValue F R f (the (map_of m k)) = None) \<longleftrightarrow>
      (\<forall>k v. map_of m k = Some v \<longrightarrow> (\<exists>f \<in> set flds. fd_Key f = k \<and> checkValue F R f v = None))"
    unfolding Ball_def dom by (metis option.sel)
  then show ?thesis by (simp add: accepted_iff [OF assms(1)] flatten_flat [OF assms(2)])
qed

lemma list_all_update: "P (k, v) \<Longrightarrow> list_all P m \<Longrightarrow> list_all P (AList.update k v m)"
  by (induction m) auto

lemma flat_update: "flat m \<Longrightarrow> k \<noteq> [] \<Longrightarrow> CHR ''.'' \<notin> set k \<Longrightarrow> is_leaf v \<Longrightarrow> flat (AList.update k v m)"
  unfolding flat_def by (intro conjI list_all_update distinct_update) auto

lemma settings_result_accepted: "settings_result F R flds m = None \<longleftrightarrow> accepted F R flds m"
  by (auto simp: settings_result_def accepted_def split: sum.splits)

lemma update_new: "k \<notin> fst ` set m \<Longrightarrow> AList.update k v m = m @ [(k, v)]"
  by (induction m) auto

lemma default_values_map:
  assumes "distinct (map fd_Key (df_Fields d))"
  shows "default_values d = map (\<lambda>f. (fd_Key f, fd_Default f)) (df_Fields d)"
proof -
  have "foldl (\<lambda>vals f. AList.update (fd_Key f) (fd_Default f) vals) m fs = m @ map (\<lambda>f. (fd_Key f, fd_Default f)) fs"
    if "distinct (map fd_Key fs)" "fst ` set m \<inter> fd_Key ` set fs = {}" for m and fs :: "'a field list"
    using that by (induction fs arbitrary: m) (auto simp: update_new)
  from this [of "df_Fields d" "[]"] assms show ?thesis by (simp add: default_values_def)
qed

section \<open>The checked values\<close>

text \<open>The values an environment leaves: the defaults, overwritten by the offered variables.\<close>

definition chosen :: "'f fault_definition \<Rightarrow> env_var list \<Rightarrow> (string \<times> 'f gval) list \<Rightarrow> (string \<times> 'f gval) list" where
  "chosen d envs vals = foldl (\<lambda>vals env. if offers d (ev_Name env)
     then AList.update (ev_Name env) (GStr (ev_Value env)) vals else vals) vals envs"

definition tolerated :: "'f fault_definition \<Rightarrow> env_var \<Rightarrow> bool" where
  "tolerated d env = (if offers d (ev_Name env) then ev_From env = None
     else ev_Name env = ''LIB_IMAGE'' \<or> df_Defaults d (ev_Name env) = Some env)"

definition checked :: "'f fault_definition \<Rightarrow> env_var \<Rightarrow> bool" where
  "checked d env = (offers d (ev_Name env) \<and> ev_From env = None \<and> \<not> Contains (ev_Value env) ''{{'')"

lemma chosen_Cons:
  "chosen d (env # envs) vals = chosen d envs (if offers d (ev_Name env)
     then AList.update (ev_Name env) (GStr (ev_Value env)) vals else vals)"
  by (simp add: chosen_def)

lemma fresh_names:
  "(\<forall>n \<in> set (map ev_Name envs). n \<notin> set (k # seen)) \<longleftrightarrow>
     k \<notin> set (map ev_Name envs) \<and> (\<forall>n \<in> set (map ev_Name envs). n \<notin> set seen)"
  by auto

lemma env_values_iff:
  "env_values d envs seen vals = Inr w \<longleftrightarrow> distinct (map ev_Name envs) \<and> (\<forall>n \<in> set (map ev_Name envs). n \<notin> set seen) \<and>
     list_all (tolerated d) envs \<and> w = chosen d envs vals"
proof (induction envs arbitrary: seen vals)
  case (Cons env envs)
  have IH: "env_values d envs (k # seen) v = Inr w \<longleftrightarrow> distinct (map ev_Name envs) \<and> k \<notin> set (map ev_Name envs) \<and>
      (\<forall>n \<in> set (map ev_Name envs). n \<notin> set seen) \<and> list_all (tolerated d) envs \<and> w = chosen d envs v" for k v
    using Cons [of "k # seen" v] unfolding fresh_names by simp
  show ?case by (auto simp: IH chosen_Cons tolerated_def [of d env])
qed (auto simp: chosen_def)

lemma declared_values_iff:
  "declared_values d envs seen vals = Inr w \<longleftrightarrow> distinct (map ev_Name (filter (checked d) envs)) \<and>
     (\<forall>n \<in> set (map ev_Name (filter (checked d) envs)). n \<notin> set seen) \<and> w = chosen d (filter (checked d) envs) vals"
proof (induction envs arbitrary: seen vals)
  case (Cons env envs)
  have IH: "declared_values d envs (k # seen) v = Inr w \<longleftrightarrow> distinct (map ev_Name (filter (checked d) envs)) \<and>
      k \<notin> set (map ev_Name (filter (checked d) envs)) \<and>
      (\<forall>n \<in> set (map ev_Name (filter (checked d) envs)). n \<notin> set seen) \<and> w = chosen d (filter (checked d) envs) v" for k v
    using Cons [of "k # seen" v] unfolding fresh_names by simp
  show ?case by (auto simp: IH Cons chosen_Cons checked_def [of d env] image_iff)
qed (auto simp: chosen_def)

lemma map_of_chosen:
  "distinct (map ev_Name envs) \<Longrightarrow> map_of (chosen d envs vals) k =
     (case find (\<lambda>env. ev_Name env = k) envs of
        None \<Rightarrow> map_of vals k | Some env \<Rightarrow> if offers d k then Some (GStr (ev_Value env)) else map_of vals k)"
proof (induction envs arbitrary: vals)
  case (Cons env envs)
  have "find (\<lambda>e. ev_Name e = ev_Name env) envs = None" using Cons.prems by (simp add: find_None_iff) (metis image_eqI)
  then show ?case using Cons by (auto simp: chosen_Cons update_conv' split: option.splits)
qed (simp add: chosen_def)

lemma offers_key: "offers d k \<Longrightarrow> fields_ok F R d \<Longrightarrow> k \<noteq> [] \<and> CHR ''.'' \<notin> set k"
  by (auto simp: offers_def fields_ok_def list_ex_iff list_all_iff)

lemma flat_chosen: "fields_ok F R d \<Longrightarrow> flat vals \<Longrightarrow> flat (chosen d envs vals)"
proof (induction envs arbitrary: vals)
  case (Cons env envs)
  have "flat (AList.update (ev_Name env) (GStr (ev_Value env)) vals)" if "offers d (ev_Name env)"
    using offers_key [OF that Cons.prems(1)] by (intro flat_update [OF Cons.prems(2)]) auto
  then show ?case using Cons by (simp add: chosen_Cons)
qed (simp add: chosen_def)

lemma flat_default_values: "fields_ok F R d \<Longrightarrow> flat (default_values d)"
proof -
  assume "fields_ok F R d"
  then have f: "distinct (map fd_Key (df_Fields d))"
    "f \<in> set (df_Fields d) \<Longrightarrow> fd_Key f \<noteq> [] \<and> CHR ''.'' \<notin> set (fd_Key f) \<and> is_leaf (fd_Default f)" for f
    by (auto simp: fields_ok_def list_all_iff)
  show ?thesis using f by (auto simp: default_values_map flat_def list_all_iff comp_def)
qed

definition value_ok :: "'f floats \<Rightarrow> regexes \<Rightarrow> 'f fault_definition \<Rightarrow> env_var \<Rightarrow> bool" where
  "value_ok F R d env = list_ex (\<lambda>f. fd_Key f = ev_Name env \<and> checkValue F R f (GStr (ev_Value env)) = None) (df_Fields d)"

lemma chosen_accepted:
  assumes ok: "fields_ok F R d" and dist: "distinct (map ev_Name envs)"
  shows "accepted F R (df_Fields d) (chosen d envs (default_values d)) \<longleftrightarrow>
    (\<forall>env \<in> set envs. offers d (ev_Name env) \<longrightarrow> value_ok F R d env)"
proof -
  have f: "distinct (map fd_Key (df_Fields d))" using ok by (simp add: fields_ok_def)
  have default: "\<exists>f \<in> set (df_Fields d). fd_Key f = k \<and> checkValue F R f v = None" if "map_of (default_values d) k = Some v" for k v
    using map_of_SomeD [OF that] ok by (auto simp: default_values_map [OF f] fields_ok_def list_all_iff)
  have named: "find (\<lambda>e. ev_Name e = ev_Name env) envs = Some env" if "env \<in> set envs" for env
    using dist that by (induction envs) force+
  show ?thesis
    unfolding flat_accepted [OF f flat_chosen [OF ok flat_default_values [OF ok]]] map_of_chosen [OF dist]
  proof (intro iffI ballI impI allI)
    fix env
    assume "\<forall>k v. (case find (\<lambda>env. ev_Name env = k) envs of None \<Rightarrow> map_of (default_values d) k
        | Some env \<Rightarrow> if offers d k then Some (GStr (ev_Value env)) else map_of (default_values d) k) = Some v \<longrightarrow>
        (\<exists>f \<in> set (df_Fields d). fd_Key f = k \<and> checkValue F R f v = None)"
      and "env \<in> set envs" "offers d (ev_Name env)"
    then show "value_ok F R d env" using named by (fastforce simp: value_ok_def list_ex_iff)
  next
    fix k v
    assume all: "\<forall>env \<in> set envs. offers d (ev_Name env) \<longrightarrow> value_ok F R d env"
      and v: "(case find (\<lambda>env. ev_Name env = k) envs of None \<Rightarrow> map_of (default_values d) k
        | Some env \<Rightarrow> if offers d k then Some (GStr (ev_Value env)) else map_of (default_values d) k) = Some v"
    show "\<exists>f \<in> set (df_Fields d). fd_Key f = k \<and> checkValue F R f v = None"
    proof (cases "find (\<lambda>env. ev_Name env = k) envs")
      case (Some env)
      then have "env \<in> set envs" "ev_Name env = k" by (auto simp: find_Some_iff)
      then show ?thesis using v Some all default by (auto simp: value_ok_def list_ex_iff split: if_splits)
    qed (use v default in simp)
  qed
qed

lemma ValidateEnvironment_iff:
  assumes "fields_ok F R d" "df_HasSchema d"
  shows "ValidateEnvironment F R d envs = None \<longleftrightarrow> distinct (map ev_Name envs) \<and>
    (\<forall>env \<in> set envs. tolerated d env \<and> (offers d (ev_Name env) \<longrightarrow> value_ok F R d env))"
proof (cases "env_values d envs [] (default_values d)")
  case (Inl err)
  then have "\<not> (distinct (map ev_Name envs) \<and> list_all (tolerated d) envs)"
    using env_values_iff [of d envs "[]" "default_values d" "chosen d envs (default_values d)"] by auto
  then show ?thesis using Inl assms(2) by (auto simp: ValidateEnvironment_def list_all_iff)
next
  case (Inr w)
  then have w: "distinct (map ev_Name envs)" "list_all (tolerated d) envs" "w = chosen d envs (default_values d)"
    unfolding env_values_iff by auto
  then show ?thesis using Inr assms(2) chosen_accepted [OF assms(1) w(1)]
    by (auto simp: ValidateEnvironment_def settings_result_accepted list_all_iff)
qed

lemma validateDeclaredSettings_iff:
  assumes "fields_ok F R d" "df_HasSchema d"
  shows "validateDeclaredSettings F R d envs = None \<longleftrightarrow> distinct (map ev_Name (filter (checked d) envs)) \<and>
    (\<forall>env \<in> set envs. checked d env \<longrightarrow> value_ok F R d env)"
proof (cases "declared_values d envs [] (default_values d)")
  case (Inl err)
  then have "\<not> distinct (map ev_Name (filter (checked d) envs))"
    using declared_values_iff [of d envs "[]" "default_values d" "chosen d (filter (checked d) envs) (default_values d)"] by auto
  then show ?thesis using Inl assms(2) by (auto simp: validateDeclaredSettings_def)
next
  case (Inr w)
  then have w: "distinct (map ev_Name (filter (checked d) envs))" "w = chosen d (filter (checked d) envs) (default_values d)"
    unfolding declared_values_iff by auto
  then show ?thesis using Inr assms(2) chosen_accepted [OF assms(1) w(1)]
    by (auto simp: validateDeclaredSettings_def settings_result_accepted checked_def)
qed

section \<open>The gate without its memo\<close>

definition direct_experiment ::
  "'f floats \<Rightarrow> regexes \<Rightarrow> (source \<Rightarrow> 'f resolved) option \<Rightarrow> parameter list \<Rightarrow> string \<Rightarrow> string \<Rightarrow> source \<Rightarrow>
   engine_experiment \<Rightarrow> gate_error option" where
  "direct_experiment F R provider ps tname rawSource source ex =
     (let ref = experiment_ref rawSource source ex in
      case call_provider provider ref of
        NotFound \<Rightarrow> if rawSource = [] then None else Some (CannotResolve tname)
      | ResolveFailed \<Rightarrow> Some (CannotResolve tname)
      | Found None \<Rightarrow> None
      | Found (Some d) \<Rightarrow> check_resolved F R ps tname rawSource ref ex d)"

definition direct_engine ::
  "'f floats \<Rightarrow> regexes \<Rightarrow> artifact_decoders \<Rightarrow> (source \<Rightarrow> 'f resolved) option \<Rightarrow> parameter list \<Rightarrow> string \<Rightarrow>
   engine \<Rightarrow> gate_error option" where
  "direct_engine F R A provider ps tname en =
     (let rawSource = annotation en SourceAnnotation in
      if rawSource = [] then first_error (direct_experiment F R provider ps tname [] no_source) (en_Experiments en)
      else (case decodeSource A rawSource of
        None \<Rightarrow> Some (BadSource tname)
      | Some source \<Rightarrow>
         if length (en_Experiments en) \<noteq> 1 then Some (NotOneExperiment tname)
         else first_error (direct_experiment F R provider ps tname rawSource source) (en_Experiments en)))"

definition direct_artifact ::
  "'f floats \<Rightarrow> regexes \<Rightarrow> artifact_decoders \<Rightarrow> (source \<Rightarrow> 'f resolved) option \<Rightarrow> parameter list \<Rightarrow>
   string \<times> artifact \<Rightarrow> gate_error option" where
  "direct_artifact F R A provider ps = (\<lambda>(tname, a). case ar_Raw a of
     None \<Rightarrow> None
   | Some data \<Rightarrow>
      if ad_kind A data \<noteq> Some ''ChaosEngine'' then None
      else (case ad_engine A data of
        None \<Rightarrow> Some (BadArtifact tname)
      | Some en \<Rightarrow> direct_engine F R A provider ps tname en))"

text \<open>What the memo holds: the provider's answer, or that a legacy name, which has no hub, is unknown.\<close>

definition memo_ok :: "(source \<Rightarrow> 'f resolved) option \<Rightarrow> 'f memo \<Rightarrow> bool" where
  "memo_ok provider memo = (\<forall>ref d. memo ref = Some d \<longrightarrow>
     call_provider provider ref = Found d \<or> call_provider provider ref = NotFound \<and> d = None \<and> so_HubID ref = [])"

lemma memo_okD:
  "memo_ok provider memo \<Longrightarrow> memo ref = Some d \<Longrightarrow>
   call_provider provider ref = Found d \<or> call_provider provider ref = NotFound \<and> d = None \<and> so_HubID ref = []"
  by (simp add: memo_ok_def)

lemma memo_ok_upd:
  "memo_ok provider memo \<Longrightarrow> call_provider provider ref = Found d \<or> call_provider provider ref = NotFound \<and> d = None \<and> so_HubID ref = [] \<Longrightarrow>
   memo_ok provider (memo(ref \<mapsto> d))"
  by (simp add: memo_ok_def)

lemma resolve_memo_direct:
  assumes "memo_ok provider memo" "(rawSource = []) = (so_HubID ref = [])"
  shows "case resolve_memo provider tname rawSource memo ref of
      Inl err \<Rightarrow> err = CannotResolve tname \<and>
        (call_provider provider ref = ResolveFailed \<or> call_provider provider ref = NotFound \<and> rawSource \<noteq> [])
    | Inr (d, memo') \<Rightarrow> memo_ok provider memo' \<and>
        (call_provider provider ref = Found d \<or> call_provider provider ref = NotFound \<and> d = None \<and> rawSource = [])"
proof (cases "memo ref")
  case (Some d)
  then show ?thesis using memo_okD [OF assms(1) Some] assms by (auto simp: resolve_memo_def)
next
  case None
  then show ?thesis using assms memo_ok_upd [OF assms(1)]
    by (cases "call_provider provider ref") (auto simp: resolve_memo_def)
qed

lemma check_experiment_direct:
  assumes "memo_ok provider memo" "(rawSource = []) = (so_HubID source = [])"
  shows "case check_experiment F R provider ps tname rawSource source memo ex of
      Inl err \<Rightarrow> direct_experiment F R provider ps tname rawSource source ex = Some err
    | Inr memo' \<Rightarrow> direct_experiment F R provider ps tname rawSource source ex = None \<and> memo_ok provider memo'"
proof -
  let ?ref = "experiment_ref rawSource source ex"
  have hub: "(rawSource = []) = (so_HubID ?ref = [])" using assms(2) by (simp add: experiment_ref_def)
  show ?thesis
  proof (cases "resolve_memo provider tname rawSource memo ?ref")
    case (Inl err)
    then show ?thesis using resolve_memo_direct [OF assms(1) hub, of tname]
      by (auto simp: check_experiment_def direct_experiment_def)
  next
    case (Inr r)
    obtain d memo' where r: "r = (d, memo')" by (cases r)
    show ?thesis using resolve_memo_direct [OF assms(1) hub, of tname] Inr r
      by (cases d) (auto simp: check_experiment_def direct_experiment_def split: option.splits)
  qed
qed

lemma decodeSource_hub: "decodeSource A raw = Some source \<Longrightarrow> so_HubID source \<noteq> []"
  by (auto simp: decodeSource_def split: if_splits option.splits)

lemma check_engine_direct:
  assumes "memo_ok provider memo"
  shows "case check_engine F R A provider ps tname memo en of
      Inl err \<Rightarrow> direct_engine F R A provider ps tname en = Some err
    | Inr memo' \<Rightarrow> direct_engine F R A provider ps tname en = None \<and> memo_ok provider memo'"
proof -
  have loop: "case each (check_experiment F R provider ps tname rawSource source) memo exs of
      Inl err \<Rightarrow> first_error (direct_experiment F R provider ps tname rawSource source) exs = Some err
    | Inr memo' \<Rightarrow> first_error (direct_experiment F R provider ps tname rawSource source) exs = None \<and> memo_ok provider memo'"
    if "(rawSource = []) = (so_HubID source = [])" for rawSource source exs
    using assms that by (intro each_first_error check_experiment_direct)
  have hub: "so_HubID no_source = []" by (simp add: no_source_def)
  show ?thesis
  proof (cases "annotation en SourceAnnotation = []")
    case True
    then show ?thesis using loop [of "[]" no_source] hub
      by (simp add: check_engine_def direct_engine_def cong: sum.case_cong)
  next
    case False
    then show ?thesis using loop [of "annotation en SourceAnnotation"] decodeSource_hub
      by (cases "decodeSource A (annotation en SourceAnnotation)")
        (auto simp: check_engine_def direct_engine_def Let_def cong: sum.case_cong)
  qed
qed

lemma check_artifact_direct:
  assumes "memo_ok provider memo"
  shows "case check_artifact F R A provider ps memo a of
      Inl err \<Rightarrow> direct_artifact F R A provider ps a = Some err
    | Inr memo' \<Rightarrow> direct_artifact F R A provider ps a = None \<and> memo_ok provider memo'"
proof (cases a)
  case (Pair tname art)
  show ?thesis
  proof (cases "\<exists>data en. ar_Raw art = Some data \<and> ad_kind A data = Some ''ChaosEngine'' \<and> ad_engine A data = Some en")
    case True
    then obtain data en where "ar_Raw art = Some data" "ad_kind A data = Some ''ChaosEngine''" "ad_engine A data = Some en"
      by blast
    then show ?thesis using check_engine_direct [OF assms, of F R A ps tname en] Pair
      by (simp add: check_artifact_def direct_artifact_def cong: sum.case_cong)
  next
    case False
    then show ?thesis using assms Pair
      by (auto simp: check_artifact_def direct_artifact_def split: option.splits)
  qed
qed

lemma ValidateWorkflow_direct:
  "ValidateWorkflow F R A provider (Some spec) = first_error (direct_artifact F R A provider (Parameters spec)) (artifacts spec)"
proof -
  have "memo_ok provider (\<lambda>_. None)" by (simp add: memo_ok_def)
  then have "case each (check_artifact F R A provider (Parameters spec)) (\<lambda>_. None) (artifacts spec) of
      Inl err \<Rightarrow> first_error (direct_artifact F R A provider (Parameters spec)) (artifacts spec) = Some err
    | Inr memo' \<Rightarrow> first_error (direct_artifact F R A provider (Parameters spec)) (artifacts spec) = None \<and> memo_ok provider memo'"
    by (intro each_first_error check_artifact_direct)
  then show ?thesis by (auto simp: ValidateWorkflow_def split: sum.splits)
qed

section \<open>Targets\<close>

text \<open>Reading a target back: the kind, the namespace and the bracketed selector.\<close>

definition read_target :: "string \<Rightarrow> (string \<times> string \<times> string) option" where
  "read_target s = (case CutByte s CHR '':'' of (kind, r, found) \<Rightarrow>
     if \<not> found then None
     else (case CutByte r CHR '':'' of (namespace, sel, found2) \<Rightarrow>
       if \<not> found2 \<or> length sel < 2 then None else Some (kind, namespace, butlast (tl sel))))"

lemma CutByte_append: "d \<notin> set a \<Longrightarrow> CutByte (a @ d # b) d = (a, b, True)"
  by (simp add: CutByte_def IndexByte_append)

lemma read_target_text:
  assumes "\<not> list_ex reserved (kind @ namespace @ selector)"
  shows "read_target (targets_text kind namespace selector) = Some (kind, namespace, selector)"
proof -
  have "CHR '':'' \<notin> set kind" "CHR '':'' \<notin> set namespace"
    using assms by (auto simp: list_ex_iff reserved_def)
  then show ?thesis by (simp add: read_target_def targets_text_def CutByte_append)
qed

definition is_target :: "env_var \<Rightarrow> bool" where
  "is_target env = (ev_Name env = ''TARGETS'')"

section \<open>Properties\<close>

text \<open>An example: a fault with one setting, a duration between 1 and 60, and one hidden variable.\<close>

definition env_of :: "string \<Rightarrow> string \<Rightarrow> env_var" where
  "env_of name v = \<lparr>ev_Name = name, ev_Value = v, ev_From = None\<rparr>"

definition duration_declared :: "int declared" where
  "duration_declared = \<lparr>de_Key = ''TIME'', de_Label = ''Time'', de_Description = [], de_Type = ''integer'', de_Required = True,
     de_Min = Some 1, de_Max = Some 60, de_Pattern = [], de_Options = [], de_Group = [], de_Advanced = False\<rparr>"

definition duration_decoders :: "int decoders" where
  "duration_decoders = \<lparr>yaml_doc = (\<lambda>_. Some [(''TIME'', GStr ''5''), (''configurations'', GList [])]),
     yaml_decls = (\<lambda>_. Some [duration_declared]), json_settings = (\<lambda>_. None)\<rparr>"

definition duration_fault :: "int fault_decoders" where
  "duration_fault = \<lparr>fy_spec = (\<lambda>_. Some [(''configurations'', GList [])]),
     fy_experiment = (\<lambda>_. Some (''ChaosExperiment'', ''pod-delete'', [env_of ''TIME'' ''5'', env_of ''LIB'' ''x''])),
     fy_encode = (\<lambda>_. Some [])\<rparr>"

definition duration_field :: "int field" where
  "duration_field = \<lparr>fd_Key = ''TIME'', fd_Label = ''Time'', fd_Description = [], fd_Type = ''integer'', fd_Kind = KindString,
     fd_Default = GStr ''5'', fd_Required = True, fd_Min = Some 1, fd_Max = Some 60, fd_Pattern = [], fd_Options = [],
     fd_Group = [], fd_Advanced = False\<rparr>"

definition duration_definition :: "int fault_definition" where
  "duration_definition = \<lparr>df_Source = no_source, df_CSV = [], df_Fault = [], df_Experiment = ''pod-delete'',
     df_Fields = [duration_field], df_Defaults = [''TIME'' \<mapsto> env_of ''TIME'' ''5'', ''LIB'' \<mapsto> env_of ''LIB'' ''x''],
     df_HasSchema = True, df_Revision = []\<rparr>"

lemmas duration_defs = env_of_def duration_declared_def duration_decoders_def duration_fault_def duration_field_def
  duration_definition_def int_floats_def prefix_regexes_def
lemmas check_defs = checkDeclaration_def checkValue_def checkKind_def checkType_def checkRange_def type_defs crossed_bounds_def
  finite_bounds_def text_or_empty_def ParseInt_def digits_val_def digit_val_def is_digit_def in_int64_def

lemma duration_Parse: "Parse int_floats prefix_regexes duration_decoders [] = Inr [duration_field]"
  by (simp add: duration_defs check_defs Parse_def parse_declarations_def newField_def field_of_def Let_def isValidKey_def
      IsPlatformOwned_def platformOwnedKeys_def IsSecretKey_def secretSegment_def secret_words_def word_here_def separator_def
      lookup_def go_string_simps char_of_def bit_Suc_0_iff)

lemma duration_fault_Parse: "fault_Parse int_floats prefix_regexes duration_decoders duration_fault [] [] = Inr duration_definition"
  using duration_Parse
  by (simp add: fault_Parse_def duration_fault_def duration_definition_def env_of_def Let_def envName_def is_alnum_def is_digit_def
      platformEnv_def duration_field_def type_defs fun_upd_twist)

text \<open>C11. An environment is accepted for a fault's current definition exactly when no variable is
  repeated and each one is a setting the fault offers, with a literal that is valid for its field, or
  LIB_IMAGE, or a variable of the definition left exactly as it is there. Every value the fault will
  run with was therefore offered and checked, or is the hub's own.\<close>

theorem environment_exact:
  assumes "fault_Parse F R D Y csv fault = Inr d" "df_HasSchema d"
  shows "ValidateEnvironment F R d envs = None \<longleftrightarrow> distinct (map ev_Name envs) \<and>
    (\<forall>env \<in> set envs.
      if list_ex (\<lambda>f. fd_Key f = ev_Name env) (df_Fields d)
      then ev_From env = None \<and>
        (\<exists>f \<in> set (df_Fields d). fd_Key f = ev_Name env \<and> checkValue F R f (GStr (ev_Value env)) = None)
      else ev_Name env = ''LIB_IMAGE'' \<or> df_Defaults d (ev_Name env) = Some env)"
  using ValidateEnvironment_iff [OF fault_Parse_fields_ok [OF assms(1)] assms(2), of envs]
  by (auto simp: tolerated_def offers_def value_ok_def list_ex_iff)

lemma environment_exact_witness:
  "ValidateEnvironment int_floats prefix_regexes duration_definition [env_of ''TIME'' ''9'', env_of ''LIB'' ''x''] = None \<and>
   ValidateEnvironment int_floats prefix_regexes duration_definition [env_of ''LIB'' ''y''] \<noteq> None"
  using environment_exact [OF duration_fault_Parse]
  by (simp add: duration_defs check_defs go_string_simps)

text \<open>What the current definition accepts, the lenient check for engines of an older revision
  accepts as well: a hub update never stops an engine the strict check let through.\<close>

theorem strict_implies_lenient:
  assumes "fault_Parse F R D Y csv fault = Inr d" "ValidateEnvironment F R d envs = None"
  shows "validateDeclaredSettings F R d envs = None"
proof (cases "df_HasSchema d")
  case True
  note ok = fault_Parse_fields_ok [OF assms(1)]
  show ?thesis
    using assms(2) distinct_map_filter [of ev_Name envs "checked d"]
    unfolding ValidateEnvironment_iff [OF ok True] validateDeclaredSettings_iff [OF ok True]
    by (auto simp: checked_def)
qed (simp add: validateDeclaredSettings_def)

lemma strict_implies_lenient_witness:
  "validateDeclaredSettings int_floats prefix_regexes duration_definition [env_of ''LIB'' ''x''] = None"
proof -
  have "ValidateEnvironment int_floats prefix_regexes duration_definition [env_of ''LIB'' ''x''] = None"
    by (simp add: duration_defs check_defs ValidateEnvironment_def offers_def default_values_def settings_result_def Validate_def
        join_key_def go_string_simps)
  then show ?thesis by (rule strict_implies_lenient [OF duration_fault_Parse])
qed

text \<open>Looking each definition up once per request changes nothing: the gate over a workflow answers,
  error for error, what it would answer asking the provider for every experiment, although an unknown
  legacy name is remembered as unknown while an unknown annotated source is an error.\<close>

theorem gate_memo_transparent:
  "ValidateWorkflow F R A provider (Some spec) =
     first_error (direct_artifact F R A provider (Parameters spec)) (artifacts spec)"
  by (rule ValidateWorkflow_direct)

text \<open>Moving a resource target out of appinfo loses nothing: each experiment gets exactly one
  TARGETS variable, from which the kind, the namespace and the selector can be read back, every other
  variable stays in place and in order, appinfo ends empty, and a second pass changes nothing.\<close>

theorem targets_moved_faithfully:
  assumes "MaterializeTargets en = Inr (True, en')" "TrimSpace (en_Applabel en) \<noteq> []"
  shows "en_Appns en' = [] \<and> en_AppKind en' = [] \<and> en_Applabel en' = [] \<and>
    map ex_Name (en_Experiments en') = map ex_Name (en_Experiments en) \<and>
    map (\<lambda>ex. filter (\<lambda>e. \<not> is_target e) (ex_ENV ex)) (en_Experiments en') =
      map (\<lambda>ex. filter (\<lambda>e. \<not> is_target e) (ex_ENV ex)) (en_Experiments en) \<and>
    map (\<lambda>ex. map (\<lambda>e. read_target (ev_Value e)) (filter is_target (ex_ENV ex))) (en_Experiments en') =
      replicate (length (en_Experiments en))
        [Some (ToLower (TrimSpace (en_AppKind en)), TrimSpace (en_Appns en), TrimSpace (en_Applabel en))] \<and>
    MaterializeTargets en' = Inr (False, en')"
proof -
  let ?k = "ToLower (TrimSpace (en_AppKind en))" and ?n = "TrimSpace (en_Appns en)" and ?s = "TrimSpace (en_Applabel en)"
  have h: "\<not> list_ex reserved (?k @ ?n @ ?s)"
    "en' = no_appinfo (en\<lparr>en_Experiments := map (with_targets (targets_text ?k ?n ?s)) (en_Experiments en)\<rparr>)"
    using assms by (auto simp: MaterializeTargets_def Let_def split: if_splits)
  have second: "MaterializeTargets en' = Inr (False, en')"
    by (simp add: h(2) MaterializeTargets_def no_appinfo_def workloadKinds_def ToLower_def Let_def)
  have "map (\<lambda>e. read_target (ev_Value e)) (filter is_target (ex_ENV (with_targets (targets_text ?k ?n ?s) ex))) = [Some (?k, ?n, ?s)]"
    "filter (\<lambda>e. \<not> is_target e) (ex_ENV (with_targets (targets_text ?k ?n ?s) ex)) = filter (\<lambda>e. \<not> is_target e) (ex_ENV ex)"
    "ex_Name (with_targets (targets_text ?k ?n ?s) ex) = ex_Name ex" for ex
    by (simp_all add: with_targets_def is_target_def filter_empty_conv read_target_text [OF h(1)])
  then show ?thesis using second
    by (simp add: h(2) no_appinfo_def comp_def map_replicate_const del: read_target_text)
qed

definition service_engine :: engine where
  "service_engine = \<lparr>en_Annotations = (\<lambda>_. None), en_Appns = ''shop'', en_AppKind = ''Service'', en_Applabel = ''app=cart'',
     en_Selectors = False, en_Experiments = [\<lparr>ex_Name = ''e'', ex_ENV = [env_of ''TARGETS'' ''old'', env_of ''TIME'' ''9'']\<rparr>]\<rparr>"

definition service_moved :: engine where
  "service_moved = no_appinfo (service_engine\<lparr>en_Experiments :=
     map (with_targets (targets_text ''service'' ''shop'' ''app=cart'')) (en_Experiments service_engine)\<rparr>)"

lemma targets_moved_faithfully_witness: "MaterializeTargets service_moved = Inr (False, service_moved)"
proof -
  have "MaterializeTargets service_engine = Inr (True, service_moved)" "TrimSpace (en_Applabel service_engine) \<noteq> []"
    by (simp_all add: service_moved_def service_engine_def MaterializeTargets_def workloadKinds_def reserved_def
        go_string_simps char_of_def bit_Suc_0_iff Let_def)
  then show ?thesis using targets_moved_faithfully by blast
qed

end
