(* ===== verification/Fault_Families.thy ===== *)
theory Fault_Families
  imports Go_Prelude
begin

text \<open>The families of faults of \<^verbatim>\<open>utils/faults.go\<close>, told apart by the name of a fault.\<close>

definition matchesFaultFamily :: "string \<Rightarrow> string list \<Rightarrow> bool" where
  "matchesFaultFamily name family = list_ex (\<lambda>member. name = member \<or> HasPrefix name (member @ ''-'')) family"

definition teardownExperimentNames :: "string list" where
  "teardownExperimentNames = [''uninstall-agent'', ''uninstall-application'']"

definition nodeFaultNames :: "string list" where
  "nodeFaultNames = [
     ''node-drain'',
     ''node-taint'',
     ''node-restart'',
     ''node-cpu-hog'',
     ''node-memory-hog'',
     ''node-io-stress'',
     ''node-poweroff'',
     ''kubelet-service-kill'',
     ''docker-service-kill'']"

definition itbenchFaultNames :: "string list" where
  "itbenchFaultNames = [
     ''chaos-mesh-http-abort-replacement'',
     ''chaos-mesh-http-body-tamper-replacement'',
     ''chaos-mesh-pod-failure-replacement'',
     ''cordoned-kubernetes-worker-node'',
     ''crashing-kubernetes-workload-init-container'',
     ''deleted-kubernetes-service'',
     ''failing-name-resolution-kubernetes-workload-dns-policy'',
     ''hanging-kubernetes-workload-init-container'',
     ''ingress-port-blocking-network-policy'',
     ''insufficient-kubernetes-resource-quota'',
     ''insufficient-kubernetes-workload-container-resources'',
     ''invalid-kubernetes-service-selector'',
     ''invalid-kubernetes-workload-container-command'',
     ''kubernetes-api-server-request-surge'',
     ''misconfigured-kubernetes-horizontal-pod-autoscaler'',
     ''misconfigured-k8s-workload-container-readiness-probe'',
     ''modified-k8s-workload-container-environment-variable'',
     ''modified-target-port-kubernetes-service'',
     ''nonexistent-kubernetes-workload-container-image'',
     ''nonexistent-kubernetes-workload-node'',
     ''nonexistent-kubernetes-workload-persistent-volume-claim'',
     ''opentelemetry-demo-feature-flag'',
     ''priority-kubernetes-workload-priority-preemption'',
     ''scaled-to-zero-kubernetes-workload'',
     ''unassigned-k8s-workload-container-resource-limits'',
     ''unschedulable-k8s-workload-pod-anti-affinity-rule'',
     ''unsupported-architecture-k8s-workload-container-image'',
     ''valkey-workload-changed-password'',
     ''valkey-workload-out-of-memory'']"

definition IsTeardownExperiment :: "string \<Rightarrow> bool" where
  "IsTeardownExperiment name = matchesFaultFamily name teardownExperimentNames"

definition IsNodeFault :: "string \<Rightarrow> bool" where
  "IsNodeFault name = matchesFaultFamily name nodeFaultNames"

definition IsItbenchFault :: "string \<Rightarrow> bool" where
  "IsItbenchFault name = matchesFaultFamily name itbenchFaultNames"

definition UsesUnscopedChaosServiceAccount :: "string \<Rightarrow> bool" where
  "UsesUnscopedChaosServiceAccount name = (IsTeardownExperiment name \<or> IsNodeFault name \<or> IsItbenchFault name)"

end
