(* ===== verification/Experiment_Validation.thy ===== *)
theory Experiment_Validation
  imports Fault_Catalog Fault_Config Fault_Families
begin

text \<open>
  The gate on saving and running an experiment (\<^verbatim>\<open>ops/validation.go\<close>,
  \<^verbatim>\<open>ops/install_config.go\<close>): the structure of the workflow, the settings of its install
  steps, the fault settings, the models, and the compatibility of faults and agents with the
  application, through the queries of the fault catalog. Hub files, decoders, the encoding of a spec and
  the injected services are the fields of \<open>checks\<close>.
\<close>

section \<open>Environment of the gate\<close>

record target_engine =
  te_Kind :: string
  te_AppInfo :: "(string \<times> string \<times> string) option"
  te_Experiments :: "string list"

datatype catalog_service = NoService | CatalogFailed | Loaded catalog

record 'f checks =
  ck_floats :: "'f floats"
  ck_regexes :: regexes
  ck_decoders :: "'f decoders"
  ck_artifacts :: artifact_decoders
  ck_target :: "string \<Rightarrow> target_engine option"
  ck_chart_dir :: "string \<Rightarrow> string \<Rightarrow> unit probed"
  ck_values_file :: "string \<Rightarrow> string \<Rightarrow> string probed"
  ck_marshal :: "workflow_spec \<Rightarrow> string option"
  ck_agents :: "(string \<times> string list option) list option"
  ck_provider :: "(source \<Rightarrow> 'f resolved) option"
  ck_models :: "(string list \<Rightarrow> bool) option"
  ck_catalog :: catalog_service

datatype values_error = NotAChartFolder | NotInHub | ChartUnreadable load_error | NotSettings | BadSettingsShape shape_error
  | SettingsRefused "(string \<times> setting_error) list"

datatype validation_error =
    InvalidSettingsOf string string values_error
  | MultipleInstallApplications "string list"
  | NoInstallApplication bool
  | NoAppNamespace
  | NoAgentFolder string
  | InvalidChaosArtifact string
  | InvalidFaultTarget string
  | FaultNamespaceMismatch string string string
  | InvalidFaultSettings gate_error
  | ModelRefused
  | CatalogUnavailable
  | ApplicationNotRegistered string
  | IncompatibleFault string string "string list"
  | AgentNotAppScoped string string
  | IncompatibleAgent string string

section \<open>Install-step settings\<close>

definition valuesJSONFlag :: string where "valuesJSONFlag = ''values-json''"

definition isChartFolderName :: "string \<Rightarrow> bool" where
  "isChartFolderName folder = (folder \<noteq> [] \<and> folder \<noteq> ''.'' \<and> folder \<noteq> ''..'' \<and>
     \<not> list_ex (\<lambda>c. c = CHR ''/'' \<or> c = CHR 0x5C) folder)"

definition validateChartValues :: "'f checks \<Rightarrow> string \<Rightarrow> string \<Rightarrow> string \<Rightarrow> values_error option" where
  "validateChartValues K kind folder raw =
     (if \<not> isChartFolderName folder then Some NotAChartFolder
      else (case Load (ck_floats K) (ck_regexes K) (ck_decoders K) (ck_chart_dir K kind folder) (ck_values_file K kind folder) of
        Inl ErrChartNotFound \<Rightarrow> Some NotInHub
      | Inl err \<Rightarrow> Some (ChartUnreadable err)
      | Inr flds \<Rightarrow> (case json_settings (ck_decoders K) raw of
          None \<Rightarrow> Some NotSettings
        | Some vals \<Rightarrow> (case Validate (ck_floats K) (ck_regexes K) flds vals of
            Inl err \<Rightarrow> Some (BadSettingsShape err)
          | Inr errs \<Rightarrow> if errs = [] then None else Some (SettingsRefused errs)))))"

definition step_values_error :: "'f checks \<Rightarrow> parameter list \<Rightarrow> step_template \<Rightarrow> validation_error option" where
  "step_values_error K ps t =
     (if installStepKind t = [] then None
      else (let raw = installStepArg (args_of t) valuesJSONFlag;
                folder = resolveWorkflowParameter (installStepArg (args_of t) ''folder'') ps
            in if raw = [] then None
               else map_option (InvalidSettingsOf (t_Name t) folder) (validateChartValues K (installStepKind t) folder raw)))"

definition validateInstallStepValues :: "'f checks \<Rightarrow> workflow_spec \<Rightarrow> validation_error option" where
  "validateInstallStepValues K spec = first_error (step_values_error K (Parameters spec)) (Templates spec)"

text \<open>\<^verbatim>\<open>EnsureInstallStepParameters\<close>: the first parameter of the name gets the value if it has none.\<close>

fun ensure_in :: "parameter list \<Rightarrow> string \<Rightarrow> string \<Rightarrow> parameter list" where
  "ensure_in [] name v = [\<lparr>p_Name = name, p_Value = Some v\<rparr>]"
| "ensure_in (p # ps) name v =
     (if p_Name p = name then (if p_Value p = None then p\<lparr>p_Value := Some v\<rparr> # ps else p # ps)
      else p # ensure_in ps name v)"

definition ensure :: "parameter list \<Rightarrow> string \<Rightarrow> string \<Rightarrow> parameter list" where
  "ensure ps name v = (if Contains v ''{{'' then ps else ensure_in ps name v)"

definition ensure_step :: "parameter list \<Rightarrow> step_template \<Rightarrow> parameter list" where
  "ensure_step ps t =
     (if installStepKind t = ''application'' then
        (let namespace = resolveWorkflowParameter (installStepArg (args_of t) ''namespace'') ps in
         if namespace \<noteq> [] then ensure ps ''appNamespace'' namespace else ps)
      else if installStepKind t = ''agent'' then
        (let folder = resolveWorkflowParameter (installStepArg (args_of t) ''folder'') ps;
             ps' = (if folder \<noteq> [] then ensure ps ''agentFolder'' folder else ps)
         in ensure ps' ''agentId'' [])
      else ps)"

definition EnsureInstallStepParameters :: "workflow_spec option \<Rightarrow> workflow_spec option" where
  "EnsureInstallStepParameters spec =
     map_option (\<lambda>spec. spec\<lparr>Parameters := foldl ensure_step (Parameters spec) (Templates spec)\<rparr>) spec"

definition configuredAgentValue :: "'f checks \<Rightarrow> step_template \<Rightarrow> string \<Rightarrow> string option" where
  "configuredAgentValue K t key = (case t_Container t of
     None \<Rightarrow> None
   | Some c \<Rightarrow> (let raw = installStepArg (ct_Args c) valuesJSONFlag in
       if raw = [] then None
       else (case json_settings (ck_decoders K) raw of None \<Rightarrow> None | Some vals \<Rightarrow> Value (ck_floats K) vals key)))"

text \<open>\<^verbatim>\<open>applyInstallStepSettings\<close>: the arguments kept when the chosen settings are known.\<close>

definition is_set_flag :: "string \<Rightarrow> bool" where
  "is_set_flag flag = (flag = ''-set'' \<or> flag = ''--set'' \<or> flag = ''--set-string'' \<or> flag = ''--set-json'')"

fun kept_args :: "(string \<Rightarrow> bool) \<Rightarrow> string list \<Rightarrow> string list" where
  "kept_args picked [] = []"
| "kept_args picked (arg # args) =
     (let (flag, assigned, combined) = CutByte arg CHR ''='';
          assignment = (case args of next # _ \<Rightarrow> if combined then assigned else next | [] \<Rightarrow> assigned);
          (key, _, _) = CutByte assignment CHR ''=''
      in if is_set_flag flag \<and> picked key
         then (if combined then kept_args picked args
               else (case args of _ # rest \<Rightarrow> kept_args picked rest | [] \<Rightarrow> []))
         else arg # kept_args picked args)"

definition apply_settings :: "'f checks \<Rightarrow> step_template \<Rightarrow> step_template" where
  "apply_settings K t =
     (if installStepKind t = [] then t
      else (case json_settings (ck_decoders K) (installStepArg (args_of t) valuesJSONFlag) of
        None \<Rightarrow> t
      | Some vals \<Rightarrow> t\<lparr>t_Container := map_option (\<lambda>c. c\<lparr>ct_Args :=
          kept_args (\<lambda>key. Value (ck_floats K) vals key \<noteq> None) (ct_Args c)\<rparr>) (t_Container t)\<rparr>))"

definition applyInstallStepSettings :: "'f checks \<Rightarrow> step_template list \<Rightarrow> step_template list" where
  "applyInstallStepSettings K templates = map (apply_settings K) templates"

definition agentStepHasSettings :: "step_template list \<Rightarrow> bool" where
  "agentStepHasSettings templates = list_ex (\<lambda>t. t_Container t \<noteq> None \<and> IsAgentInstallStep t \<and>
     installStepArg (args_of t) valuesJSONFlag \<noteq> []) templates"

section \<open>Models\<close>

definition resolveAgentModelAlias :: "'f checks \<Rightarrow> string \<Rightarrow> step_template \<Rightarrow> string \<Rightarrow> string" where
  "resolveAgentModelAlias K runOverride t platformDefault =
     (if TrimSpace runOverride \<noteq> [] then TrimSpace runOverride
      else (case configuredAgentValue K t ModelAliasKey of
        None \<Rightarrow> platformDefault
      | Some configured \<Rightarrow> if TrimSpace configured \<noteq> [] then configured else platformDefault))"

definition step_alias :: "'f checks \<Rightarrow> string \<Rightarrow> step_template \<Rightarrow> string" where
  "step_alias K runOverride t = TrimSpace (resolveAgentModelAlias K runOverride t [])"

fun resolved_aliases_from :: "'f checks \<Rightarrow> string \<Rightarrow> string list \<Rightarrow> step_template list \<Rightarrow> string list" where
  "resolved_aliases_from K runOverride seen [] = []"
| "resolved_aliases_from K runOverride seen (t # ts) =
     (if t_Container t = None \<or> \<not> IsAgentInstallStep t then resolved_aliases_from K runOverride seen ts
      else (let alias = step_alias K runOverride t in
        if alias = [] \<or> List.member seen alias then resolved_aliases_from K runOverride seen ts
        else alias # resolved_aliases_from K runOverride (alias # seen) ts))"

definition ResolvedModelAliases :: "'f checks \<Rightarrow> step_template list \<Rightarrow> string \<Rightarrow> string list" where
  "ResolvedModelAliases K templates runOverride = resolved_aliases_from K runOverride [] templates"

section \<open>Fault targets\<close>

record fault_target =
  ft_Name :: string
  ft_AppNS :: string
  ft_AppKind :: string
  ft_AppLabel :: string
  ft_HasApp :: bool

definition engine_targets :: "target_engine \<Rightarrow> fault_target list" where
  "engine_targets en = map (\<lambda>name. case te_AppInfo en of
       None \<Rightarrow> \<lparr>ft_Name = name, ft_AppNS = [], ft_AppKind = [], ft_AppLabel = [], ft_HasApp = False\<rparr>
     | Some (ns, kind, label) \<Rightarrow> \<lparr>ft_Name = name, ft_AppNS = TrimSpace ns, ft_AppKind = TrimSpace kind,
         ft_AppLabel = TrimSpace label, ft_HasApp = True\<rparr>)
     (filter (\<lambda>name. name \<noteq> [] \<and> \<not> IsTeardownExperiment name) (map TrimSpace (te_Experiments en)))"

fun collect_targets :: "(string \<Rightarrow> target_engine option) \<Rightarrow> artifact list \<Rightarrow> validation_error + fault_target list" where
  "collect_targets decode [] = Inr []"
| "collect_targets decode (a # as) = (case ar_Raw a of
     None \<Rightarrow> collect_targets decode as
   | Some data \<Rightarrow> (case decode data of
       None \<Rightarrow> Inl (InvalidChaosArtifact (ar_Name a))
     | Some en \<Rightarrow> if \<not> EqualFold (te_Kind en) ''ChaosEngine'' then collect_targets decode as
                  else map_sum id (\<lambda>ts. engine_targets en @ ts) (collect_targets decode as)))"

definition stages_faults :: "step_template \<Rightarrow> bool" where
  "stages_faults t = (t_Name t = ''install-chaos-faults'' \<or> t_Name t = ''install-chaos-experiments'')"

definition chaosFaultTargets :: "'f checks \<Rightarrow> step_template list \<Rightarrow> validation_error + fault_target list" where
  "chaosFaultTargets K templates = collect_targets (ck_target K) (concat (map t_Artifacts (filter stages_faults templates)))"

definition chaosFaultNames :: "'f checks \<Rightarrow> step_template list \<Rightarrow> validation_error + string list" where
  "chaosFaultNames K templates = map_sum id (map ft_Name) (chaosFaultTargets K templates)"

section \<open>Structure\<close>

definition appNamespaceRef :: string where "appNamespaceRef = ''{{workflow.parameters.appNamespace}}''"

definition referencesAppNamespace :: "'f checks \<Rightarrow> workflow_spec \<Rightarrow> bool" where
  "referencesAppNamespace K spec = (case ck_marshal K spec of None \<Rightarrow> False | Some encoded \<Rightarrow> Contains encoded appNamespaceRef)"

definition app_steps :: "workflow_spec \<Rightarrow> step_template list" where
  "app_steps spec = filter (\<lambda>t. isInstallStepTemplate t ''application'') (Templates spec)"

definition appFolders :: "workflow_spec \<Rightarrow> string list" where
  "appFolders spec = map (\<lambda>t. installStepArg (args_of t) ''folder'') (app_steps spec)"

definition appNamespaces :: "workflow_spec \<Rightarrow> string list" where
  "appNamespaces spec = map (\<lambda>t. installStepArg (args_of t) ''namespace'') (app_steps spec)"

definition hasInstallAgent :: "workflow_spec \<Rightarrow> bool" where
  "hasInstallAgent spec = list_ex (\<lambda>t. isInstallStepTemplate t ''agent'') (Templates spec)"

definition hasUninstallAgent :: "workflow_spec \<Rightarrow> bool" where
  "hasUninstallAgent spec = list_ex (\<lambda>t. EqualFold (TrimSpace (t_Name t)) ''uninstall-agent'') (Templates spec)"

definition agent_step_name :: "workflow_spec \<Rightarrow> string" where
  "agent_step_name spec = (if \<not> hasInstallAgent spec then ''uninstall-agent'' else ''install-agent'')"

definition target_error_of :: "string \<Rightarrow> fault_target \<Rightarrow> validation_error option" where
  "target_error_of namespace ft =
     (if \<not> ft_HasApp ft then None
      else if ft_AppNS ft = [] \<or> ft_AppKind ft = [] \<or> ft_AppLabel ft = [] then Some (InvalidFaultTarget (ft_Name ft))
      else if ft_AppNS ft \<noteq> namespace \<and> ft_AppNS ft \<noteq> appNamespaceRef
      then Some (FaultNamespaceMismatch (ft_Name ft) (ft_AppNS ft) namespace)
      else None)"

definition ValidateExperimentStructure :: "'f checks \<Rightarrow> workflow_spec option \<Rightarrow> validation_error option" where
  "ValidateExperimentStructure K wspec = (case wspec of None \<Rightarrow> None | Some spec \<Rightarrow>
     (case validateInstallStepValues K spec of
        Some err \<Rightarrow> Some err
      | None \<Rightarrow>
         if length (appFolders spec) > 1 then Some (MultipleInstallApplications (appFolders spec))
         else (case appNamespaces spec of
           [] \<Rightarrow> if \<not> (hasInstallAgent spec \<or> referencesAppNamespace K spec)
                 then (case chaosFaultTargets K (Templates spec) of Inl err \<Rightarrow> Some err | Inr _ \<Rightarrow> None)
                 else Some (NoInstallApplication (hasInstallAgent spec))
         | namespace # _ \<Rightarrow>
            if TrimSpace namespace = [] then Some NoAppNamespace
            else if (hasInstallAgent spec \<or> hasUninstallAgent spec) \<and> ExtractInstallAgentFolder (Templates spec) = []
            then Some (NoAgentFolder (agent_step_name spec))
            else (case chaosFaultTargets K (Templates spec) of
              Inl err \<Rightarrow> Some err
            | Inr targets \<Rightarrow> first_error (target_error_of (TrimSpace namespace)) targets))))"

section \<open>Composition\<close>

definition agentCompatibility :: "'f checks \<Rightarrow> string \<Rightarrow> string list option" where
  "agentCompatibility K agentFolder = (case ck_agents K of
     None \<Rightarrow> None
   | Some entries \<Rightarrow> (case find (\<lambda>e. fst e = agentFolder) entries of None \<Rightarrow> None | Some e \<Rightarrow> snd e))"

definition agent_error :: "'f checks \<Rightarrow> string \<Rightarrow> string \<Rightarrow> validation_error option" where
  "agent_error K agentFolder appKey =
     (if agentFolder = [] then None
      else (case agentCompatibility K agentFolder of
        None \<Rightarrow> None
      | Some declared \<Rightarrow>
         if declared = [] then Some (AgentNotAppScoped agentFolder appKey)
         else if \<not> IsAgentCompatible (Some declared) appKey then Some (IncompatibleAgent agentFolder appKey)
         else None))"

definition fault_error :: "catalog \<Rightarrow> string \<Rightarrow> string \<Rightarrow> validation_error option" where
  "fault_error c appKey fault =
     (if IsFaultCompatible (Some c) fault appKey then None
      else Some (IncompatibleFault fault appKey (case Lookup (Some c) fault of None \<Rightarrow> [] | Some f \<Rightarrow> sort (f_CompatibleApps f))))"

definition compatibility_error :: "'f checks \<Rightarrow> workflow_spec \<Rightarrow> string \<Rightarrow> string \<Rightarrow> validation_error option" where
  "compatibility_error K spec folder namespace = (case ck_catalog K of
     NoService \<Rightarrow> None
   | CatalogFailed \<Rightarrow> Some CatalogUnavailable
   | Loaded c \<Rightarrow> (case ResolveApplication (Some c) folder namespace of
       None \<Rightarrow> Some (ApplicationNotRegistered folder)
     | Some app \<Rightarrow> (case chaosFaultNames K (Templates spec) of
         Inl err \<Rightarrow> Some err
       | Inr faults \<Rightarrow> (case first_error (fault_error c (ap_Key app)) faults of
           Some err \<Rightarrow> Some err
         | None \<Rightarrow> agent_error K (ExtractInstallAgentFolder (Templates spec)) (ap_Key app)))))"

definition model_error :: "'f checks \<Rightarrow> workflow_spec \<Rightarrow> validation_error option" where
  "model_error K spec = (case ck_models K of None \<Rightarrow> None
     | Some allowed \<Rightarrow> if allowed (ResolvedModelAliases K (Templates spec) []) then None else Some ModelRefused)"

definition validateExperimentComposition :: "'f checks \<Rightarrow> workflow_spec option \<Rightarrow> validation_error option" where
  "validateExperimentComposition K wspec = (case wspec of None \<Rightarrow> None | Some spec \<Rightarrow>
     (case ValidateExperimentStructure K (Some spec) of Some err \<Rightarrow> Some err | None \<Rightarrow>
     (case ValidateWorkflow (ck_floats K) (ck_regexes K) (ck_artifacts K) (ck_provider K) (Some spec) of
        Some err \<Rightarrow> Some (InvalidFaultSettings err) | None \<Rightarrow>
     (case model_error K spec of Some err \<Rightarrow> Some err | None \<Rightarrow>
        if length (appFolders spec) > 1 then Some (MultipleInstallApplications (appFolders spec))
        else (case (appFolders spec, appNamespaces spec) of
          (folder # _, namespace # _) \<Rightarrow>
            if TrimSpace namespace = [] then Some NoAppNamespace
            else if (hasInstallAgent spec \<or> hasUninstallAgent spec) \<and> ExtractInstallAgentFolder (Templates spec) = []
            then Some (NoAgentFolder (agent_step_name spec))
            else compatibility_error K spec folder namespace
        | _ \<Rightarrow> if \<not> (hasInstallAgent spec \<or> referencesAppNamespace K spec) then None
                else Some (NoInstallApplication (hasInstallAgent spec)))))))"

section \<open>Lemmas\<close>

lemma app_lists: "length (appNamespaces spec) = length (appFolders spec)"
  by (simp add: appNamespaces_def appFolders_def)

lemma structure_accepted:
  assumes "ValidateExperimentStructure K (Some spec) = None"
  shows "validateInstallStepValues K spec = None"
    "\<exists>targets. chaosFaultTargets K (Templates spec) = Inr targets"
    "appFolders spec = [] \<Longrightarrow> \<not> hasInstallAgent spec \<and> \<not> referencesAppNamespace K spec"
    "appFolders spec = folder # rest \<Longrightarrow> rest = [] \<and> (\<exists>namespace. appNamespaces spec = [namespace] \<and> TrimSpace namespace \<noteq> [] \<and>
      ((hasInstallAgent spec \<or> hasUninstallAgent spec) \<longrightarrow> ExtractInstallAgentFolder (Templates spec) \<noteq> []) \<and>
      (\<forall>targets. chaosFaultTargets K (Templates spec) = Inr targets \<longrightarrow>
        (\<forall>ft \<in> set targets. target_error_of (TrimSpace namespace) ft = None)))"
proof -
  show "validateInstallStepValues K spec = None"
    using assms by (simp add: ValidateExperimentStructure_def split: option.splits)
  show "\<exists>targets. chaosFaultTargets K (Templates spec) = Inr targets"
    using assms by (auto simp: ValidateExperimentStructure_def split: option.splits list.splits if_splits sum.splits)
  show "appFolders spec = [] \<Longrightarrow> \<not> hasInstallAgent spec \<and> \<not> referencesAppNamespace K spec"
    using assms app_lists [of spec]
    by (auto simp: ValidateExperimentStructure_def split: option.splits list.splits if_splits sum.splits)
  show "rest = [] \<and> (\<exists>namespace. appNamespaces spec = [namespace] \<and> TrimSpace namespace \<noteq> [] \<and>
      ((hasInstallAgent spec \<or> hasUninstallAgent spec) \<longrightarrow> ExtractInstallAgentFolder (Templates spec) \<noteq> []) \<and>
      (\<forall>targets. chaosFaultTargets K (Templates spec) = Inr targets \<longrightarrow>
        (\<forall>ft \<in> set targets. target_error_of (TrimSpace namespace) ft = None)))"
    if f: "appFolders spec = folder # rest"
  proof -
    obtain namespace more where n: "appNamespaces spec = namespace # more" "length more = length rest"
      using app_lists [of spec] f by (cases "appNamespaces spec") auto
    show ?thesis using assms f n
      by (auto simp: ValidateExperimentStructure_def first_error_None split: option.splits if_splits sum.splits)
  qed
qed

lemma target_accepted:
  "target_error_of namespace ft = None \<longleftrightarrow> (ft_HasApp ft \<longrightarrow> ft_AppKind ft \<noteq> [] \<and> ft_AppLabel ft \<noteq> [] \<and> ft_AppNS ft \<noteq> [] \<and>
     (ft_AppNS ft = namespace \<or> ft_AppNS ft = appNamespaceRef))"
  by (simp add: target_error_of_def)

definition composed :: "'f checks \<Rightarrow> workflow_spec \<Rightarrow> validation_error option" where
  "composed K spec =
     (case ValidateExperimentStructure K (Some spec) of Some err \<Rightarrow> Some err | None \<Rightarrow>
     (case ValidateWorkflow (ck_floats K) (ck_regexes K) (ck_artifacts K) (ck_provider K) (Some spec) of
        Some err \<Rightarrow> Some (InvalidFaultSettings err) | None \<Rightarrow>
     (case model_error K spec of Some err \<Rightarrow> Some err | None \<Rightarrow>
     (case (appFolders spec, appNamespaces spec) of
        (folder # _, namespace # _) \<Rightarrow> compatibility_error K spec folder namespace | _ \<Rightarrow> None))))"

lemma composition_composed: "validateExperimentComposition K (Some spec) = composed K spec"
proof (cases "ValidateExperimentStructure K (Some spec)")
  case None
  show ?thesis
  proof (cases "appFolders spec")
    case Nil
    then have "\<not> hasInstallAgent spec \<and> \<not> referencesAppNamespace K spec" "appNamespaces spec = []"
      using structure_accepted(3) [OF None] app_lists [of spec] by auto
    then show ?thesis using None Nil by (simp add: validateExperimentComposition_def composed_def cong: option.case_cong)
  next
    case (Cons folder rest)
    then show ?thesis using structure_accepted(4) [OF None Cons] None
      by (auto simp: validateExperimentComposition_def composed_def cong: option.case_cong)
  qed
qed (simp add: validateExperimentComposition_def composed_def)

lemma Load_fields:
  "Load F R D dir vfile = Inr flds \<Longrightarrow> flds = [] \<or> (\<exists>data. Parse F R D data = Inr flds)"
  by (auto simp: Load_def split: probed.splits sum.splits)

lemma no_fields_no_values:
  "Validate F R [] values = Inr [] \<Longrightarrow> Value F values key = Some text \<Longrightarrow> False"
  using accepted_value_offered [of "[]" F R "values" key "text"] by (auto simp: accepted_def)

lemma step_values_accepted:
  assumes "step_values_error K ps t = None" "installStepKind t \<noteq> []" "installStepArg (args_of t) valuesJSONFlag \<noteq> []"
  shows "isChartFolderName (resolveWorkflowParameter (installStepArg (args_of t) ''folder'') ps)"
    "\<exists>flds vals. json_settings (ck_decoders K) (installStepArg (args_of t) valuesJSONFlag) = Some vals \<and>
      Load (ck_floats K) (ck_regexes K) (ck_decoders K)
        (ck_chart_dir K (installStepKind t) (resolveWorkflowParameter (installStepArg (args_of t) ''folder'') ps))
        (ck_values_file K (installStepKind t) (resolveWorkflowParameter (installStepArg (args_of t) ''folder'') ps)) = Inr flds \<and>
      Validate (ck_floats K) (ck_regexes K) flds vals = Inr []"
  using assms
  by (auto simp: step_values_error_def validateChartValues_def Let_def split: if_splits sum.splits option.splits load_error.splits)

section \<open>Properties\<close>

text \<open>C6. An experiment that passes the gate and installs an application installs exactly one, which is
  registered; every fault its engines name may target that application by the hub's own data, a fault
  that names a target names a kind, a label and the namespace of the application (or the reference that
  resolves to it), and an agent whose chart is known by the folder the gate reads is allowed for it.\<close>

theorem accepted_experiment_compatible:
  assumes "validateExperimentComposition K (Some spec) = None" "appFolders spec \<noteq> []"
    "ck_catalog K = Loaded (Build apps faults)" "distinct (map ap_Key apps)"
  shows "\<exists>folder namespace app targets. appFolders spec = [folder] \<and> appNamespaces spec = [namespace] \<and>
    ResolveApplication (Some (Build apps faults)) folder namespace = Some app \<and> app \<in> set apps \<and>
    chaosFaultTargets K (Templates spec) = Inr targets \<and>
    (\<forall>ft \<in> set targets. compatible_spec apps faults (ft_Name ft) (ap_Key app) \<and>
      (ft_HasApp ft \<longrightarrow> ft_AppKind ft \<noteq> [] \<and> ft_AppLabel ft \<noteq> [] \<and>
        (ft_AppNS ft = TrimSpace namespace \<or> ft_AppNS ft = appNamespaceRef))) \<and>
    (hasInstallAgent spec \<longrightarrow> (\<forall>declared. agentCompatibility K (ExtractInstallAgentFolder (Templates spec)) = Some declared \<longrightarrow>
      ap_Key app \<in> set declared))"
proof -
  have c: "composed K spec = None" using assms(1) composition_composed by metis
  then have st: "ValidateExperimentStructure K (Some spec) = None" by (simp add: composed_def split: option.splits)
  obtain folder rest where f: "appFolders spec = folder # rest" using assms(2) by (cases "appFolders spec") auto
  obtain namespace where n: "rest = []" "appNamespaces spec = [namespace]"
    "(hasInstallAgent spec \<or> hasUninstallAgent spec) \<longrightarrow> ExtractInstallAgentFolder (Templates spec) \<noteq> []"
    "\<forall>targets. chaosFaultTargets K (Templates spec) = Inr targets \<longrightarrow> (\<forall>ft \<in> set targets. target_error_of (TrimSpace namespace) ft = None)"
    using structure_accepted(4) [OF st f] by blast
  obtain targets where t: "chaosFaultTargets K (Templates spec) = Inr targets" using structure_accepted(2) [OF st] by blast
  have "compatibility_error K spec folder namespace = None"
    using c st f n(1,2) by (simp add: composed_def split: option.splits)
  then obtain app where app: "ResolveApplication (Some (Build apps faults)) folder namespace = Some app"
    "first_error (fault_error (Build apps faults) (ap_Key app)) (map ft_Name targets) = None"
    "agent_error K (ExtractInstallAgentFolder (Templates spec)) (ap_Key app) = None"
    using t assms(3) by (auto simp: compatibility_error_def chaosFaultNames_def split: option.splits)
  have "app \<in> set apps" using built.resolve_registered [of apps faults folder namespace app] app(1) assms(4) by simp
  moreover have "compatible_spec apps faults (ft_Name ft) (ap_Key app)" if "ft \<in> set targets" for ft
    using app(2) that Build_compatible [OF assms(4)] by (auto simp: first_error_None fault_error_def split: if_splits)
  moreover have "\<forall>declared. agentCompatibility K (ExtractInstallAgentFolder (Templates spec)) = Some declared \<longrightarrow> ap_Key app \<in> set declared"
    if "hasInstallAgent spec"
    using app(3) n(3) that by (auto simp: agent_error_def IsAgentCompatible_def list_ex_iff split: if_splits)
  moreover have "ft_HasApp ft \<longrightarrow> ft_AppKind ft \<noteq> [] \<and> ft_AppLabel ft \<noteq> [] \<and>
      (ft_AppNS ft = TrimSpace namespace \<or> ft_AppNS ft = appNamespaceRef)" if "ft \<in> set targets" for ft
    using n(4) t that target_accepted by blast
  ultimately show ?thesis
    using f n(1,2) t app(1) by (intro exI [of _ folder] exI [of _ namespace] exI [of _ app] exI [of _ targets]) blast
qed

text \<open>The second half of the composition gate repeats checks of the structure gate it calls first; they
  never fail there: the gate is the structure, the fault settings and the models, in that order, and
  then, when an application is installed, the compatibility checks.\<close>

theorem composition_repeats_nothing:
  "validateExperimentComposition K (Some spec) =
     (case ValidateExperimentStructure K (Some spec) of Some err \<Rightarrow> Some err | None \<Rightarrow>
     (case ValidateWorkflow (ck_floats K) (ck_regexes K) (ck_artifacts K) (ck_provider K) (Some spec) of
        Some err \<Rightarrow> Some (InvalidFaultSettings err) | None \<Rightarrow>
     (case model_error K spec of Some err \<Rightarrow> Some err | None \<Rightarrow>
     (case (appFolders spec, appNamespaces spec) of
        (folder # _, namespace # _) \<Rightarrow> compatibility_error K spec folder namespace | _ \<Rightarrow> None))))"
  by (simp add: composition_composed composed_def)


text \<open>An experiment on one application with an agent chart declared to target none.\<close>

definition shop_app :: application where
  "shop_app = \<lparr>ap_Key = ''shop'', ap_Folders = [''shop''], ap_Namespace = ''shop'', ap_LabelKey = ''app'', ap_Services = [],
     ap_ResourceKinds = []\<rparr>"

definition shop_checks :: "int checks" where
  "shop_checks = \<lparr>ck_floats = int_floats, ck_regexes = prefix_regexes, ck_decoders = one_chart,
     ck_artifacts = \<lparr>ad_kind = (\<lambda>_. None), ad_engine = (\<lambda>_. None), ad_source = (\<lambda>_. None)\<rparr>,
     ck_target = (\<lambda>_. Some \<lparr>te_Kind = ''ChaosEngine'', te_AppInfo = Some (''shop'', ''deployment'', ''app=cart''),
       te_Experiments = [''pod-kill'']\<rparr>),
     ck_chart_dir = (\<lambda>_ _. Present ()), ck_values_file = (\<lambda>_ _. Present []), ck_marshal = (\<lambda>_. None),
     ck_agents = Some [(''locked'', Some [])], ck_provider = None, ck_models = None,
     ck_catalog = Loaded (Build [shop_app] [])\<rparr>"

definition app_step :: step_template where
  "app_step = \<lparr>t_Name = ''install-application'', t_Annotations = (\<lambda>_. None),
     t_Container = Some \<lparr>ct_Image = [], ct_Args = [''-folder=shop'', ''-namespace=shop'']\<rparr>, t_Artifacts = []\<rparr>"

definition agent_step :: step_template where
  "agent_step = \<lparr>t_Name = ''install-agent'', t_Annotations = (\<lambda>_. None),
     t_Container = Some \<lparr>ct_Image = [], ct_Args = [''-folder={{workflow.parameters.agentFolder}}'', ''-values-json={}'']\<rparr>,
     t_Artifacts = []\<rparr>"

definition fault_step :: step_template where
  "fault_step = \<lparr>t_Name = ''install-chaos-faults'', t_Annotations = (\<lambda>_. None), t_Container = None,
     t_Artifacts = [\<lparr>ar_Name = ''a'', ar_Raw = Some []\<rparr>]\<rparr>"

definition shop_spec :: workflow_spec where
  "shop_spec = \<lparr>Templates = [app_step, agent_step, fault_step],
     Parameters = [\<lparr>p_Name = ''agentFolder'', p_Value = Some ''locked''\<rparr>]\<rparr>"

lemmas step_defs = app_step_def agent_step_def fault_step_def shop_spec_def args_of_def

lemma shop_kinds:
  "isInstallStepTemplate app_step ''application''" "\<not> isInstallStepTemplate app_step ''agent''"
  "isInstallStepTemplate agent_step ''agent''" "\<not> isInstallStepTemplate agent_step ''application''"
  "\<not> isInstallStepTemplate fault_step kind"
  by (simp_all add: step_defs isInstallStepTemplate_def installStepArg_def combined_value_def is_flag_def uninstallAllTemplateName_def
      go_string_simps char_of_def bit_Suc_0_iff Let_def)

lemma shop_agent_folder:
  "resolveWorkflowParameter (installStepArg (args_of agent_step) ''folder'') (Parameters shop_spec) = ''locked''"
proof -
  have "installStepArg (args_of agent_step) ''folder'' = ''{{workflow.parameters.'' @ ''agentFolder'' @ ''}}''"
    by (simp add: step_defs installStepArg_def combined_value_def is_flag_def HasPrefix_def TrimPrefix_def)
  moreover have "TrimSpace (''{{workflow.parameters.'' @ ''agentFolder'' @ ''}}'') = ''{{workflow.parameters.'' @ ''agentFolder'' @ ''}}''"
    by (simp add: go_string_simps)
  moreover have "param_ref (''{{workflow.parameters.'' @ ''agentFolder'' @ ''}}'') = Some ''agentFolder''"
    by (rule param_ref_render) (simp_all add: param_char_def is_alnum_def is_digit_def)
  ultimately show ?thesis by (simp add: resolveWorkflowParameter_def parameter_value_def shop_spec_def)
qed

lemma shop_args:
  "installStepArg (args_of agent_step) valuesJSONFlag = ''{}''" "installStepArg (args_of app_step) valuesJSONFlag = []"
  "appFolders shop_spec = [''shop'']" "appNamespaces shop_spec = [''shop'']"
  "hasInstallAgent shop_spec"
  "ExtractInstallAgentFolder (Templates shop_spec) = ''{{workflow.parameters.agentFolder}}''"
proof -
  note eval = installStepArg_def combined_value_def is_flag_def HasPrefix_def TrimPrefix_def valuesJSONFlag_def
  show "installStepArg (args_of agent_step) valuesJSONFlag = ''{}''" by (simp add: step_defs eval)
  show "installStepArg (args_of app_step) valuesJSONFlag = []" by (simp add: step_defs eval)
  have app: "app_steps shop_spec = [app_step]" using shop_kinds by (simp add: app_steps_def shop_spec_def)
  show "appFolders shop_spec = [''shop'']" unfolding appFolders_def app by (simp add: step_defs eval)
  show "appNamespaces shop_spec = [''shop'']" unfolding appNamespaces_def app by (simp add: step_defs eval)
  show "hasInstallAgent shop_spec" using shop_kinds by (simp add: hasInstallAgent_def shop_spec_def)
  have "t_Container app_step \<noteq> None" "t_Container agent_step \<noteq> None" by (simp_all add: step_defs)
  moreover have "first_folder (args_of agent_step) = Some ''{{workflow.parameters.agentFolder}}''"
    by (simp add: step_defs HasPrefix_def TrimPrefix_def)
  ultimately show "ExtractInstallAgentFolder (Templates shop_spec) = ''{{workflow.parameters.agentFolder}}''"
    using shop_kinds by (simp add: shop_spec_def IsAgentInstallStep_def)
qed

lemma shop_targets: "chaosFaultTargets shop_checks (Templates shop_spec) =
  Inr [\<lparr>ft_Name = ''pod-kill'', ft_AppNS = ''shop'', ft_AppKind = ''deployment'', ft_AppLabel = ''app=cart'', ft_HasApp = True\<rparr>]"
  by (simp add: chaosFaultTargets_def step_defs stages_faults_def shop_checks_def engine_targets_def IsTeardownExperiment_def
      matchesFaultFamily_def teardownExperimentNames_def EqualFold_def TrimSpace_def TrimP_def TrimRightP_def is_space_def HasPrefix_def)

lemma shop_structure: "ValidateExperimentStructure shop_checks (Some shop_spec) = None"
proof -
  have kinds: "installStepKind app_step = ''application''" "installStepKind agent_step = ''agent''" "installStepKind fault_step = []"
    using shop_kinds by (simp_all add: installStepKind_def)
  have "Validate int_floats prefix_regexes [replicas_field] [(''replicas'', GNumber ''3'')] = Inr []"
    by (simp add: Validate_def chart_example_defs checkValue_def checkKind_def checkType_def checkRange_def type_defs
        text_or_empty_def ParseInt_def digits_val_def digit_val_def is_digit_def in_int64_def go_string_simps Let_def join_key_def)
  then have "validateChartValues shop_checks ''agent'' ''locked'' ''{}'' = None"
    using one_chart_Parse
    by (simp add: validateChartValues_def isChartFolderName_def shop_checks_def Load_def one_chart_def)
  then have "validateInstallStepValues shop_checks shop_spec = None"
    using kinds shop_args(1,2) shop_agent_folder
    by (simp add: validateInstallStepValues_def step_values_error_def shop_spec_def Let_def)
  moreover have "TrimSpace ''shop'' = ''shop''" by (simp add: go_string_simps)
  ultimately show ?thesis using shop_args shop_targets
    by (simp add: ValidateExperimentStructure_def target_error_of_def)
qed

lemma shop_accepted: "validateExperimentComposition shop_checks (Some shop_spec) = None"
proof -
  have "ResolveApplication (Some (Build [shop_app] [])) ''shop'' ''shop'' = Some shop_app"
    using Resolve_finds [of "[shop_app]" "[]" "''shop''" "''shop''"]
    by (simp add: shop_app_def by_folder_def normalize_def)
  moreover have "ck_catalog shop_checks = Loaded (Build [shop_app] [])" "ck_models shop_checks = None"
    "agentCompatibility shop_checks ''{{workflow.parameters.agentFolder}}'' = None"
    by (simp_all add: shop_checks_def agentCompatibility_def)
  moreover have "IsFaultCompatible (Some (Build [shop_app] [])) ''pod-kill'' (ap_Key shop_app)"
    using Build_compatible [of "[shop_app]" "[]"] by (simp add: compatible_spec_def)
  moreover have "ValidateWorkflow (ck_floats shop_checks) (ck_regexes shop_checks) (ck_artifacts shop_checks)
      (ck_provider shop_checks) (Some shop_spec) = None"
    by (simp add: ValidateWorkflow_direct artifacts_def step_defs direct_artifact_def shop_checks_def)
  ultimately have "composed shop_checks shop_spec = None"
    using shop_structure shop_args shop_targets
    by (simp add: composed_def compatibility_error_def chaosFaultNames_def model_error_def fault_error_def agent_error_def)
  then show ?thesis by (simp add: composition_composed)
qed

text \<open>The restriction an agent chart declares is not enforced for the form ChaosHub templates use: with
  the folder given as a workflow parameter, the check of the settings resolves it and checks them against
  the chart of the agent that will be installed, but the compatibility check looks the unresolved text up,
  finds no agent of that name, and lets an agent declared to target no application through.\<close>

theorem agent_restriction_missed_for_parameter:
  "validateExperimentComposition shop_checks (Some shop_spec) = None \<and>
   resolveWorkflowParameter (installStepArg (args_of agent_step) ''folder'') (Parameters shop_spec) = ''locked'' \<and>
   agentCompatibility shop_checks ''locked'' = Some [] \<and>
   ExtractInstallAgentFolder (Templates shop_spec) = ''{{workflow.parameters.agentFolder}}''"
  using shop_accepted shop_agent_folder shop_args(6) by (simp add: shop_checks_def agentCompatibility_def)

lemma accepted_experiment_compatible_witness:
  "\<exists>app. ResolveApplication (Some (Build [shop_app] [])) ''shop'' ''shop'' = Some app \<and> app \<in> set [shop_app]"
proof -
  have "ck_catalog shop_checks = Loaded (Build [shop_app] [])" by (simp add: shop_checks_def)
  then show ?thesis
    using accepted_experiment_compatible [OF shop_accepted, of "[shop_app]" "[]"] shop_args(3,4) by auto
qed


end
