(* ===== verification/Multi_Run.thy ===== *)
theory Multi_Run
  imports Go_Prelude "HOL-Library.Word"
begin

text \<open>
  Sequential multi-run batches of one experiment (\<^verbatim>\<open>advanceMultiRunChain\<close> and the check in
  \<^verbatim>\<open>RunChaosWorkFlow\<close> of \<^verbatim>\<open>chaos_experiment_run/handler/handler.go\<close>, \<^verbatim>\<open>multirun_batch.go\<close>,
  \<^verbatim>\<open>multirun_reconciler.go\<close>). Every database operation is one step; between two of them any other task
  may run. A task is the rest of one invocation: a completion event driving the chain, a user's start, a
  sweep of the reconciler. Whether an operation fails, the clock and fresh identifiers are inputs of a step.
\<close>

section \<open>Delays, at 64 bits\<close>

text \<open>A \<^verbatim>\<open>time.Duration\<close> is a signed 64-bit count of nanoseconds; an annotation is its text, empty if absent.\<close>

definition seconds :: "64 word" where "seconds = 1000000000"

definition defaultMultiRunDelay :: "64 word" where "defaultMultiRunDelay = 120 * seconds"

definition multiRunDispatchGrace :: "64 word" where "multiRunDispatchGrace = 10 * 60 * seconds"

definition queuedRunStallTimeout :: "64 word" where "queuedRunStallTimeout = 10 * 60 * seconds"

definition multiRunDelay :: "string \<Rightarrow> 64 word" where
  "multiRunDelay delayStr =
     (if delayStr \<noteq> [] then (case ParseInt delayStr of
          Some parsed \<Rightarrow> if parsed > 0 then word_of_int parsed * seconds else defaultMultiRunDelay
        | None \<Rightarrow> defaultMultiRunDelay)
      else defaultMultiRunDelay)"

definition multiRunGrace :: "string \<Rightarrow> 64 word" where
  "multiRunGrace delayStr =
     (let grace = multiRunDelay delayStr + 2 * 60 * seconds
      in if sint grace < sint multiRunDispatchGrace then multiRunDispatchGrace else grace)"

text \<open>\<^verbatim>\<open>Duration.Milliseconds\<close>: integer division truncates toward zero.\<close>

definition Milliseconds :: "64 word \<Rightarrow> int" where
  "Milliseconds d = (if sint d < 0 then - ((- sint d) div 1000000) else sint d div 1000000)"

section \<open>Data\<close>

record run =
  r_RunID :: string
  r_NotifyID :: "string option"
  r_Phase :: string
  r_Completed :: bool
  r_Removed :: bool
  r_CreatedAt :: int
  r_UpdatedAt :: int

text \<open>A field that may be absent from the document is an option; \<^verbatim>\<open>$inc\<close> on an absent one starts from zero.\<close>

record multi_run_state =
  m_Launched :: "int option"
  m_CompletedRunIDs :: "string list"
  m_BatchDone :: bool
  m_StartedAt :: int

definition no_state :: multi_run_state where
  "no_state = \<lparr>m_Launched = None, m_CompletedRunIDs = [], m_BatchDone = False, m_StartedAt = 0\<rparr>"

text \<open>The documents of one experiment: its state, the annotations of its newest manifest, its runs.\<close>

record db =
  d_State :: "multi_run_state option"
  d_Enabled :: bool
  d_MaxRuns :: string
  d_Delay :: string
  d_PlannedRuns :: int
  d_Removed :: bool
  d_Runs :: "run list"

definition state_of :: "db \<Rightarrow> multi_run_state" where
  "state_of d = (case d_State d of None \<Rightarrow> no_state | Some m \<Rightarrow> m)"

definition launched :: "db \<Rightarrow> int" where
  "launched d = (case m_Launched (state_of d) of None \<Rightarrow> 0 | Some n \<Rightarrow> n)"

definition chainMaxRuns :: "db \<Rightarrow> int" where
  "chainMaxRuns d = (case ParseInt (d_MaxRuns d) of Some n \<Rightarrow> if n > 1 then n else 1 | None \<Rightarrow> 1)"

definition nonTerminalRunPhases :: "string list" where "nonTerminalRunPhases = [''Running'', ''Queued'']"

section \<open>Database operations\<close>

definition beginMultiRunBatch :: "int \<Rightarrow> db \<Rightarrow> db" where
  "beginMultiRunBatch startedAt d =
     d\<lparr>d_State := Some \<lparr>m_Launched = Some 0, m_CompletedRunIDs = [], m_BatchDone = False, m_StartedAt = startedAt\<rparr>\<rparr>"

definition runPredatesBatch :: "multi_run_state option \<Rightarrow> int \<Rightarrow> bool" where
  "runPredatesBatch state runCreatedAt = (case state of None \<Rightarrow> False
     | Some m \<Rightarrow> m_StartedAt m > 0 \<and> runCreatedAt > 0 \<and> runCreatedAt < m_StartedAt m)"

definition add_to_set :: "string \<Rightarrow> string list \<Rightarrow> string list" where
  "add_to_set x xs = (if List.member xs x then xs else xs @ [x])"

text \<open>Guard 1: the conditional update; \<^const>\<open>None\<close> is a matched count of zero.\<close>

definition record_completion :: "string \<Rightarrow> db \<Rightarrow> db option" where
  "record_completion runID d =
     (let m = state_of d in
      if List.member (m_CompletedRunIDs m) runID \<or> m_BatchDone m then None
      else Some (d\<lparr>d_State := Some (m\<lparr>m_CompletedRunIDs := add_to_set runID (m_CompletedRunIDs m)\<rparr>)\<rparr>))"

definition latch :: "db \<Rightarrow> db" where
  "latch d = d\<lparr>d_State := Some ((state_of d)\<lparr>m_BatchDone := True\<rparr>)\<rparr>"

definition inFlight :: "db \<Rightarrow> nat" where
  "inFlight d = length (filter (\<lambda>r. List.member nonTerminalRunPhases (r_Phase r) \<and> \<not> r_Removed r) (d_Runs d))"

definition claim :: "int \<Rightarrow> db \<Rightarrow> db option" where
  "claim maxDispatches d =
     (let m = state_of d in
      if \<not> m_BatchDone m \<and> (case m_Launched m of None \<Rightarrow> True | Some n \<Rightarrow> n < maxDispatches)
      then Some (d\<lparr>d_State := Some (m\<lparr>m_Launched := Some (launched d + 1)\<rparr>)\<rparr>) else None)"

definition releaseSlot :: "db \<Rightarrow> db" where
  "releaseSlot d = d\<lparr>d_State := Some ((state_of d)\<lparr>m_Launched := Some (launched d - 1)\<rparr>)\<rparr>"

definition runningRuns :: "db \<Rightarrow> run list" where
  "runningRuns d = filter (\<lambda>r. \<not> r_Removed r \<and> \<not> r_Completed r \<and> List.member nonTerminalRunPhases (r_Phase r)) (d_Runs d)"

definition create_run :: "int \<Rightarrow> string \<Rightarrow> db \<Rightarrow> db" where
  "create_run now notifyID d = d\<lparr>d_Runs := d_Runs d @ [\<lparr>r_RunID = [], r_NotifyID = Some notifyID, r_Phase = ''Queued'',
     r_Completed = False, r_Removed = False, r_CreatedAt = now, r_UpdatedAt = now\<rparr>]\<rparr>"

text \<open>
  The subscriber's event, its phase after reconciliation with the fault verdicts. \<^verbatim>\<open>UpdateExperimentRun\<close>
  creates an unknown run, updates a single known one unless it is completed, and reports how many it touched.
\<close>

record run_event =
  e_RunID :: string
  e_NotifyID :: "string option"
  e_Phase :: string
  e_Completed :: bool

definition event_query :: "run_event \<Rightarrow> run \<Rightarrow> bool" where
  "event_query ev r = (case e_NotifyID ev of None \<Rightarrow> r_RunID r = e_RunID ev | Some n \<Rightarrow> r_NotifyID r = Some n)"

fun update_first :: "('a \<Rightarrow> bool) \<Rightarrow> ('a \<Rightarrow> 'a) \<Rightarrow> 'a list \<Rightarrow> 'a list" where
  "update_first p f [] = []"
| "update_first p f (x # xs) = (if p x then f x # xs else x # update_first p f xs)"

definition UpdateExperimentRun :: "int \<Rightarrow> run_event \<Rightarrow> db \<Rightarrow> db \<times> nat" where
  "UpdateExperimentRun now ev d =
     (let found = filter (event_query ev) (d_Runs d) in
      if found = [] then
        (d\<lparr>d_Runs := d_Runs d @ [\<lparr>r_RunID = e_RunID ev, r_NotifyID = e_NotifyID ev, r_Phase = e_Phase ev,
           r_Completed = e_Completed ev, r_Removed = False, r_CreatedAt = now, r_UpdatedAt = now\<rparr>]\<rparr>, 1)
      else if length found = 1 then
        (if list_ex r_Completed found then (d, 0)
         else (d\<lparr>d_Runs := update_first (event_query ev) (\<lambda>r. r\<lparr>r_RunID := e_RunID ev, r_Phase := e_Phase ev,
                r_Completed := e_Completed ev, r_Removed := False, r_UpdatedAt := now\<rparr>) (d_Runs d)\<rparr>, 1))
      else (d, 1))"

definition event_isCompleted :: "run_event \<Rightarrow> bool" where
  "event_isCompleted ev = (e_Completed ev \<or>
     list_ex (Contains (ToLower (e_Phase ev))) [''completed'', ''succeeded'', ''failed'', ''error''])"

section \<open>Operations of the reconciler\<close>

definition multiRunRunKey :: "run \<Rightarrow> string" where
  "multiRunRunKey r = (if TrimSpace (r_RunID r) \<noteq> [] then TrimSpace (r_RunID r)
     else (case r_NotifyID r of Some n \<Rightarrow> n | None \<Rightarrow> []))"

definition expired_query :: "run \<Rightarrow> (run \<Rightarrow> bool) option" where
  "expired_query r =
     (if TrimSpace (r_RunID r) \<noteq> [] then Some (\<lambda>q. r_RunID q = r_RunID r)
      else (case r_NotifyID r of Some n \<Rightarrow> Some (\<lambda>q. r_NotifyID q = Some n) | None \<Rightarrow> None))"

definition expireStalledQueuedRun :: "int \<Rightarrow> run \<Rightarrow> db \<Rightarrow> db" where
  "expireStalledQueuedRun now r d = (case expired_query r of
     None \<Rightarrow> d
   | Some q \<Rightarrow> d\<lparr>d_Runs := update_first q (\<lambda>x. x\<lparr>r_Phase := ''Error'', r_Completed := True, r_UpdatedAt := now\<rparr>) (d_Runs d)\<rparr>)"

definition record_terminal :: "string list \<Rightarrow> db \<Rightarrow> db" where
  "record_terminal ids d = d\<lparr>d_State := Some ((state_of d)\<lparr>m_CompletedRunIDs :=
     foldl (\<lambda>xs x. add_to_set x xs) (m_CompletedRunIDs (state_of d)) ids\<rparr>)\<rparr>"

definition raise_launched :: "nat \<Rightarrow> db \<Rightarrow> db" where
  "raise_launched n d = d\<lparr>d_State := Some ((state_of d)\<lparr>m_Launched :=
     Some (case m_Launched (state_of d) of None \<Rightarrow> int n | Some k \<Rightarrow> max k (int n))\<rparr>)\<rparr>"

section \<open>Tasks\<close>

text \<open>
  Where each invocation stands, with the local variables it still needs. \<open>Waiting\<close> to \<open>Releasing\<close> are
  the goroutine that holds a claimed slot. The chain and the reconciler call \<^verbatim>\<open>RunChaosWorkFlow\<close> with
  the continuation mark, a user without it.
\<close>

datatype task =
    Storing "multi_run_state option" bool int run_event
  | Arrived "multi_run_state option" string int
  | Recording string int
  | Rereading int
  | Latching
  | Gating int
  | Claiming int
  | Waiting
  | Woken
  | Checking
  | Creating
  | Releasing
  | UserChecking bool
  | UserBeginning
  | UserCreating
  | Sweeping int int string
  | Classifying "run list" nat "string list" bool int int int string
  | SweepLatching "string list"
  | SweepRecording "string list" nat
  | SweepRereading nat
  | SweepChecking nat bool
  | SweepCreating nat
  | SweepRaising nat

text \<open>
  The inputs of a step: whether the operation works, whether a created run is then handed to the
  subscriber (what follows the commit in \<^verbatim>\<open>RunChaosWorkFlow\<close> can still fail), the clock, a fresh notify id.
\<close>

record input =
  i_ok :: bool
  i_sent :: bool
  i_now :: int
  i_id :: string

text \<open>
  The in-flight check of \<^verbatim>\<open>RunChaosWorkFlow\<close>: made when multi-run is on in the experiment it was handed,
  and passed when the query fails.
\<close>

definition blocked :: "bool \<Rightarrow> input \<Rightarrow> db \<Rightarrow> bool" where
  "blocked enabled i d = (enabled \<and> i_ok i \<and> runningRuns d \<noteq> [])"

definition sweep_runs :: "int \<Rightarrow> db \<Rightarrow> run list" where
  "sweep_runs batchStart d = filter (\<lambda>r. \<not> r_Removed r \<and> r_CreatedAt r \<ge> batchStart) (d_Runs d)"

definition sweep_decision :: "int \<Rightarrow> string list \<Rightarrow> nat \<Rightarrow> int \<Rightarrow> int \<Rightarrow> string \<Rightarrow> task option" where
  "sweep_decision now ids n maxRuns lastActive delay =
     (if int n \<ge> maxRuns then Some (SweepLatching ids)
      else if now - lastActive < Milliseconds (multiRunGrace delay) then None
      else Some (SweepRecording ids n))"

definition cannot_expire :: "input \<Rightarrow> run \<Rightarrow> bool" where
  "cannot_expire i r = (\<not> i_ok i \<and> expired_query r \<noteq> None)"

fun task_step :: "input \<Rightarrow> db \<Rightarrow> task \<Rightarrow> db \<times> task option" where
  "task_step i d (Storing snapshot enabled maxRuns ev) =
     (if \<not> i_ok i then (d, None)
      else (case UpdateExperimentRun (i_now i) ev d of (d', count) \<Rightarrow>
        if count = 0 \<and> \<not> e_Completed ev then (d, None)
        else if event_isCompleted ev \<and> enabled then (d', Some (Arrived snapshot (e_RunID ev) maxRuns))
        else (d', None)))"
| "task_step i d (Arrived snapshot runID maxRuns) =
     (if (case snapshot of None \<Rightarrow> False | Some m \<Rightarrow> m_StartedAt m > 0) \<and> i_ok i \<and>
         (case find (\<lambda>r. r_RunID r = runID) (d_Runs d) of None \<Rightarrow> False | Some r \<Rightarrow> runPredatesBatch snapshot (r_CreatedAt r))
      then (d, None) else (d, Some (Recording runID maxRuns)))"
| "task_step i d (Recording runID maxRuns) =
     (if \<not> i_ok i then (d, None)
      else (case record_completion runID d of None \<Rightarrow> (d, None) | Some d' \<Rightarrow> (d', Some (Rereading maxRuns))))"
| "task_step i d (Rereading maxRuns) =
     (if \<not> i_ok i then (d, None)
      else if int (length (m_CompletedRunIDs (state_of d))) \<ge> maxRuns then (d, Some Latching)
      else (d, Some (Gating maxRuns)))"
| "task_step i d Latching = (if i_ok i then (latch d, None) else (d, None))"
| "task_step i d (Gating maxRuns) =
     (if \<not> i_ok i \<or> inFlight d > 0 then (d, None) else (d, Some (Claiming maxRuns)))"
| "task_step i d (Claiming maxRuns) =
     (if \<not> i_ok i then (d, None)
      else (case claim (maxRuns - 1) d of None \<Rightarrow> (d, None) | Some d' \<Rightarrow> (d', Some Waiting)))"
| "task_step i d Waiting = (d, Some Woken)"
| "task_step i d Woken =
     (if \<not> i_ok i \<or> m_BatchDone (state_of d) \<or> \<not> d_Enabled d then (d, Some Releasing) else (d, Some Checking))"
| "task_step i d Checking = (if blocked True i d then (d, Some Releasing) else (d, Some Creating))"
| "task_step i d Creating =
     (if i_ok i then (create_run (i_now i) (i_id i) d, if i_sent i then None else Some Releasing) else (d, Some Releasing))"
| "task_step i d Releasing = (if i_ok i then (releaseSlot d, None) else (d, None))"
| "task_step i d (UserChecking enabled) =
     (if blocked enabled i d then (d, None) else if enabled then (d, Some UserBeginning) else (d, Some UserCreating))"
| "task_step i d UserBeginning = (if i_ok i then (beginMultiRunBatch (i_now i) d, Some UserCreating) else (d, None))"
| "task_step i d UserCreating = (if i_ok i then (create_run (i_now i) (i_id i) d, None) else (d, None))"
| "task_step i d (Sweeping batchStart maxRuns delay) =
     (let runs = sweep_runs batchStart d in
      if \<not> i_ok i \<or> runs = [] then (d, None)
      else (d, Some (Classifying runs (length runs) [] False (i_now i) (foldl max 0 (map r_UpdatedAt runs)) maxRuns delay)))"
| "task_step i d (Classifying [] n ids busy now lastActive maxRuns delay) =
     (if busy then (d, None) else (d, sweep_decision now ids n maxRuns lastActive delay))"
| "task_step i d (Classifying (r # runs) n ids busy now lastActive maxRuns delay) =
     (if r_Completed r \<or> \<not> List.member nonTerminalRunPhases (r_Phase r)
      then (d, Some (Classifying runs n (ids @ [multiRunRunKey r]) busy now lastActive maxRuns delay))
      else if r_Phase r \<noteq> ''Queued'' \<or> now - r_UpdatedAt r < Milliseconds queuedRunStallTimeout \<or> cannot_expire i r
      then (d, Some (Classifying runs n ids True now lastActive maxRuns delay))
      else (expireStalledQueuedRun (i_now i) r d,
            Some (Classifying runs n (ids @ [multiRunRunKey r]) busy now lastActive maxRuns delay)))"
| "task_step i d (SweepLatching ids) = (if i_ok i then (latch (record_terminal ids d), None) else (d, None))"
| "task_step i d (SweepRecording ids n) = (if i_ok i then (record_terminal ids d, Some (SweepRereading n)) else (d, None))"
| "task_step i d (SweepRereading n) =
     (if \<not> i_ok i \<or> m_BatchDone (state_of d) then (d, None) else (d, Some (SweepChecking n (d_Enabled d))))"
| "task_step i d (SweepChecking n enabled) = (if blocked enabled i d then (d, None) else (d, Some (SweepCreating n)))"
| "task_step i d (SweepCreating n) =
     (if i_ok i then (create_run (i_now i) (i_id i) d, if i_sent i then Some (SweepRaising n) else None) else (d, None))"
| "task_step i d (SweepRaising n) = (if i_ok i then (raise_launched n d, None) else (d, None))"

section \<open>The system\<close>

text \<open>
  The database and the running tasks; \<open>s_Dispatched\<close> counts the runs the chain itself created and sent
  since the last batch began (a history variable, no code reads it).
\<close>

record sys =
  s_DB :: db
  s_Tasks :: "task list"
  s_Dispatched :: nat

datatype action =
    Run nat input
  | Event run_event
  | UserRuns
  | Sweep
  | Configure bool string string int
  | Crash

definition opt_list :: "'a option \<Rightarrow> 'a list" where
  "opt_list x = (case x of None \<Rightarrow> [] | Some y \<Rightarrow> [y])"

text \<open>The experiments a sweep lists, and the guards of \<^verbatim>\<open>reconcileMultiRunBatch\<close> on the manifest.\<close>

definition sweep_task :: "db \<Rightarrow> task option" where
  "sweep_task d =
     (if d_Removed d \<or> d_PlannedRuns d \<le> 1 \<or> m_BatchDone (state_of d) \<or> m_StartedAt (state_of d) \<le> 0 then None
      else if \<not> d_Enabled d then None
      else (case ParseInt (d_MaxRuns d) of
          None \<Rightarrow> None | Some n \<Rightarrow> if n \<le> 1 then None else Some (Sweeping (m_StartedAt (state_of d)) n (d_Delay d))))"

definition dispatched_after :: "task \<Rightarrow> input \<Rightarrow> nat \<Rightarrow> nat" where
  "dispatched_after t i n = (if \<not> i_ok i then n else case t of Creating \<Rightarrow> if i_sent i then Suc n else n | UserBeginning \<Rightarrow> 0 | _ \<Rightarrow> n)"

definition run_task :: "nat \<Rightarrow> input \<Rightarrow> sys \<Rightarrow> sys" where
  "run_task n i s = (let t = s_Tasks s ! n; (d, t') = task_step i (s_DB s) t in
     s\<lparr>s_DB := d, s_Tasks := take n (s_Tasks s) @ opt_list t' @ drop (Suc n) (s_Tasks s),
       s_Dispatched := dispatched_after t i (s_Dispatched s)\<rparr>)"

fun apply_action :: "action \<Rightarrow> sys \<Rightarrow> sys option" where
  "apply_action (Run n i) s = (if n < length (s_Tasks s) then Some (run_task n i s) else None)"
| "apply_action (Event ev) s = (let d = s_DB s in if d_Removed d then None
     else Some (s\<lparr>s_Tasks := s_Tasks s @ [Storing (d_State d) (d_Enabled d) (chainMaxRuns d) ev]\<rparr>))"
| "apply_action UserRuns s = Some (s\<lparr>s_Tasks := s_Tasks s @ [UserChecking (d_Enabled (s_DB s))]\<rparr>)"
| "apply_action Sweep s = (case sweep_task (s_DB s) of None \<Rightarrow> None | Some t \<Rightarrow> Some (s\<lparr>s_Tasks := s_Tasks s @ [t]\<rparr>))"
| "apply_action (Configure enabled maxRuns delay planned) s = Some (s\<lparr>s_DB := (s_DB s)\<lparr>d_Enabled := enabled, d_MaxRuns := maxRuns,
     d_Delay := delay, d_PlannedRuns := planned\<rparr>\<rparr>)"
| "apply_action Crash s = Some (s\<lparr>s_Tasks := []\<rparr>)"

fun execute :: "action list \<Rightarrow> sys \<Rightarrow> sys option" where
  "execute [] s = Some s"
| "execute (a # as) s = (case apply_action a s of None \<Rightarrow> None | Some s' \<Rightarrow> execute as s')"

section \<open>The ledger of dispatch slots\<close>

text \<open>
  What the chain relies on: a claim succeeds only under the ceiling and takes one slot, a release gives
  one back. With \<open>g\<close> runs dispatched and \<open>h\<close> slots held, the counter stays between their sum and the
  ceiling.
\<close>

definition within_budget :: "int \<Rightarrow> nat \<Rightarrow> nat \<Rightarrow> int \<Rightarrow> bool" where
  "within_budget c g h u = (int g + int h \<le> u \<and> u \<le> c)"

locale dispatch_budget =
  fixes used :: "'d \<Rightarrow> int"
    and claim_op :: "'d \<Rightarrow> 'd option"
    and release_op :: "'d \<Rightarrow> 'd"
    and cap :: int
  assumes claim_one: "claim_op d = Some d' \<Longrightarrow> used d' = used d + 1"
    and claim_under: "claim_op d = Some d' \<Longrightarrow> used d' \<le> cap"
    and release_one: "used (release_op d) = used d - 1"
begin

lemma claimed: "within_budget c g h (used d) \<Longrightarrow> claim_op d = Some d' \<Longrightarrow> cap \<le> c \<Longrightarrow> within_budget c g (Suc h) (used d')"
  using claim_one [of d d'] claim_under [of d d'] by (simp add: within_budget_def)

lemma released: "within_budget c g (Suc h) (used d) \<Longrightarrow> within_budget c g h (used (release_op d))"
  by (simp add: within_budget_def release_one)

end

lemma within_budget_bound: "within_budget c g h u \<Longrightarrow> int g + int h \<le> c"
  by (simp add: within_budget_def)

lemma within_budget_drop: "within_budget c g (h + k) u \<Longrightarrow> within_budget c g h u"
  by (simp add: within_budget_def)

lemma within_budget_dispatch: "within_budget c g (Suc h) u \<Longrightarrow> within_budget c (Suc g) h u"
  by (simp add: within_budget_def)

lemma launched_simps [simp]:
  "launched (d\<lparr>d_Runs := rs\<rparr>) = launched d" "launched (latch d) = launched d" "launched (create_run now n d) = launched d"
  "launched (record_terminal ids d) = launched d" "launched (beginMultiRunBatch now d) = 0"
  "launched (expireStalledQueuedRun now r d) = launched d" "launched (releaseSlot d) = launched d - 1"
  by (simp_all add: launched_def latch_def create_run_def record_terminal_def beginMultiRunBatch_def state_of_def
      expireStalledQueuedRun_def releaseSlot_def split: option.splits)

lemma launched_record: "record_completion runID d = Some d' \<Longrightarrow> launched d' = launched d"
  by (auto simp: record_completion_def launched_def state_of_def Let_def split: if_splits)

lemma launched_UpdateExperimentRun: "launched (fst (UpdateExperimentRun now ev d)) = launched d"
  by (simp add: UpdateExperimentRun_def Let_def)

lemma launched_raise: "launched d \<le> launched (raise_launched n d)" "launched (raise_launched n d) \<le> max (launched d) (int n)"
  by (auto simp: launched_def raise_launched_def state_of_def split: option.splits)

lemma launched_claim: "claim k d = Some d' \<Longrightarrow> launched d' = launched d + 1 \<and> launched d' \<le> max 1 k"
  by (auto simp: claim_def launched_def state_of_def Let_def split: if_splits option.splits)

interpretation slots: dispatch_budget launched "claim (maxRuns - 1)" releaseSlot "max 1 (maxRuns - 1)" for maxRuns
proof unfold_locales
  show "launched d' = launched d + 1" "launched d' \<le> max 1 (maxRuns - 1)" if "claim (maxRuns - 1) d = Some d'" for d d'
    using launched_claim [OF that] by blast+
qed simp

section \<open>Invariants\<close>

fun holds_slot :: "task \<Rightarrow> bool" where
  "holds_slot Waiting = True"
| "holds_slot Woken = True"
| "holds_slot Checking = True"
| "holds_slot Creating = True"
| "holds_slot Releasing = True"
| "holds_slot _ = False"

text \<open>The chain invocations whose completion has been counted.\<close>

fun counted :: "task \<Rightarrow> bool" where
  "counted (Rereading _) = True"
| "counted Latching = True"
| "counted (Gating _) = True"
| "counted (Claiming _) = True"
| "counted t = holds_slot t"

text \<open>The batch size every task works with is at most \<open>M\<close>.\<close>

fun task_ok :: "int \<Rightarrow> task \<Rightarrow> bool" where
  "task_ok M (Storing _ _ k _) = (k \<le> M)"
| "task_ok M (Arrived _ _ k) = (k \<le> M)"
| "task_ok M (Recording _ k) = (k \<le> M)"
| "task_ok M (Rereading k) = (k \<le> M)"
| "task_ok M (Gating k) = (k \<le> M)"
| "task_ok M (Claiming k) = (k \<le> M)"
| "task_ok M (Sweeping _ k _) = (k \<le> M)"
| "task_ok M (Classifying _ _ _ _ _ _ k _) = (k \<le> M)"
| "task_ok M (SweepRecording _ n) = (int n < M)"
| "task_ok M (SweepRereading n) = (int n < M)"
| "task_ok M (SweepChecking n _) = (int n < M)"
| "task_ok M (SweepCreating n) = (int n < M)"
| "task_ok M (SweepRaising n) = (int n < M)"
| "task_ok M _ = True"

definition weight :: "(task \<Rightarrow> bool) \<Rightarrow> task option \<Rightarrow> nat" where
  "weight p t = (case t of None \<Rightarrow> 0 | Some t \<Rightarrow> if p t then 1 else 0)"

lemma weight_simps [simp]: "weight p None = 0" "weight p (Some t) = (if p t then 1 else 0)"
  by (simp_all add: weight_def)

lemma task_step_ok:
  assumes "task_ok M t" "task_step i d t = (d', Some t')"
  shows "task_ok M t'"
  using assms
  by (cases "(i, d, t)" rule: task_step.cases)
    (auto simp: Let_def sweep_decision_def split: if_splits option.splits prod.splits)

lemma task_step_budget:
  assumes "within_budget (M - 1) g (h + weight holds_slot (Some t)) (launched d)" "task_ok M t" "2 \<le> M"
    "t = UserBeginning \<Longrightarrow> h = 0" "task_step i d t = (d', t')"
  shows "within_budget (M - 1) (dispatched_after t i g) (h + weight holds_slot t') (launched d')"
proof (cases t)
  case (Claiming k)
  show ?thesis
  proof (cases "i_ok i \<and> claim (k - 1) d \<noteq> None")
    case True
    then obtain e where e: "claim (k - 1) d = Some e" by blast
    have "max 1 (k - 1) \<le> M - 1" using assms(2,3) Claiming by simp
    then show ?thesis using slots.claimed [OF _ e, of "M - 1" g h] assms(1,5) True e Claiming
      by (auto simp: dispatched_after_def)
  next
    case False
    then show ?thesis using assms(1,5) Claiming by (auto simp: dispatched_after_def split: if_splits option.splits)
  qed
next
  case Releasing
  have "within_budget (M - 1) g h (launched (releaseSlot d))" using assms(1) Releasing by (intro slots.released) simp
  then show ?thesis using assms(1,5) within_budget_drop [of "M - 1" g h 1 "launched d"] Releasing
    by (auto simp: dispatched_after_def split: if_splits)
next
  case Creating
  then show ?thesis using assms(1,5) within_budget_dispatch by (auto simp: dispatched_after_def split: if_splits)
next
  case UserBeginning
  then show ?thesis using assms by (auto simp: dispatched_after_def within_budget_def split: if_splits)
next
  case (SweepRaising n)
  then show ?thesis using assms(1,2,5) launched_raise(1) [of d n] launched_raise(2) [of n d]
    by (auto simp: dispatched_after_def within_budget_def split: if_splits)
next
  case (Recording runID k)
  then show ?thesis using assms(1,5) launched_record by (auto simp: dispatched_after_def split: if_splits option.splits)
next
  case (Storing snapshot enabled k ev)
  then show ?thesis using assms(1,5) launched_UpdateExperimentRun [of "i_now i" ev d]
    by (auto simp: dispatched_after_def split: if_splits prod.splits)
next
  case (Classifying runs n ids busy now lastActive k delay)
  then show ?thesis using assms(1,5)
    by (cases runs) (auto simp: dispatched_after_def sweep_decision_def split: if_splits)
qed (use assms(1,5) in \<open>auto simp: dispatched_after_def Let_def split: if_splits option.splits\<close>)

text \<open>Every dispatch of the chain, made or under way, has its own counted completion.\<close>

definition follows :: "nat \<Rightarrow> nat \<Rightarrow> string list \<Rightarrow> bool" where
  "follows g l ids = (g + l \<le> length ids \<and> distinct ids)"

definition completed_ids :: "db \<Rightarrow> string list" where
  "completed_ids d = m_CompletedRunIDs (state_of d)"

lemma completed_simps [simp]:
  "completed_ids (d\<lparr>d_Runs := rs\<rparr>) = completed_ids d" "completed_ids (latch d) = completed_ids d"
  "completed_ids (create_run now n d) = completed_ids d" "completed_ids (releaseSlot d) = completed_ids d"
  "completed_ids (expireStalledQueuedRun now r d) = completed_ids d" "completed_ids (raise_launched k d) = completed_ids d"
  "completed_ids (beginMultiRunBatch now d) = []"
  by (simp_all add: completed_ids_def latch_def create_run_def releaseSlot_def raise_launched_def beginMultiRunBatch_def
      state_of_def expireStalledQueuedRun_def split: option.splits)

lemma completed_UpdateExperimentRun: "completed_ids (fst (UpdateExperimentRun now ev d)) = completed_ids d"
  by (simp add: UpdateExperimentRun_def Let_def)

lemma completed_claim: "claim k d = Some d' \<Longrightarrow> completed_ids d' = completed_ids d"
  by (auto simp: claim_def completed_ids_def state_of_def Let_def split: if_splits)

lemma completed_record:
  "record_completion runID d = Some d' \<Longrightarrow> completed_ids d' = completed_ids d @ [runID] \<and> runID \<notin> set (completed_ids d)"
  by (auto simp: record_completion_def completed_ids_def state_of_def add_to_set_def Let_def split: if_splits)

lemma add_to_set_grows: "distinct xs \<Longrightarrow> distinct (add_to_set x xs) \<and> length xs \<le> length (add_to_set x xs)"
  by (simp add: add_to_set_def)

lemma follows_record_terminal: "follows g l (completed_ids d) \<Longrightarrow> follows g l (completed_ids (record_terminal ids d))"
proof -
  have "follows g l (foldl (\<lambda>xs x. add_to_set x xs) xs ids)" if "follows g l xs" for xs
    using that
  proof (induction ids arbitrary: xs)
    case (Cons x ids)
    have "follows g l (add_to_set x xs)" using Cons.prems add_to_set_grows [of xs x] by (auto simp: follows_def)
    then show ?case using Cons.IH by simp
  qed simp
  then show "follows g l (completed_ids d) \<Longrightarrow> follows g l (completed_ids (record_terminal ids d))"
    by (simp add: completed_ids_def record_terminal_def state_of_def)
qed

lemma task_step_follows:
  assumes "follows g (l + weight counted (Some t)) (completed_ids d)" "t = UserBeginning \<Longrightarrow> l = 0"
    "task_step i d t = (d', t')"
  shows "follows (dispatched_after t i g) (l + weight counted t') (completed_ids d')"
proof (cases t)
  case (Recording runID k)
  then show ?thesis using assms(1,3) completed_record [of runID d]
    by (auto simp: dispatched_after_def follows_def split: if_splits option.splits)
next
  case (Claiming k)
  then show ?thesis using assms(1,3) completed_claim [of "k - 1" d]
    by (auto simp: dispatched_after_def follows_def split: if_splits option.splits)
next
  case UserBeginning
  then show ?thesis using assms by (auto simp: dispatched_after_def follows_def split: if_splits)
next
  case (Storing snapshot enabled k ev)
  then show ?thesis using assms(1,3) completed_UpdateExperimentRun [of "i_now i" ev d]
    by (auto simp: dispatched_after_def split: if_splits prod.splits)
next
  case (Classifying runs n ids busy now lastActive k delay)
  then show ?thesis using assms(1,3)
    by (cases runs) (auto simp: dispatched_after_def sweep_decision_def split: if_splits)
next
  case (SweepLatching ids)
  then show ?thesis using assms(1,3) follows_record_terminal by (auto simp: dispatched_after_def split: if_splits)
next
  case (SweepRecording ids n)
  then show ?thesis using assms(1,3) follows_record_terminal by (auto simp: dispatched_after_def split: if_splits)
qed (use assms(1,3) in \<open>auto simp: dispatched_after_def follows_def Let_def split: if_splits option.splits\<close>)

section \<open>Reachable states\<close>

definition count_tasks :: "(task \<Rightarrow> bool) \<Rightarrow> task list \<Rightarrow> nat" where
  "count_tasks p ts = length (filter p ts)"

lemma count_tasks_split:
  "n < length ts \<Longrightarrow> count_tasks p ts = count_tasks p (take n ts @ drop (Suc n) ts) + weight p (Some (ts ! n))"
  by (subst id_take_nth_drop [of n ts]) (simp_all add: count_tasks_def)

lemma count_tasks_put:
  "count_tasks p (take n ts @ opt_list t @ drop (Suc n) ts) = count_tasks p (take n ts @ drop (Suc n) ts) + weight p t"
  by (cases t) (simp_all add: count_tasks_def opt_list_def)

text \<open>
  The steps the invariant is about: manifests ask for at most \<open>M\<close> runs, and a user begins a batch only
  while no chain invocation of an earlier one is past its counting.
\<close>

definition allowed :: "int \<Rightarrow> sys \<Rightarrow> action \<Rightarrow> bool" where
  "allowed M s a = (case a of
     Run n i \<Rightarrow> s_Tasks s ! n = UserBeginning \<longrightarrow> count_tasks counted (s_Tasks s) = 0
   | Configure _ maxRuns _ _ \<Rightarrow> (case ParseInt maxRuns of None \<Rightarrow> True | Some k \<Rightarrow> k \<le> M)
   | _ \<Rightarrow> True)"

definition fresh_db :: "bool \<Rightarrow> string \<Rightarrow> string \<Rightarrow> int \<Rightarrow> db" where
  "fresh_db enabled maxRuns delay planned = \<lparr>d_State = None, d_Enabled = enabled, d_MaxRuns = maxRuns, d_Delay = delay,
     d_PlannedRuns = planned, d_Removed = False, d_Runs = []\<rparr>"

definition fresh :: "bool \<Rightarrow> string \<Rightarrow> string \<Rightarrow> int \<Rightarrow> sys" where
  "fresh enabled maxRuns delay planned = \<lparr>s_DB = fresh_db enabled maxRuns delay planned, s_Tasks = [], s_Dispatched = 0\<rparr>"

inductive reach :: "int \<Rightarrow> sys \<Rightarrow> bool" for M where
  start: "(case ParseInt maxRuns of None \<Rightarrow> True | Some k \<Rightarrow> k \<le> M) \<Longrightarrow> reach M (fresh enabled maxRuns delay planned)"
| act: "reach M s \<Longrightarrow> allowed M s a \<Longrightarrow> apply_action a s = Some s' \<Longrightarrow> reach M s'"

definition batch_inv :: "int \<Rightarrow> sys \<Rightarrow> bool" where
  "batch_inv M s = (within_budget (M - 1) (s_Dispatched s) (count_tasks holds_slot (s_Tasks s)) (launched (s_DB s)) \<and>
     follows (s_Dispatched s) (count_tasks counted (s_Tasks s)) (completed_ids (s_DB s)) \<and>
     list_all (task_ok M) (s_Tasks s) \<and>
     (case ParseInt (d_MaxRuns (s_DB s)) of None \<Rightarrow> True | Some k \<Rightarrow> k \<le> M))"

lemma task_step_maxRuns: "task_step i d t = (d', t') \<Longrightarrow> d_MaxRuns d' = d_MaxRuns d"
  by (cases "(i, d, t)" rule: task_step.cases)
    (auto simp: Let_def latch_def record_completion_def claim_def create_run_def releaseSlot_def beginMultiRunBatch_def
      expireStalledQueuedRun_def record_terminal_def raise_launched_def UpdateExperimentRun_def
      split: if_splits option.splits prod.splits)

lemma holds_counted: "holds_slot t \<Longrightarrow> counted t"
  by (cases t) auto

lemma count_mono: "count_tasks counted ts = 0 \<Longrightarrow> count_tasks holds_slot ts = 0"
  by (induction ts) (auto simp: count_tasks_def dest: holds_counted split: if_splits)

lemma run_task_inv:
  assumes "batch_inv M s" "n < length (s_Tasks s)" "2 \<le> M" "allowed M s (Run n i)"
  shows "batch_inv M (run_task n i s)"
proof -
  define t where "t = s_Tasks s ! n"
  define rest where "rest = take n (s_Tasks s) @ drop (Suc n) (s_Tasks s)"
  obtain d' t' where step: "task_step i (s_DB s) t = (d', t')" by (cases "task_step i (s_DB s) t")
  have count: "count_tasks p (s_Tasks s) = count_tasks p rest + weight p (Some t)" for p
    unfolding rest_def t_def by (rule count_tasks_split [OF assms(2)])
  have put: "count_tasks p (s_Tasks (run_task n i s)) = count_tasks p rest + weight p t'" for p
    using step by (simp add: run_task_def rest_def t_def [symmetric] count_tasks_put)
  have ok: "task_ok M t" "list_all (task_ok M) rest"
    using assms(1,2) by (auto simp: batch_inv_def t_def rest_def list_all_iff dest: in_set_takeD in_set_dropD)
  have begun: "count_tasks counted rest = 0" if "t = UserBeginning"
    using assms(4) that count [of counted] by (simp add: allowed_def t_def)
  have "within_budget (M - 1) (dispatched_after t i (s_Dispatched s)) (count_tasks holds_slot rest + weight holds_slot t') (launched d')"
    using assms(1,3) count ok(1) begun count_mono step by (intro task_step_budget) (auto simp: batch_inv_def)
  moreover have "follows (dispatched_after t i (s_Dispatched s)) (count_tasks counted rest + weight counted t') (completed_ids d')"
    using assms(1) count begun step by (intro task_step_follows) (auto simp: batch_inv_def)
  moreover have "list_all (task_ok M) (s_Tasks (run_task n i s))"
    using ok task_step_ok [OF ok(1), of i "s_DB s" d'] step
    by (cases t') (auto simp: run_task_def t_def [symmetric] opt_list_def rest_def)
  moreover have "s_DB (run_task n i s) = d'" "s_Dispatched (run_task n i s) = dispatched_after t i (s_Dispatched s)"
    using step by (simp_all add: run_task_def t_def [symmetric])
  ultimately show ?thesis using assms(1) put task_step_maxRuns [OF step] by (simp add: batch_inv_def)
qed

lemma chainMaxRuns_le: "(case ParseInt (d_MaxRuns d) of None \<Rightarrow> True | Some k \<Rightarrow> k \<le> M) \<Longrightarrow> 2 \<le> M \<Longrightarrow> chainMaxRuns d \<le> M"
  by (auto simp: chainMaxRuns_def split: option.splits)

lemma spawn_inv:
  "batch_inv M s \<Longrightarrow> task_ok M t \<Longrightarrow> \<not> counted t \<Longrightarrow> batch_inv M (s\<lparr>s_Tasks := s_Tasks s @ [t]\<rparr>)"
  using holds_counted by (auto simp: batch_inv_def count_tasks_def)

lemma reach_inv: "reach M s \<Longrightarrow> 2 \<le> M \<Longrightarrow> batch_inv M s"
proof (induction rule: reach.induct)
  case (start maxRuns enabled delay planned)
  then show ?case
    by (simp add: batch_inv_def fresh_def fresh_db_def within_budget_def follows_def count_tasks_def completed_ids_def launched_def
        state_of_def no_state_def)
next
  case (act s a s')
  then have inv: "batch_inv M s" by blast
  show ?case
  proof (cases a)
    case (Run n i)
    then show ?thesis using act.hyps run_task_inv [OF inv _ act.prems, of n i] by (auto split: if_splits)
  next
    case (Event ev)
    have "task_ok M (Storing (d_State (s_DB s)) (d_Enabled (s_DB s)) (chainMaxRuns (s_DB s)) ev)"
      using inv chainMaxRuns_le act.prems by (simp add: batch_inv_def)
    then show ?thesis using act.hyps Event spawn_inv [OF inv] by (auto simp: Let_def split: if_splits)
  next
    case UserRuns
    then show ?thesis using act.hyps spawn_inv [OF inv, of "UserChecking (d_Enabled (s_DB s))"] by auto
  next
    case Sweep
    then obtain t where t: "sweep_task (s_DB s) = Some t" "s' = s\<lparr>s_Tasks := s_Tasks s @ [t]\<rparr>"
      using act.hyps by (auto split: option.splits)
    then have "task_ok M t" "\<not> counted t"
      using inv by (auto simp: sweep_task_def batch_inv_def split: if_splits option.splits)
    then show ?thesis using t(2) spawn_inv [OF inv] by simp
  next
    case (Configure enabled maxRuns delay planned)
    then show ?thesis using act.hyps inv
      by (auto simp: batch_inv_def allowed_def launched_def completed_ids_def state_of_def)
  next
    case Crash
    then show ?thesis using act.hyps inv by (auto simp: batch_inv_def within_budget_def follows_def count_tasks_def)
  qed
qed

section \<open>Executions\<close>

fun run_allowed :: "int \<Rightarrow> action list \<Rightarrow> sys \<Rightarrow> sys option" where
  "run_allowed M [] s = Some s"
| "run_allowed M (a # as) s =
     (if allowed M s a then (case apply_action a s of None \<Rightarrow> None | Some s' \<Rightarrow> run_allowed M as s') else None)"

lemma run_allowed_reach: "run_allowed M as s = Some s' \<Longrightarrow> reach M s \<Longrightarrow> reach M s'"
  by (induction as arbitrary: s) (auto split: if_splits option.splits intro: reach.act)

definition now_ok :: "int \<Rightarrow> string \<Rightarrow> input" where
  "now_ok now n = \<lparr>i_ok = True, i_sent = True, i_now = now, i_id = n\<rparr>"

definition finished :: "string \<Rightarrow> string \<Rightarrow> action" where
  "finished n runID = Event \<lparr>e_RunID = runID, e_NotifyID = Some n, e_Phase = ''Succeeded'', e_Completed = True\<rparr>"

definition user_run :: "nat \<Rightarrow> int \<Rightarrow> string \<Rightarrow> action list" where
  "user_run k now n = [UserRuns, Run k (now_ok now []), Run k (now_ok now []), Run k (now_ok now n)]"

text \<open>From the arrival of a completion event to the claimed slot.\<close>

definition chain_to_wait :: "nat \<Rightarrow> string \<Rightarrow> string \<Rightarrow> action list" where
  "chain_to_wait k n runID = finished n runID # replicate 6 (Run k (now_ok 9 []))"

definition one_batch :: "action list" where
  "one_batch = user_run 0 5 ''n1'' @ chain_to_wait 0 ''n1'' ''r1'' @ replicate 3 (Run 0 (now_ok 9 [])) @ [Run 0 (now_ok 9 ''n2'')]"

definition stale_slot :: "action list" where
  "stale_slot = user_run 0 5 ''n1'' @ chain_to_wait 0 ''n1'' ''r1'' @ user_run 1 10 ''b1'' @ chain_to_wait 1 ''b1'' ''rb'' @
     [Run 0 (now_ok 20 []), Run 1 (now_ok 20 []), Run 0 (now_ok 20 []), Run 1 (now_ok 20 []), Run 0 (now_ok 20 []),
      Run 1 (now_ok 20 []), Run 0 (now_ok 20 ''c1''), Run 0 (now_ok 20 ''c2'')]"

definition late_completion :: "action list" where
  "late_completion = user_run 0 5 ''n1'' @ Sweep # replicate 6 (Run 0 (now_ok 700000 [])) @
     [Run 0 (now_ok 700000 ''n2''), Run 0 (now_ok 700000 [])] @
     finished ''n1'' ''r1'' # replicate 5 (Run 0 (now_ok 700001 [])) @ finished ''n2'' ''r2'' # replicate 5 (Run 0 (now_ok 700002 []))"

lemma grace_default: "Milliseconds (multiRunGrace []) = 600000" "Milliseconds queuedRunStallTimeout = 600000"
  by (simp_all add: Milliseconds_def multiRunGrace_def multiRunDelay_def defaultMultiRunDelay_def multiRunDispatchGrace_def
      queuedRunStallTimeout_def seconds_def Let_def)

lemma parse_counts: "ParseInt ''2'' = Some 2" "ParseInt ''3'' = Some 3"
  by (simp_all add: ParseInt_def digits_val_def digit_val_def is_digit_def in_int64_def)

lemmas db_defs = state_of_def no_state_def launched_def beginMultiRunBatch_def runPredatesBatch_def add_to_set_def
  record_completion_def latch_def inFlight_def claim_def releaseSlot_def runningRuns_def create_run_def event_query_def
  UpdateExperimentRun_def event_isCompleted_def blocked_def sweep_runs_def nonTerminalRunPhases_def
lemmas trace_defs = now_ok_def finished_def user_run_def chain_to_wait_def fresh_def fresh_db_def run_task_def opt_list_def
  dispatched_after_def chainMaxRuns_def

lemma one_batch_run: "map_option (\<lambda>s. (s_Dispatched s, length (d_Runs (s_DB s)))) (run_allowed 2 one_batch (fresh True ''2'' [] 2)) = Some (1, 2)"
  by (simp add: one_batch_def trace_defs db_defs parse_counts allowed_def count_tasks_def eval_nat_numeral Let_def)

section \<open>Properties\<close>



text \<open>The proviso is needed, and the code does not enforce it: when a user starts a new batch while the
  chain sleeps between two runs, the sleeper's slot survives the reset, and with the slot of the new
  batch two runs of a two-run batch's single remaining one are created, three in all, two of them in
  flight at once.\<close>

theorem stale_slot_overruns:
  "map_option (\<lambda>s. (s_Dispatched s, length (sweep_runs (m_StartedAt (state_of (s_DB s))) (s_DB s)), length (runningRuns (s_DB s))))
     (execute stale_slot (fresh True ''2'' [] 2)) = Some (2, 3, 2)"
  by (simp add: stale_slot_def trace_defs db_defs parse_counts eval_nat_numeral Let_def)

text \<open>A run that waits in Queued for over ten minutes is expired by the reconciler and counted under its
  notify id; if it finishes after all, its completion is counted again under its run id, and a batch of
  three is latched done with two runs.\<close>

theorem expired_run_counted_twice:
  "map_option (\<lambda>s. (m_BatchDone (state_of (s_DB s)), m_CompletedRunIDs (state_of (s_DB s)), length (d_Runs (s_DB s))))
     (execute late_completion (fresh True ''3'' [] 3)) = Some (True, [''n1'', ''r1'', ''r2''], 2)"
  by (simp add: late_completion_def trace_defs db_defs parse_counts sweep_task_def sweep_decision_def multiRunRunKey_def
      expired_query_def expireStalledQueuedRun_def cannot_expire_def record_terminal_def raise_launched_def grace_default
      eval_nat_numeral go_string_simps Let_def)

text \<open>The pause between two runs is exactly the configured number of seconds, and the reconciler's grace
  exceeds it by two minutes and is at least ten, up to 9223371916 seconds; from 9223372037 on the product
  no longer fits a duration, and the pause is negative.\<close>

theorem pause_bounds:
  assumes "ParseInt delay = Some n" "0 < n" "n \<le> 9223371916"
  shows "sint (multiRunDelay delay) = n * 1000000000 \<and>
    sint (multiRunGrace delay) = max (600 * 1000000000) ((n + 120) * 1000000000) \<and>
    sint (multiRunDelay ''9223372037'') < 0"
proof -
  have sint_eq: "sint (word_of_int k :: 64 word) = k" if "0 \<le> k" "k < 2 ^ 63" for k
    using that by (simp add: signed_take_bit_int_eq_self sint_sbintrunc')
  have d: "multiRunDelay delay = word_of_int (n * 1000000000)"
    using assms(1,2) by (auto simp: multiRunDelay_def seconds_def ParseInt_def)
  have g: "multiRunDelay delay + 2 * 60 * seconds = word_of_int ((n + 120) * 1000000000)"
    unfolding d by (simp add: seconds_def ring_distribs)
  have big: "multiRunDelay ''9223372037'' = word_of_int (9223372037 * 1000000000)"
    by (simp add: multiRunDelay_def seconds_def ParseInt_def digits_val_def digit_val_def is_digit_def in_int64_def)
  have "sint (multiRunDelay delay) = n * 1000000000" unfolding d using assms(2,3) by (intro sint_eq) auto
  moreover have "sint (multiRunDelay delay + 2 * 60 * seconds) = (n + 120) * 1000000000"
    unfolding g using assms(2,3) by (intro sint_eq) auto
  moreover have "sint (multiRunGrace delay) = (if sint (multiRunDelay delay + 2 * 60 * seconds) < sint multiRunDispatchGrace
      then sint multiRunDispatchGrace else sint (multiRunDelay delay + 2 * 60 * seconds))"
    by (simp only: multiRunGrace_def Let_def if_distrib [where f = sint])
  moreover have "sint multiRunDispatchGrace = 600 * 1000000000" by (simp add: multiRunDispatchGrace_def seconds_def)
  moreover have "sint (multiRunDelay ''9223372037'') < 0" unfolding big by simp
  ultimately show ?thesis by (simp only:) (simp add: max_def)
qed

lemma pause_bounds_witness: "sint (multiRunGrace ''600'') = 720000000000"
proof -
  have "ParseInt ''600'' = Some 600" by (simp add: ParseInt_def digits_val_def digit_val_def is_digit_def in_int64_def)
  then show ?thesis using pause_bounds [of "''600''" 600] by simp
qed

end
