(* ===== verification/Go_Float.thy ===== *)
theory Go_Float
  imports Complex_Main "HOL-Library.Log_Nat"
begin

text \<open>
  Go's \<^verbatim>\<open>float64\<close> as far as the program computes with it: finite values as rationals, every operation
  rounded to 53 significant bits, ties to even. Overflow to infinity and gradual underflow are left
  out; the program's values are zero or between \<open>2 powi (-64)\<close> and \<open>2 powi 80\<close> in size.
\<close>

definition round_half_even :: "rat \<Rightarrow> int" where
  "round_half_even x = (let f = \<lfloor>x\<rfloor>; r = x - of_int f in
     if r < 1 / 2 then f else if r > 1 / 2 then f + 1 else if even f then f else f + 1)"

text \<open>The exponent of a positive value: \<open>2 powi binade x \<le> x < 2 powi (binade x + 1)\<close>.\<close>

definition binade :: "rat \<Rightarrow> int" where
  "binade x = (let (p, q) = quotient_of x; d = bitlen p - bitlen q in if 2 powi d \<le> x then d else d - 1)"

definition ulp :: "rat \<Rightarrow> rat" where
  "ulp x = 2 powi (binade x - 52)"

definition round_pos :: "rat \<Rightarrow> rat" where
  "round_pos x = of_int (round_half_even (x / ulp x)) * ulp x"

definition float64 :: "rat \<Rightarrow> rat" where
  "float64 x = (if x = 0 then 0 else if x < 0 then - round_pos (- x) else round_pos x)"

text \<open>The conversion \<^verbatim>\<open>int(x)\<close> drops the fraction.\<close>

definition int_of_float :: "rat \<Rightarrow> int" where
  "int_of_float x = (if x < 0 then - \<lfloor>- x\<rfloor> else \<lfloor>x\<rfloor>)"

text \<open>\<^verbatim>\<open>utils.Truncate\<close>: two decimals.\<close>

definition Truncate :: "rat \<Rightarrow> rat" where
  "Truncate num = float64 (float64 (of_int (int_of_float (float64 (num * 100)))) / 100)"

section \<open>Rounding is monotone and exact on small integers\<close>

lemma round_half_even_of_int [simp]: "round_half_even (of_int n) = n"
  by (simp add: round_half_even_def)

lemma round_half_even_bounds: "\<lfloor>x\<rfloor> \<le> round_half_even x" "round_half_even x \<le> \<lfloor>x\<rfloor> + 1"
  by (simp_all add: round_half_even_def Let_def)

lemma round_half_even_mono: "x \<le> y \<Longrightarrow> round_half_even x \<le> round_half_even y"
proof -
  assume "x \<le> y"
  then have f: "\<lfloor>x\<rfloor> \<le> \<lfloor>y\<rfloor>" by (rule floor_mono)
  show ?thesis
  proof (cases "\<lfloor>x\<rfloor> = \<lfloor>y\<rfloor>")
    case True
    then show ?thesis using \<open>x \<le> y\<close> by (auto simp: round_half_even_def Let_def)
  next
    case False
    then show ?thesis using f round_half_even_bounds [of x] round_half_even_bounds [of y] by linarith
  qed
qed

lemma bitlen_powi:
  assumes "0 < p"
  shows "2 powi (bitlen p - 1) \<le> (of_int p :: rat)" "(of_int p :: rat) < 2 powi bitlen p"
proof -
  have b: "2 ^ nat (bitlen p - 1) \<le> p" "p < 2 ^ nat (bitlen p)" using bitlen_bounds [OF assms] by auto
  have b3: "0 < bitlen p"
  proof (rule ccontr)
    assume "\<not> 0 < bitlen p"
    then have "nat (bitlen p) = 0" by simp
    then show False using b(2) assms by simp
  qed
  have "(2 :: rat) powi (bitlen p - 1) = of_int (2 ^ nat (bitlen p - 1))"
       "(2 :: rat) powi bitlen p = of_int (2 ^ nat (bitlen p))"
    using b3 by (simp_all add: power_int_def)
  then show "2 powi (bitlen p - 1) \<le> (of_int p :: rat)" "(of_int p :: rat) < 2 powi bitlen p"
    using b by (simp_all only: of_int_le_iff of_int_less_iff)
qed

lemma binade:
  assumes "0 < x"
  shows "2 powi binade x \<le> x" "x < 2 powi (binade x + 1)"
proof -
  obtain p q where pq: "quotient_of x = (p, q)" by fastforce
  then have x: "x = of_int p / of_int q" "0 < q" by (auto simp: quotient_of_div quotient_of_denom_pos)
  then have "0 < p" using assms by (simp add: zero_less_divide_iff)
  let ?d = "bitlen p - bitlen q"
  have lo: "2 powi (?d - 1) \<le> x"
  proof -
    have "2 powi (?d - 1) * of_int q \<le> 2 powi (?d - 1) * (2 :: rat) powi bitlen q"
      using bitlen_powi [OF x(2)] by (intro mult_left_mono) auto
    also have "\<dots> = 2 powi (bitlen p - 1)" by (simp flip: power_int_add)
    also have "\<dots> \<le> of_int p" using bitlen_powi [OF \<open>0 < p\<close>] by simp
    finally show ?thesis using x by (simp add: le_divide_eq)
  qed
  have hi: "x < 2 powi (?d + 1)"
  proof -
    have "of_int p < (2 :: rat) powi bitlen p" using bitlen_powi [OF \<open>0 < p\<close>] by simp
    also have "\<dots> = 2 powi (?d + 1) * 2 powi (bitlen q - 1)" by (simp flip: power_int_add)
    also have "\<dots> \<le> 2 powi (?d + 1) * of_int q" using bitlen_powi [OF x(2)] by (intro mult_left_mono) auto
    finally show ?thesis using x by (simp add: divide_less_eq)
  qed
  show "2 powi binade x \<le> x" "x < 2 powi (binade x + 1)"
    using lo hi pq by (auto simp: binade_def Let_def)
qed

lemma ulp_pos [simp]: "0 < ulp x"
  by (simp add: ulp_def)

lemma ulp_nonzero [simp]: "ulp x \<noteq> 0"
  using ulp_pos [of x] by linarith

lemma powi_ulp: "2 powi binade x = of_int (2 ^ 52) * ulp x" "2 powi (binade x + 1) = of_int (2 ^ 53) * ulp x"
  by (simp_all add: ulp_def power_int_diff power_int_add)

lemma round_pos_binade:
  assumes "0 < x"
  shows "2 powi binade x \<le> round_pos x" "round_pos x \<le> 2 powi (binade x + 1)"
proof -
  have "of_int (2 ^ 52) \<le> x / ulp x" "x / ulp x \<le> of_int (2 ^ 53)"
    using binade [OF assms] powi_ulp [of x] by (simp_all add: le_divide_eq divide_le_eq)
  then have "2 ^ 52 \<le> round_half_even (x / ulp x)" "round_half_even (x / ulp x) \<le> 2 ^ 53"
    using round_half_even_mono round_half_even_of_int by metis+
  then show "2 powi binade x \<le> round_pos x" "round_pos x \<le> 2 powi (binade x + 1)"
    unfolding round_pos_def powi_ulp by (simp_all only: mult_right_mono ulp_pos less_imp_le of_int_le_iff)
qed

lemma binade_mono: "0 < x \<Longrightarrow> x \<le> y \<Longrightarrow> binade x \<le> binade y"
proof (rule ccontr)
  assume x: "0 < x" "x \<le> y" "\<not> binade x \<le> binade y"
  then have "y < 2 powi (binade y + 1)" "(2 :: rat) powi (binade y + 1) \<le> 2 powi binade x" "2 powi binade x \<le> x"
    using binade [of y] binade [OF x(1)] x by (simp_all add: power_int_increasing)
  then show False using x(2) by linarith
qed

lemma round_pos_mono: "0 < x \<Longrightarrow> x \<le> y \<Longrightarrow> round_pos x \<le> round_pos y"
proof -
  assume x: "0 < x" "x \<le> y"
  show ?thesis
  proof (cases "binade x = binade y")
    case True
    then have "ulp x = ulp y" by (simp add: ulp_def)
    moreover have "x / ulp y \<le> y / ulp y" using x(2) by (intro divide_right_mono) (simp_all add: less_imp_le)
    ultimately show ?thesis unfolding round_pos_def
      by (simp add: round_half_even_mono mult_right_mono)
  next
    case False
    then have "binade x + 1 \<le> binade y" using binade_mono [OF x] by simp
    then have "(2 :: rat) powi (binade x + 1) \<le> 2 powi binade y" by (intro power_int_increasing) auto
    then show ?thesis using round_pos_binade [of x] round_pos_binade [of y] x by linarith
  qed
qed

lemma round_pos_pos: "0 < x \<Longrightarrow> 0 < round_pos x"
  using round_pos_binade(1) [of x] zero_less_power_int [of "2 :: rat" "binade x"] by linarith

lemma float64_mono: "x \<le> y \<Longrightarrow> float64 x \<le> float64 y"
  using round_pos_mono [of x y] round_pos_mono [of "- y" "- x"] round_pos_pos [of x] round_pos_pos [of y]
    round_pos_pos [of "- x"] round_pos_pos [of "- y"]
  unfolding float64_def by (auto split: if_splits)

lemma round_pos_int:
  assumes "0 < n" "n < 2 ^ 53"
  shows "round_pos (of_int n) = of_int n"
proof -
  let ?x = "of_int n :: rat"
  have "2 powi binade ?x \<le> ?x" using assms by (intro binade) simp
  also have "?x < 2 powi 53" using assms by (simp add: power_int_def)
  finally have "binade ?x < 53" using power_int_le_imp_less_exp [of "2 :: rat" "binade ?x" 53] by simp
  then have "?x / ulp ?x = of_int (n * 2 ^ nat (52 - binade ?x))"
    by (simp add: ulp_def power_int_diff power_int_def field_simps)
  then have "of_int (round_half_even (?x / ulp ?x)) = ?x / ulp ?x" by (metis round_half_even_of_int)
  then show ?thesis using ulp_pos [of ?x] by (simp add: round_pos_def)
qed

lemma float64_int: "\<bar>n\<bar> < 2 ^ 53 \<Longrightarrow> float64 (of_int n) = of_int n"
  using round_pos_int [of n] round_pos_int [of "- n"] by (auto simp: float64_def)

lemma float64_between: "of_int a \<le> x \<Longrightarrow> x \<le> of_int b \<Longrightarrow> \<bar>a\<bar> < 2 ^ 53 \<Longrightarrow> \<bar>b\<bar> < 2 ^ 53 \<Longrightarrow>
    of_int a \<le> float64 x \<and> float64 x \<le> of_int b"
  using float64_mono [of "of_int a" x] float64_mono [of x "of_int b"] float64_int [of a] float64_int [of b] by simp

lemma Truncate_percent:
  assumes "0 \<le> x" "x \<le> 100"
  shows "0 \<le> Truncate x \<and> Truncate x \<le> 100"
proof -
  have "0 \<le> float64 (x * 100) \<and> float64 (x * 100) \<le> 10000"
    using float64_between [of 0 "x * 100" 10000] assms by simp
  then have k: "0 \<le> int_of_float (float64 (x * 100))" "int_of_float (float64 (x * 100)) \<le> 10000"
    by (auto simp: int_of_float_def floor_le_iff)
  then have "float64 (of_int (int_of_float (float64 (x * 100)))) = of_int (int_of_float (float64 (x * 100)))"
    by (intro float64_int) auto
  then show ?thesis
    using k float64_between [of 0 "of_int (int_of_float (float64 (x * 100))) / 100" 100] by (simp add: Truncate_def)
qed

end
