(* ===== verification/Run_Scoring.thy ===== *)
theory Run_Scoring
  imports Fault_Families Go_Float "HOL-Library.AList" "HOL-Library.Multiset"
begin

text \<open>
  What a finished run is worth (\<^verbatim>\<open>ProcessCompletedExperimentRun\<close> of \<^verbatim>\<open>chaos_experiment_run/service.go\<close>,
  \<^verbatim>\<open>reconcileRunPhase\<close> of the run handler). Go visits the
  entries of a map in an order of its own at every loop: a map of nodes is given as the list in the order
  visited, and the order of the weight map in the loop for the \<open>k\<close>-th node is an argument.
\<close>

section \<open>Data\<close>

record chaos_data =
  cd_EngineName :: string
  cd_ExperimentName :: string
  cd_ExperimentVerdict :: string
  cd_ProbeSuccessPercentage :: string

record node =
  n_Name :: string
  n_Type :: string
  n_StartedAt :: string
  n_FinishedAt :: string
  n_ChaosExp :: "chaos_data option"

record execution_data =
  x_RevisionID :: string
  x_Phase :: string
  x_Nodes :: "node list"

record weightage =
  w_FaultName :: string
  w_Weightage :: int

record revision =
  rv_ID :: string
  rv_Weightages :: "weightage list"

record metrics =
  mt_ResiliencyScore :: rat
  mt_ExperimentsPassed :: int
  mt_ExperimentsFailed :: int
  mt_ExperimentsAwaited :: int
  mt_ExperimentsStopped :: int
  mt_ExperimentsNA :: int
  mt_TotalExperiments :: int

definition no_metrics :: metrics where
  "no_metrics = \<lparr>mt_ResiliencyScore = 0, mt_ExperimentsPassed = 0, mt_ExperimentsFailed = 0, mt_ExperimentsAwaited = 0,
     mt_ExperimentsStopped = 0, mt_ExperimentsNA = 0, mt_TotalExperiments = 0\<rparr>"

section \<open>The resiliency score\<close>

text \<open>
  \<^verbatim>\<open>x, _ := strconv.Atoi(s)\<close>: zero for a text that is no number, the nearest 64-bit number for one out
  of range.
\<close>

definition Atoi_value :: "string \<Rightarrow> int" where
  "Atoi_value s =
     (let (neg, ds) = (case s of [] \<Rightarrow> (False, [])
          | c # r \<Rightarrow> if c = CHR ''-'' then (True, r) else if c = CHR ''+'' then (False, r) else (False, s));
          n = (if neg then - int (digits_val ds) else int (digits_val ds))
      in if ds = [] \<or> \<not> list_all is_digit ds then 0 else max (- (2 ^ 63)) (min (2 ^ 63 - 1) n))"

text \<open>
  The weight map and the sum of the weights, from the revisions with the run's id; weights are small
  (they come from 32-bit GraphQL integers), so that no sum of them leaves 64 bits.
\<close>

definition add_weight :: "(string \<times> int) list \<times> int \<Rightarrow> weightage \<Rightarrow> (string \<times> int) list \<times> int" where
  "add_weight acc w = (if IsTeardownExperiment (w_FaultName w) then acc
     else (AList.update (w_FaultName w) (w_Weightage w) (fst acc), snd acc + w_Weightage w))"

definition run_weightages :: "revision list \<Rightarrow> string \<Rightarrow> weightage list" where
  "run_weightages revs revisionID = concat (map rv_Weightages (filter (\<lambda>rev. rv_ID rev = revisionID) revs))"

definition weights :: "revision list \<Rightarrow> string \<Rightarrow> (string \<times> int) list \<times> int" where
  "weights revs revisionID = foldl add_weight ([], 0) (run_weightages revs revisionID)"

text \<open>The fault an engine belongs to: the last name visited that occurs in the engine's name.\<close>

definition matched_fault :: "string list \<Rightarrow> string \<Rightarrow> string" where
  "matched_fault names engine = foldl (\<lambda>found expName. if Contains engine expName then expName else found) [] names"

record tally =
  ta_metrics :: metrics
  ta_ungraded :: int
  ta_total :: int

definition count_verdict :: "string \<Rightarrow> metrics \<Rightarrow> metrics" where
  "count_verdict verdict m =
     (if verdict = ''Pass'' then m\<lparr>mt_ExperimentsPassed := mt_ExperimentsPassed m + 1\<rparr>
      else if verdict = ''Fail'' then m\<lparr>mt_ExperimentsFailed := mt_ExperimentsFailed m + 1\<rparr>
      else if verdict = ''Awaited'' then m\<lparr>mt_ExperimentsAwaited := mt_ExperimentsAwaited m + 1\<rparr>
      else if verdict = ''Stopped'' then m\<lparr>mt_ExperimentsStopped := mt_ExperimentsStopped m + 1\<rparr>
      else if verdict = [] then m\<lparr>mt_ExperimentsNA := mt_ExperimentsNA m + 1\<rparr>
      else m)"

definition score_node :: "(string \<times> int) list \<Rightarrow> string list \<Rightarrow> node \<Rightarrow> tally \<Rightarrow> tally" where
  "score_node weightMap names value t =
     (if n_Type value \<noteq> ''ChaosEngine'' then t
      else (case n_ChaosExp value of None \<Rightarrow> t | Some chaosExp \<Rightarrow>
        if cd_EngineName chaosExp = [] \<or> IsTeardownExperiment (cd_EngineName chaosExp) then t
        else (case map_of weightMap (matched_fault names (cd_EngineName chaosExp)) of None \<Rightarrow> t | Some weight \<Rightarrow>
          if cd_ExperimentVerdict chaosExp = ''N/A''
          then t\<lparr>ta_metrics := (ta_metrics t)\<lparr>mt_ExperimentsNA := mt_ExperimentsNA (ta_metrics t) + 1\<rparr>,
                 ta_ungraded := ta_ungraded t + weight\<rparr>
          else t\<lparr>ta_metrics := count_verdict (cd_ExperimentVerdict chaosExp) (ta_metrics t),
                 ta_total := ta_total t + weight * Atoi_value (cd_ProbeSuccessPercentage chaosExp)\<rparr>)))"

fun score_nodes :: "(nat \<Rightarrow> string list) \<Rightarrow> (string \<times> int) list \<Rightarrow> nat \<Rightarrow> node list \<Rightarrow> tally \<Rightarrow> tally" where
  "score_nodes order weightMap k [] t = t"
| "score_nodes order weightMap k (n # ns) t = score_nodes order weightMap (Suc k) ns (score_node weightMap (order k) n t)"

definition ResiliencyScore :: "int \<Rightarrow> int \<Rightarrow> rat" where
  "ResiliencyScore totalTestResult gradedWeight =
     (if gradedWeight > 0 then Truncate (float64 (float64 (of_int totalTestResult) / float64 (of_int gradedWeight))) else 0)"

text \<open>The experiment may be unreadable: \<^const>\<open>None\<close>.\<close>

definition ProcessCompletedExperimentRun :: "(nat \<Rightarrow> string list) \<Rightarrow> revision list option \<Rightarrow> execution_data \<Rightarrow> metrics option" where
  "ProcessCompletedExperimentRun order revisions execData = (case revisions of None \<Rightarrow> None | Some revs \<Rightarrow>
     (let (weightMap, weightSum) = weights revs (x_RevisionID execData);
          start = \<lparr>ta_metrics = no_metrics\<lparr>mt_TotalExperiments := int (length weightMap)\<rparr>, ta_ungraded = 0, ta_total = 0\<rparr>;
          t = score_nodes order weightMap 0 (x_Nodes execData) start
      in Some ((ta_metrics t)\<lparr>mt_ResiliencyScore := ResiliencyScore (ta_total t) (weightSum - ta_ungraded t)\<rparr>)))"

section \<open>The phase of a run\<close>

definition runPhaseCompletedWithProbeFailure :: string where
  "runPhaseCompletedWithProbeFailure = ''Completed_With_Probe_Failure''"

definition runPhaseCompletedNotGraded :: string where
  "runPhaseCompletedNotGraded = ''Completed_Not_Graded''"

definition reconcileRunPhase :: "string \<Rightarrow> metrics \<Rightarrow> string" where
  "reconcileRunPhase phase m =
     (if \<not> EqualFold phase ''Completed'' \<and> \<not> EqualFold phase ''Succeeded'' then phase
      else if mt_TotalExperiments m - mt_ExperimentsNA m \<le> 0
      then (if mt_TotalExperiments m > 0 then runPhaseCompletedNotGraded else phase)
      else if mt_ExperimentsFailed m > 0 \<or> mt_ExperimentsStopped m > 0 \<or> mt_ExperimentsPassed m = 0
      then runPhaseCompletedWithProbeFailure
      else phase)"

section \<open>The graded nodes\<close>

text \<open>The fault, the weight and the chaos data of a node that counts.\<close>

definition graded_of :: "(string \<times> int) list \<Rightarrow> string list \<Rightarrow> node \<Rightarrow> (string \<times> int \<times> chaos_data) option" where
  "graded_of weightMap names value =
     (if n_Type value \<noteq> ''ChaosEngine'' then None
      else (case n_ChaosExp value of None \<Rightarrow> None | Some chaosExp \<Rightarrow>
        if cd_EngineName chaosExp = [] \<or> IsTeardownExperiment (cd_EngineName chaosExp) then None
        else map_option (\<lambda>weight. (matched_fault names (cd_EngineName chaosExp), weight, chaosExp))
               (map_of weightMap (matched_fault names (cd_EngineName chaosExp)))))"

fun graded :: "(nat \<Rightarrow> string list) \<Rightarrow> (string \<times> int) list \<Rightarrow> nat \<Rightarrow> node list \<Rightarrow> (string \<times> int \<times> chaos_data) list" where
  "graded order weightMap k [] = []"
| "graded order weightMap k (n # ns) = (case graded_of weightMap (order k) n of
     None \<Rightarrow> graded order weightMap (Suc k) ns
   | Some g \<Rightarrow> g # graded order weightMap (Suc k) ns)"

abbreviation verdict_of :: "string \<times> int \<times> chaos_data \<Rightarrow> string" where
  "verdict_of g \<equiv> cd_ExperimentVerdict (snd (snd g))"

abbreviation weight_of :: "string \<times> int \<times> chaos_data \<Rightarrow> int" where
  "weight_of g \<equiv> fst (snd g)"

abbreviation percent_of :: "string \<times> int \<times> chaos_data \<Rightarrow> int" where
  "percent_of g \<equiv> Atoi_value (cd_ProbeSuccessPercentage (snd (snd g)))"

definition verdicts :: "string list \<Rightarrow> (string \<times> int \<times> chaos_data) list \<Rightarrow> int" where
  "verdicts vs gs = int (length (filter (\<lambda>g. verdict_of g \<in> set vs) gs))"

definition ungraded_weight :: "(string \<times> int \<times> chaos_data) list \<Rightarrow> int" where
  "ungraded_weight gs = sum_list (map weight_of (filter (\<lambda>g. verdict_of g = ''N/A'') gs))"

definition earned :: "(string \<times> int \<times> chaos_data) list \<Rightarrow> int" where
  "earned gs = sum_list (map (\<lambda>g. weight_of g * percent_of g) (filter (\<lambda>g. verdict_of g \<noteq> ''N/A'') gs))"

lemma score_node_graded:
  "score_node weightMap names value t = (case graded_of weightMap names value of None \<Rightarrow> t
   | Some g \<Rightarrow> if verdict_of g = ''N/A''
       then t\<lparr>ta_metrics := (ta_metrics t)\<lparr>mt_ExperimentsNA := mt_ExperimentsNA (ta_metrics t) + 1\<rparr>,
              ta_ungraded := ta_ungraded t + weight_of g\<rparr>
       else t\<lparr>ta_metrics := count_verdict (verdict_of g) (ta_metrics t), ta_total := ta_total t + weight_of g * percent_of g\<rparr>)"
  by (auto simp: score_node_def graded_of_def split: option.split)

lemma score_nodes_graded:
  "score_nodes order weightMap k ns t =
    (let gs = graded order weightMap k ns; m = ta_metrics t in
     t\<lparr>ta_metrics := m\<lparr>mt_ExperimentsPassed := mt_ExperimentsPassed m + verdicts [''Pass''] gs,
         mt_ExperimentsFailed := mt_ExperimentsFailed m + verdicts [''Fail''] gs,
         mt_ExperimentsAwaited := mt_ExperimentsAwaited m + verdicts [''Awaited''] gs,
         mt_ExperimentsStopped := mt_ExperimentsStopped m + verdicts [''Stopped''] gs,
         mt_ExperimentsNA := mt_ExperimentsNA m + verdicts [''N/A'', []] gs\<rparr>,
       ta_ungraded := ta_ungraded t + ungraded_weight gs, ta_total := ta_total t + earned gs\<rparr>)"
proof (induction ns arbitrary: k t)
  case Nil
  show ?case by (simp add: verdicts_def ungraded_weight_def earned_def)
next
  case (Cons n ns)
  show ?case
  proof (cases "graded_of weightMap (order k) n")
    case None
    then show ?thesis by (simp add: Cons score_node_graded)
  next
    case (Some g)
    then show ?thesis
      by (simp add: Cons score_node_graded Let_def verdicts_def ungraded_weight_def earned_def count_verdict_def)
  qed
qed

lemma ProcessCompleted_graded:
  assumes "weights revs (x_RevisionID execData) = (wm, wsum)" "gs = graded order wm 0 (x_Nodes execData)"
  shows "ProcessCompletedExperimentRun order (Some revs) execData = Some
    \<lparr>mt_ResiliencyScore = ResiliencyScore (earned gs) (wsum - ungraded_weight gs),
     mt_ExperimentsPassed = verdicts [''Pass''] gs, mt_ExperimentsFailed = verdicts [''Fail''] gs,
     mt_ExperimentsAwaited = verdicts [''Awaited''] gs, mt_ExperimentsStopped = verdicts [''Stopped''] gs,
     mt_ExperimentsNA = verdicts [''N/A'', []] gs, mt_TotalExperiments = int (length wm)\<rparr>"
  using assms by (simp add: ProcessCompletedExperimentRun_def score_nodes_graded no_metrics_def Let_def)

section \<open>What a stored phase says\<close>

lemma verdicts_pos: "0 < verdicts vs gs \<longleftrightarrow> (\<exists>g \<in> set gs. verdict_of g \<in> set vs)"
  by (auto simp: verdicts_def filter_empty_conv)

lemma verdicts_zero: "verdicts vs gs = 0 \<longleftrightarrow> (\<forall>g \<in> set gs. verdict_of g \<notin> set vs)"
  by (auto simp: verdicts_def filter_empty_conv)

definition success :: "string \<Rightarrow> bool" where
  "success phase = (EqualFold phase ''Completed'' \<or> EqualFold phase ''Succeeded'')"

lemma reconciled_not_success [simp]:
  "\<not> success runPhaseCompletedWithProbeFailure" "\<not> success runPhaseCompletedNotGraded"
  by (simp_all add: success_def runPhaseCompletedWithProbeFailure_def runPhaseCompletedNotGraded_def
      EqualFold_def ToLower_def to_lower_char_def)

lemma reconcile_success:
  "success (reconcileRunPhase phase m) \<longleftrightarrow> success phase \<and>
     (mt_TotalExperiments m \<le> 0 \<and> mt_TotalExperiments m \<le> mt_ExperimentsNA m \<or>
      mt_ExperimentsNA m < mt_TotalExperiments m \<and> \<not> mt_ExperimentsFailed m > 0 \<and> \<not> mt_ExperimentsStopped m > 0 \<and>
      mt_ExperimentsPassed m \<noteq> 0)"
proof -
  have "reconcileRunPhase phase m = (if \<not> success phase then phase
      else if mt_TotalExperiments m - mt_ExperimentsNA m \<le> 0
      then (if mt_TotalExperiments m > 0 then runPhaseCompletedNotGraded else phase)
      else if mt_ExperimentsFailed m > 0 \<or> mt_ExperimentsStopped m > 0 \<or> mt_ExperimentsPassed m = 0
      then runPhaseCompletedWithProbeFailure else phase)"
    by (simp add: reconcileRunPhase_def success_def)
  then show ?thesis by auto
qed

text \<open>C24. A run is stored as a success exactly when Argo reported one and the verdicts do not contradict it:
  either no fault of the experiment carries a weight, or some graded node passed, none failed or was
  stopped, and fewer nodes than faults are without a grade. Every other phase is stored as it came.\<close>

theorem stored_success_exact:
  "let wm = fst (weights revs (x_RevisionID x)); gs = graded order wm 0 (x_Nodes x);
       stored = reconcileRunPhase (x_Phase x) (the (ProcessCompletedExperimentRun order (Some revs) x))
   in (success stored \<longleftrightarrow> success (x_Phase x) \<and> (wm = [] \<or>
          (\<exists>g \<in> set gs. verdict_of g = ''Pass'') \<and> (\<forall>g \<in> set gs. verdict_of g \<noteq> ''Fail'' \<and> verdict_of g \<noteq> ''Stopped'') \<and>
          length (filter (\<lambda>g. verdict_of g = ''N/A'' \<or> verdict_of g = []) gs) < length wm)) \<and>
      (\<not> success (x_Phase x) \<longrightarrow> stored = x_Phase x)"
proof -
  obtain wm wsum where w: "weights revs (x_RevisionID x) = (wm, wsum)" by fastforce
  define gs where "gs = graded order wm 0 (x_Nodes x)"
  have "0 \<le> verdicts vs gs" for vs by (simp add: verdicts_def)
  then have p: "verdicts [''Pass''] gs \<noteq> 0 \<longleftrightarrow> (\<exists>g \<in> set gs. verdict_of g = ''Pass'')"
    and f: "\<not> 0 < verdicts [''Fail''] gs \<longleftrightarrow> (\<forall>g \<in> set gs. verdict_of g \<noteq> ''Fail'')"
    and s: "\<not> 0 < verdicts [''Stopped''] gs \<longleftrightarrow> (\<forall>g \<in> set gs. verdict_of g \<noteq> ''Stopped'')"
    by (auto simp: verdicts_pos verdicts_zero)
  have n: "verdicts [''N/A'', []] gs = int (length (filter (\<lambda>g. verdict_of g = ''N/A'' \<or> verdict_of g = []) gs))"
    by (simp add: verdicts_def)
  show ?thesis
    using w
    by (simp add: ProcessCompleted_graded [OF w gs_def] reconcile_success p f s n flip: gs_def)
       (auto simp: reconcileRunPhase_def success_def)
qed

section \<open>Bounds of the score\<close>

lemma AList_update_fresh: "k \<notin> fst ` set al \<Longrightarrow> AList.update k v al = al @ [(k, v)]"
  by (induction al) auto

lemma weights_distinct:
  assumes "distinct (map w_FaultName (run_weightages revs rid))"
  shows "weights revs rid =
    (let ws = filter (\<lambda>w. \<not> IsTeardownExperiment (w_FaultName w)) (run_weightages revs rid)
     in (map (\<lambda>w. (w_FaultName w, w_Weightage w)) ws, sum_list (map w_Weightage ws)))"
proof -
  have "foldl add_weight ([], 0) ws =
      (let ws = filter (\<lambda>w. \<not> IsTeardownExperiment (w_FaultName w)) ws
       in (map (\<lambda>w. (w_FaultName w, w_Weightage w)) ws, sum_list (map w_Weightage ws)))"
    if "distinct (map w_FaultName ws)" for ws
    using that
    by (induction ws rule: rev_induct) (auto simp: add_weight_def Let_def AList_update_fresh image_iff)
  then show ?thesis using assms by (simp add: weights_def)
qed

lemma graded_member:
  "g \<in> set (graded order wm k ns) \<Longrightarrow> map_of wm (fst g) = Some (weight_of g) \<and> (\<exists>n \<in> set ns. n_ChaosExp n = Some (snd (snd g)))"
proof (induction ns arbitrary: k)
  case (Cons n ns)
  then show ?case
    by (auto simp: graded_of_def split: option.splits if_splits)
qed simp

text \<open>Distinct keys of a map hold no more than the whole map when all values are natural.\<close>

lemma sum_of_distinct_keys:
  assumes "distinct (map fst gs)" "\<And>g. g \<in> set gs \<Longrightarrow> map_of wm (fst g) = Some (weight_of g)"
    "distinct (map fst wm)" "\<And>x. x \<in> set wm \<Longrightarrow> 0 \<le> snd x"
  shows "sum_list (map weight_of gs) \<le> (sum_list (map snd wm) :: int)"
proof -
  have "sum_list (map weight_of gs) = sum_list (map (\<lambda>k. the (map_of wm k)) (map fst gs))"
    using assms(2) by (auto intro!: arg_cong [where f = sum_list])
  also have "\<dots> = (\<Sum>k \<in> set (map fst gs). the (map_of wm k))"
    using assms(1) by (rule sum_list_distinct_conv_sum_set)
  also have "\<dots> \<le> (\<Sum>k \<in> set (map fst wm). the (map_of wm k))"
  proof (rule sum_mono2)
    have "fst g \<in> fst ` set wm" if "g \<in> set gs" for g
      using map_of_SomeD [OF assms(2) [OF that]] by force
    then show "set (map fst gs) \<subseteq> set (map fst wm)" by auto
    show "0 \<le> the (map_of wm k)" if "k \<in> set (map fst wm) - set (map fst gs)" for k
      using that assms(3,4) by auto
  qed simp
  also have "\<dots> = sum_list (map (\<lambda>k. the (map_of wm k)) (map fst wm))"
    using assms(3) by (rule sum_list_distinct_conv_sum_set [symmetric])
  also have "\<dots> = sum_list (map snd wm)"
    using assms(3) by (auto intro!: arg_cong [where f = sum_list])
  finally show ?thesis .
qed

lemma score_in_percent:
  assumes "distinct (map fst gs)" "\<And>g. g \<in> set gs \<Longrightarrow> map_of wm (fst g) = Some (weight_of g)"
    "distinct (map fst wm)" "\<And>x. x \<in> set wm \<Longrightarrow> 0 \<le> snd x"
    "\<And>g. g \<in> set gs \<Longrightarrow> verdict_of g \<noteq> ''N/A'' \<Longrightarrow> 0 \<le> percent_of g \<and> percent_of g \<le> 100"
    "sum_list (map snd wm) < 2 ^ 46"
  shows "0 \<le> ResiliencyScore (earned gs) (sum_list (map snd wm) - ungraded_weight gs) \<and>
    ResiliencyScore (earned gs) (sum_list (map snd wm) - ungraded_weight gs) \<le> 100"
proof -
  let ?G = "filter (\<lambda>g. verdict_of g \<noteq> ''N/A'') gs" and ?U = "filter (\<lambda>g. verdict_of g = ''N/A'') gs"
  let ?graded = "sum_list (map snd wm) - ungraded_weight gs"
  have w: "0 \<le> weight_of g" if "g \<in> set gs" for g
    using assms(2) [OF that] assms(4) by (auto dest: map_of_SomeD)
  have "sum_list (map weight_of gs) = sum_list (map weight_of ?G) + sum_list (map weight_of ?U)"
    by (induction gs) auto
  moreover have "sum_list (map weight_of gs) \<le> sum_list (map snd wm)"
    using assms(1-4) by (rule sum_of_distinct_keys)
  ultimately have le: "sum_list (map weight_of ?G) \<le> ?graded" by (simp add: ungraded_weight_def)
  have "earned gs \<le> sum_list (map (\<lambda>g. weight_of g * 100) ?G)" unfolding earned_def
    using w assms(5) by (intro sum_list_mono) (auto intro!: mult_left_mono)
  also have "\<dots> = 100 * sum_list (map weight_of ?G)" by (simp add: sum_list_mult_const mult.commute)
  also have "\<dots> \<le> 100 * ?graded" using le by (intro mult_left_mono) simp_all
  finally have hi: "earned gs \<le> 100 * ?graded" .
  have lo: "0 \<le> earned gs" unfolding earned_def using w assms(5) by (intro sum_list_nonneg) (auto intro!: mult_nonneg_nonneg)
  have "0 \<le> ungraded_weight gs" unfolding ungraded_weight_def using w by (intro sum_list_nonneg) auto
  then have small: "?graded < 2 ^ 46" using assms(6) by simp
  show ?thesis
  proof (cases "0 < ?graded")
    case True
    have exact: "float64 (of_int (earned gs)) = of_int (earned gs)" "float64 (of_int ?graded) = of_int ?graded"
      using True small hi lo by (intro float64_int; simp)+
    have "(0 :: rat) \<le> of_int (earned gs) / of_int ?graded" using lo True by (intro divide_nonneg_pos) simp_all
    moreover have "of_int (earned gs) / of_int ?graded \<le> (100 :: rat)"
    proof -
      have "(of_int (earned gs) :: rat) \<le> of_int (100 * ?graded)" using hi by (simp only: of_int_le_iff)
      then show ?thesis using True by (simp add: divide_le_eq)
    qed
    ultimately have "0 \<le> float64 (of_int (earned gs) / of_int ?graded) \<and> float64 (of_int (earned gs) / of_int ?graded) \<le> 100"
      using float64_between [of 0 "of_int (earned gs) / of_int ?graded" 100] by simp
    then show ?thesis using True unfolding ResiliencyScore_def exact by (simp add: Truncate_percent)
  qed (simp add: ResiliencyScore_def)
qed

lemma verdicts_partition:
  "verdicts [''Pass''] gs + verdicts [''Fail''] gs + verdicts [''Awaited''] gs + verdicts [''Stopped''] gs +
    verdicts [''N/A'', []] gs \<le> int (length gs)"
  by (induction gs) (auto simp: verdicts_def)

lemma graded_at_most_weights:
  assumes "distinct (map fst gs)" "\<And>g. g \<in> set gs \<Longrightarrow> map_of wm (fst g) = Some (weight_of g)"
  shows "length gs \<le> length wm"
proof -
  have "fst g \<in> fst ` set wm" if "g \<in> set gs" for g
    using map_of_SomeD [OF assms(2) [OF that]] by force
  then have "card (set (map fst gs)) \<le> card (set (map fst wm))" by (intro card_mono) auto
  also have "\<dots> \<le> length wm" using card_length [of "map fst wm"] by simp
  finally show ?thesis using distinct_card [OF assms(1)] by simp
qed

lemma weights_nonneg:
  assumes "distinct (map w_FaultName ws)" "list_all (\<lambda>w. 0 \<le> w_Weightage w) ws"
  shows "sum_list (map w_Weightage (filter P ws)) \<le> sum_list (map w_Weightage ws)"
  using assms(2) by (induction ws) auto


section \<open>The order of the maps\<close>

definition no_overlap :: "string list \<Rightarrow> node list \<Rightarrow> bool" where
  "no_overlap names ns = list_all (\<lambda>n. case n_ChaosExp n of None \<Rightarrow> True | Some e \<Rightarrow>
     list_all (\<lambda>a. list_all (\<lambda>b. Contains (cd_EngineName e) a \<and> Contains (cd_EngineName e) b \<longrightarrow> a = b) names) names) ns"

lemma matched_fault_snoc [simp]:
  "matched_fault [] e = []"
  "matched_fault (xs @ [a]) e = (if Contains e a then a else matched_fault xs e)"
  by (simp_all add: matched_fault_def)

lemma matched_fault_cases:
  "(\<exists>a \<in> set names. Contains e a) \<and> matched_fault names e \<in> set names \<and> Contains e (matched_fault names e) \<or>
   \<not> (\<exists>a \<in> set names. Contains e a) \<and> matched_fault names e = []"
  by (induction names rule: rev_induct) auto

lemma matched_fault_unique:
  assumes "set names = set keys" "list_all (\<lambda>a. list_all (\<lambda>b. Contains e a \<and> Contains e b \<longrightarrow> a = b) keys) keys"
  shows "matched_fault names e = matched_fault keys e"
proof (cases "\<exists>a \<in> set keys. Contains e a")
  case True
  then have "matched_fault names e \<in> set keys" "Contains e (matched_fault names e)"
      "matched_fault keys e \<in> set keys" "Contains e (matched_fault keys e)"
    using matched_fault_cases [of names e] matched_fault_cases [of keys e] assms(1) by auto
  then show ?thesis using assms(2) by (simp add: list_all_iff)
next
  case False
  then show ?thesis using matched_fault_cases [of names e] matched_fault_cases [of keys e] assms(1) by auto
qed

lemma graded_of_unique:
  assumes "set names = set keys" "no_overlap keys [n]"
  shows "graded_of wm names n = graded_of wm keys n"
  using assms matched_fault_unique [OF assms(1)]
  by (auto simp: graded_of_def no_overlap_def split: option.split)

lemma graded_map_filter:
  assumes "\<forall>k. set (order k) = set (map fst wm)" "no_overlap (map fst wm) ns"
  shows "graded order wm k ns = List.map_filter (graded_of wm (map fst wm)) ns"
  using assms(2)
proof (induction ns arbitrary: k)
  case (Cons n ns)
  then have "graded_of wm (order k) n = graded_of wm (map fst wm) n"
    using assms(1) by (intro graded_of_unique) (simp_all add: no_overlap_def)
  then show ?case using Cons by (auto simp: no_overlap_def map_filter_simps split: option.split)
qed (simp add: map_filter_simps)

lemma tallies_of_mset:
  assumes "mset gs = mset gs'"
  shows "verdicts vs gs = verdicts vs gs'" "earned gs = earned gs'" "ungraded_weight gs = ungraded_weight gs'"
proof -
  have f: "mset (filter P gs) = mset (filter P gs')" for P using assms by simp
  show "verdicts vs gs = verdicts vs gs'" unfolding verdicts_def using mset_eq_length [OF f] by simp
  have s: "sum_list (map h (filter P gs)) = sum_list (map h (filter P gs'))" for h :: "_ \<Rightarrow> int" and P
    using f [of P] by (simp flip: sum_mset_sum_list)
  show "earned gs = earned gs'" "ungraded_weight gs = ungraded_weight gs'"
    unfolding earned_def ungraded_weight_def by (rule s)+
qed

text \<open>The metrics of a run do not depend on the order Go visits its maps in, as long as no engine's name
  contains the names of two weighted faults.\<close>

theorem metrics_order_free:
  assumes "mset ns = mset ns'" "no_overlap (map fst (fst (weights revs (x_RevisionID x)))) ns"
    "\<forall>k. set (order k) = set (map fst (fst (weights revs (x_RevisionID x))))"
    "\<forall>k. set (order' k) = set (map fst (fst (weights revs (x_RevisionID x))))"
  shows "ProcessCompletedExperimentRun order (Some revs) (x\<lparr>x_Nodes := ns\<rparr>) =
    ProcessCompletedExperimentRun order' (Some revs) (x\<lparr>x_Nodes := ns'\<rparr>)"
proof -
  obtain wm wsum where w: "weights revs (x_RevisionID x) = (wm, wsum)" by fastforce
  have "set ns = set ns'" using assms(1) by (rule mset_eq_setD)
  then have "no_overlap (map fst wm) ns'" using assms(2) w by (simp add: no_overlap_def list_all_iff)
  then have g: "graded order wm 0 ns = List.map_filter (graded_of wm (map fst wm)) ns"
      "graded order' wm 0 ns' = List.map_filter (graded_of wm (map fst wm)) ns'"
    using graded_map_filter [of order wm ns 0] graded_map_filter [of order' wm ns' 0] assms(2-4) w by auto
  have "mset (graded order wm 0 ns) = mset (graded order' wm 0 ns')"
    unfolding g List.map_filter_def using assms(1) by simp
  note t = tallies_of_mset [OF this]
  show ?thesis
    using ProcessCompleted_graded [of revs "x\<lparr>x_Nodes := ns\<rparr>" wm wsum _ order]
      ProcessCompleted_graded [of revs "x\<lparr>x_Nodes := ns'\<rparr>" wm wsum _ order'] w t by simp
qed

section \<open>Concrete runs\<close>

definition engine_node :: "string \<Rightarrow> string \<Rightarrow> string \<Rightarrow> node" where
  "engine_node engine verdict percent = \<lparr>n_Name = engine, n_Type = ''ChaosEngine'', n_StartedAt = ''1'', n_FinishedAt = ''2'',
     n_ChaosExp = Some \<lparr>cd_EngineName = engine, cd_ExperimentName = engine, cd_ExperimentVerdict = verdict,
       cd_ProbeSuccessPercentage = percent\<rparr>\<rparr>"

definition weighted :: "(string \<times> int) list \<Rightarrow> revision list" where
  "weighted ws = [\<lparr>rv_ID = ''r1'', rv_Weightages = map (\<lambda>(f, w). \<lparr>w_FaultName = f, w_Weightage = w\<rparr>) ws\<rparr>]"

definition finished :: "node list \<Rightarrow> execution_data" where
  "finished ns = \<lparr>x_RevisionID = ''r1'', x_Phase = ''Succeeded'', x_Nodes = ns\<rparr>"

lemmas concrete_defs = engine_node_def weighted_def finished_def weights_def run_weightages_def add_weight_def
  graded_of_def matched_fault_def IsTeardownExperiment_def matchesFaultFamily_def teardownExperimentNames_def
  HasPrefix_def no_overlap_def

lemmas percent_defs = Atoi_value_def digits_val_def digit_val_def is_digit_def

definition two_faults :: "(string \<times> int) list" where "two_faults = [(''del'', 10), (''net'', 5)]"

definition two_nodes :: "node list" where
  "two_nodes = [engine_node ''del-x'' ''Pass'' ''100'', engine_node ''net-y'' ''N/A'' ''0'']"

lemma two_graded: "graded (\<lambda>_. [''del'', ''net'']) (fst (weights (weighted two_faults) ''r1'')) 0 two_nodes =
    [(''del'', 10, \<lparr>cd_EngineName = ''del-x'', cd_ExperimentName = ''del-x'', cd_ExperimentVerdict = ''Pass'',
       cd_ProbeSuccessPercentage = ''100''\<rparr>),
     (''net'', 5, \<lparr>cd_EngineName = ''net-y'', cd_ExperimentName = ''net-y'', cd_ExperimentVerdict = ''N/A'',
       cd_ProbeSuccessPercentage = ''0''\<rparr>)]"
  by (simp add: two_faults_def two_nodes_def concrete_defs)

lemma stored_success_exact_witness:
  "success (reconcileRunPhase ''Succeeded''
     (the (ProcessCompletedExperimentRun (\<lambda>_. [''del'', ''net'']) (Some (weighted two_faults)) (finished two_nodes))))"
proof -
  have "success ''Succeeded''" by (simp add: success_def EqualFold_def)
  moreover have "length (fst (weights (weighted two_faults) ''r1'')) = 2" by (simp add: two_faults_def concrete_defs)
  ultimately show ?thesis
    using stored_success_exact [of "weighted two_faults" "finished two_nodes" "\<lambda>_. [''del'', ''net'']"] two_graded
    by (simp add: finished_def Let_def)
qed


lemma metrics_order_free_witness:
  "ProcessCompletedExperimentRun (\<lambda>_. [''del'', ''net'']) (Some (weighted two_faults)) (finished two_nodes) =
   ProcessCompletedExperimentRun (\<lambda>k. if even k then [''net'', ''del''] else [''del'', ''net'']) (Some (weighted two_faults))
     (finished (rev two_nodes))"
proof -
  have "map fst (fst (weights (weighted two_faults) ''r1'')) = [''del'', ''net'']"
    by (simp add: two_faults_def concrete_defs)
  moreover have "no_overlap [''del'', ''net''] two_nodes" by (simp add: two_nodes_def concrete_defs)
  ultimately show ?thesis
    using metrics_order_free [of two_nodes "rev two_nodes" "weighted two_faults" "finished []" "\<lambda>_. [''del'', ''net'']"
        "\<lambda>k. if even k then [''net'', ''del''] else [''del'', ''net'']"]
    by (simp add: finished_def insert_commute)
qed

text \<open>
  With the names of two faults in one engine's name (\<^verbatim>\<open>cpu-hog\<close> in \<^verbatim>\<open>cpu-hog-exec\<close>), the verdict is weighed
  with either weight.
\<close>

lemma overlapping_names_depend_on_order:
  "mt_ResiliencyScore (the (ProcessCompletedExperimentRun (\<lambda>_. [''hog'', ''hog-exec'']) (Some (weighted [(''hog'', 9), (''hog-exec'', 1)]))
     (finished [engine_node ''hog-exec-x'' ''Pass'' ''100'', engine_node ''hog-x'' ''Fail'' ''0'']))) = 10"
  "mt_ResiliencyScore (the (ProcessCompletedExperimentRun (\<lambda>_. [''hog-exec'', ''hog'']) (Some (weighted [(''hog'', 9), (''hog-exec'', 1)]))
     (finished [engine_node ''hog-exec-x'' ''Pass'' ''100'', engine_node ''hog-x'' ''Fail'' ''0'']))) = 90"
  by code_simp+

text \<open>A fault with two nodes, such as a step Argo retried, counts twice for the score and once for the weights.\<close>

lemma repeated_fault_over_hundred:
  "mt_ResiliencyScore (the (ProcessCompletedExperimentRun (\<lambda>_. [''del'']) (Some (weighted [(''del'', 10)]))
     (finished [engine_node ''del-x'' ''Pass'' ''100'', engine_node ''del-y'' ''Pass'' ''100'']))) = 200"
  by code_simp

end
