(* ===== verification/Run_Events.thy ===== *)
theory Run_Events
  imports Multi_Run Run_Scoring
begin

text \<open>
  The life of the runs of one experiment in the database (\<^verbatim>\<open>ChaosExperimentRunEvent\<close> and the transaction of
  \<^verbatim>\<open>RunChaosWorkFlow\<close> of the run handler, \<^verbatim>\<open>ProcessExperimentRunStop\<close> and \<^verbatim>\<open>ProcessExperimentRunDelete\<close> of
  \<^verbatim>\<open>chaos_experiment_run/service.go\<close>, \<^verbatim>\<open>StopExperimentRuns\<close> and \<^verbatim>\<open>DeleteChaosExperiment\<close> of
  \<^verbatim>\<open>chaos_experiment/handler/handler.go\<close>): the run documents and the copies of the last ten the user
  interface reads. Base64, JSON, the clock, the maps' order and failing database operations are inputs.
\<close>

section \<open>Documents\<close>

record run_doc = run +
  rd_Score :: rat
  rd_Metrics :: "metrics option"

record detail =
  dt_RunID :: string
  dt_NotifyID :: "string option"
  dt_Phase :: string
  dt_Completed :: bool
  dt_Score :: "rat option"

record exp_db =
  xp_Removed :: bool
  xp_CronSyntax :: string
  xp_PlannedRuns :: int
  xp_State :: "multi_run_state option"
  xp_Revisions :: "revision list"
  xp_Total :: int
  xp_Details :: "detail list"
  xp_Runs :: "run_doc list"
  xp_InGit :: bool

record argo_event =
  ev_RunID :: string
  ev_NotifyID :: "string option"
  ev_Completed :: bool
  ev_Data :: string

record event_env =
  ee_base64 :: "string \<Rightarrow> string option"
  ee_json :: "string \<Rightarrow> execution_data option"
  ee_experimentID :: string
  ee_order :: "nat \<Rightarrow> string list"
  ee_now :: int
  ee_ok :: bool

text \<open>\<^verbatim>\<open>$push\<close> at position 0 with a slice of 10.\<close>

definition push_detail :: "detail \<Rightarrow> exp_db \<Rightarrow> exp_db" where
  "push_detail dt db = db\<lparr>xp_Details := take 10 (dt # xp_Details db)\<rparr>"

section \<open>A run is created\<close>

definition create_run_doc :: "int \<Rightarrow> string \<Rightarrow> exp_db \<Rightarrow> exp_db" where
  "create_run_doc now notifyID db =
     (push_detail \<lparr>dt_RunID = [], dt_NotifyID = Some notifyID, dt_Phase = ''Queued'', dt_Completed = False, dt_Score = None\<rparr> db)
       \<lparr>xp_Total := xp_Total db + 1,
        xp_Runs := xp_Runs db @ [\<lparr>r_RunID = [], r_NotifyID = Some notifyID, r_Phase = ''Queued'', r_Completed = False,
          r_Removed = False, r_CreatedAt = now, r_UpdatedAt = now, rd_Score = 0, rd_Metrics = None\<rparr>]\<rparr>"

section \<open>An event arrives\<close>

definition empty_execution :: execution_data where
  "empty_execution = \<lparr>x_RevisionID = [], x_Phase = [], x_Nodes = []\<rparr>"

text \<open>
  Data that is not base64 is replaced, for old subscribers; what the code puts in its place is the
  experiment's id.
\<close>

definition decode_event :: "event_env \<Rightarrow> argo_event \<Rightarrow> execution_data option" where
  "decode_event env ev =
     (if ev_Data ev = [] then Some empty_execution
      else ee_json env (case ee_base64 env (ev_Data ev) of Some s \<Rightarrow> s | None \<Rightarrow> ee_experimentID env))"

definition isCompleted :: "argo_event \<Rightarrow> execution_data \<Rightarrow> bool" where
  "isCompleted ev x = (ev_Completed ev \<or>
     list_ex (Contains (ToLower (x_Phase x))) [''completed'', ''succeeded'', ''failed'', ''error''])"

definition score_event :: "event_env \<Rightarrow> revision list \<Rightarrow> argo_event \<Rightarrow> execution_data \<Rightarrow> (execution_data \<times> metrics) option" where
  "score_event env revs ev x =
     (if isCompleted ev x
      then map_option (\<lambda>m. (x\<lparr>x_Phase := reconcileRunPhase (x_Phase x) m\<rparr>, m))
             (ProcessCompletedExperimentRun (ee_order env) (if ee_ok env then Some revs else None) x)
      else Some (x, no_metrics))"

definition stored_event :: "argo_event \<Rightarrow> execution_data \<Rightarrow> run_event" where
  "stored_event ev x = \<lparr>e_RunID = ev_RunID ev, e_NotifyID = ev_NotifyID ev, e_Phase = x_Phase x, e_Completed = ev_Completed ev\<rparr>"

definition run_query :: "argo_event \<Rightarrow> run_doc \<Rightarrow> bool" where
  "run_query ev r = (case ev_NotifyID ev of None \<Rightarrow> r_RunID r = ev_RunID ev | Some n \<Rightarrow> r_NotifyID r = Some n)"

definition detail_query :: "argo_event \<Rightarrow> detail \<Rightarrow> bool" where
  "detail_query ev dt =
     ((case ev_NotifyID ev of None \<Rightarrow> dt_RunID dt = ev_RunID ev | Some n \<Rightarrow> dt_NotifyID dt = Some n) \<and>
      (\<not> ev_Completed ev \<longrightarrow> \<not> dt_Completed dt))"

definition update_details :: "argo_event \<Rightarrow> execution_data \<Rightarrow> metrics \<Rightarrow> exp_db \<Rightarrow> exp_db" where
  "update_details ev x m db =
     (if filter (run_query ev) (xp_Runs db) = []
      then (push_detail \<lparr>dt_RunID = ev_RunID ev, dt_NotifyID = None, dt_Phase = x_Phase x, dt_Completed = False,
              dt_Score = Some (mt_ResiliencyScore m)\<rparr> db)\<lparr>xp_Total := xp_Total db + 1\<rparr>
      else db\<lparr>xp_Details := update_first (detail_query ev) (\<lambda>dt. dt\<lparr>dt_Phase := x_Phase x, dt_Completed := ev_Completed ev,
              dt_RunID := ev_RunID ev, dt_Score := Some (mt_ResiliencyScore m)\<rparr>) (xp_Details db)\<rparr>)"

definition UpdateRunDoc :: "int \<Rightarrow> argo_event \<Rightarrow> execution_data \<Rightarrow> metrics \<Rightarrow> run_doc list \<Rightarrow> run_doc list \<times> nat" where
  "UpdateRunDoc now ev x m runs =
     (let found = filter (run_query ev) runs in
      if found = [] then
        (runs @ [\<lparr>r_RunID = ev_RunID ev, r_NotifyID = ev_NotifyID ev, r_Phase = x_Phase x, r_Completed = ev_Completed ev,
           r_Removed = False, r_CreatedAt = now, r_UpdatedAt = now, rd_Score = mt_ResiliencyScore m, rd_Metrics = Some m\<rparr>], 1)
      else if length found = 1 then
        (if list_ex r_Completed found then (runs, 0)
         else (update_first (run_query ev) (\<lambda>r. r\<lparr>r_RunID := ev_RunID ev, r_Phase := x_Phase x,
                 r_Completed := ev_Completed ev, r_Removed := False, r_UpdatedAt := now, rd_Score := mt_ResiliencyScore m,
                 rd_Metrics := Some m\<rparr>) runs, 1))
      else (runs, 1))"

text \<open>The transaction; \<^const>\<open>None\<close> when it is aborted.\<close>

definition store_event :: "event_env \<Rightarrow> argo_event \<Rightarrow> execution_data \<Rightarrow> metrics \<Rightarrow> exp_db \<Rightarrow> exp_db option" where
  "store_event env ev x m db =
     (if \<not> ee_ok env then None
      else (case UpdateRunDoc (ee_now env) ev x m (xp_Runs db) of (runs, updated) \<Rightarrow>
        if updated = 0 \<and> \<not> ev_Completed ev then None
        else Some ((update_details ev x m db)\<lparr>xp_Runs := runs\<rparr>)))"

datatype event_reply = Received | NoExperiment | EventFailed

definition ChaosExperimentRunEvent :: "event_env \<Rightarrow> argo_event \<Rightarrow> exp_db \<Rightarrow> event_reply \<times> exp_db" where
  "ChaosExperimentRunEvent env ev db =
     (if xp_Removed db then (NoExperiment, db)
      else (case decode_event env ev of None \<Rightarrow> (EventFailed, db)
      | Some x0 \<Rightarrow> (case score_event env (xp_Revisions db) ev x0 of None \<Rightarrow> (EventFailed, db)
        | Some (x, m) \<Rightarrow> (case store_event env ev x m db of
            None \<Rightarrow> (EventFailed, db) | Some db' \<Rightarrow> (Received, db')))))"

section \<open>Stopping and deleting\<close>

definition ProcessExperimentRunStop :: "int \<Rightarrow> string \<Rightarrow> exp_db \<Rightarrow> exp_db" where
  "ProcessExperimentRunStop now runID db =
     db\<lparr>xp_Runs := update_first (\<lambda>r. r_RunID r = runID \<and> \<not> r_Removed r)
          (\<lambda>r. r\<lparr>r_Phase := ''Stopped'', r_Completed := True, r_UpdatedAt := now\<rparr>) (xp_Runs db),
        xp_Details := (if runID = [] then xp_Details db
          else update_first (\<lambda>dt. dt_RunID dt = runID) (\<lambda>dt. dt\<lparr>dt_Phase := ''Stopped'', dt_Completed := True\<rparr>) (xp_Details db))\<rparr>"

definition stoppable :: "run_doc \<Rightarrow> bool" where
  "stoppable r = (\<not> r_Removed r \<and> (r_Phase r = ''Running'' \<or> r_Phase r = ''Timeout'') \<and> \<not> r_Completed r)"

definition latch_batch :: "exp_db \<Rightarrow> exp_db" where
  "latch_batch db = (if xp_PlannedRuns db > 1 \<or> xp_State db \<noteq> None
     then db\<lparr>xp_State := Some ((case xp_State db of None \<Rightarrow> no_state | Some m \<Rightarrow> m)\<lparr>m_BatchDone := True\<rparr>)\<rparr> else db)"

definition StopExperimentRuns :: "int \<Rightarrow> string option \<Rightarrow> exp_db \<Rightarrow> bool \<times> exp_db" where
  "StopExperimentRuns now experimentRunID db =
     (if xp_Removed db then (False, db)
      else (let ids = (case experimentRunID of
              None \<Rightarrow> map r_RunID (filter stoppable (xp_Runs db))
            | Some runID \<Rightarrow> if runID = [] then [] else [runID])
        in if experimentRunID = None \<and> ids = [] \<and> xp_CronSyntax db = [] then (False, db)
           else (True, latch_batch (foldl (\<lambda>db runID. ProcessExperimentRunStop now runID db) db ids))))"

text \<open>Deleting from Git is the first effect of both branches.\<close>

definition DeleteChaosExperiment :: "int \<Rightarrow> string option \<Rightarrow> exp_db \<Rightarrow> bool \<times> exp_db" where
  "DeleteChaosExperiment now experimentRunID db =
     (if xp_Removed db then (False, db)
      else (case experimentRunID of
        None \<Rightarrow> (True, db\<lparr>xp_InGit := False, xp_Removed := True,
                  xp_Runs := map (\<lambda>r. r\<lparr>r_Removed := True, r_UpdatedAt := now\<rparr>) (xp_Runs db)\<rparr>)
      | Some runID \<Rightarrow>
          if runID = [] then (True, db)
          else if \<not> list_ex (\<lambda>r. r_RunID r = runID) (xp_Runs db) then (False, db)
          else (True, db\<lparr>xp_InGit := False, xp_Runs := update_first (\<lambda>r. r_RunID r = runID)
                  (\<lambda>r. r\<lparr>r_Removed := True, r_UpdatedAt := now\<rparr>) (xp_Runs db)\<rparr>)))"

section \<open>The runs as the multi-run chain sees them\<close>

lemma truncate_fields [simp]:
  "r_RunID (run.truncate r) = r_RunID r" "r_NotifyID (run.truncate r) = r_NotifyID r" "r_Phase (run.truncate r) = r_Phase r"
  "r_Completed (run.truncate r) = r_Completed r" "r_Removed (run.truncate r) = r_Removed r"
  by (simp_all add: run.truncate_def)

lemma event_query_truncate: "event_query (stored_event ev x) (run.truncate r) = run_query ev r"
  by (simp add: event_query_def run_query_def stored_event_def split: option.split)

lemma map_update_first:
  "(\<And>x. p (h x) = q x) \<Longrightarrow> (\<And>x. h (f x) = g (h x)) \<Longrightarrow> map h (update_first q f xs) = update_first p g (map h xs)"
  by (induction xs) auto

lemma filter_truncate: "filter (event_query (stored_event ev x)) (map run.truncate runs) = map run.truncate (filter (run_query ev) runs)"
  by (simp add: filter_map comp_def event_query_truncate)


section \<open>Final verdicts\<close>

lemma update_first_other:
  "r \<in> set xs \<Longrightarrow> \<not> p r \<Longrightarrow> r \<in> set (update_first p f xs)"
  by (induction xs) auto

lemma UpdateRunDoc_completed:
  assumes "r \<in> set runs" "r_Completed r"
  shows "r \<in> set (fst (UpdateRunDoc now ev x m runs))"
proof (cases "run_query ev r")
  case True
  then have "r \<in> set (filter (run_query ev) runs)" using assms by simp
  then show ?thesis
    using assms by (auto simp: UpdateRunDoc_def Let_def list_ex_iff)
next
  case False
  then show ?thesis using assms(1) by (auto simp: UpdateRunDoc_def Let_def update_first_other)
qed

fun receive_all :: "(event_env \<times> argo_event) list \<Rightarrow> exp_db \<Rightarrow> exp_db" where
  "receive_all [] db = db"
| "receive_all ((env, ev) # events) db = receive_all events (snd (ChaosExperimentRunEvent env ev db))"

lemma event_keeps_completed:
  assumes "r \<in> set (xp_Runs db)" "r_Completed r"
  shows "r \<in> set (xp_Runs (snd (ChaosExperimentRunEvent env ev db)))"
proof -
  have "r \<in> set runs" if "UpdateRunDoc (ee_now env) ev x m (xp_Runs db) = (runs, k)" for x m runs k
    using UpdateRunDoc_completed [OF assms, of "ee_now env" ev x m] that by simp
  then show ?thesis
    using assms(1) by (auto simp: ChaosExperimentRunEvent_def store_event_def split: option.splits prod.splits)
qed

text \<open>C29. A final verdict is final for the subscriber: whatever events arrive, in whatever order and however
  often, every run document that is completed is still there unchanged, with its phase, its score and its
  metrics.\<close>

theorem completed_runs_are_final:
  assumes "r \<in> set (xp_Runs db)" "r_Completed r"
  shows "r \<in> set (xp_Runs (receive_all events db))"
  using assms(1)
  by (induction events db rule: receive_all.induct) (auto intro: event_keeps_completed assms(2))

section \<open>Where the documents and the intent part\<close>

text \<open>Execution data sent as plain JSON, as old subscribers do, is never read: the experiment's id is parsed instead.\<close>

lemma plain_data_rejected:
  assumes "ev_Data ev \<noteq> []" "ee_base64 env (ev_Data ev) = None" "ee_json env (ee_experimentID env) = None" "\<not> xp_Removed db"
  shows "ChaosExperimentRunEvent env ev db = (EventFailed, db)"
  using assms by (simp add: ChaosExperimentRunEvent_def decode_event_def)

text \<open>A sample experiment with one fault, and events for one run of it.\<close>

definition sample_db :: exp_db where
  "sample_db = \<lparr>xp_Removed = False, xp_CronSyntax = [], xp_PlannedRuns = 1, xp_State = None,
     xp_Revisions = weighted [(''del'', 10)], xp_Total = 0, xp_Details = [], xp_Runs = [], xp_InGit = True\<rparr>"

definition sample_env :: event_env where
  "sample_env = \<lparr>ee_base64 = Some, ee_json = (\<lambda>s. if s = ''run'' then Some \<lparr>x_RevisionID = ''r1'', x_Phase = ''Running'', x_Nodes = []\<rparr>
       else if s = ''ok'' then Some (finished [engine_node ''del-x'' ''Pass'' ''100'']) else None),
     ee_experimentID = ''e1'', ee_order = (\<lambda>_. [''del'']), ee_now = 5, ee_ok = True\<rparr>"

definition sample_event :: "bool \<Rightarrow> string \<Rightarrow> argo_event" where
  "sample_event done data = \<lparr>ev_RunID = ''u1'', ev_NotifyID = Some ''n1'', ev_Completed = done, ev_Data = data\<rparr>"

definition running_db :: exp_db where
  "running_db = snd (ChaosExperimentRunEvent sample_env (sample_event False ''run'') (create_run_doc 1 ''n1'' sample_db))"

definition phases :: "exp_db \<Rightarrow> (string \<times> bool) list \<times> (string \<times> bool) list" where
  "phases db = (map (\<lambda>r. (r_Phase r, r_Completed r)) (xp_Runs db), map (\<lambda>dt. (dt_Phase dt, dt_Completed dt)) (xp_Details db))"

text \<open>In the usual course the run and its copy go the same way.\<close>

lemma usual_course:
  "phases running_db = ([(''Running'', False)], [(''Running'', False)])"
  "phases (snd (ChaosExperimentRunEvent sample_env (sample_event True ''ok'') running_db)) =
     ([(''Succeeded'', True)], [(''Succeeded'', True)])"
  by code_simp+

text \<open>The terminal event of a stopped run changes the copy and not the run.\<close>

lemma stopped_run_copy_diverges:
  "phases (snd (ChaosExperimentRunEvent sample_env (sample_event True ''ok'') (snd (StopExperimentRuns 6 (Some ''u1'') running_db)))) =
     ([(''Stopped'', True)], [(''Succeeded'', True)])"
  by code_simp

text \<open>A run the server first hears of by its terminal event is completed, its copy never is.\<close>

lemma unknown_run_copy_never_completes:
  "phases (receive_all (replicate 3 (sample_env, sample_event True ''ok'')) sample_db) =
     ([(''Succeeded'', True)], [(''Succeeded'', False)])"
  by code_simp

text \<open>Stopping a finished run rewrites its verdict.\<close>

lemma stop_rewrites_verdict:
  "phases (snd (StopExperimentRuns 9 (Some ''u1'')
      (snd (ChaosExperimentRunEvent sample_env (sample_event True ''ok'') running_db)))) =
     ([(''Stopped'', True)], [(''Stopped'', True)])"
  by code_simp

text \<open>A deleted run comes back with its next event; and deleting one run takes the experiment out of Git.\<close>

lemma deleted_run_returns:
  "map r_Removed (xp_Runs (snd (DeleteChaosExperiment 6 (Some ''u1'') running_db))) = [True]"
  "map r_Removed (xp_Runs (snd (ChaosExperimentRunEvent sample_env (sample_event False ''run'')
     (snd (DeleteChaosExperiment 6 (Some ''u1'') running_db))))) = [False]"
  "xp_InGit running_db \<and> \<not> xp_InGit (snd (DeleteChaosExperiment 6 (Some ''u1'') running_db)) \<and>
     \<not> xp_Removed (snd (DeleteChaosExperiment 6 (Some ''u1'') running_db))"
  by code_simp+


lemma completed_runs_are_final_witness:
  "\<exists>r \<in> set (xp_Runs (receive_all [(sample_env, sample_event False ''run''), (sample_env, sample_event True ''ok'')]
     (snd (ChaosExperimentRunEvent sample_env (sample_event True ''ok'') running_db)))). r_Phase r = ''Succeeded''"
proof -
  let ?db = "snd (ChaosExperimentRunEvent sample_env (sample_event True ''ok'') running_db)"
  have "map (\<lambda>r. (r_Phase r, r_Completed r)) (xp_Runs ?db) = [(''Succeeded'', True)]"
    using usual_course(2) by (simp add: phases_def)
  then obtain r where "r \<in> set (xp_Runs ?db)" "r_Phase r = ''Succeeded''" "r_Completed r" by (cases "xp_Runs ?db") auto
  then show ?thesis using completed_runs_are_final [of r ?db] by blast
qed

end
