(* ===== verification/Fault_Windows.thy ===== *)
theory Fault_Windows
  imports Run_Scoring "HOL-Library.Char_ord" "HOL-Library.List_Lexorder"
begin

text \<open>
  When the faults of a run were active (\<^verbatim>\<open>computeFaultCohort\<close> and \<^verbatim>\<open>computeFaultWindows\<close> of the run
  handler, \<^verbatim>\<open>observability.ParseArgoTime\<close>): the faults that overlap each fault, and the windows handed
  to the certifier. Times are nanoseconds since 1970; reading an RFC 3339 text is an argument.
\<close>

section \<open>Times\<close>

definition wrap64 :: "int \<Rightarrow> int" where
  "wrap64 n = (n + 2 ^ 63) mod 2 ^ 64 - 2 ^ 63"

definition ParseArgoTime :: "(string \<Rightarrow> int option) \<Rightarrow> string \<Rightarrow> int option" where
  "ParseArgoTime rfc3339 text =
     (let s = TrimSpace text in
      if s = [] then None
      else (case ParseInt s of
        Some epoch \<Rightarrow> Some (if epoch > 1000000000000 then wrap64 (epoch * 1000000) else epoch * 1000000000)
      | None \<Rightarrow> rfc3339 s))"

section \<open>Cohorts\<close>

record fault_window =
  fw_Fault :: string
  fw_Start :: int
  fw_End :: "int option"

definition fault_name :: "chaos_data \<Rightarrow> string" where
  "fault_name chaosExp = (if cd_ExperimentName chaosExp = [] then cd_EngineName chaosExp else cd_ExperimentName chaosExp)"

definition cohort_window :: "(string \<Rightarrow> int option) \<Rightarrow> node \<Rightarrow> fault_window option" where
  "cohort_window rfc3339 value =
     (if n_Type value \<noteq> ''ChaosEngine'' \<or> n_StartedAt value = [] then None
      else (case n_ChaosExp value of None \<Rightarrow> None | Some chaosExp \<Rightarrow>
        if fault_name chaosExp = [] \<or> IsTeardownExperiment (fault_name chaosExp) then None
        else map_option (\<lambda>start. \<lparr>fw_Fault = fault_name chaosExp, fw_Start = start,
                 fw_End = (if n_FinishedAt value = [] then None else ParseArgoTime rfc3339 (n_FinishedAt value))\<rparr>)
               (ParseArgoTime rfc3339 (n_StartedAt value))))"

text \<open>An ongoing window ends at \<^verbatim>\<open>time.Unix(1<<62, 0)\<close>.\<close>

definition window_end :: "fault_window \<Rightarrow> int" where
  "window_end w = (case fw_End w of None \<Rightarrow> 2 ^ 62 * 1000000000 | Some t \<Rightarrow> t)"

definition overlap :: "fault_window \<Rightarrow> fault_window \<Rightarrow> bool" where
  "overlap a b = (fw_Start a < window_end b \<and> fw_Start b < window_end a)"

definition siblings_of :: "fault_window list \<Rightarrow> nat \<Rightarrow> string list" where
  "siblings_of windows i = map (\<lambda>j. fw_Fault (windows ! j))
     (filter (\<lambda>j. j \<noteq> i \<and> overlap (windows ! i) (windows ! j)) [0..<length windows])"

definition cohort_of :: "fault_window list \<Rightarrow> nat \<Rightarrow> string list" where
  "cohort_of windows i = remdups_adj (sort (siblings_of windows i))"

definition computeFaultCohort :: "(string \<Rightarrow> int option) \<Rightarrow> node list \<Rightarrow> (string \<rightharpoonup> string list) \<times> string" where
  "computeFaultCohort rfc3339 nodes =
     (let windows = List.map_filter (cohort_window rfc3339) nodes in
      if length windows \<le> 1
      then (foldl (\<lambda>m w. m(fw_Fault w \<mapsto> [])) Map.empty windows, if windows = [] then [] else ''single'')
      else (foldl (\<lambda>m i. m(fw_Fault (windows ! i) \<mapsto> cohort_of windows i)) Map.empty [0..<length windows],
            if list_ex (\<lambda>i. siblings_of windows i \<noteq> []) [0..<length windows] then ''parallel'' else ''sequential''))"

section \<open>Windows for the certifier\<close>

text \<open>
  The first match of \<^verbatim>\<open>itb-scenario-(\d+)\<close> and of \<^verbatim>\<open>std-([a-z][a-z0-9-]*)\<close>, as the text of the group.
\<close>

fun first_match :: "string \<Rightarrow> (string \<Rightarrow> string option) \<Rightarrow> string \<Rightarrow> string option" where
  "first_match lead rest [] = (if lead = [] then rest [] else None)"
| "first_match lead rest (c # s) =
     (case (if HasPrefix (c # s) lead then rest (drop (length lead) (c # s)) else None) of
        Some m \<Rightarrow> Some m
      | None \<Rightarrow> first_match lead rest s)"

definition is_lower :: "char \<Rightarrow> bool" where
  "is_lower c = (of_char c \<ge> (97::nat) \<and> of_char c \<le> (122::nat))"

definition itbScenarioStepName :: "string \<Rightarrow> string option" where
  "itbScenarioStepName = first_match ''itb-scenario-''
     (\<lambda>r. let ds = takeWhile is_digit r in if ds = [] then None else Some ds)"

definition stdFaultStepName :: "string \<Rightarrow> string option" where
  "stdFaultStepName = first_match ''std-''
     (\<lambda>r. case r of [] \<Rightarrow> None | c # s \<Rightarrow>
        if is_lower c then Some (c # takeWhile (\<lambda>d. is_lower d \<or> is_digit d \<or> d = CHR ''-'') s) else None)"

definition step_fault :: "node \<Rightarrow> string" where
  "step_fault value =
     (let engine = (if n_Type value = ''ChaosEngine''
        then (case n_ChaosExp value of None \<Rightarrow> [] | Some chaosExp \<Rightarrow> fault_name chaosExp) else []) in
      if engine \<noteq> [] then engine
      else (case itbScenarioStepName (ToLower (n_Name value)) of
          Some n \<Rightarrow> ''Scenario-'' @ n
        | None \<Rightarrow> (case stdFaultStepName (ToLower (n_Name value)) of Some f \<Rightarrow> f | None \<Rightarrow> [])))"

definition fault_window_of :: "(string \<Rightarrow> int option) \<Rightarrow> node \<Rightarrow> (string \<times> int \<times> int) option" where
  "fault_window_of rfc3339 value =
     (let f = step_fault value in
      if f = [] \<or> IsTeardownExperiment f then None
      else (case (ParseArgoTime rfc3339 (n_StartedAt value), ParseArgoTime rfc3339 (n_FinishedAt value)) of
          (Some start, Some stop) \<Rightarrow> Some (f, start, stop)
        | _ \<Rightarrow> None))"

definition computeFaultWindows :: "(string \<Rightarrow> int option) \<Rightarrow> node list \<Rightarrow> (string \<times> int \<times> int) list" where
  "computeFaultWindows rfc3339 nodes = List.map_filter (fault_window_of rfc3339) nodes"

section \<open>Cohorts, exactly\<close>

lemma foldl_upd_lookup:
  assumes "distinct (map f xs)" "x \<in> set xs"
  shows "foldl (\<lambda>m x. m(f x \<mapsto> g x)) m0 xs (f x) = Some (g x)"
  using assms
proof (induction xs arbitrary: m0)
  case (Cons y ys)
  have keep: "foldl (\<lambda>m x. m(f x \<mapsto> g x)) m zs k = m k" if "k \<notin> f ` set zs" for m zs k
    using that by (induction zs arbitrary: m) auto
  have "foldl (\<lambda>m x. m(f x \<mapsto> g x)) (m0(f y \<mapsto> g y)) ys (f y) = Some (g y)"
    using Cons.prems keep [of "f y" ys "m0(f y \<mapsto> g y)"] by (simp only: fun_upd_same) simp
  then show ?case using Cons by (cases "x = y") (simp_all del: fun_upd_apply)
qed simp

lemma cohort_of_set:
  "set (cohort_of ws i) = {fw_Fault (ws ! j) | j. j < length ws \<and> j \<noteq> i \<and> overlap (ws ! i) (ws ! j)}"
  by (auto simp: cohort_of_def siblings_of_def)

lemma distinct_remdups_adj: "sorted xs \<Longrightarrow> distinct (remdups_adj (xs :: 'a :: linorder list))"
  by (induction xs rule: remdups_adj.induct) auto

lemma cohort_of_sorted: "sorted (cohort_of ws i)" "distinct (cohort_of ws i)"
  by (simp_all add: cohort_of_def distinct_remdups_adj)

lemma overlap_sym: "overlap a b \<longleftrightarrow> overlap b a"
  by (auto simp: overlap_def)

text \<open>The cohorts of a run with several faults are exact: with one node for each fault, the cohort of a
  fault lists, sorted and once each, just the other faults whose window overlaps its own; to be in the
  cohort of a fault is symmetric; and the run is called parallel exactly when some two windows overlap.\<close>

theorem cohorts_exact:
  assumes "ws = List.map_filter (cohort_window rfc3339) nodes" "distinct (map fw_Fault ws)"
    "computeFaultCohort rfc3339 nodes = (cohorts, mode)" "i < length ws" "j < length ws" "i \<noteq> j"
  shows "\<exists>c. cohorts (fw_Fault (ws ! i)) = Some c \<and> sorted c \<and> distinct c \<and>
      set c = {fw_Fault (ws ! k) | k. k < length ws \<and> k \<noteq> i \<and> overlap (ws ! i) (ws ! k)} \<and>
      (fw_Fault (ws ! j) \<in> set c \<longleftrightarrow> fw_Fault (ws ! i) \<in> set (the (cohorts (fw_Fault (ws ! j))))) \<and>
      (mode = ''parallel'' \<longleftrightarrow> (\<exists>a b. a < length ws \<and> b < length ws \<and> a \<noteq> b \<and> overlap (ws ! a) (ws ! b)))"
proof -
  have len: "\<not> length ws \<le> 1" using assms(4-6) by linarith
  have keys: "map (\<lambda>i. fw_Fault (ws ! i)) [0..<length ws] = map fw_Fault ws"
    by (intro nth_equalityI) auto
  have "cohorts = foldl (\<lambda>m i. m(fw_Fault (ws ! i) \<mapsto> cohort_of ws i)) Map.empty [0..<length ws]"
    and mode: "mode = (if list_ex (\<lambda>i. siblings_of ws i \<noteq> []) [0..<length ws] then ''parallel'' else ''sequential'')"
    using assms(3) len by (simp_all add: computeFaultCohort_def Let_def flip: assms(1))
  then have look: "cohorts (fw_Fault (ws ! k)) = Some (cohort_of ws k)" if "k < length ws" for k
    using that assms(2) foldl_upd_lookup [of "\<lambda>i. fw_Fault (ws ! i)" "[0..<length ws]" k "cohort_of ws" Map.empty]
    by (simp add: keys)
  have inj: "fw_Fault (ws ! a) = fw_Fault (ws ! b) \<longleftrightarrow> a = b" if "a < length ws" "b < length ws" for a b
    using that assms(2) nth_eq_iff_index_eq [of "map fw_Fault ws" a b] by simp
  have mem: "fw_Fault (ws ! b) \<in> set (cohort_of ws a) \<longleftrightarrow> overlap (ws ! a) (ws ! b)"
    if "a < length ws" "b < length ws" "a \<noteq> b" for a b
    using that inj by (auto simp: cohort_of_set)
  have "siblings_of ws a \<noteq> [] \<longleftrightarrow> (\<exists>b < length ws. b \<noteq> a \<and> overlap (ws ! a) (ws ! b))" for a
    by (auto simp: siblings_of_def filter_empty_conv)
  then have "mode = ''parallel'' \<longleftrightarrow> (\<exists>a b. a < length ws \<and> b < length ws \<and> a \<noteq> b \<and> overlap (ws ! a) (ws ! b))"
    unfolding mode list_ex_iff by (simp add: Bex_def) blast
  moreover have "fw_Fault (ws ! j) \<in> set (cohort_of ws i) \<longleftrightarrow> fw_Fault (ws ! i) \<in> set (the (cohorts (fw_Fault (ws ! j))))"
    using mem look assms(4-6) overlap_sym [of "ws ! i" "ws ! j"] by simp
  ultimately show ?thesis
    using look [OF assms(4)] cohort_of_sorted [of ws i] cohort_of_set [of ws i] by blast
qed

definition timed_node :: "string \<Rightarrow> string \<Rightarrow> string \<Rightarrow> node" where
  "timed_node fault start stop = (engine_node fault ''Pass'' ''100'')\<lparr>n_StartedAt := start, n_FinishedAt := stop\<rparr>"

lemma cohorts_exact_witness:
  "snd (computeFaultCohort (\<lambda>_. None) [timed_node ''a'' ''10'' ''30'', timed_node ''b'' ''20'' []]) = ''parallel''"
proof -
  let ?ns = "[timed_node ''a'' ''10'' ''30'', timed_node ''b'' ''20'' []]"
  have t: "ParseArgoTime (\<lambda>_. None) ''10'' = Some 10000000000" "ParseArgoTime (\<lambda>_. None) ''20'' = Some 20000000000"
      "ParseArgoTime (\<lambda>_. None) ''30'' = Some 30000000000"
    by (simp_all add: ParseArgoTime_def ParseInt_def is_digit_def digits_val_def digit_val_def in_int64_def
        TrimSpace_def TrimP_def TrimRightP_def is_space_def)
  have w: "List.map_filter (cohort_window (\<lambda>_. None)) ?ns =
      [\<lparr>fw_Fault = ''a'', fw_Start = 10000000000, fw_End = Some 30000000000\<rparr>,
       \<lparr>fw_Fault = ''b'', fw_Start = 20000000000, fw_End = None\<rparr>]"
    by (simp add: cohort_window_def timed_node_def fault_name_def concrete_defs map_filter_simps t)
  have o: "overlap \<lparr>fw_Fault = ''a'', fw_Start = 10000000000, fw_End = Some 30000000000\<rparr>
      \<lparr>fw_Fault = ''b'', fw_Start = 20000000000, fw_End = None\<rparr>"
    by (simp add: overlap_def window_end_def)
  obtain cohorts mode where c: "computeFaultCohort (\<lambda>_. None) ?ns = (cohorts, mode)" by fastforce
  let ?ws = "[\<lparr>fw_Fault = ''a'', fw_Start = 10000000000, fw_End = Some 30000000000\<rparr>,
       \<lparr>fw_Fault = ''b'', fw_Start = 20000000000, fw_End = None\<rparr>]"
  have "mode = ''parallel'' \<longleftrightarrow> (\<exists>a b. a < length ?ws \<and> b < length ?ws \<and> a \<noteq> b \<and> overlap (?ws ! a) (?ws ! b))"
    using cohorts_exact [OF w [symmetric] _ c, of 0 1] by auto
  moreover have "\<exists>a b. a < length ?ws \<and> b < length ?ws \<and> a \<noteq> b \<and> overlap (?ws ! a) (?ws ! b)"
    using o by (intro exI [of _ 0] exI [of _ "1 :: nat"]) simp
  ultimately have "mode = ''parallel''" by simp
  then show ?thesis using c by simp
qed

end
