(* ===== verification/Chaos_Rbac.thy ===== *)
theory Chaos_Rbac
  imports Fault_Catalog "HOL-Library.AList"
begin

text \<open>
  Kubernetes permissions of a run (\<^verbatim>\<open>handler.go\<close> from \<^verbatim>\<open>containsWithWildcard\<close> to
  \<^verbatim>\<open>cleanupPerExperimentChaosRBAC\<close>, \<^verbatim>\<open>preflightInfraRBAC\<close>, and \<^verbatim>\<open>preflight_chaos.go\<close>). The cluster is what
  the API server stores: objects by name, or by namespace and name. Every call of the API can fail: an
  argument says which calls work, and a working call does what the Kubernetes API documents (create
  fails on an existing object, get, update and delete on a missing one).
\<close>

section \<open>Rules\<close>

record policy_rule =
  pr_APIGroups :: "string list"
  pr_Resources :: "string list"
  pr_Verbs :: "string list"
  pr_ResourceNames :: "string list"

record rbacRequirement =
  rq_APIGroup :: string
  rq_Resource :: string
  rq_Verb :: string

definition containsWithWildcard :: "string list \<Rightarrow> string \<Rightarrow> bool" where
  "containsWithWildcard vs wanted = list_ex (\<lambda>v. v = ''*'' \<or> v = wanted) vs"

definition policyRuleAllows :: "policy_rule \<Rightarrow> rbacRequirement \<Rightarrow> bool" where
  "policyRuleAllows rule req =
     (containsWithWildcard (pr_Verbs rule) (rq_Verb req) \<and> containsWithWildcard (pr_APIGroups rule) (rq_APIGroup req) \<and>
      containsWithWildcard (pr_Resources rule) (rq_Resource req))"

definition rulesSatisfyRequirements :: "policy_rule list \<Rightarrow> rbacRequirement list \<Rightarrow> rbacRequirement list" where
  "rulesSatisfyRequirements rules reqs = filter (\<lambda>req. \<not> list_ex (\<lambda>rule. policyRuleAllows rule req) rules) reqs"

definition formatRequirement :: "rbacRequirement \<Rightarrow> string" where
  "formatRequirement req = rq_Verb req @ '' '' @
     (if rq_APIGroup req \<noteq> [] then rq_Resource req @ ''.'' @ rq_APIGroup req else rq_Resource req)"

definition requirementsOf :: "policy_rule list \<Rightarrow> rbacRequirement list" where
  "requirementsOf rules = concat (map (\<lambda>rule.
     if pr_ResourceNames rule \<noteq> [] then []
     else concat (map (\<lambda>g. concat (map (\<lambda>r. map (\<lambda>v. \<lparr>rq_APIGroup = g, rq_Resource = r, rq_Verb = v\<rparr>) (pr_Verbs rule))
            (pr_Resources rule))) (pr_APIGroups rule))) rules)"

section \<open>Names\<close>

definition normalizeRBACNamePart :: "string \<Rightarrow> string" where
  "normalizeRBACNamePart s =
     (let s = ToLower (TrimSpace s) in
      if s = [] then ''default''
      else (let out = TrimP (\<lambda>c. c = CHR ''-'')
                  (map (\<lambda>c. if List.member ''/:_. '' c then CHR ''-'' else c) s)
        in if out = [] then ''default'' else out))"

definition infraNamespaceOrDefault :: "string option \<Rightarrow> string" where
  "infraNamespaceOrDefault namespace = (case namespace of
     Some n \<Rightarrow> if TrimSpace n \<noteq> [] then TrimSpace n else ''litmus'' | None \<Rightarrow> ''litmus'')"

definition cut63 :: "string \<Rightarrow> string" where
  "cut63 s = (if length s > 63 then TrimRightP (\<lambda>c. c = CHR ''-'') (take 63 s) else s)"

definition perExperimentChaosServiceAccountName :: "string \<Rightarrow> string" where
  "perExperimentChaosServiceAccountName runID =
     (let n = cut63 (''ace-chaos-'' @ normalizeRBACNamePart runID) in
      if n = ''ace-chaos'' \<or> n = ''ace-chaos-'' then ''ace-chaos-run'' else n)"

definition appendUniqueNonEmpty :: "string list \<Rightarrow> string list \<Rightarrow> string list" where
  "appendUniqueNonEmpty vs others =
     foldl (\<lambda>uniq v. let v = TrimSpace v in if v = [] \<or> List.member uniq v then uniq else uniq @ [v]) [] (vs @ others)"

section \<open>The cluster\<close>

record subject =
  sb_Kind :: string
  sb_Name :: string
  sb_Namespace :: string

record binding =
  bd_Labels :: "(string \<times> string) list"
  bd_Subjects :: "subject list"
  bd_RefKind :: string
  bd_RefName :: string

record cluster =
  cl_ClusterRoles :: "(string \<times> policy_rule list) list"
  cl_Roles :: "((string \<times> string) \<times> policy_rule list) list"
  cl_ClusterRoleBindings :: "(string \<times> binding) list"
  cl_RoleBindings :: "((string \<times> string) \<times> binding) list"
  cl_ServiceAccounts :: "((string \<times> string) \<times> (string \<times> string) list) list"
  cl_Namespaces :: "string list"
  cl_WorkflowSA :: "(string \<times> string) list"
  cl_Nodes :: nat

datatype call =
    GetClusterRole string | CreateClusterRole string | UpdateClusterRole string
  | GetClusterRoleBinding string | CreateClusterRoleBinding string | UpdateClusterRoleBinding string
  | GetRoleBinding string string | CreateRoleBinding string string | UpdateRoleBinding string string
  | GetServiceAccount string string | CreateServiceAccount string string | UpdateServiceAccount string string
  | DeleteServiceAccount string string | DeleteRoleBinding string string
  | GetNamespace string | CreateNamespace string | GetConfigMap string | GetRole string string
  | ListClusterRoleBindings | ListRoleBindings string | ListNamespaces | ListNodes

text \<open>The failure of a call that leaves the cluster as it was.\<close>

datatype rbac_error = NoInfra | NoClient | CallFailed call | NoBindingFound | MissingPermissions "rbacRequirement list"
  | OutOfDate "string list" nat | SingleNode "string list"

definition granted_to :: "string \<Rightarrow> string \<Rightarrow> binding \<Rightarrow> bool" where
  "granted_to namespace account b =
     list_ex (\<lambda>s. sb_Kind s = ''ServiceAccount'' \<and> sb_Name s = account \<and> sb_Namespace s = namespace) (bd_Subjects b)"

definition account_subject :: "string \<Rightarrow> string \<Rightarrow> subject" where
  "account_subject namespace account = \<lparr>sb_Kind = ''ServiceAccount'', sb_Name = account, sb_Namespace = namespace\<rparr>"

section \<open>The role of dynamic applications\<close>

definition core_rule :: "string list \<Rightarrow> string list \<Rightarrow> policy_rule" where
  "core_rule resources verbs = \<lparr>pr_APIGroups = [''''], pr_Resources = resources, pr_Verbs = verbs, pr_ResourceNames = []\<rparr>"

definition dynamicAppHelmRBACRequirements :: "rbacRequirement list" where
  "dynamicAppHelmRBACRequirements =
     map (\<lambda>v. \<lparr>rq_APIGroup = '''', rq_Resource = ''namespaces'', rq_Verb = v\<rparr>) [''create'', ''patch'', ''update''] @
     map (\<lambda>v. \<lparr>rq_APIGroup = '''', rq_Resource = ''secrets'', rq_Verb = v\<rparr>)
       [''get'', ''list'', ''watch'', ''create'', ''update'', ''patch'', ''delete'']"

definition dynamic_rules :: "policy_rule list" where
  "dynamic_rules = [core_rule [''namespaces''] [''create'', ''patch'', ''update''],
     core_rule [''secrets''] [''get'', ''list'', ''watch'', ''create'', ''update'', ''patch'', ''delete'']]"

definition dynamic_role :: string where "dynamic_role = ''litmus-dynamic-app-helm''"

definition dynamic_binding :: "string \<Rightarrow> string \<Rightarrow> string" where
  "dynamic_binding infraNamespace account =
     dynamic_role @ ''-'' @ normalizeRBACNamePart infraNamespace @ ''-'' @ normalizeRBACNamePart account"

text \<open>Get, then create when it fails for any reason, update otherwise.\<close>

definition put :: "bool \<Rightarrow> bool \<Rightarrow> bool \<Rightarrow> 'k \<Rightarrow> 'v \<Rightarrow> ('k \<times> 'v) list \<Rightarrow> ('k \<times> 'v) list option" where
  "put get create update key v objs =
     (if \<not> get \<or> map_of objs key = None
      then (if create \<and> map_of objs key = None then Some (objs @ [(key, v)]) else None)
      else (if update then Some (AList.update key v objs) else None))"

definition ensureDynamicAppHelmRBAC :: "(call \<Rightarrow> bool) \<Rightarrow> string \<Rightarrow> string \<Rightarrow> cluster \<Rightarrow> bool \<times> cluster" where
  "ensureDynamicAppHelmRBAC works infraNamespace account cl =
     (let name = dynamic_binding infraNamespace account;
          b = \<lparr>bd_Labels = [], bd_Subjects = [account_subject infraNamespace account], bd_RefKind = ''ClusterRole'',
               bd_RefName = dynamic_role\<rparr> in
      (case put (works (GetClusterRole dynamic_role)) (works (CreateClusterRole dynamic_role))
              (works (UpdateClusterRole dynamic_role)) dynamic_role dynamic_rules (cl_ClusterRoles cl) of
         None \<Rightarrow> (False, cl)
       | Some roles \<Rightarrow> (case put (works (GetClusterRoleBinding name)) (works (CreateClusterRoleBinding name))
              (works (UpdateClusterRoleBinding name)) name b (cl_ClusterRoleBindings cl) of
           None \<Rightarrow> (False, cl\<lparr>cl_ClusterRoles := roles\<rparr>)
         | Some bindings \<Rightarrow> (True, cl\<lparr>cl_ClusterRoles := roles, cl_ClusterRoleBindings := bindings\<rparr>))))"

section \<open>Checks before a run\<close>

definition discoverWorkflowSA :: "(call \<Rightarrow> bool) \<Rightarrow> cluster \<Rightarrow> string \<Rightarrow> string \<Rightarrow> string" where
  "discoverWorkflowSA works cl infraNamespace fallback =
     (if \<not> works (GetConfigMap infraNamespace) then fallback
      else (case map_of (cl_WorkflowSA cl) infraNamespace of
        Some sa \<Rightarrow> if TrimSpace sa \<noteq> [] then TrimSpace sa else fallback | None \<Rightarrow> fallback))"

definition bound_names :: "string \<Rightarrow> string \<Rightarrow> string \<Rightarrow> binding list \<Rightarrow> string list" where
  "bound_names kind namespace account bs =
     map bd_RefName (filter (\<lambda>b. bd_RefKind b = kind \<and> granted_to namespace account b) bs)"

text \<open>Each role in turn takes the requirements it satisfies off the list; a role that cannot be read is skipped.\<close>

definition remaining_after :: "(string \<Rightarrow> policy_rule list option) \<Rightarrow> string list \<Rightarrow> rbacRequirement list \<Rightarrow> rbacRequirement list" where
  "remaining_after read names reqs =
     foldl (\<lambda>reqs n. case read n of None \<Rightarrow> reqs | Some rules \<Rightarrow> rulesSatisfyRequirements rules reqs) reqs names"

record infra =
  in_Name :: string
  in_Scope :: string
  in_Namespace :: "string option"
  in_ServiceAccount :: "string option"

definition workflow_account :: "(call \<Rightarrow> bool) \<Rightarrow> infra \<Rightarrow> cluster \<Rightarrow> string" where
  "workflow_account works i cl = discoverWorkflowSA works cl (infraNamespaceOrDefault (in_Namespace i))
     (case in_ServiceAccount i of Some sa \<Rightarrow> if sa \<noteq> [] then sa else ''argo-chaos'' | None \<Rightarrow> ''argo-chaos'')"

definition preflightInfraRBAC :: "(call \<Rightarrow> bool) \<Rightarrow> bool \<Rightarrow> infra option \<Rightarrow> cluster \<Rightarrow> rbac_error option \<times> cluster" where
  "preflightInfraRBAC works client maybe_infra cl0 = (case maybe_infra of None \<Rightarrow> (Some NoInfra, cl0) | Some i \<Rightarrow>
     let ns = infraNamespaceOrDefault (in_Namespace i) in
     if \<not> client then (Some NoClient, cl0)
     else (let account = workflow_account works i cl0; cl = snd (ensureDynamicAppHelmRBAC works ns account cl0) in
       if \<not> works ListClusterRoleBindings then (Some (CallFailed ListClusterRoleBindings), cl)
       else (let crbs = map snd (cl_ClusterRoleBindings cl);
                 rbs = (if works (ListRoleBindings ns) then map snd (filter (\<lambda>e. fst (fst e) = ns) (cl_RoleBindings cl)) else []);
                 clusterRoles = bound_names ''ClusterRole'' ns account (crbs @ rbs);
                 roles = bound_names ''Role'' ns account (crbs @ rbs) in
         if clusterRoles = [] \<and> roles = [] then (Some NoBindingFound, cl)
         else (let remaining = remaining_after (\<lambda>n. if works (GetClusterRole n) then map_of (cl_ClusterRoles cl) n else None) clusterRoles
                     (remaining_after (\<lambda>n. if works (GetRole ns n) then map_of (cl_Roles cl) (ns, n) else None) roles
                       dynamicAppHelmRBACRequirements)
           in (if remaining = [] then None else Some (MissingPermissions remaining), cl)))))"

definition staleChaosAdminRBAC :: "policy_rule list \<Rightarrow> policy_rule list \<Rightarrow> rbac_error option" where
  "staleChaosAdminRBAC want have =
     (let missing = rulesSatisfyRequirements have (requirementsOf want) in
      if missing = [] then None
      else Some (OutOfDate (take 8 (map formatRequirement missing)) (length missing)))"

text \<open>The rules shipped for a role: the manifest is read (or cannot be), its placeholder filled in, and the first of
  its documents that decodes to the role is taken; decoding YAML is an argument.\<close>

record role_doc =
  rd_Kind :: string
  rd_Name :: string
  rd_Rules :: "policy_rule list"

definition expectedClusterRoleRules ::
  "(string \<Rightarrow> string option) \<Rightarrow> (string \<Rightarrow> role_doc option) \<Rightarrow> string \<Rightarrow> string \<Rightarrow> string \<Rightarrow> policy_rule list option" where
  "expectedClusterRoleRules read decode path roleName infraNamespace = (case read path of None \<Rightarrow> None | Some content \<Rightarrow>
     map_option rd_Rules (List.find (\<lambda>r. rd_Kind r = ''ClusterRole'' \<and> rd_Name r = roleName)
       (List.map_filter decode (Split (ReplaceAll content ''#{INFRA_NAMESPACE}'' infraNamespace) ([CHR 0x0A] @ ''---'')))))"

definition preflightChaosServiceAccountRBAC ::
  "(call \<Rightarrow> bool) \<Rightarrow> (string \<Rightarrow> string option) \<Rightarrow> (string \<Rightarrow> role_doc option) \<Rightarrow> string \<Rightarrow> infra option \<Rightarrow> cluster \<Rightarrow> rbac_error option" where
  "preflightChaosServiceAccountRBAC works read decode manifestPath maybe_infra cl = (case maybe_infra of None \<Rightarrow> None | Some i \<Rightarrow>
     if in_Scope i \<noteq> ''cluster'' then None
     else (let ns = infraNamespaceOrDefault (in_Namespace i) in
       case expectedClusterRoleRules read decode manifestPath ''litmus-admin-cluster-role'' ns of None \<Rightarrow> None | Some want \<Rightarrow>
       if \<not> works ListClusterRoleBindings then None
       else staleChaosAdminRBAC want (concat (map
              (\<lambda>n. if works (GetClusterRole n) then (case map_of (cl_ClusterRoles cl) n of None \<Rightarrow> [] | Some rules \<Rightarrow> rules) else [])
              (bound_names ''ClusterRole'' ns ''litmus-admin'' (map snd (cl_ClusterRoleBindings cl)))))))"

definition preflightSingleNodeFaults ::
  "(call \<Rightarrow> bool) \<Rightarrow> string \<Rightarrow> catalog option \<Rightarrow> string list \<Rightarrow> cluster \<Rightarrow> rbac_error option" where
  "preflightSingleNodeFaults works env c faults cl =
     (if EqualFold (TrimSpace env) ''true'' then None
      else (case c of None \<Rightarrow> None | Some _ \<Rightarrow>
        (let dangerous = filter (\<lambda>n. case Lookup c n of None \<Rightarrow> False | Some f \<Rightarrow> f_SingleNodeDanger f) faults in
         if dangerous = [] \<or> \<not> works ListNodes \<or> cl_Nodes cl > 1 then None else Some (SingleNode (sort dangerous)))))"

text \<open>The faults are those the workflow names, absent when it does not decode.\<close>

definition preflightChaosTargets ::
  "(call \<Rightarrow> bool) \<Rightarrow> (string \<Rightarrow> string option) \<Rightarrow> (string \<Rightarrow> role_doc option) \<Rightarrow> bool \<Rightarrow> string \<Rightarrow> catalog option \<Rightarrow>
   infra option \<Rightarrow> string list option \<Rightarrow> cluster \<Rightarrow> rbac_error option" where
  "preflightChaosTargets works read decode client env c maybe_infra faults cl = (case faults of None \<Rightarrow> None | Some fs \<Rightarrow>
     if fs = [] \<or> \<not> client then None
     else (case preflightChaosServiceAccountRBAC works read decode ''manifests/cluster/2b_litmus_admin_rbac.yaml'' maybe_infra cl of
       Some err \<Rightarrow> Some err | None \<Rightarrow> preflightSingleNodeFaults works env c fs cl))"

section \<open>The sandbox of one run\<close>

definition perExperimentChaosRoleName :: string where "perExperimentChaosRoleName = ''ace-per-experiment-chaos-runner''"
definition perExperimentChaosRBACNameBase :: string where "perExperimentChaosRBACNameBase = ''ace-chaos-runner''"

definition perExperimentChaosRBACLabels :: "string \<Rightarrow> (string \<times> string) list" where
  "perExperimentChaosRBACLabels account = [(''app.kubernetes.io/managed-by'', ''agentcert''),
     (''agentcert.io/rbac-scope'', ''experiment-run''), (''agentcert.io/chaos-sa'', account)]"

definition rule_of :: "string list \<Rightarrow> string list \<Rightarrow> string list \<Rightarrow> policy_rule" where
  "rule_of groups resources verbs = \<lparr>pr_APIGroups = groups, pr_Resources = resources, pr_Verbs = verbs, pr_ResourceNames = []\<rparr>"

definition perExperimentChaosRules :: "policy_rule list" where
  "perExperimentChaosRules = [
     rule_of ['''', ''apps'', ''batch'', ''extensions'', ''litmuschaos.io'']
       [''pods'', ''pods/exec'', ''pods/eviction'', ''jobs'', ''cronjobs'', ''events'', ''chaosresults'', ''chaosengines'']
       [''create'', ''delete'', ''get'', ''list'', ''patch'', ''update'', ''deletecollection'', ''watch''],
     rule_of [''litmuschaos.io''] [''chaosexperiments''] [''create'', ''list'', ''get'', ''patch'', ''update'', ''delete''],
     rule_of [''''] [''pods/log'', ''pods/status''] [''get'', ''list'', ''watch''],
     rule_of [''''] [''pods/ephemeralcontainers''] [''get'', ''patch'', ''update''],
     rule_of [''''] [''configmaps''] [''create'', ''get'', ''list'', ''patch''],
     rule_of [''''] [''services''] [''create'', ''get'', ''list'', ''delete'', ''patch'', ''update''],
     rule_of [''''] [''endpoints''] [''create'', ''get'', ''list'', ''patch'', ''update''],
     rule_of [''''] [''serviceaccounts'', ''secrets''] [''create'', ''get'', ''list'', ''delete'', ''patch''],
     rule_of [''''] [''resourcequotas''] [''create'', ''delete'', ''get'', ''list'', ''patch'', ''update''],
     rule_of [''apps''] [''deployments'', ''statefulsets'', ''replicasets'', ''daemonsets'']
       [''create'', ''get'', ''list'', ''delete'', ''patch'', ''update'', ''watch''],
     rule_of [''apps''] [''deployments/scale'', ''deployments/rollback'', ''statefulsets/scale''] [''get'', ''list'', ''patch'', ''update''],
     rule_of [''autoscaling''] [''horizontalpodautoscalers''] [''get'', ''list'', ''patch'', ''update''],
     rule_of [''networking.k8s.io''] [''networkpolicies''] [''create'', ''delete'', ''get'', ''list''],
     rule_of [''''] [''persistentvolumeclaims''] [''create'', ''get'', ''list'', ''delete'', ''patch'', ''update'']]"

text \<open>Get; create when it is not there; fail on any other error; update otherwise.\<close>

definition put_strict :: "bool \<Rightarrow> bool \<Rightarrow> bool \<Rightarrow> 'k \<Rightarrow> 'v \<Rightarrow> ('k \<times> 'v) list \<Rightarrow> ('k \<times> 'v) list option" where
  "put_strict get create update key v objs =
     (if \<not> get then None
      else if map_of objs key = None then (if create then Some (objs @ [(key, v)]) else None)
      else (if update then Some (AList.update key v objs) else None))"

definition run_binding_name :: "string \<Rightarrow> string" where
  "run_binding_name account = cut63 (perExperimentChaosRBACNameBase @ ''-'' @ account)"

definition run_binding :: "string \<Rightarrow> string \<Rightarrow> binding" where
  "run_binding infraNamespace account = \<lparr>bd_Labels = perExperimentChaosRBACLabels account,
     bd_Subjects = [account_subject infraNamespace account], bd_RefKind = ''ClusterRole'', bd_RefName = perExperimentChaosRoleName\<rparr>"

definition bind_namespace :: "(call \<Rightarrow> bool) \<Rightarrow> string \<Rightarrow> string \<Rightarrow> string \<Rightarrow> cluster \<Rightarrow> bool \<times> cluster" where
  "bind_namespace works infraNamespace account ns cl0 =
     (let name = run_binding_name account in
      if \<not> works (GetNamespace ns) then (False, cl0)
      else if \<not> List.member (cl_Namespaces cl0) ns \<and> \<not> works (CreateNamespace ns) then (False, cl0)
      else (let cl = (if List.member (cl_Namespaces cl0) ns then cl0 else cl0\<lparr>cl_Namespaces := cl_Namespaces cl0 @ [ns]\<rparr>) in
        case put_strict (works (GetRoleBinding ns name)) (works (CreateRoleBinding ns name)) (works (UpdateRoleBinding ns name))
               (ns, name) (run_binding infraNamespace account) (cl_RoleBindings cl) of
          None \<Rightarrow> (False, cl)
        | Some bs \<Rightarrow> (True, cl\<lparr>cl_RoleBindings := bs\<rparr>)))"

fun bind_namespaces :: "(call \<Rightarrow> bool) \<Rightarrow> string \<Rightarrow> string \<Rightarrow> string list \<Rightarrow> cluster \<Rightarrow> bool \<times> cluster" where
  "bind_namespaces works infraNamespace account [] cl = (True, cl)"
| "bind_namespaces works infraNamespace account (ns # nss) cl = (case bind_namespace works infraNamespace account ns cl of
     (False, cl') \<Rightarrow> (False, cl') | (True, cl') \<Rightarrow> bind_namespaces works infraNamespace account nss cl')"

definition ensurePerExperimentChaosRBAC :: "(call \<Rightarrow> bool) \<Rightarrow> string \<Rightarrow> string \<Rightarrow> string list \<Rightarrow> cluster \<Rightarrow> bool \<times> cluster" where
  "ensurePerExperimentChaosRBAC works infraNamespace account targetNamespaces cl =
     (case put_strict (works (GetClusterRole perExperimentChaosRoleName)) (works (CreateClusterRole perExperimentChaosRoleName))
             (works (UpdateClusterRole perExperimentChaosRoleName)) perExperimentChaosRoleName perExperimentChaosRules (cl_ClusterRoles cl) of
        None \<Rightarrow> (False, cl)
      | Some roles \<Rightarrow> (case put_strict (works (GetServiceAccount infraNamespace account)) (works (CreateServiceAccount infraNamespace account))
             (works (UpdateServiceAccount infraNamespace account)) (infraNamespace, account) (perExperimentChaosRBACLabels account)
             (cl_ServiceAccounts cl) of
          None \<Rightarrow> (False, cl\<lparr>cl_ClusterRoles := roles\<rparr>)
        | Some accounts \<Rightarrow> bind_namespaces works infraNamespace account (appendUniqueNonEmpty [infraNamespace] targetNamespaces)
             (cl\<lparr>cl_ClusterRoles := roles, cl_ServiceAccounts := accounts\<rparr>)))"

definition selected :: "string \<Rightarrow> binding \<Rightarrow> bool" where
  "selected account b = (map_of (bd_Labels b) ''agentcert.io/rbac-scope'' = Some ''experiment-run'' \<and>
     map_of (bd_Labels b) ''agentcert.io/chaos-sa'' = Some account)"

definition cleanupPerExperimentChaosRBAC :: "(call \<Rightarrow> bool) \<Rightarrow> string \<Rightarrow> string \<Rightarrow> cluster \<Rightarrow> cluster" where
  "cleanupPerExperimentChaosRBAC works infraNamespace account cl =
     (if account = [] then cl
      else cl\<lparr>cl_RoleBindings := (if works ListNamespaces
            then filter (\<lambda>((ns, name), b). \<not> (List.member (cl_Namespaces cl) ns \<and> works (ListRoleBindings ns) \<and> selected account b \<and>
                   works (DeleteRoleBinding ns name))) (cl_RoleBindings cl)
            else cl_RoleBindings cl),
          cl_ServiceAccounts := (if works (DeleteServiceAccount infraNamespace account)
            then filter (\<lambda>(k, _). k \<noteq> (infraNamespace, account)) (cl_ServiceAccounts cl) else cl_ServiceAccounts cl)\<rparr>)"

section \<open>Facts about rules and stores\<close>

lemma rulesSatisfy_member:
  "req \<in> set (rulesSatisfyRequirements rules reqs) \<longleftrightarrow> req \<in> set reqs \<and> \<not> (\<exists>rule \<in> set rules. policyRuleAllows rule req)"
  by (auto simp: rulesSatisfyRequirements_def list_ex_iff)

lemma requirementsOf_member:
  "req \<in> set (requirementsOf rules) \<longleftrightarrow> (\<exists>rule \<in> set rules. pr_ResourceNames rule = [] \<and>
     rq_APIGroup req \<in> set (pr_APIGroups rule) \<and> rq_Resource req \<in> set (pr_Resources rule) \<and> rq_Verb req \<in> set (pr_Verbs rule))"
  by (cases req) (auto simp: requirementsOf_def split: if_splits)

lemma remaining_member:
  "req \<in> set (remaining_after read names reqs) \<longleftrightarrow> req \<in> set reqs \<and>
     \<not> (\<exists>n \<in> set names. \<exists>rules. read n = Some rules \<and> (\<exists>rule \<in> set rules. policyRuleAllows rule req))"
proof (induction names arbitrary: reqs)
  case (Cons n names)
  show ?case
  proof (cases "read n")
    case None
    then have "remaining_after read (n # names) reqs = remaining_after read names reqs" by (simp add: remaining_after_def)
    then show ?thesis using None Cons.IH by auto
  next
    case (Some rules)
    then have "remaining_after read (n # names) reqs = remaining_after read names (rulesSatisfyRequirements rules reqs)"
      by (simp add: remaining_after_def)
    then show ?thesis using Some Cons.IH by (auto simp: rulesSatisfy_member)
  qed
qed (simp add: remaining_after_def)

lemma put_works:
  "\<exists>objs'. put True True True key v objs = Some objs' \<and> map_of objs' key = Some v \<and>
     (\<forall>k. k \<noteq> key \<longrightarrow> map_of objs' k = map_of objs k)"
  by (auto simp: put_def map_add_def update_conv split: option.split)

lemma map_of_in: "map_of objs k = Some v \<Longrightarrow> v \<in> set (map snd objs)"
  by (force dest: map_of_SomeD)

text \<open>The check of the chaos administrator is exact: it passes when and only when every combination of
  API group, resource and verb that a rule of the shipped role (one not limited to resource names) grants
  is allowed by some rule the account has; otherwise the report counts the missing permissions and names
  at most eight of them.\<close>

theorem admin_check_exact:
  "case staleChaosAdminRBAC want have of
     None \<Rightarrow> \<forall>w \<in> set want. pr_ResourceNames w = [] \<longrightarrow>
       (\<forall>g \<in> set (pr_APIGroups w). \<forall>r \<in> set (pr_Resources w). \<forall>v \<in> set (pr_Verbs w).
         \<exists>h \<in> set have. policyRuleAllows h \<lparr>rq_APIGroup = g, rq_Resource = r, rq_Verb = v\<rparr>)
   | Some err \<Rightarrow> \<exists>names n. err = OutOfDate names n \<and> 0 < n \<and> length names = min 8 n \<and>
       (\<exists>w \<in> set want. pr_ResourceNames w = [] \<and>
         (\<exists>g \<in> set (pr_APIGroups w). \<exists>r \<in> set (pr_Resources w). \<exists>v \<in> set (pr_Verbs w).
           \<not> (\<exists>h \<in> set have. policyRuleAllows h \<lparr>rq_APIGroup = g, rq_Resource = r, rq_Verb = v\<rparr>)))"
proof -
  let ?missing = "rulesSatisfyRequirements have (requirementsOf want)"
  have m: "?missing = [] \<longleftrightarrow> (\<forall>w \<in> set want. pr_ResourceNames w = [] \<longrightarrow>
       (\<forall>g \<in> set (pr_APIGroups w). \<forall>r \<in> set (pr_Resources w). \<forall>v \<in> set (pr_Verbs w).
         \<exists>h \<in> set have. policyRuleAllows h \<lparr>rq_APIGroup = g, rq_Resource = r, rq_Verb = v\<rparr>))"
  proof -
    have "?missing = [] \<longleftrightarrow> (\<forall>req. req \<notin> set ?missing)" by (metis list.set_intros(1) neq_Nil_conv empty_iff list.set(1))
    also have "\<dots> \<longleftrightarrow> (\<forall>req. req \<in> set (requirementsOf want) \<longrightarrow> (\<exists>h \<in> set have. policyRuleAllows h req))"
      by (auto simp: rulesSatisfy_member)
    also have "\<dots> \<longleftrightarrow> (\<forall>g r v. \<lparr>rq_APIGroup = g, rq_Resource = r, rq_Verb = v\<rparr> \<in> set (requirementsOf want) \<longrightarrow>
        (\<exists>h \<in> set have. policyRuleAllows h \<lparr>rq_APIGroup = g, rq_Resource = r, rq_Verb = v\<rparr>))"
      by (metis rbacRequirement.cases)
    finally show ?thesis unfolding requirementsOf_member rbacRequirement.simps by blast
  qed
  show ?thesis
  proof (cases "?missing = []")
    case True
    then show ?thesis using m by (simp add: staleChaosAdminRBAC_def)
  next
    case False
    then show ?thesis using m by (auto simp: staleChaosAdminRBAC_def Let_def)
  qed
qed

section \<open>Remediation\<close>

lemma dynamic_rules_suffice: "remaining_after read names reqs = []"
  if "dynamic_role \<in> set names" "read dynamic_role = Some dynamic_rules" "set reqs \<subseteq> set dynamicAppHelmRBACRequirements"
proof -
  have "\<forall>req \<in> set dynamicAppHelmRBACRequirements. \<exists>rule \<in> set dynamic_rules. policyRuleAllows rule req"
    by (simp add: dynamicAppHelmRBACRequirements_def dynamic_rules_def core_rule_def policyRuleAllows_def containsWithWildcard_def)
  then have "req \<notin> set (remaining_after read names reqs)" for req
    using that unfolding remaining_member by blast
  then show ?thesis by (meson last_in_set)
qed

lemma remaining_after_subset: "set (remaining_after read names reqs) \<subseteq> set reqs"
  by (auto simp: remaining_member)

lemma ensured:
  assumes "\<And>c. works c"
  shows "\<exists>roles bindings. ensureDynamicAppHelmRBAC works ns account cl =
       (True, cl\<lparr>cl_ClusterRoles := roles, cl_ClusterRoleBindings := bindings\<rparr>) \<and>
     map_of roles dynamic_role = Some dynamic_rules \<and> (\<forall>k. k \<noteq> dynamic_role \<longrightarrow> map_of roles k = map_of (cl_ClusterRoles cl) k) \<and>
     map_of bindings (dynamic_binding ns account) = Some \<lparr>bd_Labels = [], bd_Subjects = [account_subject ns account],
       bd_RefKind = ''ClusterRole'', bd_RefName = dynamic_role\<rparr> \<and>
     (\<forall>k. k \<noteq> dynamic_binding ns account \<longrightarrow> map_of bindings k = map_of (cl_ClusterRoleBindings cl) k)"
proof -
  obtain roles where r: "put True True True dynamic_role dynamic_rules (cl_ClusterRoles cl) = Some roles"
      "map_of roles dynamic_role = Some dynamic_rules" "\<forall>k. k \<noteq> dynamic_role \<longrightarrow> map_of roles k = map_of (cl_ClusterRoles cl) k"
    using put_works by metis
  let ?b = "\<lparr>bd_Labels = [], bd_Subjects = [account_subject ns account], bd_RefKind = ''ClusterRole'', bd_RefName = dynamic_role\<rparr>"
  obtain bindings where b: "put True True True (dynamic_binding ns account) ?b (cl_ClusterRoleBindings cl) = Some bindings"
      "map_of bindings (dynamic_binding ns account) = Some ?b"
      "\<forall>k. k \<noteq> dynamic_binding ns account \<longrightarrow> map_of bindings k = map_of (cl_ClusterRoleBindings cl) k"
    using put_works by metis
  show ?thesis
    by (rule exI [of _ roles], rule exI [of _ bindings]) (use r b assms in \<open>simp add: ensureDynamicAppHelmRBAC_def Let_def\<close>)
qed

lemma bound_in:
  "b \<in> set bs \<Longrightarrow> bd_RefKind b = kind \<Longrightarrow> granted_to namespace account b \<Longrightarrow> bd_RefName b \<in> set (bound_names kind namespace account bs)"
  by (auto simp: bound_names_def)

text \<open>C39. The check of a run's account repairs what it checks: when the calls of the Kubernetes API work, the
  check passes, and afterwards the account that runs the workflow is bound to the role for dynamic
  applications, whose rules are the wanted ones whatever they were before. The other cluster roles and
  cluster bindings, and all that is namespaced, are as before.\<close>

theorem remediation_suffices:
  assumes "\<And>c. works c"
  shows "let ns = infraNamespaceOrDefault (in_Namespace i); account = workflow_account works i cl;
             cl' = snd (preflightInfraRBAC works True (Some i) cl) in
     fst (preflightInfraRBAC works True (Some i) cl) = None \<and>
     map_of (cl_ClusterRoles cl') dynamic_role = Some dynamic_rules \<and>
     (\<exists>b. map_of (cl_ClusterRoleBindings cl') (dynamic_binding ns account) = Some b \<and> granted_to ns account b \<and>
        bd_RefKind b = ''ClusterRole'' \<and> bd_RefName b = dynamic_role) \<and>
     (\<forall>k. k \<noteq> dynamic_role \<longrightarrow> map_of (cl_ClusterRoles cl') k = map_of (cl_ClusterRoles cl) k) \<and>
     (\<forall>k. k \<noteq> dynamic_binding ns account \<longrightarrow> map_of (cl_ClusterRoleBindings cl') k = map_of (cl_ClusterRoleBindings cl) k) \<and>
     cl' = cl\<lparr>cl_ClusterRoles := cl_ClusterRoles cl', cl_ClusterRoleBindings := cl_ClusterRoleBindings cl'\<rparr>"
proof -
  define ns where "ns = infraNamespaceOrDefault (in_Namespace i)"
  define account where "account = workflow_account works i cl"
  let ?b = "\<lparr>bd_Labels = [], bd_Subjects = [account_subject ns account], bd_RefKind = ''ClusterRole'', bd_RefName = dynamic_role\<rparr>"
  obtain roles bindings where e: "ensureDynamicAppHelmRBAC works ns account cl =
       (True, cl\<lparr>cl_ClusterRoles := roles, cl_ClusterRoleBindings := bindings\<rparr>)"
     "map_of roles dynamic_role = Some dynamic_rules" "\<forall>k. k \<noteq> dynamic_role \<longrightarrow> map_of roles k = map_of (cl_ClusterRoles cl) k"
     "map_of bindings (dynamic_binding ns account) = Some ?b"
     "\<forall>k. k \<noteq> dynamic_binding ns account \<longrightarrow> map_of bindings k = map_of (cl_ClusterRoleBindings cl) k"
    using ensured [of works ns account cl, OF assms] by (elim exE conjE) (rule that)
  have g: "granted_to ns account ?b" by (simp add: granted_to_def account_subject_def)
  have d: "dynamic_role \<in> set (bound_names ''ClusterRole'' ns account (map snd bindings @ rbs))" for rbs
    using bound_in [of ?b "map snd bindings @ rbs" "''ClusterRole''" ns account] map_of_in [OF e(4)] g by simp
  have r: "remaining_after (map_of roles) (bound_names ''ClusterRole'' ns account (map snd bindings @ rbs))
      (remaining_after read names dynamicAppHelmRBACRequirements) = []" for rbs read names
    using d e(2) remaining_after_subset by (rule dynamic_rules_suffice)
  have n: "bound_names ''ClusterRole'' ns account (map snd bindings @ rbs) \<noteq> []" for rbs using d [of rbs] by auto
  have "preflightInfraRBAC works True (Some i) cl = (None, cl\<lparr>cl_ClusterRoles := roles, cl_ClusterRoleBindings := bindings\<rparr>)"
    unfolding preflightInfraRBAC_def option.case Let_def ns_def [symmetric] account_def [symmetric] e(1) snd_conv
    by (simp add: assms n r del: map_append)
  then show ?thesis using e g by (simp add: Let_def ns_def [symmetric] account_def [symmetric])
qed

section \<open>The sandbox of a run leaves nothing behind\<close>

lemma appendUnique_distinct: "distinct (appendUniqueNonEmpty vs others)"
proof -
  have "distinct acc \<Longrightarrow> distinct (foldl (\<lambda>uniq v. let v = TrimSpace v in if v = [] \<or> List.member uniq v then uniq else uniq @ [v]) acc xs)" for acc xs
    by (induction xs arbitrary: acc) (auto simp: Let_def)
  then show ?thesis by (simp add: appendUniqueNonEmpty_def)
qed

lemma run_binding_facts:
  "selected account (run_binding infraNamespace account)" "granted_to infraNamespace account (run_binding infraNamespace account)"
  by (simp_all add: selected_def run_binding_def perExperimentChaosRBACLabels_def granted_to_def account_subject_def)

lemma bind_namespace_adds:
  assumes "bind_namespace works infraNamespace account ns cl = (ok, cl')"
    and "map_of (cl_RoleBindings cl) (ns, run_binding_name account) = None"
  shows "cl_RoleBindings cl' = cl_RoleBindings cl @ (if ok then [((ns, run_binding_name account), run_binding infraNamespace account)] else [])"
    and "ok \<Longrightarrow> ns \<in> set (cl_Namespaces cl')" and "set (cl_Namespaces cl) \<subseteq> set (cl_Namespaces cl')"
    and "cl_ServiceAccounts cl' = cl_ServiceAccounts cl" and "cl_ClusterRoles cl' = cl_ClusterRoles cl"
  using assms by (auto simp: bind_namespace_def put_strict_def run_binding_def Let_def split: if_splits)

lemma bind_namespaces_adds:
  assumes "bind_namespaces works infraNamespace account nss cl = (ok, cl')" "distinct nss"
    and "\<forall>ns \<in> set nss. map_of (cl_RoleBindings cl) (ns, run_binding_name account) = None"
  shows "\<exists>bound. set bound \<subseteq> set nss \<and> (ok \<longrightarrow> bound = nss) \<and> set bound \<subseteq> set (cl_Namespaces cl') \<and>
     cl_RoleBindings cl' = cl_RoleBindings cl @ map (\<lambda>ns. ((ns, run_binding_name account), run_binding infraNamespace account)) bound \<and>
     cl_ServiceAccounts cl' = cl_ServiceAccounts cl \<and> cl_ClusterRoles cl' = cl_ClusterRoles cl \<and>
     set (cl_Namespaces cl) \<subseteq> set (cl_Namespaces cl')"
  using assms
proof (induction nss arbitrary: cl)
  case Nil
  then show ?case by (intro exI [of _ "[]"]) simp
next
  case (Cons ns nss)
  obtain ok1 cl1 where one: "bind_namespace works infraNamespace account ns cl = (ok1, cl1)" by fastforce
  have "map_of (cl_RoleBindings cl) (ns, run_binding_name account) = None" using Cons.prems by simp
  note f = bind_namespace_adds [OF one this]
  show ?case
  proof (cases ok1)
    case False
    then have "ok = False" "cl' = cl1" using Cons.prems(1) one by simp_all
    then show ?thesis using f False by (intro exI [of _ "[]"]) simp
  next
    case True
    then have "bind_namespaces works infraNamespace account nss cl1 = (ok, cl')" using Cons.prems(1) one by simp
    moreover have "\<forall>n \<in> set nss. map_of (cl_RoleBindings cl1) (n, run_binding_name account) = None"
      using Cons.prems f(1) True by (auto simp: map_add_def)
    ultimately obtain bound where b: "set bound \<subseteq> set nss" "ok \<longrightarrow> bound = nss" "set bound \<subseteq> set (cl_Namespaces cl')"
        "cl_RoleBindings cl' = cl_RoleBindings cl1 @ map (\<lambda>ns. ((ns, run_binding_name account), run_binding infraNamespace account)) bound"
        "cl_ServiceAccounts cl' = cl_ServiceAccounts cl1" "cl_ClusterRoles cl' = cl_ClusterRoles cl1"
        "set (cl_Namespaces cl1) \<subseteq> set (cl_Namespaces cl')"
      using Cons.IH [of cl1] Cons.prems(2) by auto
    then show ?thesis using f True by (intro exI [of _ "ns # bound"]) auto
  qed
qed

text \<open>The sandbox of a run leaves nothing behind. Start from a cluster with neither the account of the run
  nor a binding of its name or labels, and let any of the calls that prepare the sandbox fail, at any
  point: the clean-up, when its own calls work, restores the role bindings and the service accounts exactly.
  And when the preparation succeeds, the account exists, the role has its rules and every target
  namespace, the run's own included, has a binding of it, in a namespace that exists.\<close>

theorem sandbox_leaves_nothing:
  assumes "account \<noteq> []" "map_of (cl_ServiceAccounts cl) (infraNamespace, account) = None"
    and "\<And>ns. map_of (cl_RoleBindings cl) (ns, run_binding_name account) = None"
    and "\<And>k b. (k, b) \<in> set (cl_RoleBindings cl) \<Longrightarrow> \<not> selected account b"
    and "\<And>c. works' c"
  shows "case ensurePerExperimentChaosRBAC works infraNamespace account targetNamespaces cl of (ok, cl1) \<Rightarrow>
     (let cl2 = cleanupPerExperimentChaosRBAC works' infraNamespace account cl1 in
        cl_RoleBindings cl2 = cl_RoleBindings cl \<and> cl_ServiceAccounts cl2 = cl_ServiceAccounts cl) \<and>
     (ok \<longrightarrow> map_of (cl_ServiceAccounts cl1) (infraNamespace, account) \<noteq> None \<and>
        map_of (cl_ClusterRoles cl1) perExperimentChaosRoleName = Some perExperimentChaosRules \<and>
        (\<forall>ns \<in> set (appendUniqueNonEmpty [infraNamespace] targetNamespaces). ns \<in> set (cl_Namespaces cl1) \<and>
          (\<exists>b. ((ns, run_binding_name account), b) \<in> set (cl_RoleBindings cl1) \<and> granted_to infraNamespace account b \<and>
             bd_RefName b = perExperimentChaosRoleName)))"
proof -
  let ?e = "\<lambda>ns. ((ns, run_binding_name account), run_binding infraNamespace account)"
  let ?nss = "appendUniqueNonEmpty [infraNamespace] targetNamespaces"
  obtain ok cl1 where e: "ensurePerExperimentChaosRBAC works infraNamespace account targetNamespaces cl = (ok, cl1)" by fastforce
  have keys: "filter (\<lambda>(k, _). k \<noteq> (infraNamespace, account)) (cl_ServiceAccounts cl) = cl_ServiceAccounts cl"
    using assms(2) by (force simp: filter_id_conv map_of_eq_None_iff)
  have shape: "\<exists>bound. set bound \<subseteq> set (cl_Namespaces cl1) \<and> cl_RoleBindings cl1 = cl_RoleBindings cl @ map ?e bound \<and>
      filter (\<lambda>(k, _). k \<noteq> (infraNamespace, account)) (cl_ServiceAccounts cl1) = cl_ServiceAccounts cl \<and>
      (ok \<longrightarrow> bound = ?nss \<and> map_of (cl_ServiceAccounts cl1) (infraNamespace, account) \<noteq> None \<and>
        map_of (cl_ClusterRoles cl1) perExperimentChaosRoleName = Some perExperimentChaosRules)"
  proof (cases "put_strict (works (GetClusterRole perExperimentChaosRoleName)) (works (CreateClusterRole perExperimentChaosRoleName))
      (works (UpdateClusterRole perExperimentChaosRoleName)) perExperimentChaosRoleName perExperimentChaosRules (cl_ClusterRoles cl)")
    case None
    then show ?thesis using e keys by (intro exI [of _ "[]"]) (simp add: ensurePerExperimentChaosRBAC_def)
  next
    case roles: (Some roles)
    then have role: "map_of roles perExperimentChaosRoleName = Some perExperimentChaosRules"
      by (auto simp: put_strict_def update_conv map_add_def split: if_splits)
    show ?thesis
    proof (cases "put_strict (works (GetServiceAccount infraNamespace account)) (works (CreateServiceAccount infraNamespace account))
        (works (UpdateServiceAccount infraNamespace account)) (infraNamespace, account) (perExperimentChaosRBACLabels account)
        (cl_ServiceAccounts cl)")
      case None
      then show ?thesis using e roles keys by (intro exI [of _ "[]"]) (auto simp: ensurePerExperimentChaosRBAC_def)
    next
      case (Some accounts)
      then have a: "accounts = cl_ServiceAccounts cl @ [((infraNamespace, account), perExperimentChaosRBACLabels account)]"
        using assms(2) by (auto simp: put_strict_def split: if_splits)
      have "bind_namespaces works infraNamespace account ?nss (cl\<lparr>cl_ClusterRoles := roles, cl_ServiceAccounts := accounts\<rparr>) = (ok, cl1)"
        using e roles Some by (simp add: ensurePerExperimentChaosRBAC_def)
      from bind_namespaces_adds [OF this appendUnique_distinct] obtain bound where
        "ok \<longrightarrow> bound = ?nss" "set bound \<subseteq> set (cl_Namespaces cl1)" "cl_RoleBindings cl1 = cl_RoleBindings cl @ map ?e bound"
        "cl_ServiceAccounts cl1 = accounts" "cl_ClusterRoles cl1 = roles"
        using assms(3) by auto
      then show ?thesis using a role keys assms(2) by (intro exI [of _ bound]) (simp add: map_add_def)
    qed
  qed
  then obtain bound where b: "set bound \<subseteq> set (cl_Namespaces cl1)" "cl_RoleBindings cl1 = cl_RoleBindings cl @ map ?e bound"
      "filter (\<lambda>(k, _). k \<noteq> (infraNamespace, account)) (cl_ServiceAccounts cl1) = cl_ServiceAccounts cl"
      "ok \<longrightarrow> bound = ?nss \<and> map_of (cl_ServiceAccounts cl1) (infraNamespace, account) \<noteq> None \<and>
        map_of (cl_ClusterRoles cl1) perExperimentChaosRoleName = Some perExperimentChaosRules" by blast
  have others: "filter (\<lambda>((ns, name), b). ns \<in> set (cl_Namespaces cl1) \<longrightarrow> \<not> selected account b) (cl_RoleBindings cl) = cl_RoleBindings cl"
    using assms(4) by (auto simp: filter_id_conv)
  have own: "filter (\<lambda>((ns, name), b). ns \<in> set (cl_Namespaces cl1) \<longrightarrow> \<not> selected account b) (map ?e bound) = []"
    using b(1) run_binding_facts by (auto simp: filter_empty_conv)
  have "\<forall>ns \<in> set bound. \<exists>b. ((ns, run_binding_name account), b) \<in> set (cl_RoleBindings cl1) \<and> granted_to infraNamespace account b \<and>
      bd_RefName b = perExperimentChaosRoleName"
    using b(2) run_binding_facts by (auto simp: run_binding_def image_iff)
  moreover have "cl_RoleBindings (cleanupPerExperimentChaosRBAC works' infraNamespace account cl1) = cl_RoleBindings cl"
    using assms(1,5) others own b(2) by (simp add: cleanupPerExperimentChaosRBAC_def)
  moreover have "cl_ServiceAccounts (cleanupPerExperimentChaosRBAC works' infraNamespace account cl1) = cl_ServiceAccounts cl"
    using assms(1,5) b(3) by (simp add: cleanupPerExperimentChaosRBAC_def)
  ultimately show ?thesis using e b(1,4) by (auto simp: Let_def)
qed

section \<open>Concrete clusters\<close>

text \<open>A cluster whose dynamic role is stale and whose only account is bound to nothing.\<close>

definition stale_cluster :: cluster where
  "stale_cluster = \<lparr>cl_ClusterRoles = [(''litmus-dynamic-app-helm'', [core_rule [''namespaces''] [''create'']])], cl_Roles = [],
     cl_ClusterRoleBindings = [], cl_RoleBindings = [], cl_ServiceAccounts = [((''litmus'', ''argo''), [])],
     cl_Namespaces = [''litmus''], cl_WorkflowSA = [(''litmus'', '' argo '')], cl_Nodes = 1\<rparr>"

theorem admin_check_exact_witness:
  "staleChaosAdminRBAC [core_rule [''pods'', ''secrets''] [''get'']] [core_rule [''pods''] [''*'']] = Some (OutOfDate [''get secrets''] 1) \<and>
   \<not> (\<exists>h \<in> set [core_rule [''pods''] [''*'']]. policyRuleAllows h \<lparr>rq_APIGroup = '''', rq_Resource = ''secrets'', rq_Verb = ''get''\<rparr>)"
proof -
  let ?want = "[core_rule [''pods'', ''secrets''] [''get'']]" and ?have = "[core_rule [''pods''] [''*'']]"
  have e: "staleChaosAdminRBAC ?want ?have = Some (OutOfDate [''get secrets''] 1)" by code_simp
  from admin_check_exact [of ?want ?have]
  have "\<exists>r \<in> {''pods'', ''secrets''}. \<not> (\<exists>h \<in> set ?have. policyRuleAllows h \<lparr>rq_APIGroup = '''', rq_Resource = r, rq_Verb = ''get''\<rparr>)"
    unfolding e by (simp add: core_rule_def)
  then show ?thesis using e by (auto simp: policyRuleAllows_def containsWithWildcard_def core_rule_def)
qed

theorem remediation_suffices_witness:
  "fst (preflightInfraRBAC (\<lambda>_. True) True (Some \<lparr>in_Name = ''i'', in_Scope = ''cluster'', in_Namespace = None, in_ServiceAccount = None\<rparr>)
     stale_cluster) = None"
  using remediation_suffices [of "\<lambda>_. True" "\<lparr>in_Name = ''i'', in_Scope = ''cluster'', in_Namespace = None, in_ServiceAccount = None\<rparr>" stale_cluster]
  by (simp add: Let_def)

theorem sandbox_leaves_nothing_witness:
  "let works = (\<lambda>c. c \<noteq> CreateRoleBinding ''boutique'' ''ace-chaos-runner-ace-chaos-r1'');
       (ok, cl1) = ensurePerExperimentChaosRBAC works ''litmus'' ''ace-chaos-r1'' [''shop'', ''boutique''] stale_cluster;
       cl2 = cleanupPerExperimentChaosRBAC (\<lambda>_. True) ''litmus'' ''ace-chaos-r1'' cl1 in
     cl_RoleBindings cl2 = [] \<and> cl_ServiceAccounts cl2 = [((''litmus'', ''argo''), [])]"
  using sandbox_leaves_nothing [where account = "''ace-chaos-r1''" and cl = stale_cluster and infraNamespace = "''litmus''"
      and works' = "\<lambda>_. True" and works = "\<lambda>c. c \<noteq> CreateRoleBinding ''boutique'' ''ace-chaos-runner-ace-chaos-r1''"
      and targetNamespaces = "[''shop'', ''boutique'']"]
  by (simp add: stale_cluster_def Let_def split: prod.splits)

text \<open>That preparation did fail at its last call, after it made the account and two bindings.\<close>

lemma sandbox_partial:
  "let (ok, cl1) = ensurePerExperimentChaosRBAC (\<lambda>c. c \<noteq> CreateRoleBinding ''boutique'' ''ace-chaos-runner-ace-chaos-r1'')
       ''litmus'' ''ace-chaos-r1'' [''shop'', ''boutique''] stale_cluster in
     \<not> ok \<and> length (cl_RoleBindings cl1) = 2 \<and> length (cl_ServiceAccounts cl1) = 2 \<and> cl_Namespaces cl1 = [''litmus'', ''shop'', ''boutique'']"
  by code_simp

text \<open>The name of the binding joins its parts with dashes, which they may contain: two accounts can share it, and
  the second takes the first one's grant.\<close>

lemma dynamic_bindings_collide:
  "dynamic_binding ''a'' ''b-c'' = dynamic_binding ''a-b'' ''c''"
  "let cl1 = snd (ensureDynamicAppHelmRBAC (\<lambda>_. True) ''a'' ''b-c'' stale_cluster);
       cl2 = snd (ensureDynamicAppHelmRBAC (\<lambda>_. True) ''a-b'' ''c'' cl1) in
     list_ex (granted_to ''a'' ''b-c'') (map snd (cl_ClusterRoleBindings cl1)) \<and>
     \<not> list_ex (granted_to ''a'' ''b-c'') (map snd (cl_ClusterRoleBindings cl2))"
  by code_simp+

text \<open>A rule for one named secret counts as a rule for all of them.\<close>

lemma resource_names_ignored:
  "rulesSatisfyRequirements [\<lparr>pr_APIGroups = [''''], pr_Resources = [''secrets''], pr_Verbs = [''get''], pr_ResourceNames = [''one'']\<rparr>]
     [\<lparr>rq_APIGroup = '''', rq_Resource = ''secrets'', rq_Verb = ''get''\<rparr>] = []"
  by code_simp

text \<open>A binding within the infrastructure's namespace counts as a grant in every namespace: here the account
  holds the wanted rules in \<^verbatim>\<open>litmus\<close> alone, the repair failed, and the check passes.\<close>

lemma namespaced_grant_passes:
  "fst (preflightInfraRBAC (\<lambda>c. c \<noteq> UpdateClusterRole dynamic_role) True
     (Some \<lparr>in_Name = ''i'', in_Scope = ''cluster'', in_Namespace = None, in_ServiceAccount = None\<rparr>)
     (stale_cluster\<lparr>cl_Roles := [((''litmus'', ''r''), dynamic_rules)],
        cl_RoleBindings := [((''litmus'', ''b''), \<lparr>bd_Labels = [], bd_Subjects = [account_subject ''litmus'' ''argo''],
          bd_RefKind = ''Role'', bd_RefName = ''r''\<rparr>)]\<rparr>)) = None"
  by code_simp

text \<open>A node-level fault is refused exactly on a single node: with the nodes counted and no override set, the
  single-node check fails when and only when the catalog marks one of the run's faults as dangerous there and
  the cluster has at most one node; it then names just those faults.\<close>

theorem single_node_exact:
  assumes "works ListNodes" "\<not> EqualFold (TrimSpace env) ''true''"
  shows "case preflightSingleNodeFaults works env (Some cat) faults cl of
     None \<Rightarrow> cl_Nodes cl > 1 \<or> (\<forall>n \<in> set faults. \<forall>f. Lookup (Some cat) n = Some f \<longrightarrow> \<not> f_SingleNodeDanger f)
   | Some err \<Rightarrow> cl_Nodes cl \<le> 1 \<and> (\<exists>names. err = SingleNode names \<and> names \<noteq> [] \<and> sorted names \<and>
       set names = {n \<in> set faults. \<exists>f. Lookup (Some cat) n = Some f \<and> f_SingleNodeDanger f})"
proof -
  define d where "d = filter (\<lambda>n. case Lookup (Some cat) n of None \<Rightarrow> False | Some f \<Rightarrow> f_SingleNodeDanger f) faults"
  have set: "set d = {n \<in> set faults. \<exists>f. Lookup (Some cat) n = Some f \<and> f_SingleNodeDanger f}"
    by (auto simp: d_def split: option.splits)
  have e: "preflightSingleNodeFaults works env (Some cat) faults cl =
      (if d = [] \<or> cl_Nodes cl > 1 then None else Some (SingleNode (sort d)))"
    using assms by (simp add: preflightSingleNodeFaults_def d_def [symmetric] Let_def)
  show ?thesis
  proof (cases "d = [] \<or> cl_Nodes cl > 1")
    case True
    then have "preflightSingleNodeFaults works env (Some cat) faults cl = None" using e by simp
    moreover have "set d = {} \<or> cl_Nodes cl > 1" using True by auto
    ultimately show ?thesis unfolding set by auto
  next
    case False
    then have f: "preflightSingleNodeFaults works env (Some cat) faults cl = Some (SingleNode (sort d))" using e by simp
    have "sort d \<noteq> []" using False by (metis set_empty set_sort)
    then show ?thesis using False f by (simp add: set [symmetric])
  qed
qed

end
