(* ===== verification/Upgrade_Path.thy ===== *)
theory Upgrade_Path
  imports Go_Prelude
begin

text \<open>
  The upgrade agent of the control plane (\<^verbatim>\<open>upgrade-agents/control-plane\<close>): versions and their order,
  the path between two versions and the run along it. A panic (an index or a slice out of range) and
  \<^verbatim>\<open>log.Fatal\<close> in a migration are \<^const>\<open>None\<close>; the migrations are an argument.
\<close>

section \<open>Versions\<close>

datatype version = Version (Major: int) (Minor: int) (Patch: int) (Beta: int)

text \<open>The order of \<^verbatim>\<open>sort.Slice\<close>: the first components that differ decide.\<close>

fun sorts_before :: "int list \<Rightarrow> int list \<Rightarrow> bool" where
  "sorts_before [] ys = (ys \<noteq> [])"
| "sorts_before (x # xs) [] = False"
| "sorts_before (x # xs) (y # ys) = (if x \<noteq> y then x < y else sorts_before xs ys)"

definition version_row :: "version \<Rightarrow> int list" where
  [simp]: "version_row v = [Major v, Minor v, Patch v, Beta v]"

instantiation version :: linorder
begin

definition less_version :: "version \<Rightarrow> version \<Rightarrow> bool" where
  "less_version a b = sorts_before (version_row a) (version_row b)"

definition less_eq_version :: "version \<Rightarrow> version \<Rightarrow> bool" where
  "less_eq_version a b = (\<not> sorts_before (version_row b) (version_row a))"

instance
  by intro_classes (auto simp: less_eq_version_def less_version_def version.expand split: if_splits)

end

text \<open>\<^verbatim>\<open>strings.Split\<close> by a separator of several bytes: the part before the first one and after it.\<close>

fun Index :: "string \<Rightarrow> string \<Rightarrow> nat option" where
  "Index [] sep = (if sep = [] then Some 0 else None)"
| "Index (c # s) sep = (if HasPrefix (c # s) sep then Some 0 else map_option Suc (Index s sep))"

lemma Index_bound: "Index s sep = Some i \<Longrightarrow> i \<le> length s"
  by (induction s arbitrary: i) (auto split: if_splits)

function SplitSub :: "string \<Rightarrow> string \<Rightarrow> string list" where
  "SplitSub s sep = (case Index s sep of
     None \<Rightarrow> [s]
   | Some i \<Rightarrow> if sep = [] \<or> s = [] then [s] else take i s # SplitSub (drop (i + length sep) s) sep)"
  by auto
termination by (relation "measure (\<lambda>(s, sep). length s)") auto

declare SplitSub.simps [simp del]

definition zero_version :: version where "zero_version = Version 0 0 0 0"

definition ParseVersion :: "string \<Rightarrow> version option" where
  "ParseVersion version =
     (let parts = SplitSub version ''-beta''; mainParts = SplitByte (hd parts) CHR ''.'' in
      case ParseInt (hd mainParts) of
        None \<Rightarrow> Some zero_version
      | Some major \<Rightarrow>
         if length mainParts < 2 then None
         else (case ParseInt (mainParts ! 1) of
           None \<Rightarrow> Some zero_version
         | Some minor \<Rightarrow>
            (let patch = (if length mainParts > 2
                   then (case ParseInt (mainParts ! 2) of None \<Rightarrow> 0 | Some n \<Rightarrow> n) else 0)
             in if length parts > 1
                then (case ParseInt (parts ! 1) of
                    None \<Rightarrow> Some zero_version | Some beta \<Rightarrow> Some (Version major minor patch beta))
                else Some (Version major minor patch 0))))"

definition getVersion :: "version \<Rightarrow> string" where
  "getVersion v =
     (if Beta v \<noteq> 0 then FormatInt (Major v) @ ''.'' @ FormatInt (Minor v) @ ''.'' @ FormatInt (Patch v) @ ''-beta'' @ FormatInt (Beta v)
      else FormatInt (Major v) @ ''.'' @ FormatInt (Minor v) @ ''.'' @ FormatInt (Patch v))"

text \<open>\<^verbatim>\<open>arrayToVersion\<close> on the four numbers a version is turned into.\<close>

definition arrayToVersion :: "version \<Rightarrow> string" where
  "arrayToVersion v =
     (if Beta v = 0 then FormatInt (Major v) @ ''.'' @ FormatInt (Minor v) @ ''.'' @ FormatInt (Patch v)
      else FormatInt (Major v) @ ''.'' @ FormatInt (Minor v) @ ''.'' @ FormatInt (Patch v) @ ''-beta'' @ FormatInt (Beta v))"

section \<open>The path\<close>

fun parse_all :: "string list \<Rightarrow> version list option" where
  "parse_all [] = Some []"
| "parse_all (s # ss) = (case ParseVersion s of None \<Rightarrow> None
     | Some v \<Rightarrow> (case parse_all ss of None \<Rightarrow> None | Some vs \<Rightarrow> Some (v # vs)))"

definition sortVersionArray :: "string list \<Rightarrow> string list option" where
  "sortVersionArray versionArray = map_option (\<lambda>vs. map arrayToVersion (sort vs)) (parse_all versionArray)"

text \<open>The version map is given by its entries.\<close>

definition parseVersionMap :: "string list \<Rightarrow> string \<Rightarrow> string \<Rightarrow> string list option" where
  "parseVersionMap keys previousVersion targetVersion =
     sortVersionArray (keys @ (if List.member keys previousVersion then [] else [previousVersion]) @
       (if List.member keys targetVersion then [] else [targetVersion]))"

fun linearSearchArray :: "string \<Rightarrow> string list \<Rightarrow> nat option" where
  "linearSearchArray version [] = None"
| "linearSearchArray version (v # vs) = (if v = version then Some 0 else map_option Suc (linearSearchArray version vs))"

text \<open>The slice \<^verbatim>\<open>a[start+1 : end+1]\<close>, where a version that is not found has index -1.\<close>

definition slice_after :: "string list \<Rightarrow> nat option \<Rightarrow> nat option \<Rightarrow> string list option" where
  "slice_after a start stop =
     (let low = (case start of None \<Rightarrow> 0 | Some i \<Rightarrow> Suc i); high = (case stop of None \<Rightarrow> 0 | Some i \<Rightarrow> Suc i) in
      if low \<le> high \<and> high \<le> length a then Some (drop low (take high a)) else None)"

definition traceUpgradePath :: "version \<Rightarrow> version \<Rightarrow> string list \<Rightarrow> string list option" where
  "traceUpgradePath previousVersion targetVersion keys =
     (case parseVersionMap keys (getVersion previousVersion) (getVersion targetVersion) of
        None \<Rightarrow> None
      | Some versions \<Rightarrow> slice_after versions (linearSearchArray (getVersion previousVersion) versions)
          (linearSearchArray (getVersion targetVersion) versions))"

section \<open>The run\<close>

text \<open>
  The database: the stored version and the rest. A manager returns whether it succeeded, or
  \<^const>\<open>None\<close> when it ends the process; the failure of \<^verbatim>\<open>UpdateVersion\<close> is ignored by the code and given
  here as an input for each version.
\<close>

record 'd store =
  st_Version :: "string option"
  st_Data :: 'd

type_synonym 'd manager = "'d \<Rightarrow> (bool \<times> 'd) option"

definition UpdateVersion :: "(string \<Rightarrow> bool) \<Rightarrow> string \<Rightarrow> 'd store \<Rightarrow> 'd store" where
  "UpdateVersion works v s = (if works v \<and> st_Version s \<noteq> None then s\<lparr>st_Version := Some v\<rparr> else s)"

text \<open>
  The outcome: finished, no manager could be made, the version that failed, or a process that ended in
  a panic or in a migration's \<^verbatim>\<open>log.Fatal\<close>.
\<close>

datatype outcome = Done | NotCreated | FailedAt string | Panic

fun run_path ::
  "(string \<Rightarrow> bool) \<Rightarrow> (string \<times> 'd manager option) list \<Rightarrow> string list \<Rightarrow> 'd store \<Rightarrow> outcome \<times> 'd store" where
  "run_path works versionMap [] s = (Done, s)"
| "run_path works versionMap (v # vs) s = (case map_of versionMap v of
     Some (Some manager) \<Rightarrow> (case manager (st_Data s) of
         None \<Rightarrow> (Panic, s)
       | Some (ok, d) \<Rightarrow> if \<not> ok then (FailedAt v, s\<lparr>st_Data := d\<rparr>)
           else run_path works versionMap vs (UpdateVersion works v (s\<lparr>st_Data := d\<rparr>)))
   | _ \<Rightarrow> run_path works versionMap vs s)"

definition Run ::
  "(string \<Rightarrow> bool) \<Rightarrow> (string \<times> 'd manager option) list \<Rightarrow> version \<Rightarrow> version \<Rightarrow> 'd store \<Rightarrow> outcome \<times> 'd store" where
  "Run works versionMap previousVersion targetVersion s =
     (case traceUpgradePath previousVersion targetVersion (map fst versionMap) of
        None \<Rightarrow> (Panic, s)
      | Some path \<Rightarrow> (case run_path works versionMap path s of
          (Done, s') \<Rightarrow> if path = [] then (Panic, s') else (Done, UpdateVersion works (last path) s')
        | (other, s') \<Rightarrow> (other, s')))"

text \<open>\<^verbatim>\<open>NewUpgradeManager\<close> followed by \<^verbatim>\<open>Run\<close>, as \<^verbatim>\<open>main\<close> does: the VERSION variable and the stored version.\<close>

definition upgrade ::
  "(string \<Rightarrow> bool) \<Rightarrow> (string \<times> 'd manager option) list \<Rightarrow> string \<Rightarrow> 'd store \<Rightarrow> outcome \<times> 'd store" where
  "upgrade works versionMap currentVersion s =
     (if currentVersion = [] then (NotCreated, s)
      else (case st_Version s of
        None \<Rightarrow> (NotCreated, s)
      | Some stored \<Rightarrow>
         if stored = [] then (NotCreated, s)
         else if stored = currentVersion then (Done, s)
         else (case (ParseVersion stored, ParseVersion currentVersion) of
           (Some p, Some t) \<Rightarrow> Run works versionMap p t s | _ \<Rightarrow> (Panic, s))))"

section \<open>Versions and their text\<close>

definition valid_version :: "version \<Rightarrow> bool" where
  "valid_version v = list_all (\<lambda>n. 0 \<le> n \<and> in_int64 n) [Major v, Minor v, Patch v, Beta v]"

lemma Index_fresh: "sep \<noteq> [] \<Longrightarrow> hd sep \<notin> set s \<Longrightarrow> Index s sep = None"
  by (induction s) (auto simp: HasPrefix_prefix prefix_def neq_Nil_conv)

lemma Index_append: "sep \<noteq> [] \<Longrightarrow> hd sep \<notin> set a \<Longrightarrow> Index (a @ sep @ b) sep = Some (length a)"
proof (induction a)
  case Nil
  then show ?case by (cases sep) (auto simp: HasPrefix_prefix)
next
  case (Cons c a)
  then show ?case by (auto simp: HasPrefix_prefix neq_Nil_conv)
qed

lemma SplitSub_fresh: "sep \<noteq> [] \<Longrightarrow> hd sep \<notin> set s \<Longrightarrow> SplitSub s sep = [s]"
  by (simp add: SplitSub.simps Index_fresh)

lemma SplitSub_append:
  "sep \<noteq> [] \<Longrightarrow> hd sep \<notin> set a \<Longrightarrow> SplitSub (a @ sep @ b) sep = a # SplitSub b sep"
  by (subst SplitSub.simps) (simp add: Index_append)

lemma Format_no_sign: "0 \<le> n \<Longrightarrow> CHR ''-'' \<notin> set (FormatInt n)" "0 \<le> n \<Longrightarrow> CHR ''.'' \<notin> set (FormatInt n)"
  by (auto dest: FormatInt_digits)

lemma ParseVersion_getVersion: "valid_version v \<Longrightarrow> ParseVersion (getVersion v) = Some v"
proof -
  assume v: "valid_version v"
  define core where "core = FormatInt (Major v) @ CHR ''.'' # FormatInt (Minor v) @ CHR ''.'' # FormatInt (Patch v)"
  have core: "SplitByte core CHR ''.'' = [FormatInt (Major v), FormatInt (Minor v), FormatInt (Patch v)]"
      "CHR ''-'' \<notin> set core"
    using v by (auto simp: core_def valid_version_def SplitByte_cons SplitByte_fresh Format_no_sign)
  have "getVersion v = (if Beta v \<noteq> 0 then core @ ''-beta'' @ FormatInt (Beta v) else core)"
    by (simp add: getVersion_def core_def)
  then have "SplitSub (getVersion v) ''-beta'' = (if Beta v \<noteq> 0 then [core, FormatInt (Beta v)] else [core])"
    using SplitSub_append [of "''-beta''" core "FormatInt (Beta v)"] v core(2)
    by (auto simp: valid_version_def SplitSub_fresh Format_no_sign)
  then show ?thesis
    using v core(1) by (cases v) (auto simp: ParseVersion_def valid_version_def ParseInt_FormatInt)
qed

lemma getVersion_inj: "valid_version v \<Longrightarrow> valid_version w \<Longrightarrow> getVersion v = getVersion w \<longleftrightarrow> v = w"
  by (metis ParseVersion_getVersion option.inject)

lemma getVersion_not_Nil [simp]: "getVersion v \<noteq> []"
  by (simp add: getVersion_def)

lemma arrayToVersion_getVersion: "arrayToVersion = getVersion"
  by (auto simp: arrayToVersion_def getVersion_def)

lemma parse_all_getVersion: "list_all valid_version vs \<Longrightarrow> parse_all (map getVersion vs) = Some vs"
  by (induction vs) (auto simp: ParseVersion_getVersion)

lemma sort_getVersion:
  "list_all valid_version vs \<Longrightarrow> sortVersionArray (map getVersion vs) = Some (map getVersion (sort vs))"
  by (simp add: sortVersionArray_def parse_all_getVersion arrayToVersion_getVersion)

section \<open>The path, exactly\<close>

text \<open>The versions to migrate through, in order: those of the map after the stored one and up to the target, and the target.\<close>

definition path_spec :: "version list \<Rightarrow> version \<Rightarrow> version \<Rightarrow> version list" where
  "path_spec vs p t = sorted_list_of_set {v \<in> insert t (set vs). p < v \<and> v \<le> t}"

lemma linearSearch_getVersion:
  assumes "list_all valid_version (a @ v # b)" "v \<notin> set a"
  shows "linearSearchArray (getVersion v) (map getVersion (a @ v # b)) = Some (length a)"
  using assms by (induction a) (auto simp: getVersion_inj)

lemma sorted_split:
  assumes "sorted zs" "distinct zs" "p \<in> set zs" "t \<in> set zs" "p < (t :: version)"
  obtains a b c where "zs = a @ p # b @ t # c"
proof -
  obtain a r where z: "zs = a @ p # r" using assms(3) by (meson split_list)
  moreover have "t \<in> set r" using assms z by (auto simp: sorted_append)
  ultimately show ?thesis using that by (metis split_list)
qed

lemma slice_is_spec:
  assumes "sorted (a @ p # b @ t # c)" "distinct (a @ p # b @ t # c)"
    "set (a @ p # b @ t # c) = insert p (insert t (set vs))"
  shows "b @ [t] = path_spec vs p (t :: version)"
proof -
  have "{v \<in> insert t (set vs). p < v \<and> v \<le> t} = {v \<in> set (a @ p # b @ t # c). p < v \<and> v \<le> t}"
    using assms(3) by auto
  also have "\<dots> = set (b @ [t])"
    using assms(1,2) by (auto simp: sorted_append order.strict_iff_order)
  finally have "path_spec vs p t = sorted_list_of_set (set (b @ [t]))" by (simp only: path_spec_def)
  also have "\<dots> = b @ [t]"
    using assms(1,2) by (intro sorted_list_of_set.idem_if_sorted_distinct) (auto simp: sorted_append)
  finally show ?thesis ..
qed

definition candidates :: "version list \<Rightarrow> version \<Rightarrow> version \<Rightarrow> version list" where
  "candidates vs p t = vs @ (if p \<in> set vs then [] else [p]) @ (if t \<in> set vs then [] else [t])"

lemma parseVersionMap_getVersion:
  assumes "list_all valid_version vs" "valid_version p" "valid_version t"
  shows "parseVersionMap (map getVersion vs) (getVersion p) (getVersion t) =
    Some (map getVersion (sort (candidates vs p t)))"
proof -
  have "List.member (map getVersion vs) (getVersion v) \<longleftrightarrow> v \<in> set vs" if "valid_version v" for v
    using assms(1) that by (auto simp: list_all_iff getVersion_inj)
  then have "parseVersionMap (map getVersion vs) (getVersion p) (getVersion t) =
      sortVersionArray (map getVersion (candidates vs p t))"
    using assms by (simp add: parseVersionMap_def candidates_def)
  also have "\<dots> = Some (map getVersion (sort (candidates vs p t)))"
    using assms by (intro sort_getVersion) (auto simp: candidates_def)
  finally show ?thesis .
qed

lemma path_traced:
  assumes "list_all valid_version (p # t # vs)" "distinct vs" "p < t"
  shows "traceUpgradePath p t (map getVersion vs) = Some (map getVersion (path_spec vs p t))"
proof -
  let ?zs = "sort (candidates vs p t)"
  have ok: "list_all valid_version ?zs" using assms by (auto simp: candidates_def list_all_iff)
  have z: "sorted ?zs" "distinct ?zs" "set ?zs = insert p (insert t (set vs))"
    using assms by (auto simp: candidates_def)
  then have "p \<in> set ?zs" "t \<in> set ?zs" by blast+
  then obtain a b c where e: "?zs = a @ p # b @ t # c" using z(1,2) assms(3) by (blast elim: sorted_split)
  have fresh: "p \<notin> set a" "t \<notin> set (a @ p # b)" using z(2) e by auto
  have "linearSearchArray (getVersion p) (map getVersion ?zs) = Some (length a)"
       "linearSearchArray (getVersion t) (map getVersion ?zs) = Some (length (a @ p # b))"
    using linearSearch_getVersion [of a p "b @ t # c"] linearSearch_getVersion [of "a @ p # b" t c] ok e fresh
    by auto
  then have "traceUpgradePath p t (map getVersion vs) = Some (map getVersion (b @ [t]))"
    using assms(1) e by (simp add: traceUpgradePath_def parseVersionMap_getVersion slice_after_def)
  then show ?thesis using slice_is_spec z e by metis
qed

lemma path_spec_ends:
  assumes "p < t"
  shows "path_spec vs p t \<noteq> [] \<and> last (path_spec vs p t) = t"
proof -
  have s: "sorted (path_spec vs p t)" "set (path_spec vs p t) = {v \<in> insert t (set vs). p < v \<and> v \<le> t}"
    by (auto simp: path_spec_def)
  then obtain a b where e: "path_spec vs p t = a @ t # b" using assms by (metis (mono_tags, lifting) insertI1 mem_Collect_eq order_refl split_list)
  have "distinct (path_spec vs p t)" by (simp add: path_spec_def)
  have "b = []"
  proof (rule ccontr)
    assume "b \<noteq> []"
    then have "last b \<in> set b" by simp
    then obtain x where "x \<in> set b" ..
    then have "t \<le> x" "x \<le> t" "x \<noteq> t" using s e \<open>distinct _\<close> by (auto simp: sorted_append)
    then show False by simp
  qed
  then show ?thesis using e by simp
qed

text \<open>The upgrade path is exact: for a map of distinct, well-formed versions and a stored version before
  the target, the path is the ascending list of the map's versions after the stored one and up to the
  target, ended by the target; no slice of it is out of range, and it is never empty, so the run can
  store its last element.
\<close>

theorem upgrade_path_exact:
  assumes "list_all valid_version (p # t # vs)" "distinct vs" "p < t"
  shows "traceUpgradePath p t (map getVersion vs) = Some (map getVersion (path_spec vs p t)) \<and>
    path_spec vs p t \<noteq> [] \<and> last (path_spec vs p t) = t"
  using path_traced [OF assms] path_spec_ends [OF assms(3)] by simp

text \<open>The hypotheses hold of the control plane's own map and an upgrade from 3.0.0-beta1 to 3.10.0.\<close>

lemma upgrade_path_exact_witness:
  "traceUpgradePath (Version 3 0 0 1) (Version 3 10 0 0) (map getVersion [Version 0 0 0 0, Version 3 9 0 0]) =
    Some (map getVersion (path_spec [Version 0 0 0 0, Version 3 9 0 0] (Version 3 0 0 1) (Version 3 10 0 0)))"
  using upgrade_path_exact [of "Version 3 0 0 1" "Version 3 10 0 0" "[Version 0 0 0 0, Version 3 9 0 0]"]
  by (simp add: valid_version_def in_int64_def less_version_def less_eq_version_def)

section \<open>Interrupted and resumed upgrades\<close>

text \<open>A map of working migrations in which those of the versions of \<open>F\<close> fail and roll back.\<close>

definition managers :: "(version \<times> ('d \<Rightarrow> 'd)) list \<Rightarrow> (version \<Rightarrow> bool) \<Rightarrow> (string \<times> 'd manager option) list" where
  "managers vm F = map (\<lambda>(v, g). (getVersion v, Some (\<lambda>d. if F v then Some (False, d) else Some (True, g d)))) vm"

definition apply_all :: "(version \<times> ('d \<Rightarrow> 'd)) list \<Rightarrow> version list \<Rightarrow> 'd \<Rightarrow> 'd" where
  "apply_all vm path d = foldl (\<lambda>d v. case map_of vm v of None \<Rightarrow> d | Some g \<Rightarrow> g d) d path"

lemma apply_all_simps [simp]:
  "apply_all vm [] d = d"
  "apply_all vm (v # vs) d = apply_all vm vs (case map_of vm v of None \<Rightarrow> d | Some g \<Rightarrow> g d)"
  by (simp_all add: apply_all_def)

lemma managers_keys: "map fst (managers vm F) = map getVersion (map fst vm)"
  by (induction vm) (auto simp: managers_def)

lemma managers_lookup:
  assumes "list_all valid_version (v # map fst vm)"
  shows "map_of (managers vm F) (getVersion v) =
    map_option (\<lambda>g. Some (\<lambda>d. if F v then Some (False, d) else Some (True, g d))) (map_of vm v)"
  using assms by (induction vm) (auto simp: managers_def getVersion_inj cong: if_cong)

text \<open>
  What a run leaves behind, whether it ends or fails: a stored version from which the rest of the path
  leads to the same data.
\<close>

definition resumable ::
  "(version \<times> ('d \<Rightarrow> 'd)) list \<Rightarrow> (version \<Rightarrow> bool) \<Rightarrow> version \<Rightarrow> version list \<Rightarrow> 'd \<Rightarrow> outcome \<Rightarrow> 'd store \<Rightarrow> bool" where
  "resumable vm F p path d res s' = (\<exists>w. w \<in> set (p # path) \<and> st_Version s' = Some (getVersion w) \<and>
     apply_all vm (filter (\<lambda>x. w < x) path) (st_Data s') = apply_all vm path d \<and>
     (res = Done \<and> st_Data s' = apply_all vm path d \<or>
      (\<exists>v. v \<in> set path \<and> w < v \<and> F v \<and> res = FailedAt (getVersion v))))"

lemma resumable_skip:
  assumes "resumable vm F p vs d res s'" "p < v" "\<forall>x \<in> set vs. v < x" "map_of vm v = None"
  shows "resumable vm F p (v # vs) d res s'"
proof -
  obtain w where w: "w \<in> set (p # vs)" "st_Version s' = Some (getVersion w)"
      "apply_all vm (filter (\<lambda>x. w < x) vs) (st_Data s') = apply_all vm vs d"
      "res = Done \<and> st_Data s' = apply_all vm vs d \<or> (\<exists>v. v \<in> set vs \<and> w < v \<and> F v \<and> res = FailedAt (getVersion v))"
    using assms(1) unfolding resumable_def by blast
  show ?thesis unfolding resumable_def
    by (rule exI [of _ w]) (use w assms(2-) in \<open>auto\<close>)
qed

lemma resumable_done:
  assumes "resumable vm F v vs (g d) res s'" "p < v" "\<forall>x \<in> set vs. v < x" "map_of vm v = Some g"
  shows "resumable vm F p (v # vs) d res s'"
proof -
  obtain w where w: "w \<in> set (v # vs)" "st_Version s' = Some (getVersion w)"
      "apply_all vm (filter (\<lambda>x. w < x) vs) (st_Data s') = apply_all vm vs (g d)"
      "res = Done \<and> st_Data s' = apply_all vm vs (g d) \<or> (\<exists>v. v \<in> set vs \<and> w < v \<and> F v \<and> res = FailedAt (getVersion v))"
    using assms(1) unfolding resumable_def by blast
  have "\<not> w < v" using w(1) assms(3) by auto
  then show ?thesis unfolding resumable_def
    by (intro exI [of _ w]) (use w assms(2-) in \<open>auto\<close>)
qed

lemma run_path_resumable:
  assumes "list_all valid_version (map fst vm)" "list_all valid_version path" "sorted (p # path)" "distinct (p # path)"
    "st_Version s = Some (getVersion p)" "run_path (\<lambda>_. True) (managers vm F) (map getVersion path) s = (res, s')"
  shows "resumable vm F p path (st_Data s) res s'"
  using assms(2-)
proof (induction path arbitrary: p s)
  case Nil
  then show ?case by (auto simp: resumable_def)
next
  case (Cons v vs)
  have o: "p < v" "\<forall>x \<in> set vs. v < x" using Cons.prems by (auto simp: order.strict_iff_order)
  have lookup: "map_of (managers vm F) (getVersion v) =
      map_option (\<lambda>g. Some (\<lambda>d. if F v then Some (False, d) else Some (True, g d))) (map_of vm v)"
    using Cons.prems assms(1) by (intro managers_lookup) auto
  show ?case
  proof (cases "map_of vm v")
    case None
    then have "resumable vm F p vs (st_Data s) res s'"
      using Cons.prems lookup by (intro Cons.IH) auto
    then show ?thesis using o None by (rule resumable_skip)
  next
    case (Some g)
    show ?thesis
    proof (cases "F v")
      case True
      then have "res = FailedAt (getVersion v)" "s' = s" using Cons.prems lookup Some by auto
      moreover have "filter (\<lambda>x. p < x) vs = vs" using o by (auto simp: filter_id_conv)
      ultimately show ?thesis using True o Cons.prems(4) unfolding resumable_def by (intro exI [of _ p]) auto
    next
      case False
      then have "resumable vm F v vs (g (st_Data s)) res s'"
        using Cons.prems lookup Some
        by (intro Cons.IH [of v "s\<lparr>st_Data := g (st_Data s), st_Version := Some (getVersion v)\<rparr>", simplified])
           (auto simp: UpdateVersion_def)
      then show ?thesis using o Some by (rule resumable_done)
    qed
  qed
qed

lemma path_spec_after:
  assumes "w \<in> set (p # path_spec vs p t)" "p < t"
  shows "path_spec vs w t = filter (\<lambda>x. w < x) (path_spec vs p t)"
proof -
  have "p \<le> w" using assms by (auto simp: path_spec_def)
  have "path_spec vs w t = sorted_list_of_set {x \<in> {v \<in> insert t (set vs). p < v \<and> v \<le> t}. w < x}"
    unfolding path_spec_def using \<open>p \<le> w\<close> by (intro arg_cong [where f = sorted_list_of_set]) auto
  also have "{x \<in> {v \<in> insert t (set vs). p < v \<and> v \<le> t}. w < x} = set (filter (\<lambda>x. w < x) (path_spec vs p t))"
    by (auto simp: path_spec_def)
  also have "sorted_list_of_set \<dots> = filter (\<lambda>x. w < x) (path_spec vs p t)"
    by (intro sorted_list_of_set.idem_if_sorted_distinct) (simp_all add: path_spec_def sorted_wrt_filter)
  finally show ?thesis .
qed

lemma path_spec_props:
  assumes "list_all valid_version (p # t # vs)"
  shows "list_all valid_version (path_spec vs p t)" "sorted (p # path_spec vs p t)" "distinct (p # path_spec vs p t)"
  using assms by (auto simp: path_spec_def list_all_iff)

text \<open>One upgrade from a well-formed older version, with its run along the exact path.\<close>

lemma upgrade_run:
  assumes "list_all valid_version (p # t # map fst vm)" "distinct (map fst vm)" "p < t"
    "st_Version s = Some (getVersion p)"
    "run_path (\<lambda>_. True) (managers vm F) (map getVersion (path_spec (map fst vm) p t)) s = (res, s')"
  shows "upgrade (\<lambda>_. True) (managers vm F) (getVersion t) s =
    (res, if res = Done then s'\<lparr>st_Version := Some (getVersion t)\<rparr> else s') \<and>
    resumable vm F p (path_spec (map fst vm) p t) (st_Data s) res s'"
proof -
  have r: "resumable vm F p (path_spec (map fst vm) p t) (st_Data s) res s'"
    using assms path_spec_props [OF assms(1)] by (intro run_path_resumable) auto
  then have "st_Version s' \<noteq> None" by (auto simp: resumable_def)
  moreover have "getVersion p \<noteq> getVersion t" using assms by (auto simp: getVersion_inj)
  moreover have "res \<noteq> Panic" using r by (auto simp: resumable_def)
  ultimately show ?thesis
    using r assms path_traced [OF assms(1-3)] path_spec_ends [OF assms(3)]
    by (cases res)
       (auto simp: upgrade_def Run_def ParseVersion_getVersion managers_keys UpdateVersion_def last_map)
qed



section \<open>Where the agent ends in a panic\<close>

text \<open>A target before the stored version: the slice of the path is out of range. A release sorts before its own betas.\<close>

lemma downgrade_panics:
  assumes "list_all valid_version (p # t # map fst vm)" "distinct (map fst vm)" "t < p"
    "st_Version s = Some (getVersion p)"
  shows "upgrade works (managers vm F) (getVersion t) s = (Panic, s)"
proof -
  let ?zs = "sort (candidates (map fst vm) p t)"
  have z: "sorted ?zs" "distinct ?zs" "p \<in> set ?zs" "t \<in> set ?zs" "list_all valid_version ?zs"
    using assms by (auto simp: candidates_def list_all_iff)
  then obtain a b c where e: "?zs = a @ t # b @ p # c" using assms(3) by (blast elim: sorted_split)
  have "linearSearchArray (getVersion t) (map getVersion ?zs) = Some (length a)"
       "linearSearchArray (getVersion p) (map getVersion ?zs) = Some (length (a @ t # b))"
    using linearSearch_getVersion [of a t "b @ p # c"] linearSearch_getVersion [of "a @ t # b" p c] z e by auto
  then have "traceUpgradePath p t (map getVersion (map fst vm)) = None"
    using assms(1) e by (simp add: traceUpgradePath_def parseVersionMap_getVersion slice_after_def del: map_map)
  moreover have "getVersion p \<noteq> getVersion t" using assms by (auto simp: getVersion_inj)
  ultimately show ?thesis
    using assms by (auto simp: upgrade_def Run_def ParseVersion_getVersion managers_keys simp del: map_map)
qed

lemma release_before_its_beta: "b > 0 \<Longrightarrow> Version x y z 0 < Version x y z b"
  by (simp add: less_version_def less_eq_version_def)

text \<open>Two texts of one version, such as \<^verbatim>\<open>3.9\<close> and \<^verbatim>\<open>3.9.0\<close>: the path is empty and has no last element.\<close>

lemma same_version_panics:
  assumes "list_all valid_version (p # map fst vm)" "distinct (map fst vm)"
    "st_Version s = Some old" "old \<noteq> []" "new \<noteq> []" "old \<noteq> new" "ParseVersion old = Some p" "ParseVersion new = Some p"
  shows "upgrade works (managers vm F) new s = (Panic, s)"
proof -
  let ?zs = "sort (candidates (map fst vm) p p)"
  have "set ?zs = insert p (set (map fst vm))" by (auto simp: candidates_def)
  then have z: "p \<in> set ?zs" "list_all valid_version ?zs" using assms(1) by (auto simp: list_all_iff)
  then obtain a b where e: "?zs = a @ p # b" "p \<notin> set a" by (metis split_list_first)
  have "linearSearchArray (getVersion p) (map getVersion ?zs) = Some (length a)"
    using linearSearch_getVersion [of a p b] z e by auto
  then have "traceUpgradePath p p (map getVersion (map fst vm)) = Some []"
    using assms(1) e by (simp add: traceUpgradePath_def parseVersionMap_getVersion slice_after_def del: map_map)
  then show ?thesis using assms by (simp add: upgrade_def Run_def managers_keys del: map_map)
qed

text \<open>A version without a dot.\<close>

lemma no_dot_panics: "ParseVersion ''3'' = None"
  by (simp add: ParseVersion_def SplitSub.simps HasPrefix_def ParseInt_def is_digit_def digits_val_def digit_val_def in_int64_def)

end
