(* ===== verification/Upgrade_Auth.thy ===== *)
theory Upgrade_Auth
  imports Upgrade_Path Auth_Machine
begin

text \<open>
  The upgrade agent's migration to 3.9.0 of the authentication database, and what it gives the
  authentication service: a database of the older releases becomes one of the service's invariant.
\<close>

section \<open>The migration to 3.9.0\<close>

definition oldRole :: string where "oldRole = ''Editor''"
definition newRole :: string where "newRole = ''Executor''"

definition upgrade_member :: "member \<Rightarrow> member" where
  "upgrade_member m = (if m_Role m = oldRole then m\<lparr>m_Role := newRole\<rparr> else m)"

text \<open>
  \<^verbatim>\<open>UpdateMany\<close> with an array filter: in each project with such a member, every such member is changed.
\<close>

definition upgradeProjectCollection :: "project list \<Rightarrow> project list" where
  "upgradeProjectCollection projects = map (\<lambda>p.
     if list_ex (\<lambda>m. m_Role m = oldRole) (p_Members p) then p\<lparr>p_Members := map upgrade_member (p_Members p)\<rparr> else p) projects"

definition upgradeUsersCollection :: "user list \<Rightarrow> user list" where
  "upgradeUsersCollection users = map (\<lambda>u. u\<lparr>u_IsInitialLogin := False\<rparr>) users"

text \<open>
  The manager of 3.9.0 in its transaction: the session, the two updates (a failing one ends the
  process), the commit and the abort after a failed commit (which ends it too when it fails), each with
  whether it works.
\<close>

definition manager_3_9_0 :: "bool \<Rightarrow> bool \<Rightarrow> bool \<Rightarrow> bool \<Rightarrow> auth_db manager" where
  "manager_3_9_0 started updated committed aborted db =
     (if \<not> started \<or> \<not> updated then None
      else if \<not> committed then (if aborted then Some (False, db) else None)
      else Some (True, db\<lparr>db_projects := upgradeProjectCollection (db_projects db),
                        db_users := upgradeUsersCollection (db_users db)\<rparr>))"

section \<open>What the authentication service is left with\<close>

text \<open>The invariant of the older releases: as the service's, with the role Editor beside its own.\<close>

definition old_project_ok :: "project \<Rightarrow> bool" where
  "old_project_ok p = (distinct (map m_UserID (p_Members p)) \<and> owned (p_Members p) \<and>
     (\<forall>m \<in> set (p_Members p). m_Role m \<in> set (oldRole # member_roles) \<and> m_Invitation m \<in> set invitations))"

definition old_release_ok :: "auth_db \<Rightarrow> bool" where
  "old_release_ok db = (users_ok (db_users db) \<and> distinct (map p_ID (db_projects db)) \<and>
     (\<forall>p \<in> set (db_projects db). old_project_ok p))"

definition v3_9_0 :: version where "v3_9_0 = Version 3 9 0 0"

lemma release_texts: "getVersion zero_version = ''0.0.0''" "getVersion v3_9_0 = ''3.9.0''"
  by (simp_all add: getVersion_def zero_version_def v3_9_0_def FormatInt_def show_nat.simps char_of_def bit_Suc_0_iff)

lemma release_valid [simp]: "valid_version zero_version" "valid_version v3_9_0" "zero_version \<noteq> v3_9_0"
  by (simp_all add: valid_version_def zero_version_def v3_9_0_def in_int64_def)

lemma not_before_zero: "valid_version p \<Longrightarrow> \<not> p < zero_version"
  by (cases p) (auto simp: valid_version_def zero_version_def less_version_def less_eq_version_def)

lemma release_path:
  assumes "valid_version p" "p < v3_9_0" "v3_9_0 \<le> t"
  shows "path_spec [zero_version, v3_9_0] p t = (if t = v3_9_0 then [v3_9_0] else [v3_9_0, t])"
proof -
  have "zero_version \<le> p" using not_before_zero [OF assms(1)] by simp
  then have "{v \<in> insert t (set [zero_version, v3_9_0]). p < v \<and> v \<le> t} =
      set (if t = v3_9_0 then [v3_9_0] else [v3_9_0, t])"
    using assms by auto
  then show ?thesis unfolding path_spec_def
    by (simp only:) (rule sorted_list_of_set.idem_if_sorted_distinct, use assms(3) in auto)
qed

lemma upgrade_member_props [simp]:
  "m_UserID (upgrade_member m) = m_UserID m" "m_Invitation (upgrade_member m) = m_Invitation m"
  "m_Role m \<in> set (oldRole # member_roles) \<Longrightarrow> m_Role (upgrade_member m) \<in> set member_roles"
  "accepted_owner m \<Longrightarrow> accepted_owner (upgrade_member m)"
  by (auto simp: upgrade_member_def oldRole_def newRole_def accepted_owner_def auth_consts)

lemma upgradeProjectCollection_map:
  "upgradeProjectCollection ps = map (\<lambda>p. p\<lparr>p_Members := map upgrade_member (p_Members p)\<rparr>) ps"
proof -
  have "map upgrade_member ms = ms" if "\<not> list_ex (\<lambda>m. m_Role m = oldRole) ms" for ms
    using that by (auto simp: list_ex_iff upgrade_member_def intro: map_idI)
  then show ?thesis by (auto simp: upgradeProjectCollection_def)
qed

lemma migrated_project_ok:
  assumes "old_project_ok p"
  shows "project_ok (p\<lparr>p_Members := map upgrade_member (p_Members p)\<rparr>)"
proof -
  obtain m where "m \<in> set (p_Members p)" "accepted_owner m" using assms by (auto simp: old_project_ok_def owned_def)
  then have "\<exists>m \<in> set (map upgrade_member (p_Members p)). accepted_owner m" by force
  then show ?thesis using assms by (auto simp: old_project_ok_def project_ok_def members_ok_def owned_def comp_def)
qed

lemma migrated_db_ok:
  assumes "old_release_ok db"
  shows "db_ok (db\<lparr>db_projects := upgradeProjectCollection (db_projects db), db_users := upgradeUsersCollection (db_users db)\<rparr>)"
  using assms
  by (auto simp: old_release_ok_def db_ok_def projects_ok_def users_ok_def upgradeProjectCollection_map
      upgradeUsersCollection_def comp_def migrated_project_ok)


text \<open>A database of 3.0.0 with one project: its owner and an Editor.\<close>

definition old_member :: "string \<Rightarrow> string \<Rightarrow> member" where
  "old_member uid role = \<lparr>m_UserID = uid, m_Username = uid, m_Email = [], m_Name = [], m_Role = role,
     m_Invitation = AcceptedInvitation, m_JoinedAt = 1, m_DeactivatedAt = None\<rparr>"

definition old_store :: "auth_db store" where
  "old_store = \<lparr>st_Version = Some (getVersion (Version 3 0 0 0)),
     st_Data = empty_db\<lparr>db_projects := [\<lparr>p_Audit = \<lparr>a_UpdatedAt = 0, a_CreatedAt = 0, a_CreatedBy = zero_detail,
       a_UpdatedBy = zero_detail, a_IsRemoved = False\<rparr>, p_ID = ''p1'', p_Name = ''one'',
       p_Members = [old_member ''al'' RoleOwner, old_member ''bo'' oldRole], p_State = None, p_Tags = [],
       p_Description = None\<rparr>]\<rparr>\<rparr>"


end
