(* ===== verification/Agent_Registry.thy ===== *)
theory Agent_Registry
  imports Auth_Mongo
begin

text \<open>
  The agent registry of the GraphQL server (\<^verbatim>\<open>graphql/server/pkg/agent_registry\<close>): its documents
  (\<^verbatim>\<open>model.go\<close>), errors, input validation (\<^verbatim>\<open>validator.go\<close>) and data access (\<^verbatim>\<open>operator.go\<close>). The
  documents live in one Mongo collection, the parameter \<open>coll\<close> of the operator's functions as in the
  authentication service; a replacement is an update by a constant function. The regular expressions
  are written out as the strings they match. The pages of a listing, its count and Mongo's own
  regular expressions are the driver's, parameters in \<open>registry_db\<close>.
\<close>

section \<open>Documents\<close>

datatype AgentStatus =
  AgentStatusRegistered | AgentStatusValidating | AgentStatusActive | AgentStatusInactive | AgentStatusDeleted

datatype EndpointDiscoveryType = EndpointDiscoveryAuto | EndpointDiscoveryManual
datatype EndpointType = EndpointTypeREST | EndpointTypeGRPC

record ContainerImage = ci_Registry :: string  ci_Repository :: string  ci_Tag :: string

record AgentEndpoint =
  ep_URL :: string
  ep_Type :: EndpointType
  ep_DiscoveryType :: EndpointDiscoveryType
  ep_HealthPath :: string
  ep_ReadyPath :: string

record LangfuseConfig =
  lc_ProjectID :: string
  lc_SyncEnabled :: bool
  lc_LastSyncedAt :: "int option"

text \<open>A map of labels is the list of its pairs, one per key.\<close>

record AgentMetadata =
  am_Labels :: "(string \<times> string) list"
  am_Annotations :: "(string \<times> string) list"

record AuditInfo =
  ai_CreatedAt :: int
  ai_CreatedBy :: string
  ai_UpdatedAt :: int
  ai_UpdatedBy :: string
  ai_LastHealthCheck :: "int option"

text \<open>A pointer of the document is an option, \<^const>\<open>None\<close> for nil.\<close>

record Agent =
  ag_AgentID :: string
  ag_ProjectID :: string
  ag_Name :: string
  ag_Version :: string
  ag_Vendor :: string
  ag_Capabilities :: "string list"
  ag_ContainerImage :: "ContainerImage option"
  ag_Namespace :: string
  ag_HelmReleaseName :: string
  ag_Endpoint :: "AgentEndpoint option"
  ag_LangfuseConfig :: "LangfuseConfig option"
  ag_Status :: AgentStatus
  ag_Metadata :: "AgentMetadata option"
  ag_AuditInfo :: "AuditInfo option"

record RegisterAgentRequest =
  rr_ProjectID :: string
  rr_Name :: string
  rr_Version :: string
  rr_Vendor :: string
  rr_Capabilities :: "string list"
  rr_ContainerImage :: "ContainerImage option"
  rr_Namespace :: string
  rr_HelmReleaseName :: string
  rr_Endpoint :: "AgentEndpoint option"
  rr_LangfuseConfig :: "LangfuseConfig option"
  rr_Metadata :: "AgentMetadata option"

record UpdateAgentRequest =
  ur_Name :: "string option"
  ur_Version :: "string option"
  ur_Vendor :: "string option"
  ur_Capabilities :: "string list"
  ur_ContainerImage :: "ContainerImage option"
  ur_Endpoint :: "AgentEndpoint option"
  ur_LangfuseConfig :: "LangfuseConfig option"
  ur_Metadata :: "AgentMetadata option"

record AgentFilter =
  af_ProjectID :: string
  af_Status :: "AgentStatus option"
  af_Statuses :: "AgentStatus list"
  af_Capabilities :: "string list"
  af_SearchTerm :: "string option"

text \<open>
  A returned error: one of the package's, a validation error with its field, one of the driver,
  or an error wrapped in a message.
\<close>

datatype reg_error =
    ErrAgentNotFound | ErrDuplicateAgentName | ErrAgentUnauthorized | ErrInsufficientPermissions
  | ValidationError string | StoreError go_error | Message string | Wrapped string reg_error

section \<open>Input validation\<close>

definition lower_alnum :: "char \<Rightarrow> bool" where
  "lower_alnum c = (of_char c \<ge> (97::nat) \<and> of_char c \<le> (122::nat) \<or> is_digit c)"

definition word_alnum :: "char \<Rightarrow> bool" where
  "word_alnum c = (lower_alnum c \<or> of_char c \<ge> (65::nat) \<and> of_char c \<le> (90::nat))"

text \<open>\<^verbatim>\<open>^[a-z0-9]([-a-z0-9]*[a-z0-9])?$\<close>\<close>

definition AgentNameRegex :: "string \<Rightarrow> bool" where
  "AgentNameRegex s = (s \<noteq> [] \<and> lower_alnum (hd s) \<and> lower_alnum (last s) \<and>
     list_all (\<lambda>c. lower_alnum c \<or> c = CHR ''-'') s)"

text \<open>
  \<^verbatim>\<open>^v?(\d+)\.(\d+)\.(\d+)(?:-([a-zA-Z0-9.-]+))?(?:\+([a-zA-Z0-9.-]+))?$\<close>. The match is forced:
  digits, points and the plus sign are told apart by their first byte.
\<close>

definition semver_part :: "string \<Rightarrow> bool" where
  "semver_part s = (s \<noteq> [] \<and> list_all (\<lambda>c. word_alnum c \<or> c = CHR ''.'' \<or> c = CHR ''-'') s)"

definition number_point :: "string \<Rightarrow> string option" where
  "number_point s = (if takeWhile is_digit s = [] then None
     else case dropWhile is_digit s of [] \<Rightarrow> None | c # r \<Rightarrow> if c = CHR ''.'' then Some r else None)"

definition semver_tail :: "string \<Rightarrow> bool" where
  "semver_tail s =
     (let (pre, build, plus) = CutByte s (CHR ''+'')
      in (case pre of [] \<Rightarrow> True | c # r \<Rightarrow> c = CHR ''-'' \<and> semver_part r) \<and> (plus \<longrightarrow> semver_part build))"

definition SemverRegex :: "string \<Rightarrow> bool" where
  "SemverRegex s =
     (let s0 = TrimPrefix s ''v''
      in case number_point s0 of None \<Rightarrow> False
         | Some s1 \<Rightarrow> (case number_point s1 of None \<Rightarrow> False
             | Some s2 \<Rightarrow> takeWhile is_digit s2 \<noteq> [] \<and> semver_tail (dropWhile is_digit s2)))"

definition MaxAgentNameLength :: nat where "MaxAgentNameLength = 63"
definition MinCapabilities :: nat where "MinCapabilities = 1"

definition loadCapabilitiesTaxonomy :: "string list" where
  "loadCapabilitiesTaxonomy =
     [''chaos-engineering'', ''fault-detection'', ''fault-remediation'', ''observability'',
      ''pod-delete'', ''pod-cpu-hog'', ''pod-memory-hog'', ''pod-io-stress'', ''pod-network-latency'',
      ''pod-network-loss'', ''pod-network-duplication'', ''pod-network-corruption'', ''pod-dns-error'',
      ''pod-dns-spoof'',
      ''node-drain'', ''node-cpu-hog'', ''node-memory-hog'', ''node-io-stress'', ''node-taint'', ''node-restart'',
      ''network-latency'', ''network-loss'', ''network-duplication'', ''network-corruption'', ''network-partition'',
      ''disk-fill'', ''disk-io-stress'', ''cpu-stress'', ''memory-stress'',
      ''container-kill'', ''container-network-latency'', ''container-network-loss'',
      ''pod-crash-remediation'', ''pod-delete-remediation'', ''node-drain-remediation'',
      ''network-latency-remediation'', ''network-partition-remediation'', ''disk-pressure-remediation'',
      ''memory-stress-remediation'', ''cpu-stress-remediation'', ''container-kill-remediation'',
      ''service-unavailable-remediation'']"

definition validateName :: "string \<Rightarrow> reg_error option" where
  "validateName name =
     (if name = [] then Some (ValidationError ''name'')
      else if length name > MaxAgentNameLength then Some (ValidationError ''name'')
      else if \<not> AgentNameRegex name then Some (ValidationError ''name'')
      else None)"

definition validateVersion :: "string \<Rightarrow> reg_error option" where
  "validateVersion version =
     (if version = [] then Some (ValidationError ''version'')
      else if \<not> SemverRegex version then Some (ValidationError ''version'')
      else None)"

fun check_capabilities :: "string list \<Rightarrow> reg_error option" where
  "check_capabilities [] = None"
| "check_capabilities (c # cs) =
     (if c \<notin> set loadCapabilitiesTaxonomy then Some (ValidationError ''capabilities'') else check_capabilities cs)"

definition ValidateCapabilities :: "string list \<Rightarrow> reg_error option" where
  "ValidateCapabilities cs =
     (if cs = [] then Some (ValidationError ''capabilities'') else check_capabilities cs)"

definition ValidateContainerImage :: "ContainerImage option \<Rightarrow> reg_error option" where
  "ValidateContainerImage img =
     (case img of None \<Rightarrow> Some (ValidationError ''containerImage'')
      | Some im \<Rightarrow>
         if ci_Registry im = [] then Some (ValidationError ''containerImage.registry'')
         else if \<not> Contains (ci_Registry im) ''.'' then Some (ValidationError ''containerImage.registry'')
         else if ci_Repository im = [] then Some (ValidationError ''containerImage.repository'')
         else if Contains (ci_Repository im) ''://'' then Some (ValidationError ''containerImage.repository'')
         else if ci_Tag im = [] then Some (ValidationError ''containerImage.tag'')
         else if \<not> list_all (\<lambda>c. word_alnum c \<or> c = CHR ''.'' \<or> c = CHR ''_'' \<or> c = CHR ''-'') (ci_Tag im)
         then Some (ValidationError ''containerImage.tag'')
         else None)"

section \<open>Data access\<close>

record registry_db =
  db_agents :: "Agent coll"
  db_count :: "(Agent \<Rightarrow> bool) \<Rightarrow> Agent list \<Rightarrow> go_error + nat"
  db_page :: "(Agent \<Rightarrow> bool) \<Rightarrow> int \<Rightarrow> int \<Rightarrow> Agent list \<Rightarrow> go_error + Agent list"
  db_search :: "string \<Rightarrow> string \<Rightarrow> bool"
  db_hinted :: "(Agent \<Rightarrow> bool) \<Rightarrow> Agent list \<Rightarrow> go_error + Agent list"

definition find_agent :: "registry_db \<Rightarrow> (Agent \<Rightarrow> bool) \<Rightarrow> Agent list \<Rightarrow> reg_error + Agent" where
  "find_agent D q s = (case FindOne (db_agents D) q s of
       Inr a \<Rightarrow> Inr a | Inl e \<Rightarrow> Inl (if e = NoDocuments then ErrAgentNotFound else StoreError e))"

definition op_GetAgent :: "registry_db \<Rightarrow> string \<Rightarrow> Agent list \<Rightarrow> reg_error + Agent" where
  "op_GetAgent D i = find_agent D (\<lambda>a. ag_AgentID a = i)"

definition GetAgentByProjectAndName :: "registry_db \<Rightarrow> string \<Rightarrow> string \<Rightarrow> Agent list \<Rightarrow> reg_error + Agent" where
  "GetAgentByProjectAndName D p n =
     find_agent D (\<lambda>a. ag_ProjectID a = p \<and> ag_Name a = n \<and> ag_Status a \<noteq> AgentStatusDeleted)"

definition GetAgentByNamespace :: "registry_db \<Rightarrow> string \<Rightarrow> Agent list \<Rightarrow> reg_error + Agent" where
  "GetAgentByNamespace D ns = find_agent D (\<lambda>a. ag_Namespace a = ns \<and> ag_Status a \<noteq> AgentStatusDeleted)"

definition GetAgentByNamespaceAndName :: "registry_db \<Rightarrow> string \<Rightarrow> string \<Rightarrow> Agent list \<Rightarrow> reg_error + Agent" where
  "GetAgentByNamespaceAndName D ns n =
     find_agent D (\<lambda>a. ag_Namespace a = ns \<and> ag_Name a = n \<and> ag_Status a \<noteq> AgentStatusDeleted)"

definition CreateAgent :: "registry_db \<Rightarrow> Agent \<Rightarrow> Agent list \<Rightarrow> reg_error option \<times> Agent list" where
  "CreateAgent D a s = (let (e, s') = InsertOne (db_agents D) a s in (map_option StoreError e, s'))"

definition op_UpdateAgent :: "registry_db \<Rightarrow> Agent \<Rightarrow> Agent list \<Rightarrow> reg_error option \<times> Agent list" where
  "op_UpdateAgent D a s =
     (case UpdateOne (db_agents D) (\<lambda>d. ag_AgentID d = ag_AgentID a) (\<lambda>_. a) s of
        (Inl e, s') \<Rightarrow> (Some (StoreError e), s')
      | (Inr n, s') \<Rightarrow> (if n = 0 then Some ErrAgentNotFound else None, s'))"

definition op_DeleteAgent :: "registry_db \<Rightarrow> string \<Rightarrow> Agent list \<Rightarrow> reg_error option \<times> Agent list" where
  "op_DeleteAgent D i s =
     (case DeleteOne (db_agents D) (\<lambda>d. ag_AgentID d = i) s of
        (Inl e, s') \<Rightarrow> (Some (StoreError e), s')
      | (Inr n, s') \<Rightarrow> (if n = 0 then Some ErrAgentNotFound else None, s'))"

text \<open>
  The filter of a listing. A list of statuses takes precedence over a single status; with neither,
  deleted agents are left out.
\<close>

definition agent_filter :: "registry_db \<Rightarrow> AgentFilter option \<Rightarrow> Agent \<Rightarrow> bool" where
  "agent_filter D f a = (case f of None \<Rightarrow> ag_Status a \<noteq> AgentStatusDeleted
     | Some f \<Rightarrow>
         (af_ProjectID f \<noteq> [] \<longrightarrow> ag_ProjectID a = af_ProjectID f) \<and>
         (if af_Statuses f \<noteq> [] then ag_Status a \<in> set (af_Statuses f)
          else case af_Status f of Some st \<Rightarrow> ag_Status a = st | None \<Rightarrow> ag_Status a \<noteq> AgentStatusDeleted) \<and>
         (af_Capabilities f \<noteq> [] \<longrightarrow> set (af_Capabilities f) \<subseteq> set (ag_Capabilities a)) \<and>
         (case af_SearchTerm f of None \<Rightarrow> True
          | Some t \<Rightarrow> t \<noteq> [] \<longrightarrow> db_search D t (ag_Name a) \<or> db_search D t (ag_Vendor a)))"

definition op_ListAgents ::
  "registry_db \<Rightarrow> AgentFilter option \<Rightarrow> int \<Rightarrow> int \<Rightarrow> Agent list \<Rightarrow> reg_error + (Agent list \<times> nat)" where
  "op_ListAgents D f skip limit s =
     (case db_count D (agent_filter D f) s of Inl e \<Rightarrow> Inl (StoreError e)
      | Inr n \<Rightarrow> (case db_page D (agent_filter D f) skip limit s of Inl e \<Rightarrow> Inl (StoreError e)
          | Inr as \<Rightarrow> Inr (as, n)))"

text \<open>
  The query by capabilities asks for an index on them (\<^verbatim>\<open>SetHint\<close>), which is why it has an operation
  of its own among the parameters.
\<close>

definition op_GetAgentsByCapabilities ::
  "registry_db \<Rightarrow> string \<Rightarrow> string list \<Rightarrow> Agent list \<Rightarrow> reg_error + Agent list" where
  "op_GetAgentsByCapabilities D p cs s =
     (case db_hinted D (\<lambda>a. ag_ProjectID a = p \<and> set cs \<subseteq> set (ag_Capabilities a)) s of
        Inl e \<Rightarrow> Inl (StoreError e) | Inr as \<Rightarrow> Inr as)"

section \<open>Validation of whole requests\<close>

definition ValidateRegistration :: "registry_db \<Rightarrow> RegisterAgentRequest \<Rightarrow> Agent list \<Rightarrow> reg_error option" where
  "ValidateRegistration D r s =
     (case validateName (rr_Name r) of Some e \<Rightarrow> Some e
      | None \<Rightarrow>
        (case GetAgentByProjectAndName D (rr_ProjectID r) (rr_Name r) s of
           Inr _ \<Rightarrow> Some ErrDuplicateAgentName
         | Inl e \<Rightarrow>
             if e \<noteq> ErrAgentNotFound then Some (Wrapped ''failed to check name uniqueness'' e)
             else (case validateVersion (rr_Version r) of Some e \<Rightarrow> Some e
               | None \<Rightarrow>
                   if length (rr_Capabilities r) < MinCapabilities then Some (ValidationError ''capabilities'')
                   else (case ValidateCapabilities (rr_Capabilities r) of Some e \<Rightarrow> Some e
                     | None \<Rightarrow> (case rr_ContainerImage r of None \<Rightarrow> None
                         | Some im \<Rightarrow> ValidateContainerImage (Some im))))))"

definition ValidateUpdate :: "UpdateAgentRequest \<Rightarrow> reg_error option" where
  "ValidateUpdate r =
     (case (case ur_Name r of None \<Rightarrow> None | Some n \<Rightarrow> validateName n) of Some e \<Rightarrow> Some e
      | None \<Rightarrow> (case (case ur_Version r of None \<Rightarrow> None | Some v \<Rightarrow> validateVersion v) of Some e \<Rightarrow> Some e
      | None \<Rightarrow> (case (if length (ur_Capabilities r) > 0 then ValidateCapabilities (ur_Capabilities r) else None) of
                   Some e \<Rightarrow> Some e
      | None \<Rightarrow> (case ur_ContainerImage r of None \<Rightarrow> None | Some im \<Rightarrow> ValidateContainerImage (Some im)))))"

section \<open>What validation accepts\<close>

definition image_ok :: "ContainerImage \<Rightarrow> bool" where
  "image_ok im = (CHR ''.'' \<in> set (ci_Registry im) \<and> ci_Repository im \<noteq> [] \<and>
     \<not> sublist ''://'' (ci_Repository im) \<and> ci_Tag im \<noteq> [] \<and>
     (\<forall>c \<in> set (ci_Tag im). word_alnum c \<or> c = CHR ''.'' \<or> c = CHR ''_'' \<or> c = CHR ''-''))"

definition name_ok :: "string \<Rightarrow> bool" where
  "name_ok n = (length n \<le> 63 \<and> AgentNameRegex n)"

definition capabilities_ok :: "string list \<Rightarrow> bool" where
  "capabilities_ok cs = (cs \<noteq> [] \<and> set cs \<subseteq> set loadCapabilitiesTaxonomy)"

lemma validateName_ok: "validateName n = None \<longleftrightarrow> name_ok n"
  by (auto simp: validateName_def name_ok_def MaxAgentNameLength_def AgentNameRegex_def)

lemma SemverRegex_Nil [simp]: "\<not> SemverRegex []"
  by (simp add: SemverRegex_def TrimPrefix_def HasPrefix_def number_point_def)

lemma validateVersion_ok: "validateVersion v = None \<longleftrightarrow> SemverRegex v"
  by (auto simp: validateVersion_def)

lemma check_capabilities_ok: "check_capabilities cs = None \<longleftrightarrow> set cs \<subseteq> set loadCapabilitiesTaxonomy"
  by (induction cs) auto

lemma ValidateCapabilities_ok: "ValidateCapabilities cs = None \<longleftrightarrow> capabilities_ok cs"
  by (simp add: ValidateCapabilities_def capabilities_ok_def check_capabilities_ok)

lemma sublist_byte: "sublist [c] (s :: string) \<longleftrightarrow> c \<in> set s"
  by (metis Contains_byte Contains_sublist)

lemma ValidateContainerImage_ok: "ValidateContainerImage (Some im) = None \<longleftrightarrow> image_ok im"
  by (auto simp: ValidateContainerImage_def image_ok_def list_all_iff Contains_sublist sublist_byte)

lemma ValidateRegistration_ok:
  "ValidateRegistration D r s = None \<longleftrightarrow>
     name_ok (rr_Name r) \<and> SemverRegex (rr_Version r) \<and> capabilities_ok (rr_Capabilities r) \<and>
     pred_option image_ok (rr_ContainerImage r) \<and>
     GetAgentByProjectAndName D (rr_ProjectID r) (rr_Name r) s = Inl ErrAgentNotFound"
  by (auto simp: ValidateRegistration_def validateName_ok [symmetric] validateVersion_ok [symmetric]
      ValidateCapabilities_ok [symmetric] ValidateContainerImage_ok [symmetric] MinCapabilities_def ValidateCapabilities_def
      split: option.splits sum.splits)

lemma ValidateUpdate_ok:
  "ValidateUpdate r = None \<longleftrightarrow>
     pred_option name_ok (ur_Name r) \<and> pred_option SemverRegex (ur_Version r) \<and>
     (ur_Capabilities r = [] \<or> capabilities_ok (ur_Capabilities r)) \<and> pred_option image_ok (ur_ContainerImage r)"
  by (auto simp: ValidateUpdate_def validateName_ok [symmetric] validateVersion_ok [symmetric]
      ValidateCapabilities_ok [symmetric] ValidateContainerImage_ok [symmetric]
      split: option.splits)

end
