(* ===== verification/Langfuse_Client.thy ===== *)
theory Langfuse_Client
  imports Go_Prelude
begin

text \<open>
  The client of the tracing service Langfuse (\<^verbatim>\<open>pkg/agent_registry/langfuse_client.go\<close>): the guards
  of each call, and the loop that posts up to four times with growing pauses. The HTTP library is a
  parameter: what attempt number \<open>n\<close> gave, the status of the answer or \<^const>\<open>None\<close> when no request could be
  built or no answer came. The loop's index into the list of pauses is checked, as Go checks it: an index
  out of range is the result \<^const>\<open>None\<close>.
\<close>

record langfuse_client =
  lf_baseURL :: string
  lf_publicKey :: string
  lf_secretKey :: string

datatype lf_error = NotConfigured | MissingField string | Exhausted nat | RequestFailed | BadStatus int | BadBody

definition configured :: "langfuse_client \<Rightarrow> bool" where
  "configured c = (\<not> (lf_baseURL c = [] \<or> lf_publicKey c = [] \<or> lf_secretKey c = []))"

definition retryDelays :: "nat list" where "retryDelays = [1, 2, 4]"
definition maxRetries :: nat where "maxRetries = 3"

text \<open>
  The retry loop: whether some attempt was answered with an accepted status, the number of posts
  made and the pauses slept, in seconds.
\<close>

function retry_from ::
  "(int \<Rightarrow> bool) \<Rightarrow> (nat \<Rightarrow> int option) \<Rightarrow> nat list \<Rightarrow> nat \<Rightarrow> nat \<Rightarrow> (bool \<times> nat \<times> nat list) option" where
  "retry_from ok resp delays retries n =
     (if n > retries then Some (False, 0, [])
      else if n > 0 \<and> n - 1 \<ge> length delays then None
      else (let slept = (if n > 0 then [delays ! (n - 1)] else [])
            in if (case resp n of Some st \<Rightarrow> ok st | None \<Rightarrow> False) then Some (True, 1, slept)
               else map_option (\<lambda>(r, posts, ds). (r, Suc posts, slept @ ds))
                      (retry_from ok resp delays retries (Suc n))))"
  by pat_completeness auto
termination by (relation "measure (\<lambda>(_, _, _, retries, n). Suc retries - n)") auto

declare retry_from.simps [simp del]

definition post_with_retry :: "(int \<Rightarrow> bool) \<Rightarrow> (nat \<Rightarrow> int option) \<Rightarrow> (bool \<times> nat \<times> nat list) option" where
  "post_with_retry ok resp = retry_from ok resp retryDelays maxRetries 0"

definition created :: "int \<Rightarrow> bool" where
  "created st = (st = 200 \<or> st = 201)"

definition ingested :: "int \<Rightarrow> bool" where
  "ingested st = (st = 200 \<or> st = 201 \<or> st = 202 \<or> st = 204 \<or> st = 207)"

definition posted :: "(int \<Rightarrow> bool) \<Rightarrow> (nat \<Rightarrow> int option) \<Rightarrow> lf_error option option" where
  "posted ok resp = map_option (\<lambda>(r, _, _). if r then None else Some (Exhausted (maxRetries + 1)))
     (post_with_retry ok resp)"

text \<open>
  The calls. A result \<^term>\<open>Some e\<close> is the error returned (\<^term>\<open>Some None\<close>: nil), \<^const>\<open>None\<close> a panic. The
  payloads are values \<^verbatim>\<open>json.Marshal\<close> accepts.
\<close>

definition CreateOrUpdateUser :: "langfuse_client \<Rightarrow> (nat \<Rightarrow> int option) \<Rightarrow> lf_error option option" where
  "CreateOrUpdateUser c resp = (if \<not> configured c then Some (Some NotConfigured) else posted created resp)"

definition TraceExperiment :: "langfuse_client \<Rightarrow> string \<Rightarrow> string \<Rightarrow> (nat \<Rightarrow> int option) \<Rightarrow> lf_error option option" where
  "TraceExperiment c traceID name resp =
     (if \<not> configured c then Some (Some NotConfigured)
      else if traceID = [] then Some (Some (MissingField ''trace ID''))
      else if name = [] then Some (Some (MissingField ''trace name''))
      else posted created resp)"

record observation = ob_ID :: string  ob_TraceID :: string  ob_Name :: string

text \<open>The identifier an observation or a score is sent under: the payload's, or one made from the clock.\<close>

definition payload_id :: "string \<Rightarrow> int \<Rightarrow> string \<Rightarrow> string" where
  "payload_id kind now i = (if i = [] then kind @ FormatInt now else i)"

definition CreateObservation ::
  "langfuse_client \<Rightarrow> observation option \<Rightarrow> (nat \<Rightarrow> int option) \<Rightarrow> lf_error option option" where
  "CreateObservation c p resp =
     (if \<not> configured c then Some (Some NotConfigured)
      else if (case p of None \<Rightarrow> True | Some o' \<Rightarrow> ob_TraceID o' = [] \<or> ob_Name o' = [])
      then Some (Some (MissingField ''observation payload''))
      else posted ingested resp)"

definition CreateScore ::
  "langfuse_client \<Rightarrow> observation option \<Rightarrow> (nat \<Rightarrow> int option) \<Rightarrow> lf_error option option" where
  "CreateScore c p resp =
     (if \<not> configured c then Some (Some NotConfigured)
      else if (case p of None \<Rightarrow> True | Some o' \<Rightarrow> ob_TraceID o' = [] \<or> ob_Name o' = [])
      then Some (Some (MissingField ''score payload''))
      else posted ingested resp)"

text \<open>
  A trace's metadata is read once, without retries: \<open>get\<close> is the answer's status and the decoded
  body (\<^const>\<open>None\<close> when it does not parse, the inner \<^const>\<open>None\<close> when it carries no metadata).
\<close>

definition GetTraceMetadata ::
  "langfuse_client \<Rightarrow> string \<Rightarrow> (int \<times> (string \<times> 'v) list option option) option \<Rightarrow> lf_error + (string \<times> 'v) list" where
  "GetTraceMetadata c traceID get =
     (if \<not> configured c then Inl NotConfigured
      else if traceID = [] then Inl (MissingField ''trace ID'')
      else (case get of None \<Rightarrow> Inl RequestFailed
        | Some (st, body) \<Rightarrow>
            if st = 404 then Inr []
            else if st < 200 \<or> st \<ge> 300 then Inl (BadStatus st)
            else (case body of None \<Rightarrow> Inl BadBody
              | Some None \<Rightarrow> Inr []
              | Some (Some m) \<Rightarrow> Inr m)))"

section \<open>What the loop does\<close>

definition accepted_at :: "(int \<Rightarrow> bool) \<Rightarrow> (nat \<Rightarrow> int option) \<Rightarrow> nat \<Rightarrow> bool" where
  "accepted_at ok resp n = (case resp n of Some st \<Rightarrow> ok st | None \<Rightarrow> False)"

lemma retry_from_step:
  "n \<le> retries \<Longrightarrow> n \<le> length delays \<Longrightarrow>
   retry_from ok resp delays retries n =
     (let slept = (if n > 0 then [delays ! (n - 1)] else [])
      in if accepted_at ok resp n then Some (True, 1, slept)
         else map_option (\<lambda>(r, posts, ds). (r, Suc posts, slept @ ds)) (retry_from ok resp delays retries (Suc n)))"
  by (subst retry_from.simps) (auto simp: accepted_at_def Let_def)

lemma retry_from_end: "n > retries \<Longrightarrow> retry_from ok resp delays retries n = Some (False, 0, [])"
  by (subst retry_from.simps) simp

text \<open>
  The loop by its attempts: it stops at the first one accepted, else makes all four; it slept the
  pauses before each attempt but the first.
\<close>

lemma post_with_retry_exact:
  "post_with_retry ok resp =
     (let n = length (takeWhile (\<lambda>i. \<not> accepted_at ok resp i) [0, 1, 2, 3])
      in Some (n < 4, min (Suc n) 4, take n [1, 2, 4]))"
  unfolding post_with_retry_def retryDelays_def maxRetries_def
  by (simp add: retry_from_step retry_from_end Let_def numeral_eq_Suc)

lemma first_four: "(\<exists>n. n < 4 \<and> P n) \<longleftrightarrow> P 0 \<or> P 1 \<or> P 2 \<or> P (3 :: nat)"
  by (auto simp: numeral_eq_Suc less_Suc_eq)

lemma posted_exact: "posted ok resp = Some (if \<exists>n < 4. accepted_at ok resp n then None else Some (Exhausted 4))"
  by (auto simp: first_four posted_def post_with_retry_exact maxRetries_def Let_def)

lemma CreateOrUpdateUser_exact:
  "CreateOrUpdateUser c resp = Some None \<longleftrightarrow> configured c \<and> (\<exists>n < 4. accepted_at created resp n)"
  by (simp add: CreateOrUpdateUser_def posted_exact)

lemma client_never_panics:
  "CreateOrUpdateUser c resp \<noteq> None" "TraceExperiment c t n resp \<noteq> None"
  "CreateObservation c p resp \<noteq> None" "CreateScore c p resp \<noteq> None"
  by (simp_all add: CreateOrUpdateUser_def TraceExperiment_def CreateObservation_def CreateScore_def posted_exact)

text \<open>Every upload to Langfuse returns: whatever the service answers, the retry loop never reads
  past its list of pauses, makes between one and four posts, sleeps at most seven seconds in all, and
  reports success exactly when one of the first four attempts was answered with an accepted status.\<close>

theorem upload_terminates:
  "\<exists>r posts slept. post_with_retry ok resp = Some (r, posts, slept) \<and> 1 \<le> posts \<and> posts \<le> 4 \<and>
     sum_list slept \<le> 7 \<and> length slept = posts - 1 \<and> (r \<longleftrightarrow> (\<exists>n. n < 4 \<and> accepted_at ok resp n))"
  unfolding first_four by (simp add: post_with_retry_exact Let_def)

end
