(* ===== verification/Agent_Helm.thy ===== *)
theory Agent_Helm
  imports Go_Prelude
begin

text \<open>
  Helm releases of the agent registry (\<^verbatim>\<open>pkg/agent_registry/helm.go\<close>): the release name made of an
  agent's name, the command lines of an install and of an uninstall, and the patches of environment
  variables. Running \<^verbatim>\<open>helm\<close> and \<^verbatim>\<open>kubectl\<close> is outside the model: what a command does is a parameter,
  its arguments are what is modelled. Temporary files are named by the parameter \<open>tmp\<close> and take no
  error.
\<close>

section \<open>Release names\<close>

text \<open>
  The loop that replaces leading hyphens: \<open>"a" + name[1:]\<close> for as long as the name starts with one.
\<close>

partial_function (option) lead_with_a :: "string \<Rightarrow> string option" where
  "lead_with_a name = (if HasPrefix name ''-'' then lead_with_a (''a'' @ drop 1 name) else Some name)"

definition label_char :: "char \<Rightarrow> bool" where
  "label_char c = (of_char c \<ge> (97::nat) \<and> of_char c \<le> (122::nat) \<or> is_digit c \<or> c = CHR ''-'')"

fun squeeze_hyphens :: "string \<Rightarrow> string" where
  "squeeze_hyphens (c # d # s) =
     (if c = CHR ''-'' \<and> d = CHR ''-'' then squeeze_hyphens (d # s) else c # squeeze_hyphens (d # s))"
| "squeeze_hyphens s = s"

definition TrimRightHyphens :: "string \<Rightarrow> string" where
  "TrimRightHyphens s = TrimRightP (\<lambda>c. c = CHR ''-'') s"

definition SanitizeReleaseName :: "string \<Rightarrow> string option" where
  "SanitizeReleaseName name =
     (if name = [] then Some ''agent''
      else case lead_with_a (map (\<lambda>c. if label_char c then c else CHR ''-'') (ToLower name)) of
        None \<Rightarrow> None
      | Some n \<Rightarrow>
          (let n = squeeze_hyphens (TrimRightHyphens n);
               n = (if n = [] then ''agent'' else n)
           in Some (if length n > 63 then TrimRightHyphens (take 63 n) else n)))"

section \<open>Command lines\<close>

record HelmEnvVar = ev_Name :: string  ev_Value :: string  ev_Sensitive :: bool

record HelmDeployRequest =
  hd_ReleaseName :: string
  hd_Namespace :: string
  hd_TargetNamespace :: string
  hd_ChartPath :: string
  hd_ChartData :: "string option"
  hd_ChartVersion :: "string option"
  hd_ValuesYAML :: "string option"
  hd_Kubeconfig :: "string option"
  hd_AgentID :: string
  hd_ImageTag :: "string option"
  hd_HelmEnvVars :: "HelmEnvVar list"

definition blank :: "string \<Rightarrow> bool" where
  "blank s = (TrimSpace s = [])"

definition given :: "string option \<Rightarrow> bool" where
  "given s = (case s of None \<Rightarrow> False | Some t \<Rightarrow> \<not> blank t)"

datatype helm_error =
  ReleaseRequired | NamespaceRequired | BadChartData | ChartRequired | HelmFailed string | NilRequest

text \<open>The arguments of the environment variables: blank ones are left out.\<close>

fun env_args :: "HelmEnvVar list \<Rightarrow> string list" where
  "env_args [] = []"
| "env_args (v # vs) =
     (if blank (ev_Value v) then env_args vs
      else (if ev_Sensitive v then [''--set-string'', ''secrets.'' @ ev_Name v @ ''='' @ ev_Value v]
            else [''--set'', ''configMap.'' @ ev_Name v @ ''='' @ ev_Value v]) @ env_args vs)"

text \<open>
  The arguments of \<^verbatim>\<open>helm upgrade\<close>, up to those of the post-renderer (\<^verbatim>\<open>imageref.HelmPostRenderer\<close>),
  the last argument.
\<close>

definition deploy_args :: "string \<Rightarrow> string \<Rightarrow> HelmDeployRequest \<Rightarrow> string \<Rightarrow> string list \<Rightarrow> string list" where
  "deploy_args tmp timeout r chart post =
     [''upgrade'', ''--install'', hd_ReleaseName r, chart, ''--namespace'', hd_Namespace r, ''--create-namespace'',
      ''--wait'', ''--timeout'', (if blank timeout then ''5m'' else timeout), ''--atomic'', ''--cleanup-on-fail''] @
     (if given (hd_ChartVersion r) then [''--version'', the (hd_ChartVersion r)] else []) @
     (if given (hd_ValuesYAML r) then [''--values'', tmp @ ''values''] else []) @
     (if given (hd_Kubeconfig r) then [''--kubeconfig'', tmp @ ''kubeconfig''] else []) @
     [''--set'', ''agentId='' @ hd_AgentID r] @
     (if given (hd_ImageTag r) then [''--set'', ''image.tag='' @ the (hd_ImageTag r)] else []) @
     [''--set'', ''agent.name='' @ hd_ReleaseName r] @
     (if blank (hd_TargetNamespace r) then []
      else [''--set'', ''agent.config.K8S_NAMESPACE='' @ hd_TargetNamespace r]) @
     env_args (hd_HelmEnvVars r) @ post"

text \<open>
  \<^verbatim>\<open>DeployWithHelm\<close>: the command it runs, or the error before it gets there. \<open>base64_ok\<close> tells whether
  the chart data decodes. \<^const>\<open>None\<close> would be the release name's loop not ending.
\<close>

definition deploy_command ::
  "(string \<Rightarrow> bool) \<Rightarrow> string \<Rightarrow> string \<Rightarrow> string list \<Rightarrow> HelmDeployRequest \<Rightarrow> (helm_error + string list) option" where
  "deploy_command base64_ok tmp timeout post r =
     (case SanitizeReleaseName (hd_ReleaseName r) of None \<Rightarrow> None
      | Some rel \<Rightarrow>
          (let r = r\<lparr>hd_ReleaseName := rel\<rparr> in Some (
             if blank rel then Inl ReleaseRequired
             else if blank (hd_Namespace r) then Inl NamespaceRequired
             else if given (hd_ChartData r)
             then (if base64_ok (the (hd_ChartData r))
                   then Inr (deploy_args tmp timeout r (tmp @ ''chart'') post) else Inl BadChartData)
             else if \<not> blank (hd_ChartPath r) then Inr (deploy_args tmp timeout r (hd_ChartPath r) post)
             else Inl ChartRequired)))"

record HelmUninstallRequest =
  hu_ReleaseName :: string
  hu_Namespace :: string
  hu_Kubeconfig :: "string option"

definition uninstall_command :: "string \<Rightarrow> HelmUninstallRequest option \<Rightarrow> (helm_error + string list) option" where
  "uninstall_command tmp req =
     (case req of None \<Rightarrow> Some (Inl NilRequest)
      | Some r \<Rightarrow>
          if blank (hu_ReleaseName r) then Some (Inl ReleaseRequired)
          else if blank (hu_Namespace r) then Some (Inl NamespaceRequired)
          else map_option (\<lambda>rel. Inr (
                 [''uninstall'', rel, ''--namespace'', hu_Namespace r] @
                 (if given (hu_Kubeconfig r) then [''--kubeconfig'', tmp @ ''kubeconfig''] else [])))
               (SanitizeReleaseName (hu_ReleaseName r)))"

text \<open>
  \<^verbatim>\<open>UninstallWithHelm\<close> over what the command prints and whether it succeeds: a failure whose output
  has \<open>not found\<close> in it is a success.
\<close>

definition UninstallWithHelm ::
  "string \<Rightarrow> (string list \<Rightarrow> string \<times> bool) \<Rightarrow> HelmUninstallRequest option \<Rightarrow> (helm_error + string) option" where
  "UninstallWithHelm tmp run req =
     (case uninstall_command tmp req of None \<Rightarrow> None
      | Some (Inl e) \<Rightarrow> Some (Inl e)
      | Some (Inr args) \<Rightarrow> (case run args of (out, success) \<Rightarrow>
          Some (if success then Inr out
                else if Contains out ''not found'' \<or> Contains out ''release: not found'' then Inr out
                else Inl (HelmFailed out))))"

definition DeployWithHelm ::
  "(string \<Rightarrow> bool) \<Rightarrow> string \<Rightarrow> string \<Rightarrow> string list \<Rightarrow> (string list \<Rightarrow> string \<times> bool) \<Rightarrow> HelmDeployRequest \<Rightarrow>
   (helm_error + string) option" where
  "DeployWithHelm base64_ok tmp timeout post run r =
     (case deploy_command base64_ok tmp timeout post r of None \<Rightarrow> None
      | Some (Inl e) \<Rightarrow> Some (Inl e)
      | Some (Inr args) \<Rightarrow> (case run args of (out, success) \<Rightarrow> Some (if success then Inr out else Inl (HelmFailed out))))"

section \<open>Patches of environment variables\<close>

text \<open>
  \<^verbatim>\<open>patchEnvVars\<close>: the variables that go to the config map and those that go to the secret, in order.
\<close>

definition env_patches :: "HelmEnvVar list \<Rightarrow> (string \<times> string) list \<times> (string \<times> string) list" where
  "env_patches vs =
     (let set_vars = filter (\<lambda>v. \<not> blank (ev_Value v)) vs
      in (map (\<lambda>v. (ev_Name v, ev_Value v)) (filter (\<lambda>v. \<not> ev_Sensitive v) set_vars),
          map (\<lambda>v. (ev_Name v, ev_Value v)) (filter ev_Sensitive set_vars)))"

text \<open>\<^verbatim>\<open>mapHelmEnvVarInputs\<close> of the resolvers: a variable's input may be nil, and its flag may be missing.\<close>

definition mapHelmEnvVarInputs :: "(string \<times> string \<times> bool option) option list \<Rightarrow> HelmEnvVar list" where
  "mapHelmEnvVarInputs ins = concat (map (\<lambda>i. case i of None \<Rightarrow> []
     | Some (n, v, sens) \<Rightarrow> if blank v then []
         else [\<lparr>ev_Name = n, ev_Value = v, ev_Sensitive = (case sens of None \<Rightarrow> False | Some b \<Rightarrow> b)\<rparr>]) ins)"

text \<open>\<^verbatim>\<open>resolveAgentInstallNamespace\<close> over the environment variable: where the release goes, and what it watches.\<close>

definition resolveAgentInstallNamespace :: "string \<Rightarrow> string \<Rightarrow> string \<times> string" where
  "resolveAgentInstallNamespace env userNamespace =
     (let sysNs = TrimSpace env in if sysNs = [] then (userNamespace, []) else (sysNs, userNamespace))"

section \<open>What a release name is\<close>

lemma lead_with_a_exact [code]:
  "lead_with_a name = Some (case name of [] \<Rightarrow> [] | c # r \<Rightarrow> (if c = CHR ''-'' then CHR ''a'' else c) # r)"
proof (cases name)
  case Nil
  then show ?thesis by (subst lead_with_a.simps) (simp add: HasPrefix_def)
next
  case (Cons c r)
  have a: "lead_with_a (CHR ''a'' # r) = Some (CHR ''a'' # r)"
    by (subst lead_with_a.simps) (simp add: HasPrefix_def)
  show ?thesis using Cons a by (subst lead_with_a.simps) (auto simp: HasPrefix_def)
qed

lemma squeeze_set: "set (squeeze_hyphens s) = set s"
  by (induction s rule: squeeze_hyphens.induct) auto

lemma squeeze_Nil [simp]: "squeeze_hyphens s = [] \<longleftrightarrow> s = []"
  by (induction s rule: squeeze_hyphens.induct) auto

lemma squeeze_hd: "s \<noteq> [] \<Longrightarrow> hd (squeeze_hyphens s) = hd s"
  by (induction s rule: squeeze_hyphens.induct) auto

lemma squeeze_last: "s \<noteq> [] \<Longrightarrow> last (squeeze_hyphens s) = last s"
  by (induction s rule: squeeze_hyphens.induct) auto

definition no_double :: "string \<Rightarrow> bool" where
  "no_double s = (\<not> sublist ''--'' s)"

lemma no_double_Cons: "no_double (c # s) \<longleftrightarrow> \<not> (c = CHR ''-'' \<and> s \<noteq> [] \<and> hd s = CHR ''-'') \<and> no_double s"
  by (cases s) (auto simp: no_double_def sublist_Cons_right)

lemma squeeze_no_double: "no_double (squeeze_hyphens s)"
proof (induction s rule: squeeze_hyphens.induct)
  case (1 c d s)
  then show ?case using squeeze_hd [of "d # s"] by (auto simp: no_double_Cons)
qed (simp_all add: no_double_def sublist_Cons_right)

lemma squeeze_id: "no_double s \<Longrightarrow> squeeze_hyphens s = s"
  by (induction s rule: squeeze_hyphens.induct) (auto simp: no_double_Cons)

lemma no_double_prefix: "no_double s \<Longrightarrow> prefix p s \<Longrightarrow> no_double p"
  unfolding no_double_def using prefix_imp_sublist sublist_order.order_trans by blast

text \<open>A DNS label: what Kubernetes accepts as the name of most objects.\<close>

definition dns_label :: "string \<Rightarrow> bool" where
  "dns_label s = (s \<noteq> [] \<and> length s \<le> 63 \<and> list_all label_char s \<and> hd s \<noteq> CHR ''-'' \<and> last s \<noteq> CHR ''-'')"

lemma TrimRightHyphens_last: "TrimRightHyphens s \<noteq> [] \<Longrightarrow> last (TrimRightHyphens s) \<noteq> CHR ''-''"
  using TrimRightP_last unfolding TrimRightHyphens_def by blast

lemma TrimRightHyphens_prefix: "prefix (TrimRightHyphens s) s"
  by (simp add: TrimRightHyphens_def TrimRightP_prefix)

lemma TrimRightHyphens_hd: "TrimRightHyphens s \<noteq> [] \<Longrightarrow> hd (TrimRightHyphens s) = hd s"
  by (simp add: TrimRightHyphens_def TrimRightP_hd)

lemma TrimRightHyphens_nonempty: "s \<noteq> [] \<Longrightarrow> hd s \<noteq> CHR ''-'' \<Longrightarrow> TrimRightHyphens s \<noteq> []"
  by (cases s) (auto simp: TrimRightHyphens_def TrimRightP_def dropWhile_append)

lemma TrimRightHyphens_id: "s = [] \<or> last s \<noteq> CHR ''-'' \<Longrightarrow> TrimRightHyphens s = s"
  by (cases s rule: rev_cases) (auto simp: TrimRightHyphens_def TrimRightP_def)

lemma lower_idem: "label_char c \<Longrightarrow> to_lower_char c = c"
  by (auto simp: label_char_def to_lower_char_def is_digit_def)

definition fits_label :: "string \<Rightarrow> string" where
  "fits_label n = (if length n > 63 then TrimRightHyphens (take 63 n) else n)"

lemma fits_label_ok:
  assumes "n \<noteq> []" "list_all label_char n" "hd n \<noteq> CHR ''-''" "last n \<noteq> CHR ''-''" "no_double n"
  shows "dns_label (fits_label n) \<and> no_double (fits_label n)"
proof (cases "length n > 63")
  case True
  let ?t = "take 63 n"
  have t: "?t \<noteq> []" "hd ?t \<noteq> CHR ''-''" using True assms by (auto simp: hd_take)
  then have ne: "TrimRightHyphens ?t \<noteq> []" by (rule TrimRightHyphens_nonempty)
  have p: "prefix (TrimRightHyphens ?t) n"
    using TrimRightHyphens_prefix take_is_prefix by (rule prefix_order.order_trans)
  then have "set (TrimRightHyphens ?t) \<subseteq> set n" by (rule set_mono_prefix)
  moreover have "length (TrimRightHyphens ?t) \<le> 63"
    using prefix_length_le [OF TrimRightHyphens_prefix [of ?t]] by simp
  moreover have "hd (TrimRightHyphens ?t) \<noteq> CHR ''-''" using TrimRightHyphens_hd [OF ne] t by simp
  ultimately show ?thesis
    using True ne p assms no_double_prefix TrimRightHyphens_last [OF ne]
    by (auto simp: fits_label_def dns_label_def list_all_iff)
qed (use assms in \<open>auto simp: fits_label_def dns_label_def\<close>)

lemma SanitizeReleaseName_step:
  assumes "name \<noteq> []" "list_all label_char n" "n \<noteq> []" "hd n \<noteq> CHR ''-''"
    "lead_with_a (map (\<lambda>c. if label_char c then c else CHR ''-'') (ToLower name)) = Some n"
  shows "SanitizeReleaseName name = Some (fits_label (squeeze_hyphens (TrimRightHyphens n)))"
  using assms TrimRightHyphens_nonempty [of n]
  by (simp add: SanitizeReleaseName_def fits_label_def Let_def)

lemma release_name_ok: "\<exists>n. SanitizeReleaseName name = Some n \<and> dns_label n \<and> no_double n"
proof (cases name)
  case Nil
  have "dns_label ''agent'' \<and> no_double ''agent''" by code_simp
  then show ?thesis using Nil by (simp add: SanitizeReleaseName_def)
next
  case (Cons c r)
  let ?m = "map (\<lambda>c. if label_char c then c else CHR ''-'') (ToLower name)"
  obtain d s where m: "?m = d # s" using Cons by (simp add: ToLower_def)
  have lab: "list_all label_char ?m" by (auto simp: list_all_iff label_char_def)
  let ?n = "(if d = CHR ''-'' then CHR ''a'' else d) # s"
  have lead: "lead_with_a ?m = Some ?n" by (simp add: lead_with_a_exact m)
  have "label_char CHR ''a''" by code_simp
  then have n: "list_all label_char ?n" "hd ?n \<noteq> CHR ''-''" using lab unfolding m by auto
  let ?t = "TrimRightHyphens ?n"
  have t: "?t \<noteq> []" using n(2) by (intro TrimRightHyphens_nonempty) auto
  have "set ?t \<subseteq> set ?n" by (rule set_mono_prefix [OF TrimRightHyphens_prefix])
  then have "list_all label_char (squeeze_hyphens ?t)" using n(1) unfolding list_all_iff squeeze_set by blast
  moreover have "hd (squeeze_hyphens ?t) \<noteq> CHR ''-''" "last (squeeze_hyphens ?t) \<noteq> CHR ''-''"
    using squeeze_hd [OF t] squeeze_last [OF t] TrimRightHyphens_hd [OF t] TrimRightHyphens_last [OF t] n(2) by auto
  ultimately have "dns_label (fits_label (squeeze_hyphens ?t)) \<and> no_double (fits_label (squeeze_hyphens ?t))"
    using t by (intro fits_label_ok) (simp_all add: squeeze_no_double)
  moreover have "SanitizeReleaseName name = Some (fits_label (squeeze_hyphens ?t))"
    using Cons by (intro SanitizeReleaseName_step [OF _ n(1) _ n(2) lead]) auto
  ultimately show ?thesis by blast
qed

lemma release_name_id:
  assumes "dns_label n" "no_double n"
  shows "SanitizeReleaseName n = Some n"
proof -
  have low: "ToLower n = n" using assms by (auto simp: dns_label_def ToLower_def list_all_iff lower_idem intro: map_idI)
  have m: "map (\<lambda>c. if label_char c then c else CHR ''-'') n = n"
    using assms by (auto simp: dns_label_def list_all_iff intro: map_idI)
  have "lead_with_a n = Some n" using assms by (cases n) (auto simp: lead_with_a_exact dns_label_def)
  then have "SanitizeReleaseName n = Some (fits_label (squeeze_hyphens (TrimRightHyphens n)))"
    using assms by (intro SanitizeReleaseName_step) (auto simp: low m dns_label_def)
  then show ?thesis
    using assms by (simp add: TrimRightHyphens_id dns_label_def squeeze_id fits_label_def)
qed

text \<open>C40. The release name made of an agent's name is total and stable: the loop over leading hyphens
  ends for every name, the result is a DNS label of at most 63 bytes without two hyphens in a row, and
  making a release name of it again changes nothing, so an uninstall names the release of the install.\<close>

theorem release_name_total:
  "\<exists>n. SanitizeReleaseName name = Some n \<and> dns_label n \<and> no_double n \<and> SanitizeReleaseName n = Some n"
  using release_name_ok [of name] release_name_id by blast

text \<open>
  But it is not the DNS-1035 label the function's comment promises: a name that starts with a digit
  keeps it, and a service of that name would be refused.
\<close>

lemma digit_kept_first: "SanitizeReleaseName ''7b-agent'' = Some ''7b-agent''"
  by (rule release_name_id) code_simp+

text \<open>
  Two different names can make one release: the second install upgrades the first agent's release.
\<close>

lemma release_names_collide: "SanitizeReleaseName ''sre_agent'' = SanitizeReleaseName ''sre.agent''"
  by (simp add: SanitizeReleaseName_def lead_with_a_exact) code_simp

section \<open>What the command lines carry\<close>

text \<open>Every set variable appears once, in order, sensitive ones only under the secret.\<close>

lemma env_args_exact:
  "env_args vs = concat (map (\<lambda>v. if ev_Sensitive v
      then [''--set-string'', ''secrets.'' @ ev_Name v @ ''='' @ ev_Value v]
      else [''--set'', ''configMap.'' @ ev_Name v @ ''='' @ ev_Value v]) (filter (\<lambda>v. \<not> blank (ev_Value v)) vs))"
  by (induction vs) auto

lemma deploy_args_nth:
  "deploy_args tmp timeout r chart post ! 2 = hd_ReleaseName r" "deploy_args tmp timeout r chart post ! 5 = hd_Namespace r"
  by (simp_all add: deploy_args_def)

lemma uninstall_names_install:
  assumes "deploy_command base64_ok tmp timeout post r = Some (Inr args)"
    "hu_ReleaseName u = hd_ReleaseName r" "\<not> blank (hd_ReleaseName r)" "\<not> blank (hu_Namespace u)"
  shows "\<exists>args'. uninstall_command tmp (Some u) = Some (Inr args') \<and> args' ! 1 = args ! 2 \<and> args' ! 3 = hu_Namespace u \<and>
    args ! 5 = hd_Namespace r"
  using assms by (auto simp: deploy_command_def uninstall_command_def deploy_args_nth Let_def
      split: option.splits if_splits)

text \<open>
  With an install namespace configured the release goes there, not to the namespace the user named.
\<close>

lemma install_namespace:
  "TrimSpace env \<noteq> [] \<Longrightarrow> resolveAgentInstallNamespace env ns = (TrimSpace env, ns)"
  by (simp add: resolveAgentInstallNamespace_def Let_def)

end
