(* ===== verification/Agent_Service.thy ===== *)
theory Agent_Service
  imports Agent_Registry Langfuse_Client Agent_Helm
begin

text \<open>
  The service of the agent registry (\<^verbatim>\<open>pkg/agent_registry/service.go\<close>), the GraphQL resolvers that call
  it (\<^verbatim>\<open>graph/agent_registry.resolvers.go\<close>), the handlers that check roles before calling it
  (\<^verbatim>\<open>handler.go\<close>) and the periodic health checks (\<^verbatim>\<open>health_scheduler.go\<close>). The state is the collection,
  the background jobs that the service has started and not yet run, and the Helm commands issued. A job of
  \<^verbatim>\<open>SyncToLangfuse\<close> holds the document it was started with. Each operation reads the clock once, its
  argument \<open>now\<close>; identifiers of new agents are an argument too.
\<close>

datatype job = SyncJob Agent | HealthJob string

datatype helm_call = Upgraded "string list" | Uninstalled "string list"

record registry =
  rg_agents :: "Agent list"
  rg_jobs :: "job list"
  rg_helm :: "helm_call list"

text \<open>
  The environment: the database, the Langfuse client (nil or not) and its answers, what an HTTP GET
  gives (the error's text or the status), Helm's runs, and the configuration.
\<close>

record registry_env =
  re_db :: registry_db
  re_langfuse :: "langfuse_client option"
  re_answers :: "Agent \<Rightarrow> nat \<Rightarrow> int option"
  re_get :: "string \<Rightarrow> string + int"
  re_run :: "string list \<Rightarrow> string \<times> bool"
  re_base64_ok :: "string \<Rightarrow> bool"
  re_tmp :: string
  re_helm_timeout :: string
  re_post_args :: "string list"
  re_install_namespace :: string
  re_chart_path :: string

datatype 'a outcome = Returned 'a | Failed reg_error | Panicked

definition rg_update :: "(Agent list \<Rightarrow> 'e \<times> Agent list) \<Rightarrow> registry \<Rightarrow> 'e \<times> registry" where
  "rg_update f w = (let (e, s) = f (rg_agents w) in (e, w\<lparr>rg_agents := s\<rparr>))"

definition start_job :: "job \<Rightarrow> registry \<Rightarrow> registry" where
  "start_job j w = w\<lparr>rg_jobs := rg_jobs w @ [j]\<rparr>"

section \<open>Synchronisation with Langfuse\<close>

datatype meta_value = MText string | MTexts "string list" | MInt int | MMap "(string \<times> string) list"

fun status_text :: "AgentStatus \<Rightarrow> string" where
  "status_text AgentStatusRegistered = ''REGISTERED''"
| "status_text AgentStatusValidating = ''VALIDATING''"
| "status_text AgentStatusActive = ''ACTIVE''"
| "status_text AgentStatusInactive = ''INACTIVE''"
| "status_text AgentStatusDeleted = ''DELETED''"

fun type_text :: "EndpointType \<Rightarrow> string" where
  "type_text EndpointTypeREST = ''REST''"
| "type_text EndpointTypeGRPC = ''GRPC''"

record user_payload = up_ID :: string  up_Name :: string  up_Metadata :: "(string \<times> meta_value) list"

definition sync_payload :: "Agent \<Rightarrow> AuditInfo \<Rightarrow> user_payload" where
  "sync_payload a ai = \<lparr>up_ID = ag_AgentID a, up_Name = ag_Name a, up_Metadata =
     [(''version'', MText (ag_Version a)), (''vendor'', MText (ag_Vendor a)),
      (''capabilities'', MTexts (ag_Capabilities a)), (''status'', MText (status_text (ag_Status a))),
      (''namespace'', MText (ag_Namespace a)), (''projectId'', MText (ag_ProjectID a)),
      (''registeredAt'', MInt (ai_CreatedAt ai)), (''updatedAt'', MInt (ai_UpdatedAt ai))] @
     (case ag_ContainerImage a of None \<Rightarrow> []
      | Some im \<Rightarrow> [(''containerImage'', MMap [(''registry'', ci_Registry im), (''repository'', ci_Repository im),
          (''tag'', ci_Tag im)])]) @
     (case ag_Endpoint a of None \<Rightarrow> []
      | Some e \<Rightarrow> [(''endpoint'', MMap [(''url'', ep_URL e), (''type'', type_text (ep_Type e))])]) @
     (case ag_Metadata a of None \<Rightarrow> []
      | Some m \<Rightarrow> (if am_Labels m = [] then [] else [(''labels'', MMap (am_Labels m))]) @
          (if am_Annotations m = [] then [] else [(''annotations'', MMap (am_Annotations m))]))\<rparr>"

definition sync_enabled :: "Agent \<Rightarrow> bool" where
  "sync_enabled a = (case ag_LangfuseConfig a of None \<Rightarrow> False | Some c \<Rightarrow> lc_SyncEnabled c)"

definition synced_at :: "int \<Rightarrow> Agent \<Rightarrow> Agent" where
  "synced_at now a = a\<lparr>ag_LangfuseConfig := map_option (\<lambda>c. c\<lparr>lc_LastSyncedAt := Some now\<rparr>) (ag_LangfuseConfig a)\<rparr>"

text \<open>
  The whole document is written back with the time of the upload, as it was when the upload was
  started. The error of that write is only printed.
\<close>

definition SyncToLangfuse :: "registry_env \<Rightarrow> int \<Rightarrow> Agent \<Rightarrow> registry \<Rightarrow> unit outcome \<times> registry" where
  "SyncToLangfuse E now a w =
     (if \<not> sync_enabled a then (Returned (), w)
      else (case re_langfuse E of None \<Rightarrow> (Returned (), w)
        | Some c \<Rightarrow> (case ag_AuditInfo a of None \<Rightarrow> (Panicked, w)
            | Some ai \<Rightarrow> (case CreateOrUpdateUser c (re_answers E a) of
                  None \<Rightarrow> (Panicked, w)
                | Some (Some e) \<Rightarrow> (Returned (), w)
                | Some None \<Rightarrow> (Returned (), snd (rg_update (op_UpdateAgent (re_db E) (synced_at now a)) w))))))"

section \<open>Registration\<close>

definition default_endpoint :: "string \<Rightarrow> string \<Rightarrow> AgentEndpoint" where
  "default_endpoint name ns =
     \<lparr>ep_URL = ''http://'' @ name @ ''.'' @ ns @ ''.svc.cluster.local:8080'', ep_Type = EndpointTypeREST,
      ep_DiscoveryType = EndpointDiscoveryManual, ep_HealthPath = ''/health'', ep_ReadyPath = ''/ready''\<rparr>"

text \<open>The discovery of an endpoint always fails: its body is commented out.\<close>

definition discoverAgentEndpoint :: "string \<Rightarrow> string \<Rightarrow> reg_error + AgentEndpoint" where
  "discoverAgentEndpoint name ns =
     Inl (Message ''Kubernetes client not configured; please provide endpoint manually'')"

definition new_agent :: "string \<Rightarrow> int \<Rightarrow> RegisterAgentRequest \<Rightarrow> Agent" where
  "new_agent uuid now r =
     \<lparr>ag_AgentID = uuid, ag_ProjectID = rr_ProjectID r, ag_Name = rr_Name r, ag_Version = rr_Version r,
      ag_Vendor = rr_Vendor r, ag_Capabilities = rr_Capabilities r, ag_ContainerImage = rr_ContainerImage r,
      ag_Namespace = rr_Namespace r, ag_HelmReleaseName = rr_HelmReleaseName r,
      ag_Endpoint = Some (case rr_Endpoint r of Some e \<Rightarrow> e
        | None \<Rightarrow> (case discoverAgentEndpoint (rr_Name r) (rr_Namespace r) of
            Inl _ \<Rightarrow> default_endpoint (rr_Name r) (rr_Namespace r) | Inr e \<Rightarrow> e)),
      ag_LangfuseConfig = rr_LangfuseConfig r, ag_Status = AgentStatusRegistered, ag_Metadata = rr_Metadata r,
      ag_AuditInfo = Some \<lparr>ai_CreatedAt = now, ai_CreatedBy = ''system'', ai_UpdatedAt = now,
        ai_UpdatedBy = ''system'', ai_LastHealthCheck = None\<rparr>\<rparr>"

definition RegisterAgent ::
  "registry_env \<Rightarrow> string \<Rightarrow> int \<Rightarrow> RegisterAgentRequest \<Rightarrow> registry \<Rightarrow> Agent outcome \<times> registry" where
  "RegisterAgent E uuid now r w =
     (let fresh = (case ValidateRegistration (re_db E) r (rg_agents w) of
          Some e \<Rightarrow> (Failed e, w)
        | None \<Rightarrow>
            (let a = new_agent uuid now r; (e, w') = rg_update (CreateAgent (re_db E) a) w
             in case e of Some e \<Rightarrow> (Failed (Wrapped ''failed to create agent'' e), w')
                | None \<Rightarrow> (Returned a, start_job (HealthJob uuid) (start_job (SyncJob a) w'))))
      in case GetAgentByNamespace (re_db E) (rr_Namespace r) (rg_agents w) of
           Inr a \<Rightarrow> if ag_Name a = rr_Name r then (Returned a, w) else fresh
         | Inl _ \<Rightarrow> fresh)"

section \<open>Reading\<close>

definition svc_GetAgent :: "registry_env \<Rightarrow> string \<Rightarrow> registry \<Rightarrow> reg_error + Agent" where
  "svc_GetAgent E i w = op_GetAgent (re_db E) i (rg_agents w)"

record PaginationInput = pg_Page :: int  pg_Limit :: int

record AgentListResponse =
  al_Agents :: "Agent list"
  al_TotalCount :: nat
  al_CurrentPage :: int
  al_TotalPages :: int
  al_HasNextPage :: bool

text \<open>
  The number of pages is the quotient rounded up; Go computes it in floating point, exactly for the
  counts of fewer than $2^{53}$ documents. For a limit of zero Go converts an infinity or a NaN to an
  integer: that value is the parameter \<open>conv\<close>.
\<close>

definition total_pages :: "int \<Rightarrow> nat \<Rightarrow> int \<Rightarrow> int" where
  "total_pages conv n limit = (if limit = 0 then conv else - ((- int n) div limit))"

definition svc_ListAgents ::
  "registry_env \<Rightarrow> int \<Rightarrow> AgentFilter option \<Rightarrow> PaginationInput option \<Rightarrow> registry \<Rightarrow> reg_error + AgentListResponse" where
  "svc_ListAgents E conv f pg w =
     (let p = (case pg of None \<Rightarrow> \<lparr>pg_Page = 1, pg_Limit = 100\<rparr> | Some p \<Rightarrow> p);
          skip = (pg_Page p - 1) * pg_Limit p
      in case op_ListAgents (re_db E) f skip (pg_Limit p) (rg_agents w) of
           Inl e \<Rightarrow> Inl (Wrapped ''failed to list agents'' e)
         | Inr (as, n) \<Rightarrow>
             (let pages = total_pages conv n (pg_Limit p)
              in Inr \<lparr>al_Agents = as, al_TotalCount = n, al_CurrentPage = pg_Page p, al_TotalPages = pages,
                   al_HasNextPage = (pg_Page p < pages)\<rparr>))"

definition svc_GetAgentsByCapabilities ::
  "registry_env \<Rightarrow> string \<Rightarrow> string list \<Rightarrow> registry \<Rightarrow> reg_error + Agent list" where
  "svc_GetAgentsByCapabilities E p cs w =
     (case op_GetAgentsByCapabilities (re_db E) p cs (rg_agents w) of
        Inl e \<Rightarrow> Inl (Wrapped ''failed to get agents by capabilities'' e) | Inr as \<Rightarrow> Inr as)"

text \<open>The identifiers and categories of the taxonomy a client is offered.\<close>

definition GetCapabilitiesTaxonomy :: "(string \<times> string) list" where
  "GetCapabilitiesTaxonomy =
     [(''pod-crash-remediation'', ''Pod Chaos''), (''pod-delete-remediation'', ''Pod Chaos''),
      (''node-drain-remediation'', ''Node Chaos''), (''network-latency-remediation'', ''Network Chaos''),
      (''network-partition-remediation'', ''Network Chaos''), (''disk-pressure-remediation'', ''Resource Chaos''),
      (''memory-stress-remediation'', ''Resource Chaos''), (''cpu-stress-remediation'', ''Resource Chaos''),
      (''container-kill-remediation'', ''Container Chaos''), (''service-unavailable-remediation'', ''Service Chaos'')]"

record AgentStatusResponse =
  as_AgentID :: string
  as_Status :: AgentStatus
  as_Healthy :: bool
  as_LastCheckedAt :: "int option"
  as_LastSynced :: "int option"

definition svc_GetAgentStatus :: "registry_env \<Rightarrow> string \<Rightarrow> registry \<Rightarrow> reg_error + AgentStatusResponse" where
  "svc_GetAgentStatus E i w =
     (case op_GetAgent (re_db E) i (rg_agents w) of Inl e \<Rightarrow> Inl e
      | Inr a \<Rightarrow>
          (let checked = (case ag_AuditInfo a of None \<Rightarrow> None | Some ai \<Rightarrow> ai_LastHealthCheck ai)
           in Inr \<lparr>as_AgentID = ag_AgentID a, as_Status = ag_Status a, as_Healthy = (checked \<noteq> None),
                as_LastCheckedAt = checked,
                as_LastSynced = (case ag_LangfuseConfig a of None \<Rightarrow> None | Some c \<Rightarrow> lc_LastSyncedAt c)\<rparr>))"

section \<open>Changing\<close>

definition merged :: "UpdateAgentRequest \<Rightarrow> Agent \<Rightarrow> Agent" where
  "merged r a = a\<lparr>
     ag_Name := (case ur_Name r of Some n \<Rightarrow> n | None \<Rightarrow> ag_Name a),
     ag_Version := (case ur_Version r of Some v \<Rightarrow> v | None \<Rightarrow> ag_Version a),
     ag_Vendor := (case ur_Vendor r of Some v \<Rightarrow> v | None \<Rightarrow> ag_Vendor a),
     ag_Capabilities := (if length (ur_Capabilities r) > 0 then ur_Capabilities r else ag_Capabilities a),
     ag_ContainerImage := (case ur_ContainerImage r of Some im \<Rightarrow> Some im | None \<Rightarrow> ag_ContainerImage a),
     ag_Endpoint := (case ur_Endpoint r of Some e \<Rightarrow> Some e | None \<Rightarrow> ag_Endpoint a),
     ag_LangfuseConfig := (case ur_LangfuseConfig r of Some c \<Rightarrow> Some c | None \<Rightarrow> ag_LangfuseConfig a),
     ag_Metadata := (case ur_Metadata r of Some m \<Rightarrow> Some m | None \<Rightarrow> ag_Metadata a)\<rparr>"

definition metadataChanged :: "UpdateAgentRequest \<Rightarrow> bool" where
  "metadataChanged r = (ur_Name r \<noteq> None \<or> ur_Version r \<noteq> None \<or> ur_Vendor r \<noteq> None \<or>
     length (ur_Capabilities r) > 0 \<or> ur_ContainerImage r \<noteq> None \<or> ur_Endpoint r \<noteq> None \<or>
     ur_LangfuseConfig r \<noteq> None \<or> ur_Metadata r \<noteq> None)"

definition svc_UpdateAgent ::
  "registry_env \<Rightarrow> int \<Rightarrow> string \<Rightarrow> UpdateAgentRequest \<Rightarrow> registry \<Rightarrow> Agent outcome \<times> registry" where
  "svc_UpdateAgent E now i r w =
     (case ValidateUpdate r of Some e \<Rightarrow> (Failed e, w)
      | None \<Rightarrow> (case op_GetAgent (re_db E) i (rg_agents w) of Inl e \<Rightarrow> (Failed e, w)
        | Inr a0 \<Rightarrow> (case ag_AuditInfo a0 of None \<Rightarrow> (Panicked, w)
            | Some ai \<Rightarrow>
                (let a = (merged r a0)\<lparr>ag_AuditInfo := Some (ai\<lparr>ai_UpdatedAt := now, ai_UpdatedBy := ''system''\<rparr>)\<rparr>;
                     (e, w') = rg_update (op_UpdateAgent (re_db E) a) w
                 in case e of Some e \<Rightarrow> (Failed (Wrapped ''failed to update agent'' e), w')
                    | None \<Rightarrow> (Returned a, if metadataChanged r then start_job (SyncJob a) w' else w')))))"

text \<open>
  The uninstall of a deletion: the command goes to Helm when it can be made, and its failure is only
  logged.
\<close>

definition uninstall_of :: "Agent \<Rightarrow> HelmUninstallRequest option" where
  "uninstall_of a =
     (let rel = (if ag_HelmReleaseName a = [] then ag_Name a else ag_HelmReleaseName a)
      in if ag_Vendor a = ''helm-deployment'' \<and> rel \<noteq> [] \<and> ag_Namespace a \<noteq> []
         then Some \<lparr>hu_ReleaseName = rel, hu_Namespace = ag_Namespace a, hu_Kubeconfig = None\<rparr> else None)"

definition run_uninstall :: "registry_env \<Rightarrow> Agent \<Rightarrow> registry \<Rightarrow> registry" where
  "run_uninstall E a w = (case uninstall_of a of None \<Rightarrow> w
     | Some u \<Rightarrow> (case uninstall_command (re_tmp E) (Some u) of
           Some (Inr args) \<Rightarrow> w\<lparr>rg_helm := rg_helm w @ [Uninstalled args]\<rparr> | _ \<Rightarrow> w))"

definition svc_DeleteAgent :: "registry_env \<Rightarrow> int \<Rightarrow> string \<Rightarrow> bool \<Rightarrow> registry \<Rightarrow> string outcome \<times> registry" where
  "svc_DeleteAgent E now i hardDelete w =
     (case op_GetAgent (re_db E) i (rg_agents w) of Inl e \<Rightarrow> (Failed e, w)
      | Inr a \<Rightarrow>
          (let w1 = run_uninstall E a w;
               finish = (\<lambda>a w. (Returned (''Agent '' @ i @ '' successfully deleted''), start_job (SyncJob a) w))
           in if hardDelete
              then (case rg_update (op_DeleteAgent (re_db E) i) w1 of
                  (Some e, w2) \<Rightarrow> (Failed (Wrapped ''failed to delete agent'' e), w2)
                | (None, w2) \<Rightarrow> finish a w2)
              else (case ag_AuditInfo a of None \<Rightarrow> (Panicked, w1)
                | Some ai \<Rightarrow>
                    (let a' = a\<lparr>ag_Status := AgentStatusDeleted,
                           ag_AuditInfo := Some (ai\<lparr>ai_UpdatedAt := now, ai_UpdatedBy := ''system''\<rparr>)\<rparr>
                     in case rg_update (op_UpdateAgent (re_db E) a') w1 of
                          (Some e, w2) \<Rightarrow> (Failed (Wrapped ''failed to mark agent as deleted'' e), w2)
                        | (None, w2) \<Rightarrow> finish a' w2))))"

text \<open>The table of status transitions.\<close>

fun validTransitions :: "AgentStatus \<Rightarrow> AgentStatus list" where
  "validTransitions AgentStatusRegistered = [AgentStatusValidating, AgentStatusDeleted]"
| "validTransitions AgentStatusValidating = [AgentStatusActive, AgentStatusInactive, AgentStatusDeleted]"
| "validTransitions AgentStatusActive = [AgentStatusInactive, AgentStatusDeleted]"
| "validTransitions AgentStatusInactive = [AgentStatusActive, AgentStatusDeleted]"
| "validTransitions AgentStatusDeleted = []"

definition updateAgentStatus :: "registry_env \<Rightarrow> int \<Rightarrow> Agent \<Rightarrow> AgentStatus \<Rightarrow> registry \<Rightarrow> unit outcome \<times> registry" where
  "updateAgentStatus E now a st w =
     (if ag_Status a = AgentStatusDeleted then (Failed (Message ''cannot transition from DELETED status''), w)
      else if st \<notin> set (validTransitions (ag_Status a))
      then (Failed (Message (''invalid status transition from '' @ status_text (ag_Status a) @ '' to '' @ status_text st)), w)
      else (case ag_AuditInfo a of None \<Rightarrow> (Panicked, w)
        | Some ai \<Rightarrow>
            (let a' = a\<lparr>ag_Status := st,
                   ag_AuditInfo := Some (ai\<lparr>ai_UpdatedAt := now, ai_LastHealthCheck := Some now\<rparr>)\<rparr>
             in case rg_update (op_UpdateAgent (re_db E) a') w of
                  (Some e, w') \<Rightarrow> (Failed (Wrapped ''failed to update agent in database'' e), w')
                | (None, w') \<Rightarrow> (Returned (), start_job (SyncJob a') w'))))"

definition SetAgentStatus :: "registry_env \<Rightarrow> int \<Rightarrow> string \<Rightarrow> AgentStatus \<Rightarrow> registry \<Rightarrow> unit outcome \<times> registry" where
  "SetAgentStatus E now i st w =
     (case op_GetAgent (re_db E) i (rg_agents w) of Inl e \<Rightarrow> (Failed e, w)
      | Inr a \<Rightarrow> updateAgentStatus E now a st w)"

text \<open>The direct synchronisation only stamps the document: it calls Langfuse in no case.\<close>

definition SyncAgentToLangfuse :: "registry_env \<Rightarrow> int \<Rightarrow> string \<Rightarrow> registry \<Rightarrow> int outcome \<times> registry" where
  "SyncAgentToLangfuse E now i w =
     (case op_GetAgent (re_db E) i (rg_agents w) of Inl e \<Rightarrow> (Failed e, w)
      | Inr a \<Rightarrow>
          (let c = (case ag_LangfuseConfig a of Some c \<Rightarrow> c
                | None \<Rightarrow> \<lparr>lc_ProjectID = [], lc_SyncEnabled = False, lc_LastSyncedAt = None\<rparr>);
               a' = a\<lparr>ag_LangfuseConfig := Some (c\<lparr>lc_LastSyncedAt := Some now\<rparr>)\<rparr>
           in case rg_update (op_UpdateAgent (re_db E) a') w of
                (Some e, w') \<Rightarrow> (Failed e, w') | (None, w') \<Rightarrow> (Returned now, w')))"

section \<open>Health checks\<close>

record HealthCheckResult =
  hc_Healthy :: bool
  hc_Message :: string
  hc_ResponseTime :: int
  hc_CheckedAt :: int

definition probe_endpoint :: "(string \<Rightarrow> string + int) \<Rightarrow> AgentEndpoint \<Rightarrow> bool \<times> string" where
  "probe_endpoint get ep =
     (case get (ep_URL ep @ ep_HealthPath ep) of
        Inl e \<Rightarrow> (False, ''Health check failed: '' @ e)
      | Inr st \<Rightarrow>
          if st \<noteq> 200 then (False, ''Health check returned status '' @ FormatInt st)
          else (case get (ep_URL ep @ ep_ReadyPath ep) of
              Inl e \<Rightarrow> (False, ''Ready check failed: '' @ e)
            | Inr st' \<Rightarrow>
                if st' \<noteq> 200 then (False, ''Ready check returned status '' @ FormatInt st')
                else (True, ''Agent is healthy and ready'')))"

definition ValidateAgentHealth ::
  "registry_env \<Rightarrow> int \<Rightarrow> int \<Rightarrow> string \<Rightarrow> registry \<Rightarrow> HealthCheckResult outcome \<times> registry" where
  "ValidateAgentHealth E now elapsed i w =
     (case op_GetAgent (re_db E) i (rg_agents w) of Inl e \<Rightarrow> (Failed e, w)
      | Inr a \<Rightarrow> (case ag_Endpoint a of None \<Rightarrow> (Panicked, w)
        | Some ep \<Rightarrow> (case probe_endpoint (re_get E) ep of (healthy, msg) \<Rightarrow>
            (case updateAgentStatus E now a (if healthy then AgentStatusActive else AgentStatusInactive) w of
               (Panicked, w') \<Rightarrow> (Panicked, w')
             | (_, w') \<Rightarrow> (Returned \<lparr>hc_Healthy = healthy, hc_Message = msg, hc_ResponseTime = elapsed,
                  hc_CheckedAt = now\<rparr>, w')))))"

text \<open>One cycle of the scheduler: the agents it lists, checked in the order \<open>order\<close> the workers take them.\<close>

definition scheduler_filter :: AgentFilter where
  "scheduler_filter = \<lparr>af_ProjectID = [], af_Status = None, af_Statuses = [AgentStatusActive, AgentStatusValidating],
     af_Capabilities = [], af_SearchTerm = None\<rparr>"

definition runHealthChecks :: "registry_env \<Rightarrow> int \<Rightarrow> (Agent list \<Rightarrow> Agent list) \<Rightarrow> registry \<Rightarrow> registry" where
  "runHealthChecks E now order w =
     (case svc_ListAgents E 0 (Some scheduler_filter) (Some \<lparr>pg_Page = 1, pg_Limit = 1000\<rparr>) w of
        Inl _ \<Rightarrow> w
      | Inr r \<Rightarrow> foldl (\<lambda>w a. snd (ValidateAgentHealth E now 0 (ag_AgentID a) w)) w (order (al_Agents r)))"

definition run_job :: "registry_env \<Rightarrow> int \<Rightarrow> job \<Rightarrow> registry \<Rightarrow> registry" where
  "run_job E now j w = (case j of
       SyncJob a \<Rightarrow> snd (SyncToLangfuse E now a w)
     | HealthJob i \<Rightarrow> snd (ValidateAgentHealth E now 0 i w))"

section \<open>Namespaces of the cluster\<close>

text \<open>
  \<^verbatim>\<open>GetKubernetesNamespaces\<close>: the names listed, \<^const>\<open>None\<close> when there is no cluster or the call fails (the
  defaults are returned together with an error).
\<close>

definition GetKubernetesNamespaces :: "string list option \<Rightarrow> string list \<times> bool" where
  "GetKubernetesNamespaces listed =
     (case listed of None \<Rightarrow> ([''default'', ''litmus-chaos'', ''litmus''], False)
      | Some names \<Rightarrow>
          (let kept = filter (\<lambda>n. \<not> (n \<in> {''kube-system'', ''kube-public'', ''kube-node-lease''} \<or> HasPrefix n ''kube-'')) names
           in (if kept = [] then [''default''] else kept, True)))"

end
