(* ===== verification/Agent_Lifecycle.thy ===== *)
theory Agent_Lifecycle
  imports Agent_Service
begin

text \<open>
  The agent registry as a system: the resolvers that change it, the background jobs and the health
  scheduler as steps over the whole state, in any order, and what holds in every state they reach.
  Every step may find the database failing. A step with \<open>uuid\<close> takes an identifier not issued before
  (\<^verbatim>\<open>uuid.New\<close>); \<open>rs_issued\<close> remembers the ones that were.
\<close>

section \<open>The collection and its indexes\<close>

text \<open>
  The unique indexes of the collection (\<^verbatim>\<open>database/mongodb/init.go\<close>): one on the identifier, and one on
  project and name among the documents whose status is \<open>REGISTERED\<close>. Mongo refuses an insert or a
  replacement that would break one.
\<close>

definition agent_clash :: "Agent \<Rightarrow> Agent \<Rightarrow> bool" where
  "agent_clash a b = (ag_AgentID a = ag_AgentID b \<or>
     (ag_Status a = AgentStatusRegistered \<and> ag_Status b = AgentStatusRegistered \<and>
      ag_ProjectID a = ag_ProjectID b \<and> ag_Name a = ag_Name b))"

definition indexed :: "('d \<Rightarrow> 'd \<Rightarrow> bool) \<Rightarrow> 'd list \<Rightarrow> bool" where
  "indexed clash s = sorted_wrt (\<lambda>a b. \<not> clash a b) s"

definition index_ok :: "('d \<Rightarrow> 'd \<Rightarrow> bool) \<Rightarrow> 'd coll \<Rightarrow> bool" where
  "index_ok clash c = (\<forall>q f s. indexed clash s \<longrightarrow> indexed clash (snd (UpdateOne c q f s)))"

definition agents_coll_ok :: "registry_env \<Rightarrow> bool" where
  "agents_coll_ok E = (coll_ok agent_clash (db_agents (re_db E)) \<and> index_ok agent_clash (db_agents (re_db E)))"

section \<open>Deployment\<close>

record DeployAgentRequest =
  dr_Name :: string
  dr_Namespace :: string
  dr_HelmReleaseName :: string
  dr_HelmChartVersion :: string
  dr_Version :: "string option"
  dr_Capabilities :: "string list"
  dr_ChartData :: "string option"
  dr_ValuesYaml :: "string option"
  dr_Kubeconfig :: "string option"
  dr_HelmEnvVars :: "(string \<times> string \<times> bool option) option list"

definition deploy_registration :: "string \<Rightarrow> DeployAgentRequest \<Rightarrow> RegisterAgentRequest" where
  "deploy_registration project r =
     (let version = (case dr_Version r of Some v \<Rightarrow> v | None \<Rightarrow> ''v1.0.0'')
      in \<lparr>rr_ProjectID = project, rr_Name = dr_Name r, rr_Version = version, rr_Vendor = ''helm-deployment'',
          rr_Capabilities = dr_Capabilities r,
          rr_ContainerImage = Some \<lparr>ci_Registry = ''docker.io'', ci_Repository = ''litmus/agent'', ci_Tag = version\<rparr>,
          rr_Namespace = dr_Namespace r, rr_HelmReleaseName = dr_HelmReleaseName r, rr_Endpoint = None,
          rr_LangfuseConfig = None, rr_Metadata = None\<rparr>)"

definition deploy_request :: "registry_env \<Rightarrow> string \<Rightarrow> DeployAgentRequest \<Rightarrow> HelmDeployRequest" where
  "deploy_request E agentID r =
     (case resolveAgentInstallNamespace (re_install_namespace E) (dr_Namespace r) of (installNs, targetNs) \<Rightarrow>
       \<lparr>hd_ReleaseName = dr_HelmReleaseName r, hd_Namespace = installNs, hd_TargetNamespace = targetNs,
        hd_ChartPath = (if given (dr_ChartData r) then [] else re_chart_path E), hd_ChartData = dr_ChartData r,
        hd_ChartVersion = Some (dr_HelmChartVersion r), hd_ValuesYAML = dr_ValuesYaml r, hd_Kubeconfig = dr_Kubeconfig r,
        hd_AgentID = agentID, hd_ImageTag = dr_Version r, hd_HelmEnvVars = mapHelmEnvVarInputs (dr_HelmEnvVars r)\<rparr>)"

definition run_deploy :: "registry_env \<Rightarrow> HelmDeployRequest \<Rightarrow> registry \<Rightarrow> (helm_error + string) option \<times> registry" where
  "run_deploy E h w =
     (DeployWithHelm (re_base64_ok E) (re_tmp E) (re_helm_timeout E) (re_post_args E) (re_run E) h,
      (case deploy_command (re_base64_ok E) (re_tmp E) (re_helm_timeout E) (re_post_args E) h of
         Some (Inr args) \<Rightarrow> w\<lparr>rg_helm := rg_helm w @ [Upgraded args]\<rparr> | _ \<Rightarrow> w))"

text \<open>The answer: the agent's identifier and the status reported, which is fixed.\<close>

definition DeployAgentWithHelm ::
  "registry_env \<Rightarrow> string \<Rightarrow> int \<Rightarrow> string \<Rightarrow> DeployAgentRequest \<Rightarrow> registry \<Rightarrow> (string \<times> AgentStatus) outcome \<times> registry" where
  "DeployAgentWithHelm E uuid now project r w =
     (if \<not> given (dr_ChartData r) \<and> re_chart_path E = []
      then (Failed (Message ''DEFAULT_AGENT_CHART_PATH is not configured and no chart data provided''), w)
      else (case RegisterAgent E uuid now (deploy_registration project r) w of
          (Failed e, w1) \<Rightarrow> (Failed e, w1)
        | (Panicked, w1) \<Rightarrow> (Panicked, w1)
        | (Returned a, w1) \<Rightarrow>
            (case run_deploy E (deploy_request E (ag_AgentID a) r) w1 of
               (None, w2) \<Rightarrow> (Panicked, w2)
             | (Some (Inl e), w2) \<Rightarrow> (case svc_DeleteAgent E now (ag_AgentID a) True w2 of
                   (Panicked, w3) \<Rightarrow> (Panicked, w3)
                 | (_, w3) \<Rightarrow> (Failed (Message ''helm deployment failed''), w3))
             | (Some (Inr _), w2) \<Rightarrow> (case SetAgentStatus E now (ag_AgentID a) AgentStatusActive w2 of
                   (Panicked, w3) \<Rightarrow> (Panicked, w3)
                 | (_, w3) \<Rightarrow> (Returned (ag_AgentID a, AgentStatusRegistered), w3)))))"

text \<open>
  The resolver of a health check: the status it answers is \<open>ACTIVE\<close> whatever was found.
\<close>

definition res_ValidateAgentHealth ::
  "registry_env \<Rightarrow> int \<Rightarrow> int \<Rightarrow> string \<Rightarrow> registry \<Rightarrow> (AgentStatus \<times> bool) outcome \<times> registry" where
  "res_ValidateAgentHealth E now elapsed i w =
     (case ValidateAgentHealth E now elapsed i w of
        (Returned h, w') \<Rightarrow> (Returned (AgentStatusActive, hc_Healthy h), w')
      | (Failed e, w') \<Rightarrow> (Failed e, w') | (Panicked, w') \<Rightarrow> (Panicked, w'))"

section \<open>Steps\<close>

record reg_state = rs_registry :: registry  rs_issued :: "string list"

definition no_agents :: reg_state where
  "no_agents = \<lparr>rs_registry = \<lparr>rg_agents = [], rg_jobs = [], rg_helm = []\<rparr>, rs_issued = []\<rparr>"

inductive reg_step :: "registry_env \<Rightarrow> reg_state \<Rightarrow> reg_state \<Rightarrow> bool" for E where
  register: "uuid \<notin> set (rs_issued s) \<Longrightarrow>
    reg_step E s \<lparr>rs_registry = snd (RegisterAgent E uuid now r (rs_registry s)), rs_issued = uuid # rs_issued s\<rparr>"
| deploy: "uuid \<notin> set (rs_issued s) \<Longrightarrow>
    reg_step E s \<lparr>rs_registry = snd (DeployAgentWithHelm E uuid now p d (rs_registry s)), rs_issued = uuid # rs_issued s\<rparr>"
| update: "reg_step E s (s\<lparr>rs_registry := snd (svc_UpdateAgent E now i u (rs_registry s))\<rparr>)"
| delete: "reg_step E s (s\<lparr>rs_registry := snd (svc_DeleteAgent E now i hard (rs_registry s))\<rparr>)"
| health: "reg_step E s (s\<lparr>rs_registry := snd (res_ValidateAgentHealth E now elapsed i (rs_registry s))\<rparr>)"
| sync: "reg_step E s (s\<lparr>rs_registry := snd (SyncAgentToLangfuse E now i (rs_registry s))\<rparr>)"
| cycle: "reg_step E s (s\<lparr>rs_registry := runHealthChecks E now order (rs_registry s)\<rparr>)"
| background: "rg_jobs (rs_registry s) = js @ j # js' \<Longrightarrow>
    reg_step E s (s\<lparr>rs_registry := run_job E now j ((rs_registry s)\<lparr>rg_jobs := js @ js'\<rparr>)\<rparr>)"

inductive reg_reach :: "registry_env \<Rightarrow> reg_state \<Rightarrow> reg_state \<Rightarrow> bool" for E where
  start: "reg_reach E s s"
| more: "reg_reach E s t \<Longrightarrow> reg_step E t u \<Longrightarrow> reg_reach E s u"

section \<open>What an operation can do to the documents\<close>

lemma find_agent_ok:
  assumes "agents_coll_ok E" "find_agent (re_db E) q s = Inr a"
  shows "a \<in> set s" "q a"
  using assms FindOne_ok [of agent_clash "db_agents (re_db E)" q s a]
  by (auto simp: find_agent_def agents_coll_ok_def split: sum.splits)

lemma op_GetAgent_ok:
  assumes "agents_coll_ok E" "op_GetAgent (re_db E) i s = Inr a"
  shows "a \<in> set s" "ag_AgentID a = i"
  using assms find_agent_ok [of E] unfolding op_GetAgent_def by blast+

lemma op_UpdateAgent_or:
  assumes "agents_coll_ok E" "op_UpdateAgent (re_db E) a s = (e, s')"
  shows "s' = s \<or> replaced_one (\<lambda>d. ag_AgentID d = ag_AgentID a) (\<lambda>_. a) s s'"
  using assms UpdateOne_or [of agent_clash "db_agents (re_db E)"]
  by (auto simp: op_UpdateAgent_def agents_coll_ok_def split: prod.splits sum.splits)

lemma DeleteOne_or: "coll_ok clash c \<Longrightarrow> DeleteOne c q s = (r, s') \<Longrightarrow> s' = s \<or> removed_one q s s'"
  by (elim DeleteOne_cases) auto

lemma op_DeleteAgent_or:
  assumes "agents_coll_ok E" "op_DeleteAgent (re_db E) i s = (e, s')"
  shows "s' = s \<or> removed_one (\<lambda>d. ag_AgentID d = i) s s'"
  using assms DeleteOne_or [of agent_clash "db_agents (re_db E)"]
  by (auto simp: op_DeleteAgent_def agents_coll_ok_def split: prod.splits sum.splits)

lemma CreateAgent_or:
  assumes "agents_coll_ok E" "CreateAgent (re_db E) a s = (e, s')"
  shows "s' = s \<or> s' = s @ [a] \<and> (\<forall>d \<in> set s. \<not> agent_clash a d)"
proof -
  obtain r where r: "InsertOne (db_agents (re_db E)) a s = (r, s')"
    using assms(2) by (auto simp: CreateAgent_def split: prod.splits)
  have "coll_ok agent_clash (db_agents (re_db E))" using assms(1) by (simp add: agents_coll_ok_def)
  then show ?thesis using InsertOne_cases [OF _ r] by metis
qed

lemma op_UpdateAgent_indexed:
  assumes "agents_coll_ok E" "op_UpdateAgent (re_db E) a s = (e, s')" "indexed agent_clash s"
  shows "indexed agent_clash s'"
proof -
  have "s' = snd (UpdateOne (db_agents (re_db E)) (\<lambda>d. ag_AgentID d = ag_AgentID a) (\<lambda>_. a) s)"
    using assms(2) by (auto simp: op_UpdateAgent_def split: prod.splits sum.splits)
  then show ?thesis using assms by (simp add: agents_coll_ok_def index_ok_def)
qed

section \<open>The invariant of one document\<close>

definition well_formed_agent :: "Agent \<Rightarrow> bool" where
  "well_formed_agent a = (name_ok (ag_Name a) \<and> SemverRegex (ag_Version a) \<and> capabilities_ok (ag_Capabilities a) \<and>
     pred_option image_ok (ag_ContainerImage a) \<and> ag_Endpoint a \<noteq> None \<and> ag_AuditInfo a \<noteq> None)"

text \<open>
  The registration and the deletion are the only two statuses: no transition out of \<open>REGISTERED\<close> but
  the deletion is ever asked for, and an agent that stays there has never been checked.
\<close>

definition never_checked :: "Agent \<Rightarrow> bool" where
  "never_checked a = (ag_Status a \<in> {AgentStatusRegistered, AgentStatusDeleted} \<and>
     pred_option (\<lambda>ai. ai_LastHealthCheck ai = None) (ag_AuditInfo a))"

definition agent_inv :: "Agent \<Rightarrow> bool" where
  "agent_inv a = (well_formed_agent a \<and> never_checked a)"

lemmas agent_inv_defs = agent_inv_def well_formed_agent_def never_checked_def

lemma new_agent_inv: "ValidateRegistration D r s = None \<Longrightarrow> agent_inv (new_agent uuid now r)"
  by (simp add: ValidateRegistration_ok agent_inv_defs new_agent_def)

lemma stamped_inv:
  assumes "agent_inv a" "ag_AuditInfo a = Some ai"
  shows "agent_inv (a\<lparr>ag_AuditInfo := Some (ai\<lparr>ai_UpdatedAt := now, ai_UpdatedBy := u\<rparr>)\<rparr>)"
    "agent_inv (a\<lparr>ag_Status := AgentStatusDeleted, ag_AuditInfo := Some (ai\<lparr>ai_UpdatedAt := now, ai_UpdatedBy := u\<rparr>)\<rparr>)"
  using assms by (auto simp: agent_inv_defs)

lemma merged_inv: "agent_inv a \<Longrightarrow> ValidateUpdate u = None \<Longrightarrow> agent_inv (merged u a)"
  by (auto simp: ValidateUpdate_ok agent_inv_defs merged_def split: option.splits)

lemma langfuse_inv [simp]: "agent_inv (a\<lparr>ag_LangfuseConfig := c\<rparr>) = agent_inv a"
  by (simp add: agent_inv_defs)

lemma synced_inv [simp]: "agent_inv (synced_at now a) = agent_inv a"
  by (simp add: synced_at_def)

section \<open>What an operation does to the registry\<close>

text \<open>
  One edit: the documents stay, or one that satisfies the invariant is inserted under an identifier of
  \<open>ids\<close>, or replaces the document of its identifier, or one is removed; the jobs started hold documents
  that satisfy the invariant. An insert or a replacement was allowed by the indexes.
\<close>

definition doc_edit :: "string set \<Rightarrow> Agent list \<Rightarrow> Agent list \<Rightarrow> bool" where
  "doc_edit ids s s' = (s' = s \<or>
     (\<exists>a. agent_inv a \<and> ag_AgentID a \<in> ids \<and> s' = s @ [a] \<and> (\<forall>d \<in> set s. \<not> agent_clash a d)) \<or>
     (\<exists>a. agent_inv a \<and> replaced_one (\<lambda>d. ag_AgentID d = ag_AgentID a) (\<lambda>_. a) s s' \<and>
        (indexed agent_clash s \<longrightarrow> indexed agent_clash s')) \<or>
     (\<exists>q. removed_one q s s'))"

definition edit :: "string set \<Rightarrow> registry \<Rightarrow> registry \<Rightarrow> bool" where
  "edit ids w w' = (doc_edit ids (rg_agents w) (rg_agents w') \<and>
     (\<forall>a. SyncJob a \<in> set (rg_jobs w') \<longrightarrow> SyncJob a \<in> set (rg_jobs w) \<or> agent_inv a))"

abbreviation edits :: "string set \<Rightarrow> registry \<Rightarrow> registry \<Rightarrow> bool" where
  "edits ids \<equiv> (edit ids)\<^sup>*\<^sup>*"

definition registry_inv :: "registry \<Rightarrow> bool" where
  "registry_inv w = (list_all agent_inv (rg_agents w) \<and> (\<forall>a. SyncJob a \<in> set (rg_jobs w) \<longrightarrow> agent_inv a))"

lemma registry_inv_doc: "registry_inv w \<Longrightarrow> a \<in> set (rg_agents w) \<Longrightarrow> agent_inv a"
  by (simp add: registry_inv_def list_all_iff)

lemma edit_inv: "edit ids w w' \<Longrightarrow> registry_inv w \<Longrightarrow> registry_inv w'"
  unfolding edit_def doc_edit_def registry_inv_def
  by (auto simp: list_all_iff replaced_one_def removed_one_def)

lemma edits_inv: "edits ids w w' \<Longrightarrow> registry_inv w \<Longrightarrow> registry_inv w'"
  by (induction rule: rtranclp_induct) (auto intro: edit_inv)

lemma edit_same: "rg_agents w' = rg_agents w \<Longrightarrow> set (rg_jobs w') \<subseteq> set (rg_jobs w) \<union> range HealthJob \<Longrightarrow> edit ids w w'"
  unfolding edit_def doc_edit_def by auto

lemma edit_job: "agent_inv a \<Longrightarrow> edit ids w (start_job (SyncJob a) w)"
  by (auto simp: edit_def doc_edit_def start_job_def)

lemma edit_health: "edit ids w (start_job (HealthJob i) w)"
  by (intro edit_same) (auto simp: start_job_def)

lemma edit_update:
  assumes "agents_coll_ok E" "agent_inv a" "rg_update (op_UpdateAgent (re_db E) a) w = (e, w')"
  shows "edit ids w w'"
proof -
  obtain s' where s: "op_UpdateAgent (re_db E) a (rg_agents w) = (e, s')" "w' = w\<lparr>rg_agents := s'\<rparr>"
    using assms(3) by (auto simp: rg_update_def split: prod.splits)
  then have "doc_edit ids (rg_agents w) s'"
    unfolding doc_edit_def
    using assms(2) op_UpdateAgent_or [OF assms(1) s(1)] op_UpdateAgent_indexed [OF assms(1) s(1)] by blast
  then show ?thesis by (simp add: edit_def s(2))
qed

lemma edit_remove:
  assumes "agents_coll_ok E" "rg_update (op_DeleteAgent (re_db E) i) w = (e, w')"
  shows "edit ids w w'"
proof -
  obtain s' where s: "op_DeleteAgent (re_db E) i (rg_agents w) = (e, s')" "w' = w\<lparr>rg_agents := s'\<rparr>"
    using assms(2) by (auto simp: rg_update_def split: prod.splits)
  then have "doc_edit ids (rg_agents w) s'"
    unfolding doc_edit_def using op_DeleteAgent_or [OF assms(1) s(1)] by blast
  then show ?thesis by (simp add: edit_def s(2))
qed

lemma edit_create:
  assumes "agents_coll_ok E" "agent_inv a" "ag_AgentID a \<in> ids" "rg_update (CreateAgent (re_db E) a) w = (e, w')"
  shows "edit ids w w'"
proof -
  obtain s' where s: "CreateAgent (re_db E) a (rg_agents w) = (e, s')" "w' = w\<lparr>rg_agents := s'\<rparr>"
    using assms(4) by (auto simp: rg_update_def split: prod.splits)
  then have "doc_edit ids (rg_agents w) s'"
    unfolding doc_edit_def using assms(2,3) CreateAgent_or [OF assms(1) s(1)] by blast
  then show ?thesis by (simp add: edit_def s(2))
qed

lemma edits_then: "edit ids w w1 \<Longrightarrow> edits ids w1 w2 \<Longrightarrow> edits ids w w2"
  by (rule converse_rtranclp_into_rtranclp)

lemma edits_first: "edit ids w w1 \<Longrightarrow> edits ids w w1"
  by (rule r_into_rtranclp)

lemma edits_job: "edit ids w w1 \<Longrightarrow> agent_inv a \<Longrightarrow> edits ids w (start_job (SyncJob a) w1)"
  using edit_job [of a ids w1] by (blast intro: edits_then edits_first)

section \<open>Each operation as edits\<close>

lemma RegisterAgent_edits:
  assumes E: "agents_coll_ok E"
  shows "edits {uuid} w (snd (RegisterAgent E uuid now r w))"
proof -
  let ?a = "new_agent uuid now r"
  have "edits {uuid} w (snd (case ValidateRegistration (re_db E) r (rg_agents w) of
          Some e \<Rightarrow> (Failed e, w)
        | None \<Rightarrow>
            (let a = ?a; (e, w') = rg_update (CreateAgent (re_db E) a) w
             in case e of Some e \<Rightarrow> (Failed (Wrapped ''failed to create agent'' e), w')
                | None \<Rightarrow> (Returned a, start_job (HealthJob uuid) (start_job (SyncJob a) w')))))"
  proof (cases "ValidateRegistration (re_db E) r (rg_agents w)")
    case None
    have a: "agent_inv ?a" "ag_AgentID ?a \<in> {uuid}" using new_agent_inv [OF None] by (simp_all add: new_agent_def)
    obtain e w' where u: "rg_update (CreateAgent (re_db E) ?a) w = (e, w')" by (metis prod.exhaust)
    have c: "edit {uuid} w w'" using edit_create [OF E a u] .
    have "edits {uuid} w (start_job (HealthJob uuid) (start_job (SyncJob ?a) w'))"
      using edits_job [OF c a(1)] edit_health by (rule rtranclp.rtrancl_into_rtrancl)
    then show ?thesis using None u c by (auto simp: Let_def split: option.splits intro: edits_first)
  qed simp
  then show ?thesis by (auto simp: RegisterAgent_def Let_def split: sum.splits)
qed

lemma svc_UpdateAgent_edits:
  assumes E: "agents_coll_ok E" and inv: "registry_inv w"
  shows "edits ids w (snd (svc_UpdateAgent E now i u w))"
proof (cases "ValidateUpdate u")
  case None
  show ?thesis
  proof (cases "op_GetAgent (re_db E) i (rg_agents w)")
    case (Inr a0)
    have a0: "agent_inv a0" using op_GetAgent_ok(1) [OF E Inr] registry_inv_doc [OF inv] by blast
    show ?thesis
    proof (cases "ag_AuditInfo a0")
      case (Some ai)
      let ?a = "(merged u a0)\<lparr>ag_AuditInfo := Some (ai\<lparr>ai_UpdatedAt := now, ai_UpdatedBy := ''system''\<rparr>)\<rparr>"
      have "ag_AuditInfo (merged u a0) = Some ai" using Some by (simp add: merged_def)
      then have a: "agent_inv ?a" using stamped_inv(1) [OF merged_inv [OF a0 None]] by blast
      obtain e w' where w: "rg_update (op_UpdateAgent (re_db E) ?a) w = (e, w')" by (metis prod.exhaust)
      have c: "edit ids w w'" using edit_update [OF E a w] .
      then show ?thesis using None Inr Some w edits_job [OF c a]
        by (auto simp: svc_UpdateAgent_def Let_def split: option.splits intro: edits_first)
    qed (use None Inr in \<open>simp add: svc_UpdateAgent_def\<close>)
  qed (use None in \<open>simp add: svc_UpdateAgent_def\<close>)
qed (simp add: svc_UpdateAgent_def)

lemma run_uninstall_edit: "edit ids w (run_uninstall E a w)"
  by (auto simp: run_uninstall_def edit_def doc_edit_def split: option.splits sum.splits)

lemma svc_DeleteAgent_edits:
  assumes E: "agents_coll_ok E" and inv: "registry_inv w"
  shows "edits ids w (snd (svc_DeleteAgent E now i hard w))"
proof (cases "op_GetAgent (re_db E) i (rg_agents w)")
  case (Inr a)
  have a: "agent_inv a" using op_GetAgent_ok(1) [OF E Inr] registry_inv_doc [OF inv] by blast
  let ?w1 = "run_uninstall E a w"
  have u: "edits ids w ?w1" using run_uninstall_edit by (rule edits_first)
  show ?thesis
  proof (cases hard)
    case True
    obtain e w2 where d: "rg_update (op_DeleteAgent (re_db E) i) ?w1 = (e, w2)" by (metis prod.exhaust)
    have c: "edit ids ?w1 w2" using edit_remove [OF E d] .
    have "edits ids w w2" "edits ids w (start_job (SyncJob a) w2)"
      using u c edits_job [OF c a] by (auto intro: rtranclp_trans)
    then show ?thesis using True Inr d by (auto simp: svc_DeleteAgent_def Let_def split: option.splits)
  next
    case False
    obtain ai where ai: "ag_AuditInfo a = Some ai" using a by (auto simp: agent_inv_defs)
    let ?a = "a\<lparr>ag_Status := AgentStatusDeleted, ag_AuditInfo := Some (ai\<lparr>ai_UpdatedAt := now, ai_UpdatedBy := ''system''\<rparr>)\<rparr>"
    have a': "agent_inv ?a" using stamped_inv(2) [OF a ai] .
    obtain e w2 where d: "rg_update (op_UpdateAgent (re_db E) ?a) ?w1 = (e, w2)" by (metis prod.exhaust)
    have c: "edit ids ?w1 w2" using edit_update [OF E a' d] .
    have "edits ids w w2" "edits ids w (start_job (SyncJob ?a) w2)"
      using u c edits_job [OF c a'] by (auto intro: rtranclp_trans)
    then show ?thesis using False Inr ai d by (auto simp: svc_DeleteAgent_def Let_def split: option.splits)
  qed
qed (simp add: svc_DeleteAgent_def)

text \<open>
  Where the invariant holds no transition to \<open>ACTIVE\<close> or \<open>INACTIVE\<close> is allowed: the update of a status
  fails and changes nothing.
\<close>

lemma updateAgentStatus_refused:
  assumes "agent_inv a" "st \<in> {AgentStatusActive, AgentStatusInactive}"
  shows "\<exists>e. updateAgentStatus E now a st w = (Failed e, w)"
  using assms by (auto simp: updateAgentStatus_def agent_inv_defs)

lemma SetAgentStatus_refused:
  assumes E: "agents_coll_ok E" and inv: "registry_inv w" and "st \<in> {AgentStatusActive, AgentStatusInactive}"
  shows "\<exists>e. SetAgentStatus E now i st w = (Failed e, w)"
proof (cases "op_GetAgent (re_db E) i (rg_agents w)")
  case (Inr a)
  have "agent_inv a" using op_GetAgent_ok(1) [OF E Inr] registry_inv_doc [OF inv] by blast
  then show ?thesis using updateAgentStatus_refused [of a st E now w] assms(3) Inr by (simp add: SetAgentStatus_def)
qed (simp add: SetAgentStatus_def)

text \<open>A health check of the registry tells the truth and changes nothing.\<close>

lemma ValidateAgentHealth_exact:
  assumes E: "agents_coll_ok E" and inv: "registry_inv w"
  shows "ValidateAgentHealth E now elapsed i w =
     (case op_GetAgent (re_db E) i (rg_agents w) of Inl e \<Rightarrow> Failed e
      | Inr a \<Rightarrow> (case probe_endpoint (re_get E) (the (ag_Endpoint a)) of (healthy, msg) \<Rightarrow>
          Returned \<lparr>hc_Healthy = healthy, hc_Message = msg, hc_ResponseTime = elapsed, hc_CheckedAt = now\<rparr>), w)"
proof (cases "op_GetAgent (re_db E) i (rg_agents w)")
  case (Inr a)
  have a: "agent_inv a" using op_GetAgent_ok(1) [OF E Inr] registry_inv_doc [OF inv] by blast
  then obtain ep where ep: "ag_Endpoint a = Some ep" by (auto simp: agent_inv_defs)
  obtain healthy msg where p: "probe_endpoint (re_get E) ep = (healthy, msg)" by (metis prod.exhaust)
  have "\<exists>e. updateAgentStatus E now a (if healthy then AgentStatusActive else AgentStatusInactive) w = (Failed e, w)"
    using a by (intro updateAgentStatus_refused) auto
  then show ?thesis using Inr ep p by (auto simp: ValidateAgentHealth_def)
qed (simp add: ValidateAgentHealth_def)

lemma ValidateAgentHealth_same:
  "agents_coll_ok E \<Longrightarrow> registry_inv w \<Longrightarrow> snd (ValidateAgentHealth E now elapsed i w) = w"
  by (simp add: ValidateAgentHealth_exact)

lemma SyncAgentToLangfuse_edits:
  assumes E: "agents_coll_ok E" and inv: "registry_inv w"
  shows "edits ids w (snd (SyncAgentToLangfuse E now i w))"
proof (cases "op_GetAgent (re_db E) i (rg_agents w)")
  case (Inr a)
  have a: "agent_inv a" using op_GetAgent_ok(1) [OF E Inr] registry_inv_doc [OF inv] by blast
  then have "edits ids w (snd (rg_update (op_UpdateAgent (re_db E) (a\<lparr>ag_LangfuseConfig := c\<rparr>)) w))" for c
    using edit_update [OF E, of "a\<lparr>ag_LangfuseConfig := c\<rparr>" w] by (metis edits_first langfuse_inv prod.collapse)
  then show ?thesis using Inr
    by (auto simp: SyncAgentToLangfuse_def Let_def split: prod.splits option.splits) (metis snd_conv)+
qed (simp add: SyncAgentToLangfuse_def)

lemma SyncToLangfuse_edits:
  assumes E: "agents_coll_ok E" and a: "agent_inv a"
  shows "edits ids w (snd (SyncToLangfuse E now a w))"
proof -
  have "edits ids w (snd (rg_update (op_UpdateAgent (re_db E) (synced_at now a)) w))"
    using edit_update [OF E, of "synced_at now a" w] a by (metis edits_first synced_inv prod.collapse)
  then show ?thesis by (auto simp: SyncToLangfuse_def split: option.splits)
qed

lemma runHealthChecks_same:
  assumes E: "agents_coll_ok E" and inv: "registry_inv w"
  shows "runHealthChecks E now order w = w"
proof -
  have "foldl (\<lambda>w a. snd (ValidateAgentHealth E now 0 (ag_AgentID a) w)) w as = w" for as :: "Agent list"
    by (induction as) (simp_all add: ValidateAgentHealth_same [OF E inv])
  then show ?thesis by (simp add: runHealthChecks_def split: sum.splits)
qed

lemma run_job_edits:
  assumes E: "agents_coll_ok E" and inv: "registry_inv w" and j: "\<And>a. j = SyncJob a \<Longrightarrow> agent_inv a"
  shows "edits ids w (run_job E now j w)"
  using SyncToLangfuse_edits [OF E] j ValidateAgentHealth_same [OF E inv]
  by (auto simp: run_job_def split: job.splits)

lemma run_deploy_edit: "run_deploy E h w = (r, w') \<Longrightarrow> edit ids w w'"
  by (auto simp: run_deploy_def edit_def doc_edit_def split: option.splits sum.splits)

lemma DeployAgentWithHelm_edits:
  assumes E: "agents_coll_ok E" and inv: "registry_inv w"
  shows "edits {uuid} w (snd (DeployAgentWithHelm E uuid now p d w))"
proof (cases "\<not> given (dr_ChartData d) \<and> re_chart_path E = []")
  case False
  obtain r w1 where reg: "RegisterAgent E uuid now (deploy_registration p d) w = (r, w1)" by (metis prod.exhaust)
  have w1: "edits {uuid} w w1" using RegisterAgent_edits [OF E, of uuid w now "deploy_registration p d"] reg by simp
  show ?thesis
  proof (cases r)
    case (Returned a)
    obtain x w2 where dep: "run_deploy E (deploy_request E (ag_AgentID a) d) w1 = (x, w2)" by (metis prod.exhaust)
    have w2: "edits {uuid} w w2" using w1 run_deploy_edit [OF dep] by (rule rtranclp.rtrancl_into_rtrancl)
    have inv2: "registry_inv w2" using w2 inv by (rule edits_inv)
    have del: "edits {uuid} w (snd (svc_DeleteAgent E now (ag_AgentID a) True w2))"
      using w2 svc_DeleteAgent_edits [OF E inv2] by (rule rtranclp_trans)
    obtain y w3 where d3: "svc_DeleteAgent E now (ag_AgentID a) True w2 = (y, w3)" by (metis prod.exhaust)
    obtain e where st: "SetAgentStatus E now (ag_AgentID a) AgentStatusActive w2 = (Failed e, w2)"
      using SetAgentStatus_refused [OF E inv2, of AgentStatusActive] by auto
    show ?thesis using False reg Returned dep w2 del d3 st
      by (auto simp: DeployAgentWithHelm_def split: option.splits sum.splits outcome.splits)
  qed (use False reg w1 in \<open>simp_all add: DeployAgentWithHelm_def\<close>)
qed (simp add: DeployAgentWithHelm_def)

section \<open>Reachable states\<close>

definition agent_ids :: "reg_state \<Rightarrow> string set" where
  "agent_ids s = ag_AgentID ` set (rg_agents (rs_registry s))"

definition reg_inv :: "reg_state \<Rightarrow> bool" where
  "reg_inv s = (registry_inv (rs_registry s) \<and> indexed agent_clash (rg_agents (rs_registry s)) \<and>
     agent_ids s \<subseteq> set (rs_issued s))"

lemma agent_clash_sym: "agent_clash a b = agent_clash b a"
  by (auto simp: agent_clash_def)

lemma edit_indexed:
  assumes "edit ids w w'" "indexed agent_clash (rg_agents w)"
  shows "indexed agent_clash (rg_agents w')"
proof -
  have ins: "indexed agent_clash (s @ [a])" if "indexed agent_clash s" "\<forall>d \<in> set s. \<not> agent_clash a d" for s a
    using that agent_clash_sym by (auto simp: indexed_def sorted_wrt_append)
  have rem: "indexed agent_clash s'" if "removed_one q s s'" "indexed agent_clash s" for q s s'
    using that by (auto simp: indexed_def removed_one_def sorted_wrt_append)
  show ?thesis using assms ins rem unfolding edit_def doc_edit_def by metis
qed

lemma edits_indexed: "edits ids w w' \<Longrightarrow> indexed agent_clash (rg_agents w) \<Longrightarrow> indexed agent_clash (rg_agents w')"
  by (induction rule: rtranclp_induct) (auto intro: edit_indexed)

lemma edit_ids:
  "edit ids w w' \<Longrightarrow> ag_AgentID ` set (rg_agents w') \<subseteq> ag_AgentID ` set (rg_agents w) \<union> ids"
  unfolding edit_def doc_edit_def by (auto simp: replaced_one_def removed_one_def)

lemma edits_ids:
  "edits ids w w' \<Longrightarrow> ag_AgentID ` set (rg_agents w') \<subseteq> ag_AgentID ` set (rg_agents w) \<union> ids"
proof (induction rule: rtranclp_induct)
  case (step y z)
  then show ?case using edit_ids [of ids y z] by blast
qed simp

text \<open>A step is a sequence of edits whose inserts take identifiers not issued before.\<close>

lemma reg_step_edits:
  assumes E: "agents_coll_ok E" and "reg_step E s s'" and inv: "registry_inv (rs_registry s)"
  shows "\<exists>ids. edits ids (rs_registry s) (rs_registry s') \<and> ids \<inter> set (rs_issued s) = {} \<and>
    set (rs_issued s') = ids \<union> set (rs_issued s)"
  using assms(2)
proof cases
  case (register uuid now r)
  show ?thesis
    by (rule exI [of _ "{uuid}"], unfold register(1)) (use register(2) RegisterAgent_edits [OF E] in simp)
next
  case (deploy uuid now p d)
  show ?thesis
    by (rule exI [of _ "{uuid}"], unfold deploy(1)) (use deploy(2) DeployAgentWithHelm_edits [OF E inv] in simp)
next
  case (update now i u)
  then show ?thesis using svc_UpdateAgent_edits [OF E inv] by (intro exI [of _ "{}"]) simp
next
  case (delete now i hard)
  then show ?thesis using svc_DeleteAgent_edits [OF E inv] by (intro exI [of _ "{}"]) simp
next
  case (health now elapsed i)
  have "snd (res_ValidateAgentHealth E now elapsed i (rs_registry s)) = rs_registry s"
    using ValidateAgentHealth_same [OF E inv, of now elapsed i]
    by (auto simp: res_ValidateAgentHealth_def split: prod.splits outcome.splits)
  then show ?thesis using health by (intro exI [of _ "{}"]) simp
next
  case (sync now i)
  then show ?thesis using SyncAgentToLangfuse_edits [OF E inv] by (intro exI [of _ "{}"]) simp
next
  case (cycle now order)
  then show ?thesis by (intro exI [of _ "{}"]) (simp add: runHealthChecks_same [OF E inv])
next
  case (background js j js' now)
  let ?w = "rs_registry s"
  let ?w1 = "?w\<lparr>rg_jobs := js @ js'\<rparr>"
  have e1: "edit {} ?w ?w1" using background(2) by (intro edit_same) auto
  have inv1: "registry_inv ?w1" using e1 inv by (rule edit_inv)
  have "edits {} ?w1 (run_job E now j ?w1)"
    using background(2) inv by (intro run_job_edits [OF E inv1]) (auto simp: registry_inv_def)
  then show ?thesis using background(1) edits_then [OF e1] by (intro exI [of _ "{}"]) simp
qed

lemma reg_inv_start: "reg_inv no_agents"
  by (simp add: reg_inv_def registry_inv_def no_agents_def indexed_def agent_ids_def)

lemma reg_step_inv:
  assumes "agents_coll_ok E" "reg_step E s s'" "reg_inv s"
  shows "reg_inv s'"
proof -
  obtain ids where e: "edits ids (rs_registry s) (rs_registry s')" "set (rs_issued s') = ids \<union> set (rs_issued s)"
    using reg_step_edits [OF assms(1,2)] assms(3) unfolding reg_inv_def by blast
  then show ?thesis
    using assms(3) edits_inv [OF e(1)] edits_indexed [OF e(1)] edits_ids [OF e(1)]
    unfolding reg_inv_def agent_ids_def by blast
qed

lemma reg_reach_inv:
  assumes "reg_reach E s t" "agents_coll_ok E" "reg_inv s"
  shows "reg_inv t"
  using assms by (induction) (auto intro: reg_step_inv)

lemmas reached_inv = reg_reach_inv [OF _ _ reg_inv_start]

section \<open>What the registry guarantees\<close>

text \<open>
  An in-memory collection that keeps its indexes: the hypotheses on the driver can hold.
\<close>

definition indexed_coll :: "('d \<Rightarrow> 'd \<Rightarrow> bool) \<Rightarrow> 'd coll" where
  "indexed_coll clash = (list_coll clash)\<lparr>UpdateOne := (\<lambda>q f s.
     (let s' = replace_first q f s
      in if indexed clash s \<and> \<not> indexed clash s' then (Inl DuplicateKey, s)
         else (Inr (if list_ex q s then 1 else 0), s')))\<rparr>"

lemma indexed_coll_ok: "coll_ok clash (indexed_coll clash)"
proof -
  have base: "coll_ok clash (list_coll clash)" by (rule list_coll_ok)
  have one: "\<forall>q f s r s'. UpdateOne (indexed_coll clash) q f s = (r, s') \<longrightarrow>
        (s' = s \<or> replaced_one q f s s') \<and> (r = Inr 0 \<longrightarrow> s' = s \<and> (\<forall>d \<in> set s. \<not> q d)) \<and>
        (\<forall>n. r = Inr (Suc n) \<longrightarrow> replaced_one q f s s')"
    by (auto simp: indexed_coll_def list_ex_iff replace_first_none Let_def intro!: replace_first_some
        split: if_splits)
  have sel: "Find (indexed_coll clash) = Find (list_coll clash)" "FindOne (indexed_coll clash) = FindOne (list_coll clash)"
    "InsertOne (indexed_coll clash) = InsertOne (list_coll clash)"
    "UpdateMany (indexed_coll clash) = UpdateMany (list_coll clash)"
    "DeleteOne (indexed_coll clash) = DeleteOne (list_coll clash)"
    by (simp_all add: indexed_coll_def)
  have "reads_ok (indexed_coll clash)"
    using base unfolding coll_ok_def reads_ok_def sel by blast
  moreover have "insert_ok clash (indexed_coll clash)"
    using base unfolding coll_ok_def insert_ok_def sel by blast
  moreover have "delete_ok (indexed_coll clash)"
    using base unfolding coll_ok_def delete_ok_def sel by blast
  moreover have "updates_ok (indexed_coll clash)"
    using base one unfolding coll_ok_def updates_ok_def sel by blast
  ultimately show ?thesis by (simp add: coll_ok_def)
qed

lemma indexed_coll_index: "index_ok clash (indexed_coll clash)"
  by (simp add: index_ok_def indexed_coll_def Let_def)

definition sample_db :: registry_db where
  "sample_db = \<lparr>db_agents = indexed_coll agent_clash, db_count = (\<lambda>q s. Inr (length (filter q s))),
     db_page = (\<lambda>q skip limit s. Inr (take (nat limit) (drop (nat skip) (filter q s)))),
     db_search = (\<lambda>t s. Contains s t), db_hinted = (\<lambda>q s. Inl (DriverError ''bad hint''))\<rparr>"

definition sample_env :: "langfuse_client option \<Rightarrow> bool \<Rightarrow> registry_env" where
  "sample_env lf helm_works = \<lparr>re_db = sample_db, re_langfuse = lf, re_answers = (\<lambda>_ _. Some 200),
     re_get = (\<lambda>_. Inr 200), re_run = (\<lambda>_. ([], helm_works)), re_base64_ok = (\<lambda>_. True), re_tmp = [],
     re_helm_timeout = [], re_post_args = [], re_install_namespace = [], re_chart_path = ''/charts/agent''\<rparr>"

lemma sample_env_ok: "agents_coll_ok (sample_env lf h)"
  by (simp add: agents_coll_ok_def sample_env_def sample_db_def indexed_coll_ok indexed_coll_index)

definition sample_registration :: "LangfuseConfig option \<Rightarrow> RegisterAgentRequest" where
  "sample_registration c = \<lparr>rr_ProjectID = ''p'', rr_Name = ''sre'', rr_Version = ''1.2.0'', rr_Vendor = ''v'',
     rr_Capabilities = [''pod-delete''], rr_ContainerImage = None, rr_Namespace = ''ns'', rr_HelmReleaseName = [],
     rr_Endpoint = None, rr_LangfuseConfig = c, rr_Metadata = None\<rparr>"

definition one_agent :: reg_state where
  "one_agent = \<lparr>rs_registry = snd (RegisterAgent (sample_env None True) ''u1'' 5 (sample_registration None) (rs_registry no_agents)),
     rs_issued = [''u1'']\<rparr>"

lemma one_agent_reached: "reg_reach (sample_env None True) no_agents one_agent"
proof (rule reg_reach.more [OF reg_reach.start])
  have "''u1'' \<notin> set (rs_issued no_agents)" by (simp add: no_agents_def)
  from reg_step.register [OF this] show "reg_step (sample_env None True) no_agents one_agent"
    unfolding one_agent_def by (simp add: no_agents_def)
qed

lemma reached_doc:
  assumes "agents_coll_ok E" "reg_reach E no_agents s" "a \<in> set (rg_agents (rs_registry s))"
  shows "agent_inv a"
  using reached_inv [OF assms(2,1)] assms(3) registry_inv_doc unfolding reg_inv_def by blast

text \<open>C22. Every agent the registry ever holds is well formed, whatever clients register or update and
  whatever background job writes back: its name is a DNS label of at most 63 bytes, its version a semantic
  version, its capabilities a non-empty part of the taxonomy, its image, if any, has a domain, a repository
  and a tag, and its endpoint and audit pointers are set, so that no health check of it can panic.\<close>

theorem agents_well_formed:
  assumes "agents_coll_ok E" "reg_reach E no_agents s" "a \<in> set (rg_agents (rs_registry s))"
  shows "well_formed_agent a"
  using reached_doc [OF assms] by (simp add: agent_inv_def)

lemma one_agent_docs: "rg_agents (rs_registry one_agent) = [new_agent ''u1'' 5 (sample_registration None)]"
  by code_simp

theorem agents_well_formed_witness: "well_formed_agent (new_agent ''u1'' 5 (sample_registration None))"
  using agents_well_formed [OF sample_env_ok one_agent_reached] by (simp add: one_agent_docs)

text \<open>C30. No agent ever becomes active: in every reachable state each document is registered or deleted,
  a health check answers what it found and leaves the registry as it was, a cycle of the scheduler changes
  nothing, and no status query ever reports an agent healthy. (Nothing asks for the status \<open>VALIDATING\<close>, the
  only way out of \<open>REGISTERED\<close> but deletion.)\<close>

theorem no_agent_becomes_active:
  assumes "agents_coll_ok E" "reg_reach E no_agents s"
  shows "set (map ag_Status (rg_agents (rs_registry s))) \<subseteq> {AgentStatusRegistered, AgentStatusDeleted} \<and>
    snd (ValidateAgentHealth E now elapsed i (rs_registry s)) = rs_registry s \<and>
    runHealthChecks E now order (rs_registry s) = rs_registry s \<and>
    (case svc_GetAgentStatus E i (rs_registry s) of Inl _ \<Rightarrow> True | Inr r \<Rightarrow> \<not> as_Healthy r)"
proof -
  have inv: "registry_inv (rs_registry s)" using reached_inv [OF assms(2,1)] by (simp add: reg_inv_def)
  have "case svc_GetAgentStatus E i (rs_registry s) of Inl _ \<Rightarrow> True | Inr r \<Rightarrow> \<not> as_Healthy r"
  proof (cases "op_GetAgent (re_db E) i (rg_agents (rs_registry s))")
    case (Inr a)
    have "never_checked a" using reached_doc [OF assms op_GetAgent_ok(1) [OF assms(1) Inr]] by (simp add: agent_inv_def)
    then show ?thesis using Inr by (auto simp: svc_GetAgentStatus_def never_checked_def split: option.splits)
  qed (simp add: svc_GetAgentStatus_def)
  moreover have "set (map ag_Status (rg_agents (rs_registry s))) \<subseteq> {AgentStatusRegistered, AgentStatusDeleted}"
    using reached_doc [OF assms] by (auto simp: agent_inv_defs)
  ultimately show ?thesis using ValidateAgentHealth_same [OF assms(1) inv] runHealthChecks_same [OF assms(1) inv] by simp
qed

theorem no_agent_becomes_active_witness:
  "runHealthChecks (sample_env None True) 9 (\<lambda>as. as) (rs_registry one_agent) = rs_registry one_agent \<and>
   fst (ValidateAgentHealth (sample_env None True) 9 0 ''u1'' (rs_registry one_agent)) =
     Returned \<lparr>hc_Healthy = True, hc_Message = ''Agent is healthy and ready'', hc_ResponseTime = 0, hc_CheckedAt = 9\<rparr>"
proof -
  have "fst (ValidateAgentHealth (sample_env None True) 9 0 ''u1'' (rs_registry one_agent)) =
     Returned \<lparr>hc_Healthy = True, hc_Message = ''Agent is healthy and ready'', hc_ResponseTime = 0, hc_CheckedAt = 9\<rparr>"
    by code_simp
  then show ?thesis using no_agent_becomes_active [OF sample_env_ok one_agent_reached, of 9 _ _ "\<lambda>as. as"] by simp
qed

text \<open>Names are unique: in every reachable state no two agents of a project that are not deleted have
  the same name, also after renames and stale writes. (The index that enforces it covers only registered
  agents; it is enough because no agent leaves that status but by deletion.)\<close>

theorem live_names_unique:
  assumes "agents_coll_ok E" "reg_reach E no_agents s"
  shows "distinct (map (\<lambda>a. (ag_ProjectID a, ag_Name a))
    (filter (\<lambda>a. ag_Status a \<noteq> AgentStatusDeleted) (rg_agents (rs_registry s))))"
proof -
  have "list_all never_checked (rg_agents (rs_registry s))" "indexed agent_clash (rg_agents (rs_registry s))"
    using reached_inv [OF assms(2,1)] by (auto simp: reg_inv_def registry_inv_def agent_inv_def list_all_iff)
  then show ?thesis
  proof (induction "rg_agents (rs_registry s)" arbitrary: s)
    case (Cons a as)
    have "distinct (map (\<lambda>a. (ag_ProjectID a, ag_Name a)) (filter (\<lambda>a. ag_Status a \<noteq> AgentStatusDeleted) as))"
      using Cons(1) [of "s\<lparr>rs_registry := (rs_registry s)\<lparr>rg_agents := as\<rparr>\<rparr>"] Cons(2-4)
      by (simp add: Cons(2) [symmetric] indexed_def)
    then show ?case using Cons(3,4)
      by (auto simp: Cons(2) [symmetric] indexed_def agent_clash_def never_checked_def list_all_iff)
  qed simp
qed

theorem live_names_unique_witness:
  "distinct (map (\<lambda>a. (ag_ProjectID a, ag_Name a)) (rg_agents (rs_registry one_agent)))"
  using live_names_unique [OF sample_env_ok one_agent_reached] by (simp add: one_agent_docs new_agent_def)

text \<open>A hard deletion is final: once an identifier that was issued is gone from the collection, no later
  request, health check, deployment or background job, however late it runs, brings a document of that
  identifier back.\<close>

theorem hard_delete_final:
  assumes "agents_coll_ok E" "reg_reach E no_agents s" "i \<in> set (rs_issued s)" "i \<notin> agent_ids s" "reg_reach E s t"
  shows "i \<notin> agent_ids t"
proof -
  have "reg_inv s" using reached_inv [OF assms(2,1)] .
  from assms(5) this assms(3,4) have "reg_inv t \<and> i \<in> set (rs_issued t) \<and> i \<notin> agent_ids t"
  proof (induction)
    case (more s t u)
    then have t: "reg_inv t" "i \<in> set (rs_issued t)" "i \<notin> agent_ids t" by auto
    then obtain ids where "edits ids (rs_registry t) (rs_registry u)" "ids \<inter> set (rs_issued t) = {}"
        "set (rs_issued u) = ids \<union> set (rs_issued t)"
      using reg_step_edits [OF assms(1) more(2)] unfolding reg_inv_def by blast
    then show ?case using t reg_step_inv [OF assms(1) more(2)] edits_ids unfolding agent_ids_def by blast
  qed simp
  then show ?thesis by simp
qed

definition sample_langfuse :: langfuse_client where
  "sample_langfuse = \<lparr>lf_baseURL = ''http://lf'', lf_publicKey = ''pk'', lf_secretKey = ''sk''\<rparr>"

definition synced_registration :: RegisterAgentRequest where
  "synced_registration = sample_registration (Some \<lparr>lc_ProjectID = ''lp'', lc_SyncEnabled = True, lc_LastSyncedAt = None\<rparr>)"

definition synced_env :: registry_env where
  "synced_env = sample_env (Some sample_langfuse) True"

definition synced_agent :: reg_state where
  "synced_agent = \<lparr>rs_registry = snd (RegisterAgent synced_env ''u1'' 5 synced_registration (rs_registry no_agents)),
     rs_issued = [''u1'']\<rparr>"

definition after_delete :: "bool \<Rightarrow> reg_state" where
  "after_delete hard = synced_agent\<lparr>rs_registry := snd (svc_DeleteAgent synced_env 6 ''u1'' hard (rs_registry synced_agent))\<rparr>"

definition stale_job :: job where
  "stale_job = SyncJob (new_agent ''u1'' 5 synced_registration)"

definition after_stale_job :: "bool \<Rightarrow> reg_state" where
  "after_stale_job hard = (after_delete hard)\<lparr>rs_registry :=
     run_job synced_env 7 stale_job ((rs_registry (after_delete hard))\<lparr>rg_jobs := tl (rg_jobs (rs_registry (after_delete hard)))\<rparr>)\<rparr>"

lemma after_delete_reached: "reg_reach synced_env no_agents (after_delete hard)"
proof (rule reg_reach.more [OF reg_reach.more [OF reg_reach.start]])
  have "''u1'' \<notin> set (rs_issued no_agents)" by (simp add: no_agents_def)
  from reg_step.register [OF this] show "reg_step synced_env no_agents synced_agent"
    unfolding synced_agent_def by (simp add: no_agents_def)
  show "reg_step synced_env synced_agent (after_delete hard)" unfolding after_delete_def by (rule reg_step.delete)
qed

lemma after_delete_job:
  "hd (rg_jobs (rs_registry (after_delete True))) = stale_job \<and> rg_jobs (rs_registry (after_delete True)) \<noteq> []"
  "hd (rg_jobs (rs_registry (after_delete False))) = stale_job \<and> rg_jobs (rs_registry (after_delete False)) \<noteq> []"
  by code_simp+

lemma after_delete_jobs: "rg_jobs (rs_registry (after_delete hard)) = [] @ stale_job # tl (rg_jobs (rs_registry (after_delete hard)))"
  using after_delete_job by (cases hard) (metis append_Nil list.collapse)+

lemma stale_job_step: "reg_step synced_env (after_delete hard) (after_stale_job hard)"
  using reg_step.background [OF after_delete_jobs, of synced_env hard 7] by (simp add: after_stale_job_def)

theorem hard_delete_final_witness: "''u1'' \<notin> agent_ids (after_stale_job True)"
proof -
  have gone: "''u1'' \<in> set (rs_issued (after_delete True))" "''u1'' \<notin> agent_ids (after_delete True)" by code_simp+
  have "agents_coll_ok synced_env" by (simp add: synced_env_def sample_env_ok)
  from hard_delete_final [OF this after_delete_reached gone reg_reach.more [OF reg_reach.start stale_job_step]]
  show ?thesis .
qed

text \<open>
  A soft deletion is not: the upload started by the registration, run after the deletion, writes the
  registered document back.
\<close>

lemma stale_sync_undeletes:
  "map ag_Status (rg_agents (rs_registry (after_delete False))) = [AgentStatusDeleted]"
  "map ag_Status (rg_agents (rs_registry (after_stale_job False))) = [AgentStatusRegistered]"
  by code_simp+

text \<open>
  The server creates its Langfuse client with an empty configuration (\<^verbatim>\<open>graph/resolver.go\<close>): no upload
  then succeeds and no stale document is written, with or without synchronisation enabled.
\<close>

lemma unconfigured_sync_writes_nothing:
  assumes "re_langfuse E = Some c" "\<not> configured c" "ag_AuditInfo a \<noteq> None"
  shows "SyncToLangfuse E now a w = (Returned (), w)"
  using assms by (auto simp: SyncToLangfuse_def CreateOrUpdateUser_def)

section \<open>Deployments\<close>

lemma RegisterAgent_existing:
  "GetAgentByNamespace (re_db E) (rr_Namespace r) (rg_agents w) = Inr a \<Longrightarrow> ag_Name a = rr_Name r \<Longrightarrow>
   RegisterAgent E uuid now r w = (Returned a, w)"
  by (simp add: RegisterAgent_def)

lemma indexed_id_unique:
  "indexed agent_clash s \<Longrightarrow> removed_one (\<lambda>d. ag_AgentID d = i) s s' \<Longrightarrow> i \<notin> ag_AgentID ` set s'"
  by (auto simp: indexed_def removed_one_def sorted_wrt_append agent_clash_def)

text \<open>A deployment that Helm refuses destroys what was there before: when the namespace already holds an
  agent of that name, of whatever project, the registration hands that agent back, and after the failed
  upgrade its document is removed and, if it was deployed by Helm, its working release uninstalled.\<close>

theorem failed_redeploy_destroys:
  assumes "agents_coll_ok E" "reg_reach E no_agents s" "w = rs_registry s"
    and found: "GetAgentByNamespace (re_db E) (dr_Namespace d) (rg_agents w) = Inr a" "ag_Name a = dr_Name d"
    and chart: "given (dr_ChartData d) \<or> re_chart_path E \<noteq> []"
    and failed: "run_deploy E (deploy_request E (ag_AgentID a) d) w = (Some (Inl e), w1)"
    and up: "op_GetAgent (re_db E) (ag_AgentID a) (rg_agents w) = Inr a"
      "DeleteOne (db_agents (re_db E)) (\<lambda>x. ag_AgentID x = ag_AgentID a) (rg_agents w) = (Inr 1, docs)"
  shows "\<exists>w'. DeployAgentWithHelm E uuid now p d w = (Failed (Message ''helm deployment failed''), w') \<and>
    ag_AgentID a \<notin> ag_AgentID ` set (rg_agents w') \<and>
    rg_helm w' = rg_helm (run_uninstall E a w1)"
proof -
  have same: "rg_agents w1 = rg_agents w" using failed by (auto simp: run_deploy_def split: option.splits sum.splits)
  have un: "rg_agents (run_uninstall E a w1) = rg_agents w"
    using same by (auto simp: run_uninstall_def split: option.splits sum.splits)
  have "removed_one (\<lambda>x. ag_AgentID x = ag_AgentID a) (rg_agents w) docs"
    using assms(1) up(2) unfolding agents_coll_ok_def coll_ok_def delete_ok_def by (metis One_nat_def)
  then have gone: "ag_AgentID a \<notin> ag_AgentID ` set docs"
    using reached_inv [OF assms(2,1)] assms(3) indexed_id_unique unfolding reg_inv_def by blast
  let ?w' = "start_job (SyncJob a) ((run_uninstall E a w1)\<lparr>rg_agents := docs\<rparr>)"
  have del: "svc_DeleteAgent E now (ag_AgentID a) True w1 =
      (Returned (''Agent '' @ ag_AgentID a @ '' successfully deleted''), ?w')"
    using up same un by (simp add: svc_DeleteAgent_def rg_update_def op_DeleteAgent_def Let_def)
  have "RegisterAgent E uuid now (deploy_registration p d) w = (Returned a, w)"
    using found by (intro RegisterAgent_existing) (simp_all add: deploy_registration_def Let_def)
  then have "DeployAgentWithHelm E uuid now p d w = (Failed (Message ''helm deployment failed''), ?w')"
    using chart failed del by (auto simp: DeployAgentWithHelm_def)
  then show ?thesis using gone by (simp add: start_job_def)
qed

definition sample_deployment :: DeployAgentRequest where
  "sample_deployment = \<lparr>dr_Name = ''sre'', dr_Namespace = ''shop'', dr_HelmReleaseName = ''sre'', dr_HelmChartVersion = ''1'',
     dr_Version = None, dr_Capabilities = [''observability''], dr_ChartData = None, dr_ValuesYaml = None, dr_Kubeconfig = None,
     dr_HelmEnvVars = []\<rparr>"

definition deployed_agent :: reg_state where
  "deployed_agent = \<lparr>rs_registry = snd (RegisterAgent (sample_env None False) ''u1'' 5 (deploy_registration ''q'' sample_deployment)
     (rs_registry no_agents)), rs_issued = [''u1'']\<rparr>"

definition owned_by_q :: Agent where
  "owned_by_q = new_agent ''u1'' 5 (deploy_registration ''q'' sample_deployment)"

lemma deployed_agent_reached: "reg_reach (sample_env None False) no_agents deployed_agent"
proof (rule reg_reach.more [OF reg_reach.start])
  have "''u1'' \<notin> set (rs_issued no_agents)" by (simp add: no_agents_def)
  from reg_step.register [OF this] show "reg_step (sample_env None False) no_agents deployed_agent"
    unfolding deployed_agent_def by (simp add: no_agents_def)
qed

text \<open>The failed deployment is one of project \<open>p\<close>, the agent that goes one of project \<open>q\<close>.\<close>

theorem failed_redeploy_destroys_witness:
  "ag_ProjectID owned_by_q = ''q'' \<and>
   (\<exists>w'. DeployAgentWithHelm (sample_env None False) ''u2'' 8 ''p'' sample_deployment (rs_registry deployed_agent) =
       (Failed (Message ''helm deployment failed''), w') \<and> ''u1'' \<notin> ag_AgentID ` set (rg_agents w') \<and>
     last (rg_helm w') = Uninstalled [''uninstall'', ''sre'', ''--namespace'', ''shop''])"
proof -
  let ?E = "sample_env None False"
  let ?w = "rs_registry deployed_agent"
  have docs: "rg_agents ?w = [owned_by_q]" "ag_AgentID owned_by_q = ''u1''" "ag_ProjectID owned_by_q = ''q''" by code_simp+
  have found: "GetAgentByNamespace (re_db ?E) (dr_Namespace sample_deployment) (rg_agents ?w) = Inr owned_by_q"
    "ag_Name owned_by_q = dr_Name sample_deployment" by code_simp+
  have chart: "given (dr_ChartData sample_deployment) \<or> re_chart_path ?E \<noteq> []" by code_simp
  have up: "op_GetAgent (re_db ?E) (ag_AgentID owned_by_q) (rg_agents ?w) = Inr owned_by_q"
    "DeleteOne (db_agents (re_db ?E)) (\<lambda>x. ag_AgentID x = ag_AgentID owned_by_q) (rg_agents ?w) = (Inr 1, [])"
    unfolding docs by (simp_all add: docs op_GetAgent_def find_agent_def sample_env_def sample_db_def indexed_coll_def list_coll_def)
  obtain w1 where dep: "run_deploy ?E (deploy_request ?E (ag_AgentID owned_by_q) sample_deployment) ?w = (Some (Inl (HelmFailed [])), w1)"
    "w1 = ?w\<lparr>rg_helm := rg_helm w1\<rparr>"
  proof -
    have "fst (run_deploy ?E (deploy_request ?E (ag_AgentID owned_by_q) sample_deployment) ?w) = Some (Inl (HelmFailed []))"
      by code_simp
    then show thesis
      by (intro that [of "snd (run_deploy ?E (deploy_request ?E (ag_AgentID owned_by_q) sample_deployment) ?w)"])
         (auto simp: prod_eq_iff run_deploy_def split: option.splits sum.splits)
  qed
  have un: "uninstall_of owned_by_q = Some \<lparr>hu_ReleaseName = ''sre'', hu_Namespace = ''shop'', hu_Kubeconfig = None\<rparr>" by code_simp
  have "dns_label ''sre'' \<and> no_double ''sre''" by code_simp
  then have "uninstall_command (re_tmp ?E) (uninstall_of owned_by_q) = Some (Inr [''uninstall'', ''sre'', ''--namespace'', ''shop''])"
    unfolding un by (simp add: uninstall_command_def release_name_id blank_def TrimSpace_id trimmed_def is_space_def given_def)
  then have "last (rg_helm (run_uninstall ?E owned_by_q w1)) = Uninstalled [''uninstall'', ''sre'', ''--namespace'', ''shop'']"
    by (simp add: run_uninstall_def un)
  then show ?thesis
    using failed_redeploy_destroys [OF sample_env_ok deployed_agent_reached refl found chart dep(1) up, of "''u2''" 8 "''p''"] docs
    by auto
qed

text \<open>
  The lookup that makes registration repeatable takes the first agent of the namespace: where several
  agents share one, registering the second again fails on its own name.
\<close>

definition two_agents :: registry where
  "two_agents = snd (RegisterAgent (sample_env None True) ''u2'' 6 ((sample_registration None)\<lparr>rr_Name := ''sec''\<rparr>)
     (rs_registry one_agent))"

lemma second_agent_not_repeatable:
  "fst (RegisterAgent (sample_env None True) ''u3'' 7 (sample_registration None) two_agents) =
     Returned (new_agent ''u1'' 5 (sample_registration None))"
  "fst (RegisterAgent (sample_env None True) ''u3'' 7 ((sample_registration None)\<lparr>rr_Name := ''sec''\<rparr>) two_agents) =
     Failed ErrDuplicateAgentName"
  by code_simp+

text \<open>And a registration of another project in that namespace is answered with this project's agent.\<close>

lemma registration_crosses_projects:
  "fst (RegisterAgent (sample_env None True) ''u3'' 7 ((sample_registration None)\<lparr>rr_ProjectID := ''other''\<rparr>) two_agents) =
     Returned (new_agent ''u1'' 5 (sample_registration None))"
  by code_simp

text \<open>
  The answer to a health check says \<open>ACTIVE\<close> for an agent that does not answer and whose document says
  \<open>REGISTERED\<close>.
\<close>

lemma unreachable_agent_reported_active:
  "fst (res_ValidateAgentHealth ((sample_env None True)\<lparr>re_get := (\<lambda>_. Inl ''refused'')\<rparr>) 9 0 ''u1'' (rs_registry one_agent)) =
     Returned (AgentStatusActive, False)"
  by code_simp

text \<open>Most of what validation accepts is not offered to clients.\<close>

lemma offered_capabilities:
  "length GetCapabilitiesTaxonomy = 10" "length loadCapabilitiesTaxonomy = 42"
  "set (map fst GetCapabilitiesTaxonomy) \<subseteq> set loadCapabilitiesTaxonomy"
  by code_simp+

text \<open>
  With an install namespace configured, an uninstall looks for the release where it is not: Helm
  answers \<open>not found\<close>, which counts as done.
\<close>

lemma uninstall_misses_install_namespace:
  assumes "TrimSpace (re_install_namespace E) \<noteq> []" "uninstall_of (new_agent i now (deploy_registration p d)) = Some u"
  shows "hd_Namespace (deploy_request E i d) = TrimSpace (re_install_namespace E)" "hu_Namespace u = dr_Namespace d"
  using assms by (auto simp: deploy_request_def install_namespace uninstall_of_def new_agent_def deploy_registration_def Let_def
      split: if_splits)

end
