(* ===== verification/Agent_Api.thy ===== *)
theory Agent_Api
  imports Agent_Lifecycle "HOL-Library.AList"
begin

text \<open>
  The interface of the agent registry: the conversions between GraphQL's types and the service's
  (\<^verbatim>\<open>pkg/agent_registry/mapper.go\<close>), the handlers that check the caller's role (\<^verbatim>\<open>handler.go\<close>) and the
  resolvers the server is wired with (\<^verbatim>\<open>graph/agent_registry.resolvers.go\<close>), which call the service
  directly. The role check is a gRPC call to the authentication service: the parameter \<open>ac_role\<close>.
\<close>

section \<open>Conversions\<close>

record AgentEndpointInput =
  ei_URL :: string
  ei_EndpointType :: EndpointType
  ei_HealthPath :: "string option"
  ei_ReadyPath :: "string option"

record LangfuseConfigInput = li_ProjectID :: string  li_SyncEnabled :: "bool option"

record AgentMetadataInput =
  mi_Labels :: "(string \<times> string) list"
  mi_Annotations :: "(string \<times> string) list"

record RegisterAgentInput =
  ri_ProjectID :: string
  ri_Name :: string
  ri_Version :: string
  ri_Vendor :: string
  ri_Capabilities :: "string list"
  ri_ContainerImage :: "ContainerImage option"
  ri_Namespace :: string
  ri_HelmReleaseName :: "string option"
  ri_Endpoint :: "AgentEndpointInput option"
  ri_LangfuseConfig :: "LangfuseConfigInput option"
  ri_Metadata :: "AgentMetadataInput option"

record UpdateAgentInput =
  ui_Name :: "string option"
  ui_Version :: "string option"
  ui_Vendor :: "string option"
  ui_Capabilities :: "string list"
  ui_ContainerImage :: "ContainerImage option"
  ui_Endpoint :: "AgentEndpointInput option"
  ui_LangfuseConfig :: "LangfuseConfigInput option"
  ui_Metadata :: "AgentMetadataInput option"

definition or_default :: "'a \<Rightarrow> 'a option \<Rightarrow> 'a" where
  "or_default d x = (case x of None \<Rightarrow> d | Some v \<Rightarrow> v)"

definition map_endpoint :: "AgentEndpointInput \<Rightarrow> AgentEndpoint" where
  "map_endpoint i = \<lparr>ep_URL = ei_URL i, ep_Type = ei_EndpointType i, ep_DiscoveryType = EndpointDiscoveryManual,
     ep_HealthPath = or_default ''/health'' (ei_HealthPath i), ep_ReadyPath = or_default ''/ready'' (ei_ReadyPath i)\<rparr>"

definition map_langfuse :: "LangfuseConfigInput \<Rightarrow> LangfuseConfig" where
  "map_langfuse i = \<lparr>lc_ProjectID = li_ProjectID i, lc_SyncEnabled = or_default True (li_SyncEnabled i), lc_LastSyncedAt = None\<rparr>"

text \<open>A list of pairs read into a map: a later pair overwrites an earlier one of its key.\<close>

definition pairs_map :: "(string \<times> string) list \<Rightarrow> (string \<times> string) list" where
  "pairs_map kvs = foldl (\<lambda>m (k, v). AList.update k v m) [] kvs"

definition map_metadata :: "AgentMetadataInput \<Rightarrow> AgentMetadata" where
  "map_metadata i = \<lparr>am_Labels = pairs_map (mi_Labels i), am_Annotations = pairs_map (mi_Annotations i)\<rparr>"

definition MapRegisterAgentInputToRequest :: "RegisterAgentInput \<Rightarrow> RegisterAgentRequest" where
  "MapRegisterAgentInputToRequest i =
     \<lparr>rr_ProjectID = ri_ProjectID i, rr_Name = ri_Name i, rr_Version = ri_Version i, rr_Vendor = ri_Vendor i,
      rr_Capabilities = ri_Capabilities i, rr_ContainerImage = ri_ContainerImage i, rr_Namespace = ri_Namespace i,
      rr_HelmReleaseName = or_default [] (ri_HelmReleaseName i), rr_Endpoint = map_option map_endpoint (ri_Endpoint i),
      rr_LangfuseConfig = map_option map_langfuse (ri_LangfuseConfig i),
      rr_Metadata = map_option map_metadata (ri_Metadata i)\<rparr>"

definition MapUpdateAgentInputToRequest :: "UpdateAgentInput \<Rightarrow> UpdateAgentRequest" where
  "MapUpdateAgentInputToRequest i =
     \<lparr>ur_Name = ui_Name i, ur_Version = ui_Version i, ur_Vendor = ui_Vendor i, ur_Capabilities = ui_Capabilities i,
      ur_ContainerImage = ui_ContainerImage i, ur_Endpoint = map_option map_endpoint (ui_Endpoint i),
      ur_LangfuseConfig = map_option map_langfuse (ui_LangfuseConfig i),
      ur_Metadata = map_option map_metadata (ui_Metadata i)\<rparr>"

record ListAgentsFilter =
  lf_ProjectID :: "string option"
  lf_Status :: "AgentStatus option"
  lf_Capabilities :: "string list"
  lf_SearchTerm :: "string option"

definition MapAgentFilterInputToFilter :: "ListAgentsFilter option \<Rightarrow> AgentFilter" where
  "MapAgentFilterInputToFilter i =
     (case i of None \<Rightarrow> \<lparr>af_ProjectID = [], af_Status = None, af_Statuses = [], af_Capabilities = [], af_SearchTerm = None\<rparr>
      | Some f \<Rightarrow> \<lparr>af_ProjectID = or_default [] (lf_ProjectID f), af_Status = lf_Status f, af_Statuses = [],
          af_Capabilities = lf_Capabilities f, af_SearchTerm = lf_SearchTerm f\<rparr>)"

text \<open>
  The agent of an answer: times are written in decimal, an empty release name is left out, and a map
  is listed in the order Go iterates it, \<open>order\<close>.
\<close>

record model_agent =
  ma_AgentID :: string
  ma_ProjectID :: string
  ma_Name :: string
  ma_Version :: string
  ma_Vendor :: string
  ma_Capabilities :: "string list"
  ma_ContainerImage :: "ContainerImage option"
  ma_Namespace :: string
  ma_HelmReleaseName :: "string option"
  ma_Endpoint :: "AgentEndpoint option"
  ma_LangfuseConfig :: "(string \<times> bool \<times> string option) option"
  ma_Status :: AgentStatus
  ma_Metadata :: "((string \<times> string) list \<times> (string \<times> string) list) option"
  ma_AuditInfo :: "(string \<times> string \<times> string \<times> string \<times> string option) option"

definition MapAgentToModel :: "((string \<times> string) list \<Rightarrow> (string \<times> string) list) \<Rightarrow> Agent \<Rightarrow> model_agent" where
  "MapAgentToModel order a =
     \<lparr>ma_AgentID = ag_AgentID a, ma_ProjectID = ag_ProjectID a, ma_Name = ag_Name a, ma_Version = ag_Version a,
      ma_Vendor = ag_Vendor a, ma_Capabilities = ag_Capabilities a, ma_ContainerImage = ag_ContainerImage a,
      ma_Namespace = ag_Namespace a,
      ma_HelmReleaseName = (if ag_HelmReleaseName a = [] then None else Some (ag_HelmReleaseName a)),
      ma_Endpoint = ag_Endpoint a,
      ma_LangfuseConfig = map_option (\<lambda>c. (lc_ProjectID c, lc_SyncEnabled c, map_option FormatInt (lc_LastSyncedAt c)))
        (ag_LangfuseConfig a),
      ma_Status = ag_Status a,
      ma_Metadata = map_option (\<lambda>m. (order (am_Labels m), order (am_Annotations m))) (ag_Metadata a),
      ma_AuditInfo = map_option (\<lambda>ai. (FormatInt (ai_CreatedAt ai), ai_CreatedBy ai, FormatInt (ai_UpdatedAt ai),
        ai_UpdatedBy ai, map_option FormatInt (ai_LastHealthCheck ai))) (ag_AuditInfo a)\<rparr>"

section \<open>Handlers\<close>

record auth_ctx =
  ac_token :: "string option"
  ac_role :: "string \<Rightarrow> string list \<Rightarrow> string \<Rightarrow> bool"

definition signed_in :: "auth_ctx \<Rightarrow> bool" where
  "signed_in c = (case ac_token c of None \<Rightarrow> False | Some t \<Rightarrow> t \<noteq> [])"

definition editors :: "string list" where "editors = [''Owner'', ''Editor'']"
definition readers :: "string list" where "readers = [''Owner'', ''Editor'', ''Viewer'']"

datatype SyncStatus = SyncStatusSkipped | SyncStatusFailed | SyncStatusSuccess

definition h_RegisterAgent ::
  "registry_env \<Rightarrow> auth_ctx \<Rightarrow> string \<Rightarrow> int \<Rightarrow> RegisterAgentInput \<Rightarrow> registry \<Rightarrow> (Agent \<times> SyncStatus) outcome \<times> registry" where
  "h_RegisterAgent E c uuid now i w =
     (if \<not> signed_in c then (Failed ErrAgentUnauthorized, w)
      else if \<not> ac_role c (ri_ProjectID i) editors ''Accepted'' then (Failed ErrInsufficientPermissions, w)
      else (case RegisterAgent E uuid now (MapRegisterAgentInputToRequest i) w of
          (Panicked, w') \<Rightarrow> (Panicked, w')
        | (Failed e, w') \<Rightarrow>
            (Failed (if e = ErrDuplicateAgentName
               then Message (''agent name '' @ ri_Name i @ '' already exists in project'')
               else Wrapped ''failed to register agent'' e), w')
        | (Returned a, w') \<Rightarrow>
            (if sync_enabled a then (case SyncToLangfuse E now a w' of
                (Panicked, w2) \<Rightarrow> (Panicked, w2)
              | (Failed _, w2) \<Rightarrow> (Returned (a, SyncStatusFailed), w2)
              | (Returned _, w2) \<Rightarrow> (Returned (a, SyncStatusSuccess), w2))
             else (Returned (a, SyncStatusSkipped), w'))))"

text \<open>The handlers of one agent first read it, to know the project whose role is needed.\<close>

definition with_agent ::
  "registry_env \<Rightarrow> auth_ctx \<Rightarrow> string \<Rightarrow> registry \<Rightarrow> (Agent \<Rightarrow> 'r outcome \<times> registry) \<Rightarrow> 'r outcome \<times> registry" where
  "with_agent E c i w k =
     (if \<not> signed_in c then (Failed ErrAgentUnauthorized, w)
      else (case svc_GetAgent E i w of
          Inl e \<Rightarrow> (Failed (if e = ErrAgentNotFound then Message (''agent with ID '' @ i @ '' not found'') else e), w)
        | Inr a \<Rightarrow> k a))"

definition h_GetAgent :: "registry_env \<Rightarrow> auth_ctx \<Rightarrow> string \<Rightarrow> registry \<Rightarrow> Agent outcome \<times> registry" where
  "h_GetAgent E c i w = with_agent E c i w (\<lambda>a.
     if ac_role c (ag_ProjectID a) readers ''Accepted'' then (Returned a, w) else (Failed ErrInsufficientPermissions, w))"

definition h_UpdateAgent ::
  "registry_env \<Rightarrow> auth_ctx \<Rightarrow> int \<Rightarrow> string \<Rightarrow> UpdateAgentInput \<Rightarrow> registry \<Rightarrow> Agent outcome \<times> registry" where
  "h_UpdateAgent E c now i u w = with_agent E c i w (\<lambda>a.
     if ac_role c (ag_ProjectID a) editors [] then svc_UpdateAgent E now i (MapUpdateAgentInputToRequest u) w
     else (Failed ErrInsufficientPermissions, w))"

definition h_DeleteAgent ::
  "registry_env \<Rightarrow> auth_ctx \<Rightarrow> int \<Rightarrow> string \<Rightarrow> bool option \<Rightarrow> registry \<Rightarrow> string outcome \<times> registry" where
  "h_DeleteAgent E c now i hard w = with_agent E c i w (\<lambda>a.
     if ac_role c (ag_ProjectID a) editors [] then svc_DeleteAgent E now i (or_default False hard) w
     else (Failed ErrInsufficientPermissions, w))"

definition h_SyncAgentToLangfuse ::
  "registry_env \<Rightarrow> auth_ctx \<Rightarrow> int \<Rightarrow> string \<Rightarrow> registry \<Rightarrow> bool outcome \<times> registry" where
  "h_SyncAgentToLangfuse E c now i w = with_agent E c i w (\<lambda>a.
     if ac_role c (ag_ProjectID a) editors []
     then (case SyncToLangfuse E now a w of (Panicked, w') \<Rightarrow> (Panicked, w')
         | (Failed _, w') \<Rightarrow> (Returned False, w') | (Returned _, w') \<Rightarrow> (Returned True, w'))
     else (Failed ErrInsufficientPermissions, w))"

text \<open>The two handlers of the health of an agent ask for no role, though a check may write its status.\<close>

definition h_GetAgentStatus ::
  "registry_env \<Rightarrow> auth_ctx \<Rightarrow> int \<Rightarrow> int \<Rightarrow> string \<Rightarrow> registry \<Rightarrow> AgentStatusResponse outcome \<times> registry" where
  "h_GetAgentStatus E c now elapsed i w = with_agent E c i w (\<lambda>a.
     (case ValidateAgentHealth E now elapsed i w of
        (Returned h, w') \<Rightarrow> (Returned \<lparr>as_AgentID = ag_AgentID a, as_Status = ag_Status a, as_Healthy = hc_Healthy h,
            as_LastCheckedAt = (if hc_CheckedAt h > 0 then Some (hc_CheckedAt h) else None),
            as_LastSynced = (case ag_LangfuseConfig a of None \<Rightarrow> None | Some c \<Rightarrow> lc_LastSyncedAt c)\<rparr>, w')
      | (Failed e, w') \<Rightarrow> (Failed e, w') | (Panicked, w') \<Rightarrow> (Panicked, w')))"

definition h_ValidateAgentHealth ::
  "registry_env \<Rightarrow> auth_ctx \<Rightarrow> int \<Rightarrow> int \<Rightarrow> string \<Rightarrow> registry \<Rightarrow> HealthCheckResult outcome \<times> registry" where
  "h_ValidateAgentHealth E c now elapsed i w =
     (if \<not> signed_in c then (Failed ErrAgentUnauthorized, w)
      else (case ValidateAgentHealth E now elapsed i w of
          (Failed e, w') \<Rightarrow> (Failed (if e = ErrAgentNotFound then Message (''agent with ID '' @ i @ '' not found'') else e), w')
        | r \<Rightarrow> r))"

definition h_ListAgents ::
  "registry_env \<Rightarrow> auth_ctx \<Rightarrow> int \<Rightarrow> ListAgentsFilter option \<Rightarrow> PaginationInput \<Rightarrow> registry \<Rightarrow> reg_error + AgentListResponse" where
  "h_ListAgents E c conv f pg w =
     (let flt = MapAgentFilterInputToFilter f
      in if \<not> signed_in c then Inl ErrAgentUnauthorized
         else if af_ProjectID flt \<noteq> [] \<and> \<not> ac_role c (af_ProjectID flt) readers ''Accepted'' then Inl ErrInsufficientPermissions
         else (case svc_ListAgents E conv (Some flt) (Some pg) w of
             Inl e \<Rightarrow> Inl (Wrapped ''failed to retrieve agents'' e)
           | Inr r \<Rightarrow> Inr (if pg_Limit pg > 0
               then (let pages = (int (al_TotalCount r) + pg_Limit pg - 1) div pg_Limit pg
                     in r\<lparr>al_TotalPages := pages, al_HasNextPage := (al_CurrentPage r < pages)\<rparr>)
               else r\<lparr>al_TotalPages := 1, al_HasNextPage := False\<rparr>)))"

definition h_GetAgentsByCapabilities ::
  "registry_env \<Rightarrow> auth_ctx \<Rightarrow> string \<Rightarrow> string list \<Rightarrow> registry \<Rightarrow> reg_error + Agent list" where
  "h_GetAgentsByCapabilities E c p cs w =
     (if \<not> signed_in c then Inl ErrAgentUnauthorized
      else if \<not> ac_role c p readers [] then Inl ErrInsufficientPermissions
      else if cs = [] then Inl (Message ''capabilities array cannot be empty'')
      else svc_GetAgentsByCapabilities E p cs w)"

section \<open>Resolvers\<close>

definition res_RegisterAgent ::
  "registry_env \<Rightarrow> string \<Rightarrow> int \<Rightarrow> RegisterAgentInput \<Rightarrow> registry \<Rightarrow> (Agent \<times> SyncStatus) outcome \<times> registry" where
  "res_RegisterAgent E uuid now i w =
     (case RegisterAgent E uuid now (MapRegisterAgentInputToRequest i) w of
        (Returned a, w') \<Rightarrow> (Returned (a, SyncStatusSkipped), w')
      | (Failed e, w') \<Rightarrow> (Failed e, w') | (Panicked, w') \<Rightarrow> (Panicked, w'))"

definition res_UpdateAgent ::
  "registry_env \<Rightarrow> int \<Rightarrow> string \<Rightarrow> UpdateAgentInput \<Rightarrow> registry \<Rightarrow> Agent outcome \<times> registry" where
  "res_UpdateAgent E now i u = svc_UpdateAgent E now i (MapUpdateAgentInputToRequest u)"

definition res_DeleteAgent :: "registry_env \<Rightarrow> int \<Rightarrow> string \<Rightarrow> bool option \<Rightarrow> registry \<Rightarrow> string outcome \<times> registry" where
  "res_DeleteAgent E now i hard = svc_DeleteAgent E now i (or_default False hard)"

definition res_ListAgents ::
  "registry_env \<Rightarrow> int \<Rightarrow> ListAgentsFilter option \<Rightarrow> PaginationInput \<Rightarrow> registry \<Rightarrow> reg_error + AgentListResponse" where
  "res_ListAgents E conv f pg = svc_ListAgents E conv (Some (MapAgentFilterInputToFilter f)) (Some pg)"

text \<open>
  \<^verbatim>\<open>GetEnvironmentVariables\<close>: the server's own variables for language models, values included, chosen
  by \<^verbatim>\<open>HELM_ENV_VARS\<close> (\<open>NAME:true\<close> separated by commas) or by a fixed list.
\<close>

definition default_env_vars :: "(string \<times> bool) list" where
  "default_env_vars = [(''OPENAI_API_KEY'', True), (''OPENAI_BASE_URL'', False), (''OPENAI_DEPLOYMENT'', False),
     (''OPENAI_API_VERSION'', False), (''OPENAI_EMBEDDING_DEPLOYMENT'', False), (''AZURE_OPENAI_KEY'', True),
     (''AZURE_OPENAI_ENDPOINT'', False), (''AZURE_OPENAI_DEPLOYMENT'', False), (''AZURE_OPENAI_API_VERSION'', False),
     (''AZURE_OPENAI_EMBEDDING_DEPLOYMENT'', False)]"

definition parse_env_entry :: "string \<Rightarrow> (string \<times> bool) option" where
  "parse_env_entry entry = (case CutByte (TrimSpace entry) (CHR '':'') of
     (n, flag, found) \<Rightarrow> if found then Some (TrimSpace n, TrimSpace flag = ''true'') else None)"

definition GetEnvironmentVariables :: "(string \<Rightarrow> string) \<Rightarrow> (string \<times> string \<times> bool) list" where
  "GetEnvironmentVariables env =
     (let spec = TrimSpace (env ''HELM_ENV_VARS'');
          wanted = (if spec = [] then default_env_vars else List.map_filter parse_env_entry (SplitByte spec (CHR '','')))
      in List.map_filter (\<lambda>(n, sens). if env n = [] then None else Some (n, env n, sens)) wanted)"

section \<open>What the handlers and conversions guarantee\<close>

lemma pairs_map_lookup: "map_of (pairs_map kvs) = map_of (rev kvs)"
proof -
  have "map_of (foldl (\<lambda>m (k, v). AList.update k v m) m kvs) = map_of m ++ map_of (rev kvs)" for m
    by (induction kvs arbitrary: m) (auto simp: update_conv' map_add_def fun_eq_iff split: option.splits)
  then show ?thesis by (simp add: pairs_map_def)
qed

lemma with_agent_guarded:
  "(\<And>a. svc_GetAgent E i w = Inr a \<Longrightarrow> snd (k a) = w) \<Longrightarrow> snd (with_agent E c i w k) = w"
  by (simp add: with_agent_def split: sum.splits)

lemma handlers_need_a_role:
  assumes "\<not> signed_in c \<or> (\<forall>p inv. \<not> ac_role c p editors inv)"
  shows "snd (h_RegisterAgent E c uuid now i w) = w" "snd (h_UpdateAgent E c now j u w) = w"
    "snd (h_DeleteAgent E c now j hard w) = w" "snd (h_SyncAgentToLangfuse E c now j w) = w"
proof -
  show "snd (h_RegisterAgent E c uuid now i w) = w" using assms by (auto simp: h_RegisterAgent_def)
  show "snd (h_UpdateAgent E c now j u w) = w"
    using assms by (auto simp: h_UpdateAgent_def with_agent_def split: sum.splits)
  show "snd (h_DeleteAgent E c now j hard w) = w"
    using assms by (auto simp: h_DeleteAgent_def with_agent_def split: sum.splits)
  show "snd (h_SyncAgentToLangfuse E c now j w) = w"
    using assms by (auto simp: h_SyncAgentToLangfuse_def with_agent_def split: sum.splits)
qed

text \<open>
  The resolvers that the server is wired with take no caller at all: the registry's part of the schema
  carries no \<open>@authorized\<close> directive and they check no role, so what the handlers refuse anyone can have.
\<close>

lemma resolvers_ask_nothing:
  "h_UpdateAgent E \<lparr>ac_token = None, ac_role = \<lambda>_ _ _. False\<rparr> now i u w = (Failed ErrAgentUnauthorized, w)"
  "res_UpdateAgent E now i u w = svc_UpdateAgent E now i (MapUpdateAgentInputToRequest u) w"
  by (simp_all add: h_UpdateAgent_def with_agent_def signed_in_def res_UpdateAgent_def)

lemma map_filter_memI: "x \<in> set xs \<Longrightarrow> f x = Some y \<Longrightarrow> y \<in> set (List.map_filter f xs)"
  by (force simp: List.map_filter_def)

lemma secrets_listed:
  assumes "env ''HELM_ENV_VARS'' = []" "env ''OPENAI_API_KEY'' \<noteq> []"
  shows "(''OPENAI_API_KEY'', env ''OPENAI_API_KEY'', True) \<in> set (GetEnvironmentVariables env)"
proof -
  have "(''OPENAI_API_KEY'', True) \<in> set default_env_vars" by code_simp
  moreover have "GetEnvironmentVariables env =
      List.map_filter (\<lambda>(n, sens). if env n = [] then None else Some (n, env n, sens)) default_env_vars"
    using assms(1) by (simp add: GetEnvironmentVariables_def)
  ultimately show ?thesis using assms(2) by (simp only: map_filter_memI case_prod_conv if_False)
qed

text \<open>The two computations of the number of pages agree where both are defined.\<close>

lemma pages_rounded_up:
  fixes n l :: int
  assumes "l > 0"
  shows "(n + l - 1) div l = - ((- n) div l)"
proof -
  have "(n mod l + l - 1) div l = (if n mod l = 0 then 0 else 1)"
  proof (cases "n mod l = 0")
    case False
    have "(n mod l - 1 + l) div l = (n mod l - 1) div l + 1" using assms by (intro div_add_self2) simp
    moreover have "0 \<le> n mod l - 1" "n mod l - 1 < l"
      using False assms pos_mod_sign [of l n] pos_mod_bound [of l n] by linarith+
    ultimately show ?thesis using False by (simp add: algebra_simps)
  qed (use assms in simp)
  moreover have "n + l - 1 = (n mod l + l - 1) + l * (n div l)" by simp
  then have "(n + l - 1) div l = n div l + (n mod l + l - 1) div l" using assms by (metis div_mult_self2 add.commute less_irrefl)
  ultimately show ?thesis using assms by (simp add: zdiv_zminus1_eq_if)
qed

lemma page_counts_agree:
  assumes "pg_Limit pg > 0" "signed_in c" "af_ProjectID (MapAgentFilterInputToFilter f) = []"
  shows "map_sum (\<lambda>_. ()) (\<lambda>r. r) (h_ListAgents E c conv f pg w) = map_sum (\<lambda>_. ()) (\<lambda>r. r) (res_ListAgents E conv f pg w)"
  using assms
  by (auto simp: h_ListAgents_def res_ListAgents_def svc_ListAgents_def total_pages_def pages_rounded_up Let_def
      split: sum.splits prod.splits)

end
