(* ===== verification/Infra_Manifest.thy ===== *)
theory Infra_Manifest
  imports Go_Prelude "HOL-Library.AList"
begin

text \<open>
  The manifest a chaos infrastructure is installed from
  (\<^verbatim>\<open>graphql/server/pkg/chaos_infrastructure/infra_utils.go\<close>): the document of an infrastructure, the
  roles it gets in the namespaces of the applications, and the templates of a directory with their
  placeholders filled in. Reading the directory, marshalling to JSON and YAML and the application
  catalogue are arguments.
\<close>

section \<open>Documents\<close>

text \<open>What a Go function gives: a value, an error, or a panic.\<close>

datatype ('e, 'a) go_result = Value 'a | Fails 'e | Panics

record toleration =
  to_Key :: "string option"
  to_Operator :: "string option"
  to_Effect :: "string option"
  to_Value :: "string option"
  to_Seconds :: "int option"

record ChaosInfra =
  inf_Name :: string
  inf_Description :: string
  inf_Tags :: "string list"
  inf_UpdatedAt :: int
  inf_CreatedAt :: int
  inf_CreatedBy :: string
  inf_UpdatedBy :: string
  inf_IsRemoved :: bool
  inf_ProjectID :: string
  inf_InfraID :: string
  inf_InfraNamespace :: "string option"
  inf_PlatformName :: string
  inf_ServiceAccount :: "string option"
  inf_InfraScope :: string
  inf_InfraNsExists :: "bool option"
  inf_EnvironmentID :: string
  inf_InfraSaExists :: "bool option"
  inf_AccessKey :: string
  inf_InfraType :: string
  inf_IsRegistered :: bool
  inf_IsInfraConfirmed :: bool
  inf_IsActive :: bool
  inf_Token :: string
  inf_SkipSSL :: "bool option"
  inf_NodeSelector :: "string option"
  inf_Tolerations :: "toleration list option"
  inf_StartTime :: string
  inf_Version :: string

text \<open>The configuration of the server that goes into a manifest; \<open>sc_image\<close> gives the setting behind a placeholder.\<close>

record server_config =
  sc_ui_endpoint :: string
  sc_public_endpoint :: string
  sc_version :: string
  sc_tls_cert :: string
  sc_image :: "string \<Rightarrow> string"
  sc_pull_secret :: string

section \<open>Endpoints\<close>

definition GetEndpoint :: "server_config \<Rightarrow> string \<Rightarrow> string" where
  "GetEndpoint cfg host = (if sc_ui_endpoint cfg \<noteq> [] then sc_ui_endpoint cfg else host) @ ''/query''"

definition TrimSuffix :: "string \<Rightarrow> string \<Rightarrow> string" where
  "TrimSuffix s p = (if HasSuffix s p then take (length s - length p) s else s)"

definition GetManifestDownloadURL :: "server_config \<Rightarrow> string \<Rightarrow> string \<Rightarrow> string" where
  "GetManifestDownloadURL cfg host token =
     TrimSuffix (if sc_public_endpoint cfg = [] then host else sc_public_endpoint cfg) ''/'' @ ''/api/file/'' @ token @ ''.yaml''"

section \<open>Roles in the target namespaces\<close>

definition nl :: string where "nl = [CHR 0x0A]"

definition target_namespace_docs :: "string \<Rightarrow> string \<Rightarrow> string \<Rightarrow> string" where
  "target_namespace_docs infraNamespace account ns =
     concat (map (\<lambda>l. l @ nl)
       [''---'', ''apiVersion: v1'', ''kind: Namespace'', ''metadata:'', ''  name: '' @ ns, ''  labels:'',
        ''    agentcert.io/target-namespace: \"true\"'', ''---'', ''apiVersion: rbac.authorization.k8s.io/v1'',
        ''kind: RoleBinding'', ''metadata:'', ''  name: litmus-admin-target-namespace-role-binding'',
        ''  namespace: '' @ ns, ''  labels:'', ''    name: litmus-admin-target-namespace-role-binding'',
        ''    agentcert.io/infra-namespace: '' @ infraNamespace, ''roleRef:'',
        ''  apiGroup: rbac.authorization.k8s.io'', ''  kind: ClusterRole'', ''  name: litmus-admin-target-namespace-role'',
        ''subjects:'', ''  - kind: ServiceAccount'', ''    name: '' @ account, ''    namespace: '' @ infraNamespace])"

text \<open>The loop over the namespaces, with those seen so far.\<close>

fun target_rbac :: "string \<Rightarrow> string \<Rightarrow> string list \<Rightarrow> string list \<Rightarrow> string" where
  "target_rbac infraNamespace account seen [] = []"
| "target_rbac infraNamespace account seen (namespace # rest) =
     (let ns = TrimSpace namespace in
      if ns = [] \<or> ns = infraNamespace \<or> ns \<in> set seen then target_rbac infraNamespace account seen rest
      else target_namespace_docs infraNamespace account ns @ target_rbac infraNamespace account (ns # seen) rest)"

definition buildTargetNamespaceRBAC :: "string \<Rightarrow> string \<Rightarrow> string list \<Rightarrow> string" where
  "buildTargetNamespaceRBAC infraNamespace account targets = TrimSuffix (target_rbac infraNamespace account [] targets) nl"

section \<open>The manifest\<close>

text \<open>
  The node selector \<open>k1=v1,k2=v2\<close> read into a map: an element without an equals sign is an index out of
  range, a later element overwrites an earlier one of its key.
\<close>

fun selector_map :: "string list \<Rightarrow> (string \<times> string) list option" where
  "selector_map [] = Some []"
| "selector_map (el # els) =
     (case SplitByte el (CHR ''='') of
        k # v # _ \<Rightarrow> map_option (\<lambda>m. if k \<in> fst ` set m then m else (k, v) # m) (selector_map els)
      | _ \<Rightarrow> None)"

text \<open>
  The directory as \<^verbatim>\<open>Readdirnames\<close> gives it: \<^const>\<open>None\<close> when it cannot be read, else the names with
  their contents, in any order; a file may be unreadable. \<open>mf_known\<close> is the application catalogue's
  namespaces (\<^const>\<open>None\<close>: an error).
\<close>

record manifest_env =
  mf_dir :: "string \<Rightarrow> (string \<times> string option) list option"
  mf_known :: "string list option"
  mf_json :: "string list \<Rightarrow> string"
  mf_selector_yaml :: "(string \<times> string) list \<Rightarrow> string"
  mf_tolerations_yaml :: "toleration list \<Rightarrow> string"

definition AddRootIndent :: "string \<Rightarrow> nat \<Rightarrow> string" where
  "AddRootIndent b n = ReplaceAll b nl (nl @ replicate n (CHR '' ''))"

definition namespace_of :: "ChaosInfra \<Rightarrow> string" where
  "namespace_of i = (case inf_InfraNamespace i of Some ns \<Rightarrow> if ns = [] then ''litmus'' else ns | None \<Rightarrow> ''litmus'')"

definition account_of :: "ChaosInfra \<Rightarrow> string" where
  "account_of i = (case inf_ServiceAccount i of Some s \<Rightarrow> if s = [] then ''litmus'' else s | None \<Rightarrow> ''litmus'')"

definition is_true :: "bool option \<Rightarrow> bool" where
  "is_true b = (b = Some True)"

definition other_targets :: "manifest_env \<Rightarrow> ChaosInfra \<Rightarrow> string list" where
  "other_targets F i = (case mf_known F of None \<Rightarrow> [] | Some nss \<Rightarrow> filter (\<lambda>ns. ns \<noteq> namespace_of i) nss)"

definition namespace_doc :: "ChaosInfra \<Rightarrow> string" where
  "namespace_doc i = concat (map (\<lambda>l. l @ nl)
     [''---'', ''apiVersion: v1'', ''kind: Namespace'', ''metadata:'', ''  name: '' @ namespace_of i])"

definition account_doc :: "ChaosInfra \<Rightarrow> string" where
  "account_doc i = concat (map (\<lambda>l. l @ nl)
     [''---'', ''apiVersion: v1'', ''kind: ServiceAccount'', ''metadata:'', ''  name: '' @ account_of i,
      ''  namespace: '' @ namespace_of i])"

definition quoted :: "string \<Rightarrow> string" where
  "quoted s = [CHR 0x22] @ s @ [CHR 0x22]"

definition configured_as :: "server_config \<Rightarrow> string \<Rightarrow> string \<times> string" where
  "configured_as cfg k = (''#{'' @ k @ ''}'', sc_image cfg k)"

text \<open>The placeholders and their texts, in the order they are replaced.\<close>

definition placeholders ::
  "server_config \<Rightarrow> manifest_env \<Rightarrow> string \<Rightarrow> string option \<Rightarrow> string option \<Rightarrow> ChaosInfra \<Rightarrow> (string \<times> string) list" where
  "placeholders cfg F endpoint selector tolerations i =
     (let targets = namespace_of i # other_targets F i in
      [(''#{TOLERATIONS}'', (case tolerations of None \<Rightarrow> [] | Some t \<Rightarrow> t)), (''#{INFRA_ID}'', inf_InfraID i),
       (''#{ACCESS_KEY}'', inf_AccessKey i), (''#{SERVER_ADDR}'', endpoint)] @
      map (configured_as cfg) [''SUBSCRIBER_IMAGE'', ''EVENT_TRACKER_IMAGE''] @
      [(''#{INFRA_NAMESPACE}'', namespace_of i), (''#{INFRA_SERVICE_ACCOUNT}'', account_of i),
       (''#{INFRA_SCOPE}'', inf_InfraScope i), (''#{TARGET_APP_NAMESPACES}'', Join targets '',''),
       (''#{TARGET_APP_NAMESPACE_RBAC}'', buildTargetNamespaceRBAC (namespace_of i) (account_of i) (other_targets F i)),
       (''#{TARGET_NAMESPACE_RESOURCE_NAMES}'', mf_json F targets)] @
      map (configured_as cfg) [''ARGO_WORKFLOW_CONTROLLER'', ''LITMUS_CHAOS_OPERATOR'', ''ARGO_WORKFLOW_EXECUTOR'',
        ''LITMUS_CHAOS_RUNNER'', ''LITMUS_CHAOS_EXPORTER'', ''ARGO_CONTAINER_RUNTIME_EXECUTOR'', ''INFRA_DEPLOYMENTS''] @
      [(''#{VERSION}'', sc_version cfg), (''#{SKIP_SSL_VERIFY}'', (if is_true (inf_SkipSSL i) then ''true'' else ''false'')),
       (''#{CUSTOM_TLS_CERT}'', sc_tls_cert cfg)] @
      map (configured_as cfg) [''KUBERNETES_MCP_SERVER_IMAGE'', ''PROMETHEUS_MCP_SERVER_IMAGE'', ''PROMETHEUS_MCP_URL''] @
      (if sc_pull_secret cfg = [] then []
       else [(''#{IMAGE_PULL_SECRETS}'', ''imagePullSecrets:'' @ nl @ ''      - name: '' @ sc_pull_secret cfg)]) @
      [(''#{START_TIME}'', quoted (inf_StartTime i)),
       (''#{IS_INFRA_CONFIRMED}'', quoted (if inf_IsInfraConfirmed i then ''true'' else ''false''))] @
      (case selector of None \<Rightarrow> [] | Some t \<Rightarrow> [(''#{NODE_SELECTOR}'', t)]))"

definition fill_template :: "(string \<times> string) list \<Rightarrow> string \<Rightarrow> string" where
  "fill_template subs content = foldl (\<lambda>s (p, v). ReplaceAll s p v) content subs"

fun fill_files :: "(string \<times> string) list \<Rightarrow> (string \<times> string option) list \<Rightarrow> string list option" where
  "fill_files subs [] = Some []"
| "fill_files subs ((name, content) # fs) =
     (case content of None \<Rightarrow> None | Some c \<Rightarrow> map_option ((#) (fill_template subs c)) (fill_files subs fs))"

definition ManifestParser ::
  "server_config \<Rightarrow> manifest_env \<Rightarrow> string \<Rightarrow> string \<Rightarrow> ChaosInfra \<Rightarrow> (string, string) go_result" where
  "ManifestParser cfg F endpoint rootPath i =
     (case mf_dir F rootPath of None \<Rightarrow> Fails ''failed to open the file''
      | Some entries \<Rightarrow>
          (let head = (if \<not> is_true (inf_InfraNsExists i) \<and> inf_InfraScope i \<noteq> ''namespace'' then [namespace_doc i] else []) @
                 (if is_true (inf_InfraSaExists i) then [] else [account_doc i]);
               files = sort_key fst entries;
               build = (\<lambda>selector.
                 let subs = placeholders cfg F endpoint selector
                       (map_option (\<lambda>t. AddRootIndent (mf_tolerations_yaml F t) 6) (inf_Tolerations i)) i
                 in case fill_files subs files of None \<Rightarrow> Fails ''failed to read the file''
                    | Some texts \<Rightarrow> Value (Join (head @ texts) nl))
           in case inf_NodeSelector i of None \<Rightarrow> build None
              | Some sel \<Rightarrow> (case selector_map (SplitByte sel (CHR '','')) of None \<Rightarrow> Panics
                  | Some m \<Rightarrow> build (Some (AddRootIndent (mf_selector_yaml F m) 6)))))"

text \<open>A scope that is neither word gives an empty manifest and no error.\<close>

definition scope_manifest ::
  "server_config \<Rightarrow> manifest_env \<Rightarrow> string \<Rightarrow> ChaosInfra \<Rightarrow> (string, string) go_result" where
  "scope_manifest cfg F endpoint i =
     (if inf_InfraScope i = ''cluster'' then ManifestParser cfg F endpoint ''manifests/cluster'' i
      else if inf_InfraScope i = ''namespace'' then ManifestParser cfg F endpoint ''manifests/namespace'' i
      else Value [])"

definition GetK8sInfraYaml ::
  "server_config \<Rightarrow> manifest_env \<Rightarrow> string \<Rightarrow> ChaosInfra \<Rightarrow> (string, string) go_result" where
  "GetK8sInfraYaml cfg F host i = scope_manifest cfg F (GetEndpoint cfg host) i"

section \<open>What the manifest holds\<close>

fun new_targets :: "string \<Rightarrow> string list \<Rightarrow> string list \<Rightarrow> string list" where
  "new_targets infraNamespace seen [] = []"
| "new_targets infraNamespace seen (namespace # rest) =
     (let ns = TrimSpace namespace in
      if ns = [] \<or> ns = infraNamespace \<or> ns \<in> set seen then new_targets infraNamespace seen rest
      else ns # new_targets infraNamespace (ns # seen) rest)"

lemma target_rbac_targets:
  "target_rbac n a seen nss = concat (map (target_namespace_docs n a) (new_targets n seen nss))"
  by (induction nss arbitrary: seen) (simp_all add: Let_def)

lemma new_targets_set: "set (new_targets n seen nss) = TrimSpace ` set nss - {[], n} - set seen"
  by (induction nss arbitrary: seen) (auto simp: Let_def)

lemma new_targets_distinct: "distinct (new_targets n seen nss)"
  by (induction nss arbitrary: seen) (auto simp: Let_def new_targets_set)

lemma selector_map_wf:
  "selector_map els = None \<longleftrightarrow> (\<exists>el \<in> set els. CHR ''='' \<notin> set el)"
proof (induction els)
  case (Cons el els)
  have "(\<exists>k v r. SplitByte el (CHR ''='') = k # v # r) \<longleftrightarrow> CHR ''='' \<in> set el"
  proof
    assume "CHR ''='' \<in> set el"
    then obtain a b where "el = a @ CHR ''='' # b" "CHR ''='' \<notin> set a" using split_list_first by fastforce
    then show "\<exists>k v r. SplitByte el (CHR ''='') = k # v # r"
      using SplitByte_cons [of "CHR ''=''" a b] by (metis SplitByte_not_Nil neq_Nil_conv)
  next
    assume "\<exists>k v r. SplitByte el (CHR ''='') = k # v # r"
    then show "CHR ''='' \<in> set el" using SplitByte_fresh [of "CHR ''=''" el] by fastforce
  qed
  then show ?case using Cons by (auto split: list.splits)
qed simp

text \<open>The roles of an infrastructure in the namespaces of the applications: one namespace and one binding
  for every distinct name, trimmed, that is neither empty nor the infrastructure's own, and nothing
  else.\<close>

theorem target_roles_exact:
  "\<exists>nss. distinct nss \<and> set nss = TrimSpace ` set targets - {[], infraNamespace} \<and>
     buildTargetNamespaceRBAC infraNamespace account targets =
       TrimSuffix (concat (map (target_namespace_docs infraNamespace account) nss)) nl"
  by (rule exI [of _ "new_targets infraNamespace [] targets"])
     (simp add: buildTargetNamespaceRBAC_def target_rbac_targets new_targets_set new_targets_distinct)

text \<open>
  A manifest panics exactly on a node selector with an element that has no equals sign.
\<close>

lemma ManifestParser_panics:
  "ManifestParser cfg F endpoint rootPath i = Panics \<longleftrightarrow>
     mf_dir F rootPath \<noteq> None \<and>
     (\<exists>sel. inf_NodeSelector i = Some sel \<and> (\<exists>el \<in> set (SplitByte sel (CHR '','')). CHR ''='' \<notin> set el))"
proof (cases "inf_NodeSelector i")
  case (Some sel)
  have "selector_map (SplitByte sel (CHR '','')) = None \<longleftrightarrow> (\<exists>el \<in> set (SplitByte sel (CHR '','')). CHR ''='' \<notin> set el)"
    by (rule selector_map_wf)
  then show ?thesis using Some by (auto simp: ManifestParser_def Let_def split: option.splits)
qed (auto simp: ManifestParser_def Let_def split: option.splits)

lemma empty_manifest_of_unknown_scope:
  "inf_InfraScope i \<noteq> ''cluster'' \<Longrightarrow> inf_InfraScope i \<noteq> ''namespace'' \<Longrightarrow> GetK8sInfraYaml cfg F host i = Value []"
  by (simp add: GetK8sInfraYaml_def scope_manifest_def)

end
