(* ===== verification/Infra_Service.thy ===== *)
theory Infra_Service
  imports Infra_Manifest Auth_Mongo
begin

text \<open>
  Chaos infrastructures and environments of the GraphQL server
  (\<^verbatim>\<open>pkg/chaos_infrastructure/service.go\<close>, \<^verbatim>\<open>pkg/environment/handler/handler.go\<close> and their collections
  under \<^verbatim>\<open>pkg/database/mongodb\<close>). The state is the two collections, the requests sent to the agents in the
  clusters (subscribers) and the namespaces whose deletion was asked for. The driver, the clock, random keys,
  JSON web tokens and the user of a token are parameters; an operation reads the clock once.
\<close>

section \<open>State\<close>

record Environment =
  en_EnvironmentID :: string
  en_Name :: string
  en_Description :: string
  en_Tags :: "string list"
  en_ProjectID :: string
  en_Type :: string
  en_InfraIDs :: "string list"
  en_UpdatedAt :: int
  en_CreatedAt :: int
  en_CreatedBy :: string
  en_UpdatedBy :: string
  en_IsRemoved :: bool

record infra_world =
  iw_infras :: "ChaosInfra list"
  iw_envs :: "Environment list"
  iw_sent :: "(string \<times> string) list"
  iw_deleted_ns :: "string list"

text \<open>
  \<open>ie_username\<close> is the user of the caller's token, \<open>ie_sign\<close> signs an infrastructure's token,
  \<open>ie_new_key\<close> is the next access key of \<^verbatim>\<open>crypto/rand\<close> (or its error), \<open>ie_cleaner\<close> the finalizer controller, if it
  could be built: what it answers for a namespace.
\<close>

record infra_env =
  ie_infras :: "ChaosInfra coll"
  ie_envs :: "Environment coll"
  ie_username :: "go_error + string"
  ie_sign :: "string \<Rightarrow> go_error + string"
  ie_random :: string
  ie_new_key :: "go_error + string"
  ie_uuid :: string
  ie_now :: int
  ie_config :: server_config
  ie_manifests :: manifest_env
  ie_cleaner :: "(string \<Rightarrow> bool) option"

definition update_infras ::
  "infra_env \<Rightarrow> (ChaosInfra \<Rightarrow> bool) \<Rightarrow> (ChaosInfra \<Rightarrow> ChaosInfra) \<Rightarrow> infra_world \<Rightarrow> go_error option \<times> infra_world" where
  "update_infras E q f w = (case UpdateMany (ie_infras E) q f (iw_infras w) of
     (r, s) \<Rightarrow> ((case r of Inl e \<Rightarrow> Some e | Inr _ \<Rightarrow> None), w\<lparr>iw_infras := s\<rparr>))"

definition update_envs ::
  "infra_env \<Rightarrow> (Environment \<Rightarrow> bool) \<Rightarrow> (Environment \<Rightarrow> Environment) \<Rightarrow> infra_world \<Rightarrow> go_error option \<times> infra_world" where
  "update_envs E q f w = (case UpdateMany (ie_envs E) q f (iw_envs w) of
     (r, s) \<Rightarrow> ((case r of Inl e \<Rightarrow> Some e | Inr _ \<Rightarrow> None), w\<lparr>iw_envs := s\<rparr>))"

definition op_GetInfra :: "infra_env \<Rightarrow> string \<Rightarrow> infra_world \<Rightarrow> go_error + ChaosInfra" where
  "op_GetInfra E i w = FindOne (ie_infras E) (\<lambda>d. inf_InfraID d = i) (iw_infras w)"

definition GetInfraDetails :: "infra_env \<Rightarrow> string \<Rightarrow> string \<Rightarrow> infra_world \<Rightarrow> go_error + ChaosInfra" where
  "GetInfraDetails E i p w = FindOne (ie_infras E) (\<lambda>d. inf_ProjectID d = p \<and> inf_InfraID d = i) (iw_infras w)"

definition GetEnvironmentDetails :: "infra_env \<Rightarrow> string \<Rightarrow> string \<Rightarrow> infra_world \<Rightarrow> go_error + Environment" where
  "GetEnvironmentDetails E i p w = FindOne (ie_envs E) (\<lambda>d. en_ProjectID d = p \<and> en_EnvironmentID d = i) (iw_envs w)"

section \<open>Environments\<close>

record CreateEnvironmentRequest =
  ce_EnvironmentID :: string
  ce_Name :: string
  ce_Description :: "string option"
  ce_Tags :: "string list"
  ce_Type :: string

definition new_environment :: "infra_env \<Rightarrow> string \<Rightarrow> CreateEnvironmentRequest \<Rightarrow> string \<Rightarrow> Environment" where
  "new_environment E p r user =
     \<lparr>en_EnvironmentID = ce_EnvironmentID r, en_Name = ce_Name r,
      en_Description = (case ce_Description r of None \<Rightarrow> [] | Some t \<Rightarrow> t), en_Tags = ce_Tags r, en_ProjectID = p,
      en_Type = ce_Type r, en_InfraIDs = [], en_UpdatedAt = ie_now E, en_CreatedAt = ie_now E, en_CreatedBy = user,
      en_UpdatedBy = user, en_IsRemoved = False\<rparr>"

definition CreateEnvironment ::
  "infra_env \<Rightarrow> string \<Rightarrow> CreateEnvironmentRequest \<Rightarrow> string \<Rightarrow> infra_world \<Rightarrow> (go_error, Environment) go_result \<times> infra_world" where
  "CreateEnvironment E p r user w =
     (case InsertOne (ie_envs E) (new_environment E p r user) (iw_envs w) of
        (Some e, s) \<Rightarrow> (Fails e, w\<lparr>iw_envs := s\<rparr>)
      | (None, s) \<Rightarrow> (Value (new_environment E p r user), w\<lparr>iw_envs := s\<rparr>))"

record UpdateEnvironmentRequest =
  ue_EnvironmentID :: string
  ue_Name :: "string option"
  ue_Description :: "string option"
  ue_Tags :: "string list option"
  ue_Type :: "string option"

definition given_or :: "'a option \<Rightarrow> 'a \<Rightarrow> 'a" where
  "given_or x d = (case x of None \<Rightarrow> d | Some v \<Rightarrow> v)"

definition live_env :: "string \<Rightarrow> string \<Rightarrow> Environment \<Rightarrow> bool" where
  "live_env p i d = (en_EnvironmentID d = i \<and> en_ProjectID d = p \<and> \<not> en_IsRemoved d)"

text \<open>The environments read first are not looked at: only an error of the read matters.\<close>

definition UpdateEnvironment ::
  "infra_env \<Rightarrow> string \<Rightarrow> UpdateEnvironmentRequest \<Rightarrow> string \<Rightarrow> infra_world \<Rightarrow> (go_error, string) go_result \<times> infra_world" where
  "UpdateEnvironment E p r user w =
     (let q = live_env p (ue_EnvironmentID r) in
      case Find (ie_envs E) q (iw_envs w) of Inl e \<Rightarrow> (Fails e, w)
      | Inr _ \<Rightarrow>
          (case update_envs E q (\<lambda>d. d\<lparr>en_UpdatedAt := ie_now E, en_UpdatedBy := user,
               en_Name := given_or (ue_Name r) (en_Name d), en_Description := given_or (ue_Description r) (en_Description d),
               en_Tags := given_or (ue_Tags r) (en_Tags d), en_Type := given_or (ue_Type r) (en_Type d)\<rparr>) w of
             (Some e, w') \<Rightarrow> (Fails e, w') | (None, w') \<Rightarrow> (Value ''environment updated successfully'', w')))"

definition DeleteEnvironment ::
  "infra_env \<Rightarrow> string \<Rightarrow> string \<Rightarrow> string \<Rightarrow> infra_world \<Rightarrow> (go_error, string) go_result \<times> infra_world" where
  "DeleteEnvironment E p i user w =
     (case FindOne (ie_envs E) (live_env p i) (iw_envs w) of Inl e \<Rightarrow> (Fails e, w)
      | Inr _ \<Rightarrow>
          (case update_envs E (live_env p i)
               (\<lambda>d. d\<lparr>en_IsRemoved := True, en_UpdatedAt := ie_now E, en_UpdatedBy := user\<rparr>) w of
             (Some e, w') \<Rightarrow> (Fails e, w') | (None, w') \<Rightarrow> (Value ''successfully deleted environment'', w')))"

definition GetEnvironment :: "infra_env \<Rightarrow> string \<Rightarrow> string \<Rightarrow> infra_world \<Rightarrow> go_error + Environment" where
  "GetEnvironment E p i w = FindOne (ie_envs E) (live_env p i) (iw_envs w)"

section \<open>Registration\<close>

record RegisterInfraRequest =
  ri_Name :: string
  ri_EnvironmentID :: string
  ri_InfrastructureType :: string
  ri_Description :: "string option"
  ri_PlatformName :: string
  ri_InfraNamespace :: "string option"
  ri_ServiceAccount :: "string option"
  ri_InfraScope :: string
  ri_InfraNsExists :: "bool option"
  ri_InfraSaExists :: "bool option"
  ri_SkipSsl :: "bool option"
  ri_NodeSelector :: "string option"
  ri_Tolerations :: "toleration list option"
  ri_Tags :: "string list"

text \<open>
  A field of a stored document by the key the query uses. The name is stored under \<open>name\<close>: no document
  has an \<open>infra_name\<close>.
\<close>

definition infra_field :: "string \<Rightarrow> ChaosInfra \<Rightarrow> string option" where
  "infra_field key d =
     (if key = ''name'' then Some (inf_Name d) else if key = ''infra_id'' then Some (inf_InfraID d)
      else if key = ''project_id'' then Some (inf_ProjectID d) else None)"

definition same_name_query :: "string \<Rightarrow> string \<Rightarrow> ChaosInfra \<Rightarrow> bool" where
  "same_name_query p n d =
     (infra_field ''infra_name'' d = Some n \<and> \<not> inf_IsRemoved d \<and> infra_field ''project_id'' d = Some p)"

definition selector_element_ok :: "string \<Rightarrow> bool" where
  "selector_element_ok el = (case SplitByte el (CHR ''='') of
     [k, v] \<Rightarrow> \<not> Contains k [CHR 0x22] \<and> \<not> Contains v [CHR 0x22] | _ \<Rightarrow> False)"

text \<open>The host of the request: the page it came from, else the host it names.\<close>

record request_headers = rh_referer :: "(string \<times> string) option"  rh_host :: string

definition resolveManifestHost :: "request_headers \<Rightarrow> string" where
  "resolveManifestHost h =
     (case rh_referer h of Some (scheme, host) \<Rightarrow> if host \<noteq> [] then scheme @ ''://'' @ host
          else if rh_host h \<noteq> [] then ''http://'' @ rh_host h else []
      | None \<Rightarrow> if rh_host h \<noteq> [] then ''http://'' @ rh_host h else [])"

definition new_infra :: "infra_env \<Rightarrow> string \<Rightarrow> string \<Rightarrow> string \<Rightarrow> RegisterInfraRequest \<Rightarrow> ChaosInfra" where
  "new_infra E p user token r =
     \<lparr>inf_Name = ri_Name r, inf_Description = given_or (ri_Description r) [], inf_Tags = ri_Tags r,
      inf_UpdatedAt = ie_now E, inf_CreatedAt = ie_now E, inf_CreatedBy = user, inf_UpdatedBy = user, inf_IsRemoved = False,
      inf_ProjectID = p, inf_InfraID = ie_uuid E, inf_InfraNamespace = ri_InfraNamespace r,
      inf_PlatformName = ri_PlatformName r, inf_ServiceAccount = ri_ServiceAccount r, inf_InfraScope = ri_InfraScope r,
      inf_InfraNsExists = ri_InfraNsExists r, inf_EnvironmentID = ri_EnvironmentID r, inf_InfraSaExists = ri_InfraSaExists r,
      inf_AccessKey = ie_random E, inf_InfraType = ri_InfrastructureType r, inf_IsRegistered = False,
      inf_IsInfraConfirmed = False, inf_IsActive = False, inf_Token = token, inf_SkipSSL = ri_SkipSsl r,
      inf_NodeSelector = ri_NodeSelector r, inf_Tolerations = ri_Tolerations r, inf_StartTime = FormatInt (ie_now E),
      inf_Version = []\<rparr>"

record RegisterInfraResponse =
  rir_InfraID :: string
  rir_Token :: string
  rir_Name :: string
  rir_Manifest :: string
  rir_ManifestDownloadURL :: string

definition register_checks :: "infra_env \<Rightarrow> string \<Rightarrow> RegisterInfraRequest \<Rightarrow> infra_world \<Rightarrow> go_error + string \<times> string" where
  "register_checks E p r w =
     (case Find (ie_infras E) (same_name_query p (ri_Name r)) (iw_infras w) of Inl e \<Rightarrow> Inl e
      | Inr ds \<Rightarrow>
         if ds \<noteq> [] then Inl (Plain ''infra already exists in this project with the same name'')
         else (case GetEnvironmentDetails E (ri_EnvironmentID r) p w of Inl _ \<Rightarrow> Inl (Plain ''Invalid EnvironmentID'')
           | Inr _ \<Rightarrow>
              if is_true (ri_InfraNsExists r) \<and> given_or (ri_InfraNamespace r) [] = []
              then Inl (Plain ''InfraNamespace parameter is required if InfraNsExists is true'')
              else (case ie_username E of Inl e \<Rightarrow> Inl e
                | Inr user \<Rightarrow> (case ie_sign E (ie_uuid E) of Inl e \<Rightarrow> Inl e
                    | Inr token \<Rightarrow>
                       if (case ri_NodeSelector r of None \<Rightarrow> True
                           | Some sel \<Rightarrow> list_all selector_element_ok (SplitByte sel (CHR '','')))
                       then Inr (user, token)
                       else Inl (Plain ''node selector environment variable is not correct'')))))"

definition push_infra :: "string \<Rightarrow> Environment \<Rightarrow> Environment" where
  "push_infra i d = d\<lparr>en_InfraIDs := en_InfraIDs d @ [i]\<rparr>"

definition pull_infra :: "string \<Rightarrow> Environment \<Rightarrow> Environment" where
  "pull_infra i d = d\<lparr>en_InfraIDs := filter (\<lambda>j. j \<noteq> i) (en_InfraIDs d)\<rparr>"

definition env_query :: "string \<Rightarrow> string \<Rightarrow> Environment \<Rightarrow> bool" where
  "env_query p i d = (en_ProjectID d = p \<and> en_EnvironmentID d = i)"

definition RegisterInfra ::
  "infra_env \<Rightarrow> request_headers \<Rightarrow> string \<Rightarrow> RegisterInfraRequest \<Rightarrow> infra_world \<Rightarrow>
   (go_error, RegisterInfraResponse) go_result \<times> infra_world" where
  "RegisterInfra E h p r w =
     (case register_checks E p r w of Inl e \<Rightarrow> (Fails e, w)
      | Inr (user, token) \<Rightarrow>
          (let d = new_infra E p user token r in
           case InsertOne (ie_infras E) d (iw_infras w) of
             (Some e, s) \<Rightarrow> (Fails e, w\<lparr>iw_infras := s\<rparr>)
           | (None, s) \<Rightarrow>
               (case update_envs E (env_query p (ri_EnvironmentID r)) (push_infra (ie_uuid E)) (w\<lparr>iw_infras := s\<rparr>) of
                  (Some e, w') \<Rightarrow> (Fails e, w')
                | (None, w') \<Rightarrow>
                    (case GetK8sInfraYaml (ie_config E) (ie_manifests E) (resolveManifestHost h) d of
                       Panics \<Rightarrow> (Panics, w') | Fails e \<Rightarrow> (Fails (Plain e), w')
                     | Value m \<Rightarrow> (Value \<lparr>rir_InfraID = inf_InfraID d, rir_Token = token, rir_Name = inf_Name d,
                         rir_Manifest = m,
                         rir_ManifestDownloadURL = GetManifestDownloadURL (ie_config E) (resolveManifestHost h) token\<rparr>, w')))))"

section \<open>Deletion\<close>

definition live_infra :: "string \<Rightarrow> string \<Rightarrow> ChaosInfra \<Rightarrow> bool" where
  "live_infra p i d = (inf_InfraID d = i \<and> inf_ProjectID d = p \<and> \<not> inf_IsRemoved d)"

text \<open>
  The two objects the subscriber is told to delete, white space apart. A namespace the document does not
  name is a nil pointer.
\<close>

definition removal_requests :: "string \<Rightarrow> string list" where
  "removal_requests ns =
     [''{\"apiVersion\": \"v1\",\"kind\": \"ConfigMap\",\"metadata\": {\"name\": \"subscriber-config\",\"namespace\": '' @ ns @ ''}}'',
      ''{\"apiVersion\": \"apps/v1\",\"kind\": \"Deployment\",\"metadata\": {\"labels\": {\"app\": \"subscriber\",},\"namespace\": '' @ ns @ ''}}'']"

definition tear_down :: "infra_env \<Rightarrow> ChaosInfra \<Rightarrow> string \<Rightarrow> infra_world \<Rightarrow> infra_world" where
  "tear_down E d ns w =
     (let w = w\<lparr>iw_sent := iw_sent w @ map (\<lambda>m. (inf_InfraID d, m)) (removal_requests ns)\<rparr>
      in if ns \<noteq> [] \<and> ie_cleaner E \<noteq> None then w\<lparr>iw_deleted_ns := iw_deleted_ns w @ [ns]\<rparr> else w)"

definition DeleteInfra ::
  "infra_env \<Rightarrow> string \<Rightarrow> string \<Rightarrow> infra_world \<Rightarrow> (go_error, string) go_result \<times> infra_world" where
  "DeleteInfra E p i w =
     (case ie_username E of Inl e \<Rightarrow> (Fails e, w)
      | Inr user \<Rightarrow> (case op_GetInfra E i w of Inl e \<Rightarrow> (Fails e, w)
        | Inr d \<Rightarrow>
          (case update_infras E (live_infra p i)
              (\<lambda>x. x\<lparr>inf_IsRemoved := True, inf_UpdatedAt := ie_now E, inf_UpdatedBy := user\<rparr>) w of
             (Some e, w1) \<Rightarrow> (Fails e, w1)
           | (None, w1) \<Rightarrow>
              (case update_envs E (env_query p (inf_EnvironmentID d)) (pull_infra (inf_InfraID d)) w1 of
                 (Some e, w2) \<Rightarrow> (Fails e, w2)
               | (None, w2) \<Rightarrow> (case inf_InfraNamespace d of None \<Rightarrow> (Panics, w2)
                   | Some ns \<Rightarrow> (Value ''infra deleted successfully'', tear_down E d ns w2))))))"

section \<open>Identity of a subscriber\<close>

record InfraIdentity = id_InfraID :: string  id_AccessKey :: string  id_Version :: string

definition version_error :: "string \<Rightarrow> string \<Rightarrow> go_error" where
  "version_error need got = Plain (''ERROR: infra VERSION MISMATCH (need '' @ need @ '' got '' @ got @ '')'')"

definition version_accepted :: "string \<Rightarrow> string \<Rightarrow> bool" where
  "version_accepted current version =
     (if Contains (ToLower current) ''ci'' then current = version
      else length (SplitByte version (CHR ''.'')) = 3 \<and>
        hd (SplitByte version (CHR ''.'')) = hd (SplitByte current (CHR ''.'')))"

definition VerifyInfra :: "infra_env \<Rightarrow> InfraIdentity \<Rightarrow> infra_world \<Rightarrow> go_error + ChaosInfra" where
  "VerifyInfra E who w =
     (if \<not> version_accepted (sc_version (ie_config E)) (id_Version who)
      then Inl (version_error (sc_version (ie_config E)) (id_Version who))
      else (case op_GetInfra E (id_InfraID who) w of Inl e \<Rightarrow> Inl e
        | Inr d \<Rightarrow> if inf_AccessKey d = id_AccessKey who \<and> inf_IsRegistered d then Inr d
            else Inl (Plain ''ERROR:  accessID MISMATCH'')))"

text \<open>The answer: whether the infrastructure is confirmed and its new key; the error, if any, beside it.\<close>

definition ConfirmInfraRegistration ::
  "infra_env \<Rightarrow> InfraIdentity \<Rightarrow> infra_world \<Rightarrow> (go_error option \<times> string option) \<times> infra_world" where
  "ConfirmInfraRegistration E who w =
     (if sc_version (ie_config E) \<noteq> id_Version who
      then ((Some (version_error (sc_version (ie_config E)) (id_Version who)), None), w)
      else (case op_GetInfra E (id_InfraID who) w of Inl e \<Rightarrow> ((Some e, None), w)
        | Inr d \<Rightarrow>
            if inf_AccessKey d = id_AccessKey who
            then (case ie_new_key E of Inl e \<Rightarrow> ((Some e, None), w)
              | Inr key \<Rightarrow>
                  (case update_infras E (\<lambda>x. inf_InfraID x = id_InfraID who)
                     (\<lambda>x. x\<lparr>inf_Token := [], inf_AccessKey := key, inf_IsRegistered := True, inf_IsInfraConfirmed := True,
                        inf_UpdatedAt := ie_now E\<rparr>) w of
                     (Some e, w') \<Rightarrow> ((Some e, None), w')
                   | (None, w') \<Rightarrow> ((None, Some key), w')))
            else ((None, None), w)))"

definition GetManifestWithInfraID ::
  "infra_env \<Rightarrow> string \<Rightarrow> string \<Rightarrow> string \<Rightarrow> infra_world \<Rightarrow> (go_error, string) go_result" where
  "GetManifestWithInfraID E host i key w =
     (case op_GetInfra E i w of Inl e \<Rightarrow> Fails (Plain ''failed to retrieve the infra'')
      | Inr d \<Rightarrow>
          if inf_AccessKey d \<noteq> key then Fails (Plain ''ACCESS_KEY is invalid'')
          else (case scope_manifest (ie_config E) (ie_manifests E) (GetEndpoint (ie_config E) host) d of
              Value m \<Rightarrow> Value m | Fails e \<Rightarrow> Fails (Plain ''failed to parse the manifest'') | Panics \<Rightarrow> Panics))"

section \<open>Statistics and versions\<close>

text \<open>The counts of a group stage: the last entry of a key wins, a key that does not occur counts zero.\<close>

definition group_count :: "(bool \<times> int) list \<Rightarrow> bool \<Rightarrow> int" where
  "group_count rows b = (case map_of (rev rows) b of None \<Rightarrow> 0 | Some n \<Rightarrow> n)"

record InfraStats =
  st_Total :: int
  st_Active :: int
  st_Inactive :: int
  st_Confirmed :: int
  st_NonConfirmed :: int

definition GetInfraStats :: "(bool \<times> int) list \<Rightarrow> (bool \<times> int) list \<Rightarrow> InfraStats" where
  "GetInfraStats active confirmed =
     \<lparr>st_Total = group_count confirmed True + group_count confirmed False, st_Active = group_count active True,
      st_Inactive = group_count active False, st_Confirmed = group_count confirmed True,
      st_NonConfirmed = group_count confirmed False\<rparr>"

text \<open>
  \<^verbatim>\<open>updateVersionFormat\<close>: component \<open>i\<close> counts \<open>10^(2-i)\<close>, and nothing from the fourth on (the power is
  below one and truncated). Integers are the 64-bit ones of \<^verbatim>\<open>strconv.Atoi\<close>, the sum is taken to fit.
\<close>

definition version_weight :: "nat \<Rightarrow> int" where
  "version_weight i = (if i = 0 then 100 else if i = 1 then 10 else if i = 2 then 1 else 0)"

fun version_sum :: "nat \<Rightarrow> string list \<Rightarrow> int option" where
  "version_sum i [] = Some 0"
| "version_sum i (v # vs) =
     (case ParseInt v of None \<Rightarrow> None | Some x \<Rightarrow> map_option ((+) (x * version_weight i)) (version_sum (Suc i) vs))"

definition updateVersionFormat :: "string \<Rightarrow> int option" where
  "updateVersionFormat str = (if str = ''ci'' then Some 0 else version_sum 0 (SplitByte str (CHR ''.'')))"

fun version_table :: "string list \<Rightarrow> (int \<times> string) list \<Rightarrow> (int \<times> string) list option" where
  "version_table [] m = Some m"
| "version_table (v # vs) m =
     (case updateVersionFormat v of None \<Rightarrow> None | Some n \<Rightarrow> version_table vs (AList.update n v m))"

definition fetchLatestVersion :: "(int \<times> string) list \<Rightarrow> int" where
  "fetchLatestVersion m = foldl max 0 (map fst m)"

text \<open>The latest version and the list of compatible ones; a missing key of the map reads as the empty text.\<close>

definition GetVersionDetails :: "string list \<Rightarrow> (string \<times> string list) option" where
  "GetVersionDetails compatible = (case version_table compatible [] of None \<Rightarrow> None
     | Some m \<Rightarrow> Some ((case map_of m (fetchLatestVersion m) of None \<Rightarrow> [] | Some v \<Rightarrow> v), compatible))"

section \<open>Reading one infrastructure\<close>

text \<open>
  \<^verbatim>\<open>GetInfra\<close> over the documents of the pipeline, each with the experiments joined to it (how many, how
  many runs, the last time): the first joined row is read before their number is checked, so an
  infrastructure without experiments is an index out of range.
\<close>

definition GetInfra ::
  "go_error + (ChaosInfra \<times> (int \<times> int \<times> int) list) list \<Rightarrow> (go_error, ChaosInfra \<times> (int \<times> int \<times> string)) go_result" where
  "GetInfra rows = (case rows of Inl e \<Rightarrow> Fails e
     | Inr [] \<Rightarrow> Fails (Plain ''no matching infra'')
     | Inr ds \<Rightarrow> if list_ex (\<lambda>(d, ex). ex = []) ds then Panics
         else (case last ds of (d, ex) \<Rightarrow> (case hd ex of (experiments, runs, lastRun) \<Rightarrow>
           Value (d, experiments, runs, FormatInt lastRun))))"

definition joined_experiments :: "string \<Rightarrow> (string \<times> int \<times> int) list \<Rightarrow> (int \<times> int \<times> int) list" where
  "joined_experiments i exps =
     (let mine = filter (\<lambda>(j, _, _). j = i) exps in if mine = [] then []
      else [(int (length mine), sum_list (map (\<lambda>(_, runs, _). runs) mine),
             foldl max (snd (snd (hd mine))) (map (\<lambda>(_, _, t). t) mine))])"

section \<open>Branches\<close>

lemma infra_without_experiments_panics:
  "i \<notin> fst ` set exps \<Longrightarrow> GetInfra (Inr [(d, joined_experiments i exps)]) = Panics"
  by (force simp: GetInfra_def joined_experiments_def Let_def filter_empty_conv)

lemma joined_experiments_cases:
  "joined_experiments i exps = [] \<longleftrightarrow> i \<notin> fst ` set exps"
  by (force simp: joined_experiments_def Let_def filter_empty_conv)

text \<open>Two versions of different order have one key; the newer entry replaces the older in the table.\<close>

lemma version_collision:
  "updateVersionFormat ''1.10.0'' = updateVersionFormat ''2.0.0''"
  "GetVersionDetails [''2.0.0'', ''1.10.0''] = Some (''1.10.0'', [''2.0.0'', ''1.10.0''])"
  by code_simp+

lemma fetchLatestVersion_max:
  "fetchLatestVersion m = Max (insert 0 (fst ` set m))"
proof -
  have "(\<lambda>x y :: int. max y x) = max" by (simp add: fun_eq_iff max.commute)
  then have "foldl max (0::int) xs = Max (set (0 # xs))" for xs
    unfolding Max.set_eq_fold by (simp add: foldl_conv_fold)
  then show ?thesis by (simp add: fetchLatestVersion_def)
qed

text \<open>A listed version: only its first component counts, and it must have three.\<close>

lemma version_accepted_release:
  "\<not> Contains (ToLower current) ''ci'' \<Longrightarrow> version_accepted current version \<Longrightarrow> length (SplitByte version (CHR ''.'')) = 3"
  by (simp add: version_accepted_def)

text \<open>An environment that does not exist is updated with success.\<close>

lemma update_of_nothing_succeeds:
  assumes "Find (ie_envs E) (live_env p (ue_EnvironmentID r)) (iw_envs w) = Inr []"
    "UpdateMany (ie_envs E) (live_env p (ue_EnvironmentID r)) f (iw_envs w) = (Inr 0, iw_envs w)"
    "f = (\<lambda>d. d\<lparr>en_UpdatedAt := ie_now E, en_UpdatedBy := user,
       en_Name := given_or (ue_Name r) (en_Name d), en_Description := given_or (ue_Description r) (en_Description d),
       en_Tags := given_or (ue_Tags r) (en_Tags d), en_Type := given_or (ue_Type r) (en_Type d)\<rparr>)"
  shows "UpdateEnvironment E p r user w = (Value ''environment updated successfully'', w)"
  using assms by (simp add: UpdateEnvironment_def update_envs_def)

end
