(* ===== verification/Infra_Life.thy ===== *)
theory Infra_Life
  imports Infra_Service
begin

text \<open>
  What holds of the infrastructures and environments in every state the operations reach
  (\<^verbatim>\<open>chaos_infrastructure/service.go\<close> and \<^verbatim>\<open>environment/handler/handler.go\<close>). The only unique index used
  is that of the infrastructures' identifiers (\<^verbatim>\<open>database/mongodb/init.go\<close>). A deletion writes two
  collections without a transaction: where the second write matters, \<open>writes_work\<close> says that updates do not
  fail.
\<close>

section \<open>The collections\<close>

definition same_infra_id :: "ChaosInfra \<Rightarrow> ChaosInfra \<Rightarrow> bool" where
  "same_infra_id a b = (inf_InfraID a = inf_InfraID b)"

definition same_live_env :: "Environment \<Rightarrow> Environment \<Rightarrow> bool" where
  "same_live_env a b = (en_EnvironmentID a = en_EnvironmentID b \<and> \<not> en_IsRemoved a \<and> \<not> en_IsRemoved b)"

definition infra_env_ok :: "infra_env \<Rightarrow> bool" where
  "infra_env_ok E = (coll_ok same_infra_id (ie_infras E) \<and> coll_ok same_live_env (ie_envs E))"

definition many_works :: "'d coll \<Rightarrow> bool" where
  "many_works c = (\<forall>q f s. \<exists>n. UpdateMany c q f s = (Inr n, map (\<lambda>d. if q d then f d else d) s))"

definition writes_work :: "infra_env \<Rightarrow> bool" where
  "writes_work E = (many_works (ie_infras E) \<and> many_works (ie_envs E))"

lemma update_infras_works:
  assumes "writes_work E"
  shows "update_infras E q f w = (None, w\<lparr>iw_infras := map (\<lambda>d. if q d then f d else d) (iw_infras w)\<rparr>)"
proof -
  obtain n where "UpdateMany (ie_infras E) q f (iw_infras w) = (Inr n, map (\<lambda>d. if q d then f d else d) (iw_infras w))"
    using assms unfolding writes_work_def many_works_def by blast
  then show ?thesis by (simp add: update_infras_def)
qed

lemma update_envs_works:
  assumes "writes_work E"
  shows "update_envs E q f w = (None, w\<lparr>iw_envs := map (\<lambda>d. if q d then f d else d) (iw_envs w)\<rparr>)"
proof -
  obtain n where "UpdateMany (ie_envs E) q f (iw_envs w) = (Inr n, map (\<lambda>d. if q d then f d else d) (iw_envs w))"
    using assms unfolding writes_work_def many_works_def by blast
  then show ?thesis by (simp add: update_envs_def)
qed

lemma op_GetInfra_ok:
  "infra_env_ok E \<Longrightarrow> op_GetInfra E i w = Inr d \<Longrightarrow> d \<in> set (iw_infras w) \<and> inf_InfraID d = i"
  unfolding infra_env_ok_def op_GetInfra_def by (auto dest: FindOne_ok)

section \<open>Steps\<close>

datatype infra_request =
    Register request_headers string RegisterInfraRequest
  | Remove string string
  | Confirm InfraIdentity
  | CreateEnv string CreateEnvironmentRequest string
  | UpdateEnv string UpdateEnvironmentRequest string
  | DeleteEnv string string string

definition serve :: "infra_env \<Rightarrow> infra_request \<Rightarrow> infra_world \<Rightarrow> infra_world" where
  "serve E r w = (case r of
     Register h p r \<Rightarrow> snd (RegisterInfra E h p r w)
   | Remove p i \<Rightarrow> snd (DeleteInfra E p i w)
   | Confirm who \<Rightarrow> snd (ConfirmInfraRegistration E who w)
   | CreateEnv p r user \<Rightarrow> snd (CreateEnvironment E p r user w)
   | UpdateEnv p r user \<Rightarrow> snd (UpdateEnvironment E p r user w)
   | DeleteEnv p i user \<Rightarrow> snd (DeleteEnvironment E p i user w))"

definition empty_world :: infra_world where
  "empty_world = \<lparr>iw_infras = [], iw_envs = [], iw_sent = [], iw_deleted_ns = []\<rparr>"

text \<open>Each request meets its own environment: clock, identifiers, keys, and a database that conforms.\<close>

inductive infra_reach :: "infra_world \<Rightarrow> bool" where
  none: "infra_reach empty_world"
| served: "infra_reach w \<Longrightarrow> infra_env_ok E \<Longrightarrow> writes_work E \<Longrightarrow> infra_reach (serve E r w)"

section \<open>The invariant\<close>

text \<open>
  An infrastructure listed by an environment is there, not removed, in the environment's project and
  registered under the environment's identifier; identifiers are unique; every node selector has the form the
  manifest needs.
\<close>

definition lists_live :: "infra_world \<Rightarrow> bool" where
  "lists_live w = (\<forall>e \<in> set (iw_envs w). \<forall>i \<in> set (en_InfraIDs e). \<exists>d \<in> set (iw_infras w).
     inf_InfraID d = i \<and> \<not> inf_IsRemoved d \<and> inf_ProjectID d = en_ProjectID e \<and> inf_EnvironmentID d = en_EnvironmentID e)"

definition selectors_ok :: "ChaosInfra list \<Rightarrow> bool" where
  "selectors_ok s = (\<forall>d \<in> set s. \<forall>sel. inf_NodeSelector d = Some sel \<longrightarrow>
     (\<forall>el \<in> set (SplitByte sel (CHR '','')). CHR ''='' \<in> set el))"

definition infra_inv :: "infra_world \<Rightarrow> bool" where
  "infra_inv w = (lists_live w \<and> distinct (map inf_InfraID (iw_infras w)) \<and> selectors_ok (iw_infras w))"

lemma listed_infra:
  assumes "infra_inv w" "e \<in> set (iw_envs w)" "i \<in> set (en_InfraIDs e)"
  obtains d where "d \<in> set (iw_infras w)" "inf_InfraID d = i" "\<not> inf_IsRemoved d" "inf_ProjectID d = en_ProjectID e"
    "inf_EnvironmentID d = en_EnvironmentID e"
  using assms unfolding infra_inv_def lists_live_def by blast

lemma infra_id_unique:
  "infra_inv w \<Longrightarrow> x \<in> set (iw_infras w) \<Longrightarrow> y \<in> set (iw_infras w) \<Longrightarrow> inf_InfraID x = inf_InfraID y \<Longrightarrow> x = y"
  unfolding infra_inv_def distinct_map by (metis inj_onD)

lemma selector_element_has_equals:
  assumes "selector_element_ok el"
  shows "CHR ''='' \<in> set el"
proof (rule ccontr)
  assume "CHR ''='' \<notin> set el"
  then show False using assms SplitByte_fresh [of "CHR ''=''" el] by (simp add: selector_element_ok_def)
qed

lemma register_checks_selector:
  "register_checks E p r w = Inr ut \<Longrightarrow> ri_NodeSelector r = Some sel \<Longrightarrow> el \<in> set (SplitByte sel (CHR '','')) \<Longrightarrow>
   CHR ''='' \<in> set el"
  by (auto simp: register_checks_def list_all_iff intro: selector_element_has_equals
      split: sum.splits option.splits if_splits)

text \<open>Updates that keep what the invariant speaks of.\<close>

lemma selectors_ok_map:
  "selectors_ok s \<Longrightarrow> (\<And>d. inf_NodeSelector (g d) = inf_NodeSelector d) \<Longrightarrow> selectors_ok (map g s)"
  unfolding selectors_ok_def by simp

lemma infra_inv_map:
  assumes "infra_inv w"
    "\<And>d. inf_InfraID (g d) = inf_InfraID d \<and> inf_IsRemoved (g d) = inf_IsRemoved d \<and> inf_ProjectID (g d) = inf_ProjectID d \<and>
       inf_EnvironmentID (g d) = inf_EnvironmentID d \<and> inf_NodeSelector (g d) = inf_NodeSelector d"
  shows "infra_inv (w\<lparr>iw_infras := map g (iw_infras w)\<rparr>)"
proof -
  have "inf_InfraID \<circ> g = inf_InfraID" using assms(2) by (simp add: fun_eq_iff)
  moreover have "lists_live (w\<lparr>iw_infras := map g (iw_infras w)\<rparr>)"
    using assms unfolding infra_inv_def lists_live_def by (simp add: Ball_def Bex_def)
  moreover have "selectors_ok (map g (iw_infras w))" using assms unfolding infra_inv_def selectors_ok_def by simp
  ultimately show ?thesis using assms(1) unfolding infra_inv_def by simp
qed

lemma infra_inv_envs:
  assumes "infra_inv w" "\<And>d. en_ProjectID (g d) = en_ProjectID d \<and> en_EnvironmentID (g d) = en_EnvironmentID d \<and>
     set (en_InfraIDs (g d)) \<subseteq> set (en_InfraIDs d)"
  shows "infra_inv (w\<lparr>iw_envs := map g (iw_envs w)\<rparr>)"
proof -
  have "lists_live (w\<lparr>iw_envs := map g (iw_envs w)\<rparr>)" unfolding lists_live_def
  proof (intro ballI)
    fix e i assume "e \<in> set (iw_envs (w\<lparr>iw_envs := map g (iw_envs w)\<rparr>))" and i: "i \<in> set (en_InfraIDs e)"
    then obtain e' where e': "e' \<in> set (iw_envs w)" "e = g e'" by auto
    then have "i \<in> set (en_InfraIDs e')" using assms(2) i by blast
    then show "\<exists>d \<in> set (iw_infras (w\<lparr>iw_envs := map g (iw_envs w)\<rparr>)). inf_InfraID d = i \<and> \<not> inf_IsRemoved d \<and>
        inf_ProjectID d = en_ProjectID e \<and> inf_EnvironmentID d = en_EnvironmentID e"
      using assms e' by (simp add: infra_inv_def lists_live_def)
  qed
  then show ?thesis using assms(1) by (simp add: infra_inv_def)
qed

lemma infra_inv_new_env:
  "infra_inv w \<Longrightarrow> en_InfraIDs d = [] \<Longrightarrow> infra_inv (w\<lparr>iw_envs := iw_envs w @ [d]\<rparr>)"
  by (auto simp: infra_inv_def lists_live_def)

lemma infra_inv_new_infra:
  assumes "infra_inv w" "inf_InfraID d \<notin> inf_InfraID ` set (iw_infras w)"
    "\<And>sel el. inf_NodeSelector d = Some sel \<Longrightarrow> el \<in> set (SplitByte sel (CHR '','')) \<Longrightarrow> CHR ''='' \<in> set el"
  shows "infra_inv (w\<lparr>iw_infras := iw_infras w @ [d]\<rparr>)"
proof -
  have "lists_live (w\<lparr>iw_infras := iw_infras w @ [d]\<rparr>)" using assms(1) by (simp add: infra_inv_def lists_live_def)
  moreover have "selectors_ok (iw_infras w @ [d])" using assms(1,3) by (simp add: infra_inv_def selectors_ok_def ball_Un)
  ultimately show ?thesis using assms(1,2) by (simp add: infra_inv_def)
qed

lemma CreateEnvironment_inv:
  assumes "infra_env_ok E" "infra_inv w"
  shows "infra_inv (snd (CreateEnvironment E p r user w))"
proof -
  let ?d = "new_environment E p r user"
  obtain res s where ins: "InsertOne (ie_envs E) ?d (iw_envs w) = (res, s)" by (metis prod.exhaust)
  have "coll_ok same_live_env (ie_envs E)" using assms(1) by (simp add: infra_env_ok_def)
  then have "s = iw_envs w \<or> s = iw_envs w @ [?d]" using InsertOne_cases [OF _ ins] by metis
  moreover have "en_InfraIDs ?d = []" by (simp add: new_environment_def)
  moreover have "snd (CreateEnvironment E p r user w) = w\<lparr>iw_envs := s\<rparr>"
    by (simp add: CreateEnvironment_def ins split: option.splits)
  ultimately show ?thesis using assms(2) infra_inv_new_env by auto
qed

lemma UpdateEnvironment_inv:
  assumes "writes_work E" "infra_inv w"
  shows "infra_inv (snd (UpdateEnvironment E p r user w))"
proof (cases "Find (ie_envs E) (live_env p (ue_EnvironmentID r)) (iw_envs w)")
  case (Inr ds)
  then show ?thesis using assms by (simp add: UpdateEnvironment_def update_envs_works infra_inv_envs)
qed (use assms in \<open>simp add: UpdateEnvironment_def\<close>)

lemma DeleteEnvironment_inv:
  assumes "writes_work E" "infra_inv w"
  shows "infra_inv (snd (DeleteEnvironment E p i user w))"
proof (cases "FindOne (ie_envs E) (live_env p i) (iw_envs w)")
  case (Inr d)
  then show ?thesis using assms by (simp add: DeleteEnvironment_def update_envs_works infra_inv_envs)
qed (use assms in \<open>simp add: DeleteEnvironment_def\<close>)

lemma Confirm_inv:
  assumes "writes_work E" "infra_inv w"
  shows "infra_inv (snd (ConfirmInfraRegistration E who w))"
proof -
  have "infra_inv (snd (ConfirmInfraRegistration E who w))" if "op_GetInfra E (id_InfraID who) w = Inr d" for d
    using assms that by (simp add: ConfirmInfraRegistration_def update_infras_works infra_inv_map split: sum.splits)
  then show ?thesis using assms(2)
    by (cases "op_GetInfra E (id_InfraID who) w") (simp_all add: ConfirmInfraRegistration_def)
qed

lemma infra_inv_push:
  assumes "infra_inv w" "d \<in> set (iw_infras w)" "inf_InfraID d = i" "\<not> inf_IsRemoved d" "inf_ProjectID d = p" "inf_EnvironmentID d = e"
  shows "infra_inv (w\<lparr>iw_envs := map (\<lambda>x. if env_query p e x then push_infra i x else x) (iw_envs w)\<rparr>)"
proof -
  have "\<exists>d \<in> set (iw_infras w). inf_InfraID d = j \<and> \<not> inf_IsRemoved d \<and> inf_ProjectID d = en_ProjectID x \<and>
      inf_EnvironmentID d = en_EnvironmentID x"
    if "x \<in> set (iw_envs w)" "j \<in> set (en_InfraIDs (if env_query p e x then push_infra i x else x))" for x j
    using assms that by (auto simp: infra_inv_def lists_live_def env_query_def push_infra_def split: if_splits)
  then show ?thesis using assms(1) by (auto simp: infra_inv_def lists_live_def push_infra_def)
qed

lemma RegisterInfra_inv:
  assumes "infra_env_ok E" "writes_work E" "infra_inv w"
  shows "infra_inv (snd (RegisterInfra E h p r w))"
proof (cases "register_checks E p r w")
  case (Inr ut)
  obtain user token where ut: "ut = (user, token)" by (cases ut)
  let ?d = "new_infra E p user token r"
  obtain res s where ins: "InsertOne (ie_infras E) ?d (iw_infras w) = (res, s)" by (metis prod.exhaust)
  have ok: "coll_ok same_infra_id (ie_infras E)" using assms(1) by (simp add: infra_env_ok_def)
  have inserted: "infra_inv (w\<lparr>iw_infras := s\<rparr>)"
  proof (rule InsertOne_cases [OF ok ins])
    assume "s = iw_infras w @ [?d]" "\<And>d'. d' \<in> set (iw_infras w) \<Longrightarrow> \<not> same_infra_id ?d d'"
    then show ?thesis using assms(3) infra_inv_new_infra [of w ?d] register_checks_selector [OF Inr]
      by (auto simp: same_infra_id_def new_infra_def image_iff)
  qed (use assms(3) in simp)
  show ?thesis
  proof (cases res)
    case None
    then have "s = iw_infras w @ [?d]" using ok ins InsertOne_None by metis
    then have "infra_inv (w\<lparr>iw_infras := s,
        iw_envs := map (\<lambda>x. if env_query p (ri_EnvironmentID r) x then push_infra (ie_uuid E) x else x) (iw_envs w)\<rparr>)"
      using infra_inv_push [OF inserted, of ?d "ie_uuid E" p "ri_EnvironmentID r"] by (simp add: new_infra_def)
    then show ?thesis using Inr ut ins None assms(2)
      by (simp add: RegisterInfra_def Let_def update_envs_works split: go_result.splits)
  qed (use Inr ut ins inserted in \<open>simp add: RegisterInfra_def Let_def\<close>)
qed (use assms(3) in \<open>simp add: RegisterInfra_def\<close>)

text \<open>Removing an infrastructure: its document is marked first, then it is taken off its environment's list.\<close>

definition removed_by :: "infra_env \<Rightarrow> string \<Rightarrow> ChaosInfra \<Rightarrow> ChaosInfra" where
  "removed_by E user x = x\<lparr>inf_IsRemoved := True, inf_UpdatedAt := ie_now E, inf_UpdatedBy := user\<rparr>"

lemma infra_inv_remove:
  assumes "infra_inv w" "d \<in> set (iw_infras w)" "inf_InfraID d = i"
  shows "infra_inv (w\<lparr>iw_infras := map (\<lambda>x. if live_infra p i x then removed_by E user x else x) (iw_infras w),
     iw_envs := map (\<lambda>x. if env_query p (inf_EnvironmentID d) x then pull_infra i x else x) (iw_envs w)\<rparr>)"
    (is "infra_inv (w\<lparr>iw_infras := map ?g _, iw_envs := map ?h _\<rparr>)")
proof -
  have same: "inf_InfraID (?g x) = inf_InfraID x" "inf_NodeSelector (?g x) = inf_NodeSelector x" for x
    by (simp_all add: removed_by_def)
  then have "inf_InfraID \<circ> ?g = inf_InfraID" by (auto simp: fun_eq_iff)
  moreover have "selectors_ok (map ?g (iw_infras w))"
    using assms(1) same(2) by (intro selectors_ok_map) (simp_all only: infra_inv_def)
  moreover have "lists_live (w\<lparr>iw_infras := map ?g (iw_infras w), iw_envs := map ?h (iw_envs w)\<rparr>)"
    unfolding lists_live_def
  proof (intro ballI)
    fix e j assume "e \<in> set (iw_envs (w\<lparr>iw_infras := map ?g (iw_infras w), iw_envs := map ?h (iw_envs w)\<rparr>))"
      and j: "j \<in> set (en_InfraIDs e)"
    then obtain e' where e': "e' \<in> set (iw_envs w)" "e = ?h e'" by auto
    then have j': "j \<in> set (en_InfraIDs e')" using j by (auto simp: pull_infra_def split: if_splits)
    then obtain x where x: "x \<in> set (iw_infras w)" "inf_InfraID x = j" "\<not> inf_IsRemoved x"
        "inf_ProjectID x = en_ProjectID e'" "inf_EnvironmentID x = en_EnvironmentID e'"
      using assms(1) e'(1) listed_infra by metis
    have "\<not> live_infra p i x"
    proof
      assume "live_infra p i x"
      then have "x = d" "en_ProjectID e' = p" using infra_id_unique [OF assms(1) x(1) assms(2)] x(4) assms(3)
        by (auto simp: live_infra_def)
      then have "e = pull_infra i e'" using e'(2) x(5) by (simp add: env_query_def)
      then show False using j x(2) assms(3) \<open>x = d\<close> by (simp add: pull_infra_def)
    qed
    then show "\<exists>d \<in> set (iw_infras (w\<lparr>iw_infras := map ?g (iw_infras w), iw_envs := map ?h (iw_envs w)\<rparr>)).
        inf_InfraID d = j \<and> \<not> inf_IsRemoved d \<and> inf_ProjectID d = en_ProjectID e \<and> inf_EnvironmentID d = en_EnvironmentID e"
      using x e'(2) by (auto simp: pull_infra_def intro!: bexI [of _ x])
  qed
  ultimately show ?thesis using assms(1) by (simp add: infra_inv_def)
qed

lemma tear_down_docs:
  "iw_infras (tear_down E d ns w) = iw_infras w" "iw_envs (tear_down E d ns w) = iw_envs w"
  by (simp_all add: tear_down_def Let_def)

lemma infra_inv_docs:
  "iw_infras w' = iw_infras w \<Longrightarrow> iw_envs w' = iw_envs w \<Longrightarrow> infra_inv w' = infra_inv w"
  by (simp add: infra_inv_def lists_live_def)

definition after_removal :: "infra_env \<Rightarrow> string \<Rightarrow> string \<Rightarrow> string \<Rightarrow> ChaosInfra \<Rightarrow> infra_world \<Rightarrow> infra_world" where
  "after_removal E user p i d w =
     w\<lparr>iw_infras := map (\<lambda>x. if live_infra p i x then removed_by E user x else x) (iw_infras w),
       iw_envs := map (\<lambda>x. if env_query p (inf_EnvironmentID d) x then pull_infra i x else x) (iw_envs w)\<rparr>"

lemma DeleteInfra_result:
  assumes "infra_env_ok E" "writes_work E" "ie_username E = Inr user" "op_GetInfra E i w = Inr d"
  shows "DeleteInfra E p i w =
     (case inf_InfraNamespace d of None \<Rightarrow> (Panics, after_removal E user p i d w)
      | Some ns \<Rightarrow> (Value ''infra deleted successfully'', tear_down E d ns (after_removal E user p i d w)))"
  using op_GetInfra_ok [OF assms(1,4)] assms(2-4)
  by (simp add: DeleteInfra_def update_infras_works update_envs_works after_removal_def removed_by_def [abs_def]
      cong: if_cong split: option.splits)

lemma DeleteInfra_inv:
  assumes "infra_env_ok E" "writes_work E" "infra_inv w"
  shows "infra_inv (snd (DeleteInfra E p i w))"
proof (cases "ie_username E")
  case user: (Inr user)
  show ?thesis
  proof (cases "op_GetInfra E i w")
    case (Inr d)
    have "infra_inv (after_removal E user p i d w)"
      using op_GetInfra_ok [OF assms(1) Inr] infra_inv_remove [OF assms(3)] by (simp add: after_removal_def)
    then show ?thesis
      by (simp add: DeleteInfra_result [OF assms(1,2) user Inr] infra_inv_docs [OF tear_down_docs] split: option.splits)
  qed (use user assms(3) in \<open>simp add: DeleteInfra_def\<close>)
qed (use assms(3) in \<open>simp add: DeleteInfra_def\<close>)

lemma serve_inv: "infra_env_ok E \<Longrightarrow> writes_work E \<Longrightarrow> infra_inv w \<Longrightarrow> infra_inv (serve E r w)"
  by (cases r) (simp_all add: serve_def CreateEnvironment_inv UpdateEnvironment_inv DeleteEnvironment_inv Confirm_inv
      RegisterInfra_inv DeleteInfra_inv)

lemma infra_reach_inv: "infra_reach w \<Longrightarrow> infra_inv w"
  by (induction rule: infra_reach.induct)
     (simp_all add: serve_inv, simp add: infra_inv_def lists_live_def selectors_ok_def empty_world_def)

section \<open>What the steps cannot do\<close>

lemma scope_manifest_total:
  assumes "\<And>sel el. inf_NodeSelector d = Some sel \<Longrightarrow> el \<in> set (SplitByte sel (CHR '','')) \<Longrightarrow> CHR ''='' \<in> set el"
  shows "scope_manifest cfg F endpoint d \<noteq> Panics"
  using assms by (auto simp: scope_manifest_def ManifestParser_panics)

lemma GetManifestWithInfraID_total:
  assumes "infra_env_ok E" "selectors_ok (iw_infras w)"
  shows "GetManifestWithInfraID E host i key w \<noteq> Panics"
proof (cases "op_GetInfra E i w")
  case (Inr d)
  have "scope_manifest (ie_config E) (ie_manifests E) (GetEndpoint (ie_config E) host) d \<noteq> Panics"
    using op_GetInfra_ok [OF assms(1) Inr] assms(2) by (intro scope_manifest_total) (auto simp: selectors_ok_def)
  then show ?thesis using Inr by (simp add: GetManifestWithInfraID_def split: go_result.splits)
qed (simp add: GetManifestWithInfraID_def)

lemma RegisterInfra_total:
  assumes "register_checks E p r w = Inr (user, token)"
  shows "fst (RegisterInfra E h p r w) \<noteq> Panics"
proof -
  have "GetK8sInfraYaml (ie_config E) (ie_manifests E) (resolveManifestHost h) (new_infra E p user token r) \<noteq> Panics"
    unfolding GetK8sInfraYaml_def using register_checks_selector [OF assms]
    by (intro scope_manifest_total) (simp add: new_infra_def)
  then show ?thesis using assms
    by (simp add: RegisterInfra_def Let_def split: prod.splits option.splits go_result.splits)
qed

text \<open>The stored name is under another key than the one the registration asks for.\<close>

lemma no_infra_has_a_clashing_name: "\<not> same_name_query p n d"
  by (simp add: same_name_query_def infra_field_def)

text \<open>A deletion by a project the infrastructure is not of changes no document.\<close>

lemma after_removal_foreign:
  assumes "infra_env_ok E" "infra_inv w" "op_GetInfra E i w = Inr d" "inf_ProjectID d \<noteq> p"
  shows "after_removal E user p i d w = w"
proof -
  have d: "d \<in> set (iw_infras w)" "inf_InfraID d = i" using op_GetInfra_ok assms(1,3) by blast+
  have "\<not> live_infra p i x" if "x \<in> set (iw_infras w)" for x
    using infra_id_unique [OF assms(2) that d(1)] d(2) assms(4) by (auto simp: live_infra_def)
  then have infras: "map (\<lambda>x. if live_infra p i x then removed_by E user x else x) (iw_infras w) = iw_infras w"
    by (simp add: map_idI)
  have "pull_infra i e = e" if e: "e \<in> set (iw_envs w)" "env_query p (inf_EnvironmentID d) e" for e
  proof -
    have "i \<notin> set (en_InfraIDs e)"
    proof
      assume "i \<in> set (en_InfraIDs e)"
      then obtain x where x: "x \<in> set (iw_infras w)" "inf_InfraID x = i" "inf_ProjectID x = en_ProjectID e"
        using listed_infra [OF assms(2) e(1)] by blast
      have "x = d" by (rule infra_id_unique [OF assms(2) x(1) d(1)]) (simp only: x(2) d(2))
      then show False using x(3) e(2) assms(4) by (simp add: env_query_def)
    qed
    then have "filter (\<lambda>j. j \<noteq> i) (en_InfraIDs e) = en_InfraIDs e" by (auto simp: filter_id_conv)
    then show ?thesis by (simp add: pull_infra_def)
  qed
  then have "map (\<lambda>x. if env_query p (inf_EnvironmentID d) x then pull_infra i x else x) (iw_envs w) = iw_envs w"
    by (intro map_idI) simp
  then show ?thesis using infras by (simp add: after_removal_def)
qed

text \<open>An infrastructure of no named namespace: the request panics with the documents already changed.\<close>

lemma delete_in_default_namespace_panics:
  assumes "infra_env_ok E" "writes_work E" "ie_username E = Inr user" "op_GetInfra E i w = Inr d" "inf_InfraNamespace d = None"
  shows "DeleteInfra E p i w = (Panics, after_removal E user p i d w)"
  using DeleteInfra_result [OF assms(1-4)] assms(5) by simp

text \<open>The namespace is deleted although it was there before the infrastructure.\<close>

lemma delete_removes_existing_namespace:
  assumes "infra_env_ok E" "writes_work E" "ie_username E = Inr user" "op_GetInfra E i w = Inr d"
    "inf_InfraNsExists d = Some True" "inf_InfraNamespace d = Some ns" "ns \<noteq> []" "ie_cleaner E = Some c"
  shows "last (iw_deleted_ns (snd (DeleteInfra E p i w))) = ns"
  using DeleteInfra_result [OF assms(1-4)] assms(6-8) by (simp add: tear_down_def Let_def)

section \<open>Identity\<close>

lemma Confirm_confirmed:
  assumes "infra_env_ok E" "writes_work E" "ConfirmInfraRegistration E who w = ((e, Some key), w')"
  shows "e = None \<and> sc_version (ie_config E) = id_Version who \<and>
    (\<exists>d. op_GetInfra E (id_InfraID who) w = Inr d \<and> inf_AccessKey d = id_AccessKey who) \<and> ie_new_key E = Inr key \<and>
    w' = w\<lparr>iw_infras := map (\<lambda>x. if inf_InfraID x = id_InfraID who
       then x\<lparr>inf_Token := [], inf_AccessKey := key, inf_IsRegistered := True, inf_IsInfraConfirmed := True,
         inf_UpdatedAt := ie_now E\<rparr> else x) (iw_infras w)\<rparr>"
  using assms(3) by (auto simp: ConfirmInfraRegistration_def update_infras_works [OF assms(2)] cong: if_cong
      split: if_splits sum.splits)

lemma VerifyInfra_accepts:
  assumes "infra_env_ok E" "VerifyInfra E who w = Inr d"
  shows "d \<in> set (iw_infras w) \<and> inf_InfraID d = id_InfraID who \<and> inf_AccessKey d = id_AccessKey who \<and> inf_IsRegistered d"
  using assms op_GetInfra_ok [OF assms(1)] by (auto simp: VerifyInfra_def split: sum.splits if_splits)

section \<open>A deployment for the examples\<close>

definition demo_config :: server_config where
  "demo_config = \<lparr>sc_ui_endpoint = [], sc_public_endpoint = [], sc_version = ''3.0.0'', sc_tls_cert = [], sc_image = (\<lambda>k. k),
     sc_pull_secret = []\<rparr>"

definition demo_manifests :: manifest_env where
  "demo_manifests = \<lparr>mf_dir = (\<lambda>p. Some [(''1.yaml'', Some ''id: #{INFRA_ID}'')]), mf_known = Some [''shop''],
     mf_json = concat, mf_selector_yaml = (\<lambda>m. concat (map fst m)), mf_tolerations_yaml = (\<lambda>t. [])\<rparr>"

definition demo_env :: "string \<Rightarrow> infra_env" where
  "demo_env i = \<lparr>ie_infras = list_coll same_infra_id, ie_envs = list_coll same_live_env, ie_username = Inr ''mia'',
     ie_sign = (\<lambda>s. Inr s), ie_random = ''k0'', ie_new_key = Inr ''k1'', ie_uuid = i, ie_now = 7, ie_config = demo_config,
     ie_manifests = demo_manifests, ie_cleaner = Some (\<lambda>ns. True)\<rparr>"

lemma list_coll_many: "many_works (list_coll c)"
  by (simp add: many_works_def list_coll_def)

lemma demo_env_ok: "infra_env_ok (demo_env i)" "writes_work (demo_env i)"
  by (simp_all add: infra_env_ok_def writes_work_def demo_env_def list_coll_ok list_coll_many)

definition demo_registration :: RegisterInfraRequest where
  "demo_registration = \<lparr>ri_Name = ''edge'', ri_EnvironmentID = ''e1'', ri_InfrastructureType = ''Kubernetes'',
     ri_Description = None, ri_PlatformName = ''AWS'', ri_InfraNamespace = Some ''chaos'', ri_ServiceAccount = None,
     ri_InfraScope = ''cluster'', ri_InfraNsExists = Some True, ri_InfraSaExists = None, ri_SkipSsl = None,
     ri_NodeSelector = Some ''disk=ssd'', ri_Tolerations = None, ri_Tags = []\<rparr>"

definition demo_headers :: request_headers where
  "demo_headers = \<lparr>rh_referer = None, rh_host = ''hub''\<rparr>"

definition demo_world :: infra_world where
  "demo_world = serve (demo_env ''i1'') (Register demo_headers ''p1'' demo_registration)
     (serve (demo_env ''i0'') (CreateEnv ''p1'' \<lparr>ce_EnvironmentID = ''e1'', ce_Name = ''prod'', ce_Description = None,
        ce_Tags = [], ce_Type = ''PROD''\<rparr> ''mia'') empty_world)"

lemma demo_reach: "infra_reach demo_world"
  unfolding demo_world_def by (intro infra_reach.intros demo_env_ok)

section \<open>Properties\<close>


lemma demo_lists: "map en_InfraIDs (iw_envs demo_world) = [[''i1'']]"
  by code_simp


text \<open>C37. The manifest of a registered infrastructure never panics, whatever its node selector: a
  registration stores only selectors the manifest can read, and no later operation changes them. Neither the
  download by identifier and key nor the answer of a registration can panic.\<close>

theorem reachable_manifests_total:
  assumes "infra_reach w" "infra_env_ok E"
  shows "GetManifestWithInfraID E host i key w \<noteq> Panics \<and> fst (RegisterInfra E h p r w) \<noteq> Panics"
proof -
  have "selectors_ok (iw_infras w)" using infra_reach_inv [OF assms(1)] by (simp add: infra_inv_def)
  moreover have "fst (RegisterInfra E h p r w) \<noteq> Panics"
    using RegisterInfra_total by (cases "register_checks E p r w") (auto simp: RegisterInfra_def)
  ultimately show ?thesis using GetManifestWithInfraID_total assms(2) by blast
qed

theorem reachable_manifests_total_witness:
  "(\<exists>m. GetManifestWithInfraID (demo_env ''i2'') ''hub'' ''i1'' ''k0'' demo_world = Value m) \<and>
   GetManifestWithInfraID (demo_env ''i2'') ''hub'' ''i1'' ''k0'' demo_world \<noteq> Panics"
proof -
  have "case GetManifestWithInfraID (demo_env ''i2'') ''hub'' ''i1'' ''k0'' demo_world of Value m \<Rightarrow> True | _ \<Rightarrow> False"
    by code_simp
  then have "\<exists>m. GetManifestWithInfraID (demo_env ''i2'') ''hub'' ''i1'' ''k0'' demo_world = Value m"
    by (simp split: go_result.splits)
  then show ?thesis using reachable_manifests_total [OF demo_reach demo_env_ok(1)] by blast
qed

text \<open>C27. A confirmation uses up the access key of the manifest: once a subscriber is confirmed with a new key,
  a call under the old key is refused unless the two are equal, and whatever is accepted under the
  infrastructure's identifier carries the new key and a registered, confirmed document.\<close>

theorem confirmation_rotates_key:
  assumes "infra_env_ok E" "writes_work E" "infra_env_ok E'"
    "ConfirmInfraRegistration E who w = ((None, Some key), w')" "id_InfraID who' = id_InfraID who"
  shows "case VerifyInfra E' who' w' of Inl _ \<Rightarrow> True
    | Inr d \<Rightarrow> id_AccessKey who' = key \<and> inf_IsInfraConfirmed d \<and> inf_Token d = []"
proof (cases "VerifyInfra E' who' w'")
  case (Inr d)
  have d: "d \<in> set (iw_infras w')" "inf_InfraID d = id_InfraID who" "inf_AccessKey d = id_AccessKey who'"
    using VerifyInfra_accepts [OF assms(3) Inr] assms(5) by simp_all
  then show ?thesis using Inr Confirm_confirmed [OF assms(1,2,4)] by auto
qed simp

definition subscriber :: "string \<Rightarrow> InfraIdentity" where
  "subscriber key = \<lparr>id_InfraID = ''i1'', id_AccessKey = key, id_Version = ''3.0.0''\<rparr>"

definition confirmed_world :: infra_world where
  "confirmed_world = snd (ConfirmInfraRegistration (demo_env ''i2'') (subscriber ''k0'') demo_world)"

lemma demo_confirmation:
  "ConfirmInfraRegistration (demo_env ''i2'') (subscriber ''k0'') demo_world = ((None, Some ''k1''), confirmed_world)"
proof -
  have "fst (ConfirmInfraRegistration (demo_env ''i2'') (subscriber ''k0'') demo_world) = (None, Some ''k1'')"
    by code_simp
  then show ?thesis unfolding confirmed_world_def by (metis prod.collapse)
qed

theorem confirmation_rotates_key_witness:
  "\<exists>d. VerifyInfra (demo_env ''i2'') (subscriber ''k1'') confirmed_world = Inr d \<and> inf_IsInfraConfirmed d"
proof -
  have "case VerifyInfra (demo_env ''i2'') (subscriber ''k1'') confirmed_world of Inl _ \<Rightarrow> False | Inr _ \<Rightarrow> True"
    by code_simp
  then show ?thesis
    using confirmation_rotates_key [OF demo_env_ok demo_env_ok(1) demo_confirmation, of "subscriber ''k1''" "''i2''"]
    by (auto simp: subscriber_def split: sum.splits)
qed

text \<open>Deleting an infrastructure of another project changes no document and still answers success, tells that
  project's subscriber to delete its configuration and its deployment, and asks for the deletion of its
  namespace: the lookup that decides what is torn down ignores the caller's project.\<close>

theorem foreign_infra_torn_down:
  assumes "infra_reach w" "infra_env_ok E" "writes_work E" "ie_username E = Inr user" "op_GetInfra E i w = Inr d"
    "inf_ProjectID d \<noteq> p" "inf_InfraNamespace d = Some ns" "ns \<noteq> []" "ie_cleaner E \<noteq> None"
  shows "DeleteInfra E p i w = (Value ''infra deleted successfully'',
    w\<lparr>iw_sent := iw_sent w @ map (\<lambda>m. (i, m)) (removal_requests ns), iw_deleted_ns := iw_deleted_ns w @ [ns]\<rparr>)"
  using DeleteInfra_result [OF assms(2-5)] after_removal_foreign [OF assms(2) infra_reach_inv [OF assms(1)] assms(5,6)]
    op_GetInfra_ok [OF assms(2,5)] assms(7-9)
  by (simp add: tear_down_def Let_def)

theorem foreign_infra_torn_down_witness:
  "iw_deleted_ns (snd (DeleteInfra (demo_env ''i2'') ''p2'' ''i1'' demo_world)) = iw_deleted_ns demo_world @ [''chaos'']"
proof -
  have "case op_GetInfra (demo_env ''i2'') ''i1'' demo_world of Inl _ \<Rightarrow> False
    | Inr d \<Rightarrow> inf_ProjectID d = ''p1'' \<and> inf_InfraNamespace d = Some ''chaos''" by code_simp
  then obtain d where d: "op_GetInfra (demo_env ''i2'') ''i1'' demo_world = Inr d" "inf_ProjectID d = ''p1''"
    "inf_InfraNamespace d = Some ''chaos''" by (auto split: sum.splits)
  have user: "ie_username (demo_env ''i2'') = Inr ''mia''" "ie_cleaner (demo_env ''i2'') \<noteq> None" by (simp_all add: demo_env_def)
  have "inf_ProjectID d \<noteq> ''p2''" using d(2) by simp
  from foreign_infra_torn_down [OF demo_reach demo_env_ok user(1) d(1) this d(3) _ user(2)] show ?thesis by simp
qed

end
