(* ===== verification/Namespace_Cleanup.thy ===== *)
theory Namespace_Cleanup
  imports Go_Prelude
begin

text \<open>
  The finalizer controller that deletes an infrastructure's namespace
  (\<^verbatim>\<open>graphql/server/pkg/chaos_infrastructure/finalizer_controller.go\<close>). The cluster is a parameter: what it
  answers to a call may depend on the calls made before. A function returns its error, if any, and the calls
  made so far, so that what the controller asks of the cluster is a value.
\<close>

section \<open>The cluster\<close>

datatype kube_call =
    GetNs (call_ns: string)
  | UpdateNs (call_ns: string) "string list"
  | DeleteNs (call_ns: string)
  | ListPVCs (call_ns: string)
  | ListJobs (call_ns: string)
  | DeleteJob (call_ns: string) string
  | ListObjects (call_ns: string) string
  | PatchObject (call_ns: string) string string
  | ListPods (call_ns: string)
  | DeletePod (call_ns: string) string

type_synonym calls = "kube_call list"

record kube_job = jb_Name :: string  jb_Active :: nat  jb_Succeeded :: nat  jb_Failed :: nat
record kube_pod = po_Name :: string  po_Phase :: string
record kube_object = ob_Name :: string  ob_Finalizers :: "string list"

text \<open>The answers; \<open>ka_write\<close> is the error of a call that writes.\<close>

record kube_api =
  ka_get_ns :: "calls \<Rightarrow> string \<Rightarrow> string + string list"
  ka_pvcs :: "calls \<Rightarrow> string \<Rightarrow> string + nat"
  ka_jobs :: "calls \<Rightarrow> string \<Rightarrow> string + kube_job list"
  ka_objects :: "calls \<Rightarrow> string \<Rightarrow> string \<Rightarrow> string + kube_object list"
  ka_pods :: "calls \<Rightarrow> string \<Rightarrow> string + kube_pod list"
  ka_write :: "calls \<Rightarrow> kube_call \<Rightarrow> string option"

definition kwrite :: "kube_api \<Rightarrow> kube_call \<Rightarrow> calls \<Rightarrow> string option \<times> calls" where
  "kwrite K c h = (ka_write K h c, h @ [c])"

record FinalizerController = fc_clientset :: "kube_api option"  fc_dynamic :: bool

definition InfraFinalizer :: string where "InfraFinalizer = ''chaos.litmuschaos.io/cleanup''"

definition litmusCRDFinalizerTargets :: "string list" where
  "litmusCRDFinalizerTargets = [''chaosengines'', ''chaosresults'']"

definition not_initialized :: string where "not_initialized = ''finalizer controller not initialized''"

section \<open>Finalizers\<close>

definition AddFinalizerToNamespace :: "FinalizerController \<Rightarrow> string \<Rightarrow> calls \<Rightarrow> string option \<times> calls" where
  "AddFinalizerToNamespace fc n h = (case fc_clientset fc of None \<Rightarrow> (Some not_initialized, h)
     | Some K \<Rightarrow>
        if n = ''ace'' then (None, h)
        else (case ka_get_ns K h n of Inl e \<Rightarrow> (Some e, h @ [GetNs n])
          | Inr fs \<Rightarrow> if InfraFinalizer \<in> set fs then (None, h @ [GetNs n])
              else kwrite K (UpdateNs n (fs @ [InfraFinalizer])) (h @ [GetNs n])))"

definition RemoveFinalizerFromNamespace :: "FinalizerController \<Rightarrow> string \<Rightarrow> calls \<Rightarrow> string option \<times> calls" where
  "RemoveFinalizerFromNamespace fc n h = (case fc_clientset fc of None \<Rightarrow> (Some not_initialized, h)
     | Some K \<Rightarrow>
        (case ka_get_ns K h n of Inl _ \<Rightarrow> (None, h @ [GetNs n])
         | Inr fs \<Rightarrow>
             (let new = filter (\<lambda>f. f \<noteq> InfraFinalizer) fs in
              if length new = length fs then (None, h @ [GetNs n])
              else kwrite K (UpdateNs n new) (h @ [GetNs n]))))"

definition DeleteInfrastructureNamespace :: "FinalizerController \<Rightarrow> string \<Rightarrow> calls \<Rightarrow> string option \<times> calls" where
  "DeleteInfrastructureNamespace fc n h = (case fc_clientset fc of None \<Rightarrow> (Some not_initialized, h)
     | Some K \<Rightarrow>
        if n = ''ace'' then (Some ''cannot delete platform namespace'', h)
        else kwrite K (DeleteNs n) (snd (AddFinalizerToNamespace fc n h)))"

section \<open>Cleaning up\<close>

text \<open>Deletions of a list of objects: an error of one is logged, the loop goes on.\<close>

fun delete_all :: "kube_api \<Rightarrow> kube_call list \<Rightarrow> calls \<Rightarrow> calls" where
  "delete_all K [] h = h"
| "delete_all K (c # cs) h = delete_all K cs (snd (kwrite K c h))"

definition job_finished :: "kube_job \<Rightarrow> bool" where
  "job_finished j = (jb_Active j = 0 \<and> (jb_Succeeded j > 0 \<or> jb_Failed j > 0))"

definition cleanupCompletedJobs :: "kube_api \<Rightarrow> string \<Rightarrow> calls \<Rightarrow> string option \<times> calls" where
  "cleanupCompletedJobs K n h = (case ka_jobs K h n of Inl e \<Rightarrow> (Some e, h @ [ListJobs n])
     | Inr js \<Rightarrow> (None, delete_all K (map (\<lambda>j. DeleteJob n (jb_Name j)) (filter job_finished js)) (h @ [ListJobs n])))"

definition cleanupErrorPods :: "kube_api \<Rightarrow> string \<Rightarrow> calls \<Rightarrow> string option \<times> calls" where
  "cleanupErrorPods K n h = (case ka_pods K h n of Inl e \<Rightarrow> (Some e, h @ [ListPods n])
     | Inr ps \<Rightarrow> (None, delete_all K (map (\<lambda>p. DeletePod n (po_Name p))
          (filter (\<lambda>p. po_Phase p = ''Failed'' \<or> po_Phase p = ''Unknown'') ps)) (h @ [ListPods n])))"

fun strip_finalizers :: "kube_api \<Rightarrow> string \<Rightarrow> string \<Rightarrow> kube_object list \<Rightarrow> string option \<Rightarrow> calls \<Rightarrow> string option \<times> calls" where
  "strip_finalizers K n resource [] firstErr h = (firstErr, h)"
| "strip_finalizers K n resource (item # items) firstErr h =
     (if ob_Finalizers item = [] then strip_finalizers K n resource items firstErr h
      else (case kwrite K (PatchObject n resource (ob_Name item)) h of
          (err, h') \<Rightarrow> strip_finalizers K n resource items (if firstErr = None then err else firstErr) h'))"

fun strip_targets :: "kube_api \<Rightarrow> string \<Rightarrow> string list \<Rightarrow> string option \<Rightarrow> calls \<Rightarrow> string option \<times> calls" where
  "strip_targets K n [] firstErr h = (firstErr, h)"
| "strip_targets K n (resource # rest) firstErr h =
     (case ka_objects K h n resource of Inl _ \<Rightarrow> strip_targets K n rest firstErr (h @ [ListObjects n resource])
      | Inr items \<Rightarrow> (case strip_finalizers K n resource items firstErr (h @ [ListObjects n resource]) of
          (err, h') \<Rightarrow> strip_targets K n rest err h'))"

definition cleanupOrphanedLitmusCRDFinalizers :: "FinalizerController \<Rightarrow> kube_api \<Rightarrow> string \<Rightarrow> calls \<Rightarrow> string option \<times> calls" where
  "cleanupOrphanedLitmusCRDFinalizers fc K n h =
     (if fc_dynamic fc then strip_targets K n litmusCRDFinalizerTargets None h
      else (Some ''dynamic client not available'', h))"

text \<open>A list of volumes that cannot be read counts as no volumes; the errors of the three sweeps are logged.\<close>

definition cleanupInfrastructureNamespace :: "FinalizerController \<Rightarrow> kube_api \<Rightarrow> string \<Rightarrow> calls \<Rightarrow> string option \<times> calls" where
  "cleanupInfrastructureNamespace fc K n h =
     (if n = ''ace'' then (Some (''refusing to cleanup platform namespace '' @ [CHR 0x27] @ ''ace'' @ [CHR 0x27]), h)
      else (let h = h @ [ListPVCs n] in
        if (case ka_pvcs K (butlast h) n of Inl _ \<Rightarrow> False | Inr volumes \<Rightarrow> volumes > 0)
        then (Some ''namespace contains persistent volumes, aborting cleanup'', h)
        else (None, snd (cleanupErrorPods K n (snd (cleanupOrphanedLitmusCRDFinalizers fc K n
               (snd (cleanupCompletedJobs K n h))))))))"

section \<open>The watcher\<close>

record ns_event = ne_Name :: string  ne_Finalizers :: "string list"  ne_Deleting :: bool

definition hasInfrastructureFinalizer :: "ns_event \<Rightarrow> bool" where
  "hasInfrastructureFinalizer e = (InfraFinalizer \<in> set (ne_Finalizers e))"

definition process_event :: "FinalizerController \<Rightarrow> kube_api \<Rightarrow> ns_event \<Rightarrow> calls \<Rightarrow> calls" where
  "process_event fc K e h =
     (if \<not> hasInfrastructureFinalizer e \<or> \<not> ne_Deleting e then h
      else (case cleanupInfrastructureNamespace fc K (ne_Name e) h of
          (Some _, h') \<Rightarrow> h'
        | (None, h') \<Rightarrow> snd (RemoveFinalizerFromNamespace fc (ne_Name e) h')))"

text \<open>
  The events until the controller is stopped, the context is done or the channel is closed: the list ends
  there. An object that is no namespace is \<^const>\<open>None\<close>.
\<close>

fun processNamespaceEvents :: "FinalizerController \<Rightarrow> kube_api \<Rightarrow> ns_event option list \<Rightarrow> calls \<Rightarrow> calls" where
  "processNamespaceEvents fc K [] h = h"
| "processNamespaceEvents fc K (None # es) h = processNamespaceEvents fc K es h"
| "processNamespaceEvents fc K (Some e # es) h = processNamespaceEvents fc K es (process_event fc K e h)"

section \<open>What is asked of the cluster\<close>

text \<open>\<open>adds P h h'\<close>: \<open>h'\<close> is \<open>h\<close> followed by calls that all satisfy \<open>P\<close>.\<close>

definition adds :: "(kube_call \<Rightarrow> bool) \<Rightarrow> calls \<Rightarrow> calls \<Rightarrow> bool" where
  "adds P h h' = (\<exists>new. h' = h @ new \<and> list_all P new)"

lemma adds_refl [intro, simp]: "adds P h h"
  by (simp add: adds_def)

lemma adds_trans: "adds P h h' \<Longrightarrow> adds P h' h'' \<Longrightarrow> adds P h h''"
  unfolding adds_def by (metis append_assoc list_all_append)

lemma adds_append [simp]: "adds P h (h @ new) = list_all P new"
  by (simp add: adds_def)

lemma adds_kwrite: "P c \<Longrightarrow> adds P h (snd (kwrite K c h))"
  by (simp add: kwrite_def)

lemma adds_delete_all: "list_all P cs \<Longrightarrow> adds P h (delete_all K cs h)"
proof (induction cs arbitrary: h)
  case (Cons c cs)
  then have "adds P h (snd (kwrite K c h))" "adds P (snd (kwrite K c h)) (delete_all K cs (snd (kwrite K c h)))"
    by (simp_all add: adds_kwrite)
  then show ?case using adds_trans by simp
qed simp

lemma adds_strip_finalizers: "(\<And>x. P (PatchObject n r x)) \<Longrightarrow> adds P h (snd (strip_finalizers K n r items e h))"
proof (induction items arbitrary: h e)
  case (Cons i items)
  obtain err h' where w: "kwrite K (PatchObject n r (ob_Name i)) h = (err, h')" by (metis prod.exhaust)
  then have "adds P h h'" using adds_kwrite [of P "PatchObject n r (ob_Name i)" h K] Cons(2) by simp
  then show ?case using Cons adds_trans [of P h h'] by (simp add: w)
qed simp

lemma adds_strip_targets:
  assumes "\<And>r. P (ListObjects n r)" "\<And>r x. P (PatchObject n r x)"
  shows "adds P h (snd (strip_targets K n rs e h))"
proof (induction rs arbitrary: h e)
  case (Cons r rs)
  have one: "adds P h (h @ [ListObjects n r])" using assms(1) by simp
  show ?case
  proof (cases "ka_objects K h n r")
    case (Inl _)
    then show ?thesis using adds_trans [OF one Cons.IH] by simp
  next
    case (Inr items)
    obtain err h' where s: "strip_finalizers K n r items e (h @ [ListObjects n r]) = (err, h')" by (metis prod.exhaust)
    then have "adds P (h @ [ListObjects n r]) h'"
      using adds_strip_finalizers [of P n r "h @ [ListObjects n r]" K items e] assms(2) by simp
    then show ?thesis using adds_trans [OF adds_trans [OF one] Cons.IH] Inr s by simp
  qed
qed simp

lemma adds_delete_after: "P c \<Longrightarrow> list_all P cs \<Longrightarrow> adds P h (delete_all K cs (h @ [c]))"
  using adds_trans [of P h "h @ [c]"] adds_delete_all by simp

lemma adds_jobs: "P (ListJobs n) \<Longrightarrow> (\<And>j. P (DeleteJob n j)) \<Longrightarrow> adds P h (snd (cleanupCompletedJobs K n h))"
  by (simp add: cleanupCompletedJobs_def list_all_iff adds_delete_after split: sum.splits)

lemma adds_pods: "P (ListPods n) \<Longrightarrow> (\<And>p. P (DeletePod n p)) \<Longrightarrow> adds P h (snd (cleanupErrorPods K n h))"
  by (simp add: cleanupErrorPods_def list_all_iff adds_delete_after split: sum.splits)

text \<open>The calls of a clean-up: reads of one namespace, and writes to what is in it, never to the namespace itself.\<close>

fun sweep_call :: "string \<Rightarrow> kube_call \<Rightarrow> bool" where
  "sweep_call n (GetNs m) = False"
| "sweep_call n (UpdateNs m fs) = False"
| "sweep_call n (DeleteNs m) = False"
| "sweep_call n c = (call_ns c = n)"

lemma cleanup_calls: "adds (sweep_call n) h (snd (cleanupInfrastructureNamespace fc K n h))"
proof -
  let ?P = "sweep_call n" and ?h0 = "h @ [ListPVCs n]"
  let ?h1 = "snd (cleanupCompletedJobs K n ?h0)"
  let ?h2 = "snd (cleanupOrphanedLitmusCRDFinalizers fc K n ?h1)"
  have 0: "adds ?P h ?h0" by simp
  have 1: "adds ?P ?h0 ?h1" by (rule adds_jobs) simp_all
  have 2: "adds ?P ?h1 ?h2" by (simp add: cleanupOrphanedLitmusCRDFinalizers_def adds_strip_targets)
  have 3: "adds ?P ?h2 (snd (cleanupErrorPods K n ?h2))" by (rule adds_pods) simp_all
  have "adds ?P h (snd (cleanupErrorPods K n ?h2))" by (rule adds_trans [OF 0 adds_trans [OF 1 adds_trans [OF 2 3]]])
  then show ?thesis using 0 by (simp add: cleanupInfrastructureNamespace_def Let_def)
qed

text \<open>What the controller may ask: nothing of the platform's own namespace.\<close>

lemma adds_mono: "adds P h h' \<Longrightarrow> (\<And>c. P c \<Longrightarrow> Q c) \<Longrightarrow> adds Q h h'"
  unfolding adds_def by (metis (no_types, lifting) list.pred_mono_strong)

lemma RemoveFinalizer_calls: "adds (\<lambda>c. call_ns c = n) h (snd (RemoveFinalizerFromNamespace fc n h))"
  by (simp add: RemoveFinalizerFromNamespace_def Let_def kwrite_def split: option.splits sum.splits)

lemma AddFinalizer_calls: "adds (\<lambda>c. call_ns c = n) h (snd (AddFinalizerToNamespace fc n h))"
  by (simp add: AddFinalizerToNamespace_def kwrite_def split: option.splits sum.splits)

lemma sweep_call_ns: "sweep_call n c \<Longrightarrow> call_ns c = n"
  by (cases c) simp_all

lemma process_event_calls: "adds (\<lambda>c. call_ns c = ne_Name e \<and> call_ns c \<noteq> ''ace'') h (process_event fc K e h)"
proof (cases "ne_Name e = ''ace''")
  case True
  then show ?thesis by (simp add: process_event_def cleanupInfrastructureNamespace_def)
next
  case False
  obtain err h' where c: "cleanupInfrastructureNamespace fc K (ne_Name e) h = (err, h')" by (metis prod.exhaust)
  have "adds (\<lambda>c. call_ns c = ne_Name e) h h'"
    using adds_mono [OF cleanup_calls [of "ne_Name e" h fc K] sweep_call_ns] c by simp
  then have "adds (\<lambda>c. call_ns c = ne_Name e) h (process_event fc K e h)"
    using adds_trans [OF _ RemoveFinalizer_calls] c by (simp add: process_event_def split: option.splits)
  then show ?thesis by (rule adds_mono) (use False in simp)
qed

lemma processNamespaceEvents_calls:
  "adds (\<lambda>c. call_ns c \<noteq> ''ace'' \<and> call_ns c \<in> ne_Name ` {e. Some e \<in> set es}) h (processNamespaceEvents fc K es h)"
proof (induction es arbitrary: h)
  case (Cons x es)
  show ?case
  proof (cases x)
    case None
    have "adds (\<lambda>c. call_ns c \<noteq> ''ace'' \<and> call_ns c \<in> ne_Name ` {e. Some e \<in> set (x # es)}) h
      (processNamespaceEvents fc K es h)" by (rule adds_mono [OF Cons]) auto
    then show ?thesis using None by simp
  next
    case (Some e)
    have "adds (\<lambda>c. call_ns c \<noteq> ''ace'' \<and> call_ns c \<in> ne_Name ` {e. Some e \<in> set (x # es)}) h (process_event fc K e h)"
      by (rule adds_mono [OF process_event_calls]) (use Some in auto)
    moreover have "adds (\<lambda>c. call_ns c \<noteq> ''ace'' \<and> call_ns c \<in> ne_Name ` {e. Some e \<in> set (x # es)})
      (process_event fc K e h) (processNamespaceEvents fc K es (process_event fc K e h))"
      by (rule adds_mono [OF Cons]) auto
    ultimately show ?thesis using Some adds_trans by simp
  qed
qed simp

text \<open>C34. The platform's own namespace is never touched: neither the deletion of an infrastructure's namespace nor
  the watcher, over any events and whatever the cluster answers, makes a call on the namespace \<open>ace\<close>.\<close>

theorem platform_namespace_untouched:
  "''ace'' \<notin> call_ns ` set (snd (DeleteInfrastructureNamespace fc n [])) \<and>
   ''ace'' \<notin> call_ns ` set (processNamespaceEvents fc K es [])"
proof
  have "adds (\<lambda>c. call_ns c \<noteq> ''ace'') [] (processNamespaceEvents fc K es [])"
    by (rule adds_mono [OF processNamespaceEvents_calls]) simp
  then show "''ace'' \<notin> call_ns ` set (processNamespaceEvents fc K es [])" by (auto simp: adds_def list_all_iff)
  show "''ace'' \<notin> call_ns ` set (snd (DeleteInfrastructureNamespace fc n []))"
    using AddFinalizer_calls [of n "[]" fc]
    by (auto simp: DeleteInfrastructureNamespace_def kwrite_def adds_def list_all_iff split: option.splits if_splits)
qed

text \<open>
  The finalizer is taken off only after a clean-up that reported no error: while volumes are listed the
  namespace keeps it. A list of volumes that cannot be read does not stop the clean-up.
\<close>

lemma volumes_keep_the_finalizer:
  "ka_pvcs K h (ne_Name e) = Inr (Suc k) \<Longrightarrow> adds (sweep_call (ne_Name e)) h (process_event fc K e h)"
  using cleanup_calls [of "ne_Name e" h fc K]
  by (auto simp: process_event_def cleanupInfrastructureNamespace_def Let_def split: if_splits)

lemma unreadable_volumes_skip_the_guard:
  "ka_pvcs K h n = Inl err \<Longrightarrow> n \<noteq> ''ace'' \<Longrightarrow> fst (cleanupInfrastructureNamespace fc K n h) = None"
  by (simp add: cleanupInfrastructureNamespace_def Let_def)

text \<open>A namespace that could not be given the finalizer is deleted all the same, without a clean-up.\<close>

lemma deleted_without_finalizer:
  "fc_clientset fc = Some K \<Longrightarrow> n \<noteq> ''ace'' \<Longrightarrow> ka_get_ns K [] n = Inl err \<Longrightarrow>
   snd (DeleteInfrastructureNamespace fc n []) = [GetNs n, DeleteNs n]"
  by (simp add: DeleteInfrastructureNamespace_def AddFinalizerToNamespace_def kwrite_def)

lemma finalizer_added_once:
  "fc_clientset fc = Some K \<Longrightarrow> ka_get_ns K h n = Inr fs \<Longrightarrow> InfraFinalizer \<in> set fs \<Longrightarrow> n \<noteq> ''ace'' \<Longrightarrow>
   AddFinalizerToNamespace fc n h = (None, h @ [GetNs n])"
  by (simp add: AddFinalizerToNamespace_def)

end
