(* ===== verification/Infra_Connect.thy ===== *)
theory Infra_Connect
  imports Go_Prelude
begin

text \<open>
  The connections of subscribers to the server: \<^verbatim>\<open>InfraConnect\<close>
  (\<^verbatim>\<open>graphql/server/graph/chaos_infrastructure.resolvers.go\<close>), \<^verbatim>\<open>SendRequestToSubscriber\<close>
  (\<^verbatim>\<open>pkg/chaos_infrastructure/infra_utils.go\<close>) and the one-shot answers \<^verbatim>\<open>PodLog\<close>, \<^verbatim>\<open>KubeObj\<close>,
  \<^verbatim>\<open>KubeNamespace\<close> (\<^verbatim>\<open>service.go\<close>), over the shared store (\<^verbatim>\<open>pkg/data-store\<close>). A step is what one goroutine
  does between two points where another may run: a section under the store's mutex, one channel operation,
  one update of the database. Channels are numbered in the order they are made. A send to a closed
  channel and a second close panic outside any recover, which ends the process: \<open>Crashed\<close>.
\<close>

section \<open>State\<close>

text \<open>
  The goroutines under way: a connection that must still be marked active, the same connection waiting for
  its context and then leaving, and a request whose channel has been looked up.
\<close>

datatype task =
    MarkActive string
  | Listening string nat
  | Unmapping string nat
  | MarkInactive string
  | Sending string nat string

record hub =
  hb_map :: "string \<rightharpoonup> nat"
  hb_buffer :: "nat \<Rightarrow> string list"
  hb_closed :: "nat \<Rightarrow> bool"
  hb_next :: nat
  hb_active :: "string \<Rightarrow> bool"
  hb_tasks :: "task list"

definition new_hub :: hub where
  "new_hub = \<lparr>hb_map = Map.empty, hb_buffer = (\<lambda>_. []), hb_closed = (\<lambda>_. False), hb_next = 0, hb_active = (\<lambda>_. False),
     hb_tasks = []\<rparr>"

datatype hub_state = Running hub | Crashed

text \<open>A task leaves the list; what it leaves to do is put at its end.\<close>

definition after_task :: "task \<Rightarrow> task list \<Rightarrow> hub \<Rightarrow> hub" where
  "after_task t next s = s\<lparr>hb_tasks := remove1 t (hb_tasks s) @ next\<rparr>"

section \<open>Steps\<close>

text \<open>
  The section of \<^verbatim>\<open>InfraConnect\<close> after the identity is verified: a mapped channel is closed and the call fails,
  else the new channel is mapped and two goroutines go on.
\<close>

definition connect :: "string \<Rightarrow> hub \<Rightarrow> hub_state" where
  "connect i s = (case hb_map s i of
     Some c \<Rightarrow> if hb_closed s c then Crashed else Running (s\<lparr>hb_closed := (hb_closed s)(c := True), hb_next := Suc (hb_next s)\<rparr>)
   | None \<Rightarrow> Running (s\<lparr>hb_map := (hb_map s)(i \<mapsto> hb_next s), hb_next := Suc (hb_next s),
       hb_tasks := hb_tasks s @ [MarkActive i, Listening i (hb_next s)]\<rparr>))"

text \<open>\<^verbatim>\<open>SendRequestToSubscriber\<close>: the lookup under the mutex; an infrastructure that is not connected is logged.\<close>

definition dispatch :: "string \<Rightarrow> string \<Rightarrow> hub \<Rightarrow> hub" where
  "dispatch i m s = (case hb_map s i of None \<Rightarrow> s | Some c \<Rightarrow> s\<lparr>hb_tasks := hb_tasks s @ [Sending i c m]\<rparr>)"

text \<open>The send: the channel holds one message; a full channel is waited for, or given up after the timeout.\<close>

definition send_now :: "nat \<Rightarrow> string \<Rightarrow> hub \<Rightarrow> hub_state option" where
  "send_now c m s =
     (if hb_closed s c then Some Crashed
      else if hb_buffer s c = [] then Some (Running (s\<lparr>hb_buffer := (hb_buffer s)(c := [m])\<rparr>)) else None)"

text \<open>What a task does when it is run; \<^const>\<open>None\<close> is a send that waits.\<close>

definition run_task :: "task \<Rightarrow> hub \<Rightarrow> hub_state option" where
  "run_task t s = (case t of
     MarkActive i \<Rightarrow> Some (Running ((after_task t [] s)\<lparr>hb_active := (hb_active s)(i := True)\<rparr>))
   | Listening i c \<Rightarrow> Some (Running (after_task t [Unmapping i c] s))
   | Unmapping i c \<Rightarrow> Some (Running ((after_task t [MarkInactive i] s)\<lparr>hb_map := (hb_map s)(i := None)\<rparr>))
   | MarkInactive i \<Rightarrow> Some (Running ((after_task t [] s)\<lparr>hb_active := (hb_active s)(i := False)\<rparr>))
   | Sending i c m \<Rightarrow> send_now c m (after_task t [] s))"

inductive hub_step :: "hub_state \<Rightarrow> hub_state \<Rightarrow> bool" where
  connects: "hub_step (Running s) (connect i s)"
| dispatches: "hub_step (Running s) (Running (dispatch i m s))"
| runs: "t \<in> set (hb_tasks s) \<Longrightarrow> run_task t s = Some r \<Longrightarrow> hub_step (Running s) r"
| times_out: "Sending i c m \<in> set (hb_tasks s) \<Longrightarrow> hub_step (Running s) (Running (after_task (Sending i c m) [] s))"
| delivers: "hb_buffer s c = m # ms \<Longrightarrow> hub_step (Running s) (Running (s\<lparr>hb_buffer := (hb_buffer s)(c := ms)\<rparr>))"

inductive_cases hub_stepE: "hub_step (Running s) r"

inductive hub_reach :: "hub_state \<Rightarrow> bool" where
  fresh: "hub_reach (Running new_hub)"
| further: "hub_reach r \<Longrightarrow> hub_step r r' \<Longrightarrow> hub_reach r'"

section \<open>The invariant\<close>

text \<open>The connections that hold an entry of the map.\<close>

fun holds_entry :: "task \<Rightarrow> (string \<times> nat) option" where
  "holds_entry (Listening i c) = Some (i, c)"
| "holds_entry (Unmapping i c) = Some (i, c)"
| "holds_entry t = None"

fun holders :: "task list \<Rightarrow> (string \<times> nat) list" where
  "holders [] = []"
| "holders (t # ts) = (case holds_entry t of None \<Rightarrow> holders ts | Some x \<Rightarrow> x # holders ts)"

definition hub_inv :: "hub \<Rightarrow> bool" where
  "hub_inv s \<longleftrightarrow>
     distinct (map fst (holders (hb_tasks s))) \<and> (\<forall>i c. hb_map s i = Some c \<longleftrightarrow> (i, c) \<in> set (holders (hb_tasks s))) \<and>
     distinct (map snd (holders (hb_tasks s))) \<and> (\<forall>i c. (i, c) \<in> set (holders (hb_tasks s)) \<longrightarrow> c < hb_next s) \<and>
     (\<forall>c. length (hb_buffer s c) \<le> 1)"

lemma holders_append [simp]: "holders (ts @ us) = holders ts @ holders us"
  by (induction ts) (auto split: option.splits)

lemma holders_remove_other: "holds_entry t = None \<Longrightarrow> holders (remove1 t ts) = holders ts"
  by (induction ts) (auto split: option.splits)

lemma holders_in: "t \<in> set ts \<Longrightarrow> holds_entry t = Some x \<Longrightarrow> x \<in> set (holders ts)"
  by (induction ts) (auto split: option.splits)

text \<open>Taking one holder out of the list takes exactly its entry out.\<close>

lemma holders_remove:
  assumes "t \<in> set ts" "holds_entry t = Some (i, c)" "distinct (map fst (holders ts))"
  shows "\<exists>xs ys. holders ts = xs @ (i, c) # ys \<and> holders (remove1 t ts) = xs @ ys"
  using assms
proof (induction ts)
  case (Cons u ts)
  show ?case
  proof (cases "u = t")
    case True
    then show ?thesis using Cons.prems(2) by (intro exI [of _ "[]"] exI [of _ "holders ts"]) simp
  next
    case False
    then have "distinct (map fst (holders ts))" "t \<in> set ts" using Cons.prems by (auto split: option.splits)
    then obtain xs ys where "holders ts = xs @ (i, c) # ys" "holders (remove1 t ts) = xs @ ys"
      using Cons.IH Cons.prems(2) by blast
    then show ?thesis using False
      by (cases "holds_entry u") (auto intro: exI [of _ xs] exI [of _ "the (holds_entry u) # xs"])
  qed
qed simp

lemma hub_inv_start: "hub_inv new_hub"
  by (simp add: hub_inv_def new_hub_def)

lemma hub_inv_connect:
  assumes "hub_inv s" "connect i s = Running s'"
  shows "hub_inv s'"
proof (cases "hb_map s i")
  case None
  then have "i \<notin> fst ` set (holders (hb_tasks s))" using assms(1) by (force simp: hub_inv_def)
  moreover have "hb_next s \<notin> snd ` set (holders (hb_tasks s))"
    using assms(1) by (force simp: hub_inv_def)
  moreover from calculation(1) have "(i, c) \<notin> set (holders (hb_tasks s))" for c by force
  ultimately show ?thesis using assms None
    by (auto simp: hub_inv_def connect_def less_Suc_eq split: if_splits)
next
  case (Some c)
  then show ?thesis using assms by (auto simp: hub_inv_def connect_def less_Suc_eq split: if_splits)
qed

lemma hub_inv_quiet_task:
  assumes "hub_inv s" "holds_entry t = None" "holders next = []"
  shows "hub_inv (after_task t next s)"
  using assms by (simp add: hub_inv_def after_task_def holders_remove_other)

lemma hub_inv_active: "hub_inv (s\<lparr>hb_active := f\<rparr>) = hub_inv s"
  by (simp add: hub_inv_def)

lemma hub_inv_listening:
  assumes "hub_inv s" "Listening i c \<in> set (hb_tasks s)"
  shows "hub_inv (after_task (Listening i c) [Unmapping i c] s)"
proof -
  obtain xs ys where "holders (hb_tasks s) = xs @ (i, c) # ys" "holders (remove1 (Listening i c) (hb_tasks s)) = xs @ ys"
    using holders_remove [of "Listening i c" "hb_tasks s" i c] assms by (auto simp: hub_inv_def)
  then show ?thesis using assms(1) by (auto simp: hub_inv_def after_task_def)
qed

lemma hub_inv_unmapping:
  assumes "hub_inv s" "Unmapping i c \<in> set (hb_tasks s)"
  shows "hub_inv ((after_task (Unmapping i c) [MarkInactive i] s)\<lparr>hb_map := (hb_map s)(i := None)\<rparr>)"
proof -
  obtain xs ys where h: "holders (hb_tasks s) = xs @ (i, c) # ys" "holders (remove1 (Unmapping i c) (hb_tasks s)) = xs @ ys"
    using holders_remove [of "Unmapping i c" "hb_tasks s" i c] assms by (auto simp: hub_inv_def)
  moreover have "i \<notin> fst ` set (xs @ ys)" using assms(1) h(1) by (auto simp: hub_inv_def)
  then have "(i, c') \<notin> set xs" "(i, c') \<notin> set ys" for c' by force+
  ultimately show ?thesis using assms(1) by (auto simp: hub_inv_def after_task_def)
qed

lemma hub_inv_run:
  assumes "hub_inv s" "t \<in> set (hb_tasks s)" "run_task t s = Some (Running s')"
  shows "hub_inv s'"
proof (cases t)
  case (Sending i c m)
  have "hub_inv (after_task t [] s)" using assms(1) Sending by (simp add: hub_inv_quiet_task)
  then show ?thesis using assms(3) Sending
    by (auto simp: run_task_def send_now_def hub_inv_def split: if_splits)
qed (use assms in \<open>auto simp: run_task_def hub_inv_active hub_inv_quiet_task hub_inv_listening hub_inv_unmapping\<close>)

lemma hub_inv_step: "hub_step (Running s) (Running s') \<Longrightarrow> hub_inv s \<Longrightarrow> hub_inv s'"
proof (erule hub_stepE)
  fix i m assume "Running s' = Running (dispatch i m s)" "hub_inv s"
  then show ?thesis by (auto simp: dispatch_def hub_inv_def split: option.splits)
next
  fix i c m assume "Running s' = Running (after_task (Sending i c m) [] s)" "hub_inv s"
  then show ?thesis by (simp add: hub_inv_quiet_task)
next
  fix c m ms assume "Running s' = Running (s\<lparr>hb_buffer := (hb_buffer s)(c := ms)\<rparr>)" "hb_buffer s c = m # ms" "hub_inv s"
  moreover from this have "length (m # ms) \<le> 1" unfolding hub_inv_def by metis
  ultimately show ?thesis by (simp add: hub_inv_def)
qed (auto intro: hub_inv_connect hub_inv_run)

lemma hub_reach_inv: "hub_reach r \<Longrightarrow> r = Running s \<Longrightarrow> hub_inv s"
proof (induction arbitrary: s rule: hub_reach.induct)
  case (further r r')
  then show ?case using hub_inv_step by (cases r) (auto elim: hub_step.cases)
qed (use hub_inv_start in simp)

section \<open>Interleavings\<close>

text \<open>A run given as steps to take, for the examples.\<close>

datatype move = Connect string | Dispatch string string | Run task | Deliver nat

fun take_move :: "move \<Rightarrow> hub \<Rightarrow> hub_state option" where
  "take_move (Connect i) s = Some (connect i s)"
| "take_move (Dispatch i m) s = Some (Running (dispatch i m s))"
| "take_move (Run t) s = (if t \<in> set (hb_tasks s) then run_task t s else None)"
| "take_move (Deliver c) s = (case hb_buffer s c of [] \<Rightarrow> None | m # ms \<Rightarrow> Some (Running (s\<lparr>hb_buffer := (hb_buffer s)(c := ms)\<rparr>)))"

fun take_moves :: "move list \<Rightarrow> hub_state \<Rightarrow> hub_state option" where
  "take_moves [] r = Some r"
| "take_moves (m # ms) Crashed = None"
| "take_moves (m # ms) (Running s) = (case take_move m s of None \<Rightarrow> None | Some r \<Rightarrow> take_moves ms r)"

lemma take_move_step: "take_move m s = Some r \<Longrightarrow> hub_step (Running s) r"
  by (cases m) (auto intro: hub_step.intros split: if_splits list.splits)

lemma take_moves_reach: "hub_reach r \<Longrightarrow> take_moves ms r = Some r' \<Longrightarrow> hub_reach r'"
  by (induction ms r rule: take_moves.induct) (auto split: option.splits dest: take_move_step intro: hub_reach.further)

text \<open>C35. One subscriber per infrastructure: in every state the server reaches, the map holds the channel of
  exactly one connection that has not left yet, no two infrastructures share a channel, and no channel holds
  more than one message. A connection that leaves removes its own entry, never that of a later one.\<close>

theorem one_subscriber_per_infra:
  assumes "hub_reach (Running s)"
  shows "(\<forall>i. (\<exists>!c. (i, c) \<in> set (holders (hb_tasks s))) = (hb_map s i \<noteq> None)) \<and>
    (\<forall>i c. hb_map s i = Some c \<longleftrightarrow> (i, c) \<in> set (holders (hb_tasks s))) \<and>
    (\<forall>i j. hb_map s i \<noteq> None \<and> hb_map s i = hb_map s j \<longrightarrow> i = j) \<and> (\<forall>c. length (hb_buffer s c) \<le> 1)"
proof -
  have ok: "hub_inv s" using hub_reach_inv assms by blast
  then have "i = j" if "hb_map s i = Some c" "hb_map s j = Some c" for i j c
    using that unfolding hub_inv_def by (metis distinct_map inj_onD prod.inject snd_conv)
  then have "\<forall>i j. hb_map s i \<noteq> None \<and> hb_map s i = hb_map s j \<longrightarrow> i = j" by (metis option.exhaust)
  moreover have "(\<exists>!c. (i, c) \<in> set (holders (hb_tasks s))) = (hb_map s i \<noteq> None)" for i
    using ok unfolding hub_inv_def by (metis option.distinct(1) option.exhaust option.inject)
  ultimately show ?thesis using ok unfolding hub_inv_def by blast
qed

text \<open>
  A subscriber that connects again while its old connection is still mapped closes the mapped channel. The
  next attempt, or the next request to the infrastructure, before the old connection has left ends the
  process.
\<close>

lemma third_connect_crashes: "hub_reach Crashed"
proof -
  have "case take_moves [Connect ''i'', Connect ''i'', Connect ''i''] (Running new_hub) of Some Crashed \<Rightarrow> True | _ \<Rightarrow> False"
    by code_simp
  then have "take_moves [Connect ''i'', Connect ''i'', Connect ''i''] (Running new_hub) = Some Crashed"
    by (simp split: option.splits hub_state.splits)
  then show ?thesis using take_moves_reach [OF hub_reach.fresh] by blast
qed

lemma request_after_reconnect_crashes:
  "case take_moves [Connect ''i'', Connect ''i'', Dispatch ''i'' ''m'', Run (Sending ''i'' 0 ''m'')] (Running new_hub) of
     Some Crashed \<Rightarrow> True | _ \<Rightarrow> False"
  by code_simp

text \<open>
  The connection that left marks the infrastructure inactive after the next one marked it active: connected
  and inactive from then on.
\<close>

definition late_mark :: "move list" where
  "late_mark = [Connect ''i'', Run (MarkActive ''i''), Run (Listening ''i'' 0), Run (Unmapping ''i'' 0), Connect ''i'',
     Run (MarkActive ''i''), Run (MarkInactive ''i'')]"

lemma connected_but_inactive:
  "case take_moves late_mark (Running new_hub) of Some (Running s) \<Rightarrow> hb_map s ''i'' = Some 1 \<and> \<not> hb_active s ''i'' | _ \<Rightarrow> False"
  by code_simp

theorem one_subscriber_per_infra_witness:
  "\<exists>s. take_moves late_mark (Running new_hub) = Some (Running s) \<and> hb_map s ''i'' = Some 1 \<and>
     (''i'', 1) \<in> set (holders (hb_tasks s))"
proof -
  obtain s where s: "take_moves late_mark (Running new_hub) = Some (Running s)" "hb_map s ''i'' = Some 1"
    using connected_but_inactive by (auto split: option.splits hub_state.splits)
  then show ?thesis using one_subscriber_per_infra [OF take_moves_reach [OF hub_reach.fresh s(1)]] by blast
qed

section \<open>One-shot answers\<close>

text \<open>
  \<^verbatim>\<open>PodLog\<close>, \<^verbatim>\<open>KubeObj\<close> and \<^verbatim>\<open>KubeNamespace\<close>: the channel of the request gets the answer and is closed;
  its entry stays until the client's context is done. \<open>decode\<close> is the JSON of the answer (\<^const>\<open>Some\<close> itself for a
  log). The map is read without the mutex, which a concurrent write makes a data race.
\<close>

datatype 'a answer_result = Answered "'a" | AnswerError | AnswerCrash

record listeners = ls_map :: "string \<rightharpoonup> nat"  ls_closed :: "nat \<Rightarrow> bool"  ls_got :: "nat \<Rightarrow> string list"

definition answer ::
  "string \<Rightarrow> string \<Rightarrow> bool \<Rightarrow> (string \<Rightarrow> string option) \<Rightarrow> string \<Rightarrow> string \<Rightarrow> listeners \<Rightarrow> string answer_result \<times> listeners" where
  "answer sent cancelled verified decode request data s =
     (if \<not> verified then (AnswerError, s)
      else (case ls_map s request of None \<Rightarrow> (Answered cancelled, s)
        | Some c \<Rightarrow> (case decode data of None \<Rightarrow> (AnswerError, s)
            | Some d \<Rightarrow> if ls_closed s c then (AnswerCrash, s)
                else (Answered sent, s\<lparr>ls_got := (ls_got s)(c := ls_got s c @ [d]), ls_closed := (ls_closed s)(c := True)\<rparr>))))"

definition PodLog :: "bool \<Rightarrow> string \<Rightarrow> string \<Rightarrow> listeners \<Rightarrow> string answer_result \<times> listeners" where
  "PodLog verified = answer ''LOGS SENT SUCCESSFULLY'' ''LOG REQUEST CANCELLED'' verified Some"

definition KubeObj :: "bool \<Rightarrow> (string \<Rightarrow> string option) \<Rightarrow> string \<Rightarrow> string \<Rightarrow> listeners \<Rightarrow> string answer_result \<times> listeners" where
  "KubeObj = answer ''KubeData sent successfully'' ''KubeData sent successfully''"

definition KubeNamespace :: "bool \<Rightarrow> (string \<Rightarrow> string option) \<Rightarrow> string \<Rightarrow> string \<Rightarrow> listeners \<Rightarrow> string answer_result \<times> listeners" where
  "KubeNamespace = answer ''KubeData sent successfully'' ''KubeData sent successfully''"

definition listen :: "string \<Rightarrow> nat \<Rightarrow> listeners \<Rightarrow> listeners" where
  "listen request c s = s\<lparr>ls_map := (ls_map s)(request \<mapsto> c)\<rparr>"

definition unlisten :: "string \<Rightarrow> listeners \<Rightarrow> listeners" where
  "unlisten request s = s\<lparr>ls_map := (ls_map s)(request := None)\<rparr>"

lemma answer_once:
  assumes "ls_map s r = Some c" "\<not> ls_closed s c" "decode d = Some v" "decode d' = Some v'"
  shows "fst (answer sent cancelled True decode r d s) = Answered sent"
    "fst (answer sent cancelled True decode r d' (snd (answer sent cancelled True decode r d s))) = AnswerCrash"
  using assms by (simp_all add: answer_def)

text \<open>A request whose client has gone has no channel; nothing is sent.\<close>

lemma unlisten_cancels: "fst (answer sent cancelled True decode r d (unlisten r s)) = Answered cancelled"
  by (simp add: answer_def unlisten_def)

section \<open>Events\<close>

text \<open>
  \<^verbatim>\<open>SendInfraEvent\<close> sends to every observer of the project under the mutex: with a full channel (capacity one)
  it waits there. Observers are added and never removed. \<open>publish\<close> gives the channels after the event, and
  \<^const>\<open>None\<close> when it blocks with the mutex held.
\<close>

fun publish :: "string \<Rightarrow> string list list \<Rightarrow> string list list option" where
  "publish e [] = Some []"
| "publish e (b # bs) = (if b = [] then map_option ((#) [e]) (publish e bs) else None)"

lemma publish_blocks: "publish e bs = None \<longleftrightarrow> (\<exists>b \<in> set bs. b \<noteq> [])"
  by (induction bs) auto

lemma second_event_blocks: "publish e bs = Some bs' \<Longrightarrow> bs \<noteq> [] \<Longrightarrow> publish e' bs' = None"
  by (cases bs) (auto split: if_splits)

end
