(* ===== verification/Model_Provider.thy ===== *)
theory Model_Provider
  imports Chart_Config
begin

text \<open>
  What a project may register as a model (\<^verbatim>\<open>graphql/server/pkg/model_config/provider.go\<close>) and the models the
  platform itself offers (\<^verbatim>\<open>platform.go\<close>). Texts are ASCII; \<^verbatim>\<open>url.Parse\<close> is a parameter that gives the scheme,
  the host and whether there are credentials. An error is \<open>ErrInvalidModel\<close> with its reason.
\<close>

section \<open>Providers\<close>

record providerRule =
  pr_label :: string
  pr_prefixes :: "string list"
  pr_defaultAPIBase :: string
  pr_needsVersion :: bool
  pr_needsKey :: bool

definition providerRules :: "(string \<times> providerRule) list" where
  "providerRules =
    [(''AZURE_OPENAI'', \<lparr>pr_label = ''Azure OpenAI'', pr_prefixes = [''azure/''], pr_defaultAPIBase = [], pr_needsVersion = True, pr_needsKey = True\<rparr>),
     (''OPENAI'', \<lparr>pr_label = ''OpenAI'', pr_prefixes = [''openai/''], pr_defaultAPIBase = ''https://api.openai.com/v1'',
        pr_needsVersion = False, pr_needsKey = True\<rparr>),
     (''GEMINI'', \<lparr>pr_label = ''Gemini'', pr_prefixes = [''gemini/''], pr_defaultAPIBase = ''https://generativelanguage.googleapis.com/v1beta'',
        pr_needsVersion = False, pr_needsKey = True\<rparr>),
     (''OPENROUTER'', \<lparr>pr_label = ''OpenRouter'', pr_prefixes = [''openrouter/''], pr_defaultAPIBase = ''https://openrouter.ai/api/v1'',
        pr_needsVersion = False, pr_needsKey = True\<rparr>),
     (''OLLAMA'', \<lparr>pr_label = ''Ollama'', pr_prefixes = [''ollama_chat/'', ''ollama/''], pr_defaultAPIBase = [], pr_needsVersion = False, pr_needsKey = False\<rparr>),
     (''OPENAI_COMPATIBLE'', \<lparr>pr_label = ''OpenAI-compatible'', pr_prefixes = [''openai/''], pr_defaultAPIBase = [], pr_needsVersion = False, pr_needsKey = False\<rparr>)]"

definition noKeyPlaceholder :: string where "noKeyPlaceholder = ''ace-no-key''"

datatype invalid_model =
    UnknownProvider string
  | SecretReference string
  | ModelRequired
  | ModelCharacters string
  | NeedsAPIBase string
  | APIBaseForm
  | APIBaseCredentials
  | NeedsVersion string
  | NeedsKeyOf string
  | KeyMalformed
  | AliasForm string
  | LabelLength
  | ConnectionRequired

section \<open>Patterns\<close>

definition is_lower :: "char \<Rightarrow> bool" where
  "is_lower c = (of_char c \<ge> (97::nat) \<and> of_char c \<le> (122::nat))"

definition is_upper :: "char \<Rightarrow> bool" where
  "is_upper c = (of_char c \<ge> (65::nat) \<and> of_char c \<le> (90::nat))"

definition is_control :: "char \<Rightarrow> bool" where
  "is_control c = (of_char c < (32::nat) \<or> of_char c = (127::nat))"

definition aliasPattern :: "string \<Rightarrow> bool" where
  "aliasPattern s = (case s of [] \<Rightarrow> False
     | c # cs \<Rightarrow> (is_lower c \<or> is_digit c) \<and> 1 \<le> length cs \<and> length cs \<le> 62 \<and>
         list_all (\<lambda>c. is_lower c \<or> is_digit c \<or> c \<in> set ''._-'') cs)"

definition modelPattern :: "string \<Rightarrow> bool" where
  "modelPattern s = (case s of [] \<Rightarrow> False
     | c # cs \<Rightarrow> (is_lower c \<or> is_upper c \<or> is_digit c) \<and> length cs \<le> 199 \<and>
         list_all (\<lambda>c. is_lower c \<or> is_upper c \<or> is_digit c \<or> c \<in> set ''._:/@+-'') cs)"

definition versionPattern :: "string \<Rightarrow> bool" where
  "versionPattern s = (1 \<le> length s \<and> length s \<le> 40 \<and>
     list_all (\<lambda>c. is_lower c \<or> is_upper c \<or> is_digit c \<or> c \<in> set ''._-'') s)"

section \<open>Connections\<close>

record ModelConnectionInput =
  mi_Provider :: string
  mi_Model :: string
  mi_APIBase :: "string option"
  mi_APIVersion :: "string option"
  mi_APIKey :: "string option"

record connection =
  cn_provider :: string
  cn_model :: string
  cn_apiBase :: string
  cn_apiVersion :: string
  cn_apiKey :: string

definition valueOf :: "string option \<Rightarrow> string" where
  "valueOf v = (case v of None \<Rightarrow> [] | Some s \<Rightarrow> s)"

definition isSecretReference :: "string \<Rightarrow> bool" where
  "isSecretReference value =
     (let lower = ToLower (TrimSpace value) in Contains lower ''os.environ/'' \<or> HasPrefix lower ''oidc/'')"

definition known_prefix :: "string list \<Rightarrow> string \<Rightarrow> string option" where
  "known_prefix ps s = find (HasPrefix s) ps"

definition normalizeModel :: "providerRule \<Rightarrow> string \<Rightarrow> invalid_model + string" where
  "normalizeModel rule raw =
     (let name = TrimSpace raw in
      if name = [] then Inl ModelRequired
      else (let (p, name) = (case known_prefix (pr_prefixes rule) name of Some p \<Rightarrow> (p, name)
              | None \<Rightarrow> (hd (pr_prefixes rule), hd (pr_prefixes rule) @ name))
        in if name = p \<or> \<not> modelPattern name then Inl (ModelCharacters raw) else Inr name))"

definition normalizeAPIBase :: "(string \<Rightarrow> (string \<times> string \<times> bool) option) \<Rightarrow> providerRule \<Rightarrow> string \<Rightarrow> invalid_model + string" where
  "normalizeAPIBase parse_url rule raw =
     (let base = (if TrimSpace raw = [] then pr_defaultAPIBase rule else TrimSpace raw) in
      if base = [] then Inl (NeedsAPIBase (pr_label rule))
      else (case parse_url base of None \<Rightarrow> Inl APIBaseForm
        | Some (scheme, host, user) \<Rightarrow>
            if (scheme \<noteq> ''http'' \<and> scheme \<noteq> ''https'') \<or> host = [] then Inl APIBaseForm
            else if user then Inl APIBaseCredentials else Inr base))"

definition normalizeKey :: "string \<Rightarrow> string \<Rightarrow> invalid_model + string" where
  "normalizeKey provider raw =
     (let rule = map_of providerRules provider; apiKey = TrimSpace raw in
      if apiKey = []
      then (case rule of Some r \<Rightarrow> if pr_needsKey r then Inl (NeedsKeyOf (pr_label r)) else Inr [] | None \<Rightarrow> Inr [])
      else if isSecretReference apiKey then Inl (SecretReference ''API key'')
      else if length apiKey > 4096 \<or> list_ex (\<lambda>c. is_space c \<or> is_control c) apiKey then Inl KeyMalformed
      else Inr apiKey)"

definition connection_fields :: "ModelConnectionInput \<Rightarrow> (string \<times> string) list" where
  "connection_fields i = [(''model'', mi_Model i), (''API base'', valueOf (mi_APIBase i)), (''API version'', valueOf (mi_APIVersion i)),
     (''API key'', valueOf (mi_APIKey i))]"

definition normalizeConnection ::
  "(string \<Rightarrow> (string \<times> string \<times> bool) option) \<Rightarrow> ModelConnectionInput \<Rightarrow> invalid_model + connection" where
  "normalizeConnection parse_url i = (case map_of providerRules (mi_Provider i) of
     None \<Rightarrow> Inl (UnknownProvider (mi_Provider i))
   | Some rule \<Rightarrow>
      (case find (\<lambda>(name, v). isSecretReference v) (connection_fields i) of Some (name, v) \<Rightarrow> Inl (SecretReference name)
       | None \<Rightarrow>
        (case normalizeModel rule (mi_Model i) of Inl e \<Rightarrow> Inl e
         | Inr name \<Rightarrow> (case normalizeAPIBase parse_url rule (valueOf (mi_APIBase i)) of Inl e \<Rightarrow> Inl e
           | Inr base \<Rightarrow>
              (let version = (if pr_needsVersion rule then TrimSpace (valueOf (mi_APIVersion i)) else []) in
               if pr_needsVersion rule \<and> \<not> versionPattern version then Inl (NeedsVersion (pr_label rule))
               else (case normalizeKey (mi_Provider i) (valueOf (mi_APIKey i)) of Inl e \<Rightarrow> Inl e
                 | Inr key \<Rightarrow> Inr \<lparr>cn_provider = mi_Provider i, cn_model = name, cn_apiBase = base, cn_apiVersion = version,
                     cn_apiKey = key\<rparr>))))))"

definition keyToSend :: "string \<Rightarrow> string" where
  "keyToSend apiKey = (if apiKey = [] then noKeyPlaceholder else apiKey)"

definition normalizeAlias :: "string \<Rightarrow> invalid_model + string" where
  "normalizeAlias raw = (if aliasPattern (TrimSpace raw) then Inr (TrimSpace raw) else Inl (AliasForm raw))"

definition maxLabelLength :: nat where "maxLabelLength = 100"

definition normalizeLabel :: "string \<Rightarrow> string \<Rightarrow> invalid_model + string" where
  "normalizeLabel raw alias =
     (let label = TrimSpace raw in
      if label = [] then Inr alias else if length label > maxLabelLength then Inl LabelLength else Inr label)"

definition keyHint :: "string \<Rightarrow> string" where
  "keyHint apiKey = (if apiKey = [] then [] else if length apiKey < 12 then ''****'' else ''****'' @ drop (length apiKey - 4) apiKey)"

definition providerLabel :: "string \<Rightarrow> string" where
  "providerLabel provider = (case map_of providerRules provider of Some r \<Rightarrow> pr_label r | None \<Rightarrow> provider)"

section \<open>Models of the platform\<close>

record AgentModelOption = mo_Alias :: string  mo_Label :: string  mo_Provider :: string  mo_IsDefault :: bool

fun add_models :: "string \<Rightarrow> (string \<times> string \<times> string) list \<Rightarrow> AgentModelOption list \<Rightarrow> AgentModelOption list" where
  "add_models defaultAlias [] models = models"
| "add_models defaultAlias ((raw, label, provider) # rest) models =
     (let alias = TrimSpace raw in
      if alias = [] \<or> alias \<in> set (map mo_Alias models) then add_models defaultAlias rest models
      else add_models defaultAlias rest
        (models @ [\<lparr>mo_Alias = alias, mo_Label = label, mo_Provider = provider, mo_IsDefault = (alias = defaultAlias)\<rparr>]))"

definition ReplaceColon :: "string \<Rightarrow> string" where
  "ReplaceColon s = ReplaceByte s (CHR '':'') (CHR ''-'')"

definition azure_alias :: "(string \<Rightarrow> string) \<Rightarrow> string" where
  "azure_alias getenv =
     (if TrimSpace (getenv ''AZURE_OPENAI_DEPLOYMENT'') \<noteq> [] then TrimSpace (getenv ''AZURE_OPENAI_DEPLOYMENT'')
      else if TrimSpace (getenv ''AZURE_OPENAI_CHAT_DEPLOYMENT_NAME'') \<noteq> [] then TrimSpace (getenv ''AZURE_OPENAI_CHAT_DEPLOYMENT_NAME'')
      else ''gpt-4o'')"

definition platform_candidates :: "(string \<Rightarrow> string) \<Rightarrow> (string \<times> string \<times> string) list" where
  "platform_candidates getenv =
     (let set_to = (\<lambda>k. TrimSpace (getenv k) \<noteq> []);
          ollama = ReplaceColon (TrimSpace (getenv ''OLLAMA_MODEL''));
          azure = azure_alias getenv
      in (if set_to ''OLLAMA_MODEL'' then [(ollama, ollama @ '' (Ollama)'', ''Ollama'')] else []) @
         (if set_to ''AZURE_OPENAI_KEY'' \<or> set_to ''AZURE_OPENAI_API_KEY'' then [(azure, azure @ '' (Azure OpenAI)'', ''Azure OpenAI'')] else []) @
         (if set_to ''GEMINI_API_KEY''
          then [(''gemini-3-flash'', ''gemini-3-flash (Gemini)'', ''Gemini''), (''gemini-2.5-flash'', ''gemini-2.5-flash (Gemini)'', ''Gemini''),
                (''gemini-2.5-flash-lite'', ''gemini-2.5-flash-lite (Gemini)'', ''Gemini'')] else []) @
         (if set_to ''OPENROUTER_API_KEY'' then [(''auto-free'', ''auto-free (OpenRouter)'', ''OpenRouter'')] else []))"

definition PlatformModelOptions :: "(string \<Rightarrow> string) \<Rightarrow> AgentModelOption list" where
  "PlatformModelOptions getenv =
     (let defaultAlias = DefaultAgentModelAlias getenv; models = add_models defaultAlias (platform_candidates getenv) []
      in if models = [] \<and> defaultAlias \<noteq> []
         then add_models defaultAlias [(defaultAlias, defaultAlias @ '' (configured default)'', ''Configured'')] models else models)"

definition isPlatformAlias :: "(string \<Rightarrow> string) \<Rightarrow> string \<Rightarrow> bool" where
  "isPlatformAlias getenv alias =
     (alias = DefaultAgentModelAlias getenv \<or> list_ex (\<lambda>m. mo_Alias m = alias) (PlatformModelOptions getenv))"

section \<open>What an accepted connection is\<close>

lemma add_models_distinct: "distinct (map mo_Alias models) \<Longrightarrow> distinct (map mo_Alias (add_models d cs models))"
  by (induction d cs models rule: add_models.induct) (simp_all add: Let_def)

lemma platform_aliases_distinct: "distinct (map mo_Alias (PlatformModelOptions getenv))"
  by (simp add: PlatformModelOptions_def Let_def add_models_distinct del: add_models.simps)

lemma keyHint_length: "length (keyHint k) \<le> 8"
  by (simp add: keyHint_def)

text \<open>The hint of a key depends on nothing but its last four characters and whether it is short.\<close>

lemma keyHint_reveals:
  "k \<noteq> [] \<Longrightarrow> k' \<noteq> [] \<Longrightarrow> (length k < 12) = (length k' < 12) \<Longrightarrow> drop (length k - 4) k = drop (length k' - 4) k' \<Longrightarrow>
   keyHint k = keyHint k'"
  by (simp add: keyHint_def)

lemma lower_slash: "to_lower_char c = CHR ''/'' \<Longrightarrow> c = CHR ''/''"
proof -
  assume a: "to_lower_char c = CHR ''/''"
  show ?thesis
  proof (rule ccontr)
    assume n: "c \<noteq> CHR ''/''"
    then have r: "of_char c \<ge> (65::nat)" "of_char c \<le> (90::nat)" "char_of (of_char c + (32::nat)) = CHR ''/''"
      using a by (auto simp: to_lower_char_def split: if_splits)
    then have "of_char (char_of (of_char c + (32::nat)) :: char) = (47::nat)" by simp
    then show False using r(1,2) by simp
  qed
qed

text \<open>A text that ends with a slash cannot lend its end to a pattern whose only slash is its last character.\<close>

lemma Contains_across_slash:
  assumes "Contains (p @ [CHR ''/''] @ m) (q @ [CHR ''/''])" "CHR ''/'' \<notin> set q"
  shows "Contains (p @ [CHR ''/'']) (q @ [CHR ''/'']) \<or> Contains m (q @ [CHR ''/''])"
proof -
  obtain a b where "p @ [CHR ''/''] @ m = a @ (q @ [CHR ''/'']) @ b"
    using assms(1) by (auto simp: Contains_sublist sublist_def)
  then obtain us where "(p @ [CHR ''/''] = a @ us \<and> us @ m = q @ [CHR ''/''] @ b) \<or> (p @ [CHR ''/''] @ us = a \<and> m = us @ (q @ [CHR ''/'']) @ b)"
    using append_eq_append_conv2 [of "p @ [CHR ''/'']" m a "q @ [CHR ''/''] @ b"] by auto
  then show ?thesis
  proof
    assume us: "p @ [CHR ''/''] = a @ us \<and> us @ m = q @ [CHR ''/''] @ b"
    show ?thesis
    proof (cases "length us \<le> length q")
      case True
      then have "us = take (length us) q" using us by (metis append_eq_append_conv_if)
      then have "CHR ''/'' \<notin> set us" using assms(2) by (metis in_set_takeD)
      then have "us = []" using us by (metis last_appendR last_in_set last_snoc)
      then show ?thesis using us by (metis Contains_sublist append_Nil append_assoc sublist_appendI)
    next
      case False
      then have "prefix (q @ [CHR ''/'']) us" using us
        by (metis Suc_leI append_assoc length_append_singleton linorder_not_le prefixI prefix_length_prefix)
      then show ?thesis using us by (metis Contains_sublist prefix_imp_sublist sublist_append_leftI sublist_order.order_trans)
    qed
  next
    assume "p @ [CHR ''/''] @ us = a \<and> m = us @ (q @ [CHR ''/'']) @ b"
    then show ?thesis unfolding Contains_sublist by (metis sublist_appendI)
  qed
qed

lemma not_space_trims: "list_all (\<lambda>c. \<not> is_space c) s \<Longrightarrow> TrimSpace s = s"
  by (rule TrimSpace_id) (auto simp: trimmed_def list_all_iff)

lemma space_in_no_pattern:
  "is_space c \<Longrightarrow> \<not> is_lower c \<and> \<not> is_upper c \<and> \<not> is_digit c \<and> c \<notin> set ''._:/@+-''"
  by (auto simp: is_lower_def is_upper_def is_digit_def is_space_def)

lemma modelPattern_trims:
  assumes "modelPattern s"
  shows "TrimSpace s = s"
proof (rule not_space_trims)
  have "list_all (\<lambda>c. is_lower c \<or> is_upper c \<or> is_digit c \<or> c \<in> set ''._:/@+-'') s"
    using assms unfolding modelPattern_def by (cases s) auto
  then show "list_all (\<lambda>c. \<not> is_space c) s" using space_in_no_pattern unfolding list_all_iff by blast
qed

lemma first_prefixes:
  "map_of providerRules pv = Some rule \<Longrightarrow>
   hd (pr_prefixes rule) \<in> set [''azure/'', ''openai/'', ''gemini/'', ''openrouter/'', ''ollama_chat/'']"
  by (auto simp: providerRules_def split: if_splits)

lemma prefix_is_no_reference:
  assumes "p \<in> set [''azure/'', ''openai/'', ''gemini/'', ''openrouter/'', ''ollama_chat/'']"
  shows "\<not> Contains (ToLower p) ''os.environ/''" "\<not> HasPrefix (ToLower p @ m) ''oidc/''" "ToLower p = p" "\<exists>q. p = q @ ''/''"
proof -
  have "list_all (\<lambda>p. \<not> Contains (ToLower p) ''os.environ/'' \<and> ToLower p = p \<and> last p = CHR ''/'' \<and>
      take 2 p \<noteq> ''oi'' \<and> 2 \<le> length p) [''azure/'', ''openai/'', ''gemini/'', ''openrouter/'', ''ollama_chat/'']" by code_simp
  then have *: "\<not> Contains (ToLower p) ''os.environ/'' \<and> ToLower p = p \<and> last p = CHR ''/'' \<and> take 2 p \<noteq> ''oi'' \<and> 2 \<le> length p"
    using assms unfolding list_all_iff by blast
  then show "\<not> Contains (ToLower p) ''os.environ/''" "ToLower p = p" by blast+
  show "\<exists>q. p = q @ ''/''" using * by (metis append_butlast_last_id length_0_conv not_numeral_le_zero)
  show "\<not> HasPrefix (ToLower p @ m) ''oidc/''"
  proof
    assume "HasPrefix (ToLower p @ m) ''oidc/''"
    then have "prefix ''oidc/'' (p @ m)" using * by (simp add: HasPrefix_prefix del: append_Cons)
    then obtain r where "p @ m = ''oidc/'' @ r" by (auto simp: prefix_def)
    then have "take 2 (p @ m) = ''oi''" by simp
    then show False using * by simp
  qed
qed

lemma normalizeModel_no_reference:
  assumes "map_of providerRules pv = Some rule" "normalizeModel rule raw = Inr name" "\<not> isSecretReference raw"
  shows "\<not> isSecretReference name"
proof -
  let ?m = "TrimSpace raw" and ?p = "hd (pr_prefixes rule)"
  have name: "name = ?m \<or> name = ?p @ ?m" and pat: "modelPattern name"
    using assms(2) by (auto simp: normalizeModel_def Let_def split: if_splits option.splits)
  have m: "\<not> Contains (ToLower ?m) ''os.environ/''" using assms(3) by (simp add: isSecretReference_def Let_def)
  from name show ?thesis
  proof
    assume "name = ?m"
    then show ?thesis using assms(3) by (simp add: isSecretReference_def Let_def)
  next
    assume n: "name = ?p @ ?m"
    note p = prefix_is_no_reference [OF first_prefixes [OF assms(1)]]
    obtain q where q: "?p = q @ ''/''" using p(4) by blast
    have "\<not> Contains (q @ [CHR ''/''] @ ToLower ?m) (''os.environ'' @ [CHR ''/''])"
      using Contains_across_slash [of q "ToLower ?m" "''os.environ''"] m p(1,3) q by auto
    then have "\<not> Contains (ToLower name) ''os.environ/''" using n q p(3) by (simp add: ToLower_def)
    then show ?thesis using modelPattern_trims [OF pat] p(2) n
      by (simp add: isSecretReference_def Let_def ToLower_def)
  qed
qed

lemma normalizeKey_ok:
  assumes "normalizeKey pv raw = Inr key"
  shows "\<not> isSecretReference key" "list_all (\<lambda>c. \<not> is_space c \<and> \<not> is_control c) key" "length key \<le> 4096"
    "key = [] \<Longrightarrow> map_of providerRules pv = Some r \<Longrightarrow> \<not> pr_needsKey r"
proof -
  have "isSecretReference [] = False" by code_simp
  then show "\<not> isSecretReference key" using assms
    by (auto simp: normalizeKey_def Let_def split: if_splits option.splits)
qed (use assms in \<open>auto simp: normalizeKey_def Let_def list_all_iff list_ex_iff split: if_splits option.splits\<close>)

lemma keyToSend_not_blank: "list_all (\<lambda>c. \<not> is_space c \<and> \<not> is_control c) key \<Longrightarrow> TrimSpace (keyToSend key) \<noteq> []"
proof (cases "key = []")
  case True
  have "TrimSpace noKeyPlaceholder \<noteq> []" by code_simp
  then show ?thesis using True by (simp add: keyToSend_def)
next
  case False
  assume "list_all (\<lambda>c. \<not> is_space c \<and> \<not> is_control c) key"
  then have "TrimSpace key = key" by (intro not_space_trims) (simp add: list_all_iff)
  then show ?thesis using False by (simp add: keyToSend_def)
qed

lemma default_base_no_reference:
  assumes "map_of providerRules pv = Some rule"
  shows "\<not> isSecretReference (pr_defaultAPIBase rule)"
proof -
  have "list_all (\<lambda>(name, r). \<not> isSecretReference (pr_defaultAPIBase r)) providerRules" by code_simp
  then show ?thesis using map_of_SomeD [OF assms] by (auto simp: list_all_iff)
qed

lemma reference_trim [simp]: "isSecretReference (TrimSpace s) = isSecretReference s"
  by (simp add: isSecretReference_def)

lemma normalizeConnection_Inr:
  assumes "normalizeConnection parse_url i = Inr c"
  obtains rule where "map_of providerRules (mi_Provider i) = Some rule"
    "find (\<lambda>(name, v). isSecretReference v) (connection_fields i) = None" "normalizeModel rule (mi_Model i) = Inr (cn_model c)"
    "normalizeAPIBase parse_url rule (valueOf (mi_APIBase i)) = Inr (cn_apiBase c)"
    "cn_apiVersion c = (if pr_needsVersion rule then TrimSpace (valueOf (mi_APIVersion i)) else [])"
    "pr_needsVersion rule \<longrightarrow> versionPattern (cn_apiVersion c)"
    "normalizeKey (mi_Provider i) (valueOf (mi_APIKey i)) = Inr (cn_apiKey c)" "cn_provider c = mi_Provider i"
  using assms by (auto simp: normalizeConnection_def Let_def split: option.splits sum.splits if_splits)

lemma endpoint_checked:
  assumes "(if b = [] then Inl e else (case parse_url b of None \<Rightarrow> Inl APIBaseForm
      | Some (scheme, host, user) \<Rightarrow> if (scheme \<noteq> ''http'' \<and> scheme \<noteq> ''https'') \<or> host = [] then Inl APIBaseForm
          else if user then Inl APIBaseCredentials else Inr b)) = Inr base"
  shows "base = b \<and> (\<exists>scheme host. parse_url b = Some (scheme, host, False) \<and> scheme \<in> {''http'', ''https''} \<and> host \<noteq> [])"
  using assms by (auto split: if_splits option.splits prod.splits)

lemma normalizeAPIBase_Inr:
  assumes "normalizeAPIBase parse_url rule raw = Inr base"
  shows "base = (if TrimSpace raw = [] then pr_defaultAPIBase rule else TrimSpace raw)"
    "\<exists>scheme host. parse_url base = Some (scheme, host, False) \<and> scheme \<in> {''http'', ''https''} \<and> host \<noteq> []"
  using endpoint_checked [where b = "if TrimSpace raw = [] then pr_defaultAPIBase rule else TrimSpace raw" and parse_url = parse_url,
      OF assms [unfolded normalizeAPIBase_def Let_def]] by blast+

text \<open>C31. A connection that is accepted names a known provider and an http or https endpoint without credentials, none
  of its four texts is one LiteLLM would resolve as a reference to a secret of the gateway, its model has the provider's
  prefix or one that is added, and the key sent for it is never blank, whether the provider needs one or not (so that
  the gateway never falls back to a key of its own).\<close>

theorem accepted_connection_safe:
  assumes "normalizeConnection parse_url i = Inr c"
  shows "cn_provider c \<in> set (map fst providerRules) \<and>
    \<not> isSecretReference (cn_model c) \<and> \<not> isSecretReference (cn_apiBase c) \<and> \<not> isSecretReference (cn_apiVersion c) \<and>
    \<not> isSecretReference (cn_apiKey c) \<and> modelPattern (cn_model c) \<and>
    (\<exists>scheme host. parse_url (cn_apiBase c) = Some (scheme, host, False) \<and> scheme \<in> {''http'', ''https''} \<and> host \<noteq> []) \<and>
    TrimSpace (keyToSend (cn_apiKey c)) \<noteq> []"
proof -
  obtain rule where rule: "map_of providerRules (mi_Provider i) = Some rule"
    and refs: "find (\<lambda>(name, v). isSecretReference v) (connection_fields i) = None"
    and model: "normalizeModel rule (mi_Model i) = Inr (cn_model c)"
    and base: "normalizeAPIBase parse_url rule (valueOf (mi_APIBase i)) = Inr (cn_apiBase c)"
    and version: "cn_apiVersion c = (if pr_needsVersion rule then TrimSpace (valueOf (mi_APIVersion i)) else [])"
    and key: "normalizeKey (mi_Provider i) (valueOf (mi_APIKey i)) = Inr (cn_apiKey c)" "cn_provider c = mi_Provider i"
    by (rule normalizeConnection_Inr [OF assms])
  have r: "\<not> isSecretReference (mi_Model i)" "\<not> isSecretReference (valueOf (mi_APIBase i))"
    "\<not> isSecretReference (valueOf (mi_APIVersion i))" using refs by (auto simp: connection_fields_def split: if_splits)
  have "isSecretReference [] = False" by code_simp
  then have "\<not> isSecretReference (cn_apiVersion c)" using version r(3) by simp
  moreover have "\<not> isSecretReference (cn_apiBase c)"
    using normalizeAPIBase_Inr(1) [OF base] r(2) default_base_no_reference [OF rule] by simp
  moreover have "modelPattern (cn_model c)"
    using model by (auto simp: normalizeModel_def Let_def split: if_splits option.splits)
  moreover have "\<exists>scheme host. parse_url (cn_apiBase c) = Some (scheme, host, False) \<and> scheme \<in> {''http'', ''https''} \<and> host \<noteq> []"
    by (rule normalizeAPIBase_Inr(2) [OF base])
  moreover have "cn_provider c \<in> set (map fst providerRules)"
    using rule key(2) by (metis domI dom_map_of_conv_image_fst list.set_map)
  ultimately show ?thesis
    using normalizeModel_no_reference [OF rule model r(1)] normalizeKey_ok(1,2) [OF key(1)] keyToSend_not_blank by blast
qed

definition demo_url :: "string \<Rightarrow> (string \<times> string \<times> bool) option" where
  "demo_url s = (if HasPrefix s ''https://'' then Some (''https'', drop 8 s, False) else None)"

definition demo_connection :: ModelConnectionInput where
  "demo_connection = \<lparr>mi_Provider = ''OPENAI_COMPATIBLE'', mi_Model = '' llama '', mi_APIBase = Some ''https://vllm'',
     mi_APIVersion = None, mi_APIKey = None\<rparr>"

theorem accepted_connection_safe_witness:
  "\<exists>c. normalizeConnection demo_url demo_connection = Inr c \<and> \<not> isSecretReference (cn_model c) \<and>
     TrimSpace (keyToSend (cn_apiKey c)) \<noteq> []"
proof -
  have "case normalizeConnection demo_url demo_connection of Inl _ \<Rightarrow> False | Inr c \<Rightarrow> cn_model c = ''openai/llama''" by code_simp
  then obtain c where "normalizeConnection demo_url demo_connection = Inr c" by (auto split: sum.splits)
  then show ?thesis using accepted_connection_safe by blast
qed

end
