(* ===== verification/Litellm_Client.thy ===== *)
theory Litellm_Client
  imports Model_Provider
begin

text \<open>
  The client of LiteLLM's admin API (\<^verbatim>\<open>graphql/server/pkg/model_config/litellm_client.go\<close>, \<^verbatim>\<open>errors.go\<close>).
  LiteLLM, with the network to it, is a parameter over a state \<open>'g\<close>: what it answers to a request, or that no
  answer came, and whether that was the deadline. Decoding JSON is a parameter; times are not modelled. Identifiers are
  UUIDs, which URL escaping leaves as they are.
\<close>

section \<open>Requests and answers\<close>

record Deployment =
  dp_ModelID :: string
  dp_Alias :: string
  dp_Model :: string
  dp_APIBase :: string
  dp_APIVersion :: string

definition params :: "Deployment \<Rightarrow> string \<Rightarrow> (string \<times> string) list" where
  "params d apiKey = [(''model'', dp_Model d), (''api_base'', dp_APIBase d), (''api_key'', apiKey)] @
     (if dp_APIVersion d \<noteq> [] then [(''api_version'', dp_APIVersion d)] else [])"

datatype ll_payload =
    NoPayload
  | ModelPayload string "(string \<times> string) list" "string option"
  | IdPayload string
  | TestPayload "(string \<times> string) list"

record RemoteModel = rm_Alias :: string  rm_ModelID :: string  rm_DBModel :: bool

record TestResult = tr_OK :: bool  tr_Error :: string

datatype gw_error =
    RegistryUnavailable
  | Unauthorized
  | GwNotFound string
  | Rejected string
  | Unreachable string

fun is_unreachable :: "gw_error \<Rightarrow> bool" where
  "is_unreachable (Unreachable m) = True" | "is_unreachable e = False"

fun is_not_found :: "gw_error \<Rightarrow> bool" where
  "is_not_found (GwNotFound m) = True" | "is_not_found e = False"

text \<open>LiteLLM's error shapes: a text (or null), an object with a message or an error, anything else.\<close>

datatype raw_message = RawText string | RawObject "raw_message option" "raw_message option" | RawOther

record answer_body =
  ab_error :: "raw_message option"
  ab_detail :: "raw_message option"

record 'g litellm =
  ll_do :: "string \<Rightarrow> string \<Rightarrow> ll_payload \<Rightarrow> 'g \<Rightarrow> ((bool \<times> string) + nat \<times> string) \<times> 'g"
  ll_masterKey :: string
  ll_cancelled :: "'g \<Rightarrow> bool"
  ll_body :: "string \<Rightarrow> answer_body option"
  ll_models :: "string \<Rightarrow> RemoteModel list option"
  ll_db :: "string \<Rightarrow> string option"
  ll_test :: "string \<Rightarrow> (string \<times> raw_message option) option"
  ll_health :: "string \<Rightarrow> (int \<times> int \<times> raw_message option list) option"

section \<open>Messages\<close>

fun rawMessage :: "raw_message \<Rightarrow> string" where
  "rawMessage (RawText t) = t"
| "rawMessage (RawObject m e) =
     (let text = (case m of None \<Rightarrow> [] | Some r \<Rightarrow> rawMessage r) in
      if text \<noteq> [] then text else (case e of None \<Rightarrow> [] | Some r \<Rightarrow> rawMessage r))"
| "rawMessage RawOther = []"

definition raw_text :: "raw_message option \<Rightarrow> string" where
  "raw_text r = (case r of None \<Rightarrow> [] | Some m \<Rightarrow> rawMessage m)"

text \<open>\<^verbatim>\<open>{'error': "..."}\<close> and \<^verbatim>\<open>{'message': '...'}\<close>: the text between the first and the last quote.\<close>

definition is_quote :: "char \<Rightarrow> bool" where
  "is_quote c = (c = CHR 0x27 \<or> c = CHR 0x22)"

definition python_head :: "string \<Rightarrow> string" where
  "python_head word = ''{'' @ [CHR 0x27] @ word @ [CHR 0x27] @ '': ''"

definition python_inner :: "string \<Rightarrow> string option" where
  "python_inner s =
     (if 3 \<le> length s \<and> is_quote (hd s) \<and> last s = CHR ''}'' \<and> is_quote (last (butlast s)) \<and> CHR 0x0A \<notin> set s
      then Some (butlast (butlast (tl s))) else None)"

definition pythonDictMessage :: "string \<Rightarrow> string option" where
  "pythonDictMessage s =
     (if HasPrefix s (python_head ''error'') then python_inner (drop (length (python_head ''error'')) s)
      else if HasPrefix s (python_head ''message'') then python_inner (drop (length (python_head ''message'')) s) else None)"

definition responseMessage :: "'g litellm \<Rightarrow> string \<Rightarrow> string" where
  "responseMessage L body =
     (let message = (case ll_body L body of None \<Rightarrow> TrimSpace body
        | Some p \<Rightarrow> if raw_text (ab_error p) \<noteq> [] then raw_text (ab_error p)
            else if raw_text (ab_detail p) \<noteq> [] then raw_text (ab_detail p) else TrimSpace body)
      in case pythonDictMessage message of None \<Rightarrow> message | Some inner \<Rightarrow> inner)"

fun before :: "string \<Rightarrow> string \<Rightarrow> string" where
  "before [] sep = []"
| "before (c # s) sep = (if HasPrefix (c # s) sep then [] else c # before s sep)"

definition redact :: "string \<Rightarrow> string \<Rightarrow> string" where
  "redact secret message = (if 4 \<le> length secret then ReplaceAll message secret ''****'' else message)"

definition maxErrorLength :: nat where "maxErrorLength = 500"

definition truncated :: "string \<Rightarrow> string" where
  "truncated message = (if length message > maxErrorLength then take maxErrorLength message @ ''...'' else message)"

definition clean :: "string \<Rightarrow> string list \<Rightarrow> string \<Rightarrow> string" where
  "clean masterKey secrets message =
     truncated (TrimSpace (redact masterKey (fold redact secrets (before message ''stack trace:''))))"

definition registryOffMarkers :: "string list" where
  "registryOffMarkers = [''No DB Connected'', ''DB not connected'', ''STORE_MODEL_IN_DB'', ''only supported for DB-stored models'']"

definition notFoundMarkers :: "string list" where
  "notFoundMarkers = [''not found in db'', ''not found on proxy'']"

definition tokenCapRefusals :: "string list" where
  "tokenCapRefusals = [''Unsupported parameter: '' @ [CHR 0x27] @ ''max_tokens'' @ [CHR 0x27], ''max_tokens or model output limit was reached'']"

definition containsAny :: "string \<Rightarrow> string list \<Rightarrow> bool" where
  "containsAny s markers = list_ex (Contains s) markers"

definition classify :: "'g litellm \<Rightarrow> nat \<Rightarrow> string \<Rightarrow> string list \<Rightarrow> gw_error option" where
  "classify L status body secrets =
     (if 200 \<le> status \<and> status < 300 then None
      else (let message = clean (ll_masterKey L) secrets (responseMessage L body) in
        Some (if containsAny message registryOffMarkers then RegistryUnavailable
          else if status = 401 \<or> status = 403 then Unauthorized
          else if containsAny message notFoundMarkers then GwNotFound message
          else if 500 \<le> status \<and> \<not> Contains message ''Failed to add model to db'' then Unreachable message
          else Rejected message)))"

section \<open>Calls\<close>

definition requireKey :: "string \<Rightarrow> gw_error option" where
  "requireKey apiKey = (if TrimSpace apiKey = [] then Some (Rejected ''refusing to send an empty API key'') else None)"

definition ll_write :: "'g litellm \<Rightarrow> string \<Rightarrow> string \<Rightarrow> ll_payload \<Rightarrow> string list \<Rightarrow> 'g \<Rightarrow> gw_error option \<times> 'g" where
  "ll_write L verb path payload secrets g = (case ll_do L verb path payload g of
     (Inl (deadline, m), g') \<Rightarrow> (Some (Unreachable m), g')
   | (Inr (status, body), g') \<Rightarrow> (classify L status body secrets, g'))"

definition AddModel :: "'g litellm \<Rightarrow> Deployment \<Rightarrow> string \<Rightarrow> 'g \<Rightarrow> gw_error option \<times> 'g" where
  "AddModel L d apiKey g = (case requireKey apiKey of Some e \<Rightarrow> (Some e, g)
     | None \<Rightarrow> ll_write L ''POST'' ''/model/new'' (ModelPayload (dp_Alias d) (params d apiKey) (Some (dp_ModelID d))) [apiKey] g)"

definition UpdateModel :: "'g litellm \<Rightarrow> Deployment \<Rightarrow> string \<Rightarrow> 'g \<Rightarrow> gw_error option \<times> 'g" where
  "UpdateModel L d apiKey g = (case requireKey apiKey of Some e \<Rightarrow> (Some e, g)
     | None \<Rightarrow> ll_write L ''PATCH'' (''/model/'' @ dp_ModelID d @ ''/update'') (ModelPayload [] (params d apiKey) None) [apiKey] g)"

definition DeleteModel :: "'g litellm \<Rightarrow> string \<Rightarrow> 'g \<Rightarrow> gw_error option \<times> 'g" where
  "DeleteModel L modelID g = ll_write L ''POST'' ''/model/delete'' (IdPayload modelID) [] g"

text \<open>A read: once more when no answer came and the caller is still there.\<close>

fun ll_read :: "nat \<Rightarrow> 'g litellm \<Rightarrow> string \<Rightarrow> (string \<Rightarrow> 'a option) \<Rightarrow> 'g \<Rightarrow> (gw_error + 'a) \<times> 'g" where
  "ll_read attempts L path decode g = (case ll_do L ''GET'' path NoPayload g of
     (Inr (status, body), g') \<Rightarrow> (case classify L status body [] of
        None \<Rightarrow> (case decode body of None \<Rightarrow> (Inl (Unreachable ''unexpected answer''), g') | Some v \<Rightarrow> (Inr v, g'))
      | Some e \<Rightarrow> (case attempts of 0 \<Rightarrow> (Inl e, g')
          | Suc n \<Rightarrow> if is_unreachable e \<and> \<not> ll_cancelled L g' then ll_read n L path decode g' else (Inl e, g')))
   | (Inl (deadline, m), g') \<Rightarrow> (case attempts of 0 \<Rightarrow> (Inl (Unreachable m), g')
        | Suc n \<Rightarrow> if \<not> ll_cancelled L g' then ll_read n L path decode g' else (Inl (Unreachable m), g')))"

declare ll_read.simps [simp del]

definition ListModels :: "'g litellm \<Rightarrow> 'g \<Rightarrow> (gw_error + RemoteModel list) \<times> 'g" where
  "ListModels L g = ll_read 1 L ''/v1/model/info'' (ll_models L) g"

definition RegistryConnected :: "'g litellm \<Rightarrow> 'g \<Rightarrow> (gw_error + bool) \<times> 'g" where
  "RegistryConnected L g = ll_read 1 L ''/health/readiness'' (\<lambda>b. map_option (\<lambda>db. db = ''connected'') (ll_db L b)) g"

definition timeoutResult :: TestResult where
  "timeoutResult = \<lparr>tr_OK = False,
     tr_Error = ''no answer within 55s: the model may still be loading, or LiteLLM cannot reach its endpoint''\<rparr>"

definition testOutcome :: "'g litellm \<Rightarrow> string \<Rightarrow> string list \<Rightarrow> TestResult" where
  "testOutcome L message secrets =
     (if containsAny message tokenCapRefusals then \<lparr>tr_OK = True, tr_Error = []\<rparr>
      else \<lparr>tr_OK = False, tr_Error = clean (ll_masterKey L) secrets message\<rparr>)"

definition gw_TestConnection :: "'g litellm \<Rightarrow> Deployment \<Rightarrow> string \<Rightarrow> 'g \<Rightarrow> (gw_error + TestResult) \<times> 'g" where
  "gw_TestConnection L d apiKey g = (case requireKey apiKey of Some e \<Rightarrow> (Inl e, g)
     | None \<Rightarrow> (case ll_do L ''POST'' ''/health/test_connection'' (TestPayload (params d apiKey)) g of
         (Inl (deadline, m), g') \<Rightarrow> (if deadline then Inr timeoutResult else Inl (Unreachable m), g')
       | (Inr (status, body), g') \<Rightarrow> (case classify L status body [apiKey] of Some e \<Rightarrow> (Inl e, g')
           | None \<Rightarrow> (case ll_test L body of None \<Rightarrow> (Inl (Unreachable ''unexpected answer to a connection test''), g')
               | Some (outcome, err) \<Rightarrow>
                   (Inr (if outcome = ''success'' then \<lparr>tr_OK = True, tr_Error = []\<rparr> else testOutcome L (raw_text err) [apiKey]), g')))))"

definition gw_HealthCheck :: "'g litellm \<Rightarrow> string \<Rightarrow> 'g \<Rightarrow> (gw_error + TestResult) \<times> 'g" where
  "gw_HealthCheck L modelID g = (case ll_do L ''GET'' (''/health?model_id='' @ modelID) NoPayload g of
     (Inl (deadline, m), g') \<Rightarrow> (if deadline then Inr timeoutResult else Inl (Unreachable m), g')
   | (Inr (status, body), g') \<Rightarrow>
       if status = 404 then (Inl (GwNotFound []), g')
       else (case classify L status body [] of Some e \<Rightarrow> (Inl e, g')
         | None \<Rightarrow> (case ll_health L body of None \<Rightarrow> (Inl (Unreachable ''unexpected answer to a health check''), g')
             | Some (healthy, unhealthy, endpoints) \<Rightarrow>
                 (Inr (if healthy > 0 \<and> unhealthy = 0 then \<lparr>tr_OK = True, tr_Error = []\<rparr>
                   else (case endpoints of e # _ \<Rightarrow> testOutcome L (raw_text e) []
                     | [] \<Rightarrow> \<lparr>tr_OK = False, tr_Error = ''LiteLLM checked no endpoint for this model''\<rparr>)), g'))))"

definition AdminURL :: "string \<Rightarrow> string \<Rightarrow> string" where
  "AdminURL adminURL openAIBaseURL =
     (let slash = (\<lambda>c. c = CHR ''/''); explicit = TrimSpace adminURL in
      if explicit \<noteq> [] then TrimRightP slash explicit
      else (let base = TrimRightP slash (TrimSpace openAIBaseURL) in
        TrimRightP slash (if HasSuffix base ''/v1'' then take (length base - 3) base else base)))"

section \<open>Keys in messages\<close>

definition stars :: string where "stars = ''****''"

lemma stars_set: "set stars = {CHR ''*''}"
  by (simp add: stars_def)

lemma prefix_ReplaceAll:
  "prefix w (ReplaceAll s secret stars) \<Longrightarrow> CHR ''*'' \<notin> set w \<Longrightarrow> prefix w s"
proof (induction w arbitrary: s)
  case (Cons x w)
  show ?case
  proof (cases s)
    case Nil
    then show ?thesis using Cons.prems by simp
  next
    case s: (Cons c t)
    show ?thesis
    proof (cases "secret \<noteq> [] \<and> HasPrefix (c # t) secret")
      case True
      then show ?thesis using Cons.prems s by (simp add: stars_def)
    next
      case False
      then have "ReplaceAll s secret stars = c # ReplaceAll t secret stars" using s by auto
      then show ?thesis using Cons s by simp
    qed
  qed
qed simp

lemma sublist_after_stars:
  assumes "sublist w (stars @ r)" "CHR ''*'' \<notin> set w" "w \<noteq> []"
  shows "sublist w r"
proof -
  have one: "sublist w r" if "sublist w (CHR ''*'' # r)" for r
    using that assms(2,3) by (cases w) (auto simp: sublist_Cons_right)
  then show ?thesis using assms(1) by (simp add: stars_def)
qed

text \<open>Redaction brings in nothing without a star that was not there, and takes its secret out.\<close>

lemma sublist_ReplaceAll:
  "sublist w (ReplaceAll s secret stars) \<Longrightarrow> CHR ''*'' \<notin> set w \<Longrightarrow> sublist w s"
proof (induction s secret stars rule: ReplaceAll.induct)
  case (2 c s secret)
  show ?case
  proof (cases "w = []")
    case False
    show ?thesis
    proof (cases "secret \<noteq> [] \<and> HasPrefix (c # s) secret")
      case True
      then have "sublist w (ReplaceAll (drop (length secret) (c # s)) secret stars)"
        using sublist_after_stars 2(3,4) False by simp
      then show ?thesis using 2(1) [OF True] 2(4) sublist_order.order_trans [OF _ sublist_drop] by blast
    next
      case no: False
      then have r: "ReplaceAll (c # s) secret stars = c # ReplaceAll s secret stars" by auto
      from 2(3) consider (now) "prefix w (c # ReplaceAll s secret stars)" | (later) "sublist w (ReplaceAll s secret stars)"
        unfolding r sublist_Cons_right by blast
      then show ?thesis
      proof cases
        case now
        then have "prefix w (c # s)" using 2(4) prefix_ReplaceAll by (cases w) auto
        then show ?thesis by (rule prefix_imp_sublist)
      next
        case later
        then have "sublist w s" using 2(2) [OF no] 2(4) by blast
        then show ?thesis by (simp add: sublist_Cons_right)
      qed
    qed
  qed simp
qed simp

lemma ReplaceAll_removes:
  "secret \<noteq> [] \<Longrightarrow> CHR ''*'' \<notin> set secret \<Longrightarrow> \<not> sublist secret (ReplaceAll s secret stars)"
proof (induction s secret stars rule: ReplaceAll.induct)
  case (2 c s secret)
  show ?case
  proof (cases "HasPrefix (c # s) secret")
    case True
    then have "\<not> sublist secret (ReplaceAll (drop (length secret) (c # s)) secret stars)" using 2 by blast
    then show ?thesis using sublist_after_stars 2(3,4) True by auto
  next
    case False
    then have "\<not> sublist secret (ReplaceAll s secret stars)" using 2 by blast
    moreover have "\<not> prefix secret (c # ReplaceAll s secret stars)"
    proof
      assume "prefix secret (c # ReplaceAll s secret stars)"
      then have "prefix secret (c # s)" using 2(3,4) prefix_ReplaceAll by (cases secret) auto
      then show False using False by (simp add: HasPrefix_prefix)
    qed
    ultimately show ?thesis using False by (simp add: sublist_Cons_right)
  qed
qed simp

definition maskable :: "string \<Rightarrow> bool" where
  "maskable k = (4 \<le> length k \<and> CHR ''*'' \<notin> set k \<and> last k \<noteq> CHR ''.'')"

lemma redact_keeps: "maskable k \<Longrightarrow> \<not> sublist k s \<Longrightarrow> \<not> sublist k (redact secret s)"
  using sublist_ReplaceAll [of k s secret] by (auto simp: maskable_def redact_def stars_def)

lemma redact_hides: "maskable k \<Longrightarrow> \<not> sublist k (redact k s)"
  using ReplaceAll_removes [of k s] by (cases k) (auto simp: maskable_def redact_def stars_def)

lemma fold_redact_keeps: "maskable k \<Longrightarrow> \<not> sublist k s \<Longrightarrow> \<not> sublist k (fold redact secrets s)"
  by (induction secrets arbitrary: s) (simp_all add: redact_keeps)

lemma fold_redact_hides: "maskable k \<Longrightarrow> k \<in> set secrets \<Longrightarrow> \<not> sublist k (fold redact secrets s)"
  by (induction secrets arbitrary: s) (auto simp: redact_hides fold_redact_keeps)

lemma TrimSpace_sublist: "sublist (TrimSpace s) s"
proof -
  have "prefix (TrimSpace s) (dropWhile is_space s)" by (simp add: TrimSpace_def TrimP_def TrimRightP_prefix)
  then show ?thesis
    using prefix_imp_sublist suffix_imp_sublist [OF suffix_dropWhile] sublist_order.order_trans by blast
qed

lemma sublist_before_last:
  assumes "sublist w (a @ [c])" "w \<noteq> []" "last w \<noteq> c"
  shows "sublist w a"
proof -
  obtain p q where e: "a @ [c] = p @ w @ q" using assms(1) by (auto simp: sublist_def)
  have "q \<noteq> []"
  proof
    assume "q = []"
    then have "last (a @ [c]) = last w" using e assms(2) by simp
    then show False using assms(3) by simp
  qed
  then obtain q' x where q: "q = q' @ [x]" by (cases q rule: rev_cases) auto
  have "a @ [c] = (p @ w @ q') @ [x]" using e q by simp
  then have "a = p @ w @ q'" unfolding append1_eq_conv by simp
  then show ?thesis unfolding sublist_def by blast
qed

lemma truncated_hides: "maskable k \<Longrightarrow> \<not> sublist k s \<Longrightarrow> \<not> sublist k (truncated s)"
proof (rule notI)
  assume k: "maskable k" "\<not> sublist k s" "sublist k (truncated s)"
  have k': "k \<noteq> []" "last k \<noteq> CHR ''.''" using k(1) by (auto simp: maskable_def)
  have "sublist k (take maxErrorLength s)" if "sublist k (((take maxErrorLength s @ ''.'') @ ''.'') @ ''.'')"
    using that k' sublist_before_last by metis
  then have "sublist k s" using k(3) sublist_order.order_trans [OF _ sublist_take]
    by (fastforce simp: truncated_def split: if_splits)
  then show False using k(2) by blast
qed

lemma clean_hides:
  assumes "maskable k" "k \<in> set (masterKey # secrets)"
  shows "\<not> sublist k (clean masterKey secrets message)"
proof -
  let ?m = "fold redact secrets (before message ''stack trace:'')"
  have "\<not> sublist k (redact masterKey ?m)"
    using assms redact_hides redact_keeps fold_redact_hides by (cases "k = masterKey") auto
  then have "\<not> sublist k (TrimSpace (redact masterKey ?m))"
    using TrimSpace_sublist sublist_order.order_trans by blast
  then show ?thesis unfolding clean_def by (rule truncated_hides [OF assms(1)])
qed

lemma clean_length: "length (clean masterKey secrets message) \<le> maxErrorLength + 3"
  by (simp add: clean_def truncated_def)

fun gw_message :: "gw_error \<Rightarrow> string" where
  "gw_message RegistryUnavailable = []"
| "gw_message Unauthorized = []"
| "gw_message (GwNotFound m) = m"
| "gw_message (Rejected m) = m"
| "gw_message (Unreachable m) = m"


definition echo_server :: "unit litellm" where
  "echo_server = \<lparr>ll_do = (\<lambda>verb path payload g. (Inr (400, ''invalid key sk-user-1 for sk-master''), g)), ll_masterKey = ''sk-master'',
     ll_cancelled = (\<lambda>g. False), ll_body = (\<lambda>b. None), ll_models = (\<lambda>b. None), ll_db = (\<lambda>b. None), ll_test = (\<lambda>b. None),
     ll_health = (\<lambda>b. None)\<rparr>"


text \<open>A blank key never leaves the server: nothing is sent.\<close>

lemma blank_key_not_sent:
  "TrimSpace k = [] \<Longrightarrow> snd (AddModel L d k g) = g \<and> fst (AddModel L d k g) \<noteq> None"
  "TrimSpace k = [] \<Longrightarrow> snd (UpdateModel L d k g) = g \<and> fst (UpdateModel L d k g) \<noteq> None"
  by (simp_all add: AddModel_def UpdateModel_def requireKey_def)

text \<open>The database markers are read before the status: a 401 that mentions one counts as a missing database.\<close>

lemma registry_off_before_unauthorized:
  "containsAny (clean (ll_masterKey L) secrets (responseMessage L body)) registryOffMarkers \<Longrightarrow>
   classify L 401 body secrets = Some RegistryUnavailable"
  by (simp add: classify_def Let_def)

end
