(* ===== verification/Model_Registry.thy ===== *)
theory Model_Registry
  imports Litellm_Client Auth_Mongo
begin

text \<open>
  The registry of the models a project registers (\<^verbatim>\<open>graphql/server/pkg/model_config/{service,reconcile,guard}.go\<close>,
  \<^verbatim>\<open>pkg/database/mongodb/model_config\<close>). Each operation is a checked start followed by tasks: what one goroutine
  does between two effects others can see (a write to the collection or a call of LiteLLM). \<open>run_to_end\<close> runs
  the tasks of one operation without interruption; the interleavings are in \<^verbatim>\<open>Registry_Machine\<close>. Only
  logging is left out. The other collections, JSON, the clock (one reading per task) and new identifiers
  are parameters.
\<close>

section \<open>Documents\<close>

datatype sync_status = SyncPending | SyncActive | SyncDeleting | SyncNeedsKey

record ModelConfig =
  mc_ProjectID :: string
  mc_ModelID :: string
  mc_Alias :: string
  mc_Label :: string
  mc_Provider :: string
  mc_Model :: string
  mc_APIBase :: string
  mc_APIVersion :: string
  mc_APIKeyHint :: string
  mc_SyncStatus :: sync_status
  mc_LastError :: string
  mc_CreatedAt :: int
  mc_UpdatedAt :: int
  mc_CreatedBy :: string
  mc_UpdatedBy :: string
  mc_IsRemoved :: bool

record Guard = gu_Statuses :: "sync_status list"  gu_UpdatedAt :: int

record Changes =
  ch_Status :: "sync_status option"
  ch_LastError :: "string option"
  ch_KeyHint :: "string option"
  ch_Removed :: bool
  ch_By :: string

definition no_changes :: Changes where
  "no_changes = \<lparr>ch_Status = None, ch_LastError = None, ch_KeyHint = None, ch_Removed = False, ch_By = []\<rparr>"

definition in_status :: "sync_status list \<Rightarrow> Guard" where
  "in_status statuses = \<lparr>gu_Statuses = statuses, gu_UpdatedAt = 0\<rparr>"

definition guard_filter :: "Guard \<Rightarrow> string \<Rightarrow> ModelConfig \<Rightarrow> bool" where
  "guard_filter gd modelID r =
     (mc_ModelID r = modelID \<and> \<not> mc_IsRemoved r \<and> (gu_Statuses gd = [] \<or> mc_SyncStatus r \<in> set (gu_Statuses gd)) \<and>
      (gu_UpdatedAt gd = 0 \<or> mc_UpdatedAt r = gu_UpdatedAt gd))"

definition apply_changes :: "int \<Rightarrow> Changes \<Rightarrow> ModelConfig \<Rightarrow> ModelConfig" where
  "apply_changes now c r = r\<lparr>mc_UpdatedAt := now,
     mc_SyncStatus := (case ch_Status c of None \<Rightarrow> mc_SyncStatus r | Some s \<Rightarrow> s),
     mc_LastError := (case ch_LastError c of None \<Rightarrow> mc_LastError r | Some e \<Rightarrow> e),
     mc_APIKeyHint := (case ch_KeyHint c of None \<Rightarrow> mc_APIKeyHint r | Some h \<Rightarrow> h),
     mc_IsRemoved := (ch_Removed c \<or> mc_IsRemoved r),
     mc_UpdatedBy := (if ch_By c = [] then mc_UpdatedBy r else ch_By c)\<rparr>"

definition model_clash :: "ModelConfig \<Rightarrow> ModelConfig \<Rightarrow> bool" where
  "model_clash a b = (mc_Alias a = mc_Alias b \<or> mc_ModelID a = mc_ModelID b)"

section \<open>Environment and state\<close>

record experiment_row =
  xr_id :: string
  xr_name :: string
  xr_revisions :: "(int \<times> string) list"

text \<open>
  \<open>ry_runs\<close> gives the experiments of the project's runs in flight, \<open>ry_experiments\<close> those of them and the enabled
  cron experiments; \<open>ry_suspended\<close> and \<open>ry_aliases\<close> read a manifest.
\<close>

record 'g model_env =
  ry_db :: "ModelConfig coll"
  ry_lite :: "'g litellm"
  ry_now :: int
  ry_uuid :: string
  ry_getenv :: "string \<Rightarrow> string"
  ry_parse_url :: "string \<Rightarrow> (string \<times> string \<times> bool) option"
  ry_runs :: "string \<Rightarrow> go_error + string list"
  ry_experiments :: "string \<Rightarrow> string list \<Rightarrow> go_error + experiment_row list"
  ry_suspended :: "string \<Rightarrow> bool"
  ry_aliases :: "string \<Rightarrow> string list"

record 'g model_world = mw_rows :: "ModelConfig list"  mw_gw :: 'g

datatype mreg_error =
    InvalidModel invalid_model
  | AliasTaken string
  | ModelNotFound
  | ModelInUse "string list"
  | ModelBusy
  | ModelUnavailable string string
  | AliasUnchecked string go_error
  | PendingConfirmation
  | GatewayError gw_error
  | StoreError go_error

section \<open>The collection\<close>

definition store_Get :: "'g model_env \<Rightarrow> string \<Rightarrow> ModelConfig list \<Rightarrow> go_error + ModelConfig option" where
  "store_Get E modelID s = (case FindOne (ry_db E) (\<lambda>r. mc_ModelID r = modelID \<and> \<not> mc_IsRemoved r) s of
     Inl NoDocuments \<Rightarrow> Inr None | Inl e \<Rightarrow> Inl e | Inr r \<Rightarrow> Inr (Some r))"

definition GetByAlias :: "'g model_env \<Rightarrow> string \<Rightarrow> ModelConfig list \<Rightarrow> go_error + ModelConfig option" where
  "GetByAlias E alias s = (case FindOne (ry_db E) (\<lambda>r. mc_Alias r = alias) s of
     Inl NoDocuments \<Rightarrow> Inr None | Inl e \<Rightarrow> Inl e | Inr r \<Rightarrow> Inr (Some r))"

definition ListByProject :: "'g model_env \<Rightarrow> string \<Rightarrow> sync_status list \<Rightarrow> ModelConfig list \<Rightarrow> go_error + ModelConfig list" where
  "ListByProject E p statuses s = (case Find (ry_db E) (\<lambda>r. mc_ProjectID r = p \<and> \<not> mc_IsRemoved r \<and>
      (statuses = [] \<or> mc_SyncStatus r \<in> set statuses)) s of Inl e \<Rightarrow> Inl e | Inr rs \<Rightarrow> Inr (sort_key mc_CreatedAt rs))"

definition ListLive :: "'g model_env \<Rightarrow> ModelConfig list \<Rightarrow> go_error + ModelConfig list" where
  "ListLive E s = (case Find (ry_db E) (\<lambda>r. \<not> mc_IsRemoved r) s of Inl e \<Rightarrow> Inl e | Inr rs \<Rightarrow> Inr (sort_key mc_CreatedAt rs))"

definition store_Update ::
  "'g model_env \<Rightarrow> string \<Rightarrow> Guard \<Rightarrow> Changes \<Rightarrow> 'g model_world \<Rightarrow> (go_error + bool) \<times> 'g model_world" where
  "store_Update E modelID gd c w = (case UpdateOne (ry_db E) (guard_filter gd modelID) (apply_changes (ry_now E) c) (mw_rows w) of
     (r, s) \<Rightarrow> ((case r of Inl e \<Rightarrow> Inl e | Inr n \<Rightarrow> Inr (n > 0)), w\<lparr>mw_rows := s\<rparr>))"

definition store_Remove :: "'g model_env \<Rightarrow> string \<Rightarrow> Guard \<Rightarrow> 'g model_world \<Rightarrow> (go_error + bool) \<times> 'g model_world" where
  "store_Remove E modelID gd w = (case DeleteOne (ry_db E) (guard_filter gd modelID) (mw_rows w) of
     (r, s) \<Rightarrow> ((case r of Inl e \<Rightarrow> Inl e | Inr n \<Rightarrow> Inr (n > 0)), w\<lparr>mw_rows := s\<rparr>))"

definition on_gateway :: "('g \<Rightarrow> 'r \<times> 'g) \<Rightarrow> 'g model_world \<Rightarrow> 'r \<times> 'g model_world" where
  "on_gateway f w = (case f (mw_gw w) of (r, g) \<Rightarrow> (r, w\<lparr>mw_gw := g\<rparr>))"

section \<open>Who uses a model\<close>

fun newest_from :: "int \<times> string \<Rightarrow> (int \<times> string) list \<Rightarrow> int \<times> string" where
  "newest_from newest [] = newest"
| "newest_from newest (r # rs) = newest_from (if fst r \<ge> fst newest then r else newest) rs"

definition newestManifest :: "experiment_row \<Rightarrow> string" where
  "newestManifest x = snd (newest_from (0, []) (xr_revisions x))"

definition experimentsUsing :: "'g model_env \<Rightarrow> string \<Rightarrow> string \<Rightarrow> go_error + string list" where
  "experimentsUsing E p alias = (case ry_runs E p of Inl e \<Rightarrow> Inl e
     | Inr flying \<Rightarrow> (case ry_experiments E p (remdups flying) of Inl e \<Rightarrow> Inl e
       | Inr xs \<Rightarrow> Inr (sort (map xr_name (filter (\<lambda>x.
           (xr_id x \<in> set flying \<or> \<not> ry_suspended E (newestManifest x)) \<and> alias \<in> set (ry_aliases E (newestManifest x))) xs)))))"

section \<open>Tasks\<close>

datatype model_answer = RowAnswer ModelConfig | DeletedAnswer | ReconciledAnswer

datatype model_task =
    Inserting ModelConfig string
  | Adding ModelConfig string
  | Activating ModelConfig
  | Settling ModelConfig
  | Dropping string
  | Freeing string gw_error
  | Noting string string mreg_error
  | Marking ModelConfig string
  | Checking ModelConfig "sync_status option"
  | Reverting string sync_status mreg_error
  | Finishing ModelConfig
  | Closing ModelConfig
  | Rekeying ModelConfig string string
  | Readding ModelConfig string string
  | Recording ModelConfig string string
  | Judging ModelConfig bool bool

datatype progress = Continue model_task | Finish "mreg_error + model_answer"

definition deployment_of :: "ModelConfig \<Rightarrow> Deployment" where
  "deployment_of r = \<lparr>dp_ModelID = mc_ModelID r, dp_Alias = mc_Alias r, dp_Model = mc_Model r, dp_APIBase = mc_APIBase r,
     dp_APIVersion = mc_APIVersion r\<rparr>"

definition gateway_error :: "gw_error \<Rightarrow> mreg_error" where
  "gateway_error e = (if is_unreachable e then PendingConfirmation else GatewayError e)"

definition active_row :: "ModelConfig \<Rightarrow> ModelConfig" where
  "active_row r = r\<lparr>mc_SyncStatus := SyncActive\<rparr>"

text \<open>\<^verbatim>\<open>pendingTimeout\<close> and \<^verbatim>\<open>lostGrace\<close> in milliseconds.\<close>

definition pendingTimeout :: int where "pendingTimeout = 60000"
definition lostGrace :: int where "lostGrace = 120000"

definition lost_message :: string where
  "lost_message = ''LiteLLM no longer has this model (was its database reset?); re-enter the API key to register it again''"

definition transition_to :: "'g model_env \<Rightarrow> ModelConfig \<Rightarrow> sync_status \<Rightarrow> string \<Rightarrow> 'g model_world \<Rightarrow> 'g model_world" where
  "transition_to E row status err w =
     snd (store_Update E (mc_ModelID row) \<lparr>gu_Statuses = [mc_SyncStatus row], gu_UpdatedAt = mc_UpdatedAt row\<rparr>
       (no_changes\<lparr>ch_Status := Some status, ch_LastError := Some err\<rparr>) w)"

definition run_judging :: "'g model_env \<Rightarrow> ModelConfig \<Rightarrow> bool \<Rightarrow> bool \<Rightarrow> 'g model_world \<Rightarrow> progress \<times> 'g model_world" where
  "run_judging E row listed connected w =
     (let done = Finish (Inr ReconciledAnswer) in
      case mc_SyncStatus row of
        SyncPending \<Rightarrow>
          if listed then (done, transition_to E row SyncActive [] w)
          else if connected \<and> ry_now E - mc_CreatedAt row > pendingTimeout
          then (done, snd (store_Remove E (mc_ModelID row) \<lparr>gu_Statuses = [SyncPending], gu_UpdatedAt = mc_UpdatedAt row\<rparr> w))
          else (done, w)
      | SyncActive \<Rightarrow>
          if \<not> listed \<and> connected \<and> ry_now E - mc_UpdatedAt row > lostGrace
          then (done, transition_to E row SyncNeedsKey lost_message w) else (done, w)
      | SyncNeedsKey \<Rightarrow> if listed then (done, transition_to E row SyncActive [] w) else (done, w)
      | SyncDeleting \<Rightarrow> (Continue (Finishing row), w))"

fun run_model_task :: "'g model_env \<Rightarrow> model_task \<Rightarrow> 'g model_world \<Rightarrow> progress \<times> 'g model_world" where
  "run_model_task E (Inserting row key) w = (case InsertOne (ry_db E) row (mw_rows w) of
     (None, s) \<Rightarrow> (Continue (Adding row key), w\<lparr>mw_rows := s\<rparr>)
   | (Some e, s) \<Rightarrow> (Finish (Inl (if e = DuplicateKey then AliasTaken (mc_Alias row) else StoreError e)), w\<lparr>mw_rows := s\<rparr>))"
| "run_model_task E (Adding row key) w = (case on_gateway (AddModel (ry_lite E) (deployment_of row) (keyToSend key)) w of
     (None, w) \<Rightarrow> (Continue (Activating row), w)
   | (Some e, w) \<Rightarrow> (Continue (if is_unreachable e then Noting (mc_ModelID row) (gw_message e) PendingConfirmation
         else Freeing (mc_ModelID row) e), w))"
| "run_model_task E (Activating row) w =
     (case store_Update E (mc_ModelID row) (in_status [SyncPending]) (no_changes\<lparr>ch_Status := Some SyncActive\<rparr>) w of
     (Inr False, w) \<Rightarrow> (Continue (Settling row), w)
   | (_, w) \<Rightarrow> (Finish (Inr (RowAnswer (active_row row))), w))"
| "run_model_task E (Settling row) w = (case store_Get E (mc_ModelID row) (mw_rows w) of
     Inl e \<Rightarrow> (Finish (Inl (StoreError e)), w)
   | Inr cur \<Rightarrow>
       if (case cur of None \<Rightarrow> False | Some r \<Rightarrow> mc_SyncStatus r = SyncActive)
       then (Finish (Inr (RowAnswer (active_row row))), w) else (Continue (Dropping (mc_ModelID row)), w))"
| "run_model_task E (Dropping i) w = (Finish (Inl ModelBusy), snd (on_gateway (DeleteModel (ry_lite E) i) w))"
| "run_model_task E (Freeing i e) w = (Finish (Inl (GatewayError e)), snd (store_Remove E i (in_status [SyncPending]) w))"
| "run_model_task E (Noting i msg res) w =
     (Finish (Inl res), snd (store_Update E i (in_status []) (no_changes\<lparr>ch_LastError := Some msg\<rparr>) w))"
| "run_model_task E (Marking row user) w =
     (if mc_SyncStatus row = SyncDeleting then (Continue (Checking row None), w)
      else (case store_Update E (mc_ModelID row) (in_status [mc_SyncStatus row])
               (no_changes\<lparr>ch_Status := Some SyncDeleting, ch_By := user\<rparr>) w of
          (Inl e, w) \<Rightarrow> (Finish (Inl (StoreError e)), w)
        | (Inr ok, w) \<Rightarrow> (if ok then Continue (Checking row (Some (mc_SyncStatus row))) else Finish (Inl ModelBusy), w)))"
| "run_model_task E (Checking row previous) w =
     (let refuse = (\<lambda>e. case previous of None \<Rightarrow> Finish (Inl e) | Some s \<Rightarrow> Continue (Reverting (mc_ModelID row) s e)) in
      case experimentsUsing E (mc_ProjectID row) (mc_Alias row) of
        Inl e \<Rightarrow> (refuse (StoreError e), w)
      | Inr users \<Rightarrow> (if users = [] then Continue (Finishing row) else refuse (ModelInUse users), w))"
| "run_model_task E (Reverting i s e) w =
     (Finish (Inl e), snd (store_Update E i (in_status [SyncDeleting]) (no_changes\<lparr>ch_Status := Some s\<rparr>) w))"
| "run_model_task E (Finishing row) w = (case on_gateway (DeleteModel (ry_lite E) (mc_ModelID row)) w of
     (None, w) \<Rightarrow> (Continue (Closing row), w)
   | (Some e, w) \<Rightarrow> (Continue (if is_not_found e then Closing row else Noting (mc_ModelID row) (gw_message e) (gateway_error e)), w))"
| "run_model_task E (Closing row) w =
     (case store_Update E (mc_ModelID row) (in_status [SyncDeleting]) (no_changes\<lparr>ch_Removed := True, ch_LastError := Some []\<rparr>) w of
     (Inl e, w) \<Rightarrow> (Finish (Inl (StoreError e)), w) | (Inr _, w) \<Rightarrow> (Finish (Inr DeletedAnswer), w))"
| "run_model_task E (Rekeying row key user) w =
     (case on_gateway (UpdateModel (ry_lite E) (deployment_of row) (keyToSend key)) w of
     (None, w) \<Rightarrow> (Continue (Recording row key user), w)
   | (Some e, w) \<Rightarrow> (Continue (if is_not_found e then Readding row key user else Noting (mc_ModelID row) (gw_message e) (gateway_error e)), w))"
| "run_model_task E (Readding row key user) w =
     (case on_gateway (AddModel (ry_lite E) (deployment_of row) (keyToSend key)) w of
     (None, w) \<Rightarrow> (Continue (Recording row key user), w)
   | (Some e, w) \<Rightarrow> (Continue (Noting (mc_ModelID row) (gw_message e) (gateway_error e)), w))"
| "run_model_task E (Recording row key user) w =
     (case store_Update E (mc_ModelID row) (in_status [SyncActive, SyncNeedsKey])
        (no_changes\<lparr>ch_Status := Some SyncActive, ch_KeyHint := Some (keyHint key), ch_LastError := Some [], ch_By := user\<rparr>) w of
     (Inl e, w) \<Rightarrow> (Finish (Inl (StoreError e)), w)
   | (Inr _, w) \<Rightarrow> (Finish (Inr (RowAnswer (row\<lparr>mc_SyncStatus := SyncActive, mc_APIKeyHint := keyHint key, mc_LastError := [],
         mc_UpdatedAt := ry_now E, mc_UpdatedBy := user\<rparr>))), w))"
| "run_model_task E (Judging row listed connected) w = run_judging E row listed connected w"

section \<open>Operations\<close>

text \<open>No operation has more than five tasks: the rank falls with every one.\<close>

fun task_rank :: "model_task \<Rightarrow> nat" where
  "task_rank (Inserting _ _) = 5" | "task_rank (Adding _ _) = 4" | "task_rank (Activating _) = 3" | "task_rank (Settling _) = 2"
| "task_rank (Dropping _) = 1" | "task_rank (Freeing _ _) = 1" | "task_rank (Noting _ _ _) = 1" | "task_rank (Marking _ _) = 4"
| "task_rank (Checking _ _) = 3" | "task_rank (Reverting _ _ _) = 1" | "task_rank (Finishing _) = 2" | "task_rank (Closing _) = 1"
| "task_rank (Rekeying _ _ _) = 3" | "task_rank (Readding _ _ _) = 2" | "task_rank (Recording _ _ _) = 1" | "task_rank (Judging _ _ _) = 3"

lemma run_task_rank: "run_model_task E t w = (Continue t', w') \<Longrightarrow> task_rank t' < task_rank t"
  by (cases t) (auto simp: run_judging_def Let_def split: prod.splits option.splits sum.splits if_splits bool.splits sync_status.splits)

function run_to_end :: "'g model_env \<Rightarrow> model_task \<Rightarrow> 'g model_world \<Rightarrow> (mreg_error + model_answer) \<times> 'g model_world" where
  "run_to_end E t w = (case run_model_task E t w of (Finish r, w') \<Rightarrow> (r, w') | (Continue t', w') \<Rightarrow> run_to_end E t' w')"
  by pat_completeness auto
termination
  by (relation "measure (\<lambda>(E, t, w). task_rank t)") (auto dest: run_task_rank [OF sym])

declare run_to_end.simps [simp del]

record CreateModelConfigInput =
  cm_Alias :: string
  cm_Label :: "string option"
  cm_Connection :: "ModelConnectionInput option"

definition new_row :: "'g model_env \<Rightarrow> string \<Rightarrow> string \<Rightarrow> string \<Rightarrow> connection \<Rightarrow> string \<Rightarrow> ModelConfig" where
  "new_row E p alias label conn user =
     \<lparr>mc_ProjectID = p, mc_ModelID = ry_uuid E, mc_Alias = alias, mc_Label = label, mc_Provider = cn_provider conn,
      mc_Model = cn_model conn, mc_APIBase = cn_apiBase conn, mc_APIVersion = cn_apiVersion conn,
      mc_APIKeyHint = keyHint (cn_apiKey conn), mc_SyncStatus = SyncPending, mc_LastError = [], mc_CreatedAt = ry_now E,
      mc_UpdatedAt = ry_now E, mc_CreatedBy = user, mc_UpdatedBy = user, mc_IsRemoved = False\<rparr>"

definition create_start ::
  "'g model_env \<Rightarrow> string \<Rightarrow> CreateModelConfigInput \<Rightarrow> string \<Rightarrow> 'g model_world \<Rightarrow> (mreg_error + model_task) \<times> 'g model_world" where
  "create_start E p r user w = (case normalizeAlias (cm_Alias r) of Inl e \<Rightarrow> (Inl (InvalidModel e), w)
     | Inr alias \<Rightarrow> (case normalizeLabel (valueOf (cm_Label r)) alias of Inl e \<Rightarrow> (Inl (InvalidModel e), w)
       | Inr label \<Rightarrow> (case cm_Connection r of None \<Rightarrow> (Inl (InvalidModel ConnectionRequired), w)
         | Some i \<Rightarrow> (case normalizeConnection (ry_parse_url E) i of Inl e \<Rightarrow> (Inl (InvalidModel e), w)
           | Inr conn \<Rightarrow>
               if isPlatformAlias (ry_getenv E) alias then (Inl (AliasTaken alias), w)
               else (case on_gateway (ListModels (ry_lite E)) w of (Inl e, w) \<Rightarrow> (Inl (GatewayError e), w)
                 | (Inr remote, w) \<Rightarrow>
                     if list_ex (\<lambda>m. rm_Alias m = alias) remote then (Inl (AliasTaken alias), w)
                     else (Inr (Inserting (new_row E p alias label conn user) (cn_apiKey conn)), w))))))"

definition then_run ::
  "'g model_env \<Rightarrow> (mreg_error + model_task) \<times> 'g model_world \<Rightarrow> (mreg_error + model_answer) \<times> 'g model_world" where
  "then_run E st = (case st of (Inl e, w) \<Rightarrow> (Inl e, w) | (Inr t, w) \<Rightarrow> run_to_end E t w)"

definition CreateModel where "CreateModel E p r user w = then_run E (create_start E p r user w)"

definition projectModel :: "'g model_env \<Rightarrow> string \<Rightarrow> string \<Rightarrow> ModelConfig list \<Rightarrow> mreg_error + ModelConfig" where
  "projectModel E p modelID s = (case store_Get E modelID s of Inl e \<Rightarrow> Inl (StoreError e)
     | Inr None \<Rightarrow> Inl ModelNotFound
     | Inr (Some r) \<Rightarrow> if mc_ProjectID r \<noteq> p then Inl ModelNotFound else Inr r)"

definition delete_start :: "'g model_env \<Rightarrow> string \<Rightarrow> string \<Rightarrow> string \<Rightarrow> 'g model_world \<Rightarrow> (mreg_error + model_task) \<times> 'g model_world" where
  "delete_start E p modelID user w = (case projectModel E p modelID (mw_rows w) of Inl e \<Rightarrow> (Inl e, w)
     | Inr row \<Rightarrow> (Inr (Marking row user), w))"

definition RemoveModel where "RemoveModel E p modelID user w = then_run E (delete_start E p modelID user w)"

definition settled_model :: "ModelConfig \<Rightarrow> bool" where
  "settled_model row = (mc_SyncStatus row = SyncActive \<or> mc_SyncStatus row = SyncNeedsKey)"

definition key_start ::
  "'g model_env \<Rightarrow> string \<Rightarrow> string \<Rightarrow> string \<Rightarrow> string \<Rightarrow> 'g model_world \<Rightarrow> (mreg_error + model_task) \<times> 'g model_world" where
  "key_start E p modelID apiKey user w = (case projectModel E p modelID (mw_rows w) of Inl e \<Rightarrow> (Inl e, w)
     | Inr row \<Rightarrow>
         if \<not> settled_model row then (Inl ModelBusy, w)
         else (case normalizeKey (mc_Provider row) apiKey of Inl e \<Rightarrow> (Inl (InvalidModel e), w)
           | Inr key \<Rightarrow> (Inr (Rekeying row key user), w)))"

definition UpdateKey where "UpdateKey E p modelID apiKey user w = then_run E (key_start E p modelID apiKey user w)"

definition TestConnection ::
  "'g model_env \<Rightarrow> ModelConnectionInput \<Rightarrow> 'g model_world \<Rightarrow> (mreg_error + TestResult) \<times> 'g model_world" where
  "TestConnection E i w = (case normalizeConnection (ry_parse_url E) i of Inl e \<Rightarrow> (Inl (InvalidModel e), w)
     | Inr conn \<Rightarrow> (case on_gateway (gw_TestConnection (ry_lite E) \<lparr>dp_ModelID = [], dp_Alias = [], dp_Model = cn_model conn,
           dp_APIBase = cn_apiBase conn, dp_APIVersion = cn_apiVersion conn\<rparr> (keyToSend (cn_apiKey conn))) w of
         (Inl e, w) \<Rightarrow> (Inl (GatewayError e), w) | (Inr r, w) \<Rightarrow> (Inr r, w)))"

definition TestModel :: "'g model_env \<Rightarrow> string \<Rightarrow> string \<Rightarrow> 'g model_world \<Rightarrow> (mreg_error + TestResult) \<times> 'g model_world" where
  "TestModel E p modelID w = (case projectModel E p modelID (mw_rows w) of Inl e \<Rightarrow> (Inl e, w)
     | Inr row \<Rightarrow>
         if \<not> settled_model row then (Inl ModelBusy, w)
         else (case on_gateway (gw_HealthCheck (ry_lite E) modelID) w of
             (Inr r, w) \<Rightarrow> (Inr r, w)
           | (Inl e, w) \<Rightarrow> (if is_not_found e then Inr \<lparr>tr_OK = False,
                 tr_Error = ''LiteLLM no longer serves this model: re-enter its API key (Rotate key) to register it again''\<rparr>
               else Inl (GatewayError e), w)))"

fun project_options :: "string \<Rightarrow> ModelConfig list \<Rightarrow> AgentModelOption list \<Rightarrow> AgentModelOption list" where
  "project_options defaultAlias [] options = options"
| "project_options defaultAlias (row # rows) options =
     (if mc_Alias row \<in> set (map mo_Alias options) then project_options defaultAlias rows options
      else project_options defaultAlias rows (options @ [\<lparr>mo_Alias = mc_Alias row,
        mo_Label = mc_Label row @ '' ('' @ providerLabel (mc_Provider row) @ '')'', mo_Provider = providerLabel (mc_Provider row),
        mo_IsDefault = (mc_Alias row = defaultAlias)\<rparr>]))"

definition AgentModelOptions :: "'g model_env \<Rightarrow> string \<Rightarrow> ModelConfig list \<Rightarrow> AgentModelOption list" where
  "AgentModelOptions E p s = (case ListByProject E p [SyncActive] s of Inl _ \<Rightarrow> PlatformModelOptions (ry_getenv E)
     | Inr rows \<Rightarrow> project_options (DefaultAgentModelAlias (ry_getenv E)) rows (PlatformModelOptions (ry_getenv E)))"

definition mstatus_text :: "sync_status \<Rightarrow> string" where
  "mstatus_text s = (case s of SyncPending \<Rightarrow> ''still being registered'' | SyncDeleting \<Rightarrow> ''being deleted''
     | SyncNeedsKey \<Rightarrow> ''missing from the gateway'' | SyncActive \<Rightarrow> ''active'')"

definition alias_refusal :: "string \<Rightarrow> string \<Rightarrow> ModelConfig \<Rightarrow> mreg_error option" where
  "alias_refusal p alias row =
     (if mc_ProjectID row \<noteq> p then Some (ModelUnavailable alias ''belongs to another project'')
      else if mc_IsRemoved row then Some (ModelUnavailable alias ''was deleted'')
      else if mc_SyncStatus row \<noteq> SyncActive then Some (ModelUnavailable alias (mstatus_text (mc_SyncStatus row))) else None)"

fun ValidateAliases :: "'g model_env \<Rightarrow> string \<Rightarrow> string list \<Rightarrow> ModelConfig list \<Rightarrow> mreg_error option" where
  "ValidateAliases E p [] s = None"
| "ValidateAliases E p (raw # rest) s =
     (let alias = TrimSpace raw in
      if alias = [] then ValidateAliases E p rest s
      else (case GetByAlias E alias s of Inl e \<Rightarrow> Some (AliasUnchecked alias e)
        | Inr None \<Rightarrow> ValidateAliases E p rest s
        | Inr (Some row) \<Rightarrow> (case alias_refusal p alias row of None \<Rightarrow> ValidateAliases E p rest s | Some e \<Rightarrow> Some e)))"

text \<open>One pass: the rows first, then what LiteLLM serves; each row is judged by both.\<close>

definition Reconcile_models :: "'g model_env \<Rightarrow> 'g model_world \<Rightarrow> mreg_error option \<times> 'g model_world" where
  "Reconcile_models E w = (case ListLive E (mw_rows w) of Inl e \<Rightarrow> (Some (StoreError e), w)
     | Inr rows \<Rightarrow>
        if rows = [] then (None, w)
        else (case on_gateway (ListModels (ry_lite E)) w of (Inl e, w) \<Rightarrow> (Some (GatewayError e), w)
          | (Inr remote, w) \<Rightarrow> (case on_gateway (RegistryConnected (ry_lite E)) w of (Inl e, w) \<Rightarrow> (Some (GatewayError e), w)
            | (Inr connected, w) \<Rightarrow>
                (let listed = (\<lambda>i. list_ex (\<lambda>m. rm_DBModel m \<and> rm_ModelID m = i) remote) in
                 (None, fold (\<lambda>row w. snd (run_to_end E (Judging row (listed (mc_ModelID row)) connected) w)) rows w)))))"

text \<open>The wait after a pass and the next retry wait, in seconds: failures back off from 5 s to the interval.\<close>

definition reconcile_wait :: "bool \<Rightarrow> nat \<Rightarrow> nat \<times> nat" where
  "reconcile_wait failed retry = (if failed then (retry, min (retry * 2) 120) else (120, 5))"

end
