(* ===== verification/Registry_Machine.thy ===== *)
theory Registry_Machine
  imports Model_Registry
begin

text \<open>
  The model registry under concurrency (\<^verbatim>\<open>graphql/server/pkg/model_config\<close>): requests, passes of the reconciler
  and crashes interleave between any two tasks. LiteLLM may answer anything. The collection's unique indexes
  on the alias and the identifier, the conforming driver and fresh identifiers are the only assumptions.
\<close>

section \<open>Steps\<close>

record 'g registry_state =
  rg_world :: "'g model_world"
  rg_tasks :: "model_task list"
  rg_issued :: "string list"

abbreviation rg_rows :: "'g registry_state \<Rightarrow> ModelConfig list" where
  "rg_rows s \<equiv> mw_rows (rg_world s)"

definition registry_env_ok :: "'g model_env \<Rightarrow> bool" where
  "registry_env_ok E = coll_ok model_clash (ry_db E)"

fun continued :: "progress \<Rightarrow> model_task list" where
  "continued (Continue t) = [t]" | "continued (Finish r) = []"

fun started :: "mreg_error + model_task \<Rightarrow> model_task list" where
  "started (Inr t) = [t]" | "started (Inl e) = []"

definition after_run :: "'g model_env \<Rightarrow> model_task \<Rightarrow> 'g registry_state \<Rightarrow> 'g registry_state" where
  "after_run E t s = (case run_model_task E t (rg_world s) of
     (p, w) \<Rightarrow> s\<lparr>rg_world := w, rg_tasks := remove1 t (rg_tasks s) @ continued p\<rparr>)"

definition after_start :: "(mreg_error + model_task) \<times> 'g model_world \<Rightarrow> string list \<Rightarrow> 'g registry_state \<Rightarrow> 'g registry_state" where
  "after_start st issued s = s\<lparr>rg_world := snd st, rg_tasks := rg_tasks s @ started (fst st), rg_issued := issued @ rg_issued s\<rparr>"

inductive registry_step :: "'g registry_state \<Rightarrow> 'g registry_state \<Rightarrow> bool" where
  creates: "registry_env_ok E \<Longrightarrow> ry_uuid E \<notin> set (rg_issued s) \<Longrightarrow>
     registry_step s (after_start (create_start E p r user (rg_world s)) [ry_uuid E] s)"
| deletes: "registry_env_ok E \<Longrightarrow> registry_step s (after_start (delete_start E p i user (rg_world s)) [] s)"
| rekeys: "registry_env_ok E \<Longrightarrow> registry_step s (after_start (key_start E p i key user (rg_world s)) [] s)"
| reconciles: "registry_env_ok (E :: 'g model_env) \<Longrightarrow> ListLive E (rg_rows s) = Inr rows \<Longrightarrow>
     registry_step s (s\<lparr>rg_world := (rg_world s)\<lparr>mw_gw := g\<rparr>,
       rg_tasks := rg_tasks s @ map (\<lambda>r. Judging r (listed r) connected) rows\<rparr>)"
| runs: "registry_env_ok E \<Longrightarrow> t \<in> set (rg_tasks s) \<Longrightarrow> registry_step s (after_run E t s)"
| dies: "registry_step s (s\<lparr>rg_tasks := remove1 t (rg_tasks s)\<rparr>)"
| drifts: "registry_step s (s\<lparr>rg_world := (rg_world s)\<lparr>mw_gw := g\<rparr>\<rparr>)"

definition empty_registry :: "'g \<Rightarrow> 'g registry_state" where
  "empty_registry g = \<lparr>rg_world = \<lparr>mw_rows = [], mw_gw = g\<rparr>, rg_tasks = [], rg_issued = []\<rparr>"

inductive registry_reach :: "'g registry_state \<Rightarrow> bool" where
  empty: "registry_reach (empty_registry g)"
| next_state: "registry_reach s \<Longrightarrow> registry_step s s' \<Longrightarrow> registry_reach s'"

section \<open>What a task does to the rows\<close>

lemma model_clash_distinct:
  "\<lbrakk>\<And>r'. r' \<in> set s \<Longrightarrow> \<not> model_clash r r'\<rbrakk> \<Longrightarrow> mc_Alias r \<notin> mc_Alias ` set s \<and> mc_ModelID r \<notin> mc_ModelID ` set s"
  by (auto simp: model_clash_def)

lemma apply_changes_keeps [simp]:
  "mc_Alias (apply_changes now c r) = mc_Alias r" "mc_ModelID (apply_changes now c r) = mc_ModelID r"
  "mc_ProjectID (apply_changes now c r) = mc_ProjectID r" "mc_CreatedAt (apply_changes now c r) = mc_CreatedAt r"
  "mc_IsRemoved (apply_changes now c r) = (ch_Removed c \<or> mc_IsRemoved r)"
  "mc_SyncStatus (apply_changes now c r) = (case ch_Status c of None \<Rightarrow> mc_SyncStatus r | Some s \<Rightarrow> s)"
  by (simp_all add: apply_changes_def)

lemma store_Update_write:
  assumes "registry_env_ok E" "store_Update E i gd c w = (r, w')"
  shows "mw_rows w' = mw_rows w \<or> replaced_one (guard_filter gd i) (apply_changes (ry_now E) c) (mw_rows w) (mw_rows w')"
    "r = Inr True \<Longrightarrow> replaced_one (guard_filter gd i) (apply_changes (ry_now E) c) (mw_rows w) (mw_rows w')"
proof -
  obtain res s where u: "UpdateOne (ry_db E) (guard_filter gd i) (apply_changes (ry_now E) c) (mw_rows w) = (res, s)"
    by (metis prod.exhaust)
  have ok: "coll_ok model_clash (ry_db E)" using assms(1) by (simp add: registry_env_ok_def)
  have w': "mw_rows w' = s" "r = (case res of Inl e \<Rightarrow> Inl e | Inr n \<Rightarrow> Inr (n > 0))"
    using assms(2) u by (auto simp: store_Update_def)
  show "mw_rows w' = mw_rows w \<or> replaced_one (guard_filter gd i) (apply_changes (ry_now E) c) (mw_rows w) (mw_rows w')"
    using UpdateOne_or [OF ok u] w' by blast
  assume "r = Inr True"
  then obtain n where "res = Inr n" "n \<noteq> 0" using w'(2) by (auto split: sum.splits)
  then show "replaced_one (guard_filter gd i) (apply_changes (ry_now E) c) (mw_rows w) (mw_rows w')"
    using UpdateOne_done [OF ok] u w'(1) by blast
qed

lemma store_Update_snd:
  "registry_env_ok E \<Longrightarrow> mw_rows (snd (store_Update E i gd c w)) = mw_rows w \<or>
   replaced_one (guard_filter gd i) (apply_changes (ry_now E) c) (mw_rows w) (mw_rows (snd (store_Update E i gd c w)))"
  using store_Update_write(1) by (metis prod.collapse)

lemma store_Remove_snd:
  assumes "registry_env_ok E"
  shows "mw_rows (snd (store_Remove E i gd w)) = mw_rows w \<or>
    removed_one (guard_filter gd i) (mw_rows w) (mw_rows (snd (store_Remove E i gd w)))"
proof -
  obtain res s where d: "DeleteOne (ry_db E) (guard_filter gd i) (mw_rows w) = (res, s)" by (metis prod.exhaust)
  have "s = mw_rows w \<or> removed_one (guard_filter gd i) (mw_rows w) s"
    using assms DeleteOne_cases [OF _ d] by (auto simp: registry_env_ok_def)
  then show ?thesis by (simp add: store_Remove_def d)
qed

lemma on_gateway_rows [simp]: "mw_rows (snd (on_gateway f w)) = mw_rows w"
  by (simp add: on_gateway_def split: prod.splits)

lemma on_gateway_rowsD: "on_gateway f w = (r, w') \<Longrightarrow> mw_rows w' = mw_rows w"
  using on_gateway_rows [of f w] by simp

text \<open>The guarded update a task makes.\<close>

fun task_update :: "model_task \<Rightarrow> (Guard \<times> Changes) option" where
  "task_update (Activating row) = Some (in_status [SyncPending], no_changes\<lparr>ch_Status := Some SyncActive\<rparr>)"
| "task_update (Noting i msg res) = Some (in_status [], no_changes\<lparr>ch_LastError := Some msg\<rparr>)"
| "task_update (Marking row user) = (if mc_SyncStatus row = SyncDeleting then None
     else Some (in_status [mc_SyncStatus row], no_changes\<lparr>ch_Status := Some SyncDeleting, ch_By := user\<rparr>))"
| "task_update (Reverting i s e) = Some (in_status [SyncDeleting], no_changes\<lparr>ch_Status := Some s\<rparr>)"
| "task_update (Closing row) = Some (in_status [SyncDeleting], no_changes\<lparr>ch_Removed := True, ch_LastError := Some []\<rparr>)"
| "task_update (Recording row key user) = Some (in_status [SyncActive, SyncNeedsKey],
     no_changes\<lparr>ch_Status := Some SyncActive, ch_KeyHint := Some (keyHint key), ch_LastError := Some [], ch_By := user\<rparr>)"
| "task_update t = None"

fun task_id :: "model_task \<Rightarrow> string" where
  "task_id (Inserting r _) = mc_ModelID r" | "task_id (Adding r _) = mc_ModelID r" | "task_id (Activating r) = mc_ModelID r"
| "task_id (Settling r) = mc_ModelID r" | "task_id (Dropping i) = i" | "task_id (Freeing i _) = i" | "task_id (Noting i _ _) = i"
| "task_id (Marking r _) = mc_ModelID r" | "task_id (Checking r _) = mc_ModelID r" | "task_id (Reverting i _ _) = i"
| "task_id (Finishing r) = mc_ModelID r" | "task_id (Closing r) = mc_ModelID r" | "task_id (Rekeying r _ _) = mc_ModelID r"
| "task_id (Readding r _ _) = mc_ModelID r" | "task_id (Recording r _ _) = mc_ModelID r" | "task_id (Judging r _ _) = mc_ModelID r"

lemma run_task_update:
  "task_update t = Some (gd, c) \<Longrightarrow> snd (run_model_task E t w) = snd (store_Update E (task_id t) gd c w)"
  by (cases t) (auto split: prod.splits sum.splits bool.splits if_splits)

fun quiet :: "model_task \<Rightarrow> bool" where
  "quiet (Inserting _ _) = False" | "quiet (Freeing _ _) = False" | "quiet (Judging _ _ _) = False"
| "quiet t = (task_update t = None)"

lemma run_task_quiet: "quiet t \<Longrightarrow> mw_rows (snd (run_model_task E t w)) = mw_rows w"
  by (cases t) (auto simp: Let_def dest: on_gateway_rowsD split: prod.splits sum.splits option.splits if_splits)

text \<open>What an update may do to the status of a model.\<close>

definition status_change :: "model_task \<Rightarrow> Guard \<Rightarrow> Changes \<Rightarrow> bool" where
  "status_change t gd c \<longleftrightarrow>
     ch_Status c = None \<or> (ch_Status c = Some SyncDeleting \<and> (\<exists>row user. t = Marking row user)) \<or>
     (\<exists>q e. t = Reverting (task_id t) q e \<and> ch_Status c = Some q) \<or>
     (ch_Status c \<in> {Some SyncActive, Some SyncNeedsKey} \<and> gu_Statuses gd \<noteq> [] \<and> SyncDeleting \<notin> set (gu_Statuses gd))"

definition task_effect :: "model_task \<Rightarrow> ModelConfig list \<Rightarrow> ModelConfig list \<Rightarrow> bool" where
  "task_effect t s s' \<longleftrightarrow>
     s' = s \<or>
     (\<exists>r key. t = Inserting r key \<and> s' = s @ [r] \<and> (\<forall>r' \<in> set s. \<not> model_clash r r')) \<or>
     (\<exists>gd c now. status_change t gd c \<and> replaced_one (guard_filter gd (task_id t)) (apply_changes now c) s s') \<or>
     removed_one (guard_filter (in_status [SyncPending]) (task_id t)) s s'"

lemma removed_pending:
  "removed_one (guard_filter \<lparr>gu_Statuses = [SyncPending], gu_UpdatedAt = t\<rparr> i) s s' \<Longrightarrow>
   removed_one (guard_filter (in_status [SyncPending]) i) s s'"
  by (auto simp: removed_one_def guard_filter_def in_status_def)

lemma judging_effect:
  assumes "registry_env_ok E" "t = Judging row listed connected"
  shows "task_effect t (mw_rows w) (mw_rows (snd (run_judging E row listed connected w)))"
proof -
  have i: "task_id t = mc_ModelID row" using assms(2) by simp
  have trans: "task_effect t (mw_rows w) (mw_rows (transition_to E row st err w))"
    if "mc_SyncStatus row \<noteq> SyncDeleting" "st = SyncActive \<or> st = SyncNeedsKey" for st err
  proof -
    have "status_change t \<lparr>gu_Statuses = [mc_SyncStatus row], gu_UpdatedAt = mc_UpdatedAt row\<rparr>
        (no_changes\<lparr>ch_Status := Some st, ch_LastError := Some err\<rparr>)"
      using that by (auto simp: status_change_def)
    then show ?thesis using store_Update_snd [OF assms(1)] i unfolding transition_to_def task_effect_def by metis
  qed
  have gone: "task_effect t (mw_rows w)
      (mw_rows (snd (store_Remove E (mc_ModelID row) \<lparr>gu_Statuses = [SyncPending], gu_UpdatedAt = mc_UpdatedAt row\<rparr> w)))"
    using store_Remove_snd [OF assms(1)] removed_pending i unfolding task_effect_def by metis
  have "task_effect t (mw_rows w) (mw_rows w)" by (simp add: task_effect_def)
  then show ?thesis using trans gone by (cases "mc_SyncStatus row") (simp_all add: run_judging_def Let_def)
qed

lemma run_task_effect:
  assumes "registry_env_ok E"
  shows "task_effect t (mw_rows w) (mw_rows (snd (run_model_task E t w)))"
proof (cases "task_update t")
  case (Some u)
  obtain gd c where u: "task_update t = Some (gd, c)" using Some by (cases u) auto
  have "status_change t gd c" using u
    by (cases t) (auto simp: status_change_def in_status_def no_changes_def split: if_splits)
  then show ?thesis using store_Update_snd [OF assms] run_task_update [OF u] unfolding task_effect_def by metis
next
  case None
  show ?thesis
  proof (cases "quiet t")
    case True
    then show ?thesis by (simp add: run_task_quiet task_effect_def)
  next
    case False
    then consider (ins) row key where "t = Inserting row key" | (free) i e where "t = Freeing i e"
      | (judge) row listed connected where "t = Judging row listed connected"
      using None by (cases t) auto
    then show ?thesis
    proof cases
      case ins
      obtain res s where i: "InsertOne (ry_db E) row (mw_rows w) = (res, s)" by (metis prod.exhaust)
      have ok: "coll_ok model_clash (ry_db E)" using assms by (simp add: registry_env_ok_def)
      have "task_effect t (mw_rows w) s" by (rule InsertOne_cases [OF ok i]) (auto simp: task_effect_def ins)
      then show ?thesis using ins i by (simp split: option.splits)
    next
      case free
      then show ?thesis using store_Remove_snd [OF assms, of i "in_status [SyncPending]" w] by (auto simp: task_effect_def)
    next
      case judge
      then show ?thesis using judging_effect [OF assms judge] by simp
    qed
  qed
qed

section \<open>Markers\<close>

text \<open>
  The deletions that will put the status back if the model is in use: at most one for a model, and while it is
  there the model is being deleted. A model that is still to be recorded has no such task.
\<close>

fun marker :: "model_task \<Rightarrow> (string \<times> sync_status) option" where
  "marker (Checking row (Some s)) = Some (mc_ModelID row, s)"
| "marker (Reverting i s e) = Some (i, s)"
| "marker t = None"

fun to_insert :: "model_task \<Rightarrow> string option" where
  "to_insert (Inserting row key) = Some (mc_ModelID row)"
| "to_insert t = None"

definition markers :: "string \<Rightarrow> model_task list \<Rightarrow> nat" where
  "markers i ts = length (filter (\<lambda>t. map_option fst (marker t) = Some i) ts)"

definition inserts :: "string \<Rightarrow> model_task list \<Rightarrow> nat" where
  "inserts i ts = length (filter (\<lambda>t. to_insert t = Some i) ts)"

definition all_deleting :: "string \<Rightarrow> ModelConfig list \<Rightarrow> bool" where
  "all_deleting i s = (\<forall>r \<in> set s. mc_ModelID r = i \<longrightarrow> mc_SyncStatus r = SyncDeleting)"

definition models_inv :: "ModelConfig list \<Rightarrow> model_task list \<Rightarrow> string list \<Rightarrow> bool" where
  "models_inv s ts issued \<longleftrightarrow>
     distinct (map mc_Alias s) \<and> distinct (map mc_ModelID s) \<and> mc_ModelID ` set s \<subseteq> set issued \<and> task_id ` set ts \<subseteq> set issued \<and>
     (\<forall>i. markers i ts \<le> 1) \<and> (\<forall>i. inserts i ts \<le> 1) \<and>
     (\<forall>i. 0 < markers i ts \<longrightarrow> all_deleting i s) \<and>
     (\<forall>i. 0 < inserts i ts \<longrightarrow> i \<notin> mc_ModelID ` set s \<and> markers i ts = 0)"

lemma markers_simps [simp]:
  "markers i [] = 0" "markers i (ts @ us) = markers i ts + markers i us"
  "markers i (t # ts) = (if map_option fst (marker t) = Some i then Suc (markers i ts) else markers i ts)"
  by (simp_all add: markers_def)

lemma inserts_simps [simp]:
  "inserts i [] = 0" "inserts i (ts @ us) = inserts i ts + inserts i us"
  "inserts i (t # ts) = (if to_insert t = Some i then Suc (inserts i ts) else inserts i ts)"
  by (simp_all add: inserts_def)

lemma markers_remove: "t \<in> set ts \<Longrightarrow> markers i ts = markers i (remove1 t ts) + markers i [t]"
  by (induction ts) auto

lemma inserts_remove: "t \<in> set ts \<Longrightarrow> inserts i ts = inserts i (remove1 t ts) + inserts i [t]"
  by (induction ts) auto

lemma markers_remove_le: "markers i (remove1 t ts) \<le> markers i ts"
  by (induction ts) auto

lemma inserts_remove_le: "inserts i (remove1 t ts) \<le> inserts i ts"
  by (induction ts) auto

lemma marker_id: "marker t = Some (i, s) \<Longrightarrow> task_id t = i"
  by (cases t rule: marker.cases) auto

lemma markers_in: "0 < markers i ts \<longleftrightarrow> (\<exists>t \<in> set ts. \<exists>q. marker t = Some (i, q))"
  by (induction ts) auto

lemma inserts_in: "0 < inserts i ts \<longleftrightarrow> (\<exists>t \<in> set ts. to_insert t = Some i)"
  by (induction ts) auto

lemma to_insert_id: "to_insert t = Some i \<Longrightarrow> task_id t = i"
  by (cases t) auto

lemma registry_invD:
  assumes "models_inv s ts issued"
  shows "distinct (map mc_Alias s)" "distinct (map mc_ModelID s)" "mc_ModelID ` set s \<subseteq> set issued"
    "task_id ` set ts \<subseteq> set issued" "markers i ts \<le> 1" "inserts i ts \<le> 1" "0 < markers i ts \<Longrightarrow> all_deleting i s"
    "0 < inserts i ts \<Longrightarrow> i \<notin> mc_ModelID ` set s" "0 < inserts i ts \<Longrightarrow> markers i ts = 0"
  using assms by (simp_all add: models_inv_def)

lemma registry_invI:
  assumes "distinct (map mc_Alias s)" "distinct (map mc_ModelID s)" "mc_ModelID ` set s \<subseteq> set issued"
    "task_id ` set ts \<subseteq> set issued" "\<And>i. markers i ts \<le> 1" "\<And>i. inserts i ts \<le> 1"
    "\<And>i. 0 < markers i ts \<Longrightarrow> all_deleting i s" "\<And>i. 0 < inserts i ts \<Longrightarrow> i \<notin> mc_ModelID ` set s"
    "\<And>i. 0 < inserts i ts \<Longrightarrow> markers i ts = 0"
  shows "models_inv s ts issued"
  unfolding models_inv_def by (intro conjI allI impI assms)

lemma registry_inv_fewer:
  assumes "models_inv s ts issued"
  shows "models_inv s (remove1 t ts) issued"
proof (rule registry_invI)
  note D = registry_invD [OF assms]
  show "task_id ` set (remove1 t ts) \<subseteq> set issued" using order_trans [OF image_mono [OF set_remove1_subset] D(4)] .
  fix i
  have le: "markers i (remove1 t ts) \<le> markers i ts" "inserts i (remove1 t ts) \<le> inserts i ts"
    by (rule markers_remove_le inserts_remove_le)+
  show "markers i (remove1 t ts) \<le> 1" "inserts i (remove1 t ts) \<le> 1" using le D(5,6) [of i] by linarith+
  show "all_deleting i s" if "0 < markers i (remove1 t ts)" using D(7) [of i] le that by simp
  show "i \<notin> mc_ModelID ` set s" if "0 < inserts i (remove1 t ts)" using D(8) [of i] le that by simp
  show "markers i (remove1 t ts) = 0" if "0 < inserts i (remove1 t ts)" using D(9) [of i] le that by simp
qed (rule registry_invD [OF assms])+

lemma registry_inv_more:
  assumes "models_inv s ts issued" "\<And>u. u \<in> set us \<Longrightarrow> task_id u \<in> set issued \<and> marker u = None \<and> to_insert u = None"
  shows "models_inv s (ts @ us) issued"
proof -
  have "markers i us = 0" "inserts i us = 0" for i
    using assms(2) markers_in [of i us] inserts_in [of i us] by (metis neq0_conv option.distinct(1))+
  then show ?thesis using assms by (auto simp: models_inv_def)
qed

lemma registry_inv_fresh:
  assumes "models_inv s ts issued" "mc_ModelID r \<notin> set issued"
  shows "models_inv s (ts @ [Inserting r key]) (mc_ModelID r # issued)"
proof -
  have "markers (mc_ModelID r) ts = 0" "inserts (mc_ModelID r) ts = 0"
    using assms markers_in [of "mc_ModelID r" ts] inserts_in [of "mc_ModelID r" ts] marker_id to_insert_id
    unfolding models_inv_def by (metis image_subset_iff neq0_conv)+
  then show ?thesis using assms by (auto simp: models_inv_def)
qed

lemma continued_id: "run_model_task E t w = (p, w') \<Longrightarrow> t' \<in> set (continued p) \<Longrightarrow> task_id t' = task_id t"
  by (cases t) (auto simp: run_judging_def Let_def
      split: prod.splits option.splits sum.splits if_splits bool.splits sync_status.splits)

lemma continued_no_insert: "run_model_task E t w = (p, w') \<Longrightarrow> t' \<in> set (continued p) \<Longrightarrow> to_insert t' = None"
  by (cases t) (auto simp: run_judging_def Let_def
      split: prod.splits option.splits sum.splits if_splits bool.splits sync_status.splits)

text \<open>A new marker is that of the task itself, or a model has just been marked.\<close>

lemma continued_marker:
  assumes "run_model_task E t w = (p, w')" "t' \<in> set (continued p)" "marker t' = Some (i, q)"
  shows "(marker t = Some (i, q) \<and> quiet t) \<or>
    (\<exists>row user. t = Marking row user \<and> i = mc_ModelID row \<and> q = mc_SyncStatus row \<and> q \<noteq> SyncDeleting \<and>
       fst (store_Update E i (in_status [q]) (no_changes\<lparr>ch_Status := Some SyncDeleting, ch_By := user\<rparr>) w) = Inr True)"
  using assms by (cases t) (auto simp: run_judging_def Let_def
      split: prod.splits option.splits sum.splits if_splits bool.splits sync_status.splits)

section \<open>The invariant holds\<close>

lemma task_effect_ids:
  assumes "task_effect t s s'"
  shows "mc_ModelID ` set s' \<subseteq> mc_ModelID ` set s \<union> {i. to_insert t = Some i}"
  using assms unfolding task_effect_def
proof (elim disjE exE conjE)
  fix gd c now assume "replaced_one (guard_filter gd (task_id t)) (apply_changes now c) s s'"
  then have "map mc_ModelID s' = map mc_ModelID s" by (rule replaced_one_map_key) simp
  then have "mc_ModelID ` set s' = mc_ModelID ` set s" by (metis list.set_map)
  then show ?thesis by simp
next
  assume "removed_one (guard_filter (in_status [SyncPending]) (task_id t)) s s'"
  then show ?thesis by (auto simp: removed_one_def)
qed auto

lemma task_effect_distinct:
  assumes "task_effect t s s'" "distinct (map mc_Alias s)" "distinct (map mc_ModelID s)"
  shows "distinct (map mc_Alias s') \<and> distinct (map mc_ModelID s')"
  using assms(1) unfolding task_effect_def
proof (elim disjE exE conjE)
  fix r key assume "s' = s @ [r]" "\<forall>r' \<in> set s. \<not> model_clash r r'"
  then show ?thesis using model_clash_distinct [of s r] assms(2,3) by auto
next
  fix gd c now assume "replaced_one (guard_filter gd (task_id t)) (apply_changes now c) s s'"
  then show ?thesis using replaced_one_map_key [where k = mc_Alias] replaced_one_map_key [where k = mc_ModelID] assms(2,3)
    by (metis apply_changes_keeps(1,2))
next
  assume "removed_one (guard_filter (in_status [SyncPending]) (task_id t)) s s'"
  then show ?thesis using assms(2,3) by (auto simp: removed_one_def)
qed (use assms in simp_all)

text \<open>A model being deleted stays in that status while another task's marker is there.\<close>

lemma task_effect_deleting:
  assumes "task_effect t s s'" "all_deleting i s" "\<And>q. marker t \<noteq> Some (i, q)" "to_insert t \<noteq> Some i"
  shows "all_deleting i s'"
  using assms(1) unfolding task_effect_def
proof (elim disjE exE conjE)
  fix gd c now assume ch: "status_change t gd c" and rep: "replaced_one (guard_filter gd (task_id t)) (apply_changes now c) s s'"
  show ?thesis unfolding all_deleting_def
  proof (intro ballI impI)
    fix r' assume r': "r' \<in> set s'" "mc_ModelID r' = i"
    show "mc_SyncStatus r' = SyncDeleting"
    proof (cases "r' \<in> set s")
      case False
      then obtain d where d: "d \<in> set s" "guard_filter gd (task_id t) d" "r' = apply_changes now c d"
        using replaced_one_set [OF rep r'(1)] by blast
      then have "mc_SyncStatus d = SyncDeleting" "task_id t = i" using assms(2) r'(2)
        by (auto simp: all_deleting_def guard_filter_def)
      then have "\<not> (\<exists>q e. t = Reverting (task_id t) q e)" "gu_Statuses gd = [] \<or> SyncDeleting \<in> set (gu_Statuses gd)"
        using assms(3) [unfolded \<open>task_id t = i\<close> [symmetric]] d(2)
        by (metis marker.simps(2), auto simp: guard_filter_def)
      then show ?thesis using ch d(3) \<open>mc_SyncStatus d = SyncDeleting\<close> by (auto simp: status_change_def)
    qed (use assms(2) r' in \<open>simp add: all_deleting_def\<close>)
  qed
next
  fix r key assume "t = Inserting r key" "s' = s @ [r]"
  then show ?thesis using assms(2,4) by (auto simp: all_deleting_def)
next
  assume "removed_one (guard_filter (in_status [SyncPending]) (task_id t)) s s'"
  then show ?thesis using assms(2) by (auto simp: removed_one_def all_deleting_def)
qed (use assms in simp_all)

lemma marked_deleting:
  assumes "replaced_one (guard_filter gd i) (apply_changes now (no_changes\<lparr>ch_Status := Some SyncDeleting, ch_By := user\<rparr>)) s s'"
    "distinct (map mc_ModelID s)"
  shows "all_deleting i s'" "i \<in> mc_ModelID ` set s" "\<exists>r \<in> set s. mc_ModelID r = i \<and> guard_filter gd i r"
proof -
  obtain xs d ys where s: "s = xs @ d # ys" "guard_filter gd i d"
      "s' = xs @ apply_changes now (no_changes\<lparr>ch_Status := Some SyncDeleting, ch_By := user\<rparr>) d # ys"
    using assms(1) by (auto simp: replaced_one_def)
  have i: "mc_ModelID d = i" using s(2) by (simp add: guard_filter_def)
  then have "i \<notin> mc_ModelID ` (set xs \<union> set ys)" using assms(2) s(1) by auto
  then show "all_deleting i s'" using s(3) by (auto simp: all_deleting_def)
  show "i \<in> mc_ModelID ` set s" "\<exists>r \<in> set s. mc_ModelID r = i \<and> guard_filter gd i r" using s i by auto
qed

lemma marking_result:
  assumes "registry_env_ok E" "t = Marking row user" "mc_SyncStatus row = q" "q \<noteq> SyncDeleting"
    "fst (store_Update E (mc_ModelID row) (in_status [q]) (no_changes\<lparr>ch_Status := Some SyncDeleting, ch_By := user\<rparr>) w) = Inr True"
  shows "\<exists>now. replaced_one (guard_filter (in_status [q]) (mc_ModelID row))
      (apply_changes now (no_changes\<lparr>ch_Status := Some SyncDeleting, ch_By := user\<rparr>)) (mw_rows w) (mw_rows (snd (run_model_task E t w)))"
proof -
  have "snd (run_model_task E t w) = snd (store_Update E (mc_ModelID row) (in_status [q])
      (no_changes\<lparr>ch_Status := Some SyncDeleting, ch_By := user\<rparr>) w)"
    using run_task_update [of t "in_status [q]" "no_changes\<lparr>ch_Status := Some SyncDeleting, ch_By := user\<rparr>" E w] assms(2-4)
    by (simp del: run_model_task.simps)
  then show ?thesis using store_Update_write(2) [OF assms(1)] assms(5) by (metis prod.collapse)
qed

lemma registry_inv_run:
  assumes ok: "registry_env_ok E" and inv: "models_inv (mw_rows w) ts issued" and t: "t \<in> set ts"
    and run: "run_model_task E t w = (p, w')"
  shows "models_inv (mw_rows w') (remove1 t ts @ continued p) issued"
proof -
  let ?s = "mw_rows w" and ?s' = "mw_rows w'" and ?ts = "remove1 t ts"
  have eff: "task_effect t ?s ?s'" using run_task_effect [OF ok, of t w] run by simp
  have I: "distinct (map mc_Alias ?s)" "distinct (map mc_ModelID ?s)" "mc_ModelID ` set ?s \<subseteq> set issued"
      "task_id ` set ts \<subseteq> set issued" "\<And>i. markers i ts \<le> 1" "\<And>i. inserts i ts \<le> 1"
      "\<And>i. 0 < markers i ts \<Longrightarrow> all_deleting i ?s" "\<And>i. 0 < inserts i ts \<Longrightarrow> i \<notin> mc_ModelID ` set ?s \<and> markers i ts = 0"
    using inv by (auto simp: models_inv_def)
  have split: "markers i ts = markers i ?ts + markers i [t]" "inserts i ts = inserts i ?ts + inserts i [t]" for i
    using t by (simp_all only: markers_remove [symmetric] inserts_remove [symmetric])
  have no_ins: "inserts i (continued p) = 0" for i
    using continued_no_insert [OF run] inserts_in [of i "continued p"] by (metis neq0_conv option.distinct(1))
  have new: "inserts i ts = 0 \<and> all_deleting i ?s' \<and> markers i (continued p) = 1 \<and> markers i ?ts = 0"
    if m: "0 < markers i (continued p)" for i
  proof -
    obtain u q where u: "u \<in> set (continued p)" "marker u = Some (i, q)" using m markers_in by blast
    then have one: "markers i (continued p) = 1" by (cases p) auto
    from continued_marker [OF run u] show ?thesis
    proof (elim disjE exE conjE)
      assume t': "marker t = Some (i, q)" "quiet t"
      then have "?s' = ?s" using run_task_quiet [of t E w] run by simp
      moreover have "markers i ts = Suc (markers i ?ts)" using split(1) [of i] t' by simp
      moreover have "inserts i ts = 0" using I(8) [of i] calculation(2) by (cases "inserts i ts") auto
      ultimately show ?thesis using I(5) [of i] I(7) [of i] one by simp
    next
      fix row user
      assume m': "t = Marking row user" "i = mc_ModelID row" "q = mc_SyncStatus row" "q \<noteq> SyncDeleting"
        "fst (store_Update E i (in_status [q]) (no_changes\<lparr>ch_Status := Some SyncDeleting, ch_By := user\<rparr>) w) = Inr True"
      obtain now where rep: "replaced_one (guard_filter (in_status [q]) i)
          (apply_changes now (no_changes\<lparr>ch_Status := Some SyncDeleting, ch_By := user\<rparr>)) ?s ?s'"
        using marking_result [OF ok m'(1) m'(3) [symmetric] m'(4) m'(5) [unfolded m'(2)]] run unfolding m'(2) snd_conv by auto
      obtain r where r: "r \<in> set ?s" "mc_ModelID r = i" "mc_SyncStatus r = q"
        using marked_deleting(3) [OF rep I(2)] by (auto simp: guard_filter_def in_status_def)
      have "markers i ts = 0" using I(7) [of i] r m'(4) by (auto simp: all_deleting_def)
      moreover have "inserts i ts = 0" using I(8) [of i] marked_deleting(2) [OF rep I(2)] by blast
      ultimately show ?thesis using marked_deleting(1) [OF rep I(2)] one split(1) [of i] by simp
    qed
  qed
  have kept: "all_deleting i ?s'" if m: "0 < markers i ?ts" for i
  proof (rule task_effect_deleting [OF eff])
    show "all_deleting i ?s" using I(7) [of i] split(1) [of i] m by simp
    show "marker t \<noteq> Some (i, q)" for q using I(5) [of i] split(1) [of i] m by auto
    show "to_insert t \<noteq> Some i" using I(8) [of i] split [of i] m by auto
  qed
  have ids: "mc_ModelID ` set ?s' \<subseteq> mc_ModelID ` set ?s \<union> {i. to_insert t = Some i}" by (rule task_effect_ids [OF eff])
  have "{i. to_insert t = Some i} \<subseteq> set issued" 
  proof
    fix i assume "i \<in> {i. to_insert t = Some i}"
    then have "i = task_id t" using to_insert_id by simp
    then show "i \<in> set issued" using I(4) t by blast
  qed
  then have "mc_ModelID ` set ?s' \<subseteq> set issued" using ids I(3) by (meson Un_least order_trans)
  moreover have "task_id u \<in> set issued" if "u \<in> set (?ts @ continued p)" for u
    using that I(4) continued_id [OF run] t subsetD [OF set_remove1_subset, of u t ts] by auto
  then have "task_id ` set (?ts @ continued p) \<subseteq> set issued" by blast
  moreover have "markers i (?ts @ continued p) \<le> 1" for i
    using new [of i] I(5) [of i] split(1) [of i] by (cases "0 < markers i (continued p)") auto
  moreover have "inserts i (?ts @ continued p) \<le> 1" for i
    using no_ins [of i] I(6) [of i] split(2) [of i] by simp
  moreover have "all_deleting i ?s'" if "0 < markers i (?ts @ continued p)" for i
    using that kept [of i] new [of i] by (cases "0 < markers i (continued p)") auto
  moreover have "i \<notin> mc_ModelID ` set ?s' \<and> markers i (?ts @ continued p) = 0" if m: "0 < inserts i (?ts @ continued p)" for i
  proof -
    have pos: "0 < inserts i ?ts" using m no_ins [of i] by simp
    then have "to_insert t \<noteq> Some i" using I(6) [of i] split(2) [of i] by auto
    moreover have "i \<notin> mc_ModelID ` set ?s" "markers i ts = 0" using I(8) [of i] pos split(2) [of i] by auto
    moreover have "markers i (continued p) = 0" using new [of i] pos split(2) [of i] by (cases "markers i (continued p)") auto
    ultimately show ?thesis using ids split(1) [of i] by auto
  qed
  ultimately show ?thesis using task_effect_distinct [OF eff I(1,2)]
    by (simp only: models_inv_def) simp
qed

lemma projectModel_row:
  assumes "registry_env_ok E" "projectModel E p i s = Inr row"
  shows "row \<in> set s"
proof -
  have "coll_ok model_clash (ry_db E)" using assms(1) by (simp add: registry_env_ok_def)
  then show ?thesis using assms(2)
    by (auto simp: projectModel_def store_Get_def dest: FindOne_ok split: sum.splits option.splits if_splits go_error.splits)
qed

lemma ListLive_rows:
  assumes "registry_env_ok E" "ListLive E s = Inr rows"
  shows "set rows \<subseteq> set s"
proof -
  have "coll_ok model_clash (ry_db E)" using assms(1) by (simp add: registry_env_ok_def)
  then show ?thesis using assms(2) by (auto simp: ListLive_def dest: Find_set split: sum.splits)
qed

lemma create_start_task:
  "create_start E p r user w = (st, w') \<Longrightarrow> mw_rows w' = mw_rows w \<and>
     (case st of Inl _ \<Rightarrow> True | Inr t \<Rightarrow> (\<exists>row key. t = Inserting row key \<and> mc_ModelID row = ry_uuid E))"
  by (auto simp: create_start_def new_row_def dest: on_gateway_rowsD split: sum.splits option.splits if_splits prod.splits)

lemma start_world [simp]:
  "snd (delete_start E p i user w) = w" "snd (key_start E p i key user w) = w"
  by (simp_all add: delete_start_def key_start_def split: sum.splits)

lemma start_task:
  assumes "registry_env_ok E" "st = fst (delete_start E p i user w) \<or> st = fst (key_start E p i key user w)" "u \<in> set (started st)"
  shows "task_id u \<in> mc_ModelID ` set (mw_rows w) \<and> marker u = None \<and> to_insert u = None"
  using assms projectModel_row [OF assms(1)]
  by (auto simp: delete_start_def key_start_def split: sum.splits if_splits)

lemma registry_inv_issue: "models_inv s ts issued \<Longrightarrow> models_inv s ts (i # issued)"
  by (auto simp: models_inv_def)

abbreviation state_inv :: "'g registry_state \<Rightarrow> bool" where
  "state_inv s \<equiv> models_inv (rg_rows s) (rg_tasks s) (rg_issued s)"

lemma registry_inv_step: "registry_step s s' \<Longrightarrow> state_inv s \<Longrightarrow> state_inv s'"
proof (induction rule: registry_step.induct)
  case (creates E s p r user)
  obtain st w where c: "create_start E p r user (rg_world s) = (st, w)" by (metis prod.exhaust)
  show ?case
  proof (cases st)
    case (Inl e)
    then show ?thesis using creates(3) create_start_task [OF c] c by (simp add: after_start_def registry_inv_issue)
  next
    case (Inr t)
    then obtain row key where t: "t = Inserting row key" "mc_ModelID row = ry_uuid E" "mw_rows w = rg_rows s"
      using create_start_task [OF c] by auto
    then show ?thesis using registry_inv_fresh [OF creates(3), of row key] creates(2) c Inr by (simp add: after_start_def)
  qed
next
  case (deletes E s p i user)
  show ?case using registry_inv_more [OF deletes(2), of "started (fst (delete_start E p i user (rg_world s)))"]
      start_task [OF deletes(1) disjI1 [OF refl]] registry_invD(3) [OF deletes(2)]
    by (fastforce simp: after_start_def)
next
  case (rekeys E s p i key user)
  show ?case using registry_inv_more [OF rekeys(2), of "started (fst (key_start E p i key user (rg_world s)))"]
      start_task [OF rekeys(1) disjI2 [OF refl]] registry_invD(3) [OF rekeys(2)]
    by (fastforce simp: after_start_def)
next
  case (reconciles E s rows listed connected g)
  have "mc_ModelID ` set rows \<subseteq> set (rg_issued s)"
    using image_mono [OF ListLive_rows [OF reconciles(1,2)]] registry_invD(3) [OF reconciles(3)] by (rule order_trans)
  then have "models_inv (rg_rows s) (rg_tasks s @ map (\<lambda>r. Judging r (listed r) connected) rows) (rg_issued s)"
    by (intro registry_inv_more [OF reconciles(3)]) auto
  then show ?case by simp
next
  case (runs E t s)
  obtain p w where r: "run_model_task E t (rg_world s) = (p, w)" by (metis prod.exhaust)
  then show ?case using registry_inv_run [OF runs(1,3,2) r] by (simp add: after_run_def)
next
  case (dies s t)
  then show ?case by (simp add: registry_inv_fewer)
qed simp

lemma registry_reach_inv: "registry_reach s \<Longrightarrow> state_inv s"
  by (induction rule: registry_reach.induct)
     (simp_all add: registry_inv_step, simp add: empty_registry_def models_inv_def)

section \<open>Aliases\<close>

text \<open>A model that was served or deleted is there for good: no task can bring it back to the state in which it may be removed.\<close>

definition kept_row :: "string \<Rightarrow> string \<Rightarrow> ModelConfig list \<Rightarrow> model_task list \<Rightarrow> bool" where
  "kept_row i a s ts = (\<exists>r \<in> set s. mc_ModelID r = i \<and> mc_Alias r = a \<and>
     (mc_IsRemoved r \<or> mc_SyncStatus r \<noteq> SyncPending \<and> (\<forall>t \<in> set ts. marker t \<noteq> Some (i, SyncPending))))"

lemma kept_row_fewer: "kept_row i a s ts \<Longrightarrow> set us \<subseteq> set ts \<Longrightarrow> kept_row i a s us"
  unfolding kept_row_def by blast

lemma kept_row_more: "kept_row i a s ts \<Longrightarrow> (\<And>u. u \<in> set us \<Longrightarrow> marker u = None) \<Longrightarrow> kept_row i a s (ts @ us)"
  unfolding kept_row_def by auto

lemma replaced_one_keeps:
  "replaced_one q f s s' \<Longrightarrow> r \<in> set s \<Longrightarrow> r \<in> set s' \<or> (q r \<and> f r \<in> set s')"
  by (auto simp: replaced_one_def)

lemma kept_row_run:
  assumes ok: "registry_env_ok E" and inv: "models_inv (mw_rows w) ts issued" and t: "t \<in> set ts"
    and run: "run_model_task E t w = (p, w')" and kept: "kept_row i a (mw_rows w) ts"
  shows "kept_row i a (mw_rows w') (remove1 t ts @ continued p)"
proof -
  let ?s = "mw_rows w" and ?s' = "mw_rows w'"
  have eff: "task_effect t ?s ?s'" using run_task_effect [OF ok, of t w] run by simp
  obtain r where r: "r \<in> set ?s" "mc_ModelID r = i" "mc_Alias r = a"
      "mc_IsRemoved r \<or> mc_SyncStatus r \<noteq> SyncPending \<and> (\<forall>t \<in> set ts. marker t \<noteq> Some (i, SyncPending))"
    using kept by (auto simp: kept_row_def)
  have unique: "d = r" if "d \<in> set ?s" "mc_ModelID d = i" for d
    using registry_invD(2) [OF inv] that r(1,2) by (metis distinct_map inj_onD)
  have new: "marker u \<noteq> Some (i, SyncPending)" if "u \<in> set (continued p)" "\<not> mc_IsRemoved r" for u
  proof
    assume m: "marker u = Some (i, SyncPending)"
    from continued_marker [OF run that(1) m] show False
    proof (elim disjE exE conjE)
      fix row user
      assume m': "t = Marking row user" "i = mc_ModelID row" "SyncPending = mc_SyncStatus row"
        "fst (store_Update E i (in_status [SyncPending]) (no_changes\<lparr>ch_Status := Some SyncDeleting, ch_By := user\<rparr>) w) = Inr True"
      obtain now where rep: "replaced_one (guard_filter (in_status [SyncPending]) i)
          (apply_changes now (no_changes\<lparr>ch_Status := Some SyncDeleting, ch_By := user\<rparr>)) ?s ?s'"
        using marking_result [OF ok m'(1) m'(3) [symmetric] _ m'(4) [unfolded m'(2)]] run unfolding m'(2) by auto
      obtain d where "d \<in> set ?s" "mc_ModelID d = i" "mc_SyncStatus d = SyncPending"
        using marked_deleting(3) [OF rep registry_invD(2) [OF inv]] by (auto simp: guard_filter_def in_status_def)
      then show False using unique r(4) that(2) by auto
    qed (use r(4) that(2) t in blast)
  qed
  have old: "marker u \<noteq> Some (i, SyncPending)" if "u \<in> set (remove1 t ts)" "\<not> mc_IsRemoved r" for u
    using r(4) that subsetD [OF set_remove1_subset, of u t ts] by blast
  have stays: "\<exists>r' \<in> set ?s'. mc_ModelID r' = i \<and> mc_Alias r' = a \<and> (mc_IsRemoved r \<longrightarrow> mc_IsRemoved r') \<and>
      (mc_IsRemoved r' \<or> mc_SyncStatus r' \<noteq> SyncPending)"
    using eff unfolding task_effect_def
  proof (elim disjE exE conjE)
    fix gd c now assume ch: "status_change t gd c" and rep: "replaced_one (guard_filter gd (task_id t)) (apply_changes now c) ?s ?s'"
    show ?thesis
    proof (cases "r \<in> set ?s'")
      case False
      then have f: "guard_filter gd (task_id t) r" "apply_changes now c r \<in> set ?s'" using replaced_one_keeps [OF rep r(1)] by blast+
      then have "task_id t = i" "\<not> mc_IsRemoved r" using r(2) by (auto simp: guard_filter_def)
      then have "mc_SyncStatus (apply_changes now c r) \<noteq> SyncPending"
        using ch r(4) t by (auto simp: status_change_def) (metis marker.simps(2))
      then show ?thesis using f(2) r(2,3) \<open>\<not> mc_IsRemoved r\<close> by (intro bexI [of _ "apply_changes now c r"]) auto
    qed (use r in auto)
  next
    assume "removed_one (guard_filter (in_status [SyncPending]) (task_id t)) ?s ?s'"
    then obtain xs d ys where d: "?s = xs @ d # ys" "guard_filter (in_status [SyncPending]) (task_id t) d" "?s' = xs @ ys"
      by (auto simp: removed_one_def)
    have "r \<noteq> d" using d(2) r(4) by (auto simp: guard_filter_def in_status_def)
    then show ?thesis using d(1,3) r by (intro bexI [of _ r]) auto
  qed (use r in auto)
  then obtain r' where r': "r' \<in> set ?s'" "mc_ModelID r' = i" "mc_Alias r' = a" "mc_IsRemoved r \<longrightarrow> mc_IsRemoved r'"
      "mc_IsRemoved r' \<or> mc_SyncStatus r' \<noteq> SyncPending" by blast
  show ?thesis unfolding kept_row_def
    by (rule bexI [OF _ r'(1)]) (use r'(2-5) new old in auto)
qed

lemma kept_row_step: "registry_step s s' \<Longrightarrow> state_inv s \<Longrightarrow> kept_row i a (rg_rows s) (rg_tasks s) \<Longrightarrow> kept_row i a (rg_rows s') (rg_tasks s')"
proof (induction rule: registry_step.induct)
  case (creates E s p r user)
  obtain st w where c: "create_start E p r user (rg_world s) = (st, w)" by (metis prod.exhaust)
  then have "\<And>u. u \<in> set (started st) \<Longrightarrow> marker u = None" using create_start_task [OF c] by (cases st) auto
  then show ?case using kept_row_more [OF creates(4)] create_start_task [OF c] c by (simp add: after_start_def)
next
  case (deletes E s p j user)
  then show ?case using kept_row_more [OF deletes(3)] start_task [OF deletes(1) disjI1 [OF refl]]
    by (simp add: after_start_def)
next
  case (rekeys E s p j key user)
  then show ?case using kept_row_more [OF rekeys(3)] start_task [OF rekeys(1) disjI2 [OF refl]]
    by (simp add: after_start_def)
next
  case (reconciles E s rows listed connected g)
  have "kept_row i a (rg_rows s) (rg_tasks s @ map (\<lambda>r. Judging r (listed r) connected) rows)"
    by (rule kept_row_more [OF reconciles(4)]) auto
  then show ?case by simp
next
  case (runs E t s)
  obtain p w where r: "run_model_task E t (rg_world s) = (p, w)" by (metis prod.exhaust)
  then show ?case using kept_row_run [OF runs(1,3,2) r runs(4)] by (simp add: after_run_def)
next
  case (dies s t)
  then show ?case using kept_row_fewer [OF dies(2) set_remove1_subset] by simp
qed simp

lemma kept_row_steps:
  "registry_step\<^sup>*\<^sup>* s s' \<Longrightarrow> state_inv s \<Longrightarrow> kept_row i a (rg_rows s) (rg_tasks s) \<Longrightarrow> state_inv s' \<and> kept_row i a (rg_rows s') (rg_tasks s')"
  by (induction rule: rtranclp_induct) (auto dest: registry_inv_step kept_row_step)

text \<open>C13. An alias that was ever served, or was deleted, names one model for good: once a model is active, waiting for
  its key or removed, then whatever requests, reconciler passes, lost or late answers of LiteLLM and crashes
  follow, in any interleaving, its record stays and no other model of any project ever has its alias.\<close>

theorem alias_names_one_model:
  assumes "registry_reach s" "registry_step\<^sup>*\<^sup>* s s'" "r \<in> set (rg_rows s)"
    "mc_SyncStatus r = SyncActive \<or> mc_SyncStatus r = SyncNeedsKey \<or> mc_IsRemoved r"
  shows "\<exists>r'. filter (\<lambda>x. mc_Alias x = mc_Alias r) (rg_rows s') = [r'] \<and> mc_ModelID r' = mc_ModelID r"
proof -
  have inv: "state_inv s" using registry_reach_inv assms(1) by blast
  have "marker t \<noteq> Some (mc_ModelID r, SyncPending)" if "t \<in> set (rg_tasks s)" "\<not> mc_IsRemoved r" for t
  proof
    assume "marker t = Some (mc_ModelID r, SyncPending)"
    then have "0 < markers (mc_ModelID r) (rg_tasks s)" using that(1) markers_in by blast
    then have "mc_SyncStatus r = SyncDeleting" using registry_invD(7) [OF inv] assms(3) by (simp add: all_deleting_def)
    then show False using assms(4) that(2) by simp
  qed
  then have "kept_row (mc_ModelID r) (mc_Alias r) (rg_rows s) (rg_tasks s)"
    using assms(3,4) unfolding kept_row_def by (intro bexI [of _ r]) auto
  then have kept: "state_inv s'" "kept_row (mc_ModelID r) (mc_Alias r) (rg_rows s') (rg_tasks s')"
    using kept_row_steps [OF assms(2) inv] by blast+
  then obtain r' where r': "r' \<in> set (rg_rows s')" "mc_ModelID r' = mc_ModelID r" "mc_Alias r' = mc_Alias r"
    by (auto simp: kept_row_def)
  have "filter (\<lambda>x. mc_Alias x = mc_Alias r) xs = [r']" if "r' \<in> set xs" "distinct (map mc_Alias xs)" for xs
    using that r'(3) by (induction xs) (auto simp: filter_empty_conv image_iff)
  then show ?thesis using r' registry_invD(1) [OF kept(1)] by blast
qed

section \<open>A deployment for the examples\<close>

text \<open>A LiteLLM that keeps the identifiers it was given and answers as version 1.82 does.\<close>

definition demo_do :: "string \<Rightarrow> string \<Rightarrow> ll_payload \<Rightarrow> string list \<Rightarrow> ((bool \<times> string) + nat \<times> string) \<times> string list" where
  "demo_do verb path payload g = (case payload of
     ModelPayload name ps (Some i) \<Rightarrow> (Inr (200, ''{}''), i # g)
   | ModelPayload name ps None \<Rightarrow>
       (if list_ex (\<lambda>i. path = ''/model/'' @ i @ ''/update'') g then Inr (200, ''{}'') else Inr (404, ''not found on proxy''), g)
   | IdPayload i \<Rightarrow> (if i \<in> set g then (Inr (200, ''{}''), removeAll i g) else (Inr (400, ''not found in db''), g))
   | _ \<Rightarrow> (Inr (200, ''{}''), g))"

definition demo_lite :: "string list litellm" where
  "demo_lite = \<lparr>ll_do = demo_do, ll_masterKey = ''sk-master'', ll_cancelled = (\<lambda>g. False), ll_body = (\<lambda>b. None),
     ll_models = (\<lambda>b. Some []), ll_db = (\<lambda>b. Some ''connected''), ll_test = (\<lambda>b. None), ll_health = (\<lambda>b. None)\<rparr>"

text \<open>The project has one run in flight; its experiment uses the model.\<close>

definition demo_menv :: "string list model_env" where
  "demo_menv = \<lparr>ry_db = list_coll model_clash, ry_lite = demo_lite, ry_now = 7, ry_uuid = ''m1'', ry_getenv = (\<lambda>k. []),
     ry_parse_url = demo_url, ry_runs = (\<lambda>p. Inr [''x1'']),
     ry_experiments = (\<lambda>p ids. Inr [\<lparr>xr_id = ''x1'', xr_name = ''checkout'', xr_revisions = [(1, ''manifest'')]\<rparr>]),
     ry_suspended = (\<lambda>m. False), ry_aliases = (\<lambda>m. [''gpt''])\<rparr>"

lemma demo_menv_ok: "registry_env_ok demo_menv"
  by (simp add: registry_env_ok_def demo_menv_def list_coll_ok)

definition demo_input :: CreateModelConfigInput where
  "demo_input = \<lparr>cm_Alias = ''gpt'', cm_Label = None, cm_Connection = Some demo_connection\<rparr>"

definition the_task :: "mreg_error + model_task \<Rightarrow> model_task" where
  "the_task st = (case st of Inr t \<Rightarrow> t | Inl e \<Rightarrow> Dropping [])"

definition demo_start :: "string list registry_state" where
  "demo_start = after_start (create_start demo_menv ''p1'' demo_input ''mia'' (rg_world (empty_registry []))) [''m1''] (empty_registry [])"

definition run_first :: "string list registry_state \<Rightarrow> string list registry_state" where
  "run_first s = after_run demo_menv (hd (rg_tasks s)) s"

definition demo_active :: "string list registry_state" where
  "demo_active = run_first (run_first (run_first demo_start))"

lemma run_first_step: "rg_tasks s \<noteq> [] \<Longrightarrow> registry_reach s \<Longrightarrow> registry_reach (run_first s)"
  unfolding run_first_def using registry_step.runs [OF demo_menv_ok, of "hd (rg_tasks s)" s] hd_in_set registry_reach.next_state
  by blast

lemma demo_active_row:
  "map (\<lambda>r. (mc_Alias r, mc_ModelID r, mc_SyncStatus r)) (rg_rows demo_active) = [(''gpt'', ''m1'', SyncActive)]"
  "mw_gw (rg_world demo_active) = [''m1'']" "rg_tasks demo_active = []"
  by code_simp+

lemma demo_active_reach: "registry_reach demo_active"
proof -
  have "ry_uuid demo_menv \<notin> set (rg_issued (empty_registry []))" by code_simp
  moreover have uuid: "ry_uuid demo_menv = ''m1''" by (simp add: demo_menv_def)
  ultimately have "registry_step (empty_registry []) demo_start"
    using registry_step.creates [OF demo_menv_ok] unfolding demo_start_def uuid by blast
  then have "registry_reach demo_start" by (rule registry_reach.next_state [OF registry_reach.empty])
  moreover have "rg_tasks demo_start \<noteq> []" "rg_tasks (run_first demo_start) \<noteq> []" "rg_tasks (run_first (run_first demo_start)) \<noteq> []"
    by code_simp+
  ultimately show ?thesis unfolding demo_active_def by (intro run_first_step) auto
qed

theorem alias_names_one_model_witness:
  "\<exists>r'. filter (\<lambda>x. mc_Alias x = ''gpt'') (rg_rows demo_active) = [r'] \<and> mc_ModelID r' = ''m1''"
proof -
  obtain r where r: "r \<in> set (rg_rows demo_active)" "mc_Alias r = ''gpt''" "mc_ModelID r = ''m1''" "mc_SyncStatus r = SyncActive"
    using demo_active_row(1) by auto
  from alias_names_one_model [OF demo_active_reach rtranclp.rtrancl_refl r(1)] r(2-4) show ?thesis by simp
qed

section \<open>Races\<close>

text \<open>
  A deletion marks the model, a reconciler pass that runs then finishes it, and only afterwards the guard finds
  that the model is in use: the answer is that it was kept, and it is gone from LiteLLM and removed.
\<close>

definition delete_race :: "(mreg_error + model_answer) \<times> string list model_world" where
  "delete_race = (let w0 = rg_world demo_active;
     w1 = snd (run_model_task demo_menv (the_task (fst (delete_start demo_menv ''p1'' ''m1'' ''mia'' w0))) w0);
     w2 = snd (run_to_end demo_menv (Judging (hd (mw_rows w1)) True True) w1)
   in run_to_end demo_menv (Checking (hd (mw_rows w0)) (Some SyncActive)) w2)"

lemma kept_model_deleted:
  "fst delete_race = Inl (ModelInUse [''checkout''])"
  "map mc_IsRemoved (mw_rows (snd delete_race)) = [True]" "mw_gw (snd delete_race) = []"
  by code_simp+

text \<open>Without the pass in between the guard keeps the model.\<close>

lemma used_model_kept:
  "fst (RemoveModel demo_menv ''p1'' ''m1'' ''mia'' (rg_world demo_active)) = Inl (ModelInUse [''checkout''])"
  "map mc_SyncStatus (mw_rows (snd (RemoveModel demo_menv ''p1'' ''m1'' ''mia'' (rg_world demo_active)))) = [SyncActive]"
  by code_simp+

text \<open>
  A new key meets a model that is deleted meanwhile: LiteLLM no longer has it, so it is registered again, and
  the answer is an active model although its record is removed. Creation settles such a race, this does not.
\<close>

definition unused_env :: "string list model_env" where
  "unused_env = demo_menv\<lparr>ry_runs := (\<lambda>p. Inr []), ry_experiments := (\<lambda>p ids. Inr [])\<rparr>"

definition key_race :: "(mreg_error + model_answer) \<times> string list model_world" where
  "key_race = (let w0 = rg_world demo_active;
     t = the_task (fst (key_start unused_env ''p1'' ''m1'' ''sk-new-key'' ''mia'' w0));
     w1 = snd (RemoveModel unused_env ''p1'' ''m1'' ''mia'' w0)
   in run_to_end unused_env t w1)"

lemma deleted_model_served_again:
  "(case fst key_race of Inr (RowAnswer r) \<Rightarrow> mc_SyncStatus r = SyncActive | _ \<Rightarrow> False)"
  "map mc_IsRemoved (mw_rows (snd key_race)) = [True]" "mw_gw (snd key_race) = [''m1'']"
  by code_simp+

section \<open>The gate of a run\<close>

lemma GetByAlias_ok:
  assumes "registry_env_ok E"
  shows "GetByAlias E a s = Inr None \<Longrightarrow> r \<in> set s \<Longrightarrow> mc_Alias r \<noteq> a"
    "GetByAlias E a s = Inr (Some r') \<Longrightarrow> r' \<in> set s \<and> mc_Alias r' = a"
proof -
  have ok: "coll_ok model_clash (ry_db E)" using assms by (simp add: registry_env_ok_def)
  show "GetByAlias E a s = Inr None \<Longrightarrow> r \<in> set s \<Longrightarrow> mc_Alias r \<noteq> a"
    using FindOne_none [OF ok, of "\<lambda>r. mc_Alias r = a" s r]
    by (auto simp: GetByAlias_def split: sum.splits go_error.splits)
  show "GetByAlias E a s = Inr (Some r') \<Longrightarrow> r' \<in> set s \<and> mc_Alias r' = a"
    using FindOne_ok [OF ok, of "\<lambda>r. mc_Alias r = a" s r']
    by (auto simp: GetByAlias_def split: sum.splits go_error.splits)
qed

text \<open>
  What passes the gate names no model of another project and none that is removed or not active: every registered
  model an accepted list names is an active one of the project.
\<close>

lemma ValidateAliases_ok:
  assumes "registry_env_ok E" "distinct (map mc_Alias s)" "ValidateAliases E p aliases s = None" "raw \<in> set aliases"
    "TrimSpace raw \<noteq> []" "r \<in> set s" "mc_Alias r = TrimSpace raw"
  shows "mc_ProjectID r = p \<and> \<not> mc_IsRemoved r \<and> mc_SyncStatus r = SyncActive"
  using assms(3,4)
proof (induction aliases)
  case (Cons x rest)
  show ?case
  proof (cases "x = raw")
    case True
    have x: "TrimSpace x \<noteq> []" using assms(5) True by simp
    obtain row where row: "GetByAlias E (TrimSpace x) s = Inr (Some row)"
      using Cons.prems(1) x GetByAlias_ok(1) [OF assms(1) _ assms(6)] assms(7) True
      by (auto simp: Let_def split: sum.splits option.splits)
    have "row = r" using GetByAlias_ok(2) [OF assms(1) row] assms(2,6,7) True by (metis distinct_map inj_onD)
    moreover have "alias_refusal p (TrimSpace x) row = None"
      using Cons.prems(1) x row by (auto simp: Let_def split: option.splits)
    ultimately show ?thesis by (auto simp: alias_refusal_def split: if_splits)
  next
    case False
    then have "raw \<in> set rest" using Cons.prems(2) by simp
    moreover have "ValidateAliases E p rest s = None"
      using Cons.prems(1) by (auto simp: Let_def split: sum.splits option.splits if_splits)
    ultimately show ?thesis using Cons.IH by blast
  qed
qed simp

text \<open>A deleted or foreign alias is refused wherever it stands after aliases the registry does not know.\<close>

lemma unusable_alias_refused:
  "GetByAlias E (TrimSpace raw) s = Inr (Some row) \<Longrightarrow> TrimSpace raw \<noteq> [] \<Longrightarrow>
   mc_ProjectID row \<noteq> p \<or> mc_IsRemoved row \<or> mc_SyncStatus row \<noteq> SyncActive \<Longrightarrow>
   ValidateAliases E p (raw # rest) s \<noteq> None"
  by (auto simp: Let_def alias_refusal_def)

end
