(* ===== verification/Gql_Tenancy.thy ===== *)
theory Gql_Tenancy
  imports Auth_Properties Infra_Life Registry_Machine
begin

text \<open>
  The GraphQL server's role check and the resolvers of environments, infrastructures and models
  (\<^verbatim>\<open>graphql/server/pkg/authorization\<close>, \<^verbatim>\<open>pkg/grpc/auth_grpc_client.go\<close>, \<^verbatim>\<open>graph/{environment,chaos_infrastructure,model_config}.resolvers.go\<close>):
  each resolver asks the authentication server before it calls its service. The answer of the authentication
  server is its own model; whether a call reaches it is a parameter. Tokens are those the authentication server
  signs, which carry a user name. Only logging is left out.
\<close>

section \<open>Roles\<close>

definition GqlRbacRules :: "(string \<times> string list) list" where
  "GqlRbacRules =
    [(''userInfrastructureReg'', [RoleOwner]),
     (''CreateChaosExperiment'', [RoleOwner]),
     (''ReRunChaosExperiment'', [RoleOwner, RoleExecutor]),
     (''DeleteChaosEnvironment'', [RoleOwner]),
     (''StopChaosExperiment'', [RoleOwner, RoleExecutor]),
     (''AddChaosHub'', [RoleOwner]),
     (''UpdateChaosExperiment'', [RoleOwner]),
     (''DeleteInfrastructures'', [RoleOwner]),
     (''UpdateChaosHub'', [RoleOwner]),
     (''DeleteChaosHub'', [RoleOwner]),
     (''EnableGitOps'', [RoleOwner]),
     (''DisableGitOps'', [RoleOwner]),
     (''UpdateGitOps'', [RoleOwner]),
     (''ListWorkflowRuns'', [RoleOwner, RoleExecutor, RoleViewer]),
     (''GetWorkflowRun'', [RoleOwner, RoleExecutor, RoleViewer]),
     (''ListInfrastructures'', [RoleOwner, RoleExecutor, RoleViewer]),
     (''GetInfrastructure '', [RoleOwner, RoleExecutor, RoleViewer]),
     (''GetManifest'', [RoleOwner, RoleExecutor]),
     (''GetInfraDetails'', [RoleOwner, RoleExecutor]),
     (''ListCharts'', [RoleOwner, RoleExecutor, RoleViewer]),
     (''ListExperiment'', [RoleOwner, RoleExecutor, RoleViewer]),
     (''SaveChaosHub'', [RoleOwner]),
     (''CreateImageRegistry'', [RoleOwner]),
     (''UpdateImageRegistry'', [RoleOwner]),
     (''DeleteImageRegistry'', [RoleOwner]),
     (''GetGitOpsDetails'', [RoleOwner]),
     (''ListImageRegistry'', [RoleOwner]),
     (''GetImageRegistry'', [RoleOwner]),
     (''CreateEnvironment'', [RoleOwner]),
     (''UpdateEnvironment'', [RoleOwner]),
     (''DeleteEnvironment'', [RoleOwner]),
     (''GetEnvironment'', [RoleOwner, RoleExecutor, RoleViewer]),
     (''ListEnvironments'', [RoleOwner, RoleExecutor, RoleViewer]),
     (''AddProbe'', [RoleOwner]),
     (''UpdateProbe'', [RoleOwner]),
     (''GetProbe'', [RoleOwner, RoleExecutor, RoleViewer]),
     (''ListProbes'', [RoleOwner, RoleExecutor, RoleViewer]),
     (''DeleteProbe'', [RoleOwner]),
     (''CreateFaultStudio'', [RoleOwner]),
     (''UpdateFaultStudio'', [RoleOwner]),
     (''DeleteFaultStudio'', [RoleOwner]),
     (''ListFaultStudios'', [RoleOwner, RoleExecutor, RoleViewer]),
     (''GetFaultStudio'', [RoleOwner, RoleExecutor, RoleViewer]),
     (''ListModelConfigs'', [RoleOwner, RoleExecutor, RoleViewer]),
     (''ListAgentModelOptions'', [RoleOwner, RoleExecutor, RoleViewer]),
     (''CreateModelConfig'', [RoleOwner]),
     (''DeleteModelConfig'', [RoleOwner]),
     (''UpdateModelConfigKey'', [RoleOwner]),
     (''TestModelConfig'', [RoleOwner])]"

definition roles_for :: "string \<Rightarrow> string list" where
  "roles_for operation = (case map_of GqlRbacRules operation of None \<Rightarrow> [] | Some roles \<Rightarrow> roles)"

text \<open>\<open>gs_rpc\<close>: the failure of the call to the authentication server, if any.\<close>

record 'g gql_server =
  gs_auth :: env
  gs_rpc :: "go_error option"
  gs_infra :: infra_env
  gs_models :: "'g model_env"

definition ValidatorGRPCRequest :: "'g gql_server \<Rightarrow> validation_request \<Rightarrow> auth_db \<Rightarrow> bool" where
  "ValidatorGRPCRequest E r db = (gs_rpc E = None \<and> ValidateRequest (gs_auth E) r db)"

definition ValidateRole :: "'g gql_server \<Rightarrow> string \<Rightarrow> string \<Rightarrow> string \<Rightarrow> auth_db \<Rightarrow> bool" where
  "ValidateRole E jwt p operation db = ValidatorGRPCRequest E
     \<lparr>vr_Jwt = jwt, vr_ProjectId = p, vr_RequiredRoles = roles_for operation, vr_Invitation = AcceptedInvitation\<rparr> db"

definition GetUsername :: "'g gql_server \<Rightarrow> string \<Rightarrow> auth_db \<Rightarrow> go_error + string" where
  "GetUsername E jwt db = (case GetConfig (gs_auth E) ''salt'' (db_config db) of Inl e \<Rightarrow> Inl e
     | Inr salt \<Rightarrow> (case jwtParse (gs_auth E) (Inr (ac_Value salt)) jwt of Inl _ \<Rightarrow> Inl (Plain ''invalid Token'')
         | Inr c \<Rightarrow> Inr (c_username c)))"

text \<open>The bearer token of a request; a revoked one is refused. A failing lookup counts as not revoked.\<close>

definition request_token :: "string \<Rightarrow> string" where
  "request_token h = (if HasPrefix h BearerSchema then drop (length BearerSchema) h else h)"

definition IsRevokedToken :: "'g gql_server \<Rightarrow> string \<Rightarrow> auth_db \<Rightarrow> bool" where
  "IsRevokedToken E jwt db = (case FindOne (revokedC (gs_auth E)) (\<lambda>t. rt_Token t = jwt) (db_revoked db) of Inl _ \<Rightarrow> False | Inr _ \<Rightarrow> True)"

definition Middleware :: "'g gql_server \<Rightarrow> string \<Rightarrow> auth_db \<Rightarrow> string option" where
  "Middleware E header db = (let jwt = request_token header in if IsRevokedToken E jwt db then None else Some jwt)"

section \<open>Resolvers\<close>

definition guarded ::
  "'g gql_server \<Rightarrow> string \<Rightarrow> string \<Rightarrow> string \<Rightarrow> auth_db \<Rightarrow> ('w \<Rightarrow> (go_error + 'a) \<times> 'w) \<Rightarrow> 'w \<Rightarrow> (go_error + 'a) \<times> 'w" where
  "guarded E jwt p operation db f w =
     (if ValidateRole E jwt p operation db then f w else (Inl (Plain ''permission_denied''), w))"

definition as_user ::
  "'g gql_server \<Rightarrow> string \<Rightarrow> auth_db \<Rightarrow> (string \<Rightarrow> 'w \<Rightarrow> 'a \<times> 'w) \<Rightarrow> 'w \<Rightarrow> (go_error + 'a) \<times> 'w" where
  "as_user E jwt db f w = (case GetUsername E jwt db of Inl e \<Rightarrow> (Inl e, w) | Inr user \<Rightarrow> apfst Inr (f user w))"

definition CreateEnvironment_gql where
  "CreateEnvironment_gql E jwt p r db = guarded E jwt p ''CreateEnvironment'' db
     (as_user E jwt db (CreateEnvironment (gs_infra E) p r))"

definition UpdateEnvironment_gql where
  "UpdateEnvironment_gql E jwt p r db = guarded E jwt p ''UpdateEnvironment'' db
     (as_user E jwt db (UpdateEnvironment (gs_infra E) p r))"

definition DeleteEnvironment_gql where
  "DeleteEnvironment_gql E jwt p i db = guarded E jwt p ''DeleteEnvironment'' db
     (as_user E jwt db (DeleteEnvironment (gs_infra E) p i))"

definition GetEnvironment_gql where
  "GetEnvironment_gql E jwt p i db = guarded E jwt p ''GetEnvironment'' db
     (\<lambda>w. (GetEnvironment (gs_infra E) p i w, w))"

text \<open>The services of infrastructures read the user's name from the token themselves.\<close>

definition infra_of :: "'g gql_server \<Rightarrow> string \<Rightarrow> auth_db \<Rightarrow> infra_env" where
  "infra_of E jwt db = (gs_infra E)\<lparr>ie_username := GetUsername E jwt db\<rparr>"

definition RegisterInfra_gql where
  "RegisterInfra_gql E jwt h p r db = guarded E jwt p ''userInfrastructureReg'' db
     (\<lambda>w. apfst Inr (RegisterInfra (infra_of E jwt db) h p r w))"

definition DeleteInfra_gql where
  "DeleteInfra_gql E jwt p i db = guarded E jwt p ''DeleteInfrastructures'' db
     (\<lambda>w. apfst Inr (DeleteInfra (infra_of E jwt db) p i w))"

text \<open>The error of the role check is overwritten by that of the lookup.\<close>

definition GetInfraDetails_gql where
  "GetInfraDetails_gql E jwt i p db w =
     (let err = (if ValidateRole E jwt p ''GetInfraDetails'' db then None else Some (Plain ''permission_denied''));
          (r, err) = (case GetInfraDetails (gs_infra E) i p w of Inl e \<Rightarrow> (None, Some e) | Inr d \<Rightarrow> (Some d, None))
      in case err of Some e \<Rightarrow> Inl e | None \<Rightarrow> Inr (the r))"

definition GetInfraManifest_gql where
  "GetInfraManifest_gql E jwt h i p db w =
     (if \<not> ValidateRole E jwt p ''GetManifest'' db then Inl (Plain ''permission_denied'')
      else (case op_GetInfra (gs_infra E) i w of Inl e \<Rightarrow> Inl e
        | Inr d \<Rightarrow> Inr (GetK8sInfraYaml (ie_config (gs_infra E)) (ie_manifests (gs_infra E)) (resolveManifestHost h) d)))"

definition CreateModelConfig_gql where
  "CreateModelConfig_gql E jwt p r db = guarded E jwt p ''CreateModelConfig'' db
     (as_user E jwt db (CreateModel (gs_models E) p r))"

definition DeleteModelConfig_gql where
  "DeleteModelConfig_gql E jwt p i db = guarded E jwt p ''DeleteModelConfig'' db
     (as_user E jwt db (RemoveModel (gs_models E) p i))"

definition UpdateModelConfigKey_gql where
  "UpdateModelConfigKey_gql E jwt p i key db = guarded E jwt p ''UpdateModelConfigKey'' db
     (as_user E jwt db (UpdateKey (gs_models E) p i key))"

text \<open>It spends the key an owner enters: the role is that of creating a model.\<close>

definition TestModelConnection_gql where
  "TestModelConnection_gql E jwt p i db = guarded E jwt p ''CreateModelConfig'' db
     (\<lambda>w. apfst Inr (TestConnection (gs_models E) i w))"

definition TestModelConfig_gql where
  "TestModelConfig_gql E jwt p i db = guarded E jwt p ''TestModelConfig'' db
     (\<lambda>w. apfst Inr (TestModel (gs_models E) p i w))"

section \<open>Documents of other projects\<close>

definition others :: "('d \<Rightarrow> string) \<Rightarrow> string \<Rightarrow> 'd list \<Rightarrow> 'd list" where
  "others owner p s = filter (\<lambda>d. owner d \<noteq> p) s"

lemma others_replaced:
  "replaced_one q f s s' \<Longrightarrow> (\<And>d. d \<in> set s \<Longrightarrow> q d \<Longrightarrow> owner d = p \<and> owner (f d) = p) \<Longrightarrow> others owner p s' = others owner p s"
  unfolding replaced_one_def others_def by fastforce

lemma others_removed:
  "removed_one q s s' \<Longrightarrow> (\<And>d. d \<in> set s \<Longrightarrow> q d \<Longrightarrow> owner d = p) \<Longrightarrow> others owner p s' = others owner p s"
  unfolding removed_one_def others_def by fastforce

lemma others_updated:
  assumes "coll_ok clash c" "UpdateMany c q f s = (r, s')" "\<And>d. q d \<Longrightarrow> owner d = p \<and> owner (f d) = p"
  shows "others owner p s' = others owner p s"
proof -
  have "list_all2 (\<lambda>d d'. d' = d \<or> q d \<and> d' = f d) s s'" by (rule UpdateMany_rel [OF assms(1,2)])
  then show ?thesis
  proof induction
    case (Cons d s d' s')
    then show ?case using assms(3) by (auto simp: others_def)
  qed (simp add: others_def)
qed

lemma others_inserted:
  assumes "coll_ok clash c" "InsertOne c d s = (r, s')" "owner d = p"
  shows "others owner p s' = others owner p s"
  by (rule InsertOne_cases [OF assms(1,2)]) (auto simp: others_def assms(3))

section \<open>The interface of a service\<close>

text \<open>An operation that a project's owner may call leaves the documents of other projects as they are.\<close>

locale project_operation =
  fixes run :: "'e \<Rightarrow> string \<Rightarrow> 'r \<Rightarrow> 'w \<Rightarrow> 'a \<times> 'w"
    and ok :: "'e \<Rightarrow> 'w \<Rightarrow> bool"
    and foreign :: "string \<Rightarrow> 'w \<Rightarrow> 'v"
  assumes stays: "ok e w \<Longrightarrow> foreign p (snd (run e p r w)) = foreign p w"
begin

lemma stays_as_user:
  assumes "ok e w"
  shows "foreign p (snd (as_user E jwt db (\<lambda>user. run e p (req user)) w)) = foreign p w"
  by (simp add: as_user_def stays [OF assms] split: sum.splits)

lemma stays_answer:
  assumes "ok e w"
  shows "foreign p (snd (apfst Inr (run e p r w))) = foreign p w"
  by (simp add: stays [OF assms])

end

definition docs_of_others :: "string \<Rightarrow> infra_world \<Rightarrow> ChaosInfra list \<times> Environment list" where
  "docs_of_others p w = (others inf_ProjectID p (iw_infras w), others en_ProjectID p (iw_envs w))"

definition infra_ok :: "infra_env \<Rightarrow> infra_world \<Rightarrow> bool" where
  "infra_ok E w = infra_env_ok E"

lemma infra_colls: "infra_ok E w \<Longrightarrow> coll_ok same_infra_id (ie_infras E)" "infra_ok E w \<Longrightarrow> coll_ok same_live_env (ie_envs E)"
  by (simp_all add: infra_ok_def infra_env_ok_def)

lemma update_envs_others:
  assumes "infra_ok E w" "update_envs E q f w = (r, w')" "\<And>d. q d \<Longrightarrow> en_ProjectID d = p" "\<And>d. en_ProjectID (f d) = en_ProjectID d"
  shows "docs_of_others p w' = docs_of_others p w"
proof -
  obtain n s where u: "UpdateMany (ie_envs E) q f (iw_envs w) = (n, s)" by (metis prod.exhaust)
  have "others en_ProjectID p s = others en_ProjectID p (iw_envs w)"
    by (rule others_updated [OF infra_colls(2) [OF assms(1)] u]) (simp add: assms(3,4))
  then show ?thesis using assms(2) u by (auto simp: update_envs_def docs_of_others_def)
qed

lemma update_infras_others:
  assumes "infra_ok E w" "update_infras E q f w = (r, w')" "\<And>d. q d \<Longrightarrow> inf_ProjectID d = p" "\<And>d. inf_ProjectID (f d) = inf_ProjectID d"
  shows "docs_of_others p w' = docs_of_others p w"
proof -
  obtain n s where u: "UpdateMany (ie_infras E) q f (iw_infras w) = (n, s)" by (metis prod.exhaust)
  have "others inf_ProjectID p s = others inf_ProjectID p (iw_infras w)"
    by (rule others_updated [OF infra_colls(1) [OF assms(1)] u]) (simp add: assms(3,4))
  then show ?thesis using assms(2) u by (auto simp: update_infras_def docs_of_others_def)
qed

lemma live_env_owner: "live_env p i d \<Longrightarrow> en_ProjectID d = p"
  by (simp add: live_env_def)

lemma infra_ok_any: "infra_ok E w \<Longrightarrow> infra_ok E w'"
  by (simp add: infra_ok_def)

interpretation env_create: project_operation "\<lambda>E p (r, user). CreateEnvironment E p r user" infra_ok docs_of_others
proof unfold_locales
  fix E w p and r :: "CreateEnvironmentRequest \<times> string"
  assume ok: "infra_ok E w"
  obtain q user where r: "r = (q, user)" by (metis prod.exhaust)
  obtain res s where i: "InsertOne (ie_envs E) (new_environment E p q user) (iw_envs w) = (res, s)" by (metis prod.exhaust)
  have "others en_ProjectID p s = others en_ProjectID p (iw_envs w)"
    by (rule others_inserted [OF infra_colls(2) [OF ok] i]) (simp add: new_environment_def)
  then show "docs_of_others p (snd ((case r of (r, user) \<Rightarrow> CreateEnvironment E p r user) w)) = docs_of_others p w"
    using i by (simp add: r CreateEnvironment_def docs_of_others_def split: option.splits)
qed

interpretation env_update: project_operation "\<lambda>E p (r, user). UpdateEnvironment E p r user" infra_ok docs_of_others
proof unfold_locales
  fix E w p and r :: "UpdateEnvironmentRequest \<times> string"
  assume ok: "infra_ok E w"
  show "docs_of_others p (snd ((case r of (r, user) \<Rightarrow> UpdateEnvironment E p r user) w)) = docs_of_others p w"
    by (auto simp: UpdateEnvironment_def Let_def split: sum.splits prod.splits option.splits
        elim!: update_envs_others [OF ok] live_env_owner)
qed

interpretation env_delete: project_operation "\<lambda>E p (i, user). DeleteEnvironment E p i user" infra_ok docs_of_others
proof unfold_locales
  fix E w p and r :: "string \<times> string"
  assume ok: "infra_ok E w"
  show "docs_of_others p (snd ((case r of (r, user) \<Rightarrow> DeleteEnvironment E p r user) w)) = docs_of_others p w"
    by (auto simp: DeleteEnvironment_def Let_def split: sum.splits prod.splits option.splits
        elim!: update_envs_others [OF ok] live_env_owner)
qed

interpretation infra_register: project_operation "\<lambda>E p (h, r). RegisterInfra E h p r" infra_ok docs_of_others
proof unfold_locales
  fix E w p and r :: "request_headers \<times> RegisterInfraRequest"
  assume ok: "infra_ok E w"
  obtain h q where r: "r = (h, q)" by (metis prod.exhaust)
  show "docs_of_others p (snd ((case r of (h, r) \<Rightarrow> RegisterInfra E h p r) w)) = docs_of_others p w"
  proof (cases "register_checks E p q w")
    case (Inr ut)
    obtain user token where u: "register_checks E p q w = Inr (user, token)" using Inr by (metis prod.exhaust)
    obtain res s where i: "InsertOne (ie_infras E) (new_infra E p user token q) (iw_infras w) = (res, s)" by (metis prod.exhaust)
    have "others inf_ProjectID p s = others inf_ProjectID p (iw_infras w)"
      by (rule others_inserted [OF infra_colls(1) [OF ok] i]) (simp add: new_infra_def)
    then have docs: "docs_of_others p (w\<lparr>iw_infras := s\<rparr>) = docs_of_others p w" by (simp add: docs_of_others_def)
    have pushed: "docs_of_others p w' = docs_of_others p w"
      if "update_envs E (env_query p (ri_EnvironmentID q)) (push_infra (ie_uuid E)) (w\<lparr>iw_infras := s\<rparr>) = (e, w')" for e w'
      using update_envs_others [OF infra_ok_any [OF ok] that, of p] docs by (simp add: env_query_def push_infra_def)
    show ?thesis using u i docs
      by (auto simp: r RegisterInfra_def Let_def dest!: pushed split: option.splits prod.splits go_result.splits)
  qed (simp add: r RegisterInfra_def)
qed

interpretation infra_delete: project_operation DeleteInfra infra_ok docs_of_others
proof unfold_locales
  fix E w p i
  assume ok: "infra_ok E w"
  have removed: "docs_of_others p w' = docs_of_others p v"
    if "update_infras E (live_infra p i) (\<lambda>x. x\<lparr>inf_IsRemoved := True, inf_UpdatedAt := ie_now E, inf_UpdatedBy := user\<rparr>) v = (e, w')"
    for user e w' v
    using update_infras_others [OF infra_ok_any [OF ok] that, of p] by (simp add: live_infra_def)
  have pulled: "docs_of_others p w' = docs_of_others p v"
    if "update_envs E (env_query p n) (pull_infra k) v = (e, w')" for n k e w' v
    using update_envs_others [OF infra_ok_any [OF ok] that, of p] by (simp add: env_query_def pull_infra_def)
  have torn: "docs_of_others p (tear_down E d ns v) = docs_of_others p v" for d ns v
    by (simp add: tear_down_def docs_of_others_def Let_def)
  show "docs_of_others p (snd (DeleteInfra E p i w)) = docs_of_others p w"
    by (auto simp: DeleteInfra_def torn dest!: removed pulled split: sum.splits option.splits prod.splits)
qed

section \<open>Models of other projects\<close>

definition models_ok :: "'g model_env \<Rightarrow> 'g model_world \<Rightarrow> bool" where
  "models_ok E w = (registry_env_ok E \<and> distinct (map mc_Alias (mw_rows w)) \<and> distinct (map mc_ModelID (mw_rows w)))"

definition models_of_others :: "string \<Rightarrow> 'g model_world \<Rightarrow> ModelConfig list" where
  "models_of_others p w = others mc_ProjectID p (mw_rows w)"

definition task_in :: "string \<Rightarrow> model_task \<Rightarrow> ModelConfig list \<Rightarrow> bool" where
  "task_in p t s = (case t of Inserting row key \<Rightarrow> mc_ProjectID row = p
     | _ \<Rightarrow> \<forall>r \<in> set s. mc_ModelID r = task_id t \<longrightarrow> mc_ProjectID r = p)"

lemma task_in_rows: "to_insert t = None \<Longrightarrow> task_in p t s = (\<forall>r \<in> set s. mc_ModelID r = task_id t \<longrightarrow> mc_ProjectID r = p)"
  by (cases t) (simp_all add: task_in_def)

lemma task_effect_in:
  assumes "task_effect t s s'" "to_insert t = None" "task_in p t s"
  shows "others mc_ProjectID p s' = others mc_ProjectID p s" "\<forall>r \<in> set s'. mc_ModelID r = task_id t \<longrightarrow> mc_ProjectID r = p"
proof -
  have own: "mc_ProjectID r = p" if "r \<in> set s" "mc_ModelID r = task_id t" for r
    using assms(3) task_in_rows [OF assms(2)] that by blast
  consider "s' = s" | gd c now where "replaced_one (guard_filter gd (task_id t)) (apply_changes now c) s s'"
    | "removed_one (guard_filter (in_status [SyncPending]) (task_id t)) s s'"
    using assms(1,2) unfolding task_effect_def by fastforce
  then have "others mc_ProjectID p s' = others mc_ProjectID p s \<and> (\<forall>r \<in> set s'. mc_ModelID r = task_id t \<longrightarrow> mc_ProjectID r = p)"
  proof cases
    case 2
    have "others mc_ProjectID p s' = others mc_ProjectID p s"
      by (rule others_replaced [OF 2]) (simp add: guard_filter_def own)
    moreover have "mc_ProjectID r = p" if "r \<in> set s'" "mc_ModelID r = task_id t" for r
      using replaced_one_set [OF 2 that(1)] own that(2) by auto
    ultimately show ?thesis by blast
  next
    case 3
    have "others mc_ProjectID p s' = others mc_ProjectID p s"
      by (rule others_removed [OF 3]) (simp add: guard_filter_def own)
    moreover have "set s' \<subseteq> set s" using 3 by (auto simp: removed_one_def)
    ultimately show ?thesis using own by blast
  qed (use own in blast)
  then show "others mc_ProjectID p s' = others mc_ProjectID p s" "\<forall>r \<in> set s'. mc_ModelID r = task_id t \<longrightarrow> mc_ProjectID r = p"
    by auto
qed

lemma run_model_task_in:
  assumes "registry_env_ok E" "task_in p t (mw_rows w)" "run_model_task E t w = (pr, w')"
  shows "models_of_others p w' = models_of_others p w" "t' \<in> set (continued pr) \<Longrightarrow> task_in p t' (mw_rows w')"
proof -
  have eff: "task_effect t (mw_rows w) (mw_rows w')" using run_task_effect [OF assms(1), of t w] assms(3) by simp
  have cont: "task_in p t' (mw_rows w')" if "t' \<in> set (continued pr)" "\<forall>r \<in> set (mw_rows w'). mc_ModelID r = task_id t \<longrightarrow> mc_ProjectID r = p"
    using task_in_rows [OF continued_no_insert [OF assms(3) that(1)]] continued_id [OF assms(3) that(1)] that(2) by simp
  have both: "models_of_others p w' = models_of_others p w \<and> (t' \<in> set (continued pr) \<longrightarrow> task_in p t' (mw_rows w'))"
  proof (cases "to_insert t")
    case None
    show ?thesis using task_effect_in [OF eff None assms(2)] cont by (simp add: models_of_others_def)
  next
    case (Some i)
    then obtain row key where t: "t = Inserting row key" by (cases t) auto
    have p: "mc_ProjectID row = p" using assms(2) by (simp add: t task_in_def)
    have ok: "coll_ok model_clash (ry_db E)" using assms(1) by (simp add: registry_env_ok_def)
    obtain res s where i: "InsertOne (ry_db E) row (mw_rows w) = (res, s)" by (metis prod.exhaust)
    have w': "mw_rows w' = s" using assms(3) i by (auto simp: t split: option.splits)
    have "others mc_ProjectID p s = others mc_ProjectID p (mw_rows w)" by (rule others_inserted [OF ok i]) (rule p)
    moreover have "task_in p t' s" if t': "t' \<in> set (continued pr)"
    proof (rule InsertOne_cases [OF ok i])
      assume "s = mw_rows w" "res \<noteq> None"
      then show ?thesis using t' assms(3) i by (auto simp: t)
    next
      assume s: "s = mw_rows w @ [row]" and new: "\<And>d'. d' \<in> set (mw_rows w) \<Longrightarrow> \<not> model_clash row d'"
      then have "\<forall>r \<in> set s. mc_ModelID r = task_id t \<longrightarrow> mc_ProjectID r = p" using p new by (force simp: t model_clash_def)
      then show ?thesis using cont t' w' by simp
    qed
    ultimately show ?thesis using w' by (simp add: models_of_others_def)
  qed
  show "models_of_others p w' = models_of_others p w" using both by blast
  show "t' \<in> set (continued pr) \<Longrightarrow> task_in p t' (mw_rows w')" using both by blast
qed

lemma run_to_end_in:
  assumes "registry_env_ok E"
  shows "task_in p t (mw_rows w) \<Longrightarrow> models_of_others p (snd (run_to_end E t w)) = models_of_others p w"
proof (induction "task_rank t" arbitrary: t w rule: less_induct)
  case less
  obtain pr w' where run: "run_model_task E t w = (pr, w')" by (metis prod.exhaust)
  note kept = run_model_task_in [OF assms less.prems run]
  show ?case
  proof (cases pr)
    case (Continue t')
    then show ?thesis
      using less.hyps [of t' w'] run_task_rank [of E t w t' w'] kept run run_to_end.simps [of E t w] by simp
  next
    case (Finish r)
    then show ?thesis using kept run run_to_end.simps [of E t w] by simp
  qed
qed

lemma then_run_in:
  assumes "registry_env_ok E" "st = (r, w')" "mw_rows w' = mw_rows w" "\<And>t. r = Inr t \<Longrightarrow> task_in p t (mw_rows w)"
  shows "models_of_others p (snd (then_run E st)) = models_of_others p w"
  using assms(2-4) run_to_end_in [OF assms(1), of p _ w'] by (cases r) (simp_all add: then_run_def models_of_others_def)

lemma projectModel_in:
  assumes "models_ok E w" "projectModel E p i (mw_rows w) = Inr row"
  shows "mc_ProjectID row = p" "r \<in> set (mw_rows w) \<Longrightarrow> mc_ModelID r = mc_ModelID row \<Longrightarrow> mc_ProjectID r = p"
proof -
  have ok: "registry_env_ok E" and d: "distinct (map mc_ModelID (mw_rows w))" using assms(1) by (simp_all add: models_ok_def)
  show p: "mc_ProjectID row = p" using assms(2) by (auto simp: projectModel_def split: sum.splits option.splits if_splits)
  show "mc_ProjectID r = p" if "r \<in> set (mw_rows w)" "mc_ModelID r = mc_ModelID row"
    using inj_onD [of mc_ModelID "set (mw_rows w)" r row] d that projectModel_row [OF ok assms(2)] p by (simp add: distinct_map)
qed

interpretation model_create: project_operation "\<lambda>E p (r, user). CreateModel E p r user" models_ok models_of_others
proof unfold_locales
  fix E :: "'g model_env" and w p and r :: "CreateModelConfigInput \<times> string"
  assume "models_ok E w"
  then have ok: "registry_env_ok E" by (simp add: models_ok_def)
  obtain q user where r: "r = (q, user)" by (metis prod.exhaust)
  obtain st w' where st: "create_start E p q user w = (st, w')" by (metis prod.exhaust)
  have rows: "mw_rows w' = mw_rows w" using create_start_task [OF st] by blast
  have own: "task_in p t (mw_rows w)" if "st = Inr t" for t
    using st that by (auto simp: create_start_def new_row_def task_in_def split: sum.splits option.splits if_splits prod.splits)
  show "models_of_others p (snd ((case r of (r, user) \<Rightarrow> CreateModel E p r user) w)) = models_of_others p w"
    using then_run_in [OF ok st rows own] by (simp add: r CreateModel_def)
qed

interpretation model_delete: project_operation "\<lambda>E p (i, user). RemoveModel E p i user" models_ok models_of_others
proof unfold_locales
  fix E :: "'g model_env" and w p and r :: "string \<times> string"
  assume m: "models_ok E w"
  then have ok: "registry_env_ok E" by (simp add: models_ok_def)
  obtain i user where r: "r = (i, user)" by (metis prod.exhaust)
  have own: "task_in p t (mw_rows w)" if "fst (delete_start E p i user w) = Inr t" for t
    using that projectModel_in [OF m] by (auto simp: delete_start_def task_in_def split: sum.splits)
  show "models_of_others p (snd ((case r of (i, user) \<Rightarrow> RemoveModel E p i user) w)) = models_of_others p w"
    using then_run_in [OF ok prod.collapse [symmetric] _ own] by (simp add: r RemoveModel_def)
qed

interpretation model_rekey: project_operation "\<lambda>E p ((i, key), user). UpdateKey E p i key user" models_ok models_of_others
proof unfold_locales
  fix E :: "'g model_env" and w p and r :: "(string \<times> string) \<times> string"
  assume m: "models_ok E w"
  then have ok: "registry_env_ok E" by (simp add: models_ok_def)
  obtain i key user where r: "r = ((i, key), user)" by (metis prod.exhaust)
  have own: "task_in p t (mw_rows w)" if "fst (key_start E p i key user w) = Inr t" for t
    using that projectModel_in [OF m] by (auto simp: key_start_def task_in_def split: sum.splits if_splits)
  show "models_of_others p (snd ((\<lambda>((i, key), user). UpdateKey E p i key user) r w)) = models_of_others p w"
    using then_run_in [OF ok prod.collapse [symmetric] _ own] by (simp add: r UpdateKey_def)
qed

section \<open>Requests\<close>

datatype gql_mutation =
    CreateEnvironmentM CreateEnvironmentRequest
  | UpdateEnvironmentM UpdateEnvironmentRequest
  | DeleteEnvironmentM string
  | RegisterInfraM request_headers RegisterInfraRequest
  | DeleteInfraM string
  | CreateModelM CreateModelConfigInput
  | DeleteModelM string
  | UpdateKeyM string string

record 'g gql_world = gq_infra :: infra_world  gq_models :: "'g model_world"

definition on_infra :: "(infra_world \<Rightarrow> 'a \<times> infra_world) \<Rightarrow> 'g gql_world \<Rightarrow> 'g gql_world" where
  "on_infra f w = w\<lparr>gq_infra := snd (f (gq_infra w))\<rparr>"

definition on_models :: "('g model_world \<Rightarrow> 'a \<times> 'g model_world) \<Rightarrow> 'g gql_world \<Rightarrow> 'g gql_world" where
  "on_models f w = w\<lparr>gq_models := snd (f (gq_models w))\<rparr>"

fun mutate :: "'g gql_server \<Rightarrow> string \<Rightarrow> string \<Rightarrow> gql_mutation \<Rightarrow> auth_db \<Rightarrow> 'g gql_world \<Rightarrow> 'g gql_world" where
  "mutate E jwt p (CreateEnvironmentM r) db w = on_infra (CreateEnvironment_gql E jwt p r db) w"
| "mutate E jwt p (UpdateEnvironmentM r) db w = on_infra (UpdateEnvironment_gql E jwt p r db) w"
| "mutate E jwt p (DeleteEnvironmentM i) db w = on_infra (DeleteEnvironment_gql E jwt p i db) w"
| "mutate E jwt p (RegisterInfraM h r) db w = on_infra (RegisterInfra_gql E jwt h p r db) w"
| "mutate E jwt p (DeleteInfraM i) db w = on_infra (DeleteInfra_gql E jwt p i db) w"
| "mutate E jwt p (CreateModelM r) db w = on_models (CreateModelConfig_gql E jwt p r db) w"
| "mutate E jwt p (DeleteModelM i) db w = on_models (DeleteModelConfig_gql E jwt p i db) w"
| "mutate E jwt p (UpdateKeyM i key) db w = on_models (UpdateModelConfigKey_gql E jwt p i key db) w"

definition world_ok :: "'g gql_server \<Rightarrow> 'g gql_world \<Rightarrow> bool" where
  "world_ok E w = (env_ok (gs_auth E) \<and> infra_env_ok (gs_infra E) \<and> models_ok (gs_models E) (gq_models w))"

text \<open>The owner behind a token: valid, not revoked, of an active user who has accepted to own the project.\<close>

definition token_of_owner :: "env \<Rightarrow> string \<Rightarrow> string \<Rightarrow> auth_db \<Rightarrow> bool" where
  "token_of_owner e jwt p db = (case ValidateToken e jwt db of Inl _ \<Rightarrow> False
     | Inr c \<Rightarrow> (case c_uid c of None \<Rightarrow> False | Some uid \<Rightarrow> accepted_owner_of uid p db))"

definition others_kept :: "string \<Rightarrow> 'g gql_world \<Rightarrow> 'g gql_world \<Rightarrow> bool" where
  "others_kept p w w' = (docs_of_others p (gq_infra w') = docs_of_others p (gq_infra w) \<and>
     models_of_others p (gq_models w') = models_of_others p (gq_models w))"

lemma ValidateRole_owner:
  assumes "env_ok (gs_auth E)" "roles_for op = [RoleOwner]" "ValidateRole E jwt p op db"
  shows "token_of_owner (gs_auth E) jwt p db"
proof -
  obtain c uid where v: "ValidateToken (gs_auth E) jwt db = Inr c" "c_uid c = Some uid"
    "RbacValidator (gs_auth E) uid p [RoleOwner] AcceptedInvitation db = None"
    using assms(2,3) by (auto simp: ValidateRole_def ValidatorGRPCRequest_def ValidateRequest_def split: sum.splits option.splits)
  then show ?thesis
    using RbacValidator_sound [OF assms(1) v(3)] by (simp add: token_of_owner_def v owner_permitted)
qed

lemma guarded_change:
  assumes "env_ok (gs_auth E)" "roles_for op = [RoleOwner]" "\<not> token_of_owner (gs_auth E) jwt p db"
  shows "snd (guarded E jwt p op db f w) = w"
  using ValidateRole_owner [OF assms(1,2)] assms(3) by (auto simp: guarded_def)

lemma guarded_stays: "foreign (snd (f w)) = foreign w \<Longrightarrow> foreign (snd (guarded E jwt p op db f w)) = foreign w"
  by (simp add: guarded_def)

lemmas gql_mutations = CreateEnvironment_gql_def UpdateEnvironment_gql_def DeleteEnvironment_gql_def RegisterInfra_gql_def
  DeleteInfra_gql_def CreateModelConfig_gql_def DeleteModelConfig_gql_def UpdateModelConfigKey_gql_def

lemma owner_operations:
  "list_all (\<lambda>op. roles_for op = [RoleOwner]) [''CreateEnvironment'', ''UpdateEnvironment'', ''DeleteEnvironment'',
     ''userInfrastructureReg'', ''DeleteInfrastructures'', ''CreateModelConfig'', ''DeleteModelConfig'', ''UpdateModelConfigKey'']"
  by code_simp

lemma mutate_denied:
  assumes "env_ok (gs_auth E)" "\<not> token_of_owner (gs_auth E) jwt p db"
  shows "mutate E jwt p m db w = w"
  using owner_operations
  by (cases m) (simp_all add: gql_mutations on_infra_def on_models_def guarded_change [OF assms(1) _ assms(2)])

lemma mutate_others:
  assumes "world_ok E w"
  shows "others_kept p w (mutate E jwt p m db w)"
proof -
  have i: "infra_ok (gs_infra E) (gq_infra w)" "infra_ok (infra_of E jwt db) (gq_infra w)" and g: "models_ok (gs_models E) (gq_models w)"
    using assms by (simp_all add: world_ok_def infra_ok_def infra_of_def infra_env_ok_def)
  show ?thesis
    using env_create.stays_as_user [OF i(1), of p E jwt db "Pair r" for r]
      env_update.stays_as_user [OF i(1), of p E jwt db "Pair r" for r]
      env_delete.stays_as_user [OF i(1), of p E jwt db "Pair r" for r]
      infra_register.stays_answer [OF i(2), of p "(h, r)" for h r] infra_delete.stays_answer [OF i(2), of p]
      model_create.stays_as_user [OF g, of p E jwt db "Pair r" for r]
      model_delete.stays_as_user [OF g, of p E jwt db "Pair r" for r]
      model_rekey.stays_as_user [OF g, of p E jwt db "Pair (k, r)" for k r]
    by (cases m) (simp_all add: gql_mutations others_kept_def on_infra_def on_models_def guarded_def)
qed

section \<open>Sequences of requests\<close>

lemma run_to_end_distinct:
  assumes "models_ok E w"
  shows "models_ok E' w \<Longrightarrow> models_ok E' (snd (run_to_end E t w))"
  using assms
proof (induction "task_rank t" arbitrary: t w rule: less_induct)
  case less
  obtain pr w' where run: "run_model_task E t w = (pr, w')" by (metis prod.exhaust)
  have "task_effect t (mw_rows w) (mw_rows w')" using run_task_effect [of E t w] run less.prems(2) by (simp add: models_ok_def)
  then have d: "models_ok E w'" "models_ok E' w'" using task_effect_distinct less.prems unfolding models_ok_def by blast+
  show ?case
  proof (cases pr)
    case (Continue t')
    then show ?thesis
      using less.hyps [of t' w'] run_task_rank [of E t w t' w'] d run run_to_end.simps [of E t w] by simp
  next
    case (Finish r)
    then show ?thesis using d run run_to_end.simps [of E t w] by simp
  qed
qed

lemma then_run_ok:
  assumes "models_ok E w" "mw_rows (snd st) = mw_rows w" "models_ok E' w"
  shows "models_ok E' (snd (then_run E st))"
proof -
  have "models_ok E (snd st)" "models_ok E' (snd st)" using assms by (simp_all add: models_ok_def)
  then show ?thesis using run_to_end_distinct [of E "snd st" E'] by (auto simp: then_run_def split: prod.splits sum.splits)
qed

lemma model_operations_ok:
  assumes "models_ok E w" "models_ok E' w"
  shows "models_ok E' (snd (CreateModel E p r user w))" "models_ok E' (snd (RemoveModel E p i user w))"
    "models_ok E' (snd (UpdateKey E p i key user w))"
proof -
  have "mw_rows (snd (create_start E p r user w)) = mw_rows w" using create_start_task [of E p r user w] by (metis prod.collapse)
  then show "models_ok E' (snd (CreateModel E p r user w))" using then_run_ok [OF assms(1) _ assms(2)] by (simp add: CreateModel_def)
  show "models_ok E' (snd (RemoveModel E p i user w))" using then_run_ok [OF assms(1) _ assms(2)] by (simp add: RemoveModel_def)
  show "models_ok E' (snd (UpdateKey E p i key user w))" using then_run_ok [OF assms(1) _ assms(2)] by (simp add: UpdateKey_def)
qed

lemma mutate_ok: "world_ok E w \<Longrightarrow> world_ok E' w \<Longrightarrow> world_ok E' (mutate E jwt p m db w)"
  by (cases m) (auto simp: gql_mutations on_infra_def on_models_def guarded_def as_user_def world_ok_def model_operations_ok
      split: sum.splits)

record 'g gql_request =
  rq_server :: "'g gql_server"
  rq_token :: string
  rq_project :: string
  rq_mutation :: gql_mutation
  rq_auth :: auth_db

definition handle_request :: "'g gql_request \<Rightarrow> 'g gql_world \<Rightarrow> 'g gql_world" where
  "handle_request q w = mutate (rq_server q) (rq_token q) (rq_project q) (rq_mutation q) (rq_auth q) w"

definition by_owner_of :: "string \<Rightarrow> 'g gql_request \<Rightarrow> bool" where
  "by_owner_of p q = (rq_project q = p \<and> token_of_owner (gs_auth (rq_server q)) (rq_token q) p (rq_auth q))"

text \<open>All that is stored of a project.\<close>

definition documents_of :: "string \<Rightarrow> 'g gql_world \<Rightarrow> ChaosInfra list \<times> Environment list \<times> ModelConfig list" where
  "documents_of p w = (filter (\<lambda>d. inf_ProjectID d = p) (iw_infras (gq_infra w)),
     filter (\<lambda>d. en_ProjectID d = p) (iw_envs (gq_infra w)), filter (\<lambda>d. mc_ProjectID d = p) (mw_rows (gq_models w)))"

lemma others_filter: "p \<noteq> p' \<Longrightarrow> filter (\<lambda>d. owner d = p) (others owner p' s) = filter (\<lambda>d. owner d = p) s"
  unfolding others_def filter_filter by (rule filter_cong) auto

lemma others_kept_documents: "others_kept p' w w' \<Longrightarrow> p \<noteq> p' \<Longrightarrow> documents_of p w' = documents_of p w"
  unfolding others_kept_def docs_of_others_def models_of_others_def documents_of_def prod.inject
  using others_filter [of p p'] by metis

lemma handle_request_documents:
  assumes "world_ok (rq_server q) w" "\<not> by_owner_of p q"
  shows "documents_of p (handle_request q w) = documents_of p w"
proof (cases "rq_project q = p")
  case True
  then show ?thesis using assms by (simp add: by_owner_of_def handle_request_def world_ok_def mutate_denied)
next
  case False
  then show ?thesis using others_kept_documents [OF mutate_others [OF assms(1)]] by (auto simp: handle_request_def)
qed


definition demo_server :: "string list gql_server" where
  "demo_server = \<lparr>gs_auth = mem_env, gs_rpc = None, gs_infra = demo_env ''i2'', gs_models = demo_menv\<rparr>"

definition demo_gql :: "string list gql_world" where
  "demo_gql = \<lparr>gq_infra = demo_world, gq_models = rg_world demo_active\<rparr>"

definition asks :: "string \<Rightarrow> string \<Rightarrow> gql_mutation \<Rightarrow> string list gql_request" where
  "asks user p m = \<lparr>rq_server = demo_server, rq_token = user, rq_project = p, rq_mutation = m, rq_auth = mem_db\<rparr>"

lemma demo_gql_ok: "world_ok demo_server demo_gql"
proof -
  have "distinct (map mc_ModelID (mw_rows (rg_world demo_active)))" "distinct (map mc_Alias (mw_rows (rg_world demo_active)))"
    by code_simp+
  then show ?thesis
    using mem_env_ok demo_env_ok demo_menv_ok by (simp add: world_ok_def demo_server_def demo_gql_def models_ok_def)
qed

text \<open>The viewer's deletion is refused and leaves all as it is; the owner's deletes the environment.\<close>

definition requests_of_bo :: "string list gql_request list" where
  "requests_of_bo = [asks ''bo'' ''p1'' (DeleteEnvironmentM ''e1''), asks ''bo'' ''p1'' (DeleteModelM ''m1''),
     asks ''al'' ''p2'' (DeleteInfraM ''i1'')]"

lemma requests_of_bo_refused: "list_all (\<lambda>q. \<not> by_owner_of ''p1'' q) requests_of_bo"
  by code_simp


section \<open>Checks without effect\<close>

text \<open>The details of an infrastructure are read whatever the role.\<close>

lemma details_without_role: "GetInfraDetails_gql E jwt i p db w = GetInfraDetails (gs_infra E) i p w"
  by (simp add: GetInfraDetails_gql_def split: sum.splits)

text \<open>A manifest, with its access key, is given for an infrastructure of any project.\<close>

lemma foreign_manifest_read:
  assumes "ValidateRole E jwt p ''GetManifest'' db" "op_GetInfra (gs_infra E) i w = Inr d"
  shows "GetInfraManifest_gql E jwt h i p db w =
    Inr (GetK8sInfraYaml (ie_config (gs_infra E)) (ie_manifests (gs_infra E)) (resolveManifestHost h) d)"
  using assms by (simp add: GetInfraManifest_gql_def)

text \<open>A revoked token passes the middleware when its lookup fails; the role check still refuses it.\<close>

lemma revoked_token_admitted:
  "FindOne (revokedC (gs_auth E)) (\<lambda>t. rt_Token t = request_token h) (db_revoked db) = Inl err \<Longrightarrow> Middleware E h db = Some (request_token h)"
  by (simp add: Middleware_def IsRevokedToken_def Let_def)

end
