(* ===== verification/Image_Settings.thy ===== *)
theory Image_Settings
  imports Gql_Tenancy
begin

text \<open>
  The image registry a project pulls its workflows' images from (\<^verbatim>\<open>graphql/server/pkg/image_registry/service.go\<close>,
  \<^verbatim>\<open>pkg/database/mongodb/image_registry\<close>, \<^verbatim>\<open>graph/image_registry.resolvers.go\<close>). The collection has one document per
  project, removed or not: its unique index is the project. The clock and new identifiers are parameters.
\<close>

section \<open>Documents\<close>

record ImageRegistryInput =
  ir_Name :: string
  ir_RepoName :: string
  ir_Type :: string
  ir_SecretName :: "string option"
  ir_SecretNamespace :: "string option"
  ir_EnableRegistry :: "bool option"
  ir_IsDefault :: bool

record ImageRegistry =
  rg_ID :: string
  rg_ProjectID :: string
  rg_Settings :: ImageRegistryInput
  rg_CreatedAt :: int
  rg_UpdatedAt :: int
  rg_IsRemoved :: bool

definition same_registry_project :: "ImageRegistry \<Rightarrow> ImageRegistry \<Rightarrow> bool" where
  "same_registry_project a b = (rg_ProjectID a = rg_ProjectID b)"

record registry_env =
  rx_db :: "ImageRegistry coll"
  rx_uuid :: string
  rx_now :: int

section \<open>Operations\<close>

definition registry_of :: "string \<Rightarrow> string \<Rightarrow> ImageRegistry \<Rightarrow> bool" where
  "registry_of i p d = (rg_ID d = i \<and> rg_ProjectID d = p)"

definition UpdateRegistry ::
  "registry_env \<Rightarrow> (ImageRegistry \<Rightarrow> bool) \<Rightarrow> (ImageRegistry \<Rightarrow> ImageRegistry) \<Rightarrow> ImageRegistry list \<Rightarrow> go_error option \<times> ImageRegistry list" where
  "UpdateRegistry E q f s = (case UpdateOne (rx_db E) q f s of (r, s') \<Rightarrow> ((case r of Inl e \<Rightarrow> Some e | Inr _ \<Rightarrow> None), s'))"

definition new_registry :: "registry_env \<Rightarrow> string \<Rightarrow> ImageRegistryInput \<Rightarrow> ImageRegistry" where
  "new_registry E p i = \<lparr>rg_ID = rx_uuid E, rg_ProjectID = p, rg_Settings = i, rg_CreatedAt = rx_now E, rg_UpdatedAt = rx_now E,
     rg_IsRemoved = False\<rparr>"

definition CreateImageRegistry ::
  "registry_env \<Rightarrow> string \<Rightarrow> ImageRegistryInput \<Rightarrow> ImageRegistry list \<Rightarrow> (go_error + ImageRegistry) \<times> ImageRegistry list" where
  "CreateImageRegistry E p i s = (case InsertOne (rx_db E) (new_registry E p i) s of
     (Some e, s') \<Rightarrow> (Inl e, s') | (None, s') \<Rightarrow> (Inr (new_registry E p i), s'))"

text \<open>The answer of an update is what was asked for, whether a document matched or not.\<close>

definition UpdateImageRegistry ::
  "registry_env \<Rightarrow> string \<Rightarrow> string \<Rightarrow> ImageRegistryInput \<Rightarrow> ImageRegistry list \<Rightarrow> (go_error + ImageRegistryInput) \<times> ImageRegistry list" where
  "UpdateImageRegistry E i p v s = (case UpdateRegistry E (registry_of i p) (\<lambda>d. d\<lparr>rg_Settings := v, rg_UpdatedAt := rx_now E\<rparr>) s of
     (Some e, s') \<Rightarrow> (Inl e, s') | (None, s') \<Rightarrow> (Inr v, s'))"

definition DeleteImageRegistry ::
  "registry_env \<Rightarrow> string \<Rightarrow> string \<Rightarrow> ImageRegistry list \<Rightarrow> (go_error + string) \<times> ImageRegistry list" where
  "DeleteImageRegistry E i p s = (case UpdateRegistry E (registry_of i p) (\<lambda>d. d\<lparr>rg_IsRemoved := True\<rparr>) s of
     (Some e, s') \<Rightarrow> (Inl e, s') | (None, s') \<Rightarrow> (Inr ''image registry deleted'', s'))"

definition GetImageRegistry :: "registry_env \<Rightarrow> string \<Rightarrow> ImageRegistry list \<Rightarrow> go_error + ImageRegistry" where
  "GetImageRegistry E p s = FindOne (rx_db E) (\<lambda>d. rg_ProjectID d = p) s"

definition ListImageRegistries :: "registry_env \<Rightarrow> string \<Rightarrow> ImageRegistry list \<Rightarrow> go_error + ImageRegistry list" where
  "ListImageRegistries E p s = Find (rx_db E) (\<lambda>d. rg_ProjectID d = p) s"

section \<open>Requests\<close>

datatype registry_op = CreateRegistry ImageRegistryInput | ChangeRegistry string ImageRegistryInput | DropRegistry string

definition serve_registry :: "registry_env \<Rightarrow> string \<Rightarrow> registry_op \<Rightarrow> ImageRegistry list \<Rightarrow> go_error option \<times> ImageRegistry list" where
  "serve_registry E p r s = (case r of
     CreateRegistry i \<Rightarrow> apfst (\<lambda>a. case a of Inl e \<Rightarrow> Some e | Inr _ \<Rightarrow> None) (CreateImageRegistry E p i s)
   | ChangeRegistry i v \<Rightarrow> apfst (\<lambda>a. case a of Inl e \<Rightarrow> Some e | Inr _ \<Rightarrow> None) (UpdateImageRegistry E i p v s)
   | DropRegistry i \<Rightarrow> apfst (\<lambda>a. case a of Inl e \<Rightarrow> Some e | Inr _ \<Rightarrow> None) (DeleteImageRegistry E i p s))"

fun registry_operation :: "registry_op \<Rightarrow> string" where
  "registry_operation (CreateRegistry i) = ''CreateImageRegistry''"
| "registry_operation (ChangeRegistry i v) = ''UpdateImageRegistry''"
| "registry_operation (DropRegistry i) = ''DeleteImageRegistry''"

definition registry_gql ::
  "'g gql_server \<Rightarrow> registry_env \<Rightarrow> string \<Rightarrow> string \<Rightarrow> registry_op \<Rightarrow> auth_db \<Rightarrow> ImageRegistry list \<Rightarrow> (go_error + go_error option) \<times> ImageRegistry list" where
  "registry_gql S E jwt p r db = guarded S jwt p (registry_operation r) db (\<lambda>s. apfst Inr (serve_registry E p r s))"

inductive registries_reach :: "ImageRegistry list \<Rightarrow> bool" where
  empty: "registries_reach []"
| served: "registries_reach s \<Longrightarrow> coll_ok same_registry_project (rx_db E) \<Longrightarrow> registries_reach (snd (serve_registry E p r s))"

section \<open>One registry per project\<close>

lemma serve_registry_cases:
  assumes "coll_ok same_registry_project (rx_db E)"
  obtains "snd (serve_registry E p r s) = s"
  | i where "r = CreateRegistry i" "snd (serve_registry E p r s) = s @ [new_registry E p i]" "p \<notin> rg_ProjectID ` set s"
  | q f where "replaced_one q f s (snd (serve_registry E p r s))" "\<And>d. rg_ProjectID (f d) = rg_ProjectID d"
    "\<And>d. rg_IsRemoved d \<Longrightarrow> rg_IsRemoved (f d)" "\<And>d. q d \<Longrightarrow> rg_ProjectID d = p"
proof (cases r)
  case (CreateRegistry i)
  obtain e s' where ins: "InsertOne (rx_db E) (new_registry E p i) s = (e, s')" by fastforce
  have s': "snd (serve_registry E p r s) = s'" by (simp add: CreateRegistry serve_registry_def CreateImageRegistry_def ins split: option.split)
  have "s' = s \<or> s' = s @ [new_registry E p i] \<and> (\<forall>d \<in> set s. \<not> same_registry_project (new_registry E p i) d)"
    using assms ins unfolding coll_ok_def insert_ok_def by blast
  then show ?thesis
  proof
    assume "s' = s @ [new_registry E p i] \<and> (\<forall>d \<in> set s. \<not> same_registry_project (new_registry E p i) d)"
    then show ?thesis by (intro that(2) [of i]) (auto simp: CreateRegistry [symmetric] s' same_registry_project_def new_registry_def)
  qed (use that(1) s' in simp)
next
  case (ChangeRegistry i v)
  let ?f = "\<lambda>d. d\<lparr>rg_Settings := v, rg_UpdatedAt := rx_now E\<rparr>"
  obtain e s' where u: "UpdateOne (rx_db E) (registry_of i p) ?f s = (e, s')" by fastforce
  have s': "snd (serve_registry E p r s) = s'"
    by (simp add: ChangeRegistry serve_registry_def UpdateImageRegistry_def UpdateRegistry_def u split: option.split)
  show ?thesis using UpdateOne_or [OF assms u]
  proof
    assume "replaced_one (registry_of i p) ?f s s'"
    then show ?thesis by (intro that(3) [of "registry_of i p" ?f]) (simp_all add: s' registry_of_def)
  qed (use that(1) s' in simp)
next
  case (DropRegistry i)
  let ?f = "\<lambda>d. d\<lparr>rg_IsRemoved := True\<rparr>"
  obtain e s' where u: "UpdateOne (rx_db E) (registry_of i p) ?f s = (e, s')" by fastforce
  have s': "snd (serve_registry E p r s) = s'"
    by (simp add: DropRegistry serve_registry_def DeleteImageRegistry_def UpdateRegistry_def u split: option.split)
  show ?thesis using UpdateOne_or [OF assms u]
  proof
    assume "replaced_one (registry_of i p) ?f s s'"
    then show ?thesis by (intro that(3) [of "registry_of i p" ?f]) (simp_all add: s' registry_of_def)
  qed (use that(1) s' in simp)
qed

interpretation registries: project_operation serve_registry "\<lambda>(E :: registry_env) s. coll_ok same_registry_project (rx_db E)" "others rg_ProjectID"
proof unfold_locales
  fix E :: registry_env and s p r
  assume "coll_ok same_registry_project (rx_db E)"
  then show "others rg_ProjectID p (snd (serve_registry E p r s)) = others rg_ProjectID p s"
  proof (cases rule: serve_registry_cases [of E p r s])
    case (3 q f)
    show ?thesis by (rule others_replaced [OF 3(1)]) (simp add: 3(2, 4))
  qed (simp_all add: others_def new_registry_def)
qed

lemma serve_registry_distinct:
  assumes "coll_ok same_registry_project (rx_db E)" "distinct (map rg_ProjectID s)"
  shows "distinct (map rg_ProjectID (snd (serve_registry E p r s)))"
proof (cases rule: serve_registry_cases [OF assms(1), of p r s])
  case (3 q f)
  have "map rg_ProjectID (snd (serve_registry E p r s)) = map rg_ProjectID s" by (rule replaced_one_map_key [OF 3(1)]) (rule 3(2))
  then show ?thesis using assms(2) by simp
qed (use assms(2) in \<open>auto simp: new_registry_def\<close>)

lemma registries_distinct: "registries_reach s \<Longrightarrow> distinct (map rg_ProjectID s)"
  by (induction rule: registries_reach.induct) (simp_all add: serve_registry_distinct)

text \<open>A removed registry stays removed, whatever is asked later.\<close>

lemma removed_registry_stays:
  assumes "coll_ok same_registry_project (rx_db E)" "\<exists>d \<in> set s. rg_ProjectID d = p \<and> rg_IsRemoved d"
  shows "\<exists>d \<in> set (snd (serve_registry E p' r s)). rg_ProjectID d = p \<and> rg_IsRemoved d"
proof (cases rule: serve_registry_cases [OF assms(1), of p' r s])
  case (3 q f)
  then show ?thesis using assms(2) unfolding replaced_one_def by fastforce
qed (use assms(2) in auto)

lemma registry_roles: "roles_for (registry_operation r) = [RoleOwner]"
proof -
  have "list_all (\<lambda>op. roles_for op = [RoleOwner]) [''CreateImageRegistry'', ''UpdateImageRegistry'', ''DeleteImageRegistry'']" by code_simp
  then show ?thesis by (cases r) simp_all
qed

text \<open>
  A project has at most one registry for good: after it was removed it can neither be created again nor be restored,
  and what a project's reader is shown is the removed one.
\<close>

theorem removed_registry_is_final:
  assumes "registries_reach s" "coll_ok same_registry_project (rx_db E)" "\<exists>d \<in> set s. rg_ProjectID d = p \<and> rg_IsRemoved d"
  shows "(\<exists>e. CreateImageRegistry E p i s = (Inl e, s)) \<and> (\<forall>d. GetImageRegistry E p s = Inr d \<longrightarrow> rg_IsRemoved d) \<and>
    (\<forall>p' r. \<exists>d \<in> set (snd (serve_registry E p' r s)). rg_ProjectID d = p \<and> rg_IsRemoved d)"
proof -
  obtain d where d: "d \<in> set s" "rg_ProjectID d = p" "rg_IsRemoved d" using assms(3) by blast
  obtain e s' where ins: "InsertOne (rx_db E) (new_registry E p i) s = (e, s')" by fastforce
  have "same_registry_project (new_registry E p i) d" using d(2) by (simp add: same_registry_project_def new_registry_def)
  then have "s' = s" "e \<noteq> None" using assms(2) ins d(1) unfolding coll_ok_def insert_ok_def by (metis append_self_conv list.distinct(1))+
  then have "\<exists>e. CreateImageRegistry E p i s = (Inl e, s)" by (auto simp: CreateImageRegistry_def ins)
  moreover have "rg_IsRemoved d'" if "GetImageRegistry E p s = Inr d'" for d'
  proof -
    have "d' \<in> set s \<and> rg_ProjectID d' = p" using FindOne_ok [OF assms(2) that [unfolded GetImageRegistry_def]] .
    then have "d' = d" using d registries_distinct [OF assms(1)] by (simp add: distinct_map inj_on_def)
    then show ?thesis using d(3) by simp
  qed
  ultimately show ?thesis using removed_registry_stays [OF assms(2, 3)] by blast
qed

text \<open>An update that matches nothing is answered as if it had been made.\<close>

lemma unmatched_update_answers:
  assumes "UpdateOne (rx_db E) (registry_of i p) (\<lambda>d. d\<lparr>rg_Settings := v, rg_UpdatedAt := rx_now E\<rparr>) s = (Inr 0, s)"
  shows "UpdateImageRegistry E i p v s = (Inr v, s)"
  using assms by (simp add: UpdateImageRegistry_def UpdateRegistry_def)

end
