(* ===== verification/Probes.thy ===== *)
theory Probes
  imports Gql_Tenancy
begin

text \<open>
  Resilience probes of a project (\<^verbatim>\<open>graphql/server/pkg/probe/{handler,utils}\<close>, \<^verbatim>\<open>pkg/database/mongodb/probe\<close>,
  \<^verbatim>\<open>graph/probe.resolvers.go\<close>): their documents, the operations and the resolvers. The settings all four kinds
  have are one record; where the request, the document and the answer have the same fields they are one type. An
  update reads the probe and then writes what it computed: the two halves are separate. JSON of a source, the clock
  and the caller's name are parameters. A nil pointer that is dereferenced is \<^const>\<open>Panics\<close>.
\<close>

section \<open>Documents\<close>

record CommonProbeProperties =
  cp_ProbeTimeout :: string
  cp_Interval :: string
  cp_Retry :: "int option"
  cp_Attempt :: "int option"
  cp_PollingInterval :: "string option"
  cp_InitialDelay :: "string option"
  cp_EvaluationTimeout :: "string option"
  cp_StopOnFailure :: "bool option"

record Comparator = cm_Type :: string  cm_Value :: string  cm_Criteria :: string

record GET = gt_Criteria :: string  gt_ResponseCode :: string

record POST =
  po_ContentType :: "string option"
  po_Body :: "string option"
  po_BodyPath :: "string option"
  po_Criteria :: string
  po_ResponseCode :: string

record Method = me_GET :: "GET option"  me_POST :: "POST option"

record KubernetesHTTPProbeRequest =
  hq_Common :: CommonProbeProperties
  hq_URL :: "string option"
  hq_Method :: Method
  hq_InsecureSkipVerify :: "bool option"

record KubernetesHTTPProbe =
  hp_Common :: CommonProbeProperties
  hp_URL :: string
  hp_Method :: Method
  hp_InsecureSkipVerify :: "bool option"

text \<open>The fields of a source the code names; those of a structured type as their JSON text.\<close>

record SourceDetails =
  sc_Image :: string
  sc_HostNetwork :: bool
  sc_InheritInputs :: bool
  sc_Args :: "string list"
  sc_ENVList :: string
  sc_Labels :: string
  sc_Annotations :: string
  sc_Command :: "string list"
  sc_ImagePullPolicy :: string
  sc_Privileged :: bool
  sc_NodeSelector :: string
  sc_Volumes :: string
  sc_VolumesMount :: string
  sc_ImagePullSecrets :: string

record KubernetesCMDProbeRequest =
  cq_Common :: CommonProbeProperties
  cq_Command :: string
  cq_Comparator :: Comparator
  cq_Source :: "string option"

record KubernetesCMDProbe =
  cd_Common :: CommonProbeProperties
  cd_Command :: string
  cd_Comparator :: Comparator
  cd_Source :: "SourceDetails option"

record PROMProbe =
  pm_Common :: CommonProbeProperties
  pm_Endpoint :: string
  pm_Query :: "string option"
  pm_QueryPath :: "string option"
  pm_Comparator :: Comparator

record K8SProbe =
  k8_Common :: CommonProbeProperties
  k8_Group :: "string option"
  k8_Version :: string
  k8_Resource :: string
  k8_ResourceNames :: "string option"
  k8_Namespace :: "string option"
  k8_FieldSelector :: "string option"
  k8_LabelSelector :: "string option"
  k8_Operation :: string

record ProbeRequest =
  pq_Name :: string
  pq_Description :: "string option"
  pq_Tags :: "string list"
  pq_Type :: string
  pq_InfrastructureType :: string
  pq_HTTP :: "KubernetesHTTPProbeRequest option"
  pq_CMD :: "KubernetesCMDProbeRequest option"
  pq_PROM :: "PROMProbe option"
  pq_K8S :: "K8SProbe option"

record Probe =
  pb_ProjectID :: string
  pb_Name :: string
  pb_Description :: string
  pb_Tags :: "string list"
  pb_CreatedAt :: int
  pb_UpdatedAt :: int
  pb_CreatedBy :: string
  pb_UpdatedBy :: string
  pb_IsRemoved :: bool
  pb_Type :: string
  pb_InfrastructureType :: string
  pb_HTTP :: "KubernetesHTTPProbe option"
  pb_CMD :: "KubernetesCMDProbe option"
  pb_PROM :: "PROMProbe option"
  pb_K8S :: "K8SProbe option"

text \<open>What the API shows: a source as its text.\<close>

record ProbeResponse =
  pr_ProjectID :: string
  pr_Name :: string
  pr_Description :: string
  pr_Tags :: "string list"
  pr_CreatedAt :: string
  pr_UpdatedAt :: string
  pr_CreatedBy :: string
  pr_UpdatedBy :: string
  pr_Type :: string
  pr_InfrastructureType :: string
  pr_HTTP :: "KubernetesHTTPProbe option"
  pr_CMD :: "KubernetesCMDProbeRequest option"
  pr_PROM :: "PROMProbe option"
  pr_K8S :: "K8SProbe option"

definition HTTPProbe :: string where "HTTPProbe = ''httpProbe''"
definition CmdProbe :: string where "CmdProbe = ''cmdProbe''"
definition PromProbe :: string where "PromProbe = ''promProbe''"
definition K8sProbe :: string where "K8sProbe = ''k8sProbe''"
definition Kubernetes :: string where "Kubernetes = ''Kubernetes''"

text \<open>The unique index: one live probe of a name in a project.\<close>

definition same_live_probe :: "Probe \<Rightarrow> Probe \<Rightarrow> bool" where
  "same_live_probe a b = (pb_Name a = pb_Name b \<and> pb_ProjectID a = pb_ProjectID b \<and> \<not> pb_IsRemoved a \<and> \<not> pb_IsRemoved b)"

text \<open>
  \<open>pe_source\<close> reads a source: the error, if any, and what was decoded, \<^const>\<open>None\<close> for \<^verbatim>\<open>null\<close>.
\<close>

record probe_env =
  pe_db :: "Probe coll"
  pe_username :: "go_error + string"
  pe_now :: int
  pe_source :: "string \<Rightarrow> string option \<times> SourceDetails option"
  pe_source_text :: "SourceDetails option \<Rightarrow> string"

datatype probe_error =
    ProbeStore go_error
  | ProbeUser go_error
  | PropertiesEmpty string
  | TypeMismatch string
  | BadSource string
  | NoMatchingProbe
  | BadProbe string
  | BadManifest string

section \<open>The settings of a kind\<close>

definition default_if_blank :: "string \<Rightarrow> string \<Rightarrow> string" where
  "default_if_blank d s = (if TrimSpace s = [] then d else s)"

definition http_method :: "Method \<Rightarrow> Method" where
  "http_method m = (case me_GET m of
     Some g \<Rightarrow> \<lparr>me_GET = Some \<lparr>gt_Criteria = default_if_blank ''oneOf'' (gt_Criteria g), gt_ResponseCode = default_if_blank ''200'' (gt_ResponseCode g)\<rparr>,
       me_POST = None\<rparr>
   | None \<Rightarrow> \<lparr>me_GET = None, me_POST = map_option (\<lambda>p. p\<lparr>po_Criteria := default_if_blank ''oneOf'' (po_Criteria p),
       po_ResponseCode := default_if_blank ''200'' (po_ResponseCode p)\<rparr>) (me_POST m)\<rparr>)"

definition AddKubernetesHTTPProbeProperties :: "KubernetesHTTPProbeRequest \<Rightarrow> Probe \<Rightarrow> Probe" where
  "AddKubernetesHTTPProbeProperties r d = d\<lparr>pb_HTTP := Some
     \<lparr>hp_Common = hq_Common r, hp_URL = (case hq_URL r of None \<Rightarrow> [] | Some u \<Rightarrow> u), hp_Method = http_method (hq_Method r),
      hp_InsecureSkipVerify = hq_InsecureSkipVerify r\<rparr>\<rparr>"

definition copied_source :: "SourceDetails \<Rightarrow> SourceDetails" where
  "copied_source c = \<lparr>sc_Image = sc_Image c, sc_HostNetwork = sc_HostNetwork c, sc_InheritInputs = sc_InheritInputs c,
     sc_Args = sc_Args c, sc_ENVList = sc_ENVList c, sc_Labels = sc_Labels c, sc_Annotations = sc_Annotations c,
     sc_Command = sc_Command c, sc_ImagePullPolicy = sc_ImagePullPolicy c, sc_Privileged = sc_Privileged c,
     sc_NodeSelector = sc_NodeSelector c, sc_Volumes = sc_Volumes c, sc_VolumesMount = sc_VolumesMount c,
     sc_ImagePullSecrets = sc_ImagePullSecrets c\<rparr>"

definition AddKubernetesCMDProbeProperties :: "probe_env \<Rightarrow> KubernetesCMDProbeRequest \<Rightarrow> Probe \<Rightarrow> string + Probe" where
  "AddKubernetesCMDProbeProperties E r d =
     (let add = (\<lambda>source. d\<lparr>pb_CMD := Some \<lparr>cd_Common = cq_Common r, cd_Command = cq_Command r, cd_Comparator = cq_Comparator r,
        cd_Source = source\<rparr>\<rparr>) in
      case cq_Source r of None \<Rightarrow> Inr (add None)
      | Some t \<Rightarrow> (case pe_source E t of (Some e, _) \<Rightarrow> Inl e | (None, source) \<Rightarrow> Inr (add (map_option copied_source source))))"

definition AddPROMProbeProperties :: "PROMProbe \<Rightarrow> Probe \<Rightarrow> Probe" where
  "AddPROMProbeProperties r d = d\<lparr>pb_PROM := Some \<lparr>pm_Common = pm_Common r, pm_Endpoint = pm_Endpoint r, pm_Query = pm_Query r,
     pm_QueryPath = pm_QueryPath r, pm_Comparator = pm_Comparator r\<rparr>\<rparr>"

text \<open>The initial delay is the one setting that is not copied.\<close>

definition AddK8SProbeProperties :: "K8SProbe \<Rightarrow> Probe \<Rightarrow> Probe" where
  "AddK8SProbeProperties r d = d\<lparr>pb_K8S := Some \<lparr>k8_Common = (k8_Common r)\<lparr>cp_InitialDelay := None\<rparr>, k8_Group = k8_Group r,
     k8_Version = k8_Version r, k8_Resource = k8_Resource r, k8_ResourceNames = k8_ResourceNames r, k8_Namespace = k8_Namespace r,
     k8_FieldSelector = k8_FieldSelector r, k8_LabelSelector = k8_LabelSelector r, k8_Operation = k8_Operation r\<rparr>\<rparr>"

section \<open>What the API shows\<close>

text \<open>
  The content of a POST is copied only where the new response already has it, which it never has.
\<close>

definition shown_method :: "Method \<Rightarrow> Method" where
  "shown_method m = (case me_GET m of Some g \<Rightarrow> \<lparr>me_GET = Some g, me_POST = None\<rparr>
   | None \<Rightarrow> \<lparr>me_GET = None, me_POST = map_option (\<lambda>p. \<lparr>po_ContentType = None, po_Body = None, po_BodyPath = None,
       po_Criteria = po_Criteria p, po_ResponseCode = po_ResponseCode p\<rparr>) (me_POST m)\<rparr>)"

definition shown_cmd :: "probe_env \<Rightarrow> KubernetesCMDProbe \<Rightarrow> KubernetesCMDProbeRequest" where
  "shown_cmd E c = \<lparr>cq_Common = cd_Common c, cq_Command = cd_Command c, cq_Comparator = cd_Comparator c,
     cq_Source = map_option (\<lambda>s. pe_source_text E (Some s)) (cd_Source c)\<rparr>"

definition GetOutputProbe :: "probe_env \<Rightarrow> Probe \<Rightarrow> ProbeResponse option" where
  "GetOutputProbe E d =
     (let r = \<lparr>pr_ProjectID = pb_ProjectID d, pr_Name = pb_Name d, pr_Description = pb_Description d, pr_Tags = pb_Tags d,
        pr_CreatedAt = FormatInt (pb_CreatedAt d), pr_UpdatedAt = FormatInt (pb_UpdatedAt d), pr_CreatedBy = pb_CreatedBy d,
        pr_UpdatedBy = pb_UpdatedBy d, pr_Type = pb_Type d, pr_InfrastructureType = pb_InfrastructureType d,
        pr_HTTP = None, pr_CMD = None, pr_PROM = None, pr_K8S = None\<rparr> in
      if pb_InfrastructureType d \<noteq> Kubernetes then Some r
      else if pb_Type d = HTTPProbe then map_option (\<lambda>h. r\<lparr>pr_HTTP := Some (h\<lparr>hp_Method := shown_method (hp_Method h)\<rparr>)\<rparr>) (pb_HTTP d)
      else if pb_Type d = CmdProbe then map_option (\<lambda>c. r\<lparr>pr_CMD := Some (shown_cmd E c)\<rparr>) (pb_CMD d)
      else if pb_Type d = PromProbe then map_option (\<lambda>m. r\<lparr>pr_PROM := Some m\<rparr>) (pb_PROM d)
      else if pb_Type d = K8sProbe then map_option (\<lambda>k. r\<lparr>pr_K8S := Some k\<rparr>) (pb_K8S d)
      else Some r)"

definition shown :: "probe_env \<Rightarrow> Probe \<Rightarrow> (probe_error, ProbeResponse) go_result" where
  "shown E d = (case GetOutputProbe E d of None \<Rightarrow> Panics | Some r \<Rightarrow> go_result.Value r)"

section \<open>The collection\<close>

definition live_probe :: "string \<Rightarrow> string \<Rightarrow> Probe \<Rightarrow> bool" where
  "live_probe n p d = (pb_Name d = n \<and> pb_ProjectID d = p \<and> \<not> pb_IsRemoved d)"

definition GetProbeByName :: "probe_env \<Rightarrow> string \<Rightarrow> string \<Rightarrow> Probe list \<Rightarrow> go_error + Probe" where
  "GetProbeByName E n p s = FindOne (pe_db E) (live_probe n p) s"

definition op_UpdateProbe ::
  "probe_env \<Rightarrow> (Probe \<Rightarrow> bool) \<Rightarrow> (Probe \<Rightarrow> Probe) \<Rightarrow> Probe list \<Rightarrow> probe_error option \<times> Probe list" where
  "op_UpdateProbe E q f s = (case UpdateOne (pe_db E) q f s of
     (Inl e, s') \<Rightarrow> (Some (ProbeStore e), s') | (Inr n, s') \<Rightarrow> (if n = 0 then Some NoMatchingProbe else None, s'))"

definition IsProbeUnique :: "probe_env \<Rightarrow> (Probe \<Rightarrow> bool) \<Rightarrow> Probe list \<Rightarrow> go_error + bool" where
  "IsProbeUnique E q s = (case Find (pe_db E) q s of Inl e \<Rightarrow> Inl e | Inr ds \<Rightarrow> Inr (length ds = 0))"

definition ValidateUniqueProbe :: "probe_env \<Rightarrow> string \<Rightarrow> string \<Rightarrow> Probe list \<Rightarrow> go_error + bool" where
  "ValidateUniqueProbe E n p s = IsProbeUnique E (live_probe n p) s"

section \<open>Operations\<close>

definition properties_empty :: "ProbeRequest \<Rightarrow> string option" where
  "properties_empty r =
     (if pq_Type r = HTTPProbe \<and> pq_HTTP r = None then Some ''http probe type's properties are empty''
      else if pq_Type r = CmdProbe \<and> pq_CMD r = None then Some ''cmd probe type's properties are empty''
      else if pq_Type r = PromProbe \<and> pq_PROM r = None then Some ''prom probe type's properties are empty''
      else if pq_Type r = K8sProbe \<and> pq_K8S r = None then Some ''k8s probe type's properties are empty'' else None)"

definition bare_probe :: "probe_env \<Rightarrow> string \<Rightarrow> string \<Rightarrow> ProbeRequest \<Rightarrow> Probe" where
  "bare_probe E p user r =
     \<lparr>pb_ProjectID = p, pb_Name = pq_Name r, pb_Description = (case pq_Description r of None \<Rightarrow> [] | Some t \<Rightarrow> t), pb_Tags = pq_Tags r,
      pb_CreatedAt = pe_now E, pb_UpdatedAt = pe_now E, pb_CreatedBy = user, pb_UpdatedBy = user, pb_IsRemoved = False,
      pb_Type = pq_Type r, pb_InfrastructureType = pq_InfrastructureType r,
      pb_HTTP = None, pb_CMD = None, pb_PROM = None, pb_K8S = None\<rparr>"

definition new_probe :: "probe_env \<Rightarrow> ProbeRequest \<Rightarrow> Probe \<Rightarrow> probe_error + Probe" where
  "new_probe E r d = (case properties_empty r of Some e \<Rightarrow> Inl (PropertiesEmpty e) | None \<Rightarrow>
     (if pq_Type r = HTTPProbe then Inr (AddKubernetesHTTPProbeProperties (the (pq_HTTP r)) d)
      else if pq_Type r = CmdProbe then (case AddKubernetesCMDProbeProperties E (the (pq_CMD r)) d of Inl e \<Rightarrow> Inl (BadSource e) | Inr d' \<Rightarrow> Inr d')
      else if pq_Type r = PromProbe then Inr (AddPROMProbeProperties (the (pq_PROM r)) d)
      else if pq_Type r = K8sProbe then Inr (AddK8SProbeProperties (the (pq_K8S r)) d)
      else Inr d))"

definition AddProbe ::
  "probe_env \<Rightarrow> string \<Rightarrow> ProbeRequest \<Rightarrow> Probe list \<Rightarrow> (probe_error, ProbeResponse) go_result \<times> Probe list" where
  "AddProbe E p r s = (case pe_username E of Inl e \<Rightarrow> (Fails (ProbeUser e), s)
     | Inr user \<Rightarrow> (case new_probe E r (bare_probe E p user r) of Inl e \<Rightarrow> (Fails e, s)
       | Inr d \<Rightarrow> (case InsertOne (pe_db E) d s of (Some e, s') \<Rightarrow> (Fails (ProbeStore e), s')
         | (None, s') \<Rightarrow> (shown E d, s'))))"

text \<open>
  The half of an update that reads. The kind is that of the stored probe: a request without its settings panics
  before they are checked.
\<close>

definition replacement :: "probe_env \<Rightarrow> ProbeRequest \<Rightarrow> Probe \<Rightarrow> (probe_error, Probe) go_result" where
  "replacement E r d =
     (if pb_InfrastructureType d \<noteq> Kubernetes then go_result.Value d
      else if pb_Type d = HTTPProbe then (case pq_HTTP r of None \<Rightarrow> Panics | Some q \<Rightarrow> go_result.Value (AddKubernetesHTTPProbeProperties q d))
      else if pb_Type d = CmdProbe then (case pq_CMD r of None \<Rightarrow> Panics
        | Some q \<Rightarrow> (case AddKubernetesCMDProbeProperties E q d of Inl e \<Rightarrow> Fails (BadSource e) | Inr d' \<Rightarrow> go_result.Value d'))
      else if pb_Type d = PromProbe then (case pq_PROM r of None \<Rightarrow> Panics | Some q \<Rightarrow> go_result.Value (AddPROMProbeProperties q d))
      else if pb_Type d = K8sProbe then (case pq_K8S r of None \<Rightarrow> Panics | Some q \<Rightarrow> go_result.Value (AddK8SProbeProperties q d))
      else go_result.Value d)"

definition update_head :: "probe_env \<Rightarrow> string \<Rightarrow> string \<Rightarrow> ProbeRequest \<Rightarrow> Probe \<Rightarrow> Probe" where
  "update_head E p user r old = (bare_probe E p user r)\<lparr>pb_CreatedAt := pb_CreatedAt old, pb_CreatedBy := pb_CreatedBy old,
     pb_Type := pb_Type old, pb_InfrastructureType := pb_InfrastructureType old\<rparr>"

definition update_plan :: "probe_env \<Rightarrow> string \<Rightarrow> ProbeRequest \<Rightarrow> Probe list \<Rightarrow> (probe_error, Probe) go_result" where
  "update_plan E p r s = (case pe_username E of Inl e \<Rightarrow> Fails (ProbeUser e)
     | Inr user \<Rightarrow> (case GetProbeByName E (pq_Name r) p s of Inl e \<Rightarrow> Fails (ProbeStore e)
       | Inr old \<Rightarrow> (case replacement E r (update_head E p user r old) of Fails e \<Rightarrow> Fails e | Panics \<Rightarrow> Panics
         | go_result.Value d \<Rightarrow> (case properties_empty r of Some e \<Rightarrow> Fails (PropertiesEmpty e) | None \<Rightarrow> go_result.Value d))))"

text \<open>The half that writes: settings that are not in the new document stay as they are.\<close>

definition kept :: "'a option \<Rightarrow> 'a option \<Rightarrow> 'a option" where
  "kept new old = (case new of None \<Rightarrow> old | Some v \<Rightarrow> Some v)"

definition set_probe :: "Probe \<Rightarrow> Probe \<Rightarrow> Probe" where
  "set_probe new old = new\<lparr>pb_HTTP := kept (pb_HTTP new) (pb_HTTP old), pb_CMD := kept (pb_CMD new) (pb_CMD old),
     pb_PROM := kept (pb_PROM new) (pb_PROM old), pb_K8S := kept (pb_K8S new) (pb_K8S old)\<rparr>"

definition update_finish :: "probe_env \<Rightarrow> string \<Rightarrow> string \<Rightarrow> Probe \<Rightarrow> Probe list \<Rightarrow> probe_error option \<times> Probe list" where
  "update_finish E n p d s = op_UpdateProbe E (live_probe n p) (set_probe d) s"

definition UpdateProbe ::
  "probe_env \<Rightarrow> string \<Rightarrow> ProbeRequest \<Rightarrow> Probe list \<Rightarrow> (probe_error, string) go_result \<times> Probe list" where
  "UpdateProbe E p r s = (case update_plan E p r s of Fails e \<Rightarrow> (Fails e, s) | Panics \<Rightarrow> (Panics, s)
     | go_result.Value d \<Rightarrow> (case update_finish E (pq_Name r) p d s of
         (Some e, s') \<Rightarrow> (Fails e, s') | (None, s') \<Rightarrow> (go_result.Value ''Updated successfully'', s')))"

text \<open>Who deleted the probe is left empty when the token names nobody.\<close>

definition removed_probe :: "probe_env \<Rightarrow> Probe \<Rightarrow> Probe" where
  "removed_probe E d = d\<lparr>pb_IsRemoved := True, pb_UpdatedAt := pe_now E,
     pb_UpdatedBy := (case pe_username E of Inl _ \<Rightarrow> [] | Inr user \<Rightarrow> user)\<rparr>"

definition delete_write :: "probe_env \<Rightarrow> string \<Rightarrow> string \<Rightarrow> Probe list \<Rightarrow> probe_error option \<times> Probe list" where
  "delete_write E n p s = op_UpdateProbe E (live_probe n p) (removed_probe E) s"

definition DeleteProbe :: "probe_env \<Rightarrow> string \<Rightarrow> string \<Rightarrow> Probe list \<Rightarrow> (probe_error, bool) go_result \<times> Probe list" where
  "DeleteProbe E n p s = (case GetProbeByName E n p s of Inl e \<Rightarrow> (Fails (ProbeStore e), s)
     | Inr _ \<Rightarrow> (case delete_write E n p s of (Some e, s') \<Rightarrow> (Fails e, s') | (None, s') \<Rightarrow> (go_result.Value True, s')))"

definition GetProbe :: "probe_env \<Rightarrow> string \<Rightarrow> string \<Rightarrow> Probe list \<Rightarrow> (probe_error, ProbeResponse) go_result" where
  "GetProbe E n p s = (case GetProbeByName E n p s of Inl e \<Rightarrow> Fails (ProbeStore e) | Inr d \<Rightarrow> shown E d)"

section \<open>Requests\<close>

datatype probe_op = CreateProbe ProbeRequest | ChangeProbe ProbeRequest | DropProbe string

fun probe_operation :: "probe_op \<Rightarrow> string" where
  "probe_operation (CreateProbe r) = ''AddProbe''"
| "probe_operation (ChangeProbe r) = ''UpdateProbe''"
| "probe_operation (DropProbe n) = ''DeleteProbe''"

definition outcome :: "(probe_error, 'a) go_result \<times> Probe list \<Rightarrow> (probe_error, unit) go_result \<times> Probe list" where
  "outcome = (\<lambda>(r, s). ((case r of go_result.Value v \<Rightarrow> go_result.Value () | Fails e \<Rightarrow> Fails e | Panics \<Rightarrow> Panics), s))"

text \<open>The resolver checks a new probe's settings once more, with its own words.\<close>

definition settings_mismatch :: "ProbeRequest \<Rightarrow> string option" where
  "settings_mismatch r =
     (if pq_Type r = HTTPProbe \<and> pq_HTTP r = None then Some ''probe type and properties don't match, selected http Probe but http properties are empty''
      else if pq_Type r = PromProbe \<and> pq_PROM r = None then Some ''probe type and properties don't match, selected prom Probe but prom properties are empty''
      else if pq_Type r = CmdProbe \<and> pq_CMD r = None then Some ''probe type and properties don't match, selected cmd Probe but cmd properties are empty''
      else if pq_Type r = K8sProbe \<and> pq_K8S r = None then Some ''probe type and properties don't match, selected k8s Probe but k8s properties are empty''
      else None)"

definition serve_probe :: "probe_env \<Rightarrow> string \<Rightarrow> probe_op \<Rightarrow> Probe list \<Rightarrow> (probe_error, unit) go_result \<times> Probe list" where
  "serve_probe E p r s = (case r of
     CreateProbe q \<Rightarrow> (case settings_mismatch q of Some e \<Rightarrow> (Fails (TypeMismatch e), s) | None \<Rightarrow> outcome (AddProbe E p q s))
   | ChangeProbe q \<Rightarrow> outcome (UpdateProbe E p q s)
   | DropProbe n \<Rightarrow> outcome (DeleteProbe E n p s))"

definition probe_gql ::
  "'g gql_server \<Rightarrow> probe_env \<Rightarrow> string \<Rightarrow> string \<Rightarrow> probe_op \<Rightarrow> auth_db \<Rightarrow> Probe list \<Rightarrow>
   (go_error + (probe_error, unit) go_result) \<times> Probe list" where
  "probe_gql S E jwt p r db = guarded S jwt p (probe_operation r) db
     (\<lambda>s. apfst Inr (serve_probe (E\<lparr>pe_username := GetUsername S jwt db\<rparr>) p r s))"

definition GetProbe_gql where
  "GetProbe_gql S E jwt n p db s =
     (if ValidateRole S jwt p ''GetProbe'' db then Inr (GetProbe E n p s) else Inl (Plain ''permission_denied''))"

definition ValidateUniqueProbe_gql where
  "ValidateUniqueProbe_gql S E jwt n p db s =
     (if ValidateRole S jwt p ''GetProbe'' db then ValidateUniqueProbe E n p s else Inl (Plain ''permission_denied''))"

section \<open>Every stored probe can be shown\<close>

definition has_settings :: "Probe \<Rightarrow> bool" where
  "has_settings d = ((pb_Type d = HTTPProbe \<longrightarrow> pb_HTTP d \<noteq> None) \<and> (pb_Type d = CmdProbe \<longrightarrow> pb_CMD d \<noteq> None) \<and>
     (pb_Type d = PromProbe \<longrightarrow> pb_PROM d \<noteq> None) \<and> (pb_Type d = K8sProbe \<longrightarrow> pb_K8S d \<noteq> None))"

definition probe_ok :: "Probe \<Rightarrow> bool" where
  "probe_ok d = (pb_InfrastructureType d = Kubernetes \<and> has_settings d)"

definition live_names :: "Probe list \<Rightarrow> (string \<times> string) list" where
  "live_names s = map (\<lambda>d. (pb_ProjectID d, pb_Name d)) (filter (\<lambda>d. \<not> pb_IsRemoved d) s)"

definition probes_ok :: "Probe list \<Rightarrow> bool" where
  "probes_ok s = ((\<forall>d \<in> set s. probe_ok d) \<and> distinct (live_names s))"

lemmas probe_types = HTTPProbe_def CmdProbe_def PromProbe_def K8sProbe_def

lemma shown_total: "has_settings d \<Longrightarrow> \<exists>r. GetOutputProbe E d = Some r"
  by (auto simp: GetOutputProbe_def has_settings_def Let_def)

text \<open>Adding settings changes nothing else: a probe's project, name and life are those it started with.\<close>

definition same_head :: "Probe \<Rightarrow> Probe \<Rightarrow> bool" where
  "same_head a b = (pb_ProjectID a = pb_ProjectID b \<and> pb_Name a = pb_Name b \<and> pb_IsRemoved a = pb_IsRemoved b \<and>
     pb_Type a = pb_Type b \<and> pb_InfrastructureType a = pb_InfrastructureType b)"

lemma same_head_refl [simp]: "same_head d d"
  by (simp add: same_head_def)

lemma AddHTTP_shape [simp]:
  "same_head (AddKubernetesHTTPProbeProperties h d) d" "pb_Type d = HTTPProbe \<Longrightarrow> has_settings (AddKubernetesHTTPProbeProperties h d)"
  by (simp_all add: same_head_def has_settings_def AddKubernetesHTTPProbeProperties_def probe_types)

lemma AddPROM_shape [simp]:
  "same_head (AddPROMProbeProperties m d) d" "pb_Type d = PromProbe \<Longrightarrow> has_settings (AddPROMProbeProperties m d)"
  by (simp_all add: same_head_def has_settings_def AddPROMProbeProperties_def probe_types)

lemma AddK8S_shape [simp]:
  "same_head (AddK8SProbeProperties k d) d" "pb_Type d = K8sProbe \<Longrightarrow> has_settings (AddK8SProbeProperties k d)"
  by (simp_all add: same_head_def has_settings_def AddK8SProbeProperties_def probe_types)

lemma AddCMD_shape:
  assumes "AddKubernetesCMDProbeProperties E r d = Inr d'"
  shows "same_head d' d" "pb_Type d = CmdProbe \<Longrightarrow> has_settings d'"
proof -
  have "\<exists>c. d' = d\<lparr>pb_CMD := Some c\<rparr>"
    using assms by (auto simp: AddKubernetesCMDProbeProperties_def Let_def split: option.splits prod.splits)
  then show "same_head d' d" "pb_Type d = CmdProbe \<Longrightarrow> has_settings d'"
    by (auto simp: same_head_def has_settings_def probe_types)
qed

lemma no_settings_needed:
  "pb_Type d \<notin> {HTTPProbe, CmdProbe, PromProbe, K8sProbe} \<Longrightarrow> has_settings d"
  by (simp add: has_settings_def)

lemma new_probe_shape:
  assumes "new_probe E r d = Inr d'" "pb_Type d = pq_Type r"
  shows "same_head d' d" "has_settings d'"
proof -
  have "same_head d' d \<and> has_settings d'"
    using assms no_settings_needed [of d] AddCMD_shape [of E "the (pq_CMD r)" d d']
    by (auto simp: new_probe_def split: option.split_asm sum.split_asm if_split_asm)
  then show "same_head d' d" "has_settings d'" by blast+
qed

lemma replacement_shape:
  assumes "replacement E r d = go_result.Value d'"
  shows "same_head d' d" "pb_InfrastructureType d = Kubernetes \<Longrightarrow> has_settings d'"
proof -
  have "same_head d' d \<and> (pb_InfrastructureType d = Kubernetes \<longrightarrow> has_settings d')"
    using assms no_settings_needed [of d] AddCMD_shape [of E "the (pq_CMD r)" d d']
    by (auto simp: replacement_def split: option.split_asm sum.split_asm if_split_asm)
  then show "same_head d' d" "pb_InfrastructureType d = Kubernetes \<Longrightarrow> has_settings d'" by blast+
qed

lemma set_probe_keeps:
  "same_head (set_probe new old) new" "has_settings new \<Longrightarrow> has_settings (set_probe new old)"
  by (auto simp: set_probe_def same_head_def has_settings_def kept_def split: option.splits)

definition probe_env_ok :: "probe_env \<Rightarrow> bool" where
  "probe_env_ok E = coll_ok same_live_probe (pe_db E)"

lemma probe_env_user [simp]: "probe_env_ok (E\<lparr>pe_username := u\<rparr>) = probe_env_ok E"
  by (simp add: probe_env_ok_def)

lemma update_plan_value:
  assumes "update_plan E p r s = go_result.Value d"
  obtains old user where "GetProbeByName E (pq_Name r) p s = Inr old" "replacement E r (update_head E p user r old) = go_result.Value d"
proof (cases "pe_username E")
  case (Inr user)
  show ?thesis
  proof (cases "GetProbeByName E (pq_Name r) p s")
    case found: (Inr old)
    then show ?thesis using assms that Inr
      by (cases "replacement E r (update_head E p user r old)") (simp_all add: update_plan_def split: option.splits)
  qed (use assms Inr in \<open>simp add: update_plan_def\<close>)
qed (use assms in \<open>simp add: update_plan_def\<close>)

lemma update_head_simps [simp]:
  "pb_Name (update_head E p user r old) = pq_Name r" "pb_ProjectID (update_head E p user r old) = p"
  "\<not> pb_IsRemoved (update_head E p user r old)" "pb_InfrastructureType (update_head E p user r old) = pb_InfrastructureType old"
  by (simp_all add: update_head_def bare_probe_def)

lemma update_plan_shape:
  assumes "probe_env_ok E" "update_plan E p r s = go_result.Value d" "probes_ok s"
  shows "live_probe (pq_Name r) p d" "probe_ok d"
proof -
  obtain old user where old: "GetProbeByName E (pq_Name r) p s = Inr old"
    and d: "replacement E r (update_head E p user r old) = go_result.Value d"
    using update_plan_value [OF assms(2)] by blast
  have "old \<in> set s" using FindOne_ok [OF assms(1) [unfolded probe_env_ok_def] old [unfolded GetProbeByName_def]] by blast
  then have k: "pb_InfrastructureType (update_head E p user r old) = Kubernetes" using assms(3) by (simp add: probes_ok_def probe_ok_def)
  have head: "same_head d (update_head E p user r old)" by (rule replacement_shape(1) [OF d])
  have "has_settings d" by (rule replacement_shape(2) [OF d k])
  then show "live_probe (pq_Name r) p d" "probe_ok d"
    using head k unfolding same_head_def live_probe_def probe_ok_def by simp_all
qed

section \<open>Every state\<close>

text \<open>
  A write may come late: what an update decided in any earlier state is written in this one. Any deletion may come
  after its probe has changed. The kinds of infrastructure are the schema's: there is only Kubernetes.
\<close>

inductive probes_reach :: "Probe list \<Rightarrow> bool" where
  empty: "probes_reach []"
| added: "probes_reach s \<Longrightarrow> probe_env_ok E \<Longrightarrow> pq_InfrastructureType r = Kubernetes \<Longrightarrow> probes_reach (snd (AddProbe E p r s))"
| updated: "probes_reach s0 \<Longrightarrow> probe_env_ok E \<Longrightarrow> update_plan E p r s0 = go_result.Value d \<Longrightarrow> probes_reach s \<Longrightarrow> probe_env_ok E' \<Longrightarrow>
    probes_reach (snd (update_finish E' (pq_Name r) p d s))"
| deleted: "probes_reach s \<Longrightarrow> probe_env_ok E \<Longrightarrow> probes_reach (snd (delete_write E n p s))"

lemma op_UpdateProbe_or:
  "probe_env_ok E \<Longrightarrow> snd (op_UpdateProbe E q f s) = s \<or> replaced_one q f s (snd (op_UpdateProbe E q f s))"
  using UpdateOne_or [of same_live_probe "pe_db E" q f s]
  by (auto simp: op_UpdateProbe_def probe_env_ok_def split: prod.splits sum.splits)

lemma AddProbe_shape:
  assumes "probe_env_ok E"
  obtains "snd (AddProbe E p r s) = s"
  | d where "snd (AddProbe E p r s) = s @ [d]" "pb_Name d = pq_Name r" "pb_ProjectID d = p" "\<not> pb_IsRemoved d"
    "pb_InfrastructureType d = pq_InfrastructureType r" "has_settings d" "(p, pq_Name r) \<notin> set (live_names s)"
proof (cases "snd (AddProbe E p r s) = s")
  case False
  then obtain user d e s' where d: "new_probe E r (bare_probe E p user r) = Inr d" "InsertOne (pe_db E) d s = (e, s')" "s' \<noteq> s"
    "snd (AddProbe E p r s) = s'"
    by (auto simp: AddProbe_def split: sum.splits prod.splits option.splits)
  have s': "s' = s @ [d]" "\<And>d'. d' \<in> set s \<Longrightarrow> \<not> same_live_probe d d'"
    using InsertOne_cases [OF assms [unfolded probe_env_ok_def] d(2)] d(3) by metis+
  have head: "pb_Name d = pq_Name r" "pb_ProjectID d = p" "\<not> pb_IsRemoved d" "pb_InfrastructureType d = pq_InfrastructureType r" "has_settings d"
    using new_probe_shape [OF d(1)] by (simp_all add: same_head_def bare_probe_def)
  then have "(p, pq_Name r) \<notin> set (live_names s)" using s'(2) by (auto simp: live_names_def same_live_probe_def)
  then show ?thesis using that(2) s'(1) head d(4) by blast
qed (rule that(1))

lemma replaced_live_names:
  assumes "replaced_one q f s s'" "\<And>d. q d \<Longrightarrow> \<not> pb_IsRemoved d"
    "\<And>d. q d \<Longrightarrow> pb_IsRemoved (f d) \<or> (pb_ProjectID (f d) = pb_ProjectID d \<and> pb_Name (f d) = pb_Name d)"
    "distinct (live_names s)"
  shows "distinct (live_names s')"
proof -
  obtain xs d ys where s: "s = xs @ d # ys" "q d" "s' = xs @ f d # ys" using assms(1) by (auto simp: replaced_one_def)
  have "live_names s' = live_names s \<or> live_names s' = live_names xs @ live_names ys"
    using assms(2,3) [OF s(2)] by (auto simp: live_names_def s(1,3))
  then show ?thesis using assms(2) [OF s(2)] assms(4) by (auto simp: live_names_def s(1))
qed

lemma update_finish_ok:
  assumes "probe_env_ok E" "live_probe n p d" "probe_ok d" "probes_ok s"
  shows "probes_ok (snd (update_finish E n p d s))"
proof -
  have head: "live_probe n p (set_probe d old)" "probe_ok (set_probe d old)" for old
    using assms(2,3) set_probe_keeps [where new = d and old = old] by (simp_all add: live_probe_def probe_ok_def same_head_def)
  let ?s = "snd (update_finish E n p d s)"
  have "probes_ok ?s" if "replaced_one (live_probe n p) (set_probe d) s ?s"
  proof -
    have "distinct (live_names ?s)"
      by (rule replaced_live_names [OF that]) (use head assms(4) in \<open>auto simp: live_probe_def probes_ok_def\<close>)
    then show ?thesis using replaced_one_set [OF that] head assms(4) by (auto simp: probes_ok_def)
  qed
  then show ?thesis using op_UpdateProbe_or [OF assms(1)] assms(4) unfolding update_finish_def by metis
qed

lemma removed_probe_keeps [simp]:
  "pb_IsRemoved (removed_probe E d)" "pb_ProjectID (removed_probe E d) = pb_ProjectID d" "probe_ok (removed_probe E d) = probe_ok d"
  by (simp_all add: removed_probe_def probe_ok_def has_settings_def)

lemma delete_write_ok:
  assumes "probe_env_ok E" "probes_ok s"
  shows "probes_ok (snd (delete_write E n p s))"
proof -
  let ?s = "snd (delete_write E n p s)"
  have "probes_ok ?s" if rep: "replaced_one (live_probe n p) (removed_probe E) s ?s"
  proof -
    have "distinct (live_names ?s)"
      by (rule replaced_live_names [OF rep]) (use assms(2) in \<open>auto simp: live_probe_def probes_ok_def\<close>)
    then show ?thesis using replaced_one_set [OF rep] assms(2) removed_probe_keeps(3) unfolding probes_ok_def by metis
  qed
  then show ?thesis using op_UpdateProbe_or [OF assms(1)] assms(2) unfolding delete_write_def by metis
qed

lemma AddProbe_ok:
  assumes "probe_env_ok E" "pq_InfrastructureType r = Kubernetes" "probes_ok s"
  shows "probes_ok (snd (AddProbe E p r s))"
  by (rule AddProbe_shape [OF assms(1), of p r s]) (use assms(2,3) in \<open>auto simp: probes_ok_def probe_ok_def live_names_def\<close>)

lemma probes_reach_ok: "probes_reach s \<Longrightarrow> probes_ok s"
proof (induction rule: probes_reach.induct)
  case empty
  then show ?case by (simp add: probes_ok_def live_names_def)
next
  case (updated s0 E p r d s E')
  then show ?case using update_plan_shape [of E p r s0 d] update_finish_ok by blast
qed (simp_all add: AddProbe_ok delete_write_ok)

section \<open>Probes of other projects\<close>

lemma outcome_snd [simp]: "snd (outcome x) = snd x"
  by (simp add: outcome_def case_prod_beta)

lemma serve_probe_cases:
  assumes "probe_env_ok E"
  obtains "snd (serve_probe E p r s) = s"
  | q where "r = CreateProbe q" "snd (serve_probe E p r s) = snd (AddProbe E p q s)"
  | q d where "r = ChangeProbe q" "update_plan E p q s = go_result.Value d" "snd (serve_probe E p r s) = snd (update_finish E (pq_Name q) p d s)"
  | n where "r = DropProbe n" "snd (serve_probe E p r s) = snd (delete_write E n p s)"
proof (cases r)
  case (CreateProbe q)
  then show ?thesis using that(1) that(2) [of q] by (cases "settings_mismatch q") (simp_all add: serve_probe_def)
next
  case (ChangeProbe q)
  then show ?thesis using that(1) that(3) [of q]
    by (cases "update_plan E p q s") (auto simp: serve_probe_def UpdateProbe_def split: prod.splits option.splits)
next
  case (DropProbe n)
  then show ?thesis using that(1) that(4) [of n]
    by (cases "GetProbeByName E n p s") (auto simp: serve_probe_def DeleteProbe_def split: prod.splits option.splits)
qed

lemma serve_probe_reach:
  assumes "probes_reach s" "probe_env_ok E" "\<And>q. r = CreateProbe q \<Longrightarrow> pq_InfrastructureType q = Kubernetes"
  shows "probes_reach (snd (serve_probe E p r s))"
proof (rule serve_probe_cases [OF assms(2), of p r s])
  fix q d
  assume "update_plan E p q s = go_result.Value d" "snd (serve_probe E p r s) = snd (update_finish E (pq_Name q) p d s)"
  then show ?thesis using probes_reach.updated [OF assms(1,2) _ assms(1,2)] by metis
qed (simp_all add: assms probes_reach.added probes_reach.deleted)

lemma update_plan_head:
  assumes "update_plan E p r s = go_result.Value d"
  shows "pb_ProjectID d = p"
proof -
  obtain old user where "replacement E r (update_head E p user r old) = go_result.Value d" by (rule update_plan_value [OF assms])
  then show ?thesis using replacement_shape(1) by (fastforce simp: same_head_def)
qed

interpretation probe_ops: project_operation serve_probe "\<lambda>E s. probe_env_ok E" "others pb_ProjectID"
proof unfold_locales
  fix E :: probe_env and s p r
  assume E: "probe_env_ok E"
  show "others pb_ProjectID p (snd (serve_probe E p r s)) = others pb_ProjectID p s"
  proof (rule serve_probe_cases [OF E, of p r s])
    fix q
    assume "snd (serve_probe E p r s) = snd (AddProbe E p q s)"
    then show ?thesis by (rule ssubst) (rule AddProbe_shape [OF E, of p q s], simp_all add: others_def)
  next
    fix q d
    assume d: "update_plan E p q s = go_result.Value d" and s': "snd (serve_probe E p r s) = snd (update_finish E (pq_Name q) p d s)"
    have "others pb_ProjectID p s' = others pb_ProjectID p s" if rep: "replaced_one (live_probe (pq_Name q) p) (set_probe d) s s'" for s'
      by (rule others_replaced [OF rep]) (simp add: live_probe_def set_probe_def update_plan_head [OF d])
    then show ?thesis unfolding s' update_finish_def using op_UpdateProbe_or [OF E] by metis
  next
    fix n
    assume s': "snd (serve_probe E p r s) = snd (delete_write E n p s)"
    have "others pb_ProjectID p s' = others pb_ProjectID p s" if rep: "replaced_one (live_probe n p) (removed_probe E) s s'" for s'
      by (rule others_replaced [OF rep]) (simp add: live_probe_def)
    then show ?thesis unfolding s' delete_write_def using op_UpdateProbe_or [OF E] by metis
  qed simp
qed

lemma probe_roles: "roles_for (probe_operation r) = [RoleOwner]"
proof -
  have "list_all (\<lambda>op. roles_for op = [RoleOwner]) [''AddProbe'', ''UpdateProbe'', ''DeleteProbe'']" by code_simp
  then show ?thesis by (cases r) simp_all
qed

end
