(* ===== verification/Probe_Manifest.thy ===== *)
theory Probe_Manifest
  imports Probes Workflow_Spec
begin

text \<open>
  Probes in experiments (\<^verbatim>\<open>graphql/server/pkg/probe/{handler,utils}\<close>, \<^verbatim>\<open>pkg/chaos_experiment/ops/service.go\<close>):
  the probes written into an engine are stored when the experiment is saved and leave references behind, and a run's
  manifest is made by looking the references up again. JSON and YAML are parameters. Go decodes each stored probe of
  a kind into one variable, and the pointers in it are those of all entries made from it: decoding the next probe
  changes the earlier ones, which \<open>alias_http\<close> and \<open>alias_cmd\<close> do.
\<close>

section \<open>Data\<close>

record RunProperty =
  rp_ProbeTimeout :: string
  rp_Interval :: string
  rp_Retry :: int
  rp_Attempt :: int
  rp_ProbePollingInterval :: string
  rp_InitialDelay :: string
  rp_EvaluationTimeout :: string
  rp_StopOnFailure :: bool

record PostMethod =
  pp_ContentType :: string
  pp_Body :: string
  pp_BodyPath :: string
  pp_Criteria :: string
  pp_ResponseCode :: string

record HTTPMethod = hm_Get :: "GET option"  hm_Post :: "PostMethod option"

record HTTPProbeInputs = hi_URL :: string  hi_InsecureSkipVerify :: bool  hi_Method :: HTTPMethod

record CmdProbeInputs = ci_Command :: string  ci_Comparator :: Comparator  ci_Source :: "SourceDetails option"

record PromProbeInputs =
  pi_Endpoint :: string
  pi_Query :: string
  pi_QueryPath :: string
  pi_Comparator :: Comparator

record K8sProbeInputs =
  ki_Group :: string
  ki_Version :: string
  ki_Resource :: string
  ki_ResourceNames :: string
  ki_Namespace :: string
  ki_FieldSelector :: string
  ki_LabelSelector :: string
  ki_Operation :: string

text \<open>The four attribute types differ in their inputs.\<close>

record 'i attributes =
  at_Name :: string
  at_Type :: string
  at_Inputs :: 'i
  at_RunProperties :: RunProperty
  at_Mode :: string

type_synonym HTTPProbeAttributes = "HTTPProbeInputs attributes"
type_synonym CMDProbeAttributes = "CmdProbeInputs attributes"
type_synonym PROMProbeAttributes = "PromProbeInputs attributes"
type_synonym K8SProbeAttributes = "K8sProbeInputs attributes"

record ProbeAttributes =
  pa_Name :: string
  pa_Type :: string
  pa_HTTP :: "HTTPProbeInputs option"
  pa_CMD :: "CmdProbeInputs option"
  pa_PROM :: "PromProbeInputs option"
  pa_K8S :: "K8sProbeInputs option"
  pa_RunProperties :: RunProperty
  pa_Mode :: string

text \<open>A chaos engine, its annotations in the order a loop visits them, and the probes of its experiments.\<close>

record probe_engine =
  ng_Kind :: string
  ng_Namespace :: string
  ng_Appns :: string
  ng_Applabel :: string
  ng_Annotations :: "(string \<times> string) list"
  ng_Probes :: "ProbeAttributes list option list"

datatype yaml = YNull | YText string | YList "yaml list" | YMap "(string \<times> yaml) list"

text \<open>
  \<open>mx_http\<close> and its like decode the text of the second value into a variable that holds the first. \<open>mx_workflow\<close> is
  told whether it decodes a cron workflow.
\<close>

record manifest_env =
  mx_probes :: probe_env
  mx_http :: "HTTPProbeAttributes \<Rightarrow> HTTPProbeAttributes \<Rightarrow> string + HTTPProbeAttributes"
  mx_cmd :: "CMDProbeAttributes \<Rightarrow> CMDProbeAttributes \<Rightarrow> string + CMDProbeAttributes"
  mx_prom :: "PROMProbeAttributes \<Rightarrow> PROMProbeAttributes \<Rightarrow> string + PROMProbeAttributes"
  mx_k8s :: "K8SProbeAttributes \<Rightarrow> K8SProbeAttributes \<Rightarrow> string + K8SProbeAttributes"
  mx_refs :: "string \<Rightarrow> string + (string \<times> string) list"
  mx_refs_text :: "(string \<times> string) list \<Rightarrow> string"
  mx_workflow :: "bool \<Rightarrow> string \<Rightarrow> string + step_template list"
  mx_engine :: "string \<Rightarrow> string + probe_engine"
  mx_engine_text :: "probe_engine \<Rightarrow> string + string"
  mx_yaml :: "string \<Rightarrow> string + yaml"
  mx_yaml_text :: "yaml \<Rightarrow> string + string"

section \<open>A stored probe's manifest\<close>

definition deref :: "'a \<Rightarrow> 'a option \<Rightarrow> 'a" where
  "deref zero v = (case v of None \<Rightarrow> zero | Some x \<Rightarrow> x)"

definition run_properties :: "CommonProbeProperties \<Rightarrow> RunProperty" where
  "run_properties c = \<lparr>rp_ProbeTimeout = cp_ProbeTimeout c, rp_Interval = cp_Interval c, rp_Retry = deref 0 (cp_Retry c),
     rp_Attempt = deref 0 (cp_Attempt c), rp_ProbePollingInterval = deref [] (cp_PollingInterval c),
     rp_InitialDelay = deref [] (cp_InitialDelay c), rp_EvaluationTimeout = deref [] (cp_EvaluationTimeout c),
     rp_StopOnFailure = deref False (cp_StopOnFailure c)\<rparr>"

definition post_method :: "POST \<Rightarrow> PostMethod" where
  "post_method p = \<lparr>pp_ContentType = deref [] (po_ContentType p), pp_Body = deref [] (po_Body p), pp_BodyPath = deref [] (po_BodyPath p),
     pp_Criteria = po_Criteria p, pp_ResponseCode = po_ResponseCode p\<rparr>"

text \<open>The inputs that keep whether certificates are checked are replaced by those of the method.\<close>

definition http_inputs :: "KubernetesHTTPProbe \<Rightarrow> HTTPProbeInputs" where
  "http_inputs h = (case me_GET (hp_Method h) of
     Some g \<Rightarrow> \<lparr>hi_URL = hp_URL h, hi_InsecureSkipVerify = False, hi_Method = \<lparr>hm_Get = Some g, hm_Post = None\<rparr>\<rparr>
   | None \<Rightarrow> (case me_POST (hp_Method h) of
       Some p \<Rightarrow> \<lparr>hi_URL = hp_URL h, hi_InsecureSkipVerify = False, hi_Method = \<lparr>hm_Get = None, hm_Post = Some (post_method p)\<rparr>\<rparr>
     | None \<Rightarrow> \<lparr>hi_URL = [], hi_InsecureSkipVerify = deref False (hp_InsecureSkipVerify h), hi_Method = \<lparr>hm_Get = None, hm_Post = None\<rparr>\<rparr>))"

definition no_source :: SourceDetails where
  "no_source = \<lparr>sc_Image = [], sc_HostNetwork = False, sc_InheritInputs = False, sc_Args = [], sc_ENVList = [], sc_Labels = [],
     sc_Annotations = [], sc_Command = [], sc_ImagePullPolicy = [], sc_Privileged = False, sc_NodeSelector = [], sc_Volumes = [],
     sc_VolumesMount = [], sc_ImagePullSecrets = []\<rparr>"

definition cmd_inputs :: "probe_env \<Rightarrow> KubernetesCMDProbeRequest \<Rightarrow> CmdProbeInputs" where
  "cmd_inputs E c = \<lparr>ci_Command = cq_Command c, ci_Comparator = cq_Comparator c,
     ci_Source = map_option (\<lambda>t. deref no_source (snd (pe_source E t))) (cq_Source c)\<rparr>"

definition prom_inputs :: "PROMProbe \<Rightarrow> PromProbeInputs" where
  "prom_inputs m = \<lparr>pi_Endpoint = pm_Endpoint m, pi_Query = deref [] (pm_Query m), pi_QueryPath = deref [] (pm_QueryPath m),
     pi_Comparator = pm_Comparator m\<rparr>"

definition k8s_inputs :: "K8SProbe \<Rightarrow> K8sProbeInputs" where
  "k8s_inputs k = \<lparr>ki_Group = deref [] (k8_Group k), ki_Version = k8_Version k, ki_Resource = k8_Resource k, ki_ResourceNames = [],
     ki_Namespace = deref [] (k8_Namespace k), ki_FieldSelector = deref [] (k8_FieldSelector k),
     ki_LabelSelector = deref [] (k8_LabelSelector k), ki_Operation = k8_Operation k\<rparr>"

datatype probe_manifest =
    HTTPManifest HTTPProbeAttributes
  | CMDManifest CMDProbeAttributes
  | PROMManifest PROMProbeAttributes
  | K8SManifest K8SProbeAttributes
  | NoManifest

definition attributes_of :: "ProbeResponse \<Rightarrow> string \<Rightarrow> 'i \<Rightarrow> RunProperty \<Rightarrow> 'i attributes" where
  "attributes_of r mode inputs run = \<lparr>at_Name = pr_Name r, at_Type = pr_Type r, at_Inputs = inputs, at_RunProperties = run, at_Mode = mode\<rparr>"

definition GenerateProbeManifest :: "probe_env \<Rightarrow> ProbeResponse \<Rightarrow> string \<Rightarrow> probe_manifest option" where
  "GenerateProbeManifest E r mode =
     (if pr_Type r = HTTPProbe then map_option (\<lambda>h. HTTPManifest (attributes_of r mode (http_inputs h)
        ((run_properties (hp_Common h))\<lparr>rp_InitialDelay := []\<rparr>))) (pr_HTTP r)
      else if pr_Type r = CmdProbe then map_option (\<lambda>c. CMDManifest (attributes_of r mode (cmd_inputs E c) (run_properties (cq_Common c)))) (pr_CMD r)
      else if pr_Type r = PromProbe then map_option (\<lambda>m. PROMManifest (attributes_of r mode (prom_inputs m) (run_properties (pm_Common m)))) (pr_PROM r)
      else if pr_Type r = K8sProbe then map_option (\<lambda>k. K8SManifest (attributes_of r mode (k8s_inputs k) (run_properties (k8_Common k)))) (pr_K8S r)
      else Some NoManifest)"

definition GetProbeYAMLData :: "probe_env \<Rightarrow> string \<Rightarrow> string \<Rightarrow> string \<Rightarrow> Probe list \<Rightarrow> (probe_error, probe_manifest) go_result" where
  "GetProbeYAMLData E n mode p s = (case GetProbeByName E n p s of Inl e \<Rightarrow> Fails (ProbeStore e)
     | Inr d \<Rightarrow> (case GetOutputProbe E d of None \<Rightarrow> Panics
       | Some r \<Rightarrow> (case GenerateProbeManifest E r mode of None \<Rightarrow> Panics | Some m \<Rightarrow> go_result.Value m)))"

section \<open>References\<close>

definition IsEmptyProbeRef :: "string \<Rightarrow> bool" where
  "IsEmptyProbeRef v = (TrimSpace v \<in> set ['''', ''[]'', ''null''])"

definition UnmarshalProbeRef :: "manifest_env \<Rightarrow> string \<Rightarrow> string \<Rightarrow> string + (string \<times> string) list" where
  "UnmarshalProbeRef E key value = (if key \<noteq> ''probeRef'' \<or> IsEmptyProbeRef value then Inr [] else mx_refs E value)"

definition ParseProbeRefAnnotation :: "manifest_env \<Rightarrow> (string \<times> string) list \<Rightarrow> string + (string \<times> string) list" where
  "ParseProbeRefAnnotation E annotations = (case map_of annotations ''probeRef'' of None \<Rightarrow> Inr []
     | Some raw \<Rightarrow> UnmarshalProbeRef E ''probeRef'' raw)"

definition ParseProbeRefNames :: "manifest_env \<Rightarrow> (string \<times> string) list \<Rightarrow> string + string list" where
  "ParseProbeRefNames E annotations = map_sum id (map fst) (ParseProbeRefAnnotation E annotations)"

section \<open>Looking the references up\<close>

definition extractServiceNameFromLabel :: "string \<Rightarrow> string" where
  "extractServiceNameFromLabel label = (if label = [] then []
     else (case SplitByte label CHR ''='' of [_, v] \<Rightarrow> TrimSpace v | _ \<Rightarrow> label))"

definition target_namespace :: "probe_engine \<Rightarrow> string" where
  "target_namespace en = (if ng_Namespace en = [] then ng_Appns en else ng_Namespace en)"

definition inject_url :: "probe_engine \<Rightarrow> HTTPProbeInputs \<Rightarrow> HTTPProbeInputs" where
  "inject_url en h =
     (let service = extractServiceNameFromLabel (ng_Applabel en); ns = target_namespace en in
      if (hi_URL h = [] \<or> hi_URL h = ''http://localhost:8080'') \<and> service \<noteq> [] \<and> ns \<noteq> []
      then h\<lparr>hi_URL := ''http://'' @ service @ ''.'' @ ns @ ''.svc.cluster.local:80''\<rparr> else h)"

definition inject_target :: "probe_engine \<Rightarrow> K8sProbeInputs \<Rightarrow> K8sProbeInputs" where
  "inject_target en k =
     (let k = (if (ki_Namespace k = [] \<or> ki_Namespace k = ''default'') \<and> target_namespace en \<noteq> [] then k\<lparr>ki_Namespace := target_namespace en\<rparr> else k)
      in (if ki_LabelSelector k = [] then k\<lparr>ki_LabelSelector := ng_Applabel en\<rparr> else k))"

text \<open>The four variables of one engine.\<close>

record probe_vars =
  pv_http :: HTTPProbeAttributes
  pv_cmd :: CMDProbeAttributes
  pv_prom :: PROMProbeAttributes
  pv_k8s :: K8SProbeAttributes

definition no_run :: RunProperty where
  "no_run = \<lparr>rp_ProbeTimeout = [], rp_Interval = [], rp_Retry = 0, rp_Attempt = 0, rp_ProbePollingInterval = [],
     rp_InitialDelay = [], rp_EvaluationTimeout = [], rp_StopOnFailure = False\<rparr>"

definition empty_attributes :: "'i \<Rightarrow> 'i attributes" where
  "empty_attributes i = \<lparr>at_Name = [], at_Type = [], at_Inputs = i, at_RunProperties = no_run, at_Mode = []\<rparr>"

definition no_comparator :: Comparator where "no_comparator = \<lparr>cm_Type = [], cm_Value = [], cm_Criteria = []\<rparr>"

definition empty_vars :: probe_vars where
  "empty_vars = \<lparr>pv_http = empty_attributes \<lparr>hi_URL = [], hi_InsecureSkipVerify = False, hi_Method = \<lparr>hm_Get = None, hm_Post = None\<rparr>\<rparr>,
     pv_cmd = empty_attributes \<lparr>ci_Command = [], ci_Comparator = no_comparator, ci_Source = None\<rparr>,
     pv_prom = empty_attributes \<lparr>pi_Endpoint = [], pi_Query = [], pi_QueryPath = [], pi_Comparator = no_comparator\<rparr>,
     pv_k8s = empty_attributes \<lparr>ki_Group = [], ki_Version = [], ki_Resource = [], ki_ResourceNames = [], ki_Namespace = [],
       ki_FieldSelector = [], ki_LabelSelector = [], ki_Operation = []\<rparr>\<rparr>"

definition entry :: "'i attributes \<Rightarrow> ProbeAttributes" where
  "entry a = \<lparr>pa_Name = at_Name a, pa_Type = at_Type a, pa_HTTP = None, pa_CMD = None, pa_PROM = None, pa_K8S = None,
     pa_RunProperties = at_RunProperties a, pa_Mode = at_Mode a\<rparr>"

definition aliased :: "'a option \<Rightarrow> 'a option \<Rightarrow> 'a option" where
  "aliased var old = (case old of None \<Rightarrow> None | Some _ \<Rightarrow> var)"

definition alias_http :: "HTTPProbeAttributes \<Rightarrow> ProbeAttributes \<Rightarrow> ProbeAttributes" where
  "alias_http v e = e\<lparr>pa_HTTP := map_option (\<lambda>h. h\<lparr>hi_Method := \<lparr>hm_Get = aliased (hm_Get (hi_Method (at_Inputs v))) (hm_Get (hi_Method h)),
     hm_Post = aliased (hm_Post (hi_Method (at_Inputs v))) (hm_Post (hi_Method h))\<rparr>\<rparr>) (pa_HTTP e)\<rparr>"

definition alias_cmd :: "CMDProbeAttributes \<Rightarrow> ProbeAttributes \<Rightarrow> ProbeAttributes" where
  "alias_cmd v e = e\<lparr>pa_CMD := map_option (\<lambda>c. c\<lparr>ci_Source := aliased (ci_Source (at_Inputs v)) (ci_Source c)\<rparr>) (pa_CMD e)\<rparr>"

text \<open>One more entry from one more manifest. A cron workflow's probes are not told the target.\<close>

definition add_entry ::
  "manifest_env \<Rightarrow> bool \<Rightarrow> probe_engine \<Rightarrow> probe_manifest \<Rightarrow> probe_vars \<times> ProbeAttributes list \<Rightarrow> string + (probe_vars \<times> ProbeAttributes list)" where
  "add_entry E cron en m = (\<lambda>(v, out). case m of
     HTTPManifest a \<Rightarrow> (case mx_http E (pv_http v) a of Inl e \<Rightarrow> Inl e
       | Inr a \<Rightarrow> (let a = (if cron then a else a\<lparr>at_Inputs := inject_url en (at_Inputs a)\<rparr>)
           in Inr (v\<lparr>pv_http := a\<rparr>, map (alias_http a) out @ [(entry a)\<lparr>pa_HTTP := Some (at_Inputs a)\<rparr>])))
   | CMDManifest a \<Rightarrow> (case mx_cmd E (pv_cmd v) a of Inl e \<Rightarrow> Inl e
       | Inr a \<Rightarrow> Inr (v\<lparr>pv_cmd := a\<rparr>, map (alias_cmd a) out @ [(entry a)\<lparr>pa_CMD := Some (at_Inputs a)\<rparr>]))
   | PROMManifest a \<Rightarrow> (case mx_prom E (pv_prom v) a of Inl e \<Rightarrow> Inl e
       | Inr a \<Rightarrow> Inr (v\<lparr>pv_prom := a\<rparr>, out @ [(entry a)\<lparr>pa_PROM := Some (at_Inputs a)\<rparr>]))
   | K8SManifest a \<Rightarrow> (case mx_k8s E (pv_k8s v) a of Inl e \<Rightarrow> Inl e
       | Inr a \<Rightarrow> (let a = (if cron then a else a\<lparr>at_Inputs := inject_target en (at_Inputs a)\<rparr>)
           in Inr (v\<lparr>pv_k8s := a\<rparr>, out @ [(entry a)\<lparr>pa_K8S := Some (at_Inputs a)\<rparr>])))
   | NoManifest \<Rightarrow> Inr (v, out))"

text \<open>A reference to a probe that is gone is skipped.\<close>

fun expand_refs ::
  "manifest_env \<Rightarrow> string \<Rightarrow> bool \<Rightarrow> probe_engine \<Rightarrow> Probe list \<Rightarrow> (string \<times> string) list \<Rightarrow> probe_vars \<times> ProbeAttributes list \<Rightarrow>
   (probe_error, probe_vars \<times> ProbeAttributes list) go_result" where
  "expand_refs E p cron en s [] st = go_result.Value st"
| "expand_refs E p cron en s ((n, mode) # refs) st = (case GetProbeByName (mx_probes E) n p s of
     Inl NoDocuments \<Rightarrow> expand_refs E p cron en s refs st
   | Inl e \<Rightarrow> Fails (ProbeStore e)
   | Inr d \<Rightarrow> (case GetOutputProbe (mx_probes E) d of None \<Rightarrow> Panics
     | Some r \<Rightarrow> (case GenerateProbeManifest (mx_probes E) r mode of None \<Rightarrow> Panics
       | Some m \<Rightarrow> (case add_entry E cron en m st of Inl e \<Rightarrow> Fails (BadManifest e)
         | Inr st' \<Rightarrow> expand_refs E p cron en s refs st'))))"

fun expand_annotations ::
  "manifest_env \<Rightarrow> string \<Rightarrow> bool \<Rightarrow> probe_engine \<Rightarrow> Probe list \<Rightarrow> (string \<times> string) list \<Rightarrow> probe_vars \<times> ProbeAttributes list \<Rightarrow>
   (probe_error, probe_vars \<times> ProbeAttributes list) go_result" where
  "expand_annotations E p cron en s [] st = go_result.Value st"
| "expand_annotations E p cron en s ((key, value) # annotations) st = (case UnmarshalProbeRef E key value of
     Inl e \<Rightarrow> Fails (BadManifest e)
   | Inr refs \<Rightarrow> (case expand_refs E p cron en s refs st of Fails e \<Rightarrow> Fails e | Panics \<Rightarrow> Panics
     | go_result.Value st' \<Rightarrow> expand_annotations E p cron en s annotations st'))"

text \<open>The references replace the probes written into the engine, unless none of them was found.\<close>

definition expand_engine :: "manifest_env \<Rightarrow> string \<Rightarrow> bool \<Rightarrow> Probe list \<Rightarrow> probe_engine \<Rightarrow> (probe_error, probe_engine) go_result" where
  "expand_engine E p cron s en = (case ng_Probes en of [] \<Rightarrow> Panics
     | probes # rest \<Rightarrow> (case expand_annotations E p cron en s (ng_Annotations en) (empty_vars, []) of
         Fails e \<Rightarrow> Fails e | Panics \<Rightarrow> Panics
       | go_result.Value (_, refs) \<Rightarrow> go_result.Value (en\<lparr>ng_Probes := (if refs \<noteq> [] then Some refs else probes) # rest\<rparr>)))"

definition expand_data :: "manifest_env \<Rightarrow> string \<Rightarrow> bool \<Rightarrow> Probe list \<Rightarrow> string \<Rightarrow> (probe_error, string) go_result" where
  "expand_data E p cron s data = (case mx_engine E data of Inl e \<Rightarrow> Fails (BadManifest e)
     | Inr en \<Rightarrow>
         if ToLower (ng_Kind en) \<noteq> ''chaosengine'' then go_result.Value data
         else (case expand_engine E p cron s en of Fails e \<Rightarrow> Fails e | Panics \<Rightarrow> Panics
           | go_result.Value en' \<Rightarrow> (case mx_engine_text E en' of Inl e \<Rightarrow> Fails (BadManifest e) | Inr t \<Rightarrow> go_result.Value t)))"

definition expand_template :: "manifest_env \<Rightarrow> string \<Rightarrow> bool \<Rightarrow> Probe list \<Rightarrow> step_template \<Rightarrow> (probe_error, step_template) go_result" where
  "expand_template E p cron s t = (case t_Artifacts t of [] \<Rightarrow> go_result.Value t
     | a # rest \<Rightarrow> (case ar_Raw a of None \<Rightarrow> go_result.Value t
       | Some data \<Rightarrow>
           if data = [] then go_result.Value t
           else (case expand_data E p cron s data of Fails e \<Rightarrow> Fails e | Panics \<Rightarrow> Panics
             | go_result.Value data' \<Rightarrow> go_result.Value (t\<lparr>t_Artifacts := a\<lparr>ar_Raw := Some data'\<rparr> # rest\<rparr>))))"

fun expand_templates :: "manifest_env \<Rightarrow> string \<Rightarrow> bool \<Rightarrow> Probe list \<Rightarrow> step_template list \<Rightarrow> (probe_error, step_template list) go_result" where
  "expand_templates E p cron s [] = go_result.Value []"
| "expand_templates E p cron s (t # ts) = (case expand_template E p cron s t of Fails e \<Rightarrow> Fails e | Panics \<Rightarrow> Panics
     | go_result.Value t' \<Rightarrow> (case expand_templates E p cron s ts of Fails e \<Rightarrow> Fails e | Panics \<Rightarrow> Panics
       | go_result.Value ts' \<Rightarrow> go_result.Value (t' # ts')))"

definition GenerateExperimentManifestWithProbes :: "manifest_env \<Rightarrow> string \<Rightarrow> string \<Rightarrow> Probe list \<Rightarrow> (probe_error, step_template list) go_result" where
  "GenerateExperimentManifestWithProbes E manifest p s = (case mx_workflow E False manifest of Inl e \<Rightarrow> Fails (BadManifest e)
     | Inr ts \<Rightarrow> expand_templates E p False s ts)"

definition GenerateCronExperimentManifestWithProbes :: "manifest_env \<Rightarrow> string \<Rightarrow> string \<Rightarrow> Probe list \<Rightarrow> (probe_error, step_template list) go_result" where
  "GenerateCronExperimentManifestWithProbes E manifest p s = (case mx_workflow E True manifest of Inl e \<Rightarrow> Fails (BadManifest e)
     | Inr ts \<Rightarrow> expand_templates E p True s ts)"

section \<open>The probes an experiment names\<close>

fun probes_named :: "manifest_env \<Rightarrow> step_template list \<Rightarrow> string + (string \<times> string list) list" where
  "probes_named E [] = Inr []"
| "probes_named E (t # ts) = (case t_Artifacts t of [] \<Rightarrow> probes_named E ts
   | a # _ \<Rightarrow> (case ar_Raw a of None \<Rightarrow> probes_named E ts
     | Some data \<Rightarrow>
         if data = [] then probes_named E ts
         else (case mx_engine E data of Inl e \<Rightarrow> Inl e
           | Inr en \<Rightarrow>
               if ToLower (ng_Kind en) \<noteq> ''chaosengine'' then probes_named E ts
               else (case ParseProbeRefNames E (ng_Annotations en) of Inl e \<Rightarrow> Inl e
                 | Inr names \<Rightarrow> map_sum id ((#) (ar_Name a, names)) (probes_named E ts)))))"

definition ParseProbesFromManifest :: "manifest_env \<Rightarrow> string \<Rightarrow> string \<Rightarrow> string + (string \<times> string list) list" where
  "ParseProbesFromManifest E wfType manifest = (case mx_workflow E (wfType = ''cronexperiment'') manifest of Inl e \<Rightarrow> Inl e
     | Inr ts \<Rightarrow> probes_named E ts)"

definition ParseProbesFromManifestForRuns :: "manifest_env \<Rightarrow> string \<Rightarrow> string \<Rightarrow> string + (string \<times> string list) list" where
  "ParseProbesFromManifestForRuns E wfType manifest = (case mx_workflow E (wfType = ''cronexperiment'') manifest of Inl e \<Rightarrow> Inl e
     | Inr ts \<Rightarrow> probes_named E ts)"

section \<open>Probes written into an engine\<close>

fun set_key :: "string \<Rightarrow> 'v \<Rightarrow> (string \<times> 'v) list \<Rightarrow> (string \<times> 'v) list" where
  "set_key k v [] = [(k, v)]"
| "set_key k v ((k', v') # m) = (if k' = k then (k, v) # m else (k', v') # set_key k v m)"

definition lookup_key :: "string \<Rightarrow> (string \<times> yaml) list \<Rightarrow> yaml" where
  "lookup_key k m = (case map_of m k of None \<Rightarrow> YNull | Some v \<Rightarrow> v)"

definition InsertProbeRefAnnotation :: "manifest_env \<Rightarrow> string \<Rightarrow> string \<Rightarrow> (probe_error, string) go_result" where
  "InsertProbeRefAnnotation E rawYaml value = (case mx_yaml E rawYaml of Inl e \<Rightarrow> Fails (BadManifest e)
     | Inr (YMap m) \<Rightarrow> (case lookup_key ''metadata'' m of YNull \<Rightarrow> Fails (BadManifest ''metadata not found'')
       | YMap md \<Rightarrow>
           (let put = (\<lambda>annotations. (case mx_yaml_text E (YMap (set_key ''metadata'' (YMap (set_key ''annotations''
                  (YMap (set_key ''probeRef'' (YText value) annotations)) md)) m)) of
                Inl e \<Rightarrow> Fails (BadManifest e) | Inr t \<Rightarrow> go_result.Value t)) in
            case lookup_key ''annotations'' md of YNull \<Rightarrow> put [] | YMap annotations \<Rightarrow> put annotations | _ \<Rightarrow> Panics)
       | _ \<Rightarrow> Panics)
     | Inr _ \<Rightarrow> Panics)"

definition inline_common :: "RunProperty \<Rightarrow> CommonProbeProperties" where
  "inline_common r = \<lparr>cp_ProbeTimeout = rp_ProbeTimeout r, cp_Interval = rp_Interval r, cp_Retry = Some (rp_Retry r),
     cp_Attempt = Some (rp_Attempt r), cp_PollingInterval = Some (rp_ProbePollingInterval r), cp_InitialDelay = Some (rp_InitialDelay r),
     cp_EvaluationTimeout = Some (rp_EvaluationTimeout r), cp_StopOnFailure = Some (rp_StopOnFailure r)\<rparr>"

definition unless_empty :: "string \<Rightarrow> string option" where
  "unless_empty t = (if t = [] then None else Some t)"

definition inline_post :: "PostMethod \<Rightarrow> POST" where
  "inline_post p = \<lparr>po_ContentType = Some (pp_ContentType p), po_Body = Some (pp_Body p), po_BodyPath = Some (pp_BodyPath p),
     po_Criteria = default_if_blank ''oneOf'' (pp_Criteria p), po_ResponseCode = default_if_blank ''200'' (pp_ResponseCode p)\<rparr>"

definition inline_method :: "HTTPMethod \<Rightarrow> Method option" where
  "inline_method m = (case hm_Get m of
     Some g \<Rightarrow> Some \<lparr>me_GET = Some \<lparr>gt_Criteria = default_if_blank ''oneOf'' (gt_Criteria g), gt_ResponseCode = default_if_blank ''200'' (gt_ResponseCode g)\<rparr>,
       me_POST = None\<rparr>
   | None \<Rightarrow> (case hm_Post m of Some p \<Rightarrow> Some \<lparr>me_GET = None, me_POST = Some (inline_post p)\<rparr> | None \<Rightarrow> None))"

definition inline_http :: "RunProperty \<Rightarrow> HTTPProbeInputs \<Rightarrow> Method \<Rightarrow> KubernetesHTTPProbeRequest" where
  "inline_http r h m = \<lparr>hq_Common = (inline_common r)\<lparr>cp_PollingInterval := unless_empty (rp_ProbePollingInterval r),
       cp_InitialDelay := unless_empty (rp_InitialDelay r), cp_EvaluationTimeout := unless_empty (rp_EvaluationTimeout r)\<rparr>,
     hq_URL = Some (hi_URL h), hq_Method = m, hq_InsecureSkipVerify = Some (hi_InsecureSkipVerify h)\<rparr>"

definition inline_prom :: "RunProperty \<Rightarrow> PromProbeInputs \<Rightarrow> PROMProbe" where
  "inline_prom r m = \<lparr>pm_Common = inline_common r, pm_Endpoint = pi_Endpoint m, pm_Query = Some (pi_Query m),
     pm_QueryPath = Some (pi_QueryPath m), pm_Comparator = pi_Comparator m\<rparr>"

definition inline_k8s :: "RunProperty \<Rightarrow> K8sProbeInputs \<Rightarrow> K8SProbe" where
  "inline_k8s r k = \<lparr>k8_Common = (inline_common r)\<lparr>cp_InitialDelay := None\<rparr>, k8_Group = Some (ki_Group k), k8_Version = ki_Version k,
     k8_Resource = ki_Resource k, k8_ResourceNames = Some (ki_ResourceNames k), k8_Namespace = Some (ki_Namespace k),
     k8_FieldSelector = Some (ki_FieldSelector k), k8_LabelSelector = Some (ki_LabelSelector k), k8_Operation = ki_Operation k\<rparr>"

definition inline_cmd :: "probe_env \<Rightarrow> RunProperty \<Rightarrow> CmdProbeInputs \<Rightarrow> KubernetesCMDProbeRequest" where
  "inline_cmd E r c = \<lparr>cq_Common = (inline_common r)\<lparr>cp_EvaluationTimeout := None\<rparr>, cq_Command = ci_Command c,
     cq_Comparator = ci_Comparator c, cq_Source = Some (pe_source_text E (ci_Source c))\<rparr>"

definition inline_request :: "string \<Rightarrow> ProbeAttributes \<Rightarrow> ProbeRequest" where
  "inline_request uuid a = \<lparr>pq_Name = pa_Name a @ ''-'' @ uuid, pq_Description = None, pq_Tags = [], pq_Type = pa_Type a,
     pq_InfrastructureType = Kubernetes, pq_HTTP = None, pq_CMD = None, pq_PROM = None, pq_K8S = None\<rparr>"

text \<open>A kind without its inputs is a nil pointer.\<close>

definition ProbeInputsToProbeRequestConverter :: "probe_env \<Rightarrow> string \<Rightarrow> ProbeAttributes \<Rightarrow> (probe_error, ProbeRequest) go_result" where
  "ProbeInputsToProbeRequestConverter E uuid a =
     (let r = pa_RunProperties a; q = inline_request uuid a in
      if rp_ProbeTimeout r = [] \<or> rp_Interval r = [] then Fails (BadProbe ''values for ProbeTimeout and Interval are required'')
      else if pa_Type a = HTTPProbe then (case pa_HTTP a of None \<Rightarrow> Panics
        | Some h \<Rightarrow> (case inline_method (hi_Method h) of None \<Rightarrow> Fails (BadProbe ''GET/POST method not specified'')
          | Some m \<Rightarrow> go_result.Value (q\<lparr>pq_HTTP := Some (inline_http r h m)\<rparr>)))
      else if pa_Type a = PromProbe then (case pa_PROM a of None \<Rightarrow> Panics
        | Some m \<Rightarrow> if pi_Endpoint m = [] then Fails (BadProbe ''endpoint not specified'') else go_result.Value (q\<lparr>pq_PROM := Some (inline_prom r m)\<rparr>))
      else if pa_Type a = K8sProbe then (case pa_K8S a of None \<Rightarrow> Panics
        | Some k \<Rightarrow>
            if ki_Resource k = [] \<or> ki_Operation k = [] \<or> ki_Version k = [] then Fails (BadProbe ''resource, operation and version are required'')
            else go_result.Value (q\<lparr>pq_K8S := Some (inline_k8s r k)\<rparr>))
      else if pa_Type a = CmdProbe then (case pa_CMD a of None \<Rightarrow> Panics | Some c \<Rightarrow> go_result.Value (q\<lparr>pq_CMD := Some (inline_cmd E r c)\<rparr>))
      else go_result.Value q)"

text \<open>Each probe with the identifier that becomes part of its name.\<close>

fun store_inline ::
  "probe_env \<Rightarrow> string \<Rightarrow> (string \<times> ProbeAttributes) list \<Rightarrow> Probe list \<Rightarrow> (probe_error, (string \<times> string) list) go_result \<times> Probe list" where
  "store_inline E p [] s = (go_result.Value [], s)"
| "store_inline E p ((uuid, a) # as) s = (case ProbeInputsToProbeRequestConverter E uuid a of Fails e \<Rightarrow> (Fails e, s) | Panics \<Rightarrow> (Panics, s)
   | go_result.Value q \<Rightarrow> (case AddProbe E p q s of (Fails e, s') \<Rightarrow> (Fails e, s') | (Panics, s') \<Rightarrow> (Panics, s')
     | (go_result.Value r, s') \<Rightarrow> (case store_inline E p as s' of
         (go_result.Value refs, s'') \<Rightarrow> (go_result.Value ((pr_Name r, pa_Mode a) # refs), s'') | failed \<Rightarrow> failed)))"

definition reference_inline ::
  "manifest_env \<Rightarrow> string \<Rightarrow> string list \<Rightarrow> probe_engine \<Rightarrow> string \<Rightarrow> Probe list \<Rightarrow> (probe_error, string) go_result \<times> Probe list" where
  "reference_inline E p uuids en raw s =
     (if map_of (ng_Annotations en) ''probeRef'' \<noteq> None then (go_result.Value raw, s)
      else (case ng_Probes en of [] \<Rightarrow> (Panics, s)
        | None # _ \<Rightarrow> (Fails (BadManifest ''no probes specified in chaosengine''), s)
        | Some as # _ \<Rightarrow> (case store_inline (mx_probes E) p (zip uuids as) s of
            (go_result.Value refs, s') \<Rightarrow> (InsertProbeRefAnnotation E raw (mx_refs_text E refs), s')
          | (Fails e, s') \<Rightarrow> (Fails e, s') | (Panics, s') \<Rightarrow> (Panics, s'))))"

section \<open>Every stored probe has a manifest\<close>

lemma manifest_total:
  assumes "GetOutputProbe E d = Some r" "probe_ok d"
  shows "\<exists>m. GenerateProbeManifest E r mode = Some m"
  using assms by (auto simp: GetOutputProbe_def GenerateProbeManifest_def probe_ok_def Let_def split: if_splits)

lemma stored_probe_usable: "probe_ok d \<Longrightarrow> \<exists>r m. GetOutputProbe E d = Some r \<and> GenerateProbeManifest E r mode = Some m"
  using shown_total [of d E] manifest_total unfolding probe_ok_def by metis

section \<open>What comes back of an inline probe\<close>

definition kept_method :: "HTTPMethod \<Rightarrow> HTTPMethod" where
  "kept_method m = (case hm_Get m of
     Some g \<Rightarrow> \<lparr>hm_Get = Some \<lparr>gt_Criteria = default_if_blank ''oneOf'' (gt_Criteria g), gt_ResponseCode = default_if_blank ''200'' (gt_ResponseCode g)\<rparr>,
       hm_Post = None\<rparr>
   | None \<Rightarrow> \<lparr>hm_Get = None, hm_Post = map_option (\<lambda>p. \<lparr>pp_ContentType = [], pp_Body = [], pp_BodyPath = [],
       pp_Criteria = default_if_blank ''oneOf'' (pp_Criteria p), pp_ResponseCode = default_if_blank ''200'' (pp_ResponseCode p)\<rparr>) (hm_Post m)\<rparr>)"

definition kept_run :: "string \<Rightarrow> RunProperty \<Rightarrow> RunProperty" where
  "kept_run t r = (if t = HTTPProbe \<or> t = K8sProbe then r\<lparr>rp_InitialDelay := []\<rparr>
     else if t = CmdProbe then r\<lparr>rp_EvaluationTimeout := []\<rparr> else r)"

definition kept_http :: "HTTPProbeInputs \<Rightarrow> HTTPProbeInputs" where
  "kept_http h = h\<lparr>hi_InsecureSkipVerify := False, hi_Method := kept_method (hi_Method h)\<rparr>"

definition kept_k8s :: "K8sProbeInputs \<Rightarrow> K8sProbeInputs" where
  "kept_k8s k = k\<lparr>ki_ResourceNames := []\<rparr>"

definition ref_name :: "string \<times> ProbeAttributes \<Rightarrow> string" where
  "ref_name = (\<lambda>(uuid, a). pa_Name a @ ''-'' @ uuid)"

text \<open>
  The probe under its new name with its kind's inputs and run properties, but for: whether certificates are checked,
  the content of a POST, resource names, and the initial delay of HTTP and Kubernetes probes and the evaluation timeout
  of commands. A blank target is filled in, unless the workflow is a cron workflow.
\<close>

definition brought_back :: "bool \<Rightarrow> probe_engine \<Rightarrow> string \<times> ProbeAttributes \<Rightarrow> ProbeAttributes" where
  "brought_back cron en ua = (let a = snd ua in
     \<lparr>pa_Name = ref_name ua, pa_Type = pa_Type a,
      pa_HTTP = (if pa_Type a = HTTPProbe then map_option (\<lambda>h. (if cron then kept_http h else inject_url en (kept_http h))) (pa_HTTP a) else None),
      pa_CMD = (if pa_Type a = CmdProbe then pa_CMD a else None),
      pa_PROM = (if pa_Type a = PromProbe then pa_PROM a else None),
      pa_K8S = (if pa_Type a = K8sProbe then map_option (\<lambda>k. if cron then kept_k8s k else inject_target en (kept_k8s k)) (pa_K8S a) else None),
      pa_RunProperties = kept_run (pa_Type a) (pa_RunProperties a), pa_Mode = pa_Mode a\<rparr>)"

definition probe_kinds :: "string list" where
  "probe_kinds = [HTTPProbe, CmdProbe, PromProbe, K8sProbe]"

definition attributes_back :: "string \<times> ProbeAttributes \<Rightarrow> 'i \<Rightarrow> 'i attributes" where
  "attributes_back ua i = \<lparr>at_Name = ref_name ua, at_Type = pa_Type (snd ua), at_Inputs = i,
     at_RunProperties = kept_run (pa_Type (snd ua)) (pa_RunProperties (snd ua)), at_Mode = pa_Mode (snd ua)\<rparr>"

definition inline_manifest :: "string \<times> ProbeAttributes \<Rightarrow> probe_manifest" where
  "inline_manifest ua = (let a = snd ua in
     if pa_Type a = HTTPProbe then HTTPManifest (attributes_back ua (kept_http (the (pa_HTTP a))))
     else if pa_Type a = CmdProbe then CMDManifest (attributes_back ua (the (pa_CMD a)))
     else if pa_Type a = PromProbe then PROMManifest (attributes_back ua (the (pa_PROM a)))
     else if pa_Type a = K8sProbe then K8SManifest (attributes_back ua (kept_k8s (the (pa_K8S a)))) else NoManifest)"

definition source_ok :: "probe_env \<Rightarrow> string \<times> ProbeAttributes \<Rightarrow> bool" where
  "source_ok E ua = (\<forall>c. pa_CMD (snd ua) = Some c \<longrightarrow> pe_source E (pe_source_text E (ci_Source c)) = (None, ci_Source c))"

lemma default_if_blank_twice [simp]: "default_if_blank d (default_if_blank d s) = default_if_blank d s"
  by (simp add: default_if_blank_def)

lemma copied_source_id [simp]: "copied_source c = c" "map_option copied_source v = v"
  by (simp_all add: copied_source_def, cases v) (simp_all add: copied_source_def)

text \<open>A probe of an engine as it is stored, whoever saves the experiment.\<close>

definition stored_inline :: "probe_env \<Rightarrow> string \<Rightarrow> string \<times> ProbeAttributes \<Rightarrow> Probe \<Rightarrow> bool" where
  "stored_inline E p ua d = (\<exists>q user. ProbeInputsToProbeRequestConverter E (fst ua) (snd ua) = go_result.Value q \<and>
     new_probe E q (bare_probe E p user q) = Inr d)"

lemma converted_head:
  "ProbeInputsToProbeRequestConverter E uuid a = go_result.Value q \<Longrightarrow>
   pq_Name q = pa_Name a @ ''-'' @ uuid \<and> pq_Type q = pa_Type a \<and> pq_InfrastructureType q = Kubernetes"
  by (auto simp: ProbeInputsToProbeRequestConverter_def inline_request_def Let_def split: option.split_asm if_split_asm)

lemma converted_http:
  "ProbeInputsToProbeRequestConverter E uuid a = go_result.Value q \<Longrightarrow> pa_Type a = HTTPProbe \<Longrightarrow>
   \<exists>h m. pa_HTTP a = Some h \<and> inline_method (hi_Method h) = Some m \<and> pq_HTTP q = Some (inline_http (pa_RunProperties a) h m)"
  by (auto simp: ProbeInputsToProbeRequestConverter_def Let_def split: option.split_asm if_split_asm)

lemma converted_cmd:
  "ProbeInputsToProbeRequestConverter E uuid a = go_result.Value q \<Longrightarrow> pa_Type a = CmdProbe \<Longrightarrow>
   \<exists>c. pa_CMD a = Some c \<and> pq_CMD q = Some (inline_cmd E (pa_RunProperties a) c)"
  by (auto simp: ProbeInputsToProbeRequestConverter_def Let_def probe_types split: option.split_asm if_split_asm)

lemma converted_prom:
  "ProbeInputsToProbeRequestConverter E uuid a = go_result.Value q \<Longrightarrow> pa_Type a = PromProbe \<Longrightarrow>
   \<exists>m. pa_PROM a = Some m \<and> pq_PROM q = Some (inline_prom (pa_RunProperties a) m)"
  by (auto simp: ProbeInputsToProbeRequestConverter_def Let_def probe_types split: option.split_asm if_split_asm)

lemma converted_k8s:
  "ProbeInputsToProbeRequestConverter E uuid a = go_result.Value q \<Longrightarrow> pa_Type a = K8sProbe \<Longrightarrow>
   \<exists>k. pa_K8S a = Some k \<and> pq_K8S q = Some (inline_k8s (pa_RunProperties a) k)"
  by (auto simp: ProbeInputsToProbeRequestConverter_def Let_def probe_types split: option.split_asm if_split_asm)

lemma new_probe_typed:
  "new_probe E q d = Inr d' \<Longrightarrow> pq_Type q = HTTPProbe \<Longrightarrow> pq_HTTP q = Some h \<Longrightarrow> d' = AddKubernetesHTTPProbeProperties h d"
  "new_probe E q d = Inr d' \<Longrightarrow> pq_Type q = CmdProbe \<Longrightarrow> pq_CMD q = Some c \<Longrightarrow> AddKubernetesCMDProbeProperties E c d = Inr d'"
  "new_probe E q d = Inr d' \<Longrightarrow> pq_Type q = PromProbe \<Longrightarrow> pq_PROM q = Some m \<Longrightarrow> d' = AddPROMProbeProperties m d"
  "new_probe E q d = Inr d' \<Longrightarrow> pq_Type q = K8sProbe \<Longrightarrow> pq_K8S q = Some k \<Longrightarrow> d' = AddK8SProbeProperties k d"
  by (simp_all add: new_probe_def probe_types split: option.split_asm sum.split_asm)

text \<open>The manifest of a stored probe, kind by kind.\<close>

definition probe_attributes :: "Probe \<Rightarrow> string \<Rightarrow> 'i \<Rightarrow> RunProperty \<Rightarrow> 'i attributes" where
  "probe_attributes d mode inputs run = \<lparr>at_Name = pb_Name d, at_Type = pb_Type d, at_Inputs = inputs, at_RunProperties = run, at_Mode = mode\<rparr>"

definition manifest_of :: "probe_env \<Rightarrow> Probe \<Rightarrow> string \<Rightarrow> probe_manifest option" where
  "manifest_of E d mode = (case GetOutputProbe E d of None \<Rightarrow> None | Some r \<Rightarrow> GenerateProbeManifest E r mode)"

lemmas manifest_simps = manifest_of_def GetOutputProbe_def GenerateProbeManifest_def attributes_of_def probe_attributes_def

lemma manifest_typed:
  "pb_InfrastructureType d = Kubernetes \<Longrightarrow> pb_Type d = HTTPProbe \<Longrightarrow> pb_HTTP d = Some h \<Longrightarrow> manifest_of E d mode =
     Some (HTTPManifest (probe_attributes d mode (http_inputs (h\<lparr>hp_Method := shown_method (hp_Method h)\<rparr>))
       ((run_properties (hp_Common h))\<lparr>rp_InitialDelay := []\<rparr>)))"
  "pb_InfrastructureType d = Kubernetes \<Longrightarrow> pb_Type d = CmdProbe \<Longrightarrow> pb_CMD d = Some c \<Longrightarrow> manifest_of E d mode =
     Some (CMDManifest (probe_attributes d mode (cmd_inputs E (shown_cmd E c)) (run_properties (cd_Common c))))"
  "pb_InfrastructureType d = Kubernetes \<Longrightarrow> pb_Type d = PromProbe \<Longrightarrow> pb_PROM d = Some m \<Longrightarrow> manifest_of E d mode =
     Some (PROMManifest (probe_attributes d mode (prom_inputs m) (run_properties (pm_Common m))))"
  "pb_InfrastructureType d = Kubernetes \<Longrightarrow> pb_Type d = K8sProbe \<Longrightarrow> pb_K8S d = Some k \<Longrightarrow> manifest_of E d mode =
     Some (K8SManifest (probe_attributes d mode (k8s_inputs k) (run_properties (k8_Common k))))"
  by (simp_all add: manifest_simps probe_types shown_cmd_def Let_def)

lemma same_run [simp]:
  "run_properties (inline_common r) = r"
  "run_properties ((inline_common r)\<lparr>cp_InitialDelay := None\<rparr>) = r\<lparr>rp_InitialDelay := []\<rparr>"
  "run_properties ((inline_common r)\<lparr>cp_EvaluationTimeout := None\<rparr>) = r\<lparr>rp_EvaluationTimeout := []\<rparr>"
  by (simp_all add: run_properties_def inline_common_def deref_def)

lemma deref_unless_empty [simp]: "deref [] (unless_empty t) = t"
  by (simp add: deref_def unless_empty_def)

lemma http_run:
  "(run_properties (hq_Common (inline_http r h m)))\<lparr>rp_InitialDelay := []\<rparr> = r\<lparr>rp_InitialDelay := []\<rparr>"
  by (simp add: run_properties_def inline_http_def inline_common_def) (simp add: deref_def)

lemma http_kept:
  assumes "inline_method (hi_Method h) = Some m"
  shows "http_inputs \<lparr>hp_Common = c, hp_URL = hi_URL h, hp_Method = shown_method (http_method m), hp_InsecureSkipVerify = k\<rparr> = kept_http h"
  using assms by (cases h) (auto simp: http_inputs_def shown_method_def http_method_def inline_method_def kept_http_def kept_method_def
      post_method_def inline_post_def deref_def split: option.split_asm)

lemma cmd_kept:
  "pe_source E (pe_source_text E (ci_Source c)) = (None, ci_Source c) \<Longrightarrow>
   cmd_inputs E (shown_cmd E \<lparr>cd_Common = k, cd_Command = ci_Command c, cd_Comparator = ci_Comparator c, cd_Source = ci_Source c\<rparr>) = c"
  by (cases c; cases "ci_Source c") (simp_all add: cmd_inputs_def shown_cmd_def deref_def)

lemma prom_kept [simp]: "prom_inputs (inline_prom r m) = m" "pm_Common (inline_prom r m) = inline_common r"
  by (simp_all add: prom_inputs_def inline_prom_def deref_def)

lemma k8s_kept [simp]:
  "k8s_inputs (inline_k8s r k) = kept_k8s k" "k8_Common (inline_k8s r k) = (inline_common r)\<lparr>cp_InitialDelay := None\<rparr>"
  by (simp_all add: k8s_inputs_def inline_k8s_def kept_k8s_def deref_def)

lemma kept_run_typed [simp]:
  "kept_run HTTPProbe r = r\<lparr>rp_InitialDelay := []\<rparr>" "kept_run CmdProbe r = r\<lparr>rp_EvaluationTimeout := []\<rparr>"
  "kept_run PromProbe r = r" "kept_run K8sProbe r = r\<lparr>rp_InitialDelay := []\<rparr>"
  by (simp_all add: kept_run_def probe_types)

lemma probe_types_differ [simp]:
  "HTTPProbe \<noteq> CmdProbe" "HTTPProbe \<noteq> PromProbe" "HTTPProbe \<noteq> K8sProbe" "CmdProbe \<noteq> HTTPProbe" "CmdProbe \<noteq> PromProbe" "CmdProbe \<noteq> K8sProbe"
  "PromProbe \<noteq> HTTPProbe" "PromProbe \<noteq> CmdProbe" "PromProbe \<noteq> K8sProbe" "K8sProbe \<noteq> HTTPProbe" "K8sProbe \<noteq> CmdProbe" "K8sProbe \<noteq> PromProbe"
  by (simp_all add: probe_types)

lemma stored_head:
  assumes "stored_inline E p ua d"
  shows "live_probe (ref_name ua) p d" "pb_Type d = pa_Type (snd ua)" "pb_InfrastructureType d = Kubernetes" "pb_Name d = ref_name ua"
proof -
  obtain q user where q: "ProbeInputsToProbeRequestConverter E (fst ua) (snd ua) = go_result.Value q"
    "new_probe E q (bare_probe E p user q) = Inr d" using assms unfolding stored_inline_def by blast
  have "same_head d (bare_probe E p user q)" by (rule new_probe_shape(1) [OF q(2)]) (simp add: bare_probe_def)
  then show "live_probe (ref_name ua) p d" "pb_Type d = pa_Type (snd ua)" "pb_InfrastructureType d = Kubernetes" "pb_Name d = ref_name ua"
    using converted_head [OF q(1)] by (simp_all add: same_head_def bare_probe_def live_probe_def ref_name_def case_prod_beta)
qed

lemma attributes_back_typed:
  assumes "stored_inline E p ua d" "run = kept_run (pa_Type (snd ua)) (pa_RunProperties (snd ua))" "i = i'"
  shows "probe_attributes d (pa_Mode (snd ua)) i run = attributes_back ua i'"
  using stored_head [OF assms(1)] assms(2,3) by (simp add: probe_attributes_def attributes_back_def)

lemma stored_inline_manifest:
  assumes "stored_inline E p ua d" "pa_Type (snd ua) \<in> set probe_kinds" "source_ok E ua"
  shows "manifest_of E d (pa_Mode (snd ua)) = Some (inline_manifest ua)"
proof -
  let ?a = "snd ua"
  obtain q user where q: "ProbeInputsToProbeRequestConverter E (fst ua) ?a = go_result.Value q"
    "new_probe E q (bare_probe E p user q) = Inr d" using assms(1) unfolding stored_inline_def by blast
  note head = stored_head [OF assms(1)] and type = converted_head [OF q(1)]
  consider "pa_Type ?a = HTTPProbe" | "pa_Type ?a = CmdProbe" | "pa_Type ?a = PromProbe" | "pa_Type ?a = K8sProbe"
    using assms(2) by (auto simp: probe_kinds_def)
  then show ?thesis
  proof cases
    case 1
    obtain h m where h: "pa_HTTP ?a = Some h" "inline_method (hi_Method h) = Some m" "pq_HTTP q = Some (inline_http (pa_RunProperties ?a) h m)"
      using converted_http [OF q(1) 1] by blast
    have d: "d = AddKubernetesHTTPProbeProperties (inline_http (pa_RunProperties ?a) h m) (bare_probe E p user q)"
      using new_probe_typed(1) [OF q(2) _ h(3)] type 1 by simp
    have "pb_HTTP d = Some \<lparr>hp_Common = hq_Common (inline_http (pa_RunProperties ?a) h m), hp_URL = hi_URL h, hp_Method = http_method m,
        hp_InsecureSkipVerify = Some (hi_InsecureSkipVerify h)\<rparr>"
      by (simp add: d AddKubernetesHTTPProbeProperties_def inline_http_def)
    from manifest_typed(1) [OF head(3) _ this] show ?thesis
      using head(2) 1 h(1) attributes_back_typed [OF assms(1) _ http_kept [OF h(2)]]
      by (simp add: inline_manifest_def http_run Let_def)
  next
    case 2
    obtain c where c: "pa_CMD ?a = Some c" "pq_CMD q = Some (inline_cmd E (pa_RunProperties ?a) c)" using converted_cmd [OF q(1) 2] by blast
    have "AddKubernetesCMDProbeProperties E (inline_cmd E (pa_RunProperties ?a) c) (bare_probe E p user q) = Inr d"
      using new_probe_typed(2) [OF q(2) _ c(2)] type 2 by simp
    then have "pb_CMD d = Some \<lparr>cd_Common = (inline_common (pa_RunProperties ?a))\<lparr>cp_EvaluationTimeout := None\<rparr>, cd_Command = ci_Command c,
        cd_Comparator = ci_Comparator c, cd_Source = ci_Source c\<rparr>"
      using assms(3) c(1) by (auto simp: AddKubernetesCMDProbeProperties_def inline_cmd_def source_ok_def)
    from manifest_typed(2) [OF head(3) _ this] show ?thesis
      using head(2) 2 c(1) attributes_back_typed [OF assms(1) _ cmd_kept] assms(3)
      by (simp add: inline_manifest_def source_ok_def Let_def)
  next
    case 3
    obtain m where m: "pa_PROM ?a = Some m" "pq_PROM q = Some (inline_prom (pa_RunProperties ?a) m)" using converted_prom [OF q(1) 3] by blast
    have "d = AddPROMProbeProperties (inline_prom (pa_RunProperties ?a) m) (bare_probe E p user q)"
      using new_probe_typed(3) [OF q(2) _ m(2)] type 3 by simp
    then have "pb_PROM d = Some (inline_prom (pa_RunProperties ?a) m)" by (simp add: AddPROMProbeProperties_def)
    from manifest_typed(3) [OF head(3) _ this] show ?thesis
      using head(2) 3 m(1) attributes_back_typed [OF assms(1) refl refl, of m] by (simp add: inline_manifest_def Let_def)
  next
    case 4
    obtain k where k: "pa_K8S ?a = Some k" "pq_K8S q = Some (inline_k8s (pa_RunProperties ?a) k)" using converted_k8s [OF q(1) 4] by blast
    have d: "d = AddK8SProbeProperties (inline_k8s (pa_RunProperties ?a) k) (bare_probe E p user q)"
      using new_probe_typed(4) [OF q(2) _ k(2)] type 4 by simp
    then have "pb_K8S d = Some (inline_k8s (pa_RunProperties ?a) k)" by (simp add: AddK8SProbeProperties_def inline_k8s_def)
    from manifest_typed(4) [OF head(3) _ this] show ?thesis
      using head(2) 4 k(1) attributes_back_typed [OF assms(1) refl refl, of "kept_k8s k"] by (simp add: inline_manifest_def Let_def)
  qed
qed

section \<open>An engine's probes on the way to the store and back\<close>

lemma AddProbe_value:
  assumes "probe_env_ok E" "AddProbe E p q s = (go_result.Value r, s')"
  obtains user d where "new_probe E q (bare_probe E p user q) = Inr d" "s' = s @ [d]" "pr_Name r = pq_Name q"
proof -
  obtain user d where d: "new_probe E q (bare_probe E p user q) = Inr d" "InsertOne (pe_db E) d s = (None, s')" "shown E d = go_result.Value r"
    using assms(2) by (auto simp: AddProbe_def split: sum.splits prod.splits option.splits)
  have "same_head d (bare_probe E p user q)" by (rule new_probe_shape(1) [OF d(1)]) (simp add: bare_probe_def)
  moreover have "pr_Name r = pb_Name d" using d(3) by (auto simp: shown_def GetOutputProbe_def Let_def split: option.splits if_splits)
  moreover have "s' = s @ [d]" by (rule InsertOne_None [OF assms(1) [unfolded probe_env_ok_def] d(2)])
  ultimately show ?thesis using that d(1) by (simp add: same_head_def bare_probe_def)
qed

lemma store_inline_shape:
  assumes "probe_env_ok E" "store_inline E p uas s = (go_result.Value refs, s')" "probes_ok s"
  shows "(\<exists>ds. s' = s @ ds \<and> list_all2 (stored_inline E p) uas ds) \<and>
    refs = map (\<lambda>ua. (ref_name ua, pa_Mode (snd ua))) uas \<and> probes_ok s'"
  using assms(2,3)
proof (induction uas arbitrary: s refs)
  case (Cons ua uas)
  obtain uuid a where ua: "ua = (uuid, a)" by fastforce
  obtain q r s1 refs' where step: "ProbeInputsToProbeRequestConverter E uuid a = go_result.Value q"
      "AddProbe E p q s = (go_result.Value r, s1)" "store_inline E p uas s1 = (go_result.Value refs', s')" "refs = (pr_Name r, pa_Mode a) # refs'"
    using Cons.prems(1) by (auto simp: ua split: go_result.splits prod.splits)
  obtain user d where d: "new_probe E q (bare_probe E p user q) = Inr d" "s1 = s @ [d]" "pr_Name r = pq_Name q"
    by (rule AddProbe_value [OF assms(1) step(2)])
  have "probes_ok (snd (AddProbe E p q s))" using AddProbe_ok [OF assms(1) _ Cons.prems(2)] converted_head [OF step(1)] by blast
  then have "probes_ok s1" by (simp add: step(2))
  note rest = Cons.IH [OF step(3) this]
  have "stored_inline E p ua d" unfolding stored_inline_def ua using step(1) d(1) by auto
  moreover have "pr_Name r = ref_name ua" using d(3) converted_head [OF step(1)] by (simp add: ref_name_def ua)
  ultimately show ?case using rest d(2) step(4) by (auto simp: ua intro: exI [of _ "d # _"])
qed simp

definition reads_work :: "probe_env \<Rightarrow> bool" where
  "reads_work E = (\<forall>q s. (\<exists>d \<in> set s. q d) \<longrightarrow> (\<exists>d. FindOne (pe_db E) q s = Inr d))"

lemma live_probe_unique:
  assumes "distinct (live_names s)" "d \<in> set s" "d' \<in> set s" "live_probe n p d" "live_probe n p d'"
  shows "d = d'"
proof -
  let ?s = "filter (\<lambda>d. \<not> pb_IsRemoved d) s"
  have "inj_on (\<lambda>d. (pb_ProjectID d, pb_Name d)) (set ?s)" using assms(1) unfolding live_names_def distinct_map by blast
  then show ?thesis by (rule inj_onD) (use assms(2-5) in \<open>auto simp: live_probe_def\<close>)
qed

lemma GetProbeByName_found:
  assumes "probe_env_ok E" "reads_work E" "distinct (live_names s)" "d \<in> set s" "live_probe n p d"
  shows "GetProbeByName E n p s = Inr d"
proof -
  obtain d' where d': "FindOne (pe_db E) (live_probe n p) s = Inr d'" using assms(2,4,5) unfolding reads_work_def by blast
  have "d' \<in> set s \<and> live_probe n p d'" by (rule FindOne_ok [OF assms(1) [unfolded probe_env_ok_def] d'])
  then have "d' = d" using live_probe_unique [OF assms(3)] assms(4,5) by blast
  then show ?thesis using d' by (simp add: GetProbeByName_def)
qed

text \<open>
  What JSON is documented to do: a variable nothing was decoded into holds what was written, and the sources and
  references of these probes are read as they were written.
\<close>

definition decoders_ok :: "manifest_env \<Rightarrow> bool" where
  "decoders_ok E = ((\<forall>a. mx_http E (pv_http empty_vars) a = Inr a) \<and> (\<forall>a. mx_cmd E (pv_cmd empty_vars) a = Inr a) \<and>
     (\<forall>a. mx_prom E (pv_prom empty_vars) a = Inr a) \<and> (\<forall>a. mx_k8s E (pv_k8s empty_vars) a = Inr a))"

definition json_ok :: "manifest_env \<Rightarrow> (string \<times> ProbeAttributes) list \<Rightarrow> bool" where
  "json_ok E uas = (decoders_ok E \<and> (\<forall>ua \<in> set uas. source_ok (mx_probes E) ua) \<and>
     (let refs = map (\<lambda>ua. (ref_name ua, pa_Mode (snd ua))) uas in
      mx_refs E (mx_refs_text E refs) = Inr refs \<and> \<not> IsEmptyProbeRef (mx_refs_text E refs)))"

definition untouched :: "string set \<Rightarrow> probe_vars \<Rightarrow> bool" where
  "untouched T v = ((HTTPProbe \<in> T \<longrightarrow> pv_http v = pv_http empty_vars) \<and> (CmdProbe \<in> T \<longrightarrow> pv_cmd v = pv_cmd empty_vars) \<and>
     (PromProbe \<in> T \<longrightarrow> pv_prom v = pv_prom empty_vars) \<and> (K8sProbe \<in> T \<longrightarrow> pv_k8s v = pv_k8s empty_vars))"

definition unaliased :: "string set \<Rightarrow> ProbeAttributes list \<Rightarrow> bool" where
  "unaliased T out = (\<forall>e \<in> set out. (HTTPProbe \<in> T \<longrightarrow> pa_HTTP e = None) \<and> (CmdProbe \<in> T \<longrightarrow> pa_CMD e = None))"

lemma alias_none: "pa_HTTP e = None \<Longrightarrow> alias_http a e = e" "pa_CMD e = None \<Longrightarrow> alias_cmd c e = e"
  by (simp_all add: alias_http_def alias_cmd_def)

lemma map_alias:
  "unaliased T out \<Longrightarrow> HTTPProbe \<in> T \<Longrightarrow> map (alias_http a) out = out"
  "unaliased T out \<Longrightarrow> CmdProbe \<in> T \<Longrightarrow> map (alias_cmd c) out = out"
  by (auto simp: unaliased_def alias_none intro!: map_idI)

definition inputs_given :: "ProbeAttributes \<Rightarrow> bool" where
  "inputs_given a = ((pa_Type a = HTTPProbe \<longrightarrow> pa_HTTP a \<noteq> None) \<and> (pa_Type a = CmdProbe \<longrightarrow> pa_CMD a \<noteq> None) \<and>
     (pa_Type a = PromProbe \<longrightarrow> pa_PROM a \<noteq> None) \<and> (pa_Type a = K8sProbe \<longrightarrow> pa_K8S a \<noteq> None))"

lemma stored_inputs_given: "stored_inline E p ua d \<Longrightarrow> inputs_given (snd ua)"
  unfolding stored_inline_def inputs_given_def using converted_http converted_cmd converted_prom converted_k8s by fastforce

lemma add_entry_inline:
  assumes "decoders_ok E" "pa_Type (snd ua) \<in> set probe_kinds" "untouched (insert (pa_Type (snd ua)) T) v" "pa_Type (snd ua) \<notin> T"
    "unaliased (insert (pa_Type (snd ua)) T) out" "inputs_given (snd ua)"
  shows "\<exists>v'. add_entry E cron en (inline_manifest ua) (v, out) = Inr (v', out @ [brought_back cron en ua]) \<and> untouched T v' \<and>
    unaliased T (out @ [brought_back cron en ua])"
proof -
  let ?a = "snd ua"
  have out: "unaliased T (out @ [brought_back cron en ua])"
    using assms(4,5) by (auto simp: unaliased_def brought_back_def Let_def)
  consider "pa_Type ?a = HTTPProbe" | "pa_Type ?a = CmdProbe" | "pa_Type ?a = PromProbe" | "pa_Type ?a = K8sProbe"
    using assms(2) by (auto simp: probe_kinds_def)
  then show ?thesis
  proof cases
    case 1
    obtain h where h: "pa_HTTP ?a = Some h" using assms(6) 1 by (auto simp: inputs_given_def)
    let ?h = "if cron then kept_http h else inject_url en (kept_http h)"
    have "add_entry E cron en (inline_manifest ua) (v, out) =
        Inr (v\<lparr>pv_http := (attributes_back ua (kept_http h))\<lparr>at_Inputs := ?h\<rparr>\<rparr>, out @ [brought_back cron en ua])"
      using assms(1,3) map_alias(1) [OF assms(5)] h 1
      by (auto simp: add_entry_def inline_manifest_def decoders_ok_def untouched_def brought_back_def entry_def attributes_back_def
          probe_types Let_def)
    then show ?thesis using out assms(3,4) 1 by (auto simp: untouched_def probe_types)
  next
    case 2
    obtain c where c: "pa_CMD ?a = Some c" using assms(6) 2 by (auto simp: inputs_given_def)
    have "add_entry E cron en (inline_manifest ua) (v, out) = Inr (v\<lparr>pv_cmd := attributes_back ua c\<rparr>, out @ [brought_back cron en ua])"
      using assms(1,3) map_alias(2) [OF assms(5)] c 2
      by (auto simp: add_entry_def inline_manifest_def decoders_ok_def untouched_def brought_back_def entry_def attributes_back_def
          probe_types Let_def)
    then show ?thesis using out assms(3,4) 2 by (auto simp: untouched_def probe_types)
  next
    case 3
    obtain m where m: "pa_PROM ?a = Some m" using assms(6) 3 by (auto simp: inputs_given_def)
    have "add_entry E cron en (inline_manifest ua) (v, out) = Inr (v\<lparr>pv_prom := attributes_back ua m\<rparr>, out @ [brought_back cron en ua])"
      using assms(1,3) m 3
      by (auto simp: add_entry_def inline_manifest_def decoders_ok_def untouched_def brought_back_def entry_def attributes_back_def
          probe_types Let_def)
    then show ?thesis using out assms(3,4) 3 by (auto simp: untouched_def probe_types)
  next
    case 4
    obtain k where k: "pa_K8S ?a = Some k" using assms(6) 4 by (auto simp: inputs_given_def)
    let ?k = "if cron then kept_k8s k else inject_target en (kept_k8s k)"
    have "add_entry E cron en (inline_manifest ua) (v, out) =
        Inr (v\<lparr>pv_k8s := (attributes_back ua (kept_k8s k))\<lparr>at_Inputs := ?k\<rparr>\<rparr>, out @ [brought_back cron en ua])"
      using assms(1,3) k 4
      by (auto simp: add_entry_def inline_manifest_def decoders_ok_def untouched_def brought_back_def entry_def attributes_back_def
          probe_types Let_def)
    then show ?thesis using out assms(3,4) 4 by (auto simp: untouched_def probe_types)
  qed
qed

lemma expand_inline:
  assumes "decoders_ok E" "probe_env_ok (mx_probes E)" "reads_work (mx_probes E)" "distinct (live_names s)"
    "list_all2 (stored_inline (mx_probes E) p) uas ds" "set ds \<subseteq> set s" "distinct (map (pa_Type \<circ> snd) uas)"
    "(pa_Type \<circ> snd) ` set uas \<subseteq> set probe_kinds" "untouched ((pa_Type \<circ> snd) ` set uas) v" "unaliased ((pa_Type \<circ> snd) ` set uas) out"
    "\<forall>ua \<in> set uas. source_ok (mx_probes E) ua"
  shows "\<exists>v'. expand_refs E p cron en s (map (\<lambda>ua. (ref_name ua, pa_Mode (snd ua))) uas) (v, out) =
    go_result.Value (v', out @ map (brought_back cron en) uas)"
  using assms(5-11)
proof (induction uas arbitrary: ds v out)
  case (Cons ua uas)
  let ?T = "(pa_Type \<circ> snd) ` set uas"
  obtain d ds' where d: "ds = d # ds'" "stored_inline (mx_probes E) p ua d" "list_all2 (stored_inline (mx_probes E) p) uas ds'"
    using Cons.prems(1) by (auto simp: list_all2_Cons1)
  have found: "GetProbeByName (mx_probes E) (ref_name ua) p s = Inr d"
    by (rule GetProbeByName_found [OF assms(2-4)]) (use Cons.prems(2) d(1) stored_head(1) [OF d(2)] in auto)
  have kind: "pa_Type (snd ua) \<in> set probe_kinds" using Cons.prems(4) by simp
  have "manifest_of (mx_probes E) d (pa_Mode (snd ua)) = Some (inline_manifest ua)"
    by (rule stored_inline_manifest [OF d(2) kind]) (use Cons.prems(7) in simp)
  then obtain r where r: "GetOutputProbe (mx_probes E) d = Some r"
      "GenerateProbeManifest (mx_probes E) r (pa_Mode (snd ua)) = Some (inline_manifest ua)"
    by (auto simp: manifest_of_def split: option.splits)
  obtain v' where v': "add_entry E cron en (inline_manifest ua) (v, out) = Inr (v', out @ [brought_back cron en ua])"
      "untouched ?T v'" "unaliased ?T (out @ [brought_back cron en ua])"
    using add_entry_inline [OF assms(1) kind, of ?T v out cron en] Cons.prems(3,5,6) stored_inputs_given [OF d(2)] by auto
  obtain v'' where "expand_refs E p cron en s (map (\<lambda>ua. (ref_name ua, pa_Mode (snd ua))) uas) (v', out @ [brought_back cron en ua]) =
      go_result.Value (v'', (out @ [brought_back cron en ua]) @ map (brought_back cron en) uas)"
    using Cons.IH [OF d(3) _ _ _ v'(2,3)] Cons.prems(2-4,7) d(1) by auto
  then show ?case by (simp add: found r v'(1))
qed simp

text \<open>Annotations that are no reference change nothing.\<close>

lemma expand_other_annotations:
  "''probeRef'' \<notin> fst ` set annotations \<Longrightarrow> expand_annotations E p cron en s annotations st = go_result.Value st"
  by (induction annotations arbitrary: st) (auto simp: UnmarshalProbeRef_def)

lemma expand_annotations_append:
  "expand_annotations E p cron en s (xs @ ys) st = (case expand_annotations E p cron en s xs st of Fails e \<Rightarrow> Fails e | Panics \<Rightarrow> Panics
     | go_result.Value st' \<Rightarrow> expand_annotations E p cron en s ys st')"
  by (induction xs arbitrary: st) (auto split: sum.splits go_result.splits prod.splits)

lemma expand_one_annotation:
  assumes "map_of annotations ''probeRef'' = Some t" "distinct (map fst annotations)" "UnmarshalProbeRef E ''probeRef'' t = Inr refs"
    "expand_refs E p cron en s refs st = go_result.Value st'"
  shows "expand_annotations E p cron en s annotations st = go_result.Value st'"
proof -
  obtain xs ys where split: "annotations = xs @ (''probeRef'', t) # ys" using map_of_SomeD [OF assms(1)] by (auto dest: split_list)
  then have "''probeRef'' \<notin> fst ` set xs" "''probeRef'' \<notin> fst ` set ys" using assms(2) by simp_all
  then show ?thesis unfolding split by (simp add: expand_annotations_append expand_other_annotations assms(3,4))
qed

section \<open>What the components promise together\<close>

text \<open>C9. Probes are usable, unique and their owners': after any GraphQL request served in a state the service reaches,
  late writes and deletions included, every stored probe can be shown and has a manifest for every mode (neither
  panics), no two live probes of a project share a name, the probes of other projects are as before, and if
  anything changed the token was that of an active, accepted owner of the named project.\<close>

theorem probes_usable:
  assumes "probes_reach s" "probe_env_ok E" "env_ok (gs_auth S)" "\<forall>q. r = CreateProbe q \<longrightarrow> pq_InfrastructureType q = Kubernetes"
    "probe_gql S E jwt p r db s = (answer, s')"
  shows "(\<forall>d \<in> set s'. \<forall>mode. \<exists>v m. GetOutputProbe E d = Some v \<and> GenerateProbeManifest E v mode = Some m) \<and>
    distinct (live_names s') \<and> others pb_ProjectID p s' = others pb_ProjectID p s \<and> (s' = s \<or> token_of_owner (gs_auth S) jwt p db)"
proof -
  have s': "s' = snd (probe_gql S E jwt p r db s)" using assms(5) by simp
  have ok: "probe_env_ok (E\<lparr>pe_username := GetUsername S jwt db\<rparr>)" using assms(2) by simp
  have "probes_reach s'"
    using assms(1) serve_probe_reach [OF assms(1) ok] assms(4) by (auto simp: s' probe_gql_def guarded_def)
  then have "probes_ok s'" by (rule probes_reach_ok)
  moreover have "others pb_ProjectID p s' = others pb_ProjectID p s"
    using probe_ops.stays_answer [OF ok] by (simp add: s' probe_gql_def guarded_def)
  moreover have "s' = s \<or> token_of_owner (gs_auth S) jwt p db"
    by (cases "token_of_owner (gs_auth S) jwt p db") (simp_all add: s' probe_gql_def guarded_change [OF assms(3) probe_roles])
  ultimately show ?thesis using stored_probe_usable unfolding probes_ok_def by blast
qed


section \<open>An experiment with two probes\<close>

definition demo_probe_env :: probe_env where
  "demo_probe_env = \<lparr>pe_db = list_coll same_live_probe, pe_username = Inr ''al'', pe_now = 7, pe_source = (\<lambda>t. (None, None)),
     pe_source_text = (\<lambda>v. ''null'')\<rparr>"

lemma demo_probe_env_ok: "probe_env_ok demo_probe_env" "reads_work demo_probe_env"
  by (simp add: probe_env_ok_def demo_probe_env_def list_coll_ok)
    (auto simp: reads_work_def demo_probe_env_def list_coll_def filter_empty_conv split: list.splits)

definition demo_run :: RunProperty where
  "demo_run = \<lparr>rp_ProbeTimeout = ''10s'', rp_Interval = ''2s'', rp_Retry = 1, rp_Attempt = 3, rp_ProbePollingInterval = [],
     rp_InitialDelay = ''5s'', rp_EvaluationTimeout = [], rp_StopOnFailure = True\<rparr>"

definition demo_http :: "string \<Rightarrow> string \<Rightarrow> ProbeAttributes" where
  "demo_http n code = \<lparr>pa_Name = n, pa_Type = HTTPProbe,
     pa_HTTP = Some \<lparr>hi_URL = [], hi_InsecureSkipVerify = True,
       hi_Method = \<lparr>hm_Get = Some \<lparr>gt_Criteria = ''=='', gt_ResponseCode = code\<rparr>, hm_Post = None\<rparr>\<rparr>,
     pa_CMD = None, pa_PROM = None, pa_K8S = None, pa_RunProperties = demo_run, pa_Mode = ''SOT''\<rparr>"

definition demo_prom :: ProbeAttributes where
  "demo_prom = \<lparr>pa_Name = ''latency'', pa_Type = PromProbe, pa_HTTP = None, pa_CMD = None,
     pa_PROM = Some \<lparr>pi_Endpoint = ''http://prom'', pi_Query = ''up'', pi_QueryPath = [],
       pi_Comparator = \<lparr>cm_Type = ''int'', cm_Value = ''1'', cm_Criteria = ''==''\<rparr>\<rparr>,
     pa_K8S = None, pa_RunProperties = demo_run, pa_Mode = ''EOT''\<rparr>"

definition demo_manifest_env :: "(string \<times> string) list \<Rightarrow> manifest_env" where
  "demo_manifest_env refs = \<lparr>mx_probes = demo_probe_env, mx_http = (\<lambda>v a. Inr a), mx_cmd = (\<lambda>v a. Inr a), mx_prom = (\<lambda>v a. Inr a),
     mx_k8s = (\<lambda>v a. Inr a), mx_refs = (\<lambda>t. Inr refs), mx_refs_text = (\<lambda>r. ''refs''), mx_workflow = (\<lambda>c t. Inr []),
     mx_engine = (\<lambda>t. Inl ''none''), mx_engine_text = (\<lambda>e. Inl ''none''), mx_yaml = (\<lambda>t. Inl ''none''), mx_yaml_text = (\<lambda>y. Inl ''none'')\<rparr>"

definition demo_uas :: "(string \<times> ProbeAttributes) list" where
  "demo_uas = [(''u1'', demo_http ''front'' ''200''), (''u2'', demo_prom)]"

definition demo_refs :: "(string \<times> string) list" where
  "demo_refs = [(''front-u1'', ''SOT''), (''latency-u2'', ''EOT'')]"

definition demo_engine :: probe_engine where
  "demo_engine = \<lparr>ng_Kind = ''ChaosEngine'', ng_Namespace = ''shop'', ng_Appns = [], ng_Applabel = ''app=cart'',
     ng_Annotations = [(''probeRef'', ''refs'')], ng_Probes = [None]\<rparr>"

definition demo_stored :: "Probe list" where
  "demo_stored = snd (store_inline demo_probe_env ''p1'' demo_uas [])"


definition demo_request :: ProbeRequest where
  "demo_request = (inline_request ''u1'' (demo_http ''front'' ''200''))\<lparr>pq_HTTP := Some (inline_http demo_run
     (the (pa_HTTP (demo_http ''front'' ''200''))) \<lparr>me_GET = Some \<lparr>gt_Criteria = ''=='', gt_ResponseCode = ''200''\<rparr>, me_POST = None\<rparr>)\<rparr>"

theorem probes_usable_witness:
  "map pb_Name (snd (probe_gql demo_server demo_probe_env ''al'' ''p1'' (CreateProbe demo_request) mem_db [])) = [''front-u1''] \<and>
     token_of_owner mem_env ''al'' ''p1'' mem_db"
proof
  show made: "map pb_Name (snd (probe_gql demo_server demo_probe_env ''al'' ''p1'' (CreateProbe demo_request) mem_db [])) = [''front-u1'']"
    by code_simp
  have infra: "\<forall>q. CreateProbe demo_request = CreateProbe q \<longrightarrow> pq_InfrastructureType q = Kubernetes"
    by (simp add: demo_request_def inline_request_def)
  have "gs_auth demo_server = mem_env" by (simp add: demo_server_def)
  then show "token_of_owner mem_env ''al'' ''p1'' mem_db"
    using probes_usable [OF probes_reach.empty demo_probe_env_ok(1) _ infra prod.collapse [symmetric], of demo_server "''al''" "''p1''" mem_db]
      mem_env_ok made by (metis list.simps(8) not_Cons_self2)
qed

section \<open>What is lost and what goes wrong\<close>

text \<open>
  Two probes that expect different answers: both expect what the last one does, their pointers are one variable's.
\<close>

definition two_gets :: "(string \<times> ProbeAttributes) list" where
  "two_gets = [(''u1'', demo_http ''front'' ''200''), (''u2'', demo_http ''admin'' ''404'')]"

lemma later_probe_overwrites:
  assumes "e \<in> set out" "pa_HTTP e = Some h" "hm_Get (hi_Method h) = Some g" "mx_http E (pv_http v) a = Inr a'"
    "hm_Get (hi_Method (at_Inputs a')) = Some g'"
  shows "\<exists>v' out' e' h'. add_entry E cron en (HTTPManifest a) (v, out) = Inr (v', out') \<and> e' \<in> set out' \<and> pa_Name e' = pa_Name e \<and>
    pa_HTTP e' = Some h' \<and> hm_Get (hi_Method h') = Some g'"
proof -
  let ?a = "if cron then a' else a'\<lparr>at_Inputs := inject_url en (at_Inputs a')\<rparr>"
  have get: "hm_Get (hi_Method (at_Inputs ?a)) = Some g'" using assms(5) by (simp add: inject_url_def Let_def)
  have "alias_http ?a e \<in> set (map (alias_http ?a) out @ [(entry ?a)\<lparr>pa_HTTP := Some (at_Inputs ?a)\<rparr>])" using assms(1) by simp
  moreover have "pa_Name (alias_http ?a e) = pa_Name e" "\<exists>h'. pa_HTTP (alias_http ?a e) = Some h' \<and> hm_Get (hi_Method h') = Some g'"
    using assms(2,3) get by (simp_all add: alias_http_def aliased_def)
  moreover have "add_entry E cron en (HTTPManifest a) (v, out) =
      Inr (v\<lparr>pv_http := ?a\<rparr>, map (alias_http ?a) out @ [(entry ?a)\<lparr>pa_HTTP := Some (at_Inputs ?a)\<rparr>])"
    using assms(4) by (simp add: add_entry_def Let_def)
  ultimately show ?thesis by blast
qed

lemma two_gets_expect_the_same:
  "(case expand_engine (demo_manifest_env [(''front-u1'', ''SOT''), (''admin-u2'', ''SOT'')]) ''p1'' False
       (snd (store_inline demo_probe_env ''p1'' two_gets [])) demo_engine of
     go_result.Value en \<Rightarrow> map (map_option (map (\<lambda>a. (pa_Name a, map_option (map_option gt_ResponseCode \<circ> hm_Get \<circ> hi_Method) (pa_HTTP a))))) (ng_Probes en)
   | _ \<Rightarrow> []) = [Some [(''front-u1'', Some (Some ''404'')), (''admin-u2'', Some (Some ''404''))]]"
  by code_simp

text \<open>The content of a POST is stored and never shown nor sent.\<close>

lemma post_content_hidden:
  "me_GET m = None \<Longrightarrow> me_POST m = Some p \<Longrightarrow> map_option po_Body (me_POST (shown_method m)) = Some None"
  by (simp add: shown_method_def)

text \<open>A probe told to skip the check of certificates is run with the check.\<close>

lemma skip_verify_lost: "me_GET (hp_Method h) = Some g \<Longrightarrow> \<not> hi_InsecureSkipVerify (http_inputs h)"
  by (simp add: http_inputs_def)

text \<open>The resource names of a Kubernetes probe never reach its manifest, nor does its initial delay the store.\<close>

lemma resource_names_lost: "ki_ResourceNames (k8s_inputs k) = []"
  by (simp add: k8s_inputs_def)

lemma initial_delay_lost: "map_option (cp_InitialDelay \<circ> k8_Common) (pb_K8S (AddK8SProbeProperties k d)) = Some None"
  by (simp add: AddK8SProbeProperties_def)

text \<open>An update without the settings of the stored kind panics, before the check that would refuse it.\<close>

lemma update_without_settings_panics:
  assumes "pe_username E = Inr user" "GetProbeByName E (pq_Name r) p s = Inr d" "pb_InfrastructureType d = Kubernetes"
    "pb_Type d = HTTPProbe" "pq_HTTP r = None"
  shows "UpdateProbe E p r s = (Panics, s)"
  using assms by (simp add: UpdateProbe_def update_plan_def replacement_def update_head_def)

text \<open>Saving an experiment whose inline probe lacks the inputs of its kind panics.\<close>

lemma inline_without_inputs_panics:
  assumes "rp_ProbeTimeout (pa_RunProperties a) \<noteq> []" "rp_Interval (pa_RunProperties a) \<noteq> []" "pa_Type a = HTTPProbe" "pa_HTTP a = None"
  shows "store_inline E p ((uuid, a) # as) s = (Panics, s)"
  using assms by (simp add: ProbeInputsToProbeRequestConverter_def Let_def)

text \<open>A probe of an unknown kind is accepted and adds nothing to a run.\<close>

lemma unknown_kind_dropped:
  assumes "pr_Type r \<notin> set probe_kinds"
  shows "GenerateProbeManifest E r mode = Some NoManifest \<and> add_entry M cron en NoManifest st = Inr st"
  using assms by (cases st) (simp add: GenerateProbeManifest_def probe_kinds_def add_entry_def)

text \<open>A deletion by a token that names nobody is recorded as nobody's.\<close>

lemma deletion_unsigned: "pe_username E = Inl e \<Longrightarrow> pb_UpdatedBy (removed_probe E d) = []"
  by (simp add: removed_probe_def)

end
