(* ===== verification/Fault_Studio.thy ===== *)
theory Fault_Studio
  imports Gql_Tenancy
begin

text \<open>
  Fault studios: the faults of a hub a project has selected (\<^verbatim>\<open>graphql/server/pkg/fault_studio/service.go\<close>,
  \<^verbatim>\<open>pkg/database/mongodb/fault_studio\<close>). An operation that changes the selection reads the studio and then writes
  what it computed: the two halves are separate, \<open>studio_plan\<close> and \<open>studio_write\<close>. A set of custom
  parameters is its JSON text; one without entries is not stored. Decoding it, the clock, identifiers and the
  caller's name are parameters.
\<close>

section \<open>Documents\<close>

record FaultInjectionConfig =
  fj_InjectionType :: string
  fj_Schedule :: string
  fj_Duration :: string
  fj_TargetSelector :: string
  fj_Interval :: string

record FaultSelection =
  fd_FaultCategory :: string
  fd_FaultName :: string
  fd_DisplayName :: string
  fd_Description :: string
  fd_Enabled :: bool
  fd_InjectionConfig :: "FaultInjectionConfig option"
  fd_CustomParameters :: "string option"
  fd_Weight :: int

record FaultStudio =
  sd_ID :: string
  sd_ProjectID :: string
  sd_Name :: string
  sd_Description :: string
  sd_Tags :: "string list"
  sd_SourceHubID :: string
  sd_SourceHubName :: string
  sd_SelectedFaults :: "FaultSelection list"
  sd_IsActive :: bool
  sd_TotalFaults :: nat
  sd_EnabledFaults :: nat
  sd_CreatedAt :: int
  sd_UpdatedAt :: int
  sd_CreatedBy :: string
  sd_UpdatedBy :: string
  sd_IsRemoved :: bool

text \<open>The unique index of the collection.\<close>

definition same_studio_id :: "FaultStudio \<Rightarrow> FaultStudio \<Rightarrow> bool" where
  "same_studio_id a b = (sd_ID a = sd_ID b)"

record HubDoc = hd_ID :: string  hd_ProjectID :: string  hd_Name :: string

record FaultInjectionInput =
  ij_InjectionType :: string
  ij_Schedule :: "string option"
  ij_Duration :: "string option"
  ij_TargetSelector :: "string option"
  ij_Interval :: "string option"

record FaultSelectionInput =
  fi_FaultCategory :: string
  fi_FaultName :: string
  fi_DisplayName :: string
  fi_Description :: "string option"
  fi_Enabled :: bool
  fi_InjectionConfig :: "FaultInjectionInput option"
  fi_CustomParameters :: "string option"
  fi_Weight :: "int option"

record CreateFaultStudioRequest =
  cs_Name :: string
  cs_Description :: "string option"
  cs_Tags :: "string list"
  cs_SourceHubID :: string
  cs_SelectedFaults :: "FaultSelectionInput list"
  cs_IsActive :: "bool option"

record UpdateFaultStudioRequest =
  us_Name :: "string option"
  us_Description :: "string option"
  us_Tags :: "string list option"
  us_SelectedFaults :: "FaultSelectionInput list option"
  us_IsActive :: "bool option"

text \<open>\<open>se_params\<close> decodes custom parameters: \<^const>\<open>None\<close> if they are no JSON object or have no entries.\<close>

record studio_env =
  se_db :: "FaultStudio coll"
  se_hubs :: "HubDoc coll"
  se_hub_docs :: "HubDoc list"
  se_username :: "go_error + string"
  se_uuid :: string
  se_now :: int
  se_params :: "string \<Rightarrow> string option"

datatype studio_error =
    StudioStore go_error
  | StudioNotFound
  | StudioNameTaken
  | SourceHubNotFound
  | StudioUser go_error
  | FaultNotInStudio
  | FaultAlreadyInStudio

section \<open>Conversions\<close>

definition DefaultHubID :: string where "DefaultHubID = ''6f39cea9-6264-4951-83a8-29976b614289''"
definition DefaultHubName :: string where "DefaultHubName = ''Litmus ChaosHub''"

definition countEnabledFaults :: "FaultSelection list \<Rightarrow> nat" where
  "countEnabledFaults faults = length (filter fd_Enabled faults)"

definition or_empty :: "string option \<Rightarrow> string" where
  "or_empty v = (case v of None \<Rightarrow> [] | Some s \<Rightarrow> s)"

definition convertInputToDBFaultSelection :: "studio_env \<Rightarrow> FaultSelectionInput \<Rightarrow> FaultSelection" where
  "convertInputToDBFaultSelection E i =
     \<lparr>fd_FaultCategory = fi_FaultCategory i, fd_FaultName = fi_FaultName i, fd_DisplayName = fi_DisplayName i,
      fd_Description = or_empty (fi_Description i), fd_Enabled = fi_Enabled i,
      fd_InjectionConfig = map_option (\<lambda>j. \<lparr>fj_InjectionType = ij_InjectionType j, fj_Schedule = or_empty (ij_Schedule j),
        fj_Duration = or_empty (ij_Duration j), fj_TargetSelector = or_empty (ij_TargetSelector j),
        fj_Interval = or_empty (ij_Interval j)\<rparr>) (fi_InjectionConfig i),
      fd_CustomParameters = (case fi_CustomParameters i of None \<Rightarrow> None | Some t \<Rightarrow> if t = [] then None else se_params E t),
      fd_Weight = (case fi_Weight i of None \<Rightarrow> 1 | Some n \<Rightarrow> n)\<rparr>"

text \<open>What the API shows of a selected fault, as an input that would select it again.\<close>

definition convertDBToModelFaultSelection :: "FaultSelection \<Rightarrow> FaultSelectionInput" where
  "convertDBToModelFaultSelection f =
     \<lparr>fi_FaultCategory = fd_FaultCategory f, fi_FaultName = fd_FaultName f, fi_DisplayName = fd_DisplayName f,
      fi_Description = Some (fd_Description f), fi_Enabled = fd_Enabled f,
      fi_InjectionConfig = map_option (\<lambda>j. \<lparr>ij_InjectionType = fj_InjectionType j, ij_Schedule = Some (fj_Schedule j),
        ij_Duration = Some (fj_Duration j), ij_TargetSelector = Some (fj_TargetSelector j),
        ij_Interval = Some (fj_Interval j)\<rparr>) (fd_InjectionConfig f),
      fi_CustomParameters = fd_CustomParameters f, fi_Weight = Some (fd_Weight f)\<rparr>"

section \<open>The collection\<close>

definition live_studio :: "string \<Rightarrow> string \<Rightarrow> FaultStudio \<Rightarrow> bool" where
  "live_studio p i d = (sd_ID d = i \<and> sd_ProjectID d = p \<and> \<not> sd_IsRemoved d)"

definition studio_of :: "string \<Rightarrow> string \<Rightarrow> FaultStudio \<Rightarrow> bool" where
  "studio_of p i d = (sd_ID d = i \<and> sd_ProjectID d = p)"

definition GetFaultStudioByID :: "studio_env \<Rightarrow> string \<Rightarrow> string \<Rightarrow> FaultStudio list \<Rightarrow> studio_error + FaultStudio" where
  "GetFaultStudioByID E i p s = (case FindOne (se_db E) (live_studio p i) s of
     Inr d \<Rightarrow> Inr d | Inl NoDocuments \<Rightarrow> Inl StudioNotFound | Inl e \<Rightarrow> Inl (StudioStore e))"

definition op_UpdateFaultStudio ::
  "studio_env \<Rightarrow> (FaultStudio \<Rightarrow> bool) \<Rightarrow> (FaultStudio \<Rightarrow> FaultStudio) \<Rightarrow> FaultStudio list \<Rightarrow> studio_error option \<times> FaultStudio list" where
  "op_UpdateFaultStudio E q f s = (case UpdateOne (se_db E) q f s of
     (Inl e, s') \<Rightarrow> (Some (StudioStore e), s') | (Inr n, s') \<Rightarrow> (if n = 0 then Some StudioNotFound else None, s'))"

definition op_DeleteFaultStudio ::
  "studio_env \<Rightarrow> string \<Rightarrow> string \<Rightarrow> string \<Rightarrow> FaultStudio list \<Rightarrow> studio_error option \<times> FaultStudio list" where
  "op_DeleteFaultStudio E i p user s =
     op_UpdateFaultStudio E (studio_of p i) (\<lambda>d. d\<lparr>sd_IsRemoved := True, sd_UpdatedBy := user\<rparr>) s"

definition named_studio :: "string \<Rightarrow> string \<Rightarrow> string \<Rightarrow> FaultStudio \<Rightarrow> bool" where
  "named_studio n p exclude d = (sd_Name d = n \<and> sd_ProjectID d = p \<and> \<not> sd_IsRemoved d \<and> (exclude = [] \<or> sd_ID d \<noteq> exclude))"

definition IsFaultStudioNameUnique ::
  "studio_env \<Rightarrow> string \<Rightarrow> string \<Rightarrow> string \<Rightarrow> FaultStudio list \<Rightarrow> studio_error + bool" where
  "IsFaultStudioNameUnique E n p exclude s = (case Find (se_db E) (named_studio n p exclude) s of
     Inl e \<Rightarrow> Inl (StudioStore e) | Inr ds \<Rightarrow> Inr (ds = []))"

text \<open>The order and the page that were asked for are not passed to the driver.\<close>

definition ListFaultStudiosWithPagination ::
  "studio_env \<Rightarrow> string \<Rightarrow> int \<Rightarrow> int \<Rightarrow> FaultStudio list \<Rightarrow> studio_error + FaultStudio list \<times> nat" where
  "ListFaultStudiosWithPagination E p limit offset s = (case Find (se_db E) (\<lambda>d. sd_ProjectID d = p \<and> \<not> sd_IsRemoved d) s of
     Inl e \<Rightarrow> Inl (StudioStore e) | Inr ds \<Rightarrow> Inr (ds, length ds))"

definition GetHubByID :: "studio_env \<Rightarrow> string \<Rightarrow> string \<Rightarrow> go_error + HubDoc" where
  "GetHubByID E i p = FindOne (se_hubs E) (\<lambda>h. hd_ID h = i \<and> hd_ProjectID h = p) (se_hub_docs E)"

definition GetHubByIDOnly :: "studio_env \<Rightarrow> string \<Rightarrow> go_error + HubDoc" where
  "GetHubByIDOnly E i = FindOne (se_hubs E) (\<lambda>h. hd_ID h = i) (se_hub_docs E)"

section \<open>Creating and updating\<close>

definition source_hub_name :: "studio_env \<Rightarrow> string \<Rightarrow> string \<Rightarrow> string option" where
  "source_hub_name E i p =
     (if i = DefaultHubID then Some DefaultHubName
      else (case GetHubByID E i p of Inr h \<Rightarrow> Some (hd_Name h)
        | Inl _ \<Rightarrow> (case GetHubByIDOnly E i of Inr h \<Rightarrow> Some (hd_Name h) | Inl _ \<Rightarrow> None)))"

definition new_studio :: "studio_env \<Rightarrow> string \<Rightarrow> CreateFaultStudioRequest \<Rightarrow> string \<Rightarrow> string \<Rightarrow> FaultStudio" where
  "new_studio E p r hub user =
     (let faults = map (convertInputToDBFaultSelection E) (cs_SelectedFaults r) in
      \<lparr>sd_ID = se_uuid E, sd_ProjectID = p, sd_Name = cs_Name r, sd_Description = or_empty (cs_Description r), sd_Tags = cs_Tags r,
       sd_SourceHubID = cs_SourceHubID r, sd_SourceHubName = hub, sd_SelectedFaults = faults,
       sd_IsActive = (case cs_IsActive r of None \<Rightarrow> False | Some b \<Rightarrow> b), sd_TotalFaults = length faults,
       sd_EnabledFaults = countEnabledFaults faults, sd_CreatedAt = se_now E, sd_UpdatedAt = se_now E, sd_CreatedBy = user,
       sd_UpdatedBy = user, sd_IsRemoved = False\<rparr>)"

definition CreateFaultStudio ::
  "studio_env \<Rightarrow> string \<Rightarrow> CreateFaultStudioRequest \<Rightarrow> FaultStudio list \<Rightarrow> (studio_error, FaultStudio) go_result \<times> FaultStudio list" where
  "CreateFaultStudio E p r s = (case IsFaultStudioNameUnique E (cs_Name r) p [] s of Inl e \<Rightarrow> (Fails e, s)
     | Inr False \<Rightarrow> (Fails StudioNameTaken, s)
     | Inr True \<Rightarrow> (case source_hub_name E (cs_SourceHubID r) p of None \<Rightarrow> (Fails SourceHubNotFound, s)
       | Some hub \<Rightarrow> (case se_username E of Inl e \<Rightarrow> (Fails (StudioUser e), s)
         | Inr user \<Rightarrow> (case InsertOne (se_db E) (new_studio E p r hub user) s of
             (Some e, s') \<Rightarrow> (Fails (StudioStore e), s')
           | (None, s') \<Rightarrow> (go_result.Value (new_studio E p r hub user), s')))))"

definition touched :: "studio_env \<Rightarrow> string \<Rightarrow> FaultStudio \<Rightarrow> FaultStudio" where
  "touched E user d = d\<lparr>sd_UpdatedAt := se_now E, sd_UpdatedBy := user\<rparr>"

definition select_faults :: "FaultSelection list \<Rightarrow> FaultStudio \<Rightarrow> FaultStudio" where
  "select_faults faults d = d\<lparr>sd_SelectedFaults := faults, sd_TotalFaults := length faults, sd_EnabledFaults := countEnabledFaults faults\<rparr>"

definition update_changes :: "studio_env \<Rightarrow> UpdateFaultStudioRequest \<Rightarrow> string \<Rightarrow> string option \<Rightarrow> FaultStudio \<Rightarrow> FaultStudio" where
  "update_changes E r user name d =
     (let d = touched E user d;
          d = (case name of None \<Rightarrow> d | Some n \<Rightarrow> d\<lparr>sd_Name := n\<rparr>);
          d = (case us_Description r of None \<Rightarrow> d | Some t \<Rightarrow> d\<lparr>sd_Description := t\<rparr>);
          d = (case us_Tags r of None \<Rightarrow> d | Some t \<Rightarrow> d\<lparr>sd_Tags := t\<rparr>);
          d = (case us_SelectedFaults r of None \<Rightarrow> d | Some fs \<Rightarrow> select_faults (map (convertInputToDBFaultSelection E) fs) d)
      in (case us_IsActive r of None \<Rightarrow> d | Some b \<Rightarrow> d\<lparr>sd_IsActive := b\<rparr>))"

definition update_name :: "studio_env \<Rightarrow> string \<Rightarrow> UpdateFaultStudioRequest \<Rightarrow> FaultStudio \<Rightarrow> FaultStudio list \<Rightarrow> studio_error + string option" where
  "update_name E p r d s = (case us_Name r of None \<Rightarrow> Inr None
     | Some n \<Rightarrow>
         if n = sd_Name d then Inr None
         else (case IsFaultStudioNameUnique E n p (sd_ID d) s of Inl e \<Rightarrow> Inl e
           | Inr unique \<Rightarrow> if unique then Inr (Some n) else Inl StudioNameTaken))"

section \<open>Changing the selection\<close>

datatype studio_request =
    UpdateStudio UpdateFaultStudioRequest
  | ToggleFault string bool
  | SetActive bool
  | AddFault FaultSelectionInput
  | RemoveFault string
  | UpdateFault FaultSelectionInput

text \<open>The first fault of that name is replaced; \<^const>\<open>None\<close> if there is none.\<close>

fun set_first :: "string \<Rightarrow> (FaultSelection \<Rightarrow> FaultSelection) \<Rightarrow> FaultSelection list \<Rightarrow> FaultSelection list option" where
  "set_first n f [] = None"
| "set_first n f (x # xs) = (if fd_FaultName x = n then Some (f x # xs) else map_option ((#) x) (set_first n f xs))"

text \<open>What a request decided to write, and to which documents.\<close>

record studio_write = sw_query :: "FaultStudio \<Rightarrow> bool"  sw_change :: "FaultStudio \<Rightarrow> FaultStudio"

definition new_selection :: "studio_env \<Rightarrow> studio_request \<Rightarrow> FaultStudio \<Rightarrow> (studio_error, FaultStudio \<Rightarrow> FaultStudio) go_result" where
  "new_selection E r d = (let faults = sd_SelectedFaults d in (case r of
     ToggleFault n enabled \<Rightarrow> (case set_first n (\<lambda>x. x\<lparr>fd_Enabled := enabled\<rparr>) faults of None \<Rightarrow> Fails FaultNotInStudio
       | Some fs \<Rightarrow> go_result.Value (\<lambda>d. d\<lparr>sd_SelectedFaults := fs, sd_EnabledFaults := countEnabledFaults fs\<rparr>))
   | AddFault i \<Rightarrow>
       if list_ex (\<lambda>x. fd_FaultName x = fi_FaultName i) faults then Fails FaultAlreadyInStudio
       else go_result.Value (select_faults (faults @ [convertInputToDBFaultSelection E i]))
   | RemoveFault n \<Rightarrow>
       if faults = [] then Panics
       else if list_ex (\<lambda>x. fd_FaultName x = n) faults then go_result.Value (select_faults (filter (\<lambda>x. fd_FaultName x \<noteq> n) faults))
       else Fails FaultNotInStudio
   | UpdateFault i \<Rightarrow> (case set_first (fi_FaultName i) (\<lambda>x. convertInputToDBFaultSelection E i) faults of None \<Rightarrow> Fails FaultNotInStudio
       | Some fs \<Rightarrow> go_result.Value (\<lambda>d. d\<lparr>sd_SelectedFaults := fs, sd_EnabledFaults := countEnabledFaults fs\<rparr>))
   | SetActive b \<Rightarrow> go_result.Value (\<lambda>d. d\<lparr>sd_IsActive := b\<rparr>)
   | UpdateStudio u \<Rightarrow> go_result.Value (\<lambda>d. d)))"

text \<open>The half that reads. Removed studios match the later write of a selection.\<close>

definition studio_plan ::
  "studio_env \<Rightarrow> string \<Rightarrow> string \<Rightarrow> studio_request \<Rightarrow> FaultStudio list \<Rightarrow> (studio_error, studio_write) go_result" where
  "studio_plan E p i r s = (case r of
     SetActive b \<Rightarrow> (case se_username E of Inl e \<Rightarrow> Fails (StudioUser e)
       | Inr user \<Rightarrow> go_result.Value \<lparr>sw_query = live_studio p i, sw_change = (\<lambda>d. touched E user (d\<lparr>sd_IsActive := b\<rparr>))\<rparr>)
   | UpdateStudio u \<Rightarrow> (case GetFaultStudioByID E i p s of Inl e \<Rightarrow> Fails e
       | Inr d \<Rightarrow> (case se_username E of Inl e \<Rightarrow> Fails (StudioUser e)
         | Inr user \<Rightarrow> (case update_name E p u d s of Inl e \<Rightarrow> Fails e
           | Inr name \<Rightarrow> go_result.Value \<lparr>sw_query = live_studio p i, sw_change = update_changes E u user name\<rparr>)))
   | _ \<Rightarrow> (case GetFaultStudioByID E i p s of Inl e \<Rightarrow> Fails e
       | Inr d \<Rightarrow> (case new_selection E r d of Fails e \<Rightarrow> Fails e | Panics \<Rightarrow> Panics
         | go_result.Value f \<Rightarrow> (case se_username E of Inl e \<Rightarrow> Fails (StudioUser e)
           | Inr user \<Rightarrow> go_result.Value \<lparr>sw_query = studio_of p i, sw_change = (\<lambda>d. touched E user (f d))\<rparr>))))"

text \<open>The half that writes, and the answer: the studio as it is then.\<close>

definition studio_finish ::
  "studio_env \<Rightarrow> string \<Rightarrow> string \<Rightarrow> studio_write \<Rightarrow> FaultStudio list \<Rightarrow> (studio_error, FaultStudio) go_result \<times> FaultStudio list" where
  "studio_finish E p i c s = (case op_UpdateFaultStudio E (sw_query c) (sw_change c) s of
     (Some e, s') \<Rightarrow> (Fails e, s')
   | (None, s') \<Rightarrow> ((case GetFaultStudioByID E i p s' of Inl e \<Rightarrow> Fails e | Inr d \<Rightarrow> go_result.Value d), s'))"

definition change_studio ::
  "studio_env \<Rightarrow> string \<Rightarrow> string \<Rightarrow> studio_request \<Rightarrow> FaultStudio list \<Rightarrow> (studio_error, FaultStudio) go_result \<times> FaultStudio list" where
  "change_studio E p i r s = (case studio_plan E p i r s of Fails e \<Rightarrow> (Fails e, s) | Panics \<Rightarrow> (Panics, s)
     | go_result.Value c \<Rightarrow> studio_finish E p i c s)"

definition DeleteFaultStudio ::
  "studio_env \<Rightarrow> string \<Rightarrow> string \<Rightarrow> FaultStudio list \<Rightarrow> (studio_error, bool) go_result \<times> FaultStudio list" where
  "DeleteFaultStudio E p i s = (case se_username E of Inl e \<Rightarrow> (Fails (StudioUser e), s)
     | Inr user \<Rightarrow> (case op_DeleteFaultStudio E i p user s of (Some e, s') \<Rightarrow> (Fails e, s') | (None, s') \<Rightarrow> (go_result.Value True, s')))"

section \<open>Reading\<close>

definition GetFaultStudio where "GetFaultStudio E p i s = GetFaultStudioByID E i p s"

record studio_stats = ss_TotalFaultStudios :: nat  ss_ActiveFaultStudios :: nat  ss_TotalFaultsConfigured :: nat

text \<open>\<open>counted\<close> is what the aggregation counts: no group at all when there is no studio.\<close>

definition GetFaultStudioStats ::
  "studio_env \<Rightarrow> (studio_error + nat list) \<Rightarrow> string \<Rightarrow> FaultStudio list \<Rightarrow> studio_error + studio_stats" where
  "GetFaultStudioStats E counted p s = (case counted of Inl e \<Rightarrow> Inl e
     | Inr groups \<Rightarrow> (case Find (se_db E) (\<lambda>d. sd_ProjectID d = p \<and> sd_IsActive d \<and> \<not> sd_IsRemoved d) s of Inl e \<Rightarrow> Inl (StudioStore e)
       | Inr active \<Rightarrow> (case Find (se_db E) (\<lambda>d. sd_ProjectID d = p \<and> \<not> sd_IsRemoved d) s of Inl e \<Rightarrow> Inl (StudioStore e)
         | Inr all \<Rightarrow> Inr \<lparr>ss_TotalFaultStudios = (case groups of [] \<Rightarrow> 0 | n # _ \<Rightarrow> n), ss_ActiveFaultStudios = length active,
             ss_TotalFaultsConfigured = sum_list (map (\<lambda>d. length (sd_SelectedFaults d)) all)\<rparr>)))"

section \<open>The counts\<close>

text \<open>A studio carries the number of its faults and of those enabled.\<close>

definition counts_exact :: "FaultStudio \<Rightarrow> bool" where
  "counts_exact d = (sd_TotalFaults d = length (sd_SelectedFaults d) \<and> sd_EnabledFaults d = countEnabledFaults (sd_SelectedFaults d))"

definition studios_ok :: "FaultStudio list \<Rightarrow> bool" where
  "studios_ok s = ((\<forall>d \<in> set s. counts_exact d) \<and> distinct (map sd_ID s))"

definition studio_env_ok :: "studio_env \<Rightarrow> bool" where
  "studio_env_ok E = (coll_ok same_studio_id (se_db E) \<and> coll_ok (\<lambda>_ _. False) (se_hubs E))"

lemma studio_db: "studio_env_ok E \<Longrightarrow> coll_ok same_studio_id (se_db E)"
  by (simp add: studio_env_ok_def)

lemma set_first_length: "set_first n f xs = Some ys \<Longrightarrow> length ys = length xs"
  by (induction xs arbitrary: ys) (auto split: if_splits)

lemma select_faults_counts [simp]: "counts_exact (select_faults fs d)"
  by (simp add: counts_exact_def select_faults_def)

lemma touched_keeps [simp]:
  "counts_exact (touched E user d) = counts_exact d" "sd_ID (touched E user d) = sd_ID d" "sd_ProjectID (touched E user d) = sd_ProjectID d"
  "sd_SelectedFaults (touched E user d) = sd_SelectedFaults d" "sd_TotalFaults (touched E user d) = sd_TotalFaults d"
  by (simp_all add: touched_def counts_exact_def)

lemma select_faults_keeps [simp]: "sd_ID (select_faults fs d) = sd_ID d" "sd_ProjectID (select_faults fs d) = sd_ProjectID d"
  by (simp_all add: select_faults_def)

lemma update_changes_keeps:
  "sd_ID (update_changes E u user name d) = sd_ID d" "sd_ProjectID (update_changes E u user name d) = sd_ProjectID d"
  "counts_exact d \<Longrightarrow> counts_exact (update_changes E u user name d)"
proof -
  have "counts_exact (d\<lparr>sd_Name := n\<rparr>) = counts_exact d" "counts_exact (d\<lparr>sd_Description := n\<rparr>) = counts_exact d"
    "counts_exact (d\<lparr>sd_Tags := t\<rparr>) = counts_exact d" "counts_exact (d\<lparr>sd_IsActive := b\<rparr>) = counts_exact d" for d :: FaultStudio and n t b
    by (simp_all add: counts_exact_def)
  then show "counts_exact d \<Longrightarrow> counts_exact (update_changes E u user name d)"
    by (simp add: update_changes_def Let_def split: option.splits)
qed (simp_all add: update_changes_def Let_def split: option.splits)

lemma new_selection_keeps:
  assumes "new_selection E r d = go_result.Value f"
  shows "sd_ID (f x) = sd_ID x" "sd_ProjectID (f x) = sd_ProjectID x"
    "x = d \<Longrightarrow> counts_exact d \<Longrightarrow> counts_exact (f x)"
  using assms set_first_length
  by (auto simp: new_selection_def Let_def counts_exact_def select_faults_def split: studio_request.splits option.splits if_splits)

lemma GetFaultStudioByID_ok:
  "studio_env_ok E \<Longrightarrow> GetFaultStudioByID E i p s = Inr d \<Longrightarrow> d \<in> set s \<and> live_studio p i d"
  by (auto simp: GetFaultStudioByID_def dest: FindOne_ok [OF studio_db] split: sum.splits go_error.splits)

text \<open>What a request decides to write is about the studio it names, and right for that studio as it was read.\<close>

lemma studio_plan_writes:
  assumes "studio_env_ok E" "studio_plan E p i r s = go_result.Value c"
  shows "sw_query c x \<Longrightarrow> sd_ID x = i \<and> sd_ProjectID x = p"
    "sd_ID (sw_change c x) = sd_ID x" "sd_ProjectID (sw_change c x) = sd_ProjectID x"
    "studios_ok s \<Longrightarrow> x \<in> set s \<Longrightarrow> sw_query c x \<Longrightarrow> counts_exact (sw_change c x)"
proof -
  have active: "counts_exact (d\<lparr>sd_IsActive := b\<rparr>) = counts_exact d" for d :: FaultStudio and b
    by (simp add: counts_exact_def)
  have same: "x = d" if "studios_ok s" "x \<in> set s" "d \<in> set s" "sd_ID x = sd_ID d" for d
    using that by (simp add: studios_ok_def distinct_map inj_on_def)
  have all: "(sw_query c x \<longrightarrow> sd_ID x = i \<and> sd_ProjectID x = p) \<and> sd_ID (sw_change c x) = sd_ID x \<and>
      sd_ProjectID (sw_change c x) = sd_ProjectID x \<and>
      (studios_ok s \<longrightarrow> x \<in> set s \<longrightarrow> sw_query c x \<longrightarrow> counts_exact (sw_change c x))"
  proof (cases "\<exists>d f user. GetFaultStudioByID E i p s = Inr d \<and> new_selection E r d = go_result.Value f \<and>
      c = \<lparr>sw_query = studio_of p i, sw_change = (\<lambda>d. touched E user (f d))\<rparr>")
    case True
    then obtain d f user where d: "GetFaultStudioByID E i p s = Inr d" "new_selection E r d = go_result.Value f"
      "c = \<lparr>sw_query = studio_of p i, sw_change = (\<lambda>d. touched E user (f d))\<rparr>" by blast
    have "d \<in> set s" "sd_ID d = i" using GetFaultStudioByID_ok [OF assms(1) d(1)] by (auto simp: live_studio_def)
    then show ?thesis using new_selection_keeps [OF d(2)] same [of d] d(3) by (auto simp: studio_of_def studios_ok_def)
  next
    case False
    then show ?thesis using assms(2)
      by (auto simp: studio_plan_def live_studio_def active update_changes_keeps studios_ok_def
          split: studio_request.splits sum.splits go_result.splits)
  qed
  then show "sw_query c x \<Longrightarrow> sd_ID x = i \<and> sd_ProjectID x = p" "sd_ID (sw_change c x) = sd_ID x"
    "sd_ProjectID (sw_change c x) = sd_ProjectID x"
    "studios_ok s \<Longrightarrow> x \<in> set s \<Longrightarrow> sw_query c x \<Longrightarrow> counts_exact (sw_change c x)" by blast+
qed

lemma op_UpdateFaultStudio_shape:
  "studio_env_ok E \<Longrightarrow> op_UpdateFaultStudio E q f s = (r, s') \<Longrightarrow> s' = s \<or> replaced_one q f s s'"
  using UpdateOne_or [OF studio_db] by (auto simp: op_UpdateFaultStudio_def split: prod.splits sum.splits if_splits)

lemma studio_finish_shape:
  "studio_env_ok E \<Longrightarrow> snd (studio_finish E p i c s) = s \<or> replaced_one (sw_query c) (sw_change c) s (snd (studio_finish E p i c s))"
  using op_UpdateFaultStudio_shape [of E "sw_query c" "sw_change c" s]
  by (auto simp: studio_finish_def split: prod.splits option.splits)

lemma replaced_studios_ok:
  assumes "replaced_one q f s s'" "studios_ok s" "\<And>d. d \<in> set s \<Longrightarrow> q d \<Longrightarrow> counts_exact (f d)" "\<And>d. sd_ID (f d) = sd_ID d"
  shows "studios_ok s'"
proof -
  have "map sd_ID s' = map sd_ID s" by (rule replaced_one_map_key [OF assms(1)]) (rule assms(4))
  moreover have "counts_exact d" if "d \<in> set s'" for d
    using replaced_one_set [OF assms(1) that] assms(2,3) by (auto simp: studios_ok_def)
  ultimately show ?thesis using assms(2) by (simp add: studios_ok_def)
qed

section \<open>Requests\<close>

datatype studio_op = CreateStudio CreateFaultStudioRequest | ChangeStudio string studio_request | DeleteStudio string

definition studio_serve ::
  "studio_env \<Rightarrow> string \<Rightarrow> studio_op \<Rightarrow> FaultStudio list \<Rightarrow> studio_error option \<times> FaultStudio list" where
  "studio_serve E p r s =
     (let answer = (\<lambda>(r, s'). ((case r of Fails e \<Rightarrow> Some e | _ \<Rightarrow> None), s')) in
      case r of CreateStudio r \<Rightarrow> answer (CreateFaultStudio E p r s) | ChangeStudio i r \<Rightarrow> answer (change_studio E p i r s)
      | DeleteStudio i \<Rightarrow> (case DeleteFaultStudio E p i s of (r, s') \<Rightarrow> ((case r of Fails e \<Rightarrow> Some e | _ \<Rightarrow> None), s')))"

inductive studio_reach :: "FaultStudio list \<Rightarrow> bool" where
  empty: "studio_reach []"
| served: "studio_reach s \<Longrightarrow> studio_env_ok E \<Longrightarrow> studio_reach (snd (studio_serve E p r s))"

lemma studio_serve_snd [simp]:
  "snd (studio_serve E p (CreateStudio r) s) = snd (CreateFaultStudio E p r s)"
  "snd (studio_serve E p (ChangeStudio i c) s) = snd (change_studio E p i c s)"
  "snd (studio_serve E p (DeleteStudio i) s) = snd (DeleteFaultStudio E p i s)"
  by (simp_all add: studio_serve_def case_prod_beta)

lemma studio_serve_cases:
  assumes "studio_env_ok E"
  obtains "snd (studio_serve E p r s) = s"
  | d where "snd (studio_serve E p r s) = s @ [d]" "counts_exact d" "sd_ProjectID d = p" "sd_ID d \<notin> sd_ID ` set s"
  | q f where "replaced_one q f s (snd (studio_serve E p r s))" "\<And>d. sd_ID (f d) = sd_ID d" "\<And>d. sd_ProjectID (f d) = sd_ProjectID d"
    "\<And>d. q d \<Longrightarrow> sd_ProjectID d = p" "\<And>d. studios_ok s \<Longrightarrow> d \<in> set s \<Longrightarrow> q d \<Longrightarrow> counts_exact (f d)"
proof (cases r)
  case (CreateStudio r')
  show ?thesis
  proof (cases "snd (CreateFaultStudio E p r' s) = s")
    case True
    then show ?thesis using that(1) by (simp add: CreateStudio)
  next
    case False
    then obtain hub user e s' where i: "InsertOne (se_db E) (new_studio E p r' hub user) s = (e, s')" "snd (CreateFaultStudio E p r' s) = s'"
      by (auto simp: CreateFaultStudio_def split: sum.splits bool.splits option.splits prod.splits)
    have "s' = s @ [new_studio E p r' hub user]" "sd_ID (new_studio E p r' hub user) \<notin> sd_ID ` set s"
      using False i(2) InsertOne_cases [OF studio_db [OF assms] i(1)] by (auto simp: same_studio_id_def)
    then show ?thesis using that(2) i(2) by (simp add: CreateStudio new_studio_def counts_exact_def Let_def)
  qed
next
  case (ChangeStudio i r')
  show ?thesis
  proof (cases "studio_plan E p i r' s")
    case (Value c)
    have serve: "snd (studio_serve E p r s) = snd (studio_finish E p i c s)"
      by (simp add: ChangeStudio change_studio_def Value)
    show ?thesis
      using studio_finish_shape [OF assms, of p i c s] studio_plan_writes [OF assms Value] that(1) that(3) unfolding serve by metis
  qed (use that(1) in \<open>simp_all add: ChangeStudio change_studio_def\<close>)
next
  case (DeleteStudio i)
  show ?thesis
  proof (cases "se_username E")
    case (Inr user)
    let ?f = "\<lambda>d. d\<lparr>sd_IsRemoved := True, sd_UpdatedBy := user\<rparr>"
    have "snd (studio_serve E p r s) = s \<or> replaced_one (studio_of p i) ?f s (snd (studio_serve E p r s))"
      using op_UpdateFaultStudio_shape [OF assms, of "studio_of p i" ?f s]
      by (auto simp: DeleteStudio DeleteFaultStudio_def op_DeleteFaultStudio_def Inr split: prod.splits option.splits)
    then show ?thesis using that(1) that(3) [of "studio_of p i" ?f] by (auto simp: studio_of_def studios_ok_def counts_exact_def)
  qed (use that(1) in \<open>simp add: DeleteStudio DeleteFaultStudio_def\<close>)
qed

lemma studio_serve_ok: "studio_env_ok E \<Longrightarrow> studios_ok s \<Longrightarrow> studios_ok (snd (studio_serve E p r s))"
  by (erule studio_serve_cases [of E p r s]) (auto simp: studios_ok_def dest: replaced_studios_ok)

lemma studio_reach_ok: "studio_reach s \<Longrightarrow> studios_ok s"
proof (induction rule: studio_reach.induct)
  case empty
  then show ?case by (simp add: studios_ok_def)
next
  case (served s E p r)
  then show ?case using studio_serve_ok by blast
qed

section \<open>Studios of other projects\<close>

definition studios_of_others :: "string \<Rightarrow> FaultStudio list \<Rightarrow> FaultStudio list" where
  "studios_of_others p s = others sd_ProjectID p s"

interpretation studios: project_operation studio_serve "\<lambda>E s. studio_env_ok E" studios_of_others
proof unfold_locales
  fix E s p r
  assume "studio_env_ok E"
  then show "studios_of_others p (snd (studio_serve E p r s)) = studios_of_others p s"
  proof (rule studio_serve_cases [of E p r s])
    fix q and f :: "FaultStudio \<Rightarrow> FaultStudio"
    assume rep: "replaced_one q f s (snd (studio_serve E p r s))" and f: "\<And>d. sd_ProjectID (f d) = sd_ProjectID d"
      and q: "\<And>d. q d \<Longrightarrow> sd_ProjectID d = p"
    show ?thesis unfolding studios_of_others_def by (rule others_replaced [OF rep]) (simp add: f q)
  qed (simp_all add: studios_of_others_def others_def)
qed

text \<open>Each resolver asks for the role and then calls the service.\<close>

fun studio_operation :: "studio_op \<Rightarrow> string" where
  "studio_operation (CreateStudio r) = ''CreateFaultStudio''"
| "studio_operation (ChangeStudio i r) = ''UpdateFaultStudio''"
| "studio_operation (DeleteStudio i) = ''DeleteFaultStudio''"

definition studio_gql ::
  "'g gql_server \<Rightarrow> studio_env \<Rightarrow> string \<Rightarrow> string \<Rightarrow> studio_op \<Rightarrow> auth_db \<Rightarrow> FaultStudio list \<Rightarrow> (go_error + studio_error option) \<times> FaultStudio list" where
  "studio_gql S E jwt p r db = guarded S jwt p (studio_operation r) db
     (\<lambda>s. apfst Inr (studio_serve (E\<lparr>se_username := GetUsername S jwt db\<rparr>) p r s))"

lemma studio_roles: "roles_for (studio_operation r) = [RoleOwner]"
proof -
  have "list_all (\<lambda>op. roles_for op = [RoleOwner]) [''CreateFaultStudio'', ''UpdateFaultStudio'', ''DeleteFaultStudio'']" by code_simp
  then show ?thesis by (cases r) simp_all
qed


definition demo_studio_env :: studio_env where
  "demo_studio_env = \<lparr>se_db = list_coll same_studio_id, se_hubs = list_coll (\<lambda>_ _. False), se_hub_docs = [], se_username = Inr ''al'',
     se_uuid = ''s1'', se_now = 7, se_params = (\<lambda>t. None)\<rparr>"

lemma demo_studio_env_ok: "studio_env_ok demo_studio_env"
  by (simp add: studio_env_ok_def demo_studio_env_def list_coll_ok)

definition demo_fault :: "string \<Rightarrow> bool \<Rightarrow> FaultSelectionInput" where
  "demo_fault n enabled = \<lparr>fi_FaultCategory = ''pod'', fi_FaultName = n, fi_DisplayName = n, fi_Description = None, fi_Enabled = enabled,
     fi_InjectionConfig = None, fi_CustomParameters = None, fi_Weight = None\<rparr>"

definition demo_create :: CreateFaultStudioRequest where
  "demo_create = \<lparr>cs_Name = ''checkout'', cs_Description = None, cs_Tags = [], cs_SourceHubID = DefaultHubID,
     cs_SelectedFaults = [demo_fault ''pod-delete'' True, demo_fault ''pod-cpu'' False], cs_IsActive = None\<rparr>"

definition demo_studios :: "FaultStudio list" where
  "demo_studios = snd (studio_serve demo_studio_env ''p1'' (CreateStudio demo_create) [])"

lemma demo_studios_reach: "studio_reach demo_studios"
  unfolding demo_studios_def by (intro studio_reach.intros demo_studio_env_ok)


section \<open>What the service does not keep\<close>

text \<open>Removing a fault from a studio without faults panics: the capacity of the new slice is negative.\<close>

lemma remove_from_empty_panics:
  assumes "GetFaultStudioByID E i p s = Inr d" "sd_SelectedFaults d = []"
  shows "change_studio E p i (RemoveFault n) s = (Panics, s)"
  using assms by (simp add: change_studio_def studio_plan_def new_selection_def Let_def)

text \<open>
  A toggle decided before a removal and written after it brings the fault back and leaves the total of the removal:
  the counts are no longer those of the faults.
\<close>

definition stale_toggle :: "FaultStudio list" where
  "stale_toggle = (case studio_plan demo_studio_env ''p1'' ''s1'' (ToggleFault ''pod-cpu'' True) demo_studios of
     go_result.Value c \<Rightarrow> snd (studio_finish demo_studio_env ''p1'' ''s1'' c
       (snd (change_studio demo_studio_env ''p1'' ''s1'' (RemoveFault ''pod-cpu'') demo_studios))) | _ \<Rightarrow> [])"

lemma racing_toggle_breaks_counts: "map (\<lambda>d. (sd_TotalFaults d, length (sd_SelectedFaults d))) stale_toggle = [(1, 2)]"
  by code_simp

text \<open>A page is the whole list.\<close>

lemma pages_are_ignored: "ListFaultStudiosWithPagination E p l o1 s = ListFaultStudiosWithPagination E p l' o2 s"
  by (simp add: ListFaultStudiosWithPagination_def)

text \<open>The hub of another project is accepted as a source.\<close>

lemma foreign_hub_accepted:
  assumes "i \<noteq> DefaultHubID" "GetHubByID E i p = Inl e" "GetHubByIDOnly E i = Inr h"
  shows "source_hub_name E i p = Some (hd_Name h)"
  using assms by (simp add: source_hub_name_def)

text \<open>What is shown of a selected fault selects the same fault again.\<close>

lemma shown_fault_round_trip:
  assumes "\<And>t. fd_CustomParameters f = Some t \<Longrightarrow> t \<noteq> [] \<and> se_params E t = Some t"
  shows "convertInputToDBFaultSelection E (convertDBToModelFaultSelection f) = f"
  using assms by (cases f; cases "fd_InjectionConfig f"; cases "fd_CustomParameters f")
    (auto simp: convertInputToDBFaultSelection_def convertDBToModelFaultSelection_def or_empty_def)

end
