(* ===== verification/Certification.thy ===== *)
theory Certification
  imports Auth_Mongo
begin

text \<open>
  Certificates of agents (\<^verbatim>\<open>graphql/server/pkg/certification/{model,client,operator,service}.go\<close>): the run of an
  experiment is bucketed by the certifier, and once enough runs are, they are aggregated into a certificate. A
  request and the pipeline it starts are a sequence of tasks: what one goroutine does between two accesses to a
  collection or to the table of active pipelines. \<open>run_cert\<close> runs one task; \<^verbatim>\<open>Certification_Machine\<close> interleaves
  them. The certifier, decoding its answers, the clock (one reading per task) and the end of a pipeline's
  context are parameters. Only logging is left out.
\<close>

section \<open>Documents\<close>

datatype run_status = RunInitiated | RunTriggered | RunRunning | RunCompleted | RunFailed
datatype agg_status = AggTriggered | AggRunning | AggCompleted | AggFailed
datatype cert_status = RunsInProgress | ReadyForAggregation | AggregationInProgress | CertificateReady | AggregationFailed

record RunCounts = rc_Total :: nat  rc_Running :: nat  rc_Completed :: nat  rc_Failed :: nat

record LatestCertificate = lc_Status :: cert_status  lc_CertificationID :: string  lc_PdfStatus :: string  lc_GeneratedAt :: int

record CertificateExperiment =
  cx_ProjectID :: string
  cx_AgentID :: string
  cx_AgentName :: string
  cx_ExperimentID :: string
  cx_Status :: cert_status
  cx_ExpectedRuns :: int
  cx_RunCounts :: RunCounts
  cx_Mode :: string
  cx_ActiveVersion :: nat
  cx_Latest :: "LatestCertificate option"
  cx_CreatedAt :: int
  cx_UpdatedAt :: int

record BucketingState =
  bu_TaskID :: string
  bu_PollURL :: string
  bu_LastPolledAt :: "int option"
  bu_Attempt :: nat
  bu_StartedAt :: "int option"
  bu_CompletedAt :: "int option"

record WorkflowError = we_Code :: string  we_Reason :: string  we_LastFailedAt :: int

record CertificateRunWorkflow =
  cr_ProjectID :: string
  cr_AgentID :: string
  cr_ExperimentID :: string
  cr_RunID :: string
  cr_Status :: run_status
  cr_Bucketing :: BucketingState
  cr_MetricsReady :: bool
  cr_Error :: "WorkflowError option"
  cr_CreatedAt :: int
  cr_UpdatedAt :: int
  cr_Version :: nat

record AggregationState =
  ag_CertTaskID :: string
  ag_PollURL :: string
  ag_LastPolledAt :: "int option"
  ag_Attempt :: nat
  ag_StartedAt :: "int option"
  ag_CompletedAt :: "int option"

record CertificateAggregationWorkflow =
  ca_ProjectID :: string
  ca_AgentID :: string
  ca_AgentName :: string
  ca_ExperimentID :: string
  ca_AggregationVersion :: nat
  ca_Status :: agg_status
  ca_RunIDs :: "string list"
  ca_SuccessfulRuns :: nat
  ca_FailedRuns :: nat
  ca_Aggregation :: AggregationState
  ca_Certificate :: "(string \<times> int) option"
  ca_Error :: "WorkflowError option"
  ca_CreatedAt :: int
  ca_UpdatedAt :: int
  ca_Version :: nat

record StartInput =
  si_ProjectID :: string
  si_AgentID :: string
  si_AgentName :: string
  si_ExperimentID :: string
  si_ExperimentRunID :: string
  si_ExpectedRuns :: int
  si_NotifyID :: string
  si_FaultWindows :: "(string \<times> string \<times> string) list"

record StartOutput = so_Status :: string  so_RunStatus :: "run_status option"

section \<open>The certifier's client\<close>

datatype cert_error =
    NotConfigured
  | NetError string
  | DecodeError
  | APIError nat string
  | CertStore go_error
  | InputRequired string

record BucketingRequest =
  br_AgentID :: string
  br_ExperimentID :: string
  br_RunID :: string
  br_TraceID :: string
  br_FaultWindows :: "(string \<times> string \<times> string) list"

record AggregationRequest =
  ar_AgentID :: string
  ar_AgentName :: string
  ar_ExperimentID :: string
  ar_CertificationRunID :: string
  ar_RunsPerFault :: int

datatype cert_payload = NoBody | BucketingBody BucketingRequest | AggregationBody AggregationRequest

datatype http_answer = NoAnswer string | Answered nat string

text \<open>The error of a bucketing task: absent, a text, an object with or without a message, or anything else as printed.\<close>

datatype error_json = NoErrorJson | ErrorText string | ErrorObject "string option" string | ErrorOther string

record bucketing_status = bs_Status :: string  bs_Error :: error_json

record aggregation_status =
  as_Status :: string
  as_Result :: "(string \<times> string option) list option"
  as_Error :: "(string \<times> string) option"

record cert_env =
  ce_exps :: "CertificateExperiment coll"
  ce_runs :: "CertificateRunWorkflow coll"
  ce_aggs :: "CertificateAggregationWorkflow coll"
  ce_upsert_exp :: "(CertificateExperiment \<Rightarrow> bool) \<Rightarrow> (CertificateExperiment \<Rightarrow> CertificateExperiment) \<Rightarrow> CertificateExperiment \<Rightarrow>
     CertificateExperiment list \<Rightarrow> go_error option \<times> CertificateExperiment list"
  ce_upsert_run :: "(CertificateRunWorkflow \<Rightarrow> bool) \<Rightarrow> (CertificateRunWorkflow \<Rightarrow> CertificateRunWorkflow) \<Rightarrow> CertificateRunWorkflow \<Rightarrow>
     CertificateRunWorkflow list \<Rightarrow> go_error option \<times> CertificateRunWorkflow list"
  ce_cursor_fails :: bool
  ce_done :: bool
  ce_now :: int
  ce_base :: string
  ce_http :: "string \<Rightarrow> string \<Rightarrow> cert_payload \<Rightarrow> http_answer"
  ce_accepted :: "string \<Rightarrow> (string \<times> string) option"
  ce_bucketing :: "string \<Rightarrow> bucketing_status option"
  ce_cert_accepted :: "string \<Rightarrow> (string \<times> string) option"
  ce_aggregation :: "string \<Rightarrow> aggregation_status option"

text \<open>A conflict is decoded too, and the error returned beside what was decoded.\<close>

definition client_do :: "cert_env \<Rightarrow> string \<Rightarrow> string \<Rightarrow> cert_payload \<Rightarrow> (string \<Rightarrow> 'a option) \<Rightarrow> cert_error option \<times> 'a option" where
  "client_do E verb path body decode =
     (if ce_base E = [] then (Some NotConfigured, None)
      else (case ce_http E verb path body of NoAnswer m \<Rightarrow> (Some (NetError m), None)
        | Answered status text \<Rightarrow>
            if 200 \<le> status \<and> status < 300 then (case decode text of None \<Rightarrow> (Some DecodeError, None) | Some v \<Rightarrow> (None, Some v))
            else (Some (APIError status text), if status = 409 then decode text else None)))"

text \<open>The callers return nothing beside an error.\<close>

definition answer_or_error :: "cert_error option \<times> 'a option \<Rightarrow> cert_error option \<times> 'a option" where
  "answer_or_error r = (case r of (Some e, out) \<Rightarrow> (Some e, None) | (None, out) \<Rightarrow> (None, out))"

definition StartBucketing where
  "StartBucketing E req = answer_or_error (client_do E ''POST'' ''/api/v1/bucketing-extraction'' (BucketingBody req) (ce_accepted E))"

definition PollBucketing where
  "PollBucketing E experimentID runID = answer_or_error (client_do E ''GET''
     (''/api/v1/tasks?experiment_id='' @ experimentID @ ''&experiment_run_id='' @ runID) NoBody (ce_bucketing E))"

definition StartAggregation where
  "StartAggregation E req = answer_or_error (client_do E ''POST'' ''/api/v1/aggregation-certification'' (AggregationBody req) (ce_cert_accepted E))"

definition PollAggregation where
  "PollAggregation E experimentID = answer_or_error (client_do E ''GET'' (''/api/v1/cert-tasks?experiment_id='' @ experimentID) NoBody
     (ce_aggregation E))"

definition cert_error_text :: "cert_error \<Rightarrow> string" where
  "cert_error_text e = (case e of NotConfigured \<Rightarrow> ''certifier base url not configured'' | NetError m \<Rightarrow> m
     | DecodeError \<Rightarrow> ''invalid answer'' | APIError s b \<Rightarrow> ''certifier api error: status='' @ FormatInt (int s) @ '' body='' @ b
     | CertStore _ \<Rightarrow> ''database'' | InputRequired f \<Rightarrow> f @ '' is required'')"

text \<open>A conflict that came with the task it conflicts with.\<close>

definition already_active :: "cert_error \<Rightarrow> (string \<times> string) option \<Rightarrow> (string \<times> string) option" where
  "already_active e resp = (case (e, resp) of
     (APIError status _, Some (task, url)) \<Rightarrow> (if status = 409 \<and> task \<noteq> [] then Some (task, url) else None) | _ \<Rightarrow> None)"

definition upper_char :: "char \<Rightarrow> char" where
  "upper_char c = (if of_char c \<ge> (97::nat) \<and> of_char c \<le> (122::nat) then char_of (of_char c - (32::nat)) else c)"

definition cert_upper :: "string \<Rightarrow> string" where "cert_upper s = map upper_char s"

definition stringifyError :: "error_json \<Rightarrow> string" where
  "stringifyError e = (case e of NoErrorJson \<Rightarrow> [] | ErrorText t \<Rightarrow> t | ErrorObject (Some m) _ \<Rightarrow> m | ErrorObject None t \<Rightarrow> t | ErrorOther t \<Rightarrow> t)"

definition extractCertificationID :: "(string \<times> string option) list option \<Rightarrow> string" where
  "extractCertificationID result = (case result of None \<Rightarrow> []
     | Some m \<Rightarrow> (case map_of m ''certification_id'' of Some (Some v) \<Rightarrow> v
        | _ \<Rightarrow> (case map_of m ''certificationId'' of Some (Some v) \<Rightarrow> v | _ \<Rightarrow> [])))"

section \<open>The collections\<close>

record cert_world =
  cw_exps :: "CertificateExperiment list"
  cw_runs :: "CertificateRunWorkflow list"
  cw_aggs :: "CertificateAggregationWorkflow list"
  cw_active :: "string list"

definition exp_of :: "string \<Rightarrow> string \<Rightarrow> CertificateExperiment \<Rightarrow> bool" where
  "exp_of p x d = (cx_ProjectID d = p \<and> cx_ExperimentID d = x)"

definition run_of :: "string \<Rightarrow> string \<Rightarrow> string \<Rightarrow> string \<Rightarrow> CertificateRunWorkflow \<Rightarrow> bool" where
  "run_of p a x r d = (cr_ProjectID d = p \<and> cr_AgentID d = a \<and> cr_ExperimentID d = x \<and> cr_RunID d = r)"

definition agg_of :: "string \<Rightarrow> string \<Rightarrow> string \<Rightarrow> nat \<Rightarrow> CertificateAggregationWorkflow \<Rightarrow> bool" where
  "agg_of p a x v d = (ca_ProjectID d = p \<and> ca_AgentID d = a \<and> ca_ExperimentID d = x \<and> ca_AggregationVersion d = v)"

text \<open>The unique indexes. Those on task identifiers only make writes fail, which every write may.\<close>

definition same_cert_exp :: "CertificateExperiment \<Rightarrow> CertificateExperiment \<Rightarrow> bool" where
  "same_cert_exp a b = exp_of (cx_ProjectID a) (cx_ExperimentID a) b"

definition same_cert_run :: "CertificateRunWorkflow \<Rightarrow> CertificateRunWorkflow \<Rightarrow> bool" where
  "same_cert_run a b = (run_of (cr_ProjectID a) (cr_AgentID a) (cr_ExperimentID a) (cr_RunID a) b)"

definition same_cert_agg :: "CertificateAggregationWorkflow \<Rightarrow> CertificateAggregationWorkflow \<Rightarrow> bool" where
  "same_cert_agg a b = (agg_of (ca_ProjectID a) (ca_AgentID a) (ca_ExperimentID a) (ca_AggregationVersion a) b)"

definition optional_doc :: "go_error + 'd \<Rightarrow> go_error + 'd option" where
  "optional_doc r = (case r of Inr d \<Rightarrow> Inr (Some d) | Inl NoDocuments \<Rightarrow> Inr None | Inl e \<Rightarrow> Inl e)"

definition GetExperiment :: "cert_env \<Rightarrow> string \<Rightarrow> string \<Rightarrow> cert_world \<Rightarrow> go_error + CertificateExperiment option" where
  "GetExperiment E p x w = optional_doc (FindOne (ce_exps E) (exp_of p x) (cw_exps w))"

definition GetRunWorkflow :: "cert_env \<Rightarrow> StartInput \<Rightarrow> cert_world \<Rightarrow> go_error + CertificateRunWorkflow option" where
  "GetRunWorkflow E i w = optional_doc (FindOne (ce_runs E)
     (run_of (si_ProjectID i) (si_AgentID i) (si_ExperimentID i) (si_ExperimentRunID i)) (cw_runs w))"

definition new_experiment :: "cert_env \<Rightarrow> StartInput \<Rightarrow> CertificateExperiment" where
  "new_experiment E i = \<lparr>cx_ProjectID = si_ProjectID i, cx_AgentID = si_AgentID i, cx_AgentName = si_AgentName i,
     cx_ExperimentID = si_ExperimentID i, cx_Status = RunsInProgress, cx_ExpectedRuns = si_ExpectedRuns i,
     cx_RunCounts = \<lparr>rc_Total = 0, rc_Running = 0, rc_Completed = 0, rc_Failed = 0\<rparr>, cx_Mode = ''ALL_RUNS_COMPLETED'',
     cx_ActiveVersion = 0, cx_Latest = None, cx_CreatedAt = ce_now E, cx_UpdatedAt = ce_now E\<rparr>"

definition UpsertExperiment :: "cert_env \<Rightarrow> StartInput \<Rightarrow> cert_world \<Rightarrow> go_error option \<times> cert_world" where
  "UpsertExperiment E i w = (case ce_upsert_exp E (exp_of (si_ProjectID i) (si_ExperimentID i))
      (\<lambda>d. d\<lparr>cx_ExpectedRuns := max (cx_ExpectedRuns d) (si_ExpectedRuns i), cx_UpdatedAt := ce_now E\<rparr>) (new_experiment E i) (cw_exps w) of
     (e, s) \<Rightarrow> (e, w\<lparr>cw_exps := s\<rparr>))"

definition update_exp ::
  "cert_env \<Rightarrow> (CertificateExperiment \<Rightarrow> bool) \<Rightarrow> (CertificateExperiment \<Rightarrow> CertificateExperiment) \<Rightarrow> cert_world \<Rightarrow> go_error option \<times> cert_world" where
  "update_exp E q f w = (case UpdateOne (ce_exps E) q (\<lambda>d. (f d)\<lparr>cx_UpdatedAt := ce_now E\<rparr>) (cw_exps w) of
     (r, s) \<Rightarrow> ((case r of Inl e \<Rightarrow> Some e | Inr _ \<Rightarrow> None), w\<lparr>cw_exps := s\<rparr>))"

definition ResetStatusIfCertified :: "cert_env \<Rightarrow> StartInput \<Rightarrow> cert_world \<Rightarrow> go_error option \<times> cert_world" where
  "ResetStatusIfCertified E i w = update_exp E
     (\<lambda>d. exp_of (si_ProjectID i) (si_ExperimentID i) d \<and> cx_Status d \<in> {CertificateReady, AggregationFailed})
     (\<lambda>d. d\<lparr>cx_Status := RunsInProgress\<rparr>) w"

definition UpdateExperimentStatus :: "cert_env \<Rightarrow> StartInput \<Rightarrow> cert_status \<Rightarrow> cert_world \<Rightarrow> go_error option \<times> cert_world" where
  "UpdateExperimentStatus E i status w =
     update_exp E (exp_of (si_ProjectID i) (si_ExperimentID i)) (\<lambda>d. d\<lparr>cx_Status := status\<rparr>) w"

definition FinalizeExperimentCertificate ::
  "cert_env \<Rightarrow> StartInput \<Rightarrow> nat \<Rightarrow> LatestCertificate \<Rightarrow> cert_world \<Rightarrow> go_error option \<times> cert_world" where
  "FinalizeExperimentCertificate E i version cert w = update_exp E (exp_of (si_ProjectID i) (si_ExperimentID i))
     (\<lambda>d. d\<lparr>cx_Status := CertificateReady, cx_ActiveVersion := version, cx_Latest := Some cert\<rparr>) w"

definition no_bucketing :: BucketingState where
  "no_bucketing = \<lparr>bu_TaskID = [], bu_PollURL = [], bu_LastPolledAt = None, bu_Attempt = 0, bu_StartedAt = None, bu_CompletedAt = None\<rparr>"

definition new_run :: "cert_env \<Rightarrow> StartInput \<Rightarrow> CertificateRunWorkflow" where
  "new_run E i = \<lparr>cr_ProjectID = si_ProjectID i, cr_AgentID = si_AgentID i, cr_ExperimentID = si_ExperimentID i,
     cr_RunID = si_ExperimentRunID i, cr_Status = RunTriggered, cr_Bucketing = no_bucketing, cr_MetricsReady = False,
     cr_Error = None, cr_CreatedAt = ce_now E, cr_UpdatedAt = ce_now E, cr_Version = 0\<rparr>"

definition workflow_query :: "StartInput \<Rightarrow> CertificateRunWorkflow \<Rightarrow> bool" where
  "workflow_query i = run_of (si_ProjectID i) (si_AgentID i) (si_ExperimentID i) (si_ExperimentRunID i)"

definition UpsertRunWorkflowInitial :: "cert_env \<Rightarrow> StartInput \<Rightarrow> cert_world \<Rightarrow> go_error option \<times> cert_world" where
  "UpsertRunWorkflowInitial E i w = (case ce_upsert_run E (workflow_query i) (\<lambda>d. d\<lparr>cr_UpdatedAt := ce_now E\<rparr>) (new_run E i) (cw_runs w) of
     (e, s) \<Rightarrow> (e, w\<lparr>cw_runs := s\<rparr>))"

definition update_run ::
  "cert_env \<Rightarrow> (CertificateRunWorkflow \<Rightarrow> bool) \<Rightarrow> (CertificateRunWorkflow \<Rightarrow> CertificateRunWorkflow) \<Rightarrow> cert_world \<Rightarrow> go_error option \<times> cert_world" where
  "update_run E q f w = (case UpdateOne (ce_runs E) q (\<lambda>d. (f d)\<lparr>cr_UpdatedAt := ce_now E\<rparr>) (cw_runs w) of
     (r, s) \<Rightarrow> ((case r of Inl e \<Rightarrow> Some e | Inr _ \<Rightarrow> None), w\<lparr>cw_runs := s\<rparr>))"

definition ResetFailedRunWorkflow :: "cert_env \<Rightarrow> StartInput \<Rightarrow> cert_world \<Rightarrow> go_error option \<times> cert_world" where
  "ResetFailedRunWorkflow E i w = update_run E (\<lambda>d. workflow_query i d \<and> cr_Status d = RunFailed)
     (\<lambda>d. d\<lparr>cr_Status := RunTriggered, cr_Bucketing := no_bucketing, cr_MetricsReady := False, cr_Error := None\<rparr>) w"

definition UpdateRunWorkflow ::
  "cert_env \<Rightarrow> StartInput \<Rightarrow> (CertificateRunWorkflow \<Rightarrow> CertificateRunWorkflow) \<Rightarrow> cert_world \<Rightarrow> go_error option \<times> cert_world" where
  "UpdateRunWorkflow E i f w = update_run E (workflow_query i) (\<lambda>d. (f d)\<lparr>cr_Version := cr_Version d + 1\<rparr>) w"

definition ListRunWorkflows :: "cert_env \<Rightarrow> string \<Rightarrow> string \<Rightarrow> string \<Rightarrow> cert_world \<Rightarrow> go_error + CertificateRunWorkflow list" where
  "ListRunWorkflows E p a x w = Find (ce_runs E) (\<lambda>d. cr_ProjectID d = p \<and> cr_AgentID d = a \<and> cr_ExperimentID d = x) (cw_runs w)"

fun latest_of :: "CertificateAggregationWorkflow list \<Rightarrow> CertificateAggregationWorkflow option" where
  "latest_of [] = None"
| "latest_of (d # ds) = (case latest_of ds of None \<Rightarrow> Some d
     | Some e \<Rightarrow> if ca_AggregationVersion e > ca_AggregationVersion d then Some e else Some d)"

text \<open>A cursor that fails reads as no aggregation at all.\<close>

definition GetLatestAggregationWorkflow ::
  "cert_env \<Rightarrow> StartInput \<Rightarrow> cert_world \<Rightarrow> go_error + CertificateAggregationWorkflow option" where
  "GetLatestAggregationWorkflow E i w = (case Find (ce_aggs E) (\<lambda>d. ca_ProjectID d = si_ProjectID i \<and> ca_AgentID d = si_AgentID i \<and>
       ca_ExperimentID d = si_ExperimentID i) (cw_aggs w) of Inl e \<Rightarrow> Inl e
     | Inr ds \<Rightarrow> Inr (if ce_cursor_fails E then None else latest_of ds))"

definition UpdateAggregationWorkflow ::
  "cert_env \<Rightarrow> StartInput \<Rightarrow> nat \<Rightarrow> (CertificateAggregationWorkflow \<Rightarrow> CertificateAggregationWorkflow) \<Rightarrow> cert_world \<Rightarrow> go_error option \<times> cert_world" where
  "UpdateAggregationWorkflow E i version f w =
     (case UpdateOne (ce_aggs E) (agg_of (si_ProjectID i) (si_AgentID i) (si_ExperimentID i) version)
        (\<lambda>d. (f d)\<lparr>ca_UpdatedAt := ce_now E, ca_Version := ca_Version d + 1\<rparr>) (cw_aggs w) of
     (r, s) \<Rightarrow> ((case r of Inl e \<Rightarrow> Some e | Inr _ \<Rightarrow> None), w\<lparr>cw_aggs := s\<rparr>))"

section \<open>The gate\<close>

text \<open>\<^const>\<open>None\<close> while a run is neither completed nor failed.\<close>

fun count_runs :: "CertificateRunWorkflow list \<Rightarrow> (string list \<times> nat \<times> nat) option" where
  "count_runs [] = Some ([], 0, 0)"
| "count_runs (r # rs) = (case cr_Status r of
     RunCompleted \<Rightarrow> map_option (\<lambda>(ids, ok, bad). (cr_RunID r # ids, ok + 1, bad)) (count_runs rs)
   | RunFailed \<Rightarrow> map_option (\<lambda>(ids, ok, bad). (ids, ok, bad + 1)) (count_runs rs)
   | _ \<Rightarrow> None)"

definition gate :: "int \<Rightarrow> CertificateRunWorkflow list \<Rightarrow> (string list \<times> nat \<times> nat) option" where
  "gate expected runs = (case count_runs runs of None \<Rightarrow> None
     | Some (ids, ok, bad) \<Rightarrow> if expected > 0 \<and> int ok < expected then None else Some (ids, ok, bad))"

section \<open>Tasks\<close>

type_synonym gate_result = "string list \<times> nat \<times> nat"

datatype cert_task =
    Adopting StartInput
  | CheckingRun StartInput
  | UpsertingExperiment StartInput
  | Readopting StartInput
  | ResettingStatus StartInput
  | ResettingRun StartInput
  | UpsertingRun StartInput
  | Acquiring StartInput
  | BucketCheck StartInput
  | BucketStart StartInput
  | BucketPoll StartInput nat
  | GateExperiment StartInput
  | GateRuns StartInput int
  | AggMark StartInput gate_result
  | AggExperiment StartInput gate_result
  | AggLatest StartInput gate_result int nat
  | AggCreate StartInput gate_result int nat
  | AggStart StartInput int nat
  | AggStartFailed StartInput
  | AggPoll StartInput nat nat
  | AggFinalize StartInput nat string int
  | AggPollFailed StartInput nat WorkflowError nat
  | Releasing StartInput

datatype cert_answer = Started StartOutput | Refused cert_error | Crashed

definition MaxPollAttempts :: nat where "MaxPollAttempts = 120"

definition validateStartInput :: "StartInput \<Rightarrow> cert_error option" where
  "validateStartInput i =
     (if TrimSpace (si_ProjectID i) = [] then Some (InputRequired ''projectID'')
      else if TrimSpace (si_AgentID i) = [] then Some (InputRequired ''agentID'')
      else if TrimSpace (si_ExperimentID i) = [] then Some (InputRequired ''experimentID'')
      else if TrimSpace (si_ExperimentRunID i) = [] then Some (InputRequired ''experimentRunID'') else None)"

definition orchestrationKey :: "StartInput \<Rightarrow> string" where
  "orchestrationKey i = Join [si_ProjectID i, si_AgentID i, si_ExperimentID i, si_ExperimentRunID i] ''|''"

text \<open>The agent stored on the experiment's document replaces the caller's.\<close>

definition adopt :: "CertificateExperiment option \<Rightarrow> StartInput \<Rightarrow> StartInput" where
  "adopt parent i = (case parent of None \<Rightarrow> i
     | Some d \<Rightarrow> if cx_AgentID d = [] then i
         else i\<lparr>si_AgentID := cx_AgentID d, si_AgentName := (if cx_AgentName d = [] then si_AgentName i else cx_AgentName d)\<rparr>)"

definition go_on :: "cert_task \<Rightarrow> cert_world \<Rightarrow> cert_task option \<times> cert_answer option \<times> cert_world" where
  "go_on t w = (Some t, None, w)"

definition answer_with :: "cert_answer \<Rightarrow> cert_world \<Rightarrow> cert_task option \<times> cert_answer option \<times> cert_world" where
  "answer_with a w = (None, Some a, w)"

definition after_store ::
  "go_error option \<times> cert_world \<Rightarrow> cert_task \<Rightarrow> cert_task option \<times> cert_answer option \<times> cert_world" where
  "after_store r t = (case r of (None, w) \<Rightarrow> go_on t w | (Some e, w) \<Rightarrow> answer_with (Refused (CertStore e)) w)"

text \<open>In a pipeline an error of the database ends it; where the error is dropped the task goes on.\<close>

definition or_release ::
  "StartInput \<Rightarrow> go_error option \<times> cert_world \<Rightarrow> cert_task \<Rightarrow> cert_task option \<times> cert_answer option \<times> cert_world" where
  "or_release i r t = (case r of (None, w) \<Rightarrow> go_on t w | (Some e, w) \<Rightarrow> go_on (Releasing i) w)"

definition failed_with :: "cert_env \<Rightarrow> string \<Rightarrow> string \<Rightarrow> WorkflowError" where
  "failed_with E code reason = \<lparr>we_Code = code, we_Reason = reason, we_LastFailedAt = ce_now E\<rparr>"

definition bucketing_started :: "cert_env \<Rightarrow> string \<times> string \<Rightarrow> CertificateRunWorkflow \<Rightarrow> CertificateRunWorkflow" where
  "bucketing_started E r d = d\<lparr>cr_Status := RunRunning,
     cr_Bucketing := (cr_Bucketing d)\<lparr>bu_TaskID := fst r, bu_PollURL := snd r, bu_StartedAt := Some (ce_now E)\<rparr>\<rparr>"

definition run_polled :: "cert_env \<Rightarrow> nat \<Rightarrow> CertificateRunWorkflow \<Rightarrow> CertificateRunWorkflow" where
  "run_polled E attempt d = d\<lparr>cr_Bucketing := (cr_Bucketing d)\<lparr>bu_LastPolledAt := Some (ce_now E), bu_Attempt := attempt\<rparr>\<rparr>"

definition run_settled :: "cert_env \<Rightarrow> nat \<Rightarrow> run_status \<Rightarrow> CertificateRunWorkflow \<Rightarrow> CertificateRunWorkflow" where
  "run_settled E attempt status d = (run_polled E attempt d)\<lparr>cr_Status := status,
     cr_Bucketing := (cr_Bucketing (run_polled E attempt d))\<lparr>bu_CompletedAt := Some (ce_now E)\<rparr>\<rparr>"

definition agg_polled :: "cert_env \<Rightarrow> nat \<Rightarrow> CertificateAggregationWorkflow \<Rightarrow> CertificateAggregationWorkflow" where
  "agg_polled E attempt d = d\<lparr>ca_Aggregation := (ca_Aggregation d)\<lparr>ag_LastPolledAt := Some (ce_now E), ag_Attempt := attempt\<rparr>\<rparr>"

definition agg_settled :: "cert_env \<Rightarrow> nat \<Rightarrow> agg_status \<Rightarrow> CertificateAggregationWorkflow \<Rightarrow> CertificateAggregationWorkflow" where
  "agg_settled E attempt status d = (agg_polled E attempt d)\<lparr>ca_Status := status,
     ca_Aggregation := (ca_Aggregation (agg_polled E attempt d))\<lparr>ag_CompletedAt := Some (ce_now E)\<rparr>\<rparr>"

definition agg_started :: "string \<times> string \<Rightarrow> CertificateAggregationWorkflow \<Rightarrow> CertificateAggregationWorkflow" where
  "agg_started r d = d\<lparr>ca_Status := AggRunning, ca_Aggregation := (ca_Aggregation d)\<lparr>ag_CertTaskID := fst r, ag_PollURL := snd r\<rparr>\<rparr>"

definition new_agg :: "cert_env \<Rightarrow> StartInput \<Rightarrow> gate_result \<Rightarrow> nat \<Rightarrow> CertificateAggregationWorkflow" where
  "new_agg E i g version = (case g of (ids, ok, bad) \<Rightarrow>
     \<lparr>ca_ProjectID = si_ProjectID i, ca_AgentID = si_AgentID i, ca_AgentName = si_AgentName i, ca_ExperimentID = si_ExperimentID i,
      ca_AggregationVersion = version, ca_Status = AggTriggered, ca_RunIDs = ids, ca_SuccessfulRuns = ok, ca_FailedRuns = bad,
      ca_Aggregation = \<lparr>ag_CertTaskID = [], ag_PollURL = [], ag_LastPolledAt = None, ag_Attempt = 0,
        ag_StartedAt = Some (ce_now E), ag_CompletedAt = None\<rparr>,
      ca_Certificate = None, ca_Error = None, ca_CreatedAt = ce_now E, ca_UpdatedAt = ce_now E, ca_Version = 0\<rparr>)"

definition in_progress :: "CertificateAggregationWorkflow \<Rightarrow> bool" where
  "in_progress d = (ca_Status d = AggTriggered \<or> ca_Status d = AggRunning)"

definition next_version :: "nat \<Rightarrow> CertificateAggregationWorkflow option \<Rightarrow> nat" where
  "next_version active latest = (case latest of None \<Rightarrow> active + 1
     | Some d \<Rightarrow> if ca_AggregationVersion d \<ge> active + 1 then ca_AggregationVersion d + 1 else active + 1)"

definition bucketing_request :: "StartInput \<Rightarrow> BucketingRequest" where
  "bucketing_request i = \<lparr>br_AgentID = si_AgentID i, br_ExperimentID = si_ExperimentID i, br_RunID = si_ExperimentRunID i,
     br_TraceID = si_NotifyID i, br_FaultWindows = si_FaultWindows i\<rparr>"

definition aggregation_request :: "StartInput \<Rightarrow> int \<Rightarrow> nat \<Rightarrow> AggregationRequest" where
  "aggregation_request i expected version = \<lparr>ar_AgentID = si_AgentID i, ar_AgentName = si_AgentName i,
     ar_ExperimentID = si_ExperimentID i, ar_CertificationRunID = ''v'' @ FormatInt (int version) @ ''.0.0'', ar_RunsPerFault = expected\<rparr>"

definition poll_bucketing :: "cert_env \<Rightarrow> StartInput \<Rightarrow> nat \<Rightarrow> cert_world \<Rightarrow> cert_task option \<times> cert_answer option \<times> cert_world" where
  "poll_bucketing E i attempt w =
     (let again = go_on (BucketPoll i (attempt + 1)) (snd (UpdateRunWorkflow E i (run_polled E attempt) w)) in
      case PollBucketing E (si_ExperimentID i) (si_ExperimentRunID i) of
        (None, Some s) \<Rightarrow>
          if cert_upper (bs_Status s) = ''COMPLETED''
          then go_on (GateExperiment i) (snd (UpdateRunWorkflow E i (\<lambda>d. (run_settled E attempt RunCompleted d)\<lparr>cr_MetricsReady := True\<rparr>) w))
          else if cert_upper (bs_Status s) = ''FAILED''
          then go_on (GateExperiment i) (snd (UpdateRunWorkflow E i (\<lambda>d. (run_settled E attempt RunFailed d)
            \<lparr>cr_Error := Some (failed_with E ''BUCKETING_FAILED'' (stringifyError (bs_Error s)))\<rparr>) w))
          else again
      | _ \<Rightarrow> again)"

definition poll_aggregation :: "cert_env \<Rightarrow> StartInput \<Rightarrow> nat \<Rightarrow> nat \<Rightarrow> cert_world \<Rightarrow> cert_task option \<times> cert_answer option \<times> cert_world" where
  "poll_aggregation E i version attempt w =
     (let again = go_on (AggPoll i version (attempt + 1)) (snd (UpdateAggregationWorkflow E i version (agg_polled E attempt) w)) in
      case PollAggregation E (si_ExperimentID i) of
        (None, Some s) \<Rightarrow>
          if cert_upper (as_Status s) = ''COMPLETED''
          then (let cid = extractCertificationID (as_Result s) in
            go_on (AggFinalize i version cid (ce_now E)) (snd (UpdateAggregationWorkflow E i version
              (\<lambda>d. (agg_settled E attempt AggCompleted d)\<lparr>ca_Certificate := Some (cid, ce_now E)\<rparr>) w)))
          else if cert_upper (as_Status s) = ''FAILED''
          then (let err = (case as_Error s of None \<Rightarrow> failed_with E ''AGGREGATION_FAILED'' []
                | Some (code, msg) \<Rightarrow> failed_with E (if code = [] then ''AGGREGATION_FAILED'' else code) msg) in
            go_on (AggPollFailed i version err attempt) (snd (UpdateExperimentStatus E i AggregationFailed w)))
          else again
      | _ \<Rightarrow> again)"

fun run_cert :: "cert_env \<Rightarrow> cert_task \<Rightarrow> cert_world \<Rightarrow> cert_task option \<times> cert_answer option \<times> cert_world" where
  "run_cert E (Adopting i) w = (case GetExperiment E (si_ProjectID i) (si_ExperimentID i) w of
     Inl e \<Rightarrow> answer_with (Refused (CertStore e)) w | Inr parent \<Rightarrow> go_on (CheckingRun (adopt parent i)) w)"
| "run_cert E (CheckingRun i) w = (case GetRunWorkflow E i w of Inl e \<Rightarrow> answer_with (Refused (CertStore e)) w
   | Inr run \<Rightarrow>
       if (case run of None \<Rightarrow> False | Some d \<Rightarrow> cr_Status d = RunCompleted)
       then answer_with (Started \<lparr>so_Status = ''ALREADY_COMPLETED'', so_RunStatus = Some RunCompleted\<rparr>) w
       else go_on (UpsertingExperiment i) w)"
| "run_cert E (UpsertingExperiment i) w = after_store (UpsertExperiment E i w) (Readopting i)"
| "run_cert E (Readopting i) w = (case GetExperiment E (si_ProjectID i) (si_ExperimentID i) w of
     Inl e \<Rightarrow> answer_with (Refused (CertStore e)) w | Inr parent \<Rightarrow> go_on (ResettingStatus (adopt parent i)) w)"
| "run_cert E (ResettingStatus i) w = after_store (ResetStatusIfCertified E i w) (ResettingRun i)"
| "run_cert E (ResettingRun i) w = after_store (ResetFailedRunWorkflow E i w) (UpsertingRun i)"
| "run_cert E (UpsertingRun i) w = after_store (UpsertRunWorkflowInitial E i w) (Acquiring i)"
| "run_cert E (Acquiring i) w =
     (if orchestrationKey i \<in> set (cw_active w)
      then answer_with (Started \<lparr>so_Status = ''ALREADY_RUNNING'', so_RunStatus = Some RunRunning\<rparr>) w
      else (Some (BucketCheck i), Some (Started \<lparr>so_Status = ''ACCEPTED'', so_RunStatus = Some RunTriggered\<rparr>),
        w\<lparr>cw_active := orchestrationKey i # cw_active w\<rparr>))"
| "run_cert E (BucketCheck i) w = (case GetRunWorkflow E i w of Inl e \<Rightarrow> go_on (Releasing i) w
   | Inr run \<Rightarrow> go_on (if (case run of None \<Rightarrow> False | Some d \<Rightarrow> bu_TaskID (cr_Bucketing d) \<noteq> []) then BucketPoll i 1 else BucketStart i) w)"
| "run_cert E (BucketStart i) w = (case StartBucketing E (bucketing_request i) of
     (None, resp) \<Rightarrow> or_release i (UpdateRunWorkflow E i (bucketing_started E (case resp of None \<Rightarrow> ([], []) | Some r \<Rightarrow> r)) w) (BucketPoll i 1)
   | (Some e, resp) \<Rightarrow> (case already_active e resp of
       Some r \<Rightarrow> or_release i (UpdateRunWorkflow E i (bucketing_started E r) w) (BucketPoll i 1)
     | None \<Rightarrow> go_on (Releasing i) (snd (UpdateRunWorkflow E i (\<lambda>d. d\<lparr>cr_Status := RunFailed,
         cr_Error := Some (failed_with E ''BUCKETING_TRIGGER_FAILED'' (cert_error_text e))\<rparr>) w))))"
| "run_cert E (BucketPoll i attempt) w =
     (if attempt > MaxPollAttempts \<or> ce_done E then go_on (GateExperiment i) w else poll_bucketing E i attempt w)"
| "run_cert E (GateExperiment i) w = (case GetExperiment E (si_ProjectID i) (si_ExperimentID i) w of
     Inr (Some d) \<Rightarrow> go_on (GateRuns i (cx_ExpectedRuns d)) w | _ \<Rightarrow> go_on (Releasing i) w)"
| "run_cert E (GateRuns i expected) w =
     (case ListRunWorkflows E (si_ProjectID i) (si_AgentID i) (si_ExperimentID i) w of Inl e \<Rightarrow> go_on (Releasing i) w
      | Inr runs \<Rightarrow> (case gate expected runs of None \<Rightarrow> go_on (Releasing i) w | Some g \<Rightarrow> go_on (AggMark i g) w))"
| "run_cert E (AggMark i g) w = go_on (AggExperiment i g) (snd (UpdateExperimentStatus E i AggregationInProgress w))"
| "run_cert E (AggExperiment i g) w = (case GetExperiment E (si_ProjectID i) (si_ExperimentID i) w of
     Inl e \<Rightarrow> go_on (Releasing i) w | Inr None \<Rightarrow> answer_with Crashed w
   | Inr (Some d) \<Rightarrow> go_on (AggLatest i g (cx_ExpectedRuns d) (cx_ActiveVersion d)) w)"
| "run_cert E (AggLatest i g expected active) w = (case GetLatestAggregationWorkflow E i w of Inl e \<Rightarrow> go_on (Releasing i) w
   | Inr latest \<Rightarrow> go_on (if (case latest of None \<Rightarrow> False | Some d \<Rightarrow> in_progress d) then Releasing i
       else AggCreate i g expected (next_version active latest)) w)"
| "run_cert E (AggCreate i g expected version) w = (case InsertOne (ce_aggs E) (new_agg E i g version) (cw_aggs w) of
     (Some e, s) \<Rightarrow> go_on (Releasing i) (w\<lparr>cw_aggs := s\<rparr>) | (None, s) \<Rightarrow> go_on (AggStart i expected version) (w\<lparr>cw_aggs := s\<rparr>))"
| "run_cert E (AggStart i expected version) w = (case StartAggregation E (aggregation_request i expected version) of
     (None, resp) \<Rightarrow> or_release i (UpdateAggregationWorkflow E i version (agg_started (case resp of None \<Rightarrow> ([], []) | Some r \<Rightarrow> r)) w)
       (AggPoll i version 1)
   | (Some e, resp) \<Rightarrow> (case already_active e resp of
       Some r \<Rightarrow> or_release i (UpdateAggregationWorkflow E i version (agg_started r) w) (AggPoll i version 1)
     | None \<Rightarrow> go_on (AggStartFailed i) (snd (UpdateAggregationWorkflow E i version (\<lambda>d. d\<lparr>ca_Status := AggFailed,
         ca_Error := Some (failed_with E ''AGGREGATION_TRIGGER_FAILED'' (cert_error_text e))\<rparr>) w))))"
| "run_cert E (AggStartFailed i) w = go_on (Releasing i) (snd (UpdateExperimentStatus E i AggregationFailed w))"
| "run_cert E (AggPoll i version attempt) w =
     (if attempt > MaxPollAttempts \<or> ce_done E then go_on (Releasing i) w else poll_aggregation E i version attempt w)"
| "run_cert E (AggFinalize i version cid generated) w = go_on (Releasing i) (snd (FinalizeExperimentCertificate E i version
     \<lparr>lc_Status = CertificateReady, lc_CertificationID = cid, lc_PdfStatus = ''NOT_FETCHED'', lc_GeneratedAt = generated\<rparr> w))"
| "run_cert E (AggPollFailed i version err attempt) w = go_on (Releasing i) (snd (UpdateAggregationWorkflow E i version
     (\<lambda>d. (agg_settled E attempt AggFailed d)\<lparr>ca_Error := Some err\<rparr>) w))"
| "run_cert E (Releasing i) w = (None, None, w\<lparr>cw_active := removeAll (orchestrationKey i) (cw_active w)\<rparr>)"

section \<open>Requests\<close>

definition StartCertificationGeneration :: "StartInput \<Rightarrow> cert_error + cert_task" where
  "StartCertificationGeneration i = (case validateStartInput i of Some e \<Rightarrow> Inl e | None \<Rightarrow> Inr (Adopting i))"

record CertificationGenerationRequest =
  cg_AgentID :: string
  cg_AgentName :: string
  cg_ExperimentID :: string
  cg_ExperimentRunID :: string
  cg_ExpectedRuns :: "int option"

text \<open>The resolver asks for no role.\<close>

definition GenerateCertification :: "string \<Rightarrow> CertificationGenerationRequest \<Rightarrow> cert_error + cert_task" where
  "GenerateCertification p r = StartCertificationGeneration
     \<lparr>si_ProjectID = p, si_AgentID = cg_AgentID r, si_AgentName = cg_AgentName r, si_ExperimentID = cg_ExperimentID r,
      si_ExperimentRunID = cg_ExperimentRunID r,
      si_ExpectedRuns = (case cg_ExpectedRuns r of None \<Rightarrow> 1 | Some n \<Rightarrow> if n > 0 then n else 1),
      si_NotifyID = [], si_FaultWindows = []\<rparr>"

definition GetExperimentSummary ::
  "cert_env \<Rightarrow> string \<Rightarrow> string \<Rightarrow> cert_world \<Rightarrow> go_error + (CertificateExperiment \<times> bool) option" where
  "GetExperimentSummary E p x w = (case GetExperiment E p x w of Inl e \<Rightarrow> Inl e | Inr None \<Rightarrow> Inr None
     | Inr (Some d) \<Rightarrow> (case ListRunWorkflows E p (cx_AgentID d) x w of Inl e \<Rightarrow> Inl e
       | Inr runs \<Rightarrow>
          (let all = length runs; completed = length (filter (\<lambda>r. cr_Status r = RunCompleted) runs);
               failed = length (filter (\<lambda>r. cr_Status r = RunFailed) runs)
           in Inr (Some (d\<lparr>cx_RunCounts := \<lparr>rc_Total = all, rc_Running = all - completed - failed, rc_Completed = completed,
                rc_Failed = failed\<rparr>\<rparr>, cx_Status d = CertificateReady)))))"

section \<open>A pipeline ends\<close>

fun cert_rank :: "cert_task \<Rightarrow> nat" where
  "cert_rank (Adopting _) = 290" | "cert_rank (CheckingRun _) = 289" | "cert_rank (UpsertingExperiment _) = 288"
| "cert_rank (Readopting _) = 287" | "cert_rank (ResettingStatus _) = 286" | "cert_rank (ResettingRun _) = 285"
| "cert_rank (UpsertingRun _) = 284" | "cert_rank (Acquiring _) = 283" | "cert_rank (BucketCheck _) = 282"
| "cert_rank (BucketStart _) = 281" | "cert_rank (BucketPoll _ n) = 150 + (122 - n)" | "cert_rank (GateExperiment _) = 149"
| "cert_rank (GateRuns _ _) = 148" | "cert_rank (AggMark _ _) = 147" | "cert_rank (AggExperiment _ _) = 146"
| "cert_rank (AggLatest _ _ _ _) = 145" | "cert_rank (AggCreate _ _ _ _) = 144" | "cert_rank (AggStart _ _ _) = 143"
| "cert_rank (AggPoll _ _ n) = 10 + (122 - n)" | "cert_rank (AggStartFailed _) = 3" | "cert_rank (AggFinalize _ _ _ _) = 3"
| "cert_rank (AggPollFailed _ _ _ _) = 3" | "cert_rank (Releasing _) = 1"

lemmas cert_flow = go_on_def answer_with_def after_store_def or_release_def

lemma run_cert_rank: "run_cert E t w = (Some t', a, w') \<Longrightarrow> cert_rank t' < cert_rank t"
  by (cases t) (auto simp: cert_flow poll_bucketing_def poll_aggregation_def Let_def MaxPollAttempts_def
      split: prod.splits option.splits sum.splits if_splits)

text \<open>A request and its pipeline without interruption.\<close>

function certify :: "cert_env \<Rightarrow> cert_task \<Rightarrow> cert_world \<Rightarrow> cert_answer list \<times> cert_world" where
  "certify E t w = (case run_cert E t w of (None, a, w') \<Rightarrow> (case a of None \<Rightarrow> [] | Some a \<Rightarrow> [a], w')
     | (Some t', a, w') \<Rightarrow> (case certify E t' w' of (as, w'') \<Rightarrow> ((case a of None \<Rightarrow> as | Some a \<Rightarrow> a # as), w'')))"
  by pat_completeness auto
termination
  by (relation "measure (\<lambda>(E, t, w). cert_rank t)") (auto dest: run_cert_rank [OF sym])

declare certify.simps [simp del]

end
