(* ===== verification/Certification_Machine.thy ===== *)
theory Certification_Machine
  imports Certification
begin

text \<open>
  Certification requests and their pipelines, interleaved: any number of goroutines, each at one of the tasks of
  \<^verbatim>\<open>Certification\<close>, the environment of every task chosen anew, the process restarting at any moment. The theorems:
  an experiment certifies one agent, a certificate rests on enough completed runs, and an experiment has one
  pipeline per run and one aggregation at a time. What is not kept, an aggregation nobody polls any more blocks its
  experiment, is at the end.
\<close>

section \<open>Contracts\<close>

text \<open>An update with \<^verbatim>\<open>upsert\<close>: one matching document is changed, or, if there is none, the new document is added.\<close>

definition upserted :: "('d \<Rightarrow> bool) \<Rightarrow> ('d \<Rightarrow> 'd) \<Rightarrow> 'd \<Rightarrow> 'd list \<Rightarrow> 'd list \<Rightarrow> bool" where
  "upserted q f d s s' = (replaced_one q f s s' \<or> (\<forall>d' \<in> set s. \<not> q d') \<and> s' = s @ [d])"

definition upsert_ok :: "(('d \<Rightarrow> bool) \<Rightarrow> ('d \<Rightarrow> 'd) \<Rightarrow> 'd \<Rightarrow> 'd list \<Rightarrow> go_error option \<times> 'd list) \<Rightarrow> bool" where
  "upsert_ok u = (\<forall>q f d s r s'. u q f d s = (r, s') \<longrightarrow> upserted q f d s s' \<or> r \<noteq> None \<and> s' = s)"

definition list_upsert :: "('d \<Rightarrow> bool) \<Rightarrow> ('d \<Rightarrow> 'd) \<Rightarrow> 'd \<Rightarrow> 'd list \<Rightarrow> go_error option \<times> 'd list" where
  "list_upsert q f d s = (None, if list_ex q s then replace_first q f s else s @ [d])"

lemma list_upsert_ok: "upsert_ok list_upsert"
proof -
  have "upserted q f d s (snd (list_upsert q f d s))" for q f and d :: 'a and s
    by (cases "list_ex q s") (simp_all add: upserted_def list_upsert_def replace_first_some, simp add: list_ex_iff)
  then show ?thesis by (auto simp: upsert_ok_def list_upsert_def)
qed

definition cert_env_ok :: "cert_env \<Rightarrow> bool" where
  "cert_env_ok E = (coll_ok same_cert_exp (ce_exps E) \<and> coll_ok same_cert_run (ce_runs E) \<and> coll_ok same_cert_agg (ce_aggs E) \<and>
     upsert_ok (ce_upsert_exp E) \<and> upsert_ok (ce_upsert_run E))"

lemma cert_envD:
  assumes "cert_env_ok E"
  shows "coll_ok same_cert_exp (ce_exps E)" "coll_ok same_cert_run (ce_runs E)" "coll_ok same_cert_agg (ce_aggs E)"
    "upsert_ok (ce_upsert_exp E)" "upsert_ok (ce_upsert_run E)"
  using assms by (simp_all add: cert_env_ok_def)

section \<open>Goroutines\<close>

record cert_state =
  ct_world :: cert_world
  ct_tasks :: "nat \<Rightarrow> cert_task option"

text \<open>\<open>allowed\<close> restricts the requests that are made.\<close>

inductive cert_step :: "(StartInput \<Rightarrow> bool) \<Rightarrow> cert_state \<Rightarrow> cert_state \<Rightarrow> bool" for allowed where
  requested: "allowed i \<Longrightarrow> StartCertificationGeneration i = Inr t \<Longrightarrow> ct_tasks s n = None \<Longrightarrow>
     cert_step allowed s (s\<lparr>ct_tasks := (ct_tasks s)(n := Some t)\<rparr>)"
| ran: "cert_env_ok E \<Longrightarrow> ct_tasks s n = Some t \<Longrightarrow> run_cert E t (ct_world s) = (t', a, w') \<Longrightarrow>
     cert_step allowed s (s\<lparr>ct_world := w', ct_tasks := (ct_tasks s)(n := t')\<rparr>)"
| restarted: "cert_step allowed s \<lparr>ct_world = (ct_world s)\<lparr>cw_active := []\<rparr>, ct_tasks = (\<lambda>n. None)\<rparr>"

definition no_certificates :: cert_state where
  "no_certificates = \<lparr>ct_world = \<lparr>cw_exps = [], cw_runs = [], cw_aggs = [], cw_active = []\<rparr>, ct_tasks = (\<lambda>n. None)\<rparr>"

inductive cert_reach :: "(StartInput \<Rightarrow> bool) \<Rightarrow> cert_state \<Rightarrow> bool" for allowed where
  empty: "cert_reach allowed no_certificates"
| next_state: "cert_reach allowed s \<Longrightarrow> cert_step allowed s s' \<Longrightarrow> cert_reach allowed s'"

section \<open>Keys\<close>

definition exp_key :: "CertificateExperiment \<Rightarrow> string \<times> string \<times> string" where
  "exp_key d = (cx_ProjectID d, cx_AgentID d, cx_ExperimentID d)"

definition run_key :: "CertificateRunWorkflow \<Rightarrow> (string \<times> string \<times> string) \<times> string" where
  "run_key d = ((cr_ProjectID d, cr_AgentID d, cr_ExperimentID d), cr_RunID d)"

definition agg_key :: "CertificateAggregationWorkflow \<Rightarrow> (string \<times> string \<times> string) \<times> nat" where
  "agg_key d = ((ca_ProjectID d, ca_AgentID d, ca_ExperimentID d), ca_AggregationVersion d)"

definition input_key :: "StartInput \<Rightarrow> string \<times> string \<times> string" where
  "input_key i = (si_ProjectID i, si_AgentID i, si_ExperimentID i)"

definition exp_id :: "CertificateExperiment \<Rightarrow> string \<times> string" where
  "exp_id d = (cx_ProjectID d, cx_ExperimentID d)"

definition exp_keys :: "cert_world \<Rightarrow> (string \<times> string \<times> string) set" where
  "exp_keys w = exp_key ` set (cw_exps w)"

definition run_keys :: "cert_world \<Rightarrow> ((string \<times> string \<times> string) \<times> string) set" where
  "run_keys w = run_key ` set (cw_runs w)"

definition agg_keys :: "cert_world \<Rightarrow> ((string \<times> string \<times> string) \<times> nat) set" where
  "agg_keys w = agg_key ` set (cw_aggs w)"

lemma key_queries:
  "exp_of p x d = (exp_id d = (p, x))"
  "run_of p a x r d' = (run_key d' = ((p, a, x), r))"
  "workflow_query i d' = (run_key d' = (input_key i, si_ExperimentRunID i))"
  "agg_of p a x v d'' = (agg_key d'' = ((p, a, x), v))"
  by (auto simp: exp_of_def run_of_def workflow_query_def agg_of_def exp_id_def run_key_def agg_key_def input_key_def)

section \<open>What a task does to the collections\<close>

definition exp_view :: "CertificateExperiment \<Rightarrow> (string \<times> string \<times> string) \<times> int \<times> nat" where
  "exp_view d = (exp_key d, cx_ExpectedRuns d, cx_ActiveVersion d)"

lemma flow_world [simp]:
  "snd (snd (go_on t w)) = w" "snd (snd (answer_with a w)) = w" "snd (snd (after_store r t)) = snd r"
  "snd (snd (or_release i r t)) = snd r"
  by (simp_all add: cert_flow split: prod.splits option.splits)

lemma update_exp_parts [simp]:
  "cw_runs (snd (update_exp E q f w)) = cw_runs w" "cw_aggs (snd (update_exp E q f w)) = cw_aggs w"
  "cw_active (snd (update_exp E q f w)) = cw_active w"
  by (simp_all add: update_exp_def split: prod.splits)

lemma update_run_parts [simp]:
  "cw_exps (snd (update_run E q f w)) = cw_exps w" "cw_aggs (snd (update_run E q f w)) = cw_aggs w"
  "cw_active (snd (update_run E q f w)) = cw_active w"
  by (simp_all add: update_run_def split: prod.splits)

lemma update_agg_parts [simp]:
  "cw_exps (snd (UpdateAggregationWorkflow E i v f w)) = cw_exps w" "cw_runs (snd (UpdateAggregationWorkflow E i v f w)) = cw_runs w"
  "cw_active (snd (UpdateAggregationWorkflow E i v f w)) = cw_active w"
  by (simp_all add: UpdateAggregationWorkflow_def split: prod.splits)

lemma upsert_parts [simp]:
  "cw_runs (snd (UpsertExperiment E i w)) = cw_runs w" "cw_aggs (snd (UpsertExperiment E i w)) = cw_aggs w"
  "cw_active (snd (UpsertExperiment E i w)) = cw_active w"
  "cw_exps (snd (UpsertRunWorkflowInitial E i w)) = cw_exps w" "cw_aggs (snd (UpsertRunWorkflowInitial E i w)) = cw_aggs w"
  "cw_active (snd (UpsertRunWorkflowInitial E i w)) = cw_active w"
  by (simp_all add: UpsertExperiment_def UpsertRunWorkflowInitial_def split: prod.splits)

lemmas exp_updates = ResetStatusIfCertified_def UpdateExperimentStatus_def FinalizeExperimentCertificate_def
lemmas run_updates = ResetFailedRunWorkflow_def UpdateRunWorkflow_def
lemmas run_updated = run_settled_def run_polled_def bucketing_started_def
lemmas agg_updated = agg_settled_def agg_polled_def agg_started_def
lemmas polls = poll_bucketing_def poll_aggregation_def Let_def

lemma update_exp_map:
  assumes "cert_env_ok E" "\<And>d. k (f d) = k d" "\<And>d u. k (d\<lparr>cx_UpdatedAt := u\<rparr>) = k d"
  shows "map k (cw_exps (snd (update_exp E q f w))) = map k (cw_exps w)"
proof -
  obtain r s where u: "UpdateOne (ce_exps E) q (\<lambda>d. (f d)\<lparr>cx_UpdatedAt := ce_now E\<rparr>) (cw_exps w) = (r, s)" by fastforce
  have "k ((f d)\<lparr>cx_UpdatedAt := ce_now E\<rparr>) = k d" for d using assms(2, 3) by simp
  then have "map k s = map k (cw_exps w)"
    using UpdateOne_or [OF cert_envD(1) [OF assms(1)] u] replaced_one_map_key [of _ _ _ _ k] by blast
  then show ?thesis by (simp add: update_exp_def u)
qed

lemma exp_view_updates: "exp_view (d\<lparr>cx_Status := st\<rparr>) = exp_view d" "exp_view (d\<lparr>cx_UpdatedAt := u\<rparr>) = exp_view d"
  by (simp_all add: exp_view_def exp_key_def)

lemma update_run_view:
  assumes "cert_env_ok E" "\<And>d. run_key (f d) = run_key d"
  shows "map run_key (cw_runs (snd (update_run E q f w))) = map run_key (cw_runs w)"
proof -
  obtain r s where u: "UpdateOne (ce_runs E) q (\<lambda>d. (f d)\<lparr>cr_UpdatedAt := ce_now E\<rparr>) (cw_runs w) = (r, s)" by fastforce
  have "run_key ((f d)\<lparr>cr_UpdatedAt := ce_now E\<rparr>) = run_key d" for d using assms(2) [of d] by (simp add: run_key_def)
  then have "map run_key s = map run_key (cw_runs w)"
    using UpdateOne_or [OF cert_envD(2) [OF assms(1)] u] replaced_one_map_key [of _ _ _ _ run_key] by blast
  then show ?thesis by (simp add: update_run_def u)
qed

definition agg_view :: "CertificateAggregationWorkflow \<Rightarrow> ((string \<times> string \<times> string) \<times> nat) \<times> string list \<times> nat" where
  "agg_view d = (agg_key d, ca_RunIDs d, ca_SuccessfulRuns d)"

text \<open>An aggregation is only written by the pipeline that started it.\<close>

definition agg_written :: "StartInput \<Rightarrow> nat \<Rightarrow> bool \<Rightarrow> CertificateAggregationWorkflow list \<Rightarrow> CertificateAggregationWorkflow list \<Rightarrow> bool" where
  "agg_written i v polling s s' = (s' = s \<or> (\<exists>f. replaced_one (\<lambda>d. agg_key d = (input_key i, v)) f s s' \<and>
     (\<forall>d. agg_view (f d) = agg_view d) \<and> (polling \<longrightarrow> (\<forall>d. in_progress d \<longrightarrow> in_progress (f d)))))"

lemma update_agg_view:
  assumes "cert_env_ok E" "\<And>d. agg_view (f d) = agg_view d" "polling \<Longrightarrow> (\<And>d. in_progress d \<Longrightarrow> in_progress (f d))"
  shows "agg_written i v polling (cw_aggs w) (cw_aggs (snd (UpdateAggregationWorkflow E i v f w)))"
proof -
  let ?q = "agg_of (si_ProjectID i) (si_AgentID i) (si_ExperimentID i) v"
  let ?f = "\<lambda>d. (f d)\<lparr>ca_UpdatedAt := ce_now E, ca_Version := ca_Version d + 1\<rparr>"
  obtain r s where u: "UpdateOne (ce_aggs E) ?q ?f (cw_aggs w) = (r, s)" by fastforce
  have q: "?q = (\<lambda>d. agg_key d = (input_key i, v))" by (simp add: fun_eq_iff key_queries input_key_def)
  have "agg_view (?f d) = agg_view d" for d using assms(2) [of d] by (simp add: agg_view_def agg_key_def)
  moreover have "in_progress d \<Longrightarrow> in_progress (?f d)" if polling for d using assms(3) [OF that, of d] by (simp add: in_progress_def)
  moreover have "s = cw_aggs w \<or> replaced_one (\<lambda>d. agg_key d = (input_key i, v)) ?f (cw_aggs w) s"
    using UpdateOne_or [OF cert_envD(3) [OF assms(1)] u] q by simp
  moreover have "cw_aggs (snd (UpdateAggregationWorkflow E i v f w)) = s" using u by (simp add: UpdateAggregationWorkflow_def)
  ultimately show ?thesis unfolding agg_written_def by blast
qed

lemma run_cert_exps:
  assumes "cert_env_ok E"
  shows "map exp_view (cw_exps (snd (snd (run_cert E t w)))) = map exp_view (cw_exps w) \<or>
    (\<exists>i. t = UpsertingExperiment i) \<or> (\<exists>i v cid g. t = AggFinalize i v cid g)"
  by (cases t) (auto simp: polls exp_updates run_updates exp_view_updates
      intro!: update_exp_map [OF assms] split: prod.splits option.splits sum.splits if_splits)

lemma run_cert_runs:
  assumes "cert_env_ok E"
  shows "map run_key (cw_runs (snd (snd (run_cert E t w)))) = map run_key (cw_runs w) \<or> (\<exists>i. t = UpsertingRun i)"
  by (cases t) (auto simp: polls exp_updates run_updates run_updated run_key_def
      intro!: update_run_view [OF assms] split: prod.splits option.splits sum.splits if_splits)

lemma upserted_cases:
  assumes "upsert_ok u" "u q f d s = (r, s')"
  obtains "r \<noteq> None" "s' = s" | "replaced_one q f s s'" | "\<And>d'. d' \<in> set s \<Longrightarrow> \<not> q d'" "s' = s @ [d]"
  using assms unfolding upsert_ok_def upserted_def by blast

text \<open>The aggregations after a task: created by \<open>AggCreate\<close>, written by the three tasks that have one.\<close>

fun agg_writer :: "cert_task \<Rightarrow> (StartInput \<times> nat) option" where
  "agg_writer (AggStart i e v) = Some (i, v)"
| "agg_writer (AggPoll i v n) = Some (i, v)"
| "agg_writer (AggPollFailed i v err n) = Some (i, v)"
| "agg_writer t = None"

fun aggregating :: "cert_task \<Rightarrow> ((string \<times> string \<times> string) \<times> nat) option" where
  "aggregating (AggStart i e v) = Some (input_key i, v)"
| "aggregating (AggPoll i v n) = Some (input_key i, v)"
| "aggregating t = None"

definition polls_on :: "cert_task option \<Rightarrow> bool" where
  "polls_on t = (\<exists>t'. t = Some t' \<and> aggregating t' \<noteq> None)"

lemma polls_on_simps [simp]: "polls_on None = False" "polls_on (Some t) = (aggregating t \<noteq> None)"
  by (auto simp: polls_on_def)

lemma flow_next [simp]:
  "fst (go_on t w) = Some t" "fst (answer_with a w) = None"
  "fst (after_store r t) = (if fst r = None then Some t else None)"
  "fst (or_release i r t) = Some (if fst r = None then t else Releasing i)"
  by (simp_all add: cert_flow split: prod.splits option.splits)

lemma agg_view_updates:
  "agg_view (agg_started r d) = agg_view d" "agg_view (agg_polled E n d) = agg_view d" "agg_view (agg_settled E n st d) = agg_view d"
  "agg_view (d\<lparr>ca_Status := st\<rparr>) = agg_view d" "agg_view (d\<lparr>ca_Error := err\<rparr>) = agg_view d"
  "agg_view (d\<lparr>ca_Certificate := c\<rparr>) = agg_view d"
  by (simp_all add: agg_view_def agg_key_def agg_updated)

lemma in_progress_updates: "in_progress (agg_started r d)" "in_progress (agg_polled E n d) = in_progress d"
  by (simp_all add: in_progress_def agg_updated)

lemma run_cert_aggs:
  assumes "cert_env_ok E"
  shows "cw_aggs (snd (snd (run_cert E t w))) = cw_aggs w \<or> (\<exists>i g e v. t = AggCreate i g e v) \<or>
    (\<exists>i v. agg_writer t = Some (i, v) \<and>
       agg_written i v (polls_on (fst (run_cert E t w))) (cw_aggs w) (cw_aggs (snd (snd (run_cert E t w)))))"
proof (cases t)
  case (AggStart i e v)
  show ?thesis
    by (simp add: AggStart split: prod.split option.split)
      (auto intro!: update_agg_view [OF assms] simp: agg_view_updates in_progress_updates split: prod.split option.split)
next
  case (AggPoll i v n)
  show ?thesis
    by (simp add: AggPoll polls exp_updates split: prod.split option.split)
      (auto intro!: update_agg_view [OF assms] simp: agg_view_updates in_progress_updates exp_updates split: prod.split option.split)
next
  case (AggPollFailed i v err n)
  show ?thesis by (simp add: AggPollFailed) (auto intro!: update_agg_view [OF assms] simp: agg_view_updates)
qed (auto simp: polls exp_updates run_updates split: prod.splits option.splits sum.splits if_splits)

section \<open>One agent, enough runs\<close>

definition snapshot_ok :: "int \<Rightarrow> cert_world \<Rightarrow> string \<times> string \<times> string \<Rightarrow> string list \<Rightarrow> nat \<Rightarrow> bool" where
  "snapshot_ok m w k ids n = (k \<in> exp_keys w \<and> n = length ids \<and> m \<le> int n \<and> distinct ids \<and> (\<forall>r \<in> set ids. (k, r) \<in> run_keys w))"

definition exp_fine :: "int \<Rightarrow> cert_world \<Rightarrow> CertificateExperiment \<Rightarrow> bool" where
  "exp_fine m w d = (cx_AgentID d \<noteq> [] \<and> m \<le> cx_ExpectedRuns d \<and>
     (cx_ActiveVersion d = 0 \<or> (exp_key d, cx_ActiveVersion d) \<in> agg_keys w))"

definition world_ok :: "int \<Rightarrow> cert_world \<Rightarrow> bool" where
  "world_ok m w = (distinct (map exp_id (cw_exps w)) \<and> (\<forall>d \<in> set (cw_exps w). exp_fine m w d) \<and>
     distinct (map run_key (cw_runs w)) \<and> (\<forall>d \<in> set (cw_runs w). fst (run_key d) \<in> exp_keys w) \<and>
     (\<forall>d \<in> set (cw_aggs w). snapshot_ok m w (fst (agg_key d)) (ca_RunIDs d) (ca_SuccessfulRuns d)))"

definition parent_ok :: "cert_world \<Rightarrow> StartInput \<Rightarrow> bool" where
  "parent_ok w i = (input_key i \<in> exp_keys w)"

fun task_ok :: "int \<Rightarrow> cert_world \<Rightarrow> cert_task \<Rightarrow> bool" where
  "task_ok m w (Adopting i) = (si_AgentID i \<noteq> [] \<and> m \<le> si_ExpectedRuns i)"
| "task_ok m w (CheckingRun i) = (si_AgentID i \<noteq> [] \<and> m \<le> si_ExpectedRuns i)"
| "task_ok m w (UpsertingExperiment i) = (si_AgentID i \<noteq> [] \<and> m \<le> si_ExpectedRuns i)"
| "task_ok m w (Readopting i) = (\<exists>a. (si_ProjectID i, a, si_ExperimentID i) \<in> exp_keys w)"
| "task_ok m w (ResettingStatus i) = parent_ok w i"
| "task_ok m w (ResettingRun i) = parent_ok w i"
| "task_ok m w (UpsertingRun i) = parent_ok w i"
| "task_ok m w (Acquiring i) = parent_ok w i"
| "task_ok m w (BucketCheck i) = parent_ok w i"
| "task_ok m w (BucketStart i) = parent_ok w i"
| "task_ok m w (BucketPoll i n) = parent_ok w i"
| "task_ok m w (GateExperiment i) = parent_ok w i"
| "task_ok m w (GateRuns i e) = (parent_ok w i \<and> m \<le> e)"
| "task_ok m w (AggMark i g) = snapshot_ok m w (input_key i) (fst g) (fst (snd g))"
| "task_ok m w (AggExperiment i g) = snapshot_ok m w (input_key i) (fst g) (fst (snd g))"
| "task_ok m w (AggLatest i g e v) = snapshot_ok m w (input_key i) (fst g) (fst (snd g))"
| "task_ok m w (AggCreate i g e v) = snapshot_ok m w (input_key i) (fst g) (fst (snd g))"
| "task_ok m w (AggStart i e v) = (parent_ok w i \<and> (input_key i, v) \<in> agg_keys w)"
| "task_ok m w (AggPoll i v n) = (parent_ok w i \<and> (input_key i, v) \<in> agg_keys w)"
| "task_ok m w (AggFinalize i v c g) = (parent_ok w i \<and> (input_key i, v) \<in> agg_keys w)"
| "task_ok m w (AggPollFailed i v err n) = True"
| "task_ok m w (AggStartFailed i) = True"
| "task_ok m w (Releasing i) = True"

definition grows :: "cert_world \<Rightarrow> cert_world \<Rightarrow> bool" where
  "grows w w' = (exp_keys w \<subseteq> exp_keys w' \<and> run_keys w \<subseteq> run_keys w' \<and> agg_keys w \<subseteq> agg_keys w')"

lemma snapshot_mono: "grows w w' \<Longrightarrow> snapshot_ok m w k ids n \<Longrightarrow> snapshot_ok m w' k ids n"
  by (auto simp: snapshot_ok_def grows_def)

lemma parent_mono: "grows w w' \<Longrightarrow> parent_ok w i \<Longrightarrow> parent_ok w' i"
  by (auto simp: parent_ok_def grows_def)

lemma task_mono: "grows w w' \<Longrightarrow> task_ok m w t \<Longrightarrow> task_ok m w' t"
  by (cases t) (auto simp: snapshot_mono parent_mono grows_def)

text \<open>The gate opens when no run is unsettled and enough have completed; it hands on those that have.\<close>

definition settled :: "CertificateRunWorkflow \<Rightarrow> bool" where
  "settled r = (cr_Status r = RunCompleted \<or> cr_Status r = RunFailed)"

definition completed_runs :: "CertificateRunWorkflow list \<Rightarrow> CertificateRunWorkflow list" where
  "completed_runs runs = filter (\<lambda>r. cr_Status r = RunCompleted) runs"

lemma count_runs_exact:
  "count_runs runs = (if \<forall>r \<in> set runs. settled r
     then Some (map cr_RunID (completed_runs runs), length (completed_runs runs), length (filter (\<lambda>r. cr_Status r = RunFailed) runs))
     else None)"
proof (induction runs)
  case (Cons r rs)
  then show ?case by (cases "cr_Status r") (auto simp: settled_def completed_runs_def)
qed (simp add: completed_runs_def)

lemma gate_exact:
  "gate expected runs = Some (ids, n, bad) \<longleftrightarrow> (\<forall>r \<in> set runs. settled r) \<and> ids = map cr_RunID (completed_runs runs) \<and>
     n = length ids \<and> bad = length (filter (\<lambda>r. cr_Status r = RunFailed) runs) \<and> (expected \<le> int n \<or> expected \<le> 0)"
  by (auto simp: gate_def count_runs_exact)

text \<open>What the three tasks that change the set of documents, or a certificate, do.\<close>

lemma upserting_experiment:
  assumes "cert_env_ok E" "run_cert E (UpsertingExperiment i) w = (t', a, w')"
  obtains "w' = w" "t' = None"
  | f where "replaced_one (\<lambda>d. exp_id d = (si_ProjectID i, si_ExperimentID i)) f (cw_exps w) (cw_exps w')"
      "\<And>d. exp_key (f d) = exp_key d" "\<And>d. cx_ActiveVersion (f d) = cx_ActiveVersion d" "\<And>d. cx_ExpectedRuns d \<le> cx_ExpectedRuns (f d)"
      "cw_runs w' = cw_runs w" "cw_aggs w' = cw_aggs w"
  | "\<And>d. d \<in> set (cw_exps w) \<Longrightarrow> exp_id d \<noteq> (si_ProjectID i, si_ExperimentID i)" "cw_exps w' = cw_exps w @ [new_experiment E i]"
      "cw_runs w' = cw_runs w" "cw_aggs w' = cw_aggs w"
proof -
  let ?f = "\<lambda>d. d\<lparr>cx_ExpectedRuns := max (cx_ExpectedRuns d) (si_ExpectedRuns i), cx_UpdatedAt := ce_now E\<rparr>"
  obtain r s where u: "ce_upsert_exp E (exp_of (si_ProjectID i) (si_ExperimentID i)) ?f (new_experiment E i) (cw_exps w) = (r, s)"
    by fastforce
  have w': "w' = w\<lparr>cw_exps := s\<rparr>" "t' = (if r = None then Some (Readopting i) else None)"
    using assms(2) u by (auto simp: UpsertExperiment_def cert_flow split: option.splits)
  have q: "exp_of (si_ProjectID i) (si_ExperimentID i) = (\<lambda>d. exp_id d = (si_ProjectID i, si_ExperimentID i))"
    by (simp add: fun_eq_iff key_queries)
  show ?thesis
  proof (cases rule: upserted_cases [of "ce_upsert_exp E", OF cert_envD(4) [OF assms(1)] u])
    case 1
    show ?thesis by (rule that(1)) (use 1 w' in simp_all)
  next
    case 2
    show ?thesis by (rule that(2) [of ?f]) (use 2 w' q in \<open>simp_all add: exp_key_def\<close>)
  next
    case 3
    show ?thesis by (rule that(3)) (use 3 w' q in simp_all)
  qed
qed

lemma upserting_run:
  assumes "cert_env_ok E" "run_cert E (UpsertingRun i) w = (t', a, w')"
  obtains "map run_key (cw_runs w') = map run_key (cw_runs w)" "cw_exps w' = cw_exps w" "cw_aggs w' = cw_aggs w"
  | "(input_key i, si_ExperimentRunID i) \<notin> run_keys w" "cw_runs w' = cw_runs w @ [new_run E i]"
      "cw_exps w' = cw_exps w" "cw_aggs w' = cw_aggs w"
proof -
  let ?f = "\<lambda>d. d\<lparr>cr_UpdatedAt := ce_now E\<rparr>"
  obtain r s where u: "ce_upsert_run E (workflow_query i) ?f (new_run E i) (cw_runs w) = (r, s)" by fastforce
  have w': "w' = w\<lparr>cw_runs := s\<rparr>" using assms(2) u by (auto simp: UpsertRunWorkflowInitial_def cert_flow split: option.splits)
  have f: "run_key (?f d) = run_key d" for d by (simp add: run_key_def)
  show ?thesis
  proof (cases rule: upserted_cases [of "ce_upsert_run E", OF cert_envD(5) [OF assms(1)] u])
    case 1
    show ?thesis by (rule that(1)) (use 1 w' in simp_all)
  next
    case 2
    have "map run_key s = map run_key (cw_runs w)" by (rule replaced_one_map_key [OF 2]) (rule f)
    then show ?thesis by (intro that(1)) (use w' in simp_all)
  next
    case 3
    have "(input_key i, si_ExperimentRunID i) \<notin> run_keys w" using 3(1) unfolding run_keys_def key_queries image_iff by metis
    then show ?thesis by (rule that(2)) (use 3 w' in simp_all)
  qed
qed

lemma creating_aggregation:
  assumes "cert_env_ok E" "run_cert E (AggCreate i g e v) w = (t', a, w')"
  obtains "cw_aggs w' = cw_aggs w" "cw_exps w' = cw_exps w" "cw_runs w' = cw_runs w" "t' = Some (Releasing i)"
  | "(input_key i, v) \<notin> agg_keys w" "cw_aggs w' = cw_aggs w @ [new_agg E i g v]" "cw_exps w' = cw_exps w" "cw_runs w' = cw_runs w"
      "t' = Some (Releasing i) \<or> t' = Some (AggStart i e v)"
proof -
  obtain r s where u: "InsertOne (ce_aggs E) (new_agg E i g v) (cw_aggs w) = (r, s)" by fastforce
  have w': "w' = w\<lparr>cw_aggs := s\<rparr>" "t' = Some (if r = None then AggStart i e v else Releasing i)"
    using assms(2) u by (auto simp: go_on_def split: option.splits)
  have ins: "s = cw_aggs w \<or> s = cw_aggs w @ [new_agg E i g v] \<and> (\<forall>d \<in> set (cw_aggs w). \<not> same_cert_agg (new_agg E i g v) d)"
    "r = None \<longrightarrow> s = cw_aggs w @ [new_agg E i g v]"
    using cert_envD(3) [OF assms(1)] u unfolding coll_ok_def insert_ok_def by blast+
  show ?thesis
  proof (cases "s = cw_aggs w")
    case True
    then have "r \<noteq> None" using ins(2) by auto
    show ?thesis by (rule that(1)) (use \<open>r \<noteq> None\<close> True w' in simp_all)
  next
    case False
    then have s: "s = cw_aggs w @ [new_agg E i g v]" and new: "\<forall>d \<in> set (cw_aggs w). \<not> same_cert_agg (new_agg E i g v) d" using ins by auto
    have "(input_key i, v) \<notin> agg_keys w"
      using new by (force simp: agg_keys_def same_cert_agg_def key_queries new_agg_def input_key_def split: prod.splits)
    then show ?thesis by (rule that(2)) (use s w' in simp_all)
  qed
qed

lemma finalizing:
  assumes "cert_env_ok E" "run_cert E (AggFinalize i v c g) w = (t', a, w')"
  obtains "w' = w" "t' = Some (Releasing i)"
  | f where "replaced_one (\<lambda>d. exp_id d = (si_ProjectID i, si_ExperimentID i)) f (cw_exps w) (cw_exps w')"
      "\<And>d. exp_key (f d) = exp_key d" "\<And>d. cx_ActiveVersion (f d) = v" "\<And>d. cx_ExpectedRuns (f d) = cx_ExpectedRuns d"
      "cw_runs w' = cw_runs w" "cw_aggs w' = cw_aggs w" "t' = Some (Releasing i)"
proof -
  let ?c = "\<lparr>lc_Status = CertificateReady, lc_CertificationID = c, lc_PdfStatus = ''NOT_FETCHED'', lc_GeneratedAt = g\<rparr>"
  let ?f = "\<lambda>d. d\<lparr>cx_Status := CertificateReady, cx_ActiveVersion := v, cx_Latest := Some ?c, cx_UpdatedAt := ce_now E\<rparr>"
  obtain r s where u: "UpdateOne (ce_exps E) (exp_of (si_ProjectID i) (si_ExperimentID i)) ?f (cw_exps w) = (r, s)" by fastforce
  have w': "w' = w\<lparr>cw_exps := s\<rparr>" "t' = Some (Releasing i)"
    using assms(2) u by (auto simp: FinalizeExperimentCertificate_def update_exp_def go_on_def)
  have q: "exp_of (si_ProjectID i) (si_ExperimentID i) = (\<lambda>d. exp_id d = (si_ProjectID i, si_ExperimentID i))"
    by (simp add: fun_eq_iff key_queries)
  show ?thesis using UpdateOne_or [OF cert_envD(1) [OF assms(1)] u]
  proof
    assume "s = cw_exps w"
    then show ?thesis by (intro that(1)) (use w' in simp_all)
  next
    assume rep: "replaced_one (exp_of (si_ProjectID i) (si_ExperimentID i)) ?f (cw_exps w) s"
    show ?thesis by (rule that(2) [of ?f]) (use rep w' q in \<open>simp_all add: exp_key_def\<close>)
  qed
qed

lemma map_through:
  assumes "map v xs = map v ys" "\<And>d. k d = h (v d)"
  shows "map k xs = map k ys"
proof -
  have k: "map k zs = map h (map v zs)" for zs by (simp add: assms(2))
  show ?thesis unfolding k by (rule arg_cong [OF assms(1)])
qed

lemma set_map_eq: "map k xs = map k ys \<Longrightarrow> k ` set xs = k ` set ys"
  by (metis set_map)

lemma exp_view_key: "map exp_view xs = map exp_view ys \<Longrightarrow> map exp_key xs = map exp_key ys"
  by (rule map_through [of exp_view _ _ _ fst]) (simp_all add: exp_view_def)

lemma exp_key_id: "map exp_key xs = map exp_key ys \<Longrightarrow> map exp_id xs = map exp_id ys"
  by (rule map_through [of exp_key _ _ _ "\<lambda>(p, a, x). (p, x)"]) (simp_all add: exp_key_def exp_id_def)

lemma agg_view_key: "map agg_view xs = map agg_view ys \<Longrightarrow> map agg_key xs = map agg_key ys"
  by (rule map_through [of agg_view _ _ _ fst]) (simp_all add: agg_view_def)

lemma agg_written_view:
  assumes "agg_written i v b s s'"
  shows "map agg_view s' = map agg_view s"
proof -
  have "map agg_view s' = map agg_view s" if "replaced_one q f s s'" "\<forall>d. agg_view (f d) = agg_view d" for q f
    by (rule replaced_one_map_key [OF that(1)]) (simp add: that(2))
  then show ?thesis using assms unfolding agg_written_def by blast
qed

lemma replaced_keys: "replaced_one q f s s' \<Longrightarrow> (\<And>d. k (f d) = k d) \<Longrightarrow> k ` set s' = k ` set s"
  by (rule set_map_eq, rule replaced_one_map_key)

lemma agg_views_kept:
  assumes "cert_env_ok E" "run_cert E t w = (t', a, w')" "\<nexists>i g e v. t = AggCreate i g e v"
  shows "map agg_view (cw_aggs w') = map agg_view (cw_aggs w)"
proof -
  have w': "w' = snd (snd (run_cert E t w))" using assms(2) by simp
  show ?thesis using run_cert_aggs [OF assms(1), of t w]
  proof (elim disjE exE conjE)
    fix i v
    assume "agg_written i v (polls_on (fst (run_cert E t w))) (cw_aggs w) (cw_aggs (snd (snd (run_cert E t w))))"
    then show ?thesis unfolding w' by (rule agg_written_view)
  next
    assume "cw_aggs (snd (snd (run_cert E t w))) = cw_aggs w"
    then show ?thesis by (simp add: w')
  qed (use assms(3) in blast)
qed

text \<open>Documents are never removed and keep their keys.\<close>

lemma run_cert_grows:
  assumes E: "cert_env_ok E" and run: "run_cert E t w = (t', a, w')"
  shows "grows w w'"
proof -
  have w': "w' = snd (snd (run_cert E t w))" using run by simp
  have exps: "exp_keys w \<subseteq> exp_keys w'"
  proof (cases "(\<exists>i. t = UpsertingExperiment i) \<or> (\<exists>i v cid g. t = AggFinalize i v cid g)")
    case False
    then have "map exp_view (cw_exps w') = map exp_view (cw_exps w)" using run_cert_exps [OF E, of t w] w' by blast
    then have "exp_key ` set (cw_exps w') = exp_key ` set (cw_exps w)" by (rule set_map_eq [OF exp_view_key])
    then show ?thesis by (simp add: exp_keys_def)
  next
    case True
    then show ?thesis
    proof (elim disjE exE)
      fix i assume "t = UpsertingExperiment i"
      then have run: "run_cert E (UpsertingExperiment i) w = (t', a, w')" using run by simp
      show ?thesis
      proof (cases rule: upserting_experiment [OF E run])
        case (2 f)
        show ?thesis using replaced_keys [OF 2(1), of exp_key, OF 2(2)] by (simp add: exp_keys_def)
      qed (auto simp: exp_keys_def)
    next
      fix i v c g assume "t = AggFinalize i v c g"
      then have run: "run_cert E (AggFinalize i v c g) w = (t', a, w')" using run by simp
      show ?thesis
      proof (cases rule: finalizing [OF E run])
        case (2 f)
        show ?thesis using replaced_keys [OF 2(1), of exp_key, OF 2(2)] by (simp add: exp_keys_def)
      qed simp
    qed
  qed
  have runs: "run_keys w \<subseteq> run_keys w'"
  proof (cases "\<exists>i. t = UpsertingRun i")
    case False
    then have "map run_key (cw_runs w') = map run_key (cw_runs w)" using run_cert_runs [OF E, of t w] w' by blast
    then have "run_key ` set (cw_runs w') = run_key ` set (cw_runs w)" by (rule set_map_eq)
    then show ?thesis by (simp add: run_keys_def)
  next
    case True
    then obtain i where "run_cert E (UpsertingRun i) w = (t', a, w')" using run by blast
    then show ?thesis by (rule upserting_run [OF E]) (auto simp: run_keys_def dest!: set_map_eq)
  qed
  have aggs: "agg_keys w \<subseteq> agg_keys w'"
  proof (cases "\<exists>i g e v. t = AggCreate i g e v")
    case False
    then have "map agg_view (cw_aggs w') = map agg_view (cw_aggs w)" by (rule agg_views_kept [OF E run])
    then have "agg_key ` set (cw_aggs w') = agg_key ` set (cw_aggs w)" by (rule set_map_eq [OF agg_view_key])
    then show ?thesis by (simp add: agg_keys_def)
  next
    case True
    then obtain i g e v where "run_cert E (AggCreate i g e v) w = (t', a, w')" using run by blast
    then show ?thesis by (rule creating_aggregation [OF E]) (auto simp: agg_keys_def)
  qed
  show ?thesis using exps runs aggs by (simp add: grows_def)
qed

lemma get_experiment:
  assumes "cert_env_ok E"
  shows "GetExperiment E p x w = Inr None \<Longrightarrow> d \<in> set (cw_exps w) \<Longrightarrow> exp_id d \<noteq> (p, x)"
    and "GetExperiment E p x w = Inr (Some d) \<Longrightarrow> d \<in> set (cw_exps w) \<and> exp_id d = (p, x)"
proof -
  have q: "exp_of p x d = (exp_id d = (p, x))" by (rule key_queries)
  show "GetExperiment E p x w = Inr None \<Longrightarrow> d \<in> set (cw_exps w) \<Longrightarrow> exp_id d \<noteq> (p, x)"
    using FindOne_none [OF cert_envD(1) [OF assms], of "exp_of p x" "cw_exps w" d] q
    by (auto simp: GetExperiment_def optional_doc_def split: sum.splits go_error.splits)
  show "GetExperiment E p x w = Inr (Some d) \<Longrightarrow> d \<in> set (cw_exps w) \<and> exp_id d = (p, x)"
    using FindOne_ok [OF cert_envD(1) [OF assms], of "exp_of p x" "cw_exps w" d] q
    by (auto simp: GetExperiment_def optional_doc_def split: sum.splits go_error.splits)
qed

lemma exp_key_id_simp: "exp_id d = (p, x) \<Longrightarrow> exp_key d = (p, cx_AgentID d, x)"
  by (simp add: exp_id_def exp_key_def)

lemma parent_unique:
  assumes "world_ok m w" "d \<in> set (cw_exps w)" "exp_id d = (p, x)" "(p, a, x) \<in> exp_keys w"
  shows "cx_AgentID d = a"
proof -
  obtain e where e: "e \<in> set (cw_exps w)" "exp_key e = (p, a, x)" using assms(4) by (auto simp: exp_keys_def)
  then have "exp_id e = exp_id d" using assms(3) by (simp add: exp_key_def exp_id_def)
  then have "e = d" using assms(1, 2) e(1) by (simp add: world_ok_def distinct_map inj_on_def)
  then show ?thesis using e(2) by (simp add: exp_key_def)
qed

lemma adopt_parent:
  assumes "d \<in> set (cw_exps w)" "exp_id d = (si_ProjectID i, si_ExperimentID i)" "world_ok m w"
  shows "parent_ok w (adopt (Some d) i)"
proof -
  have "cx_AgentID d \<noteq> []" using assms by (simp add: world_ok_def exp_fine_def)
  then have "input_key (adopt (Some d) i) = exp_key d" using assms(2) by (simp add: adopt_def input_key_def exp_key_id_simp)
  then show ?thesis using assms(1) by (simp add: parent_ok_def exp_keys_def)
qed

lemma adopt_keeps [simp]:
  "si_ExpectedRuns (adopt p i) = si_ExpectedRuns i" "si_AgentID i \<noteq> [] \<Longrightarrow> si_AgentID (adopt p i) \<noteq> []"
  by (auto simp: adopt_def split: option.splits)

text \<open>The gate's verdict is a snapshot of the experiment's completed runs.\<close>

lemma gate_snapshot:
  assumes "cert_env_ok E" "world_ok m w" "m \<le> expected" "parent_ok w i"
    "ListRunWorkflows E (si_ProjectID i) (si_AgentID i) (si_ExperimentID i) w = Inr runs" "gate expected runs = Some g"
  shows "snapshot_ok m w (input_key i) (fst g) (fst (snd g))"
proof -
  obtain ids n bad where g: "g = (ids, n, bad)" by (cases g)
  have q: "(\<lambda>d. cr_ProjectID d = si_ProjectID i \<and> cr_AgentID d = si_AgentID i \<and> cr_ExperimentID d = si_ExperimentID i) =
    (\<lambda>d. fst (run_key d) = input_key i)" by (simp add: fun_eq_iff run_key_def input_key_def)
  have ms: "mset runs = mset (filter (\<lambda>d. fst (run_key d) = input_key i) (cw_runs w))"
    using Find_ok [OF cert_envD(2) [OF assms(1)] assms(5) [unfolded ListRunWorkflows_def]] unfolding q .
  have runs: "set runs = {d \<in> set (cw_runs w). fst (run_key d) = input_key i}" using mset_eq_setD [OF ms] by simp
  have "mset (map run_key runs) = mset (map run_key (filter (\<lambda>d. fst (run_key d) = input_key i) (cw_runs w)))"
    using ms by (simp del: mset_filter)
  moreover have "distinct (map run_key (filter (\<lambda>d. fst (run_key d) = input_key i) (cw_runs w)))"
    using assms(2) by (simp add: world_ok_def distinct_map_filter)
  ultimately have dist: "distinct (map run_key runs)" using mset_eq_imp_distinct_iff by blast
  have gate: "ids = map cr_RunID (completed_runs runs)" "n = length ids" "expected \<le> int n \<or> expected \<le> 0"
    using assms(6) unfolding g gate_exact by blast+
  have sub: "set (completed_runs runs) \<subseteq> set runs" by (auto simp: completed_runs_def)
  have key: "run_key d = (input_key i, cr_RunID d)" if "d \<in> set runs" for d using that runs by (auto simp: run_key_def)
  have "inj_on cr_RunID (set runs)" using dist key by (auto simp: distinct_map inj_on_def)
  then have "distinct ids" using dist sub
    by (simp add: gate(1) distinct_map completed_runs_def inj_on_def)
  moreover have "(input_key i, r) \<in> run_keys w" if mem: "r \<in> set ids" for r
  proof -
    obtain d where "d \<in> set runs" "r = cr_RunID d" using mem sub by (auto simp: gate(1))
    then have d: "d \<in> set (cw_runs w)" "run_key d = (input_key i, r)" using runs key by blast+
    show ?thesis unfolding run_keys_def by (rule image_eqI [of _ _ d]) (simp_all add: d)
  qed
  moreover have "m \<le> int n" using gate(3) assms(3) by linarith
  ultimately show ?thesis using gate(2) assms(4) by (simp add: snapshot_ok_def g parent_ok_def)
qed

lemma snapshot_parent: "snapshot_ok m w (input_key i) ids n \<Longrightarrow> parent_ok w i"
  by (simp add: snapshot_ok_def parent_ok_def)

lemma run_cert_task:
  assumes E: "cert_env_ok E" and w: "world_ok m w" and t: "task_ok m w t" and run: "run_cert E t w = (Some t', a, w')"
  shows "task_ok m w' t'"
proof -
  have grows: "grows w w'" by (rule run_cert_grows [OF E run])
  have later: "task_ok m w t' \<Longrightarrow> task_ok m w' t'" by (rule task_mono [OF grows])
  show ?thesis
  proof (cases t)
    case (Adopting i)
    then show ?thesis using t run by (intro later) (auto simp: cert_flow split: sum.splits)
  next
    case (UpsertingExperiment i)
    then have r: "run_cert E (UpsertingExperiment i) w = (Some t', a, w')" using run by simp
    have t': "t' = Readopting i" using r by (auto simp: cert_flow split: prod.splits option.splits)
    show ?thesis
    proof (cases rule: upserting_experiment [OF E r])
      case (2 f)
      have "\<exists>d \<in> set (cw_exps w). exp_id d = (si_ProjectID i, si_ExperimentID i)" using 2(1) by (auto simp: replaced_one_def)
      then obtain d where "d \<in> set (cw_exps w)" "exp_id d = (si_ProjectID i, si_ExperimentID i)" by blast
      then have "(si_ProjectID i, cx_AgentID d, si_ExperimentID i) \<in> exp_keys w" by (force simp: exp_keys_def exp_key_id_simp)
      then show ?thesis using grows by (auto simp: t' grows_def)
    next
      case 3
      then show ?thesis by (auto simp: t' exp_keys_def new_experiment_def exp_key_def)
    qed simp
  next
    case (Readopting i)
    show ?thesis
    proof (rule later, cases "GetExperiment E (si_ProjectID i) (si_ExperimentID i) w")
      case (Inr p)
      obtain e where e: "e \<in> set (cw_exps w)" "exp_id e = (si_ProjectID i, si_ExperimentID i)"
        using t by (auto simp: Readopting exp_keys_def exp_key_def exp_id_def)
      have "p \<noteq> None" using get_experiment(1) [OF E _ e(1)] e(2) Inr by (cases p) auto
      then obtain d where d: "p = Some d" by auto
      then show "task_ok m w t'" using run Inr adopt_parent [OF _ _ w, of d i] get_experiment(2) [OF E Inr [unfolded d]]
        by (auto simp: Readopting go_on_def)
    qed (use run in \<open>auto simp: Readopting cert_flow\<close>)
  next
    case (GateExperiment i)
    have "m \<le> cx_ExpectedRuns d" if "GetExperiment E (si_ProjectID i) (si_ExperimentID i) w = Inr (Some d)" for d
      using get_experiment(2) [OF E that] w by (simp add: world_ok_def exp_fine_def)
    then show ?thesis using t run by (intro later) (auto simp: GateExperiment cert_flow split: sum.splits option.splits)
  next
    case (GateRuns i e)
    then show ?thesis using t run gate_snapshot [OF E w]
      by (intro later) (auto simp: cert_flow split: sum.splits option.splits)
  next
    case (AggCreate i g e v)
    then have r: "run_cert E (AggCreate i g e v) w = (Some t', a, w')" and p: "parent_ok w' i"
      using run t parent_mono [OF grows snapshot_parent] by auto
    show ?thesis
      by (rule creating_aggregation [OF E r])
        (use p in \<open>auto simp: agg_keys_def new_agg_def agg_key_def input_key_def split: prod.splits\<close>)
  qed (rule later, use t run in \<open>(auto simp: cert_flow polls dest: snapshot_parent
      split: sum.splits option.splits prod.splits if_splits)[1]\<close>)+
qed

lemma exp_fine_mono: "grows w w' \<Longrightarrow> exp_fine m w d \<Longrightarrow> exp_fine m w' d"
  by (auto simp: exp_fine_def grows_def)

lemma exp_fine_view: "exp_view d' = exp_view d \<Longrightarrow> exp_fine m w d \<Longrightarrow> exp_fine m w d'"
  by (auto simp: exp_fine_def exp_view_def exp_key_def)

text \<open>Every task keeps the collections well formed.\<close>

lemma run_cert_exps_ok:
  assumes E: "cert_env_ok E" and w: "world_ok m w" and t: "task_ok m w t" and run: "run_cert E t w = (t', a, w')"
  shows "distinct (map exp_id (cw_exps w')) \<and> (\<forall>d \<in> set (cw_exps w'). exp_fine m w' d)"
proof -
  have grows: "grows w w'" by (rule run_cert_grows [OF E run])
  have ids: "distinct (map exp_id (cw_exps w))" and fine: "\<And>d. d \<in> set (cw_exps w) \<Longrightarrow> exp_fine m w' d"
    using w exp_fine_mono [OF grows] by (auto simp: world_ok_def)
  have replaced: ?thesis
    if rep: "replaced_one (\<lambda>d. exp_id d = (si_ProjectID i, si_ExperimentID i)) f (cw_exps w) (cw_exps w')"
      and f: "\<And>d. exp_key (f d) = exp_key d"
      and ok: "\<And>d. d \<in> set (cw_exps w) \<Longrightarrow> exp_id d = (si_ProjectID i, si_ExperimentID i) \<Longrightarrow> exp_fine m w' (f d)" for f i
  proof -
    have "map exp_id (cw_exps w') = map exp_id (cw_exps w)" by (rule exp_key_id, rule replaced_one_map_key [OF rep]) (rule f)
    moreover have "exp_fine m w' d" if "d \<in> set (cw_exps w')" for d using replaced_one_set [OF rep that] fine ok by blast
    ultimately show ?thesis using ids by simp
  qed
  show ?thesis
  proof (cases "(\<exists>i. t = UpsertingExperiment i) \<or> (\<exists>i v cid g. t = AggFinalize i v cid g)")
    case False
    then have view: "map exp_view (cw_exps w') = map exp_view (cw_exps w)" using run_cert_exps [OF E, of t w] run by auto
    have "exp_fine m w' d" if "d \<in> set (cw_exps w')" for d
    proof -
      have "exp_view d \<in> exp_view ` set (cw_exps w)" using that set_map_eq [OF view] by blast
      then show ?thesis using fine exp_fine_view by (metis imageE)
    qed
    then show ?thesis using ids exp_key_id [OF exp_view_key [OF view]] by simp
  next
    case True
    then show ?thesis
    proof (elim disjE exE)
      fix i assume ti: "t = UpsertingExperiment i"
      then have r: "run_cert E (UpsertingExperiment i) w = (t', a, w')" using run by simp
      show ?thesis
      proof (cases rule: upserting_experiment [OF E r])
        case 1
        then show ?thesis using ids fine by simp
      next
        case (2 f)
        show ?thesis
        proof (rule replaced [OF 2(1, 2)])
          fix d assume "d \<in> set (cw_exps w)"
          then have "exp_fine m w' d" by (rule fine)
          then show "exp_fine m w' (f d)" using 2(2-4) [of d] by (auto simp: exp_fine_def exp_key_def)
        qed
      next
        case 3
        have "exp_id (new_experiment E i) = (si_ProjectID i, si_ExperimentID i)" by (simp add: exp_id_def new_experiment_def)
        then have "exp_id (new_experiment E i) \<notin> exp_id ` set (cw_exps w)" using 3(1) by (metis imageE)
        moreover have "exp_fine m w' (new_experiment E i)" using t by (simp add: ti exp_fine_def new_experiment_def)
        ultimately show ?thesis using ids fine 3(2) by auto
      qed
    next
      fix i v c g assume ti: "t = AggFinalize i v c g"
      then have r: "run_cert E (AggFinalize i v c g) w = (t', a, w')" using run by simp
      have t: "(input_key i, v) \<in> agg_keys w" "input_key i \<in> exp_keys w" using t by (simp_all add: ti parent_ok_def)
      show ?thesis
      proof (cases rule: finalizing [OF E r])
        case 1
        then show ?thesis using ids fine by simp
      next
        case (2 f)
        show ?thesis
        proof (rule replaced [OF 2(1, 2)])
          fix d assume d: "d \<in> set (cw_exps w)" "exp_id d = (si_ProjectID i, si_ExperimentID i)"
          then have "cx_AgentID d = si_AgentID i" using parent_unique [OF w d] t(2) by (simp add: input_key_def)
          then have "exp_key d = input_key i" using exp_key_id_simp [OF d(2)] by (simp add: input_key_def)
          moreover have "cx_AgentID (f d) = cx_AgentID d" using 2(2) [of d] by (simp add: exp_key_def)
          ultimately show "exp_fine m w' (f d)" using 2(2-4) [of d] fine [OF d(1)] t(1) grows
            by (auto simp: exp_fine_def grows_def)
        qed
      qed
    qed
  qed
qed

lemma run_cert_world_ok:
  assumes E: "cert_env_ok E" and w: "world_ok m w" and t: "task_ok m w t" and run: "run_cert E t w = (t', a, w')"
  shows "world_ok m w'"
proof -
  have grows: "grows w w'" by (rule run_cert_grows [OF E run])
  have runs: "distinct (map run_key (cw_runs w'))" "fst (run_key d) \<in> exp_keys w'" if "d \<in> set (cw_runs w')" for d
  proof -
    have old: "distinct (map run_key (cw_runs w))" "\<And>d. d \<in> set (cw_runs w) \<Longrightarrow> fst (run_key d) \<in> exp_keys w'"
      using w grows by (auto simp: world_ok_def grows_def)
    have same: "distinct (map run_key (cw_runs w')) \<and> fst (run_key d) \<in> exp_keys w'"
      if view: "map run_key (cw_runs w') = map run_key (cw_runs w)"
    proof -
      have "run_key d \<in> run_key ` set (cw_runs w)" using \<open>d \<in> set (cw_runs w')\<close> set_map_eq [OF view] by blast
      then show ?thesis using view old by auto
    qed
    have "distinct (map run_key (cw_runs w')) \<and> fst (run_key d) \<in> exp_keys w'"
    proof (cases "\<exists>i. t = UpsertingRun i")
      case False
      then show ?thesis using run_cert_runs [OF E, of t w] run by (intro same) auto
    next
      case True
      then obtain i where ti: "t = UpsertingRun i" by blast
      then have r: "run_cert E (UpsertingRun i) w = (t', a, w')" using run by simp
      show ?thesis
      proof (cases rule: upserting_run [OF E r])
        case 2
        have key: "run_key (new_run E i) = (input_key i, si_ExperimentRunID i)" by (simp add: run_key_def new_run_def input_key_def)
        have "input_key i \<in> exp_keys w'" using t grows by (auto simp: ti parent_ok_def grows_def)
        then show ?thesis using old that 2(1) by (auto simp: 2(2) key run_keys_def)
      qed (rule same)
    qed
    then show "distinct (map run_key (cw_runs w'))" "fst (run_key d) \<in> exp_keys w'" by simp_all
  qed
  have runs_distinct: "distinct (map run_key (cw_runs w'))" using runs(1) by (cases "cw_runs w'") auto
  have aggs: "snapshot_ok m w' (fst (agg_key d)) (ca_RunIDs d) (ca_SuccessfulRuns d)" if d: "d \<in> set (cw_aggs w')" for d
  proof (cases "\<exists>i g e v. t = AggCreate i g e v")
    case False
    then have view: "map agg_view (cw_aggs w') = map agg_view (cw_aggs w)" by (rule agg_views_kept [OF E run])
    have "agg_view d \<in> agg_view ` set (cw_aggs w)" using d set_map_eq [OF view] by blast
    then obtain d0 where "d0 \<in> set (cw_aggs w)" "agg_view d = agg_view d0" by blast
    then show ?thesis using w snapshot_mono [OF grows] by (auto simp: world_ok_def agg_view_def)
  next
    case True
    then obtain i g e v where ti: "t = AggCreate i g e v" by blast
    then have r: "run_cert E (AggCreate i g e v) w = (t', a, w')" using run by simp
    have "d \<in> set (cw_aggs w) \<or> d = new_agg E i g v" by (cases rule: creating_aggregation [OF E r]) (use d in auto)
    then show ?thesis
      using w t snapshot_mono [OF grows]
      by (auto simp: world_ok_def ti new_agg_def agg_key_def input_key_def split: prod.splits)
  qed
  show ?thesis using run_cert_exps_ok [OF E w t run] runs runs_distinct aggs by (simp add: world_ok_def)
qed

lemma active_irrelevant [simp]:
  "exp_keys (w\<lparr>cw_active := ks\<rparr>) = exp_keys w" "run_keys (w\<lparr>cw_active := ks\<rparr>) = run_keys w"
  "agg_keys (w\<lparr>cw_active := ks\<rparr>) = agg_keys w"
  by (simp_all add: exp_keys_def run_keys_def agg_keys_def)

lemma world_ok_active [simp]: "world_ok m (w\<lparr>cw_active := ks\<rparr>) = world_ok m w"
  by (simp add: world_ok_def exp_fine_def snapshot_ok_def)

definition certification_ok :: "int \<Rightarrow> cert_state \<Rightarrow> bool" where
  "certification_ok m s = (world_ok m (ct_world s) \<and> (\<forall>n t. ct_tasks s n = Some t \<longrightarrow> task_ok m (ct_world s) t))"

lemma started_request:
  assumes "StartCertificationGeneration i = Inr t"
  shows "t = Adopting i" "si_AgentID i \<noteq> []"
  using assms by (auto simp: StartCertificationGeneration_def validateStartInput_def split: option.splits if_splits)

lemma certification_step:
  assumes "cert_step allowed s s'" "certification_ok m s" "\<And>i. allowed i \<Longrightarrow> m \<le> si_ExpectedRuns i"
  shows "certification_ok m s'"
  using assms(1)
proof cases
  case (requested i t n)
  then show ?thesis using assms(2, 3) started_request [OF requested(3)] by (simp add: certification_ok_def)
next
  case (ran E n t t' a w')
  have w: "world_ok m (ct_world s)" and t: "task_ok m (ct_world s) t" using ran assms(2) by (auto simp: certification_ok_def)
  have grows: "grows (ct_world s) w'" by (rule run_cert_grows [OF ran(2, 4)])
  have "task_ok m w' t1" if "((ct_tasks s)(n := t')) n1 = Some t1" for n1 t1
  proof (cases "n1 = n")
    case True
    then have "run_cert E t (ct_world s) = (Some t1, a, w')" using that ran by simp
    then show ?thesis by (rule run_cert_task [OF ran(2) w t])
  next
    case False
    then show ?thesis using that assms(2) by (auto simp: certification_ok_def intro: task_mono [OF grows])
  qed
  then show ?thesis using run_cert_world_ok [OF ran(2) w t ran(4)] by (simp add: ran(1) certification_ok_def)
next
  case restarted
  then show ?thesis using assms(2) by (simp add: certification_ok_def)
qed

lemma certification_reach:
  assumes "cert_reach allowed s" "\<And>i. allowed i \<Longrightarrow> m \<le> si_ExpectedRuns i"
  shows "certification_ok m s"
  using assms(1)
proof induction
  case empty
  show ?case by (simp add: certification_ok_def world_ok_def no_certificates_def)
next
  case (next_state s s')
  show ?case by (rule certification_step [OF next_state(2, 3) assms(2)])
qed

text \<open>The parent document of a pipeline is never missing, so the one dereference of it never crashes.\<close>

lemma run_cert_no_crash:
  assumes "cert_env_ok E" "task_ok m w t" "run_cert E t w = (t', a, w')"
  shows "a \<noteq> Some Crashed"
proof (cases t)
  case (AggExperiment i g)
  have "\<exists>d \<in> set (cw_exps w). exp_id d = (si_ProjectID i, si_ExperimentID i)"
    using assms(2) by (auto simp: AggExperiment snapshot_ok_def exp_keys_def input_key_def exp_key_def exp_id_def)
  then have "GetExperiment E (si_ProjectID i) (si_ExperimentID i) w \<noteq> Inr None" using get_experiment(1) [OF assms(1)] by metis
  then show ?thesis using assms(3) by (auto simp: AggExperiment cert_flow split: sum.splits option.splits)
qed (use assms(3) in \<open>(auto simp: cert_flow polls split: sum.splits option.splits prod.splits if_splits)[1]\<close>)+

section \<open>One pipeline per run, one aggregation per experiment\<close>

fun holding :: "cert_task \<Rightarrow> StartInput option" where
  "holding (BucketCheck i) = Some i"
| "holding (BucketStart i) = Some i"
| "holding (BucketPoll i n) = Some i"
| "holding (GateExperiment i) = Some i"
| "holding (GateRuns i e) = Some i"
| "holding (AggMark i g) = Some i"
| "holding (AggExperiment i g) = Some i"
| "holding (AggLatest i g e v) = Some i"
| "holding (AggCreate i g e v) = Some i"
| "holding (AggStart i e v) = Some i"
| "holding (AggStartFailed i) = Some i"
| "holding (AggPoll i v n) = Some i"
| "holding (AggFinalize i v c g) = Some i"
| "holding (AggPollFailed i v err n) = Some i"
| "holding (Releasing i) = Some i"
| "holding t = None"

definition held_key :: "cert_task \<Rightarrow> string option" where
  "held_key t = map_option orchestrationKey (holding t)"

definition held :: "(nat \<Rightarrow> cert_task option) \<Rightarrow> nat \<Rightarrow> string option" where
  "held T n = Option.bind (T n) held_key"

definition exclusive :: "(nat \<Rightarrow> string option) \<Rightarrow> string set \<Rightarrow> bool" where
  "exclusive H A = (\<forall>n k. H n = Some k \<longrightarrow> k \<in> A \<and> (\<forall>n'. H n' = Some k \<longrightarrow> n' = n))"

definition keys_held :: "cert_state \<Rightarrow> bool" where
  "keys_held s = exclusive (held (ct_tasks s)) (set (cw_active (ct_world s)))"

lemma held_update [simp]: "held (T(n := t)) = (held T)(n := Option.bind t held_key)"
  by (auto simp: held_def)

lemma exclusive_updates:
  "exclusive H A \<Longrightarrow> exclusive (H(n := None)) A"
  "exclusive H A \<Longrightarrow> k \<notin> A \<Longrightarrow> exclusive (H(n := Some k)) (insert k A)"
  "exclusive H A \<Longrightarrow> H n = Some k \<Longrightarrow> exclusive (H(n := None)) (A - {k})"
  "exclusive H A \<Longrightarrow> exclusive (H(n := H n)) A"
  by (auto simp: exclusive_def)

text \<open>A task keeps its input, and only two tasks touch the table of active pipelines.\<close>

lemma run_cert_active:
  assumes "run_cert E t w = (t', a, w')"
  shows "(\<exists>i. t = Acquiring i \<and> (orchestrationKey i \<in> set (cw_active w) \<and> w' = w \<and> t' = None \<or>
        orchestrationKey i \<notin> set (cw_active w) \<and> cw_active w' = orchestrationKey i # cw_active w \<and> t' = Some (BucketCheck i))) \<or>
    (\<exists>i. t = Releasing i \<and> t' = None \<and> cw_active w' = removeAll (orchestrationKey i) (cw_active w)) \<or>
    cw_active w' = cw_active w \<and> (\<forall>t1. t' = Some t1 \<longrightarrow> held_key t1 = held_key t)"
proof -
  have w': "w' = snd (snd (run_cert E t w))" and t': "t' = fst (run_cert E t w)" using assms by simp_all
  show ?thesis
  proof (cases "(\<exists>i. t = Acquiring i) \<or> (\<exists>i. t = Releasing i)")
    case True
    then show ?thesis using assms by (auto simp: answer_with_def split: if_splits)
  next
    case False
    have "cw_active w' = cw_active w"
      unfolding w' using False by (cases t) (auto simp: polls exp_updates run_updates split: prod.splits option.splits sum.splits if_splits)
    moreover have "held_key t1 = held_key t" if "t' = Some t1" for t1
      using that False unfolding t' by (cases t) (auto simp: held_key_def polls split: prod.splits option.splits sum.splits if_splits)
    ultimately show ?thesis by blast
  qed
qed

lemma keys_held_step:
  assumes "cert_step allowed s s'" "keys_held s"
  shows "keys_held s'"
  using assms(1)
proof cases
  case (requested i t n)
  have "held_key t = None" using started_request(1) [OF requested(3)] by (simp add: held_key_def)
  then show ?thesis using assms(2) exclusive_updates(1) by (simp add: requested(1) keys_held_def)
next
  case (ran E n t t' a w')
  have h: "held (ct_tasks s) n = held_key t" by (simp add: held_def ran(3))
  have ex: "exclusive (held (ct_tasks s)) (set (cw_active (ct_world s)))" using assms(2) by (simp add: keys_held_def)
  have "exclusive ((held (ct_tasks s))(n := Option.bind t' held_key)) (set (cw_active w'))"
    using run_cert_active [OF ran(4)]
  proof (elim disjE exE conjE)
    fix i assume i: "orchestrationKey i \<notin> set (cw_active (ct_world s))"
      "cw_active w' = orchestrationKey i # cw_active (ct_world s)" "t' = Some (BucketCheck i)"
    then show ?thesis using exclusive_updates(2) [OF ex i(1)] by (simp add: held_key_def)
  next
    fix i assume i: "t = Releasing i" "t' = None" "cw_active w' = removeAll (orchestrationKey i) (cw_active (ct_world s))"
    then show ?thesis using exclusive_updates(3) [OF ex, of n "orchestrationKey i"] h by (simp add: held_key_def set_removeAll)
  next
    assume same: "cw_active w' = cw_active (ct_world s)" "\<forall>t1. t' = Some t1 \<longrightarrow> held_key t1 = held_key t"
    then show ?thesis using exclusive_updates(1, 4) [OF ex, of n] by (cases t') (simp_all add: h)
  qed (use exclusive_updates(1) [OF ex] in simp)
  then show ?thesis by (simp add: ran(1) keys_held_def)
next
  case restarted
  then show ?thesis by (simp add: keys_held_def exclusive_def held_def)
qed

text \<open>
  An aggregation is idle when no pipeline polls it; none ever will again. The version a certificate rests on, the
  version before one about to be created and the version being finished are idle.
\<close>

definition idle :: "cert_world \<Rightarrow> (nat \<Rightarrow> cert_task option) \<Rightarrow> string \<times> string \<times> string \<Rightarrow> nat \<Rightarrow> bool" where
  "idle w T k v = ((k, v) \<in> agg_keys w \<and> (\<forall>n t. T n = Some t \<longrightarrow> aggregating t \<noteq> Some (k, v)))"

fun task_idle :: "cert_world \<Rightarrow> (nat \<Rightarrow> cert_task option) \<Rightarrow> cert_task \<Rightarrow> bool" where
  "task_idle w T (AggLatest i g e v) = (v = 0 \<or> idle w T (input_key i) v)"
| "task_idle w T (AggCreate i g e v) = (1 \<le> v \<and> (v = 1 \<or> idle w T (input_key i) (v - 1)))"
| "task_idle w T (AggFinalize i v c g) = idle w T (input_key i) v"
| "task_idle w T (AggPollFailed i v err n) = idle w T (input_key i) v"
| "task_idle w T t = True"

definition versions_ok :: "cert_world \<Rightarrow> bool" where
  "versions_ok w = (distinct (map agg_key (cw_aggs w)) \<and>
     (\<forall>k v. (k, v) \<in> agg_keys w \<longrightarrow> 1 \<le> v \<and> (v = 1 \<or> (k, v - 1) \<in> agg_keys w)))"

definition latest_active :: "cert_world \<Rightarrow> string \<times> string \<times> string \<Rightarrow> nat \<Rightarrow> bool" where
  "latest_active w k v = ((\<exists>d \<in> set (cw_aggs w). agg_key d = (k, v) \<and> in_progress d) \<and> (\<forall>v'. (k, v') \<in> agg_keys w \<longrightarrow> v' \<le> v))"

definition one_aggregation :: "cert_world \<Rightarrow> (nat \<Rightarrow> cert_task option) \<Rightarrow> bool" where
  "one_aggregation w T = (versions_ok w \<and>
     (\<forall>n t k v. T n = Some t \<longrightarrow> aggregating t = Some (k, v) \<longrightarrow> latest_active w k v \<and>
        (\<forall>n' t'. T n' = Some t' \<longrightarrow> aggregating t' = Some (k, v) \<longrightarrow> n' = n)) \<and>
     (\<forall>d \<in> set (cw_exps w). cx_ActiveVersion d = 0 \<or> idle w T (exp_key d) (cx_ActiveVersion d)) \<and>
     (\<forall>n t. T n = Some t \<longrightarrow> task_idle w T t))"

lemma versions_below:
  assumes "versions_ok w" "(k, v) \<in> agg_keys w" "1 \<le> u" "u \<le> v"
  shows "(k, u) \<in> agg_keys w"
  using assms(2, 4)
proof (induction "v - u" arbitrary: v)
  case (Suc n)
  have "v \<noteq> 1" using Suc assms(3) by auto
  then have "(k, v - 1) \<in> agg_keys w" using Suc(3) assms(1) unfolding versions_ok_def by blast
  then show ?case using Suc(1) [of "v - 1"] Suc(2, 4) by auto
qed simp

text \<open>A version that is new and whose predecessor exists is the next one.\<close>

lemma next_is_latest:
  assumes "versions_ok w" "(k, v) \<notin> agg_keys w" "1 \<le> v" "(k, u) \<in> agg_keys w"
  shows "u < v"
  using versions_below [OF assms(1, 4, 3)] assms(2) by (cases "v \<le> u") auto

text \<open>Goroutine \<open>n\<close> runs its task in a state where the invariants hold.\<close>

definition stepping ::
  "int \<Rightarrow> cert_env \<Rightarrow> (nat \<Rightarrow> cert_task option) \<Rightarrow> nat \<Rightarrow> cert_task \<Rightarrow> cert_world \<Rightarrow> cert_task option \<Rightarrow> cert_answer option \<Rightarrow> cert_world \<Rightarrow> bool" where
  "stepping m E T n t w t' a w' = (cert_env_ok E \<and> T n = Some t \<and> run_cert E t w = (t', a, w') \<and> one_aggregation w T \<and>
     world_ok m w \<and> task_ok m w t)"

lemma steppingD:
  assumes "stepping m E T n t w t' a w'"
  shows "cert_env_ok E" "T n = Some t" "run_cert E t w = (t', a, w')" "one_aggregation w T" "world_ok m w" "task_ok m w t"
    "versions_ok w" "task_idle w T t" "grows w w'"
proof -
  show s: "cert_env_ok E" "T n = Some t" "run_cert E t w = (t', a, w')" "one_aggregation w T" "world_ok m w" "task_ok m w t"
    using assms unfolding stepping_def by blast+
  show "versions_ok w" "task_idle w T t" using s(2, 4) unfolding one_aggregation_def by blast+
  show "grows w w'" by (rule run_cert_grows [OF s(1, 3)])
qed

lemma one_aggregationD:
  assumes "one_aggregation w T" "T n = Some t" "aggregating t = Some (k, v)"
  shows "latest_active w k v" "T n' = Some t' \<Longrightarrow> aggregating t' = Some (k, v) \<Longrightarrow> n' = n"
  using assms unfolding one_aggregation_def by blast+

lemma one_aggregationI:
  assumes "versions_ok w" "\<And>n t k v. T n = Some t \<Longrightarrow> aggregating t = Some (k, v) \<Longrightarrow> latest_active w k v"
    "\<And>n t k v n' t'. T n = Some t \<Longrightarrow> aggregating t = Some (k, v) \<Longrightarrow> T n' = Some t' \<Longrightarrow> aggregating t' = Some (k, v) \<Longrightarrow> n' = n"
    "\<And>d. d \<in> set (cw_exps w) \<Longrightarrow> cx_ActiveVersion d = 0 \<or> idle w T (exp_key d) (cx_ActiveVersion d)"
    "\<And>n t. T n = Some t \<Longrightarrow> task_idle w T t"
  shows "one_aggregation w T"
  unfolding one_aggregation_def
proof (intro conjI allI impI ballI)
  fix n t k v n' t'
  assume "T n = Some t" "aggregating t = Some (k, v)" "T n' = Some t'" "aggregating t' = Some (k, v)"
  then show "n' = n" by (rule assms(3))
qed (fact assms(1) | erule assms(2), assumption | erule assms(4) | erule assms(5))+

lemma latest_keys: "latest_active w k v \<Longrightarrow> (k, v) \<in> agg_keys w"
  unfolding latest_active_def agg_keys_def by (metis image_eqI)

lemma next_aggregating:
  assumes "run_cert E t w = (Some t', a, w')" "aggregating t' = Some kv"
  shows "aggregating t = Some kv \<or> (\<exists>i g e v. t = AggCreate i g e v \<and> t' = AggStart i e v)"
  by (cases t) (use assms in \<open>(auto simp: cert_flow polls split: sum.splits option.splits prod.splits if_splits)[1]\<close>)+

lemma agg_created:
  assumes "cert_env_ok E" "run_cert E (AggCreate i g e v) w = (Some (AggStart i e v), a, w')"
  shows "(input_key i, v) \<notin> agg_keys w" "cw_aggs w' = cw_aggs w @ [new_agg E i g v]"
  by (rule creating_aggregation [OF assms]; simp)+

lemma idle_kept:
  assumes s: "stepping m E T n t w t' a w'" and idle: "idle w T k v"
  shows "idle w' (T(n := t')) k v"
proof -
  note d = steppingD [OF s]
  have "aggregating t1 \<noteq> Some (k, v)" if t1: "t' = Some t1" for t1
  proof
    assume agg: "aggregating t1 = Some (k, v)"
    have run: "run_cert E t w = (Some t1, a, w')" using d(3) t1 by simp
    from next_aggregating [OF run agg] show False
    proof (elim disjE exE conjE)
      assume "aggregating t = Some (k, v)"
      then show False using idle d(2) by (auto simp: idle_def)
    next
      fix i g e u assume t: "t = AggCreate i g e u" "t1 = AggStart i e u"
      then have "(input_key i, u) \<notin> agg_keys w" using agg_created(1) [OF d(1), of i g e u w a w'] run by simp
      then show False using idle agg t by (simp add: idle_def)
    qed
  qed
  then show ?thesis using idle d(9) by (auto simp: idle_def grows_def)
qed

lemma versions_kept:
  assumes s: "stepping m E T n t w t' a w'"
  shows "versions_ok w'"
proof (cases "\<exists>i g e v. t = AggCreate i g e v")
  case False
  note d = steppingD [OF s]
  have view: "map agg_view (cw_aggs w') = map agg_view (cw_aggs w)" by (rule agg_views_kept [OF d(1, 3) False])
  have "agg_keys w' = agg_keys w" unfolding agg_keys_def by (rule set_map_eq [OF agg_view_key [OF view]])
  then show ?thesis using d(7) agg_view_key [OF view] by (simp add: versions_ok_def)
next
  case True
  note d = steppingD [OF s]
  obtain i g e v where t: "t = AggCreate i g e v" using True by blast
  have run: "run_cert E (AggCreate i g e v) w = (t', a, w')" using d(3) t by simp
  show ?thesis
  proof (cases rule: creating_aggregation [OF d(1) run])
    case 1
    then show ?thesis using d(7) by (simp add: versions_ok_def agg_keys_def)
  next
    case 2
    have new: "agg_key (new_agg E i g v) = (input_key i, v)" by (simp add: new_agg_def agg_key_def input_key_def split: prod.splits)
    have keys: "agg_keys w' = insert (input_key i, v) (agg_keys w)" by (simp add: agg_keys_def 2(2) new)
    have "1 \<le> v" "v = 1 \<or> (input_key i, v - 1) \<in> agg_keys w" using d(8) by (auto simp: t idle_def)
    moreover have "distinct (map agg_key (cw_aggs w'))" using d(7) 2(1) by (simp add: 2(2) versions_ok_def new agg_keys_def)
    ultimately show ?thesis using d(7) unfolding versions_ok_def keys by auto
  qed
qed

lemma agg_written_progress:
  assumes "agg_written i v True s s'" "d \<in> set s" "in_progress d"
  obtains d' where "d' \<in> set s'" "agg_key d' = agg_key d" "in_progress d'"
proof (cases "s' = s")
  case True
  then show ?thesis using that assms by blast
next
  case False
  then obtain f where f: "replaced_one (\<lambda>d. agg_key d = (input_key i, v)) f s s'" "\<And>d. agg_view (f d) = agg_view d"
    "\<And>d. in_progress d \<Longrightarrow> in_progress (f d)"
    using assms(1) unfolding agg_written_def by blast
  then have "d \<in> set s' \<or> f d \<in> set s'" using assms(2) by (auto simp: replaced_one_def)
  moreover have "agg_key (f d) = agg_key d" using f(2) [of d] by (simp add: agg_view_def)
  ultimately show ?thesis using that assms(3) f(3) by blast
qed

lemma aggs_frame:
  assumes "cert_env_ok E" "run_cert E t w = (t', a, w')" "d \<in> set (cw_aggs w)"
    "\<And>i v. agg_writer t = Some (i, v) \<Longrightarrow> agg_key d \<noteq> (input_key i, v)"
  shows "d \<in> set (cw_aggs w')"
proof (cases "\<exists>i g e v. t = AggCreate i g e v")
  case True
  then obtain i g e v where t: "t = AggCreate i g e v" by blast
  have run: "run_cert E (AggCreate i g e v) w = (t', a, w')" using assms(2) t by simp
  have "set (cw_aggs w) \<subseteq> set (cw_aggs w')" by (cases rule: creating_aggregation [OF assms(1) run]) auto
  then show ?thesis using assms(3) by blast
next
  case False
  have w': "w' = snd (snd (run_cert E t w))" using assms(2) by simp
  show ?thesis using run_cert_aggs [OF assms(1), of t w]
  proof (elim disjE exE conjE)
    fix i v
    assume wr: "agg_writer t = Some (i, v)"
      and "agg_written i v (polls_on (fst (run_cert E t w))) (cw_aggs w) (cw_aggs (snd (snd (run_cert E t w))))"
    then have "cw_aggs w' = cw_aggs w \<or> (\<exists>f. replaced_one (\<lambda>d. agg_key d = (input_key i, v)) f (cw_aggs w) (cw_aggs w'))"
      unfolding agg_written_def w' by blast
    then show ?thesis using assms(3, 4) wr by (auto simp: replaced_one_def)
  next
    assume "cw_aggs (snd (snd (run_cert E t w))) = cw_aggs w"
    then show ?thesis using assms(3) by (simp add: w')
  qed (use False in blast)
qed

lemma agg_writer_cases:
  assumes "agg_writer t = Some (i, v)" "task_idle w T t"
  shows "aggregating t = Some (input_key i, v) \<or> idle w T (input_key i) v"
  using assms by (cases t) auto

lemma agg_keys_after:
  assumes "cert_env_ok E" "run_cert E t w = (t', a, w')"
  obtains "agg_keys w' = agg_keys w"
  | i g e v where "t = AggCreate i g e v" "(input_key i, v) \<notin> agg_keys w" "cw_aggs w' = cw_aggs w @ [new_agg E i g v]"
      "agg_keys w' = insert (input_key i, v) (agg_keys w)"
proof (cases "\<exists>i g e v. t = AggCreate i g e v")
  case False
  have "agg_keys w' = agg_keys w" unfolding agg_keys_def by (rule set_map_eq [OF agg_view_key [OF agg_views_kept [OF assms False]]])
  then show ?thesis by (rule that(1))
next
  case True
  then obtain i g e v where t: "t = AggCreate i g e v" by blast
  have run: "run_cert E (AggCreate i g e v) w = (t', a, w')" using assms(2) t by simp
  show ?thesis
  proof (cases rule: creating_aggregation [OF assms(1) run])
    case 1
    then show ?thesis by (intro that(1)) (simp add: agg_keys_def)
  next
    case 2
    have "agg_key (new_agg E i g v) = (input_key i, v)" by (simp add: new_agg_def agg_key_def input_key_def split: prod.splits)
    then have "agg_keys w' = insert (input_key i, v) (agg_keys w)" by (simp add: agg_keys_def 2(2))
    then show ?thesis by (intro that(2) [OF t 2(1, 2)])
  qed
qed

text \<open>While an aggregation is polled nobody else writes it and no later version is created.\<close>

lemma others_latest:
  assumes s: "stepping m E T n t w t' a w'" and n1: "T n1 = Some t1" "n1 \<noteq> n" "aggregating t1 = Some (k, v)"
  shows "latest_active w' k v"
proof -
  note d = steppingD [OF s]
  have act: "latest_active w k v" by (rule one_aggregationD(1) [OF d(4) n1(1, 3)])
  have not_idle: "\<not> idle w T k v" using n1 by (auto simp: idle_def)
  have t: "aggregating t \<noteq> Some (k, v)" using one_aggregationD(2) [OF d(4) n1(1, 3) d(2)] n1(2) by blast
  obtain doc where doc: "doc \<in> set (cw_aggs w)" "agg_key doc = (k, v)" "in_progress doc" using act by (auto simp: latest_active_def)
  have "doc \<in> set (cw_aggs w')"
  proof (rule aggs_frame [OF d(1, 3) doc(1)])
    fix i u assume "agg_writer t = Some (i, u)"
    then have "aggregating t = Some (input_key i, u) \<or> idle w T (input_key i) u" by (rule agg_writer_cases [OF _ d(8)])
    then show "agg_key doc \<noteq> (input_key i, u)" using t not_idle doc(2) by auto
  qed
  moreover have "u \<le> v" if u: "(k, u) \<in> agg_keys w'" for u
  proof (cases rule: agg_keys_after [OF d(1, 3)])
    case 1
    then show ?thesis using act u by (simp add: latest_active_def)
  next
    case (2 i g e x)
    show ?thesis
    proof (cases "(k, u) \<in> agg_keys w")
      case False
      then have x: "input_key i = k" "x = u" using u 2(4) by auto
      have "1 \<le> x" and idle: "x = 1 \<or> idle w T k (x - 1)" using d(8) by (auto simp: 2(1) x)
      have "v < x" using next_is_latest [OF d(7) _ \<open>1 \<le> x\<close> latest_keys [OF act]] 2(2) by (simp add: x)
      moreover have "1 \<le> v" using latest_keys [OF act] d(7) unfolding versions_ok_def by blast
      ultimately have i: "idle w T k (x - 1)" using idle by auto
      then have "x - 1 \<le> v" using act by (simp add: latest_active_def idle_def)
      then have "x - 1 = v" using \<open>v < x\<close> by simp
      then show ?thesis using i not_idle by simp
    qed (use act in \<open>simp add: latest_active_def\<close>)
  qed
  ultimately show ?thesis using doc(2, 3) by (auto simp: latest_active_def)
qed

lemma own_latest:
  assumes s: "stepping m E T n t w (Some t1) a w'" and agg: "aggregating t1 = Some (k, v)"
  shows "latest_active w' k v" "\<And>n' t2. n' \<noteq> n \<Longrightarrow> T n' = Some t2 \<Longrightarrow> aggregating t2 \<noteq> Some (k, v)"
proof -
  note d = steppingD [OF s]
  have "latest_active w' k v \<and> (\<forall>n' t2. n' \<noteq> n \<longrightarrow> T n' = Some t2 \<longrightarrow> aggregating t2 \<noteq> Some (k, v))"
    using next_aggregating [OF d(3) agg]
  proof (elim disjE exE conjE)
    assume t: "aggregating t = Some (k, v)"
    have act: "latest_active w k v" by (rule one_aggregationD(1) [OF d(4, 2) t])
    obtain doc where doc: "doc \<in> set (cw_aggs w)" "agg_key doc = (k, v)" "in_progress doc" using act by (auto simp: latest_active_def)
    have no_create: "\<nexists>i g e v. t = AggCreate i g e v" using t by auto
    have keys: "agg_keys w' = agg_keys w" by (cases rule: agg_keys_after [OF d(1, 3)]) (use no_create in auto)
    have "polls_on (fst (run_cert E t w))" using d(3) agg by simp
    then have "cw_aggs w' = cw_aggs w \<or> (\<exists>i u. agg_written i u True (cw_aggs w) (cw_aggs w'))"
      using run_cert_aggs [OF d(1), of t w] no_create d(3) by auto
    then obtain doc' where "doc' \<in> set (cw_aggs w')" "agg_key doc' = (k, v)" "in_progress doc'"
      using doc agg_written_progress [OF _ doc(1, 3)] by metis
    then have "latest_active w' k v" using act by (auto simp: latest_active_def keys)
    then show ?thesis using one_aggregationD(2) [OF d(4, 2) t] by blast
  next
    fix i g e u assume t: "t = AggCreate i g e u" "t1 = AggStart i e u"
    have run: "run_cert E (AggCreate i g e u) w = (Some (AggStart i e u), a, w')" using d(3) t by simp
    note new = agg_created [OF d(1) run]
    have kv: "k = input_key i" "v = u" using agg t by auto
    have key: "agg_key (new_agg E i g u) = (k, v)" by (simp add: kv new_agg_def agg_key_def input_key_def split: prod.splits)
    have "in_progress (new_agg E i g u)" by (simp add: new_agg_def in_progress_def split: prod.splits)
    moreover have "x \<le> v" if "(k, x) \<in> agg_keys w'" for x
    proof (cases "(k, x) \<in> agg_keys w")
      case True
      have "1 \<le> v" using d(8) by (simp add: t kv)
      then show ?thesis using next_is_latest [OF d(7) _ _ True] new(1) by (auto simp: kv intro: less_imp_le)
    qed (use that in \<open>auto simp: agg_keys_def new(2) key\<close>)
    ultimately have "latest_active w' k v" using key by (auto simp: latest_active_def new(2))
    then show ?thesis using one_aggregationD(1) [OF d(4)] latest_keys new(1) kv by blast
  qed
  then show "latest_active w' k v" "\<And>n' t2. n' \<noteq> n \<Longrightarrow> T n' = Some t2 \<Longrightarrow> aggregating t2 \<noteq> Some (k, v)" by blast+
qed

lemma exps_idle_kept:
  assumes s: "stepping m E T n t w t' a w'" and doc: "doc \<in> set (cw_exps w')"
  shows "cx_ActiveVersion doc = 0 \<or> idle w' (T(n := t')) (exp_key doc) (cx_ActiveVersion doc)"
proof -
  note d = steppingD [OF s]
  have old: "cx_ActiveVersion e = 0 \<or> idle w' (T(n := t')) (exp_key e) (cx_ActiveVersion e)" if "e \<in> set (cw_exps w)" for e
    using d(4) that idle_kept [OF s] unfolding one_aggregation_def by blast
  show ?thesis
  proof (cases "(\<exists>i. t = UpsertingExperiment i) \<or> (\<exists>i v cid g. t = AggFinalize i v cid g)")
    case False
    then have view: "map exp_view (cw_exps w') = map exp_view (cw_exps w)" using run_cert_exps [OF d(1), of t w] d(3) by auto
    have "exp_view doc \<in> exp_view ` set (cw_exps w)" using doc set_map_eq [OF view] by blast
    then obtain e where "e \<in> set (cw_exps w)" "exp_view doc = exp_view e" by blast
    then show ?thesis using old [of e] by (simp add: exp_view_def)
  next
    case True
    then show ?thesis
    proof (elim disjE exE)
      fix i assume t: "t = UpsertingExperiment i"
      have r: "run_cert E (UpsertingExperiment i) w = (t', a, w')" using d(3) t by simp
      show ?thesis
      proof (cases rule: upserting_experiment [OF d(1) r])
        case (2 f)
        show ?thesis using replaced_one_set [OF 2(1) doc]
        proof
          assume "\<exists>e \<in> set (cw_exps w). exp_id e = (si_ProjectID i, si_ExperimentID i) \<and> doc = f e"
          then obtain e where e: "e \<in> set (cw_exps w)" "doc = f e" by blast
          then show ?thesis using old [OF e(1)] 2(2, 3) by simp
        qed (rule old)
      qed (use doc old in \<open>auto simp: new_experiment_def\<close>)
    next
      fix i v c g assume t: "t = AggFinalize i v c g"
      have r: "run_cert E (AggFinalize i v c g) w = (t', a, w')" using d(3) t by simp
      have parent: "input_key i \<in> exp_keys w" using d(6) by (simp add: t parent_ok_def)
      have idle: "idle w' (T(n := t')) (input_key i) v" using idle_kept [OF s, of "input_key i" v] d(8) by (simp add: t)
      show ?thesis
      proof (cases rule: finalizing [OF d(1) r])
        case (2 f)
        show ?thesis using replaced_one_set [OF 2(1) doc]
        proof
          assume "\<exists>e \<in> set (cw_exps w). exp_id e = (si_ProjectID i, si_ExperimentID i) \<and> doc = f e"
          then obtain e where e: "e \<in> set (cw_exps w)" "exp_id e = (si_ProjectID i, si_ExperimentID i)" "doc = f e" by blast
          have "cx_AgentID e = si_AgentID i" using parent_unique [OF d(5) e(1, 2)] parent by (simp add: input_key_def)
          then have "exp_key doc = input_key i" using exp_key_id_simp [OF e(2)] by (simp add: input_key_def e(3) 2(2))
          then show ?thesis using idle 2(3) by (simp add: e(3))
        qed (rule old)
      qed (use doc old in simp)
    qed
  qed
qed

lemma latest_of_member: "latest_of ds = Some d \<Longrightarrow> d \<in> set ds"
  by (induction ds) (auto split: option.splits if_splits)

lemma latest_aggregation:
  assumes "cert_env_ok E" "GetLatestAggregationWorkflow E i w = Inr (Some d)"
  shows "d \<in> set (cw_aggs w)" "fst (agg_key d) = input_key i"
proof -
  let ?q = "\<lambda>d. ca_ProjectID d = si_ProjectID i \<and> ca_AgentID d = si_AgentID i \<and> ca_ExperimentID d = si_ExperimentID i"
  obtain ds where ds: "Find (ce_aggs E) ?q (cw_aggs w) = Inr ds" "latest_of ds = Some d"
    using assms(2) by (auto simp: GetLatestAggregationWorkflow_def split: sum.splits if_splits)
  have "d \<in> {d \<in> set (cw_aggs w). ?q d}"
    using latest_of_member [OF ds(2)] Find_set [OF cert_envD(3) [OF assms(1)] ds(1)] by blast
  then show "d \<in> set (cw_aggs w)" "fst (agg_key d) = input_key i" by (auto simp: agg_key_def input_key_def)
qed

lemma next_version_idle:
  assumes E: "cert_env_ok E" and one: "one_aggregation w T" and active: "active = 0 \<or> idle w T (input_key i) active"
    and latest: "GetLatestAggregationWorkflow E i w = Inr latest" "\<And>d. latest = Some d \<Longrightarrow> \<not> in_progress d"
  shows "1 \<le> next_version active latest \<and> (next_version active latest = 1 \<or> idle w T (input_key i) (next_version active latest - 1))"
proof (cases "\<exists>d. latest = Some d \<and> active + 1 \<le> ca_AggregationVersion d")
  case True
  then obtain d where d: "latest = Some d" "active + 1 \<le> ca_AggregationVersion d" by blast
  note mem = latest_aggregation [OF E latest(1) [unfolded d(1)]]
  have key: "agg_key d = (input_key i, ca_AggregationVersion d)" using mem(2) by (simp add: agg_key_def)
  have "aggregating t \<noteq> Some (agg_key d)" if t: "T n = Some t" for n t
  proof
    assume "aggregating t = Some (agg_key d)"
    then have "latest_active w (input_key i) (ca_AggregationVersion d)" using one_aggregationD(1) [OF one t] key by simp
    then obtain e where e: "e \<in> set (cw_aggs w)" "agg_key e = agg_key d" "in_progress e" by (auto simp: latest_active_def key)
    have "inj_on agg_key (set (cw_aggs w))" using one by (simp add: one_aggregation_def versions_ok_def distinct_map)
    then have "e = d" using e(1, 2) mem(1) by (auto dest: inj_onD)
    then show False using e(3) latest(2) d(1) by blast
  qed
  moreover have "agg_key d \<in> agg_keys w" using mem(1) by (simp add: agg_keys_def)
  ultimately have "idle w T (input_key i) (ca_AggregationVersion d)" by (simp add: idle_def key)
  then show ?thesis using d by (simp add: next_version_def)
next
  case False
  then have "next_version active latest = active + 1" by (auto simp: next_version_def split: option.splits)
  then show ?thesis using active by auto
qed

lemma tasks_idle_kept:
  assumes s: "stepping m E T n t w t' a w'" and t1: "(T(n := t')) n1 = Some t1"
  shows "task_idle w' (T(n := t')) t1"
proof (cases "n1 = n")
  case False
  note d = steppingD [OF s]
  have "task_idle w T t1" using d(4) t1 False by (auto simp: one_aggregation_def)
  moreover have "idle w' (T(n := t')) (input_key i) v" if "idle w T (input_key i) v" for i v by (rule idle_kept [OF s that])
  ultimately show ?thesis by (cases t1) auto
next
  case True
  then have t': "t' = Some t1" using t1 by simp
  note d = steppingD [OF s [unfolded t']]
  have later: "idle w T (input_key i) v \<Longrightarrow> idle w' (T(n := t')) (input_key i) v" for i v by (rule idle_kept [OF s])
  show ?thesis
  proof (cases t)
    case (AggExperiment i g)
    have "cx_ActiveVersion e = 0 \<or> idle w' (T(n := t')) (input_key i) (cx_ActiveVersion e)"
      if "GetExperiment E (si_ProjectID i) (si_ExperimentID i) w = Inr (Some e)" for e
    proof -
      have e: "e \<in> set (cw_exps w)" "exp_id e = (si_ProjectID i, si_ExperimentID i)" using get_experiment(2) [OF d(1) that] by auto
      have "(si_ProjectID i, si_AgentID i, si_ExperimentID i) \<in> exp_keys w"
        using d(6) by (simp add: AggExperiment snapshot_ok_def input_key_def)
      then have "exp_key e = input_key i" using parent_unique [OF d(5) e] exp_key_id_simp [OF e(2)] by (simp add: input_key_def)
      moreover have "cx_ActiveVersion e = 0 \<or> idle w T (exp_key e) (cx_ActiveVersion e)" using d(4) e(1) by (simp add: one_aggregation_def)
      ultimately show ?thesis using later [of i] by auto
    qed
    then show ?thesis using d(3) by (auto simp: AggExperiment cert_flow split: sum.splits option.splits)
  next
    case (AggLatest i g e active)
    have "1 \<le> next_version active latest \<and> (next_version active latest = 1 \<or> idle w' (T(n := t')) (input_key i) (next_version active latest - 1))"
      if "GetLatestAggregationWorkflow E i w = Inr latest" "\<not> (case latest of None \<Rightarrow> False | Some d \<Rightarrow> in_progress d)" for latest
    proof -
      have "active = 0 \<or> idle w T (input_key i) active" using d(8) by (simp add: AggLatest)
      moreover have "\<not> in_progress d" if "latest = Some d" for d using \<open>\<not> (case latest of None \<Rightarrow> False | Some d \<Rightarrow> in_progress d)\<close> that by simp
      ultimately show ?thesis using next_version_idle [OF d(1, 4) _ that(1)] later [of i] by blast
    qed
    then show ?thesis using d(3) by (auto simp: AggLatest cert_flow split: sum.splits if_splits)
  next
    case (AggPoll i v x)
    have agg: "aggregating t = Some (input_key i, v)" by (simp add: AggPoll)
    have "(input_key i, v) \<in> agg_keys w'"
      using latest_keys [OF one_aggregationD(1) [OF d(4, 2) agg]] d(9) by (auto simp: grows_def)
    then have "idle w' (T(n := t')) (input_key i) v" if "aggregating t1 = None"
      using that one_aggregationD(2) [OF d(4, 2) agg] by (auto simp: idle_def t')
    then show ?thesis using d(3) by (auto simp: AggPoll cert_flow polls split: prod.splits option.splits if_splits)
  qed (use d(3) in \<open>(auto simp: cert_flow polls split: sum.splits option.splits prod.splits if_splits)[1]\<close>)+
qed

lemma idle_weaken:
  assumes "idle w T k v" "\<And>n t. T' n = Some t \<Longrightarrow> aggregating t \<noteq> None \<Longrightarrow> T n = Some t"
  shows "idle w T' k v"
  using assms unfolding idle_def by (metis option.distinct(1))

lemma task_idle_weaken:
  assumes "task_idle w T t" "\<And>k v. idle w T k v \<Longrightarrow> idle w T' k v"
  shows "task_idle w T' t"
  using assms(1) assms(2) [of "input_key i" for i] by (cases t) auto

lemma one_aggregation_weaken:
  assumes one: "one_aggregation w T" and T': "\<And>n t. T' n = Some t \<Longrightarrow> T n = Some t \<or> (\<exists>i. t = Adopting i)"
  shows "one_aggregation w T'"
proof -
  have agg: "T n = Some t" if "T' n = Some t" "aggregating t \<noteq> None" for n t using T' [OF that(1)] that(2) by auto
  have idle: "idle w T k v \<Longrightarrow> idle w T' k v" for k v by (erule idle_weaken) (rule agg)
  have tasks: "task_idle w T' t" if "T' n = Some t" for n t
    using T' [OF that]
  proof
    assume "T n = Some t"
    then have "task_idle w T t" using one by (simp add: one_aggregation_def)
    then show ?thesis by (rule task_idle_weaken) (rule idle)
  qed auto
  have latest: "latest_active w k v" "T' n' = Some t' \<Longrightarrow> aggregating t' = Some (k, v) \<Longrightarrow> n' = n"
    if "T' n = Some t" "aggregating t = Some (k, v)" for n t k v n' t'
    using one_aggregationD [OF one agg [OF that(1)] that(2)] agg [of n' t'] that(2) by auto
  show ?thesis
  proof (rule one_aggregationI)
    show "versions_ok w" using one by (simp add: one_aggregation_def)
  next
    fix d assume "d \<in> set (cw_exps w)"
    then have "cx_ActiveVersion d = 0 \<or> idle w T (exp_key d) (cx_ActiveVersion d)" using one by (simp add: one_aggregation_def)
    then show "cx_ActiveVersion d = 0 \<or> idle w T' (exp_key d) (cx_ActiveVersion d)" using idle by blast
  qed (erule latest(1), assumption, erule latest(2), assumption+, erule tasks)
qed

lemma one_aggregation_active [simp]: "one_aggregation (w\<lparr>cw_active := ks\<rparr>) T = one_aggregation w T"
proof -
  have "idle (w\<lparr>cw_active := ks\<rparr>) = idle w" "versions_ok (w\<lparr>cw_active := ks\<rparr>) = versions_ok w"
    "latest_active (w\<lparr>cw_active := ks\<rparr>) = latest_active w"
    by (auto simp: fun_eq_iff idle_def versions_ok_def latest_active_def)
  moreover from this(1) have "task_idle (w\<lparr>cw_active := ks\<rparr>) T t = task_idle w T t" for t by (cases t) simp_all
  ultimately show ?thesis by (simp add: one_aggregation_def)
qed

lemma one_aggregation_step:
  assumes "cert_step allowed s s'" "certification_ok m s" "one_aggregation (ct_world s) (ct_tasks s)"
  shows "one_aggregation (ct_world s') (ct_tasks s')"
  using assms(1)
proof cases
  case (requested i t n)
  show ?thesis using started_request(1) [OF requested(3)]
    by (simp add: requested(1)) (rule one_aggregation_weaken [OF assms(3)], auto split: if_splits)
next
  case (ran E n t t' a w')
  have s: "stepping m E (ct_tasks s) n t (ct_world s) t' a w'" using ran assms(2, 3) by (auto simp: stepping_def certification_ok_def)
  have latest: "latest_active w' k v \<and> (\<forall>n2 t2. ((ct_tasks s)(n := t')) n2 = Some t2 \<longrightarrow> aggregating t2 = Some (k, v) \<longrightarrow> n2 = n1)"
    if t1: "((ct_tasks s)(n := t')) n1 = Some t1" "aggregating t1 = Some (k, v)" for n1 t1 k v
  proof (cases "n1 = n")
    case True
    then have s1: "stepping m E (ct_tasks s) n t (ct_world s) (Some t1) a w'" using s t1(1) by simp
    show ?thesis using own_latest [OF s1 t1(2)] True by (auto split: if_splits)
  next
    case False
    then have T: "ct_tasks s n1 = Some t1" using t1(1) by simp
    have "aggregating t2 \<noteq> Some (k, v)" if "t' = Some t2" for t2
      using own_latest(2) [OF s [unfolded that], of k v n1 t1] False T t1(2) by blast
    then show ?thesis using others_latest [OF s T False t1(2)] one_aggregationD(2) [OF assms(3) T t1(2)] by (auto split: if_splits)
  qed
  have "one_aggregation w' ((ct_tasks s)(n := t'))"
    by (rule one_aggregationI [OF versions_kept [OF s] _ _ exps_idle_kept [OF s] tasks_idle_kept [OF s]]) (use latest in blast)+
  then show ?thesis by (simp add: ran(1))
next
  case restarted
  show ?thesis by (simp add: restarted) (rule one_aggregation_weaken [OF assms(3)], simp)
qed

lemma one_aggregation_reach:
  assumes "cert_reach allowed s" "\<And>i. allowed i \<Longrightarrow> m \<le> si_ExpectedRuns i"
  shows "keys_held s \<and> one_aggregation (ct_world s) (ct_tasks s)"
  using assms(1)
proof induction
  case empty
  show ?case
    by (simp add: keys_held_def exclusive_def held_def one_aggregation_def versions_ok_def agg_keys_def no_certificates_def)
next
  case (next_state s s')
  show ?case
    using keys_held_step [OF next_state(2)] one_aggregation_step [OF next_state(2) certification_reach [OF next_state(1) assms(2)]] next_state(3)
    by blast
qed

lemma cert_step_mono:
  assumes "cert_step allowed s s'" "\<And>i. allowed i \<Longrightarrow> allowed' i"
  shows "cert_step allowed' s s'"
  using assms(1)
proof cases
  case (requested i t n)
  show ?thesis unfolding requested(1) by (rule cert_step.requested [OF assms(2) requested(3, 4)]) (rule requested(2))
qed (auto intro: cert_step.ran cert_step.restarted)

lemma cert_reach_mono:
  assumes "cert_reach allowed s" "\<And>i. allowed i \<Longrightarrow> allowed' i"
  shows "cert_reach allowed' s"
  using assms(1)
proof induction
  case empty
  show ?case by (rule cert_reach.empty)
next
  case (next_state s s')
  have "cert_step allowed' s s'" by (rule cert_step_mono [OF next_state(2) assms(2)])
  then show ?case using next_state(3) by (rule cert_reach.next_state [rotated])
qed

text \<open>Only finitely many requests have been made, so what they ask for is bounded.\<close>

lemma cert_reach_bounded: "cert_reach allowed s \<Longrightarrow> \<exists>m. cert_reach (\<lambda>i. m \<le> si_ExpectedRuns i) s"
proof (induction rule: cert_reach.induct)
  case empty
  show ?case by (blast intro: cert_reach.empty)
next
  case (next_state s s')
  then obtain m where m: "cert_reach (\<lambda>i. m \<le> si_ExpectedRuns i) s" by blast
  have "\<exists>m'. cert_step (\<lambda>i. m' \<le> si_ExpectedRuns i) s s'"
    using next_state(2) by cases (auto intro: cert_step.intros)
  then obtain m' where m': "cert_step (\<lambda>i. m' \<le> si_ExpectedRuns i) s s'" by blast
  let ?ok = "\<lambda>i. min m m' \<le> si_ExpectedRuns i"
  have "cert_reach ?ok s" by (rule cert_reach_mono [OF m]) auto
  moreover have "cert_step ?ok s s'" by (rule cert_step_mono [OF m']) auto
  ultimately show ?case by (blast intro: cert_reach.next_state)
qed

section \<open>Properties\<close>

lemma parent_agent:
  assumes "world_ok m w" "d \<in> set (cw_exps w)" "exp_of p x d" "(p, a, x) \<in> exp_keys w"
  shows "a = cx_AgentID d"
  using parent_unique [OF assms(1, 2) _ assms(4)] assms(3) by (simp add: key_queries)

text \<open>C7. An experiment certifies one agent: whatever agents concurrent callers name, every document of a run and of an
  aggregation belongs to an experiment's parent document and carries that document's agent, there is one parent per
  experiment, and the parent is never missing where the pipeline relies on it.\<close>

theorem one_agent_per_experiment:
  assumes "cert_reach allowed s"
  shows "(\<forall>d \<in> set (cw_exps (ct_world s)).
      (\<forall>d' \<in> set (cw_exps (ct_world s)). same_cert_exp d d' \<longrightarrow> d' = d) \<and>
      (\<forall>r \<in> set (cw_runs (ct_world s)). exp_of (cr_ProjectID r) (cr_ExperimentID r) d \<longrightarrow> cr_AgentID r = cx_AgentID d) \<and>
      (\<forall>g \<in> set (cw_aggs (ct_world s)). exp_of (ca_ProjectID g) (ca_ExperimentID g) d \<longrightarrow> ca_AgentID g = cx_AgentID d)) \<and>
    (\<forall>r \<in> set (cw_runs (ct_world s)). \<exists>d \<in> set (cw_exps (ct_world s)). exp_of (cr_ProjectID r) (cr_ExperimentID r) d) \<and>
    (\<forall>g \<in> set (cw_aggs (ct_world s)). \<exists>d \<in> set (cw_exps (ct_world s)). exp_of (ca_ProjectID g) (ca_ExperimentID g) d) \<and>
    (\<forall>n t E. ct_tasks s n = Some t \<and> cert_env_ok E \<longrightarrow> fst (snd (run_cert E t (ct_world s))) \<noteq> Some Crashed)"
proof -
  obtain m where "cert_reach (\<lambda>i. m \<le> si_ExpectedRuns i) s" using cert_reach_bounded [OF assms] by blast
  then have ok: "certification_ok m s" by (rule certification_reach)
  then have w: "world_ok m (ct_world s)" by (simp add: certification_ok_def)
  have run: "(cr_ProjectID r, cr_AgentID r, cr_ExperimentID r) \<in> exp_keys (ct_world s)" if "r \<in> set (cw_runs (ct_world s))" for r
    using w that by (simp add: world_ok_def run_key_def)
  have agg: "(ca_ProjectID g, ca_AgentID g, ca_ExperimentID g) \<in> exp_keys (ct_world s)" if "g \<in> set (cw_aggs (ct_world s))" for g
    using w that by (simp add: world_ok_def snapshot_ok_def agg_key_def)
  have parent: "\<exists>d \<in> set (cw_exps (ct_world s)). exp_of p x d" if "(p, a, x) \<in> exp_keys (ct_world s)" for p a x
    using that by (auto simp: exp_keys_def exp_key_def exp_of_def)
  have unique: "d' = d" if "d \<in> set (cw_exps (ct_world s))" "d' \<in> set (cw_exps (ct_world s))" "same_cert_exp d d'" for d d'
  proof (rule inj_onD [of exp_id])
    show "inj_on exp_id (set (cw_exps (ct_world s)))" using w by (simp add: world_ok_def distinct_map)
    show "exp_id d' = exp_id d" using that(3) by (simp add: same_cert_exp_def exp_of_def exp_id_def)
  qed (rule that)+
  have crash: "fst (snd (run_cert E t (ct_world s))) \<noteq> Some Crashed" if "ct_tasks s n = Some t" "cert_env_ok E" for n t E
  proof -
    have "task_ok m (ct_world s) t" using ok that(1) by (simp add: certification_ok_def)
    moreover obtain t' a w' where "run_cert E t (ct_world s) = (t', a, w')" by (cases "run_cert E t (ct_world s)") auto
    ultimately show ?thesis using run_cert_no_crash [OF that(2)] by fastforce
  qed
  show ?thesis using unique parent_agent [OF w] run agg parent [OF run] parent [OF agg] crash by blast
qed


text \<open>C15. One pipeline works on a run and one on the aggregation of an experiment: two goroutines past the table of active
  pipelines are for different keys, and at most one goroutine starts or polls an aggregation of an experiment, even
  when answers of the database are lost.\<close>

theorem one_pipeline_at_a_time:
  assumes "cert_reach allowed s" "ct_tasks s n = Some t" "ct_tasks s n' = Some t'"
    "held_key t \<noteq> None \<and> held_key t' = held_key t \<or>
     (\<exists>p a x v a' v'. aggregating t = Some ((p, a, x), v) \<and> aggregating t' = Some ((p, a', x), v'))"
  shows "n' = n"
proof -
  obtain m where reach: "cert_reach (\<lambda>i. m \<le> si_ExpectedRuns i) s" using cert_reach_bounded [OF assms(1)] by blast
  have ok: "certification_ok m s" by (rule certification_reach [OF reach])
  have inv: "keys_held s" "one_aggregation (ct_world s) (ct_tasks s)" using one_aggregation_reach [OF reach] by auto
  show ?thesis using assms(4)
  proof (elim disjE exE conjE)
    assume "held_key t \<noteq> None" "held_key t' = held_key t"
    then show ?thesis using inv(1) assms(2, 3) by (auto simp: keys_held_def exclusive_def held_def)
  next
    fix p a x v a' v'
    assume agg: "aggregating t = Some ((p, a, x), v)" "aggregating t' = Some ((p, a', x), v')"
    have parent: "k \<in> exp_keys (ct_world s)" if "ct_tasks s n0 = Some t0" "aggregating t0 = Some (k, u)" for n0 t0 k u
    proof -
      have "task_ok m (ct_world s) t0" using ok that(1) by (simp add: certification_ok_def)
      then show ?thesis using that(2) by (cases t0) (auto simp: parent_ok_def)
    qed
    obtain d where d: "d \<in> set (cw_exps (ct_world s))" "exp_of p x d"
      using parent [OF assms(2) agg(1)] by (auto simp: exp_keys_def exp_key_def exp_of_def)
    have w: "world_ok m (ct_world s)" using ok by (simp add: certification_ok_def)
    have a: "a' = a"
      using parent_agent [OF w d parent [OF assms(2) agg(1)]] parent_agent [OF w d parent [OF assms(3) agg(2)]] by simp
    have l: "latest_active (ct_world s) (p, a, x) v" "latest_active (ct_world s) (p, a, x) v'"
      using one_aggregationD(1) [OF inv(2) assms(2) agg(1)] one_aggregationD(1) [OF inv(2) assms(3) agg(2)] by (simp_all add: a)
    then have "v' = v" using latest_keys [OF l(1)] latest_keys [OF l(2)] by (auto simp: latest_active_def intro: antisym)
    then show ?thesis using one_aggregationD(2) [OF inv(2) assms(2) agg(1) assms(3)] agg(2) by (simp add: a)
  qed
qed

section \<open>An example\<close>

text \<open>A certifier that completes everything at once.\<close>

definition demo_cert_env :: cert_env where
  "demo_cert_env = \<lparr>ce_exps = list_coll same_cert_exp, ce_runs = list_coll same_cert_run, ce_aggs = list_coll same_cert_agg,
     ce_upsert_exp = list_upsert, ce_upsert_run = list_upsert, ce_cursor_fails = False, ce_done = False, ce_now = 7,
     ce_base = ''http://certifier'', ce_http = (\<lambda>verb path body. Answered 200 ''ok''),
     ce_accepted = (\<lambda>_. Some (''task'', ''url'')), ce_bucketing = (\<lambda>_. Some \<lparr>bs_Status = ''completed'', bs_Error = NoErrorJson\<rparr>),
     ce_cert_accepted = (\<lambda>_. Some (''cert'', ''url'')),
     ce_aggregation = (\<lambda>_. Some \<lparr>as_Status = ''COMPLETED'', as_Result = Some [(''certification_id'', Some ''c1'')], as_Error = None\<rparr>)\<rparr>"

lemma demo_cert_env_ok: "cert_env_ok demo_cert_env"
  by (simp add: cert_env_ok_def demo_cert_env_def list_coll_ok list_upsert_ok)

definition demo_input :: "string \<Rightarrow> StartInput" where
  "demo_input run = \<lparr>si_ProjectID = ''p'', si_AgentID = ''a'', si_AgentName = ''Agent'', si_ExperimentID = ''x'',
     si_ExperimentRunID = run, si_ExpectedRuns = 1, si_NotifyID = [], si_FaultWindows = []\<rparr>"

definition ask :: "nat \<Rightarrow> StartInput \<Rightarrow> cert_state \<Rightarrow> cert_state" where
  "ask n i s = (case StartCertificationGeneration i of Inl e \<Rightarrow> s | Inr t \<Rightarrow> s\<lparr>ct_tasks := (ct_tasks s)(n := Some t)\<rparr>)"

primrec advance :: "cert_env \<Rightarrow> nat \<Rightarrow> nat \<Rightarrow> cert_state \<Rightarrow> cert_state" where
  "advance E n 0 s = s"
| "advance E n (Suc k) s = advance E n k (case ct_tasks s n of None \<Rightarrow> s
     | Some t \<Rightarrow> (case run_cert E t (ct_world s) of (t', a, w') \<Rightarrow> s\<lparr>ct_world := w', ct_tasks := (ct_tasks s)(n := t')\<rparr>))"

lemma ask_reach:
  "cert_reach allowed s \<Longrightarrow> allowed i \<Longrightarrow> ct_tasks s n = None \<Longrightarrow> cert_reach allowed (ask n i s)"
  by (auto simp: ask_def split: sum.split intro: cert_reach.next_state cert_step.requested)

lemma advance_reach: "cert_env_ok E \<Longrightarrow> cert_reach allowed s \<Longrightarrow> cert_reach allowed (advance E n k s)"
proof (induction k arbitrary: s)
  case (Suc k)
  show ?case
    using Suc by (auto split: option.split prod.split intro: cert_reach.next_state cert_step.ran)
qed simp

definition demo_certified :: cert_state where
  "demo_certified = advance demo_cert_env 0 21 (ask 0 (demo_input ''r1'') no_certificates)"

definition demo_polling :: cert_state where
  "demo_polling = advance demo_cert_env 0 18 (ask 0 (demo_input ''r1'') no_certificates)"

lemma demo_certified_reach:
  "cert_reach (\<lambda>i. 1 \<le> si_ExpectedRuns i) demo_certified" "cert_reach (\<lambda>i. 1 \<le> si_ExpectedRuns i) demo_polling"
proof -
  have "cert_reach (\<lambda>i. 1 \<le> si_ExpectedRuns i) (ask 0 (demo_input ''r1'') no_certificates)"
    by (rule ask_reach [OF cert_reach.empty]) (simp_all add: demo_input_def no_certificates_def)
  then show "cert_reach (\<lambda>i. 1 \<le> si_ExpectedRuns i) demo_certified" "cert_reach (\<lambda>i. 1 \<le> si_ExpectedRuns i) demo_polling"
    unfolding demo_certified_def demo_polling_def by (auto intro: advance_reach demo_cert_env_ok)
qed

lemma demo_aggregation: "map (\<lambda>g. (ca_RunIDs g, ca_SuccessfulRuns g, ca_Status g)) (cw_aggs (ct_world demo_certified)) = [([''r1''], 1, AggCompleted)]"
  by code_simp

lemma demo_certificate: "map cx_ActiveVersion (cw_exps (ct_world demo_certified)) = [1]"
  by code_simp

lemma demo_task: "map_option aggregating (ct_tasks demo_polling 0) = Some (Some ((''p'', ''a'', ''x''), 1))"
  by code_simp

lemma demo_documents:
  obtains d g where "cw_exps (ct_world demo_certified) = [d]" "cw_aggs (ct_world demo_certified) = [g]" "cx_ActiveVersion d = 1"
  using arg_cong [OF demo_aggregation, of length] demo_certificate
  by (auto simp: length_Suc_conv)

theorem one_agent_per_experiment_witness:
  "\<exists>d g. cw_exps (ct_world demo_certified) = [d] \<and> cw_aggs (ct_world demo_certified) = [g] \<and> ca_AgentID g = cx_AgentID d"
  by (rule demo_documents) (use one_agent_per_experiment [OF demo_certified_reach(1)] in auto)


theorem one_pipeline_at_a_time_witness:
  "{n. \<exists>t v. ct_tasks demo_polling n = Some t \<and> aggregating t = Some ((''p'', ''a'', ''x''), v)} = {0}"
proof -
  obtain t where t: "ct_tasks demo_polling 0 = Some t" "aggregating t = Some ((''p'', ''a'', ''x''), 1)"
    using demo_task by (cases "ct_tasks demo_polling 0") auto
  moreover have "n = 0" if "ct_tasks demo_polling n = Some t'" "aggregating t' = Some ((''p'', ''a'', ''x''), v)" for n t' v
    by (rule one_pipeline_at_a_time [OF demo_certified_reach(2) t(1) that(1)]) (use t(2) that(2) in blast)
  ultimately show ?thesis by blast
qed

section \<open>What is not kept\<close>

text \<open>
  The client returns nothing beside an error, so a conflict never carries the task that is already active: the branch
  that would go on polling it is dead, and the run or the aggregation is marked failed.
\<close>

lemma no_answer_beside_error:
  "StartBucketing E req = (Some e, resp) \<Longrightarrow> resp = None" "StartAggregation E req' = (Some e, resp') \<Longrightarrow> resp' = None"
  by (auto simp: StartBucketing_def StartAggregation_def answer_or_error_def split: prod.splits option.splits)

lemma conflict_fails_the_run:
  assumes "StartBucketing E (bucketing_request i) = (Some (APIError 409 body), resp)"
  shows "run_cert E (BucketStart i) w = go_on (Releasing i) (snd (UpdateRunWorkflow E i (\<lambda>d. d\<lparr>cr_Status := RunFailed,
    cr_Error := Some (failed_with E ''BUCKETING_TRIGGER_FAILED'' (cert_error_text (APIError 409 body)))\<rparr>) w))"
  using no_answer_beside_error(1) [OF assms] assms by (simp add: already_active_def)

text \<open>
  An aggregation still running after the last poll, or when the process restarts, stays so: nothing polls it again, and
  while it is the latest no pipeline of the experiment creates another.
\<close>

lemma polling_stops: "attempt > MaxPollAttempts \<Longrightarrow> run_cert E (AggPoll i v attempt) w = go_on (Releasing i) w"
  by simp

lemma unfinished_aggregation_blocks:
  assumes "GetLatestAggregationWorkflow E i w = Inr (Some d)" "in_progress d"
  shows "run_cert E (AggLatest i g e v) w = go_on (Releasing i) w"
  using assms by simp

text \<open>After an aggregation has failed, asking for any of its runs again does nothing: they are completed.\<close>

lemma completed_run_not_retried:
  assumes "GetRunWorkflow E i w = Inr (Some d)" "cr_Status d = RunCompleted"
  shows "run_cert E (CheckingRun i) w = answer_with (Started \<lparr>so_Status = ''ALREADY_COMPLETED'', so_RunStatus = Some RunCompleted\<rparr>) w"
  using assms by simp

end
