(* ===== verification/Spec2Isabelle.thy ===== *)
theory Spec2Isabelle
  imports Registry_Images Event_Tracker Auth_Api Experiment_Validation Run_Events Fault_Windows Chaos_Rbac Upgrade_Auth Agent_Api Infra_Life Namespace_Cleanup Infra_Connect Image_Settings Probe_Manifest Fault_Studio Certification_Machine
begin

text \<open>
  Verification library of the AgentCert control plane (a ChaosCenter with agents under test). All paths
  below are under \<^verbatim>\<open>src/chaoscenter/\<close>.

  The program. An authentication service (\<^verbatim>\<open>authentication/\<close>) keeps users, projects and their members in
  MongoDB, gives out sessions and answers the other services over gRPC. A GraphQL server
  (\<^verbatim>\<open>graphql/server/\<close>) stores experiments, checks them against the hub of faults, applications and agents
  before a run is launched, launches runs one after another, and receives their events. An upgrade agent
  (\<^verbatim>\<open>upgrade-agents/control-plane/\<close>) migrates the databases between releases.

  Theories and what they model.

  \<^item> \<^verbatim>\<open>Go_Prelude\<close>: the Go standard library as the code uses it (\<^verbatim>\<open>strings\<close>, \<^verbatim>\<open>strconv\<close> at 64 bits,
    \<^verbatim>\<open>strings.Split\<close>, case folding), with the facts all components share: splitting and joining,
    searching, and the round trip of a number through its text.
  \<^item> \<^verbatim>\<open>Image_Ref\<close>: \<^verbatim>\<open>pkg/imageref\<close>, the rewriting of image references to a registry. The contract of a
    resolver is the locale \<^verbatim>\<open>image_resolver\<close>, interpreted on \<^verbatim>\<open>Resolve\<close>. Shown: it is total, idempotent
    and pulls from the configured registry.
  \<^item> \<^verbatim>\<open>Auth_Entities\<close>, \<^verbatim>\<open>Auth_Mongo\<close>, \<^verbatim>\<open>Auth_Repo\<close>: the entities, the errors, the sanitizers; a Mongo collection
    by contract (\<^verbatim>\<open>coll_ok\<close>); the repositories and the state transaction. \<^verbatim>\<open>Auth_Rbac\<close>: the role validator.
    \<^verbatim>\<open>Auth_Projects\<close> and \<^verbatim>\<open>Auth_Users\<close>: one definition per REST handler. \<^verbatim>\<open>Auth_Machine\<close>: the service as a
    machine whose steps are requests, its invariant (every project keeps an accepted owner, identifiers
    are distinct, roles are known) and the preservation by each handler. \<^verbatim>\<open>Auth_Properties\<close>: what the
    service guarantees and the requests that get around a guard. \<^verbatim>\<open>Auth_Api\<close>: list queries, gRPC lookups,
    start-up.
  \<^item> \<^verbatim>\<open>Fault_Catalog\<close>: \<^verbatim>\<open>pkg/faultcatalog\<close>, the catalog of faults and applications built from the hub, its
    lookups and its cache, against an order-free specification.
  \<^item> \<^verbatim>\<open>Chart_Config\<close>: \<^verbatim>\<open>pkg/chartconfig\<close>, the settings a chart offers and the documents it accepts.
    \<^verbatim>\<open>Fault_Config\<close>: \<^verbatim>\<open>pkg/faultconfig\<close>, the environment of a fault in a workflow and the move of its targets.
    \<^verbatim>\<open>Workflow_Spec\<close>: the part of an Argo workflow these read, and the reading of install steps.
    \<^verbatim>\<open>Experiment_Validation\<close>: \<^verbatim>\<open>pkg/chaos_experiment/ops/validation.go\<close> and \<^verbatim>\<open>install_config.go\<close>, the gate an
    experiment passes, over the catalog and the chart settings.
  \<^item> \<^verbatim>\<open>Multi_Run\<close>: batches of runs (\<^verbatim>\<open>pkg/chaos_experiment_run/handler\<close>: the chain, the reconciler, the batch
    start and the launch check) as a transition system whose steps are single database operations, so
    that any interleaving of goroutines is a sequence of steps. The locale \<^verbatim>\<open>dispatch_budget\<close> is the
    contract of the slot counter, interpreted on the code's.
  \<^item> \<^verbatim>\<open>Upgrade_Path\<close>, \<^verbatim>\<open>Upgrade_Auth\<close>: the upgrade agent: versions and their order, the path, the run, and
    the 3.9.0 migration, which is shown to establish the invariant of \<^verbatim>\<open>Auth_Machine\<close>.
  \<^item> \<^verbatim>\<open>Registry_Images\<close>: \<^verbatim>\<open>imageref.RewriteText\<close>, \<^verbatim>\<open>PostRender\<close> and
    \<^verbatim>\<open>pkg/chaos_experiment/ops/registry_images.go\<close>, which apply the resolver of \<^verbatim>\<open>Image_Ref\<close> to the lines of a
    manifest and to a workflow. \<^verbatim>\<open>Image_Settings\<close>: \<^verbatim>\<open>pkg/image_registry\<close>, which registry a project has.
  \<^item> \<^verbatim>\<open>Fault_Families\<close> (\<^verbatim>\<open>utils/faults.go\<close>), \<^verbatim>\<open>Go_Float\<close> (\<^verbatim>\<open>float64\<close> as rationals rounded to 53 bits),
    \<^verbatim>\<open>Run_Scoring\<close> (\<^verbatim>\<open>ProcessCompletedExperimentRun\<close>, \<^verbatim>\<open>reconcileRunPhase\<close>): the score and the phase of a finished
    run, the score a percentage, the stored number of passed faults that of the verdicts. \<^verbatim>\<open>Fault_Windows\<close>
    (\<^verbatim>\<open>computeFaultCohort\<close>, \<^verbatim>\<open>computeFaultWindows\<close>): when each fault was active and which ran beside it.
  \<^item> \<^verbatim>\<open>Run_Events\<close>: the run documents and their ten last copies under events, stops and deletions
    (\<^verbatim>\<open>pkg/chaos_experiment_run\<close>, \<^verbatim>\<open>pkg/chaos_experiment/handler\<close>), refining an abstract store in which a
    completed run does not change any more.
  \<^item> \<^verbatim>\<open>Chaos_Rbac\<close>: the Kubernetes permissions of a run (\<^verbatim>\<open>handler.go\<close>, \<^verbatim>\<open>preflight_chaos.go\<close>): what is
    missing, what is created, that the remediation suffices, and the clean-up.
  \<^item> \<^verbatim>\<open>Event_Tracker\<close>: \<^verbatim>\<open>event-tracker/\<close>, the policies that start an experiment when a workload changes, and
    the server's answer.
  \<^item> \<^verbatim>\<open>Agent_Registry\<close>, \<^verbatim>\<open>Langfuse_Client\<close>, \<^verbatim>\<open>Agent_Service\<close>, \<^verbatim>\<open>Agent_Helm\<close>, \<^verbatim>\<open>Agent_Api\<close>,
    \<^verbatim>\<open>Agent_Lifecycle\<close>: \<^verbatim>\<open>pkg/agent_registry\<close>, from documents and validation over the clients to resolvers and
    the life cycle as a state machine with background jobs.
  \<^item> \<^verbatim>\<open>Infra_Manifest\<close>, \<^verbatim>\<open>Infra_Service\<close>, \<^verbatim>\<open>Infra_Life\<close>: \<^verbatim>\<open>pkg/chaos_infrastructure\<close>, \<^verbatim>\<open>pkg/environment\<close>:
    the manifest an infrastructure is installed from, the operations, and what holds in every reachable
    state. \<^verbatim>\<open>Namespace_Cleanup\<close>: the finalizer controller against a cluster that may answer anything.
    \<^verbatim>\<open>Infra_Connect\<close>: subscribers that connect, and the map of their channels, as a step machine.
  \<^item> \<^verbatim>\<open>Model_Provider\<close>, \<^verbatim>\<open>Litellm_Client\<close>, \<^verbatim>\<open>Model_Registry\<close>, \<^verbatim>\<open>Registry_Machine\<close>: \<^verbatim>\<open>pkg/model_config\<close>: what
    a project may register as a model, the client of LiteLLM's API, the operations as tasks, and their
    interleavings with the reconciler and crashes.
  \<^item> \<^verbatim>\<open>Gql_Tenancy\<close>: \<^verbatim>\<open>pkg/authorization\<close> and the resolvers of environments, infrastructures and models. The
    locale \<^verbatim>\<open>project_operation\<close> is the contract of an operation bound to a project: the documents of other
    projects stay as they are. It is interpreted on each operation, on those of
    \<^verbatim>\<open>Fault_Studio\<close>, \<^verbatim>\<open>Image_Settings\<close> and \<^verbatim>\<open>Probes\<close>; with the role check, documents change only by requests of a project's members.
  \<^item> \<^verbatim>\<open>Fault_Studio\<close>: \<^verbatim>\<open>pkg/fault_studio\<close> and its collection: which faults of a hub a project has
    selected, and the counters of the selection.
  \<^item> \<^verbatim>\<open>Probes\<close>, \<^verbatim>\<open>Probe_Manifest\<close>: \<^verbatim>\<open>pkg/probe\<close>: the probes of a project, whose updates may be written late, and how
    an experiment's inline probes are stored, referenced and looked up again for a run, with what is lost and the
    pointers the entries of a run share.
  \<^item> \<^verbatim>\<open>Certification\<close>, \<^verbatim>\<open>Certification_Machine\<close>: \<^verbatim>\<open>pkg/certification\<close>: the requests and the pipelines they
    start as tasks, and their interleavings. An experiment certifies one agent, a certificate rests on enough
    completed runs, and one pipeline works on a run at a time.

  How the parts meet. The hypotheses on MongoDB (\<^verbatim>\<open>coll_ok\<close> of \<^verbatim>\<open>Auth_Mongo\<close>, with the unique index of the
  collection as its argument) are shared by all stores. The migration of \<^verbatim>\<open>Upgrade_Auth\<close> ends in the invariant
  \<^verbatim>\<open>Auth_Machine\<close> starts from. The role check of \<^verbatim>\<open>Gql_Tenancy\<close> is answered by the model of the
  authentication service. \<^verbatim>\<open>Experiment_Validation\<close> runs on \<^verbatim>\<open>Fault_Catalog\<close>, \<^verbatim>\<open>Chart_Config\<close> and
  \<^verbatim>\<open>Fault_Config\<close>; \<^verbatim>\<open>Multi_Run\<close> and \<^verbatim>\<open>Run_Events\<close> take the runs it lets through, \<^verbatim>\<open>Run_Scoring\<close> and
  \<^verbatim>\<open>Fault_Windows\<close> evaluate them, and \<^verbatim>\<open>Certification\<close> reads the windows.

  Bounds and parameters.

  \<^item> Texts are ASCII. A panic, a \<^verbatim>\<open>log.Fatal\<close> and an index out of range are values: \<open>None\<close>, \<open>Panics\<close>,
    \<open>Crashed\<close>. Durations and times are 64-bit nanoseconds where they can wrap. Floats neither overflow nor
    underflow in the range of the program's values.
  \<^item> The order Go visits a map in is an argument. So are clocks (one reading per operation or per task),
    random keys, identifiers, and decoders the sources only call (JSON, YAML, base64, RFC 3339, JMESPath, URLs,
    tokens).
  \<^item> Helm, \<^verbatim>\<open>kubectl\<close>, HTTP, Langfuse, LiteLLM and the certifier are parameters. The Kubernetes API is a
    parameter whose answers may depend on all earlier calls, or, for permissions, its documented store.
  \<^item> A goroutine is a list of tasks, a task what it does between two effects others can see; a step relation
    interleaves them. Runs to the end of one operation recurse on a rank of its next task; the polls of a
    pipeline are bounded by the code's own limit of 120, so no fuel is invented.

  Not modelled.

  \<^item> Generated code (\<^verbatim>\<open>graph/generated\<close>, \<^verbatim>\<open>graph/model\<close>, \<^verbatim>\<open>protos\<close>), mocks, the web frontend, start-up and
    routing, logging.
  \<^item> The rest of the resolvers: a role check over gRPC and one call, as those of \<^verbatim>\<open>Gql_Tenancy\<close>.
  \<^item> The rest of the run handler and of the experiment service and handler: the rewriting of Kubernetes
    manifests and the aggregation pipelines of the listings, which are MongoDB programs. The listings of
    infrastructures and environments, for the same reason.
  \<^item> Chaos hubs, GitOps, application and agent hubs: git checkouts, directories and Helm around few
    decisions. The emission of traces. The subscriber: Kubernetes informers around a websocket.
  \<^item> The application registry, whose handlers nothing registers.
  \<^item> The listings of probes with the verdicts of past runs, for the same reason as the other listings.
\<close>

end
